(* ===== verification/OVF_Prelude.thy ===== *)
theory OVF_Prelude
  imports Main "HOL-Library.Word" "HOL-Library.List_Lexorder" "HOL-Library.Monad_Syntax"
begin

text \<open>
  Shared vocabulary of the development: the machine integers of the sources, the result type of
  \<^verbatim>\<open>core/include/ovf/core/result.hpp\<close>, and the standard containers the sources keep their state in.
  A \<^verbatim>\<open>std::unordered_set\<close> is a list of distinct elements and a \<^verbatim>\<open>std::unordered_map\<close> an
  association list with distinct keys, both in an iteration order; a \<^verbatim>\<open>std::map\<close> is an association
  list sorted by key. The order in which the standard library walks an unordered container is
  unspecified; the models walk it in insertion order, and the lemmas speak about the elements
  (\<open>set\<close>) and the lookups (\<open>map_of\<close>) only. The two interfaces a client of a container relies on
  are the locales \<open>set_container\<close> and \<open>map_container\<close>; both are interpreted here on the containers
  themselves.
\<close>

section \<open>Machine integers\<close>

type_synonym u8 = "8 word"
type_synonym u16 = "16 word"
type_synonym u32 = "32 word"
type_synonym u64 = "64 word"
type_synonym bytes = "u8 list"

named_theorems container_simps \<open>lookups and membership after container updates\<close>
named_theorems container_intros \<open>preservation of container invariants\<close>

section \<open>Result\<close>

text \<open>\<open>Result<T, E>\<close>: \<open>Inr\<close> is the value, \<open>Inl\<close> the error.\<close>

type_synonym ('a, 'e) result = "'e + 'a"

definition has_value :: "('a, 'e) result \<Rightarrow> bool" where
  "has_value r = (case r of Inr _ \<Rightarrow> True | Inl _ \<Rightarrow> False)"

definition result_map :: "('a \<Rightarrow> 'b) \<Rightarrow> ('a, 'e) result \<Rightarrow> ('b, 'e) result" where
  "result_map f r = (case r of Inr v \<Rightarrow> Inr (f v) | Inl e \<Rightarrow> Inl e)"

definition and_then :: "('a, 'e) result \<Rightarrow> ('a \<Rightarrow> ('b, 'e) result) \<Rightarrow> ('b, 'e) result" where
  "and_then r f = (case r of Inr v \<Rightarrow> f v | Inl e \<Rightarrow> Inl e)"

definition or_else :: "('a, 'e) result \<Rightarrow> ('e \<Rightarrow> ('a, 'f) result) \<Rightarrow> ('a, 'f) result" where
  "or_else r f = (case r of Inr v \<Rightarrow> Inr v | Inl e \<Rightarrow> f e)"

section \<open>Containers\<close>

definition us_contains :: "'a list \<Rightarrow> 'a \<Rightarrow> bool" where
  "us_contains s x = (x \<in> set s)"

definition us_insert :: "'a \<Rightarrow> 'a list \<Rightarrow> 'a list" where
  "us_insert x s = (if x \<in> set s then s else s @ [x])"

definition us_erase :: "'a \<Rightarrow> 'a list \<Rightarrow> 'a list" where
  "us_erase x s = filter (\<lambda>y. y \<noteq> x) s"

text \<open>\<open>insert(first, last)\<close>.\<close>

definition us_insert_all :: "'a list \<Rightarrow> 'a list \<Rightarrow> 'a list" where
  "us_insert_all xs s = fold us_insert xs s"

text \<open>\<open>find\<close>, \<open>operator[]\<close> as an assignment, \<open>emplace\<close> (which keeps an existing entry) and
  \<open>erase\<close> of an unordered map.\<close>

definition um_find :: "('k \<times> 'v) list \<Rightarrow> 'k \<Rightarrow> 'v option" where
  "um_find m k = map_of m k"

fun um_set :: "'k \<Rightarrow> 'v \<Rightarrow> ('k \<times> 'v) list \<Rightarrow> ('k \<times> 'v) list" where
  "um_set k v [] = [(k, v)]"
| "um_set k v ((k', v') # m) = (if k' = k then (k, v) # m else (k', v') # um_set k v m)"

definition um_emplace :: "'k \<Rightarrow> 'v \<Rightarrow> ('k \<times> 'v) list \<Rightarrow> ('k \<times> 'v) list" where
  "um_emplace k v m = (if um_find m k = None then m @ [(k, v)] else m)"

definition um_erase :: "'k \<Rightarrow> ('k \<times> 'v) list \<Rightarrow> ('k \<times> 'v) list" where
  "um_erase k m = filter (\<lambda>e. fst e \<noteq> k) m"

text \<open>\<open>std::map\<close>: the entries in key order.\<close>

fun om_set :: "'k::linorder \<Rightarrow> 'v \<Rightarrow> ('k \<times> 'v) list \<Rightarrow> ('k \<times> 'v) list" where
  "om_set k v [] = [(k, v)]"
| "om_set k v ((k', v') # m) =
     (if k < k' then (k, v) # (k', v') # m
      else if k = k' then (k, v) # m
      else (k', v') # om_set k v m)"

abbreviation um_ok :: "('k \<times> 'v) list \<Rightarrow> bool" where
  "um_ok m \<equiv> distinct (map fst m)"

abbreviation om_ok :: "('k::linorder \<times> 'v) list \<Rightarrow> bool" where
  "om_ok m \<equiv> sorted_wrt (<) (map fst m)"

section \<open>Interfaces\<close>

locale set_container =
  fixes elems :: "'s \<Rightarrow> 'a set"
    and contains :: "'s \<Rightarrow> 'a \<Rightarrow> bool"
    and insert_elem :: "'a \<Rightarrow> 's \<Rightarrow> 's"
    and erase_elem :: "'a \<Rightarrow> 's \<Rightarrow> 's"
    and invar :: "'s \<Rightarrow> bool"
  assumes contains_iff: "contains s x \<longleftrightarrow> x \<in> elems s"
    and elems_insert: "elems (insert_elem x s) = insert x (elems s)"
    and elems_erase: "elems (erase_elem x s) = elems s - {x}"
    and invar_insert: "invar s \<Longrightarrow> invar (insert_elem x s)"
    and invar_erase: "invar s \<Longrightarrow> invar (erase_elem x s)"
begin

lemma elems_fold_insert: "elems (fold insert_elem xs s) = elems s \<union> set xs"
  by (induction xs arbitrary: s) (auto simp: elems_insert)

lemma elems_fold_erase: "elems (fold erase_elem xs s) = elems s - set xs"
  by (induction xs arbitrary: s) (auto simp: elems_erase)

lemma invar_fold_insert: "invar s \<Longrightarrow> invar (fold insert_elem xs s)"
  by (induction xs arbitrary: s) (auto simp: invar_insert)

lemma invar_fold_erase: "invar s \<Longrightarrow> invar (fold erase_elem xs s)"
  by (induction xs arbitrary: s) (auto simp: invar_erase)

end

locale map_container =
  fixes find_key :: "'m \<Rightarrow> 'k \<Rightarrow> 'v option"
    and entries :: "'m \<Rightarrow> ('k \<times> 'v) list"
    and set_key :: "'k \<Rightarrow> 'v \<Rightarrow> 'm \<Rightarrow> 'm"
    and erase_key :: "'k \<Rightarrow> 'm \<Rightarrow> 'm"
    and invar :: "'m \<Rightarrow> bool"
  assumes find_set: "invar m \<Longrightarrow> find_key (set_key k v m) = (find_key m)(k \<mapsto> v)"
    and find_erase: "invar m \<Longrightarrow> find_key (erase_key k m) = (find_key m)(k := None)"
    and find_entries: "invar m \<Longrightarrow> find_key m = map_of (entries m)"
    and distinct_keys: "invar m \<Longrightarrow> distinct (map fst (entries m))"
    and invar_set: "invar m \<Longrightarrow> invar (set_key k v m)"
    and invar_erase: "invar m \<Longrightarrow> invar (erase_key k m)"
begin

lemma set_entries: "invar m \<Longrightarrow> set (entries m) = {(k, v). find_key m k = Some v}"
  by (auto simp: find_entries distinct_keys)

lemma set_entries_set:
  "invar m \<Longrightarrow> set (entries (set_key k v m)) = insert (k, v) {e \<in> set (entries m). fst e \<noteq> k}"
  by (auto simp: set_entries invar_set find_set split: if_splits)

lemma set_entries_erase:
  "invar m \<Longrightarrow> set (entries (erase_key k m)) = {e \<in> set (entries m). fst e \<noteq> k}"
  by (auto simp: set_entries invar_erase find_erase split: if_splits)

lemma distinct_entries: "invar m \<Longrightarrow> distinct (entries m)"
  using distinct_keys by (auto simp: distinct_map)

lemma sum_entries:
  fixes f :: "'k \<times> 'v \<Rightarrow> nat"
  assumes "invar m"
  shows "sum_list (map f (entries m)) = sum f (set (entries m))"
  using assms by (simp add: distinct_entries sum_list_distinct_conv_sum_set)

lemma length_entries: "invar m \<Longrightarrow> length (entries m) = card (set (entries m))"
  by (simp add: distinct_card distinct_entries)

lemma sum_erase_le:
  fixes f :: "'k \<times> 'v \<Rightarrow> nat"
  assumes "invar m"
  shows "sum_list (map f (entries (erase_key k m))) \<le> sum_list (map f (entries m))"
  using assms by (auto simp: sum_entries invar_erase set_entries_erase intro!: sum_mono2)

lemma length_erase_le: "invar m \<Longrightarrow> length (entries (erase_key k m)) \<le> length (entries m)"
  by (auto simp: length_entries invar_erase set_entries_erase intro!: card_mono)

lemma length_set_le: "invar m \<Longrightarrow> length (entries (set_key k v m)) \<le> Suc (length (entries m))"
proof -
  assume m: "invar m"
  have "card (set (entries (set_key k v m))) \<le> Suc (card {e \<in> set (entries m). fst e \<noteq> k})"
    using m by (simp add: set_entries_set card_insert_if)
  also have "card {e \<in> set (entries m). fst e \<noteq> k} \<le> card (set (entries m))"
    by (intro card_mono) auto
  finally show ?thesis
    using m by (simp add: length_entries invar_set)
qed

end

section \<open>The containers of the sources\<close>

lemma us_contains_iff [simp, container_simps]: "us_contains s x \<longleftrightarrow> x \<in> set s"
  by (simp add: us_contains_def)

lemma set_us_insert [simp, container_simps]: "set (us_insert x s) = insert x (set s)"
  by (auto simp: us_insert_def)

lemma set_us_erase [simp, container_simps]: "set (us_erase x s) = set s - {x}"
  by (auto simp: us_erase_def)

lemma distinct_us_insert [simp, container_intros]: "distinct s \<Longrightarrow> distinct (us_insert x s)"
  by (simp add: us_insert_def)

lemma distinct_us_erase [simp, container_intros]: "distinct s \<Longrightarrow> distinct (us_erase x s)"
  by (simp add: us_erase_def)

interpretation us: set_container set us_contains us_insert us_erase distinct
  by unfold_locales (auto simp: container_simps intro: container_intros)

lemma set_us_insert_all [simp, container_simps]: "set (us_insert_all xs s) = set s \<union> set xs"
  by (simp add: us_insert_all_def us.elems_fold_insert)

lemma distinct_us_insert_all [simp, container_intros]:
  "distinct s \<Longrightarrow> distinct (us_insert_all xs s)"
  by (simp add: us_insert_all_def us.invar_fold_insert)

lemma map_of_um_set [simp, container_simps]: "map_of (um_set k v m) = (map_of m)(k \<mapsto> v)"
  by (induction k v m rule: um_set.induct) (auto simp: fun_eq_iff)

lemma um_find_Nil [simp, container_simps]: "um_find [] k = None"
  by (simp add: um_find_def)

lemma um_find_set [simp, container_simps]: "um_find (um_set k v m) = (um_find m)(k \<mapsto> v)"
  by (simp add: um_find_def fun_eq_iff)

lemma um_find_erase [simp, container_simps]: "um_find (um_erase k m) = (um_find m)(k := None)"
  unfolding um_find_def um_erase_def by (induction m) (auto simp: fun_eq_iff)

lemma um_find_emplace [simp, container_simps]:
  "um_find (um_emplace k v m) = (if um_find m k = None then (um_find m)(k \<mapsto> v) else um_find m)"
  by (auto simp: um_emplace_def um_find_def fun_eq_iff map_add_def split: option.splits)

lemma fst_um_set: "fst ` set (um_set k v m) = insert k (fst ` set m)"
  by (induction k v m rule: um_set.induct) auto

lemma um_ok_set [simp, container_intros]: "um_ok m \<Longrightarrow> um_ok (um_set k v m)"
  by (induction k v m rule: um_set.induct) (auto simp: fst_um_set)

lemma um_ok_erase [simp, container_intros]: "um_ok m \<Longrightarrow> um_ok (um_erase k m)"
  unfolding um_erase_def by (induction m) auto

lemma um_ok_emplace [simp, container_intros]: "um_ok m \<Longrightarrow> um_ok (um_emplace k v m)"
  by (auto simp: um_emplace_def um_find_def map_of_eq_None_iff)

lemma um_find_eq_map_of: "um_find m = map_of m"
  by (simp add: fun_eq_iff um_find_def)

interpretation um: map_container um_find "\<lambda>m. m" um_set um_erase um_ok
  by unfold_locales (simp_all, simp add: um_find_eq_map_of)

lemma fst_om_set: "fst ` set (om_set k v m) = insert k (fst ` set m)"
  by (induction k v m rule: om_set.induct) auto

lemma om_ok_set [simp, container_intros]: "om_ok m \<Longrightarrow> om_ok (om_set k v m)"
  by (induction k v m rule: om_set.induct) (auto simp: fst_om_set)

lemma om_ok_erase [simp, container_intros]: "om_ok m \<Longrightarrow> om_ok (um_erase k m)"
  unfolding um_erase_def by (induction m) auto

lemma om_ok_distinct: "om_ok m \<Longrightarrow> um_ok m"
  by (simp add: strict_sorted_iff)

lemma map_of_om_set [simp, container_simps]:
  "om_ok m \<Longrightarrow> map_of (om_set k v m) = (map_of m)(k \<mapsto> v)"
proof (induction k v m rule: om_set.induct)
  case (2 k v k' v' m)
  then show ?case by (auto simp: fun_eq_iff)
qed simp

lemma um_find_om_set [simp, container_simps]:
  "om_ok m \<Longrightarrow> um_find (om_set k v m) = (um_find m)(k \<mapsto> v)"
  by (simp add: um_find_def fun_eq_iff)

interpretation om: map_container um_find "\<lambda>m. m" om_set um_erase om_ok
  by unfold_locales (simp_all add: om_ok_distinct, simp add: um_find_eq_map_of)

end
