(* ===== verification/Core_Uuid.thy ===== *)
theory Core_Uuid
  imports OVF_Prelude
begin

text \<open>
  The identifier of the core cluster, \<open>Uuid\<close> of \<open>src/core/include/ovf/core/uuid.hpp\<close>, its text, and the parser of that text in the
  communication runtime, \<open>ParseUuid\<close> of \<open>src/com/src/runtime.cpp\<close>. Printing and parsing are inverse, and the parser accepts the
  canonical form only.
\<close>

unbundle bit_operations_syntax

section \<open>Printing\<close>

type_synonym Uuid = bytes

definition kHex :: string where
  "kHex = ''0123456789abcdef''"

definition kHyphens :: "nat list" where
  "kHyphens = [4, 6, 8, 10]"

fun uuid_digits :: "nat \<Rightarrow> nat \<Rightarrow> u8 list \<Rightarrow> string" where
  "uuid_digits i hyphen [] = []"
| "uuid_digits i hyphen (b # bs) =
     (let here = hyphen < length kHyphens \<and> i = kHyphens ! hyphen in
      (if here then [CHR 0x2D] else []) @
      [kHex ! unat (drop_bit 4 b AND 0x0F), kHex ! unat (b AND 0x0F)] @
      uuid_digits (Suc i) (if here then Suc hyphen else hyphen) bs)"

definition Uuid_to_string :: "Uuid \<Rightarrow> string" where
  "Uuid_to_string u = uuid_digits 0 0 u"

section \<open>Parsing\<close>

text \<open>The parser the communication runtime uses, on the text of the JSON value.\<close>

definition Hex :: "char \<Rightarrow> u8 option" where
  "Hex value =
     (let n = of_char value :: nat in
      if 48 \<le> n \<and> n \<le> 57 then Some (of_nat (n - 48))
      else if 97 \<le> n \<and> n \<le> 102 then Some (of_nat (n - 97 + 10))
      else if 65 \<le> n \<and> n \<le> 70 then Some (of_nat (n - 65 + 10))
      else None)"

function uuid_loop :: "string \<Rightarrow> u8 list \<Rightarrow> u8 list option" where
  "uuid_loop cs out =
     (case cs of
        [] \<Rightarrow> Some out
      | c # rest \<Rightarrow>
          if c = CHR 0x2D then uuid_loop rest out
          else (case rest of
             [] \<Rightarrow> None
           | d # rest' \<Rightarrow>
               if length out \<ge> 16 then None
               else (case (Hex c, Hex d) of
                  (Some high, Some low) \<Rightarrow> uuid_loop rest' (out @ [push_bit 4 high OR low])
                | _ \<Rightarrow> None)))"
  by pat_completeness auto
termination by (relation "measure (length \<circ> fst)") auto

declare uuid_loop.simps [simp del]

definition parse_uuid_text :: "string \<Rightarrow> Uuid option" where
  "parse_uuid_text text' =
     (if length text' \<noteq> 36 \<or> text' ! 8 \<noteq> CHR 0x2D \<or> text' ! 13 \<noteq> CHR 0x2D \<or> text' ! 18 \<noteq> CHR 0x2D \<or> text' ! 23 \<noteq> CHR 0x2D then None
      else case uuid_loop text' [] of
        None \<Rightarrow> None
      | Some out \<Rightarrow> if length out = 16 then Some out else None)"

section \<open>Digits\<close>

definition hex_of :: "u8 \<Rightarrow> char \<times> char" where
  "hex_of b = (kHex ! unat (drop_bit 4 b AND 0x0F), kHex ! unat (b AND 0x0F))"

definition lower_hex :: "char \<Rightarrow> char" where
  "lower_hex c = (if 65 \<le> (of_char c :: nat) \<and> (of_char c :: nat) \<le> 70 then char_of (of_char c + 32 :: nat) else c)"

lemma Hex_digit: "n < 16 \<Longrightarrow> Hex (kHex ! n) = Some (of_nat n)"
proof -
  have "list_all (\<lambda>n. Hex (kHex ! n) = Some (of_nat n)) [0 ..< 16]" by code_simp
  then show "n < 16 \<Longrightarrow> ?thesis" by (simp add: list_all_iff)
qed

lemma digit_no_hyphen: "n < 16 \<Longrightarrow> kHex ! n \<noteq> CHR 0x2D"
proof -
  have "list_all (\<lambda>n. kHex ! n \<noteq> CHR 0x2D) [0 ..< 16]" by code_simp
  then show "n < 16 \<Longrightarrow> ?thesis" by (simp add: list_all_iff)
qed

lemma Hex_exact:
  assumes "Hex c = Some h"
  shows "unat h < 16 \<and> lower_hex c = kHex ! unat h \<and> c \<noteq> CHR 0x2D"
proof -
  have all: "list_all (\<lambda>c. case Hex c of None \<Rightarrow> True | Some h \<Rightarrow> unat h < 16 \<and> lower_hex c = kHex ! unat h \<and> c \<noteq> CHR 0x2D)
      ''0123456789abcdefABCDEF''" by code_simp
  let ?n = "of_char c :: nat"
  have codes: "(of_char :: char \<Rightarrow> nat) ` set ''0123456789abcdefABCDEF'' =
      {48, 49, 50, 51, 52, 53, 54, 55, 56, 57, 65, 66, 67, 68, 69, 70, 97, 98, 99, 100, 101, 102}" by auto
  have "?n \<in> {48, 49, 50, 51, 52, 53, 54, 55, 56, 57, 65, 66, 67, 68, 69, 70, 97, 98, 99, 100, 101, 102}"
    using assms by (simp add: Hex_def Let_def split: if_splits) arith+
  then obtain d where d: "d \<in> set ''0123456789abcdefABCDEF''" and eq: "?n = of_char d" unfolding codes [symmetric] by (rule imageE)
  have "c = d" using arg_cong [OF eq, of char_of] by (simp only: char_of_char)
  with d have "c \<in> set ''0123456789abcdefABCDEF''" by simp
  with all have "case Hex c of None \<Rightarrow> True | Some h \<Rightarrow> unat h < 16 \<and> lower_hex c = kHex ! unat h \<and> c \<noteq> CHR 0x2D"
    unfolding list_all_iff by (rule bspec)
  then show ?thesis using assms by simp
qed

lemma nibbles:
  fixes b :: u8
  shows "unat (drop_bit 4 b AND 0x0F) < 16" "unat (b AND 0x0F) < 16"
    "push_bit 4 (drop_bit 4 b AND 0x0F) OR (b AND 0x0F) = b"
proof -
  have mask: "(0x0F :: u8) = mask 4" by (simp add: mask_eq_exp_minus_1)
  have lt: "unat (x AND 0x0F) < 16" for x :: u8
    unfolding mask take_bit_eq_mask [symmetric] unsigned_take_bit_eq using take_bit_nat_less_exp [of 4 "unat x"] by simp
  show "unat (drop_bit 4 b AND 0x0F) < 16" "unat (b AND 0x0F) < 16" by (rule lt)+
  show "push_bit 4 (drop_bit 4 b AND 0x0F) OR (b AND 0x0F) = b"
    unfolding mask by (rule bit_word_eqI) (auto simp: bit_simps)
qed

lemma nibbles_join:
  fixes h l :: u8
  assumes "unat h < 16" "unat l < 16"
  shows "drop_bit 4 (push_bit 4 h OR l) AND 0x0F = h" "(push_bit 4 h OR l) AND 0x0F = l"
proof -
  have mask: "(0x0F :: u8) = mask 4" by (simp add: mask_eq_exp_minus_1)
  have "take_bit 4 h = h" "take_bit 4 l = l" using assms by (simp_all add: word_unat_eq_iff unsigned_take_bit_eq take_bit_nat_eq_self_iff)
  then have bits: "\<not> bit h n" "\<not> bit l n" if "4 \<le> n" for n using that by (metis bit_take_bit_iff not_less)+
  show "drop_bit 4 (push_bit 4 h OR l) AND 0x0F = h" "(push_bit 4 h OR l) AND 0x0F = l"
    unfolding mask using bits by (auto intro!: bit_word_eqI simp: bit_simps not_le [symmetric])
qed

lemma uuid_loop_simps:
  "uuid_loop [] out = Some out" "uuid_loop (CHR 0x2D # cs) out = uuid_loop cs out"
  by (subst uuid_loop.simps; simp)+

lemma uuid_loop_byte:
  assumes "length out < 16"
  shows "uuid_loop (kHex ! unat (drop_bit 4 b AND 0x0F) # kHex ! unat (b AND 0x0F) # cs) out = uuid_loop cs (out @ [b])"
  using assms nibbles [of b] digit_no_hyphen [OF nibbles(1)] Hex_digit [OF nibbles(1)] Hex_digit [OF nibbles(2)]
  by (subst uuid_loop.simps) simp

lemma uuid_loop_digits: "length out + length bs \<le> 16 \<Longrightarrow> uuid_loop (uuid_digits i h bs) out = Some (out @ bs)"
  by (induction i h bs arbitrary: out rule: uuid_digits.induct) (auto simp: uuid_loop_simps uuid_loop_byte Let_def)

definition hexes :: "u8 list \<Rightarrow> string" where
  "hexes bs = concat (map (\<lambda>b. [kHex ! unat (drop_bit 4 b AND 0x0F), kHex ! unat (b AND 0x0F)]) bs)"

lemma hexes_simps [simp]:
  "hexes [] = []" "hexes (b # bs) = kHex ! unat (drop_bit 4 b AND 0x0F) # kHex ! unat (b AND 0x0F) # hexes bs" "hexes (as @ bs) = hexes as @ hexes bs"
  by (simp_all add: hexes_def)

lemma length_hexes: "length (hexes bs) = 2 * length bs"
  by (induction bs) simp_all

text \<open>The canonical form of 8, 4, 4, 4 and 12 digits.\<close>

lemma Uuid_to_string_form:
  assumes "length u = 16"
  shows "Uuid_to_string u = take 8 (hexes u) @ [CHR 0x2D] @ take 4 (drop 8 (hexes u)) @ [CHR 0x2D] @ take 4 (drop 12 (hexes u)) @ [CHR 0x2D] @
    take 4 (drop 16 (hexes u)) @ [CHR 0x2D] @ drop 20 (hexes u)"
proof -
  have at: "uuid_digits i h bs = CHR 0x2D # uuid_digits i (Suc h) bs" if "(i, h) \<in> {(4, 0), (6, 1), (8, 2), (10, 3)}" "bs \<noteq> []" for i h bs
    using that by (cases bs) (auto simp: kHyphens_def)
  have run: "uuid_digits i h (take k bs @ bs') = hexes (take k bs) @ uuid_digits (i + length (take k bs)) h bs'"
    if "h < 4 \<longrightarrow> i + k \<le> kHyphens ! h \<or> kHyphens ! h < i" for i h k and bs bs' :: "u8 list"
    using that
  proof (induction k arbitrary: i bs)
    case (Suc k)
    have "\<not> (h < length kHyphens \<and> i = kHyphens ! h)" using Suc.prems by (auto simp: kHyphens_def)
    then show ?case using Suc by (cases bs) auto
  qed simp
  have tail: "uuid_digits i 4 bs = hexes bs" for i bs using run [of 4 i "length bs" bs "[]"] by simp
  have hex: "hexes (take k xs) = take (2 * k) (hexes xs)" "hexes (drop k xs) = drop (2 * k) (hexes xs)" for k xs
  proof -
    have "take (2 * k) (hexes xs) = hexes (take k xs) \<and> drop (2 * k) (hexes xs) = hexes (drop k xs)"
    proof (induction xs arbitrary: k)
      case (Cons a xs)
      then show ?case by (cases k) simp_all
    qed simp
    then show "hexes (take k xs) = take (2 * k) (hexes xs)" "hexes (drop k xs) = drop (2 * k) (hexes xs)" by simp_all
  qed
  have "Uuid_to_string u = hexes (take 4 u) @ CHR 0x2D # hexes (take 2 (drop 4 u)) @ CHR 0x2D # hexes (take 2 (drop 6 u)) @ CHR 0x2D #
      hexes (take 2 (drop 8 u)) @ CHR 0x2D # hexes (drop 10 u)"
    using run [of 0 0 4 u "drop 4 u"] at [of 4 0 "drop 4 u"] run [of 1 4 2 "drop 4 u" "drop 6 u"] at [of 6 1 "drop 6 u"]
      run [of 2 6 2 "drop 6 u" "drop 8 u"] at [of 8 2 "drop 8 u"] run [of 3 8 2 "drop 8 u" "drop 10 u"] at [of 10 3 "drop 10 u"]
      tail [of 10 "drop 10 u"] append_take_drop_id [of 2 "drop 4 u"] append_take_drop_id [of 2 "drop 6 u"] append_take_drop_id [of 2 "drop 8 u"] assms
    by (simp add: Uuid_to_string_def kHyphens_def flip: numeral_2_eq_2)
  then show ?thesis by (simp add: hex)
qed

text \<open>What the parser has read when it succeeds.\<close>

abbreviation (input) no_hyphens :: "string \<Rightarrow> string" where
  "no_hyphens \<equiv> filter (\<lambda>c. c \<noteq> CHR 0x2D)"

lemma lower_hyphen: "lower_hex (CHR 0x2D) = CHR 0x2D"
  by code_simp

lemma uuid_loop_read: "uuid_loop cs out = Some r \<Longrightarrow> \<exists>bs. r = out @ bs \<and> no_hyphens (map lower_hex cs) = hexes bs"
proof (induction cs out rule: uuid_loop.induct)
  case (1 cs out)
  show ?case
  proof (cases cs)
    case Nil
    then show ?thesis using 1(3) by (simp add: uuid_loop_simps)
  next
    case (Cons c rest)
    show ?thesis
    proof (cases "c = CHR 0x2D")
      case True
      then show ?thesis using 1(1) [OF Cons True] 1(3) Cons by (simp add: uuid_loop_simps lower_hyphen)
    next
      case False
      have "uuid_loop (c # rest) out = Some r" using 1(3) Cons by simp
      then obtain d rest' h l where r: "rest = d # rest'" "length out < 16" "Hex c = Some h" "Hex d = Some l"
        and next': "uuid_loop rest' (out @ [push_bit 4 h OR l]) = Some r"
        using False by (subst (asm) uuid_loop.simps) (auto split: list.splits if_splits option.splits)
      obtain bs where "r = (out @ [push_bit 4 h OR l]) @ bs" "no_hyphens (map lower_hex rest') = hexes bs"
        using 1(2) [OF Cons False r(1) _ _ r(3) r(4)] r(2) r(3,4) next' by auto
      moreover have "lower_hex c = kHex ! unat h" "lower_hex d = kHex ! unat l" "unat h < 16" "unat l < 16"
        using Hex_exact [OF r(3)] Hex_exact [OF r(4)] by auto
      moreover have "hexes ((push_bit 4 h OR l) # bs) = kHex ! unat h # kHex ! unat l # hexes bs"
        by (simp only: hexes_simps nibbles_join [OF \<open>unat h < 16\<close> \<open>unat l < 16\<close>])
      ultimately show ?thesis
        using digit_no_hyphen Cons r(1) by (intro exI [of _ "(push_bit 4 h OR l) # bs"]) (simp del: hexes_simps(2))
    qed
  qed
qed

lemma filter_length_eq: "length (filter P xs) = length xs \<Longrightarrow> filter P xs = xs"
  by (metis filter_True length_filter_less nat_neq_iff)

lemma hyphen_places:
  assumes "length t = 36" "t ! 8 = CHR 0x2D" "t ! 13 = CHR 0x2D" "t ! 18 = CHR 0x2D" "t ! 23 = CHR 0x2D"
    and "no_hyphens t = x" and "length x = 32"
  shows "t = take 8 x @ [CHR 0x2D] @ take 4 (drop 8 x) @ [CHR 0x2D] @ take 4 (drop 12 x) @ [CHR 0x2D] @ take 4 (drop 16 x) @ [CHR 0x2D] @ drop 20 x"
proof -
  let ?p1 = "take 8 t" and ?p2 = "take 4 (drop 9 t)" and ?p3 = "take 4 (drop 14 t)" and ?p4 = "take 4 (drop 19 t)" and ?p5 = "drop 24 t"
  have t: "t = ?p1 @ [CHR 0x2D] @ ?p2 @ [CHR 0x2D] @ ?p3 @ [CHR 0x2D] @ ?p4 @ [CHR 0x2D] @ ?p5"
  proof -
    have join: "take m (drop k t) @ CHR 0x2D # drop (Suc (k + m)) t = drop k t" if "k + m < 36" "t ! (k + m) = CHR 0x2D" for k m
      using that assms(1) Cons_nth_drop_Suc [of "k + m" t] append_take_drop_id [of m "drop k t"] by (simp add: add.commute)
    show ?thesis
      using join [of 19 4] join [of 14 4] join [of 9 4] join [of 0 8] assms(2-5) by simp
  qed
  have x: "x = no_hyphens ?p1 @ no_hyphens ?p2 @ no_hyphens ?p3 @ no_hyphens ?p4 @ no_hyphens ?p5"
    using arg_cong [OF t, of "filter (\<lambda>c. c \<noteq> CHR 0x2D)"] by (simp add: assms(6) del: append_take_drop_id)
  have "length (no_hyphens ?p1) \<le> 8" "length (no_hyphens ?p2) \<le> 4" "length (no_hyphens ?p3) \<le> 4" "length (no_hyphens ?p4) \<le> 4"
      "length (no_hyphens ?p5) \<le> 12"
    using assms(1) by (auto intro: order.trans [OF length_filter_le])
  then have "length (no_hyphens ?p1) = 8" "length (no_hyphens ?p2) = 4" "length (no_hyphens ?p3) = 4" "length (no_hyphens ?p4) = 4"
      "length (no_hyphens ?p5) = 12"
    using assms(7) x by (auto dest: arg_cong [of x _ length])
  then have "no_hyphens ?p1 = ?p1" "no_hyphens ?p2 = ?p2" "no_hyphens ?p3 = ?p3" "no_hyphens ?p4 = ?p4" "no_hyphens ?p5 = ?p5"
    using assms(1) by (auto intro!: filter_length_eq)
  then have "x = ?p1 @ ?p2 @ ?p3 @ ?p4 @ ?p5" using x by simp
  then show ?thesis using t assms(1) by simp
qed

text \<open>C21: printing and parsing an identifier are inverse. What \<open>Uuid::to_string\<close> gives is accepted by the deployment parser and
  gives the identifier back; and whatever text the parser accepts is, up to the case of its digits, the canonical text of the identifier it
  returns.\<close>

theorem uuid_text_exact:
  assumes "length u = 16"
  shows "parse_uuid_text (Uuid_to_string u) = Some u \<and>
    (parse_uuid_text s = Some u \<longrightarrow> map lower_hex s = Uuid_to_string u)"
proof
  have l: "length (hexes u) = 32" using assms by (simp add: length_hexes)
  have "length (Uuid_to_string u) = 36 \<and> Uuid_to_string u ! 8 = CHR 0x2D \<and> Uuid_to_string u ! 13 = CHR 0x2D \<and>
      Uuid_to_string u ! 18 = CHR 0x2D \<and> Uuid_to_string u ! 23 = CHR 0x2D"
    using l by (simp add: Uuid_to_string_form [OF assms] nth_append)
  moreover have "uuid_loop (Uuid_to_string u) [] = Some u"
    unfolding Uuid_to_string_def using uuid_loop_digits [of "[]" u 0 0] assms by simp
  ultimately show "parse_uuid_text (Uuid_to_string u) = Some u" using assms by (simp add: parse_uuid_text_def)
next
  show "parse_uuid_text s = Some u \<longrightarrow> map lower_hex s = Uuid_to_string u"
  proof
    assume "parse_uuid_text s = Some u"
    then have s: "length s = 36" "s ! 8 = CHR 0x2D" "s ! 13 = CHR 0x2D" "s ! 18 = CHR 0x2D" "s ! 23 = CHR 0x2D" "uuid_loop s [] = Some u"
      by (auto simp: parse_uuid_text_def split: if_splits option.splits)
    then have "no_hyphens (map lower_hex s) = hexes u" using uuid_loop_read [OF s(6)] by simp
    then show "map lower_hex s = Uuid_to_string u"
      unfolding Uuid_to_string_form [OF assms] using s assms
      by (intro hyphen_places) (simp_all add: lower_hyphen length_hexes)
  qed
qed

theorem uuid_text_exact_witness:
  "let u = [0x12, 0x34, 0x56, 0x78, 0x9A, 0xBC, 0xDE, 0xF0, 1, 2, 3, 4, 5, 6, 7, 8] in
   parse_uuid_text ''12345678-9ABC-DEF0-0102-030405060708'' = Some u \<and>
   parse_uuid_text (Uuid_to_string u) = Some u \<and>
   map lower_hex ''12345678-9ABC-DEF0-0102-030405060708'' = Uuid_to_string u"
proof -
  let ?u = "[0x12, 0x34, 0x56, 0x78, 0x9A, 0xBC, 0xDE, 0xF0, 1, 2, 3, 4, 5, 6, 7, 8] :: Uuid"
  have "parse_uuid_text ''12345678-9ABC-DEF0-0102-030405060708'' = Some ?u" by code_simp
  then show ?thesis using uuid_text_exact [of ?u "''12345678-9ABC-DEF0-0102-030405060708''"] by (simp add: Let_def)
qed

end
