(* ===== verification/Com_Inproc.thy ===== *)
theory Com_Inproc
  imports OVF_Prelude
begin

text \<open>
  The in-process transport, \<open>src/com/transports/inproc/src/inproc_transport.cpp\<close>, behind the transport interface of
  \<open>src/com/include/ovf/com/transport_abi.h\<close>: its state, every function of its table and the tasks it hands to the host's executor.

  A function of the table runs in two parts, as the code does: one that holds the transport's mutex, a function of the transport to a
  status, the transport and a list of actions, and the actions, which follow once the mutex is released. A callback is a function pointer
  with its user data and is named by a number; entering it is an event. The validity of an out-parameter or of a \<open>struct_size\<close> is a
  Boolean argument. The hash tables are association lists in the order of insertion; nothing that is proved depends on that order. The host's
  answer to a dispatched task and its clock are arguments.
\<close>

unbundle bit_operations_syntax

section \<open>The binary interface\<close>

type_synonym ComHandle = u64
type_synonym ComUuid = bytes

datatype ComStatus =
    CS_OK | CS_INVALID_ARGUMENT | CS_INCOMPATIBLE_ABI | CS_ALREADY_EXISTS | CS_INVALID_STATE | CS_TRANSPORT_ERROR
  | CS_UNSUPPORTED | CS_RESOURCE_EXHAUSTED | CS_NOT_FOUND | CS_CANCELLED | CS_DEADLINE_EXCEEDED | CS_SHUTTING_DOWN
  | CS_APPLICATION_ERROR

text \<open>A value outside an enumeration is \<open>EK_other\<close>.\<close>

datatype EndpointKind = EK_EVENT_PUBLISHER | EK_EVENT_SUBSCRIBER | EK_METHOD_CLIENT | EK_METHOD_SERVER | EK_other

datatype ElementOperation = EO_UNSPECIFIED | EO_EVENT | EO_METHOD | EO_FIELD_GET | EO_FIELD_SET | EO_FIELD_NOTIFY

definition cap_DISCOVERY :: u64 where "cap_DISCOVERY = push_bit 0 1"
definition cap_EVENTS :: u64 where "cap_EVENTS = push_bit 1 1"
definition cap_METHODS :: u64 where "cap_METHODS = push_bit 2 1"
definition cap_LOANS :: u64 where "cap_LOANS = push_bit 3 1"
definition cap_RELIABLE :: u64 where "cap_RELIABLE = push_bit 5 1"
definition cap_ORDERED :: u64 where "cap_ORDERED = push_bit 6 1"
definition cap_DEADLINES :: u64 where "cap_DEADLINES = push_bit 7 1"
definition cap_CANCELLATION :: u64 where "cap_CANCELLATION = push_bit 8 1"
definition cap_SUBSCRIPTION_STATE :: u64 where "cap_SUBSCRIPTION_STATE = push_bit 11 1"
definition cap_HEALTH :: u64 where "cap_HEALTH = push_bit 12 1"
definition cap_DIAGNOSTICS :: u64 where "cap_DIAGNOSTICS = push_bit 13 1"

datatype HealthState = HS_INITIALIZING | HS_READY | HS_DEGRADED | HS_FAILED | HS_STOPPED

datatype DiagnosticOperation =
  DO_PROVIDER | DO_DISCOVERY | DO_ENDPOINT | DO_SUBSCRIPTION | DO_PUBLISH | DO_REQUEST | DO_RESPONSE

datatype SubscriptionState = SS_REQUESTED | SS_ACTIVE | SS_REJECTED | SS_SUSPENDED | SS_WITHDRAWN

datatype ComBytesView = CV_null nat | CV_data bytes

fun view_invalid :: "ComBytesView \<Rightarrow> bool" where
  "view_invalid (CV_null n) = (n \<noteq> 0)"
| "view_invalid (CV_data bs) = False"

fun view_bytes :: "ComBytesView \<Rightarrow> bytes" where
  "view_bytes (CV_null n) = []"
| "view_bytes (CV_data bs) = bs"

record ComDiagnostic =
  dg_status :: ComStatus
  dg_operation :: DiagnosticOperation
  dg_native_code :: int
  dg_endpoint :: ComHandle
  dg_operation_handle :: ComHandle
  dg_message :: "string option"

record ComHealth =
  he_state :: HealthState
  he_sequence :: u64
  he_diagnostic :: ComDiagnostic

datatype Isolation = IS_INDEPENDENT | IS_SHARED_ENGINE | IS_PROCESS_SINGLETON

record ComCapabilities =
  cc_feature_bits :: u64
  cc_isolation :: Isolation
  cc_max_endpoints :: u32
  cc_max_subscriptions :: u32
  cc_max_outstanding_operations :: u32
  cc_max_iovecs :: u32
  cc_max_payload_size :: u64
  cc_max_loan_size :: u64
  cc_max_history_depth :: u32

record EndpointDescriptor =
  ed_kind :: EndpointKind
  ed_service_id :: ComUuid
  ed_instance_id :: ComUuid
  ed_element_id :: ComUuid
  ed_route_epoch :: u64
  ed_max_payload_size :: u64
  ed_history_depth :: u32
  ed_required_features :: u64
  ed_native_mapping :: string
  ed_operation :: ElementOperation

record DiscoveryEntry =
  de_service_id :: ComUuid
  de_instance_id :: ComUuid
  de_route :: ComHandle
  de_route_epoch :: u64
  de_available :: u8

section \<open>State\<close>

text \<open>A callback is a function pointer with its user data, named by a number. The objects that tasks share with the tables are
  kept apart, under the order of their creation, so that they outlive their entry in a table.\<close>

type_synonym Callback = nat
type_synonym Ref = nat

record Inproc_Subscription =
  su_endpoint :: ComHandle
  su_callback :: Callback
  su_state_callback :: "Callback option"
  su_active :: bool

record Watch =
  wa_service :: ComUuid
  wa_callback :: Callback
  wa_active :: bool

record Server =
  sv_callback :: Callback
  sv_active :: bool

record InprocTransport =
  it_running :: bool
  it_next_handle :: ComHandle
  it_sequence :: u64
  it_max_endpoints :: u32
  it_max_operations :: u32
  it_health :: HealthState
  it_health_sequence :: u64
  it_health_callback :: "Callback option"
  it_diagnostic_callback :: "Callback option"
  it_endpoints :: "(ComHandle \<times> EndpointDescriptor) list"
  it_subscriptions :: "(ComHandle \<times> Ref) list"
  it_watches :: "(ComHandle \<times> Ref) list"
  it_loans :: "(ComHandle \<times> bytes) list"
  it_servers :: "(ComHandle \<times> Ref) list"
  it_pending :: "(ComHandle \<times> Callback) list"
  it_subscription_objects :: "Inproc_Subscription list"
  it_watch_objects :: "Watch list"
  it_server_objects :: "Server list"

text \<open>The tasks the transport hands to the host, and what a client sees of its callbacks.\<close>

datatype Task =
    TK_discovery Ref DiscoveryEntry
  | TK_sample Ref bytes u64 u64
  | TK_request Ref ComHandle bytes u64
  | TK_completion Callback ComHandle ComStatus bytes

datatype ComEvent =
    EV_discovery Ref Callback DiscoveryEntry
  | EV_sample Ref Callback bytes u64 u64
  | EV_request Ref Callback ComHandle bytes u64
  | EV_completion Callback ComHandle ComStatus bytes
  | EV_state Callback ComHandle SubscriptionState ComStatus
  | EV_health Callback ComHealth
  | EV_diagnostic Callback ComDiagnostic
  | EV_log string

text \<open>An operation runs under the transport's mutex and leaves the actions that follow after the mutex is released. A failed
  \<open>Dispatch\<close> ends the operation when the flag says so.\<close>

datatype ComAction =
    AC_dispatch Task bool
  | AC_withdraw Ref ComHandle ComStatus
  | AC_retire_watch Ref
  | AC_retire_server Ref
  | AC_state Callback ComHandle
  | AC_health Callback ComHealth
  | AC_log string

record World =
  wo_transport :: InprocTransport
  wo_queue :: "Task list"
  wo_events :: "ComEvent list"

section \<open>Helpers\<close>

definition SameElement :: "EndpointDescriptor \<Rightarrow> EndpointDescriptor \<Rightarrow> bool" where
  "SameElement lhs rhs \<longleftrightarrow>
     ed_service_id lhs = ed_service_id rhs \<and> ed_instance_id lhs = ed_instance_id rhs \<and>
     ed_element_id lhs = ed_element_id rhs \<and> ed_operation lhs = ed_operation rhs"

text \<open>The host accepts a task, refuses it with a status, or the task cannot be allocated.\<close>

datatype DispatchOutcome = DI_accepted | DI_no_memory | DI_refused ComStatus

definition observe :: "ComEvent \<Rightarrow> World \<Rightarrow> World" where
  "observe e w = w\<lparr>wo_events := wo_events w @ [e]\<rparr>"

definition Inproc_Dispatch :: "DispatchOutcome \<Rightarrow> Task \<Rightarrow> World \<Rightarrow> ComStatus \<times> World" where
  "Inproc_Dispatch outcome task w =
     (case outcome of
        DI_no_memory \<Rightarrow> (CS_RESOURCE_EXHAUSTED, w)
      | DI_accepted \<Rightarrow> (CS_OK, w\<lparr>wo_queue := wo_queue w @ [task]\<rparr>)
      | DI_refused result \<Rightarrow>
          (result,
           case it_diagnostic_callback (wo_transport w) of
             None \<Rightarrow> w
           | Some callback \<Rightarrow> observe (EV_diagnostic callback
               \<lparr>dg_status = result, dg_operation = DO_PROVIDER, dg_native_code = 0, dg_endpoint = 0,
                dg_operation_handle = 0, dg_message = Some ''host executor rejected callback''\<rparr>) w))"

definition take_com_handle :: "InprocTransport \<Rightarrow> ComHandle \<times> InprocTransport" where
  "take_com_handle t = (it_next_handle t, t\<lparr>it_next_handle := it_next_handle t + 1\<rparr>)"

definition health_now :: "InprocTransport \<Rightarrow> ComHealth" where
  "health_now t = \<lparr>he_state = it_health t, he_sequence = it_health_sequence t,
     he_diagnostic = \<lparr>dg_status = CS_OK, dg_operation = DO_PROVIDER, dg_native_code = 0, dg_endpoint = 0,
       dg_operation_handle = 0, dg_message = None\<rparr>\<rparr>"

text \<open>A provider of a service, as discovery reports it.\<close>

definition offers :: "EndpointDescriptor \<Rightarrow> bool" where
  "offers d \<longleftrightarrow> ed_kind d = EK_EVENT_PUBLISHER \<or> ed_kind d = EK_METHOD_SERVER"

definition discovery_entry :: "EndpointDescriptor \<Rightarrow> ComHandle \<Rightarrow> u8 \<Rightarrow> DiscoveryEntry" where
  "discovery_entry d route available = \<lparr>de_service_id = ed_service_id d, de_instance_id = ed_instance_id d,
     de_route = route, de_route_epoch = ed_route_epoch d, de_available = available\<rparr>"

definition watchers :: "ComUuid \<Rightarrow> InprocTransport \<Rightarrow> Ref list" where
  "watchers service t =
     map snd (filter (\<lambda>(_, r). wa_service (it_watch_objects t ! r) = service) (it_watches t))"

definition of_callback :: "('a \<Rightarrow> ComAction) \<Rightarrow> 'a option \<Rightarrow> ComAction list" where
  "of_callback f c = (case c of None \<Rightarrow> [] | Some x \<Rightarrow> [f x])"

section \<open>Lifecycle\<close>

definition Inproc_Start :: "InprocTransport \<Rightarrow> ComStatus \<times> InprocTransport \<times> ComAction list" where
  "Inproc_Start t =
     (if it_running t then (CS_INVALID_STATE, t, [])
      else
        let t = t\<lparr>it_running := True, it_health := HS_READY, it_health_sequence := it_health_sequence t + 1\<rparr> in
        (CS_OK, t, of_callback (\<lambda>c. AC_health c (health_now t)) (it_health_callback t) @ [AC_log ''inproc transport started'']))"

definition Inproc_Stop :: "InprocTransport \<Rightarrow> ComStatus \<times> InprocTransport \<times> ComAction list" where
  "Inproc_Stop t =
     (if \<not> it_running t then (CS_OK, t, [])
      else
        let t' = t\<lparr>it_running := False, it_pending := [], it_loans := [], it_subscriptions := [], it_watches := [],
                it_servers := [], it_endpoints := [], it_health := HS_STOPPED,
                it_health_sequence := it_health_sequence t + 1\<rparr> in
        (CS_OK, t',
         map (\<lambda>(h, r). AC_withdraw r h CS_SHUTTING_DOWN) (it_subscriptions t) @
         map (\<lambda>(_, r). AC_retire_watch r) (it_watches t) @
         map (\<lambda>(_, r). AC_retire_server r) (it_servers t) @
         map (\<lambda>(operation, c). AC_dispatch (TK_completion c operation CS_SHUTTING_DOWN []) False) (it_pending t) @
         [AC_log ''inproc transport stopped''] @
         of_callback (\<lambda>c. AC_health c (health_now t')) (it_health_callback t')))"

definition GetHealth :: "bool \<Rightarrow> InprocTransport \<Rightarrow> ComStatus \<times> ComHealth option" where
  "GetHealth outputs t = (if \<not> outputs then (CS_INVALID_ARGUMENT, None) else (CS_OK, Some (health_now t)))"

definition SetHealthHandler :: "Callback option \<Rightarrow> InprocTransport \<Rightarrow> ComStatus \<times> InprocTransport \<times> ComAction list" where
  "SetHealthHandler callback t =
     (CS_OK, t\<lparr>it_health_callback := callback\<rparr>, of_callback (\<lambda>c. AC_health c (health_now t)) callback)"

definition SetDiagnosticHandler :: "Callback option \<Rightarrow> InprocTransport \<Rightarrow> ComStatus \<times> InprocTransport \<times> ComAction list" where
  "SetDiagnosticHandler callback t = (CS_OK, t\<lparr>it_diagnostic_callback := callback\<rparr>, [])"

definition endpoint_features :: u64 where
  "endpoint_features = cap_DISCOVERY OR cap_EVENTS OR cap_METHODS OR cap_LOANS OR cap_RELIABLE OR cap_ORDERED OR
     cap_DEADLINES OR cap_CANCELLATION"

definition advertised_features :: u64 where
  "advertised_features = cap_DISCOVERY OR cap_EVENTS OR cap_METHODS OR cap_LOANS OR cap_RELIABLE OR cap_ORDERED OR
     cap_DEADLINES OR cap_CANCELLATION OR cap_SUBSCRIPTION_STATE OR cap_HEALTH OR cap_DIAGNOSTICS"

definition max_inproc_payload :: u64 where
  "max_inproc_payload = 16 * 1024 * 1024"

definition Inproc_Capabilities :: "bool \<Rightarrow> InprocTransport \<Rightarrow> ComStatus \<times> ComCapabilities option" where
  "Inproc_Capabilities outputs t =
     (if \<not> outputs then (CS_INVALID_ARGUMENT, None)
      else (CS_OK, Some \<lparr>cc_feature_bits = advertised_features, cc_isolation = IS_INDEPENDENT,
        cc_max_endpoints = it_max_endpoints t, cc_max_subscriptions = it_max_endpoints t,
        cc_max_outstanding_operations = it_max_operations t, cc_max_iovecs = 1, cc_max_payload_size = max_inproc_payload,
        cc_max_loan_size = max_inproc_payload, cc_max_history_depth = 4096\<rparr>))"

section \<open>Discovery and endpoints\<close>

definition WatchStart ::
  "ComUuid option \<Rightarrow> Callback option \<Rightarrow> bool \<Rightarrow> InprocTransport \<Rightarrow> (ComStatus \<times> ComHandle option) \<times> InprocTransport \<times> ComAction list" where
  "WatchStart wanted callback outputs t =
     (case (wanted, callback) of
        (Some service, Some c) \<Rightarrow>
          if \<not> outputs then ((CS_INVALID_ARGUMENT, None), t, [])
          else if \<not> it_running t then ((CS_INVALID_STATE, None), t, [])
          else
            let (handle, t) = take_com_handle t;
                r = length (it_watch_objects t);
                t = t\<lparr>it_watch_objects := it_watch_objects t @ [\<lparr>wa_service = service, wa_callback = c, wa_active = True\<rparr>],
                      it_watches := um_emplace handle r (it_watches t)\<rparr>;
                available = filter (\<lambda>d. offers d \<and> ed_service_id d = service) (map snd (it_endpoints t)) in
            ((CS_OK, Some handle), t,
             map (\<lambda>d. AC_dispatch (TK_discovery r (discovery_entry d 0 1)) False) available)
      | _ \<Rightarrow> ((CS_INVALID_ARGUMENT, None), t, []))"

definition WatchStop :: "ComHandle \<Rightarrow> InprocTransport \<Rightarrow> ComStatus \<times> InprocTransport \<times> ComAction list" where
  "WatchStop handle t =
     (case um_find (it_watches t) handle of
        None \<Rightarrow> (CS_NOT_FOUND, t, [])
      | Some r \<Rightarrow> (CS_OK, t\<lparr>it_watches := um_erase handle (it_watches t)\<rparr>, [AC_retire_watch r]))"

definition EndpointCreate ::
  "EndpointDescriptor option \<Rightarrow> bool \<Rightarrow> InprocTransport \<Rightarrow> (ComStatus \<times> ComHandle option) \<times> InprocTransport \<times> ComAction list" where
  "EndpointCreate descriptor outputs t =
     (case descriptor of
        None \<Rightarrow> ((CS_INVALID_ARGUMENT, None), t, [])
      | Some d \<Rightarrow>
          if \<not> outputs then ((CS_INVALID_ARGUMENT, None), t, [])
          else if \<not> it_running t then ((CS_INVALID_STATE, None), t, [])
          else if length (it_endpoints t) \<ge> unat (it_max_endpoints t) then ((CS_RESOURCE_EXHAUSTED, None), t, [])
          else if ed_kind d = EK_other then ((CS_INVALID_ARGUMENT, None), t, [])
          else if ed_max_payload_size d > max_inproc_payload \<or> ed_history_depth d > 4096 then ((CS_UNSUPPORTED, None), t, [])
          else if ed_required_features d AND NOT endpoint_features \<noteq> 0 then ((CS_UNSUPPORTED, None), t, [])
          else
            let (handle, t) = take_com_handle t;
                t = t\<lparr>it_endpoints := um_emplace handle d (it_endpoints t)\<rparr> in
            ((CS_OK, Some handle), t,
             if offers d then
               map (\<lambda>r. AC_dispatch (TK_discovery r (discovery_entry d handle 1)) False) (watchers (ed_service_id d) t)
             else []))"

definition EndpointDestroy :: "ComHandle \<Rightarrow> InprocTransport \<Rightarrow> ComStatus \<times> InprocTransport \<times> ComAction list" where
  "EndpointDestroy handle t =
     (if list_ex (\<lambda>(_, r). su_endpoint (it_subscription_objects t ! r) = handle) (it_subscriptions t) then
        (CS_INVALID_STATE, t, [])
      else case um_find (it_endpoints t) handle of
        None \<Rightarrow> (CS_NOT_FOUND, t, [])
      | Some removed \<Rightarrow>
          let notify = (if it_running t \<and> offers removed then watchers (ed_service_id removed) t else []);
              stopped_server = um_find (it_servers t) handle;
              t = t\<lparr>it_servers := um_erase handle (it_servers t), it_endpoints := um_erase handle (it_endpoints t)\<rparr> in
          (CS_OK, t,
           of_callback AC_retire_server stopped_server @
           map (\<lambda>r. AC_dispatch (TK_discovery r (discovery_entry removed handle 0)) False) notify))"

section \<open>Events\<close>

definition Inproc_Subscribe ::
  "ComHandle \<Rightarrow> Callback option \<Rightarrow> bool \<Rightarrow> InprocTransport \<Rightarrow> (ComStatus \<times> ComHandle option) \<times> InprocTransport \<times> ComAction list" where
  "Inproc_Subscribe endpoint callback outputs t =
     (case callback of
        None \<Rightarrow> ((CS_INVALID_ARGUMENT, None), t, [])
      | Some c \<Rightarrow>
          if \<not> outputs then ((CS_INVALID_ARGUMENT, None), t, [])
          else case um_find (it_endpoints t) endpoint of
            None \<Rightarrow> ((CS_NOT_FOUND, None), t, [])
          | Some d \<Rightarrow>
              if ed_kind d \<noteq> EK_EVENT_SUBSCRIBER then ((CS_INVALID_ARGUMENT, None), t, [])
              else
                let (handle, t) = take_com_handle t;
                    r = length (it_subscription_objects t) in
                ((CS_OK, Some handle),
                 t\<lparr>it_subscription_objects := it_subscription_objects t @
                     [\<lparr>su_endpoint = endpoint, su_callback = c, su_state_callback = None, su_active = True\<rparr>],
                   it_subscriptions := um_emplace handle r (it_subscriptions t)\<rparr>, []))"

definition Inproc_Unsubscribe :: "ComHandle \<Rightarrow> InprocTransport \<Rightarrow> ComStatus \<times> InprocTransport \<times> ComAction list" where
  "Inproc_Unsubscribe handle t =
     (case um_find (it_subscriptions t) handle of
        None \<Rightarrow> (CS_NOT_FOUND, t, [])
      | Some r \<Rightarrow> (CS_OK, t\<lparr>it_subscriptions := um_erase handle (it_subscriptions t)\<rparr>, [AC_withdraw r handle CS_OK]))"

definition SetSubscriptionStateHandler ::
  "ComHandle \<Rightarrow> Callback option \<Rightarrow> InprocTransport \<Rightarrow> ComStatus \<times> InprocTransport \<times> ComAction list" where
  "SetSubscriptionStateHandler handle callback t =
     (case callback of
        None \<Rightarrow> (CS_INVALID_ARGUMENT, t, [])
      | Some c \<Rightarrow>
          (case um_find (it_subscriptions t) handle of
             None \<Rightarrow> (CS_NOT_FOUND, t, [])
           | Some r \<Rightarrow>
               let s = it_subscription_objects t ! r in
               if \<not> su_active s then (CS_NOT_FOUND, t, [])
               else (CS_OK, t\<lparr>it_subscription_objects := (it_subscription_objects t)[r := s\<lparr>su_state_callback := Some c\<rparr>]\<rparr>,
                     [AC_state c handle])))"

definition targets_of :: "EndpointDescriptor \<Rightarrow> InprocTransport \<Rightarrow> Ref list" where
  "targets_of source t =
     filter (\<lambda>r. case um_find (it_endpoints t) (su_endpoint (it_subscription_objects t ! r)) of
                   None \<Rightarrow> False
                 | Some endpoint \<Rightarrow> SameElement source endpoint)
       (map snd (it_subscriptions t))"

definition Deliver :: "ComHandle \<Rightarrow> bytes \<Rightarrow> InprocTransport \<Rightarrow> ComStatus \<times> InprocTransport \<times> ComAction list" where
  "Deliver publisher payload t =
     (if \<not> it_running t then (CS_INVALID_STATE, t, [])
      else case um_find (it_endpoints t) publisher of
        None \<Rightarrow> (CS_NOT_FOUND, t, [])
      | Some source \<Rightarrow>
          if ed_kind source \<noteq> EK_EVENT_PUBLISHER then (CS_INVALID_ARGUMENT, t, [])
          else if length payload > unat (ed_max_payload_size source) then (CS_RESOURCE_EXHAUSTED, t, [])
          else
            let targets = targets_of source t; t = t\<lparr>it_sequence := it_sequence t + 1\<rparr> in
            (CS_OK, t,
             map (\<lambda>r. AC_dispatch (TK_sample r payload (it_sequence t) (ed_route_epoch source)) True) targets))"

definition Publish :: "ComHandle \<Rightarrow> ComBytesView \<Rightarrow> InprocTransport \<Rightarrow> ComStatus \<times> InprocTransport \<times> ComAction list" where
  "Publish endpoint payload t =
     (if view_invalid payload then (CS_INVALID_ARGUMENT, t, []) else Deliver endpoint (view_bytes payload) t)"

definition PublishIov ::
  "ComHandle \<Rightarrow> ComBytesView list option \<Rightarrow> InprocTransport \<Rightarrow> ComStatus \<times> InprocTransport \<times> ComAction list" where
  "PublishIov endpoint segments t =
     (case segments of
        None \<Rightarrow> (CS_INVALID_ARGUMENT, t, [])
      | Some [] \<Rightarrow> (CS_INVALID_ARGUMENT, t, [])
      | Some [segment] \<Rightarrow> Publish endpoint segment t
      | Some _ \<Rightarrow> (CS_UNSUPPORTED, t, []))"

text \<open>A loan's bytes are written by the client between \<open>LoanAcquire\<close> and \<open>LoanPublish\<close>: \<open>LoanWrite\<close>.\<close>

definition LoanAcquire ::
  "ComHandle \<Rightarrow> nat \<Rightarrow> bool \<Rightarrow> InprocTransport \<Rightarrow> (ComStatus \<times> ComHandle option) \<times> InprocTransport \<times> ComAction list" where
  "LoanAcquire endpoint n outputs t =
     (if \<not> outputs then ((CS_INVALID_ARGUMENT, None), t, [])
      else if \<not> it_running t then ((CS_INVALID_STATE, None), t, [])
      else case um_find (it_endpoints t) endpoint of
        None \<Rightarrow> ((CS_NOT_FOUND, None), t, [])
      | Some source \<Rightarrow>
          if ed_kind source \<noteq> EK_EVENT_PUBLISHER then ((CS_INVALID_ARGUMENT, None), t, [])
          else if n > unat (ed_max_payload_size source) then ((CS_RESOURCE_EXHAUSTED, None), t, [])
          else
            let (handle, t) = take_com_handle t in
            if um_find (it_loans t) handle \<noteq> None then ((CS_TRANSPORT_ERROR, None), t, [])
            else ((CS_OK, Some handle), t\<lparr>it_loans := um_emplace handle (replicate n 0) (it_loans t)\<rparr>, []))"

definition LoanWrite :: "ComHandle \<Rightarrow> bytes \<Rightarrow> InprocTransport \<Rightarrow> InprocTransport" where
  "LoanWrite loan bs t =
     (case um_find (it_loans t) loan of
        None \<Rightarrow> t
      | Some old \<Rightarrow> if length bs = length old then t\<lparr>it_loans := um_set loan bs (it_loans t)\<rparr> else t)"

definition LoanPublish :: "ComHandle \<Rightarrow> ComHandle \<Rightarrow> nat \<Rightarrow> InprocTransport \<Rightarrow> ComStatus \<times> InprocTransport \<times> ComAction list" where
  "LoanPublish endpoint loan used t =
     (case um_find (it_loans t) loan of
        None \<Rightarrow> (CS_NOT_FOUND, t, [])
      | Some bs \<Rightarrow>
          if used > length bs then (CS_INVALID_ARGUMENT, t, [])
          else Deliver endpoint (take used bs) (t\<lparr>it_loans := um_erase loan (it_loans t)\<rparr>))"

definition LoanRelease :: "ComHandle \<Rightarrow> InprocTransport \<Rightarrow> ComStatus \<times> InprocTransport \<times> ComAction list" where
  "LoanRelease loan t =
     (if \<not> it_running t then (CS_INVALID_STATE, t, [])
      else (if um_find (it_loans t) loan \<noteq> None then CS_OK else CS_NOT_FOUND,
            t\<lparr>it_loans := um_erase loan (it_loans t)\<rparr>, []))"

section \<open>Methods\<close>

definition SetRequestHandler :: "ComHandle \<Rightarrow> Callback option \<Rightarrow> InprocTransport \<Rightarrow> ComStatus \<times> InprocTransport \<times> ComAction list" where
  "SetRequestHandler endpoint callback t =
     (if \<not> it_running t then (CS_INVALID_STATE, t, [])
      else case um_find (it_endpoints t) endpoint of
        None \<Rightarrow> (CS_NOT_FOUND, t, [])
      | Some d \<Rightarrow>
          if ed_kind d \<noteq> EK_METHOD_SERVER then (CS_INVALID_ARGUMENT, t, [])
          else (case callback of
             Some c \<Rightarrow>
               let r = length (it_server_objects t) in
               (CS_OK, t\<lparr>it_server_objects := it_server_objects t @ [\<lparr>sv_callback = c, sv_active = True\<rparr>],
                         it_servers := um_set endpoint r (it_servers t)\<rparr>, [])
           | None \<Rightarrow>
               (CS_OK, t\<lparr>it_servers := um_erase endpoint (it_servers t)\<rparr>,
                of_callback AC_retire_server (um_find (it_servers t) endpoint))))"

text \<open>\<open>now\<close> is the host's clock.\<close>

definition Inproc_Request ::
  "ComHandle \<Rightarrow> ComBytesView \<Rightarrow> u64 \<Rightarrow> Callback option \<Rightarrow> bool \<Rightarrow> u64 \<Rightarrow> InprocTransport
     \<Rightarrow> (ComStatus \<times> ComHandle option) \<times> InprocTransport \<times> ComAction list" where
  "Inproc_Request client payload deadline callback outputs now t =
     (case callback of
        None \<Rightarrow> ((CS_INVALID_ARGUMENT, None), t, [])
      | Some c \<Rightarrow>
          if \<not> outputs \<or> view_invalid payload then ((CS_INVALID_ARGUMENT, None), t, [])
          else if deadline \<le> now then ((CS_DEADLINE_EXCEEDED, None), t, [])
          else if \<not> it_running t then ((CS_INVALID_STATE, None), t, [])
          else case um_find (it_endpoints t) client of
            None \<Rightarrow> ((CS_NOT_FOUND, None), t, [])
          | Some source \<Rightarrow>
              if ed_kind source \<noteq> EK_METHOD_CLIENT then ((CS_INVALID_ARGUMENT, None), t, [])
              else if length (it_pending t) \<ge> unat (it_max_operations t) then ((CS_RESOURCE_EXHAUSTED, None), t, [])
              else case List.find (\<lambda>(endpoint, _). case um_find (it_endpoints t) endpoint of
                                      None \<Rightarrow> False | Some d \<Rightarrow> SameElement source d) (it_servers t) of
                None \<Rightarrow> ((CS_NOT_FOUND, None), t, [])
              | Some (_, server) \<Rightarrow>
                  let (operation, t) = take_com_handle t;
                      t = t\<lparr>it_pending := um_emplace operation c (it_pending t)\<rparr> in
                  ((CS_OK, Some operation), t,
                   [AC_dispatch (TK_request server operation (view_bytes payload) deadline) True]))"

definition Inproc_Complete ::
  "ComHandle \<Rightarrow> ComStatus \<Rightarrow> ComBytesView \<Rightarrow> InprocTransport \<Rightarrow> ComStatus \<times> InprocTransport \<times> ComAction list" where
  "Inproc_Complete operation status payload t =
     (case um_find (it_pending t) operation of
        None \<Rightarrow> (CS_NOT_FOUND, t, [])
      | Some c \<Rightarrow>
          (CS_OK, t\<lparr>it_pending := um_erase operation (it_pending t)\<rparr>,
           [AC_dispatch (TK_completion c operation status (view_bytes payload)) True]))"

definition Inproc_Cancel :: "ComHandle \<Rightarrow> InprocTransport \<Rightarrow> ComStatus \<times> InprocTransport \<times> ComAction list" where
  "Inproc_Cancel operation t = Inproc_Complete operation CS_CANCELLED (CV_null 0) t"

definition Inproc_Respond ::
  "ComHandle \<Rightarrow> ComStatus \<Rightarrow> ComBytesView \<Rightarrow> InprocTransport \<Rightarrow> ComStatus \<times> InprocTransport \<times> ComAction list" where
  "Inproc_Respond request status payload t =
     (if view_invalid payload then (CS_INVALID_ARGUMENT, t, []) else Inproc_Complete request status payload t)"

section \<open>Creation\<close>

definition Inproc_Create :: "bool \<Rightarrow> u32 \<Rightarrow> u32 \<Rightarrow> bool \<Rightarrow> ComStatus \<times> InprocTransport option" where
  "Inproc_Create arguments max_endpoints max_operations fits =
     (if \<not> arguments then (CS_INVALID_ARGUMENT, None)
      else if \<not> fits then (CS_RESOURCE_EXHAUSTED, None)
      else (CS_OK, Some \<lparr>it_running = False, it_next_handle = 1, it_sequence = 0,
              it_max_endpoints = (if max_endpoints \<noteq> 0 then max_endpoints else 256),
              it_max_operations = (if max_operations \<noteq> 0 then max_operations else 256),
              it_health = HS_STOPPED, it_health_sequence = 0, it_health_callback = None, it_diagnostic_callback = None,
              it_endpoints = [], it_subscriptions = [], it_watches = [], it_loans = [], it_servers = [], it_pending = [],
              it_subscription_objects = [], it_watch_objects = [], it_server_objects = []\<rparr>))"

section \<open>Actions and tasks\<close>

text \<open>The sections that hold the gate of an object.\<close>

definition withdraw :: "Ref \<Rightarrow> ComHandle \<Rightarrow> ComStatus \<Rightarrow> World \<Rightarrow> World" where
  "withdraw r handle reason w =
     (let t = wo_transport w; s = it_subscription_objects t ! r;
          w = (if su_active s then
                 case su_state_callback s of None \<Rightarrow> w | Some c \<Rightarrow> observe (EV_state c handle SS_WITHDRAWN reason) w
               else w) in
      w\<lparr>wo_transport := t\<lparr>it_subscription_objects := (it_subscription_objects t)[r := s\<lparr>su_active := False\<rparr>]\<rparr>\<rparr>)"

fun do_action :: "DispatchOutcome \<Rightarrow> ComAction \<Rightarrow> World \<Rightarrow> ComStatus \<times> World" where
  "do_action outcome (AC_dispatch task _) w = Inproc_Dispatch outcome task w"
| "do_action outcome (AC_withdraw r handle reason) w = (CS_OK, withdraw r handle reason w)"
| "do_action outcome (AC_retire_watch r) w =
     (CS_OK, let t = wo_transport w in
       w\<lparr>wo_transport := t\<lparr>it_watch_objects := (it_watch_objects t)[r := (it_watch_objects t ! r)\<lparr>wa_active := False\<rparr>]\<rparr>\<rparr>)"
| "do_action outcome (AC_retire_server r) w =
     (CS_OK, let t = wo_transport w in
       w\<lparr>wo_transport := t\<lparr>it_server_objects := (it_server_objects t)[r := (it_server_objects t ! r)\<lparr>sv_active := False\<rparr>]\<rparr>\<rparr>)"
| "do_action outcome (AC_state c handle) w = (CS_OK, observe (EV_state c handle SS_ACTIVE CS_OK) w)"
| "do_action outcome (AC_health c h) w = (CS_OK, observe (EV_health c h) w)"
| "do_action outcome (AC_log message) w = (CS_OK, observe (EV_log message) w)"

fun ends_operation :: "ComAction \<Rightarrow> bool" where
  "ends_operation (AC_dispatch _ b) = b"
| "ends_operation _ = False"

fun run_actions :: "(Task \<Rightarrow> DispatchOutcome) \<Rightarrow> ComAction list \<Rightarrow> World \<Rightarrow> ComStatus \<times> World" where
  "run_actions host [] w = (CS_OK, w)"
| "run_actions host (a # as) w =
     (let (st, w) = do_action (case a of AC_dispatch task _ \<Rightarrow> host task | _ \<Rightarrow> DI_accepted) a w in
      if st \<noteq> CS_OK \<and> ends_operation a then (st, w) else run_actions host as w)"

text \<open>A task, when the host runs it.\<close>

fun run_task :: "Task \<Rightarrow> World \<Rightarrow> World" where
  "run_task (TK_discovery r entry) w =
     (let o' = it_watch_objects (wo_transport w) ! r in
      if wa_active o' then observe (EV_discovery r (wa_callback o') entry) w else w)"
| "run_task (TK_sample r payload sequence epoch) w =
     (let o' = it_subscription_objects (wo_transport w) ! r in
      if su_active o' then observe (EV_sample r (su_callback o') payload sequence epoch) w else w)"
| "run_task (TK_request r operation payload deadline) w =
     (let o' = it_server_objects (wo_transport w) ! r in
      if sv_active o' then observe (EV_request r (sv_callback o') operation payload deadline) w else w)"
| "run_task (TK_completion c operation status payload) w = observe (EV_completion c operation status payload) w"

end
