(* ===== verification/Com_Runtime.thy ===== *)
theory Com_Runtime
  imports Core_Uuid Com_Inproc
begin

text \<open>
  The communication runtime, \<open>src/com/src/runtime.cpp\<close> with \<open>src/com/include/ovf/com/runtime.hpp\<close>: the deployment document, the providers an
  application attaches or loads, their start and stop, their health and diagnostics, and the routes.

  A provider is a parameter, a record of the functions of its factory and of its instances on a state of its own; so are the JSON
  library, the files, the search path and the dynamic loader. The calls the runtime makes to a provider or the loader and the callbacks it
  enters are the events of its state. An allocation failure is not modelled; an exception of the JSON library is the value \<open>None\<close>.
\<close>

section \<open>Types\<close>

datatype ComLogLevel = CL_DEBUG | CL_INFO | CL_WARNING | CL_ERROR
datatype LogLevel = LL_debug | LL_info | LL_warning | LL_error

datatype ComError =
    CE_none | CE_invalid_argument | CE_incompatible_abi | CE_duplicate_transport | CE_invalid_state | CE_provider_failure
  | CE_unavailable | CE_unsupported | CE_resource_exhausted | CE_not_found | CE_cancelled | CE_deadline_exceeded | CE_shutting_down

datatype TransportHealthState = TH_initializing | TH_ready | TH_degraded | TH_failed | TH_stopped

datatype RuntimeDiagnosticOperation =
  RD_provider | RD_discovery | RD_endpoint | RD_subscription | RD_publish | RD_request | RD_response

record CommunicationDiagnostic =
  cd_provider :: string
  cd_error :: ComError
  cd_operation_kind :: RuntimeDiagnosticOperation
  cd_native_code :: int
  cd_endpoint :: u64
  cd_operation :: u64
  cd_message :: string

record TransportHealth =
  th_provider :: string
  th_state :: TransportHealthState
  th_sequence :: u64
  th_diagnostic :: CommunicationDiagnostic

text \<open>A duration of the steady clock is a signed number of nanoseconds in 64 bits.\<close>

type_synonym duration = "64 word"

record TransportConfig =
  tc_configuration :: string
  tc_max_endpoints :: u32
  tc_max_outstanding_operations :: u32
  tc_start_timeout :: duration
  tc_stop_timeout :: duration

record TransportRegistration =
  tg_provider :: string
  tg_config :: TransportConfig

record NativeElementMapping =
  nm_element_id :: Uuid
  nm_event :: string
  nm_method :: string
  nm_field_get :: string
  nm_field_set :: string

record RouteBinding =
  ro_service_id :: Uuid
  ro_instance_id :: Uuid
  ro_route_epoch :: u64
  ro_max_payload_size :: u64
  ro_history_depth :: u32
  ro_native_elements :: "NativeElementMapping list"
  ro_provider :: string
  ro_native_service :: string
  ro_priority :: int

record RouteSelector =
  se_service_id :: Uuid
  se_instance :: string

record ConfiguredRoute =
  co_instance :: string
  co_binding :: RouteBinding

section \<open>Conversions\<close>

fun ToRuntimeError :: "ComStatus \<Rightarrow> ComError" where
  "ToRuntimeError CS_OK = CE_none"
| "ToRuntimeError CS_INVALID_ARGUMENT = CE_invalid_argument"
| "ToRuntimeError CS_INCOMPATIBLE_ABI = CE_incompatible_abi"
| "ToRuntimeError CS_ALREADY_EXISTS = CE_duplicate_transport"
| "ToRuntimeError CS_INVALID_STATE = CE_invalid_state"
| "ToRuntimeError CS_UNSUPPORTED = CE_unsupported"
| "ToRuntimeError CS_RESOURCE_EXHAUSTED = CE_resource_exhausted"
| "ToRuntimeError CS_NOT_FOUND = CE_not_found"
| "ToRuntimeError CS_CANCELLED = CE_cancelled"
| "ToRuntimeError CS_DEADLINE_EXCEEDED = CE_deadline_exceeded"
| "ToRuntimeError CS_SHUTTING_DOWN = CE_shutting_down"
| "ToRuntimeError CS_APPLICATION_ERROR = CE_provider_failure"
| "ToRuntimeError CS_TRANSPORT_ERROR = CE_provider_failure"

fun ToLogLevel :: "ComLogLevel \<Rightarrow> LogLevel" where
  "ToLogLevel CL_DEBUG = LL_debug"
| "ToLogLevel CL_WARNING = LL_warning"
| "ToLogLevel CL_ERROR = LL_error"
| "ToLogLevel CL_INFO = LL_info"

definition AsStringView :: "string option \<Rightarrow> string" where
  "AsStringView value = (case value of None \<Rightarrow> [] | Some s \<Rightarrow> s)"

fun ToHealthState :: "HealthState \<Rightarrow> TransportHealthState" where
  "ToHealthState HS_INITIALIZING = TH_initializing"
| "ToHealthState HS_READY = TH_ready"
| "ToHealthState HS_DEGRADED = TH_degraded"
| "ToHealthState HS_FAILED = TH_failed"
| "ToHealthState HS_STOPPED = TH_stopped"

fun ToDiagnosticOperation :: "DiagnosticOperation \<Rightarrow> RuntimeDiagnosticOperation" where
  "ToDiagnosticOperation DO_DISCOVERY = RD_discovery"
| "ToDiagnosticOperation DO_ENDPOINT = RD_endpoint"
| "ToDiagnosticOperation DO_SUBSCRIPTION = RD_subscription"
| "ToDiagnosticOperation DO_PUBLISH = RD_publish"
| "ToDiagnosticOperation DO_REQUEST = RD_request"
| "ToDiagnosticOperation DO_RESPONSE = RD_response"
| "ToDiagnosticOperation DO_PROVIDER = RD_provider"

section \<open>The deployment document\<close>

text \<open>What the parser of the document uses of the JSON library, which is a parameter. \<open>None\<close> is an accessor that throws; the
  reader gives the document, rejects it or throws.\<close>

datatype 'j DocumentRead = DR_value 'j | DR_rejected | DR_throws

record 'j DocumentLibrary =
  dl_read :: "string \<Rightarrow> 'j DocumentRead"
  dl_isNull :: "'j \<Rightarrow> bool"
  dl_isString :: "'j \<Rightarrow> bool"
  dl_isUInt :: "'j \<Rightarrow> bool"
  dl_isUInt64 :: "'j \<Rightarrow> bool"
  dl_isInt :: "'j \<Rightarrow> bool"
  dl_isArray :: "'j \<Rightarrow> bool"
  dl_isObject :: "'j \<Rightarrow> bool"
  dl_asString :: "'j \<Rightarrow> string option"
  dl_asUInt :: "'j \<Rightarrow> u32 option"
  dl_asUInt64 :: "'j \<Rightarrow> u64 option"
  dl_asInt :: "'j \<Rightarrow> int option"
  dl_at :: "'j \<Rightarrow> string \<Rightarrow> 'j option"
  dl_elements :: "'j \<Rightarrow> 'j list"

definition ParseUuid :: "'j DocumentLibrary \<Rightarrow> 'j \<Rightarrow> Uuid option option" where
  "ParseUuid L value = (if \<not> dl_isString L value then Some None else map_option parse_uuid_text (dl_asString L value))"

definition at_string :: "'j DocumentLibrary \<Rightarrow> 'j \<Rightarrow> string \<Rightarrow> string option" where
  "at_string L v k = do { x \<leftarrow> dl_at L v k; dl_asString L x }"

definition at_is :: "'j DocumentLibrary \<Rightarrow> ('j \<Rightarrow> bool) \<Rightarrow> 'j \<Rightarrow> string \<Rightarrow> bool option" where
  "at_is L p v k = map_option p (dl_at L v k)"

text \<open>A chain of conditions joined by \<open>||\<close>: the first that holds ends it, and so does the first that throws.\<close>

fun any_of :: "(unit \<Rightarrow> bool option) list \<Rightarrow> bool option" where
  "any_of [] = Some False"
| "any_of (c # cs) = do { b \<leftarrow> c (); if b then Some True else any_of cs }"

definition not_at :: "'j DocumentLibrary \<Rightarrow> ('j \<Rightarrow> bool) \<Rightarrow> 'j \<Rightarrow> string \<Rightarrow> unit \<Rightarrow> bool option" where
  "not_at L p v k _ = map_option Not (at_is L p v k)"

text \<open>Milliseconds of the document as a duration. The product overflows in C++ when it does not fit; here it wraps.\<close>

definition milliseconds :: "u64 \<Rightarrow> duration" where
  "milliseconds n = n * 1000000"

definition zero_at :: "'j DocumentLibrary \<Rightarrow> 'j \<Rightarrow> string \<Rightarrow> unit \<Rightarrow> bool option" where
  "zero_at L v k _ = do { x \<leftarrow> dl_at L v k; n \<leftarrow> dl_asUInt64 L x; Some (n = 0) }"

definition parse_transport :: "'j DocumentLibrary \<Rightarrow> 'j \<Rightarrow> TransportRegistration option option" where
  "parse_transport L t =
     do {
       bad \<leftarrow> any_of [\<lambda>_. Some (\<not> dl_isObject L t), not_at L (dl_isString L) t ''provider'', not_at L (dl_isString L) t ''configuration'',
         not_at L (dl_isUInt L) t ''maxEndpoints'', not_at L (dl_isUInt L) t ''maxOutstandingOperations'',
         not_at L (dl_isUInt64 L) t ''startTimeoutMs'', not_at L (dl_isUInt64 L) t ''stopTimeoutMs'',
         zero_at L t ''startTimeoutMs'', zero_at L t ''stopTimeoutMs''];
       if bad then Some None
       else do {
         provider \<leftarrow> at_string L t ''provider'';
         configuration \<leftarrow> at_string L t ''configuration'';
         endpoints \<leftarrow> Option.bind (dl_at L t ''maxEndpoints'') (dl_asUInt L);
         operations \<leftarrow> Option.bind (dl_at L t ''maxOutstandingOperations'') (dl_asUInt L);
         start \<leftarrow> Option.bind (dl_at L t ''startTimeoutMs'') (dl_asUInt64 L);
         stop \<leftarrow> Option.bind (dl_at L t ''stopTimeoutMs'') (dl_asUInt64 L);
         Some (Some \<lparr>tg_provider = provider, tg_config = \<lparr>tc_configuration = configuration, tc_max_endpoints = endpoints,
           tc_max_outstanding_operations = operations, tc_start_timeout = milliseconds start, tc_stop_timeout = milliseconds stop\<rparr>\<rparr>)
       }
     }"

definition null_or_string :: "'j DocumentLibrary \<Rightarrow> 'j \<Rightarrow> bool" where
  "null_or_string L v \<longleftrightarrow> dl_isNull L v \<or> dl_isString L v"

definition parse_element :: "'j DocumentLibrary \<Rightarrow> 'j \<Rightarrow> NativeElementMapping option option" where
  "parse_element L e =
     do {
       id_value \<leftarrow> dl_at L e ''id'';
       element \<leftarrow> ParseUuid L id_value;
       bad \<leftarrow> any_of [\<lambda>_. Some (\<not> dl_isObject L e), \<lambda>_. Some (element = None), not_at L (dl_isString L) e ''event'',
         not_at L (dl_isString L) e ''method'', not_at L (null_or_string L) e ''get'', not_at L (null_or_string L) e ''set''];
       if bad then Some None
       else do {
         event \<leftarrow> at_string L e ''event'';
         method \<leftarrow> at_string L e ''method'';
         get \<leftarrow> at_string L e ''get'';
         set' \<leftarrow> at_string L e ''set'';
         Some (Some \<lparr>nm_element_id = the element, nm_event = event, nm_method = method, nm_field_get = get, nm_field_set = set'\<rparr>)
       }
     }"

text \<open>The loops push an item each and end with the first that is malformed.\<close>

fun parse_all :: "('j \<Rightarrow> 'a option option) \<Rightarrow> 'j list \<Rightarrow> 'a list option option" where
  "parse_all f [] = Some (Some [])"
| "parse_all f (v # vs) =
     do {
       x \<leftarrow> f v;
       case x of
         None \<Rightarrow> Some None
       | Some a \<Rightarrow> do { xs \<leftarrow> parse_all f vs; Some (map_option (Cons a) xs) }
     }"

definition parse_route :: "'j DocumentLibrary \<Rightarrow> 'j \<Rightarrow> ConfiguredRoute option option" where
  "parse_route L r =
     do {
       service_value \<leftarrow> dl_at L r ''serviceId'';
       service \<leftarrow> ParseUuid L service_value;
       instance_value \<leftarrow> dl_at L r ''instanceId'';
       instance' \<leftarrow> ParseUuid L instance_value;
       bad \<leftarrow> any_of [\<lambda>_. Some (\<not> dl_isObject L r), \<lambda>_. Some (service = None), \<lambda>_. Some (instance' = None),
         not_at L (dl_isString L) r ''instance'', not_at L (dl_isString L) r ''provider'', not_at L (dl_isString L) r ''nativeService'',
         not_at L (dl_isArray L) r ''elements'', not_at L (dl_isUInt64 L) r ''maxPayloadSize'', not_at L (dl_isUInt L) r ''historyDepth'',
         not_at L (dl_isInt L) r ''priority''];
       if bad then Some None
       else do {
         payload \<leftarrow> Option.bind (dl_at L r ''maxPayloadSize'') (dl_asUInt64 L);
         history \<leftarrow> Option.bind (dl_at L r ''historyDepth'') (dl_asUInt L);
         provider \<leftarrow> at_string L r ''provider'';
         native \<leftarrow> at_string L r ''nativeService'';
         priority \<leftarrow> Option.bind (dl_at L r ''priority'') (dl_asInt L);
         elements \<leftarrow> dl_at L r ''elements'';
         mappings \<leftarrow> parse_all (parse_element L) (dl_elements L elements);
         case mappings of
           None \<Rightarrow> Some None
         | Some ms \<Rightarrow> do {
             name \<leftarrow> at_string L r ''instance'';
             Some (Some \<lparr>co_instance = name, co_binding = \<lparr>ro_service_id = the service, ro_instance_id = the instance', ro_route_epoch = 1,
               ro_max_payload_size = payload, ro_history_depth = history, ro_native_elements = ms, ro_provider = provider,
               ro_native_service = native, ro_priority = priority\<rparr>\<rparr>)
           }
       }
     }"

text \<open>\<open>content\<close> is what the file holds, \<open>None\<close> when it cannot be opened.\<close>

definition ParseDeployment ::
  "'j DocumentLibrary \<Rightarrow> string option \<Rightarrow> (ComError \<times> TransportRegistration list \<times> ConfiguredRoute list) option" where
  "ParseDeployment L content =
     (case content of
        None \<Rightarrow> Some (CE_not_found, [], [])
      | Some document \<Rightarrow>
          (case dl_read L document of
             DR_throws \<Rightarrow> None
           | DR_rejected \<Rightarrow> Some (CE_invalid_argument, [], [])
           | DR_value root \<Rightarrow>
               do {
                 bad \<leftarrow> any_of [\<lambda>_. Some (\<not> dl_isObject L root),
                   \<lambda>_. do { v \<leftarrow> dl_at L root ''runtimeDeploymentVersion''; n \<leftarrow> dl_asUInt64 L v; Some (n \<noteq> 1) },
                   not_at L (dl_isArray L) root ''transports'', not_at L (dl_isArray L) root ''routes''];
                 if bad then Some (CE_invalid_argument, [], [])
                 else do {
                   ts \<leftarrow> dl_at L root ''transports'';
                   transports \<leftarrow> parse_all (parse_transport L) (dl_elements L ts);
                   case transports of
                     None \<Rightarrow> Some (CE_invalid_argument, [], [])
                   | Some transports \<Rightarrow> do {
                       rs \<leftarrow> dl_at L root ''routes'';
                       routes \<leftarrow> parse_all (parse_route L) (dl_elements L rs);
                       Some (case routes of None \<Rightarrow> (CE_invalid_argument, transports, []) | Some routes \<Rightarrow> (CE_none, transports, routes))
                     }
                 }
               }))"

section \<open>Providers\<close>

record AbiTransportConfig =
  ac_instance_name :: string
  ac_configuration :: string
  ac_max_endpoints :: u32
  ac_max_outstanding_operations :: u32
  ac_start_timeout_ns :: u64
  ac_stop_timeout_ns :: u64

text \<open>A transport factory with the functions of its instances, on a state of the provider. Providers are code of their own, so the factory is
  a parameter. A call gives the health reports the provider makes while it runs; \<open>tf_await\<close> the ones it makes while the runtime
  waits.\<close>

record 'p TransportFactory =
  tf_struct_ok :: bool
  tf_abi_version :: u32
  tf_functions :: bool
  tf_name :: "string option"
  tf_create :: "AbiTransportConfig \<Rightarrow> ComStatus \<times> 'p option"
  tf_instance_ok :: "'p \<Rightarrow> bool"
  tf_get_capabilities :: "'p \<Rightarrow> ComStatus \<times> bool \<times> ComCapabilities"
  tf_extended :: "'p \<Rightarrow> bool"
  tf_health_functions :: "'p \<Rightarrow> bool"
  tf_diagnostic_function :: "'p \<Rightarrow> bool"
  tf_set_health_handler :: "'p \<Rightarrow> ComStatus \<times> ComHealth list \<times> 'p"
  tf_set_diagnostic_handler :: "'p \<Rightarrow> ComStatus \<times> 'p"
  tf_start :: "'p \<Rightarrow> ComStatus \<times> ComHealth list \<times> 'p"
  tf_stop :: "'p \<Rightarrow> ComStatus \<times> ComHealth list \<times> 'p"
  tf_await :: "duration \<Rightarrow> 'p \<Rightarrow> ComHealth list \<times> 'p"

section \<open>State\<close>

text \<open>The instances are numbered in the order of their creation. The events are the calls the runtime makes outside and the callbacks it
  enters.\<close>

datatype RuntimeEvent =
    RE_created nat | RE_destroyed nat | RE_started nat ComStatus | RE_stopped nat
  | RE_opened nat | RE_closed nat
  | RE_health Callback TransportHealth | RE_diagnostic Callback CommunicationDiagnostic

record 'p AttachedTransport =
  at_id :: nat
  at_factory :: "'p TransportFactory"
  at_instance :: 'p
  at_config :: TransportConfig
  at_health :: TransportHealth
  at_health_supported :: bool

record 'p ComRuntime =
  cr_instance_name :: string
  cr_transports :: "'p AttachedTransport list"
  cr_routes :: "ConfiguredRoute list"
  cr_libraries :: "nat list"
  cr_health_callback :: "Callback option"
  cr_diagnostic_callback :: "Callback option"
  cr_running :: bool
  cr_created :: nat
  cr_events :: "RuntimeEvent list"

definition new_runtime :: "string \<Rightarrow> 'p ComRuntime" where
  "new_runtime name = \<lparr>cr_instance_name = name, cr_transports = [], cr_routes = [], cr_libraries = [], cr_health_callback = None,
     cr_diagnostic_callback = None, cr_running = False, cr_created = 0, cr_events = []\<rparr>"

definition emit :: "RuntimeEvent list \<Rightarrow> 'p ComRuntime \<Rightarrow> 'p ComRuntime" where
  "emit es r = r\<lparr>cr_events := cr_events r @ es\<rparr>"

section \<open>Reports of a provider\<close>

definition to_diagnostic :: "string \<Rightarrow> ComDiagnostic \<Rightarrow> CommunicationDiagnostic" where
  "to_diagnostic provider d = \<lparr>cd_provider = provider, cd_error = ToRuntimeError (dg_status d),
     cd_operation_kind = ToDiagnosticOperation (dg_operation d), cd_native_code = dg_native_code d, cd_endpoint = dg_endpoint d,
     cd_operation = dg_operation_handle d, cd_message = AsStringView (dg_message d)\<rparr>"

definition OnProviderHealth :: "ComHealth \<Rightarrow> TransportHealth \<times> 'p ComRuntime \<Rightarrow> TransportHealth \<times> 'p ComRuntime" where
  "OnProviderHealth update s =
     (let (value, r) = s;
          value = value\<lparr>th_state := ToHealthState (he_state update), th_sequence := he_sequence update,
            th_diagnostic := to_diagnostic (th_provider value) (he_diagnostic update)\<rparr> in
      (value, case cr_health_callback r of None \<Rightarrow> r | Some c \<Rightarrow> emit [RE_health c value] r))"

definition take_reports :: "ComHealth list \<Rightarrow> TransportHealth \<times> 'p ComRuntime \<Rightarrow> TransportHealth \<times> 'p ComRuntime" where
  "take_reports = fold OnProviderHealth"

definition OnProviderDiagnostic :: "string \<Rightarrow> ComDiagnostic \<Rightarrow> 'p ComRuntime \<Rightarrow> 'p ComRuntime" where
  "OnProviderDiagnostic provider update r =
     (case cr_diagnostic_callback r of None \<Rightarrow> r | Some c \<Rightarrow> emit [RE_diagnostic c (to_diagnostic provider update)] r)"

text \<open>A report that arrives between the calls of the runtime, from a thread of the provider.\<close>

definition report_health :: "nat \<Rightarrow> ComHealth list \<Rightarrow> 'p ComRuntime \<Rightarrow> 'p ComRuntime" where
  "report_health i reports r =
     (let a = cr_transports r ! i; (h, r') = take_reports reports (at_health a, r) in
      r'\<lparr>cr_transports := (cr_transports r')[i := a\<lparr>at_health := h\<rparr>]\<rparr>)"

section \<open>Attaching providers\<close>

definition no_diagnostic :: CommunicationDiagnostic where
  "no_diagnostic = \<lparr>cd_provider = [], cd_error = CE_none, cd_operation_kind = RD_provider, cd_native_code = 0, cd_endpoint = 0,
     cd_operation = 0, cd_message = []\<rparr>"

definition abi_config :: "TransportConfig \<Rightarrow> 'p ComRuntime \<Rightarrow> AbiTransportConfig" where
  "abi_config config r = \<lparr>ac_instance_name = cr_instance_name r, ac_configuration = tc_configuration config,
     ac_max_endpoints = tc_max_endpoints config, ac_max_outstanding_operations = tc_max_outstanding_operations config,
     ac_start_timeout_ns = tc_start_timeout config, ac_stop_timeout_ns = tc_stop_timeout config\<rparr>"

definition destroy_instance :: "nat \<Rightarrow> 'p ComRuntime \<Rightarrow> 'p ComRuntime" where
  "destroy_instance i r = emit [RE_destroyed i] r"

text \<open>The end of \<open>AddTransport\<close>, with an instance that has passed the checks.\<close>

definition attach ::
  "'p TransportFactory \<Rightarrow> string \<Rightarrow> TransportConfig \<Rightarrow> ComCapabilities \<Rightarrow> nat \<Rightarrow> 'p \<Rightarrow> 'p ComRuntime \<Rightarrow> ComError \<times> 'p ComRuntime" where
  "attach f name config capabilities i p r =
     (let has_health = cc_feature_bits capabilities AND cap_HEALTH \<noteq> 0 \<and> tf_extended f p \<and> tf_health_functions f p;
          has_diagnostics = cc_feature_bits capabilities AND cap_DIAGNOSTICS \<noteq> 0 \<and> tf_extended f p \<and> tf_diagnostic_function f p;
          health = \<lparr>th_provider = name, th_state = TH_stopped, th_sequence = 0, th_diagnostic = no_diagnostic\<rparr>;
          (health_result, reports, p) = (if has_health then tf_set_health_handler f p else (CS_OK, [], p));
          (health, r) = take_reports reports (health, r) in
      if health_result \<noteq> CS_OK then (ToRuntimeError health_result, destroy_instance i r)
      else
        let (diagnostic_result, p) = (if has_diagnostics then tf_set_diagnostic_handler f p else (CS_OK, p)) in
        if diagnostic_result \<noteq> CS_OK then (ToRuntimeError diagnostic_result, destroy_instance i r)
        else (CE_none, r\<lparr>cr_transports := cr_transports r @ [\<lparr>at_id = i, at_factory = f, at_instance = p, at_config = config,
               at_health = health, at_health_supported = has_health\<rparr>]\<rparr>))"

definition AddTransport :: "'p TransportFactory \<Rightarrow> TransportConfig \<Rightarrow> 'p ComRuntime \<Rightarrow> ComError \<times> 'p ComRuntime" where
  "AddTransport f config r =
     (if cr_running r then (CE_invalid_state, r)
      else if \<not> tf_struct_ok f \<or> tf_abi_version f \<noteq> 1 \<or> \<not> tf_functions f \<or> tf_name f = None \<or> tf_name f = Some [] then
        (CE_incompatible_abi, r)
      else
        let name = AsStringView (tf_name f) in
        if list_ex (\<lambda>t. AsStringView (tf_name (at_factory t)) = name) (cr_transports r) then (CE_duplicate_transport, r)
        else case tf_create f (abi_config config r) of
          (result, p) \<Rightarrow>
            if result \<noteq> CS_OK then (ToRuntimeError result, r)
            else case p of
              None \<Rightarrow> (CE_incompatible_abi, r)
            | Some p \<Rightarrow>
                let i = cr_created r; r = emit [RE_created i] (r\<lparr>cr_created := i + 1\<rparr>) in
                if \<not> tf_instance_ok f p then (CE_incompatible_abi, destroy_instance i r)
                else case tf_get_capabilities f p of
                  (capability_result, struct_ok, capabilities) \<Rightarrow>
                    if capability_result \<noteq> CS_OK \<or> \<not> struct_ok \<or> cc_max_endpoints capabilities < tc_max_endpoints config \<or>
                       cc_max_outstanding_operations capabilities < tc_max_outstanding_operations config then
                      (if capability_result = CS_OK then CE_resource_exhausted else ToRuntimeError capability_result, destroy_instance i r)
                    else attach f name config capabilities i p r)"

text \<open>The search path, the dynamic loader and the factory a library gives are parameters.\<close>

record 'p ComLoader =
  cl_search :: "string option"
  cl_open :: "string \<Rightarrow> nat option"
  cl_query :: "nat \<Rightarrow> 'p TransportFactory option option"

definition provider_character :: "char \<Rightarrow> bool" where
  "provider_character c \<longleftrightarrow>
     c \<in> set ''abcdefghijklmnopqrstuvwxyzABCDEFGHIJKLMNOPQRSTUVWXYZ0123456789_-''"

function com_split_paths :: "string \<Rightarrow> string list" where
  "com_split_paths paths =
     (let directory = takeWhile (\<lambda>c. c \<noteq> CHR '':'') paths in
      if directory = paths then [directory] else directory # com_split_paths (drop (Suc (length directory)) paths))"
  by auto
termination
proof (relation "measure length")
  fix paths directory assume "directory = takeWhile (\<lambda>c. c \<noteq> CHR '':'') paths" "directory \<noteq> paths"
  then have "paths \<noteq> []" by auto
  then show "(drop (Suc (length directory)) paths, paths) \<in> measure length" by simp
qed simp

declare com_split_paths.simps [simp del]

definition com_candidates :: "string option \<Rightarrow> string \<Rightarrow> string list" where
  "com_candidates search filename =
     (case search of
        None \<Rightarrow> []
      | Some paths \<Rightarrow> map (\<lambda>directory. if directory = [] then filename else directory @ ''/'' @ filename) (com_split_paths paths)) @
     [filename]"

fun first_library :: "(string \<Rightarrow> nat option) \<Rightarrow> string list \<Rightarrow> nat option" where
  "first_library dlopen [] = None"
| "first_library dlopen (c # cs) = (case dlopen c of None \<Rightarrow> first_library dlopen cs | Some l \<Rightarrow> Some l)"

definition LoadTransport :: "'p ComLoader \<Rightarrow> string \<Rightarrow> TransportConfig \<Rightarrow> 'p ComRuntime \<Rightarrow> ComError \<times> 'p ComRuntime" where
  "LoadTransport env provider config r =
     (if provider = [] \<or> \<not> list_all provider_character provider then (CE_invalid_argument, r)
      else case first_library (cl_open env) (com_candidates (cl_search env) (''libovf_com_provider_'' @ provider @ ''.so'')) of
        None \<Rightarrow> (CE_not_found, r)
      | Some library \<Rightarrow>
          let r = emit [RE_opened library] r in
          case cl_query env library of
            Some (Some f) \<Rightarrow>
              let (result, r) = AddTransport f config r in
              if result \<noteq> CE_none then (result, emit [RE_closed library] r)
              else (CE_none, r\<lparr>cr_libraries := cr_libraries r @ [library]\<rparr>)
          | _ \<Rightarrow> (CE_incompatible_abi, emit [RE_closed library] r))"

fun load_all :: "'p ComLoader \<Rightarrow> TransportRegistration list \<Rightarrow> 'p ComRuntime \<Rightarrow> ComError \<times> 'p ComRuntime" where
  "load_all env [] r = (CE_none, r)"
| "load_all env (t # ts) r =
     (let (loaded, r) = LoadTransport env (tg_provider t) (tg_config t) r in
      if loaded \<noteq> CE_none then (loaded, r) else load_all env ts r)"

definition ConfigureDeployment ::
  "'j DocumentLibrary \<Rightarrow> (string \<Rightarrow> string option) \<Rightarrow> 'p ComLoader \<Rightarrow> string \<Rightarrow> 'p ComRuntime \<Rightarrow> (ComError \<times> 'p ComRuntime) option" where
  "ConfigureDeployment L files env path r =
     (if cr_running r \<or> path = [] then Some (CE_invalid_state, r)
      else do {
        (parsed, transports, routes) \<leftarrow> ParseDeployment L (files path);
        if parsed \<noteq> CE_none then Some (parsed, r)
        else
          let (loaded, r) = load_all env transports r in
          Some (if loaded \<noteq> CE_none then (loaded, r) else (CE_none, r\<lparr>cr_routes := routes\<rparr>))
      })"

section \<open>Starting and stopping\<close>

definition on_transport ::
  "nat \<Rightarrow> ('p AttachedTransport \<Rightarrow> ComStatus \<times> ComHealth list \<times> 'p) \<Rightarrow> 'p ComRuntime \<Rightarrow> ComStatus \<times> 'p ComRuntime" where
  "on_transport i call r =
     (let a = cr_transports r ! i; (st, reports, p) = call a; (h, r) = take_reports reports (at_health a, r) in
      (st, r\<lparr>cr_transports := (cr_transports r)[i := a\<lparr>at_instance := p, at_health := h\<rparr>]\<rparr>))"

definition start_transport :: "nat \<Rightarrow> 'p ComRuntime \<Rightarrow> ComStatus \<times> 'p ComRuntime" where
  "start_transport i r =
     (let (st, r) = on_transport i (\<lambda>a. tf_start (at_factory a) (at_instance a)) r in
      (st, emit [RE_started (at_id (cr_transports r ! i)) st] r))"

definition stop_transport :: "nat \<Rightarrow> 'p ComRuntime \<Rightarrow> 'p ComRuntime" where
  "stop_transport i r =
     (let r = snd (on_transport i (\<lambda>a. tf_stop (at_factory a) (at_instance a)) r) in
      emit [RE_stopped (at_id (cr_transports r ! i))] r)"

text \<open>The transports below an index, last first.\<close>

fun stop_below :: "nat \<Rightarrow> 'p ComRuntime \<Rightarrow> 'p ComRuntime" where
  "stop_below 0 r = r"
| "stop_below (Suc n) r = stop_below n (stop_transport n r)"

text \<open>The wait for the health to leave \<open>initializing\<close>: the reports that arrive within the time limit.\<close>

definition await_health :: "nat \<Rightarrow> 'p ComRuntime \<Rightarrow> bool \<times> 'p ComRuntime" where
  "await_health i r =
     (if th_state (at_health (cr_transports r ! i)) \<noteq> TH_initializing then (True, r)
      else
        let r = snd (on_transport i (\<lambda>a. (CS_OK, tf_await (at_factory a) (tc_start_timeout (at_config a)) (at_instance a))) r) in
        (th_state (at_health (cr_transports r ! i)) \<noteq> TH_initializing, r))"

fun start_each :: "nat list \<Rightarrow> 'p ComRuntime \<Rightarrow> ComError \<times> 'p ComRuntime" where
  "start_each [] r = (CE_none, r\<lparr>cr_running := True\<rparr>)"
| "start_each (i # is) r =
     (let (result, r) = start_transport i r in
      if result \<noteq> CS_OK then (ToRuntimeError result, stop_below i r)
      else if at_health_supported (cr_transports r ! i) then
        let (ready, r) = await_health i r in
        if \<not> ready \<or> th_state (at_health (cr_transports r ! i)) \<noteq> TH_ready then
          (if ready then CE_provider_failure else CE_deadline_exceeded, stop_below i (stop_transport i r))
        else start_each is r
      else start_each is r)"

definition ComRuntime_Start :: "'p ComRuntime \<Rightarrow> ComError \<times> 'p ComRuntime" where
  "ComRuntime_Start r =
     (if cr_running r then (CE_invalid_state, r) else start_each [0 ..< length (cr_transports r)] r)"

definition ComRuntime_Stop :: "'p ComRuntime \<Rightarrow> 'p ComRuntime" where
  "ComRuntime_Stop r =
     (if \<not> cr_running r then r else (stop_below (length (cr_transports r)) r)\<lparr>cr_running := False\<rparr>)"

text \<open>The destructor of the implementation: the instances go before the libraries that hold their code.\<close>

definition destroy_impl :: "'p ComRuntime \<Rightarrow> 'p ComRuntime" where
  "destroy_impl r = emit (map (RE_destroyed \<circ> at_id) (cr_transports r) @ map RE_closed (rev (cr_libraries r)))
     (r\<lparr>cr_transports := [], cr_libraries := []\<rparr>)"

definition destroy_runtime :: "'p ComRuntime \<Rightarrow> 'p ComRuntime" where
  "destroy_runtime r = destroy_impl (ComRuntime_Stop r)"

text \<open>The move assignment gives up the implementation it held before.\<close>

definition move_assigned :: "'p ComRuntime \<Rightarrow> 'p ComRuntime" where
  "move_assigned r = destroy_impl r"

section \<open>An application's runtime\<close>

definition quoted :: "string \<Rightarrow> string" where
  "quoted s = [CHR 0x27] @ s @ [CHR 0x27]"

fun load_registered :: "'p ComLoader \<Rightarrow> string list \<Rightarrow> TransportRegistration list \<Rightarrow> 'p ComRuntime \<Rightarrow> (ComError \<times> string) option \<times> 'p ComRuntime" where
  "load_registered env loaded [] r = (None, r)"
| "load_registered env loaded (t # ts) r =
     (if tg_provider t \<in> set loaded then load_registered env loaded ts r
      else
        let (error, r) = LoadTransport env (tg_provider t) (tg_config t) r in
        if error \<noteq> CE_none then (Some (error, ''failed to load communication provider '' @ quoted (tg_provider t)), r)
        else load_registered env (loaded @ [tg_provider t]) ts r)"

text \<open>Both constructors end with a started runtime, or with an error and the runtime destroyed. An exception of the parser is caught and
  reported as an allocation failure.\<close>

definition start_application :: "'p ComRuntime \<Rightarrow> (ComError \<times> string) option \<times> 'p ComRuntime" where
  "start_application r =
     (let (error, r) = ComRuntime_Start r in
      if error \<noteq> CE_none then (Some (error, ''failed to start communication runtime''), destroy_runtime r) else (None, r))"

definition CreateApplicationRuntime ::
  "'p ComLoader \<Rightarrow> string \<Rightarrow> TransportRegistration list \<Rightarrow> (ComError \<times> string) option \<times> 'p ComRuntime" where
  "CreateApplicationRuntime env name transports =
     (case load_registered env [] transports (new_runtime name) of
        (Some e, r) \<Rightarrow> (Some e, destroy_runtime r)
      | (None, r) \<Rightarrow> start_application r)"

definition CreateApplicationRuntime_deployed ::
  "'j DocumentLibrary \<Rightarrow> (string \<Rightarrow> string option) \<Rightarrow> 'p ComLoader \<Rightarrow> string \<Rightarrow> string \<Rightarrow> (ComError \<times> string) option \<times> 'p ComRuntime" where
  "CreateApplicationRuntime_deployed L files env name path =
     (case ConfigureDeployment L files env path (new_runtime name) of
        None \<Rightarrow> (Some (CE_resource_exhausted, ''cannot allocate communication runtime''), destroy_runtime (new_runtime name))
      | Some (error, r) \<Rightarrow>
          if error \<noteq> CE_none then
            (Some (error, ''failed to configure communication deployment '' @ quoted path), destroy_runtime r)
          else start_application r)"

section \<open>Queries and handlers\<close>

definition TransportNames :: "'p ComRuntime \<Rightarrow> string list" where
  "TransportNames r = map (\<lambda>t. AsStringView (tf_name (at_factory t))) (cr_transports r)"

definition ComRuntime_Health :: "'p ComRuntime \<Rightarrow> TransportHealth list" where
  "ComRuntime_Health r = map at_health (cr_transports r)"

definition OnHealth :: "Callback option \<Rightarrow> 'p ComRuntime \<Rightarrow> 'p ComRuntime" where
  "OnHealth callback r =
     (let r = r\<lparr>cr_health_callback := callback\<rparr> in
      case callback of None \<Rightarrow> r | Some c \<Rightarrow> emit (map (RE_health c) (ComRuntime_Health r)) r)"

definition OnDiagnostic :: "Callback option \<Rightarrow> 'p ComRuntime \<Rightarrow> 'p ComRuntime" where
  "OnDiagnostic callback r = r\<lparr>cr_diagnostic_callback := callback\<rparr>"

definition RuntimeAccess_find :: "string \<Rightarrow> 'p ComRuntime \<Rightarrow> 'p AttachedTransport option" where
  "RuntimeAccess_find name r =
     (if \<not> cr_running r then None
      else List.find (\<lambda>t. AsStringView (tf_name (at_factory t)) = name) (cr_transports r))"

definition RuntimeAccess_routes :: "RouteSelector \<Rightarrow> 'p ComRuntime \<Rightarrow> RouteBinding list" where
  "RuntimeAccess_routes selector r =
     (if \<not> cr_running r then []
      else map co_binding (filter (\<lambda>route. ro_service_id (co_binding route) = se_service_id selector \<and>
             (se_instance selector = [] \<or> se_instance selector = co_instance route)) (cr_routes r)))"

text \<open>The host functions a provider calls: a dispatcher accepts or refuses the work, without one it runs at once.\<close>

definition host_dispatch :: "bool \<Rightarrow> bool option \<Rightarrow> ComStatus \<times> bool" where
  "host_dispatch functions dispatcher =
     (if \<not> functions then (CS_INVALID_ARGUMENT, False)
      else case dispatcher of
        Some accepts \<Rightarrow> (if accepts then CS_OK else CS_RESOURCE_EXHAUSTED, False)
      | None \<Rightarrow> (CS_OK, True))"

definition host_log :: "(LogLevel \<times> string) list \<Rightarrow> bool \<Rightarrow> ComLogLevel \<Rightarrow> string option \<Rightarrow> (LogLevel \<times> string) list" where
  "host_log logged logger level message = (if logger then logged @ [(ToLogLevel level, AsStringView message)] else logged)"

end
