(* ===== verification/Com_Binding.thy ===== *)
theory Com_Binding
  imports Com_Runtime "HOL-Library.Char_ord" "HOL-Library.Product_Lexorder"
begin

text \<open>
  The bindings between generated code and a transport provider (\<^verbatim>\<open>com/src/provider_binding.cpp\<close>), over a provider's function table as a
  record of functions on the provider's state. A client binding invokes methods and subscribes to events, a server binding
  offers methods and publishes events, a discovery watch keeps the routes that are available. The subscription object is shared by
  threads: its sections under the mutex are the steps of \<open>sub_step\<close>.
\<close>

section \<open>Types\<close>

datatype ElementKind = EL_event | EL_method | EL_field_get | EL_field_set | EL_field_notify

record ElementDescriptor =
  el_id :: Uuid
  el_tag :: u32
  el_name :: string
  el_operation :: ElementKind

record RawResult =
  rr_error :: ComError
  rr_has_error :: bool
  rr_application_error :: bool
  rr_payload :: bytes

text \<open>An encoder fills a buffer of the size it is given, or fails.\<close>

type_synonym encoder = "nat \<Rightarrow> bytes option"

record RawServerResult =
  rs_error :: ComError
  rs_has_error :: bool
  rs_application_error :: bool
  rs_payload :: bytes
  rs_encoded_payload_size :: nat
  rs_encode_payload :: "encoder option"

datatype ClientSubscriptionState = CSS_requested | CSS_active | CSS_rejected | CSS_suspended | CSS_withdrawn

section \<open>The provider's table\<close>

text \<open>The functions of a provider's table a binding calls, on the state of the provider. A handle that is not written stays 0. A loan is
  written between its acquisition and its publication.\<close>

record 'w TransportTable =
  tt_capabilities :: "'w \<Rightarrow> ComStatus \<times> u64"
  tt_request_loan_functions :: bool
  tt_response_loan_functions :: bool
  tt_state_function :: bool
  tt_watch_start :: "Uuid \<Rightarrow> string \<Rightarrow> Callback \<Rightarrow> 'w \<Rightarrow> ComStatus \<times> ComHandle \<times> 'w"
  tt_watch_stop :: "ComHandle \<Rightarrow> 'w \<Rightarrow> 'w"
  tt_endpoint_create :: "EndpointDescriptor \<Rightarrow> 'w \<Rightarrow> ComStatus \<times> ComHandle \<times> 'w"
  tt_endpoint_destroy :: "ComHandle \<Rightarrow> 'w \<Rightarrow> 'w"
  tt_subscribe :: "ComHandle \<Rightarrow> Callback \<Rightarrow> 'w \<Rightarrow> ComStatus \<times> ComHandle \<times> 'w"
  tt_unsubscribe :: "ComHandle \<Rightarrow> 'w \<Rightarrow> 'w"
  tt_set_state_handler :: "ComHandle \<Rightarrow> Callback \<Rightarrow> 'w \<Rightarrow> ComStatus \<times> 'w"
  tt_publish :: "ComHandle \<Rightarrow> bytes \<Rightarrow> 'w \<Rightarrow> ComStatus \<times> 'w"
  tt_loan_acquire :: "ComHandle \<Rightarrow> nat \<Rightarrow> 'w \<Rightarrow> ComStatus \<times> ComHandle \<times> nat \<times> 'w"
  tt_loan_write :: "ComHandle \<Rightarrow> bytes \<Rightarrow> 'w \<Rightarrow> 'w"
  tt_loan_publish :: "ComHandle \<Rightarrow> ComHandle \<Rightarrow> nat \<Rightarrow> 'w \<Rightarrow> ComStatus \<times> 'w"
  tt_loan_release :: "ComHandle \<Rightarrow> 'w \<Rightarrow> 'w"
  tt_request :: "ComHandle \<Rightarrow> bytes \<Rightarrow> u64 \<Rightarrow> Callback \<Rightarrow> 'w \<Rightarrow> ComStatus \<times> ComHandle \<times> 'w"
  tt_cancel :: "ComHandle \<Rightarrow> 'w \<Rightarrow> 'w"
  tt_set_request_handler :: "ComHandle \<Rightarrow> Callback option \<Rightarrow> 'w \<Rightarrow> ComStatus \<times> 'w"
  tt_respond :: "ComHandle \<Rightarrow> ComStatus \<Rightarrow> bytes \<Rightarrow> 'w \<Rightarrow> 'w"
  tt_request_loan_acquire :: "ComHandle \<Rightarrow> nat \<Rightarrow> u64 \<Rightarrow> 'w \<Rightarrow> ComStatus \<times> ComHandle \<times> nat \<times> 'w"
  tt_request_loan_send :: "ComHandle \<Rightarrow> ComHandle \<Rightarrow> nat \<Rightarrow> Callback \<Rightarrow> 'w \<Rightarrow> ComStatus \<times> ComHandle \<times> 'w"
  tt_response_loan_acquire :: "ComHandle \<Rightarrow> nat \<Rightarrow> ComStatus \<Rightarrow> 'w \<Rightarrow> ComStatus \<times> ComHandle \<times> nat \<times> 'w"
  tt_response_loan_send :: "ComHandle \<Rightarrow> ComHandle \<Rightarrow> nat \<Rightarrow> 'w \<Rightarrow> 'w"

definition cap_REQUEST_LOANS :: u64 where "cap_REQUEST_LOANS = push_bit 9 1"
definition cap_RESPONSE_LOANS :: u64 where "cap_RESPONSE_LOANS = push_bit 10 1"

definition HasCapability :: "'w TransportTable \<Rightarrow> u64 \<Rightarrow> 'w \<Rightarrow> bool" where
  "HasCapability T capability w =
     (case tt_capabilities T w of (st, bits) \<Rightarrow> st = CS_OK \<and> bits AND capability = capability)"

definition HasRequestLoans :: "'w TransportTable \<Rightarrow> 'w \<Rightarrow> bool" where
  "HasRequestLoans T w \<longleftrightarrow> HasCapability T cap_REQUEST_LOANS w \<and> tt_request_loan_functions T"

definition HasResponseLoans :: "'w TransportTable \<Rightarrow> 'w \<Rightarrow> bool" where
  "HasResponseLoans T w \<longleftrightarrow> HasCapability T cap_RESPONSE_LOANS w \<and> tt_response_loan_functions T"

definition HasSubscriptionState :: "'w TransportTable \<Rightarrow> 'w \<Rightarrow> bool" where
  "HasSubscriptionState T w \<longleftrightarrow> HasCapability T cap_SUBSCRIPTION_STATE w \<and> tt_state_function T"

section \<open>Statuses and errors\<close>

fun MapStatus :: "ComStatus \<Rightarrow> ComError" where
  "MapStatus CS_NOT_FOUND = CE_unavailable"
| "MapStatus CS_INCOMPATIBLE_ABI = CE_incompatible_abi"
| "MapStatus CS_UNSUPPORTED = CE_incompatible_abi"
| "MapStatus CS_RESOURCE_EXHAUSTED = CE_resource_exhausted"
| "MapStatus CS_DEADLINE_EXCEEDED = CE_deadline_exceeded"
| "MapStatus CS_CANCELLED = CE_cancelled"
| "MapStatus CS_SHUTTING_DOWN = CE_shutting_down"
| "MapStatus _ = CE_provider_failure"

fun AbiStatus :: "ComError \<Rightarrow> ComStatus" where
  "AbiStatus CE_unavailable = CS_NOT_FOUND"
| "AbiStatus CE_incompatible_abi = CS_UNSUPPORTED"
| "AbiStatus CE_resource_exhausted = CS_RESOURCE_EXHAUSTED"
| "AbiStatus CE_deadline_exceeded = CS_DEADLINE_EXCEEDED"
| "AbiStatus CE_cancelled = CS_CANCELLED"
| "AbiStatus CE_shutting_down = CS_SHUTTING_DOWN"
| "AbiStatus _ = CS_TRANSPORT_ERROR"

fun ToState :: "SubscriptionState \<Rightarrow> ClientSubscriptionState" where
  "ToState SS_REQUESTED = CSS_requested"
| "ToState SS_ACTIVE = CSS_active"
| "ToState SS_REJECTED = CSS_rejected"
| "ToState SS_SUSPENDED = CSS_suspended"
| "ToState SS_WITHDRAWN = CSS_withdrawn"

section \<open>Endpoint descriptors\<close>

definition native_name :: "RouteBinding \<Rightarrow> ElementDescriptor \<Rightarrow> string" where
  "native_name route element =
     (case List.find (\<lambda>m. nm_element_id m = el_id element) (ro_native_elements route) of
        None \<Rightarrow> []
      | Some m \<Rightarrow>
          (case el_operation element of
             EL_event \<Rightarrow> nm_event m
           | EL_field_notify \<Rightarrow> nm_event m
           | EL_field_get \<Rightarrow> nm_field_get m
           | EL_field_set \<Rightarrow> nm_field_set m
           | EL_method \<Rightarrow> nm_method m))"

fun abi_operation :: "ElementKind \<Rightarrow> ElementOperation" where
  "abi_operation EL_event = EO_EVENT"
| "abi_operation EL_method = EO_METHOD"
| "abi_operation EL_field_get = EO_FIELD_GET"
| "abi_operation EL_field_set = EO_FIELD_SET"
| "abi_operation EL_field_notify = EO_FIELD_NOTIFY"

definition Descriptor :: "RouteBinding \<Rightarrow> ElementDescriptor \<Rightarrow> EndpointKind \<Rightarrow> EndpointDescriptor" where
  "Descriptor route element kind = \<lparr>ed_kind = kind, ed_service_id = ro_service_id route, ed_instance_id = ro_instance_id route,
     ed_element_id = el_id element, ed_route_epoch = ro_route_epoch route, ed_max_payload_size = ro_max_payload_size route,
     ed_history_depth = ro_history_depth route,
     ed_required_features =
       (if kind = EK_EVENT_SUBSCRIBER \<or> kind = EK_EVENT_PUBLISHER then cap_EVENTS OR cap_ORDERED
        else if kind = EK_METHOD_CLIENT then cap_METHODS OR cap_DEADLINES OR cap_CANCELLATION
        else cap_METHODS),
     ed_native_mapping = native_name route element, ed_operation = abi_operation (el_operation element)\<rparr>"

section \<open>Client operations\<close>

text \<open>\<open>os_self\<close> is the reference the object holds to itself while a provider may still complete it.\<close>

record OperationState =
  os_endpoint :: ComHandle
  os_operation :: ComHandle
  os_complete :: bool
  os_result :: RawResult
  os_self :: bool

definition raw_error :: "ComError \<Rightarrow> RawResult" where
  "raw_error e = \<lparr>rr_error = e, rr_has_error = True, rr_application_error = False, rr_payload = []\<rparr>"

definition op_new :: "ComHandle \<Rightarrow> OperationState" where
  "op_new endpoint = \<lparr>os_endpoint = endpoint, os_operation = 0, os_complete = False,
     os_result = \<lparr>rr_error = CE_none, rr_has_error = False, rr_application_error = False, rr_payload = []\<rparr>, os_self = False\<rparr>"

definition op_fail :: "ComStatus \<Rightarrow> OperationState \<Rightarrow> OperationState" where
  "op_fail status s = s\<lparr>os_result := raw_error (MapStatus status), os_complete := True, os_self := False\<rparr>"

definition op_complete :: "ComStatus \<Rightarrow> bytes \<Rightarrow> OperationState \<Rightarrow> OperationState" where
  "op_complete status payload s =
     (if os_complete s then s\<lparr>os_self := False\<rparr>
      else s\<lparr>os_complete := True, os_self := False,
             os_result := \<lparr>rr_error = MapStatus status,
               rr_has_error = (status \<noteq> CS_OK \<and> status \<noteq> CS_APPLICATION_ERROR),
               rr_application_error = (status = CS_APPLICATION_ERROR),
               rr_payload = (if payload \<noteq> [] then payload else rr_payload (os_result s))\<rparr>\<rparr>)"

text \<open>\<open>wait\<close> finds the operation complete, or the deadline passes first.\<close>

definition op_wait :: "'w TransportTable \<Rightarrow> OperationState \<Rightarrow> 'w \<Rightarrow> RawResult \<times> OperationState \<times> 'w" where
  "op_wait T s w =
     (if os_complete s then (os_result s, s, w)
      else
        let s = s\<lparr>os_complete := True, os_result := raw_error CE_deadline_exceeded\<rparr>;
            w = (if os_operation s \<noteq> 0 then tt_cancel T (os_operation s) w else w) in
        (os_result s, s, w))"

definition op_cancel :: "'w TransportTable \<Rightarrow> OperationState \<Rightarrow> 'w \<Rightarrow> 'w" where
  "op_cancel T s w = (if os_complete s \<or> os_operation s = 0 then w else tt_cancel T (os_operation s) w)"

definition op_destroy :: "'w TransportTable \<Rightarrow> OperationState \<Rightarrow> 'w \<Rightarrow> 'w" where
  "op_destroy T s w =
     (let w = (if os_operation s \<noteq> 0 then tt_cancel T (os_operation s) w else w) in
      if os_endpoint s \<noteq> 0 then tt_endpoint_destroy T (os_endpoint s) w else w)"

text \<open>The common end of the ways to send a request.\<close>

definition send_request ::
  "'w TransportTable \<Rightarrow> bytes \<Rightarrow> u64 \<Rightarrow> Callback \<Rightarrow> OperationState \<Rightarrow> 'w \<Rightarrow> OperationState \<times> 'w" where
  "send_request T payload deadline c s w =
     (case tt_request T (os_endpoint s) payload deadline c w of
        (status, operation, w) \<Rightarrow>
          (if status = CS_OK then s\<lparr>os_self := True, os_operation := operation\<rparr> else op_fail status (s\<lparr>os_self := True\<rparr>), w))"

definition invoke ::
  "'w TransportTable \<Rightarrow> RouteBinding \<Rightarrow> ElementDescriptor \<Rightarrow> bytes \<Rightarrow> u64 \<Rightarrow> Callback \<Rightarrow> 'w \<Rightarrow> OperationState \<times> 'w" where
  "invoke T route element payload deadline c w =
     (case tt_endpoint_create T (Descriptor route element EK_METHOD_CLIENT) w of
        (status, endpoint, w) \<Rightarrow>
          if status \<noteq> CS_OK then (op_fail status (op_new endpoint), w)
          else send_request T payload deadline c (op_new endpoint) w)"

definition InvokeLoaned ::
  "'w TransportTable \<Rightarrow> RouteBinding \<Rightarrow> ElementDescriptor \<Rightarrow> nat \<Rightarrow> encoder \<Rightarrow> u64 \<Rightarrow> Callback \<Rightarrow> 'w \<Rightarrow> OperationState \<times> 'w" where
  "InvokeLoaned T route element n encode deadline c w =
     (if \<not> HasRequestLoans T w then
        (case encode n of
           None \<Rightarrow> (op_fail CS_TRANSPORT_ERROR (op_new 0), w)
         | Some payload \<Rightarrow> invoke T route element payload deadline c w)
      else case tt_endpoint_create T (Descriptor route element EK_METHOD_CLIENT) w of
        (status, endpoint, w) \<Rightarrow>
          if status \<noteq> CS_OK then (op_fail status (op_new endpoint), w)
          else case tt_request_loan_acquire T endpoint n deadline w of
            (status, loan, capacity, w) \<Rightarrow>
              if status = CS_UNSUPPORTED then
                (case encode n of
                   None \<Rightarrow> (op_fail CS_TRANSPORT_ERROR (op_new endpoint), w)
                 | Some payload \<Rightarrow> send_request T payload deadline c (op_new endpoint) w)
              else if status \<noteq> CS_OK then (op_fail status (op_new endpoint), w)
              else case encode capacity of
                None \<Rightarrow> (op_fail CS_TRANSPORT_ERROR (op_new endpoint), tt_loan_release T loan w)
              | Some bs \<Rightarrow>
                  (case tt_request_loan_send T endpoint loan n c (tt_loan_write T loan bs w) of
                     (status, operation, w) \<Rightarrow>
                       (if status = CS_OK then (op_new endpoint)\<lparr>os_self := True, os_operation := operation\<rparr>
                        else op_fail status ((op_new endpoint)\<lparr>os_self := True\<rparr>), w)))"

section \<open>Discovery\<close>

record Registration =
  rg_candidate :: nat
  rg_provider :: string
  rg_handle :: ComHandle

record DiscoveryWatch =
  dw_candidates :: "RouteBinding list"
  dw_registrations :: "Registration list"
  dw_counts :: "nat list"
  dw_callback :: "Callback option"
  dw_closed :: bool

text \<open>The order of the routes. Routes with equal keys keep the order of the candidates; \<open>std::sort\<close> leaves it open.\<close>

definition route_key :: "RouteBinding \<Rightarrow> int \<times> string \<times> Uuid \<times> u64" where
  "route_key r = (ro_priority r, ro_provider r, ro_instance_id r, ro_route_epoch r)"

definition routes_locked :: "DiscoveryWatch \<Rightarrow> RouteBinding list" where
  "routes_locked d =
     sort_key route_key (map (\<lambda>i. dw_candidates d ! i) (filter (\<lambda>i. dw_counts d ! i \<noteq> 0) [0 ..< length (dw_candidates d)]))"

text \<open>The snapshot a callback is entered with comes second.\<close>

definition update :: "nat \<Rightarrow> bool \<Rightarrow> DiscoveryWatch \<Rightarrow> DiscoveryWatch \<times> (Callback \<times> RouteBinding list) option" where
  "update index available d =
     (if dw_closed d \<or> index \<ge> length (dw_counts d) then (d, None)
      else
        let n = dw_counts d ! index;
            d = d\<lparr>dw_counts := (dw_counts d)[index := (if available then n + 1 else if n \<noteq> 0 then n - 1 else n)]\<rparr> in
        (d, map_option (\<lambda>c. (c, routes_locked d)) (dw_callback d)))"

definition OnDiscovery :: "nat \<Rightarrow> DiscoveryEntry \<Rightarrow> DiscoveryWatch \<Rightarrow> DiscoveryWatch \<times> (Callback \<times> RouteBinding list) option" where
  "OnDiscovery index entry d =
     (let candidate = dw_candidates d ! index in
      if \<not> list_all (\<lambda>b. b = 0) (de_instance_id entry) \<and> ro_instance_id candidate \<noteq> de_instance_id entry then (d, None)
      else if de_route_epoch entry \<noteq> 0 \<and> de_route_epoch entry \<noteq> ro_route_epoch candidate then (d, None)
      else update index (de_available entry \<noteq> 0) d)"

definition Discovery_Routes :: "DiscoveryWatch \<Rightarrow> RouteBinding list" where
  "Discovery_Routes d = routes_locked d"

definition Discovery_Select :: "DiscoveryWatch \<Rightarrow> RouteBinding option" where
  "Discovery_Select d = (case Discovery_Routes d of [] \<Rightarrow> None | r # _ \<Rightarrow> Some r)"

definition OnChange :: "Callback option \<Rightarrow> DiscoveryWatch \<Rightarrow> DiscoveryWatch \<times> (Callback \<times> RouteBinding list) option" where
  "OnChange callback d =
     (if dw_closed d then (d, None)
      else let d = d\<lparr>dw_callback := callback\<rparr> in (d, map_option (\<lambda>c. (c, routes_locked d)) callback))"

text \<open>\<open>lookup\<close> is \<open>RuntimeAccess::find\<close> of a running runtime: the tables by provider name, on one state of all providers.\<close>

definition stop_watch :: "(string \<Rightarrow> 'w TransportTable option) \<Rightarrow> Registration \<Rightarrow> 'w \<Rightarrow> 'w" where
  "stop_watch lookup g w = (case lookup (rg_provider g) of None \<Rightarrow> w | Some T \<Rightarrow> tt_watch_stop T (rg_handle g) w)"

definition Discovery_Close :: "(string \<Rightarrow> 'w TransportTable option) \<Rightarrow> DiscoveryWatch \<Rightarrow> 'w \<Rightarrow> DiscoveryWatch \<times> 'w" where
  "Discovery_Close lookup d w =
     (if dw_closed d then (d, w)
      else (d\<lparr>dw_closed := True, dw_callback := None, dw_registrations := []\<rparr>,
            fold (\<lambda>g w. if rg_handle g \<noteq> 0 then stop_watch lookup g w else w) (dw_registrations d) w))"

fun discover_each ::
  "(string \<Rightarrow> 'w TransportTable option) \<Rightarrow> Callback \<Rightarrow> (nat \<times> RouteBinding) list \<Rightarrow> Registration list \<Rightarrow> 'w \<Rightarrow> Registration list option \<times> 'w" where
  "discover_each lookup base [] active w = (Some active, w)"
| "discover_each lookup base ((index, candidate) # rest) active w =
     (case lookup (ro_provider candidate) of
        None \<Rightarrow> (None, w)
      | Some T \<Rightarrow>
          (case tt_watch_start T (ro_service_id candidate) (ro_native_service candidate) (base + index) w of
             (status, handle, w) \<Rightarrow>
               if status \<noteq> CS_OK then (None, fold (stop_watch lookup) active w)
               else discover_each lookup base rest
                 (active @ [\<lparr>rg_candidate = index, rg_provider = ro_provider candidate, rg_handle = handle\<rparr>]) w))"

definition Discover ::
  "(string \<Rightarrow> 'w TransportTable option) \<Rightarrow> Callback \<Rightarrow> RouteBinding list \<Rightarrow> 'w \<Rightarrow> DiscoveryWatch option \<times> 'w" where
  "Discover lookup base candidates w =
     (case discover_each lookup base (enumerate 0 candidates) [] w of
        (None, w) \<Rightarrow> (None, w)
      | (Some registrations, w) \<Rightarrow>
          (Some \<lparr>dw_candidates = candidates, dw_registrations = registrations, dw_counts = replicate (length candidates) 0,
             dw_callback = None, dw_closed = False\<rparr>, w))"

definition Connect :: "(string \<Rightarrow> 'w TransportTable option) \<Rightarrow> RouteBinding \<Rightarrow> ('w TransportTable \<times> RouteBinding) option" where
  "Connect lookup route = map_option (\<lambda>T. (T, route)) (lookup (ro_provider route))"

text \<open>\<open>arriving\<close> are the discovery entries of the candidates that arrive before the timeout; the wait ends with the first that makes a route
  available.\<close>

fun await_route :: "(nat \<times> DiscoveryEntry) list \<Rightarrow> DiscoveryWatch \<Rightarrow> RouteBinding option \<times> DiscoveryWatch" where
  "await_route arriving d =
     (case Discovery_Select d of
        Some r \<Rightarrow> (Some r, d)
      | None \<Rightarrow>
          (case arriving of
             [] \<Rightarrow> (None, d)
           | (index, entry) # rest \<Rightarrow> await_route rest (fst (OnDiscovery index entry d))))"

declare await_route.simps [simp del]

definition FindService ::
  "(string \<Rightarrow> 'w TransportTable option) \<Rightarrow> Callback \<Rightarrow> RouteBinding list \<Rightarrow> (nat \<times> DiscoveryEntry) list \<Rightarrow> 'w
     \<Rightarrow> ('w TransportTable \<times> RouteBinding) option \<times> 'w" where
  "FindService lookup base candidates arriving w =
     (case Discover lookup base candidates w of
        (None, w) \<Rightarrow> (None, w)
      | (Some d, w) \<Rightarrow>
          let d = fst (OnChange (Some base) d);
              (selected, d) = await_route arriving d;
              (d, w) = Discovery_Close lookup d w in
          (Option.bind selected (Connect lookup), w))"

section \<open>Server bindings\<close>

text \<open>A method is its endpoint and its handler.\<close>

record ServerBinding =
  sb_route :: RouteBinding
  sb_methods :: "(ComHandle \<times> Callback) list"
  sb_events :: "(Uuid \<times> ComHandle) list"
  sb_closed :: bool

definition new_server :: "RouteBinding \<Rightarrow> ServerBinding" where
  "new_server route = \<lparr>sb_route = route, sb_methods = [], sb_events = [], sb_closed = False\<rparr>"

definition AddMethod ::
  "'w TransportTable \<Rightarrow> ElementDescriptor \<Rightarrow> Callback option \<Rightarrow> ServerBinding \<Rightarrow> 'w \<Rightarrow> bool \<times> ServerBinding \<times> 'w" where
  "AddMethod T element handler b w =
     (case handler of
        None \<Rightarrow> (False, b, w)
      | Some c \<Rightarrow>
          (case tt_endpoint_create T (Descriptor (sb_route b) element EK_METHOD_SERVER) w of
             (status, endpoint, w) \<Rightarrow>
               if status \<noteq> CS_OK then (False, b, w)
               else
                 (case tt_set_request_handler T endpoint (Some c) w of
                    (status, w) \<Rightarrow>
                      if status \<noteq> CS_OK then (False, b, tt_endpoint_destroy T endpoint w)
                      else if sb_closed b then
                        (False, b, tt_endpoint_destroy T endpoint (snd (tt_set_request_handler T endpoint None w)))
                      else (True, b\<lparr>sb_methods := sb_methods b @ [(endpoint, c)]\<rparr>, w))))"

definition AddEvent :: "'w TransportTable \<Rightarrow> ElementDescriptor \<Rightarrow> ServerBinding \<Rightarrow> 'w \<Rightarrow> bool \<times> ServerBinding \<times> 'w" where
  "AddEvent T element b w =
     (case tt_endpoint_create T (Descriptor (sb_route b) element EK_EVENT_PUBLISHER) w of
        (status, endpoint, w) \<Rightarrow>
          if status \<noteq> CS_OK then (False, b, w)
          else if sb_closed b \<or> um_find (sb_events b) (el_id element) \<noteq> None then
            (False, b, tt_endpoint_destroy T endpoint w)
          else (True, b\<lparr>sb_events := om_set (el_id element) endpoint (sb_events b)\<rparr>, w))"

definition Binding_publish :: "'w TransportTable \<Rightarrow> ElementDescriptor \<Rightarrow> bytes \<Rightarrow> ServerBinding \<Rightarrow> 'w \<Rightarrow> ComError option \<times> 'w" where
  "Binding_publish T element payload b w =
     (if sb_closed b then (Some CE_unavailable, w)
      else case um_find (sb_events b) (el_id element) of
        None \<Rightarrow> (Some CE_unavailable, w)
      | Some endpoint \<Rightarrow>
          (case tt_publish T endpoint payload w of
             (status, w) \<Rightarrow> (if status = CS_OK then None else Some (MapStatus status), w)))"

definition PublishLoaned :: "'w TransportTable \<Rightarrow> ElementDescriptor \<Rightarrow> nat \<Rightarrow> encoder \<Rightarrow> ServerBinding \<Rightarrow> 'w \<Rightarrow> ComError option \<times> 'w" where
  "PublishLoaned T element n encode b w =
     (if sb_closed b then (Some CE_unavailable, w)
      else case um_find (sb_events b) (el_id element) of
        None \<Rightarrow> (Some CE_unavailable, w)
      | Some endpoint \<Rightarrow>
          (case tt_loan_acquire T endpoint n w of
             (status, loan, capacity, w) \<Rightarrow>
               if status = CS_UNSUPPORTED then
                 (case encode n of
                    None \<Rightarrow> (Some CE_provider_failure, w)
                  | Some payload \<Rightarrow> Binding_publish T element payload b w)
               else if status \<noteq> CS_OK then (Some (MapStatus status), w)
               else (case encode capacity of
                  None \<Rightarrow> (Some CE_provider_failure, tt_loan_release T loan w)
                | Some bs \<Rightarrow>
                    (case tt_loan_publish T endpoint loan n (tt_loan_write T loan bs w) of
                       (status, w) \<Rightarrow>
                         if status \<noteq> CS_OK then (Some (MapStatus status), tt_loan_release T loan w) else (None, w)))))"

text \<open>A handler throws when it gives \<open>None\<close>. \<open>fits\<close> tells whether a buffer of a size can be allocated.\<close>

definition server_result :: "RawServerResult option \<Rightarrow> RawServerResult" where
  "server_result r = (case r of Some r \<Rightarrow> r
     | None \<Rightarrow> \<lparr>rs_error = CE_provider_failure, rs_has_error = True, rs_application_error = False, rs_payload = [],
         rs_encoded_payload_size = 0, rs_encode_payload = None\<rparr>)"

definition server_status :: "RawServerResult \<Rightarrow> ComStatus" where
  "server_status r = (if rs_application_error r then CS_APPLICATION_ERROR else if rs_has_error r then AbiStatus (rs_error r) else CS_OK)"

definition encoded_response :: "(nat \<Rightarrow> bool) \<Rightarrow> RawServerResult \<Rightarrow> ComStatus \<times> bytes" where
  "encoded_response fits r =
     (case rs_encode_payload r of
        None \<Rightarrow> (server_status r, rs_payload r)
      | Some encode \<Rightarrow>
          let n = rs_encoded_payload_size r;
              (status, payload) = (if fits n then (server_status r, take n (rs_payload r @ replicate n 0)) else (CS_RESOURCE_EXHAUSTED, [])) in
          if status = CS_RESOURCE_EXHAUSTED then (status, payload)
          else (case encode n of None \<Rightarrow> (CS_TRANSPORT_ERROR, []) | Some bs \<Rightarrow> (status, bs)))"

definition OnRequest ::
  "(nat \<Rightarrow> bool) \<Rightarrow> 'w TransportTable \<Rightarrow> (bytes \<Rightarrow> u64 \<Rightarrow> RawServerResult option) \<Rightarrow> ComHandle \<Rightarrow> bytes \<Rightarrow> u64 \<Rightarrow> 'w \<Rightarrow> 'w" where
  "OnRequest fits T handler request payload deadline w =
     (let r = server_result (handler payload deadline);
          respond = (case encoded_response fits r of (status, bs) \<Rightarrow> tt_respond T request status bs) in
      case rs_encode_payload r of
        None \<Rightarrow> respond w
      | Some encode \<Rightarrow>
          if \<not> HasResponseLoans T w then respond w
          else case tt_response_loan_acquire T request (rs_encoded_payload_size r) (server_status r) w of
            (status, loan, capacity, w) \<Rightarrow>
              if status \<noteq> CS_OK then respond w
              else case encode capacity of
                None \<Rightarrow> tt_loan_release T loan w
              | Some bs \<Rightarrow> tt_response_loan_send T request loan (rs_encoded_payload_size r) (tt_loan_write T loan bs w))"

definition Server_close :: "'w TransportTable \<Rightarrow> ServerBinding \<Rightarrow> 'w \<Rightarrow> ServerBinding \<times> 'w" where
  "Server_close T b w =
     (if sb_closed b then (b, w)
      else
        let w = fold (\<lambda>(endpoint, _) w. tt_endpoint_destroy T endpoint (snd (tt_set_request_handler T endpoint None w))) (sb_methods b) w;
            w = fold (\<lambda>(_, endpoint). tt_endpoint_destroy T endpoint) (sb_events b) w in
        (b\<lparr>sb_closed := True, sb_methods := [], sb_events := []\<rparr>, w))"

definition Offer :: "(string \<Rightarrow> 'w TransportTable option) \<Rightarrow> RouteBinding \<Rightarrow> ('w TransportTable \<times> ServerBinding) option" where
  "Offer lookup route = map_option (\<lambda>T. (T, new_server route)) (lookup (ro_provider route))"

definition Offer_selected :: "(string \<Rightarrow> 'w TransportTable option) \<Rightarrow> RouteBinding list \<Rightarrow> ('w TransportTable \<times> ServerBinding) option" where
  "Offer_selected lookup routes = (case routes of [route] \<Rightarrow> Offer lookup route | _ \<Rightarrow> None)"

section \<open>Subscriptions\<close>

record ProviderSubscriptionState =
  ps_endpoint :: ComHandle
  ps_subscription :: ComHandle
  ps_callback :: "Callback option"
  ps_state_callback :: "Callback option"
  ps_state :: "(SubscriptionState \<times> ComStatus) option"
  ps_in_flight :: nat
  ps_closed :: bool

definition new_subscription :: "ComHandle \<Rightarrow> ProviderSubscriptionState" where
  "new_subscription endpoint = \<lparr>ps_endpoint = endpoint, ps_subscription = 0, ps_callback = None, ps_state_callback = None,
     ps_state = None, ps_in_flight = 0, ps_closed = False\<rparr>"

text \<open>What a state callback is entered with.\<close>

definition state_report :: "SubscriptionState \<times> ComStatus \<Rightarrow> ClientSubscriptionState \<times> ComError option" where
  "state_report st = (ToState (fst st), if snd st = CS_OK then None else Some (MapStatus (snd st)))"

text \<open>The sections of the subscription that hold its mutex. A sample or a state is dispatched (\<open>Some\<close>, with the callback to enter, when
  there is one) or dropped.\<close>

definition SetCallback :: "Callback option \<Rightarrow> ProviderSubscriptionState \<Rightarrow> ProviderSubscriptionState" where
  "SetCallback callback p = p\<lparr>ps_callback := callback\<rparr>"

definition SetStateCallback ::
  "Callback option \<Rightarrow> ProviderSubscriptionState \<Rightarrow> ProviderSubscriptionState \<times> (Callback \<times> ClientSubscriptionState \<times> ComError option) option" where
  "SetStateCallback callback p =
     (p\<lparr>ps_state_callback := callback\<rparr>,
      case (callback, ps_state p) of (Some c, Some st) \<Rightarrow> Some (c, state_report st) | _ \<Rightarrow> None)"

definition OnSample_begin :: "ProviderSubscriptionState \<Rightarrow> ProviderSubscriptionState \<times> Callback option option" where
  "OnSample_begin p = (if ps_closed p then (p, None) else (p\<lparr>ps_in_flight := ps_in_flight p + 1\<rparr>, Some (ps_callback p)))"

definition OnState_begin ::
  "SubscriptionState \<Rightarrow> ComStatus \<Rightarrow> ProviderSubscriptionState \<Rightarrow> ProviderSubscriptionState \<times> Callback option option" where
  "OnState_begin state reason p =
     (let p = p\<lparr>ps_state := Some (state, reason)\<rparr> in
      if ps_closed p then (p, None) else (p\<lparr>ps_in_flight := ps_in_flight p + 1\<rparr>, Some (ps_state_callback p)))"

definition finish_dispatch :: "ProviderSubscriptionState \<Rightarrow> ProviderSubscriptionState" where
  "finish_dispatch p = p\<lparr>ps_in_flight := ps_in_flight p - 1\<rparr>"

text \<open>\<open>close\<close> up to its wait for the callbacks in flight: what it took from the subscription comes second.\<close>

definition close_begin :: "ProviderSubscriptionState \<Rightarrow> ProviderSubscriptionState \<times> ComHandle \<times> ComHandle \<times> Callback option" where
  "close_begin p =
     (p\<lparr>ps_subscription := 0, ps_endpoint := 0, ps_callback := None, ps_state_callback := None, ps_closed := True\<rparr>,
      ps_subscription p, ps_endpoint p, ps_state_callback p)"

definition close_provider :: "'w TransportTable \<Rightarrow> ComHandle \<Rightarrow> ComHandle \<Rightarrow> 'w \<Rightarrow> 'w" where
  "close_provider T subscription endpoint w =
     (let w = (if subscription \<noteq> 0 then tt_unsubscribe T subscription w else w) in
      if endpoint \<noteq> 0 then tt_endpoint_destroy T endpoint w else w)"

text \<open>The operations with nothing in between, with the callback they enter.\<close>

definition OnSample ::
  "'w TransportTable \<Rightarrow> ComHandle \<Rightarrow> ProviderSubscriptionState \<Rightarrow> 'w \<Rightarrow> ProviderSubscriptionState \<times> Callback option \<times> 'w" where
  "OnSample T loan p w =
     (case OnSample_begin p of
        (p, None) \<Rightarrow> (p, None, if loan \<noteq> 0 then tt_loan_release T loan w else w)
      | (p, Some c) \<Rightarrow> (finish_dispatch p, c, if loan \<noteq> 0 then tt_loan_release T loan w else w))"

definition OnState ::
  "SubscriptionState \<Rightarrow> ComStatus \<Rightarrow> ProviderSubscriptionState
     \<Rightarrow> ProviderSubscriptionState \<times> (Callback \<times> ClientSubscriptionState \<times> ComError option) option" where
  "OnState state reason p =
     (case OnState_begin state reason p of
        (p, None) \<Rightarrow> (p, None)
      | (p, Some c) \<Rightarrow> (finish_dispatch p, map_option (\<lambda>c. (c, state_report (state, reason))) c))"

definition Subscription_close ::
  "'w TransportTable \<Rightarrow> ProviderSubscriptionState \<Rightarrow> 'w \<Rightarrow> ProviderSubscriptionState \<times> Callback option \<times> 'w" where
  "Subscription_close T p w =
     (case close_begin p of
        (p, subscription, endpoint, c) \<Rightarrow> (p, if subscription \<noteq> 0 then c else None, close_provider T subscription endpoint w))"

text \<open>\<open>c\<close> names the pair of callbacks \<open>OnSample\<close> and \<open>OnState\<close> of the object. No client callback is set while it starts.\<close>

definition subscription_start ::
  "'w TransportTable \<Rightarrow> Callback \<Rightarrow> ProviderSubscriptionState \<Rightarrow> 'w \<Rightarrow> ComStatus \<times> ProviderSubscriptionState \<times> 'w" where
  "subscription_start T c p w =
     (case tt_subscribe T (ps_endpoint p) c w of
        (status, subscription, w) \<Rightarrow>
          let p = p\<lparr>ps_subscription := subscription\<rparr> in
          if status \<noteq> CS_OK then (status, p, w)
          else if HasSubscriptionState T w then
            (case tt_set_state_handler T subscription c w of
               (status, w) \<Rightarrow> (status, p, w))
          else (CS_OK, fst (OnState SS_ACTIVE CS_OK p), w))"

definition Client_subscribe ::
  "'w TransportTable \<Rightarrow> RouteBinding \<Rightarrow> ElementDescriptor \<Rightarrow> Callback \<Rightarrow> 'w \<Rightarrow> ProviderSubscriptionState option \<times> 'w" where
  "Client_subscribe T route element c w =
     (case tt_endpoint_create T (Descriptor route element EK_EVENT_SUBSCRIBER) w of
        (status, endpoint, w) \<Rightarrow>
          if status \<noteq> CS_OK then (None, w)
          else case subscription_start T c (new_subscription endpoint) w of
            (status, p, w) \<Rightarrow>
              if status \<noteq> CS_OK then (None, snd (snd (Subscription_close T p w)))
              else (Some p, w))"

section \<open>Interleavings of a subscription\<close>

text \<open>What a thread of the process is doing with one subscription: nothing, between the lock and the callback of a dispatch, in that
  callback, after it, waiting in \<open>close\<close>, or in the last callback of \<open>close\<close>.\<close>

datatype SubThread =
    ST_idle
  | ST_dispatching "Callback option"
  | ST_in_callback Callback
  | ST_finishing
  | ST_waiting ComHandle ComHandle "Callback option"
  | ST_withdrawing ComHandle ComHandle "Callback option"

datatype SubEvent =
    SE_entered nat Callback
  | SE_left nat Callback
  | SE_reported nat Callback "ClientSubscriptionState \<times> ComError option"
  | SE_withdrawn nat Callback
  | SE_closed nat

record SubSystem =
  ss_subscription :: ProviderSubscriptionState
  ss_threads :: "SubThread list"
  ss_events :: "SubEvent list"

definition to_thread :: "nat \<Rightarrow> SubThread \<Rightarrow> ProviderSubscriptionState \<Rightarrow> SubEvent list \<Rightarrow> SubSystem \<Rightarrow> SubSystem" where
  "to_thread i t p es s = \<lparr>ss_subscription = p, ss_threads = (ss_threads s)[i := t], ss_events = ss_events s @ es\<rparr>"

definition begun :: "Callback option option \<Rightarrow> SubThread" where
  "begun r = (case r of None \<Rightarrow> ST_idle | Some c \<Rightarrow> ST_dispatching c)"

abbreviation doing :: "nat \<Rightarrow> SubThread \<Rightarrow> SubSystem \<Rightarrow> bool" where
  "doing i t s \<equiv> i < length (ss_threads s) \<and> ss_threads s ! i = t"

inductive sub_step :: "SubSystem \<Rightarrow> SubSystem \<Rightarrow> bool" where
  spawn: "sub_step s (s\<lparr>ss_threads := ss_threads s @ [ST_idle]\<rparr>)"
| set_callback: "doing i ST_idle s \<Longrightarrow> sub_step s (to_thread i ST_idle (SetCallback c (ss_subscription s)) [] s)"
| set_state_callback: "doing i ST_idle s \<Longrightarrow> SetStateCallback c (ss_subscription s) = (p, report) \<Longrightarrow>
    sub_step s (to_thread i ST_idle p (case report of None \<Rightarrow> [] | Some (c', r) \<Rightarrow> [SE_reported i c' r]) s)"
| sample: "doing i ST_idle s \<Longrightarrow> OnSample_begin (ss_subscription s) = (p, r) \<Longrightarrow> sub_step s (to_thread i (begun r) p [] s)"
| state: "doing i ST_idle s \<Longrightarrow> OnState_begin st reason (ss_subscription s) = (p, r) \<Longrightarrow> sub_step s (to_thread i (begun r) p [] s)"
| enter: "doing i (ST_dispatching (Some c)) s \<Longrightarrow>
    sub_step s (to_thread i (ST_in_callback c) (ss_subscription s) [SE_entered i c] s)"
| skip: "doing i (ST_dispatching None) s \<Longrightarrow> sub_step s (to_thread i ST_finishing (ss_subscription s) [] s)"
| leave: "doing i (ST_in_callback c) s \<Longrightarrow> sub_step s (to_thread i ST_finishing (ss_subscription s) [SE_left i c] s)"
| finish: "doing i ST_finishing s \<Longrightarrow> sub_step s (to_thread i ST_idle (finish_dispatch (ss_subscription s)) [] s)"
| close: "doing i ST_idle s \<Longrightarrow> close_begin (ss_subscription s) = (p, subscription, endpoint, c) \<Longrightarrow>
    sub_step s (to_thread i (ST_waiting subscription endpoint c) p [] s)"
| quiescent: "doing i (ST_waiting subscription endpoint c) s \<Longrightarrow> ps_in_flight (ss_subscription s) = 0 \<Longrightarrow>
    sub_step s (to_thread i (ST_withdrawing subscription endpoint c) (ss_subscription s) [] s)"
| closed: "doing i (ST_withdrawing subscription endpoint c) s \<Longrightarrow>
    sub_step s (to_thread i ST_idle (ss_subscription s)
      ((case c of Some c \<Rightarrow> if subscription \<noteq> 0 then [SE_withdrawn i c] else [] | None \<Rightarrow> []) @ [SE_closed i]) s)"

inductive_cases sub_stepE: "sub_step s s'"

definition fresh_subsystem :: "ProviderSubscriptionState \<Rightarrow> SubSystem" where
  "fresh_subsystem p = \<lparr>ss_subscription = p, ss_threads = [], ss_events = []\<rparr>"

definition sub_reachable :: "SubSystem \<Rightarrow> bool" where
  "sub_reachable s \<longleftrightarrow> (\<exists>p. ps_in_flight p = 0 \<and> \<not> ps_closed p \<and> sub_step\<^sup>*\<^sup>* (fresh_subsystem p) s)"

end
