(* ===== verification/Com_Inproc_Runs.thy ===== *)
theory Com_Inproc_Runs
  imports Com_Inproc "HOL-Library.Multiset"
begin

text \<open>
  The in-process transport under concurrency. A system is the transport, the executor's queue, the callbacks entered so far and, for every
  call in progress, the actions it has still to do. A step is the locked part of a call, one action of a call, or one queued task, so the
  reachable systems are all interleavings of any number of client threads with an executor that runs tasks in any order and may refuse
  them. \<open>LoanPublish\<close> takes the mutex twice; what may happen in between is what may happen between a \<open>LoanRelease\<close> and a
  \<open>Publish\<close>, which are steps of their own. A call is a step only while the 64-bit handle counter does not wrap.

  Three properties hold in all of them: no sample after \<open>Unsubscribe\<close> has returned, at most one completion of a request, and the
  configured limits.
\<close>

section \<open>Interleavings\<close>

text \<open>A call of the function table. The clock is read by \<open>Request\<close>.\<close>

datatype ComCall =
    CC_start | CC_stop | CC_set_health_handler "Callback option" | CC_set_diagnostic_handler "Callback option"
  | CC_watch_start "ComUuid option" "Callback option" bool | CC_watch_stop ComHandle
  | CC_endpoint_create "EndpointDescriptor option" bool | CC_endpoint_destroy ComHandle
  | CC_subscribe ComHandle "Callback option" bool | CC_unsubscribe ComHandle
  | CC_set_state_handler ComHandle "Callback option"
  | CC_publish ComHandle ComBytesView | CC_publish_iov ComHandle "ComBytesView list option"
  | CC_loan_acquire ComHandle nat bool | CC_loan_write ComHandle bytes | CC_loan_publish ComHandle ComHandle nat
  | CC_loan_release ComHandle
  | CC_set_request_handler ComHandle "Callback option"
  | CC_request ComHandle ComBytesView u64 "Callback option" bool u64
  | CC_cancel ComHandle | CC_respond ComHandle ComStatus ComBytesView

definition without_output :: "(ComStatus \<times> 'a) \<times> InprocTransport \<times> ComAction list \<Rightarrow> ComStatus \<times> InprocTransport \<times> ComAction list" where
  "without_output r = (fst (fst r), snd r)"

text \<open>The part of a call that holds the transport's mutex.\<close>

fun locked :: "ComCall \<Rightarrow> InprocTransport \<Rightarrow> ComStatus \<times> InprocTransport \<times> ComAction list" where
  "locked CC_start t = Inproc_Start t"
| "locked CC_stop t = Inproc_Stop t"
| "locked (CC_set_health_handler c) t = SetHealthHandler c t"
| "locked (CC_set_diagnostic_handler c) t = SetDiagnosticHandler c t"
| "locked (CC_watch_start f c o') t = without_output (WatchStart f c o' t)"
| "locked (CC_watch_stop h) t = WatchStop h t"
| "locked (CC_endpoint_create d o') t = without_output (EndpointCreate d o' t)"
| "locked (CC_endpoint_destroy h) t = EndpointDestroy h t"
| "locked (CC_subscribe h c o') t = without_output (Inproc_Subscribe h c o' t)"
| "locked (CC_unsubscribe h) t = Inproc_Unsubscribe h t"
| "locked (CC_set_state_handler h c) t = SetSubscriptionStateHandler h c t"
| "locked (CC_publish h p) t = Publish h p t"
| "locked (CC_publish_iov h ps) t = PublishIov h ps t"
| "locked (CC_loan_acquire h n o') t = without_output (LoanAcquire h n o' t)"
| "locked (CC_loan_write l bs) t = (CS_OK, LoanWrite l bs t, [])"
| "locked (CC_loan_publish h l n) t = LoanPublish h l n t"
| "locked (CC_loan_release l) t = LoanRelease l t"
| "locked (CC_set_request_handler h c) t = SetRequestHandler h c t"
| "locked (CC_request h p d c o' now) t = without_output (Inproc_Request h p d c o' now t)"
| "locked (CC_cancel h) t = Inproc_Cancel h t"
| "locked (CC_respond h st p) t = Inproc_Respond h st p t"

record System =
  sy_world :: World
  sy_threads :: "ComAction list list"

abbreviation sy_transport :: "System \<Rightarrow> InprocTransport" where
  "sy_transport s \<equiv> wo_transport (sy_world s)"

text \<open>A thread runs the locked part of a call, then its actions one at a time; the host runs the accepted tasks in any order. A
  host without a dispatcher runs a task at once, which is the order of one such interleaving.\<close>

inductive com_step :: "System \<Rightarrow> System \<Rightarrow> bool" where
  call: "locked c (sy_transport s) = (st, t', actions) \<Longrightarrow> it_next_handle (sy_transport s) < it_next_handle (sy_transport s) + 1 \<Longrightarrow>
     com_step s \<lparr>sy_world = (sy_world s)\<lparr>wo_transport := t'\<rparr>, sy_threads = sy_threads s @ [actions]\<rparr>"
| act: "i < length (sy_threads s) \<Longrightarrow> sy_threads s ! i = a # as \<Longrightarrow> outcome \<noteq> DI_refused CS_OK \<Longrightarrow>
     do_action outcome a (sy_world s) = (st, w') \<Longrightarrow>
     com_step s \<lparr>sy_world = w', sy_threads = (sy_threads s)[i := (if st \<noteq> CS_OK \<and> ends_operation a then [] else as)]\<rparr>"
| run: "wo_queue (sy_world s) = before @ task # after \<Longrightarrow>
     com_step s (s\<lparr>sy_world := run_task task ((sy_world s)\<lparr>wo_queue := before @ after\<rparr>)\<rparr>)"

inductive_cases com_stepE: "com_step s s'"

abbreviation com_runs :: "System \<Rightarrow> System \<Rightarrow> bool" where
  "com_runs \<equiv> com_step\<^sup>*\<^sup>*"

definition fresh_system :: "InprocTransport \<Rightarrow> System" where
  "fresh_system t = \<lparr>sy_world = \<lparr>wo_transport = t, wo_queue = [], wo_events = []\<rparr>, sy_threads = []\<rparr>"

definition com_reachable :: "System \<Rightarrow> bool" where
  "com_reachable s \<longleftrightarrow> (\<exists>me mo t. Inproc_Create True me mo True = (CS_OK, Some t) \<and> com_runs (fresh_system t) s)"

lemma com_reachable_induct [consumes 1, case_names created step]:
  assumes "com_reachable s"
    and "\<And>me mo t. Inproc_Create True me mo True = (CS_OK, Some t) \<Longrightarrow> P (fresh_system t)"
    and "\<And>s s'. com_reachable s \<Longrightarrow> P s \<Longrightarrow> com_step s s' \<Longrightarrow> P s'"
  shows "P s"
proof -
  obtain me mo t where t: "Inproc_Create True me mo True = (CS_OK, Some t)" and run: "com_runs (fresh_system t) s"
    using assms(1) by (auto simp: com_reachable_def)
  from run have "com_reachable s \<and> P s"
  proof (induction rule: rtranclp_induct)
    case base
    then show ?case using assms(2) [OF t] t by (auto simp: com_reachable_def)
  next
    case (step y z)
    then have "com_reachable z" by (auto simp: com_reachable_def intro: rtranclp.rtrancl_into_rtrancl)
    then show ?case using step assms(3) by blast
  qed
  then show ?thesis ..
qed

text \<open>The effect of each kind of step on the events.\<close>

definition extends :: "('a \<Rightarrow> bool) \<Rightarrow> 'a list \<Rightarrow> 'a list \<Rightarrow> bool" where
  "extends P es es' \<longleftrightarrow> (\<exists>new. es' = es @ new \<and> list_all P new)"

lemma extends_refl [simp]: "extends P es es"
  by (simp add: extends_def)

lemma extends_snoc [simp]: "extends P es (es @ [e]) \<longleftrightarrow> P e"
  by (auto simp: extends_def)

lemma extends_trans: "extends P es es' \<Longrightarrow> extends P es' es'' \<Longrightarrow> extends P es es''"
  by (auto simp: extends_def)

lemma observe_simps [simp]:
  "wo_events (observe e w) = wo_events w @ [e]" "wo_transport (observe e w) = wo_transport w" "wo_queue (observe e w) = wo_queue w"
  by (simp_all add: observe_def)

section \<open>After an unsubscription\<close>

definition silenced :: "Ref \<Rightarrow> System \<Rightarrow> bool" where
  "silenced r s \<longleftrightarrow> r < length (it_subscription_objects (sy_transport s)) \<and> \<not> su_active (it_subscription_objects (sy_transport s) ! r)"

lemmas call_defs = without_output_def Inproc_Start_def Inproc_Stop_def SetHealthHandler_def SetDiagnosticHandler_def
  WatchStart_def WatchStop_def EndpointCreate_def EndpointDestroy_def Inproc_Subscribe_def Inproc_Unsubscribe_def SetSubscriptionStateHandler_def
  Publish_def PublishIov_def Deliver_def LoanAcquire_def LoanWrite_def LoanPublish_def LoanRelease_def SetRequestHandler_def
  Inproc_Request_def Inproc_Complete_def Inproc_Cancel_def Inproc_Respond_def take_com_handle_def

lemma state_callback_active [simp]:
  "r < length xs \<Longrightarrow> su_active (xs[i := (xs ! i)\<lparr>su_state_callback := c\<rparr>] ! r) = su_active (xs ! r)"
  by (cases "i = r") simp_all

text \<open>A call never removes or reactivates an object of a subscription.\<close>

lemma locked_subscriptions:
  assumes "locked c t = (st, t', actions)" and "r < length (it_subscription_objects t)"
  shows "r < length (it_subscription_objects t') \<and> su_active (it_subscription_objects t' ! r) = su_active (it_subscription_objects t ! r)"
  using assms by (cases c) (auto simp: call_defs Let_def nth_append split: if_splits option.splits list.splits)

lemma withdraw_subscriptions:
  assumes "r < length (it_subscription_objects (wo_transport w))"
  shows "r < length (it_subscription_objects (wo_transport (withdraw q h reason w)))"
    "su_active (it_subscription_objects (wo_transport (withdraw q h reason w)) ! r) \<longleftrightarrow>
     su_active (it_subscription_objects (wo_transport w) ! r) \<and> r \<noteq> q"
  using assms by (cases "q = r"; auto simp: withdraw_def Let_def split: option.split)+

lemma Dispatch_simps [simp]:
  "wo_transport (snd (Inproc_Dispatch outcome task w)) = wo_transport w"
  by (cases outcome) (simp_all add: Inproc_Dispatch_def split: option.split)

lemma do_action_subscriptions:
  assumes "do_action outcome a w = (st, w')" and "r < length (it_subscription_objects (wo_transport w))"
  shows "r < length (it_subscription_objects (wo_transport w')) \<and>
    (su_active (it_subscription_objects (wo_transport w') ! r) \<longrightarrow> su_active (it_subscription_objects (wo_transport w) ! r))"
proof (cases a)
  case (AC_dispatch task b)
  then have "w' = snd (Inproc_Dispatch outcome task w)" using assms(1) by simp
  then show ?thesis using assms(2) by simp
next
  case (AC_withdraw q h reason)
  then show ?thesis using assms withdraw_subscriptions [OF assms(2)] by auto
qed (use assms in \<open>auto simp: Let_def\<close>)

lemma run_task_transport [simp]: "wo_transport (run_task task w) = wo_transport w"
  by (cases task) (simp_all add: Let_def)

lemma silenced_step:
  assumes "com_step s s'" and "silenced r s"
  shows "silenced r s'"
  using assms
proof cases
  case (call c st t' actions)
  then show ?thesis using assms(2) locked_subscriptions [OF call(2), of r] by (auto simp: silenced_def)
next
  case (act i a as outcome st w')
  then show ?thesis using assms(2) do_action_subscriptions [OF act(5), of r] by (auto simp: silenced_def)
qed (auto simp: silenced_def)

definition sample_of :: "Ref \<Rightarrow> ComEvent \<Rightarrow> bool" where
  "sample_of r e \<longleftrightarrow> (\<exists>c payload sequence epoch. e = EV_sample r c payload sequence epoch)"

lemma Dispatch_events: "extends (\<lambda>e. \<exists>c d. e = EV_diagnostic c d) (wo_events w) (wo_events (snd (Inproc_Dispatch outcome task w)))"
  by (cases outcome) (simp_all add: Inproc_Dispatch_def split: option.split)

lemma do_action_events:
  assumes "do_action outcome a w = (st, w')"
  shows "extends (\<lambda>e. (\<exists>c d. e = EV_diagnostic c d) \<or> (\<exists>c h x y. e = EV_state c h x y) \<or> (\<exists>c h. e = EV_health c h) \<or> (\<exists>m. e = EV_log m))
    (wo_events w) (wo_events w')"
proof (cases a)
  case (AC_dispatch task b)
  then have "w' = snd (Inproc_Dispatch outcome task w)" using assms by simp
  then show ?thesis using Dispatch_events [of w outcome task] by (auto simp: extends_def list_all_iff)
next
  case (AC_withdraw q h reason)
  then show ?thesis using assms by (auto simp: withdraw_def Let_def split: option.splits)
qed (use assms in \<open>auto simp: Let_def\<close>)

lemma silenced_events:
  assumes "com_step s s'" and "silenced r s"
  shows "extends (\<lambda>e. \<not> sample_of r e) (wo_events (sy_world s)) (wo_events (sy_world s'))"
  using assms
proof cases
  case (act i a as outcome st w')
  then show ?thesis using do_action_events [OF act(5)] by (auto simp: extends_def list_all_iff sample_of_def)
next
  case (run before task after)
  then show ?thesis using assms(2) by (cases task) (auto simp: Let_def sample_of_def silenced_def)
qed simp

lemma silenced_runs:
  assumes "com_runs s s'" and "silenced r s"
  shows "extends (\<lambda>e. \<not> sample_of r e) (wo_events (sy_world s)) (wo_events (sy_world s'))"
  using assms
proof (induction rule: converse_rtranclp_induct)
  case (step s s1)
  then show ?case using silenced_events silenced_step extends_trans by blast
qed simp

text \<open>The tables refer to existing objects.\<close>

definition refs_valid :: "InprocTransport \<Rightarrow> bool" where
  "refs_valid t \<longleftrightarrow> list_all (\<lambda>e. snd e < length (it_subscription_objects t)) (it_subscriptions t)"

lemma list_all_emplace: "list_all P m \<Longrightarrow> P (k, v) \<Longrightarrow> list_all P (um_emplace k v m)"
  by (simp add: um_emplace_def)

lemma list_all_erase: "list_all P m \<Longrightarrow> list_all P (um_erase k m)"
  by (auto simp: um_erase_def list_all_iff)

lemma list_all_find: "list_all P m \<Longrightarrow> um_find m k = Some v \<Longrightarrow> P (k, v)"
  by (auto simp: um_find_def list_all_iff dest: map_of_SomeD)

lemma refs_valid_subscribe:
  "refs_valid t \<Longrightarrow> refs_valid (t\<lparr>it_next_handle := n, it_subscription_objects := it_subscription_objects t @ [o'],
     it_subscriptions := um_emplace k (length (it_subscription_objects t)) (it_subscriptions t)\<rparr>)"
  by (auto simp: refs_valid_def list_all_iff um_emplace_def)

lemma refs_valid_same:
  "refs_valid t \<Longrightarrow> it_subscriptions t' = it_subscriptions t \<Longrightarrow> length (it_subscription_objects t') = length (it_subscription_objects t) \<Longrightarrow>
   refs_valid t'"
  by (simp add: refs_valid_def)

lemma locked_refs:
  assumes "locked c t = (st, t', actions)" and "refs_valid t"
  shows "refs_valid t'"
proof (cases c)
  case (CC_subscribe h cb o')
  then show ?thesis using assms refs_valid_subscribe [OF assms(2)] by (auto simp: call_defs Let_def split: if_splits option.splits)
next
  case (CC_unsubscribe h)
  then show ?thesis using assms list_all_erase by (auto simp: call_defs refs_valid_def split: option.splits)
next
  case CC_stop
  then show ?thesis using assms by (auto simp: call_defs Let_def refs_valid_def split: if_splits)
qed (use assms(1) in \<open>auto simp: call_defs Let_def intro!: refs_valid_same [OF assms(2)] split: if_splits option.splits list.splits prod.splits\<close>)

text \<open>What an action leaves alone.\<close>

definition same_inproc_tables :: "InprocTransport \<Rightarrow> InprocTransport \<Rightarrow> bool" where
  "same_inproc_tables t t' \<longleftrightarrow>
     it_subscriptions t' = it_subscriptions t \<and> it_endpoints t' = it_endpoints t \<and> it_pending t' = it_pending t \<and>
     it_next_handle t' = it_next_handle t \<and> it_max_endpoints t' = it_max_endpoints t \<and> it_max_operations t' = it_max_operations t \<and>
     length (it_subscription_objects t') = length (it_subscription_objects t)"

lemma do_action_tables:
  assumes "do_action outcome a w = (st, w')"
  shows "same_inproc_tables (wo_transport w) (wo_transport w')"
proof (cases a)
  case (AC_dispatch task b)
  then have "w' = snd (Inproc_Dispatch outcome task w)" using assms by simp
  then show ?thesis by (simp add: same_inproc_tables_def)
next
  case (AC_withdraw q h reason)
  then have "w' = withdraw q h reason w" using assms by simp
  then show ?thesis by (simp add: same_inproc_tables_def withdraw_def Let_def split: option.split)
qed (use assms in \<open>auto simp: same_inproc_tables_def Let_def\<close>)

lemma reachable_refs: "com_reachable s \<Longrightarrow> refs_valid (sy_transport s)"
proof (induction rule: com_reachable_induct)
  case (created me mo t)
  then show ?case by (auto simp: Inproc_Create_def fresh_system_def refs_valid_def split: if_splits)
next
  case (step s s')
  have ok: "refs_valid (sy_transport s)" by fact
  from \<open>com_step s s'\<close> show ?case
  proof cases
    case (call c st t' actions)
    then show ?thesis using locked_refs [OF call(2) ok] by simp
  next
    case (act i a as outcome st w')
    then show ?thesis using refs_valid_same [OF ok, of "wo_transport w'"] do_action_tables [OF act(5)] by (simp add: same_inproc_tables_def)
  qed (use ok in simp)
qed

text \<open>A call of \<open>Inproc_Unsubscribe\<close> has returned only once the object is inactive.\<close>

definition withdrawing :: "nat \<Rightarrow> Ref \<Rightarrow> ComHandle \<Rightarrow> System \<Rightarrow> bool" where
  "withdrawing i r h s \<longleftrightarrow> i < length (sy_threads s) \<and> r < length (it_subscription_objects (sy_transport s)) \<and>
     (sy_threads s ! i = [AC_withdraw r h CS_OK] \<or> sy_threads s ! i = [] \<and> silenced r s)"

lemma withdrawing_step:
  assumes "com_step s s'" and "withdrawing i r h s"
  shows "withdrawing i r h s'"
  using assms(1)
proof cases
  case (call c st t' actions)
  then show ?thesis
    using assms locked_subscriptions [OF call(2), of r] silenced_step [OF assms(1), of r] by (auto simp: withdrawing_def nth_append)
next
  case (act k a as outcome st w')
  show ?thesis
  proof (cases "k = i")
    case True
    then have "a = AC_withdraw r h CS_OK" "as = []" using act assms(2) by (auto simp: withdrawing_def)
    then show ?thesis
      using act True assms(2) withdraw_subscriptions [of r "sy_world s" r h CS_OK] by (auto simp: withdrawing_def silenced_def)
  next
    case False
    then show ?thesis
      using act assms do_action_subscriptions [OF act(5), of r] silenced_step [OF assms(1), of r] by (auto simp: withdrawing_def)
  qed
next
  case (run before task after)
  then show ?thesis using assms silenced_step [OF assms(1), of r] by (auto simp: withdrawing_def)
qed

lemma withdrawing_runs: "com_runs s s' \<Longrightarrow> withdrawing i r h s \<Longrightarrow> withdrawing i r h s'"
  by (induction rule: rtranclp_induct) (auto intro: withdrawing_step)

text \<open>C10: once \<open>Inproc_Unsubscribe\<close> has returned no sample reaches the subscription. Whatever the other threads and the host do, and
  however many of its samples are still queued, from the moment the call has returned no run has an event in which the
  subscription's sample callback is entered.\<close>

theorem unsubscribe_quiescent:
  assumes "com_reachable s" and sub: "um_find (it_subscriptions (sy_transport s)) h = Some r"
    and called: "s1 = \<lparr>sy_world = (sy_world s)\<lparr>wo_transport := fst (snd (Inproc_Unsubscribe h (sy_transport s)))\<rparr>,
      sy_threads = sy_threads s @ [snd (snd (Inproc_Unsubscribe h (sy_transport s)))]\<rparr>"
    and "com_runs s1 s2" and returned: "sy_threads s2 ! length (sy_threads s) = []" and "com_runs s2 s3"
  shows "extends (\<lambda>e. \<not> sample_of r e) (wo_events (sy_world s2)) (wo_events (sy_world s3))"
proof -
  have "r < length (it_subscription_objects (sy_transport s))"
    using list_all_find [OF reachable_refs [OF assms(1), unfolded refs_valid_def] sub] by simp
  then have "withdrawing (length (sy_threads s)) r h s1" using sub by (simp add: called withdrawing_def Inproc_Unsubscribe_def)
  then have "withdrawing (length (sy_threads s)) r h s2" by (rule withdrawing_runs [OF assms(4)])
  then have "silenced r s2" using returned by (simp add: withdrawing_def)
  then show ?thesis by (rule silenced_runs [OF assms(6)])
qed

section \<open>Completions\<close>

fun task_operations :: "Task \<Rightarrow> ComHandle multiset" where
  "task_operations (TK_completion c operation status payload) = {#operation#}"
| "task_operations _ = {#}"

fun action_operations :: "ComAction \<Rightarrow> ComHandle multiset" where
  "action_operations (AC_dispatch task b) = task_operations task"
| "action_operations _ = {#}"

fun event_operations :: "ComEvent \<Rightarrow> ComHandle multiset" where
  "event_operations (EV_completion c operation status payload) = {#operation#}"
| "event_operations _ = {#}"

definition gathered :: "('a \<Rightarrow> ComHandle multiset) \<Rightarrow> 'a list \<Rightarrow> ComHandle multiset" where
  "gathered f xs = sum_list (map f xs)"

lemma gathered_simps [simp]:
  "gathered f [] = {#}" "gathered f (x # xs) = f x + gathered f xs" "gathered f (xs @ ys) = gathered f xs + gathered f ys"
  by (simp_all add: gathered_def)

lemma gathered_none: "(\<And>x. x \<in> set xs \<Longrightarrow> f x = {#}) \<Longrightarrow> gathered f xs = {#}"
  by (induction xs) auto

text \<open>Every place an operation that is not completed, or a completion, can be in.\<close>

definition thread_operations :: "ComAction list list \<Rightarrow> ComHandle multiset" where
  "thread_operations ts = gathered (gathered action_operations) ts"

definition system_operations :: "System \<Rightarrow> ComHandle multiset" where
  "system_operations s = mset (map fst (it_pending (sy_transport s))) + thread_operations (sy_threads s) +
     gathered task_operations (wo_queue (sy_world s)) + gathered event_operations (wo_events (sy_world s))"

lemma gathered_update:
  assumes "i < length xs"
  shows "gathered f (xs[i := y]) + f (xs ! i) = gathered f xs + f y"
  using assms
proof (induction xs arbitrary: i)
  case (Cons x xs)
  then show ?case by (cases i) (auto simp: ac_simps)
qed simp

lemma erase_operations: "um_find m k = Some v \<Longrightarrow> add_mset k (mset (map fst (um_erase k m))) \<subseteq># mset (map fst m)"
proof (induction m)
  case (Cons e m)
  show ?case
  proof (cases "fst e = k")
    case True
    have "mset (map fst (um_erase k m)) \<subseteq># mset (map fst m)"
      unfolding um_erase_def mset_map mset_filter by (rule image_mset_subseteq_mono) (rule multiset_filter_subset)
    then show ?thesis using True by (simp add: um_erase_def)
  next
    case False
    then have "um_find m k = Some v" using Cons.prems by (cases e) (simp add: um_find_def split: if_splits)
    then show ?thesis using Cons.IH False by (simp add: um_erase_def add_mset_commute)
  qed
qed (simp add: um_find_def)

lemma of_callback_operations [simp]: "(\<And>x. action_operations (f x) = {#}) \<Longrightarrow> gathered action_operations (of_callback f c) = {#}"
  by (simp add: of_callback_def split: option.split)

lemma dispatch_operations [simp]:
  "(\<And>x. task_operations (g x) = {#}) \<Longrightarrow> gathered action_operations (map (\<lambda>x. AC_dispatch (g x) b) xs) = {#}"
  by (induction xs) auto

lemma stop_operations:
  "gathered action_operations (map (\<lambda>(operation, c). AC_dispatch (TK_completion c operation CS_SHUTTING_DOWN []) False) m) = mset (map fst m)"
  "gathered action_operations (map (\<lambda>(h, r). AC_withdraw r h reason) l) = {#}"
  "gathered action_operations (map (\<lambda>(h, r). AC_retire_watch r) l) = {#}"
  "gathered action_operations (map (\<lambda>(h, r). AC_retire_server r) l) = {#}"
  by (induction m; auto) (induction l; auto)+

text \<open>A call moves operations, or issues a new one.\<close>

lemma locked_operations:
  assumes "locked c t = (st, t', actions)"
  shows "(mset (map fst (it_pending t')) + gathered action_operations actions \<subseteq># mset (map fst (it_pending t)) \<and>
      it_next_handle t' \<in> {it_next_handle t, it_next_handle t + 1}) \<or>
    (mset (map fst (it_pending t')) + gathered action_operations actions \<subseteq># add_mset (it_next_handle t) (mset (map fst (it_pending t))) \<and>
      it_next_handle t' = it_next_handle t + 1)"
proof (cases c)
  case CC_stop
  then show ?thesis using assms by (auto simp: Inproc_Stop_def Let_def stop_operations split: if_splits)
next
  case (CC_request h p d cb o' now)
  then show ?thesis
    using assms by (auto simp: call_defs um_emplace_def Let_def split: if_splits option.splits prod.splits)
next
  case (CC_cancel h)
  then show ?thesis using assms erase_operations [of "it_pending t" h]
    by (auto simp: Inproc_Cancel_def Inproc_Complete_def split: option.splits)
next
  case (CC_respond h st p)
  then show ?thesis using assms erase_operations [of "it_pending t" h]
    by (auto simp: Inproc_Respond_def Inproc_Complete_def split: option.splits if_splits)
qed (use assms in \<open>auto simp: call_defs Let_def split: if_splits option.splits list.splits\<close>)

lemma do_action_operations:
  assumes "do_action outcome a w = (st, w')"
  shows "gathered task_operations (wo_queue w') + gathered event_operations (wo_events w') \<subseteq>#
    action_operations a + gathered task_operations (wo_queue w) + gathered event_operations (wo_events w)"
proof (cases a)
  case (AC_dispatch task b)
  then have "w' = snd (Inproc_Dispatch outcome task w)" using assms by simp
  then show ?thesis using AC_dispatch
    by (cases outcome) (simp_all add: Inproc_Dispatch_def ac_simps split: option.split)
next
  case (AC_withdraw q h reason)
  then show ?thesis using assms by (auto simp: withdraw_def Let_def split: option.splits)
qed (use assms in \<open>auto simp: Let_def\<close>)

lemma run_task_operations:
  "gathered event_operations (wo_events (run_task task w)) \<subseteq># task_operations task + gathered event_operations (wo_events w)"
  "wo_queue (run_task task w) = wo_queue w"
  by (cases task; simp add: Let_def)+

definition operations_ok :: "System \<Rightarrow> bool" where
  "operations_ok s \<longleftrightarrow> (\<forall>operation. count (system_operations s) operation \<le> 1) \<and>
     (\<forall>operation \<in># system_operations s. operation < it_next_handle (sy_transport s))"

lemma operations_ok_mono:
  assumes "operations_ok s" and "system_operations s' \<subseteq># system_operations s"
    and "it_next_handle (sy_transport s) \<le> it_next_handle (sy_transport s')"
  shows "operations_ok s'"
proof -
  have "count (system_operations s') k \<le> 1" for k
    using mset_subset_eq_count [OF assms(2), of k] assms(1) by (auto simp: operations_ok_def intro: order.trans)
  moreover have "k < it_next_handle (sy_transport s')" if "k \<in># system_operations s'" for k
    using mset_subset_eqD [OF assms(2) that] assms(1,3) by (auto simp: operations_ok_def intro: order.strict_trans2)
  ultimately show ?thesis by (simp add: operations_ok_def)
qed

lemma operations_ok_issue:
  assumes "operations_ok s" and sub: "system_operations s' \<subseteq># add_mset (it_next_handle (sy_transport s)) (system_operations s)"
    and "it_next_handle (sy_transport s') = it_next_handle (sy_transport s) + 1"
    and "it_next_handle (sy_transport s) < it_next_handle (sy_transport s) + 1"
  shows "operations_ok s'"
proof -
  let ?n = "it_next_handle (sy_transport s)"
  have new: "count (system_operations s) ?n = 0" using assms(1) by (auto simp: operations_ok_def not_in_iff [symmetric])
  have "count (system_operations s') k \<le> 1" for k
    using mset_subset_eq_count [OF sub, of k] assms(1) new by (cases "k = ?n") (auto simp: operations_ok_def intro: order.trans)
  moreover have "k < ?n + 1" if "k \<in># system_operations s'" for k
    using mset_subset_eqD [OF sub that] assms(1,4) by (auto simp: operations_ok_def intro: order.strict_trans)
  ultimately show ?thesis using assms(3) by (simp add: operations_ok_def)
qed

lemma operations_ok_step:
  assumes "com_step s s'" and ok: "operations_ok s"
  shows "operations_ok s'"
  using assms(1)
proof cases
  case (call c st t' actions)
  have le: "it_next_handle (sy_transport s) \<le> it_next_handle (sy_transport s) + 1" using call(3) by (rule less_imp_le)
  show ?thesis
    using locked_operations [OF call(2)]
  proof (elim disjE conjE)
    assume sub: "mset (map fst (it_pending t')) + gathered action_operations actions \<subseteq># mset (map fst (it_pending (sy_transport s)))"
      and n: "it_next_handle t' \<in> {it_next_handle (sy_transport s), it_next_handle (sy_transport s) + 1}"
    have "system_operations s' \<subseteq># system_operations s"
      using sub by (simp add: call(1) system_operations_def thread_operations_def ac_simps)
    then show ?thesis by (rule operations_ok_mono [OF ok]) (use n le in \<open>auto simp: call(1)\<close>)
  next
    assume sub: "mset (map fst (it_pending t')) + gathered action_operations actions \<subseteq>#
        add_mset (it_next_handle (sy_transport s)) (mset (map fst (it_pending (sy_transport s))))"
      and n: "it_next_handle t' = it_next_handle (sy_transport s) + 1"
    have "system_operations s' \<subseteq># add_mset (it_next_handle (sy_transport s)) (system_operations s)"
      using sub by (simp add: call(1) system_operations_def thread_operations_def ac_simps)
    then show ?thesis by (rule operations_ok_issue [OF ok]) (use n call(3) in \<open>simp_all add: call(1)\<close>)
  qed
next
  case (act i a as outcome st w')
  let ?as = "if st \<noteq> CS_OK \<and> ends_operation a then [] else as"
  have t: "it_pending (wo_transport w') = it_pending (sy_transport s)" "it_next_handle (wo_transport w') = it_next_handle (sy_transport s)"
    using do_action_tables [OF act(5)] by (simp_all add: same_inproc_tables_def)
  have "thread_operations ((sy_threads s)[i := ?as]) + (action_operations a + gathered action_operations as) =
      thread_operations (sy_threads s) + gathered action_operations ?as"
    using gathered_update [OF act(2), of "gathered action_operations" ?as] act(3) by (simp add: thread_operations_def)
  then have "thread_operations ((sy_threads s)[i := ?as]) + action_operations a + gathered action_operations as =
      thread_operations (sy_threads s) + gathered action_operations ?as" by (simp only: add.assoc)
  then have threads: "thread_operations ((sy_threads s)[i := ?as]) + action_operations a \<subseteq># thread_operations (sy_threads s)"
  proof (cases "st \<noteq> CS_OK \<and> ends_operation a")
    case True
    then have "?as = []" by auto
    then have "thread_operations ((sy_threads s)[i := ?as]) + action_operations a + gathered action_operations as = thread_operations (sy_threads s)"
      using \<open>_ + gathered action_operations as = _\<close> by simp
    then show ?thesis by (metis mset_subset_eq_add_left)
  next
    case False
    then have "?as = as" by auto
    with \<open>_ + gathered action_operations as = _\<close> show ?thesis by (simp only: add_right_cancel subset_mset.order_refl)
  qed
  have "system_operations s' \<subseteq># system_operations s"
    using subset_mset.add_mono [OF threads do_action_operations [OF act(5)]] t
    by (simp add: act(1) system_operations_def ac_simps)
  then show ?thesis by (rule operations_ok_mono [OF ok]) (simp add: act(1) t)
next
  case (run before task after)
  have "system_operations s' \<subseteq># system_operations s"
    using run_task_operations(1) [of task "(sy_world s)\<lparr>wo_queue := before @ after\<rparr>"] run(2)
    by (simp add: run(1) system_operations_def run_task_operations(2) ac_simps)
  then show ?thesis by (rule operations_ok_mono [OF ok]) (simp add: run(1))
qed

lemma reachable_operations: "com_reachable s \<Longrightarrow> operations_ok s"
proof (induction rule: com_reachable_induct)
  case (created me mo t)
  then show ?case
    by (auto simp: Inproc_Create_def fresh_system_def operations_ok_def system_operations_def thread_operations_def split: if_splits)
qed (rule operations_ok_step)

text \<open>C11: a request completes at most once. Under every interleaving of the clients, their responses and cancellations, a
  stop of the transport and the host's executor, the completion callback of an operation is entered at most once, and only for
  operations a request was given.\<close>

theorem completed_at_most_once:
  assumes "com_reachable s"
  shows "count (gathered event_operations (wo_events (sy_world s))) operation \<le> 1 \<and>
    (\<forall>c status payload. EV_completion c operation status payload \<in> set (wo_events (sy_world s)) \<longrightarrow>
       operation < it_next_handle (sy_transport s) \<and> um_find (it_pending (sy_transport s)) operation = None)"
proof -
  have "operations_ok s" using assms by (rule reachable_operations)
  then have one: "count (system_operations s) operation \<le> 1"
    and lt: "operation \<in># system_operations s \<Longrightarrow> operation < it_next_handle (sy_transport s)"
    by (simp_all add: operations_ok_def)
  have ev: "operation \<in># gathered event_operations es" if "EV_completion c operation status payload \<in> set es" for c status payload es
    using that by (induction es) auto
  have pend: "operation \<in># mset (map fst m)" if "um_find m operation = Some c" for c and m :: "(ComHandle \<times> Callback) list"
    using that by (force simp: um_find_def dest: map_of_SomeD)
  show ?thesis
  proof (intro conjI allI impI)
    show "count (gathered event_operations (wo_events (sy_world s))) operation \<le> 1" using one by (simp add: system_operations_def)
  next
    fix c status payload assume e: "EV_completion c operation status payload \<in> set (wo_events (sy_world s))"
    then show "operation < it_next_handle (sy_transport s)" using ev [OF e] by (intro lt) (simp add: system_operations_def)
    have "count (mset (map fst (it_pending (sy_transport s)))) operation = 0"
      using one ev [OF e] by (simp add: system_operations_def flip: count_greater_zero_iff)
    then show "um_find (it_pending (sy_transport s)) operation = None"
      using pend by (cases "um_find (it_pending (sy_transport s)) operation") (auto simp: count_eq_zero_iff)
  qed
qed

section \<open>Limits\<close>

fun task_fits :: "Task \<Rightarrow> bool" where
  "task_fits (TK_sample r payload sequence epoch) = (length payload \<le> unat max_inproc_payload)"
| "task_fits _ = True"

fun action_fits :: "ComAction \<Rightarrow> bool" where
  "action_fits (AC_dispatch task b) = task_fits task"
| "action_fits _ = True"

fun sample_fits :: "ComEvent \<Rightarrow> bool" where
  "sample_fits (EV_sample r c payload sequence epoch) = (length payload \<le> unat max_inproc_payload)"
| "sample_fits _ = True"

definition transport_limits :: "InprocTransport \<Rightarrow> bool" where
  "transport_limits t \<longleftrightarrow>
     length (it_endpoints t) \<le> unat (it_max_endpoints t) \<and> length (it_pending t) \<le> unat (it_max_operations t) \<and>
     list_all (\<lambda>e. ed_max_payload_size (snd e) \<le> max_inproc_payload) (it_endpoints t)"

definition system_limits :: "System \<Rightarrow> bool" where
  "system_limits s \<longleftrightarrow> transport_limits (sy_transport s) \<and> list_all (list_all action_fits) (sy_threads s) \<and>
     list_all task_fits (wo_queue (sy_world s)) \<and> list_all sample_fits (wo_events (sy_world s))"

lemma length_um_emplace: "length m < n \<Longrightarrow> length (um_emplace k v m) \<le> n"
  by (simp add: um_emplace_def)

lemma length_um_erase: "length m \<le> n \<Longrightarrow> length (um_erase k m) \<le> n"
  unfolding um_erase_def by (rule order.trans [OF length_filter_le])

lemma transport_limits_same:
  "transport_limits t \<Longrightarrow> it_endpoints t' = it_endpoints t \<Longrightarrow> it_pending t' = it_pending t \<Longrightarrow> it_max_endpoints t' = it_max_endpoints t \<Longrightarrow>
   it_max_operations t' = it_max_operations t \<Longrightarrow> transport_limits t'"
  by (simp add: transport_limits_def)

lemma locked_limits:
  assumes "locked c t = (st, t', actions)" and "transport_limits t"
  shows "transport_limits t'"
proof (cases c)
  case (CC_endpoint_create d o')
  then show ?thesis using assms
    by (auto simp: call_defs transport_limits_def Let_def not_le not_less intro!: length_um_emplace list_all_emplace split: if_splits option.splits)
next
  case (CC_endpoint_destroy h)
  then show ?thesis using assms
    by (auto simp: call_defs transport_limits_def Let_def intro!: length_um_erase list_all_erase split: if_splits option.splits)
next
  case (CC_request h p d cb o' now)
  then show ?thesis using assms
    by (auto simp: call_defs transport_limits_def Let_def not_le intro!: length_um_emplace split: if_splits option.splits prod.splits)
next
  case (CC_cancel h)
  then show ?thesis using assms
    by (auto simp: call_defs transport_limits_def intro!: length_um_erase split: option.splits)
next
  case (CC_respond h st p)
  then show ?thesis using assms
    by (auto simp: call_defs transport_limits_def intro!: length_um_erase split: if_splits option.splits)
next
  case CC_stop
  then show ?thesis using assms by (auto simp: call_defs transport_limits_def Let_def split: if_splits)
qed (use assms(1) in \<open>auto simp: call_defs Let_def intro!: transport_limits_same [OF assms(2)] split: if_splits option.splits list.splits\<close>)

lemma Deliver_fits:
  assumes "Deliver publisher payload t = (st, t', actions)" and "transport_limits t"
  shows "list_all action_fits actions"
proof (cases "um_find (it_endpoints t) publisher")
  case (Some d)
  then have "ed_max_payload_size d \<le> max_inproc_payload"
    using assms(2) list_all_find [OF _ Some, of "\<lambda>e. ed_max_payload_size (snd e) \<le> max_inproc_payload"] by (simp add: transport_limits_def)
  then have "length payload \<le> unat max_inproc_payload" if "length payload \<le> unat (ed_max_payload_size d)"
    using that by (auto simp: word_le_nat_alt)
  then show ?thesis using assms(1) Some by (auto simp: Deliver_def Let_def list_all_iff split: if_splits)
qed (use assms(1) in \<open>auto simp: Deliver_def split: if_splits\<close>)

lemma of_callback_fits [simp]: "(\<And>x. action_fits (f x)) \<Longrightarrow> list_all action_fits (of_callback f c)"
  by (simp add: of_callback_def split: option.split)

lemma locked_fits:
  assumes "locked c t = (st, t', actions)" and "transport_limits t"
  shows "list_all action_fits actions"
proof (cases c)
  case (CC_publish h p)
  then show ?thesis using assms Deliver_fits by (auto simp: Publish_def split: if_splits)
next
  case (CC_publish_iov h ps)
  then show ?thesis using assms Deliver_fits by (auto simp: PublishIov_def Publish_def split: option.splits list.splits if_splits)
next
  case (CC_loan_publish h l n)
  have "transport_limits (t\<lparr>it_loans := x\<rparr>)" for x using assms(2) by (rule transport_limits_same) simp_all
  then show ?thesis using CC_loan_publish assms Deliver_fits by (auto simp: LoanPublish_def split: option.splits if_splits)
qed (use assms(1) in \<open>auto simp: call_defs Let_def list.pred_map comp_def case_prod_unfold list.pred_True split: if_splits option.splits prod.splits\<close>)

lemma do_action_fits:
  assumes "do_action outcome a w = (st, w')" and "action_fits a" and "list_all task_fits (wo_queue w)" and "list_all sample_fits (wo_events w)"
  shows "list_all task_fits (wo_queue w') \<and> list_all sample_fits (wo_events w')"
proof (cases a)
  case (AC_dispatch task b)
  then have "w' = snd (Inproc_Dispatch outcome task w)" using assms by simp
  then show ?thesis using assms AC_dispatch by (cases outcome) (simp_all add: Inproc_Dispatch_def split: option.split)
next
  case (AC_withdraw q h reason)
  then show ?thesis using assms by (auto simp: withdraw_def Let_def split: option.splits)
qed (use assms in \<open>auto simp: Let_def\<close>)

lemma run_task_fits: "task_fits task \<Longrightarrow> list_all sample_fits (wo_events w) \<Longrightarrow> list_all sample_fits (wo_events (run_task task w))"
  by (cases task) (simp_all add: Let_def)

lemma list_all_update: "list_all P xs \<Longrightarrow> P y \<Longrightarrow> list_all P (xs[i := y])"
  by (auto simp: list_all_iff dest: set_update_subset_insert [THEN subsetD])

lemma system_limits_step:
  assumes "com_step s s'" and ok: "system_limits s"
  shows "system_limits s'"
  using assms(1)
proof cases
  case (call c st t' actions)
  then show ?thesis using ok locked_limits [OF call(2)] locked_fits [OF call(2)] by (simp add: system_limits_def)
next
  case (act i a as outcome st w')
  have "list_all action_fits (sy_threads s ! i)" using ok act(2) by (simp add: system_limits_def list_all_length)
  then have a: "action_fits a" "list_all action_fits as" by (simp_all add: act(3))
  have "transport_limits (wo_transport w')"
    using ok do_action_tables [OF act(5)] by (auto simp: system_limits_def same_inproc_tables_def intro: transport_limits_same)
  then show ?thesis
    using ok a do_action_fits [OF act(5) a(1)] by (simp add: act(1) system_limits_def list_all_update)
next
  case (run before task after)
  then show ?thesis using ok run_task_fits [of task "(sy_world s)\<lparr>wo_queue := before @ after\<rparr>"]
    by (simp add: system_limits_def run_task_operations(2))
qed

text \<open>The transport keeps its limits. Under every interleaving there are no more endpoints and no more outstanding operations than
  configured, and no sample larger than 16 MiB is ever queued or delivered.\<close>

theorem inproc_within_limits:
  assumes "com_reachable s"
  shows "length (it_endpoints (sy_transport s)) \<le> unat (it_max_endpoints (sy_transport s)) \<and>
    length (it_pending (sy_transport s)) \<le> unat (it_max_operations (sy_transport s)) \<and>
    (\<forall>r c payload sequence epoch. EV_sample r c payload sequence epoch \<in> set (wo_events (sy_world s)) \<longrightarrow> length payload \<le> 16 * 1024 * 1024)"
proof -
  have "system_limits s"
    using assms
  proof (induction rule: com_reachable_induct)
    case (created me mo t)
    then show ?case
      by (auto simp: Inproc_Create_def fresh_system_def system_limits_def transport_limits_def split: if_splits)
  qed (rule system_limits_step)
  then show ?thesis by (fastforce simp: system_limits_def transport_limits_def list_all_iff max_inproc_payload_def)
qed

end
