(* ===== verification/Com_Inproc_Delivery.thy ===== *)
theory Com_Inproc_Delivery
  imports Com_Inproc_Runs
begin

text \<open>
  What the callbacks of the in-process transport receive. A call with nothing in between is \<open>perform_call\<close>, an executor that runs
  its queue is \<open>drain\<close>, and schedules of them are interleavings of \<^theory_text>\<open>Com_Inproc_Runs\<close>. The objects that tables and tasks share
  (subscriptions, watches, servers) follow one contract, the locale \<open>callback_gate\<close>, from which every entry of a table is active in every
  reachable state. On that rest the delivery of samples, of requests and responses, of discovery entries, and the shutdown. The last
  section evaluates schedules in which the transport does not do what its interface says.
\<close>

section \<open>One call at a time\<close>

text \<open>A call with nothing in between: its locked part, then its actions, with the answers of the host to its tasks.\<close>

definition perform_call :: "(Task \<Rightarrow> DispatchOutcome) \<Rightarrow> ComCall \<Rightarrow> World \<Rightarrow> ComStatus \<times> World" where
  "perform_call host c w =
     (case locked c (wo_transport w) of (st, t, actions) \<Rightarrow>
        (case run_actions host actions (w\<lparr>wo_transport := t\<rparr>) of (st', w') \<Rightarrow> (if st \<noteq> CS_OK then st else st', w')))"

definition drain :: "World \<Rightarrow> World" where
  "drain w = fold run_task (wo_queue w) (w\<lparr>wo_queue := []\<rparr>)"

abbreviation accepting :: "Task \<Rightarrow> DispatchOutcome" where
  "accepting \<equiv> \<lambda>_. DI_accepted"

text \<open>A schedule: whole calls, calls of which only the locked part has run, single actions of a thread, and tasks of the executor.\<close>

datatype ScriptStep = SC_call ComCall | SC_drain | SC_begin ComCall | SC_act nat | SC_run nat

definition begin_call :: "ComCall \<Rightarrow> System \<Rightarrow> System" where
  "begin_call c s = (case locked c (sy_transport s) of (st, t, actions) \<Rightarrow>
     \<lparr>sy_world = (sy_world s)\<lparr>wo_transport := t\<rparr>, sy_threads = sy_threads s @ [actions]\<rparr>)"

definition act_thread :: "(Task \<Rightarrow> DispatchOutcome) \<Rightarrow> nat \<Rightarrow> System \<Rightarrow> System" where
  "act_thread host i s =
     (if i < length (sy_threads s) then
        (case sy_threads s ! i of
           [] \<Rightarrow> s
         | a # as \<Rightarrow>
             (case do_action (case a of AC_dispatch task _ \<Rightarrow> host task | _ \<Rightarrow> DI_accepted) a (sy_world s) of (st, w) \<Rightarrow>
                \<lparr>sy_world = w, sy_threads = (sy_threads s)[i := (if st \<noteq> CS_OK \<and> ends_operation a then [] else as)]\<rparr>))
      else s)"

definition run_queued :: "nat \<Rightarrow> System \<Rightarrow> System" where
  "run_queued i s =
     (let w = sy_world s; q = wo_queue w in
      if i < length q then s\<lparr>sy_world := run_task (q ! i) (w\<lparr>wo_queue := take i q @ drop (Suc i) q\<rparr>)\<rparr> else s)"

fun play_step :: "(Task \<Rightarrow> DispatchOutcome) \<Rightarrow> ScriptStep \<Rightarrow> System \<Rightarrow> System" where
  "play_step host (SC_call c) s = \<lparr>sy_world = snd (perform_call host c (sy_world s)), sy_threads = sy_threads s @ [[]]\<rparr>"
| "play_step host SC_drain s = s\<lparr>sy_world := drain (sy_world s)\<rparr>"
| "play_step host (SC_begin c) s = begin_call c s"
| "play_step host (SC_act i) s = act_thread host i s"
| "play_step host (SC_run i) s = run_queued i s"

definition play :: "(Task \<Rightarrow> DispatchOutcome) \<Rightarrow> ScriptStep list \<Rightarrow> System \<Rightarrow> System" where
  "play host cs s = fold (play_step host) cs s"

text \<open>Such sequences are interleavings.\<close>

lemma run_actions_runs:
  assumes "\<And>task. host task \<noteq> DI_refused CS_OK" and "i < length (sy_threads s)" and "sy_threads s ! i = actions"
  shows "com_runs s \<lparr>sy_world = snd (run_actions host actions (sy_world s)), sy_threads = (sy_threads s)[i := []]\<rparr>"
  using assms(2,3)
proof (induction actions arbitrary: s)
  case Nil
  then have "\<lparr>sy_world = sy_world s, sy_threads = (sy_threads s)[i := []]\<rparr> = s" by (metis System.surjective list_update_id old.unit.exhaust)
  then show ?case by simp
next
  case (Cons a as)
  let ?o = "case a of AC_dispatch task _ \<Rightarrow> host task | _ \<Rightarrow> DI_accepted"
  obtain st w' where d: "do_action ?o a (sy_world s) = (st, w')" by fastforce
  let ?as = "if st \<noteq> CS_OK \<and> ends_operation a then [] else as"
  let ?s = "\<lparr>sy_world = w', sy_threads = (sy_threads s)[i := ?as]\<rparr>"
  have "?o \<noteq> DI_refused CS_OK" using assms(1) by (simp split: ComAction.split)
  then have step: "com_step s ?s" by (rule com_step.act [OF Cons.prems _ d])
  show ?case
  proof (cases "st \<noteq> CS_OK \<and> ends_operation a")
    case True
    then show ?thesis using step d by (simp add: r_into_rtranclp)
  next
    case False
    then have as: "?as = as" by auto
    then have "com_runs ?s \<lparr>sy_world = snd (run_actions host as w'), sy_threads = (sy_threads s)[i := []]\<rparr>"
      using Cons.IH [of ?s] Cons.prems by (simp only: as) simp
    then show ?thesis using step d False by (auto intro: converse_rtranclp_into_rtranclp)
  qed
qed

lemma perform_call_runs:
  assumes "\<And>task. host task \<noteq> DI_refused CS_OK" and "it_next_handle (sy_transport s) < it_next_handle (sy_transport s) + 1"
  shows "com_runs s \<lparr>sy_world = snd (perform_call host c (sy_world s)), sy_threads = sy_threads s @ [[]]\<rparr>"
proof -
  obtain st t actions where l: "locked c (sy_transport s) = (st, t, actions)" by (metis prod_cases3)
  let ?s = "\<lparr>sy_world = (sy_world s)\<lparr>wo_transport := t\<rparr>, sy_threads = sy_threads s @ [actions]\<rparr>"
  have "com_runs ?s \<lparr>sy_world = snd (run_actions host actions (sy_world ?s)), sy_threads = (sy_threads ?s)[length (sy_threads s) := []]\<rparr>"
    by (rule run_actions_runs [OF assms(1)]) simp_all
  then have "com_runs ?s \<lparr>sy_world = snd (perform_call host c (sy_world s)), sy_threads = sy_threads s @ [[]]\<rparr>"
    by (simp add: perform_call_def l case_prod_unfold)
  then show ?thesis using com_step.call [OF l assms(2)] by (rule converse_rtranclp_into_rtranclp [rotated])
qed

lemma run_task_queue: "run_task task (w\<lparr>wo_queue := q\<rparr>) = (run_task task w)\<lparr>wo_queue := q\<rparr>"
  by (cases task) (simp_all add: Let_def observe_def)

lemma drain_runs: "com_runs s (s\<lparr>sy_world := drain (sy_world s)\<rparr>)"
proof -
  have "com_runs s (s\<lparr>sy_world := fold run_task q ((sy_world s)\<lparr>wo_queue := []\<rparr>)\<rparr>)" if "wo_queue (sy_world s) = q" for q s
    using that
  proof (induction q arbitrary: s)
    case Nil
    then have "(sy_world s)\<lparr>wo_queue := []\<rparr> = sy_world s" by simp
    then show ?case by (simp only: fold.simps id_apply) simp
  next
    case (Cons task q)
    let ?s = "s\<lparr>sy_world := run_task task ((sy_world s)\<lparr>wo_queue := q\<rparr>)\<rparr>"
    have "com_step s ?s" using com_step.run [of s "[]" task q] Cons.prems by simp
    moreover have "com_runs ?s (?s\<lparr>sy_world := fold run_task q ((sy_world ?s)\<lparr>wo_queue := []\<rparr>)\<rparr>)"
      by (rule Cons.IH) (simp add: run_task_operations(2))
    ultimately show ?case by (simp add: run_task_queue)
  qed
  then show ?thesis by (simp add: drain_def)
qed

lemma run_actions_tables:
  "run_actions host actions w = (st, w') \<Longrightarrow> same_inproc_tables (wo_transport w) (wo_transport w')"
proof (induction actions arbitrary: w)
  case Nil
  then show ?case by (simp add: same_inproc_tables_def)
next
  case (Cons a as)
  obtain st1 w1 where d: "do_action (case a of AC_dispatch task _ \<Rightarrow> host task | _ \<Rightarrow> DI_accepted) a w = (st1, w1)" by fastforce
  show ?case
    using do_action_tables [OF d] Cons d by (fastforce simp: same_inproc_tables_def split: if_splits)
qed

lemma perform_call_handle:
  "it_next_handle (wo_transport (snd (perform_call host c w))) \<in> {it_next_handle (wo_transport w), it_next_handle (wo_transport w) + 1}"
proof -
  obtain st t actions where l: "locked c (wo_transport w) = (st, t, actions)" by (metis prod_cases3)
  obtain st' w' where r: "run_actions host actions (w\<lparr>wo_transport := t\<rparr>) = (st', w')" by fastforce
  show ?thesis
    using locked_operations [OF l] run_actions_tables [OF r] by (auto simp: perform_call_def l r same_inproc_tables_def)
qed

lemma drain_transport [simp]: "wo_transport (drain w) = wo_transport w"
proof -
  have "wo_transport (fold run_task q w) = wo_transport w" for q w by (induction q arbitrary: w) simp_all
  then show ?thesis by (simp add: drain_def)
qed

lemma act_runs:
  assumes "\<And>task. host task \<noteq> DI_refused CS_OK"
  shows "com_runs s (act_thread host i s)"
proof (cases "i < length (sy_threads s) \<and> sy_threads s ! i \<noteq> []")
  case True
  then obtain a as where a: "sy_threads s ! i = a # as" by (cases "sy_threads s ! i") auto
  let ?o = "case a of AC_dispatch task _ \<Rightarrow> host task | _ \<Rightarrow> DI_accepted"
  obtain st w where d: "do_action ?o a (sy_world s) = (st, w)" by fastforce
  have "?o \<noteq> DI_refused CS_OK" using assms by (simp split: ComAction.split)
  then have "com_step s (act_thread host i s)"
    using com_step.act [OF _ a _ d] True by (simp add: act_thread_def a d)
  then show ?thesis by (rule r_into_rtranclp)
qed (auto simp: act_thread_def split: list.split)

lemma run_runs: "com_runs s (run_queued i s)"
proof (cases "i < length (wo_queue (sy_world s))")
  case True
  let ?q = "wo_queue (sy_world s)"
  have "?q = take i ?q @ ?q ! i # drop (Suc i) ?q" using True by (rule id_take_nth_drop)
  then have "com_step s (run_queued i s)" using com_step.run [of s "take i ?q" "?q ! i" "drop (Suc i) ?q"] True by (simp add: run_queued_def Let_def)
  then show ?thesis by (rule r_into_rtranclp)
qed (simp add: run_queued_def Let_def)

lemma play_step_runs:
  assumes "\<And>task. host task \<noteq> DI_refused CS_OK" and "it_next_handle (sy_transport s) < it_next_handle (sy_transport s) + 1"
  shows "com_runs s (play_step host x s)"
proof (cases x)
  case (SC_begin c)
  obtain st t actions where l: "locked c (sy_transport s) = (st, t, actions)" by (metis prod_cases3)
  show ?thesis using com_step.call [OF l assms(2)] by (simp add: SC_begin begin_call_def l r_into_rtranclp)
qed (use assms in \<open>simp_all add: perform_call_runs drain_runs act_runs run_runs\<close>)

lemma play_step_handle:
  "it_next_handle (sy_transport (play_step host x s)) \<in> {it_next_handle (sy_transport s), it_next_handle (sy_transport s) + 1}"
proof (cases x)
  case (SC_call c)
  then show ?thesis using perform_call_handle [of host c "sy_world s"] by simp
next
  case (SC_begin c)
  obtain st t actions where l: "locked c (sy_transport s) = (st, t, actions)" by (metis prod_cases3)
  then show ?thesis using locked_operations [OF l] by (auto simp: SC_begin begin_call_def)
next
  case (SC_act i)
  have "it_next_handle (sy_transport (act_thread host i s)) = it_next_handle (sy_transport s)"
    using do_action_tables by (fastforce simp: act_thread_def same_inproc_tables_def split: list.split prod.split)
  then show ?thesis by (simp add: SC_act)
next
  case (SC_run i)
  then show ?thesis by (simp add: run_queued_def Let_def)
qed simp

lemma play_runs:
  assumes "\<And>task. host task \<noteq> DI_refused CS_OK" and "unat (it_next_handle (sy_transport s)) + length cs < 2 ^ 64"
  shows "com_runs s (play host cs s)"
  using assms(2)
proof (induction cs arbitrary: s)
  case (Cons x cs)
  have inc: "unat (it_next_handle (sy_transport s) + 1) = unat (it_next_handle (sy_transport s)) + 1"
    using Cons.prems by (simp add: unat_word_ariths)
  then have "com_runs s (play_step host x s)" by (intro play_step_runs [OF assms(1)]) (simp add: word_less_nat_alt)
  moreover have "com_runs (play_step host x s) (play host cs (play_step host x s))"
    using Cons.prems play_step_handle [of host x s] inc by (intro Cons.IH) auto
  ultimately show ?case by (simp add: play_def)
qed (simp add: play_def)

definition new_transport :: "u32 \<Rightarrow> u32 \<Rightarrow> InprocTransport" where
  "new_transport me mo = the (snd (Inproc_Create True me mo True))"

lemma play_reachable:
  assumes "\<And>task. host task \<noteq> DI_refused CS_OK" and "length cs < 1000"
  shows "com_reachable (play host cs (fresh_system (new_transport me mo)))"
proof -
  have "Inproc_Create True me mo True = (CS_OK, Some (new_transport me mo))" by (simp add: new_transport_def Inproc_Create_def)
  moreover have "com_runs (fresh_system (new_transport me mo)) (play host cs (fresh_system (new_transport me mo)))"
    using assms(2) by (intro play_runs [OF assms(1)]) (simp add: fresh_system_def new_transport_def Inproc_Create_def)
  ultimately show ?thesis unfolding com_reachable_def by blast
qed

section \<open>Objects with a callback gate\<close>

text \<open>A subscription, a watch and a server are shared between a table and the queued tasks. An operation takes the object out of its
  table first and deactivates it, under the object's gate, once the mutex is released: the object is doomed in between.\<close>

locale callback_gate =
  fixes active :: "'o \<Rightarrow> bool" and retire :: "'o \<Rightarrow> 'o"
  assumes retire_inactive: "\<not> active (retire x)"
begin

definition live :: "(ComHandle \<times> Ref) list \<Rightarrow> 'o list \<Rightarrow> Ref set \<Rightarrow> bool" where
  "live table objects doomed \<longleftrightarrow>
     distinct (map snd table) \<and> (\<forall>r \<in> snd ` set table. r < length objects \<and> active (objects ! r) \<and> r \<notin> doomed) \<and>
     (\<forall>r \<in> doomed. r < length objects)"

lemma live_empty: "live [] [] {}"
  by (simp add: live_def)

lemma live_active: "live table objects doomed \<Longrightarrow> r \<in> snd ` set table \<Longrightarrow> r < length objects \<and> active (objects ! r)"
  unfolding live_def by blast

lemma live_find: "live table objects doomed \<Longrightarrow> um_find table k = Some r \<Longrightarrow> r < length objects \<and> active (objects ! r)"
  by (rule live_active, assumption) (force simp: um_find_def dest: map_of_SomeD)

lemma live_mono: "live table objects doomed \<Longrightarrow> doomed' \<subseteq> doomed \<Longrightarrow> live table objects doomed'"
  by (auto simp: live_def)

lemma live_emplace:
  "live table objects doomed \<Longrightarrow> active x \<Longrightarrow> live (um_emplace k (length objects) table) (objects @ [x]) doomed"
  by (fastforce simp: live_def um_emplace_def nth_append)

lemma live_forget: "live table objects doomed \<Longrightarrow> active x \<Longrightarrow> live table (objects @ [x]) doomed"
  by (fastforce simp: live_def nth_append)

lemma set_um_set_snd: "snd ` set (um_set k r m) \<subseteq> insert r (snd ` set m)"
  by (induction k r m rule: um_set.induct) auto

lemma distinct_um_set: "distinct (map snd m) \<Longrightarrow> r \<notin> snd ` set m \<Longrightarrow> distinct (map snd (um_set k r m))"
proof (induction k r m rule: um_set.induct)
  case (2 k r k' v' m)
  then show ?case using set_um_set_snd [of k r m] by auto
qed simp

lemma live_set:
  assumes "live table objects doomed" and "active x"
  shows "live (um_set k (length objects) table) (objects @ [x]) doomed"
proof -
  have "length objects \<notin> snd ` set table" "length objects \<notin> doomed" using assms(1) by (auto simp: live_def)
  then show ?thesis
    using assms set_um_set_snd [of k "length objects" table] distinct_um_set [of table "length objects" k]
    by (fastforce simp: live_def nth_append)
qed

lemma live_erase:
  assumes "live table objects doomed" and "um_find table k = Some r"
  shows "live (um_erase k table) objects (insert r doomed)"
proof -
  have kr: "(k, r) \<in> set table" using assms(2) by (auto simp: um_find_def dest: map_of_SomeD)
  have d: "distinct (map snd table)" using assms(1) by (simp add: live_def)
  have "r \<notin> snd ` set (um_erase k table)"
  proof
    assume "r \<in> snd ` set (um_erase k table)"
    then obtain k' where "(k', r) \<in> set table" "k' \<noteq> k" by (auto simp: um_erase_def)
    then show False using kr d by (auto simp: distinct_map dest: inj_onD [of snd _ "(k', r)" "(k, r)"])
  qed
  moreover have "r < length objects" using assms(1) kr by (force simp: live_def)
  moreover have "distinct (map snd (um_erase k table))" using d by (simp add: um_erase_def distinct_map_filter)
  moreover have "snd ` set (um_erase k table) \<subseteq> snd ` set table" by (auto simp: um_erase_def)
  ultimately show ?thesis using assms(1) unfolding live_def by blast
qed

lemma live_clear: "live table objects doomed \<Longrightarrow> live [] objects (doomed \<union> snd ` set table)"
  by (auto simp: live_def)

lemma live_update: "live table objects doomed \<Longrightarrow> active x = active (objects ! r) \<Longrightarrow> live table (objects[r := x]) doomed"
  unfolding live_def length_list_update by (metis nth_list_update_eq nth_list_update_neq)

lemma live_retire:
  "live table objects doomed \<Longrightarrow> r \<in> doomed \<Longrightarrow> live table (objects[r := retire (objects ! r)]) doomed"
  by (fastforce simp: live_def nth_list_update)

end

interpretation subscription_gate: callback_gate su_active "\<lambda>s. s\<lparr>su_active := False\<rparr>"
  by unfold_locales simp

interpretation watch_gate: callback_gate wa_active "\<lambda>s. s\<lparr>wa_active := False\<rparr>"
  by unfold_locales simp

interpretation server_gate: callback_gate sv_active "\<lambda>s. s\<lparr>sv_active := False\<rparr>"
  by unfold_locales simp

fun withdrawn_ref :: "ComAction \<Rightarrow> Ref set" where
  "withdrawn_ref (AC_withdraw r h reason) = {r}"
| "withdrawn_ref _ = {}"

fun retired_watch :: "ComAction \<Rightarrow> Ref set" where
  "retired_watch (AC_retire_watch r) = {r}"
| "retired_watch _ = {}"

fun retired_server :: "ComAction \<Rightarrow> Ref set" where
  "retired_server (AC_retire_server r) = {r}"
| "retired_server _ = {}"

definition doomed_by :: "(ComAction \<Rightarrow> Ref set) \<Rightarrow> ComAction list list \<Rightarrow> Ref set" where
  "doomed_by f threads = (\<Union>a \<in> set (concat threads). f a)"

lemma doomed_by_Nil [simp]: "doomed_by f [] = {}"
  by (simp add: doomed_by_def)

lemma doomed_by_snoc: "doomed_by f (threads @ [as]) = doomed_by f threads \<union> (\<Union>a \<in> set as. f a)"
  by (auto simp: doomed_by_def)

lemma doomed_by_update:
  assumes "threads ! i = a # as" and "bs = [] \<or> bs = as"
  shows "doomed_by f (threads[i := bs]) \<subseteq> doomed_by f threads"
proof (cases "i < length threads")
  case True
  then have mem: "a # as \<in> set threads" using assms(1) by (metis nth_mem)
  have bs: "set bs \<subseteq> set (a # as)" using assms(2) by auto
  have "set (concat (threads[i := bs])) \<subseteq> (\<Union>l \<in> insert bs (set threads). set l)"
    unfolding set_concat by (rule UN_mono [OF set_update_subset_insert]) simp
  also have "\<dots> \<subseteq> set (concat threads)" using mem bs unfolding set_concat by blast
  finally show ?thesis unfolding doomed_by_def by (rule UN_mono) simp
qed (simp add: list_update_beyond)

lemma doomed_by_head: "i < length threads \<Longrightarrow> threads ! i = a # as \<Longrightarrow> f a \<subseteq> doomed_by f threads"
  by (auto simp: doomed_by_def dest!: nth_mem intro!: bexI [of _ "a # as"])

definition system_live :: "System \<Rightarrow> bool" where
  "system_live s \<longleftrightarrow>
     subscription_gate.live (it_subscriptions (sy_transport s)) (it_subscription_objects (sy_transport s))
       (doomed_by withdrawn_ref (sy_threads s)) \<and>
     watch_gate.live (it_watches (sy_transport s)) (it_watch_objects (sy_transport s)) (doomed_by retired_watch (sy_threads s)) \<and>
     server_gate.live (it_servers (sy_transport s)) (it_server_objects (sy_transport s)) (doomed_by retired_server (sy_threads s))"

lemma um_erase_absent: "um_find m k = None \<Longrightarrow> um_erase k m = m"
  by (induction m) (auto simp: um_find_def um_erase_def split: if_splits)

lemma dooms_of_callback: "(\<Union>a \<in> set (of_callback f c). g a) = (case c of None \<Rightarrow> {} | Some x \<Rightarrow> g (f x))"
  by (simp add: of_callback_def split: option.split)

lemma dooms_dispatch [simp]:
  "(\<Union>x \<in> X. withdrawn_ref (AC_dispatch (g x) b)) = {}" "(\<Union>x \<in> X. retired_watch (AC_dispatch (g x) b)) = {}"
  "(\<Union>x \<in> X. retired_server (AC_dispatch (g x) b)) = {}"
  by simp_all

lemma locked_live_subscriptions:
  assumes "locked c t = (st, t', actions)" and ok: "subscription_gate.live (it_subscriptions t) (it_subscription_objects t) D"
  shows "subscription_gate.live (it_subscriptions t') (it_subscription_objects t') (D \<union> (\<Union>a \<in> set actions. withdrawn_ref a))"
proof (cases c)
  case CC_stop
  then show ?thesis using assms(1) subscription_gate.live_clear [OF ok] ok
    by (auto simp: Inproc_Stop_def Let_def UNION_singleton_eq_range dooms_of_callback case_prod_unfold split: if_splits option.splits)
next
  case (CC_subscribe h cb o')
  then show ?thesis using assms(1) ok subscription_gate.live_emplace [OF ok] by (auto simp: call_defs Let_def split: if_splits option.splits)
next
  case (CC_unsubscribe h)
  then show ?thesis using assms(1) ok subscription_gate.live_erase [OF ok] by (auto simp: call_defs split: option.splits)
next
  case (CC_set_state_handler h cb)
  then show ?thesis using assms(1) ok subscription_gate.live_update [OF ok] by (auto simp: call_defs Let_def split: if_splits option.splits)
qed (use assms(1) ok in \<open>auto simp: call_defs Let_def dooms_of_callback split: if_splits option.splits list.splits\<close>)

lemma locked_live_watches:
  assumes "locked c t = (st, t', actions)" and ok: "watch_gate.live (it_watches t) (it_watch_objects t) D"
  shows "watch_gate.live (it_watches t') (it_watch_objects t') (D \<union> (\<Union>a \<in> set actions. retired_watch a))"
proof (cases c)
  case CC_stop
  then show ?thesis using assms(1) watch_gate.live_clear [OF ok] ok
    by (auto simp: Inproc_Stop_def Let_def UNION_singleton_eq_range dooms_of_callback case_prod_unfold split: if_splits option.splits)
next
  case (CC_watch_start f cb o')
  then show ?thesis using assms(1) ok watch_gate.live_emplace [OF ok] by (auto simp: call_defs Let_def split: if_splits option.splits)
next
  case (CC_watch_stop h)
  then show ?thesis using assms(1) ok watch_gate.live_erase [OF ok] by (auto simp: call_defs split: option.splits)
qed (use assms(1) ok in \<open>auto simp: call_defs Let_def dooms_of_callback split: if_splits option.splits list.splits\<close>)

lemma locked_live_servers:
  assumes "locked c t = (st, t', actions)" and ok: "server_gate.live (it_servers t) (it_server_objects t) D"
  shows "server_gate.live (it_servers t') (it_server_objects t') (D \<union> (\<Union>a \<in> set actions. retired_server a))"
proof (cases c)
  case CC_stop
  then show ?thesis using assms(1) server_gate.live_clear [OF ok] ok
    by (auto simp: Inproc_Stop_def Let_def UNION_singleton_eq_range dooms_of_callback case_prod_unfold split: if_splits option.splits)
next
  case (CC_endpoint_destroy h)
  then show ?thesis using assms(1) ok server_gate.live_erase [OF ok]
    by (auto simp: call_defs Let_def dooms_of_callback um_erase_absent split: if_splits option.splits)
next
  case (CC_set_request_handler h cb)
  then show ?thesis using assms(1) ok server_gate.live_erase [OF ok] server_gate.live_set [OF ok]
    by (auto simp: call_defs Let_def dooms_of_callback um_erase_absent split: if_splits option.splits)
qed (use assms(1) ok in \<open>auto simp: call_defs Let_def dooms_of_callback split: if_splits option.splits list.splits\<close>)

text \<open>An action deactivates what it names, and nothing else.\<close>

definition objects_after :: "ComAction \<Rightarrow> InprocTransport \<Rightarrow> InprocTransport \<Rightarrow> bool" where
  "objects_after a t t' \<longleftrightarrow>
     it_subscriptions t' = it_subscriptions t \<and> it_watches t' = it_watches t \<and> it_servers t' = it_servers t \<and>
     it_subscription_objects t' = (case a of AC_withdraw r _ _ \<Rightarrow>
       (it_subscription_objects t)[r := (it_subscription_objects t ! r)\<lparr>su_active := False\<rparr>] | _ \<Rightarrow> it_subscription_objects t) \<and>
     it_watch_objects t' = (case a of AC_retire_watch r \<Rightarrow>
       (it_watch_objects t)[r := (it_watch_objects t ! r)\<lparr>wa_active := False\<rparr>] | _ \<Rightarrow> it_watch_objects t) \<and>
     it_server_objects t' = (case a of AC_retire_server r \<Rightarrow>
       (it_server_objects t)[r := (it_server_objects t ! r)\<lparr>sv_active := False\<rparr>] | _ \<Rightarrow> it_server_objects t)"

lemma do_action_objects:
  assumes "do_action outcome a w = (st, w')"
  shows "objects_after a (wo_transport w) (wo_transport w')"
proof (cases a)
  case (AC_dispatch task b)
  then have "w' = snd (Inproc_Dispatch outcome task w)" using assms by simp
  then show ?thesis using AC_dispatch by (simp add: objects_after_def)
next
  case (AC_withdraw q h reason)
  then show ?thesis using assms by (auto simp: objects_after_def withdraw_def Let_def split: option.splits)
qed (use assms in \<open>auto simp: objects_after_def Let_def\<close>)

lemma action_live:
  assumes "objects_after a t t'"
  shows "subscription_gate.live (it_subscriptions t) (it_subscription_objects t) D \<Longrightarrow> withdrawn_ref a \<subseteq> D \<Longrightarrow> D' \<subseteq> D \<Longrightarrow>
      subscription_gate.live (it_subscriptions t') (it_subscription_objects t') D'"
    "watch_gate.live (it_watches t) (it_watch_objects t) D \<Longrightarrow> retired_watch a \<subseteq> D \<Longrightarrow> D' \<subseteq> D \<Longrightarrow>
      watch_gate.live (it_watches t') (it_watch_objects t') D'"
    "server_gate.live (it_servers t) (it_server_objects t) D \<Longrightarrow> retired_server a \<subseteq> D \<Longrightarrow> D' \<subseteq> D \<Longrightarrow>
      server_gate.live (it_servers t') (it_server_objects t') D'"
  using assms
  by (cases a; auto simp: objects_after_def intro: subscription_gate.live_mono subscription_gate.live_mono [OF subscription_gate.live_retire]
        watch_gate.live_mono watch_gate.live_mono [OF watch_gate.live_retire]
        server_gate.live_mono server_gate.live_mono [OF server_gate.live_retire])+

lemma system_live_step:
  assumes "com_step s s'" and ok: "system_live s"
  shows "system_live s'"
  using assms(1)
proof cases
  case (call c st t' actions)
  then show ?thesis
    using ok locked_live_subscriptions [OF call(2)] locked_live_watches [OF call(2)] locked_live_servers [OF call(2)]
    by (simp add: system_live_def doomed_by_snoc)
next
  case (act i a as outcome st w')
  let ?as = "if st \<noteq> CS_OK \<and> ends_operation a then [] else as"
  have sub: "doomed_by f ((sy_threads s)[i := ?as]) \<subseteq> doomed_by f (sy_threads s)" for f
    by (rule doomed_by_update [OF act(3)]) simp
  have head: "f a \<subseteq> doomed_by f (sy_threads s)" for f
    by (rule doomed_by_head [OF act(2,3)])
  have a: "objects_after a (sy_transport s) (wo_transport w')" by (rule do_action_objects [OF act(5)])
  show ?thesis
    using ok action_live(1) [OF a _ head [of withdrawn_ref] sub] action_live(2) [OF a _ head [of retired_watch] sub]
      action_live(3) [OF a _ head [of retired_server] sub]
    by (simp add: act(1) system_live_def)
next
  case (run before task after)
  then show ?thesis using ok by (simp add: system_live_def)
qed

lemma reachable_live: "com_reachable s \<Longrightarrow> system_live s"
proof (induction rule: com_reachable_induct)
  case (created me mo t)
  then show ?case
    by (auto simp: Inproc_Create_def fresh_system_def system_live_def subscription_gate.live_empty watch_gate.live_empty server_gate.live_empty
        split: if_splits)
qed (rule system_live_step)

section \<open>What the callbacks receive\<close>

lemma run_actions_append:
  "run_actions host as w = (CS_OK, w') \<Longrightarrow> list_all (\<lambda>a. \<not> ends_operation a) as \<Longrightarrow> run_actions host (as @ bs) w = run_actions host bs w'"
  by (induction as arbitrary: w) (auto simp: case_prod_unfold split: if_splits)

lemma run_actions_dispatch:
  "run_actions accepting (map (\<lambda>x. AC_dispatch (g x) b) xs) w = (CS_OK, w\<lparr>wo_queue := wo_queue w @ map g xs\<rparr>)"
  by (induction xs arbitrary: w) (simp_all add: Inproc_Dispatch_def)

lemma fold_observe: "fold observe es w = w\<lparr>wo_events := wo_events w @ es\<rparr>"
  by (induction es arbitrary: w) (simp_all add: observe_def)

lemma fold_run_tasks:
  assumes "\<And>x w'. x \<in> set xs \<Longrightarrow> wo_transport w' = wo_transport w \<Longrightarrow> run_task (g x) w' = observe (e x) w'"
  shows "fold run_task (map g xs) w = w\<lparr>wo_events := wo_events w @ map e xs\<rparr>"
proof -
  have "fold run_task (map g xs) w' = fold observe (map e xs) w'" if "wo_transport w' = wo_transport w" for w'
    using that assms
  proof (induction xs arbitrary: w')
    case (Cons x xs)
    then show ?case by simp
  qed simp
  then show ?thesis by (simp add: fold_observe)
qed

lemma drain_of:
  assumes "wo_queue w = []" and "\<And>x w'. x \<in> set xs \<Longrightarrow> wo_transport w' = wo_transport w \<Longrightarrow> run_task (g x) w' = observe (e x) w'"
  shows "drain (w\<lparr>wo_queue := wo_queue w @ map g xs\<rparr>) = w\<lparr>wo_events := wo_events w @ map e xs\<rparr>"
proof -
  have "fold run_task (map g xs) w = w\<lparr>wo_events := wo_events w @ map e xs\<rparr>"
    using assms(2) by (rule fold_run_tasks)
  moreover have idle: "w\<lparr>wo_queue := []\<rparr> = w" using assms(1) by (cases w) simp
  ultimately show ?thesis using assms(1) by (simp add: drain_def idle)
qed

lemma sample_events:
  assumes "com_reachable s" and "r \<in> set (targets_of source (sy_transport s))"
    and "it_subscription_objects (wo_transport w) = it_subscription_objects (sy_transport s)"
  shows "run_task (TK_sample r payload n epoch) w =
    observe (EV_sample r (su_callback (it_subscription_objects (sy_transport s) ! r)) payload n epoch) w"
proof -
  have "r \<in> snd ` set (it_subscriptions (sy_transport s))" using assms(2) by (auto simp: targets_of_def)
  then have "su_active (it_subscription_objects (sy_transport s) ! r)"
    using reachable_live [OF assms(1)] subscription_gate.live_active unfolding system_live_def by blast
  then show ?thesis using assms(3) by simp
qed


text \<open>Publishing through a loan is publishing. Acquiring a loan, writing all of its bytes and publishing a prefix of them behaves as
  publishing that prefix directly, and the loan is gone.\<close>

theorem loan_publish_equivalent:
  assumes "LoanAcquire endpoint n True t = ((CS_OK, Some loan), t1, actions)" and "length bs = n" and "used \<le> n"
  shows "LoanPublish publisher loan used (LoanWrite loan bs t1) =
    Publish publisher (CV_data (take used bs)) (t\<lparr>it_next_handle := it_next_handle t + 1\<rparr>)"
proof -
  have t1: "t1 = t\<lparr>it_next_handle := it_next_handle t + 1, it_loans := um_emplace loan (replicate n 0) (it_loans t)\<rparr>"
    and loan: "um_find (it_loans t) loan = None"
    using assms(1) by (auto simp: LoanAcquire_def take_com_handle_def Let_def split: if_splits option.splits)
  have "um_erase loan (um_set loan bs (um_emplace loan x m)) = m" if "um_find m loan = None" for x :: bytes and m
    using that by (induction m) (auto simp: um_emplace_def um_erase_def um_find_def split: if_splits)
  then show ?thesis using assms(2,3) loan by (simp add: LoanPublish_def LoanWrite_def Publish_def t1)
qed

lemma fresh_operation:
  assumes "com_reachable s"
  shows "um_find (it_pending (sy_transport s)) (it_next_handle (sy_transport s)) = None"
proof (rule ccontr)
  assume "um_find (it_pending (sy_transport s)) (it_next_handle (sy_transport s)) \<noteq> None"
  then have "it_next_handle (sy_transport s) \<in># system_operations s"
    by (force simp: um_find_def system_operations_def dest: map_of_SomeD)
  then show False using reachable_operations [OF assms] by (auto simp: operations_ok_def)
qed

lemma respond_once:
  assumes "um_find (it_pending (wo_transport w)) operation = Some c" and "wo_queue w = []"
  shows "fst (perform_call accepting (CC_respond operation status (CV_data response)) w) = CS_OK"
    "wo_events (drain (snd (perform_call accepting (CC_respond operation status (CV_data response)) w))) =
      wo_events w @ [EV_completion c operation status response]"
    "um_find (it_pending (wo_transport (snd (perform_call accepting (CC_respond operation status (CV_data response)) w)))) operation = None"
  using assms by (simp_all add: perform_call_def Inproc_Respond_def Inproc_Complete_def Inproc_Dispatch_def drain_def)

lemma request_delivered:
  assumes "com_reachable s" and "wo_queue (sy_world s) = []"
    and request: "Inproc_Request client (CV_data payload) deadline (Some c) True now (sy_transport s) = ((CS_OK, Some operation), t, actions)"
  defines "w1 \<equiv> drain (snd (perform_call accepting (CC_request client (CV_data payload) deadline (Some c) True now) (sy_world s)))"
  shows "\<exists>endpoint r d source. (endpoint, r) \<in> set (it_servers (sy_transport s)) \<and>
      um_find (it_endpoints (sy_transport s)) client = Some source \<and> um_find (it_endpoints (sy_transport s)) endpoint = Some d \<and>
      SameElement source d \<and>
      wo_events w1 = wo_events (sy_world s) @
        [EV_request r (sv_callback (it_server_objects (sy_transport s) ! r)) operation payload deadline] \<and>
      um_find (it_pending (wo_transport w1)) operation = Some c \<and> wo_queue w1 = []"
proof -
  let ?t = "sy_transport s"
  let ?same = "\<lambda>source (endpoint, r :: Ref). case um_find (it_endpoints ?t) endpoint of None \<Rightarrow> False | Some d \<Rightarrow> SameElement source d"
  obtain source endpoint r where source: "um_find (it_endpoints ?t) client = Some source"
    and found: "List.find (?same source) (it_servers ?t) = Some (endpoint, r)"
    and t: "operation = it_next_handle ?t"
      "t = ?t\<lparr>it_next_handle := it_next_handle ?t + 1, it_pending := um_emplace operation c (it_pending ?t)\<rparr>"
    and actions: "actions = [AC_dispatch (TK_request r operation payload deadline) True]"
    using request by (auto simp: Inproc_Request_def take_com_handle_def Let_def split: if_splits option.splits prod.splits)
  have mem: "(endpoint, r) \<in> set (it_servers ?t)" and same: "?same source (endpoint, r)"
    using found by (auto simp: find_Some_iff nth_mem [of _ "it_servers ?t"] split: option.splits dest: nth_mem)
  obtain d where d: "um_find (it_endpoints ?t) endpoint = Some d" "SameElement source d" using same by (auto split: option.splits)
  have "r \<in> snd ` set (it_servers ?t)" using mem by force
  then have "sv_active (it_server_objects ?t ! r)"
    using reachable_live [OF assms(1)] server_gate.live_active unfolding system_live_def by blast
  then have e1: "wo_events w1 = wo_events (sy_world s) @ [EV_request r (sv_callback (it_server_objects ?t ! r)) operation payload deadline]"
    and p1: "wo_transport w1 = t" and q1: "wo_queue w1 = []"
    using assms(2) by (simp_all add: w1_def perform_call_def without_output_def request actions drain_def Inproc_Dispatch_def t(2))
  have "um_find (it_pending (wo_transport w1)) operation = Some c"
    using fresh_operation [OF assms(1)] by (simp add: p1 t)
  then show ?thesis using source mem d e1 q1 by blast
qed

text \<open>A request and its response arrive. In every reachable state with an idle executor, a request the transport takes is handed, once
  the executor runs, to a server of the same element with exactly the client's payload and deadline; the server's response to it then
  enters the client's completion callback with exactly the server's status and payload, and a second response, or a cancellation, finds no
  such operation.\<close>

theorem request_response_roundtrip:
  assumes "com_reachable s" and "wo_queue (sy_world s) = []"
    and request: "Inproc_Request client (CV_data payload) deadline (Some c) True now (sy_transport s) = ((CS_OK, Some operation), t, actions)"
    and w1: "w1 = drain (snd (perform_call accepting (CC_request client (CV_data payload) deadline (Some c) True now) (sy_world s)))"
    and w2: "w2 = drain (snd (perform_call accepting (CC_respond operation status (CV_data response)) w1))"
  shows "(\<exists>endpoint r d source. (endpoint, r) \<in> set (it_servers (sy_transport s)) \<and>
      um_find (it_endpoints (sy_transport s)) client = Some source \<and> um_find (it_endpoints (sy_transport s)) endpoint = Some d \<and>
      SameElement source d \<and>
      wo_events w1 = wo_events (sy_world s) @
        [EV_request r (sv_callback (it_server_objects (sy_transport s) ! r)) operation payload deadline]) \<and>
    wo_events w2 = wo_events w1 @ [EV_completion c operation status response] \<and>
    fst (perform_call accepting (CC_respond operation status' (CV_data response')) w2) = CS_NOT_FOUND \<and>
    fst (perform_call accepting (CC_cancel operation) w2) = CS_NOT_FOUND"
proof -
  let ?t = "sy_transport s"
  obtain endpoint r d source where "(endpoint, r) \<in> set (it_servers ?t)" "um_find (it_endpoints ?t) client = Some source"
    "um_find (it_endpoints ?t) endpoint = Some d" "SameElement source d"
    and e1: "wo_events w1 = wo_events (sy_world s) @ [EV_request r (sv_callback (it_server_objects ?t ! r)) operation payload deadline]"
    and pending: "um_find (it_pending (wo_transport w1)) operation = Some c" "wo_queue w1 = []"
    using request_delivered [OF assms(1,2) request] unfolding w1 by blast
  moreover note answered = respond_once [OF pending]
  have "um_find (it_pending (wo_transport w2)) operation = None" using answered(3) by (simp add: w2)
  then have "fst (perform_call accepting (CC_respond operation status' (CV_data response')) w2) = CS_NOT_FOUND"
    "fst (perform_call accepting (CC_cancel operation) w2) = CS_NOT_FOUND"
    by (simp_all add: perform_call_def Inproc_Cancel_def Inproc_Respond_def Inproc_Complete_def)
  moreover have "wo_events w2 = wo_events w1 @ [EV_completion c operation status response]" using answered(2) by (simp add: w2)
  ultimately show ?thesis by blast
qed

section \<open>Shutdown\<close>

text \<open>What a client hears of its subscription when it is withdrawn.\<close>

definition farewell :: "InprocTransport \<Rightarrow> ComHandle \<times> Ref \<Rightarrow> ComEvent list" where
  "farewell t e = (case su_state_callback (it_subscription_objects t ! snd e) of
     None \<Rightarrow> [] | Some c \<Rightarrow> [EV_state c (fst e) SS_WITHDRAWN CS_SHUTTING_DOWN])"

lemma withdraw_world:
  assumes "su_active (it_subscription_objects (wo_transport w) ! r)"
  shows "withdraw r h CS_SHUTTING_DOWN w = w\<lparr>wo_events := wo_events w @ farewell (wo_transport w) (h, r),
    wo_transport := (wo_transport w)\<lparr>it_subscription_objects :=
      (it_subscription_objects (wo_transport w))[r := (it_subscription_objects (wo_transport w) ! r)\<lparr>su_active := False\<rparr>]\<rparr>\<rparr>"
  using assms by (simp add: withdraw_def farewell_def observe_def Let_def split: option.split)

lemma withdraw_all:
  assumes "distinct (map snd l)" and "\<And>e. e \<in> set l \<Longrightarrow> su_active (it_subscription_objects (wo_transport w) ! snd e)"
  shows "\<exists>objects. run_actions host (map (\<lambda>(h, r). AC_withdraw r h CS_SHUTTING_DOWN) l) w =
    (CS_OK, w\<lparr>wo_events := wo_events w @ concat (map (farewell (wo_transport w)) l),
       wo_transport := (wo_transport w)\<lparr>it_subscription_objects := objects\<rparr>\<rparr>)"
  using assms
proof (induction l arbitrary: w)
  case Nil
  have "w\<lparr>wo_events := wo_events w, wo_transport := (wo_transport w)\<lparr>it_subscription_objects := it_subscription_objects (wo_transport w)\<rparr>\<rparr> = w"
    by simp
  then show ?case by (intro exI [of _ "it_subscription_objects (wo_transport w)"]) simp
next
  case (Cons e l)
  obtain h r where e: "e = (h, r)" by fastforce
  let ?w = "withdraw r h CS_SHUTTING_DOWN w"
  have w: "?w = w\<lparr>wo_events := wo_events w @ farewell (wo_transport w) (h, r),
    wo_transport := (wo_transport w)\<lparr>it_subscription_objects :=
      (it_subscription_objects (wo_transport w))[r := (it_subscription_objects (wo_transport w) ! r)\<lparr>su_active := False\<rparr>]\<rparr>\<rparr>"
    using Cons.prems(2) [of e] e by (intro withdraw_world) simp
  have ne: "snd x \<noteq> r" if "x \<in> set l" for x using that Cons.prems(1) e by (auto simp: image_iff)
  obtain objects where run: "run_actions host (map (\<lambda>(h, r). AC_withdraw r h CS_SHUTTING_DOWN) l) ?w =
    (CS_OK, ?w\<lparr>wo_events := wo_events ?w @ concat (map (farewell (wo_transport ?w)) l),
       wo_transport := (wo_transport ?w)\<lparr>it_subscription_objects := objects\<rparr>\<rparr>)"
    using Cons.IH [of ?w] Cons.prems ne e by (fastforce simp: w nth_list_update_neq [OF not_sym])
  have "map (farewell (wo_transport ?w)) l = map (farewell (wo_transport w)) l"
    using ne by (intro map_cong) (simp_all add: w farewell_def nth_list_update_neq [OF not_sym])
  note run' = run [unfolded this, unfolded w]
  show ?case by (intro exI [of _ objects]) (simp add: e w run')
qed

lemma retire_watches:
  "\<exists>objects. run_actions host (map (\<lambda>(h, r). AC_retire_watch r) l) w =
     (CS_OK, w\<lparr>wo_transport := (wo_transport w)\<lparr>it_watch_objects := objects\<rparr>\<rparr>)"
proof (induction l arbitrary: w)
  case Nil
  have "w\<lparr>wo_transport := (wo_transport w)\<lparr>it_watch_objects := it_watch_objects (wo_transport w)\<rparr>\<rparr> = w" by simp
  then show ?case by (metis list.simps(8) run_actions.simps(1))
next
  case (Cons e l)
  let ?o = "it_watch_objects (wo_transport w)"
  show ?case using Cons.IH [of "w\<lparr>wo_transport := (wo_transport w)\<lparr>it_watch_objects := ?o[snd e := (?o ! snd e)\<lparr>wa_active := False\<rparr>]\<rparr>\<rparr>"]
    by (simp add: Let_def case_prod_unfold)
qed

lemma retire_servers:
  "\<exists>objects. run_actions host (map (\<lambda>(h, r). AC_retire_server r) l) w =
     (CS_OK, w\<lparr>wo_transport := (wo_transport w)\<lparr>it_server_objects := objects\<rparr>\<rparr>)"
proof (induction l arbitrary: w)
  case Nil
  have "w\<lparr>wo_transport := (wo_transport w)\<lparr>it_server_objects := it_server_objects (wo_transport w)\<rparr>\<rparr> = w" by simp
  then show ?case by (metis list.simps(8) run_actions.simps(1))
next
  case (Cons e l)
  let ?o = "it_server_objects (wo_transport w)"
  show ?case using Cons.IH [of "w\<lparr>wo_transport := (wo_transport w)\<lparr>it_server_objects := ?o[snd e := (?o ! snd e)\<lparr>sv_active := False\<rparr>]\<rparr>\<rparr>"]
    by (simp add: Let_def case_prod_unfold)
qed

definition health_event :: "InprocTransport \<Rightarrow> ComEvent list" where
  "health_event t = (case it_health_callback t of None \<Rightarrow> [] | Some c \<Rightarrow> [EV_health c (health_now t)])"

lemma run_health: "run_actions host (of_callback (\<lambda>c. AC_health c (health_now t)) (it_health_callback t)) w =
    (CS_OK, w\<lparr>wo_events := wo_events w @ health_event t\<rparr>)"
  by (simp add: of_callback_def health_event_def observe_def split: option.split)

lemma fold_completions:
  "fold run_task (map (\<lambda>e. TK_completion (snd e) (fst e) CS_SHUTTING_DOWN []) l) w =
     w\<lparr>wo_events := wo_events w @ map (\<lambda>e. EV_completion (snd e) (fst e) CS_SHUTTING_DOWN []) l\<rparr>"
  by (rule fold_run_tasks) simp

definition stopped :: "InprocTransport \<Rightarrow> InprocTransport" where
  "stopped t = t\<lparr>it_running := False, it_pending := [], it_loans := [], it_subscriptions := [], it_watches := [], it_servers := [],
     it_endpoints := [], it_health := HS_STOPPED, it_health_sequence := it_health_sequence t + 1\<rparr>"

lemma stopped_simps:
  "\<not> it_running (stopped t)" "it_endpoints (stopped t) = []" "it_subscriptions (stopped t) = []" "it_watches (stopped t) = []"
  "it_servers (stopped t) = []" "it_loans (stopped t) = []" "it_pending (stopped t) = []"
  by (simp_all add: stopped_def)

lemma stop_goes_on:
  "list_all (\<lambda>a. \<not> ends_operation a) (map (\<lambda>(h, r). AC_withdraw r h reason) l)"
  "list_all (\<lambda>a. \<not> ends_operation a) (map (\<lambda>(h, r). AC_retire_watch r) l)"
  "list_all (\<lambda>a. \<not> ends_operation a) (map (\<lambda>(h, r). AC_retire_server r) l)"
  "list_all (\<lambda>a. \<not> ends_operation a) (map (\<lambda>(operation, c). AC_dispatch (TK_completion c operation CS_SHUTTING_DOWN []) False) m)"
  by (auto simp: list_all_iff)

text \<open>C13: a stop leaves nobody waiting. Stopping a running transport in any reachable state with an idle executor that accepts its tasks
  tells every subscriber with a state handler that its subscription is withdrawn, reports the stopped health, completes every
  outstanding request with \<open>SHUTTING_DOWN\<close> once the executor runs, enters no other callback, and leaves no endpoint, subscription,
  watch, server, loan or operation.\<close>

theorem stop_leaves_nobody_waiting:
  assumes "com_reachable s" and "wo_queue (sy_world s) = []" and "it_running (sy_transport s)"
    and "perform_call accepting CC_stop (sy_world s) = (st, w)"
  shows "st = CS_OK \<and>
    wo_events (drain w) = wo_events (sy_world s) @ concat (map (farewell (sy_transport s)) (it_subscriptions (sy_transport s))) @
      [EV_log ''inproc transport stopped''] @ health_event (stopped (sy_transport s)) @
      map (\<lambda>e. EV_completion (snd e) (fst e) CS_SHUTTING_DOWN []) (it_pending (sy_transport s)) \<and>
    \<not> it_running (wo_transport (drain w)) \<and> it_endpoints (wo_transport (drain w)) = [] \<and> it_subscriptions (wo_transport (drain w)) = [] \<and>
    it_watches (wo_transport (drain w)) = [] \<and> it_servers (wo_transport (drain w)) = [] \<and> it_loans (wo_transport (drain w)) = [] \<and>
    it_pending (wo_transport (drain w)) = []"
proof -
  let ?t = "sy_transport s" and ?host = "accepting"
  let ?w = "(sy_world s)\<lparr>wo_transport := stopped ?t\<rparr>"
  have same: "farewell (stopped ?t) = farewell ?t" by (simp add: fun_eq_iff farewell_def stopped_def)
  have objs: "it_subscription_objects (stopped ?t) = it_subscription_objects ?t" by (simp add: stopped_def)
  have live: "distinct (map snd (it_subscriptions ?t))" "\<And>e. e \<in> set (it_subscriptions ?t) \<Longrightarrow> su_active (it_subscription_objects ?t ! snd e)"
    using reachable_live [OF assms(1)] by (auto simp: system_live_def subscription_gate.live_def)
  obtain o1 where 1: "run_actions ?host (map (\<lambda>(h, r). AC_withdraw r h CS_SHUTTING_DOWN) (it_subscriptions ?t)) ?w =
      (CS_OK, ?w\<lparr>wo_events := wo_events ?w @ concat (map (farewell ?t) (it_subscriptions ?t)),
         wo_transport := (stopped ?t)\<lparr>it_subscription_objects := o1\<rparr>\<rparr>)" (is "_ = (_, ?w1)")
    using withdraw_all [of "it_subscriptions ?t" ?w ?host] live by (auto simp: same objs)
  obtain o2 where 2: "run_actions ?host (map (\<lambda>(h, r). AC_retire_watch r) (it_watches ?t)) ?w1 =
      (CS_OK, ?w1\<lparr>wo_transport := (wo_transport ?w1)\<lparr>it_watch_objects := o2\<rparr>\<rparr>)" (is "_ = (_, ?w2)")
    using retire_watches by blast
  obtain o3 where 3: "run_actions ?host (map (\<lambda>(h, r). AC_retire_server r) (it_servers ?t)) ?w2 =
      (CS_OK, ?w2\<lparr>wo_transport := (wo_transport ?w2)\<lparr>it_server_objects := o3\<rparr>\<rparr>)" (is "_ = (_, ?w3)")
    using retire_servers by blast
  let ?g = "\<lambda>e. TK_completion (snd e) (fst e) CS_SHUTTING_DOWN []"
  have 4: "run_actions ?host (map (\<lambda>(operation, c). AC_dispatch (TK_completion c operation CS_SHUTTING_DOWN []) False) (it_pending ?t)) ?w3 =
      (CS_OK, ?w3\<lparr>wo_queue := wo_queue ?w3 @ map ?g (it_pending ?t)\<rparr>)" (is "_ = (_, ?w4)")
    using run_actions_dispatch [of ?g False "it_pending ?t"] by (simp add: case_prod_unfold)
  let ?closing = "AC_log ''inproc transport stopped'' # of_callback (\<lambda>c. AC_health c (health_now (stopped ?t))) (it_health_callback (stopped ?t))"
  have "perform_call ?host CC_stop (sy_world s) =
      run_actions ?host (map (\<lambda>(h, r). AC_withdraw r h CS_SHUTTING_DOWN) (it_subscriptions ?t) @
        map (\<lambda>(h, r). AC_retire_watch r) (it_watches ?t) @ map (\<lambda>(h, r). AC_retire_server r) (it_servers ?t) @
        map (\<lambda>(operation, c). AC_dispatch (TK_completion c operation CS_SHUTTING_DOWN []) False) (it_pending ?t) @ ?closing) ?w"
    using assms(3) by (simp add: perform_call_def Inproc_Stop_def Let_def flip: stopped_def)
  also have "\<dots> = run_actions ?host ?closing ?w4"
    by (simp only: run_actions_append [OF 1 stop_goes_on(1)] run_actions_append [OF 2 stop_goes_on(2)]
      run_actions_append [OF 3 stop_goes_on(3)] run_actions_append [OF 4 stop_goes_on(4)])
  finally show ?thesis
    using assms(2,4) by (auto simp: run_health drain_def fold_completions observe_def stopped_simps)
qed

section \<open>Discovery\<close>

lemma watch_events:
  assumes "com_reachable s" and "r \<in> set (watchers service (sy_transport s))"
    and "it_watch_objects (wo_transport w) = it_watch_objects (sy_transport s)"
  shows "run_task (TK_discovery r entry) w = observe (EV_discovery r (wa_callback (it_watch_objects (sy_transport s) ! r)) entry) w"
proof -
  have "r \<in> snd ` set (it_watches (sy_transport s))" using assms(2) by (auto simp: watchers_def)
  then have "wa_active (it_watch_objects (sy_transport s) ! r)"
    using reachable_live [OF assms(1)] watch_gate.live_active unfolding system_live_def by blast
  then show ?thesis using assms(3) by simp
qed

text \<open>C14: discovery follows the providers. In every reachable state with an idle executor, creating an endpoint that provides a service tells
  every watch of that service, once, that it is available under the new endpoint's handle, and destroying a provider tells every watch of its
  service, once, that it is not; no other callback is entered.\<close>

theorem discovery_follows_providers:
  assumes "com_reachable s" and "wo_queue (sy_world s) = []"
  shows "(\<forall>d handle t actions. EndpointCreate (Some d) True (sy_transport s) = ((CS_OK, Some handle), t, actions) \<longrightarrow>
      wo_events (drain (snd (perform_call accepting (CC_endpoint_create (Some d) True) (sy_world s)))) = wo_events (sy_world s) @
        (if offers d then map (\<lambda>r. EV_discovery r (wa_callback (it_watch_objects (sy_transport s) ! r)) (discovery_entry d handle 1))
           (watchers (ed_service_id d) (sy_transport s)) else [])) \<and>
    (\<forall>handle d t actions. EndpointDestroy handle (sy_transport s) = (CS_OK, t, actions) \<longrightarrow>
      um_find (it_endpoints (sy_transport s)) handle = Some d \<longrightarrow> it_running (sy_transport s) \<longrightarrow>
      wo_events (drain (snd (perform_call accepting (CC_endpoint_destroy handle) (sy_world s)))) = wo_events (sy_world s) @
        (if offers d then map (\<lambda>r. EV_discovery r (wa_callback (it_watch_objects (sy_transport s) ! r)) (discovery_entry d handle 0))
           (watchers (ed_service_id d) (sy_transport s)) else []))"
proof (intro conjI allI impI)
  fix d handle t actions
  assume c: "EndpointCreate (Some d) True (sy_transport s) = ((CS_OK, Some handle), t, actions)"
  then have t: "it_watch_objects t = it_watch_objects (sy_transport s)" "watchers (ed_service_id d) t = watchers (ed_service_id d) (sy_transport s)"
    "actions = (if offers d then map (\<lambda>r. AC_dispatch (TK_discovery r (discovery_entry d handle 1)) False) (watchers (ed_service_id d) t) else [])"
    by (auto simp: EndpointCreate_def take_com_handle_def Let_def watchers_def split: if_splits)
  have "drain (((sy_world s)\<lparr>wo_transport := t\<rparr>)\<lparr>wo_queue := wo_queue ((sy_world s)\<lparr>wo_transport := t\<rparr>) @
        map (\<lambda>r. TK_discovery r (discovery_entry d handle 1)) (watchers (ed_service_id d) (sy_transport s))\<rparr>) =
      ((sy_world s)\<lparr>wo_transport := t\<rparr>)\<lparr>wo_events := wo_events ((sy_world s)\<lparr>wo_transport := t\<rparr>) @
        map (\<lambda>r. EV_discovery r (wa_callback (it_watch_objects (sy_transport s) ! r)) (discovery_entry d handle 1))
          (watchers (ed_service_id d) (sy_transport s))\<rparr>"
    by (rule drain_of) (use assms(2) t(1) watch_events [OF assms(1)] in simp_all)
  then show "wo_events (drain (snd (perform_call accepting (CC_endpoint_create (Some d) True) (sy_world s)))) = wo_events (sy_world s) @
      (if offers d then map (\<lambda>r. EV_discovery r (wa_callback (it_watch_objects (sy_transport s) ! r)) (discovery_entry d handle 1))
         (watchers (ed_service_id d) (sy_transport s)) else [])"
    using assms(2) by (simp add: perform_call_def without_output_def c t(2,3) run_actions_dispatch drain_def)
next
  fix handle d t actions
  assume c: "EndpointDestroy handle (sy_transport s) = (CS_OK, t, actions)"
    and d: "um_find (it_endpoints (sy_transport s)) handle = Some d" and "it_running (sy_transport s)"
  let ?ws = "if offers d then watchers (ed_service_id d) (sy_transport s) else []"
  let ?g = "\<lambda>r. TK_discovery r (discovery_entry d handle 0)"
  have t: "it_watch_objects t = it_watch_objects (sy_transport s)"
    "actions = of_callback AC_retire_server (um_find (it_servers (sy_transport s)) handle) @ map (\<lambda>r. AC_dispatch (?g r) False) ?ws"
    using c d \<open>it_running _\<close> by (auto simp: EndpointDestroy_def Let_def split: if_splits)
  obtain w where w: "run_actions accepting (of_callback AC_retire_server (um_find (it_servers (sy_transport s)) handle))
      ((sy_world s)\<lparr>wo_transport := t\<rparr>) = (CS_OK, w)" and "wo_queue w = []" "wo_events w = wo_events (sy_world s)"
      and objects: "it_watch_objects (wo_transport w) = it_watch_objects (sy_transport s)"
    using t(1) assms(2) by (cases "um_find (it_servers (sy_transport s)) handle") (simp_all add: of_callback_def Let_def)
  have "drain (w\<lparr>wo_queue := wo_queue w @ map ?g ?ws\<rparr>) = w\<lparr>wo_events := wo_events w @
        map (\<lambda>r. EV_discovery r (wa_callback (it_watch_objects (sy_transport s) ! r)) (discovery_entry d handle 0)) ?ws\<rparr>"
    by (rule drain_of) (use \<open>wo_queue w = []\<close> objects watch_events [OF assms(1)] in \<open>auto split: if_splits\<close>)
  moreover have "perform_call accepting (CC_endpoint_destroy handle) (sy_world s) = (CS_OK, w\<lparr>wo_queue := wo_queue w @ map ?g ?ws\<rparr>)"
  proof -
    have "list_all (\<lambda>a. \<not> ends_operation a) (of_callback AC_retire_server (um_find (it_servers (sy_transport s)) handle))"
      by (simp add: of_callback_def split: option.split)
    then have "run_actions accepting actions ((sy_world s)\<lparr>wo_transport := t\<rparr>) = (CS_OK, w\<lparr>wo_queue := wo_queue w @ map ?g ?ws\<rparr>)"
      unfolding t(2) by (simp only: run_actions_append [OF w] run_actions_dispatch)
    then show ?thesis by (simp add: perform_call_def c)
  qed
  ultimately show "wo_events (drain (snd (perform_call accepting (CC_endpoint_destroy handle) (sy_world s)))) = wo_events (sy_world s) @
      (if offers d then map (\<lambda>r. EV_discovery r (wa_callback (it_watch_objects (sy_transport s) ! r)) (discovery_entry d handle 0))
         (watchers (ed_service_id d) (sy_transport s)) else [])"
    using \<open>wo_events w = _\<close> by simp
qed

section \<open>Examples\<close>

definition com_demo_endpoint :: "EndpointKind \<Rightarrow> ElementOperation \<Rightarrow> EndpointDescriptor" where
  "com_demo_endpoint k p = \<lparr>ed_kind = k, ed_service_id = [1], ed_instance_id = [2], ed_element_id = [3], ed_route_epoch = 5, ed_max_payload_size = 8,
     ed_history_depth = 0, ed_required_features = cap_RELIABLE, ed_native_mapping = [], ed_operation = p\<rparr>"

definition com_demo_events :: "ScriptStep list" where
  "com_demo_events = [SC_call CC_start, SC_call (CC_endpoint_create (Some (com_demo_endpoint EK_EVENT_PUBLISHER EO_EVENT)) True),
     SC_call (CC_endpoint_create (Some (com_demo_endpoint EK_EVENT_SUBSCRIBER EO_EVENT)) True), SC_call (CC_subscribe 2 (Some 7) True)]"

definition com_demo_methods :: "ScriptStep list" where
  "com_demo_methods = [SC_call CC_start, SC_call (CC_endpoint_create (Some (com_demo_endpoint EK_METHOD_SERVER EO_METHOD)) True),
     SC_call (CC_set_request_handler 1 (Some 4)), SC_call (CC_endpoint_create (Some (com_demo_endpoint EK_METHOD_CLIENT EO_METHOD)) True)]"

definition com_demo :: "ScriptStep list \<Rightarrow> System" where
  "com_demo cs = play accepting cs (fresh_system (new_transport 4 4))"

lemma com_demo_reachable: "length cs < 1000 \<Longrightarrow> com_reachable (com_demo cs)"
  unfolding com_demo_def by (rule play_reachable) simp_all

lemma com_demo_append: "com_demo (cs @ ds) = play accepting ds (com_demo cs)"
  by (simp add: com_demo_def play_def)

lemma com_demo_runs: "length cs < 1000 \<Longrightarrow> length ds < 1000 \<Longrightarrow> com_runs (com_demo cs) (com_demo (cs @ ds))"
  unfolding com_demo_append
proof (rule play_runs)
  assume "length cs < 1000" "length ds < 1000"
  have "unat (it_next_handle (sy_transport (play accepting xs s))) \<le> unat (it_next_handle (sy_transport s)) + length xs" for xs s
  proof (induction xs arbitrary: s)
    case (Cons x xs)
    have "unat (it_next_handle (sy_transport s) + 1) \<le> unat (it_next_handle (sy_transport s)) + 1" by (simp add: unat_word_ariths)
    then show ?case using Cons [of "play_step accepting x s"] play_step_handle [of accepting x s] by (auto simp: play_def)
  qed (simp add: play_def)
  from this [of cs "fresh_system (new_transport 4 4)"]
  show "unat (it_next_handle (sy_transport (com_demo cs))) + length ds < 2 ^ 64"
    using \<open>length cs < 1000\<close> \<open>length ds < 1000\<close> by (simp add: com_demo_def fresh_system_def new_transport_def Inproc_Create_def)
qed simp

text \<open>A sample is queued when the subscription is withdrawn.\<close>

lemma com_demo_unsubscribe:
  "com_demo (com_demo_events @ [SC_call (CC_publish 1 (CV_data [42])), SC_begin (CC_unsubscribe 3)]) =
     (let s = com_demo (com_demo_events @ [SC_call (CC_publish 1 (CV_data [42]))]) in
      \<lparr>sy_world = (sy_world s)\<lparr>wo_transport := fst (snd (Inproc_Unsubscribe 3 (sy_transport s)))\<rparr>,
       sy_threads = sy_threads s @ [snd (snd (Inproc_Unsubscribe 3 (sy_transport s)))]\<rparr>)"
  by (simp add: com_demo_def play_def begin_call_def Let_def case_prod_unfold)

lemma com_demo_unsubscribe_facts:
  "um_find (it_subscriptions (sy_transport (com_demo (com_demo_events @ [SC_call (CC_publish 1 (CV_data [42]))])))) 3 = Some 0"
  "length (sy_threads (com_demo (com_demo_events @ [SC_call (CC_publish 1 (CV_data [42]))]))) = 5"
  by code_simp+

theorem unsubscribe_quiescent_witness:
  "let s = com_demo (com_demo_events @ [SC_call (CC_publish 1 (CV_data [42])), SC_begin (CC_unsubscribe 3), SC_act 5]);
       s' = com_demo (com_demo_events @ [SC_call (CC_publish 1 (CV_data [42])), SC_begin (CC_unsubscribe 3), SC_act 5, SC_drain]) in
   wo_queue (sy_world s) = [TK_sample 0 [42] 1 5] \<and> wo_queue (sy_world s') = [] \<and>
   extends (\<lambda>e. \<not> sample_of 0 e) (wo_events (sy_world s)) (wo_events (sy_world s'))"
proof -
  let ?a = "com_demo_events @ [SC_call (CC_publish 1 (CV_data [42]))]"
  let ?b = "com_demo_events @ [SC_call (CC_publish 1 (CV_data [42])), SC_begin (CC_unsubscribe 3)]"
  let ?c = "com_demo_events @ [SC_call (CC_publish 1 (CV_data [42])), SC_begin (CC_unsubscribe 3), SC_act 5]"
  let ?d = "com_demo_events @ [SC_call (CC_publish 1 (CV_data [42])), SC_begin (CC_unsubscribe 3), SC_act 5, SC_drain]"
  have small: "length com_demo_events < 900" by (simp add: com_demo_events_def)
  have "extends (\<lambda>e. \<not> sample_of 0 e) (wo_events (sy_world (com_demo ?c))) (wo_events (sy_world (com_demo ?d)))"
  proof (rule unsubscribe_quiescent [of "com_demo ?a" 3 0 "com_demo ?b"])
    show "com_reachable (com_demo ?a)" using small by (intro com_demo_reachable) simp
    show "com_demo ?b = \<lparr>sy_world = (sy_world (com_demo ?a))\<lparr>wo_transport := fst (snd (Inproc_Unsubscribe 3 (sy_transport (com_demo ?a))))\<rparr>,
      sy_threads = sy_threads (com_demo ?a) @ [snd (snd (Inproc_Unsubscribe 3 (sy_transport (com_demo ?a))))]\<rparr>"
      using com_demo_unsubscribe by (simp only: Let_def)
    show "com_runs (com_demo ?b) (com_demo ?c)" using com_demo_runs [of ?b "[SC_act 5]"] small by simp
    show "com_runs (com_demo ?c) (com_demo ?d)" using com_demo_runs [of ?c "[SC_drain]"] small by simp
    show "sy_threads (com_demo ?c) ! length (sy_threads (com_demo ?a)) = []" unfolding com_demo_unsubscribe_facts(2) by code_simp
  qed (rule com_demo_unsubscribe_facts(1))
  moreover have "wo_queue (sy_world (com_demo ?c)) = [TK_sample 0 [42] 1 5]" by code_simp
  moreover have "wo_queue (sy_world (com_demo ?d)) = []" by code_simp
  ultimately show ?thesis by (simp only: Let_def simp_thms)
qed

definition com_demo_call :: "ScriptStep list" where
  "com_demo_call = com_demo_methods @ [SC_call (CC_request 2 (CV_data [9]) 100 (Some 6) True 0), SC_drain, SC_call (CC_respond 3 CS_OK (CV_data [10])), SC_drain]"

theorem completed_at_most_once_witness:
  "wo_events (sy_world (com_demo com_demo_call)) =
     [EV_log ''inproc transport started'', EV_request 0 4 3 [9] 100, EV_completion 6 3 CS_OK [10]] \<and>
   count (gathered event_operations (wo_events (sy_world (com_demo com_demo_call)))) 3 \<le> 1 \<and>
   3 < it_next_handle (sy_transport (com_demo com_demo_call)) \<and> um_find (it_pending (sy_transport (com_demo com_demo_call))) 3 = None"
proof -
  have "com_reachable (com_demo com_demo_call)" by (rule com_demo_reachable) (simp add: com_demo_call_def com_demo_methods_def)
  from completed_at_most_once [OF this, of 3]
  have "count (gathered event_operations (wo_events (sy_world (com_demo com_demo_call)))) 3 \<le> 1"
    and only: "\<And>c status payload. EV_completion c 3 status payload \<in> set (wo_events (sy_world (com_demo com_demo_call))) \<Longrightarrow>
      3 < it_next_handle (sy_transport (com_demo com_demo_call)) \<and> um_find (it_pending (sy_transport (com_demo com_demo_call))) 3 = None"
    by blast+
  moreover have events: "wo_events (sy_world (com_demo com_demo_call)) =
     [EV_log ''inproc transport started'', EV_request 0 4 3 [9] 100, EV_completion 6 3 CS_OK [10]]" by code_simp
  ultimately show ?thesis using only [of 6 CS_OK "[10]"] by (simp only: events list.set insert_iff simp_thms)
qed

definition com_demo_sample :: "ScriptStep list" where
  "com_demo_sample = com_demo_events @ [SC_call (CC_publish 1 (CV_data [42])), SC_drain]"

theorem inproc_within_limits_witness:
  "length (it_endpoints (sy_transport (com_demo com_demo_sample))) = 2 \<and>
   length (it_endpoints (sy_transport (com_demo com_demo_sample))) \<le> unat (it_max_endpoints (sy_transport (com_demo com_demo_sample))) \<and>
   length (it_pending (sy_transport (com_demo com_demo_sample))) \<le> unat (it_max_operations (sy_transport (com_demo com_demo_sample))) \<and>
   EV_sample 0 7 [42] 1 5 \<in> set (wo_events (sy_world (com_demo com_demo_sample))) \<and> length [42 :: u8] \<le> 16 * 1024 * 1024"
proof -
  have "com_reachable (com_demo com_demo_sample)" by (rule com_demo_reachable) (simp add: com_demo_sample_def com_demo_events_def)
  moreover have "length (it_endpoints (sy_transport (com_demo com_demo_sample))) = 2" by code_simp
  moreover have "wo_events (sy_world (com_demo com_demo_sample)) = [EV_log ''inproc transport started'', EV_sample 0 7 [42] 1 5]" by code_simp
  ultimately show ?thesis using inproc_within_limits [of "com_demo com_demo_sample"] by fastforce
qed


theorem loan_publish_equivalent_witness:
  "let t = sy_transport (com_demo com_demo_events) in
   LoanPublish 1 4 2 (LoanWrite 4 [1, 2, 3] (fst (snd (LoanAcquire 1 3 True t)))) =
     Publish 1 (CV_data [1, 2]) (t\<lparr>it_next_handle := it_next_handle t + 1\<rparr>)"
proof -
  let ?t = "sy_transport (com_demo com_demo_events)"
  have "LoanAcquire 1 3 True ?t = ((CS_OK, Some 4), fst (snd (LoanAcquire 1 3 True ?t)), snd (snd (LoanAcquire 1 3 True ?t)))"
    by code_simp
  from loan_publish_equivalent [OF this, of "[1, 2, 3]" 2 1] show ?thesis by (simp add: Let_def)
qed

theorem request_response_roundtrip_witness:
  "let s = com_demo com_demo_methods; w1 = drain (snd (perform_call accepting (CC_request 2 (CV_data [9]) 100 (Some 6) True 0) (sy_world s)));
       w2 = drain (snd (perform_call accepting (CC_respond 3 CS_OK (CV_data [10])) w1)) in
   wo_events w2 = wo_events w1 @ [EV_completion 6 3 CS_OK [10]] \<and> fst (perform_call accepting (CC_cancel 3) w2) = CS_NOT_FOUND"
proof -
  let ?t = "sy_transport (com_demo com_demo_methods)"
  have "com_reachable (com_demo com_demo_methods)" by (rule com_demo_reachable) (simp add: com_demo_methods_def)
  moreover have "wo_queue (sy_world (com_demo com_demo_methods)) = []" by code_simp
  moreover have "Inproc_Request 2 (CV_data [9]) 100 (Some 6) True 0 ?t = ((CS_OK, Some 3),
      fst (snd (Inproc_Request 2 (CV_data [9]) 100 (Some 6) True 0 ?t)), snd (snd (Inproc_Request 2 (CV_data [9]) 100 (Some 6) True 0 ?t)))"
    by code_simp
  ultimately show ?thesis using request_response_roundtrip [OF _ _ _ refl refl] unfolding Let_def by blast
qed

theorem stop_leaves_nobody_waiting_witness:
  "let s = com_demo (com_demo_methods @ [SC_call (CC_request 2 (CV_data [9]) 100 (Some 6) True 0), SC_drain]);
       w = snd (perform_call accepting CC_stop (sy_world s)) in
   wo_events (drain w) = wo_events (sy_world s) @ [EV_log ''inproc transport stopped'', EV_completion 6 3 CS_SHUTTING_DOWN []] \<and>
   it_pending (wo_transport (drain w)) = []"
proof -
  let ?s = "com_demo (com_demo_methods @ [SC_call (CC_request 2 (CV_data [9]) 100 (Some 6) True 0), SC_drain])"
  obtain st w where w: "perform_call accepting CC_stop (sy_world ?s) = (st, w)" by fastforce
  have facts: "wo_queue (sy_world ?s) = []" "it_running (sy_transport ?s)" "it_subscriptions (sy_transport ?s) = []"
    "it_pending (sy_transport ?s) = [(3, 6)]" "health_event (stopped (sy_transport ?s)) = []"
    by code_simp+
  have "com_reachable ?s" by (rule com_demo_reachable) (simp add: com_demo_methods_def)
  from stop_leaves_nobody_waiting [OF this facts(1,2) w] show ?thesis using w facts by (simp add: Let_def)
qed

theorem discovery_follows_providers_witness:
  "let s = com_demo [SC_call CC_start, SC_call (CC_watch_start (Some [1]) (Some 8) True)]; d = com_demo_endpoint EK_METHOD_SERVER EO_METHOD in
   wo_events (drain (snd (perform_call accepting (CC_endpoint_create (Some d) True) (sy_world s)))) =
     wo_events (sy_world s) @ [EV_discovery 0 8 (discovery_entry d 2 1)]"
proof -
  let ?s = "com_demo [SC_call CC_start, SC_call (CC_watch_start (Some [1]) (Some 8) True)]" and ?d = "com_demo_endpoint EK_METHOD_SERVER EO_METHOD"
  have facts: "wo_queue (sy_world ?s) = []" "offers ?d" "watchers (ed_service_id ?d) (sy_transport ?s) = [0]"
    "wa_callback (it_watch_objects (sy_transport ?s) ! 0) = 8"
    "EndpointCreate (Some ?d) True (sy_transport ?s) = ((CS_OK, Some 2), snd (EndpointCreate (Some ?d) True (sy_transport ?s)))"
    by code_simp+
  have "com_reachable ?s" by (rule com_demo_reachable) simp
  moreover obtain t actions where "EndpointCreate (Some ?d) True (sy_transport ?s) = ((CS_OK, Some 2), t, actions)"
    using facts(5) by (metis surjective_pairing)
  ultimately show ?thesis
    using discovery_follows_providers [OF _ facts(1), THEN conjunct1, rule_format, of ?d 2 t actions] facts by (simp add: Let_def)
qed

section \<open>Where the transport falls short\<close>

text \<open>A request the host refuses is reported as failed and stays outstanding.\<close>

lemma refused_request_stays_pending:
  assumes "Inproc_Request client payload deadline (Some c) True now (wo_transport w) = ((CS_OK, Some operation), t, actions)"
    and "um_find (it_pending (wo_transport w)) operation = None" and "st \<noteq> CS_OK"
  shows "fst (perform_call (\<lambda>_. DI_refused st) (CC_request client payload deadline (Some c) True now) w) = st \<and>
    um_find (it_pending (wo_transport (snd (perform_call (\<lambda>_. DI_refused st) (CC_request client payload deadline (Some c) True now) w)))) operation = Some c"
proof -
  have "actions \<noteq> [] \<and> (\<exists>task. actions = [AC_dispatch task True]) \<and> um_find (it_pending t) operation = Some c"
    using assms(1,2) by (auto simp: Inproc_Request_def take_com_handle_def Let_def split: if_splits option.splits prod.splits)
  then show ?thesis
    using assms(1,3) by (auto simp: perform_call_def without_output_def Inproc_Dispatch_def observe_def split: option.split)
qed

text \<open>A completion the host refuses is lost: the operation is forgotten and its callback never entered.\<close>

lemma refused_completion_is_lost:
  assumes "um_find (it_pending (wo_transport w)) operation = Some c" and "st \<noteq> CS_OK" and "w' = snd (perform_call (\<lambda>_. DI_refused st) (CC_respond operation CS_OK (CV_data response)) w)"
  shows "um_find (it_pending (wo_transport w')) operation = None \<and> wo_queue w' = wo_queue w"
  using assms by (auto simp: perform_call_def Inproc_Respond_def Inproc_Complete_def Inproc_Dispatch_def observe_def split: option.splits)

text \<open>The state callback of a subscription can be entered after \<open>Inproc_Unsubscribe\<close> has returned, with \<open>ACTIVE\<close>.\<close>

lemma state_callback_after_unsubscribe:
  "com_reachable (com_demo (com_demo_events @ [SC_begin (CC_set_state_handler 3 (Some 9)), SC_call (CC_unsubscribe 3), SC_act 4]))"
  "wo_events (sy_world (com_demo (com_demo_events @ [SC_begin (CC_set_state_handler 3 (Some 9)), SC_call (CC_unsubscribe 3), SC_act 4]))) =
     [EV_log ''inproc transport started'', EV_state 9 3 SS_WITHDRAWN CS_OK, EV_state 9 3 SS_ACTIVE CS_OK]"
  by (rule com_demo_reachable, simp add: com_demo_events_def) code_simp

text \<open>Two threads that publish on one endpoint can deliver their samples against the order of their sequence numbers.\<close>

lemma samples_out_of_order:
  "com_reachable (com_demo (com_demo_events @ [SC_begin (CC_publish 1 (CV_data [1])), SC_call (CC_publish 1 (CV_data [2])), SC_act 4, SC_drain]))"
  "wo_events (sy_world (com_demo (com_demo_events @ [SC_begin (CC_publish 1 (CV_data [1])), SC_call (CC_publish 1 (CV_data [2])), SC_act 4, SC_drain]))) =
     [EV_log ''inproc transport started'', EV_sample 0 7 [2] 2 5, EV_sample 0 7 [1] 1 5]"
  by (rule com_demo_reachable, simp add: com_demo_events_def) code_simp

text \<open>Features the transport advertises are refused when an endpoint requires them.\<close>

lemma advertised_feature_refused:
  "cap_SUBSCRIPTION_STATE AND advertised_features \<noteq> 0 \<and>
   fst (EndpointCreate (Some ((com_demo_endpoint EK_EVENT_SUBSCRIBER EO_EVENT)\<lparr>ed_required_features := cap_SUBSCRIPTION_STATE\<rparr>)) True
     (sy_transport (com_demo [SC_call CC_start]))) = (CS_UNSUPPORTED, None)"
  by code_simp

text \<open>There may be more subscriptions than the capabilities say.\<close>

lemma more_subscriptions_than_advertised:
  "let s = com_demo (com_demo_events @ replicate 4 (SC_call (CC_subscribe 2 (Some 7) True))) in
   com_reachable s \<and> map_option (unat \<circ> cc_max_subscriptions) (snd (Inproc_Capabilities True (sy_transport s))) = Some 4 \<and>
   length (it_subscriptions (sy_transport s)) = 5"
proof -
  let ?s = "com_demo (com_demo_events @ replicate 4 (SC_call (CC_subscribe 2 (Some 7) True)))"
  have "com_reachable ?s" by (rule com_demo_reachable) (simp add: com_demo_events_def)
  moreover have "map_option (unat \<circ> cc_max_subscriptions) (snd (Inproc_Capabilities True (sy_transport ?s))) = Some 4" by code_simp
  moreover have "length (it_subscriptions (sy_transport ?s)) = 5" by code_simp
  ultimately show ?thesis by (simp only: Let_def simp_thms)
qed

text \<open>A request queued when its server goes away is never answered: the executor is idle, nothing was delivered and the operation is
  still outstanding.\<close>

lemma request_of_withdrawn_server_hangs:
  "let s = com_demo (com_demo_methods @ [SC_call (CC_request 2 (CV_data [9]) 100 (Some 6) True 0), SC_call (CC_endpoint_destroy 1), SC_drain]) in
   com_reachable s \<and> wo_queue (sy_world s) = [] \<and> wo_events (sy_world s) = [EV_log ''inproc transport started''] \<and>
   it_pending (sy_transport s) = [(3, 6)]"
proof -
  let ?s = "com_demo (com_demo_methods @ [SC_call (CC_request 2 (CV_data [9]) 100 (Some 6) True 0), SC_call (CC_endpoint_destroy 1), SC_drain])"
  have "com_reachable ?s" by (rule com_demo_reachable) (simp add: com_demo_methods_def)
  moreover have "wo_queue (sy_world ?s) = []" by code_simp
  moreover have "wo_events (sy_world ?s) = [EV_log ''inproc transport started'']" by code_simp
  moreover have "it_pending (sy_transport ?s) = [(3, 6)]" by code_simp
  ultimately show ?thesis by (simp only: Let_def simp_thms)
qed

text \<open>A loan is used up by a publication that fails.\<close>

lemma failed_loan_publish_consumes:
  assumes "um_find (it_loans t) loan = Some bs" and "used \<le> length bs" and "um_find (it_endpoints t) endpoint = None"
  shows "fst (LoanPublish endpoint loan used t) \<noteq> CS_OK \<and> um_find (it_loans (fst (snd (LoanPublish endpoint loan used t)))) loan = None"
  using assms by (simp add: LoanPublish_def Deliver_def)

text \<open>Withdrawing a handler is no boundary for a handler it replaced: a request queued for the first handler still enters it.\<close>

lemma replaced_handler_survives:
  "let cs = com_demo_methods @ [SC_call (CC_request 2 (CV_data [9]) 100 (Some 6) True 0), SC_call (CC_set_request_handler 1 (Some 5)),
     SC_call (CC_set_request_handler 1 None), SC_drain] in
   com_reachable (com_demo cs) \<and> wo_events (sy_world (com_demo cs)) = [EV_log ''inproc transport started'', EV_request 0 4 3 [9] 100]"
proof -
  let ?cs = "com_demo_methods @ [SC_call (CC_request 2 (CV_data [9]) 100 (Some 6) True 0), SC_call (CC_set_request_handler 1 (Some 5)),
     SC_call (CC_set_request_handler 1 None), SC_drain]"
  have "com_reachable (com_demo ?cs)" by (rule com_demo_reachable) (simp add: com_demo_methods_def)
  moreover have "wo_events (sy_world (com_demo ?cs)) = [EV_log ''inproc transport started'', EV_request 0 4 3 [9] 100]" by code_simp
  ultimately show ?thesis by (simp only: Let_def simp_thms)
qed

end
