(* ===== verification/Com_Binding_Calls.thy ===== *)
theory Com_Binding_Calls
  imports Com_Binding Com_Inproc_Delivery
begin

text \<open>
  Properties of the bindings: what a closed subscription guarantees under every interleaving, a remote call over the in-process transport from
  the client's \<open>invoke\<close> to its result, the endpoints of a server binding over any provider, and the selection of routes. The sections before the
  last evaluate behaviour that is not meant, the last one the examples.
\<close>

section \<open>A closed subscription is quiet\<close>

fun in_dispatch :: "SubThread \<Rightarrow> bool" where
  "in_dispatch (ST_dispatching _) = True"
| "in_dispatch (ST_in_callback _) = True"
| "in_dispatch ST_finishing = True"
| "in_dispatch _ = False"

fun past_wait :: "SubThread \<Rightarrow> bool" where
  "past_wait (ST_withdrawing _ _ _) = True"
| "past_wait _ = False"

fun waiting :: "SubThread \<Rightarrow> bool" where
  "waiting (ST_waiting _ _ _) = True"
| "waiting _ = False"

fun callback_event :: "SubEvent \<Rightarrow> bool" where
  "callback_event (SE_entered _ _) = True"
| "callback_event (SE_left _ _) = True"
| "callback_event _ = False"

fun close_event :: "SubEvent \<Rightarrow> bool" where
  "close_event (SE_closed _) = True"
| "close_event _ = False"

primrec quiet :: "SubEvent list \<Rightarrow> bool" where
  "quiet [] = True"
| "quiet (e # es) = ((close_event e \<longrightarrow> list_all (\<lambda>e. \<not> callback_event e) es) \<and> quiet es)"

lemma quiet_append:
  "quiet (es @ fs) \<longleftrightarrow> quiet es \<and> quiet fs \<and> (list_ex close_event es \<longrightarrow> list_all (\<lambda>e. \<not> callback_event e) fs)"
  by (induction es) auto

lemma quiet_after: "quiet (before @ SE_closed i # after) \<Longrightarrow> list_all (\<lambda>e. \<not> callback_event e) after"
  by (simp add: quiet_append)

definition dispatches :: "SubThread list \<Rightarrow> nat" where
  "dispatches ts = length (filter in_dispatch ts)"

lemma dispatches_snoc [simp]: "dispatches (ts @ [ST_idle]) = dispatches ts"
  by (simp add: dispatches_def)

lemma dispatches_update:
  "i < length ts \<Longrightarrow> dispatches (ts[i := t]) + of_bool (in_dispatch (ts ! i)) = dispatches ts + of_bool (in_dispatch t)"
proof (induction ts arbitrary: i)
  case (Cons u ts)
  then show ?case using Cons.IH [of "i - 1"] by (cases i) (auto simp: dispatches_def)
qed simp

lemma dispatches_pos: "i < length ts \<Longrightarrow> in_dispatch (ts ! i) \<Longrightarrow> 0 < dispatches ts"
  by (auto simp: dispatches_def filter_empty_conv dest: nth_mem)

definition subsystem_ok :: "SubSystem \<Rightarrow> bool" where
  "subsystem_ok s \<longleftrightarrow>
     ps_in_flight (ss_subscription s) = dispatches (ss_threads s) \<and>
     (list_ex waiting (ss_threads s) \<or> list_ex past_wait (ss_threads s) \<or> list_ex close_event (ss_events s) \<longrightarrow> ps_closed (ss_subscription s)) \<and>
     (list_ex past_wait (ss_threads s) \<or> list_ex close_event (ss_events s) \<longrightarrow> ps_in_flight (ss_subscription s) = 0) \<and>
     quiet (ss_events s)"

lemma list_ex_update: "list_ex P (xs[i := x]) \<Longrightarrow> \<not> P x \<Longrightarrow> list_ex P xs"
  by (induction xs arbitrary: i) (auto split: nat.splits)

lemma list_ex_at: "i < length xs \<Longrightarrow> P (xs ! i) \<Longrightarrow> list_ex P xs"
  by (auto simp: list_ex_iff)

lemma to_thread_ok:
  assumes "subsystem_ok s" and "doing i t s"
    and "ps_in_flight p + of_bool (in_dispatch t) = ps_in_flight (ss_subscription s) + of_bool (in_dispatch t')"
    and "ps_closed p \<longleftrightarrow> ps_closed (ss_subscription s) \<or> waiting t'"
    and "in_dispatch t' \<longrightarrow> in_dispatch t \<or> \<not> ps_closed (ss_subscription s)"
    and "past_wait t' \<longrightarrow> waiting t \<and> ps_in_flight (ss_subscription s) = 0"
    and "list_ex close_event es \<longrightarrow> past_wait t" and "list_ex callback_event es \<longrightarrow> in_dispatch t" and "quiet es"
  shows "subsystem_ok (to_thread i t' p es s)"
proof -
  let ?p = "ss_subscription s" and ?ts = "ss_threads s"
  have i: "i < length ?ts" "?ts ! i = t" using assms(2) by auto
  have ok: "ps_in_flight ?p = dispatches ?ts" "quiet (ss_events s)"
    "list_ex waiting ?ts \<or> list_ex past_wait ?ts \<or> list_ex close_event (ss_events s) \<longrightarrow> ps_closed ?p"
    "list_ex past_wait ?ts \<or> list_ex close_event (ss_events s) \<longrightarrow> ps_in_flight ?p = 0"
    using assms(1) unfolding subsystem_ok_def by blast+
  have here: "waiting t \<longrightarrow> list_ex waiting ?ts" "past_wait t \<longrightarrow> list_ex past_wait ?ts" using i by (auto intro: list_ex_at)
  have flight: "ps_in_flight p = dispatches (?ts[i := t'])"
    using dispatches_update [OF i(1), of t'] assms(3) ok(1) i(2) by simp
  have busy: "in_dispatch t \<longrightarrow> 0 < ps_in_flight ?p" using dispatches_pos i ok(1) by auto
  have old: "list_ex past_wait (?ts[i := t']) \<longrightarrow> list_ex past_wait ?ts \<or> past_wait t'"
    "list_ex waiting (?ts[i := t']) \<longrightarrow> list_ex waiting ?ts \<or> waiting t'" using list_ex_update by metis+
  have passed: "ps_closed ?p \<and> ps_in_flight ?p = 0"
    if "list_ex past_wait (?ts[i := t']) \<or> list_ex close_event (ss_events s @ es)" using that old here ok assms(6,7) by auto
  have zero: "ps_in_flight p = 0" if "ps_closed ?p \<and> ps_in_flight ?p = 0" using that assms(3,5) busy by (cases "in_dispatch t'") auto
  have "quiet (ss_events s @ es)" using ok(2,4) assms(8,9) busy by (auto simp: quiet_append list_ex_iff list_all_iff)
  moreover have "ps_closed p" if "list_ex waiting (?ts[i := t'])" using that old ok(3) assms(4) by auto
  moreover have "ps_closed p \<and> ps_in_flight p = 0" if "list_ex past_wait (?ts[i := t']) \<or> list_ex close_event (ss_events s @ es)"
    using passed [OF that] zero assms(4) by auto
  ultimately show ?thesis using flight by (auto simp: subsystem_ok_def to_thread_def)
qed

lemmas subscription_sections = SetCallback_def SetStateCallback_def OnSample_begin_def OnState_begin_def finish_dispatch_def close_begin_def begun_def Let_def

lemma sub_step_ok: "sub_step s s' \<Longrightarrow> subsystem_ok s \<Longrightarrow> subsystem_ok s'"
proof (induction rule: sub_step.induct)
  case (spawn s)
  then show ?case by (auto simp: subsystem_ok_def)
next
  case (finish i s)
  then have "0 < ps_in_flight (ss_subscription s)" using dispatches_pos by (fastforce simp: subsystem_ok_def)
  with finish show ?case by (intro to_thread_ok) (auto simp: subscription_sections)
qed ((rule to_thread_ok, assumption, assumption); auto simp: subscription_sections split: if_splits option.splits)+

lemma sub_reachable_ok: "sub_reachable s \<Longrightarrow> subsystem_ok s"
proof -
  assume "sub_reachable s"
  then obtain p where p: "ps_in_flight p = 0" "\<not> ps_closed p" and "sub_step\<^sup>*\<^sup>* (fresh_subsystem p) s" by (auto simp: sub_reachable_def)
  from this(3) show ?thesis
  proof (induction rule: rtranclp_induct)
    case base
    show ?case using p by (simp add: fresh_subsystem_def subsystem_ok_def dispatches_def)
  qed (rule sub_step_ok)
qed

section \<open>The in-process transport behind a binding\<close>

text \<open>The function table of the in-process transport, with the answers of the host's executor to the tasks. \<open>now\<close> is the host's clock.\<close>

definition handed :: "ComHandle option \<Rightarrow> ComHandle" where
  "handed h = (case h of None \<Rightarrow> 0 | Some h \<Rightarrow> h)"

definition returning :: "((ComStatus \<times> ComHandle option) \<times> 'x) \<Rightarrow> ComStatus \<times> World \<Rightarrow> ComStatus \<times> ComHandle \<times> World" where
  "returning r issued = (fst issued, handed (snd (fst r)), snd issued)"

definition inproc_table :: "(Task \<Rightarrow> DispatchOutcome) \<Rightarrow> u64 \<Rightarrow> World TransportTable" where
  "inproc_table host now = \<lparr>
     tt_capabilities = (\<lambda>w. case Inproc_Capabilities True (wo_transport w) of (st, c) \<Rightarrow> (st, case c of None \<Rightarrow> 0 | Some c \<Rightarrow> cc_feature_bits c)),
     tt_request_loan_functions = False, tt_response_loan_functions = False, tt_state_function = True,
     tt_watch_start = (\<lambda>service _ c w. returning (WatchStart (Some service) (Some c) True (wo_transport w))
       (perform_call host (CC_watch_start (Some service) (Some c) True) w)),
     tt_watch_stop = (\<lambda>h w. snd (perform_call host (CC_watch_stop h) w)),
     tt_endpoint_create = (\<lambda>d w. returning (EndpointCreate (Some d) True (wo_transport w)) (perform_call host (CC_endpoint_create (Some d) True) w)),
     tt_endpoint_destroy = (\<lambda>h w. snd (perform_call host (CC_endpoint_destroy h) w)),
     tt_subscribe = (\<lambda>h c w. returning (Inproc_Subscribe h (Some c) True (wo_transport w)) (perform_call host (CC_subscribe h (Some c) True) w)),
     tt_unsubscribe = (\<lambda>h w. snd (perform_call host (CC_unsubscribe h) w)),
     tt_set_state_handler = (\<lambda>h c. perform_call host (CC_set_state_handler h (Some c))),
     tt_publish = (\<lambda>h payload. perform_call host (CC_publish h (CV_data payload))),
     tt_loan_acquire = (\<lambda>h n w. case returning (LoanAcquire h n True (wo_transport w)) (perform_call host (CC_loan_acquire h n True) w) of
       (st, loan, w) \<Rightarrow> (st, loan, if st = CS_OK then n else 0, w)),
     tt_loan_write = (\<lambda>loan bs w. snd (perform_call host (CC_loan_write loan bs) w)),
     tt_loan_publish = (\<lambda>h loan n. perform_call host (CC_loan_publish h loan n)),
     tt_loan_release = (\<lambda>loan w. snd (perform_call host (CC_loan_release loan) w)),
     tt_request = (\<lambda>h payload deadline c w. returning (Inproc_Request h (CV_data payload) deadline (Some c) True now (wo_transport w))
       (perform_call host (CC_request h (CV_data payload) deadline (Some c) True now) w)),
     tt_cancel = (\<lambda>h w. snd (perform_call host (CC_cancel h) w)),
     tt_set_request_handler = (\<lambda>h c. perform_call host (CC_set_request_handler h c)),
     tt_respond = (\<lambda>request status payload w. snd (perform_call host (CC_respond request status (CV_data payload)) w)),
     tt_request_loan_acquire = (\<lambda>_ _ _ w. (CS_UNSUPPORTED, 0, 0, w)),
     tt_request_loan_send = (\<lambda>_ _ _ _ w. (CS_UNSUPPORTED, 0, w)),
     tt_response_loan_acquire = (\<lambda>_ _ _ w. (CS_UNSUPPORTED, 0, 0, w)),
     tt_response_loan_send = (\<lambda>_ _ _ w. w)\<rparr>"

section \<open>A remote call returns what the handler gave\<close>

text \<open>What a client is told of a handler's result, without the provider's statuses in between.\<close>

definition seen_error :: "ComError \<Rightarrow> ComError" where
  "seen_error e =
     (if e \<in> {CE_unavailable, CE_incompatible_abi, CE_resource_exhausted, CE_deadline_exceeded, CE_cancelled, CE_shutting_down} then e
      else CE_provider_failure)"

definition call_outcome :: "(nat \<Rightarrow> bool) \<Rightarrow> RawServerResult option \<Rightarrow> RawResult" where
  "call_outcome fits handled =
     (case handled of
        None \<Rightarrow> raw_error CE_provider_failure
      | Some r \<Rightarrow>
          let answer = (\<lambda>bs. if rs_application_error r
                 then \<lparr>rr_error = CE_provider_failure, rr_has_error = False, rr_application_error = True, rr_payload = bs\<rparr>
               else if rs_has_error r
                 then \<lparr>rr_error = seen_error (rs_error r), rr_has_error = True, rr_application_error = False, rr_payload = bs\<rparr>
               else \<lparr>rr_error = CE_provider_failure, rr_has_error = False, rr_application_error = False, rr_payload = bs\<rparr>);
              n = rs_encoded_payload_size r in
          case rs_encode_payload r of
            None \<Rightarrow> answer (rs_payload r)
          | Some encode \<Rightarrow>
              if \<not> fits n then raw_error CE_resource_exhausted
              else if \<not> rs_application_error r \<and> rs_has_error r \<and> rs_error r = CE_resource_exhausted
                then answer (take n (rs_payload r @ replicate n 0))
              else case encode n of None \<Rightarrow> raw_error CE_provider_failure | Some bs \<Rightarrow> answer bs)"

lemma seen_error_status: "seen_error e = MapStatus (AbiStatus e)"
  by (cases e) (simp_all add: seen_error_def)

lemma AbiStatus_fails [simp]: "AbiStatus e \<noteq> CS_OK" "AbiStatus e \<noteq> CS_APPLICATION_ERROR" "AbiStatus e = CS_RESOURCE_EXHAUSTED \<longleftrightarrow> e = CE_resource_exhausted"
  by (cases e; simp)+

lemma completed_result:
  assumes "\<not> os_complete s" and "rr_payload (os_result s) = []"
  shows "os_result (op_complete status bs s) = \<lparr>rr_error = MapStatus status, rr_has_error = (status \<noteq> CS_OK \<and> status \<noteq> CS_APPLICATION_ERROR),
    rr_application_error = (status = CS_APPLICATION_ERROR), rr_payload = bs\<rparr>"
  using assms by (simp add: op_complete_def)

lemma outcome_of_response:
  assumes "\<not> os_complete s" and "rr_payload (os_result s) = []"
  shows "os_result (case_prod op_complete (encoded_response fits (server_result handled)) s) = call_outcome fits handled"
  using assms
  by (auto simp: completed_result encoded_response_def server_result_def server_status_def call_outcome_def raw_error_def seen_error_status Let_def
      split: option.splits)

lemma OnRequest_responds:
  "tt_response_loan_functions T = False \<Longrightarrow> OnRequest fits T handler request payload deadline w =
     (case encoded_response fits (server_result (handler payload deadline)) of (status, bs) \<Rightarrow> tt_respond T request status bs w)"
  by (simp add: OnRequest_def HasResponseLoans_def Let_def case_prod_unfold split: option.split)

lemma inproc_table_simps [simp]:
  "tt_response_loan_functions (inproc_table host now) = False" "tt_request_loan_functions (inproc_table host now) = False"
  "tt_endpoint_create (inproc_table host now) d w =
     returning (EndpointCreate (Some d) True (wo_transport w)) (perform_call host (CC_endpoint_create (Some d) True) w)"
  "tt_request (inproc_table host now) h bs deadline c w =
     returning (Inproc_Request h (CV_data bs) deadline (Some c) True now (wo_transport w)) (perform_call host (CC_request h (CV_data bs) deadline (Some c) True now) w)"
  "tt_respond (inproc_table host now) request status bs w = snd (perform_call host (CC_respond request status (CV_data bs)) w)"
  by (simp_all add: inproc_table_def)

text \<open>A provider may complete an operation before \<open>request\<close> has returned its handle; the order of the two does not matter.\<close>

lemma complete_before_accepted: "(op_complete status bs s)\<lparr>os_operation := h\<rparr> = op_complete status bs (s\<lparr>os_operation := h\<rparr>)"
  by (simp add: op_complete_def)

text \<open>A client endpoint appears in the table and nobody hears of it.\<close>

lemma client_endpoint_created:
  assumes "perform_call accepting (CC_endpoint_create (Some d) True) w = (CS_OK, w')" and "ed_kind d = EK_METHOD_CLIENT"
  shows "wo_events w' = wo_events w" "wo_queue w' = wo_queue w"
  using assms by (auto simp: perform_call_def without_output_def EndpointCreate_def offers_def take_com_handle_def Let_def split: if_splits)

lemma request_accepted:
  assumes "returning (Inproc_Request h (CV_data bs) deadline (Some c) True now (wo_transport w))
      (perform_call host (CC_request h (CV_data bs) deadline (Some c) True now) w) = (CS_OK, operation, w')"
  shows "\<exists>t actions. Inproc_Request h (CV_data bs) deadline (Some c) True now (wo_transport w) = ((CS_OK, Some operation), t, actions)"
proof -
  obtain r t actions where "Inproc_Request h (CV_data bs) deadline (Some c) True now (wo_transport w) = (r, t, actions)" by (metis prod_cases3)
  then show ?thesis
    using assms
    by (auto simp: returning_def handed_def perform_call_def without_output_def Inproc_Request_def case_prod_unfold Let_def split: if_splits option.splits)
qed


text \<open>C16: \<open>close\<close> of a subscription is a quiescence boundary. In every interleaving of the threads that deliver samples and states, set
  callbacks and close the subscription, after a \<open>close\<close> has returned no callback a provider's dispatch entered is entered, and none that
  was entered before is still running.\<close>

theorem close_quiescent:
  assumes "sub_reachable s" and "ss_events s = before @ SE_closed i # after"
  shows "list_all (\<lambda>e. \<not> callback_event e) after"
  using quiet_after sub_reachable_ok [OF assms(1)] assms(2) unfolding subsystem_ok_def by metis

section \<open>Endpoints of a server binding\<close>

text \<open>A provider whose created and destroyed endpoints are recorded.\<close>

record 'w Logged =
  lo_world :: 'w
  lo_created :: "ComHandle list"
  lo_destroyed :: "ComHandle list"

definition on_world :: "('w \<Rightarrow> 'a \<times> 'w) \<Rightarrow> 'w Logged \<Rightarrow> 'a \<times> 'w Logged" where
  "on_world f l = (case f (lo_world l) of (a, w) \<Rightarrow> (a, l\<lparr>lo_world := w\<rparr>))"

definition logged :: "'w TransportTable \<Rightarrow> 'w Logged TransportTable" where
  "logged T = \<lparr>
     tt_capabilities = (\<lambda>l. tt_capabilities T (lo_world l)), tt_request_loan_functions = tt_request_loan_functions T,
     tt_response_loan_functions = tt_response_loan_functions T, tt_state_function = tt_state_function T,
     tt_watch_start = (\<lambda>a b c l. case tt_watch_start T a b c (lo_world l) of (st, h, w) \<Rightarrow> (st, h, l\<lparr>lo_world := w\<rparr>)),
     tt_watch_stop = (\<lambda>h l. l\<lparr>lo_world := tt_watch_stop T h (lo_world l)\<rparr>),
     tt_endpoint_create = (\<lambda>d l. case tt_endpoint_create T d (lo_world l) of (st, h, w) \<Rightarrow>
       (st, h, l\<lparr>lo_world := w, lo_created := (if st = CS_OK then lo_created l @ [h] else lo_created l)\<rparr>)),
     tt_endpoint_destroy = (\<lambda>h l. l\<lparr>lo_world := tt_endpoint_destroy T h (lo_world l), lo_destroyed := lo_destroyed l @ [h]\<rparr>),
     tt_subscribe = (\<lambda>a b l. case tt_subscribe T a b (lo_world l) of (st, h, w) \<Rightarrow> (st, h, l\<lparr>lo_world := w\<rparr>)),
     tt_unsubscribe = (\<lambda>h l. l\<lparr>lo_world := tt_unsubscribe T h (lo_world l)\<rparr>),
     tt_set_state_handler = (\<lambda>a b. on_world (tt_set_state_handler T a b)),
     tt_publish = (\<lambda>a b. on_world (tt_publish T a b)),
     tt_loan_acquire = (\<lambda>a b l. case tt_loan_acquire T a b (lo_world l) of (st, h, n, w) \<Rightarrow> (st, h, n, l\<lparr>lo_world := w\<rparr>)),
     tt_loan_write = (\<lambda>a b l. l\<lparr>lo_world := tt_loan_write T a b (lo_world l)\<rparr>),
     tt_loan_publish = (\<lambda>a b c. on_world (tt_loan_publish T a b c)),
     tt_loan_release = (\<lambda>a l. l\<lparr>lo_world := tt_loan_release T a (lo_world l)\<rparr>),
     tt_request = (\<lambda>a b c d l. case tt_request T a b c d (lo_world l) of (st, h, w) \<Rightarrow> (st, h, l\<lparr>lo_world := w\<rparr>)),
     tt_cancel = (\<lambda>a l. l\<lparr>lo_world := tt_cancel T a (lo_world l)\<rparr>),
     tt_set_request_handler = (\<lambda>a b. on_world (tt_set_request_handler T a b)),
     tt_respond = (\<lambda>a b c l. l\<lparr>lo_world := tt_respond T a b c (lo_world l)\<rparr>),
     tt_request_loan_acquire = (\<lambda>a b c l. case tt_request_loan_acquire T a b c (lo_world l) of (st, h, n, w) \<Rightarrow> (st, h, n, l\<lparr>lo_world := w\<rparr>)),
     tt_request_loan_send = (\<lambda>a b c d l. case tt_request_loan_send T a b c d (lo_world l) of (st, h, w) \<Rightarrow> (st, h, l\<lparr>lo_world := w\<rparr>)),
     tt_response_loan_acquire = (\<lambda>a b c l. case tt_response_loan_acquire T a b c (lo_world l) of (st, h, n, w) \<Rightarrow> (st, h, n, l\<lparr>lo_world := w\<rparr>)),
     tt_response_loan_send = (\<lambda>a b c l. l\<lparr>lo_world := tt_response_loan_send T a b c (lo_world l)\<rparr>)\<rparr>"

lemma logged_simps [simp]:
  "tt_endpoint_create (logged T) d l = (case tt_endpoint_create T d (lo_world l) of (st, h, w) \<Rightarrow>
     (st, h, l\<lparr>lo_world := w, lo_created := (if st = CS_OK then lo_created l @ [h] else lo_created l)\<rparr>))"
  "tt_endpoint_destroy (logged T) h l = l\<lparr>lo_world := tt_endpoint_destroy T h (lo_world l), lo_destroyed := lo_destroyed l @ [h]\<rparr>"
  "tt_set_request_handler (logged T) a b l = on_world (tt_set_request_handler T a b) l"
  "tt_publish (logged T) a p l = on_world (tt_publish T a p) l"
  "tt_loan_publish (logged T) a h n l = on_world (tt_loan_publish T a h n) l"
  "tt_loan_write (logged T) h p l = l\<lparr>lo_world := tt_loan_write T h p (lo_world l)\<rparr>"
  "tt_loan_release (logged T) h l = l\<lparr>lo_world := tt_loan_release T h (lo_world l)\<rparr>"
  "tt_loan_acquire (logged T) a n l = (case tt_loan_acquire T a n (lo_world l) of (st, h, n, w) \<Rightarrow> (st, h, n, l\<lparr>lo_world := w\<rparr>))"
  by (simp_all add: logged_def)

lemma on_world_logs [simp]: "lo_created (snd (on_world f l)) = lo_created l" "lo_destroyed (snd (on_world f l)) = lo_destroyed l"
  by (simp_all add: on_world_def split: prod.splits)

datatype ServerCall =
    SV_method ElementDescriptor "Callback option"
  | SV_event ElementDescriptor
  | SV_publish ElementDescriptor bytes
  | SV_publish_loaned ElementDescriptor nat encoder
  | SV_close

fun server_call :: "'w TransportTable \<Rightarrow> ServerCall \<Rightarrow> ServerBinding \<times> 'w \<Rightarrow> ServerBinding \<times> 'w" where
  "server_call T (SV_method e h) (b, w) = snd (AddMethod T e h b w)"
| "server_call T (SV_event e) (b, w) = snd (AddEvent T e b w)"
| "server_call T (SV_publish e p) (b, w) = (b, snd (Binding_publish T e p b w))"
| "server_call T (SV_publish_loaned e n f) (b, w) = (b, snd (PublishLoaned T e n f b w))"
| "server_call T SV_close (b, w) = Server_close T b w"

definition owned :: "ServerBinding \<Rightarrow> ComHandle multiset" where
  "owned b = mset (map fst (sb_methods b)) + mset (map snd (sb_events b))"

definition endpoints_balanced :: "ServerBinding \<times> 'w Logged \<Rightarrow> bool" where
  "endpoints_balanced s \<longleftrightarrow>
     mset (lo_created (snd s)) = mset (lo_destroyed (snd s)) + owned (fst s) \<and> (sb_closed (fst s) \<longrightarrow> owned (fst s) = {#})"

lemma owned_om_set: "um_find m k = None \<Longrightarrow> image_mset snd (mset (om_set k v m)) = add_mset v (image_mset snd (mset m))"
  by (induction k v m rule: om_set.induct) (auto simp: um_find_def split: if_splits)

lemma AddMethod_balanced: "endpoints_balanced (b, l) \<Longrightarrow> endpoints_balanced (snd (AddMethod (logged T) e h b l))"
  by (auto simp: AddMethod_def endpoints_balanced_def owned_def on_world_def split: prod.splits option.splits)

lemma AddEvent_balanced: "endpoints_balanced (b, l) \<Longrightarrow> endpoints_balanced (snd (AddEvent (logged T) e b l))"
  by (auto simp: AddEvent_def endpoints_balanced_def owned_def owned_om_set split: prod.splits)

lemma publish_logs:
  "lo_created (snd (Binding_publish (logged T) e p b l)) = lo_created l" "lo_destroyed (snd (Binding_publish (logged T) e p b l)) = lo_destroyed l"
  by (simp_all add: Binding_publish_def on_world_def split: option.split prod.split)

lemma publish_loaned_logs:
  "lo_created (snd (PublishLoaned (logged T) e n f b l)) = lo_created l" "lo_destroyed (snd (PublishLoaned (logged T) e n f b l)) = lo_destroyed l"
  by (simp_all add: PublishLoaned_def publish_logs case_prod_unfold split: option.split)

lemma close_methods_logs:
  fixes T :: "'w TransportTable"
  defines "destroy \<equiv> fold (\<lambda>(endpoint, _) l. tt_endpoint_destroy (logged T) endpoint (snd (tt_set_request_handler (logged T) endpoint None l)))"
  shows "lo_created (destroy ms l) = lo_created l" "lo_destroyed (destroy ms l) = lo_destroyed l @ map fst ms"
  unfolding destroy_def by (induction ms arbitrary: l) auto

lemma close_events_logs:
  "lo_created (fold (\<lambda>(_, endpoint). tt_endpoint_destroy (logged T) endpoint) es l) = lo_created l"
  "lo_destroyed (fold (\<lambda>(_, endpoint). tt_endpoint_destroy (logged T) endpoint) es l) = lo_destroyed l @ map snd es"
  by (induction es arbitrary: l) auto

lemma close_balanced:
  assumes "endpoints_balanced (b, l)"
  shows "endpoints_balanced (Server_close (logged T) b l)" "sb_closed (fst (Server_close (logged T) b l))"
  using assms
  by (simp_all del: logged_simps add: Server_close_def endpoints_balanced_def owned_def Let_def close_methods_logs close_events_logs)

lemma publish_balanced:
  assumes "endpoints_balanced (b, l)"
  shows "endpoints_balanced (b, snd (Binding_publish (logged T) e p b l))" "endpoints_balanced (b, snd (PublishLoaned (logged T) e n f b l))"
  using assms by (simp_all add: endpoints_balanced_def publish_logs publish_loaned_logs)

lemma server_call_balanced:
  assumes "endpoints_balanced s"
  shows "endpoints_balanced (server_call (logged T) call s)"
proof -
  obtain b l where "s = (b, l)" by fastforce
  then show ?thesis
    using assms by (cases call) (simp_all add: AddMethod_balanced AddEvent_balanced publish_balanced close_balanced)
qed

lemma server_calls_balanced: "endpoints_balanced s \<Longrightarrow> endpoints_balanced (fold (server_call (logged T)) calls s)"
  by (induction calls arbitrary: s) (simp_all add: server_call_balanced)

text \<open>C17: a server binding leaks no endpoint. Over any provider, after any sequence of calls that add methods and events, publish, and
  close the binding, the endpoints the provider has created for it are those it has destroyed and those of its methods and
  events; and once it is closed, every endpoint it ever created has been destroyed, exactly as often as it was created.\<close>

theorem server_leaks_nothing:
  assumes "fold (server_call (logged T)) calls (new_server route, \<lparr>lo_world = w, lo_created = [], lo_destroyed = []\<rparr>) = (b, l)"
    and "server_call (logged T) SV_close (b, l) = (b', l')"
  shows "mset (lo_created l) = mset (lo_destroyed l) + mset (map fst (sb_methods b)) + mset (map snd (sb_events b)) \<and>
    mset (lo_created l') = mset (lo_destroyed l') \<and> sb_methods b' = [] \<and> sb_events b' = []"
proof -
  have "endpoints_balanced (new_server route, \<lparr>lo_world = w, lo_created = [], lo_destroyed = []\<rparr>)"
    by (simp add: endpoints_balanced_def owned_def new_server_def)
  then have balanced: "endpoints_balanced (b, l)" using server_calls_balanced assms(1) by metis
  have "endpoints_balanced (b', l')" "sb_closed b'" using close_balanced [OF balanced, of T] assms(2) by simp_all
  then show ?thesis using balanced by (auto simp: endpoints_balanced_def owned_def)
qed

section \<open>Route selection\<close>

definition concerns :: "RouteBinding \<Rightarrow> DiscoveryEntry \<Rightarrow> bool" where
  "concerns r entry \<longleftrightarrow>
     (list_all (\<lambda>b. b = 0) (de_instance_id entry) \<or> de_instance_id entry = ro_instance_id r) \<and>
     (de_route_epoch entry = 0 \<or> de_route_epoch entry = ro_route_epoch r)"

text \<open>The providers of a candidate after the entries that arrived for it: an offer adds one, a withdrawal removes one.\<close>

definition providers :: "RouteBinding list \<Rightarrow> (nat \<times> DiscoveryEntry) list \<Rightarrow> nat \<Rightarrow> nat" where
  "providers candidates arrived i =
     fold (\<lambda>(j, entry) n. if j = i \<and> concerns (candidates ! i) entry then (if de_available entry \<noteq> 0 then n + 1 else n - 1) else n) arrived 0"

definition arrive :: "(nat \<times> DiscoveryEntry) list \<Rightarrow> DiscoveryWatch \<Rightarrow> DiscoveryWatch" where
  "arrive arrived d = fold (\<lambda>(index, entry) d. fst (OnDiscovery index entry d)) arrived d"

definition watching :: "RouteBinding list \<Rightarrow> (nat \<Rightarrow> nat) \<Rightarrow> DiscoveryWatch \<Rightarrow> bool" where
  "watching candidates present d \<longleftrightarrow> dw_candidates d = candidates \<and> \<not> dw_closed d \<and> dw_counts d = map present [0 ..< length candidates]"

lemma OnDiscovery_watching:
  assumes "watching candidates present d" and "index < length candidates"
  shows "watching candidates (\<lambda>i. if index = i \<and> concerns (candidates ! i) entry
      then (if de_available entry \<noteq> 0 then present i + 1 else present i - 1) else present i) (fst (OnDiscovery index entry d))"
  using assms
  by (auto simp: watching_def OnDiscovery_def update_def concerns_def Let_def map_upt_eqI nth_list_update intro!: nth_equalityI)

lemma providers_snoc:
  "providers candidates (arrived @ [(index, entry)]) =
     (\<lambda>i. if index = i \<and> concerns (candidates ! i) entry
       then (if de_available entry \<noteq> 0 then providers candidates arrived i + 1 else providers candidates arrived i - 1)
       else providers candidates arrived i)"
  by (rule ext) (simp add: providers_def)

lemma arrive_watching:
  assumes "watching candidates (\<lambda>_. 0) d" and "\<forall>(index, entry) \<in> set arrived. index < length candidates"
  shows "watching candidates (providers candidates arrived) (arrive arrived d)"
  using assms(2)
proof (induction arrived rule: rev_induct)
  case Nil
  then show ?case using assms(1) by (simp add: arrive_def providers_def)
next
  case (snoc x arrived)
  obtain index entry where x: "x = (index, entry)" by fastforce
  have "watching candidates (providers candidates (arrived @ [x])) (fst (OnDiscovery index entry (arrive arrived d)))"
    unfolding x providers_snoc by (rule OnDiscovery_watching) (use snoc x in auto)
  then show ?case by (simp add: arrive_def x)
qed

lemma routes_watching:
  "watching candidates present d \<Longrightarrow>
     routes_locked d = sort_key route_key (map (\<lambda>i. candidates ! i) (filter (\<lambda>i. present i \<noteq> 0) [0 ..< length candidates]))"
  unfolding routes_locked_def watching_def
  by (intro arg_cong [where f = "sort_key route_key"] map_cong filter_cong) auto

lemma discovered_watching:
  "Discover lookup base candidates w = (Some d, w') \<Longrightarrow> watching candidates (\<lambda>_. 0) d"
  by (auto simp: Discover_def watching_def map_replicate_const split: prod.splits option.splits)

lemma select_sorted:
  "(case sort_key k xs of [] \<Rightarrow> None | r # _ \<Rightarrow> Some r) = Some r \<Longrightarrow> r \<in> set xs \<and> (\<forall>x \<in> set xs. k r \<le> k x)"
proof -
  assume "(case sort_key k xs of [] \<Rightarrow> None | r # _ \<Rightarrow> Some r) = Some r"
  then obtain rs where rs: "sort_key k xs = r # rs" by (auto split: list.splits)
  then have "sorted (map k (r # rs))" by (metis sorted_sort_key)
  moreover have "set xs = set (r # rs)" by (metis rs set_sort)
  ultimately show ?thesis by auto
qed

text \<open>C18: discovery selects the best available route. After any arrival of discovery entries for the candidates of a watch, \<open>Select\<close>
  gives a candidate that more offers than withdrawals have arrived for (of its instance and epoch, or of unspecified ones), and none
  of the available candidates comes before it in the order of priority, provider, instance and epoch; it gives none exactly
  when no candidate is available.\<close>

theorem select_best_route:
  assumes "Discover lookup base candidates w = (Some d, w')" and "\<forall>(index, entry) \<in> set arrived. index < length candidates"
  shows "case Discovery_Select (arrive arrived d) of
     None \<Rightarrow> \<forall>i < length candidates. providers candidates arrived i = 0
   | Some r \<Rightarrow> (\<exists>i < length candidates. r = candidates ! i \<and> providers candidates arrived i \<noteq> 0) \<and>
       (\<forall>i < length candidates. providers candidates arrived i \<noteq> 0 \<longrightarrow> route_key r \<le> route_key (candidates ! i))"
proof -
  let ?available = "map (\<lambda>i. candidates ! i) (filter (\<lambda>i. providers candidates arrived i \<noteq> 0) [0 ..< length candidates])"
  have routes: "Discovery_Routes (arrive arrived d) = sort_key route_key ?available"
    using routes_watching [OF arrive_watching [OF discovered_watching [OF assms(1)] assms(2)]] by (simp add: Discovery_Routes_def)
  show ?thesis
  proof (cases "Discovery_Select (arrive arrived d)")
    case None
    then have "?available = []" by (auto simp: Discovery_Select_def routes split: list.splits dest!: arg_cong [where f = set])
    then show ?thesis using None by (auto simp: filter_empty_conv)
  next
    case (Some r)
    then have "r \<in> set ?available \<and> (\<forall>x \<in> set ?available. route_key r \<le> route_key x)"
      unfolding Discovery_Select_def routes by (rule select_sorted)
    then show ?thesis using Some by auto
  qed
qed

section \<open>Behaviour of the code that is not meant\<close>

text \<open>A watch that cannot be completed because a later provider is missing leaves the earlier ones started: their callbacks point into the
  discovery object, which is gone.\<close>

lemma missing_provider_leaves_watch:
  assumes "lookup (ro_provider a) = Some T" and "lookup (ro_provider b) = None"
    and "tt_watch_start T (ro_service_id a) (ro_native_service a) base w = (CS_OK, handle, w')"
  shows "Discover lookup base [a, b] w = (None, w')"
  using assms by (simp add: Discover_def)

text \<open>A result that cannot be encoded into a response loan is not answered at all: the loan is released, and the client waits until its
  deadline. Without loans the same result is answered with an error.\<close>

lemma unencodable_response_unanswered:
  assumes "handler payload deadline = Some r" and "rs_encode_payload r = Some encode" and "HasResponseLoans T w"
    and "tt_response_loan_acquire T request (rs_encoded_payload_size r) (server_status r) w = (CS_OK, loan, capacity, w')"
    and "encode capacity = None"
  shows "OnRequest fits T handler request payload deadline w = tt_loan_release T loan w'"
  using assms by (simp add: OnRequest_def server_result_def)

text \<open>While a callback runs, a \<open>close\<close> cannot pass its wait, also a \<open>close\<close> that this callback itself calls: it waits for ever.\<close>

lemma callback_blocks_close:
  assumes "sub_reachable s" and "doing i (ST_in_callback c) s"
  shows "ps_in_flight (ss_subscription s) \<noteq> 0"
  using sub_reachable_ok [OF assms(1)] dispatches_pos [of i "ss_threads s"] assms(2) by (simp add: subsystem_ok_def)

text \<open>An operation that failed no longer holds itself alive. When the executor refused its request, the in-process transport still has its
  completion callback.\<close>

definition demo_route :: RouteBinding where
  "demo_route = \<lparr>ro_service_id = [1], ro_instance_id = [2], ro_route_epoch = 5, ro_max_payload_size = 8, ro_history_depth = 0,
     ro_native_elements = [], ro_provider = ''inproc'', ro_native_service = [], ro_priority = 0\<rparr>"

definition demo_element :: ElementDescriptor where
  "demo_element = \<lparr>el_id = [3], el_tag = 0, el_name = ''add'', el_operation = EL_method\<rparr>"

definition binding_demo :: "ScriptStep list" where
  "binding_demo = [SC_call CC_start, SC_call (CC_endpoint_create (Some (Descriptor demo_route demo_element EK_METHOD_SERVER)) True),
     SC_call (CC_set_request_handler 1 (Some 4))]"

lemma refused_request_dangles:
  "let (s, w) = invoke (inproc_table (\<lambda>_. DI_refused CS_RESOURCE_EXHAUSTED) 0) demo_route demo_element [9] 100 6 (sy_world (com_demo binding_demo)) in
   \<not> os_self s \<and> os_operation s = 0 \<and> it_pending (wo_transport w) = [(3, 6)]"
  by code_simp

section \<open>Examples of the binding\<close>

definition demo_handler :: "bytes \<Rightarrow> u64 \<Rightarrow> RawServerResult option" where
  "demo_handler payload deadline = Some \<lparr>rs_error = CE_none, rs_has_error = False, rs_application_error = False, rs_payload = payload @ [1],
     rs_encoded_payload_size = 0, rs_encode_payload = None\<rparr>"


definition demo_subscription :: ProviderSubscriptionState where
  "demo_subscription = (new_subscription 1)\<lparr>ps_subscription := 2, ps_callback := Some 7, ps_state := Some (SS_ACTIVE, CS_OK)\<rparr>"

text \<open>A sample is delivered, the subscription is closed, and a state callback set afterwards is told the last state.\<close>

definition demo_closed :: SubSystem where
  "demo_closed = \<lparr>ss_subscription = \<lparr>ps_endpoint = 0, ps_subscription = 0, ps_callback = None, ps_state_callback = Some 8,
        ps_state = Some (SS_ACTIVE, CS_OK), ps_in_flight = 0, ps_closed = True\<rparr>,
      ss_threads = [ST_idle], ss_events = [SE_entered 0 7, SE_left 0 7, SE_closed 0, SE_reported 0 8 (CSS_active, None)]\<rparr>"

lemmas then_sub_step = converse_rtranclp_into_rtranclp [of sub_step]

lemma demo_subscription_runs: "sub_step\<^sup>*\<^sup>* (fresh_subsystem demo_subscription) demo_closed"
proof -
  note defs = to_thread_def subscription_sections demo_subscription_def new_subscription_def fresh_subsystem_def
  show ?thesis
    apply (rule then_sub_step, rule sub_step.spawn)
    apply (rule then_sub_step, rule sub_step.sample [where i = 0], simp add: defs, rule prod.collapse [symmetric])
    apply (rule then_sub_step, rule sub_step.enter [where i = 0 and c = 7], simp add: defs)
    apply (rule then_sub_step, rule sub_step.leave [where i = 0 and c = 7], simp add: defs)
    apply (rule then_sub_step, rule sub_step.finish [where i = 0], simp add: defs)
    apply (rule then_sub_step, rule sub_step.close [where i = 0 and subscription = 2 and endpoint = 1 and c = None], simp add: defs, simp add: defs)
    apply (rule then_sub_step, rule sub_step.quiescent [where i = 0 and subscription = 2 and endpoint = 1 and c = None], simp add: defs, simp add: defs)
    apply (rule then_sub_step, rule sub_step.closed [where i = 0 and subscription = 2 and endpoint = 1 and c = None], simp add: defs)
    apply (rule then_sub_step, rule sub_step.set_state_callback [where i = 0 and c = "Some 8"], simp add: defs, rule prod.collapse [symmetric])
    apply (simp add: defs demo_closed_def state_report_def)
    done
qed

theorem close_quiescent_witness:
  "ss_events demo_closed = [SE_entered 0 7, SE_left 0 7] @ SE_closed 0 # [SE_reported 0 8 (CSS_active, None)] \<and>
   list_all (\<lambda>e. \<not> callback_event e) [SE_reported 0 8 (CSS_active, None)]"
proof -
  have "ps_in_flight demo_subscription = 0 \<and> \<not> ps_closed demo_subscription" by (simp add: demo_subscription_def new_subscription_def)
  then have "sub_reachable demo_closed" using demo_subscription_runs unfolding sub_reachable_def by blast
  moreover have "ss_events demo_closed = [SE_entered 0 7, SE_left 0 7] @ SE_closed 0 # [SE_reported 0 8 (CSS_active, None)]"
    by (simp add: demo_closed_def)
  ultimately show ?thesis using close_quiescent by blast
qed

theorem server_leaks_nothing_witness:
  "let T = inproc_table accepting 0; calls = [SV_method demo_element (Some 4), SV_event demo_element, SV_event demo_element];
       (b, l) = fold (server_call (logged T)) calls
         (new_server demo_route, \<lparr>lo_world = sy_world (com_demo [SC_call CC_start]), lo_created = [], lo_destroyed = []\<rparr>);
       (b', l') = server_call (logged T) SV_close (b, l) in
   mset (lo_created l) = mset (lo_destroyed l) + mset (map fst (sb_methods b)) + mset (map snd (sb_events b)) \<and>
   mset (lo_created l') = mset (lo_destroyed l')"
proof -
  obtain b l where calls: "fold (server_call (logged (inproc_table accepting 0)))
      [SV_method demo_element (Some 4), SV_event demo_element, SV_event demo_element]
      (new_server demo_route, \<lparr>lo_world = sy_world (com_demo [SC_call CC_start]), lo_created = [], lo_destroyed = []\<rparr>) = (b, l)" by fastforce
  obtain b' l' where close: "server_call (logged (inproc_table accepting 0)) SV_close (b, l) = (b', l')" by fastforce
  show ?thesis using server_leaks_nothing [OF calls close] by (simp only: Let_def calls close case_prod_conv simp_thms)
qed

definition demo_offer :: DiscoveryEntry where
  "demo_offer = discovery_entry (Descriptor demo_route demo_element EK_METHOD_SERVER) 1 1"

theorem select_best_route_witness:
  "let d = the (fst (Discover (\<lambda>_. Some (inproc_table accepting 0)) 0 [demo_route\<lparr>ro_priority := 1\<rparr>, demo_route] (sy_world (com_demo [SC_call CC_start]))))
   in Discovery_Select (arrive [(0, demo_offer), (1, demo_offer)] d) = Some demo_route"
proof -
  let ?find = "Discover (\<lambda>_. Some (inproc_table accepting 0)) 0 [demo_route\<lparr>ro_priority := 1\<rparr>, demo_route] (sy_world (com_demo [SC_call CC_start]))"
  let ?arrived = "[(0, demo_offer), (1, demo_offer)]"
  have "fst ?find \<noteq> None" by code_simp
  then obtain d w where d: "?find = (Some d, w)" by (metis not_Some_eq prod.collapse)
  have "providers [demo_route\<lparr>ro_priority := 1\<rparr>, demo_route] ?arrived 1 = 1" by code_simp
  then have "\<exists>r. Discovery_Select (arrive ?arrived d) = Some r \<and> (r = demo_route\<lparr>ro_priority := 1\<rparr> \<or> r = demo_route) \<and> route_key r \<le> route_key demo_route"
    using select_best_route [OF d, of ?arrived] by (force simp: less_Suc_eq split: option.splits)
  then have "Discovery_Select (arrive ?arrived d) = Some demo_route" by (auto simp: route_key_def demo_route_def less_eq_prod_def)
  then show ?thesis by (simp add: d)
qed

end
