(* ===== verification/Com_Runtime_Lifecycle.thy ===== *)
theory Com_Runtime_Lifecycle
  imports Com_Runtime
begin

text \<open>
  What the communication runtime guarantees its providers: the order of the calls of a start and its roll-back, the protocol every instance is
  used by under every sequence of calls of a client, and that destroying the runtime leaves neither an instance nor a library. The in-process
  transport is then attached as a provider. The last section shows where the runtime falls short.
\<close>

section \<open>The calls a provider sees\<close>

fun lifecycle_event :: "RuntimeEvent \<Rightarrow> bool" where
  "lifecycle_event (RE_health c h) = False"
| "lifecycle_event (RE_diagnostic c d) = False"
| "lifecycle_event _ = True"

abbreviation calls :: "RuntimeEvent list \<Rightarrow> RuntimeEvent list" where
  "calls \<equiv> filter lifecycle_event"

lemma emit_simps [simp]:
  "cr_events (emit es r) = cr_events r @ es" "cr_transports (emit es r) = cr_transports r" "cr_running (emit es r) = cr_running r"
  "cr_created (emit es r) = cr_created r" "cr_libraries (emit es r) = cr_libraries r" "cr_routes (emit es r) = cr_routes r"
  "cr_health_callback (emit es r) = cr_health_callback r" "cr_instance_name (emit es r) = cr_instance_name r"
  by (simp_all add: emit_def)

lemma emit_emit [simp]: "emit es' (emit es r) = emit (es @ es') r"
  by (simp add: emit_def)

lemma emit_Nil [simp]: "emit [] r = r"
  by (simp add: emit_def)

text \<open>Reports change the health and enter the health callback, and nothing else.\<close>

lemma take_reports_emits:
  "\<exists>h' es. take_reports reports (h, r) = (h', emit es r) \<and> calls es = [] \<and> th_provider h' = th_provider h"
proof (induction reports arbitrary: h r)
  case Nil
  have "take_reports [] (h, r) = (h, emit [] r)" by (simp add: take_reports_def)
  then show ?case by (metis filter.simps(1))
next
  case (Cons u us)
  obtain h1 es1 where 1: "OnProviderHealth u (h, r) = (h1, emit es1 r)" "calls es1 = []" "th_provider h1 = th_provider h"
  proof (cases "cr_health_callback r")
    case None
    then show ?thesis using that [of _ "[]"] by (simp add: OnProviderHealth_def Let_def)
  next
    case (Some c)
    then show ?thesis using that by (simp add: OnProviderHealth_def Let_def)
  qed
  obtain h2 es2 where "take_reports us (h1, emit es1 r) = (h2, emit es2 (emit es1 r))" "calls es2 = []" "th_provider h2 = th_provider h1"
    using Cons by metis
  then have "take_reports (u # us) (h, r) = (h2, emit (es1 @ es2) r)" "calls (es1 @ es2) = []" "th_provider h2 = th_provider h"
    using 1 by (simp_all add: take_reports_def)
  then show ?case by blast
qed

text \<open>What a call on one transport changes: its instance and its health.\<close>

definition same_transport :: "'p AttachedTransport \<Rightarrow> 'p AttachedTransport \<Rightarrow> bool" where
  "same_transport a b \<longleftrightarrow> at_id a = at_id b \<and> at_factory a = at_factory b \<and> at_config a = at_config b \<and>
     at_health_supported a = at_health_supported b \<and> th_provider (at_health a) = th_provider (at_health b)"

definition same_runtime :: "'p ComRuntime \<Rightarrow> 'p ComRuntime \<Rightarrow> bool" where
  "same_runtime r r' \<longleftrightarrow>
     list_all2 same_transport (cr_transports r) (cr_transports r') \<and> cr_running r' = cr_running r \<and> cr_created r' = cr_created r \<and>
     cr_libraries r' = cr_libraries r \<and> cr_routes r' = cr_routes r \<and> cr_instance_name r' = cr_instance_name r"

lemma same_transport_refl [simp]: "same_transport a a"
  by (simp add: same_transport_def)

lemma same_transports_refl [simp]: "list_all2 same_transport ts ts"
  by (simp add: list_all2_same)

lemma same_transports_trans: "list_all2 same_transport xs ys \<Longrightarrow> list_all2 same_transport ys zs \<Longrightarrow> list_all2 same_transport xs zs"
  by (rule list_all2_trans) (auto simp: same_transport_def)

lemma same_runtime_trans: "same_runtime a b \<Longrightarrow> same_runtime b c \<Longrightarrow> same_runtime a c"
  by (auto simp: same_runtime_def intro: same_transports_trans)

lemma same_runtime_emit [simp]: "same_runtime r (emit es r)"
  by (simp add: same_runtime_def)

lemma same_runtime_refl [simp]: "same_runtime r r"
  by (simp add: same_runtime_def)

lemma same_transports_maps:
  assumes "list_all2 same_transport xs ys"
  shows "map at_id ys = map at_id xs" "length ys = length xs" "map (AsStringView \<circ> tf_name \<circ> at_factory) ys = map (AsStringView \<circ> tf_name \<circ> at_factory) xs"
    "map (th_provider \<circ> at_health) ys = map (th_provider \<circ> at_health) xs"
  using assms by (induction rule: list_all2_induct) (auto simp: same_transport_def)

lemma same_transports_update: "same_transport (ts ! i) a \<Longrightarrow> list_all2 same_transport ts (ts[i := a])"
proof (rule list_all2_all_nthI)
  fix n assume "same_transport (ts ! i) a" "n < length ts"
  then show "same_transport (ts ! n) (ts[i := a] ! n)" by (cases "n = i") simp_all
qed simp

lemma on_transport_spec:
  assumes "on_transport i call r = (st, r')"
  shows "same_runtime r r' \<and> calls (cr_events r') = calls (cr_events r)"
proof -
  let ?a = "cr_transports r ! i"
  obtain st' reports p where c: "call ?a = (st', reports, p)" by (metis prod_cases3)
  obtain h es where t: "take_reports reports (at_health ?a, r) = (h, emit es r)" "calls es = []" "th_provider h = th_provider (at_health ?a)"
    using take_reports_emits by metis
  have r': "r' = (emit es r)\<lparr>cr_transports := (cr_transports r)[i := ?a\<lparr>at_instance := p, at_health := h\<rparr>]\<rparr>"
    using assms by (simp add: on_transport_def c t(1))
  have "list_all2 same_transport (cr_transports r) ((cr_transports r)[i := ?a\<lparr>at_instance := p, at_health := h\<rparr>])"
    using t(3) by (intro same_transports_update) (simp add: same_transport_def)
  then show ?thesis using t(2) by (simp add: r' same_runtime_def)
qed

abbreviation transport_id :: "'p ComRuntime \<Rightarrow> nat \<Rightarrow> nat" where
  "transport_id r i \<equiv> at_id (cr_transports r ! i)"

lemma same_runtime_id: "same_runtime r r' \<Longrightarrow> i < length (cr_transports r) \<Longrightarrow> transport_id r' i = transport_id r i"
  by (auto simp: same_runtime_def list_all2_conv_all_nth same_transport_def)

lemma same_runtime_length: "same_runtime r r' \<Longrightarrow> length (cr_transports r') = length (cr_transports r)"
  by (auto simp: same_runtime_def list_all2_lengthD)

lemma start_transport_spec:
  assumes "start_transport i r = (st, r')" and "i < length (cr_transports r)"
  shows "same_runtime r r' \<and> calls (cr_events r') = calls (cr_events r) @ [RE_started (transport_id r i) st]"
proof -
  obtain st1 r1 where o: "on_transport i (\<lambda>a. tf_start (at_factory a) (at_instance a)) r = (st1, r1)" by fastforce
  have s: "same_runtime r r1" "calls (cr_events r1) = calls (cr_events r)" using on_transport_spec [OF o] by simp_all
  have "transport_id r1 i = transport_id r i" by (rule same_runtime_id [OF s(1) assms(2)])
  then show ?thesis using assms(1) s by (auto simp: start_transport_def o intro: same_runtime_trans)
qed

lemma stop_transport_spec:
  assumes "i < length (cr_transports r)"
  shows "same_runtime r (stop_transport i r) \<and> calls (cr_events (stop_transport i r)) = calls (cr_events r) @ [RE_stopped (transport_id r i)]"
proof -
  obtain st1 r1 where o: "on_transport i (\<lambda>a. tf_stop (at_factory a) (at_instance a)) r = (st1, r1)" by fastforce
  have s: "same_runtime r r1" "calls (cr_events r1) = calls (cr_events r)" using on_transport_spec [OF o] by simp_all
  have "transport_id r1 i = transport_id r i" by (rule same_runtime_id [OF s(1) assms])
  then show ?thesis using s by (auto simp: stop_transport_def o intro: same_runtime_trans)
qed

lemma stop_below_spec:
  assumes "n \<le> length (cr_transports r)"
  shows "same_runtime r (stop_below n r) \<and>
    calls (cr_events (stop_below n r)) = calls (cr_events r) @ map (\<lambda>i. RE_stopped (transport_id r i)) (rev [0 ..< n])"
  using assms
proof (induction n arbitrary: r)
  case (Suc n)
  let ?r = "stop_transport n r"
  have s: "same_runtime r ?r" "calls (cr_events ?r) = calls (cr_events r) @ [RE_stopped (transport_id r n)]"
    using stop_transport_spec [of n r] Suc.prems by simp_all
  have "same_runtime ?r (stop_below n ?r)" "calls (cr_events (stop_below n ?r)) = calls (cr_events ?r) @ map (\<lambda>i. RE_stopped (transport_id ?r i)) (rev [0 ..< n])"
    using Suc.IH [of ?r] Suc.prems same_runtime_length [OF s(1)] by simp_all
  moreover have "map (\<lambda>i. RE_stopped (transport_id ?r i)) (rev [0 ..< n]) = map (\<lambda>i. RE_stopped (transport_id r i)) (rev [0 ..< n])"
    using Suc.prems by (intro map_cong) (simp_all add: same_runtime_id [OF s(1)])
  ultimately show ?case using s same_runtime_trans by fastforce
qed simp

lemma await_health_spec:
  assumes "await_health i r = (ready, r')"
  shows "same_runtime r r' \<and> calls (cr_events r') = calls (cr_events r)"
proof (cases "th_state (at_health (cr_transports r ! i)) \<noteq> TH_initializing")
  case True
  then show ?thesis using assms by (auto simp: await_health_def)
next
  case False
  obtain st1 r1 where o: "on_transport i (\<lambda>a. (CS_OK, tf_await (at_factory a) (tc_start_timeout (at_config a)) (at_instance a))) r = (st1, r1)" by fastforce
  then show ?thesis using assms False on_transport_spec [OF o] by (auto simp: await_health_def Let_def)
qed

section \<open>Start\<close>

definition others_kept :: "nat \<Rightarrow> 'p ComRuntime \<Rightarrow> 'p ComRuntime \<Rightarrow> bool" where
  "others_kept i r r' \<longleftrightarrow> (\<forall>j. j \<noteq> i \<longrightarrow> cr_transports r' ! j = cr_transports r ! j)"

lemma on_transport_others: "on_transport i call r = (st, r') \<Longrightarrow> others_kept i r r'"
proof -
  assume "on_transport i call r = (st, r')"
  moreover obtain st' reports p where "call (cr_transports r ! i) = (st', reports, p)" by (metis prod_cases3)
  moreover obtain h es where "take_reports reports (at_health (cr_transports r ! i), r) = (h, emit es r)"
    using take_reports_emits by metis
  ultimately show ?thesis by (auto simp: on_transport_def others_kept_def)
qed

lemma start_transport_others: "start_transport i r = (st, r') \<Longrightarrow> others_kept i r r'"
  using on_transport_others [of i "\<lambda>a. tf_start (at_factory a) (at_instance a)" r]
  by (auto simp: start_transport_def others_kept_def split: prod.splits)

lemma await_health_others: "await_health i r = (ready, r') \<Longrightarrow> others_kept i r r'"
  using on_transport_others [of i "\<lambda>a. (CS_OK, tf_await (at_factory a) (tc_start_timeout (at_config a)) (at_instance a))" r]
  by (cases "on_transport i (\<lambda>a. (CS_OK, tf_await (at_factory a) (tc_start_timeout (at_config a)) (at_instance a))) r")
    (auto simp: await_health_def others_kept_def Let_def split: if_splits)

lemma await_health_ready:
  "await_health i r = (ready, r') \<Longrightarrow> ready \<longleftrightarrow> th_state (at_health (cr_transports r' ! i)) \<noteq> TH_initializing"
  by (auto simp: await_health_def Let_def split: if_splits)

lemma ToRuntimeError_none [simp]: "ToRuntimeError st = CE_none \<longleftrightarrow> st = CS_OK"
  by (cases st) simp_all

abbreviation started_ok :: "'p ComRuntime \<Rightarrow> nat \<Rightarrow> RuntimeEvent" where
  "started_ok r i \<equiv> RE_started (transport_id r i) CS_OK"

abbreviation stopped_event :: "'p ComRuntime \<Rightarrow> nat \<Rightarrow> RuntimeEvent" where
  "stopped_event r i \<equiv> RE_stopped (transport_id r i)"

text \<open>The events of a start that fails at a provider, and the error it reports.\<close>

definition start_failure :: "'p ComRuntime \<Rightarrow> nat \<Rightarrow> RuntimeEvent list \<Rightarrow> ComError \<Rightarrow> bool" where
  "start_failure r k failure error \<longleftrightarrow>
     (\<exists>st. st \<noteq> CS_OK \<and> failure = [RE_started (transport_id r k) st] \<and> error = ToRuntimeError st) \<or>
     failure = [started_ok r k, stopped_event r k] \<and> error \<in> {CE_provider_failure, CE_deadline_exceeded}"

lemma start_failure_error: "start_failure r k failure error \<Longrightarrow> error \<noteq> CE_none"
  using ToRuntimeError_none unfolding start_failure_def by fastforce

definition ready_above :: "nat \<Rightarrow> 'p ComRuntime \<Rightarrow> bool" where
  "ready_above k r \<longleftrightarrow> (\<forall>i. k \<le> i \<longrightarrow> i < length (cr_transports r) \<longrightarrow> at_health_supported (cr_transports r ! i) \<longrightarrow>
     th_state (at_health (cr_transports r ! i)) = TH_ready)"

lemma rollback_spec:
  assumes "same_runtime r r1" and "k \<le> length (cr_transports r)"
  shows "same_runtime r (stop_below k r1) \<and> calls (cr_events (stop_below k r1)) = calls (cr_events r1) @ map (stopped_event r) (rev [0 ..< k])"
proof -
  have "map (stopped_event r1) (rev [0 ..< k]) = map (stopped_event r) (rev [0 ..< k])"
    using assms by (intro map_cong) (simp_all add: same_runtime_id)
  then show ?thesis
    using stop_below_spec [of k r1] assms same_runtime_length [OF assms(1)] same_runtime_trans [OF assms(1)] by metis
qed

lemma start_each_spec:
  assumes "start_each [k ..< length (cr_transports r)] r = (error, r')" and "k \<le> length (cr_transports r)" and "\<not> cr_running r"
  shows "list_all2 same_transport (cr_transports r) (cr_transports r') \<and> cr_created r' = cr_created r \<and> cr_libraries r' = cr_libraries r \<and>
    (if error = CE_none then
       cr_running r' \<and> calls (cr_events r') = calls (cr_events r) @ map (started_ok r) [k ..< length (cr_transports r)] \<and> ready_above k r' \<and>
       (\<forall>i < k. cr_transports r' ! i = cr_transports r ! i)
     else
       \<not> cr_running r' \<and>
       (\<exists>m failure. k \<le> m \<and> m < length (cr_transports r) \<and> start_failure r m failure error \<and>
          calls (cr_events r') = calls (cr_events r) @ map (started_ok r) [k ..< m] @ failure @ map (stopped_event r) (rev [0 ..< m])))"
  using assms
proof (induction "length (cr_transports r) - k" arbitrary: k r)
  case 0
  then show ?case by (auto simp: ready_above_def)
next
  case (Suc d)
  let ?n = "length (cr_transports r)"
  have k: "k < ?n" "[k ..< ?n] = k # [Suc k ..< ?n]" using Suc.hyps(2) by (simp_all add: upt_conv_Cons)
  obtain st r1 where s: "start_transport k r = (st, r1)" by fastforce
  have s1: "same_runtime r r1" "calls (cr_events r1) = calls (cr_events r) @ [RE_started (transport_id r k) st]" "others_kept k r r1"
    using start_transport_spec [OF s k(1)] start_transport_others [OF s] by simp_all
  note n1 = same_runtime_length [OF s1(1)]
  show ?case
  proof (cases "st = CS_OK")
    case False
    have r': "r' = stop_below k r1" "error = ToRuntimeError st" using Suc.prems(1) False by (simp_all add: k(2) s)
    have "same_runtime r r'" "calls (cr_events r') = calls (cr_events r1) @ map (stopped_event r) (rev [0 ..< k])"
      using rollback_spec [OF s1(1), of k] k(1) by (simp_all add: r')
    moreover have "start_failure r k [RE_started (transport_id r k) st] error" using False r'(2) by (auto simp: start_failure_def)
    ultimately show ?thesis
      using k(1) Suc.prems(3) s1(2) start_failure_error [of r k _ error] by (fastforce simp: same_runtime_def)
  next
    case ok: True
    obtain ready r2 where a: "(if at_health_supported (cr_transports r1 ! k) then await_health k r1 else (True, r1)) = (ready, r2)" by fastforce
    have s2: "same_runtime r1 r2" "calls (cr_events r2) = calls (cr_events r1)" "others_kept k r1 r2"
      using a await_health_spec [of k r1] await_health_others [of k r1] by (auto simp: others_kept_def split: if_splits)
    have r2: "same_runtime r r2" using s1(1) s2(1) by (rule same_runtime_trans)
    note n2 = same_runtime_length [OF r2]
    have sup: "at_health_supported (cr_transports r1 ! k) = at_health_supported (cr_transports r2 ! k)"
      using s2(1) k(1) n1 by (auto simp: same_runtime_def list_all2_conv_all_nth same_transport_def)
    show ?thesis
    proof (cases "at_health_supported (cr_transports r1 ! k) \<and> (\<not> ready \<or> th_state (at_health (cr_transports r2 ! k)) \<noteq> TH_ready)")
      case True
      have r': "r' = stop_below k (stop_transport k r2)" "error = (if ready then CE_provider_failure else CE_deadline_exceeded)"
        using Suc.prems(1) True a ok by (auto simp: k(2) s split: if_splits)
      let ?r3 = "stop_transport k r2"
      have s3: "same_runtime r2 ?r3" "calls (cr_events ?r3) = calls (cr_events r2) @ [stopped_event r2 k]"
        using stop_transport_spec [of k r2] k(1) n2 by simp_all
      have r3: "same_runtime r ?r3" using r2 s3(1) by (rule same_runtime_trans)
      have b: "same_runtime r r'" "calls (cr_events r') = calls (cr_events ?r3) @ map (stopped_event r) (rev [0 ..< k])"
        using rollback_spec [OF r3, of k] k(1) by (simp_all add: r')
      have "start_failure r k [started_ok r k, stopped_event r k] error" using r'(2) by (auto simp: start_failure_def)
      moreover have "calls (cr_events r') = calls (cr_events r) @ map (started_ok r) [k ..< k] @ [started_ok r k, stopped_event r k] @
          map (stopped_event r) (rev [0 ..< k])"
        using b(2) s3(2) s2(2) s1(2) same_runtime_id [OF r2 k(1)] ok by simp
      ultimately show ?thesis using b(1) k(1) Suc.prems(3) start_failure_error [of r k _ error] by (fastforce simp: same_runtime_def)
    next
      case False
      have next': "start_each [Suc k ..< length (cr_transports r2)] r2 = (error, r')"
        using Suc.prems(1) False a ok n2 by (auto simp: k(2) s split: if_splits)
      have run2: "\<not> cr_running r2" using Suc.prems(3) r2 by (simp add: same_runtime_def)
      have pre: "d = length (cr_transports r2) - Suc k" "Suc k \<le> length (cr_transports r2)" using Suc.hyps(2) k(1) n2 by simp_all
      note IH = Suc.hyps(1) [OF pre(1) next' pre(2) run2]
      have ids: "map (started_ok r2) is = map (started_ok r) is" "map (stopped_event r2) is = map (stopped_event r) is"
        if "set is \<subseteq> {..< ?n}" for "is" using that same_runtime_id [OF r2] by (auto intro!: map_cong)
      have c2: "calls (cr_events r2) = calls (cr_events r) @ [started_ok r k]" using s1(2) s2(2) ok by simp
      have same: "list_all2 same_transport (cr_transports r) (cr_transports r')" "cr_created r' = cr_created r" "cr_libraries r' = cr_libraries r"
        using IH Suc.hyps(2) n2 r2 by (auto simp: same_runtime_def intro: same_transports_trans)
      show ?thesis
      proof (cases "error = CE_none")
        case True
        have "cr_running r'" "calls (cr_events r') = calls (cr_events r2) @ map (started_ok r2) [Suc k ..< ?n]" "ready_above (Suc k) r'"
          "\<forall>i < Suc k. cr_transports r' ! i = cr_transports r2 ! i"
          using IH True Suc.hyps(2) n2 by simp_all
        moreover have "map (started_ok r2) [Suc k ..< ?n] = map (started_ok r) [Suc k ..< ?n]" by (rule ids) auto
        moreover have "\<forall>i < k. cr_transports r2 ! i = cr_transports r ! i" using s1(3) s2(3) by (auto simp: others_kept_def)
        moreover have "ready_above k r'"
          unfolding ready_above_def
        proof (intro allI impI)
          fix i assume i: "k \<le> i" "i < length (cr_transports r')" "at_health_supported (cr_transports r' ! i)"
          show "th_state (at_health (cr_transports r' ! i)) = TH_ready"
          proof (cases "i = k")
            case True
            then show ?thesis using i(3) False sup \<open>\<forall>i < Suc k. _\<close> by simp
          next
            case False
            then show ?thesis using i \<open>ready_above (Suc k) r'\<close> by (simp add: ready_above_def)
          qed
        qed
        ultimately show ?thesis using True same c2 k(2) by simp
      next
        case err: False
        then obtain m failure where m: "\<not> cr_running r'" "Suc k \<le> m" "m < ?n" "start_failure r2 m failure error"
            "calls (cr_events r') = calls (cr_events r2) @ map (started_ok r2) [Suc k ..< m] @ failure @ map (stopped_event r2) (rev [0 ..< m])"
          using IH Suc.hyps(2) n2 by auto
        have "start_failure r m failure error" using m(4) same_runtime_id [OF r2 m(3)] by (simp add: start_failure_def)
        moreover have "calls (cr_events r') = calls (cr_events r) @ map (started_ok r) [k ..< m] @ failure @ map (stopped_event r) (rev [0 ..< m])"
        proof -
          have "map (started_ok r2) [Suc k ..< m] = map (started_ok r) [Suc k ..< m]" using m(3) by (intro ids) auto
          moreover have "map (stopped_event r2) (rev [0 ..< m]) = map (stopped_event r) (rev [0 ..< m])" using m(3) by (intro ids) auto
          moreover have "[k ..< m] = k # [Suc k ..< m]" using m(2) by (simp add: upt_conv_Cons)
          ultimately show ?thesis using m(5) c2 by (simp del: upt_0 rev_map map_map)
        qed
        ultimately show ?thesis using m(1-3) err same by (auto intro: exI [of _ m])
      qed
    qed
  qed
qed

text \<open>C20: starting is all or nothing. Starting the runtime starts the providers in the order they were added. Either all of them start and those
  that report their health report ready, and the runtime runs; or the runtime does not run: the provider that failed is stopped if it had started
  and did not become ready, and exactly the providers before it, which had started, are stopped in reverse order. Nothing else is
  called.\<close>

theorem start_all_or_nothing:
  assumes "\<not> cr_running r" and "ComRuntime_Start r = (error, r')"
  shows "if error = CE_none then
      cr_running r' \<and> calls (cr_events r') = calls (cr_events r) @ map (started_ok r) [0 ..< length (cr_transports r)] \<and>
      (\<forall>a \<in> set (cr_transports r'). at_health_supported a \<longrightarrow> th_state (at_health a) = TH_ready)
    else
      \<not> cr_running r' \<and>
      (\<exists>k failure. k < length (cr_transports r) \<and> start_failure r k failure error \<and>
         calls (cr_events r') = calls (cr_events r) @ map (started_ok r) [0 ..< k] @ failure @ map (stopped_event r) (rev [0 ..< k]))"
proof -
  have s: "start_each [0 ..< length (cr_transports r)] r = (error, r')" using assms by (simp add: ComRuntime_Start_def)
  show ?thesis using start_each_spec [OF s _ assms(1)] by (auto simp: ready_above_def in_set_conv_nth)
qed

section \<open>The life of an instance\<close>

datatype Phase = PH_none | PH_idle | PH_running | PH_gone

definition move :: "bool \<Rightarrow> Phase \<Rightarrow> Phase \<Rightarrow> Phase \<Rightarrow> Phase option" where
  "move here from to p = (if here then if p = from then Some to else None else Some p)"

fun phase_step :: "nat \<Rightarrow> RuntimeEvent \<Rightarrow> Phase \<Rightarrow> Phase option" where
  "phase_step i (RE_created j) p = move (j = i) PH_none PH_idle p"
| "phase_step i (RE_started j st) p = move (j = i) PH_idle (if st = CS_OK then PH_running else PH_idle) p"
| "phase_step i (RE_stopped j) p = move (j = i) PH_running PH_idle p"
| "phase_step i (RE_destroyed j) p = move (j = i) PH_idle PH_gone p"
| "phase_step i _ p = Some p"

text \<open>\<open>None\<close> when the runtime has used the instance against its protocol.\<close>

definition phase_after :: "nat \<Rightarrow> RuntimeEvent list \<Rightarrow> Phase option \<Rightarrow> Phase option" where
  "phase_after i es p = fold (\<lambda>e s. Option.bind s (phase_step i e)) es p"

definition phase_of :: "nat \<Rightarrow> RuntimeEvent list \<Rightarrow> Phase option" where
  "phase_of i es = phase_after i es (Some PH_none)"

lemma phase_after_simps [simp]:
  "phase_after i [] p = p" "phase_after i (e # es) p = phase_after i es (Option.bind p (phase_step i e))"
  "phase_after i (es @ es') p = phase_after i es' (phase_after i es p)"
  by (simp_all add: phase_after_def)

lemma phase_after_calls: "phase_after i (calls es) p = phase_after i es p"
proof (induction es arbitrary: p)
  case (Cons e es)
  then show ?case by (cases e; cases p) simp_all
qed simp

lemma phase_of_append: "phase_of i (es @ es') = phase_after i es' (phase_of i es)"
  by (simp add: phase_of_def)

lemma phase_of_calls: "calls es = calls es' \<Longrightarrow> phase_of i es = phase_of i es'"
  unfolding phase_of_def by (metis phase_after_calls)

lemma phase_started_all:
  "distinct xs \<Longrightarrow> phase_after i (map (\<lambda>x. RE_started x CS_OK) xs) (Some p) =
     (if i \<in> set xs then if p = PH_idle then Some PH_running else None else Some p)"
proof (induction xs arbitrary: p)
  case (Cons x xs)
  have "phase_after i es None = None" for es by (induction es) simp_all
  then show ?case using Cons by (auto simp: move_def)
qed simp

lemma phase_moved_all:
  assumes "\<And>x p. phase_step i (f x) p = move (x = i) from to p"
  shows "distinct xs \<Longrightarrow> phase_after i (map f xs) (Some p) = (if i \<in> set xs then if p = from then Some to else None else Some p)"
proof (induction xs arbitrary: p)
  case (Cons x xs)
  have "phase_after i es None = None" for es by (induction es) simp_all
  then show ?case using Cons by (auto simp: move_def assms)
qed simp

lemmas phase_stopped_all = phase_moved_all [of i RE_stopped PH_running PH_idle for i, OF phase_step.simps(3)]
lemmas phase_destroyed_all = phase_moved_all [of i RE_destroyed PH_idle PH_gone for i, OF phase_step.simps(4)]

text \<open>Libraries that were opened and not closed.\<close>

fun library_delta :: "nat \<Rightarrow> RuntimeEvent \<Rightarrow> int" where
  "library_delta l (RE_opened k) = (if k = l then 1 else 0)"
| "library_delta l (RE_closed k) = (if k = l then - 1 else 0)"
| "library_delta l _ = 0"

definition open_libraries :: "nat \<Rightarrow> RuntimeEvent list \<Rightarrow> int" where
  "open_libraries l es = sum_list (map (library_delta l) es)"

lemma open_libraries_simps [simp]:
  "open_libraries l [] = 0" "open_libraries l (e # es) = library_delta l e + open_libraries l es"
  "open_libraries l (es @ es') = open_libraries l es + open_libraries l es'"
  by (simp_all add: open_libraries_def)

lemma open_libraries_calls: "open_libraries l (calls es) = open_libraries l es"
proof (induction es)
  case (Cons e es)
  then show ?case by (cases e) simp_all
qed simp

lemma open_libraries_none: "(\<And>e. e \<in> set es \<Longrightarrow> library_delta l e = 0) \<Longrightarrow> open_libraries l es = 0"
  by (induction es) simp_all

lemma open_libraries_closed: "open_libraries l (map RE_closed ls) = - int (count_list ls l)"
  by (induction ls) auto

section \<open>The invariant\<close>

text \<open>\<open>held\<close> are libraries a call has opened and not yet entered in the runtime.\<close>

definition expected_phase :: "'p ComRuntime \<Rightarrow> nat \<Rightarrow> Phase" where
  "expected_phase r i =
     (if i \<ge> cr_created r then PH_none
      else if i \<in> at_id ` set (cr_transports r) then if cr_running r then PH_running else PH_idle
      else PH_gone)"

abbreviation attached_names :: "'p ComRuntime \<Rightarrow> string list" where
  "attached_names r \<equiv> map (AsStringView \<circ> tf_name \<circ> at_factory) (cr_transports r)"

definition runtime_ok :: "nat list \<Rightarrow> 'p ComRuntime \<Rightarrow> bool" where
  "runtime_ok held r \<longleftrightarrow>
     distinct (map at_id (cr_transports r)) \<and> (\<forall>a \<in> set (cr_transports r). at_id a < cr_created r) \<and>
     (\<forall>i. phase_of i (cr_events r) = Some (expected_phase r i)) \<and>
     (\<forall>l. open_libraries l (cr_events r) = int (count_list (held @ cr_libraries r) l)) \<and>
     distinct (attached_names r)"

lemma runtime_ok_new [simp]: "runtime_ok [] (new_runtime name)"
  by (simp add: runtime_ok_def new_runtime_def expected_phase_def phase_of_def)

text \<open>Calls that leave the set of attached transports alone.\<close>

lemma runtime_ok_calls:
  assumes "runtime_ok held r" and "list_all2 same_transport (cr_transports r) (cr_transports r')" and "cr_created r' = cr_created r"
    and "cr_libraries r' = cr_libraries r" and "calls (cr_events r') = calls (cr_events r) @ es"
    and "\<And>i. phase_after i es (Some (expected_phase r i)) = Some (expected_phase r' i)" and "\<And>l. open_libraries l es = 0"
  shows "runtime_ok held r'"
proof -
  note maps = same_transports_maps [OF assms(2)]
  have "phase_of i (cr_events r') = Some (expected_phase r' i)" for i
  proof -
    have "phase_of i (cr_events r') = phase_of i (cr_events r @ es)"
      using assms(5) phase_after_calls [of i "cr_events r"] phase_after_calls [of i "cr_events r'"] by (simp add: phase_of_def)
    then show ?thesis using assms(1,6) by (simp add: phase_of_append runtime_ok_def)
  qed
  moreover have "open_libraries l (cr_events r') = open_libraries l (cr_events r)" for l
    using arg_cong [OF assms(5), of "open_libraries l"] assms(7) by (simp add: open_libraries_calls)
  moreover have "at_id ` set (cr_transports r') = at_id ` set (cr_transports r)" using maps(1) by (metis set_map)
  ultimately show ?thesis
    using assms(1,3,4) maps unfolding runtime_ok_def by (metis image_eqI image_iff)
qed

lemma runtime_ok_same:
  assumes "runtime_ok held r" and "same_runtime r r'" and "calls (cr_events r') = calls (cr_events r)"
  shows "runtime_ok held r'"
proof (rule runtime_ok_calls [OF assms(1), of _ "[]"])
  show "list_all2 same_transport (cr_transports r) (cr_transports r')" "cr_created r' = cr_created r" "cr_libraries r' = cr_libraries r"
    using assms(2) by (auto simp: same_runtime_def)
  then have "at_id ` set (cr_transports r') = at_id ` set (cr_transports r)" using same_transports_maps(1) by (metis set_map)
  then show "phase_after i [] (Some (expected_phase r i)) = Some (expected_phase r' i)" for i
    using assms(2) by (simp add: expected_phase_def same_runtime_def)
qed (use assms(3) in simp_all)

lemma attach_ok:
  assumes "runtime_ok held r" and "\<not> cr_running r" and "i = cr_created r" and "name = AsStringView (tf_name f)" and "name \<notin> set (attached_names r)"
    and "attach f name config capabilities i p (emit [RE_created i] (r\<lparr>cr_created := i + 1\<rparr>)) = (error, r')"
  shows "runtime_ok held r'"
proof -
  let ?r = "emit [RE_created i] (r\<lparr>cr_created := i + 1\<rparr>)"
  let ?health = "cc_feature_bits capabilities AND cap_HEALTH \<noteq> 0 \<and> tf_extended f p \<and> tf_health_functions f p"
  let ?diagnostics = "cc_feature_bits capabilities AND cap_DIAGNOSTICS \<noteq> 0 \<and> tf_extended f p \<and> tf_diagnostic_function f p"
  obtain st reports p1 where h: "(if ?health then tf_set_health_handler f p else (CS_OK, [], p)) = (st, reports, p1)" by (metis prod_cases3)
  obtain h es where t: "take_reports reports (\<lparr>th_provider = name, th_state = TH_stopped, th_sequence = 0, th_diagnostic = no_diagnostic\<rparr>, ?r) = (h, emit es ?r)"
    and es: "calls es = []" using take_reports_emits by metis
  obtain st2 p2 where d: "(if ?diagnostics then tf_set_diagnostic_handler f p1 else (CS_OK, p1)) = (st2, p2)" by fastforce
  have "(st \<noteq> CS_OK \<or> st2 \<noteq> CS_OK) \<and> r' = emit (RE_created i # es @ [RE_destroyed i]) (r\<lparr>cr_created := i + 1\<rparr>) \<or>
      r' = (emit (RE_created i # es) (r\<lparr>cr_created := i + 1\<rparr>))\<lparr>cr_transports := cr_transports r @ [\<lparr>at_id = i, at_factory = f, at_instance = p2,
        at_config = config, at_health = h, at_health_supported = ?health\<rparr>]\<rparr>"
    using assms(6) h t d by (auto simp: attach_def Let_def destroy_instance_def split: if_splits)
  moreover have phase: "phase_after j es s = s" for j s using phase_after_calls [of j es s] es by simp
  moreover have "open_libraries l es = 0" for l using open_libraries_calls [of l es] es by simp
  moreover have idle: "i \<notin> at_id ` set (cr_transports r)" using assms(1,3) by (auto simp: runtime_ok_def)
  ultimately show ?thesis
    using assms(1-5) by (elim disjE) (auto simp: runtime_ok_def expected_phase_def phase_of_append move_def less_Suc_eq image_iff)
qed

lemma AddTransport_ok:
  assumes "runtime_ok held r" and "AddTransport f config r = (error, r')"
  shows "runtime_ok held r'"
proof (cases "r' = r")
  case False
  obtain st q where c: "tf_create f (abi_config config r) = (st, q)" by fastforce
  let ?i = "cr_created r" and ?name = "AsStringView (tf_name f)"
  let ?r = "emit [RE_created ?i] (r\<lparr>cr_created := ?i + 1\<rparr>)"
  have guards: "\<not> cr_running r" "?name \<notin> set (attached_names r)" "q \<noteq> None"
    using assms(2) False c by (auto simp: AddTransport_def Let_def list_ex_iff split: if_splits option.splits)
  then obtain p where p: "q = Some p" by blast
  obtain cst so capabilities where g: "tf_get_capabilities f p = (cst, so, capabilities)" by (metis prod_cases3)
  consider "r' = destroy_instance ?i ?r" | "attach f ?name config capabilities ?i p ?r = (error, r')"
    using assms(2) False c g by (auto simp: AddTransport_def p Let_def split: if_splits)
  then show ?thesis
  proof cases
    case 1
    have "?i \<notin> at_id ` set (cr_transports r)" using assms(1) by (auto simp: runtime_ok_def)
    then show ?thesis
      using assms(1) guards(1) by (auto simp: 1 destroy_instance_def runtime_ok_def expected_phase_def phase_of_append move_def less_Suc_eq)
  next
    case 2
    then show ?thesis using attach_ok [OF assms(1) guards(1) refl refl guards(2)] by blast
  qed
qed (use assms(1) in simp)

lemma attach_kept: "attach f name config capabilities i p r = (error, r') \<Longrightarrow> cr_libraries r' = cr_libraries r \<and> cr_running r' = cr_running r"
proof -
  assume a: "attach f name config capabilities i p r = (error, r')"
  let ?health = "cc_feature_bits capabilities AND cap_HEALTH \<noteq> 0 \<and> tf_extended f p \<and> tf_health_functions f p"
  obtain st reports p1 where h: "(if ?health then tf_set_health_handler f p else (CS_OK, [], p)) = (st, reports, p1)" by (metis prod_cases3)
  obtain h' es where t: "take_reports reports (\<lparr>th_provider = name, th_state = TH_stopped, th_sequence = 0, th_diagnostic = no_diagnostic\<rparr>, r) = (h', emit es r)"
    using take_reports_emits by metis
  show ?thesis using a h t by (auto simp: attach_def Let_def destroy_instance_def split: if_splits prod.splits)
qed

lemma AddTransport_kept: "AddTransport f config r = (error, r') \<Longrightarrow> cr_libraries r' = cr_libraries r \<and> cr_running r' = cr_running r"
  by (auto simp: AddTransport_def Let_def destroy_instance_def dest!: attach_kept split: if_splits prod.splits option.splits)

lemma LoadTransport_ok:
  assumes "runtime_ok [] r" and "LoadTransport env provider config r = (error, r')"
  shows "runtime_ok [] r'"
proof (cases "r' = r")
  case False
  then obtain l where l: "first_library (cl_open env) (com_candidates (cl_search env) (''libovf_com_provider_'' @ provider @ ''.so'')) = Some l"
    using assms(2) by (auto simp: LoadTransport_def split: if_splits option.splits)
  let ?r = "emit [RE_opened l] r"
  have opened: "runtime_ok [l] ?r" using assms(1) by (auto simp: runtime_ok_def expected_phase_def phase_of_append)
  have closed: "runtime_ok [] (emit [RE_closed l] r2)" if "runtime_ok [l] r2" for r2 :: "'a ComRuntime"
    using that by (auto simp: runtime_ok_def expected_phase_def phase_of_append)
  have entered: "runtime_ok [] (r2\<lparr>cr_libraries := cr_libraries r2 @ [l]\<rparr>)" if "runtime_ok [l] r2" for r2 :: "'a ComRuntime"
    using that by (auto simp: runtime_ok_def expected_phase_def)
  show ?thesis
  proof (cases "cl_query env l")
    case None
    then show ?thesis using assms(2) False l closed [OF opened] by (auto simp: LoadTransport_def split: if_splits)
  next
    case (Some q)
    show ?thesis
    proof (cases q)
      case None
      then show ?thesis using assms(2) False l Some closed [OF opened] by (auto simp: LoadTransport_def split: if_splits)
    next
      case (Some f)
      obtain e r2 where a: "AddTransport f config ?r = (e, r2)" by fastforce
      have "runtime_ok [l] r2" using AddTransport_ok [OF opened a] .
      then show ?thesis
        using assms(2) False l \<open>cl_query env l = Some q\<close> Some a closed entered by (auto simp: LoadTransport_def Let_def split: if_splits)
    qed
  qed
qed (use assms(1) in simp)

lemma load_all_ok: "runtime_ok [] r \<Longrightarrow> load_all env ts r = (error, r') \<Longrightarrow> runtime_ok [] r'"
  by (induction env ts r rule: load_all.induct) (auto dest: LoadTransport_ok split: prod.splits if_splits)

lemma runtime_ok_routes: "runtime_ok [] r \<Longrightarrow> runtime_ok [] (r\<lparr>cr_routes := routes\<rparr>)"
  by (simp add: runtime_ok_def expected_phase_def)

lemma ConfigureDeployment_ok:
  "runtime_ok [] r \<Longrightarrow> ConfigureDeployment L files env path r = Some (error, r') \<Longrightarrow> runtime_ok [] r'"
  by (auto simp: ConfigureDeployment_def bind_eq_Some_conv Let_def split: if_splits prod.splits dest: load_all_ok intro: runtime_ok_routes)

lemma start_ok:
  assumes "runtime_ok [] r" and "ComRuntime_Start r = (error, r')"
  shows "runtime_ok [] r'"
proof (cases "cr_running r")
  case False
  let ?n = "length (cr_transports r)"
  have s: "start_each [0 ..< ?n] r = (error, r')" using assms False by (simp add: ComRuntime_Start_def)
  note spec = start_each_spec [OF s _ False]
  have maps: "map at_id (cr_transports r') = map at_id (cr_transports r)" using spec same_transports_maps(1) by blast
  then have ids: "at_id ` set (cr_transports r') = at_id ` set (cr_transports r)" by (metis set_map)
  have ups: "map (started_ok r) xs = map (\<lambda>x. RE_started x CS_OK) (map (transport_id r) xs)"
    "map (stopped_event r) xs = map RE_stopped (map (transport_id r) xs)" for xs by simp_all
  have all: "map (transport_id r) [0 ..< ?n] = map at_id (cr_transports r)" by (rule nth_equalityI) simp_all
  have dist: "distinct (map at_id (cr_transports r))" using assms(1) by (simp add: runtime_ok_def)
  have inj: "distinct (map (transport_id r) [0 ..< k])" if "k \<le> ?n" for k
    using dist that unfolding all [symmetric] by (auto simp: distinct_map intro: inj_on_subset)
  have lt: "x < cr_created r" if "x \<in> at_id ` set (cr_transports r)" for x using that assms(1) by (auto simp: runtime_ok_def)
  show ?thesis
  proof (cases "error = CE_none")
    case True
    then have c: "cr_running r'" "calls (cr_events r') = calls (cr_events r) @ map (started_ok r) [0 ..< ?n]" using spec by simp_all
    show ?thesis
    proof (rule runtime_ok_calls [OF assms(1) _ _ _ c(2)])
      show "phase_after i (map (started_ok r) [0 ..< ?n]) (Some (expected_phase r i)) = Some (expected_phase r' i)" for i
        unfolding ups(1) all phase_started_all [OF dist] expected_phase_def ids set_map using False c(1) spec lt [of i] by auto
      show "open_libraries l (map (started_ok r) [0 ..< ?n]) = 0" for l by (rule open_libraries_none) auto
    qed (use spec in auto)
  next
    case err: False
    then obtain k failure where k: "k < ?n" "start_failure r k failure error" "\<not> cr_running r'"
      and c: "calls (cr_events r') = calls (cr_events r) @ (map (started_ok r) [0 ..< k] @ failure @ map (stopped_event r) (rev [0 ..< k]))"
      using spec by auto
    have new: "transport_id r k \<notin> set (map (transport_id r) [0 ..< k])" using inj [of "Suc k"] k(1) by simp
    have mem: "set (map (transport_id r) [0 ..< k]) \<subseteq> at_id ` set (cr_transports r)" "transport_id r k \<in> at_id ` set (cr_transports r)"
      using k(1) by (auto intro!: imageI)
    show ?thesis
    proof (rule runtime_ok_calls [OF assms(1) _ _ _ c])
      fix i
      have kept: "expected_phase r' i = expected_phase r i" using spec ids k(3) False by (simp add: expected_phase_def)
      have idle: "expected_phase r i = PH_idle" if "i \<in> at_id ` set (cr_transports r)" using that lt False by (auto simp: expected_phase_def not_le)
      have fails: "phase_after i failure (Some p) = Some p" if "i = transport_id r k \<longrightarrow> p = PH_idle" for p
        using k(2) that by (auto simp: start_failure_def move_def)
      have rev: "distinct (map (transport_id r) (rev [0 ..< k]))" using inj [of k] k(1) by (simp add: distinct_map)
      show "phase_after i (map (started_ok r) [0 ..< k] @ failure @ map (stopped_event r) (rev [0 ..< k])) (Some (expected_phase r i)) =
          Some (expected_phase r' i)"
        unfolding ups kept phase_after_simps(3)
        using phase_started_all [OF inj [of k]] phase_stopped_all [OF rev] fails idle mem new k(1)
        by (cases "i \<in> set (map (transport_id r) [0 ..< k])"; cases "i = transport_id r k") auto
    next
      show "open_libraries l (map (started_ok r) [0 ..< k] @ failure @ map (stopped_event r) (rev [0 ..< k])) = 0" for l
        using k(2) by (intro open_libraries_none) (auto simp: start_failure_def)
    qed (use spec in auto)
  qed
qed (use assms in \<open>simp add: ComRuntime_Start_def\<close>)

lemma stop_ok:
  assumes "runtime_ok [] r"
  shows "runtime_ok [] (ComRuntime_Stop r)"
proof (cases "cr_running r")
  case True
  let ?n = "length (cr_transports r)"
  let ?r = "stop_below ?n r"
  have s: "same_runtime r ?r" "calls (cr_events ?r) = calls (cr_events r) @ map (stopped_event r) (rev [0 ..< ?n])"
    using stop_below_spec [of ?n r] by simp_all
  have ids: "at_id ` set (cr_transports ?r) = at_id ` set (cr_transports r)"
    using s(1) same_transports_maps(1) [of "cr_transports r" "cr_transports ?r"] by (metis same_runtime_def set_map)
  have all: "map (stopped_event r) (rev [0 ..< ?n]) = map RE_stopped (rev (map at_id (cr_transports r)))"
    by (rule nth_equalityI) (simp_all add: rev_nth)
  have dist: "distinct (rev (map at_id (cr_transports r)))" using assms by (simp add: runtime_ok_def)
  have lt: "x < cr_created r" if "x \<in> at_id ` set (cr_transports r)" for x using that assms by (auto simp: runtime_ok_def)
  have "runtime_ok [] (?r\<lparr>cr_running := False\<rparr>)"
  proof (rule runtime_ok_calls [OF assms])
    show "calls (cr_events (?r\<lparr>cr_running := False\<rparr>)) = calls (cr_events r) @ map (stopped_event r) (rev [0 ..< ?n])" using s(2) by simp
    show "phase_after i (map (stopped_event r) (rev [0 ..< ?n])) (Some (expected_phase r i)) = Some (expected_phase (?r\<lparr>cr_running := False\<rparr>) i)" for i
      unfolding all phase_stopped_all [OF dist] expected_phase_def using True ids s(1) lt [of i] by (auto simp: same_runtime_def)
    show "open_libraries l (map (stopped_event r) (rev [0 ..< ?n])) = 0" for l by (rule open_libraries_none) auto
  qed (use s(1) in \<open>simp_all add: same_runtime_def\<close>)
  then show ?thesis using True by (simp add: ComRuntime_Stop_def)
qed (use assms in \<open>simp add: ComRuntime_Stop_def\<close>)

lemma report_health_ok:
  assumes "runtime_ok [] r"
  shows "runtime_ok [] (report_health i reports r)"
proof -
  obtain h es where t: "take_reports reports (at_health (cr_transports r ! i), r) = (h, emit es r)" "calls es = []"
    "th_provider h = th_provider (at_health (cr_transports r ! i))" using take_reports_emits by metis
  show ?thesis
  proof (rule runtime_ok_same [OF assms])
    show "same_runtime r (report_health i reports r)"
      using t by (simp add: report_health_def Let_def same_runtime_def) (intro same_transports_update, simp add: same_transport_def)
    show "calls (cr_events (report_health i reports r)) = calls (cr_events r)" using t by (simp add: report_health_def Let_def)
  qed
qed

lemma OnHealth_ok: "runtime_ok [] r \<Longrightarrow> runtime_ok [] (OnHealth callback r)"
  by (rule runtime_ok_same, assumption) (auto simp: OnHealth_def Let_def same_runtime_def filter_empty_conv split: option.split)

lemma OnDiagnostic_ok: "runtime_ok [] r \<Longrightarrow> runtime_ok [] (OnDiagnostic callback r)"
  by (rule runtime_ok_same, assumption) (auto simp: OnDiagnostic_def same_runtime_def)

section \<open>Everything a client can do\<close>

inductive runtime_reachable :: "'p ComRuntime \<Rightarrow> bool" where
  created: "runtime_reachable (new_runtime name)"
| add: "runtime_reachable r \<Longrightarrow> AddTransport f config r = (error, r') \<Longrightarrow> runtime_reachable r'"
| load: "runtime_reachable r \<Longrightarrow> LoadTransport env provider config r = (error, r') \<Longrightarrow> runtime_reachable r'"
| deploy: "runtime_reachable r \<Longrightarrow> load_all env transports r = (error, r') \<Longrightarrow> runtime_reachable (r'\<lparr>cr_routes := routes\<rparr>)"
| start: "runtime_reachable r \<Longrightarrow> ComRuntime_Start r = (error, r') \<Longrightarrow> runtime_reachable r'"
| stop: "runtime_reachable r \<Longrightarrow> runtime_reachable (ComRuntime_Stop r)"
| report: "runtime_reachable r \<Longrightarrow> runtime_reachable (report_health i reports r)"
| on_health: "runtime_reachable r \<Longrightarrow> runtime_reachable (OnHealth callback r)"
| on_diagnostic: "runtime_reachable r \<Longrightarrow> runtime_reachable (OnDiagnostic callback r)"

lemma reachable_runtime_ok: "runtime_reachable r \<Longrightarrow> runtime_ok [] r"
  by (induction rule: runtime_reachable.induct)
    (auto intro: AddTransport_ok LoadTransport_ok load_all_ok start_ok stop_ok report_health_ok OnHealth_ok OnDiagnostic_ok runtime_ok_routes)

text \<open>What the destructor leaves.\<close>

lemma destroyed_clean:
  assumes "runtime_ok [] r"
  shows "i < cr_created r \<Longrightarrow> phase_of i (cr_events (destroy_runtime r)) = Some PH_gone"
    "open_libraries l (cr_events (destroy_runtime r)) = 0" "cr_created (destroy_runtime r) = cr_created r"
proof -
  let ?s = "ComRuntime_Stop r"
  have stopped: "runtime_ok [] ?s" using assms by (rule stop_ok)
  have idle: "\<not> cr_running ?s" "cr_created ?s = cr_created r"
    using stop_below_spec [of "length (cr_transports r)" r] by (auto simp: ComRuntime_Stop_def same_runtime_def)
  have dist: "distinct (map at_id (cr_transports ?s))" and p: "phase_of i (cr_events ?s) = Some (expected_phase ?s i)"
    and l: "open_libraries l (cr_events ?s) = int (count_list (cr_libraries ?s) l)"
    using stopped by (simp_all add: runtime_ok_def)
  have close: "phase_after i (map RE_closed xs) q = q" for xs q by (induction xs) (auto split: bind_splits)
  show "phase_of i (cr_events (destroy_runtime r)) = Some PH_gone" if "i < cr_created r"
    using that idle p phase_destroyed_all [OF dist, of i]
    by (auto simp: destroy_runtime_def destroy_impl_def phase_of_append expected_phase_def close)
  have "open_libraries l (map (RE_destroyed \<circ> at_id) (cr_transports ?s)) = 0" by (rule open_libraries_none) auto
  then show "open_libraries l (cr_events (destroy_runtime r)) = 0"
    using l by (simp add: destroy_runtime_def destroy_impl_def open_libraries_closed)
  show "cr_created (destroy_runtime r) = cr_created r" using idle(2) by (simp add: destroy_runtime_def destroy_impl_def)
qed


lemma ConfigureDeployment_reachable:
  assumes "runtime_reachable r" and "ConfigureDeployment L files env path r = Some (error, r')"
  shows "runtime_reachable r'"
proof (cases "r' = r")
  case False
  then obtain transports routes e r1 where "load_all env transports r = (e, r1)" "r' = r1 \<or> r' = r1\<lparr>cr_routes := routes\<rparr>"
    using assms(2) by (auto simp: ConfigureDeployment_def bind_eq_Some_conv Let_def split: if_splits prod.splits)
  then show ?thesis using runtime_reachable.deploy [OF assms(1), of env transports e r1 "cr_routes r1"]
      runtime_reachable.deploy [OF assms(1), of env transports e r1 routes] by auto
qed (use assms(1) in simp)

lemma load_registered_reachable:
  "runtime_reachable r \<Longrightarrow> load_registered env loaded ts r = (e, r') \<Longrightarrow> runtime_reachable r'"
  by (induction env loaded ts r rule: load_registered.induct) (auto split: if_splits prod.splits, blast intro: runtime_reachable.load, metis runtime_reachable.load)

text \<open>An application gets a running runtime, or an error and nothing left behind.\<close>

lemma start_application_clean:
  assumes "runtime_reachable r" and "\<not> cr_running r" and "start_application r = (e, r')"
  shows "case e of None \<Rightarrow> cr_running r' \<and> runtime_reachable r'
    | Some _ \<Rightarrow> (\<forall>i < cr_created r'. phase_of i (cr_events r') = Some PH_gone) \<and> (\<forall>l. open_libraries l (cr_events r') = 0)"
proof -
  obtain error r1 where s: "ComRuntime_Start r = (error, r1)" by fastforce
  have r1: "runtime_reachable r1" by (rule runtime_reachable.start [OF assms(1) s])
  have "start_each [0 ..< length (cr_transports r)] r = (error, r1)" using s assms(2) by (simp add: ComRuntime_Start_def)
  then have "cr_running r1" if "error = CE_none" using start_each_spec [of 0 r error r1] assms(2) that by simp
  then show ?thesis
    using assms(3) s r1 destroyed_clean [OF reachable_runtime_ok [OF r1]] by (auto simp: start_application_def split: if_splits)
qed

section \<open>The in-process transport as a provider\<close>

definition health_reports :: "ComAction list \<Rightarrow> ComHealth list" where
  "health_reports actions = concat (map (\<lambda>a. case a of AC_health c h \<Rightarrow> [h] | _ \<Rightarrow> []) actions)"

definition reporting :: "ComStatus \<times> InprocTransport \<times> ComAction list \<Rightarrow> ComStatus \<times> ComHealth list \<times> InprocTransport" where
  "reporting res = (fst res, health_reports (snd (snd res)), fst (snd res))"

text \<open>The table of the in-process transport, with the callback of the runtime as callback 0.\<close>

definition inproc_factory :: "InprocTransport TransportFactory" where
  "inproc_factory = \<lparr>tf_struct_ok = True, tf_abi_version = 1, tf_functions = True, tf_name = Some ''inproc'',
     tf_create = (\<lambda>c. Inproc_Create True (ac_max_endpoints c) (ac_max_outstanding_operations c) True),
     tf_instance_ok = (\<lambda>_. True),
     tf_get_capabilities = (\<lambda>t. case Inproc_Capabilities True t of
        (st, Some c) \<Rightarrow> (st, True, c)
      | (st, None) \<Rightarrow> (st, False, \<lparr>cc_feature_bits = 0, cc_isolation = IS_INDEPENDENT, cc_max_endpoints = 0, cc_max_subscriptions = 0,
          cc_max_outstanding_operations = 0, cc_max_iovecs = 0, cc_max_payload_size = 0, cc_max_loan_size = 0, cc_max_history_depth = 0\<rparr>)),
     tf_extended = (\<lambda>_. True), tf_health_functions = (\<lambda>_. True), tf_diagnostic_function = (\<lambda>_. True),
     tf_set_health_handler = (\<lambda>t. reporting (SetHealthHandler (Some 0) t)),
     tf_set_diagnostic_handler = (\<lambda>t. (fst (SetDiagnosticHandler (Some 0) t), fst (snd (SetDiagnosticHandler (Some 0) t)))),
     tf_start = (\<lambda>t. reporting (Inproc_Start t)), tf_stop = (\<lambda>t. reporting (Inproc_Stop t)), tf_await = (\<lambda>_ t. ([], t))\<rparr>"

lemma inproc_bits: "advertised_features AND cap_HEALTH \<noteq> 0" "advertised_features AND cap_DIAGNOSTICS \<noteq> 0"
  by code_simp+

lemma health_reports_simps [simp]:
  "health_reports [] = []" "health_reports (AC_health c h # as) = h # health_reports as" "health_reports (AC_log m # as) = health_reports as"
  by (simp_all add: health_reports_def)

text \<open>The runtime runs the in-process transport. With any limits an application configures, attaching the in-process transport to a new
  runtime succeeds, starting the runtime succeeds and leaves it running with the transport reported ready, and stopping it leaves the transport
  stopped, reported as stopped, with no endpoint or operation left.\<close>

theorem inproc_runtime_runs:
  "let (attached, r1) = AddTransport inproc_factory config (new_runtime name);
       (started, r2) = ComRuntime_Start r1;
       r3 = ComRuntime_Stop r2 in
   attached = CE_none \<and> started = CE_none \<and> cr_running r2 \<and> map th_state (ComRuntime_Health r2) = [TH_ready] \<and>
   map (it_running \<circ> at_instance) (cr_transports r2) = [True] \<and>
   \<not> cr_running r3 \<and> map th_state (ComRuntime_Health r3) = [TH_stopped] \<and> map (it_running \<circ> at_instance) (cr_transports r3) = [False] \<and>
   map (it_endpoints \<circ> at_instance) (cr_transports r3) = [[]] \<and> map (it_pending \<circ> at_instance) (cr_transports r3) = [[]]"
  by (simp add: AddTransport_def new_runtime_def inproc_factory_def AsStringView_def Inproc_Create_def abi_config_def Inproc_Capabilities_def
    attach_def inproc_bits SetHealthHandler_def SetDiagnosticHandler_def reporting_def of_callback_def Let_def take_reports_def OnProviderHealth_def
    ComRuntime_Start_def start_transport_def on_transport_def Inproc_Start_def await_health_def health_now_def ComRuntime_Stop_def stop_transport_def
    Inproc_Stop_def ComRuntime_Health_def emit_def)

theorem start_all_or_nothing_witness:
  "let r = snd (AddTransport inproc_factory \<lparr>tc_configuration = [], tc_max_endpoints = 4, tc_max_outstanding_operations = 4, tc_start_timeout = 5,
         tc_stop_timeout = 5\<rparr> (new_runtime ''demo''));
       r' = snd (ComRuntime_Start r) in
   cr_running r' \<and> calls (cr_events r') = [RE_created 0, RE_started 0 CS_OK]"
proof -
  let ?c = "\<lparr>tc_configuration = [], tc_max_endpoints = 4, tc_max_outstanding_operations = 4, tc_start_timeout = 5, tc_stop_timeout = 5\<rparr>"
  let ?r = "snd (AddTransport inproc_factory ?c (new_runtime ''demo''))"
  have "\<not> cr_running ?r" "fst (ComRuntime_Start ?r) = CE_none" "calls (cr_events ?r) = [RE_created 0]" "length (cr_transports ?r) = 1"
    "transport_id ?r 0 = 0" by code_simp+
  then show ?thesis
    using start_all_or_nothing [of ?r CE_none "snd (ComRuntime_Start ?r)"] by (simp add: Let_def prod_eq_iff)
qed


section \<open>Where the runtime falls short\<close>

text \<open>Assigning to a running runtime destroys its instances while they run.\<close>

lemma move_assignment_destroys_running:
  assumes "runtime_reachable r" and "cr_running r" and "a \<in> set (cr_transports r)"
  shows "phase_of (at_id a) (cr_events (move_assigned r)) = None"
proof -
  have ok: "distinct (map at_id (cr_transports r))" "phase_of (at_id a) (cr_events r) = Some PH_running"
    using reachable_runtime_ok [OF assms(1)] assms(2,3) by (auto simp: runtime_ok_def expected_phase_def)
  have none: "phase_after i es None = None" for i es by (induction es) simp_all
  show ?thesis
    using ok assms(3) phase_destroyed_all [OF ok(1), of "at_id a"] by (simp add: move_assigned_def destroy_impl_def phase_of_append none)
qed

text \<open>A provider that becomes ready only after its start has returned is refused without being waited for: its health is still what it was
  before the start, which is not \<open>initializing\<close>.\<close>

lemma asynchronous_provider_refused:
  assumes "cr_transports r = [a]" and "at_health_supported a" and "th_state (at_health a) = TH_stopped" and "\<not> cr_running r"
    and "tf_start (at_factory a) (at_instance a) = (CS_OK, [], p)"
  shows "fst (ComRuntime_Start r) = CE_provider_failure"
  using assms by (simp add: ComRuntime_Start_def start_transport_def on_transport_def take_reports_def await_health_def Let_def)

text \<open>A deployment with a version that is not a number is an allocation failure for the application.\<close>

lemma malformed_version_is_exhaustion:
  assumes "files path = Some document" and "path \<noteq> []" and "dl_read L document = DR_value root" and "dl_isObject L root"
    and "dl_at L root ''runtimeDeploymentVersion'' = Some v" and "dl_asUInt64 L v = None"
  shows "fst (CreateApplicationRuntime_deployed L files env name path) = Some (CE_resource_exhausted, ''cannot allocate communication runtime'')"
  using assms by (simp add: CreateApplicationRuntime_deployed_def ConfigureDeployment_def new_runtime_def ParseDeployment_def)

text \<open>A deployment of which one provider cannot be loaded leaves the providers before it attached, so that a second attempt fails at them.\<close>

lemma attached_twice_refused:
  assumes "AddTransport f config r = (CE_none, r')"
  shows "AddTransport f config' r' = (CE_duplicate_transport, r')"
proof -
  have "\<not> cr_running r" "tf_struct_ok f" "tf_abi_version f = 1" "tf_functions f" "tf_name f \<noteq> None" "tf_name f \<noteq> Some []"
    using assms by (auto simp: AddTransport_def split: if_splits)
  moreover obtain p i name capabilities r1 where a: "attach f name config capabilities i p r1 = (CE_none, r')"
    using assms by (auto simp: AddTransport_def Let_def split: if_splits prod.splits option.splits)
  moreover have "f \<in> at_factory ` set (cr_transports r')"
    using a by (auto simp: attach_def Let_def split: if_splits prod.splits)
  moreover have "cr_running r' = cr_running r" using AddTransport_kept [OF assms] by simp
  ultimately show ?thesis by (auto simp: AddTransport_def list_ex_iff Let_def)
qed

text \<open>A timeout the parser accepts can become negative.\<close>

lemma long_timeout_negative: "sint (milliseconds 9223372036855) < 0"
  by code_simp

end
