(* ===== verification/Exec_Types.thy ===== *)
theory Exec_Types
  imports OVF_Prelude
begin

text \<open>
  The vocabulary of the execution cluster: \<^verbatim>\<open>exec/include/ovf/exec/types.hpp\<close>,
  \<^verbatim>\<open>error.hpp\<close> and the data declarations of \<^verbatim>\<open>model.hpp\<close>. Identifiers are 64-bit words with zero
  reserved; durations and time points are integers (milliseconds and nanoseconds). Enumerations
  are datatypes; the ones whose numeric values the sources compare or serialise
  (\<open>TransitionPhase\<close>, \<open>ErrorCode\<close>, \<open>FailureAction\<close>) come with their \<open>static_cast\<close>s.
\<close>

section \<open>Identifiers and enumerations\<close>

type_synonym ApplicationId = u64
type_synonym ExecutionUnitId = u64
type_synonym DomainId = u64
type_synonym ModeId = u64
type_synonym ResourceId = u64
type_synonym TransitionId = u64
type_synonym ModelGeneration = u64
type_synonym Deadline = int

definition id_valid :: "u64 \<Rightarrow> bool" where
  "id_valid i = (i \<noteq> 0)"

record ModeRef =
  mr_domain :: DomainId
  mr_mode :: ModeId

datatype ApplicationState =
    AS_unknown | AS_starting | AS_ready | AS_stopping | AS_stopped | AS_failed | AS_killed
  | AS_unavailable

datatype DomainStatus = DS_unknown | DS_stable | DS_transitioning | DS_degraded | DS_recovering

datatype TransitionPhase =
    TP_received | TP_validated | TP_planned | TP_stopping | TP_starting | TP_awaiting_readiness
  | TP_committing | TP_succeeded | TP_rejected | TP_failed | TP_cancelled | TP_superseded
  | TP_deadline_exceeded | TP_recovery_failed | TP_recovering

datatype StopReason =
    SR_none | SR_mode_change | SR_system_shutdown | SR_restart | SR_supervisor_request
  | SR_dependency_failure | SR_recovery | SR_unknown

datatype ReplacementPolicy = RP_reject_while_busy | RP_queue | RP_supersede_if_safe

datatype FailureAction =
    FA_hold_observed_configuration | FA_enter_fallback_mode | FA_rollback_if_declared_safe
  | FA_stop_domain | FA_request_system_recovery

datatype ReadinessPolicy =
    RD_lifecycle_channel | RD_process_started | RD_supervisor_notification | RD_successful_exit
  | RD_socket_available | RD_mount_present

abbreviation RD_required :: ReadinessPolicy where
  "RD_required \<equiv> RD_lifecycle_channel"

datatype ErrorCode =
    EC_none | EC_invalid_argument | EC_invalid_identifier | EC_invalid_transition
  | EC_already_exists | EC_not_found | EC_permission_denied | EC_busy | EC_superseded
  | EC_cancelled | EC_deadline_exceeded | EC_resource_exhausted | EC_configuration_error
  | EC_communication_error | EC_backend_unavailable | EC_backend_error | EC_persistence_error
  | EC_incompatible_abi | EC_unsupported | EC_internal_error

section \<open>Numeric values of the enumerations\<close>

definition transition_phases :: "TransitionPhase list" where
  "transition_phases =
     [TP_received, TP_validated, TP_planned, TP_stopping, TP_starting, TP_awaiting_readiness,
      TP_committing, TP_succeeded, TP_rejected, TP_failed, TP_cancelled, TP_superseded,
      TP_deadline_exceeded, TP_recovery_failed, TP_recovering]"

definition error_codes :: "ErrorCode list" where
  "error_codes =
     [EC_none, EC_invalid_argument, EC_invalid_identifier, EC_invalid_transition,
      EC_already_exists, EC_not_found, EC_permission_denied, EC_busy, EC_superseded,
      EC_cancelled, EC_deadline_exceeded, EC_resource_exhausted, EC_configuration_error,
      EC_communication_error, EC_backend_unavailable, EC_backend_error, EC_persistence_error,
      EC_incompatible_abi, EC_unsupported, EC_internal_error]"

definition failure_actions :: "FailureAction list" where
  "failure_actions =
     [FA_hold_observed_configuration, FA_enter_fallback_mode, FA_rollback_if_declared_safe,
      FA_stop_domain, FA_request_system_recovery]"

fun index_of :: "'a list \<Rightarrow> 'a \<Rightarrow> nat" where
  "index_of [] x = 0"
| "index_of (y # ys) x = (if y = x then 0 else Suc (index_of ys x))"

definition phase_value :: "TransitionPhase \<Rightarrow> u8" where
  "phase_value p = of_nat (index_of transition_phases p)"

definition phase_of_value :: "u8 \<Rightarrow> TransitionPhase" where
  "phase_of_value b = transition_phases ! unat b"

definition error_code_value :: "ErrorCode \<Rightarrow> u16" where
  "error_code_value c = of_nat (index_of error_codes c)"

definition error_code_of_value :: "u16 \<Rightarrow> ErrorCode" where
  "error_code_of_value b = error_codes ! unat b"

definition failure_action_value :: "FailureAction \<Rightarrow> u8" where
  "failure_action_value a = of_nat (index_of failure_actions a)"

definition failure_action_of_value :: "u8 \<Rightarrow> FailureAction" where
  "failure_action_of_value b = failure_actions ! unat b"

section \<open>Errors\<close>

record Error =
  err_code :: ErrorCode
  err_message :: string
  err_support_data :: u64

definition MakeError :: "ErrorCode \<Rightarrow> string \<Rightarrow> u64 \<Rightarrow> Error" where
  "MakeError code message support_data =
     \<lparr>err_code = code, err_message = message, err_support_data = support_data\<rparr>"

section \<open>The execution model data\<close>

datatype ExecutionUnitKind = UK_managed_application | UK_service | UK_one_shot | UK_mount | UK_external

record RetryPolicy =
  max_attempts :: u32
  retry_delay :: int

record ExecutionUnitDefinition =
  eu_id :: ApplicationId
  eu_name :: string
  eu_readiness :: ReadinessPolicy
  eu_start_timeout :: int
  eu_stop_timeout :: int
  eu_retry :: RetryPolicy
  eu_dependencies :: "ApplicationId list"
  eu_exclusive_resources :: "ResourceId list"
  eu_kind :: ExecutionUnitKind
  eu_bootstrap :: bool

datatype ConstraintKind = CK_requires_mode | CK_excludes_mode

record ModeConstraint =
  mc_kind :: ConstraintKind
  mc_other :: ModeRef

record ModeDefinition =
  md_id :: ModeId
  md_name :: string
  md_units :: "ExecutionUnitId list"
  md_constraints :: "ModeConstraint list"

record RecoveryPolicy =
  rp_action :: FailureAction
  rp_fallback_mode :: ModeId
  rp_deadline :: int

record DomainDefinition =
  dd_id :: DomainId
  dd_name :: string
  dd_initial_mode :: ModeId
  dd_replacement :: ReplacementPolicy
  dd_recovery :: RecoveryPolicy
  dd_modes :: "ModeDefinition list"

record ExecutionModel =
  em_generation :: ModelGeneration
  em_units :: "ExecutionUnitDefinition list"
  em_domains :: "DomainDefinition list"

datatype ModelIssueCode =
    MI_invalid_generation | MI_invalid_identifier | MI_invalid_name | MI_duplicate_identifier
  | MI_duplicate_name | MI_invalid_timeout | MI_invalid_retry_policy
  | MI_invalid_readiness_policy | MI_invalid_unit_membership | MI_unknown_application
  | MI_unknown_dependency | MI_dependency_cycle | MI_unknown_initial_mode
  | MI_unknown_constraint_mode | MI_self_constraint | MI_invalid_fallback_mode
  | MI_contradictory_constraint

record ModelIssue =
  mi_code :: ModelIssueCode
  mi_path :: string
  mi_message :: string

definition Issue :: "ModelIssueCode \<Rightarrow> string \<Rightarrow> string \<Rightarrow> ModelIssue" where
  "Issue code path message = \<lparr>mi_code = code, mi_path = path, mi_message = message\<rparr>"

section \<open>Facts about the enumerations\<close>

lemma index_of_less: "x \<in> set xs \<Longrightarrow> index_of xs x < length xs"
  by (induction xs) auto

lemma nth_index_of: "x \<in> set xs \<Longrightarrow> xs ! index_of xs x = x"
  by (induction xs) auto

lemma in_transition_phases [simp]: "p \<in> set transition_phases"
  by (cases p) (simp_all add: transition_phases_def)

lemma in_error_codes [simp]: "c \<in> set error_codes"
  by (cases c) (simp_all add: error_codes_def)

lemma in_failure_actions [simp]: "a \<in> set failure_actions"
  by (cases a) (simp_all add: failure_actions_def)

lemma unat_enum_value:
  assumes "x \<in> set xs" and "length xs \<le> 2 ^ LENGTH('w::len)"
  shows "unat (of_nat (index_of xs x) :: 'w word) = index_of xs x"
  using index_of_less [OF assms(1)] assms(2) by (simp add: unat_of_nat take_bit_nat_eq_self)

lemma unat_phase_value: "unat (phase_value p) = index_of transition_phases p"
  unfolding phase_value_def by (rule unat_enum_value) (simp_all, simp add: transition_phases_def)

lemma unat_error_code_value: "unat (error_code_value c) = index_of error_codes c"
  unfolding error_code_value_def by (rule unat_enum_value) (simp_all, simp add: error_codes_def)

lemma unat_failure_action_value: "unat (failure_action_value a) = index_of failure_actions a"
  unfolding failure_action_value_def
  by (rule unat_enum_value) (simp_all, simp add: failure_actions_def)

lemma phase_of_value_value [simp]: "phase_of_value (phase_value p) = p"
  by (simp add: phase_of_value_def unat_phase_value nth_index_of)

lemma error_code_of_value_value [simp]: "error_code_of_value (error_code_value c) = c"
  by (simp add: error_code_of_value_def unat_error_code_value nth_index_of)

lemma failure_action_of_value_value [simp]: "failure_action_of_value (failure_action_value a) = a"
  by (simp add: failure_action_of_value_def unat_failure_action_value nth_index_of)

lemma phase_value_le: "phase_value p \<le> phase_value TP_recovering"
  by (cases p) (simp_all add: phase_value_def transition_phases_def)

lemma error_code_value_le: "error_code_value c \<le> error_code_value EC_internal_error"
  by (cases c) (simp_all add: error_code_value_def error_codes_def)

lemma failure_action_value_le:
  "failure_action_value a \<le> failure_action_value FA_request_system_recovery"
  by (cases a) (simp_all add: failure_action_value_def failure_actions_def)

lemma inj_phase_value: "phase_value p = phase_value q \<Longrightarrow> p = q"
  by (metis phase_of_value_value)

text \<open>The phases are ordered by their numeric value, as the journal replay compares them.\<close>

instantiation TransitionPhase :: linorder
begin

definition less_eq_TransitionPhase :: "TransitionPhase \<Rightarrow> TransitionPhase \<Rightarrow> bool" where
  "less_eq_TransitionPhase p q = (phase_value p \<le> phase_value q)"

definition less_TransitionPhase :: "TransitionPhase \<Rightarrow> TransitionPhase \<Rightarrow> bool" where
  "less_TransitionPhase p q = (phase_value p < phase_value q)"

instance
  by standard
    (auto simp: less_eq_TransitionPhase_def less_TransitionPhase_def dest: inj_phase_value)

end

end
