(* ===== verification/Exec_Model.thy ===== *)
theory Exec_Model
  imports Exec_Types
begin

text \<open>
  The execution model and its validation, \<^verbatim>\<open>exec/src/model.cpp\<close>: \<open>InspectModel\<close> with its loops and
  the depth-first search for dependency cycles, \<open>ValidateModel\<close>, the lookup indexes of
  \<open>ValidatedModel\<close> and the \<open>ToString\<close> tables. The lemmas show that the search reports a cycle
  exactly when the dependency graph has one, that a model passes the inspection exactly when it
  satisfies the declarative predicate \<open>wf_model\<close>, and that the indexes find the first definition
  of an identifier. The search is the function \<open>visit\<close> with a termination proof: the number of
  unseen identifiers goes down.
\<close>

section \<open>Names and paths\<close>

definition is_alnum :: "char \<Rightarrow> bool" where
  "is_alnum c = (let n = (of_char c :: nat) in
     (48 \<le> n \<and> n \<le> 57) \<or> (65 \<le> n \<and> n \<le> 90) \<or> (97 \<le> n \<and> n \<le> 122))"

definition IsValidName :: "string \<Rightarrow> bool" where
  "IsValidName name =
     (if name = [] \<or> length name > 128 then False
      else list_all (\<lambda>c. is_alnum c \<or> c = CHR ''_'' \<or> c = CHR ''-'') name)"

fun dec_digits :: "nat \<Rightarrow> string" where
  "dec_digits n =
     (if n < 10 then [char_of (48 + n)] else dec_digits (n div 10) @ [char_of (48 + n mod 10)])"

declare dec_digits.simps [simp del]

definition to_string :: "u64 \<Rightarrow> string" where
  "to_string i = dec_digits (unat i)"

definition UnitPath :: "ExecutionUnitDefinition \<Rightarrow> string" where
  "UnitPath u = ''units['' @ to_string (eu_id u) @ '']''"

definition DomainPath :: "DomainDefinition \<Rightarrow> string" where
  "DomainPath d = ''domains['' @ to_string (dd_id d) @ '']''"

definition ModePath :: "DomainDefinition \<Rightarrow> ModeDefinition \<Rightarrow> string" where
  "ModePath d m = DomainPath d @ ''.modes['' @ to_string (md_id m) @ '']''"

text \<open>\<open>InspectIdentity\<close> returns the identifiers and names seen so far and the issues it appends.\<close>

definition InspectIdentity ::
  "u64 \<Rightarrow> string \<Rightarrow> string \<Rightarrow> u64 list \<Rightarrow> string list \<Rightarrow> u64 list \<times> string list \<times> ModelIssue list" where
  "InspectIdentity i name path ids names =
     (let (ids', id_issues) =
            (if \<not> id_valid i then
               (ids, [Issue MI_invalid_identifier (path @ ''.id'') ''identifier zero is reserved''])
             else if us_contains ids i then
               (ids, [Issue MI_duplicate_identifier (path @ ''.id'') ''identifier is not unique''])
             else (us_insert i ids, []));
          (names', name_issues) =
            (if \<not> IsValidName name then
               (names, [Issue MI_invalid_name (path @ ''.name'')
                  ''name must contain 1-128 ASCII letters, digits, '_' or '-' characters''])
             else if us_contains names name then
               (names, [Issue MI_duplicate_name (path @ ''.name'') ''name is not unique''])
             else (us_insert name names, []))
      in (ids', names', id_issues @ name_issues))"


section \<open>Dependency cycles\<close>

datatype Visit = V_unseen | V_active | V_complete

record DfsState =
  visits :: "(ApplicationId \<times> Visit) list"
  stack :: "ApplicationId list"
  reported :: "ApplicationId list"
  cycle_issues :: "ModelIssue list"

text \<open>The map of applications by identifier; \<open>emplace\<close> keeps the first definition. An
  identifier without an entry in \<open>visits\<close> reads as unseen, the value \<open>operator[]\<close> creates.\<close>

fun index_units_from ::
  "ExecutionUnitDefinition list \<Rightarrow> (ApplicationId \<times> ExecutionUnitDefinition) list
     \<Rightarrow> (ApplicationId \<times> ExecutionUnitDefinition) list" where
  "index_units_from [] m = m"
| "index_units_from (u # us) m = index_units_from us (um_emplace (eu_id u) u m)"

abbreviation index_units ::
  "ExecutionUnitDefinition list \<Rightarrow> (ApplicationId \<times> ExecutionUnitDefinition) list" where
  "index_units us \<equiv> index_units_from us []"

definition visit_of :: "DfsState \<Rightarrow> ApplicationId \<Rightarrow> Visit" where
  "visit_of st i = (case um_find (visits st) i of None \<Rightarrow> V_unseen | Some v \<Rightarrow> v)"

fun arrow_items :: "ApplicationId list \<Rightarrow> string" where
  "arrow_items [] = ''''"
| "arrow_items (i # is) = '' '' @ to_string i @ '' ->'' @ arrow_items is"

definition cycle_message :: "ApplicationId list \<Rightarrow> ApplicationId \<Rightarrow> string" where
  "cycle_message stk dependency =
     ''dependency cycle:'' @ arrow_items (dropWhile (\<lambda>i. i \<noteq> dependency) stk)
       @ '' '' @ to_string dependency"

definition report_cycle :: "ExecutionUnitDefinition \<Rightarrow> ApplicationId \<Rightarrow> DfsState \<Rightarrow> DfsState" where
  "report_cycle application dependency st =
     st\<lparr>reported := us_insert dependency (reported st),
        cycle_issues := cycle_issues st @
          [Issue MI_dependency_cycle (UnitPath application) (cycle_message (stack st) dependency)]\<rparr>"

definition enter_unit :: "ExecutionUnitDefinition \<Rightarrow> DfsState \<Rightarrow> DfsState" where
  "enter_unit application st =
     st\<lparr>visits := um_set (eu_id application) V_active (visits st),
        stack := stack st @ [eu_id application]\<rparr>"

definition leave_unit :: "ExecutionUnitDefinition \<Rightarrow> DfsState \<Rightarrow> DfsState" where
  "leave_unit application st =
     st\<lparr>stack := butlast (stack st),
        visits := um_set (eu_id application) V_complete (visits st)\<rparr>"

lemma visit_of_enter [simp]:
  "visit_of (enter_unit a st) = (visit_of st)(eu_id a := V_active)"
  by (auto simp: visit_of_def enter_unit_def fun_eq_iff)

lemma visit_of_leave [simp]:
  "visit_of (leave_unit a st) = (visit_of st)(eu_id a := V_complete)"
  by (auto simp: visit_of_def leave_unit_def fun_eq_iff)

lemma visit_of_report [simp]: "visit_of (report_cycle a d st) = visit_of st"
  by (auto simp: visit_of_def report_cycle_def fun_eq_iff)

lemma um_find_index_units_from:
  "um_find (index_units_from us m) i =
     (case um_find m i of Some u \<Rightarrow> Some u | None \<Rightarrow> find (\<lambda>u. eu_id u = i) us)"
  by (induction us arbitrary: m) (auto split: option.splits)

lemma um_find_index_units [simp]: "um_find (index_units us) i = find (\<lambda>u. eu_id u = i) us"
  by (simp add: um_find_index_units_from)

definition unseen_units :: "ExecutionUnitDefinition list \<Rightarrow> DfsState \<Rightarrow> ApplicationId set" where
  "unseen_units us st = {i \<in> eu_id ` set us. visit_of st i = V_unseen}"

lemma finite_unseen_units [simp]: "finite (unseen_units us st)"
  by (simp add: unseen_units_def)

lemma unseen_units_enter: "unseen_units us (enter_unit a st) = unseen_units us st - {eu_id a}"
  by (auto simp: unseen_units_def)

lemma unseen_units_leave: "unseen_units us (leave_unit a st) \<subseteq> unseen_units us st"
  by (auto simp: unseen_units_def)

lemma unseen_units_report [simp]: "unseen_units us (report_cycle a d st) = unseen_units us st"
  by (auto simp: unseen_units_def)

lemma find_unit_Some: "find (\<lambda>u. eu_id u = i) us = Some u \<Longrightarrow> u \<in> set us \<and> eu_id u = i"
  by (auto simp: find_Some_iff)

text \<open>The recursive lambda \<open>visit\<close> and its loop over the dependencies of one application.\<close>

function (sequential) visit ::
    "ExecutionUnitDefinition list \<Rightarrow> ExecutionUnitDefinition \<Rightarrow> DfsState \<Rightarrow> DfsState"
  and visit_dependencies ::
    "ExecutionUnitDefinition list \<Rightarrow> ExecutionUnitDefinition \<Rightarrow> ApplicationId list \<Rightarrow> DfsState
       \<Rightarrow> DfsState" where
  "visit us application st =
     leave_unit application
       (visit_dependencies us application (eu_dependencies application)
          (enter_unit application st))"
| "visit_dependencies us application [] st = st"
| "visit_dependencies us application (dependency # ds) st =
     (case um_find (index_units us) dependency of
        None \<Rightarrow> visit_dependencies us application ds st
      | Some found \<Rightarrow>
          if visit_of st dependency = V_unseen then
            visit_dependencies us application ds (visit us found st)
          else if visit_of st dependency = V_active \<and> \<not> us_contains (reported st) dependency then
            visit_dependencies us application ds (report_cycle application dependency st)
          else visit_dependencies us application ds st)"
  by pat_completeness auto

lemma visit_unseen_partial:
  "visit_visit_dependencies_dom (Inl (us, a, st)) \<Longrightarrow>
     unseen_units us (visit us a st) \<subseteq> unseen_units us st"
  "visit_visit_dependencies_dom (Inr (us, a, ds, st)) \<Longrightarrow>
     unseen_units us (visit_dependencies us a ds st) \<subseteq> unseen_units us st"
proof (induction us a st and us a ds st rule: visit_visit_dependencies.pinduct)
  case (1 us a st)
  then show ?case
    using unseen_units_leave by (fastforce simp: visit.psimps unseen_units_enter)
next
  case (2 us a st)
  then show ?case by (simp add: visit_dependencies.psimps)
next
  case (3 us a d ds st)
  show ?case
  proof (cases "find (\<lambda>u. eu_id u = d) us")
    case None
    then show ?thesis using 3 by (simp add: visit_dependencies.psimps)
  next
    case (Some u)
    then show ?thesis using 3 by (auto simp: visit_dependencies.psimps; blast)
  qed
qed

termination visit
proof (relation "measures
    [\<lambda>x. case x of Inl (us, a, st) \<Rightarrow> card (unseen_units us st - {eu_id a})
                | Inr (us, a, ds, st) \<Rightarrow> card (unseen_units us st),
     \<lambda>x. case x of Inl (us, a, st) \<Rightarrow> Suc (length (eu_dependencies a))
                | Inr (us, a, ds, st) \<Rightarrow> length ds]", goal_cases)
  case (4 us a d ds st u)
  then have "d \<in> unseen_units us st" and "eu_id u = d"
    by (auto simp: unseen_units_def dest!: find_unit_Some)
  then have "card (unseen_units us st - {eu_id u}) < card (unseen_units us st)"
    by (intro psubset_card_mono) auto
  then show ?case by simp
next
  case (5 us a d ds st u)
  then have "card (unseen_units us (visit us u st)) \<le> card (unseen_units us st)"
    by (intro card_mono visit_unseen_partial) simp_all
  then show ?case by auto
qed (auto simp: unseen_units_enter)

text \<open>The outer loop of \<open>InspectDependencyCycles\<close>.\<close>

fun visit_all ::
  "ExecutionUnitDefinition list \<Rightarrow> ExecutionUnitDefinition list \<Rightarrow> DfsState \<Rightarrow> DfsState" where
  "visit_all us [] st = st"
| "visit_all us (a # as) st =
     visit_all us as (if visit_of st (eu_id a) = V_unseen then visit us a st else st)"

definition dfs_start :: DfsState where
  "dfs_start = \<lparr>visits = [], stack = [], reported = [], cycle_issues = []\<rparr>"

definition InspectDependencyCycles :: "ExecutionModel \<Rightarrow> ModelIssue list" where
  "InspectDependencyCycles model =
     cycle_issues (visit_all (em_units model) (em_units model) dfs_start)"

section \<open>Printable names\<close>

fun ToString_ApplicationState :: "ApplicationState \<Rightarrow> string" where
  "ToString_ApplicationState AS_unknown = ''unknown''"
| "ToString_ApplicationState AS_starting = ''starting''"
| "ToString_ApplicationState AS_ready = ''ready''"
| "ToString_ApplicationState AS_stopping = ''stopping''"
| "ToString_ApplicationState AS_stopped = ''stopped''"
| "ToString_ApplicationState AS_failed = ''failed''"
| "ToString_ApplicationState AS_killed = ''killed''"
| "ToString_ApplicationState AS_unavailable = ''unavailable''"

fun ToString_DomainStatus :: "DomainStatus \<Rightarrow> string" where
  "ToString_DomainStatus DS_unknown = ''unknown''"
| "ToString_DomainStatus DS_stable = ''stable''"
| "ToString_DomainStatus DS_transitioning = ''transitioning''"
| "ToString_DomainStatus DS_degraded = ''degraded''"
| "ToString_DomainStatus DS_recovering = ''recovering''"

fun ToString_TransitionPhase :: "TransitionPhase \<Rightarrow> string" where
  "ToString_TransitionPhase TP_received = ''received''"
| "ToString_TransitionPhase TP_validated = ''validated''"
| "ToString_TransitionPhase TP_planned = ''planned''"
| "ToString_TransitionPhase TP_stopping = ''stopping''"
| "ToString_TransitionPhase TP_starting = ''starting''"
| "ToString_TransitionPhase TP_awaiting_readiness = ''awaiting_readiness''"
| "ToString_TransitionPhase TP_committing = ''committing''"
| "ToString_TransitionPhase TP_succeeded = ''succeeded''"
| "ToString_TransitionPhase TP_rejected = ''rejected''"
| "ToString_TransitionPhase TP_failed = ''failed''"
| "ToString_TransitionPhase TP_cancelled = ''cancelled''"
| "ToString_TransitionPhase TP_superseded = ''superseded''"
| "ToString_TransitionPhase TP_deadline_exceeded = ''deadline_exceeded''"
| "ToString_TransitionPhase TP_recovery_failed = ''recovery_failed''"
| "ToString_TransitionPhase TP_recovering = ''recovering''"

fun ToString_StopReason :: "StopReason \<Rightarrow> string" where
  "ToString_StopReason SR_none = ''none''"
| "ToString_StopReason SR_mode_change = ''mode_change''"
| "ToString_StopReason SR_system_shutdown = ''system_shutdown''"
| "ToString_StopReason SR_restart = ''restart''"
| "ToString_StopReason SR_supervisor_request = ''supervisor_request''"
| "ToString_StopReason SR_dependency_failure = ''dependency_failure''"
| "ToString_StopReason SR_recovery = ''recovery''"
| "ToString_StopReason SR_unknown = ''unknown''"

fun ToString_ExecutionUnitKind :: "ExecutionUnitKind \<Rightarrow> string" where
  "ToString_ExecutionUnitKind UK_managed_application = ''managed_application''"
| "ToString_ExecutionUnitKind UK_service = ''service''"
| "ToString_ExecutionUnitKind UK_one_shot = ''one_shot''"
| "ToString_ExecutionUnitKind UK_mount = ''mount''"
| "ToString_ExecutionUnitKind UK_external = ''external''"

section \<open>The inspection\<close>

text \<open>
  Each loop of \<open>InspectModel\<close> is a function returning the issues the loop appends, in order; the
  sets the loops fill (\<open>application_ids\<close>, \<open>mode_ids\<close>, \<open>selected\<close>, ...) are threaded through, and the
  maps and sets one loop fills for a later one are computed by functions of their own.
\<close>

definition valid_readiness :: "ExecutionUnitKind \<Rightarrow> ReadinessPolicy \<Rightarrow> bool" where
  "valid_readiness kind readiness =
     ((kind = UK_managed_application \<and> (readiness = RD_lifecycle_channel \<or> readiness = RD_process_started)) \<or>
      (kind = UK_service \<and> (readiness = RD_process_started \<or> readiness = RD_supervisor_notification)) \<or>
      (kind = UK_one_shot \<and> readiness = RD_successful_exit) \<or>
      (kind = UK_mount \<and> readiness = RD_mount_present) \<or>
      (kind = UK_external \<and> (readiness = RD_process_started \<or> readiness = RD_supervisor_notification)))"

fun duplicate_dependencies :: "string \<Rightarrow> ApplicationId list \<Rightarrow> ApplicationId list \<Rightarrow> ModelIssue list" where
  "duplicate_dependencies path [] seen = []"
| "duplicate_dependencies path (d # ds) seen =
     (if us_contains seen d then
        [Issue MI_duplicate_identifier (path @ ''.dependencies'') ''dependency is listed more than once'']
      else []) @ duplicate_dependencies path ds (us_insert d seen)"

definition inspect_unit_policies :: "ExecutionUnitDefinition \<Rightarrow> ModelIssue list" where
  "inspect_unit_policies a =
     (let path = UnitPath a in
      (if eu_start_timeout a \<le> 0 \<or> eu_stop_timeout a \<le> 0 then
         [Issue MI_invalid_timeout path ''start and stop timeouts must be positive''] else []) @
      (if max_attempts (eu_retry a) = 0 \<or> max_attempts (eu_retry a) > 100 \<or> retry_delay (eu_retry a) < 0 then
         [Issue MI_invalid_retry_policy (path @ ''.retry'')
            ''retry attempts must be 1-100 and delay must not be negative''] else []) @
      (if \<not> valid_readiness (eu_kind a) (eu_readiness a) then
         [Issue MI_invalid_readiness_policy (path @ ''.readiness'')
            ''readiness policy is incompatible with the execution unit kind''] else []) @
      duplicate_dependencies path (eu_dependencies a) [])"

fun inspect_units :: "ExecutionUnitDefinition list \<Rightarrow> ApplicationId list \<Rightarrow> string list \<Rightarrow> ModelIssue list" where
  "inspect_units [] ids names = []"
| "inspect_units (a # as) ids names =
     (case InspectIdentity (eu_id a) (eu_name a) (UnitPath a) ids names of
        (ids', names', issues) \<Rightarrow> issues @ inspect_unit_policies a @ inspect_units as ids' names')"

fun unknown_dependencies ::
  "(ApplicationId \<times> ExecutionUnitDefinition) list \<Rightarrow> ExecutionUnitDefinition \<Rightarrow> ApplicationId list
     \<Rightarrow> ModelIssue list" where
  "unknown_dependencies applications a [] = []"
| "unknown_dependencies applications a (d # ds) =
     (if um_find applications d = None then
        [Issue MI_unknown_dependency (UnitPath a @ ''.dependencies'')
           ''dependency does not identify an execution unit''] else [])
     @ unknown_dependencies applications a ds"

fun inspect_mode_units ::
  "(ApplicationId \<times> ExecutionUnitDefinition) list \<Rightarrow> string \<Rightarrow> ApplicationId list \<Rightarrow> ApplicationId list
     \<Rightarrow> ModelIssue list" where
  "inspect_mode_units applications mode_path [] selected = []"
| "inspect_mode_units applications mode_path (a # as) selected =
     (if um_find applications a = None then
        Issue MI_unknown_application (mode_path @ ''.units'') ''mode selects an unknown execution unit''
          # inspect_mode_units applications mode_path as selected
      else if us_contains selected a then
        Issue MI_duplicate_identifier (mode_path @ ''.units'') ''execution unit is selected more than once''
          # inspect_mode_units applications mode_path as selected
      else inspect_mode_units applications mode_path as (us_insert a selected))"

fun inspect_modes ::
  "(ApplicationId \<times> ExecutionUnitDefinition) list \<Rightarrow> DomainDefinition \<Rightarrow> ModeDefinition list
     \<Rightarrow> ModeId list \<Rightarrow> string list \<Rightarrow> ModeId list \<times> ModelIssue list" where
  "inspect_modes applications domain [] mode_ids mode_names = (mode_ids, [])"
| "inspect_modes applications domain (mode # ms) mode_ids mode_names =
     (case InspectIdentity (md_id mode) (md_name mode) (ModePath domain mode) mode_ids mode_names of
        (ids', names', issues) \<Rightarrow>
          (case inspect_modes applications domain ms ids' names' of
             (ids'', rest) \<Rightarrow>
               (ids'', issues @ inspect_mode_units applications (ModePath domain mode) (md_units mode) []
                         @ rest)))"

definition inspect_domain_policies :: "DomainDefinition \<Rightarrow> ModeId list \<Rightarrow> ModelIssue list" where
  "inspect_domain_policies domain mode_ids =
     (let domain_path = DomainPath domain in
      (if \<not> us_contains mode_ids (dd_initial_mode domain) then
         [Issue MI_unknown_initial_mode (domain_path @ ''.initial_mode'')
            ''initial mode is not defined by this domain''] else []) @
      (if rp_deadline (dd_recovery domain) \<le> 0 then
         [Issue MI_invalid_timeout (domain_path @ ''.recovery.deadline'')
            ''recovery deadline must be positive''] else []) @
      (if rp_action (dd_recovery domain) = FA_enter_fallback_mode \<and>
          \<not> us_contains mode_ids (rp_fallback_mode (dd_recovery domain)) then
         [Issue MI_invalid_fallback_mode (domain_path @ ''.recovery.fallback_mode'')
            ''fallback mode is not defined by this domain''] else []))"

fun inspect_domains ::
  "(ApplicationId \<times> ExecutionUnitDefinition) list \<Rightarrow> DomainDefinition list \<Rightarrow> DomainId list \<Rightarrow> string list
     \<Rightarrow> ModelIssue list" where
  "inspect_domains applications [] ids names = []"
| "inspect_domains applications (domain # ds) ids names =
     (case InspectIdentity (dd_id domain) (dd_name domain) (DomainPath domain) ids names of
        (ids', names', issues) \<Rightarrow>
          (case inspect_modes applications domain (dd_modes domain) [] [] of
             (mode_ids, mode_issues) \<Rightarrow>
               issues @ mode_issues @ inspect_domain_policies domain mode_ids
                 @ inspect_domains applications ds ids' names'))"

definition assigned_units :: "DomainDefinition list \<Rightarrow> ApplicationId list" where
  "assigned_units domains =
     fold (\<lambda>d s. fold (\<lambda>m s. us_insert_all (md_units m) s) (dd_modes d) s) domains []"

definition inspect_membership ::
  "(ApplicationId \<times> ExecutionUnitDefinition) list \<Rightarrow> ApplicationId list \<Rightarrow> ExecutionUnitDefinition
     \<Rightarrow> ModelIssue list" where
  "inspect_membership applications assigned u =
     (if eu_bootstrap u \<and> us_contains assigned (eu_id u) then
        [Issue MI_invalid_unit_membership (UnitPath u @ ''.bootstrap'')
           ''bootstrap unit must not be assigned to an execution mode'']
      else if \<not> eu_bootstrap u \<and> \<not> us_contains assigned (eu_id u) then
        [Issue MI_invalid_unit_membership (UnitPath u)
           ''non-bootstrap unit must have explicit mode membership'']
      else []) @
     (if eu_bootstrap u \<and>
         list_ex (\<lambda>d. case um_find applications d of Some f \<Rightarrow> \<not> eu_bootstrap f | None \<Rightarrow> False)
           (eu_dependencies u) then
        [Issue MI_invalid_unit_membership (UnitPath u @ ''.dependencies'')
           ''bootstrap unit cannot depend on a mode-controlled unit'']
      else [])"

text \<open>The map of modes by reference that the domain loop fills, in the same loop order.\<close>

fun index_modes_from ::
  "DomainDefinition list \<Rightarrow> (ModeRef \<times> ModeDefinition) list \<Rightarrow> (ModeRef \<times> ModeDefinition) list" where
  "index_modes_from [] m = m"
| "index_modes_from (d # ds) m =
     index_modes_from ds
       (fold (\<lambda>md m. um_emplace \<lparr>mr_domain = dd_id d, mr_mode = md_id md\<rparr> md m) (dd_modes d) m)"

fun inspect_constraints ::
  "(ModeRef \<times> ModeDefinition) list \<Rightarrow> ModeRef \<Rightarrow> string \<Rightarrow> ModeConstraint list
     \<Rightarrow> (ModeRef \<times> ConstraintKind) list \<Rightarrow> ModelIssue list" where
  "inspect_constraints modes mode_ref path [] constraints = []"
| "inspect_constraints modes mode_ref path (c # cs) constraints =
     (if mc_other c = mode_ref then [Issue MI_self_constraint path ''mode cannot constrain itself''] else []) @
     (if um_find modes (mc_other c) = None then
        [Issue MI_unknown_constraint_mode path ''constraint references an unknown mode''] else []) @
     (case um_find constraints (mc_other c) of
        Some kind \<Rightarrow>
          if kind \<noteq> mc_kind c then
            [Issue MI_contradictory_constraint path ''same mode is both required and excluded''] else []
      | None \<Rightarrow> []) @
     inspect_constraints modes mode_ref path cs (um_emplace (mc_other c) (mc_kind c) constraints)"

definition InspectModel :: "ExecutionModel \<Rightarrow> ModelIssue list" where
  "InspectModel model =
     (let applications = index_units (em_units model);
          assigned = assigned_units (em_domains model);
          modes = index_modes_from (em_domains model) [] in
      (if em_generation model = 0 then
         [Issue MI_invalid_generation ''generation'' ''generation zero is reserved''] else []) @
      inspect_units (em_units model) [] [] @
      concat (map (\<lambda>a. unknown_dependencies applications a (eu_dependencies a)) (em_units model)) @
      InspectDependencyCycles model @
      inspect_domains applications (em_domains model) [] [] @
      concat (map (inspect_membership applications assigned) (em_units model)) @
      concat (map (\<lambda>d. concat (map (\<lambda>m. inspect_constraints modes
                 \<lparr>mr_domain = dd_id d, mr_mode = md_id m\<rparr> (ModePath d m @ ''.constraints'') (md_constraints m) [])
               (dd_modes d))) (em_domains model)))"

record ValidatedModel =
  vm_model :: ExecutionModel
  vm_units :: "(ExecutionUnitId \<times> nat) list"
  vm_domains :: "(DomainId \<times> nat) list"
  vm_modes :: "(ModeRef \<times> ModeDefinition) list"

fun index_positions :: "u64 list \<Rightarrow> nat \<Rightarrow> (u64 \<times> nat) list \<Rightarrow> (u64 \<times> nat) list" where
  "index_positions [] n m = m"
| "index_positions (i # is) n m = index_positions is (Suc n) (um_emplace i n m)"

definition BuildIndex :: "ExecutionModel \<Rightarrow> ValidatedModel" where
  "BuildIndex model =
     \<lparr>vm_model = model,
      vm_units = index_positions (map eu_id (em_units model)) 0 [],
      vm_domains = index_positions (map dd_id (em_domains model)) 0 [],
      vm_modes = index_modes_from (em_domains model) []\<rparr>"

definition FindUnit :: "ValidatedModel \<Rightarrow> ExecutionUnitId \<Rightarrow> ExecutionUnitDefinition option" where
  "FindUnit vm i = map_option (\<lambda>n. em_units (vm_model vm) ! n) (um_find (vm_units vm) i)"

definition FindApplication :: "ValidatedModel \<Rightarrow> ApplicationId \<Rightarrow> ExecutionUnitDefinition option" where
  "FindApplication vm i = FindUnit vm i"

definition FindDomain :: "ValidatedModel \<Rightarrow> DomainId \<Rightarrow> DomainDefinition option" where
  "FindDomain vm i = map_option (\<lambda>n. em_domains (vm_model vm) ! n) (um_find (vm_domains vm) i)"

definition FindMode :: "ValidatedModel \<Rightarrow> DomainId \<Rightarrow> ModeId \<Rightarrow> ModeDefinition option" where
  "FindMode vm d m = um_find (vm_modes vm) \<lparr>mr_domain = d, mr_mode = m\<rparr>"

definition ValidateModel :: "ExecutionModel \<Rightarrow> (ValidatedModel, Error) result" where
  "ValidateModel model =
     (case InspectModel model of
        issue # issues \<Rightarrow>
          Inl (MakeError EC_configuration_error (mi_path issue @ '': '' @ mi_message issue)
                 (of_nat (length (issue # issues))))
      | [] \<Rightarrow> Inr (BuildIndex model))"

section \<open>Declarative well-formedness\<close>

text \<open>The dependency relation between the identifiers the model defines.\<close>

definition depends :: "ExecutionUnitDefinition list \<Rightarrow> (ApplicationId \<times> ApplicationId) set" where
  "depends us = {(i, d). \<exists>u. find (\<lambda>u. eu_id u = i) us = Some u \<and> d \<in> set (eu_dependencies u)
                        \<and> find (\<lambda>u. eu_id u = d) us \<noteq> None}"


definition wf_identities :: "u64 list \<Rightarrow> string list \<Rightarrow> bool" where
  "wf_identities ids names \<longleftrightarrow>
     distinct ids \<and> 0 \<notin> set ids \<and> distinct names \<and> (\<forall>n \<in> set names. IsValidName n)"

definition wf_unit :: "ExecutionUnitDefinition \<Rightarrow> bool" where
  "wf_unit u \<longleftrightarrow> 0 < eu_start_timeout u \<and> 0 < eu_stop_timeout u \<and>
     0 < max_attempts (eu_retry u) \<and> max_attempts (eu_retry u) \<le> 100 \<and> 0 \<le> retry_delay (eu_retry u) \<and>
     valid_readiness (eu_kind u) (eu_readiness u) \<and> distinct (eu_dependencies u)"

definition wf_domain :: "ExecutionUnitId set \<Rightarrow> DomainDefinition \<Rightarrow> bool" where
  "wf_domain units d \<longleftrightarrow>
     wf_identities (map md_id (dd_modes d)) (map md_name (dd_modes d)) \<and>
     (\<forall>m \<in> set (dd_modes d). distinct (md_units m) \<and> set (md_units m) \<subseteq> units) \<and>
     dd_initial_mode d \<in> md_id ` set (dd_modes d) \<and> 0 < rp_deadline (dd_recovery d) \<and>
     (rp_action (dd_recovery d) = FA_enter_fallback_mode \<longrightarrow>
        rp_fallback_mode (dd_recovery d) \<in> md_id ` set (dd_modes d))"

definition mode_refs :: "ExecutionModel \<Rightarrow> ModeRef set" where
  "mode_refs model = {\<lparr>mr_domain = dd_id d, mr_mode = md_id m\<rparr> | d m.
     d \<in> set (em_domains model) \<and> m \<in> set (dd_modes d)}"

definition wf_constraints :: "ModeRef set \<Rightarrow> ModeRef \<Rightarrow> ModeConstraint list \<Rightarrow> bool" where
  "wf_constraints refs self cs \<longleftrightarrow>
     (\<forall>c \<in> set cs. mc_other c \<noteq> self \<and> mc_other c \<in> refs) \<and>
     (\<forall>c \<in> set cs. \<forall>c' \<in> set cs. mc_other c = mc_other c' \<longrightarrow> mc_kind c = mc_kind c')"

definition mode_controlled :: "ExecutionModel \<Rightarrow> ExecutionUnitId set" where
  "mode_controlled model = (\<Union>d \<in> set (em_domains model). \<Union>m \<in> set (dd_modes d). set (md_units m))"

definition wf_model :: "ExecutionModel \<Rightarrow> bool" where
  "wf_model model \<longleftrightarrow>
     em_generation model \<noteq> 0 \<and>
     wf_identities (map eu_id (em_units model)) (map eu_name (em_units model)) \<and>
     (\<forall>u \<in> set (em_units model). wf_unit u \<and> set (eu_dependencies u) \<subseteq> eu_id ` set (em_units model) \<and>
        (eu_bootstrap u \<longleftrightarrow> eu_id u \<notin> mode_controlled model)) \<and>
     (\<forall>u \<in> set (em_units model). \<forall>v \<in> set (em_units model).
        eu_bootstrap u \<and> eu_id v \<in> set (eu_dependencies u) \<longrightarrow> eu_bootstrap v) \<and>
     acyclic (depends (em_units model)) \<and>
     wf_identities (map dd_id (em_domains model)) (map dd_name (em_domains model)) \<and>
     (\<forall>d \<in> set (em_domains model). wf_domain (eu_id ` set (em_units model)) d \<and>
        (\<forall>m \<in> set (dd_modes d).
           wf_constraints (mode_refs model) \<lparr>mr_domain = dd_id d, mr_mode = md_id m\<rparr> (md_constraints m)))"


section \<open>The search finds exactly the cycles\<close>

lemma acyclic_add_source:
  assumes "acyclic r" and "\<And>x. (x, a) \<notin> r" and "\<And>x. (x, a) \<notin> s" and "\<And>x y. (x, y) \<in> s \<Longrightarrow> x = a"
  shows "acyclic (r \<union> s)"
proof -
  have no_in: "(x, a) \<notin> (r \<union> s)\<^sup>+" for x
    using assms(2,3) by (auto elim: tranclE)
  have "(x, y) \<in> r\<^sup>+" if "(x, y) \<in> (r \<union> s)\<^sup>+" and "x \<noteq> a" for x y
    using that
  proof (induction rule: trancl_induct)
    case (base y)
    then show ?case using assms(4) by auto
  next
    case (step y z)
    then have "y \<noteq> a" using no_in by auto
    then have "(y, z) \<in> r" using step.hyps(2) assms(4) by auto
    then show ?case using step by auto
  qed
  then show ?thesis
    using assms(1) no_in unfolding acyclic_def by blast
qed

lemma successively_rtrancl:
  assumes "successively (\<lambda>x y. (x, y) \<in> r) xs" and "x \<in> set xs"
  shows "(x, last xs) \<in> r\<^sup>*"
  using assms
proof (induction xs arbitrary: x)
  case (Cons y ys)
  show ?case
  proof (cases "ys = []")
    case False
    then have y: "(y, hd ys) \<in> r" and ys: "successively (\<lambda>x y. (x, y) \<in> r) ys"
      using Cons.prems(1) by (auto simp: successively_Cons)
    have "(hd ys, last ys) \<in> r\<^sup>*" using Cons.IH [OF ys] False by simp
    with y have "(y, last ys) \<in> r\<^sup>*" by (rule converse_rtrancl_into_rtrancl)
    then show ?thesis using Cons False ys by auto
  qed (use Cons in auto)
qed simp

text \<open>What the search keeps true.\<close>

definition dfs_inv :: "ExecutionUnitDefinition list \<Rightarrow> DfsState \<Rightarrow> bool" where
  "dfs_inv us st \<longleftrightarrow>
     (\<forall>d. visit_of st d = V_active \<longleftrightarrow> d \<in> set (stack st)) \<and>
     successively (\<lambda>x y. (x, y) \<in> depends us) (stack st) \<and>
     (reported st = [] \<longleftrightarrow> cycle_issues st = []) \<and>
     (\<forall>i \<in> set (cycle_issues st). mi_code i = MI_dependency_cycle) \<and>
     (reported st \<noteq> [] \<longrightarrow> \<not> acyclic (depends us)) \<and>
     (reported st = [] \<longrightarrow>
        (\<forall>x y. visit_of st x = V_complete \<longrightarrow> (x, y) \<in> depends us \<longrightarrow> visit_of st y = V_complete) \<and>
        acyclic {(x, y) \<in> depends us. visit_of st x = V_complete})"

definition dfs_grows :: "DfsState \<Rightarrow> DfsState \<Rightarrow> bool" where
  "dfs_grows st st' \<longleftrightarrow> stack st' = stack st \<and> (reported st' = [] \<longrightarrow> reported st = []) \<and>
     (\<forall>d. visit_of st d = V_complete \<longrightarrow> visit_of st' d = V_complete)"

lemma dfs_grows_refl [simp]: "dfs_grows st st"
  by (simp add: dfs_grows_def)

lemma dfs_grows_trans: "dfs_grows a b \<Longrightarrow> dfs_grows b c \<Longrightarrow> dfs_grows a c"
  by (simp add: dfs_grows_def)

lemma enter_inv:
  assumes "dfs_inv us st" and "find (\<lambda>u. eu_id u = eu_id a) us = Some a"
    and "visit_of st (eu_id a) = V_unseen" and "stack st = [] \<or> (last (stack st), eu_id a) \<in> depends us"
  shows "dfs_inv us (enter_unit a st)"
proof -
  let ?st = "enter_unit a st"
  have eqs: "stack ?st = stack st @ [eu_id a]" "reported ?st = reported st"
    "cycle_issues ?st = cycle_issues st"
    by (simp_all add: enter_unit_def)
  have comp: "visit_of ?st x = V_complete \<longleftrightarrow> visit_of st x = V_complete" for x
    using assms(3) by auto
  have "successively (\<lambda>x y. (x, y) \<in> depends us) (stack st @ [eu_id a])"
    using assms(1,4) by (auto simp: dfs_inv_def successively_append_iff)
  then show ?thesis
    using assms(1) unfolding dfs_inv_def eqs comp by auto
qed

lemma leave_inv:
  assumes inv: "dfs_inv us st" and a: "find (\<lambda>u. eu_id u = eu_id a) us = Some a"
    and stk: "stack st = s @ [eu_id a]" and nin: "eu_id a \<notin> set s"
    and deps: "reported st = [] \<Longrightarrow> \<forall>d \<in> set (eu_dependencies a).
       find (\<lambda>u. eu_id u = d) us \<noteq> None \<longrightarrow> visit_of st d = V_complete"
  shows "dfs_inv us (leave_unit a st)"
proof -
  let ?st = "leave_unit a st"
  have eqs: "stack ?st = s" "reported ?st = reported st" "cycle_issues ?st = cycle_issues st"
    by (simp_all add: leave_unit_def stk)
  have act: "visit_of st (eu_id a) = V_active"
    using inv by (simp add: dfs_inv_def stk)
  have suc: "successively (\<lambda>x y. (x, y) \<in> depends us) s"
    using inv by (auto simp: dfs_inv_def stk successively_append_iff)
  have new: "(\<forall>x y. visit_of ?st x = V_complete \<longrightarrow> (x, y) \<in> depends us \<longrightarrow> visit_of ?st y = V_complete) \<and>
      acyclic {(x, y) \<in> depends us. visit_of ?st x = V_complete}" if r: "reported st = []"
  proof -
    have out: "visit_of st d = V_complete" if "(eu_id a, d) \<in> depends us" for d
      using deps [OF r] that a by (auto simp: depends_def)
    have closed: "\<forall>x y. visit_of st x = V_complete \<longrightarrow> (x, y) \<in> depends us \<longrightarrow> visit_of st y = V_complete"
      and ac: "acyclic {(x, y) \<in> depends us. visit_of st x = V_complete}"
      using inv r by (auto simp: dfs_inv_def)
    have split: "{(x, y) \<in> depends us. visit_of ?st x = V_complete} =
        {(x, y) \<in> depends us. visit_of st x = V_complete} \<union> {(x, y) \<in> depends us. x = eu_id a}"
      by auto
    have "acyclic {(x, y) \<in> depends us. visit_of ?st x = V_complete}"
      unfolding split
      by (rule acyclic_add_source [OF ac, of "eu_id a"]) (use closed out act in auto)
    then show ?thesis using closed out by auto
  qed
  show ?thesis
    using inv nin suc new unfolding dfs_inv_def eqs by (auto simp: stk)
qed

lemma stack_leave [simp]: "stack (leave_unit a st) = butlast (stack st)"
  and reported_leave [simp]: "reported (leave_unit a st) = reported st"
  by (simp_all add: leave_unit_def)

lemma dfs_grows_report: "dfs_grows st (report_cycle a d st) \<and> reported (report_cycle a d st) \<noteq> []"
proof -
  have "reported (report_cycle a d st) \<noteq> []" by (auto simp: report_cycle_def us_insert_def)
  then show ?thesis by (simp add: dfs_grows_def) (simp add: report_cycle_def)
qed

lemma report_inv:
  assumes inv: "dfs_inv us st" and edge: "(eu_id a, d) \<in> depends us"
    and act: "visit_of st d = V_active" and last: "stack st \<noteq> []" "last (stack st) = eu_id a"
  shows "dfs_inv us (report_cycle a d st)"
proof -
  have "(d, eu_id a) \<in> (depends us)\<^sup>*"
    using successively_rtrancl [of "depends us" "stack st" d] inv act last by (simp add: dfs_inv_def)
  then have "\<not> acyclic (depends us)"
    using edge by (meson acyclic_def rtrancl_into_trancl1)
  then show ?thesis
    using inv by (auto simp: dfs_inv_def report_cycle_def visit_of_def us_insert_def Issue_def)
qed

lemma visit_correct:
  "dfs_inv us st \<Longrightarrow> find (\<lambda>u. eu_id u = eu_id a) us = Some a \<Longrightarrow>
     visit_of st (eu_id a) = V_unseen \<Longrightarrow>
     stack st = [] \<or> (last (stack st), eu_id a) \<in> depends us \<Longrightarrow>
     dfs_inv us (visit us a st) \<and> dfs_grows st (visit us a st) \<and>
     visit_of (visit us a st) (eu_id a) = V_complete"
  "dfs_inv us st \<Longrightarrow> find (\<lambda>u. eu_id u = eu_id a) us = Some a \<Longrightarrow> stack st \<noteq> [] \<Longrightarrow>
     last (stack st) = eu_id a \<Longrightarrow> set ds \<subseteq> set (eu_dependencies a) \<Longrightarrow>
     dfs_inv us (visit_dependencies us a ds st) \<and> dfs_grows st (visit_dependencies us a ds st) \<and>
     (reported (visit_dependencies us a ds st) = [] \<longrightarrow>
        (\<forall>d \<in> set ds. find (\<lambda>u. eu_id u = d) us \<noteq> None \<longrightarrow>
           visit_of (visit_dependencies us a ds st) d = V_complete))"
proof (induction us a st and us a ds st rule: visit_visit_dependencies.induct)
  case (1 us a st)
  let ?e = "enter_unit a st"
  let ?d = "visit_dependencies us a (eu_dependencies a) ?e"
  have e: "dfs_inv us ?e" using 1 by (intro enter_inv) auto
  have stk: "stack ?e = stack st @ [eu_id a]" and rep: "reported ?e = reported st"
    by (simp_all add: enter_unit_def)
  have d: "dfs_inv us ?d" "dfs_grows ?e ?d"
    "reported ?d = [] \<longrightarrow> (\<forall>d \<in> set (eu_dependencies a). find (\<lambda>u. eu_id u = d) us \<noteq> None \<longrightarrow>
        visit_of ?d d = V_complete)"
    using "1.IH" [OF e "1.prems"(2)] stk by auto
  have dstk: "stack ?d = stack st @ [eu_id a]" using d(2) stk by (simp add: dfs_grows_def)
  have nin: "eu_id a \<notin> set (stack st)"
    using "1.prems"(1,3) unfolding dfs_inv_def by (metis Visit.distinct(1))
  have "dfs_inv us (leave_unit a ?d)"
    using d(3) by (intro leave_inv [OF d(1) "1.prems"(2) dstk nin]) auto
  moreover have "stack (leave_unit a ?d) = stack st" by (simp add: dstk)
  then have "dfs_grows st (leave_unit a ?d)"
    using d(2) "1.prems"(3) rep unfolding dfs_grows_def by auto
  ultimately show ?case by simp
next
  case (2 us a st)
  then show ?case by simp
next
  case (3 us a d ds st)
  show ?case
  proof (cases "find (\<lambda>u. eu_id u = d) us")
    case None
    then show ?thesis using 3 by simp
  next
    case (Some u)
    then have u: "eu_id u = d" using find_unit_Some by blast
    have edge: "(eu_id a, d) \<in> depends us"
      using 3 Some by (auto simp: depends_def)
    let ?next = "if visit_of st d = V_unseen then visit us u st
                 else if visit_of st d = V_active \<and> \<not> us_contains (reported st) d
                 then report_cycle a d st else st"
    have next_ok: "dfs_inv us ?next \<and> dfs_grows st ?next \<and>
        (reported ?next = [] \<longrightarrow> visit_of ?next d = V_complete)"
    proof (cases "visit_of st d")
      case V_unseen
      then show ?thesis using "3.IH"(2) [of u] "3.prems" Some u edge by auto
    next
      case V_active
      then show ?thesis
        using report_inv [OF "3.prems"(1) edge V_active "3.prems"(3,4)] "3.prems"(1)
        by (auto simp: dfs_grows_report)
    next
      case V_complete
      then show ?thesis using "3.prems"(1) by simp
    qed
    have step: "visit_dependencies us a (d # ds) st = visit_dependencies us a ds ?next"
      using Some by simp
    have stk: "stack ?next = stack st" using next_ok by (simp add: dfs_grows_def)
    have "dfs_inv us (visit_dependencies us a ds ?next) \<and>
       dfs_grows ?next (visit_dependencies us a ds ?next) \<and>
       (reported (visit_dependencies us a ds ?next) = [] \<longrightarrow>
         (\<forall>d \<in> set ds. find (\<lambda>u. eu_id u = d) us \<noteq> None \<longrightarrow>
           visit_of (visit_dependencies us a ds ?next) d = V_complete))"
      using "3.IH"(3-5) Some next_ok stk "3.prems" by (auto split: if_splits)
    then show ?thesis unfolding step
      using next_ok by (auto simp: dfs_grows_def)
  qed
qed

section \<open>The inspection accepts exactly the well-formed models\<close>


lemma InspectIdentity_clean:
  assumes "InspectIdentity i name path ids names = (ids', names', issues)"
  shows "issues = [] \<longleftrightarrow> i \<noteq> 0 \<and> i \<notin> set ids \<and> IsValidName name \<and> name \<notin> set names"
    and "issues = [] \<Longrightarrow> set ids' = insert i (set ids) \<and> set names' = insert name (set names)"
  using assms by (auto simp: InspectIdentity_def id_valid_def Let_def split: if_splits)

lemma duplicate_dependencies_clean:
  "duplicate_dependencies path ds seen = [] \<longleftrightarrow> distinct ds \<and> set ds \<inter> set seen = {}"
  by (induction ds arbitrary: seen) auto

lemma inspect_unit_policies_clean: "inspect_unit_policies u = [] \<longleftrightarrow> wf_unit u"
  by (auto simp: inspect_unit_policies_def wf_unit_def Let_def duplicate_dependencies_clean
      word_gt_0 not_le)

lemma inspect_units_clean:
  "inspect_units us ids names = [] \<longleftrightarrow>
     wf_identities (map eu_id us) (map eu_name us) \<and> (\<forall>u \<in> set us. wf_unit u) \<and>
     eu_id ` set us \<inter> set ids = {} \<and> eu_name ` set us \<inter> set names = {}"
proof (induction us arbitrary: ids names)
  case (Cons u us)
  obtain ids' names' issues where
    i: "InspectIdentity (eu_id u) (eu_name u) (UnitPath u) ids names = (ids', names', issues)"
    by (metis prod_cases3)
  show ?case
  proof (cases "issues = []")
    case True
    then show ?thesis
      using InspectIdentity_clean [OF i] Cons.IH [of ids' names']
      by (auto simp: i wf_identities_def inspect_unit_policies_clean)
  next
    case False
    then show ?thesis
      using InspectIdentity_clean [OF i] by (auto simp: i wf_identities_def)
  qed
qed (simp add: wf_identities_def)

lemma unknown_dependencies_clean:
  "unknown_dependencies apps a ds = [] \<longleftrightarrow> (\<forall>d \<in> set ds. um_find apps d \<noteq> None)"
  by (induction ds) auto

lemma inspect_mode_units_clean:
  "inspect_mode_units apps path us selected = [] \<longleftrightarrow>
     distinct us \<and> set us \<inter> set selected = {} \<and> (\<forall>u \<in> set us. um_find apps u \<noteq> None)"
  by (induction us arbitrary: selected) auto

lemma inspect_modes_clean:
  assumes "inspect_modes apps d ms ids names = (ids', issues)"
  shows "(issues = [] \<longleftrightarrow> wf_identities (map md_id ms) (map md_name ms) \<and>
            (\<forall>m \<in> set ms. distinct (md_units m) \<and> (\<forall>u \<in> set (md_units m). um_find apps u \<noteq> None)) \<and>
            md_id ` set ms \<inter> set ids = {} \<and> md_name ` set ms \<inter> set names = {}) \<and>
         (issues = [] \<longrightarrow> set ids' = set ids \<union> md_id ` set ms)"
  using assms
proof (induction ms arbitrary: ids names ids' issues)
  case (Cons m ms)
  obtain ids1 names1 is1 where
    i: "InspectIdentity (md_id m) (md_name m) (ModePath d m) ids names = (ids1, names1, is1)"
    by (metis prod_cases3)
  obtain ids2 rest where r: "inspect_modes apps d ms ids1 names1 = (ids2, rest)"
    by fastforce
  have eq: "ids' = ids2" "issues = is1 @ inspect_mode_units apps (ModePath d m) (md_units m) [] @ rest"
    using Cons.prems by (simp_all add: i r)
  show ?case
  proof (cases "is1 = []")
    case True
    then show ?thesis
      using InspectIdentity_clean [OF i] Cons.IH [OF r]
      by (auto simp: eq wf_identities_def inspect_mode_units_clean)
  next
    case False
    then show ?thesis
      using InspectIdentity_clean [OF i] by (auto simp: eq wf_identities_def)
  qed
qed (simp add: wf_identities_def)

lemma inspect_domains_clean:
  assumes units: "\<And>i. um_find apps i \<noteq> None \<longleftrightarrow> i \<in> units"
  shows "inspect_domains apps ds ids names = [] \<longleftrightarrow>
     wf_identities (map dd_id ds) (map dd_name ds) \<and> (\<forall>d \<in> set ds. wf_domain units d) \<and>
     dd_id ` set ds \<inter> set ids = {} \<and> dd_name ` set ds \<inter> set names = {}"
proof (induction ds arbitrary: ids names)
  case (Cons d ds)
  obtain ids1 names1 is1 where
    i: "InspectIdentity (dd_id d) (dd_name d) (DomainPath d) ids names = (ids1, names1, is1)"
    by (metis prod_cases3)
  obtain mids mis where m: "inspect_modes apps d (dd_modes d) [] [] = (mids, mis)"
    by fastforce
  have dom: "mis = [] \<and> inspect_domain_policies d mids = [] \<longleftrightarrow> wf_domain units d"
    using inspect_modes_clean [OF m] units
    by (auto simp: wf_domain_def inspect_domain_policies_def Let_def subset_eq split: if_splits)
  show ?case
  proof (cases "is1 = []")
    case True
    then show ?thesis
      using InspectIdentity_clean [OF i] Cons.IH [of ids1 names1] dom
      by (auto simp: i m wf_identities_def)
  next
    case False
    then show ?thesis
      using InspectIdentity_clean [OF i] by (auto simp: i m wf_identities_def)
  qed
qed (simp add: wf_identities_def)


lemma set_assigned_units:
  "set (assigned_units ds) = (\<Union>d \<in> set ds. \<Union>m \<in> set (dd_modes d). set (md_units m))"
proof -
  have inner: "set (fold (\<lambda>m s. us_insert_all (md_units m) s) ms s) = set s \<union> (\<Union>m \<in> set ms. set (md_units m))"
    for ms s by (induction ms arbitrary: s) auto
  have "set (fold (\<lambda>d s. fold (\<lambda>m s. us_insert_all (md_units m) s) (dd_modes d) s) ds s) =
      set s \<union> (\<Union>d \<in> set ds. \<Union>m \<in> set (dd_modes d). set (md_units m))" for s
    by (induction ds arbitrary: s) (auto simp: inner)
  then show ?thesis by (simp add: assigned_units_def)
qed

lemma inspect_membership_clean:
  "inspect_membership apps assigned u = [] \<longleftrightarrow>
     (eu_bootstrap u \<longleftrightarrow> eu_id u \<notin> set assigned) \<and>
     (eu_bootstrap u \<longrightarrow> (\<forall>d \<in> set (eu_dependencies u). \<forall>f. um_find apps d = Some f \<longrightarrow> eu_bootstrap f))"
  by (auto simp: inspect_membership_def list_ex_iff split: option.splits)

lemma inspect_constraints_clean:
  "inspect_constraints modes self path cs seen = [] \<longleftrightarrow>
     (\<forall>c \<in> set cs. mc_other c \<noteq> self \<and> um_find modes (mc_other c) \<noteq> None) \<and>
     (\<forall>c \<in> set cs. \<forall>k. um_find seen (mc_other c) = Some k \<longrightarrow> k = mc_kind c) \<and>
     (\<forall>c \<in> set cs. \<forall>c' \<in> set cs. mc_other c = mc_other c' \<longrightarrow> mc_kind c = mc_kind c')"
proof (induction cs arbitrary: seen)
  case (Cons c cs)
  show ?case
  proof (cases "um_find seen (mc_other c)")
    case None
    then have e: "um_find (um_emplace (mc_other c) (mc_kind c) seen) x = Some k \<longleftrightarrow>
        (x = mc_other c \<and> k = mc_kind c) \<or> (x \<noteq> mc_other c \<and> um_find seen x = Some k)" for x k
      by auto
    have m1: "(\<forall>x \<in> set cs. \<forall>k. um_find (um_emplace (mc_other c) (mc_kind c) seen) (mc_other x) = Some k \<longrightarrow> k = mc_kind x) \<longleftrightarrow>
        (\<forall>x \<in> set cs. (mc_other c = mc_other x \<longrightarrow> mc_kind c = mc_kind x) \<and>
           (mc_other x = mc_other c \<longrightarrow> mc_kind x = mc_kind c) \<and>
           (\<forall>k. um_find seen (mc_other x) = Some k \<longrightarrow> k = mc_kind x))"
      unfolding e by (intro ball_cong refl) (use None in auto)
    have m2: "inspect_constraints modes self path (c # cs) seen = [] \<longleftrightarrow>
        mc_other c \<noteq> self \<and> um_find modes (mc_other c) \<noteq> None \<and>
        inspect_constraints modes self path cs (um_emplace (mc_other c) (mc_kind c) seen) = []"
      using None by simp
    have none: "(\<forall>k. um_find seen (mc_other c) = Some k \<longrightarrow> k = mc_kind c) = True" using None by simp
    show ?thesis
      unfolding m2 Cons.IH m1 list.set ball_simps ball_conj_distrib none simp_thms
      by (rule iffI; elim conjE; intro conjI; assumption)
  next
    case (Some k)
    then have e: "um_emplace (mc_other c) (mc_kind c) seen = seen"
      by (simp add: um_emplace_def)
    have key: "k = mc_kind c \<and> (\<forall>x \<in> set cs. \<forall>k. um_find seen (mc_other x) = Some k \<longrightarrow> k = mc_kind x) \<longrightarrow>
        (\<forall>x \<in> set cs. mc_other c = mc_other x \<longrightarrow> mc_kind c = mc_kind x) \<and>
        (\<forall>x \<in> set cs. mc_other x = mc_other c \<longrightarrow> mc_kind x = mc_kind c)"
      using Some by force
    have some: "(\<forall>k'. um_find seen (mc_other c) = Some k' \<longrightarrow> k' = mc_kind c) \<longleftrightarrow> k = mc_kind c"
      using Some by simp
    have m2: "inspect_constraints modes self path (c # cs) seen = [] \<longleftrightarrow>
        mc_other c \<noteq> self \<and> um_find modes (mc_other c) \<noteq> None \<and> k = mc_kind c \<and>
        inspect_constraints modes self path cs seen = []"
      using Some e by simp
    show ?thesis
      unfolding m2 Cons.IH list.set ball_simps ball_conj_distrib some simp_thms using key by argo
  qed
qed simp

lemma um_find_emplace_modes:
  "um_find (fold (\<lambda>md m. um_emplace \<lparr>mr_domain = d, mr_mode = md_id md\<rparr> md m) mds m) r =
     (case um_find m r of Some x \<Rightarrow> Some x
      | None \<Rightarrow> if mr_domain r = d then find (\<lambda>md. md_id md = mr_mode r) mds else None)"
  by (induction mds arbitrary: m) (auto split: option.splits)

lemma um_find_index_modes_from:
  "um_find (index_modes_from ds m) r =
     (case um_find m r of Some x \<Rightarrow> Some x
      | None \<Rightarrow> List.find (\<lambda>md. md_id md = mr_mode r)
          (concat (map dd_modes (filter (\<lambda>d. dd_id d = mr_domain r) ds))))"
proof (induction ds arbitrary: m)
  case (Cons d ds)
  have app: "find P (xs @ ys) = (case find P xs of Some x \<Rightarrow> Some x | None \<Rightarrow> find P ys)"
    for P :: "ModeDefinition \<Rightarrow> bool" and xs ys
    by (induction xs) auto
  show ?case
    by (auto simp: Cons.IH um_find_emplace_modes app split: option.splits)
qed (simp split: option.splits)

lemma um_find_index_modes_iff:
  "um_find (index_modes_from (em_domains model) []) r \<noteq> None \<longleftrightarrow> r \<in> mode_refs model"
proof -
  have "r \<in> mode_refs model \<longleftrightarrow> (\<exists>d \<in> set (em_domains model). \<exists>m \<in> set (dd_modes d).
      dd_id d = mr_domain r \<and> md_id m = mr_mode r)"
    by (cases r) (auto simp: mode_refs_def)
  then show ?thesis
    by (simp add: um_find_index_modes_from find_None_iff del: not_None_eq) blast
qed

lemma visit_all_correct:
  "dfs_inv us st \<Longrightarrow> stack st = [] \<Longrightarrow> set as \<subseteq> set us \<Longrightarrow>
     (\<forall>u \<in> set us. eu_id u \<in> eu_id ` set as \<or> visit_of st (eu_id u) = V_complete) \<Longrightarrow>
     (\<forall>i. find (\<lambda>u. eu_id u = i) as = find (\<lambda>u. eu_id u = i) us \<or> visit_of st i = V_complete) \<Longrightarrow>
     dfs_inv us (visit_all us as st) \<and> stack (visit_all us as st) = [] \<and>
     (\<forall>u \<in> set us. visit_of (visit_all us as st) (eu_id u) = V_complete)"
proof (induction as arbitrary: st)
  case (Cons a as)
  let ?st = "if visit_of st (eu_id a) = V_unseen then visit us a st else st"
  have "find (\<lambda>u. eu_id u = eu_id a) us = Some a \<or> visit_of st (eu_id a) = V_complete"
    using Cons.prems(5) [rule_format, of "eu_id a"] by auto
  moreover have "visit_of st (eu_id a) \<noteq> V_active"
    using Cons.prems(1,2) by (simp add: dfs_inv_def)
  ultimately have step: "dfs_inv us ?st \<and> dfs_grows st ?st \<and> visit_of ?st (eu_id a) = V_complete"
    using visit_correct(1) [of us st a] Cons.prems(1,2)
    by (cases "visit_of st (eu_id a)") auto
  have "dfs_inv us (visit_all us as ?st) \<and> stack (visit_all us as ?st) = [] \<and>
     (\<forall>u \<in> set us. visit_of (visit_all us as ?st) (eu_id u) = V_complete)"
  proof (rule Cons.IH)
    show "\<forall>u \<in> set us. eu_id u \<in> eu_id ` set as \<or> visit_of ?st (eu_id u) = V_complete"
      using step Cons.prems(4) by (auto simp: dfs_grows_def)
    show "\<forall>i. find (\<lambda>u. eu_id u = i) as = find (\<lambda>u. eu_id u = i) us \<or> visit_of ?st i = V_complete"
    proof
      fix i
      show "find (\<lambda>u. eu_id u = i) as = find (\<lambda>u. eu_id u = i) us \<or> visit_of ?st i = V_complete"
        using step Cons.prems(5) [rule_format, of i]
        by (cases "eu_id a = i") (auto simp: dfs_grows_def)
    qed
  qed (use step Cons.prems in \<open>auto simp: dfs_grows_def\<close>)
  then show ?case by simp
qed simp

lemma depends_range: "(x, y) \<in> depends us \<Longrightarrow> x \<in> eu_id ` set us"
  by (auto simp: depends_def dest: find_unit_Some)

lemma dependency_cycles_exact:
  "InspectDependencyCycles model = [] \<longleftrightarrow> acyclic (depends (em_units model))"
proof -
  let ?us = "em_units model" let ?st = "visit_all ?us ?us dfs_start"
  have "dfs_inv ?us dfs_start"
    by (simp add: dfs_inv_def dfs_start_def visit_of_def acyclic_def)
  then have inv: "dfs_inv ?us ?st" and all: "\<forall>u \<in> set ?us. visit_of ?st (eu_id u) = V_complete"
    using visit_all_correct [of ?us dfs_start ?us] by (auto simp: dfs_start_def)
  have "{(x, y) \<in> depends ?us. visit_of ?st x = V_complete} = depends ?us"
    using all depends_range by fastforce
  then show ?thesis
    using inv by (auto simp: dfs_inv_def InspectDependencyCycles_def)
qed

lemma find_distinct:
  "distinct (map f xs) \<Longrightarrow> find (\<lambda>x. f x = i) xs = Some x \<longleftrightarrow> x \<in> set xs \<and> f x = i"
  by (induction xs) (auto simp: image_iff)

lemma filter_distinct: "distinct (map f xs) \<Longrightarrow> x \<in> set xs \<Longrightarrow> filter (\<lambda>y. f y = f x) xs = [x]"
  by (induction xs) (auto simp: filter_empty_conv image_iff)

lemma find_position:
  "map_option ((!) xs) (if i \<in> f ` set xs then Some (index_of (map f xs) i) else None) = find (\<lambda>x. f x = i) xs"
  by (induction xs) auto

lemma InspectModel_clean: "InspectModel model = [] \<longleftrightarrow> wf_model model"
proof -
  have find_iff: "(\<exists>u. find (\<lambda>u. eu_id u = i) (em_units model) = Some u) \<longleftrightarrow> i \<in> eu_id ` set (em_units model)" for i
    by (metis (mono_tags, lifting) find_None_iff image_iff not_None_eq)
  have boot: "(\<forall>d \<in> set (eu_dependencies u). \<forall>f. find (\<lambda>u. eu_id u = d) (em_units model) = Some f \<longrightarrow> eu_bootstrap f)
      \<longleftrightarrow> (\<forall>v \<in> set (em_units model). eu_id v \<in> set (eu_dependencies u) \<longrightarrow> eu_bootstrap v)"
    if "distinct (map eu_id (em_units model))" for u
  proof -
    have "find (\<lambda>u. eu_id u = d) (em_units model) = Some f \<longleftrightarrow> f \<in> set (em_units model) \<and> eu_id f = d" for d f
      using find_distinct [OF that] by blast
    then show ?thesis by auto
  qed
  have doms: "inspect_domains (index_units (em_units model)) (em_domains model) [] [] = [] \<longleftrightarrow>
      wf_identities (map dd_id (em_domains model)) (map dd_name (em_domains model)) \<and>
      (\<forall>d \<in> set (em_domains model). wf_domain (eu_id ` set (em_units model)) d)"
    by (subst inspect_domains_clean [where units = "eu_id ` set (em_units model)"])
      (simp_all add: find_iff)
  have cons: "inspect_constraints (index_modes_from (em_domains model) []) r p cs [] = [] \<longleftrightarrow>
      wf_constraints (mode_refs model) r cs" for r p cs
    by (simp add: inspect_constraints_clean wf_constraints_def um_find_index_modes_iff del: not_None_eq)
  have deps: "(\<forall>d \<in> set (eu_dependencies u). um_find (index_units (em_units model)) d \<noteq> None) \<longleftrightarrow>
      set (eu_dependencies u) \<subseteq> eu_id ` set (em_units model)" for u
    by (simp add: find_iff subset_eq)
  have mem: "(\<forall>u \<in> set (em_units model). inspect_membership (index_units (em_units model))
        (assigned_units (em_domains model)) u = []) \<longleftrightarrow>
      (\<forall>u \<in> set (em_units model). eu_bootstrap u \<longleftrightarrow> eu_id u \<notin> mode_controlled model) \<and>
      (\<forall>u \<in> set (em_units model). \<forall>v \<in> set (em_units model).
        eu_bootstrap u \<and> eu_id v \<in> set (eu_dependencies u) \<longrightarrow> eu_bootstrap v)"
    if "distinct (map eu_id (em_units model))"
    unfolding inspect_membership_clean set_assigned_units um_find_index_units boot [OF that]
      mode_controlled_def by blast
  have gen: "(if em_generation model = 0 then [Issue MI_invalid_generation ''generation''
      ''generation zero is reserved''] else []) = [] \<longleftrightarrow> em_generation model \<noteq> 0"
    by simp
  show ?thesis
  proof (cases "distinct (map eu_id (em_units model))")
    case True
    show ?thesis
      unfolding InspectModel_def Let_def wf_model_def append_is_Nil_conv concat_eq_Nil_conv
        inspect_units_clean unknown_dependencies_clean dependency_cycles_exact doms
        set_map ball_simps(9) deps mem [OF True] cons gen
      by (simp only: list.set image_empty Int_empty_right simp_thms ball_conj_distrib) argo
  next
    case False
    then show ?thesis
      by (simp add: InspectModel_def Let_def wf_model_def inspect_units_clean wf_identities_def)
  qed
qed

lemma um_find_index_positions:
  "um_find (index_positions is n m) i =
     (case um_find m i of Some x \<Rightarrow> Some x
      | None \<Rightarrow> if i \<in> set is then Some (n + index_of is i) else None)"
  by (induction "is" arbitrary: n m) (auto split: option.splits)

lemma FindUnit_BuildIndex:
  "FindUnit (BuildIndex model) i = find (\<lambda>u. eu_id u = i) (em_units model)"
  using find_position [of "em_units model" i eu_id]
  by (simp add: FindUnit_def BuildIndex_def um_find_index_positions split: if_splits)

lemma FindDomain_BuildIndex:
  "FindDomain (BuildIndex model) i = find (\<lambda>d. dd_id d = i) (em_domains model)"
  using find_position [of "em_domains model" i dd_id]
  by (simp add: FindDomain_def BuildIndex_def um_find_index_positions split: if_splits)

lemma FindMode_BuildIndex:
  assumes "wf_model model"
  shows "FindMode (BuildIndex model) d m = Some md \<longleftrightarrow>
     (\<exists>dd \<in> set (em_domains model). dd_id dd = d \<and> md \<in> set (dd_modes dd) \<and> md_id md = m)"
proof -
  have dist: "distinct (map dd_id (em_domains model))"
    and modes: "\<And>dd. dd \<in> set (em_domains model) \<Longrightarrow> distinct (map md_id (dd_modes dd))"
    using assms by (auto simp: wf_model_def wf_domain_def wf_identities_def)
  have eq: "FindMode (BuildIndex model) d m =
      find (\<lambda>md. md_id md = m) (concat (map dd_modes (filter (\<lambda>dd. dd_id dd = d) (em_domains model))))"
    by (simp add: FindMode_def BuildIndex_def um_find_index_modes_from)
  show ?thesis
  proof (cases "\<exists>dd \<in> set (em_domains model). dd_id dd = d")
    case True
    then obtain dd where dd: "dd \<in> set (em_domains model)" "dd_id dd = d" by blast
    have "filter (\<lambda>dd. dd_id dd = d) (em_domains model) = [dd]"
      using filter_distinct [OF dist dd(1)] dd(2) by simp
    then have "FindMode (BuildIndex model) d m = Some md \<longleftrightarrow> md \<in> set (dd_modes dd) \<and> md_id md = m"
      using find_distinct [OF modes [OF dd(1)]] by (simp add: eq)
    moreover have "\<forall>dd' \<in> set (em_domains model). dd_id dd' = d \<longrightarrow> dd' = dd"
      using dd dist unfolding distinct_map inj_on_def by blast
    ultimately show ?thesis using dd by blast
  next
    case False
    then have "filter (\<lambda>dd. dd_id dd = d) (em_domains model) = []" by (auto simp: filter_empty_conv)
    with False show ?thesis by (auto simp: eq)
  qed
qed

lemma ValidateModel_Inr: "ValidateModel model = Inr vm \<longleftrightarrow> wf_model model \<and> vm = BuildIndex model"
  unfolding InspectModel_clean [symmetric] ValidateModel_def by (auto split: list.splits)

section \<open>A small model\<close>

text \<open>The model of \<^verbatim>\<open>exec/tests/engine_test.cpp\<close> with its fallback mode: a base application, a
  feature that depends on it, and one domain with a startup, an operational and a fallback mode.\<close>

definition no_retry :: RetryPolicy where
  "no_retry = \<lparr>max_attempts = 1, retry_delay = 0\<rparr>"

definition example_model :: ExecutionModel where
  "example_model =
     \<lparr>em_generation = 3,
      em_units =
        [\<lparr>eu_id = 1, eu_name = ''base'', eu_readiness = RD_required, eu_start_timeout = 1000,
          eu_stop_timeout = 1000, eu_retry = no_retry, eu_dependencies = [],
          eu_exclusive_resources = [], eu_kind = UK_managed_application, eu_bootstrap = False\<rparr>,
         \<lparr>eu_id = 2, eu_name = ''feature'', eu_readiness = RD_required, eu_start_timeout = 1000,
          eu_stop_timeout = 1000, eu_retry = no_retry, eu_dependencies = [1],
          eu_exclusive_resources = [], eu_kind = UK_managed_application, eu_bootstrap = False\<rparr>],
      em_domains =
        [\<lparr>dd_id = 1, dd_name = ''machine'', dd_initial_mode = 1,
          dd_replacement = RP_supersede_if_safe,
          dd_recovery = \<lparr>rp_action = FA_enter_fallback_mode, rp_fallback_mode = 3, rp_deadline = 1000\<rparr>,
          dd_modes =
            [\<lparr>md_id = 1, md_name = ''startup'', md_units = [1], md_constraints = []\<rparr>,
             \<lparr>md_id = 2, md_name = ''operational'', md_units = [1, 2], md_constraints = []\<rparr>,
             \<lparr>md_id = 3, md_name = ''fallback'', md_units = [], md_constraints = []\<rparr>]\<rparr>]\<rparr>"

lemma example_valid: "ValidateModel example_model = Inr (BuildIndex example_model)"
  by (simp add: ValidateModel_def) code_simp

lemma example_wf: "wf_model example_model"
  using example_valid by (simp add: ValidateModel_Inr)

section \<open>Properties\<close>

text \<open>C22: \<open>ValidateModel\<close> accepts exactly the well-formed models: nonzero generation, nonzero and
  unique identifiers, valid and unique names, positive timeouts, a retry policy within its bounds,
  a readiness policy that fits the unit kind, dependencies that are declared once, defined and free
  of cycles, units that are either bootstrap or controlled by a mode (bootstrap units depending on bootstrap units
  only), domains whose modes select defined units and whose initial and fallback modes
  exist, and constraints that name other defined modes without contradiction. An accepted model is
  returned with its index, every other model is refused with a configuration error.\<close>

theorem validation_exact:
  "ValidateModel model = (if wf_model model then Inr (BuildIndex model)
     else Inl (MakeError EC_configuration_error
            (mi_path (hd (InspectModel model)) @ '': '' @ mi_message (hd (InspectModel model)))
            (of_nat (length (InspectModel model)))))"
  unfolding InspectModel_clean [symmetric] ValidateModel_def by (auto split: list.splits)

text \<open>C39: the depth-first search of \<open>InspectDependencyCycles\<close> reports nothing exactly when the
  dependency relation between the defined units is acyclic. It is a total function: it ends on every
  model, also on those with cycles, duplicate identifiers and unknown dependencies.\<close>

theorem cycle_search_exact:
  "InspectDependencyCycles model = [] \<longleftrightarrow> acyclic (depends (em_units model))"
  by (rule dependency_cycles_exact)

text \<open>On a validated model the three index lookups return exactly the declared unit, domain
  and mode with the given identifiers.\<close>

theorem index_lookup:
  assumes "ValidateModel model = Inr vm"
  shows "(FindUnit vm i = Some u \<longleftrightarrow> u \<in> set (em_units model) \<and> eu_id u = i) \<and>
    (FindDomain vm j = Some d \<longleftrightarrow> d \<in> set (em_domains model) \<and> dd_id d = j) \<and>
    (FindMode vm j m = Some md \<longleftrightarrow>
       (\<exists>dd. FindDomain vm j = Some dd \<and> md \<in> set (dd_modes dd) \<and> md_id md = m))"
proof -
  have wf: "wf_model model" and vm: "vm = BuildIndex model"
    using assms by (simp_all add: ValidateModel_Inr)
  then have u: "distinct (map eu_id (em_units model))" and d: "distinct (map dd_id (em_domains model))"
    by (simp_all add: wf_model_def wf_identities_def)
  show ?thesis
    unfolding vm FindUnit_BuildIndex FindDomain_BuildIndex FindMode_BuildIndex [OF wf]
      find_distinct [OF u] find_distinct [OF d] by blast
qed

theorem index_lookup_witness:
  "FindUnit (BuildIndex example_model) 2 = Some (em_units example_model ! 1)"
  using index_lookup [OF example_valid, of 2 "em_units example_model ! 1"]
  by (simp add: example_model_def)

end
