(* ===== verification/Exec_Planner.thy ===== *)
theory Exec_Planner
  imports Exec_Model
begin

text \<open>
  The transition planner, \<^verbatim>\<open>exec/src/planner.cpp\<close> and \<^verbatim>\<open>exec/include/ovf/exec/internal/planner.hpp\<close>.
  Where the code follows the pointer \<open>FindUnit\<close> returns without a check, the model has the
  explicit outcome \<open>None\<close> of the option around the result; the lemmas show that it does not happen
  when the running units are units of the model. The main results: a plan splits the
  required and the running units exactly, keeps every running unit's dependencies running at
  every intermediate point, and does not depend on the iteration order of the unordered sets.
\<close>

section \<open>Data\<close>

record SystemConfiguration =
  sc_generation :: ModelGeneration
  sc_committed_modes :: "(DomainId \<times> ModeId) list"
  sc_running_units :: "ExecutionUnitId list"

record TransitionPlan =
  tp_generation :: ModelGeneration
  tp_domain :: DomainId
  tp_source_mode :: ModeId
  tp_target_mode :: ModeId
  tp_retain :: "ExecutionUnitId list"
  tp_stop :: "ExecutionUnitId list"
  tp_start :: "ExecutionUnitId list"
  tp_guarded_domains :: "DomainId list"
  tp_affected_resources :: "ResourceId list"

section \<open>Required units and constraints\<close>

definition bootstrap_units :: "ExecutionUnitDefinition list \<Rightarrow> ExecutionUnitId list" where
  "bootstrap_units us = fold (\<lambda>u s. if eu_bootstrap u then us_insert (eu_id u) s else s) us []"

fun collect_mode_units ::
  "ValidatedModel \<Rightarrow> (DomainId \<times> ModeId) list \<Rightarrow> DomainDefinition list \<Rightarrow> ExecutionUnitId list
     \<Rightarrow> (ExecutionUnitId list, Error) result" where
  "collect_mode_units vm modes [] required = Inr required"
| "collect_mode_units vm modes (domain # ds) required =
     (case um_find modes (dd_id domain) of
        None \<Rightarrow> Inl (MakeError EC_configuration_error
                      ''system configuration is missing an execution domain'' 0)
      | Some selected \<Rightarrow>
          (case FindMode vm (dd_id domain) selected of
             None \<Rightarrow> Inl (MakeError EC_configuration_error
                           ''system configuration selects an undefined execution mode'' 0)
           | Some mode \<Rightarrow> collect_mode_units vm modes ds (us_insert_all (md_units mode) required)))"

fun check_required ::
  "ValidatedModel \<Rightarrow> ExecutionUnitId list \<Rightarrow> ExecutionUnitId list \<Rightarrow> Error option" where
  "check_required vm required [] = None"
| "check_required vm required (u # us) =
     (case FindUnit vm u of
        None \<Rightarrow> Some (MakeError EC_configuration_error
                       ''execution mode selects an undefined execution unit'' 0)
      | Some definition \<Rightarrow>
          if list_ex (\<lambda>d. \<not> us_contains required d) (eu_dependencies definition) then
            Some (MakeError EC_invalid_transition
                    ''target modes omit an explicit execution-unit dependency'' 0)
          else check_required vm required us)"

definition RequiredUnits ::
  "ValidatedModel \<Rightarrow> (DomainId \<times> ModeId) list \<Rightarrow> (ExecutionUnitId list, Error) result" where
  "RequiredUnits vm modes =
     (case collect_mode_units vm modes (em_domains (vm_model vm))
             (bootstrap_units (em_units (vm_model vm))) of
        Inl e \<Rightarrow> Inl e
      | Inr required \<Rightarrow>
          (case check_required vm required required of
             Some e \<Rightarrow> Inl e
           | None \<Rightarrow> Inr required))"

definition mode_selected :: "(DomainId \<times> ModeId) list \<Rightarrow> ModeRef \<Rightarrow> bool" where
  "mode_selected modes other = (um_find modes (mr_domain other) = Some (mr_mode other))"

fun check_constraints ::
  "(DomainId \<times> ModeId) list \<Rightarrow> ModeConstraint list \<Rightarrow> Error option" where
  "check_constraints modes [] = None"
| "check_constraints modes (c # cs) =
     (let selected = mode_selected modes (mc_other c) in
      if mc_kind c = CK_requires_mode \<and> \<not> selected then
        Some (MakeError EC_invalid_transition
                ''target system configuration does not satisfy a required mode'' 0)
      else if mc_kind c = CK_excludes_mode \<and> selected then
        Some (MakeError EC_invalid_transition
                ''target system configuration selects mutually exclusive modes'' 0)
      else check_constraints modes cs)"

fun validate_constraints_from ::
  "ValidatedModel \<Rightarrow> (DomainId \<times> ModeId) list \<Rightarrow> (DomainId \<times> ModeId) list \<Rightarrow> Error option" where
  "validate_constraints_from vm modes [] = None"
| "validate_constraints_from vm modes ((domain, mode) # rest) =
     (case FindMode vm domain mode of
        None \<Rightarrow> Some (MakeError EC_configuration_error
                       ''system configuration contains an undefined mode'' 0)
      | Some definition \<Rightarrow>
          (case check_constraints modes (md_constraints definition) of
             Some e \<Rightarrow> Some e
           | None \<Rightarrow> validate_constraints_from vm modes rest))"

definition ValidateConstraints ::
  "ValidatedModel \<Rightarrow> (DomainId \<times> ModeId) list \<Rightarrow> Error option" where
  "ValidateConstraints vm modes = validate_constraints_from vm modes modes"

section \<open>Dependency order\<close>

text \<open>The lambda \<open>visit\<close> of \<open>Order\<close> on the pair of \<open>visited\<close> and \<open>ordered\<close>; \<open>None\<close> is the
  dereference of the null pointer for a unit the model does not define.\<close>

function (sequential) order_visit ::
    "ValidatedModel \<Rightarrow> ExecutionUnitId list \<Rightarrow> ExecutionUnitId
       \<Rightarrow> ExecutionUnitId list \<times> ExecutionUnitId list
       \<Rightarrow> (ExecutionUnitId list \<times> ExecutionUnitId list) option"
  and order_visits ::
    "ValidatedModel \<Rightarrow> ExecutionUnitId list \<Rightarrow> ExecutionUnitId list
       \<Rightarrow> ExecutionUnitId list \<times> ExecutionUnitId list
       \<Rightarrow> (ExecutionUnitId list \<times> ExecutionUnitId list) option" where
  "order_visit vm us a (visited, ordered) =
     (if \<not> us_contains us a \<or> us_contains visited a then Some (visited, ordered)
      else (case FindUnit vm a of
              None \<Rightarrow> None
            | Some definition \<Rightarrow>
                (case order_visits vm us (sort (eu_dependencies definition))
                        (us_insert a visited, ordered) of
                   None \<Rightarrow> None
                 | Some (visited', ordered') \<Rightarrow> Some (visited', ordered' @ [a]))))"
| "order_visits vm us [] st = Some st"
| "order_visits vm us (a # as) st =
     (case order_visit vm us a st of
        None \<Rightarrow> None
      | Some st' \<Rightarrow> order_visits vm us as st')"
  by pat_completeness auto

lemma order_visit_grows_partial:
  "order_visit_order_visits_dom (Inl (vm, us, a, st)) \<Longrightarrow>
     order_visit vm us a st = Some st' \<Longrightarrow> set (fst st) \<subseteq> set (fst st')"
  "order_visit_order_visits_dom (Inr (vm, us, as, st)) \<Longrightarrow>
     order_visits vm us as st = Some st' \<Longrightarrow> set (fst st) \<subseteq> set (fst st')"
proof (induction vm us a st and vm us as st arbitrary: st' and st'
    rule: order_visit_order_visits.pinduct)
  case (1 vm us a visited ordered)
  show ?case
  proof (cases "\<not> us_contains us a \<or> us_contains visited a")
    case True
    then show ?thesis using "1.prems" "1.hyps" by (simp add: order_visit.psimps)
  next
    case False
    then obtain d v' o' where d: "FindUnit vm a = Some d"
      and rec: "order_visits vm us (sort (eu_dependencies d)) (us_insert a visited, ordered) = Some (v', o')"
      and st': "st' = (v', o' @ [a])"
      using "1.prems" "1.hyps" by (auto simp: order_visit.psimps split: option.splits)
    show ?thesis using "1.IH" [OF False d rec] by (simp add: st')
  qed
next
  case (2 vm us st)
  then show ?case by (simp add: order_visits.psimps)
next
  case (3 vm us a as st)
  then obtain st1 where st1: "order_visit vm us a st = Some st1" "order_visits vm us as st1 = Some st'"
    by (auto simp: order_visits.psimps split: option.splits)
  show ?case using "3.IH"(1) [OF st1(1)] "3.IH"(2) [OF st1] by blast
qed

termination order_visit
proof (relation "measures
    [\<lambda>x. case x of Inl (vm, us, a, st) \<Rightarrow> card (set us - set (fst st))
                | Inr (vm, us, as, st) \<Rightarrow> card (set us - set (fst st)),
     \<lambda>x. case x of Inl _ \<Rightarrow> 0 | Inr (vm, us, as, st) \<Rightarrow> Suc (length as)]", goal_cases)
  case (2 vm us a visited ordered d)
  then have "card (set us - insert a (set visited)) < card (set us - set visited)"
    by (intro psubset_card_mono) auto
  then show ?case by simp
next
  case (4 vm us a as st st')
  then have "set (fst st) \<subseteq> set (fst st')"
    using order_visit_grows_partial(1) by blast
  then have "card (set us - set (fst st')) \<le> card (set us - set (fst st))"
    by (intro card_mono) auto
  then show ?case by auto
qed auto

definition Order ::
  "ValidatedModel \<Rightarrow> ExecutionUnitId list \<Rightarrow> bool \<Rightarrow> ExecutionUnitId list option" where
  "Order vm us reverse =
     (case order_visits vm us (sort us) ([], []) of
        None \<Rightarrow> None
      | Some (visited, ordered) \<Rightarrow> Some (if reverse then rev ordered else ordered))"

section \<open>Plans\<close>

definition InitialConfiguration :: "ValidatedModel \<Rightarrow> (SystemConfiguration, Error) result" where
  "InitialConfiguration vm =
     (let modes = fold (\<lambda>d m. um_emplace (dd_id d) (dd_initial_mode d) m) (em_domains (vm_model vm)) [] in
      case RequiredUnits vm modes of
        Inl e \<Rightarrow> Inl e
      | Inr required \<Rightarrow>
          Inr \<lparr>sc_generation = em_generation (vm_model vm), sc_committed_modes = modes,
               sc_running_units = required\<rparr>)"

text \<open>The exclusive resources of the given units, inserted into the ordered set \<open>resources\<close>.\<close>

fun insert_resources ::
  "ValidatedModel \<Rightarrow> ExecutionUnitId list \<Rightarrow> ResourceId list \<Rightarrow> ResourceId list option" where
  "insert_resources vm [] resources = Some resources"
| "insert_resources vm (u # us) resources =
     (case FindUnit vm u of
        None \<Rightarrow> None
      | Some definition \<Rightarrow>
          insert_resources vm us (fold insort_insert (eu_exclusive_resources definition) resources))"

definition guarded_by :: "DomainId \<Rightarrow> DomainDefinition list \<Rightarrow> DomainId list" where
  "guarded_by domain ds =
     fold (\<lambda>cd g. fold (\<lambda>cm g. fold (\<lambda>c g.
        if dd_id cd = domain \<or> mr_domain (mc_other c) = domain
        then insort_insert (mr_domain (mc_other c)) (insort_insert (dd_id cd) g) else g)
       (md_constraints cm) g) (dd_modes cd) g) ds [domain]"

definition build_plan_for ::
  "ValidatedModel \<Rightarrow> SystemConfiguration \<Rightarrow> DomainId \<Rightarrow> ModeId \<Rightarrow> ModeId \<Rightarrow> ExecutionUnitId list
     \<Rightarrow> TransitionPlan option" where
  "build_plan_for vm current domain source target required =
     (let retained = filter (us_contains (sc_running_units current)) required;
          to_start = filter (\<lambda>u. \<not> us_contains (sc_running_units current) u) required;
          to_stop = filter (\<lambda>u. \<not> us_contains required u) (sc_running_units current) in
      case insert_resources vm to_start [] of
        None \<Rightarrow> None
      | Some start_resources \<Rightarrow>
          (case insert_resources vm to_stop start_resources of
             None \<Rightarrow> None
           | Some resources \<Rightarrow>
               (case (Order vm retained False, Order vm to_stop True, Order vm to_start False) of
                  (Some retain, Some stop, Some start) \<Rightarrow>
                    Some \<lparr>tp_generation = sc_generation current, tp_domain = domain,
                          tp_source_mode = source, tp_target_mode = target, tp_retain = retain,
                          tp_stop = stop, tp_start = start,
                          tp_guarded_domains = guarded_by domain (em_domains (vm_model vm)),
                          tp_affected_resources = resources\<rparr>
                | _ \<Rightarrow> None)))"

definition BuildPlan ::
  "ValidatedModel \<Rightarrow> SystemConfiguration \<Rightarrow> DomainId \<Rightarrow> ModeId \<Rightarrow> bool
     \<Rightarrow> (TransitionPlan, Error) result option" where
  "BuildPlan vm current domain target allow_current_mode =
     (if sc_generation current \<noteq> em_generation (vm_model vm) then
        Some (Inl (MakeError EC_configuration_error
                ''system configuration generation does not match the active model'' 0))
      else if FindDomain vm domain = None then
        Some (Inl (MakeError EC_not_found ''execution domain is not defined'' 0))
      else if FindMode vm domain target = None then
        Some (Inl (MakeError EC_not_found ''execution mode is not defined by the domain'' 0))
      else
        (case um_find (sc_committed_modes current) domain of
           None \<Rightarrow> Some (Inl (MakeError EC_configuration_error
                     ''system configuration has no committed mode for the domain'' 0))
         | Some current_mode \<Rightarrow>
             if \<not> allow_current_mode \<and> current_mode = target then
               Some (Inl (MakeError EC_invalid_transition ''domain is already in the target mode'' 0))
             else
               (let proposed_modes = um_set domain target (sc_committed_modes current) in
                case ValidateConstraints vm proposed_modes of
                  Some e \<Rightarrow> Some (Inl e)
                | None \<Rightarrow>
                    (case RequiredUnits vm proposed_modes of
                       Inl e \<Rightarrow> Some (Inl e)
                     | Inr required \<Rightarrow>
                         map_option Inr
                           (build_plan_for vm current domain current_mode target required)))))"

definition Plan ::
  "ValidatedModel \<Rightarrow> SystemConfiguration \<Rightarrow> DomainId \<Rightarrow> ModeId \<Rightarrow> (TransitionPlan, Error) result option" where
  "Plan vm current domain target = BuildPlan vm current domain target False"

definition Reconcile ::
  "ValidatedModel \<Rightarrow> SystemConfiguration \<Rightarrow> DomainId \<Rightarrow> ModeId \<Rightarrow> (TransitionPlan, Error) result option" where
  "Reconcile vm current domain target = BuildPlan vm current domain target True"

fun remaining_mode_units ::
  "ValidatedModel \<Rightarrow> (DomainId \<times> ModeId) list \<Rightarrow> ExecutionUnitId list
     \<Rightarrow> (ExecutionUnitId list, Error) result" where
  "remaining_mode_units vm [] required = Inr required"
| "remaining_mode_units vm ((domain, mode) # rest) required =
     (case FindMode vm domain mode of
        None \<Rightarrow> Inl (MakeError EC_configuration_error
                      ''system configuration selects an undefined execution mode'' 0)
      | Some definition \<Rightarrow>
          remaining_mode_units vm rest (us_insert_all (md_units definition) required))"

definition omits_dependency :: "ValidatedModel \<Rightarrow> ExecutionUnitId list \<Rightarrow> ExecutionUnitId \<Rightarrow> bool" where
  "omits_dependency vm required u =
     (case FindUnit vm u of
        None \<Rightarrow> True
      | Some definition \<Rightarrow> list_ex (\<lambda>d. \<not> us_contains required d) (eu_dependencies definition))"

definition StopDomainUnits ::
  "ValidatedModel \<Rightarrow> SystemConfiguration \<Rightarrow> DomainId \<Rightarrow> (ExecutionUnitId list, Error) result option" where
  "StopDomainUnits vm current domain =
     (if sc_generation current \<noteq> em_generation (vm_model vm) \<or> FindDomain vm domain = None then
        Some (Inl (MakeError EC_configuration_error
                ''cannot stop an unknown domain or model generation'' 0))
      else
        (case remaining_mode_units vm (um_erase domain (sc_committed_modes current))
                (bootstrap_units (em_units (vm_model vm))) of
           Inl e \<Rightarrow> Some (Inl e)
         | Inr required \<Rightarrow>
             if list_ex (omits_dependency vm required) required then
               Some (Inl (MakeError EC_configuration_error
                       ''remaining domain configuration omits a required execution unit'' 0))
             else
               map_option Inr
                 (Order vm (filter (\<lambda>u. \<not> us_contains required u) (sc_running_units current)) True)))"

section \<open>The order of the units\<close>

definition dependencies_of :: "ValidatedModel \<Rightarrow> ExecutionUnitId \<Rightarrow> ExecutionUnitId set" where
  "dependencies_of vm u = (case FindUnit vm u of None \<Rightarrow> {} | Some d \<Rightarrow> set (eu_dependencies d))"

definition known_units :: "ValidatedModel \<Rightarrow> ExecutionUnitId set" where
  "known_units vm = {u. FindUnit vm u \<noteq> None}"

definition vm_depends :: "ValidatedModel \<Rightarrow> (ExecutionUnitId \<times> ExecutionUnitId) set" where
  "vm_depends vm = {(u, d). d \<in> dependencies_of vm u \<and> d \<in> known_units vm}"

text \<open>Each element comes after those of its dependencies that are in \<open>us\<close>.\<close>

definition dependencies_first :: "ValidatedModel \<Rightarrow> ExecutionUnitId set \<Rightarrow> ExecutionUnitId list \<Rightarrow> bool" where
  "dependencies_first vm us xs \<longleftrightarrow>
     (\<forall>i < length xs. dependencies_of vm (xs ! i) \<inter> us \<subseteq> set (take i xs))"

lemma dependencies_first_Nil [simp]: "dependencies_first vm us []"
  by (simp add: dependencies_first_def)

lemma dependencies_first_snoc:
  "dependencies_first vm us (xs @ [x]) \<longleftrightarrow>
     dependencies_first vm us xs \<and> dependencies_of vm x \<inter> us \<subseteq> set xs"
  by (auto simp: dependencies_first_def nth_append less_Suc_eq)

text \<open>What the search keeps: \<open>A\<close> holds the units whose visit is still open.\<close>

definition order_inv ::
  "ValidatedModel \<Rightarrow> ExecutionUnitId set \<Rightarrow> ExecutionUnitId set
     \<Rightarrow> ExecutionUnitId list \<times> ExecutionUnitId list \<Rightarrow> bool" where
  "order_inv vm us A st \<longleftrightarrow>
     set (fst st) = A \<union> set (snd st) \<and> A \<inter> set (snd st) = {} \<and> A \<subseteq> us \<and> set (snd st) \<subseteq> us \<and>
     distinct (snd st) \<and> dependencies_first vm us (snd st)"

lemma order_visit_correct:
  "set us \<subseteq> known_units vm \<Longrightarrow> acyclic (vm_depends vm) \<Longrightarrow> order_inv vm (set us) A st \<Longrightarrow>
     (a \<in> set us \<Longrightarrow> \<forall>x \<in> A. (x, a) \<in> (vm_depends vm)\<^sup>+) \<Longrightarrow>
     \<exists>st'. order_visit vm us a st = Some st' \<and> order_inv vm (set us) A st' \<and>
        set (snd st) \<subseteq> set (snd st') \<and> (a \<in> set us \<longrightarrow> a \<in> set (snd st'))"
  "set us \<subseteq> known_units vm \<Longrightarrow> acyclic (vm_depends vm) \<Longrightarrow> order_inv vm (set us) A st \<Longrightarrow>
     (\<forall>a \<in> set as \<inter> set us. \<forall>x \<in> A. (x, a) \<in> (vm_depends vm)\<^sup>+) \<Longrightarrow>
     \<exists>st'. order_visits vm us as st = Some st' \<and> order_inv vm (set us) A st' \<and>
        set (snd st) \<subseteq> set (snd st') \<and> set as \<inter> set us \<subseteq> set (snd st')"
proof (induction vm us a st and vm us as st arbitrary: A and A rule: order_visit_order_visits.induct)
  case (1 vm us a visited ordered)
  show ?case
  proof (cases "a \<in> set us \<and> a \<notin> set visited")
    case False
    moreover have "a \<in> set ordered" if "a \<in> set us" "a \<in> set visited"
    proof (rule ccontr)
      assume "a \<notin> set ordered"
      then have "a \<in> A" using that(2) "1.prems"(3) by (auto simp: order_inv_def)
      then have "(a, a) \<in> (vm_depends vm)\<^sup>+" using "1.prems"(4) that(1) by blast
      then show False using "1.prems"(2) by (simp add: acyclic_def)
    qed
    ultimately show ?thesis using "1.prems"(3) by auto
  next
    case True
    then obtain d where d: "FindUnit vm a = Some d"
      using "1.prems"(1) by (auto simp: known_units_def)
    have inv: "order_inv vm (set us) (insert a A) (us_insert a visited, ordered)"
      using "1.prems"(3) True by (auto simp: order_inv_def)
    have path: "\<forall>b \<in> set (sort (eu_dependencies d)) \<inter> set us. \<forall>x \<in> insert a A. (x, b) \<in> (vm_depends vm)\<^sup>+"
    proof (intro ballI)
      fix b x assume b: "b \<in> set (sort (eu_dependencies d)) \<inter> set us" and x: "x \<in> insert a A"
      have ab: "(a, b) \<in> vm_depends vm"
        using b d "1.prems"(1) by (auto simp: vm_depends_def dependencies_of_def)
      show "(x, b) \<in> (vm_depends vm)\<^sup>+"
        using x ab "1.prems"(4) True by (metis insert_iff r_into_trancl' trancl_into_trancl)
    qed
    obtain st' where st': "order_visits vm us (sort (eu_dependencies d)) (us_insert a visited, ordered) = Some st'"
      "order_inv vm (set us) (insert a A) st'" "set ordered \<subseteq> set (snd st')"
      "set (eu_dependencies d) \<inter> set us \<subseteq> set (snd st')"
      using "1.IH" [OF _ d "1.prems"(1,2) inv path] True by auto
    have "order_inv vm (set us) A (fst st', snd st' @ [a])"
      using st'(2,4) True "1.prems"(3) d
      by (auto simp: order_inv_def dependencies_first_snoc dependencies_of_def)
    then show ?thesis
      using True d st' by (cases st') auto
  qed
next
  case (2 vm us st)
  then show ?case by auto
next
  case (3 vm us a as st)
  obtain st1 where st1: "order_visit vm us a st = Some st1" "order_inv vm (set us) A st1"
    "set (snd st) \<subseteq> set (snd st1)" "a \<in> set us \<longrightarrow> a \<in> set (snd st1)"
    using "3.IH"(1) [OF "3.prems"(1-3)] "3.prems"(4) by auto
  obtain st2 where "order_visits vm us as st1 = Some st2" "order_inv vm (set us) A st2"
    "set (snd st1) \<subseteq> set (snd st2)" "set as \<inter> set us \<subseteq> set (snd st2)"
    using "3.IH"(2) [OF st1(1) "3.prems"(1,2) st1(2)] "3.prems"(4) by auto
  with st1 show ?case by auto
qed

lemma Order_correct:
  assumes "set us \<subseteq> known_units vm" and "acyclic (vm_depends vm)"
  obtains xs where "Order vm us r = Some (if r then rev xs else xs)"
    and "set xs = set us" and "distinct xs" and "dependencies_first vm (set us) xs"
proof -
  have "order_inv vm (set us) {} ([], [])"
    by (simp add: order_inv_def)
  then obtain st where st: "order_visits vm us (sort us) ([], []) = Some st" "order_inv vm (set us) {} st"
    "set (sort us) \<inter> set us \<subseteq> set (snd st)"
    using order_visit_correct(2) [OF assms, of "{}" "([], [])" "sort us"] by auto
  show ?thesis
    by (rule that [of "snd st"]) (use st in \<open>auto simp: Order_def order_inv_def split: prod.splits\<close>)
qed

text \<open>The order depends on the set of units only, not on the order they are listed in.\<close>

lemma order_visit_cong:
  "set us = set us' \<Longrightarrow> order_visit vm us a st = order_visit vm us' a st"
  "set us = set us' \<Longrightarrow> order_visits vm us as st = order_visits vm us' as st"
proof (induction vm us a st and vm us as st rule: order_visit_order_visits.induct)
  case (1 vm us a visited ordered)
  then show ?case by (auto split: option.splits)
next
  case (3 vm us a as st)
  then show ?case by (auto split: option.splits)
qed simp

lemma Order_cong:
  assumes "set us = set us'" and "distinct us" and "distinct us'"
  shows "Order vm us r = Order vm us' r"
proof -
  have "sort us = sort us'"
    using assms by (intro sorted_distinct_set_unique) auto
  then show ?thesis
    using order_visit_cong(2) [OF assms(1)] by (simp add: Order_def)
qed

section \<open>Required units\<close>

definition units_closed :: "ValidatedModel \<Rightarrow> ExecutionUnitId set \<Rightarrow> bool" where
  "units_closed vm us \<longleftrightarrow> us \<subseteq> known_units vm \<and> (\<forall>u \<in> us. dependencies_of vm u \<subseteq> us)"

definition required_set :: "ValidatedModel \<Rightarrow> (DomainId \<times> ModeId) list \<Rightarrow> ExecutionUnitId set" where
  "required_set vm modes =
     {eu_id u | u. u \<in> set (em_units (vm_model vm)) \<and> eu_bootstrap u} \<union>
     {u. \<exists>d m md. d \<in> set (em_domains (vm_model vm)) \<and> um_find modes (dd_id d) = Some m \<and>
          FindMode vm (dd_id d) m = Some md \<and> u \<in> set (md_units md)}"

definition constraints_hold :: "ValidatedModel \<Rightarrow> (DomainId \<times> ModeId) list \<Rightarrow> bool" where
  "constraints_hold vm modes \<longleftrightarrow>
     (\<forall>(d, m) \<in> set modes. \<exists>md. FindMode vm d m = Some md \<and>
        (\<forall>c \<in> set (md_constraints md).
           (mc_kind c = CK_requires_mode \<longrightarrow> mode_selected modes (mc_other c)) \<and>
           (mc_kind c = CK_excludes_mode \<longrightarrow> \<not> mode_selected modes (mc_other c))))"

lemma bootstrap_units_props:
  "set (bootstrap_units us) = {eu_id u | u. u \<in> set us \<and> eu_bootstrap u} \<and> distinct (bootstrap_units us)"
proof -
  have "set (fold (\<lambda>u s. if eu_bootstrap u then us_insert (eu_id u) s else s) us s) =
      set s \<union> {eu_id u | u. u \<in> set us \<and> eu_bootstrap u} \<and>
      (distinct s \<longrightarrow> distinct (fold (\<lambda>u s. if eu_bootstrap u then us_insert (eu_id u) s else s) us s))" for s
    by (induction us arbitrary: s) auto
  then show ?thesis by (simp add: bootstrap_units_def)
qed

lemma collect_mode_units_cases:
  "collect_mode_units vm modes ds req = Inr req' \<Longrightarrow>
     set req' = set req \<union> {u. \<exists>d m md. d \<in> set ds \<and> um_find modes (dd_id d) = Some m \<and>
            FindMode vm (dd_id d) m = Some md \<and> u \<in> set (md_units md)} \<and>
     (distinct req \<longrightarrow> distinct req') \<and>
     (\<forall>d \<in> set ds. \<exists>m md. um_find modes (dd_id d) = Some m \<and> FindMode vm (dd_id d) m = Some md)"
proof (induction ds arbitrary: req)
  case (Cons d ds)
  then obtain m md where m: "um_find modes (dd_id d) = Some m" "FindMode vm (dd_id d) m = Some md"
    and rest: "collect_mode_units vm modes ds (us_insert_all (md_units md) req) = Inr req'"
    by (auto split: option.splits)
  show ?case using Cons.IH [OF rest] m by (auto simp: ex_disj_distrib)
qed simp

lemmas collect_mode_units_Inr =
  collect_mode_units_cases [THEN conjunct1]
  collect_mode_units_cases [THEN conjunct2, THEN conjunct1, rule_format]
  collect_mode_units_cases [THEN conjunct2, THEN conjunct2]

lemma check_required_None:
  "check_required vm req us = None \<longleftrightarrow>
     (\<forall>u \<in> set us. u \<in> known_units vm \<and> dependencies_of vm u \<subseteq> set req)"
proof (induction us)
  case (Cons u us)
  then show ?case
    by (cases "FindUnit vm u") (auto simp: known_units_def dependencies_of_def list_ex_iff)
qed simp

lemma RequiredUnits_Inr:
  assumes "RequiredUnits vm modes = Inr req"
  shows "set req = required_set vm modes" and "distinct req" and "units_closed vm (set req)"
  using assms collect_mode_units_Inr [of vm modes "em_domains (vm_model vm)"]
    bootstrap_units_props [of "em_units (vm_model vm)"] check_required_None
  by (auto simp: RequiredUnits_def required_set_def units_closed_def split: sum.splits option.splits)

lemma check_constraints_None:
  "check_constraints modes cs = None \<longleftrightarrow>
     (\<forall>c \<in> set cs. (mc_kind c = CK_requires_mode \<longrightarrow> mode_selected modes (mc_other c)) \<and>
        (mc_kind c = CK_excludes_mode \<longrightarrow> \<not> mode_selected modes (mc_other c)))"
  by (induction cs) (auto simp: Let_def)

lemma ValidateConstraints_None: "ValidateConstraints vm modes = None \<longleftrightarrow> constraints_hold vm modes"
proof -
  have "validate_constraints_from vm modes rest = None \<longleftrightarrow>
      (\<forall>(d, m) \<in> set rest. \<exists>md. FindMode vm d m = Some md \<and> check_constraints modes (md_constraints md) = None)"
    for rest
    by (induction vm modes rest rule: validate_constraints_from.induct) (auto split: option.splits)
  then show ?thesis
    by (simp add: ValidateConstraints_def constraints_hold_def check_constraints_None)
qed

lemma insert_resources_Some:
  "set us \<subseteq> known_units vm \<Longrightarrow> \<exists>r. insert_resources vm us rs = Some r"
  by (induction us arbitrary: rs) (auto simp: known_units_def)

section \<open>Plans\<close>

text \<open>What a successful plan was built from.\<close>

lemma build_plan_for_Some:
  assumes "build_plan_for vm cur d source t req = Some plan"
  shows "Order vm (filter (us_contains (sc_running_units cur)) req) False = Some (tp_retain plan)"
    and "Order vm (filter (\<lambda>u. \<not> us_contains req u) (sc_running_units cur)) True = Some (tp_stop plan)"
    and "Order vm (filter (\<lambda>u. \<not> us_contains (sc_running_units cur) u) req) False = Some (tp_start plan)"
    and "tp_generation plan = sc_generation cur" "tp_domain plan = d" "tp_source_mode plan = source"
    and "tp_target_mode plan = t"
    and "tp_guarded_domains plan = guarded_by d (em_domains (vm_model vm))"
  using assms unfolding build_plan_for_def Let_def
  by (auto simp del: us_contains_iff split: option.splits)

lemma BuildPlan_InrE:
  assumes "BuildPlan vm cur d t allow = Some (Inr plan)"
  obtains source req where
    "sc_generation cur = em_generation (vm_model vm)"
    "FindMode vm d t \<noteq> None" "um_find (sc_committed_modes cur) d = Some source"
    "allow \<or> source \<noteq> t"
    "constraints_hold vm (um_set d t (sc_committed_modes cur))"
    "RequiredUnits vm (um_set d t (sc_committed_modes cur)) = Inr req"
    "build_plan_for vm cur d source t req = Some plan"
proof -
  have g: "sc_generation cur = em_generation (vm_model vm)" "FindDomain vm d \<noteq> None" "FindMode vm d t \<noteq> None"
    using assms unfolding BuildPlan_def by (auto split: if_splits)
  obtain source where s: "um_find (sc_committed_modes cur) d = Some source" "allow \<or> source \<noteq> t"
    using assms g unfolding BuildPlan_def by (cases "um_find (sc_committed_modes cur) d") (auto split: if_splits)
  have b: "(case ValidateConstraints vm (um_set d t (sc_committed_modes cur)) of
                  Some e \<Rightarrow> Some (Inl e)
                | None \<Rightarrow>
                    (case RequiredUnits vm (um_set d t (sc_committed_modes cur)) of
                       Inl e \<Rightarrow> Some (Inl e)
                     | Inr required \<Rightarrow>
                         map_option Inr (build_plan_for vm cur d source t required))) = Some (Inr plan)"
    using assms g s unfolding BuildPlan_def Let_def by auto
  then obtain req where "ValidateConstraints vm (um_set d t (sc_committed_modes cur)) = None"
    "RequiredUnits vm (um_set d t (sc_committed_modes cur)) = Inr req"
    "build_plan_for vm cur d source t req = Some plan"
    by (auto split: option.splits sum.splits)
  with g s show ?thesis
    by (intro that [of source req]) (simp_all add: ValidateConstraints_None)
qed

lemma set_filter_contains: "set (filter (us_contains s) xs) = set xs \<inter> set s"
  by auto

lemma set_filter_lacks: "set (filter (\<lambda>u. \<not> us_contains s u) xs) = set xs - set s"
  by auto

lemma BuildPlan_split:
  assumes plan: "BuildPlan vm cur d t allow = Some (Inr plan)"
    and run: "set (sc_running_units cur) \<subseteq> known_units vm" and ac: "acyclic (vm_depends vm)"
  defines "req \<equiv> required_set vm (um_set d t (sc_committed_modes cur))"
  shows "set (tp_retain plan) = req \<inter> set (sc_running_units cur)"
    and "set (tp_start plan) = req - set (sc_running_units cur)"
    and "set (tp_stop plan) = set (sc_running_units cur) - req"
    and "distinct (tp_retain plan)" and "distinct (tp_start plan)" and "distinct (tp_stop plan)"
    and "dependencies_first vm (set (tp_start plan)) (tp_start plan)"
    and "dependencies_first vm (set (tp_stop plan)) (rev (tp_stop plan))"
    and "units_closed vm req"
proof -
  obtain r where r: "RequiredUnits vm (um_set d t (sc_committed_modes cur)) = Inr r"
    and o1: "Order vm (filter (us_contains (sc_running_units cur)) r) False = Some (tp_retain plan)"
    and o2: "Order vm (filter (\<lambda>u. \<not> us_contains r u) (sc_running_units cur)) True = Some (tp_stop plan)"
    and o3: "Order vm (filter (\<lambda>u. \<not> us_contains (sc_running_units cur) u) r) False = Some (tp_start plan)"
    using plan by (elim BuildPlan_InrE) (blast intro: build_plan_for_Some)
  have rq: "set r = req" "units_closed vm req"
    using RequiredUnits_Inr [OF r] by (simp_all add: req_def)
  have known: "set r \<subseteq> known_units vm" using rq by (simp add: units_closed_def)
  have 1: "set (filter (us_contains (sc_running_units cur)) r) \<subseteq> known_units vm"
    and 2: "set (filter (\<lambda>u. \<not> us_contains (sc_running_units cur) u) r) \<subseteq> known_units vm"
    and 3: "set (filter (\<lambda>u. \<not> us_contains r u) (sc_running_units cur)) \<subseteq> known_units vm"
    using known run by auto
  from Order_correct [OF 1 ac, of False] o1
  show "set (tp_retain plan) = req \<inter> set (sc_running_units cur)" "distinct (tp_retain plan)"
    unfolding rq(1) [symmetric] by (metis option.inject set_filter_contains, metis option.inject)
  from Order_correct [OF 2 ac, of False] o3
  show "set (tp_start plan) = req - set (sc_running_units cur)" "distinct (tp_start plan)"
    "dependencies_first vm (set (tp_start plan)) (tp_start plan)"
    unfolding rq(1) [symmetric] by (metis option.inject set_filter_lacks, metis option.inject, metis option.inject)
  from Order_correct [OF 3 ac, of True] o2
  show "set (tp_stop plan) = set (sc_running_units cur) - req" "distinct (tp_stop plan)"
    "dependencies_first vm (set (tp_stop plan)) (rev (tp_stop plan))"
    unfolding rq(1) [symmetric]
    by (metis option.inject set_filter_lacks set_rev, metis distinct_rev option.inject, metis option.inject rev_rev_ident set_rev)
  show "units_closed vm req" using rq(2) .
qed

lemma dependencies_first_rev_drop:
  assumes "dependencies_first vm us (rev xs)" and "distinct xs" and "u \<in> set (drop k xs)"
  shows "dependencies_of vm u \<inter> us \<inter> set (take k xs) = {}"
proof -
  have rv: "rev xs = rev (drop k xs) @ rev (take k xs)"
    by (metis append_take_drop_id rev_append)
  obtain i where i: "i < length (rev (drop k xs))" "rev (drop k xs) ! i = u"
    using assms(3) by (metis in_set_conv_nth set_rev)
  then have "i < length (rev xs)" "rev xs ! i = u" by (simp_all add: rv nth_append)
  then have "dependencies_of vm u \<inter> us \<subseteq> set (take i (rev xs))"
    using assms(1) unfolding dependencies_first_def by metis
  also have "take i (rev xs) = take i (rev (drop k xs))" using i(1) by (subst rv) simp
  also have "set \<dots> \<subseteq> set (drop k xs)" using set_take_subset by fastforce
  finally show ?thesis
    using set_take_disj_set_drop_if_distinct [OF assms(2), of k k] by blast
qed

lemma closed_minus_suffix:
  assumes "units_closed vm run" and "units_closed vm keep"
    and stop: "set stop = run - keep" and order: "dependencies_first vm (set stop) (rev stop)"
    and "distinct stop"
  shows "units_closed vm (run - set (take k stop))"
proof -
  have sub: "set (take k stop) \<subseteq> set stop" by (rule set_take_subset)
  have "dependencies_of vm u \<inter> set (take k stop) = {}" if u: "u \<in> run - set (take k stop)" for u
  proof (cases "u \<in> keep")
    case True
    then have "dependencies_of vm u \<subseteq> keep" using assms(2) by (auto simp: units_closed_def)
    then show ?thesis using stop sub by auto
  next
    case False
    have "set stop = set (take k stop) \<union> set (drop k stop)"
      by (metis append_take_drop_id set_append)
    then have "u \<in> set (drop k stop)" using u stop False by blast
    then show ?thesis
      using dependencies_first_rev_drop [OF order \<open>distinct stop\<close>] sub by blast
  qed
  then show ?thesis
    using assms(1) unfolding units_closed_def by blast
qed

lemma closed_plus_prefix:
  assumes "units_closed vm (base \<union> set start)" and "units_closed vm base"
    and order: "dependencies_first vm (set start) start"
  shows "units_closed vm (base \<union> set (take k start))"
proof -
  have "dependencies_of vm u \<subseteq> base \<union> set (take k start)" if u: "u \<in> set (take k start)" for u
  proof -
    obtain i where i: "i < k" "i < length start" "start ! i = u"
      using u by (auto simp: in_set_conv_nth)
    have "dependencies_of vm u \<inter> set start \<subseteq> set (take i start)"
      using order i unfolding dependencies_first_def by blast
    moreover have "set (take i start) \<subseteq> set (take k start)"
      using i(1) by (simp add: set_take_subset_set_take)
    moreover have "dependencies_of vm u \<subseteq> base \<union> set start"
      using assms(1) u in_set_takeD [OF u] unfolding units_closed_def by blast
    ultimately show ?thesis by blast
  qed
  moreover have "set (take k start) \<subseteq> set start" by (rule set_take_subset)
  ultimately show ?thesis
    using assms(1,2) unfolding units_closed_def by blast
qed

lemma BuildPlan_keeps_closed:
  assumes plan: "BuildPlan vm cur d t allow = Some (Inr plan)"
    and closed: "units_closed vm (set (sc_running_units cur))" and ac: "acyclic (vm_depends vm)"
  shows "units_closed vm (set (sc_running_units cur) - set (take k (tp_stop plan)))"
    and "units_closed vm ((set (sc_running_units cur) - set (tp_stop plan)) \<union> set (take k (tp_start plan)))"
proof -
  let ?run = "set (sc_running_units cur)"
  let ?req = "required_set vm (um_set d t (sc_committed_modes cur))"
  have known: "?run \<subseteq> known_units vm" using closed by (simp add: units_closed_def)
  note s = BuildPlan_split [OF plan known ac]
  show "units_closed vm (?run - set (take k (tp_stop plan)))"
    by (rule closed_minus_suffix [OF closed s(9) s(3) s(8) s(6)])
  have base: "?run - set (tp_stop plan) = ?run \<inter> ?req" using s(3) by auto
  have "units_closed vm (?run \<inter> ?req)"
    using closed s(9) by (auto simp: units_closed_def)
  moreover have "units_closed vm (?run \<inter> ?req \<union> set (tp_start plan))"
    using s(2,9) by (simp add: Int_commute [of ?run] Int_Diff_Un)
  ultimately show "units_closed vm ((?run - set (tp_stop plan)) \<union> set (take k (tp_start plan)))"
    unfolding base by (intro closed_plus_prefix s(7))
qed

lemma BuildPlan_not_None:
  assumes "set (sc_running_units cur) \<subseteq> known_units vm" and ac: "acyclic (vm_depends vm)"
  shows "BuildPlan vm cur d t allow \<noteq> None"
proof -
  have order: "\<exists>xs. Order vm us r = Some xs" if "set us \<subseteq> known_units vm" for us r
    using Order_correct [OF that ac] by blast
  have "build_plan_for vm cur d s t req \<noteq> None" if "RequiredUnits vm modes = Inr req" for modes s req
  proof -
    have req: "set req \<subseteq> known_units vm"
      using RequiredUnits_Inr(3) [OF that] by (simp add: units_closed_def)
    obtain r1 where r1: "insert_resources vm (filter (\<lambda>u. \<not> us_contains (sc_running_units cur) u) req) [] = Some r1"
      using insert_resources_Some req by (metis filter_is_subset subset_trans)
    obtain r2 where r2: "insert_resources vm (filter (\<lambda>u. \<not> us_contains req u) (sc_running_units cur)) r1 = Some r2"
      using insert_resources_Some assms(1) by (metis filter_is_subset subset_trans)
    obtain a where a: "Order vm (filter (us_contains (sc_running_units cur)) req) False = Some a"
      using order req by (metis filter_is_subset subset_trans)
    obtain b where b: "Order vm (filter (\<lambda>u. \<not> us_contains req u) (sc_running_units cur)) True = Some b"
      using order assms(1) by (metis filter_is_subset subset_trans)
    obtain c where c: "Order vm (filter (\<lambda>u. \<not> us_contains (sc_running_units cur) u) req) False = Some c"
      using order req by (metis filter_is_subset subset_trans)
    show ?thesis by (simp add: build_plan_for_def Let_def r1 r2 a b c del: us_contains_iff)
  qed
  then show ?thesis
    by (auto simp: BuildPlan_def Let_def split: option.splits sum.splits)
qed

text \<open>The relations on a validated model are those of the model data.\<close>

lemma vm_depends_BuildIndex: "vm_depends (BuildIndex model) = depends (em_units model)"
  by (auto simp: vm_depends_def depends_def dependencies_of_def known_units_def FindUnit_BuildIndex
      split: option.splits)

lemma validated_acyclic: "ValidateModel model = Inr vm \<Longrightarrow> acyclic (vm_depends vm)"
  by (auto simp: ValidateModel_Inr vm_depends_BuildIndex wf_model_def)

text \<open>A \<open>std::set\<close> is a sorted list without repetitions; a loop that adds \<open>S x\<close> at each step adds
  their union.\<close>

lemma ordered_set_fold:
  assumes "\<And>x g. sorted g \<and> distinct g \<Longrightarrow>
      sorted (f x g) \<and> distinct (f x g) \<and> set (f x g) = set g \<union> S x"
    and "sorted g \<and> distinct g"
  shows "sorted (fold f xs g) \<and> distinct (fold f xs g) \<and> set (fold f xs g) = set g \<union> (\<Union>x \<in> set xs. S x)"
  using assms(2)
proof (induction xs arbitrary: g)
  case (Cons x xs)
  show ?case using Cons.IH [of "f x g"] assms(1) [OF Cons.prems] by auto
qed simp

definition guard_set :: "DomainId \<Rightarrow> DomainDefinition \<Rightarrow> ModeConstraint \<Rightarrow> DomainId set" where
  "guard_set d cd c =
     (if dd_id cd = d \<or> mr_domain (mc_other c) = d then {dd_id cd, mr_domain (mc_other c)} else {})"

lemma guarded_by_props:
  "sorted (guarded_by d ds) \<and> distinct (guarded_by d ds) \<and>
   set (guarded_by d ds) =
     {d} \<union> (\<Union>cd \<in> set ds. \<Union>m \<in> set (dd_modes cd). \<Union>c \<in> set (md_constraints m). guard_set d cd c)"
proof -
  have one: "sorted g \<and> distinct g \<Longrightarrow> sorted (f c g) \<and> distinct (f c g) \<and> set (f c g) = set g \<union> guard_set d cd c"
    if "f \<equiv> (\<lambda>c g. if dd_id cd = d \<or> mr_domain (mc_other c) = d
          then insort_insert (mr_domain (mc_other c)) (insort_insert (dd_id cd) g) else g)" for f cd g c
    by (auto simp: that guard_set_def sorted_insort_insert distinct_insort_insert set_insort_insert)
  have "{d} = set [d]" by simp
  then show ?thesis
    unfolding guarded_by_def by (elim ssubst) (intro ordered_set_fold one; simp)
qed

section \<open>When a plan exists\<close>

definition modes_selected :: "ValidatedModel \<Rightarrow> (DomainId \<times> ModeId) list \<Rightarrow> bool" where
  "modes_selected vm modes \<longleftrightarrow>
     (\<forall>d \<in> set (em_domains (vm_model vm)). \<exists>m. um_find modes (dd_id d) = Some m \<and> FindMode vm (dd_id d) m \<noteq> None)"

lemma collect_mode_units_defined:
  "\<forall>d \<in> set ds. \<exists>m. um_find modes (dd_id d) = Some m \<and> FindMode vm (dd_id d) m \<noteq> None \<Longrightarrow>
     \<exists>req'. collect_mode_units vm modes ds req = Inr req'"
  by (induction ds arbitrary: req) auto

lemma RequiredUnits_defined:
  "(\<exists>req. RequiredUnits vm modes = Inr req) \<longleftrightarrow>
     modes_selected vm modes \<and> units_closed vm (required_set vm modes)"
proof
  assume "\<exists>req. RequiredUnits vm modes = Inr req"
  then obtain req where req: "RequiredUnits vm modes = Inr req" by blast
  then have "modes_selected vm modes"
    using collect_mode_units_Inr(3) [of vm modes "em_domains (vm_model vm)"]
    by (auto simp: RequiredUnits_def modes_selected_def split: sum.splits)
  then show "modes_selected vm modes \<and> units_closed vm (required_set vm modes)"
    using RequiredUnits_Inr(1,3) [OF req] by simp
next
  assume a: "modes_selected vm modes \<and> units_closed vm (required_set vm modes)"
  then obtain req where req: "collect_mode_units vm modes (em_domains (vm_model vm))
      (bootstrap_units (em_units (vm_model vm))) = Inr req"
    using collect_mode_units_defined unfolding modes_selected_def by blast
  have "set req = required_set vm modes"
    using collect_mode_units_Inr(1) [OF req] bootstrap_units_props [of "em_units (vm_model vm)"]
    by (simp add: required_set_def)
  then have "check_required vm req req = None"
    using a by (simp add: check_required_None units_closed_def subset_eq)
  then show "\<exists>req. RequiredUnits vm modes = Inr req"
    using req by (simp add: RequiredUnits_def)
qed

lemma BuildPlan_exists_iff:
  assumes run: "set (sc_running_units cur) \<subseteq> known_units vm" and ac: "acyclic (vm_depends vm)"
    and dom: "FindMode vm d t \<noteq> None \<Longrightarrow> FindDomain vm d \<noteq> None"
  shows "(\<exists>plan. BuildPlan vm cur d t allow = Some (Inr plan)) \<longleftrightarrow>
     sc_generation cur = em_generation (vm_model vm) \<and> FindMode vm d t \<noteq> None \<and>
     (\<exists>source. um_find (sc_committed_modes cur) d = Some source \<and> (allow \<or> source \<noteq> t)) \<and>
     constraints_hold vm (um_set d t (sc_committed_modes cur)) \<and>
     modes_selected vm (um_set d t (sc_committed_modes cur)) \<and>
     units_closed vm (required_set vm (um_set d t (sc_committed_modes cur)))" (is "?l \<longleftrightarrow> ?r")
proof
  assume ?l
  then obtain plan where "BuildPlan vm cur d t allow = Some (Inr plan)" by blast
  then show ?r
    by (rule BuildPlan_InrE) (use RequiredUnits_defined in blast)
next
  assume r: ?r
  then obtain source req where "um_find (sc_committed_modes cur) d = Some source" "allow \<or> source \<noteq> t"
    "RequiredUnits vm (um_set d t (sc_committed_modes cur)) = Inr req"
    using RequiredUnits_defined by blast
  moreover have "FindDomain vm d \<noteq> None" using dom r by simp
  moreover have "ValidateConstraints vm (um_set d t (sc_committed_modes cur)) = None"
    using r by (simp add: ValidateConstraints_None)
  ultimately have "BuildPlan vm cur d t allow = map_option Inr (build_plan_for vm cur d source t req)"
    using r by (auto simp: BuildPlan_def Let_def)
  then show ?l
    using BuildPlan_not_None [OF run ac, of d t allow] by (cases "build_plan_for vm cur d source t req") auto
qed

section \<open>Independence of the iteration order\<close>

definition resources_of :: "ValidatedModel \<Rightarrow> ExecutionUnitId set \<Rightarrow> ResourceId set" where
  "resources_of vm us = (\<Union>u \<in> us. case FindUnit vm u of None \<Rightarrow> {} | Some d \<Rightarrow> set (eu_exclusive_resources d))"

lemma insort_insert_all:
  "sorted g \<and> distinct g \<Longrightarrow>
     sorted (fold insort_insert xs g) \<and> distinct (fold insort_insert xs g) \<and>
     set (fold insort_insert xs g) = set g \<union> set xs"
  using ordered_set_fold [of insort_insert "\<lambda>x. {x}" g xs]
  by (simp add: sorted_insort_insert distinct_insort_insert set_insort_insert)

lemma insert_resources_set:
  "insert_resources vm us rs = Some r \<Longrightarrow> sorted rs \<and> distinct rs \<Longrightarrow>
     sorted r \<and> distinct r \<and> set r = set rs \<union> resources_of vm (set us)"
proof (induction us arbitrary: rs)
  case (Cons u us)
  then obtain d where d: "FindUnit vm u = Some d"
    and rest: "insert_resources vm us (fold insort_insert (eu_exclusive_resources d) rs) = Some r"
    by (auto split: option.splits)
  show ?case
    using Cons.IH [OF rest] insort_insert_all [OF Cons.prems(2)] d by (auto simp: resources_of_def)
qed (simp add: resources_of_def)

lemma build_plan_for_resources:
  assumes "build_plan_for vm cur d source t req = Some plan"
  shows "tp_affected_resources plan = sorted_list_of_set (resources_of vm
           ((set req - set (sc_running_units cur)) \<union> (set (sc_running_units cur) - set req)))"
proof -
  obtain r1 where r1: "insert_resources vm (filter (\<lambda>u. \<not> us_contains (sc_running_units cur) u) req) [] = Some r1"
    and r2: "insert_resources vm (filter (\<lambda>u. \<not> us_contains req u) (sc_running_units cur)) r1
        = Some (tp_affected_resources plan)"
    using assms unfolding build_plan_for_def Let_def
    by (auto simp del: us_contains_iff split: option.splits)
  have 1: "sorted r1 \<and> distinct r1 \<and> set r1 = resources_of vm (set req - set (sc_running_units cur))"
    using insert_resources_set [OF r1] unfolding set_filter_lacks by simp
  have "sorted (tp_affected_resources plan) \<and> distinct (tp_affected_resources plan) \<and>
      set (tp_affected_resources plan) = set r1 \<union> resources_of vm (set (sc_running_units cur) - set req)"
    using insert_resources_set [OF r2] 1 unfolding set_filter_lacks by simp
  moreover have "set r1 \<union> resources_of vm (set (sc_running_units cur) - set req) = resources_of vm
        ((set req - set (sc_running_units cur)) \<union> (set (sc_running_units cur) - set req))"
    using 1 by (simp add: resources_of_def UN_Un)
  ultimately show ?thesis
    by (metis sorted_list_of_set.idem_if_sorted_distinct)
qed

text \<open>Two configurations with the same contents, listed in different orders.\<close>

definition same_contents :: "SystemConfiguration \<Rightarrow> SystemConfiguration \<Rightarrow> bool" where
  "same_contents a b \<longleftrightarrow>
     sc_generation a = sc_generation b \<and> um_find (sc_committed_modes a) = um_find (sc_committed_modes b) \<and>
     set (sc_running_units a) = set (sc_running_units b) \<and>
     distinct (sc_running_units a) \<and> distinct (sc_running_units b)"

lemma build_plan_for_cong:
  assumes "same_contents a b" and "set req = set req'" and "distinct req" and "distinct req'"
    and a: "build_plan_for vm a d source t req = Some plan" and b: "build_plan_for vm b d source t req' = Some plan'"
  shows "plan = plan'"
proof -
  note same = assms(1) [unfolded same_contents_def]
  have fl: "set (filter P xs) = set (filter Q ys)" if "set xs = set ys" "\<And>x. P x = Q x" for P Q and xs ys :: "u64 list"
    using that by auto
  have "Order vm (filter (us_contains (sc_running_units a)) req) False = Order vm (filter (us_contains (sc_running_units b)) req') False"
    "Order vm (filter (\<lambda>u. \<not> us_contains req u) (sc_running_units a)) True = Order vm (filter (\<lambda>u. \<not> us_contains req' u) (sc_running_units b)) True"
    "Order vm (filter (\<lambda>u. \<not> us_contains (sc_running_units a) u) req) False = Order vm (filter (\<lambda>u. \<not> us_contains (sc_running_units b) u) req') False"
    using same assms(2-4) by (auto intro!: Order_cong fl)
  then have "tp_retain plan = tp_retain plan' \<and> tp_stop plan = tp_stop plan' \<and> tp_start plan = tp_start plan'"
    using build_plan_for_Some(1-3) [OF a] build_plan_for_Some(1-3) [OF b] by simp
  moreover have "tp_affected_resources plan = tp_affected_resources plan'"
    using build_plan_for_resources [OF a] build_plan_for_resources [OF b] same assms(2) by simp
  ultimately show ?thesis
    using build_plan_for_Some(4-) [OF a] build_plan_for_Some(4-) [OF b] same by simp
qed

lemma BuildPlan_cong:
  assumes same: "same_contents a b"
    and a: "BuildPlan vm a d t allow = Some (Inr plan)" and b: "BuildPlan vm b d t allow' = Some (Inr plan')"
  shows "plan = plan'"
proof -
  obtain source req where 1: "um_find (sc_committed_modes a) d = Some source"
    "RequiredUnits vm (um_set d t (sc_committed_modes a)) = Inr req"
    "build_plan_for vm a d source t req = Some plan"
    using a by (rule BuildPlan_InrE)
  obtain source' req' where 2: "um_find (sc_committed_modes b) d = Some source'"
    "RequiredUnits vm (um_set d t (sc_committed_modes b)) = Inr req'"
    "build_plan_for vm b d source' t req' = Some plan'"
    using b by (rule BuildPlan_InrE)
  have "set req = set req'"
    using RequiredUnits_Inr(1) [OF 1(2)] RequiredUnits_Inr(1) [OF 2(2)] same
    by (simp add: required_set_def same_contents_def)
  moreover have "source = source'" using same 1(1) 2(1) by (simp add: same_contents_def)
  ultimately show ?thesis
    using build_plan_for_cong [OF same _ _ _ 1(3), of req' plan'] 2(3)
      RequiredUnits_Inr(2) [OF 1(2)] RequiredUnits_Inr(2) [OF 2(2)] by simp
qed

section \<open>Stopping a domain and the initial configuration\<close>

definition remaining_set :: "ValidatedModel \<Rightarrow> (DomainId \<times> ModeId) list \<Rightarrow> ExecutionUnitId set" where
  "remaining_set vm modes =
     {eu_id u | u. u \<in> set (em_units (vm_model vm)) \<and> eu_bootstrap u} \<union>
     {u. \<exists>d m md. (d, m) \<in> set modes \<and> FindMode vm d m = Some md \<and> u \<in> set (md_units md)}"

lemma remaining_mode_units_Inr:
  "remaining_mode_units vm modes req = Inr req' \<Longrightarrow>
     set req' = set req \<union> {u. \<exists>d m md. (d, m) \<in> set modes \<and> FindMode vm d m = Some md \<and> u \<in> set (md_units md)}"
proof (induction modes arbitrary: req)
  case (Cons dm modes)
  obtain d m where dm: "dm = (d, m)" by (cases dm)
  with Cons.prems obtain md where md: "FindMode vm d m = Some md"
    and rest: "remaining_mode_units vm modes (us_insert_all (md_units md) req) = Inr req'"
    by (auto split: option.splits)
  show ?case using Cons.IH [OF rest] md dm by (auto simp: ex_disj_distrib)
qed simp

lemma omits_dependency_iff:
  "\<not> omits_dependency vm req u \<longleftrightarrow> u \<in> known_units vm \<and> dependencies_of vm u \<subseteq> set req"
  by (cases "FindUnit vm u")
    (auto simp: omits_dependency_def known_units_def dependencies_of_def list_ex_iff)

lemma StopDomainUnits_Inr:
  assumes stop: "StopDomainUnits vm cur d = Some (Inr xs)"
    and run: "set (sc_running_units cur) \<subseteq> known_units vm" and ac: "acyclic (vm_depends vm)"
  defines "rem \<equiv> remaining_set vm (um_erase d (sc_committed_modes cur))"
  shows "set xs = set (sc_running_units cur) - rem" and "distinct xs" and "units_closed vm rem"
    and "dependencies_first vm (set xs) (rev xs)"
proof -
  obtain req where r: "remaining_mode_units vm (um_erase d (sc_committed_modes cur))
      (bootstrap_units (em_units (vm_model vm))) = Inr req"
    and ok: "\<not> list_ex (omits_dependency vm req) req"
    and o: "Order vm (filter (\<lambda>u. \<not> us_contains req u) (sc_running_units cur)) True = Some xs"
    using stop unfolding StopDomainUnits_def
    by (auto simp del: us_contains_iff split: if_splits sum.splits)
  have req: "set req = rem"
    using remaining_mode_units_Inr [OF r] bootstrap_units_props [of "em_units (vm_model vm)"]
    by (simp add: rem_def remaining_set_def)
  show "units_closed vm rem"
    using ok unfolding list_ex_iff units_closed_def req [symmetric] by (auto simp: omits_dependency_iff)
  have known: "set (filter (\<lambda>u. \<not> us_contains req u) (sc_running_units cur)) \<subseteq> known_units vm"
    using run by auto
  from Order_correct [OF known ac, of True] o
  show "set xs = set (sc_running_units cur) - rem" "distinct xs" "dependencies_first vm (set xs) (rev xs)"
    unfolding req [symmetric]
    by (metis option.inject set_filter_lacks set_rev, metis distinct_rev option.inject,
        metis option.inject rev_rev_ident set_rev)
qed

definition initial_modes :: "ValidatedModel \<Rightarrow> (DomainId \<times> ModeId) list" where
  "initial_modes vm = fold (\<lambda>d m. um_emplace (dd_id d) (dd_initial_mode d) m) (em_domains (vm_model vm)) []"

lemma um_find_initial_modes_from:
  "um_find (fold (\<lambda>d m. um_emplace (dd_id d) (dd_initial_mode d) m) ds m0) i =
     (case um_find m0 i of Some x \<Rightarrow> Some x | None \<Rightarrow> map_option dd_initial_mode (find (\<lambda>d. dd_id d = i) ds))"
  by (induction ds arbitrary: m0) (auto split: option.splits)

lemma um_find_initial_modes:
  "um_find (initial_modes vm) i = map_option dd_initial_mode (find (\<lambda>d. dd_id d = i) (em_domains (vm_model vm)))"
  by (simp add: initial_modes_def um_find_initial_modes_from)

lemma initial_modes_ok: "um_ok (initial_modes vm)"
proof -
  have "um_ok m0 \<Longrightarrow> um_ok (fold (\<lambda>d m. um_emplace (dd_id d) (dd_initial_mode d) m) ds m0)" for ds m0
    by (induction ds arbitrary: m0) auto
  from this [of "[]"] show ?thesis by (simp add: initial_modes_def)
qed

lemma initial_modes_selected:
  assumes "ValidateModel model = Inr vm"
  shows "modes_selected vm (initial_modes vm)"
proof -
  have wf: "wf_model model" and vm: "vm = BuildIndex model" and model: "vm_model vm = model"
    using assms by (auto simp: ValidateModel_Inr BuildIndex_def)
  have dist: "distinct (map dd_id (em_domains model))"
    using wf by (simp add: wf_model_def wf_identities_def)
  show ?thesis
    unfolding modes_selected_def model
  proof
    fix d assume d: "d \<in> set (em_domains model)"
    then have "find (\<lambda>x. dd_id x = dd_id d) (em_domains model) = Some d"
      by (simp add: find_distinct [OF dist])
    then have "um_find (initial_modes vm) (dd_id d) = Some (dd_initial_mode d)"
      unfolding um_find_initial_modes model by simp
    moreover obtain md where "md \<in> set (dd_modes d)" "md_id md = dd_initial_mode d"
      using wf d by (auto simp: wf_model_def wf_domain_def)
    then have "FindMode vm (dd_id d) (dd_initial_mode d) = Some md"
      using d FindMode_BuildIndex [OF wf] vm by blast
    ultimately show "\<exists>m. um_find (initial_modes vm) (dd_id d) = Some m \<and> FindMode vm (dd_id d) m \<noteq> None"
      by simp
  qed
qed

lemma InitialConfiguration_eq:
  "InitialConfiguration vm = (case RequiredUnits vm (initial_modes vm) of Inl e \<Rightarrow> Inl e
     | Inr required \<Rightarrow> Inr \<lparr>sc_generation = em_generation (vm_model vm), sc_committed_modes = initial_modes vm,
               sc_running_units = required\<rparr>)"
  unfolding InitialConfiguration_def initial_modes_def Let_def ..

lemma validated_domain:
  assumes "ValidateModel model = Inr vm" and "FindMode vm d t \<noteq> None"
  shows "FindDomain vm d \<noteq> None"
proof -
  have wf: "wf_model model" and vm: "vm = BuildIndex model"
    using assms(1) by (auto simp: ValidateModel_Inr)
  then have "\<exists>dd \<in> set (em_domains model). dd_id dd = d"
    using assms(2) FindMode_BuildIndex [OF wf] by blast
  then show ?thesis
    by (auto simp: vm FindDomain_BuildIndex find_None_iff)
qed

section \<open>Properties\<close>

definition example_vm :: ValidatedModel where
  "example_vm = BuildIndex example_model"

text \<open>The example model in its initial mode, with the base application running.\<close>

definition example_configuration :: SystemConfiguration where
  "example_configuration = \<lparr>sc_generation = 3, sc_committed_modes = [(1, 1)], sc_running_units = [1]\<rparr>"

definition example_plan :: TransitionPlan where
  "example_plan = \<lparr>tp_generation = 3, tp_domain = 1, tp_source_mode = 1, tp_target_mode = 2,
     tp_retain = [1], tp_stop = [], tp_start = [2], tp_guarded_domains = [1], tp_affected_resources = []\<rparr>"

text \<open>Two domains; the second mode of the first requires the second mode of the other.\<close>

definition pair_model :: ExecutionModel where
  "pair_model =
     (let mode = (\<lambda>i n cs. \<lparr>md_id = i, md_name = n, md_units = [], md_constraints = cs\<rparr>);
          domain = (\<lambda>i n ms. \<lparr>dd_id = i, dd_name = n, dd_initial_mode = 1, dd_replacement = RP_queue,
             dd_recovery = \<lparr>rp_action = FA_stop_domain, rp_fallback_mode = 0, rp_deadline = 1000\<rparr>, dd_modes = ms\<rparr>) in
      \<lparr>em_generation = 1, em_units = [],
       em_domains =
         [domain 1 ''drive''
            [mode 1 ''parked'' [],
             mode 2 ''driving'' [\<lparr>mc_kind = CK_requires_mode, mc_other = \<lparr>mr_domain = 2, mr_mode = 2\<rparr>\<rparr>]],
          domain 2 ''sensing'' [mode 1 ''standby'' [], mode 2 ''active'' []]]\<rparr>)"

definition pair_configuration :: "ModeId \<Rightarrow> ModeId \<Rightarrow> SystemConfiguration" where
  "pair_configuration m n = \<lparr>sc_generation = 1, sc_committed_modes = [(1, m), (2, n)], sc_running_units = []\<rparr>"

lemma example_vm_valid: "ValidateModel example_model = Inr example_vm"
  by (simp add: example_vm_def example_valid)

lemma example_Plan: "BuildPlan example_vm example_configuration 1 2 False = Some (Inr example_plan)"
  by code_simp

lemma example_running_known: "units_closed example_vm {1}"
  unfolding units_closed_def known_units_def dependencies_of_def example_vm_def FindUnit_BuildIndex
  by (simp add: example_model_def)


text \<open>A plan for a validated model splits the units exactly. The units the proposed modes
  require are the retained and the started ones, the running units are the retained and the stopped
  ones, a unit is in one list and once in it, started units come after the started units they depend on and
  stopped units before the stopped units they depend on.\<close>

theorem plan_splits_units:
  assumes "ValidateModel model = Inr vm" and "set (sc_running_units cur) \<subseteq> known_units vm"
    and "BuildPlan vm cur d t allow = Some (Inr plan)"
  shows "set (tp_retain plan) \<union> set (tp_start plan) = required_set vm (um_set d t (sc_committed_modes cur)) \<and>
    set (tp_retain plan) \<union> set (tp_stop plan) = set (sc_running_units cur) \<and>
    distinct (tp_retain plan @ tp_start plan @ tp_stop plan) \<and>
    dependencies_first vm (set (tp_start plan)) (tp_start plan) \<and>
    dependencies_first vm (set (tp_stop plan)) (rev (tp_stop plan))"
  using BuildPlan_split [OF assms(3,2) validated_acyclic [OF assms(1)]] by auto

theorem plan_splits_units_witness:
  "set (tp_retain example_plan) \<union> set (tp_start example_plan) =
     required_set example_vm (um_set 1 2 (sc_committed_modes example_configuration)) \<and>
   distinct (tp_retain example_plan @ tp_start example_plan @ tp_stop example_plan)"
  using plan_splits_units [OF example_vm_valid _ example_Plan] example_running_known
  by (simp add: units_closed_def example_configuration_def)

text \<open>C3: executing a plan step by step never leaves a running unit without one of its
  dependencies: after any number of the plan's stops, and after all stops and any number of its
  starts, the running units still contain all dependencies of every running unit.\<close>

theorem plan_keeps_dependencies:
  assumes "ValidateModel model = Inr vm" and "units_closed vm (set (sc_running_units cur))"
    and "BuildPlan vm cur d t allow = Some (Inr plan)"
  shows "units_closed vm (set (sc_running_units cur) - set (take k (tp_stop plan))) \<and>
    units_closed vm ((set (sc_running_units cur) - set (tp_stop plan)) \<union> set (take k (tp_start plan)))"
  using BuildPlan_keeps_closed [OF assms(3,2) validated_acyclic [OF assms(1)]] by blast

theorem plan_keeps_dependencies_witness: "units_closed example_vm {1, 2}"
  using plan_keeps_dependencies [OF example_vm_valid _ example_Plan, of 1] example_running_known
  by (simp add: example_configuration_def example_plan_def insert_commute)



text \<open>The plan does not depend on the order in which the unordered containers of the
  configuration are walked: two configurations with the same contents get the same plan.\<close>

theorem plan_order_independent:
  assumes "same_contents a b"
    and "BuildPlan vm a d t allow = Some (Inr plan)" and "BuildPlan vm b d t allow = Some (Inr plan')"
  shows "plan = plan'"
  using assms by (rule BuildPlan_cong)

theorem plan_order_independent_witness:
  "BuildPlan example_vm (example_configuration\<lparr>sc_running_units := [2, 1]\<rparr>) 1 3 False =
   BuildPlan example_vm (example_configuration\<lparr>sc_running_units := [1, 2]\<rparr>) 1 3 False"
proof -
  define p where "p = example_plan\<lparr>tp_target_mode := 3, tp_retain := [], tp_stop := [2, 1], tp_start := []\<rparr>"
  have a: "BuildPlan example_vm (example_configuration\<lparr>sc_running_units := [2, 1]\<rparr>) 1 3 False = Some (Inr p)"
    unfolding p_def by code_simp
  have b: "BuildPlan example_vm (example_configuration\<lparr>sc_running_units := [1, 2]\<rparr>) 1 3 False = Some (Inr p)"
    unfolding p_def by code_simp
  have same: "same_contents (example_configuration\<lparr>sc_running_units := [2, 1]\<rparr>)
      (example_configuration\<lparr>sc_running_units := [1, 2]\<rparr>)"
    by (auto simp: same_contents_def)
  show ?thesis using plan_order_independent [OF same a b] a b by simp
qed

text \<open>Two domains of which one has a mode constraint on the other guard each other: a plan
  for either of them guards both.\<close>

theorem constrained_domains_guarded:
  assumes "BuildPlan vm cur (dd_id cd) t allow = Some (Inr plan)"
    and "BuildPlan vm cur' (mr_domain (mc_other c)) t' allow' = Some (Inr plan')"
    and "cd \<in> set (em_domains (vm_model vm))" and "m \<in> set (dd_modes cd)" and "c \<in> set (md_constraints m)"
  shows "{dd_id cd, mr_domain (mc_other c)} \<subseteq> set (tp_guarded_domains plan) \<inter> set (tp_guarded_domains plan')"
proof -
  have in_guard: "{dd_id cd, mr_domain (mc_other c)} \<subseteq> set (guarded_by d (em_domains (vm_model vm)))"
    if "d = dd_id cd \<or> d = mr_domain (mc_other c)" for d
    using guarded_by_props [of d "em_domains (vm_model vm)"] assms(3-5) that
    by (auto simp: guard_set_def)
  have "tp_guarded_domains plan = guarded_by (dd_id cd) (em_domains (vm_model vm))"
    using assms(1) by (elim BuildPlan_InrE) (rule build_plan_for_Some(8))
  moreover have "tp_guarded_domains plan' = guarded_by (mr_domain (mc_other c)) (em_domains (vm_model vm))"
    using assms(2) by (elim BuildPlan_InrE) (rule build_plan_for_Some(8))
  ultimately show ?thesis using in_guard by simp
qed

theorem constrained_domains_guarded_witness:
  "\<exists>plan plan'. BuildPlan (BuildIndex pair_model) (pair_configuration 1 2) 1 2 False = Some (Inr plan) \<and>
     BuildPlan (BuildIndex pair_model) (pair_configuration 1 1) 2 2 False = Some (Inr plan') \<and>
     {1, 2} \<subseteq> set (tp_guarded_domains plan) \<inter> set (tp_guarded_domains plan')"
proof -
  let ?p = "\<lparr>tp_generation = 1, tp_domain = 1, tp_source_mode = 1, tp_target_mode = 2, tp_retain = [],
      tp_stop = [], tp_start = [], tp_guarded_domains = [1, 2], tp_affected_resources = []\<rparr>"
  have a: "BuildPlan (BuildIndex pair_model) (pair_configuration 1 2) 1 2 False = Some (Inr ?p)" by code_simp
  have b: "BuildPlan (BuildIndex pair_model) (pair_configuration 1 1) 2 2 False = Some (Inr (?p\<lparr>tp_domain := 2\<rparr>))"
    by code_simp
  show ?thesis
    using constrained_domains_guarded [of "BuildIndex pair_model" "pair_configuration 1 2"
        "em_domains pair_model ! 0" 2 False ?p "pair_configuration 1 1"
        "\<lparr>mc_kind = CK_requires_mode, mc_other = \<lparr>mr_domain = 2, mr_mode = 2\<rparr>\<rparr>" 2 False
        "?p\<lparr>tp_domain := 2\<rparr>" "dd_modes (em_domains pair_model ! 0) ! 1"] a b
    by (simp add: pair_model_def BuildIndex_def)
qed

text \<open>The units \<open>StopDomainUnits\<close> returns are exactly the running units that neither the
  bootstrap set nor a mode of another domain requires, and stopping any number of them in the returned
  order leaves every remaining unit with its dependencies.\<close>

theorem stop_domain_keeps_dependencies:
  assumes "ValidateModel model = Inr vm" and "units_closed vm (set (sc_running_units cur))"
    and "StopDomainUnits vm cur d = Some (Inr xs)"
  shows "set xs = set (sc_running_units cur) - remaining_set vm (um_erase d (sc_committed_modes cur)) \<and>
    units_closed vm (set (sc_running_units cur) - set (take k xs))"
proof -
  have "set (sc_running_units cur) \<subseteq> known_units vm"
    using assms(2) by (simp add: units_closed_def)
  note s = StopDomainUnits_Inr [OF assms(3) this validated_acyclic [OF assms(1)]]
  show ?thesis
    using s(1) closed_minus_suffix [OF assms(2) s(3,1,4,2)] by simp
qed

theorem stop_domain_keeps_dependencies_witness:
  "StopDomainUnits example_vm example_configuration 1 = Some (Inr [1]) \<and>
   units_closed example_vm (set (sc_running_units example_configuration) - set (take 1 [1]))"
proof -
  have a: "StopDomainUnits example_vm example_configuration 1 = Some (Inr [1])" by code_simp
  have b: "units_closed example_vm (set (sc_running_units example_configuration))"
    using example_running_known by (simp add: example_configuration_def)
  show ?thesis using a stop_domain_keeps_dependencies [OF example_vm_valid b a, of 1] by blast
qed

text \<open>The initial configuration of a validated model commits every domain to its initial mode
  and runs exactly the units these modes and the bootstrap set require; it exists exactly when
  these units contain all their dependencies.\<close>

theorem initial_configuration_exact:
  assumes "ValidateModel model = Inr vm"
  shows "((\<exists>cfg. InitialConfiguration vm = Inr cfg) \<longleftrightarrow> units_closed vm (required_set vm (initial_modes vm))) \<and>
    (\<forall>cfg. InitialConfiguration vm = Inr cfg \<longrightarrow>
       sc_generation cfg = em_generation model \<and>
       (\<forall>i. um_find (sc_committed_modes cfg) i = map_option dd_initial_mode (FindDomain vm i)) \<and>
       set (sc_running_units cfg) = required_set vm (initial_modes vm) \<and>
       units_closed vm (set (sc_running_units cfg)))"
proof -
  have vm: "vm = BuildIndex model" "vm_model vm = model"
    using assms by (auto simp: ValidateModel_Inr BuildIndex_def)
  have "(\<exists>cfg. InitialConfiguration vm = Inr cfg) \<longleftrightarrow> (\<exists>req. RequiredUnits vm (initial_modes vm) = Inr req)"
    by (auto simp: InitialConfiguration_eq split: sum.splits)
  moreover have "um_find (initial_modes vm) i = map_option dd_initial_mode (FindDomain vm i)" for i
    unfolding um_find_initial_modes vm(2) unfolding vm(1) FindDomain_BuildIndex ..
  ultimately show ?thesis
    using RequiredUnits_defined [of vm "initial_modes vm"] initial_modes_selected [OF assms]
      RequiredUnits_Inr [of vm "initial_modes vm"] vm(2)
    by (auto simp: InitialConfiguration_eq split: sum.splits)
qed

theorem initial_configuration_exact_witness:
  "units_closed example_vm (required_set example_vm (initial_modes example_vm))"
proof -
  have "InitialConfiguration example_vm = Inr example_configuration" by code_simp
  then show ?thesis using initial_configuration_exact [OF example_vm_valid] by blast
qed

end
