(* ===== verification/Exec_Scheduler.thy ===== *)
theory Exec_Scheduler
  imports Exec_Planner
begin

text \<open>
  The transition scheduler, \<^verbatim>\<open>exec/src/scheduler.cpp\<close> and \<^verbatim>\<open>exec/include/ovf/exec/internal/scheduler.hpp\<close>:
  a transition locks domains, units and exclusive resources before it acts. The three owner tables
  are unordered maps from an identifier to the transition that owns it.

  \<open>Acquire\<close> gives up its mutex while it waits on the condition variable, so other threads act in
  the middle of it. The function \<open>Acquire\<close> takes what they do as an argument; the relation
  \<open>scheduler_step\<close> has the critical sections as its steps, in any interleaving. The locale
  \<open>ownership\<close> states what an owner table promises.
\<close>

section \<open>Owner tables\<close>

definition HasDuplicates :: "u64 list \<Rightarrow> bool" where
  "HasDuplicates vs = (let s = sort vs in list_ex (\<lambda>(a, b). a = b) (zip s (tl s)))"

definition Available :: "u64 list \<Rightarrow> (u64 \<times> TransitionId) list \<Rightarrow> bool" where
  "Available requested owners = list_all (\<lambda>i. um_find owners i = None) requested"

definition Claim :: "u64 list \<Rightarrow> TransitionId \<Rightarrow> (u64 \<times> TransitionId) list \<Rightarrow> (u64 \<times> TransitionId) list" where
  "Claim requested owner owners = fold (\<lambda>i. um_emplace i owner) requested owners"

definition ReleaseOwned :: "TransitionId \<Rightarrow> (u64 \<times> TransitionId) list \<Rightarrow> (u64 \<times> TransitionId) list" where
  "ReleaseOwned owner owners = filter (\<lambda>e. snd e \<noteq> owner) owners"

section \<open>The scheduler\<close>

record TransitionResources =
  tr_domains :: "DomainId list"
  tr_units :: "ExecutionUnitId list"
  tr_exclusive_resources :: "ResourceId list"

record SchedulerState =
  ss_leases :: "(TransitionId \<times> TransitionResources) list"
  ss_domains :: "(DomainId \<times> TransitionId) list"
  ss_units :: "(ExecutionUnitId \<times> TransitionId) list"
  ss_exclusive_resources :: "(ResourceId \<times> TransitionId) list"

record Lease =
  lease_live :: bool
  lease_owner :: TransitionId

definition scheduler_start :: SchedulerState where
  "scheduler_start = \<lparr>ss_leases = [], ss_domains = [], ss_units = [], ss_exclusive_resources = []\<rparr>"

text \<open>The checks before the mutex is taken, and the one under it before the wait.\<close>

definition acquire_arguments :: "TransitionId \<Rightarrow> TransitionResources \<Rightarrow> Error option" where
  "acquire_arguments owner resources =
     (if \<not> id_valid owner then
        Some (MakeError EC_invalid_identifier ''transition identifier zero is reserved'' 0)
      else if tr_domains resources = [] then
        Some (MakeError EC_invalid_argument ''transition must lock at least one execution domain'' 0)
      else if HasDuplicates (tr_domains resources) \<or> HasDuplicates (tr_units resources) \<or>
              HasDuplicates (tr_exclusive_resources resources) then
        Some (MakeError EC_invalid_argument
                ''transition resource request contains duplicate identifiers'' 0)
      else None)"

definition sort_resources :: "TransitionResources \<Rightarrow> TransitionResources" where
  "sort_resources r =
     \<lparr>tr_domains = sort (tr_domains r), tr_units = sort (tr_units r),
      tr_exclusive_resources = sort (tr_exclusive_resources r)\<rparr>"

definition available :: "TransitionResources \<Rightarrow> SchedulerState \<Rightarrow> bool" where
  "available resources s =
     (Available (tr_domains resources) (ss_domains s) \<and> Available (tr_units resources) (ss_units s) \<and>
      Available (tr_exclusive_resources resources) (ss_exclusive_resources s))"

definition grant :: "TransitionId \<Rightarrow> TransitionResources \<Rightarrow> SchedulerState \<Rightarrow> SchedulerState" where
  "grant owner resources s =
     \<lparr>ss_leases = um_emplace owner resources (ss_leases s),
      ss_domains = Claim (tr_domains resources) owner (ss_domains s),
      ss_units = Claim (tr_units resources) owner (ss_units s),
      ss_exclusive_resources = Claim (tr_exclusive_resources resources) owner (ss_exclusive_resources s)\<rparr>"

text \<open>\<open>wait_until\<close> tests its predicate first; only when it fails does it release the mutex. \<open>waited\<close>
  is the state in which the wait ends, by a notification that made the predicate true or by the
  deadline.\<close>

definition Acquire ::
  "(SchedulerState \<Rightarrow> SchedulerState) \<Rightarrow> TransitionId \<Rightarrow> TransitionResources \<Rightarrow> SchedulerState
     \<Rightarrow> (Lease, Error) result \<times> SchedulerState" where
  "Acquire waited owner requested s =
     (case acquire_arguments owner requested of
        Some e \<Rightarrow> (Inl e, s)
      | None \<Rightarrow>
          let resources = sort_resources requested in
          if um_find (ss_leases s) owner \<noteq> None then
            (Inl (MakeError EC_already_exists ''transition already owns a scheduler lease'' 0), s)
          else
            let s' = (if available resources s then s else waited s) in
            if \<not> available resources s' then
              (Inl (MakeError EC_deadline_exceeded
                      ''transition could not acquire its resources before the deadline'' 0), s')
            else (Inr \<lparr>lease_live = True, lease_owner = owner\<rparr>, grant owner resources s'))"

definition Release :: "TransitionId \<Rightarrow> SchedulerState \<Rightarrow> SchedulerState" where
  "Release owner s =
     (if um_find (ss_leases s) owner = None then s
      else \<lparr>ss_leases = um_erase owner (ss_leases s),
            ss_domains = ReleaseOwned owner (ss_domains s),
            ss_units = ReleaseOwned owner (ss_units s),
            ss_exclusive_resources = ReleaseOwned owner (ss_exclusive_resources s)\<rparr>)"

definition ActiveLeaseCount :: "SchedulerState \<Rightarrow> nat" where
  "ActiveLeaseCount s = length (ss_leases s)"

text \<open>Lease handles: the empty handle, its truth value, \<open>Reset\<close> (also the destructor), the move
  constructor (the new handle and what is left of the old one) and the move assignment between
  distinct handles.\<close>

definition empty_lease :: Lease where
  "empty_lease = \<lparr>lease_live = False, lease_owner = 0\<rparr>"

definition lease_valid :: "Lease \<Rightarrow> bool" where
  "lease_valid l = (lease_live l \<and> id_valid (lease_owner l))"

definition Lease_Reset :: "Lease \<Rightarrow> SchedulerState \<Rightarrow> Lease \<times> SchedulerState" where
  "Lease_Reset l s =
     (empty_lease, if lease_live l \<and> id_valid (lease_owner l) then Release (lease_owner l) s else s)"

definition Lease_move :: "Lease \<Rightarrow> Lease \<times> Lease" where
  "Lease_move other = (other, empty_lease)"

definition Lease_assign :: "Lease \<Rightarrow> Lease \<Rightarrow> SchedulerState \<Rightarrow> Lease \<times> Lease \<times> SchedulerState" where
  "Lease_assign this other s =
     (let (_, s') = Lease_Reset this s; (moved, rest) = Lease_move other in (moved, rest, s'))"

section \<open>Interleavings\<close>

text \<open>The scheduler together with the calls of \<open>Acquire\<close> that wait.\<close>

record SchedulerSystem =
  sy_state :: SchedulerState
  sy_waiting :: "(TransitionId \<times> TransitionResources) list"

inductive scheduler_step :: "SchedulerSystem \<Rightarrow> SchedulerSystem \<Rightarrow> bool" where
  enter: "acquire_arguments owner r = None \<Longrightarrow> um_find (ss_leases (sy_state y)) owner = None \<Longrightarrow>
    scheduler_step y (y\<lparr>sy_waiting := sy_waiting y @ [(owner, sort_resources r)]\<rparr>)"
| wake: "(owner, r) \<in> set (sy_waiting y) \<Longrightarrow> available r (sy_state y) \<Longrightarrow>
    scheduler_step y (y\<lparr>sy_state := grant owner r (sy_state y),
                        sy_waiting := remove1 (owner, r) (sy_waiting y)\<rparr>)"
| timeout: "w \<in> set (sy_waiting y) \<Longrightarrow> \<not> available (snd w) (sy_state y) \<Longrightarrow>
    scheduler_step y (y\<lparr>sy_waiting := remove1 w (sy_waiting y)\<rparr>)"
| release: "scheduler_step y (y\<lparr>sy_state := Release owner (sy_state y)\<rparr>)"

definition system_start :: SchedulerSystem where
  "system_start = \<lparr>sy_state = scheduler_start, sy_waiting = []\<rparr>"

definition scheduler_reachable :: "SchedulerSystem \<Rightarrow> bool" where
  "scheduler_reachable y = scheduler_step\<^sup>*\<^sup>* system_start y"

inductive_cases scheduler_stepE: "scheduler_step y y'"

section \<open>What an owner table promises\<close>

text \<open>Every owner in a table has a lease, and every identifier a lease names is owned by it.\<close>

definition owned_by_leases :: "(u64 \<Rightarrow> TransitionId option) \<Rightarrow> (TransitionId \<Rightarrow> u64 list option) \<Rightarrow> bool" where
  "owned_by_leases owner_of leased \<longleftrightarrow>
     (\<forall>i t. owner_of i = Some t \<longrightarrow> leased t \<noteq> None) \<and>
     (\<forall>t is. leased t = Some is \<longrightarrow> (\<forall>i \<in> set is. owner_of i = Some t))"

locale ownership =
  fixes lookup :: "'t \<Rightarrow> u64 \<Rightarrow> TransitionId option"
    and free :: "u64 list \<Rightarrow> 't \<Rightarrow> bool"
    and claim :: "u64 list \<Rightarrow> TransitionId \<Rightarrow> 't \<Rightarrow> 't"
    and release_all :: "TransitionId \<Rightarrow> 't \<Rightarrow> 't"
    and invar :: "'t \<Rightarrow> bool"
  assumes free_iff: "free is t \<longleftrightarrow> (\<forall>i \<in> set is. lookup t i = None)"
    and lookup_claim: "free is t \<Longrightarrow> lookup (claim is w t) i = (if i \<in> set is then Some w else lookup t i)"
    and lookup_release: "invar t \<Longrightarrow> lookup (release_all w t) i = (if lookup t i = Some w then None else lookup t i)"
    and invar_claim: "invar t \<Longrightarrow> invar (claim is w t)"
    and invar_release: "invar t \<Longrightarrow> invar (release_all w t)"
begin

lemma owned_claim:
  assumes "owned_by_leases (lookup t) leased" and "free is t"
  shows "owned_by_leases (lookup (claim is w t)) (if leased w = None then leased(w \<mapsto> is) else leased)"
  using assms unfolding owned_by_leases_def free_iff lookup_claim [OF assms(2)]
  by (auto split: if_splits)

lemma owned_release:
  assumes "owned_by_leases (lookup t) leased" and "invar t"
  shows "owned_by_leases (lookup (release_all w t)) (leased(w := None))"
  using assms unfolding owned_by_leases_def lookup_release [OF assms(2)] by (auto split: if_splits)

lemma owned_exclusive:
  assumes "owned_by_leases (lookup t) leased" and "leased v = Some is" and "leased w = Some js" and "v \<noteq> w"
  shows "set is \<inter> set js = {}"
proof -
  have "\<forall>i \<in> set is. lookup t i = Some v" "\<forall>i \<in> set js. lookup t i = Some w"
    using assms(1-3) unfolding owned_by_leases_def by blast+
  then show ?thesis using assms(4) by auto
qed

lemma unleased_owns_nothing:
  "owned_by_leases (lookup t) leased \<Longrightarrow> leased w = None \<Longrightarrow> lookup t i \<noteq> Some w"
  unfolding owned_by_leases_def by blast

lemma release_claim:
  assumes "free is t" and "invar t" and "\<forall>i. lookup t i \<noteq> Some w"
  shows "lookup (release_all w (claim is w t)) = lookup t"
  using assms by (auto simp: fun_eq_iff lookup_release invar_claim lookup_claim free_iff)

lemma free_after_release:
  assumes "invar t" and "\<forall>i \<in> set is. lookup t i \<in> {None, Some w}"
  shows "free is (release_all w t)"
  using assms by (auto simp: free_iff lookup_release)

end

lemma um_find_Claim:
  "um_find (Claim is w t) i = (case um_find t i of Some x \<Rightarrow> Some x | None \<Rightarrow> if i \<in> set is then Some w else None)"
  unfolding Claim_def by (induction "is" arbitrary: t) (simp_all split: option.split)

lemma um_ok_Claim: "um_ok t \<Longrightarrow> um_ok (Claim is w t)"
  unfolding Claim_def by (induction "is" arbitrary: t) auto

lemma um_find_ReleaseOwned:
  "um_ok t \<Longrightarrow> um_find (ReleaseOwned w t) i = (if um_find t i = Some w then None else um_find t i)"
proof (induction t)
  case (Cons e t)
  obtain k v where e: "e = (k, v)" by (cases e)
  have "um_find t k = None" using Cons.prems e by (simp add: um_find_def map_of_eq_None_iff)
  then show ?case
    using Cons e unfolding ReleaseOwned_def um_find_def by (cases "i = k"; cases "v = w") simp_all
qed (simp add: ReleaseOwned_def)

lemma um_ok_ReleaseOwned: "um_ok t \<Longrightarrow> um_ok (ReleaseOwned w t)"
  unfolding ReleaseOwned_def by (induction t) auto

interpretation ot: ownership um_find Available Claim ReleaseOwned um_ok
proof unfold_locales
  show "Available is t \<longleftrightarrow> (\<forall>i \<in> set is. um_find t i = None)" for "is" t
    by (simp add: Available_def list_all_iff)
  then show "Available is t \<Longrightarrow> um_find (Claim is w t) i = (if i \<in> set is then Some w else um_find t i)" for "is" t w i
    by (auto simp: um_find_Claim split: option.splits)
qed (simp_all add: um_find_ReleaseOwned um_ok_ReleaseOwned um_ok_Claim)

lemma HasDuplicates_iff: "HasDuplicates vs \<longleftrightarrow> \<not> distinct vs"
proof -
  have "sorted xs \<Longrightarrow> list_ex (\<lambda>(a, b). a = b) (zip xs (tl xs)) \<longleftrightarrow> \<not> distinct xs" for xs :: "u64 list"
  proof (induction xs)
    case (Cons x xs)
    then show ?case by (cases xs) (auto simp: order_antisym)
  qed simp
  then show ?thesis
    unfolding HasDuplicates_def Let_def by (metis distinct_sort sorted_sort)
qed

section \<open>Invariant\<close>

definition leased :: "(TransitionResources \<Rightarrow> u64 list) \<Rightarrow> SchedulerState \<Rightarrow> TransitionId \<Rightarrow> u64 list option" where
  "leased field s t = map_option field (um_find (ss_leases s) t)"

definition scheduler_inv :: "SchedulerState \<Rightarrow> bool" where
  "scheduler_inv s \<longleftrightarrow>
     um_ok (ss_leases s) \<and> um_ok (ss_domains s) \<and> um_ok (ss_units s) \<and> um_ok (ss_exclusive_resources s) \<and>
     owned_by_leases (um_find (ss_domains s)) (leased tr_domains s) \<and>
     owned_by_leases (um_find (ss_units s)) (leased tr_units s) \<and>
     owned_by_leases (um_find (ss_exclusive_resources s)) (leased tr_exclusive_resources s)"

lemma leased_grant:
  "leased f (grant w r s) = (if leased f s w = None then (leased f s)(w \<mapsto> f r) else leased f s)"
  by (auto simp: leased_def grant_def fun_eq_iff)

lemma leased_Release: "leased f (Release w s) = (leased f s)(w := None)"
  by (auto simp: leased_def Release_def fun_eq_iff)

lemma start_inv: "scheduler_inv scheduler_start"
  by (simp add: scheduler_inv_def scheduler_start_def owned_by_leases_def leased_def)

lemma grant_inv:
  assumes "scheduler_inv s" and "available r s"
  shows "scheduler_inv (grant w r s)"
proof -
  have "um_ok (ss_leases (grant w r s)) \<and> um_ok (ss_domains (grant w r s)) \<and> um_ok (ss_units (grant w r s)) \<and>
      um_ok (ss_exclusive_resources (grant w r s))"
    using assms(1) by (simp add: scheduler_inv_def grant_def um_ok_Claim)
  moreover have "owned_by_leases (um_find (ss_domains (grant w r s))) (leased tr_domains (grant w r s))"
    "owned_by_leases (um_find (ss_units (grant w r s))) (leased tr_units (grant w r s))"
    "owned_by_leases (um_find (ss_exclusive_resources (grant w r s))) (leased tr_exclusive_resources (grant w r s))"
    unfolding leased_grant
    using assms by (simp_all add: scheduler_inv_def available_def grant_def ot.owned_claim del: fun_upd_apply)
  ultimately show ?thesis by (simp add: scheduler_inv_def)
qed

lemma Release_inv:
  assumes "scheduler_inv s"
  shows "scheduler_inv (Release w s)"
proof (cases "um_find (ss_leases s) w = None")
  case True
  then show ?thesis using assms by (simp add: Release_def)
next
  case False
  have r: "Release w s = \<lparr>ss_leases = um_erase w (ss_leases s),
      ss_domains = ReleaseOwned w (ss_domains s), ss_units = ReleaseOwned w (ss_units s),
      ss_exclusive_resources = ReleaseOwned w (ss_exclusive_resources s)\<rparr>"
    unfolding Release_def by (rule if_not_P [OF False])
  have "owned_by_leases (um_find (ss_domains (Release w s))) (leased tr_domains (Release w s))"
    "owned_by_leases (um_find (ss_units (Release w s))) (leased tr_units (Release w s))"
    "owned_by_leases (um_find (ss_exclusive_resources (Release w s))) (leased tr_exclusive_resources (Release w s))"
    unfolding leased_Release using assms r by (simp_all add: scheduler_inv_def ot.owned_release)
  then show ?thesis
    using assms r by (simp add: scheduler_inv_def um_ok_ReleaseOwned)
qed

lemma reachable_inv: "scheduler_reachable y \<Longrightarrow> scheduler_inv (sy_state y)"
  unfolding scheduler_reachable_def
proof (induction rule: rtranclp_induct)
  case base
  then show ?case by (simp add: system_start_def start_inv)
next
  case (step y z)
  from step(2,3) show ?case
    by (elim scheduler_stepE) (auto simp: grant_inv Release_inv)
qed

lemma Release_lookup:
  assumes "scheduler_inv s"
  shows "um_find (ss_domains (Release w s)) i = (if um_find (ss_domains s) i = Some w then None else um_find (ss_domains s) i)"
    and "um_find (ss_units (Release w s)) i = (if um_find (ss_units s) i = Some w then None else um_find (ss_units s) i)"
    and "um_find (ss_exclusive_resources (Release w s)) i =
      (if um_find (ss_exclusive_resources s) i = Some w then None else um_find (ss_exclusive_resources s) i)"
proof -
  have "um_find (ss_domains s) i \<noteq> Some w" "um_find (ss_units s) i \<noteq> Some w"
    "um_find (ss_exclusive_resources s) i \<noteq> Some w" if "um_find (ss_leases s) w = None"
  proof -
    have "leased f s w = None" for f using that by (simp add: leased_def)
    then show "um_find (ss_domains s) i \<noteq> Some w" "um_find (ss_units s) i \<noteq> Some w"
      "um_find (ss_exclusive_resources s) i \<noteq> Some w"
      using assms ot.unleased_owns_nothing unfolding scheduler_inv_def by blast+
  qed
  then show "um_find (ss_domains (Release w s)) i = (if um_find (ss_domains s) i = Some w then None else um_find (ss_domains s) i)"
    "um_find (ss_units (Release w s)) i = (if um_find (ss_units s) i = Some w then None else um_find (ss_units s) i)"
    "um_find (ss_exclusive_resources (Release w s)) i =
      (if um_find (ss_exclusive_resources s) i = Some w then None else um_find (ss_exclusive_resources s) i)"
    using assms by (simp_all add: Release_def scheduler_inv_def um_find_ReleaseOwned)
qed

section \<open>Properties\<close>

definition example_request :: "DomainId list \<Rightarrow> ExecutionUnitId list \<Rightarrow> TransitionResources" where
  "example_request ds us = \<lparr>tr_domains = ds, tr_units = us, tr_exclusive_resources = []\<rparr>"

text \<open>Transition 1 holds domain 1 and unit 5.\<close>

definition example_system :: SchedulerSystem where
  "example_system = \<lparr>sy_state = grant 1 (example_request [1] [5]) scheduler_start, sy_waiting = []\<rparr>"

lemma enter_then_wake:
  assumes "acquire_arguments w r = None" and "um_find (ss_leases (sy_state y)) w = None"
    and "available (sort_resources r) (sy_state y)" and "sy_waiting y = []"
  shows "scheduler_step\<^sup>*\<^sup>* y (y\<lparr>sy_state := grant w (sort_resources r) (sy_state y)\<rparr>)"
proof -
  let ?y = "y\<lparr>sy_waiting := [(w, sort_resources r)]\<rparr>"
  have "scheduler_step y ?y" using enter [OF assms(1,2)] assms(4) by simp
  moreover have "scheduler_step ?y (y\<lparr>sy_state := grant w (sort_resources r) (sy_state y), sy_waiting := []\<rparr>)"
    using wake [of w "sort_resources r" ?y] assms(3) by simp
  moreover have "y\<lparr>sy_state := s, sy_waiting := []\<rparr> = y\<lparr>sy_state := s\<rparr>" for s
    using assms(4) by (cases y) simp
  ultimately show ?thesis by simp
qed

lemma example_system_reachable: "scheduler_reachable example_system"
proof -
  have "scheduler_step\<^sup>*\<^sup>* system_start (system_start\<lparr>sy_state :=
      grant 1 (sort_resources (example_request [1] [5])) (sy_state system_start)\<rparr>)"
    by (rule enter_then_wake) code_simp+
  then show ?thesis
    by (simp add: scheduler_reachable_def example_system_def system_start_def example_request_def sort_resources_def)
qed

text \<open>C4: in every reachable state, under any interleaving of waiting, granted, timed-out and
  released requests, two leases of different transitions share no domain, no unit and no
  exclusive resource.\<close>

theorem leases_exclusive:
  assumes "scheduler_reachable y" and "um_find (ss_leases (sy_state y)) v = Some a"
    and "um_find (ss_leases (sy_state y)) w = Some b" and "v \<noteq> w"
  shows "set (tr_domains a) \<inter> set (tr_domains b) = {} \<and> set (tr_units a) \<inter> set (tr_units b) = {} \<and>
    set (tr_exclusive_resources a) \<inter> set (tr_exclusive_resources b) = {}"
proof -
  have "leased f (sy_state y) v = Some (f a)" "leased f (sy_state y) w = Some (f b)" for f
    using assms(2,3) by (simp_all add: leased_def)
  then show ?thesis
    using reachable_inv [OF assms(1)] ot.owned_exclusive [OF _ _ _ assms(4)]
    unfolding scheduler_inv_def by blast
qed

theorem leases_exclusive_witness:
  "um_find (ss_leases (grant 2 (example_request [2] [6]) (sy_state example_system))) 1 = Some (example_request [1] [5]) \<and>
   set (tr_domains (example_request [1] [5])) \<inter> set (tr_domains (example_request [2] [6])) = {}"
proof -
  let ?y = "example_system\<lparr>sy_state := grant 2 (sort_resources (example_request [2] [6])) (sy_state example_system)\<rparr>"
  have "scheduler_step\<^sup>*\<^sup>* example_system ?y" by (rule enter_then_wake) code_simp+
  then have r: "scheduler_reachable ?y"
    using example_system_reachable by (simp add: scheduler_reachable_def)
  have a: "um_find (ss_leases (sy_state ?y)) 1 = Some (example_request [1] [5])" by code_simp
  have b: "um_find (ss_leases (sy_state ?y)) 2 = Some (example_request [2] [6])" by code_simp
  show ?thesis
    using leases_exclusive [OF r a b] a by (simp add: example_request_def sort_resources_def)
qed

text \<open>In every reachable state the owner of a domain, unit or resource holds a lease, and a
  lease owns everything it names: no lock is orphaned and no lease lost a lock.\<close>

theorem owners_hold_leases:
  assumes "scheduler_reachable y"
  defines "s \<equiv> sy_state y"
  shows "(\<forall>i t. Some t \<in> {um_find (ss_domains s) i, um_find (ss_units s) i, um_find (ss_exclusive_resources s) i} \<longrightarrow>
       um_find (ss_leases s) t \<noteq> None) \<and>
    (\<forall>t r. um_find (ss_leases s) t = Some r \<longrightarrow>
       (\<forall>i \<in> set (tr_domains r). um_find (ss_domains s) i = Some t) \<and>
       (\<forall>i \<in> set (tr_units r). um_find (ss_units s) i = Some t) \<and>
       (\<forall>i \<in> set (tr_exclusive_resources r). um_find (ss_exclusive_resources s) i = Some t))"
proof (intro conjI allI impI)
  have inv: "owned_by_leases (um_find (ss_domains s)) (leased tr_domains s)"
    "owned_by_leases (um_find (ss_units s)) (leased tr_units s)"
    "owned_by_leases (um_find (ss_exclusive_resources s)) (leased tr_exclusive_resources s)"
    using reachable_inv [OF assms(1)] by (simp_all add: scheduler_inv_def s_def)
  show "um_find (ss_leases s) t \<noteq> None"
    if "Some t \<in> {um_find (ss_domains s) i, um_find (ss_units s) i, um_find (ss_exclusive_resources s) i}" for i t
  proof
    assume "um_find (ss_leases s) t = None"
    then have "leased f s t = None" for f by (simp add: leased_def)
    then show False using that inv [THEN ot.unleased_owns_nothing, of t i] by auto
  qed
  fix t r assume "um_find (ss_leases s) t = Some r"
  then have "leased f s t = Some (f r)" for f by (simp add: leased_def)
  then show "\<forall>i \<in> set (tr_domains r). um_find (ss_domains s) i = Some t"
    "\<forall>i \<in> set (tr_units r). um_find (ss_units s) i = Some t"
    "\<forall>i \<in> set (tr_exclusive_resources r). um_find (ss_exclusive_resources s) i = Some t"
    using inv unfolding owned_by_leases_def by blast+
qed

theorem owners_hold_leases_witness: "um_find (ss_domains (sy_state example_system)) 1 = Some 1"
proof -
  have a: "um_find (ss_leases (sy_state example_system)) 1 = Some (example_request [1] [5])" by code_simp
  show ?thesis
    using owners_hold_leases [OF example_system_reachable] a by (auto simp: example_request_def)
qed

text \<open>\<open>Acquire\<close> on every path. Bad arguments and a transition that already has a lease are
  refused without a change; a request whose resources are free is granted at once, without waiting;
  otherwise the wait decides, and a wait that ends with the resources still taken reports the
  deadline and claims nothing. A granted request owns exactly the requested identifiers in addition.\<close>

theorem Acquire_behaviour:
  "Acquire waited w r s =
     (if w = 0 then (Inl (MakeError EC_invalid_identifier ''transition identifier zero is reserved'' 0), s)
      else if tr_domains r = [] then
        (Inl (MakeError EC_invalid_argument ''transition must lock at least one execution domain'' 0), s)
      else if \<not> (distinct (tr_domains r) \<and> distinct (tr_units r) \<and> distinct (tr_exclusive_resources r)) then
        (Inl (MakeError EC_invalid_argument ''transition resource request contains duplicate identifiers'' 0), s)
      else if um_find (ss_leases s) w \<noteq> None then
        (Inl (MakeError EC_already_exists ''transition already owns a scheduler lease'' 0), s)
      else let s' = if available r s then s else waited s in
        if available r s' then (Inr \<lparr>lease_live = True, lease_owner = w\<rparr>, grant w (sort_resources r) s')
        else (Inl (MakeError EC_deadline_exceeded
                ''transition could not acquire its resources before the deadline'' 0), s'))"
proof -
  have "available (sort_resources r) = available r"
    by (simp add: fun_eq_iff available_def sort_resources_def ot.free_iff)
  then show ?thesis
    by (simp add: Acquire_def acquire_arguments_def HasDuplicates_iff id_valid_def Let_def del: not_None_eq)
qed

text \<open>Dropping a lease right after it was granted restores every owner table and the leases, as
  lookups, to what they were before.\<close>

theorem grant_release_roundtrip:
  assumes "scheduler_reachable y" and "um_find (ss_leases (sy_state y)) w = None"
    and "available r (sy_state y)"
  shows "let s = sy_state y; s' = Release w (grant w r s) in
    um_find (ss_leases s') = um_find (ss_leases s) \<and> um_find (ss_domains s') = um_find (ss_domains s) \<and>
    um_find (ss_units s') = um_find (ss_units s) \<and>
    um_find (ss_exclusive_resources s') = um_find (ss_exclusive_resources s)"
proof -
  have inv: "scheduler_inv (sy_state y)" by (rule reachable_inv [OF assms(1)])
  have none: "leased f (sy_state y) w = None" for f using assms(2) by (simp add: leased_def)
  have "\<forall>i. um_find (ss_domains (sy_state y)) i \<noteq> Some w" "\<forall>i. um_find (ss_units (sy_state y)) i \<noteq> Some w"
    "\<forall>i. um_find (ss_exclusive_resources (sy_state y)) i \<noteq> Some w"
    using inv none ot.unleased_owns_nothing unfolding scheduler_inv_def by blast+
  then show ?thesis
    using inv assms(2,3)
    by (simp add: Let_def Release_def grant_def available_def scheduler_inv_def ot.release_claim fun_upd_idem)
qed

theorem grant_release_roundtrip_witness:
  "um_find (ss_domains (Release 2 (grant 2 (example_request [2] [6]) (sy_state example_system)))) =
   um_find (ss_domains (sy_state example_system))"
proof -
  have a: "um_find (ss_leases (sy_state example_system)) 2 = None" by code_simp
  have b: "available (example_request [2] [6]) (sy_state example_system)" by code_simp
  show ?thesis using grant_release_roundtrip [OF example_system_reachable a b] by (simp add: Let_def)
qed



text \<open>The check that a transition has no lease yet is made before the wait and not repeated
  after it. Two calls of \<open>Acquire\<close> for the same transition that wait at the same time are both
  granted; the lease record keeps the first request only, and the end of either handle frees the
  locks of the other.\<close>

theorem same_owner_granted_twice:
  "\<exists>y. scheduler_reachable y \<and> sy_waiting y = [] \<and>
     um_find (ss_leases (sy_state y)) 7 = Some (example_request [1] []) \<and>
     um_find (ss_domains (sy_state y)) 1 = Some 7 \<and> um_find (ss_domains (sy_state y)) 2 = Some 7 \<and>
     (\<forall>i. um_find (ss_domains (Release 7 (sy_state y))) i = None)"
proof -
  let ?r1 = "example_request [1] []" let ?r2 = "example_request [2] []"
  define y1 where "y1 = \<lparr>sy_state = grant 1 (example_request [1, 2] []) scheduler_start, sy_waiting = []\<rparr>"
  have "scheduler_step\<^sup>*\<^sup>* system_start (system_start\<lparr>sy_state :=
      grant 1 (sort_resources (example_request [1, 2] [])) (sy_state system_start)\<rparr>)"
    by (rule enter_then_wake) code_simp+
  then have s1: "scheduler_step\<^sup>*\<^sup>* system_start y1"
    by (simp add: y1_def system_start_def example_request_def sort_resources_def)
  have args: "acquire_arguments 7 ?r1 = None" "acquire_arguments 7 ?r2 = None" by code_simp+
  have none: "um_find (ss_leases (sy_state y1)) 7 = None" unfolding y1_def by code_simp
  have sorted: "sort_resources ?r1 = ?r1" "sort_resources ?r2 = ?r2"
    by (simp_all add: sort_resources_def example_request_def)
  define y3 where "y3 = y1\<lparr>sy_waiting := [(7, ?r1), (7, ?r2)]\<rparr>"
  have "scheduler_step y1 (y1\<lparr>sy_waiting := [(7, ?r1)]\<rparr>)"
    using enter [OF args(1) none] by (simp add: sorted y1_def)
  moreover have "scheduler_step (y1\<lparr>sy_waiting := [(7, ?r1)]\<rparr>) y3"
    using enter [OF args(2), of "y1\<lparr>sy_waiting := [(7, ?r1)]\<rparr>"] none by (simp add: sorted y3_def)
  moreover have "scheduler_step y3 (y3\<lparr>sy_state := Release 1 (sy_state y3)\<rparr>)" by (rule release)
  ultimately have s3: "scheduler_step\<^sup>*\<^sup>* y1 (y3\<lparr>sy_state := Release 1 (sy_state y3)\<rparr>)" by auto
  let ?s = "Release 1 (sy_state y3)"
  have free: "available ?r1 ?s" "available ?r2 (grant 7 ?r1 ?s)" unfolding y3_def y1_def by code_simp+
  define y5 where "y5 = \<lparr>sy_state = grant 7 ?r2 (grant 7 ?r1 ?s), sy_waiting = []\<rparr>"
  have "scheduler_step (y3\<lparr>sy_state := ?s\<rparr>) (y3\<lparr>sy_state := grant 7 ?r1 ?s, sy_waiting := [(7, ?r2)]\<rparr>)"
    using wake [of 7 ?r1 "y3\<lparr>sy_state := ?s\<rparr>"] free(1) by (simp add: y3_def)
  moreover have "scheduler_step (y3\<lparr>sy_state := grant 7 ?r1 ?s, sy_waiting := [(7, ?r2)]\<rparr>) y5"
    using wake [of 7 ?r2 "y3\<lparr>sy_state := grant 7 ?r1 ?s, sy_waiting := [(7, ?r2)]\<rparr>"] free(2)
    by (cases y3) (simp add: y5_def)
  ultimately have reach: "scheduler_reachable y5"
    using s1 s3 unfolding scheduler_reachable_def by auto
  have st: "um_find (ss_leases (sy_state y5)) 7 = Some ?r1" "um_find (ss_domains (sy_state y5)) 1 = Some 7"
    "um_find (ss_domains (sy_state y5)) 2 = Some 7" "ss_domains (Release 7 (sy_state y5)) = []"
    unfolding y5_def y3_def y1_def by code_simp+
  show ?thesis
    by (rule exI [of _ y5]) (use reach st in \<open>simp add: y5_def\<close>)
qed

end
