(* ===== verification/Exec_Engine.thy ===== *)
theory Exec_Engine
  imports Exec_Scheduler
begin

text \<open>
  The transition engine, \<^verbatim>\<open>exec/src/engine.cpp\<close> and \<^verbatim>\<open>exec/include/ovf/exec/internal/engine.hpp\<close>.

  Operations pass the state explicitly: a \<open>Run\<close> is the engine's own state and a world of any type
  on which the environment acts. The environment is a record of functions: the clock, sleeping, the virtual functions
  of \<open>ProcessBackend\<close> and \<open>TransitionJournal\<close>, what other threads do to the engine before
  a lock is taken (\<open>env_interfere\<close>) and while the scheduler waits (\<open>env_wait\<close>). An operation that
  follows the pointer \<open>FindUnit\<close> returns has an option result, \<open>None\<close> being the null dereference.
  The retry loops recurse on the number of attempts left, which is the loop counter's distance to
  \<open>max_attempts\<close>; a validated model bounds it by 100.
\<close>

section \<open>Data\<close>

type_synonym i32 = "32 word"

record BackendEvidence =
  be_state :: ApplicationState
  be_exit_code :: i32
  be_signal :: i32
  be_native_code :: u64
  be_message :: string

definition no_evidence :: BackendEvidence where
  "no_evidence = \<lparr>be_state = AS_unknown, be_exit_code = 0, be_signal = 0, be_native_code = 0, be_message = []\<rparr>"

record TransitionFailure =
  tf_error :: Error
  tf_application :: "ApplicationId option"
  tf_evidence :: BackendEvidence
  tf_recovery_action :: FailureAction
  tf_recovery_attempted :: bool
  tf_recovery_succeeded :: bool
  tf_recovery_error :: "Error option"
  tf_recovered_mode :: "ModeId option"
  tf_recovery_stopped :: "ApplicationId list"
  tf_recovery_started :: "ApplicationId list"

record TransitionSnapshot =
  ts_id :: TransitionId
  ts_domain :: DomainId
  ts_source_mode :: ModeId
  ts_target_mode :: ModeId
  ts_phase :: TransitionPhase
  ts_updated_at :: int
  ts_failure :: "TransitionFailure option"

record JournalEvent =
  je_transition :: TransitionSnapshot
  je_generation :: ModelGeneration
  je_plan :: "TransitionPlan option"

record AcceptedTransition =
  at_id :: TransitionId
  at_plan :: TransitionPlan
  at_deadline :: Deadline

record EngineSnapshot =
  es_configuration :: SystemConfiguration
  es_transitions :: "TransitionSnapshot list"

record Engine =
  en_model :: ValidatedModel
  en_scheduler :: SchedulerState
  en_configuration :: SystemConfiguration
  en_transitions :: "(TransitionId \<times> TransitionSnapshot) list"
  en_plans :: "(TransitionId \<times> TransitionPlan) list"
  en_cancellation :: "(TransitionId \<times> bool) list"
  en_next_transition :: u64

record 'w Run =
  run_engine :: Engine
  run_world :: 'w

record 'w Environment =
  env_now :: "'w \<Rightarrow> int \<times> 'w"
  env_sleep_until :: "int \<Rightarrow> 'w \<Rightarrow> 'w"
  env_inspect :: "ExecutionUnitId \<Rightarrow> 'w \<Rightarrow> (BackendEvidence, Error) result \<times> 'w"
  env_start :: "ExecutionUnitId \<Rightarrow> Deadline \<Rightarrow> 'w \<Rightarrow> (BackendEvidence, Error) result \<times> 'w"
  env_stop :: "ExecutionUnitId \<Rightarrow> StopReason \<Rightarrow> Deadline \<Rightarrow> 'w \<Rightarrow> (BackendEvidence, Error) result \<times> 'w"
  env_request_system_recovery :: "Deadline \<Rightarrow> 'w \<Rightarrow> (unit, Error) result \<times> 'w"
  env_append :: "JournalEvent \<Rightarrow> 'w \<Rightarrow> (unit, Error) result \<times> 'w"
  env_replay :: "'w \<Rightarrow> (JournalEvent list, Error) result \<times> 'w"
  env_interfere :: "Engine \<Rightarrow> 'w \<Rightarrow> Engine \<times> 'w"
  env_wait :: "Engine \<Rightarrow> 'w \<Rightarrow> Engine \<times> 'w"

text \<open>The memory journal: \<open>Append\<close>, where \<open>fits\<close> is whether the vector can grow, and \<open>Events\<close>, which is
  also what \<open>Replay\<close> returns.\<close>

definition MemoryJournal_Append ::
  "bool \<Rightarrow> JournalEvent \<Rightarrow> JournalEvent list \<Rightarrow> (unit, Error) result \<times> JournalEvent list" where
  "MemoryJournal_Append fits event events =
     (if fits then (Inr (), events @ [event])
      else (Inl (MakeError EC_resource_exhausted ''memory journal capacity exhausted'' 0), events))"

definition MemoryJournal_Replay :: "JournalEvent list \<Rightarrow> (JournalEvent list, Error) result" where
  "MemoryJournal_Replay events = Inr events"

section \<open>Access to the environment\<close>

definition lock :: "'w Environment \<Rightarrow> 'w Run \<Rightarrow> 'w Run" where
  "lock env s = (let (e, w) = env_interfere env (run_engine s) (run_world s) in \<lparr>run_engine = e, run_world = w\<rparr>)"

definition in_world :: "('w \<Rightarrow> 'a \<times> 'w) \<Rightarrow> 'w Run \<Rightarrow> 'a \<times> 'w Run" where
  "in_world f s = (let (a, w) = f (run_world s) in (a, s\<lparr>run_world := w\<rparr>))"

definition sleep_until :: "'w Environment \<Rightarrow> int \<Rightarrow> 'w Run \<Rightarrow> 'w Run" where
  "sleep_until env t s = s\<lparr>run_world := env_sleep_until env t (run_world s)\<rparr>"

definition with_engine :: "(Engine \<Rightarrow> Engine) \<Rightarrow> 'w Run \<Rightarrow> 'w Run" where
  "with_engine f s = s\<lparr>run_engine := f (run_engine s)\<rparr>"

definition set_running :: "(ExecutionUnitId list \<Rightarrow> ExecutionUnitId list) \<Rightarrow> Engine \<Rightarrow> Engine" where
  "set_running f e = e\<lparr>en_configuration := (en_configuration e)
     \<lparr>sc_running_units := f (sc_running_units (en_configuration e))\<rparr>\<rparr>"

definition set_mode :: "DomainId \<Rightarrow> ModeId \<Rightarrow> Engine \<Rightarrow> Engine" where
  "set_mode d m e = e\<lparr>en_configuration := (en_configuration e)
     \<lparr>sc_committed_modes := um_set d m (sc_committed_modes (en_configuration e))\<rparr>\<rparr>"

text \<open>Milliseconds on the nanosecond clock.\<close>

definition ms :: "int \<Rightarrow> int" where
  "ms d = d * 1000000"

section \<open>Recording and failing\<close>

definition GetTransition ::
  "'w Environment \<Rightarrow> TransitionId \<Rightarrow> 'w Run \<Rightarrow> (TransitionSnapshot, Error) result \<times> 'w Run" where
  "GetTransition env transition s =
     (let s = lock env s in
      (case um_find (en_transitions (run_engine s)) transition of
         None \<Rightarrow> Inl (MakeError EC_not_found ''transition is not known'' 0)
       | Some found \<Rightarrow> Inr found, s))"

definition IsCancelled :: "'w Environment \<Rightarrow> TransitionId \<Rightarrow> 'w Run \<Rightarrow> bool \<times> 'w Run" where
  "IsCancelled env transition s =
     (let s = lock env s in (um_find (en_cancellation (run_engine s)) transition = Some True, s))"

definition cancellation_closed :: "TransitionPhase \<Rightarrow> bool" where
  "cancellation_closed phase =
     (phase \<in> {TP_committing, TP_succeeded, TP_rejected, TP_failed, TP_cancelled, TP_superseded,
               TP_deadline_exceeded, TP_recovery_failed})"

definition Cancel :: "'w Environment \<Rightarrow> TransitionId \<Rightarrow> 'w Run \<Rightarrow> ((unit, Error) result \<times> 'w Run) option" where
  "Cancel env transition s =
     (let s = lock env s in
      case um_find (en_cancellation (run_engine s)) transition of
        None \<Rightarrow> Some (Inl (MakeError EC_not_found ''transition is not known'' 0), s)
      | Some _ \<Rightarrow>
          (case um_find (en_transitions (run_engine s)) transition of
             None \<Rightarrow> None
           | Some t \<Rightarrow>
               if cancellation_closed (ts_phase t) then
                 Some (Inl (MakeError EC_invalid_transition
                        ''transition is no longer at a cancellation point'' 0), s)
               else Some (Inr (), with_engine (\<lambda>e. e\<lparr>en_cancellation := um_set transition True (en_cancellation e)\<rparr>) s)))"

definition Snapshot :: "'w Environment \<Rightarrow> 'w Run \<Rightarrow> EngineSnapshot \<times> 'w Run" where
  "Snapshot env s =
     (let s = lock env s in
      (\<lparr>es_configuration = en_configuration (run_engine s),
        es_transitions = sort_key ts_id (map snd (en_transitions (run_engine s)))\<rparr>, s))"

text \<open>\<open>Record\<close> updates the caller's transition, also when the journal refuses it.\<close>

definition Record ::
  "'w Environment \<Rightarrow> TransitionSnapshot \<Rightarrow> TransitionPhase \<Rightarrow> 'w Run
     \<Rightarrow> (unit, Error) result \<times> TransitionSnapshot \<times> 'w Run" where
  "Record env transition phase s =
     (let (now, s) = in_world (env_now env) s;
          transition = transition\<lparr>ts_phase := phase, ts_updated_at := now\<rparr>;
          s = lock env s;
          plan = um_find (en_plans (run_engine s)) (ts_id transition);
          event = \<lparr>je_transition = transition,
                   je_generation = em_generation (vm_model (en_model (run_engine s))), je_plan = plan\<rparr>;
          (persisted, s) = in_world (env_append env event) s in
      case persisted of
        Inl e \<Rightarrow> (Inl (MakeError EC_persistence_error ''transition phase could not be persisted''
                        (ucast (error_code_value (err_code e)))), transition, s)
      | Inr _ \<Rightarrow>
          (Inr (), transition,
           with_engine (\<lambda>e. e\<lparr>en_transitions := um_set (ts_id transition) transition (en_transitions e)\<rparr>) (lock env s)))"

definition failure_of :: "Error \<Rightarrow> ApplicationId option \<Rightarrow> BackendEvidence \<Rightarrow> TransitionFailure" where
  "failure_of error application evidence =
     \<lparr>tf_error = error, tf_application = application, tf_evidence = evidence,
      tf_recovery_action = FA_hold_observed_configuration, tf_recovery_attempted = False,
      tf_recovery_succeeded = False, tf_recovery_error = None, tf_recovered_mode = None,
      tf_recovery_stopped = [], tf_recovery_started = []\<rparr>"

definition terminal_phase :: "ErrorCode \<Rightarrow> TransitionPhase" where
  "terminal_phase code =
     (if code = EC_cancelled then TP_cancelled
      else if code = EC_deadline_exceeded then TP_deadline_exceeded
      else if code = EC_superseded then TP_superseded else TP_failed)"

definition Fail ::
  "'w Environment \<Rightarrow> TransitionSnapshot \<Rightarrow> Error \<Rightarrow> ApplicationId option \<Rightarrow> BackendEvidence \<Rightarrow> 'w Run
     \<Rightarrow> TransitionSnapshot \<times> 'w Run" where
  "Fail env transition error application evidence s =
     (let failure = failure_of error application evidence;
          transition = transition\<lparr>ts_failure := Some failure\<rparr>;
          (recorded, transition, s) = Record env transition (terminal_phase (err_code error)) s in
      case recorded of
        Inr _ \<Rightarrow> (transition, s)
      | Inl _ \<Rightarrow>
          (transition\<lparr>ts_failure := Some (failure\<lparr>tf_error := MakeError EC_persistence_error
              ''terminal transition failure could not be persisted'' 0\<rparr>)\<rparr>, s))"

section \<open>Accepting a transition\<close>

definition fail_accept ::
  "'w Environment \<Rightarrow> TransitionSnapshot \<Rightarrow> Error \<Rightarrow> 'w Run \<Rightarrow> (AcceptedTransition, Error) result \<times> 'w Run" where
  "fail_accept env transition error s =
     (let (failed, s) = Fail env transition error None no_evidence s in
      (Inl (tf_error (the (ts_failure failed))), s))"

definition record_accept ::
  "'w Environment \<Rightarrow> TransitionSnapshot \<Rightarrow> TransitionPlan \<Rightarrow> Deadline \<Rightarrow> 'w Run
     \<Rightarrow> (AcceptedTransition, Error) result \<times> 'w Run" where
  "record_accept env transition plan deadline s =
     (case Record env transition TP_validated s of
        (Inl e, transition, s) \<Rightarrow> fail_accept env transition e s
      | (Inr _, transition, s) \<Rightarrow>
          (case Record env transition TP_planned s of
             (Inl e, transition, s) \<Rightarrow> fail_accept env transition e s
           | (Inr _, transition, s) \<Rightarrow>
               (Inr \<lparr>at_id = ts_id transition, at_plan = plan, at_deadline = deadline\<rparr>, s)))"

definition AcceptModeFrom ::
  "'w Environment \<Rightarrow> SystemConfiguration \<Rightarrow> DomainId \<Rightarrow> ModeId \<Rightarrow> Deadline \<Rightarrow> 'w Run
     \<Rightarrow> ((AcceptedTransition, Error) result \<times> 'w Run) option" where
  "AcceptModeFrom env baseline domain target deadline s =
     (let (now, s) = in_world (env_now env) s in
      if deadline \<le> now then
        Some (Inl (MakeError EC_deadline_exceeded ''transition deadline has expired'' 0), s)
      else
        let i = en_next_transition (run_engine s);
            s = with_engine (\<lambda>e. e\<lparr>en_next_transition := i + 1\<rparr>) s;
            (now, s) = in_world (env_now env) s;
            s = lock env s;
            transition =
              \<lparr>ts_id = i, ts_domain = domain,
               ts_source_mode = (case um_find (sc_committed_modes baseline) domain of None \<Rightarrow> 0 | Some m \<Rightarrow> m),
               ts_target_mode = target, ts_phase = TP_received, ts_updated_at = now, ts_failure = None\<rparr>;
            s = with_engine (\<lambda>e. e\<lparr>en_transitions := um_emplace i transition (en_transitions e),
                                   en_cancellation := um_emplace i False (en_cancellation e)\<rparr>) s in
        case Plan (en_model (run_engine s)) baseline domain target of
          None \<Rightarrow> None
        | Some (Inl e) \<Rightarrow> Some (fail_accept env transition e s)
        | Some (Inr plan) \<Rightarrow>
            Some (record_accept env transition plan deadline
                    (with_engine (\<lambda>e. e\<lparr>en_plans := um_set i plan (en_plans e)\<rparr>) s)))"

definition AcceptMode ::
  "'w Environment \<Rightarrow> DomainId \<Rightarrow> ModeId \<Rightarrow> Deadline \<Rightarrow> 'w Run
     \<Rightarrow> ((AcceptedTransition, Error) result \<times> 'w Run) option" where
  "AcceptMode env domain target deadline s =
     (let s = lock env s in
      AcceptModeFrom env (en_configuration (run_engine s)) domain target deadline s)"

section \<open>Recovery\<close>

text \<open>The two loops of \<open>ApplyRecoveryPlan\<close>; they return the error that ends them and the failure record
  they update.\<close>

fun recovery_stops ::
  "'w Environment \<Rightarrow> Deadline \<Rightarrow> ExecutionUnitId list \<Rightarrow> TransitionFailure \<Rightarrow> 'w Run
     \<Rightarrow> (Error option \<times> TransitionFailure \<times> 'w Run) option" where
  "recovery_stops env deadline [] failure s = Some (None, failure, s)"
| "recovery_stops env deadline (a # as) failure s =
     (case FindUnit (en_model (run_engine s)) a of
        None \<Rightarrow> None
      | Some d \<Rightarrow>
          let (now, s) = in_world (env_now env) s;
              (stopped, s) = in_world (env_stop env a SR_recovery (min deadline (now + ms (eu_stop_timeout d)))) s in
          case stopped of
            Inl e \<Rightarrow> Some (Some e, failure\<lparr>tf_application := Some a\<rparr>, s)
          | Inr ev \<Rightarrow>
              if be_state ev \<noteq> AS_stopped then
                Some (Some (MakeError EC_backend_error ''recovery could not stop application'' 0),
                      failure\<lparr>tf_application := Some a, tf_evidence := ev\<rparr>, s)
              else
                recovery_stops env deadline as
                  (failure\<lparr>tf_recovery_stopped := tf_recovery_stopped failure @ [a]\<rparr>)
                  (with_engine (set_running (us_erase a)) (lock env s)))"

definition recovery_state_reached :: "ExecutionUnitDefinition \<Rightarrow> BackendEvidence \<Rightarrow> bool" where
  "recovery_state_reached d ev =
     (if eu_readiness d = RD_required then be_state ev = AS_ready
      else be_state ev = AS_starting \<or> be_state ev = AS_ready)"

text \<open>The attempts to start one unit. \<open>left\<close> counts the remaining attempts, so the last one is
  \<open>Suc 0\<close>; the result says whether the unit is ready.\<close>

fun recovery_attempts ::
  "'w Environment \<Rightarrow> ExecutionUnitDefinition \<Rightarrow> ExecutionUnitId \<Rightarrow> Deadline \<Rightarrow> nat \<Rightarrow> TransitionFailure \<Rightarrow> 'w Run
     \<Rightarrow> (bool, Error) result \<times> TransitionFailure \<times> 'w Run" where
  "recovery_attempts env d a deadline 0 failure s = (Inr False, failure, s)"
| "recovery_attempts env d a deadline (Suc left) failure s =
     (let (now, s) = in_world (env_now env) s in
      if deadline \<le> now then
        (Inl (MakeError EC_deadline_exceeded ''recovery deadline expired'' 0), failure, s)
      else
        let (started, s) = in_world (env_start env a (min deadline (now + ms (eu_start_timeout d)))) s;
            failure = (case started of Inr ev \<Rightarrow> failure\<lparr>tf_evidence := ev\<rparr> | Inl _ \<Rightarrow> failure) in
        case (started, left) of
          (Inl e, 0) \<Rightarrow> (Inl e, failure\<lparr>tf_application := Some a\<rparr>, s)
        | _ \<Rightarrow>
            if (case started of Inr ev \<Rightarrow> recovery_state_reached d ev | Inl _ \<Rightarrow> False) then (Inr True, failure, s)
            else if left = 0 then (Inr False, failure, s)
            else
              let (now, s) = in_world (env_now env) s;
                  (cleaned, s) = in_world (env_stop env a SR_recovery (min deadline (now + ms (eu_stop_timeout d)))) s in
              case cleaned of
                Inl e \<Rightarrow> (Inl e, failure\<lparr>tf_application := Some a\<rparr>, s)
              | Inr ev \<Rightarrow>
                  if be_state ev \<noteq> AS_stopped then
                    (Inl (MakeError EC_backend_error ''recovery retry could not clean up application'' 0),
                     failure\<lparr>tf_application := Some a, tf_evidence := ev\<rparr>, s)
                  else
                    let (now, s) = in_world (env_now env) s;
                        s = sleep_until env (min deadline (now + ms (retry_delay (eu_retry d)))) s in
                    recovery_attempts env d a deadline left failure s)"

fun recovery_starts ::
  "'w Environment \<Rightarrow> Deadline \<Rightarrow> ExecutionUnitId list \<Rightarrow> TransitionFailure \<Rightarrow> 'w Run
     \<Rightarrow> (Error option \<times> TransitionFailure \<times> 'w Run) option" where
  "recovery_starts env deadline [] failure s = Some (None, failure, s)"
| "recovery_starts env deadline (a # as) failure s =
     (case FindUnit (en_model (run_engine s)) a of
        None \<Rightarrow> None
      | Some d \<Rightarrow>
          (case recovery_attempts env d a deadline (unat (max_attempts (eu_retry d))) failure s of
             (Inl e, failure, s) \<Rightarrow> Some (Some e, failure, s)
           | (Inr False, failure, s) \<Rightarrow>
               Some (Some (MakeError EC_backend_error ''recovery could not start application'' 0),
                     failure\<lparr>tf_application := Some a\<rparr>, s)
           | (Inr True, failure, s) \<Rightarrow>
               recovery_starts env deadline as
                 (failure\<lparr>tf_recovery_started := tf_recovery_started failure @ [a]\<rparr>)
                 (with_engine (set_running (us_insert a)) (lock env s))))"

definition ApplyRecoveryPlan ::
  "'w Environment \<Rightarrow> ExecutionUnitId list \<Rightarrow> ExecutionUnitId list \<Rightarrow> Deadline \<Rightarrow> TransitionFailure \<Rightarrow> 'w Run
     \<Rightarrow> (Error option \<times> TransitionFailure \<times> 'w Run) option" where
  "ApplyRecoveryPlan env stop start deadline failure s =
     do {
       (ended, failure, s) \<leftarrow> recovery_stops env deadline stop failure s;
       (case ended of
          Some e \<Rightarrow> Some (Some e, failure, s)
        | None \<Rightarrow> recovery_starts env deadline start failure s)
     }"

text \<open>The action the domain declares, carried out; \<open>None\<close> as the error is success.\<close>

definition recovery_action ::
  "'w Environment \<Rightarrow> DomainDefinition \<Rightarrow> Deadline \<Rightarrow> TransitionFailure \<Rightarrow> 'w Run
     \<Rightarrow> (Error option \<times> TransitionFailure \<times> 'w Run) option" where
  "recovery_action env domain deadline failure s =
     (case rp_action (dd_recovery domain) of
        FA_enter_fallback_mode \<Rightarrow>
          let s = lock env s; fallback = rp_fallback_mode (dd_recovery domain) in
          (case Reconcile (en_model (run_engine s)) (en_configuration (run_engine s)) (dd_id domain) fallback of
             None \<Rightarrow> None
           | Some (Inl e) \<Rightarrow> Some (Some e, failure, s)
           | Some (Inr plan) \<Rightarrow>
               do {
                 (ended, failure, s) \<leftarrow> ApplyRecoveryPlan env (tp_stop plan) (tp_start plan) deadline failure s;
                 (case ended of
                    Some e \<Rightarrow> Some (Some e, failure, s)
                  | None \<Rightarrow>
                      Some (None, failure\<lparr>tf_recovered_mode := Some fallback\<rparr>,
                            with_engine (set_mode (dd_id domain) fallback) (lock env s)))
               })
      | FA_stop_domain \<Rightarrow>
          let s = lock env s in
          (case StopDomainUnits (en_model (run_engine s)) (en_configuration (run_engine s)) (dd_id domain) of
             None \<Rightarrow> None
           | Some (Inl e) \<Rightarrow> Some (Some e, failure, s)
           | Some (Inr stop) \<Rightarrow> ApplyRecoveryPlan env stop [] deadline failure s)
      | FA_request_system_recovery \<Rightarrow>
          (let (requested, s) = in_world (env_request_system_recovery env deadline) s in
           Some (case requested of Inl e \<Rightarrow> Some e | Inr _ \<Rightarrow> None, failure, s))
      | _ \<Rightarrow> Some (Some (MakeError EC_internal_error ''validated recovery policy is invalid'' 0), failure, s))"

definition finish_recovery ::
  "'w Environment \<Rightarrow> TransitionSnapshot \<Rightarrow> TransitionFailure \<Rightarrow> Error option \<Rightarrow> 'w Run
     \<Rightarrow> (TransitionSnapshot, Error) result \<times> 'w Run" where
  "finish_recovery env transition failure ended s =
     (let (failure, phase) =
            (case ended of
               Some e \<Rightarrow> (failure\<lparr>tf_recovery_error := Some e\<rparr>, TP_recovery_failed)
             | None \<Rightarrow> (failure\<lparr>tf_recovery_succeeded := True\<rparr>, TP_failed));
          (recorded, transition, s) = Record env (transition\<lparr>ts_failure := Some failure\<rparr>) phase s in
      (case recorded of Inl e \<Rightarrow> Inl e | Inr _ \<Rightarrow> Inr transition, s))"

definition Recover ::
  "'w Environment \<Rightarrow> TransitionSnapshot \<Rightarrow> Error \<Rightarrow> ApplicationId option \<Rightarrow> BackendEvidence \<Rightarrow> 'w Run
     \<Rightarrow> ((TransitionSnapshot, Error) result \<times> 'w Run) option" where
  "Recover env transition error application evidence s =
     (let failure = failure_of error application evidence in
      case FindDomain (en_model (run_engine s)) (ts_domain transition) of
        None \<Rightarrow> (let (t, s) = Fail env transition error application evidence s in Some (Inr t, s))
      | Some domain \<Rightarrow>
          if rp_action (dd_recovery domain) = FA_hold_observed_configuration then
            (let (t, s) = Fail env transition error application evidence s in Some (Inr t, s))
          else
            let failure = failure\<lparr>tf_recovery_action := rp_action (dd_recovery domain), tf_recovery_attempted := True\<rparr> in
            case Record env (transition\<lparr>ts_failure := Some failure\<rparr>) TP_recovering s of
              (Inl e, transition, s) \<Rightarrow>
                (let (t, s) = Fail env transition e None no_evidence s in Some (Inr t, s))
            | (Inr _, transition, s) \<Rightarrow>
                let (now, s) = in_world (env_now env) s in
                do {
                  (ended, failure, s) \<leftarrow>
                    recovery_action env domain (now + ms (rp_deadline (dd_recovery domain))) failure s;
                  Some (finish_recovery env transition failure ended s)
                })"

section \<open>Executing a transition\<close>

text \<open>The parts of \<open>Execute\<close> return an early result as \<open>Some\<close> and \<open>None\<close> to go on.\<close>

type_synonym 'w part = "(TransitionSnapshot, Error) result option \<times> TransitionSnapshot \<times> 'w Run"

definition return_failure ::
  "'w Environment \<Rightarrow> TransitionSnapshot \<Rightarrow> Error \<Rightarrow> 'w Run \<Rightarrow> 'w part" where
  "return_failure env transition error s =
     (let (t, s) = Fail env transition error None no_evidence s in (Some (Inr t), t, s))"

definition return_recovery ::
  "'w Environment \<Rightarrow> TransitionSnapshot \<Rightarrow> Error \<Rightarrow> ApplicationId \<Rightarrow> BackendEvidence \<Rightarrow> 'w Run \<Rightarrow> 'w part option" where
  "return_recovery env transition error application evidence s =
     map_option (\<lambda>(r, s). (Some r, transition, s)) (Recover env transition error (Some application) evidence s)"

definition record_or_fail ::
  "'w Environment \<Rightarrow> TransitionSnapshot \<Rightarrow> TransitionPhase \<Rightarrow> 'w Run \<Rightarrow> 'w part" where
  "record_or_fail env transition phase s =
     (case Record env transition phase s of
        (Inl e, transition, s) \<Rightarrow> return_failure env transition e s
      | (Inr _, transition, s) \<Rightarrow> (None, transition, s))"

fun execute_stops ::
  "'w Environment \<Rightarrow> Deadline \<Rightarrow> ExecutionUnitId list \<Rightarrow> TransitionSnapshot \<Rightarrow> 'w Run \<Rightarrow> 'w part option" where
  "execute_stops env deadline [] transition s = Some (None, transition, s)"
| "execute_stops env deadline (a # as) transition s =
     (let (cancelled, s) = IsCancelled env (ts_id transition) s in
      if cancelled then
        Some (return_failure env transition (MakeError EC_cancelled ''transition was cancelled'' 0) s)
      else
        case FindUnit (en_model (run_engine s)) a of
          None \<Rightarrow> None
        | Some d \<Rightarrow>
            let (now, s) = in_world (env_now env) s;
                (stopped, s) = in_world (env_stop env a SR_mode_change (min deadline (now + ms (eu_stop_timeout d)))) s in
            case stopped of
              Inl e \<Rightarrow> return_recovery env transition e a no_evidence s
            | Inr ev \<Rightarrow>
                if be_state ev \<noteq> AS_stopped then
                  return_recovery env transition
                    (MakeError EC_backend_error ''application did not stop cleanly'' 0) a ev s
                else
                  execute_stops env deadline as transition (with_engine (set_running (us_erase a)) (lock env s)))"

definition start_state_reached :: "ExecutionUnitDefinition \<Rightarrow> BackendEvidence \<Rightarrow> bool" where
  "start_state_reached d ev =
     (if eu_readiness d \<noteq> RD_process_started then be_state ev = AS_ready
      else be_state ev = AS_starting \<or> be_state ev = AS_ready)"

definition not_reached :: Error where
  "not_reached = MakeError EC_backend_error ''application did not reach its required state'' 0"

text \<open>The attempts to start one unit: whether it started, the last error and the last evidence.\<close>

fun start_attempts ::
  "'w Environment \<Rightarrow> ExecutionUnitDefinition \<Rightarrow> ExecutionUnitId \<Rightarrow> Deadline \<Rightarrow> nat \<Rightarrow> Error \<Rightarrow> BackendEvidence \<Rightarrow> 'w Run
     \<Rightarrow> bool \<times> Error \<times> BackendEvidence \<times> 'w Run" where
  "start_attempts env d a deadline 0 err evidence s = (False, err, evidence, s)"
| "start_attempts env d a deadline (Suc left) err evidence s =
     (let (now, s) = in_world (env_now env) s in
      if deadline \<le> now then
        (False, MakeError EC_deadline_exceeded ''transition deadline expired during retry'' 0, evidence, s)
      else
        let (started, s) = in_world (env_start env a (min deadline (now + ms (eu_start_timeout d)))) s;
            (reached, err, evidence) =
              (case started of
                 Inr ev \<Rightarrow> if start_state_reached d ev then (True, err, ev) else (False, not_reached, ev)
               | Inl e \<Rightarrow> (False, e, evidence)) in
        if reached then (True, err, evidence, s)
        else if left = 0 then (False, err, evidence, s)
        else
          let (now, s) = in_world (env_now env) s;
              (cleaned, s) = in_world (env_stop env a SR_restart (min deadline (now + ms (eu_stop_timeout d)))) s in
          case cleaned of
            Inl e \<Rightarrow> (False, e, evidence, s)
          | Inr ev \<Rightarrow>
              if be_state ev \<noteq> AS_stopped then
                (False, MakeError EC_backend_error ''failed start attempt could not be cleaned up'' 0, ev, s)
              else
                let (now, s) = in_world (env_now env) s;
                    s = sleep_until env (min deadline (now + ms (retry_delay (eu_retry d)))) s in
                start_attempts env d a deadline left err evidence s)"

fun execute_starts ::
  "'w Environment \<Rightarrow> Deadline \<Rightarrow> ExecutionUnitId list \<Rightarrow> TransitionSnapshot \<Rightarrow> 'w Run \<Rightarrow> 'w part option" where
  "execute_starts env deadline [] transition s = Some (None, transition, s)"
| "execute_starts env deadline (a # as) transition s =
     (let (cancelled, s) = IsCancelled env (ts_id transition) s in
      if cancelled then
        Some (return_failure env transition (MakeError EC_cancelled ''transition was cancelled'' 0) s)
      else
        case FindUnit (en_model (run_engine s)) a of
          None \<Rightarrow> None
        | Some d \<Rightarrow>
            (case start_attempts env d a deadline (unat (max_attempts (eu_retry d))) not_reached no_evidence s of
               (False, err, evidence, s) \<Rightarrow> return_recovery env transition err a evidence s
             | (True, err, evidence, s) \<Rightarrow>
                 execute_starts env deadline as transition (with_engine (set_running (us_insert a)) (lock env s))))"

text \<open>The records before the starts; \<open>None\<close> is a unit the model does not define.\<close>

definition record_starting ::
  "'w Environment \<Rightarrow> ExecutionUnitId list \<Rightarrow> TransitionSnapshot \<Rightarrow> 'w Run \<Rightarrow> 'w part option" where
  "record_starting env start transition s =
     (if start = [] then Some (None, transition, s)
      else
        case record_or_fail env transition TP_starting s of
          (Some r, t, s) \<Rightarrow> Some (Some r, t, s)
        | (None, transition, s) \<Rightarrow>
            let readiness = map (\<lambda>a. map_option eu_readiness (FindUnit (en_model (run_engine s)) a)) start in
            if None \<in> set (takeWhile (\<lambda>r. r = None \<or> r = Some RD_process_started) readiness) then None
            else if list_ex (\<lambda>r. r \<noteq> Some RD_process_started) readiness then
              Some (record_or_fail env transition TP_awaiting_readiness s)
            else Some (None, transition, s))"

definition commit_mode ::
  "'w Environment \<Rightarrow> DomainId \<Rightarrow> ModeId \<Rightarrow> TransitionSnapshot \<Rightarrow> 'w Run \<Rightarrow> 'w part" where
  "commit_mode env domain target transition s =
     (case record_or_fail env transition TP_committing s of
        (Some r, t, s) \<Rightarrow> (Some r, t, s)
      | (None, transition, s) \<Rightarrow>
          record_or_fail env transition TP_succeeded (with_engine (set_mode domain target) (lock env s)))"

text \<open>What follows the lease: the second plan, the stops, the starts and the commit.\<close>

definition check_replan ::
  "'w Environment \<Rightarrow> TransitionPlan \<Rightarrow> TransitionSnapshot \<Rightarrow> 'w Run \<Rightarrow> 'w part option" where
  "check_replan env plan transition s =
     (let s = lock env s in
      case Plan (en_model (run_engine s)) (en_configuration (run_engine s)) (ts_domain transition) (ts_target_mode transition) of
        None \<Rightarrow> None
      | Some (Inl e) \<Rightarrow> Some (return_failure env transition e s)
      | Some (Inr replanned) \<Rightarrow>
          if tp_start replanned \<noteq> tp_start plan \<or> tp_stop replanned \<noteq> tp_stop plan then
            Some (return_failure env transition
                    (MakeError EC_superseded ''system configuration changed while transition was waiting'' 0) s)
          else Some (None, transition, s))"

definition and_next :: "'w part option \<Rightarrow> (TransitionSnapshot \<Rightarrow> 'w Run \<Rightarrow> 'w part option) \<Rightarrow> 'w part option" where
  "and_next p f =
     (case p of None \<Rightarrow> None | Some (Some r, t, s) \<Rightarrow> Some (Some r, t, s) | Some (None, t, s) \<Rightarrow> f t s)"

definition execute_leased ::
  "'w Environment \<Rightarrow> TransitionPlan \<Rightarrow> Deadline \<Rightarrow> TransitionSnapshot \<Rightarrow> 'w Run \<Rightarrow> 'w part option" where
  "execute_leased env plan deadline transition s =
     and_next (check_replan env plan transition s) (\<lambda>t s.
     and_next (if tp_stop plan = [] then Some (None, t, s) else Some (record_or_fail env t TP_stopping s)) (\<lambda>t s.
     and_next (execute_stops env deadline (tp_stop plan) t s) (\<lambda>t s.
     and_next (record_starting env (tp_start plan) t s) (\<lambda>t s.
     and_next (execute_starts env deadline (tp_start plan) t s) (\<lambda>t s.
     Some (commit_mode env (ts_domain transition) (ts_target_mode transition) t s))))))"

definition plan_resources :: "TransitionPlan \<Rightarrow> TransitionResources" where
  "plan_resources plan =
     \<lparr>tr_domains = tp_guarded_domains plan, tr_units = tp_stop plan @ tp_start plan,
      tr_exclusive_resources = tp_affected_resources plan\<rparr>"

definition acquire_waits :: "TransitionId \<Rightarrow> TransitionResources \<Rightarrow> SchedulerState \<Rightarrow> bool" where
  "acquire_waits owner r s =
     (acquire_arguments owner r = None \<and> um_find (ss_leases s) owner = None \<and> \<not> available r s)"

definition engine_acquire ::
  "'w Environment \<Rightarrow> TransitionId \<Rightarrow> TransitionResources \<Rightarrow> 'w Run \<Rightarrow> (Lease, Error) result \<times> 'w Run" where
  "engine_acquire env owner r s =
     (let (e, w) = (if acquire_waits owner r (en_scheduler (run_engine s)) then env_wait env (run_engine s) (run_world s)
                    else (run_engine s, run_world s));
          (lease, sch) = Acquire (\<lambda>_. en_scheduler e) owner r (en_scheduler (run_engine s)) in
      (lease, \<lparr>run_engine = e\<lparr>en_scheduler := sch\<rparr>, run_world = w\<rparr>))"

definition Execute ::
  "'w Environment \<Rightarrow> AcceptedTransition \<Rightarrow> 'w Run \<Rightarrow> ((TransitionSnapshot, Error) result \<times> 'w Run) option" where
  "Execute env accepted s =
     (case GetTransition env (at_id accepted) s of
        (Inl e, s) \<Rightarrow> Some (Inl e, s)
      | (Inr transition, s) \<Rightarrow>
          (case engine_acquire env (ts_id transition) (plan_resources (at_plan accepted)) s of
             (Inl e, s) \<Rightarrow> (let (t, s) = Fail env transition e None no_evidence s in Some (Inr t, s))
           | (Inr lease, s) \<Rightarrow>
               do {
                 (r, t, s) \<leftarrow> execute_leased env (at_plan accepted) (at_deadline accepted) transition s;
                 Some (case r of Some r \<Rightarrow> r | None \<Rightarrow> Inr t,
                       with_engine (\<lambda>e. e\<lparr>en_scheduler := snd (Lease_Reset lease (en_scheduler e))\<rparr>) s)
               }))"

definition RequestMode ::
  "'w Environment \<Rightarrow> DomainId \<Rightarrow> ModeId \<Rightarrow> Deadline \<Rightarrow> 'w Run
     \<Rightarrow> ((TransitionSnapshot, Error) result \<times> 'w Run) option" where
  "RequestMode env domain target deadline s =
     do {
       (accepted, s) \<leftarrow> AcceptMode env domain target deadline s;
       (case accepted of
          Inl e \<Rightarrow> Some (Inl e, s)
        | Inr accepted \<Rightarrow> Execute env accepted s)
     }"

section \<open>Creating an engine from its journal\<close>

definition is_terminal :: "TransitionPhase \<Rightarrow> bool" where
  "is_terminal phase =
     (phase \<in> {TP_succeeded, TP_rejected, TP_failed, TP_cancelled, TP_superseded, TP_deadline_exceeded,
               TP_recovery_failed})"

definition valid_progress :: "TransitionPhase \<Rightarrow> TransitionPhase \<Rightarrow> bool" where
  "valid_progress previous next =
     (if previous = next then True
      else if previous = TP_recovering then next = TP_failed \<or> next = TP_recovery_failed
      else \<not> is_terminal previous \<and> phase_value previous < phase_value next)"

record ReplayState =
  rs_transitions :: "(TransitionId \<times> TransitionSnapshot) list"
  rs_plans :: "(TransitionId \<times> TransitionPlan) list"
  rs_next :: u64
  rs_configuration :: SystemConfiguration

definition replay_identity ::
  "ValidatedModel \<Rightarrow> ReplayState \<Rightarrow> JournalEvent \<Rightarrow> Error option" where
  "replay_identity vm st event =
     (let t = je_transition event in
      if je_generation event \<noteq> em_generation (vm_model vm) then
        Some (MakeError EC_configuration_error ''journal model generation does not match active model''
                (je_generation event))
      else if \<not> id_valid (ts_id t) \<or> \<not> id_valid (ts_domain t) \<or> \<not> id_valid (ts_source_mode t) \<or>
              \<not> id_valid (ts_target_mode t) \<or> FindMode vm (ts_domain t) (ts_source_mode t) = None \<or>
              FindMode vm (ts_domain t) (ts_target_mode t) = None then
        Some (MakeError EC_persistence_error ''journal transition identity is not valid for the active model'' (ts_id t))
      else
        case um_find (rs_transitions st) (ts_id t) of
          None \<Rightarrow> None
        | Some previous \<Rightarrow>
            if ts_domain previous \<noteq> ts_domain t \<or> ts_source_mode previous \<noteq> ts_source_mode t \<or>
               ts_target_mode previous \<noteq> ts_target_mode t \<or> \<not> valid_progress (ts_phase previous) (ts_phase t) then
              Some (MakeError EC_persistence_error ''journal transition history is inconsistent'' (ts_id t))
            else None)"

definition replay_plan ::
  "ValidatedModel \<Rightarrow> JournalEvent \<Rightarrow> ReplayState \<Rightarrow> (ReplayState, Error) result" where
  "replay_plan vm event st =
     (let t = je_transition event in
      case je_plan event of
        None \<Rightarrow> Inr st
      | Some plan \<Rightarrow>
          if tp_generation plan \<noteq> je_generation event \<or> tp_domain plan \<noteq> ts_domain t \<or>
             tp_source_mode plan \<noteq> ts_source_mode t \<or> tp_target_mode plan \<noteq> ts_target_mode t then
            Inl (MakeError EC_persistence_error ''journal plan does not match its transition'' (ts_id t))
          else if list_ex (\<lambda>a. FindUnit vm a = None) (tp_retain plan @ tp_stop plan @ tp_start plan) \<or>
                  list_ex (\<lambda>d. FindDomain vm d = None) (tp_guarded_domains plan) then
            Inl (MakeError EC_persistence_error ''journal plan references an unknown model object'' (ts_id t))
          else Inr (st\<lparr>rs_plans := um_set (ts_id t) plan (rs_plans st)\<rparr>))"

definition config_mode :: "DomainId \<Rightarrow> ModeId \<Rightarrow> ReplayState \<Rightarrow> ReplayState" where
  "config_mode d m st = st\<lparr>rs_configuration := (rs_configuration st)
     \<lparr>sc_committed_modes := um_set d m (sc_committed_modes (rs_configuration st))\<rparr>\<rparr>"

definition config_units :: "ExecutionUnitId list \<Rightarrow> ExecutionUnitId list \<Rightarrow> ReplayState \<Rightarrow> ReplayState" where
  "config_units stop start st = st\<lparr>rs_configuration := (rs_configuration st)
     \<lparr>sc_running_units := fold us_insert start (fold us_erase stop (sc_running_units (rs_configuration st)))\<rparr>\<rparr>"

definition replay_failure ::
  "ValidatedModel \<Rightarrow> JournalEvent \<Rightarrow> ReplayState \<Rightarrow> (ReplayState, Error) result" where
  "replay_failure vm event st =
     (let t = je_transition event in
      case ts_failure t of
        None \<Rightarrow> Inr st
      | Some failure \<Rightarrow>
          if (case tf_recovered_mode failure of None \<Rightarrow> False | Some m \<Rightarrow> FindMode vm (ts_domain t) m = None) then
            Inl (MakeError EC_persistence_error ''journal recovery mode is not valid for the domain'' (ts_id t))
          else if list_ex (\<lambda>a. FindUnit vm a = None) (tf_recovery_stopped failure) then
            Inl (MakeError EC_persistence_error ''journal recovery stop references an unknown application'' (ts_id t))
          else if list_ex (\<lambda>a. FindUnit vm a = None) (tf_recovery_started failure) then
            Inl (MakeError EC_persistence_error ''journal recovery start references an unknown application'' (ts_id t))
          else
            Inr (config_units (tf_recovery_stopped failure) (tf_recovery_started failure)
                   (case tf_recovered_mode failure of None \<Rightarrow> st | Some m \<Rightarrow> config_mode (ts_domain t) m st)))"

definition replay_success :: "JournalEvent \<Rightarrow> ReplayState \<Rightarrow> (ReplayState, Error) result" where
  "replay_success event st =
     (let t = je_transition event in
      if ts_phase t \<noteq> TP_succeeded then Inr st
      else
        case um_find (rs_plans st) (ts_id t) of
          None \<Rightarrow> Inl (MakeError EC_persistence_error ''successful transition has no persisted plan'' (ts_id t))
        | Some plan \<Rightarrow>
            Inr (config_units (tp_stop plan) (tp_start plan) (config_mode (tp_domain plan) (tp_target_mode plan) st)))"

definition replay_event ::
  "ValidatedModel \<Rightarrow> JournalEvent \<Rightarrow> ReplayState \<Rightarrow> (ReplayState, Error) result" where
  "replay_event vm event st =
     (case replay_identity vm st event of
        Some e \<Rightarrow> Inl e
      | None \<Rightarrow>
          let t = je_transition event;
              st = st\<lparr>rs_transitions := um_set (ts_id t) t (rs_transitions st),
                      rs_next := max (rs_next st) (ts_id t + 1)\<rparr> in
          and_then (and_then (replay_plan vm event st) (replay_failure vm event)) (replay_success event))"

fun replay_events ::
  "ValidatedModel \<Rightarrow> JournalEvent list \<Rightarrow> ReplayState \<Rightarrow> (ReplayState, Error) result" where
  "replay_events vm [] st = Inr st"
| "replay_events vm (event # events) st = and_then (replay_event vm event st) (replay_events vm events)"

definition replay_start :: "SystemConfiguration \<Rightarrow> ReplayState" where
  "replay_start initial = \<lparr>rs_transitions = [], rs_plans = [], rs_next = 1, rs_configuration = initial\<rparr>"

fun observe_units ::
  "'w Environment \<Rightarrow> ExecutionUnitDefinition list \<Rightarrow> ExecutionUnitId list \<Rightarrow> 'w
     \<Rightarrow> (ExecutionUnitId list, Error) result \<times> 'w" where
  "observe_units env [] observed w = (Inr observed, w)"
| "observe_units env (u # us) observed w =
     (case env_inspect env (eu_id u) w of
        (Inl e, w) \<Rightarrow> (Inl e, w)
      | (Inr ev, w) \<Rightarrow>
          observe_units env us (if be_state ev = AS_ready then us_insert (eu_id u) observed else observed) w)"

fun restore_units ::
  "'w Environment \<Rightarrow> ExecutionUnitId list \<Rightarrow> ExecutionUnitId list \<Rightarrow> ExecutionUnitDefinition list \<Rightarrow> 'w
     \<Rightarrow> Error option \<times> 'w" where
  "restore_units env expected observed [] w = (None, w)"
| "restore_units env expected observed (u # us) w =
     (if us_contains expected (eu_id u) = us_contains observed (eu_id u) then restore_units env expected observed us w
      else if us_contains expected (eu_id u) then
        let (now, w) = env_now env w; (started, w) = env_start env (eu_id u) (now + ms (eu_start_timeout u)) w in
        if (case started of Inl _ \<Rightarrow> True | Inr ev \<Rightarrow> be_state ev \<noteq> AS_ready) then
          (Some (MakeError EC_backend_unavailable ''cannot restore required application during recovery'' (eu_id u)), w)
        else restore_units env expected observed us w
      else
        let (now, w) = env_now env w; (stopped, w) = env_stop env (eu_id u) SR_recovery (now + ms (eu_stop_timeout u)) w in
        if (case stopped of Inl _ \<Rightarrow> True | Inr ev \<Rightarrow> be_state ev \<noteq> AS_stopped) then
          (Some (MakeError EC_backend_unavailable ''cannot stop unexpected application during recovery'' (eu_id u)), w)
        else restore_units env expected observed us w)"

fun missing_unit :: "ExecutionUnitId list \<Rightarrow> ExecutionUnitId list \<Rightarrow> ExecutionUnitId option" where
  "missing_unit observed [] = None"
| "missing_unit observed (a # as) = (if us_contains observed a then missing_unit observed as else Some a)"

text \<open>No other thread holds the engine while it is created.\<close>

definition unshared :: "'w Environment \<Rightarrow> 'w Environment" where
  "unshared env = env\<lparr>env_interfere := (\<lambda>e w. (e, w))\<rparr>"

fun finalize_interrupted ::
  "'w Environment \<Rightarrow> TransitionId list \<Rightarrow> 'w Run \<Rightarrow> (Error option \<times> 'w Run) option" where
  "finalize_interrupted env [] s = Some (None, s)"
| "finalize_interrupted env (i # is) s =
     (case um_find (en_transitions (run_engine s)) i of
        None \<Rightarrow> None
      | Some t \<Rightarrow>
          let (failed, s) = Fail (unshared env) t (MakeError EC_backend_unavailable
                ''transition was interrupted by execution coordinator restart'' 0) None no_evidence s in
          if ts_failure failed = None then
            Some (Some (MakeError EC_persistence_error ''interrupted transition could not be finalized'' i), s)
          else finalize_interrupted env is s)"

definition engine_of :: "ValidatedModel \<Rightarrow> ReplayState \<Rightarrow> Engine" where
  "engine_of vm st =
     \<lparr>en_model = vm, en_scheduler = scheduler_start, en_configuration = rs_configuration st,
      en_transitions = rs_transitions st, en_plans = rs_plans st,
      en_cancellation = fold (\<lambda>i. um_set i False) (map fst (rs_transitions st)) [],
      en_next_transition = rs_next st\<rparr>"

definition interrupted :: "ReplayState \<Rightarrow> TransitionId list" where
  "interrupted st = map fst (filter (\<lambda>(i, t). \<not> is_terminal (ts_phase t)) (rs_transitions st))"

text \<open>The units the backend reports against those the configuration expects: the error that
  refuses to continue, or the configuration to start with.\<close>

definition align_units ::
  "'w Environment \<Rightarrow> ValidatedModel \<Rightarrow> bool \<Rightarrow> ReplayState \<Rightarrow> ExecutionUnitId list \<Rightarrow> 'w
     \<Rightarrow> (ReplayState, Error) result \<times> 'w" where
  "align_units env vm recovering st observed w =
     (if \<not> recovering then
        (case missing_unit observed (sc_running_units (rs_configuration st)) of
           Some a \<Rightarrow> (Inl (MakeError EC_backend_unavailable ''initially required application is not ready'' a), w)
         | None \<Rightarrow> (Inr st, w))
      else if interrupted st = [] then
        (case restore_units env (sc_running_units (rs_configuration st)) observed (em_units (vm_model vm)) w of
           (Some e, w) \<Rightarrow> (Inl e, w)
         | (None, w) \<Rightarrow> (Inr st, w))
      else (Inr (st\<lparr>rs_configuration := (rs_configuration st)\<lparr>sc_running_units := observed\<rparr>\<rparr>), w))"

definition Create ::
  "'w Environment \<Rightarrow> ValidatedModel \<Rightarrow> 'w \<Rightarrow> ((Engine, Error) result \<times> 'w) option" where
  "Create env vm w =
     (case InitialConfiguration vm of
        Inl e \<Rightarrow> Some (Inl e, w)
      | Inr initial \<Rightarrow>
          (case env_replay env w of
             (Inl e, w) \<Rightarrow>
               Some (Inl (MakeError EC_persistence_error ''transition journal cannot be replayed''
                            (ucast (error_code_value (err_code e)))), w)
           | (Inr events, w) \<Rightarrow>
               (case replay_events vm events (replay_start initial) of
                  Inl e \<Rightarrow> Some (Inl e, w)
                | Inr st \<Rightarrow>
                    (case observe_units env (em_units (vm_model vm)) [] w of
                       (Inl e, w) \<Rightarrow> Some (Inl e, w)
                     | (Inr observed, w) \<Rightarrow>
                         (case align_units env vm (events \<noteq> []) st observed w of
                            (Inl e, w) \<Rightarrow> Some (Inl e, w)
                          | (Inr st, w) \<Rightarrow>
                              do {
                                (ended, s) \<leftarrow> finalize_interrupted env (interrupted st)
                                               \<lparr>run_engine = engine_of vm st, run_world = w\<rparr>;
                                Some (case ended of Some e \<Rightarrow> Inl e | None \<Rightarrow> Inr (run_engine s), run_world s)
                              })))))"

section \<open>An environment\<close>

text \<open>The process backend of \<^verbatim>\<open>exec/tests/engine_test.cpp\<close> with the memory journal: units have states,
  some starts and stops fail, the clock advances by one at each reading and the journal holds a
  limited number of events. No other thread uses the engine.\<close>

record FakeWorld =
  fw_clock :: int
  fw_states :: "(ExecutionUnitId \<times> ApplicationState) list"
  fw_fail_start :: "ExecutionUnitId list"
  fw_fail_stop :: "ExecutionUnitId list"
  fw_start_state :: ApplicationState
  fw_capacity :: nat
  fw_events :: "JournalEvent list"

definition fake_evidence :: "ApplicationState \<Rightarrow> BackendEvidence" where
  "fake_evidence st = no_evidence\<lparr>be_state := st\<rparr>"

definition fake_set :: "ExecutionUnitId \<Rightarrow> ApplicationState \<Rightarrow> FakeWorld \<Rightarrow> (BackendEvidence, Error) result \<times> FakeWorld" where
  "fake_set a st w = (Inr (fake_evidence st), w\<lparr>fw_states := um_set a st (fw_states w)\<rparr>)"

definition fake_env :: "FakeWorld Environment" where
  "fake_env =
     \<lparr>env_now = (\<lambda>w. (fw_clock w, w\<lparr>fw_clock := fw_clock w + 1\<rparr>)),
      env_sleep_until = (\<lambda>t w. w\<lparr>fw_clock := max t (fw_clock w)\<rparr>),
      env_inspect = (\<lambda>a w. (Inr (fake_evidence (case um_find (fw_states w) a of None \<Rightarrow> AS_unknown | Some st \<Rightarrow> st)), w)),
      env_start = (\<lambda>a _ w. fake_set a (if a \<in> set (fw_fail_start w) then AS_failed else fw_start_state w) w),
      env_stop = (\<lambda>a _ _ w. fake_set a (if a \<in> set (fw_fail_stop w) then AS_failed else AS_stopped) w),
      env_request_system_recovery = (\<lambda>_ w. (Inr (), w)),
      env_append = (\<lambda>ev w. let (r, events) = MemoryJournal_Append (length (fw_events w) < fw_capacity w) ev (fw_events w)
                           in (r, w\<lparr>fw_events := events\<rparr>)),
      env_replay = (\<lambda>w. (MemoryJournal_Replay (fw_events w), w)),
      env_interfere = (\<lambda>e w. (e, w)),
      env_wait = (\<lambda>e w. (e, w))\<rparr>"

definition fake_world :: FakeWorld where
  "fake_world = \<lparr>fw_clock = 1, fw_states = [(1, AS_ready), (2, AS_stopped)], fw_fail_start = [], fw_fail_stop = [],
     fw_start_state = AS_ready, fw_capacity = 100, fw_events = []\<rparr>"

text \<open>Creates an engine on a world and goes on with it.\<close>

definition fake_session :: "ExecutionModel \<Rightarrow> FakeWorld \<Rightarrow> (FakeWorld Run \<Rightarrow> 'a option) \<Rightarrow> 'a option" where
  "fake_session model w f =
     (case Create fake_env (BuildIndex model) w of
        Some (Inr e, w) \<Rightarrow> f \<lparr>run_engine = e, run_world = w\<rparr>
      | _ \<Rightarrow> None)"

section \<open>Interfaces\<close>

text \<open>What the engine relies on of its environment. \<open>sole_user\<close>: no other thread acts on the engine.
  \<open>engine_journal\<close>: an accepted event is appended, a refused one is not, and nothing else
  touches the journal.\<close>

locale sole_user =
  fixes env :: "'w Environment"
  assumes no_interference: "env_interfere env e w = (e, w)"
    and no_wait: "env_wait env e w = (e, w)"
begin

lemma lock_id [simp]: "lock env s = s"
  by (simp add: lock_def no_interference)

end

locale engine_journal = sole_user env for env :: "'w Environment" +
  fixes events :: "'w \<Rightarrow> JournalEvent list"
  assumes events_now: "events (snd (env_now env w)) = events w"
    and events_sleep: "events (env_sleep_until env t w) = events w"
    and events_start: "events (snd (env_start env a d w)) = events w"
    and events_stop: "events (snd (env_stop env a r d w)) = events w"
    and events_recovery: "events (snd (env_request_system_recovery env d w)) = events w"
    and events_append: "events (snd (env_append env ev w)) =
      (if has_value (fst (env_append env ev w)) then events w @ [ev] else events w)"

interpretation fake: engine_journal fake_env fw_events
  by unfold_locales
    (simp_all add: fake_env_def fake_set_def MemoryJournal_Append_def has_value_def)

section \<open>The journal can be replayed\<close>

definition same_identity :: "TransitionSnapshot \<Rightarrow> TransitionSnapshot \<Rightarrow> bool" where
  "same_identity p t \<longleftrightarrow> ts_id p = ts_id t \<and> ts_domain p = ts_domain t \<and>
     ts_source_mode p = ts_source_mode t \<and> ts_target_mode p = ts_target_mode t"

definition identity_ok :: "ValidatedModel \<Rightarrow> TransitionSnapshot \<Rightarrow> bool" where
  "identity_ok vm t \<longleftrightarrow>
     id_valid (ts_id t) \<and> id_valid (ts_domain t) \<and> id_valid (ts_source_mode t) \<and> id_valid (ts_target_mode t) \<and>
     FindMode vm (ts_domain t) (ts_source_mode t) \<noteq> None \<and> FindMode vm (ts_domain t) (ts_target_mode t) \<noteq> None"

definition plan_ok :: "ValidatedModel \<Rightarrow> TransitionSnapshot \<Rightarrow> TransitionPlan \<Rightarrow> bool" where
  "plan_ok vm t plan \<longleftrightarrow>
     tp_generation plan = em_generation (vm_model vm) \<and> tp_domain plan = ts_domain t \<and>
     tp_source_mode plan = ts_source_mode t \<and> tp_target_mode plan = ts_target_mode t \<and>
     set (tp_retain plan @ tp_stop plan @ tp_start plan) \<subseteq> known_units vm \<and>
     (\<forall>d \<in> set (tp_guarded_domains plan). FindDomain vm d \<noteq> None)"

definition failure_ok :: "ValidatedModel \<Rightarrow> DomainId \<Rightarrow> TransitionFailure \<Rightarrow> bool" where
  "failure_ok vm d f \<longleftrightarrow>
     (\<forall>m. tf_recovered_mode f = Some m \<longrightarrow> FindMode vm d m \<noteq> None) \<and>
     set (tf_recovery_stopped f @ tf_recovery_started f) \<subseteq> known_units vm"

text \<open>The journal replays to \<open>st\<close>, the engine knows every transition in it with its last
  recorded state, and the transitions are numbered below the next one.\<close>

definition journal_inv :: "SystemConfiguration \<Rightarrow> JournalEvent list \<Rightarrow> Engine \<Rightarrow> ReplayState \<Rightarrow> bool" where
  "journal_inv initial evs e st \<longleftrightarrow>
     replay_events (en_model e) evs (replay_start initial) = Inr st \<and>
     (\<forall>i t. um_find (rs_transitions st) i = Some t \<longrightarrow> um_find (en_transitions e) i = Some t) \<and>
     (\<forall>i t. um_find (en_transitions e) i = Some t \<longrightarrow> i < en_next_transition e)"

text \<open>A transition the engine may record with the given phase.\<close>

definition recordable :: "Engine \<Rightarrow> TransitionSnapshot \<Rightarrow> TransitionPhase \<Rightarrow> bool" where
  "recordable e t ph \<longleftrightarrow>
     identity_ok (en_model e) t \<and>
     (\<exists>p. um_find (en_transitions e) (ts_id t) = Some p \<and> same_identity p t \<and> valid_progress (ts_phase p) ph) \<and>
     (case um_find (en_plans e) (ts_id t) of None \<Rightarrow> ph \<noteq> TP_succeeded | Some plan \<Rightarrow> plan_ok (en_model e) t plan) \<and>
     (case ts_failure t of None \<Rightarrow> True | Some f \<Rightarrow> failure_ok (en_model e) (ts_domain t) f)"

text \<open>What one event adds to the configuration.\<close>

definition event_effect :: "JournalEvent \<Rightarrow> SystemConfiguration \<Rightarrow> SystemConfiguration" where
  "event_effect ev c =
     (let t = je_transition ev;
          c = (case ts_failure t of None \<Rightarrow> c
               | Some f \<Rightarrow> c\<lparr>sc_committed_modes := (case tf_recovered_mode f of None \<Rightarrow> sc_committed_modes c
                                | Some m \<Rightarrow> um_set (ts_domain t) m (sc_committed_modes c)),
                            sc_running_units := fold us_insert (tf_recovery_started f)
                                (fold us_erase (tf_recovery_stopped f) (sc_running_units c))\<rparr>) in
      case je_plan ev of None \<Rightarrow> c
      | Some plan \<Rightarrow>
          if ts_phase t \<noteq> TP_succeeded then c
          else c\<lparr>sc_committed_modes := um_set (tp_domain plan) (tp_target_mode plan) (sc_committed_modes c),
                 sc_running_units := fold us_insert (tp_start plan) (fold us_erase (tp_stop plan) (sc_running_units c))\<rparr>)"

lemma and_then_simps [simp]: "and_then (Inr v) f = f v" "and_then (Inl e) f = Inl e"
  by (simp_all add: and_then_def)

lemma replay_events_snoc:
  "replay_events vm (evs @ [ev]) st = and_then (replay_events vm evs st) (replay_event vm ev)"
proof (induction evs arbitrary: st)
  case Nil
  then show ?case by (simp add: and_then_def split: sum.splits)
next
  case (Cons e evs)
  then show ?case by (cases "replay_event vm e st") simp_all
qed

lemma not_known: "FindUnit vm a = None \<longleftrightarrow> a \<notin> known_units vm"
  by (simp add: known_units_def)

lemma replay_identity_accepts:
  assumes "identity_ok vm (je_transition ev)" "je_generation ev = em_generation (vm_model vm)"
    and "\<And>p. um_find (rs_transitions st) (ts_id (je_transition ev)) = Some p \<Longrightarrow>
      same_identity p (je_transition ev) \<and> valid_progress (ts_phase p) (ts_phase (je_transition ev))"
  shows "replay_identity vm st ev = None"
proof (cases "um_find (rs_transitions st) (ts_id (je_transition ev))")
  case None
  with assms(1,2) show ?thesis by (simp add: replay_identity_def Let_def identity_ok_def)
next
  case (Some p)
  with assms(1,2) assms(3) [OF Some] show ?thesis
    by (simp add: replay_identity_def Let_def identity_ok_def same_identity_def)
qed

lemma replay_plan_accepts:
  assumes "je_generation ev = em_generation (vm_model vm)"
    and "case je_plan ev of None \<Rightarrow> True | Some plan \<Rightarrow> plan_ok vm (je_transition ev) plan"
  shows "replay_plan vm ev st = Inr (case je_plan ev of None \<Rightarrow> st
    | Some plan \<Rightarrow> st\<lparr>rs_plans := um_set (ts_id (je_transition ev)) plan (rs_plans st)\<rparr>)"
proof (cases "je_plan ev")
  case (Some plan)
  then have "plan_ok vm (je_transition ev) plan" using assms(2) by simp
  then show ?thesis
    using Some assms(1) unfolding plan_ok_def
    by (simp add: replay_plan_def Let_def list_ex_iff not_known subset_eq)
qed (simp add: replay_plan_def)

definition failure_effect :: "JournalEvent \<Rightarrow> ReplayState \<Rightarrow> ReplayState" where
  "failure_effect ev st =
     (case ts_failure (je_transition ev) of None \<Rightarrow> st
      | Some f \<Rightarrow> config_units (tf_recovery_stopped f) (tf_recovery_started f)
                   (case tf_recovered_mode f of None \<Rightarrow> st | Some m \<Rightarrow> config_mode (ts_domain (je_transition ev)) m st))"

lemma replay_failure_accepts:
  assumes "case ts_failure (je_transition ev) of None \<Rightarrow> True | Some f \<Rightarrow> failure_ok vm (ts_domain (je_transition ev)) f"
  shows "replay_failure vm ev st = Inr (failure_effect ev st)"
proof (cases "ts_failure (je_transition ev)")
  case (Some f)
  then have f: "failure_ok vm (ts_domain (je_transition ev)) f" using assms by simp
  have 1: "(case tf_recovered_mode f of None \<Rightarrow> False | Some m \<Rightarrow> FindMode vm (ts_domain (je_transition ev)) m = None) = False"
    using f by (cases "tf_recovered_mode f") (simp_all add: failure_ok_def)
  have 2: "list_ex (\<lambda>a. FindUnit vm a = None) (tf_recovery_stopped f) = False"
    "list_ex (\<lambda>a. FindUnit vm a = None) (tf_recovery_started f) = False"
    using f by (auto simp: failure_ok_def list_ex_iff not_known)
  show ?thesis
    unfolding replay_failure_def Let_def Some failure_effect_def option.case 1 2 by simp
qed (simp add: replay_failure_def failure_effect_def)

lemma failure_effect_fields:
  "rs_transitions (failure_effect ev st) = rs_transitions st" "rs_next (failure_effect ev st) = rs_next st"
  "rs_plans (failure_effect ev st) = rs_plans st"
  by (simp_all add: failure_effect_def config_units_def config_mode_def split: option.split)

lemma failure_effect_configuration:
  "rs_configuration (failure_effect ev st) = event_effect (ev\<lparr>je_plan := None\<rparr>) (rs_configuration st)"
  by (simp add: failure_effect_def event_effect_def Let_def config_units_def config_mode_def split: option.split)

lemma event_effect_plan:
  "je_plan ev = Some plan \<Longrightarrow> ts_phase (je_transition ev) = TP_succeeded \<Longrightarrow> event_effect ev c =
     (let c = event_effect (ev\<lparr>je_plan := None\<rparr>) c in
      c\<lparr>sc_committed_modes := um_set (tp_domain plan) (tp_target_mode plan) (sc_committed_modes c),
        sc_running_units := fold us_insert (tp_start plan) (fold us_erase (tp_stop plan) (sc_running_units c))\<rparr>)"
  by (simp add: event_effect_def Let_def)

lemma event_effect_no_plan:
  "je_plan ev = None \<or> ts_phase (je_transition ev) \<noteq> TP_succeeded \<Longrightarrow>
     event_effect ev c = event_effect (ev\<lparr>je_plan := None\<rparr>) c"
  by (auto simp: event_effect_def Let_def split: option.split)

lemma replay_event_accepts:
  assumes ok: "identity_ok vm (je_transition ev)" "je_generation ev = em_generation (vm_model vm)"
    and prev: "\<And>p. um_find (rs_transitions st) (ts_id (je_transition ev)) = Some p \<Longrightarrow>
      same_identity p (je_transition ev) \<and> valid_progress (ts_phase p) (ts_phase (je_transition ev))"
    and plan: "case je_plan ev of None \<Rightarrow> ts_phase (je_transition ev) \<noteq> TP_succeeded
      | Some plan \<Rightarrow> plan_ok vm (je_transition ev) plan"
    and fail: "case ts_failure (je_transition ev) of None \<Rightarrow> True
      | Some f \<Rightarrow> failure_ok vm (ts_domain (je_transition ev)) f"
  obtains st' where "replay_event vm ev st = Inr st'"
    and "rs_transitions st' = um_set (ts_id (je_transition ev)) (je_transition ev) (rs_transitions st)"
    and "rs_next st' = max (rs_next st) (ts_id (je_transition ev) + 1)"
    and "rs_configuration st' = event_effect ev (rs_configuration st)"
proof -
  let ?t = "je_transition ev"
  let ?s0 = "st\<lparr>rs_transitions := um_set (ts_id ?t) ?t (rs_transitions st), rs_next := max (rs_next st) (ts_id ?t + 1)\<rparr>"
  define s1 where "s1 = (case je_plan ev of None \<Rightarrow> ?s0 | Some plan \<Rightarrow> ?s0\<lparr>rs_plans := um_set (ts_id ?t) plan (rs_plans ?s0)\<rparr>)"
  have fields: "rs_transitions s1 = rs_transitions ?s0" "rs_next s1 = rs_next ?s0" "rs_configuration s1 = rs_configuration st"
    "\<And>plan. je_plan ev = Some plan \<Longrightarrow> um_find (rs_plans s1) (ts_id ?t) = Some plan"
    by (simp_all add: s1_def split: option.split)
  have "case je_plan ev of None \<Rightarrow> True | Some plan \<Rightarrow> plan_ok vm ?t plan"
    using plan by (simp split: option.splits)
  then have "replay_plan vm ev ?s0 = Inr s1"
    unfolding s1_def by (rule replay_plan_accepts [OF ok(2)])
  moreover have "replay_identity vm st ev = None"
    using ok prev by (rule replay_identity_accepts)
  ultimately have run: "replay_event vm ev st = replay_success ev (failure_effect ev s1)"
    by (simp add: replay_event_def Let_def replay_failure_accepts [OF fail])
  show ?thesis
  proof (cases "je_plan ev = None \<or> ts_phase ?t \<noteq> TP_succeeded")
    case True
    then have "ts_phase ?t \<noteq> TP_succeeded" using plan by auto
    then show ?thesis
      using run True by (intro that [of "failure_effect ev s1"])
        (simp_all add: replay_success_def Let_def failure_effect_fields fields failure_effect_configuration event_effect_no_plan [OF True])
  next
    case False
    then obtain p where p: "je_plan ev = Some p" "ts_phase ?t = TP_succeeded" by auto
    show ?thesis
      using run p by (intro that [of "config_units (tp_stop p) (tp_start p) (config_mode (tp_domain p) (tp_target_mode p) (failure_effect ev s1))"])
        (simp_all add: replay_success_def Let_def failure_effect_fields fields failure_effect_configuration
          event_effect_plan [OF p] config_units_def config_mode_def)
  qed
qed

lemma valid_progress_forward: "p \<le> TP_committing \<Longrightarrow> p < q \<Longrightarrow> valid_progress p q"
  by (cases p; cases q) (simp_all add: valid_progress_def is_terminal_def less_eq_TransitionPhase_def
      less_TransitionPhase_def phase_value_def transition_phases_def)

lemma terminal_phase_terminal: "is_terminal (terminal_phase c)"
  by (simp add: terminal_phase_def is_terminal_def)

lemma committing_before_terminal: "is_terminal q \<Longrightarrow> TP_committing < q"
  by (cases q) (simp_all add: is_terminal_def less_TransitionPhase_def phase_value_def transition_phases_def)

context engine_journal
begin

lemma in_world_now: "in_world (env_now env) s = (n, s') \<Longrightarrow> run_engine s' = run_engine s \<and> events (run_world s') = events (run_world s)"
  using events_now [of "run_world s"] by (auto simp: in_world_def split: prod.splits)

lemma in_world_start: "in_world (env_start env a d) s = (n, s') \<Longrightarrow> run_engine s' = run_engine s \<and> events (run_world s') = events (run_world s)"
  using events_start [of a d "run_world s"] by (auto simp: in_world_def split: prod.splits)

lemma in_world_stop: "in_world (env_stop env a r d) s = (n, s') \<Longrightarrow> run_engine s' = run_engine s \<and> events (run_world s') = events (run_world s)"
  using events_stop [of a r d "run_world s"] by (auto simp: in_world_def split: prod.splits)

lemma in_world_recovery: "in_world (env_request_system_recovery env d) s = (n, s') \<Longrightarrow>
    run_engine s' = run_engine s \<and> events (run_world s') = events (run_world s)"
  using events_recovery [of d "run_world s"] by (auto simp: in_world_def split: prod.splits)

lemma in_world_append: "in_world (env_append env ev) s = (r, s') \<Longrightarrow> run_engine s' = run_engine s \<and>
    events (run_world s') = (if has_value r then events (run_world s) @ [ev] else events (run_world s))"
  using events_append [of ev "run_world s"] by (auto simp: in_world_def split: prod.splits)

lemma sleep_events: "run_engine (sleep_until env t s) = run_engine s \<and> events (run_world (sleep_until env t s)) = events (run_world s)"
  by (simp add: sleep_until_def events_sleep)

text \<open>A record that the journal refuses changes nothing; an accepted one appends one event and
  stores the transition.\<close>

lemma Record_cases:
  assumes "Record env t ph s = (r, t', s')"
  obtains (refused) now e where "r = Inl (MakeError EC_persistence_error ''transition phase could not be persisted'' e)"
      "t' = t\<lparr>ts_phase := ph, ts_updated_at := now\<rparr>"
      "run_engine s' = run_engine s" "events (run_world s') = events (run_world s)"
  | (accepted) now where "r = Inr ()" "t' = t\<lparr>ts_phase := ph, ts_updated_at := now\<rparr>"
      "run_engine s' = (run_engine s)\<lparr>en_transitions := um_set (ts_id t) t' (en_transitions (run_engine s))\<rparr>"
      "events (run_world s') = events (run_world s) @
         [\<lparr>je_transition = t', je_generation = em_generation (vm_model (en_model (run_engine s))),
           je_plan = um_find (en_plans (run_engine s)) (ts_id t)\<rparr>]"
proof -
  obtain now s1 where s1: "in_world (env_now env) s = (now, s1)" by fastforce
  note e1 = in_world_now [OF s1]
  let ?t = "t\<lparr>ts_phase := ph, ts_updated_at := now\<rparr>"
  let ?ev = "\<lparr>je_transition = ?t, je_generation = em_generation (vm_model (en_model (run_engine s))),
           je_plan = um_find (en_plans (run_engine s)) (ts_id t)\<rparr>"
  obtain p s2 where s2: "in_world (env_append env ?ev) s1 = (p, s2)" by fastforce
  note e2 = in_world_append [OF s2]
  show ?thesis
  proof (cases p)
    case (Inl e)
    then show ?thesis
      using assms s1 s2 e1 e2 by (intro refused) (auto simp: Record_def Let_def has_value_def)
  next
    case (Inr u)
    then have "s' = with_engine (\<lambda>e. e\<lparr>en_transitions := um_set (ts_id t) ?t (en_transitions e)\<rparr>) s2" "r = Inr ()" "t' = ?t"
      using assms s1 s2 e1 by (auto simp: Record_def Let_def)
    then show ?thesis
      using e1 e2 Inr by (intro accepted [of now]) (auto simp: with_engine_def has_value_def)
  qed
qed

lemma Record_journal:
  assumes rec: "Record env t ph s = (r, t', s')"
    and inv: "journal_inv initial (events (run_world s)) (run_engine s) st"
    and ok: "recordable (run_engine s) t ph"
  obtains st' where "journal_inv initial (events (run_world s')) (run_engine s') st'"
    and "rs_next st' \<le> max (rs_next st) (ts_id t + 1)"
    and "rs_configuration st' = (if has_value r
      then event_effect \<lparr>je_transition = t', je_generation = em_generation (vm_model (en_model (run_engine s))),
           je_plan = um_find (en_plans (run_engine s)) (ts_id t)\<rparr> (rs_configuration st)
      else rs_configuration st)"
  using rec
proof (cases rule: Record_cases)
  case (refused now e)
  then show ?thesis using inv by (intro that [of st]) (simp_all add: has_value_def)
next
  case (accepted now)
  let ?e = "run_engine s"
  let ?ev = "\<lparr>je_transition = t', je_generation = em_generation (vm_model (en_model ?e)),
      je_plan = um_find (en_plans ?e) (ts_id t)\<rparr>"
  have t': "identity_ok (en_model ?e) t'" "ts_id t' = ts_id t" "ts_phase t' = ph" "ts_failure t' = ts_failure t"
    "ts_domain t' = ts_domain t" "\<And>p. same_identity p t' = same_identity p t"
    "\<And>p. plan_ok (en_model ?e) t' p = plan_ok (en_model ?e) t p"
    using ok accepted(2) by (simp_all add: recordable_def identity_ok_def same_identity_def plan_ok_def)
  have prev: "same_identity p t' \<and> valid_progress (ts_phase p) ph"
    if "um_find (rs_transitions st) (ts_id t) = Some p" for p
    using ok inv that t'(6) by (auto simp: recordable_def journal_inv_def)
  obtain st' where st': "replay_event (en_model ?e) ?ev st = Inr st'"
    "rs_transitions st' = um_set (ts_id t) t' (rs_transitions st)"
    "rs_next st' = max (rs_next st) (ts_id t + 1)"
    "rs_configuration st' = event_effect ?ev (rs_configuration st)"
    using ok prev t' by (rule_tac replay_event_accepts [of "en_model ?e" ?ev st])
      (auto simp: recordable_def split: option.splits)
  have "journal_inv initial (events (run_world s')) (run_engine s') st'"
    using inv st'(1,2) accepted(3,4) ok by (auto simp: journal_inv_def replay_events_snoc recordable_def)
  then show ?thesis
    using st' accepted(1) by (intro that [of st']) (simp_all add: has_value_def)
qed

end

section \<open>Invariants of the engine\<close>

definition tracked :: "Engine \<Rightarrow> TransitionSnapshot \<Rightarrow> TransitionPhase \<Rightarrow> bool" where
  "tracked e t k \<longleftrightarrow>
     identity_ok (en_model e) t \<and> k \<le> TP_committing \<and>
     (\<exists>p. um_find (en_transitions e) (ts_id t) = Some p \<and> same_identity p t \<and> ts_phase p \<le> k) \<and>
     (\<exists>plan. um_find (en_plans e) (ts_id t) = Some plan \<and> plan_ok (en_model e) t plan)"

definition configuration_ok :: "ValidatedModel \<Rightarrow> SystemConfiguration \<Rightarrow> bool" where
  "configuration_ok vm c \<longleftrightarrow>
     sc_generation c = em_generation (vm_model vm) \<and> units_closed vm (set (sc_running_units c)) \<and>
     modes_selected vm (sc_committed_modes c)"

text \<open>The engines that differ in what a list of transitions, or the running units, records.\<close>

definition only_transitions :: "Engine \<Rightarrow> Engine \<Rightarrow> bool" where
  "only_transitions e e' \<longleftrightarrow>
     en_model e' = en_model e \<and> en_scheduler e' = en_scheduler e \<and> en_configuration e' = en_configuration e \<and>
     en_plans e' = en_plans e \<and> en_cancellation e' = en_cancellation e \<and> en_next_transition e' = en_next_transition e"

definition only_running :: "Engine \<Rightarrow> Engine \<Rightarrow> bool" where
  "only_running e e' \<longleftrightarrow>
     en_model e' = en_model e \<and> en_scheduler e' = en_scheduler e \<and> en_transitions e' = en_transitions e \<and>
     en_plans e' = en_plans e \<and> en_cancellation e' = en_cancellation e \<and> en_next_transition e' = en_next_transition e \<and>
     sc_generation (en_configuration e') = sc_generation (en_configuration e) \<and>
     sc_committed_modes (en_configuration e') = sc_committed_modes (en_configuration e)"

lemma only_running_refl [simp]: "only_running e e"
  by (simp add: only_running_def)

lemma only_running_trans: "only_running a b \<Longrightarrow> only_running b c \<Longrightarrow> only_running a c"
  by (simp add: only_running_def)

lemma only_running_set_running [simp]: "only_running e (set_running f e)"
  by (simp add: only_running_def set_running_def)

abbreviation running :: "Engine \<Rightarrow> ExecutionUnitId list" where
  "running e \<equiv> sc_running_units (en_configuration e)"

lemma running_set_running [simp]: "running (set_running f e) = f (running e)"
  by (simp add: set_running_def)

lemma with_engine_simps [simp]: "run_engine (with_engine f s) = f (run_engine s)" "run_world (with_engine f s) = run_world s"
  by (simp_all add: with_engine_def)

lemma recordable_failure:
  assumes "tracked e t k" and "k < ph" and "failure_ok (en_model e) (ts_domain t) f"
  shows "recordable e (t\<lparr>ts_failure := Some f\<rparr>) ph"
proof -
  obtain p where p: "um_find (en_transitions e) (ts_id t) = Some p" "same_identity p t" "ts_phase p \<le> k"
    using assms(1) by (auto simp: tracked_def)
  have "valid_progress (ts_phase p) ph"
    using p(3) assms(1,2) by (intro valid_progress_forward) (auto simp: tracked_def)
  then show ?thesis
    using assms(1,3) p by (auto simp: recordable_def tracked_def identity_ok_def same_identity_def plan_ok_def)
qed

lemma recordable_phase:
  assumes "tracked e t k" and "k < ph" and "ts_failure t = None"
  shows "recordable e t ph"
proof -
  obtain p where p: "um_find (en_transitions e) (ts_id t) = Some p" "same_identity p t" "ts_phase p \<le> k"
    using assms(1) by (auto simp: tracked_def)
  have "valid_progress (ts_phase p) ph"
    using p(3) assms(1,2) by (intro valid_progress_forward) (auto simp: tracked_def)
  then show ?thesis
    using assms(1,3) p by (auto simp: recordable_def tracked_def)
qed

lemma tracked_update [simp]:
  "tracked e (t\<lparr>ts_phase := ph, ts_updated_at := now\<rparr>) k = tracked e t k"
  "tracked e (t\<lparr>ts_failure := f\<rparr>) k = tracked e t k"
  by (simp_all add: tracked_def identity_ok_def same_identity_def plan_ok_def)

lemma failure_of_ok [simp]: "failure_ok vm d (failure_of e a ev)"
  by (simp add: failure_ok_def failure_of_def)

lemma event_effect_failure_of:
  "ts_failure (je_transition ev) = Some f \<Longrightarrow> tf_recovered_mode f = None \<Longrightarrow> tf_recovery_stopped f = [] \<Longrightarrow>
     tf_recovery_started f = [] \<Longrightarrow> ts_phase (je_transition ev) \<noteq> TP_succeeded \<Longrightarrow> event_effect ev c = c"
  by (simp add: event_effect_def split: option.split)

context engine_journal
begin

lemma Fail_recordable:
  assumes run: "Fail env t err a ev s = (t', s')"
    and inv: "journal_inv initial (events (run_world s)) (run_engine s) st"
    and rok: "recordable (run_engine s) (t\<lparr>ts_failure := Some (failure_of err a ev)\<rparr>) (terminal_phase (err_code err))"
  obtains st' where "journal_inv initial (events (run_world s')) (run_engine s') st'"
    and "rs_configuration st' = rs_configuration st"
    and "only_transitions (run_engine s) (run_engine s')"
    and "is_terminal (ts_phase t')" "ts_phase t' \<noteq> TP_succeeded" "ts_failure t' \<noteq> None"
proof -
  let ?t = "t\<lparr>ts_failure := Some (failure_of err a ev)\<rparr>" and ?ph = "terminal_phase (err_code err)"
  obtain r t1 s1 where rec: "Record env ?t ?ph s = (r, t1, s1)" by (metis prod_cases3)
  have ne: "?ph \<noteq> TP_succeeded" by (simp add: terminal_phase_def)
  have t1: "ts_phase t1 = ?ph" "ts_failure t1 = Some (failure_of err a ev)" "only_transitions (run_engine s) (run_engine s1)"
    using rec by (cases rule: Record_cases; simp add: only_transitions_def)+
  have t': "s' = s1" "ts_phase t' = ?ph" "ts_failure t' \<noteq> None"
    using run rec t1 by (auto simp: Fail_def Let_def split: sum.splits)
  obtain st' where "journal_inv initial (events (run_world s1)) (run_engine s1) st'"
    "rs_configuration st' = (if has_value r
      then event_effect \<lparr>je_transition = t1, je_generation = em_generation (vm_model (en_model (run_engine s))),
           je_plan = um_find (en_plans (run_engine s)) (ts_id ?t)\<rparr> (rs_configuration st)
      else rs_configuration st)"
    using Record_journal [OF rec inv rok] by blast
  then show ?thesis
    using t' t1 ne terminal_phase_terminal by (intro that [of st'])
      (auto simp: event_effect_failure_of failure_of_def split: if_splits)
qed

lemma Fail_journal:
  assumes run: "Fail env t err a ev s = (t', s')"
    and inv: "journal_inv initial (events (run_world s)) (run_engine s) st"
    and ok: "tracked (run_engine s) t k"
  obtains st' where "journal_inv initial (events (run_world s')) (run_engine s') st'"
    and "rs_configuration st' = rs_configuration st"
    and "only_transitions (run_engine s) (run_engine s')"
    and "is_terminal (ts_phase t')" "ts_phase t' \<noteq> TP_succeeded" "ts_failure t' \<noteq> None"
proof -
  have "k < terminal_phase (err_code err)"
    using ok committing_before_terminal [OF terminal_phase_terminal, of "err_code err"] by (auto simp: tracked_def)
  then have "recordable (run_engine s) (t\<lparr>ts_failure := Some (failure_of err a ev)\<rparr>) (terminal_phase (err_code err))"
    using ok by (intro recordable_failure) simp_all
  from Fail_recordable [OF run inv this] that show ?thesis by blast
qed

text \<open>The attempts of the recovery leave the engine and the journal alone and keep what the
  failure record says about the recovery.\<close>

lemma recovery_attempts_frame:
  "recovery_attempts env d a deadline n f s = (r, f', s') \<Longrightarrow>
     run_engine s' = run_engine s \<and> events (run_world s') = events (run_world s) \<and>
     tf_recovered_mode f' = tf_recovered_mode f \<and> tf_recovery_stopped f' = tf_recovery_stopped f \<and>
     tf_recovery_started f' = tf_recovery_started f"
proof (induction n arbitrary: f s)
  case (Suc n)
  obtain now s1 where s1: "in_world (env_now env) s = (now, s1)" by fastforce
  note e1 = in_world_now [OF s1]
  show ?case
  proof (cases "deadline \<le> now")
    case True
    then show ?thesis using Suc.prems s1 e1 by auto
  next
    case False
    let ?dl = "min deadline (now + ms (eu_start_timeout d))"
    obtain st s2 where s2: "in_world (env_start env a ?dl) s1 = (st, s2)" by fastforce
    note e2 = in_world_start [OF s2]
    let ?f = "case st of Inr ev \<Rightarrow> f\<lparr>tf_evidence := ev\<rparr> | Inl _ \<Rightarrow> f"
    have f: "tf_recovered_mode ?f = tf_recovered_mode f" "tf_recovery_stopped ?f = tf_recovery_stopped f"
      "tf_recovery_started ?f = tf_recovery_started f" by (simp_all split: sum.split)
    obtain now3 s3 where s3: "in_world (env_now env) s2 = (now3, s3)" by fastforce
    note e3 = in_world_now [OF s3]
    obtain c s4 where s4: "in_world (env_stop env a SR_recovery (min deadline (now3 + ms (eu_stop_timeout d)))) s3 = (c, s4)"
      by fastforce
    note e4 = in_world_stop [OF s4]
    obtain now5 s5 where s5: "in_world (env_now env) s4 = (now5, s5)" by fastforce
    note e5 = in_world_now [OF s5]
    note e6 = sleep_events [of "min deadline (now5 + ms (retry_delay (eu_retry d)))" s5]
    note ih = Suc.IH [of ?f "sleep_until env (min deadline (now5 + ms (retry_delay (eu_retry d)))) s5"]
    show ?thesis
    proof (cases "n = 0 \<or> (case st of Inr ev \<Rightarrow> recovery_state_reached d ev | Inl _ \<Rightarrow> False)")
      case True
      then show ?thesis
        using Suc.prems s1 s2 e1 e2 False f by (cases n; cases st) (auto simp: Let_def split: if_splits)
    next
      case go_on: False
      then obtain m where m: "n = Suc m" by (cases n) auto
      have step: "(case c of Inl e \<Rightarrow> (Inl e, ?f\<lparr>tf_application := Some a\<rparr>, s4)
          | Inr ev \<Rightarrow> if be_state ev \<noteq> AS_stopped then
              (Inl (MakeError EC_backend_error ''recovery retry could not clean up application'' 0),
               ?f\<lparr>tf_application := Some a, tf_evidence := ev\<rparr>, s4)
            else recovery_attempts env d a deadline n ?f
              (sleep_until env (min deadline (now5 + ms (retry_delay (eu_retry d)))) s5)) = (r, f', s')"
        using Suc.prems go_on m False by (cases st; cases c) (auto simp: s1 s2 s3 s4 s5 Let_def split: if_splits)
      show ?thesis
      proof (cases c)
        case (Inl e)
        then show ?thesis using step e1 e2 e3 e4 f by auto
      next
        case (Inr ev)
        then show ?thesis
          using step e1 e2 e3 e4 e5 e6 f ih by (cases "be_state ev = AS_stopped") (simp, auto)
      qed
    qed
  qed
qed auto

end

lemma StopDomainUnits_not_None:
  assumes "set (sc_running_units cur) \<subseteq> known_units vm" and "acyclic (vm_depends vm)"
  shows "StopDomainUnits vm cur d \<noteq> None"
proof -
  have "Order vm (filter (\<lambda>u. \<not> us_contains req u) (sc_running_units cur)) True \<noteq> None" for req
  proof -
    have "set (filter (\<lambda>u. \<not> us_contains req u) (sc_running_units cur)) \<subseteq> known_units vm"
      using assms(1) by auto
    from Order_correct [OF this assms(2), of True] show ?thesis by blast
  qed
  then show ?thesis
    unfolding StopDomainUnits_def by (simp split: sum.split)
qed

definition only_configuration :: "Engine \<Rightarrow> Engine \<Rightarrow> bool" where
  "only_configuration e e' \<longleftrightarrow>
     en_model e' = en_model e \<and> en_scheduler e' = en_scheduler e \<and> en_transitions e' = en_transitions e \<and>
     en_plans e' = en_plans e \<and> en_cancellation e' = en_cancellation e \<and> en_next_transition e' = en_next_transition e"

lemma only_running_configuration: "only_running e e' \<Longrightarrow> only_configuration e e'"
  by (simp add: only_running_def only_configuration_def)

lemma only_configuration_refl [simp]: "only_configuration e e"
  by (simp add: only_configuration_def)

lemma only_configuration_trans: "only_configuration a b \<Longrightarrow> only_configuration b c \<Longrightarrow> only_configuration a c"
  by (simp add: only_configuration_def)

lemma only_configuration_set_mode [simp]: "only_configuration e (set_mode d m e)"
  by (simp add: only_configuration_def set_mode_def)

lemma closed_erase:
  assumes "\<forall>k. units_closed vm (set r - set (take k (a # as)))"
  shows "\<forall>k. units_closed vm (set (us_erase a r) - set (take k as))"
proof
  fix k
  have "set r - set (take (Suc k) (a # as)) = set (us_erase a r) - set (take k as)" by auto
  then show "units_closed vm (set (us_erase a r) - set (take k as))" using assms by metis
qed

lemma closed_insert:
  assumes "\<forall>k. units_closed vm (set r \<union> set (take k (a # as)))"
  shows "\<forall>k. units_closed vm (set (us_insert a r) \<union> set (take k as))"
proof
  fix k
  have "set r \<union> set (take (Suc k) (a # as)) = set (us_insert a r) \<union> set (take k as)" by auto
  then show "units_closed vm (set (us_insert a r) \<union> set (take k as))" using assms by metis
qed

lemma closed_now:
  "\<forall>k. units_closed vm (set r - set (take k as)) \<Longrightarrow> units_closed vm (set r)"
  "\<forall>k. units_closed vm (set r \<union> set (take k as)) \<Longrightarrow> units_closed vm (set r)"
  by (auto dest!: spec [of _ 0])

context engine_journal
begin

lemma recovery_stops_ok:
  assumes "\<forall>k. units_closed vm (set (running (run_engine s)) - set (take k as))" "set as \<subseteq> known_units vm"
    and "en_model (run_engine s) = vm" and "failure_ok vm d f"
  shows "\<exists>ended f' s'. recovery_stops env deadline as f s = Some (ended, f', s') \<and>
    only_running (run_engine s) (run_engine s') \<and> events (run_world s') = events (run_world s) \<and>
    failure_ok vm d f' \<and> units_closed vm (set (running (run_engine s'))) \<and>
    (ended = None \<longrightarrow> running (run_engine s') = fold us_erase as (running (run_engine s)))"
  using assms
proof (induction as arbitrary: f s)
  case Nil
  then show ?case by (simp add: only_running_def)
next
  case (Cons a as)
  obtain u where u: "FindUnit vm a = Some u" using Cons.prems(2) by (auto simp: known_units_def)
  obtain now s1 where s1: "in_world (env_now env) s = (now, s1)" by fastforce
  note e1 = in_world_now [OF s1]
  let ?dl = "min deadline (now + ms (eu_stop_timeout u))"
  obtain r s2 where s2: "in_world (env_stop env a SR_recovery ?dl) s1 = (r, s2)" by fastforce
  note e2 = in_world_stop [OF s2]
  note unf = recovery_stops.simps(2) [of env deadline a as f s] Cons.prems(3) u s1 s2
  note closed = closed_now(1) [OF Cons.prems(1)]
  show ?case
  proof (cases "\<exists>ev. r = Inr ev \<and> be_state ev = AS_stopped")
    case True
    let ?f = "f\<lparr>tf_recovery_stopped := tf_recovery_stopped f @ [a]\<rparr>"
    let ?s = "with_engine (set_running (us_erase a)) s2"
    have "recovery_stops env deadline (a # as) f s = recovery_stops env deadline as ?f ?s"
      using True unf by auto
    moreover have "failure_ok vm d ?f" using Cons.prems(2,4) by (simp add: failure_ok_def)
    moreover have "en_model (run_engine ?s) = vm" "running (run_engine ?s) = us_erase a (running (run_engine s))"
      "only_running (run_engine s) (run_engine ?s)"
      using e1 e2 Cons.prems(3) by (simp_all add: set_running_def only_running_def)
    moreover have "events (run_world ?s) = events (run_world s)" using e1 e2 by simp
    ultimately show ?thesis
      using Cons.IH [of ?s ?f] closed_erase [OF Cons.prems(1)] Cons.prems(2) only_running_trans
      by (metis (no_types, lifting) fold_simps(2) list.set_intros(2) subset_eq)
  next
    case False
    then have "\<exists>e f'. recovery_stops env deadline (a # as) f s = Some (Some e, f', s2) \<and> failure_ok vm d f'"
      using unf Cons.prems(4) by (cases r) (auto simp: failure_ok_def)
    then show ?thesis using closed e1 e2 by auto
  qed
qed

lemma recovery_starts_ok:
  assumes "\<forall>k. units_closed vm (set (running (run_engine s)) \<union> set (take k as))" "set as \<subseteq> known_units vm"
    and "en_model (run_engine s) = vm" and "failure_ok vm d f"
  shows "\<exists>ended f' s'. recovery_starts env deadline as f s = Some (ended, f', s') \<and>
    only_running (run_engine s) (run_engine s') \<and> events (run_world s') = events (run_world s) \<and>
    failure_ok vm d f' \<and> units_closed vm (set (running (run_engine s'))) \<and>
    (ended = None \<longrightarrow> running (run_engine s') = fold us_insert as (running (run_engine s)))"
  using assms
proof (induction as arbitrary: f s)
  case Nil
  then show ?case by (simp add: only_running_def)
next
  case (Cons a as)
  obtain u where u: "FindUnit vm a = Some u" using Cons.prems(2) by (auto simp: known_units_def)
  obtain r f1 s1 where s1: "recovery_attempts env u a deadline (unat (max_attempts (eu_retry u))) f s = (r, f1, s1)"
    by (metis prod_cases3)
  note e1 = recovery_attempts_frame [OF s1]
  have f1: "failure_ok vm d f1" using Cons.prems(4) e1 by (simp add: failure_ok_def)
  note unf = recovery_starts.simps(2) [of env deadline a as f s] Cons.prems(3) u s1
  note closed = closed_now(2) [OF Cons.prems(1)]
  show ?case
  proof (cases "r = Inr True")
    case True
    let ?f = "f1\<lparr>tf_recovery_started := tf_recovery_started f1 @ [a]\<rparr>"
    let ?s = "with_engine (set_running (us_insert a)) s1"
    have "recovery_starts env deadline (a # as) f s = recovery_starts env deadline as ?f ?s"
      using True unf by auto
    moreover have "failure_ok vm d ?f" using Cons.prems(2) f1 by (simp add: failure_ok_def)
    moreover have "en_model (run_engine ?s) = vm" "running (run_engine ?s) = us_insert a (running (run_engine s))"
      "only_running (run_engine s) (run_engine ?s)"
      using e1 Cons.prems(3) by (simp_all add: set_running_def only_running_def)
    moreover have "events (run_world ?s) = events (run_world s)" using e1 by simp
    ultimately show ?thesis
      using Cons.IH [of ?s ?f] closed_insert [OF Cons.prems(1)] Cons.prems(2) only_running_trans
      by (metis (no_types, lifting) fold_simps(2) list.set_intros(2) subset_eq)
  next
    case False
    then have "\<exists>e f'. recovery_starts env deadline (a # as) f s = Some (Some e, f', s1) \<and> failure_ok vm d f'"
      using unf f1 by (cases r) (auto simp: failure_ok_def)
    then show ?thesis using closed e1 by auto
  qed
qed

lemma ApplyRecoveryPlan_ok:
  assumes stops: "\<forall>k. units_closed vm (set (running (run_engine s)) - set (take k stop))"
    and starts: "\<forall>k. units_closed vm ((set (running (run_engine s)) - set stop) \<union> set (take k start))"
    and known: "set stop \<subseteq> known_units vm" "set start \<subseteq> known_units vm"
    and vm: "en_model (run_engine s) = vm" and f: "failure_ok vm d f"
  shows "\<exists>ended f' s'. ApplyRecoveryPlan env stop start deadline f s = Some (ended, f', s') \<and>
    only_running (run_engine s) (run_engine s') \<and> events (run_world s') = events (run_world s) \<and>
    failure_ok vm d f' \<and> units_closed vm (set (running (run_engine s')))"
proof -
  obtain ended f1 s1 where 1: "recovery_stops env deadline stop f s = Some (ended, f1, s1)"
    "only_running (run_engine s) (run_engine s1)" "events (run_world s1) = events (run_world s)"
    "failure_ok vm d f1" "units_closed vm (set (running (run_engine s1)))"
    "ended = None \<longrightarrow> running (run_engine s1) = fold us_erase stop (running (run_engine s))"
    using recovery_stops_ok [OF stops known(1) vm f] by blast
  show ?thesis
  proof (cases ended)
    case None
    have vm1: "en_model (run_engine s1) = vm" using 1(2) vm by (simp add: only_running_def)
    have "set (running (run_engine s1)) = set (running (run_engine s)) - set stop"
      using None 1(6) us.elems_fold_erase by simp
    then obtain e2 f2 s2 where "recovery_starts env deadline start f1 s1 = Some (e2, f2, s2)"
      "only_running (run_engine s1) (run_engine s2)" "events (run_world s2) = events (run_world s1)"
      "failure_ok vm d f2" "units_closed vm (set (running (run_engine s2)))"
      using recovery_starts_ok [OF _ known(2) vm1 1(4), of deadline] starts by metis
    then show ?thesis
      using 1 None only_running_trans [OF 1(2)] by (auto simp: ApplyRecoveryPlan_def)
  next
    case (Some e)
    then show ?thesis using 1 by (simp add: ApplyRecoveryPlan_def)
  qed
qed

end

lemma BuildPlan_known:
  assumes "BuildPlan vm cur d t allow = Some (Inr plan)"
    and "units_closed vm (set (sc_running_units cur))" and "acyclic (vm_depends vm)"
  shows "set (tp_retain plan) \<subseteq> known_units vm" "set (tp_stop plan) \<subseteq> known_units vm" "set (tp_start plan) \<subseteq> known_units vm"
proof -
  have run: "set (sc_running_units cur) \<subseteq> known_units vm" using assms(2) by (simp add: units_closed_def)
  note s = BuildPlan_split [OF assms(1) run assms(3)]
  show "set (tp_retain plan) \<subseteq> known_units vm" "set (tp_stop plan) \<subseteq> known_units vm" "set (tp_start plan) \<subseteq> known_units vm"
    using s(1-3,9) run by (auto simp: units_closed_def)
qed

lemma BuildPlan_modes_selected:
  assumes "BuildPlan vm cur d t allow = Some (Inr plan)"
  shows "modes_selected vm (um_set d t (sc_committed_modes cur))"
  using assms by (rule BuildPlan_InrE) (use RequiredUnits_defined in blast)

lemma committing_less_recovering: "TP_committing < TP_recovering"
  by (simp add: less_TransitionPhase_def phase_value_def transition_phases_def)

definition frame :: "Engine \<Rightarrow> Engine \<Rightarrow> bool" where
  "frame e e' \<longleftrightarrow>
     en_model e' = en_model e \<and> en_scheduler e' = en_scheduler e \<and> en_plans e' = en_plans e \<and>
     en_cancellation e' = en_cancellation e \<and> en_next_transition e' = en_next_transition e"

lemma configuration_ok_running:
  assumes "only_running e e'" and "configuration_ok vm (en_configuration e)"
    and "units_closed vm (set (running e'))"
  shows "configuration_ok vm (en_configuration e')"
  using assms by (simp add: only_running_def configuration_ok_def)

context engine_journal
begin

lemma fallback_ok:
  assumes vm: "en_model (run_engine s) = vm" and ac: "acyclic (vm_depends vm)"
    and cfg: "configuration_ok vm (en_configuration (run_engine s))" and f: "failure_ok vm (dd_id dd) f"
    and act: "rp_action (dd_recovery dd) = FA_enter_fallback_mode"
  shows "\<exists>ended f' s'. recovery_action env dd deadline f s = Some (ended, f', s') \<and>
    only_configuration (run_engine s) (run_engine s') \<and> events (run_world s') = events (run_world s) \<and>
    failure_ok vm (dd_id dd) f' \<and> configuration_ok vm (en_configuration (run_engine s'))"
proof -
  let ?c = "en_configuration (run_engine s)" and ?m = "rp_fallback_mode (dd_recovery dd)"
  have closed: "units_closed vm (set (sc_running_units ?c))" using cfg by (simp add: configuration_ok_def)
  then have known: "set (sc_running_units ?c) \<subseteq> known_units vm" by (simp add: units_closed_def)
  have unf: "recovery_action env dd deadline f s =
      (case Reconcile vm ?c (dd_id dd) ?m of
             None \<Rightarrow> None
           | Some (Inl e) \<Rightarrow> Some (Some e, f, s)
           | Some (Inr plan) \<Rightarrow>
               do {
                 (ended, failure, s) \<leftarrow> ApplyRecoveryPlan env (tp_stop plan) (tp_start plan) deadline f s;
                 (case ended of
                    Some e \<Rightarrow> Some (Some e, failure, s)
                  | None \<Rightarrow>
                      Some (None, failure\<lparr>tf_recovered_mode := Some ?m\<rparr>,
                            with_engine (set_mode (dd_id dd) ?m) s))
               })"
    unfolding recovery_action_def act FailureAction.case lock_id Let_def vm ..
  obtain p where p: "Reconcile vm ?c (dd_id dd) ?m = Some p"
    using BuildPlan_not_None [OF known ac, of "dd_id dd" ?m True] by (auto simp: Reconcile_def)
  show ?thesis
  proof (cases p)
    case (Inl e)
    then show ?thesis using p f cfg unfolding unf by simp
  next
    case (Inr plan)
    then have b: "BuildPlan vm ?c (dd_id dd) ?m True = Some (Inr plan)" using p by (simp add: Reconcile_def)
    have k: "\<forall>k. units_closed vm (set (running (run_engine s)) - set (take k (tp_stop plan)))"
      "\<forall>k. units_closed vm ((set (running (run_engine s)) - set (tp_stop plan)) \<union> set (take k (tp_start plan)))"
      using BuildPlan_keeps_closed [OF b closed ac] by blast+
    obtain ended f' s' where a: "ApplyRecoveryPlan env (tp_stop plan) (tp_start plan) deadline f s = Some (ended, f', s')"
      "only_running (run_engine s) (run_engine s')" "events (run_world s') = events (run_world s)"
      "failure_ok vm (dd_id dd) f'" "units_closed vm (set (running (run_engine s')))"
      using ApplyRecoveryPlan_ok [OF k BuildPlan_known(2,3) [OF b closed ac] vm f] by blast
    note c' = configuration_ok_running [OF a(2) cfg a(5)]
    have mode: "FindMode vm (dd_id dd) ?m \<noteq> None" using b by (rule BuildPlan_InrE)
    have "modes_selected vm (um_set (dd_id dd) ?m (sc_committed_modes (en_configuration (run_engine s'))))"
      using BuildPlan_modes_selected [OF b] a(2) by (simp add: only_running_def)
    then have "configuration_ok vm (en_configuration (set_mode (dd_id dd) ?m (run_engine s')))"
      using c' by (simp add: configuration_ok_def set_mode_def)
    moreover have "failure_ok vm (dd_id dd) (f'\<lparr>tf_recovered_mode := Some ?m\<rparr>)"
      using a(4) mode by (simp add: failure_ok_def)
    ultimately show ?thesis
      using p Inr a c' only_running_configuration [OF a(2)] only_configuration_trans
      unfolding unf by (cases ended) auto
  qed
qed

lemma stop_domain_ok:
  assumes vm: "en_model (run_engine s) = vm" and ac: "acyclic (vm_depends vm)"
    and cfg: "configuration_ok vm (en_configuration (run_engine s))" and f: "failure_ok vm (dd_id dd) f"
    and act: "rp_action (dd_recovery dd) = FA_stop_domain"
  shows "\<exists>ended f' s'. recovery_action env dd deadline f s = Some (ended, f', s') \<and>
    only_configuration (run_engine s) (run_engine s') \<and> events (run_world s') = events (run_world s) \<and>
    failure_ok vm (dd_id dd) f' \<and> configuration_ok vm (en_configuration (run_engine s'))"
proof -
  let ?c = "en_configuration (run_engine s)"
  have closed: "units_closed vm (set (sc_running_units ?c))" using cfg by (simp add: configuration_ok_def)
  then have known: "set (sc_running_units ?c) \<subseteq> known_units vm" by (simp add: units_closed_def)
  obtain p where p: "StopDomainUnits vm ?c (dd_id dd) = Some p"
    using StopDomainUnits_not_None [OF known ac] by auto
  show ?thesis
  proof (cases p)
    case (Inl e)
    then show ?thesis using p f cfg by (simp add: recovery_action_def act vm)
  next
    case (Inr xs)
    note s = StopDomainUnits_Inr [OF p [unfolded Inr] known ac]
    have k: "units_closed vm (set (running (run_engine s)) - set (take k xs))" for k
      using closed_minus_suffix [OF closed s(3,1,4,2)] .
    have k2: "\<forall>k. units_closed vm ((set (running (run_engine s)) - set xs) \<union> set (take k []))"
      using k [of "length xs"] by simp
    have xs: "set xs \<subseteq> known_units vm" using s(1) known by auto
    obtain ended f' s' where a: "ApplyRecoveryPlan env xs [] deadline f s = Some (ended, f', s')"
      "only_running (run_engine s) (run_engine s')" "events (run_world s') = events (run_world s)"
      "failure_ok vm (dd_id dd) f'" "units_closed vm (set (running (run_engine s')))"
      using ApplyRecoveryPlan_ok [OF allI [OF k] k2 xs _ vm f, of deadline] by auto
    then show ?thesis
      using p Inr configuration_ok_running [OF a(2) cfg a(5)] only_running_configuration [OF a(2)]
      by (simp add: recovery_action_def act vm)
  qed
qed

lemma recovery_action_ok:
  assumes vm: "en_model (run_engine s) = vm" and ac: "acyclic (vm_depends vm)"
    and cfg: "configuration_ok vm (en_configuration (run_engine s))" and f: "failure_ok vm (dd_id dd) f"
  shows "\<exists>ended f' s'. recovery_action env dd deadline f s = Some (ended, f', s') \<and>
    only_configuration (run_engine s) (run_engine s') \<and> events (run_world s') = events (run_world s) \<and>
    failure_ok vm (dd_id dd) f' \<and> configuration_ok vm (en_configuration (run_engine s'))"
proof (cases "rp_action (dd_recovery dd)")
  case FA_request_system_recovery
  obtain r s1 where s1: "in_world (env_request_system_recovery env deadline) s = (r, s1)" by fastforce
  then show ?thesis
    using in_world_recovery [OF s1] cfg f by (simp add: recovery_action_def FA_request_system_recovery)
qed (use fallback_ok [OF assms] stop_domain_ok [OF assms] cfg f in \<open>simp_all add: recovery_action_def\<close>)

lemma finish_recovery_ok:
  assumes run: "finish_recovery env t f ended s = (r, s')"
    and inv: "journal_inv initial (events (run_world s)) (run_engine s) st"
    and vm: "en_model (run_engine s) = vm" and id: "identity_ok vm t" and ph: "ts_phase t = TP_recovering"
    and plan: "\<exists>plan. um_find (en_plans (run_engine s)) (ts_id t) = Some plan \<and> plan_ok vm t plan"
    and known: "um_find (en_transitions (run_engine s)) (ts_id t) = Some t"
    and f: "failure_ok vm (ts_domain t) f" and cfg: "configuration_ok vm (en_configuration (run_engine s))"
  shows "\<exists>st'. journal_inv initial (events (run_world s')) (run_engine s') st' \<and>
    configuration_ok vm (en_configuration (run_engine s')) \<and> frame (run_engine s) (run_engine s') \<and>
    (\<forall>t'. r = Inr t' \<longrightarrow> is_terminal (ts_phase t') \<and> ts_phase t' \<noteq> TP_succeeded)"
proof -
  obtain f' ph' where e: "(case ended of
               Some e \<Rightarrow> (f\<lparr>tf_recovery_error := Some e\<rparr>, TP_recovery_failed)
             | None \<Rightarrow> (f\<lparr>tf_recovery_succeeded := True\<rparr>, TP_failed)) = (f', ph')" by fastforce
  have f': "failure_ok vm (ts_domain t) f'" "ph' \<in> {TP_failed, TP_recovery_failed}"
    using e f by (auto simp: failure_ok_def split: option.splits)
  obtain r1 t1 s1 where rec: "Record env (t\<lparr>ts_failure := Some f'\<rparr>) ph' s = (r1, t1, s1)" by (metis prod_cases3)
  have r: "r = (case r1 of Inl e \<Rightarrow> Inl e | Inr _ \<Rightarrow> Inr t1)" "s' = s1"
    using run e rec by (simp_all add: finish_recovery_def Let_def)
  have "recordable (run_engine s) (t\<lparr>ts_failure := Some f'\<rparr>) ph'"
    using vm id ph plan known f' by (auto simp: recordable_def identity_ok_def same_identity_def plan_ok_def valid_progress_def)
  then obtain st' where "journal_inv initial (events (run_world s1)) (run_engine s1) st'"
    using Record_journal [OF rec inv] by blast
  moreover have "ts_phase t1 = ph'" "frame (run_engine s) (run_engine s1)"
    "en_configuration (run_engine s1) = en_configuration (run_engine s)"
    using rec by (cases rule: Record_cases; simp add: frame_def)+
  ultimately show ?thesis
    using r cfg f'(2) by (auto simp: is_terminal_def split: sum.splits)
qed

lemma Recover_ok:
  assumes inv: "journal_inv initial (events (run_world s)) (run_engine s) st"
    and tr: "tracked (run_engine s) t k" and vm: "en_model (run_engine s) = vm" and ac: "acyclic (vm_depends vm)"
    and cfg: "configuration_ok vm (en_configuration (run_engine s))"
    and dd: "\<And>i d. FindDomain vm i = Some d \<Longrightarrow> dd_id d = i"
  shows "\<exists>r s' st'. Recover env t err a ev s = Some (r, s') \<and>
    journal_inv initial (events (run_world s')) (run_engine s') st' \<and>
    configuration_ok vm (en_configuration (run_engine s')) \<and> frame (run_engine s) (run_engine s') \<and>
    (\<forall>t'. r = Inr t' \<longrightarrow> is_terminal (ts_phase t') \<and> ts_phase t' \<noteq> TP_succeeded)"
proof (cases "\<exists>dom. FindDomain vm (ts_domain t) = Some dom \<and> rp_action (dd_recovery dom) \<noteq> FA_hold_observed_configuration")
  case False
  obtain t' s' where f: "Fail env t err a ev s = (t', s')" by fastforce
  have "Recover env t err a ev s = Some (Inr t', s')"
    using False f vm unfolding Recover_def by (auto split: option.splits)
  then show ?thesis
    using Fail_journal [OF f inv tr] cfg by (smt (verit) only_transitions_def frame_def sum.inject(2))
next
  case True
  then obtain dom where dom: "FindDomain vm (ts_domain t) = Some dom" "rp_action (dd_recovery dom) \<noteq> FA_hold_observed_configuration"
    by blast
  let ?f = "(failure_of err a ev)\<lparr>tf_recovery_action := rp_action (dd_recovery dom), tf_recovery_attempted := True\<rparr>"
  let ?t = "t\<lparr>ts_failure := Some ?f\<rparr>"
  obtain r t1 s1 where rec: "Record env ?t TP_recovering s = (r, t1, s1)" by (metis prod_cases3)
  have k: "k < TP_recovering"
    using tr committing_less_recovering by (auto simp: tracked_def)
  have rok: "recordable (run_engine s) ?t TP_recovering"
    using tr k by (rule recordable_failure) (simp add: failure_ok_def failure_of_def)
  obtain st1 where inv1: "journal_inv initial (events (run_world s1)) (run_engine s1) st1"
    using Record_journal [OF rec inv rok] by blast
  from rec show ?thesis
  proof (cases rule: Record_cases)
    case (refused now e)
    obtain t2 s2 where f: "Fail env t1 (MakeError EC_persistence_error ''transition phase could not be persisted'' e)
        None no_evidence s1 = (t2, s2)" by fastforce
    have "Recover env t err a ev s = Some (Inr t2, s2)"
      using dom rec f vm refused(1) by (simp add: Recover_def Let_def)
    moreover have "tracked (run_engine s1) t1 k" using tr refused(2,3) by simp
    ultimately show ?thesis
      using Fail_journal [OF f inv1] cfg refused(3) by (smt (verit) only_transitions_def frame_def sum.inject(2))
  next
    case (accepted now)
    have e1: "en_model (run_engine s1) = vm" "en_configuration (run_engine s1) = en_configuration (run_engine s)"
      "frame (run_engine s) (run_engine s1)" "um_find (en_transitions (run_engine s1)) (ts_id t) = Some t1"
      using accepted(3) vm by (simp_all add: frame_def)
    obtain n2 s2 where s2: "in_world (env_now env) s1 = (n2, s2)" by fastforce
    note e2 = in_world_now [OF s2]
    let ?dl = "n2 + ms (rp_deadline (dd_recovery dom))"
    have id: "dd_id dom = ts_domain t" using dd dom by blast
    obtain ended f' s3 where r3: "recovery_action env dom ?dl ?f s2 = Some (ended, f', s3)"
      "only_configuration (run_engine s2) (run_engine s3)" "events (run_world s3) = events (run_world s2)"
      "failure_ok vm (ts_domain t) f'" "configuration_ok vm (en_configuration (run_engine s3))"
      using recovery_action_ok [of s2 vm dom ?f ?dl] e1 e2 ac cfg
      by (auto simp: failure_ok_def failure_of_def id)
    obtain r4 s4 where r4: "finish_recovery env t1 f' ended s3 = (r4, s4)" by fastforce
    have run: "Recover env t err a ev s = Some (r4, s4)"
      using dom rec vm accepted(1) s2 r3(1) r4 by (simp add: Recover_def Let_def)
    have inv3: "journal_inv initial (events (run_world s3)) (run_engine s3) st1"
      using inv1 r3(2,3) e2 by (simp add: only_configuration_def journal_inv_def)
    have "tracked (run_engine s) t1 k" using tr accepted(2) by simp
    then have t1: "identity_ok vm t1" "ts_id t1 = ts_id t" "ts_phase t1 = TP_recovering" "ts_domain t1 = ts_domain t"
      "\<exists>plan. um_find (en_plans (run_engine s3)) (ts_id t1) = Some plan \<and> plan_ok vm t1 plan"
      "um_find (en_transitions (run_engine s3)) (ts_id t1) = Some t1"
      using accepted(2,3) r3(2) e2 vm by (auto simp: tracked_def only_configuration_def)
    have m3: "en_model (run_engine s3) = vm" "frame (run_engine s) (run_engine s3)"
      using r3(2) e1 e2 by (simp_all add: only_configuration_def frame_def)
    have "\<exists>st'. journal_inv initial (events (run_world s4)) (run_engine s4) st' \<and>
      configuration_ok vm (en_configuration (run_engine s4)) \<and> frame (run_engine s3) (run_engine s4) \<and>
      (\<forall>t'. r4 = Inr t' \<longrightarrow> is_terminal (ts_phase t') \<and> ts_phase t' \<noteq> TP_succeeded)"
      by (rule finish_recovery_ok [OF r4 inv3 m3(1) t1(1,3,5,6)]) (simp_all add: r3 t1)
    then show ?thesis
      using run m3(2) by (auto simp: frame_def)
  qed
qed

end

section \<open>Executing a transition\<close>

text \<open>What every part of \<open>Execute\<close> keeps: the journal replays, the configuration is well formed, an
  early result is terminal, and going on leaves the transition tracked up to phase \<open>k\<close> and the
  replayed configuration at \<open>jc\<close>.\<close>

definition part_ok ::
  "('w \<Rightarrow> JournalEvent list) \<Rightarrow> SystemConfiguration \<Rightarrow> ValidatedModel \<Rightarrow> Engine \<Rightarrow> SystemConfiguration
     \<Rightarrow> TransitionSnapshot \<Rightarrow> TransitionPhase \<Rightarrow> 'w part \<Rightarrow> bool" where
  "part_ok events initial vm e jc t k p \<longleftrightarrow>
     (case p of (r, t', s') \<Rightarrow>
        (\<exists>st. journal_inv initial (events (run_world s')) (run_engine s') st \<and> (r = None \<longrightarrow> rs_configuration st = jc)) \<and>
        configuration_ok vm (en_configuration (run_engine s')) \<and> frame e (run_engine s') \<and>
        (\<forall>x. r = Some (Inr x) \<longrightarrow> is_terminal (ts_phase x) \<and> ts_phase x \<noteq> TP_succeeded) \<and>
        (r = None \<longrightarrow> tracked (run_engine s') t' k \<and> ts_failure t' = None \<and> same_identity t' t))"

text \<open>The state before a part.\<close>

definition before_part ::
  "('w \<Rightarrow> JournalEvent list) \<Rightarrow> SystemConfiguration \<Rightarrow> ValidatedModel \<Rightarrow> Engine \<Rightarrow> SystemConfiguration
     \<Rightarrow> TransitionSnapshot \<Rightarrow> TransitionPhase \<Rightarrow> TransitionSnapshot \<Rightarrow> 'w Run \<Rightarrow> bool" where
  "before_part events initial vm e jc t0 k t s \<longleftrightarrow> part_ok events initial vm e jc t0 k (None, t, s) \<and> en_model e = vm"

lemma frame_trans: "frame a b \<Longrightarrow> frame b c \<Longrightarrow> frame a c"
  by (simp add: frame_def)

lemma same_identity_trans: "same_identity a b \<Longrightarrow> same_identity b c \<Longrightarrow> same_identity a c"
  by (simp add: same_identity_def)

lemma same_identity_update [simp]:
  "same_identity (t\<lparr>ts_phase := ph, ts_updated_at := now\<rparr>) u = same_identity t u"
  "same_identity t t"
  by (simp_all add: same_identity_def)

lemma before_partD:
  assumes "before_part events initial vm e jc t0 k t s"
  obtains st where "journal_inv initial (events (run_world s)) (run_engine s) st" "rs_configuration st = jc"
    "configuration_ok vm (en_configuration (run_engine s))" "frame e (run_engine s)" "tracked (run_engine s) t k"
    "ts_failure t = None" "same_identity t t0" "en_model (run_engine s) = vm" "k \<le> TP_committing"
proof -
  obtain st where st: "journal_inv initial (events (run_world s)) (run_engine s) st" "rs_configuration st = jc"
    and rest: "configuration_ok vm (en_configuration (run_engine s))" "frame e (run_engine s)" "tracked (run_engine s) t k"
    "ts_failure t = None" "same_identity t t0" "en_model e = vm"
    using assms unfolding before_part_def part_ok_def by auto
  have "en_model (run_engine s) = vm" "k \<le> TP_committing" using rest by (simp_all add: frame_def tracked_def)
  with st rest show ?thesis by (intro that)
qed

lemma before_part_weaken:
  "before_part events initial vm e jc t0 k t s \<Longrightarrow> k \<le> k' \<Longrightarrow> k' \<le> TP_committing \<Longrightarrow>
     before_part events initial vm e jc t0 k' t s"
  unfolding before_part_def part_ok_def tracked_def by (simp, meson order_trans)

lemma tracked_only_configuration:
  "only_configuration e e' \<Longrightarrow> tracked e' t k = tracked e t k"
  by (simp add: only_configuration_def tracked_def)

context engine_journal
begin

lemma return_failure_ok:
  assumes "before_part events initial vm e jc t0 k t s"
  shows "part_ok events initial vm e jc' t0 k' (return_failure env t err s)"
proof -
  obtain st where b: "journal_inv initial (events (run_world s)) (run_engine s) st"
    "configuration_ok vm (en_configuration (run_engine s))" "frame e (run_engine s)" "tracked (run_engine s) t k"
    using assms by (rule before_partD)
  obtain t' s' where f: "Fail env t err None no_evidence s = (t', s')" by fastforce
  obtain st' where "journal_inv initial (events (run_world s')) (run_engine s') st'"
    "only_transitions (run_engine s) (run_engine s')" "is_terminal (ts_phase t')" "ts_phase t' \<noteq> TP_succeeded"
    using Fail_journal [OF f b(1,4)] by blast
  then show ?thesis
    using b(2,3) f by (auto simp: part_ok_def return_failure_def only_transitions_def frame_def)
qed

lemma record_or_fail_ok:
  assumes bp: "before_part events initial vm e jc t0 k t s" and k: "k < ph" "ph \<le> TP_committing"
  shows "part_ok events initial vm e jc t0 ph (record_or_fail env t ph s)"
    and "fst (record_or_fail env t ph s) = None \<Longrightarrow>
      en_configuration (run_engine (snd (snd (record_or_fail env t ph s)))) = en_configuration (run_engine s)"
proof -
  obtain st where b: "journal_inv initial (events (run_world s)) (run_engine s) st" "rs_configuration st = jc"
    "configuration_ok vm (en_configuration (run_engine s))" "frame e (run_engine s)" "tracked (run_engine s) t k"
    "ts_failure t = None" "same_identity t t0" "en_model (run_engine s) = vm"
    using bp by (rule before_partD)
  obtain r t' s' where rec: "Record env t ph s = (r, t', s')" by (metis prod_cases3)
  obtain st' where st': "journal_inv initial (events (run_world s')) (run_engine s') st'"
    "rs_configuration st' = (if has_value r
      then event_effect \<lparr>je_transition = t', je_generation = em_generation (vm_model (en_model (run_engine s))),
           je_plan = um_find (en_plans (run_engine s)) (ts_id t)\<rparr> (rs_configuration st)
      else rs_configuration st)"
    using Record_journal [OF rec b(1) recordable_phase [OF b(5) k(1) b(6)]] by blast
  have goal: "part_ok events initial vm e jc t0 ph (record_or_fail env t ph s) \<and>
    (fst (record_or_fail env t ph s) = None \<longrightarrow>
      en_configuration (run_engine (snd (snd (record_or_fail env t ph s)))) = en_configuration (run_engine s))"
    using rec
  proof (cases rule: Record_cases)
    case (refused now c)
    have bp': "before_part events initial vm e jc t0 k t' s'"
      using bp refused st'(1) b by (auto simp: before_part_def part_ok_def has_value_def)
    have "record_or_fail env t ph s = return_failure env t'
        (MakeError EC_persistence_error ''transition phase could not be persisted'' c) s'"
      using rec refused(1) by (simp add: record_or_fail_def)
    moreover have "fst (return_failure env t' er s') \<noteq> None" for er
      by (simp add: return_failure_def split: prod.split)
    ultimately show ?thesis using return_failure_ok [OF bp'] by metis
  next
    case (accepted now)
    have "ph \<noteq> TP_succeeded" using k(2) by (auto simp: less_eq_TransitionPhase_def phase_value_def transition_phases_def)
    then have cfg: "rs_configuration st' = jc"
      using st'(2) accepted(1,2) b(2,6) by (simp add: event_effect_def has_value_def split: option.split)
    have "tracked (run_engine s') t' ph"
      using b(5) k(2) accepted(2,3) by (auto simp: tracked_def identity_ok_def plan_ok_def same_identity_def)
    then show ?thesis
      using rec accepted cfg st'(1) b by (auto simp: record_or_fail_def part_ok_def frame_def)
  qed
  then show "part_ok events initial vm e jc t0 ph (record_or_fail env t ph s)"
    "fst (record_or_fail env t ph s) = None \<Longrightarrow>
      en_configuration (run_engine (snd (snd (record_or_fail env t ph s)))) = en_configuration (run_engine s)"
    by blast+
qed

lemma return_recovery_ok:
  assumes bp: "before_part events initial vm e jc t0 k t s" and ac: "acyclic (vm_depends vm)"
    and dd: "\<And>i d. FindDomain vm i = Some d \<Longrightarrow> dd_id d = i"
  shows "\<exists>p. return_recovery env t err a ev s = Some p \<and> part_ok events initial vm e jc' t0 k' p \<and> fst p \<noteq> None"
proof -
  obtain st where b: "journal_inv initial (events (run_world s)) (run_engine s) st"
    "configuration_ok vm (en_configuration (run_engine s))" "frame e (run_engine s)" "tracked (run_engine s) t k"
    "en_model (run_engine s) = vm"
    using bp by (rule before_partD)
  obtain r s' st' where "Recover env t err (Some a) ev s = Some (r, s')"
    "journal_inv initial (events (run_world s')) (run_engine s') st'"
    "configuration_ok vm (en_configuration (run_engine s'))" "frame (run_engine s) (run_engine s')"
    "\<forall>t'. r = Inr t' \<longrightarrow> is_terminal (ts_phase t') \<and> ts_phase t' \<noteq> TP_succeeded"
    using Recover_ok [OF b(1,4,5) ac b(2) dd] by blast
  then show ?thesis
    using frame_trans [OF b(3)] by (auto simp: return_recovery_def part_ok_def)
qed

end

text \<open>The configuration a part leaves when it goes on.\<close>

definition leaves :: "SystemConfiguration \<Rightarrow> 'w part \<Rightarrow> bool" where
  "leaves c p \<longleftrightarrow> (fst p = None \<longrightarrow> en_configuration (run_engine (snd (snd p))) = c)"

lemma before_part_running:
  assumes bp: "before_part events initial vm e jc t0 k t s"
    and s': "only_running (run_engine s) (run_engine s')" "events (run_world s') = events (run_world s)"
    and closed: "units_closed vm (set (running (run_engine s')))"
  shows "before_part events initial vm e jc t0 k t s'"
proof -
  obtain st where b: "journal_inv initial (events (run_world s)) (run_engine s) st" "rs_configuration st = jc"
    "configuration_ok vm (en_configuration (run_engine s))" "frame e (run_engine s)" "tracked (run_engine s) t k"
    "ts_failure t = None" "same_identity t t0" "en_model (run_engine s) = vm"
    using bp by (rule before_partD)
  have "journal_inv initial (events (run_world s')) (run_engine s') st"
    using b(1) s' by (simp add: journal_inv_def only_running_def)
  moreover have "frame e (run_engine s')" using b(4) s'(1) by (simp add: frame_def only_running_def)
  moreover have "tracked (run_engine s') t k"
    using b(5) tracked_only_configuration [OF only_running_configuration [OF s'(1)]] by simp
  ultimately show ?thesis
    using b bp configuration_ok_running [OF s'(1) b(3) closed] by (auto simp: before_part_def part_ok_def)
qed

lemma set_running_run: "only_running (run_engine s) (run_engine (with_engine (set_running f) s))"
  "run_world (with_engine (set_running f) s) = run_world s"
  "running (run_engine (with_engine (set_running f) s)) = f (running (run_engine s))"
  "en_configuration (run_engine (with_engine (set_running f) s)) =
     (en_configuration (run_engine s))\<lparr>sc_running_units := f (running (run_engine s))\<rparr>"
  by (simp_all add: set_running_def only_running_def)

lemma leaves_early: "fst p \<noteq> None \<Longrightarrow> leaves c p"
  unfolding leaves_def by blast

context engine_journal
begin

lemma IsCancelled_id: "IsCancelled env i s = (um_find (en_cancellation (run_engine s)) i = Some True, s)"
  by (simp add: IsCancelled_def)

lemma return_failure_stops: "fst (return_failure env t er s) \<noteq> None"
  by (simp add: return_failure_def split: prod.split)

lemma execute_stops_ok:
  assumes "before_part events initial vm e jc t0 k t s"
    and "\<forall>k. units_closed vm (set (running (run_engine s)) - set (take k as))" "set as \<subseteq> known_units vm"
    and ac: "acyclic (vm_depends vm)" and dd: "\<And>i d. FindDomain vm i = Some d \<Longrightarrow> dd_id d = i"
  shows "\<exists>p. execute_stops env deadline as t s = Some p \<and> part_ok events initial vm e jc t0 k p \<and>
    leaves ((en_configuration (run_engine s))\<lparr>sc_running_units := fold us_erase as (running (run_engine s))\<rparr>) p"
  using assms(1-3)
proof (induction as arbitrary: s)
  case Nil
  then show ?case by (simp add: before_part_def leaves_def)
next
  case (Cons a as)
  have vm: "en_model (run_engine s) = vm" using Cons.prems(1) by (rule before_partD)
  obtain u where u: "FindUnit vm a = Some u" using Cons.prems(2,3) by (auto simp: known_units_def)
  obtain now s1 where s1: "in_world (env_now env) s = (now, s1)" by fastforce
  note e1 = in_world_now [OF s1]
  let ?dl = "min deadline (now + ms (eu_stop_timeout u))"
  obtain r s2 where s2: "in_world (env_stop env a SR_mode_change ?dl) s1 = (r, s2)" by fastforce
  have e2: "run_engine s2 = run_engine s" "events (run_world s2) = events (run_world s)"
    using in_world_stop [OF s2] e1 by simp_all
  have bp2: "before_part events initial vm e jc t0 k t s2"
    using before_part_running [OF Cons.prems(1), of s2] e2 closed_now(1) [OF Cons.prems(2)] by simp
  note unf = execute_stops.simps(2) [of env deadline a as t s] IsCancelled_id vm u s1 s2
  show ?case
  proof (cases "um_find (en_cancellation (run_engine s)) (ts_id t) = Some True")
    case True
    then have eq: "execute_stops env deadline (a # as) t s =
        Some (return_failure env t (MakeError EC_cancelled ''transition was cancelled'' 0) s)"
      using unf by simp
    show ?thesis
      unfolding eq using return_failure_ok [OF Cons.prems(1)] leaves_early [OF return_failure_stops] by blast
  next
    case go: False
    show ?thesis
    proof (cases "\<exists>ev. r = Inr ev \<and> be_state ev = AS_stopped")
      case True
      let ?s = "with_engine (set_running (us_erase a)) s2"
      have eq: "execute_stops env deadline (a # as) t s = execute_stops env deadline as t ?s"
        using True go unf by auto
      have run: "running (run_engine ?s) = us_erase a (running (run_engine s))"
        by (simp add: set_running_run e2)
      have c: "\<forall>k. units_closed vm (set (running (run_engine ?s)) - set (take k as))"
        using closed_erase [OF Cons.prems(2)] unfolding run .
      have "before_part events initial vm e jc t0 k t ?s"
        by (rule before_part_running [OF bp2 set_running_run(1) _ closed_now(1) [OF c]]) (simp add: set_running_run)
      from Cons.IH [OF this c] Cons.prems(3)
      show ?thesis unfolding eq by (simp add: run set_running_def e2)
    next
      case False
      then have "\<exists>er ev. execute_stops env deadline (a # as) t s = return_recovery env t er a ev s2"
        using go unf by (cases r) auto
      then show ?thesis
        using return_recovery_ok [OF bp2 ac dd] leaves_early by metis
    qed
  qed
qed

lemma start_attempts_frame:
  "start_attempts env d a deadline n er ev s = (ok, er', ev', s') \<Longrightarrow>
     run_engine s' = run_engine s \<and> events (run_world s') = events (run_world s)"
proof (induction n arbitrary: er ev s)
  case (Suc n)
  obtain now s1 where s1: "in_world (env_now env) s = (now, s1)" by fastforce
  note e1 = in_world_now [OF s1]
  show ?case
  proof (cases "deadline \<le> now")
    case True
    then show ?thesis using Suc.prems s1 e1 by auto
  next
    case False
    obtain st s2 where s2: "in_world (env_start env a (min deadline (now + ms (eu_start_timeout d)))) s1 = (st, s2)" by fastforce
    note e2 = in_world_start [OF s2]
    obtain reached er2 ev2 where o: "(case st of
                 Inr ev \<Rightarrow> if start_state_reached d ev then (True, er, ev) else (False, not_reached, ev)
               | Inl e \<Rightarrow> (False, e, ev)) = (reached, er2, ev2)" by (rule prod_cases3)
    obtain now3 s3 where s3: "in_world (env_now env) s2 = (now3, s3)" by fastforce
    note e3 = in_world_now [OF s3]
    obtain c s4 where s4: "in_world (env_stop env a SR_restart (min deadline (now3 + ms (eu_stop_timeout d)))) s3 = (c, s4)"
      by fastforce
    note e4 = in_world_stop [OF s4]
    obtain now5 s5 where s5: "in_world (env_now env) s4 = (now5, s5)" by fastforce
    note e5 = in_world_now [OF s5]
    let ?s6 = "sleep_until env (min deadline (now5 + ms (retry_delay (eu_retry d)))) s5"
    note e6 = sleep_events [of "min deadline (now5 + ms (retry_delay (eu_retry d)))" s5]
    show ?thesis
    proof (cases "reached \<or> n = 0")
      case True
      then show ?thesis using Suc.prems s1 s2 e1 e2 False o by (auto simp: Let_def split: if_splits)
    next
      case go_on: False
      show ?thesis
      proof (cases "\<exists>x. c = Inr x \<and> be_state x = AS_stopped")
        case True
        then have "start_attempts env d a deadline n er2 ev2 ?s6 = (ok, er', ev', s')"
          using Suc.prems go_on False o by (auto simp: s1 s2 s3 s4 s5 Let_def)
        from Suc.IH [OF this] show ?thesis using e1 e2 e3 e4 e5 e6 by simp
      next
        case stop: False
        then have "s' = s4"
          using Suc.prems go_on False o by (cases c) (auto simp: s1 s2 s3 s4 Let_def)
        then show ?thesis using e1 e2 e3 e4 by simp
      qed
    qed
  qed
qed simp

lemma execute_starts_ok:
  assumes "before_part events initial vm e jc t0 k t s"
    and "\<forall>k. units_closed vm (set (running (run_engine s)) \<union> set (take k as))" "set as \<subseteq> known_units vm"
    and ac: "acyclic (vm_depends vm)" and dd: "\<And>i d. FindDomain vm i = Some d \<Longrightarrow> dd_id d = i"
  shows "\<exists>p. execute_starts env deadline as t s = Some p \<and> part_ok events initial vm e jc t0 k p \<and>
    leaves ((en_configuration (run_engine s))\<lparr>sc_running_units := fold us_insert as (running (run_engine s))\<rparr>) p"
  using assms(1-3)
proof (induction as arbitrary: s)
  case Nil
  then show ?case by (simp add: before_part_def leaves_def)
next
  case (Cons a as)
  have vm: "en_model (run_engine s) = vm" using Cons.prems(1) by (rule before_partD)
  obtain u where u: "FindUnit vm a = Some u" using Cons.prems(2,3) by (auto simp: known_units_def)
  obtain ok er ev s2 where s2: "start_attempts env u a deadline (unat (max_attempts (eu_retry u))) not_reached no_evidence s
      = (ok, er, ev, s2)" by (metis prod_cases4)
  note e2 = start_attempts_frame [OF s2]
  have bp2: "before_part events initial vm e jc t0 k t s2"
    using before_part_running [OF Cons.prems(1), of s2] e2 closed_now(2) [OF Cons.prems(2)] by simp
  note unf = execute_starts.simps(2) [of env deadline a as t s] IsCancelled_id vm u s2
  show ?case
  proof (cases "um_find (en_cancellation (run_engine s)) (ts_id t) = Some True")
    case True
    then have eq: "execute_starts env deadline (a # as) t s =
        Some (return_failure env t (MakeError EC_cancelled ''transition was cancelled'' 0) s)"
      using unf by simp
    show ?thesis
      unfolding eq using return_failure_ok [OF Cons.prems(1)] leaves_early [OF return_failure_stops] by blast
  next
    case go: False
    show ?thesis
    proof (cases ok)
      case True
      let ?s = "with_engine (set_running (us_insert a)) s2"
      have eq: "execute_starts env deadline (a # as) t s = execute_starts env deadline as t ?s"
        using True go unf by auto
      have run: "running (run_engine ?s) = us_insert a (running (run_engine s))"
        by (simp add: set_running_run e2)
      have c: "\<forall>k. units_closed vm (set (running (run_engine ?s)) \<union> set (take k as))"
        using closed_insert [OF Cons.prems(2)] unfolding run .
      have "before_part events initial vm e jc t0 k t ?s"
        by (rule before_part_running [OF bp2 set_running_run(1) _ closed_now(2) [OF c]]) (simp add: set_running_run)
      from Cons.IH [OF this c] Cons.prems(3)
      show ?thesis unfolding eq by (simp add: run set_running_def e2)
    next
      case False
      then have "execute_starts env deadline (a # as) t s = return_recovery env t er a ev s2"
        using go unf by auto
      then show ?thesis
        using return_recovery_ok [OF bp2 ac dd] leaves_early by metis
    qed
  qed
qed

end

text \<open>The end of \<open>Execute\<close>: an early result is terminal, and the normal one has committed the
  configuration \<open>cf\<close>, with the journal replaying to \<open>jf\<close>.\<close>

definition final_ok ::
  "('w \<Rightarrow> JournalEvent list) \<Rightarrow> SystemConfiguration \<Rightarrow> ValidatedModel \<Rightarrow> Engine \<Rightarrow> SystemConfiguration
     \<Rightarrow> SystemConfiguration \<Rightarrow> 'w part \<Rightarrow> bool" where
  "final_ok events initial vm e cf jf p \<longleftrightarrow>
     (case p of (r, t', s') \<Rightarrow>
        (\<exists>st. journal_inv initial (events (run_world s')) (run_engine s') st \<and> (r = None \<longrightarrow> rs_configuration st = jf)) \<and>
        configuration_ok vm (en_configuration (run_engine s')) \<and> frame e (run_engine s') \<and>
        (\<forall>x. r = Some (Inr x) \<longrightarrow> is_terminal (ts_phase x) \<and> ts_phase x \<noteq> TP_succeeded) \<and>
        (r = None \<longrightarrow> ts_phase t' = TP_succeeded \<and> en_configuration (run_engine s') = cf))"

lemma part_early_final:
  "part_ok events initial vm e jc t0 k p \<Longrightarrow> fst p \<noteq> None \<Longrightarrow> final_ok events initial vm e cf jf p"
  unfolding part_ok_def final_ok_def by (auto split: prod.splits)

lemma and_next_final:
  assumes "m = Some p" and "part_ok events initial vm e jc t0 k p" and "leaves c p" and "en_model e = vm"
    and "\<And>t s. p = (None, t, s) \<Longrightarrow> before_part events initial vm e jc t0 k t s \<Longrightarrow> en_configuration (run_engine s) = c \<Longrightarrow>
      \<exists>q. f t s = Some q \<and> final_ok events initial vm e cf jf q"
  shows "\<exists>q. and_next m f = Some q \<and> final_ok events initial vm e cf jf q"
proof (cases "fst p")
  case None
  then obtain t s where p: "p = (None, t, s)" by (metis prod.collapse)
  show ?thesis
    using assms(5) [OF p] assms(1-4) p by (simp add: and_next_def before_part_def leaves_def)
next
  case (Some x)
  then have "and_next m f = Some p" using assms(1) by (cases p) (simp add: and_next_def)
  then show ?thesis using part_early_final [OF assms(2)] Some by simp
qed

lemma phase_steps [simp]:
  "TP_planned < TP_stopping" "TP_planned < TP_starting" "TP_stopping < TP_starting" "TP_starting < TP_awaiting_readiness"
  "TP_awaiting_readiness < TP_committing" "TP_committing < TP_succeeded" "TP_stopping \<le> TP_committing" "TP_planned \<le> TP_committing"
  "TP_starting \<le> TP_committing" "TP_awaiting_readiness \<le> TP_committing" "TP_planned \<le> TP_stopping"
  "TP_stopping \<le> TP_awaiting_readiness" "TP_starting \<le> TP_awaiting_readiness"
  by (simp_all add: less_TransitionPhase_def less_eq_TransitionPhase_def phase_value_def transition_phases_def)

context engine_journal
begin

lemma record_leaves:
  assumes "before_part events initial vm e jc t0 k t s" "k < ph" "ph \<le> TP_committing"
  shows "leaves (en_configuration (run_engine s)) (record_or_fail env t ph s)"
  using record_or_fail_ok(2) [OF assms] by (simp add: leaves_def)

lemma record_starting_ok:
  assumes bp: "before_part events initial vm e jc t0 TP_stopping t s" and known: "set as \<subseteq> known_units vm"
  shows "\<exists>p. record_starting env as t s = Some p \<and> part_ok events initial vm e jc t0 TP_awaiting_readiness p \<and>
    leaves (en_configuration (run_engine s)) p"
proof (cases "as = []")
  case True
  have "before_part events initial vm e jc t0 TP_awaiting_readiness t s"
    using bp by (rule before_part_weaken) simp_all
  then show ?thesis using True by (simp add: record_starting_def before_part_def leaves_def)
next
  case False
  obtain r t1 s1 where rec: "record_or_fail env t TP_starting s = (r, t1, s1)" by (metis prod_cases3)
  note ok = record_or_fail_ok(1) [OF bp, of TP_starting, unfolded rec]
  note lv = record_leaves [OF bp, of TP_starting, unfolded rec]
  show ?thesis
  proof (cases r)
    case (Some x)
    then show ?thesis using rec False ok lv by (auto simp: record_starting_def part_ok_def)
  next
    case None
    then have bp1: "before_part events initial vm e jc t0 TP_starting t1 s1"
      using ok bp by (simp add: before_part_def)
    have c1: "en_configuration (run_engine s1) = en_configuration (run_engine s)"
      using lv None by (simp add: leaves_def)
    have vm: "en_model (run_engine s1) = vm" using bp1 by (rule before_partD)
    let ?rs = "map (\<lambda>a. map_option eu_readiness (FindUnit vm a)) as"
    have "None \<notin> set ?rs" using known by (auto simp: known_units_def)
    then have "None \<notin> set (takeWhile (\<lambda>r. r = None \<or> r = Some RD_process_started) ?rs)"
      by (meson set_takeWhileD)
    then have unf: "record_starting env as t s = (if list_ex (\<lambda>r. r \<noteq> Some RD_process_started) ?rs
        then Some (record_or_fail env t1 TP_awaiting_readiness s1) else Some (None, t1, s1))"
      using rec None False vm by (simp add: record_starting_def Let_def)
    have bp2: "before_part events initial vm e jc t0 TP_awaiting_readiness t1 s1"
      using bp1 by (rule before_part_weaken) simp_all
    show ?thesis
    proof (cases "list_ex (\<lambda>r. r \<noteq> Some RD_process_started) ?rs")
      case True
      then have "record_starting env as t s = Some (record_or_fail env t1 TP_awaiting_readiness s1)"
        unfolding unf by simp
      then show ?thesis
        using record_or_fail_ok(1) [OF bp1, of TP_awaiting_readiness] record_leaves [OF bp1, of TP_awaiting_readiness]
        unfolding c1 by (metis phase_steps(4,10))
    next
      case False
      then have "record_starting env as t s = Some (None, t1, s1)" unfolding unf by simp
      then show ?thesis using bp2 c1 by (simp add: before_part_def leaves_def)
    qed
  qed
qed

lemma check_replan_ok:
  assumes bp: "before_part events initial vm e jc t0 k t s" and ac: "acyclic (vm_depends vm)"
  shows "\<exists>p. check_replan env plan t s = Some p \<and> part_ok events initial vm e jc t0 k p \<and>
    leaves (en_configuration (run_engine s)) p \<and>
    (fst p = None \<longrightarrow> p = (None, t, s) \<and> (\<exists>re. BuildPlan vm (en_configuration (run_engine s)) (ts_domain t) (ts_target_mode t) False
       = Some (Inr re) \<and> tp_start re = tp_start plan \<and> tp_stop re = tp_stop plan))"
proof -
  have cfg: "configuration_ok vm (en_configuration (run_engine s))" and vm: "en_model (run_engine s) = vm"
    using bp by (auto elim: before_partD)
  have "set (running (run_engine s)) \<subseteq> known_units vm" using cfg by (simp add: configuration_ok_def units_closed_def)
  then obtain p where p: "BuildPlan vm (en_configuration (run_engine s)) (ts_domain t) (ts_target_mode t) False = Some p"
    using BuildPlan_not_None [OF _ ac] by blast
  have early: "\<exists>q. Some (return_failure env t er s) = Some q \<and> part_ok events initial vm e jc t0 k q \<and>
      leaves (en_configuration (run_engine s)) q \<and> fst q \<noteq> None" for er
    using return_failure_ok [OF bp] return_failure_stops leaves_early [OF return_failure_stops] by blast
  show ?thesis
  proof (cases "\<exists>re. p = Inr re \<and> tp_start re = tp_start plan \<and> tp_stop re = tp_stop plan")
    case True
    then obtain re where re: "p = Inr re" "tp_start re = tp_start plan" "tp_stop re = tp_stop plan" by blast
    then have "check_replan env plan t s = Some (None, t, s)"
      using p vm by (simp add: check_replan_def Plan_def)
    then show ?thesis using bp p re by (auto simp: before_part_def leaves_def)
  next
    case False
    then have "\<exists>er. check_replan env plan t s = Some (return_failure env t er s)"
      using p vm by (cases p) (auto simp: check_replan_def Plan_def)
    then show ?thesis using early by metis
  qed
qed

end

lemma before_part_mode:
  assumes bp: "before_part events initial vm e jc t0 k t s"
    and sel: "modes_selected vm (um_set d m (sc_committed_modes (en_configuration (run_engine s))))"
  shows "before_part events initial vm e jc t0 k t (with_engine (set_mode d m) s)"
proof -
  obtain st where b: "journal_inv initial (events (run_world s)) (run_engine s) st" "rs_configuration st = jc"
    "configuration_ok vm (en_configuration (run_engine s))" "frame e (run_engine s)" "tracked (run_engine s) t k"
    "ts_failure t = None" "same_identity t t0" "en_model (run_engine s) = vm"
    using bp by (rule before_partD)
  let ?e = "set_mode d m (run_engine s)"
  have "journal_inv initial (events (run_world s)) ?e st" "frame e ?e" "configuration_ok vm (en_configuration ?e)"
    using b(1,3,4) sel by (simp_all add: journal_inv_def set_mode_def frame_def configuration_ok_def)
  moreover have "tracked ?e t k"
    using b(5) tracked_only_configuration [OF only_configuration_set_mode] by simp
  ultimately show ?thesis
    using b bp by (auto simp: before_part_def part_ok_def)
qed

definition plan_effect :: "TransitionPlan \<Rightarrow> SystemConfiguration \<Rightarrow> SystemConfiguration" where
  "plan_effect plan c =
     c\<lparr>sc_committed_modes := um_set (tp_domain plan) (tp_target_mode plan) (sc_committed_modes c),
       sc_running_units := fold us_insert (tp_start plan) (fold us_erase (tp_stop plan) (sc_running_units c))\<rparr>"

context engine_journal
begin

lemma record_succeeded_final:
  assumes bp: "before_part events initial vm e jc t0 TP_committing t s"
    and plan: "um_find (en_plans e) (ts_id t0) = Some plan"
  shows "final_ok events initial vm e (en_configuration (run_engine s)) (plan_effect plan jc)
    (record_or_fail env t TP_succeeded s)"
proof -
  obtain st where b: "journal_inv initial (events (run_world s)) (run_engine s) st" "rs_configuration st = jc"
    "configuration_ok vm (en_configuration (run_engine s))" "frame e (run_engine s)" "tracked (run_engine s) t TP_committing"
    "ts_failure t = None" "same_identity t t0" "en_model (run_engine s) = vm"
    using bp by (rule before_partD)
  have plan': "um_find (en_plans (run_engine s)) (ts_id t) = Some plan"
    using plan b(4,7) by (simp add: frame_def same_identity_def)
  obtain r t' s' where rec: "Record env t TP_succeeded s = (r, t', s')" by (metis prod_cases3)
  obtain st' where st': "journal_inv initial (events (run_world s')) (run_engine s') st'"
    "rs_configuration st' = (if has_value r
      then event_effect \<lparr>je_transition = t', je_generation = em_generation (vm_model (en_model (run_engine s))),
           je_plan = um_find (en_plans (run_engine s)) (ts_id t)\<rparr> (rs_configuration st)
      else rs_configuration st)"
    using Record_journal [OF rec b(1) recordable_phase [OF b(5) phase_steps(6) b(6)]] by blast
  from rec show ?thesis
  proof (cases rule: Record_cases)
    case (refused now c)
    have bp': "before_part events initial vm e jc t0 TP_committing t' s'"
      using bp refused st'(1) b by (auto simp: before_part_def part_ok_def has_value_def)
    have "record_or_fail env t TP_succeeded s = return_failure env t'
        (MakeError EC_persistence_error ''transition phase could not be persisted'' c) s'"
      using rec refused(1) by (simp add: record_or_fail_def)
    then show ?thesis using part_early_final [OF return_failure_ok [OF bp'] return_failure_stops] by simp
  next
    case (accepted now)
    have "rs_configuration st' = plan_effect plan jc"
      using st'(2) accepted(1,2) b(2,6) plan' by (simp add: event_effect_def plan_effect_def has_value_def)
    then show ?thesis
      using rec accepted st'(1) b by (auto simp: record_or_fail_def final_ok_def frame_def)
  qed
qed

lemma commit_mode_final:
  assumes bp: "before_part events initial vm e jc t0 TP_awaiting_readiness t s"
    and plan: "um_find (en_plans e) (ts_id t0) = Some plan"
    and sel: "modes_selected vm (um_set d m (sc_committed_modes (en_configuration (run_engine s))))"
  shows "final_ok events initial vm e
    ((en_configuration (run_engine s))\<lparr>sc_committed_modes := um_set d m (sc_committed_modes (en_configuration (run_engine s)))\<rparr>)
    (plan_effect plan jc) (commit_mode env d m t s)"
proof -
  obtain r t1 s1 where rec: "record_or_fail env t TP_committing s = (r, t1, s1)" by (metis prod_cases3)
  note ok = record_or_fail_ok [OF bp, of TP_committing, unfolded rec, simplified]
  show ?thesis
  proof (cases r)
    case (Some x)
    then show ?thesis using rec part_early_final [OF ok(1)] by (simp add: commit_mode_def)
  next
    case None
    have bp1: "before_part events initial vm e jc t0 TP_committing t1 s1"
      using ok(1) bp None by (simp add: before_part_def)
    have c1: "en_configuration (run_engine s1) = en_configuration (run_engine s)" using ok(2) None by simp
    have "before_part events initial vm e jc t0 TP_committing t1 (with_engine (set_mode d m) s1)"
      using bp1 by (rule before_part_mode) (simp add: c1 sel)
    from record_succeeded_final [OF this plan] show ?thesis
      using rec None c1 by (simp add: commit_mode_def set_mode_def)
  qed
qed

text \<open>From the second plan on: stops, records, starts, commit.\<close>

lemma execute_planned_ok:
  assumes bp: "before_part events initial vm e jc t0 TP_planned t s" and ac: "acyclic (vm_depends vm)"
    and dd: "\<And>i d. FindDomain vm i = Some d \<Longrightarrow> dd_id d = i"
    and plan: "um_find (en_plans e) (ts_id t0) = Some plan" and c: "en_configuration (run_engine s) = c"
    and re: "BuildPlan vm c (tp_domain plan) (tp_target_mode plan) False = Some (Inr re)"
      "tp_start re = tp_start plan" "tp_stop re = tp_stop plan"
  shows "\<exists>q. and_next (if tp_stop plan = [] then Some (None, t, s) else Some (record_or_fail env t TP_stopping s)) (\<lambda>t s.
     and_next (execute_stops env deadline (tp_stop plan) t s) (\<lambda>t s.
     and_next (record_starting env (tp_start plan) t s) (\<lambda>t s.
     and_next (execute_starts env deadline (tp_start plan) t s) (\<lambda>t s.
     Some (commit_mode env (tp_domain plan) (tp_target_mode plan) t s))))) = Some q \<and>
    final_ok events initial vm e (plan_effect plan c) (plan_effect plan jc) q"
proof -
  define c2 where "c2 = c\<lparr>sc_running_units := fold us_erase (tp_stop plan) (sc_running_units c)\<rparr>"
  define c3 where "c3 = c2\<lparr>sc_running_units := fold us_insert (tp_start plan) (sc_running_units c2)\<rparr>"
  have vm: "en_model e = vm" using bp by (simp add: before_part_def)
  have "configuration_ok vm c" using bp c by (auto elim: before_partD)
  then have closed: "units_closed vm (set (sc_running_units c))" by (simp add: configuration_ok_def)
  have k: "\<forall>k. units_closed vm (set (sc_running_units c) - set (take k (tp_stop plan)))"
    "\<forall>k. units_closed vm (set (sc_running_units c2) \<union> set (take k (tp_start plan)))"
    using BuildPlan_keeps_closed [OF re(1) closed ac] re(2,3) by (simp_all add: c2_def us.elems_fold_erase)
  have known: "set (tp_stop plan) \<subseteq> known_units vm" "set (tp_start plan) \<subseteq> known_units vm"
    using BuildPlan_known(2,3) [OF re(1) closed ac] re(2,3) by simp_all
  have sel: "modes_selected vm (um_set (tp_domain plan) (tp_target_mode plan) (sc_committed_modes c3))"
    using BuildPlan_modes_selected [OF re(1)] by (simp add: c3_def c2_def)
  have eff: "c3\<lparr>sc_committed_modes := um_set (tp_domain plan) (tp_target_mode plan) (sc_committed_modes c3)\<rparr> = plan_effect plan c"
    by (cases c) (simp add: plan_effect_def c3_def c2_def)
  let ?fin = "\<lambda>m. \<exists>q. m = Some q \<and> final_ok events initial vm e (plan_effect plan c) (plan_effect plan jc) q"
  have 5: "?fin (Some (commit_mode env (tp_domain plan) (tp_target_mode plan) t s))"
    if "before_part events initial vm e jc t0 TP_awaiting_readiness t s" "en_configuration (run_engine s) = c3" for t s
    using commit_mode_final [OF that(1) plan, of "tp_domain plan" "tp_target_mode plan"] sel
    unfolding that(2) eff by simp
  have 4: "?fin (and_next (execute_starts env deadline (tp_start plan) t s)
        (\<lambda>t s. Some (commit_mode env (tp_domain plan) (tp_target_mode plan) t s)))"
    if b: "before_part events initial vm e jc t0 TP_awaiting_readiness t s" "en_configuration (run_engine s) = c2" for t s
  proof -
    obtain p where p: "execute_starts env deadline (tp_start plan) t s = Some p"
      "part_ok events initial vm e jc t0 TP_awaiting_readiness p" "leaves c3 p"
      using execute_starts_ok [OF b(1) _ known(2) ac dd, of deadline] k(2) b(2) unfolding c3_def by metis
    show ?thesis by (rule and_next_final [OF p vm 5])
  qed
  have 3: "?fin (and_next (record_starting env (tp_start plan) t s) (\<lambda>t s. and_next (execute_starts env deadline (tp_start plan) t s)
        (\<lambda>t s. Some (commit_mode env (tp_domain plan) (tp_target_mode plan) t s))))"
    if b: "before_part events initial vm e jc t0 TP_stopping t s" "en_configuration (run_engine s) = c2" for t s
  proof -
    obtain p where p: "record_starting env (tp_start plan) t s = Some p"
      "part_ok events initial vm e jc t0 TP_awaiting_readiness p" "leaves c2 p"
      using record_starting_ok [OF b(1) known(2)] b(2) by metis
    show ?thesis by (rule and_next_final [OF p vm 4])
  qed
  have 2: "?fin (and_next (execute_stops env deadline (tp_stop plan) t s) (\<lambda>t s. and_next (record_starting env (tp_start plan) t s)
        (\<lambda>t s. and_next (execute_starts env deadline (tp_start plan) t s)
        (\<lambda>t s. Some (commit_mode env (tp_domain plan) (tp_target_mode plan) t s)))))"
    if b: "before_part events initial vm e jc t0 TP_stopping t s" "en_configuration (run_engine s) = c" for t s
  proof -
    obtain p where p: "execute_stops env deadline (tp_stop plan) t s = Some p"
      "part_ok events initial vm e jc t0 TP_stopping p" "leaves c2 p"
      using execute_stops_ok [OF b(1) _ known(1) ac dd, of deadline] k(1) b(2) unfolding c2_def by metis
    show ?thesis by (rule and_next_final [OF p vm 3])
  qed
  let ?p = "if tp_stop plan = [] then (None, t, s) else record_or_fail env t TP_stopping s"
  have p: "(if tp_stop plan = [] then Some (None, t, s) else Some (record_or_fail env t TP_stopping s)) = Some ?p"
    by simp
  have ok: "part_ok events initial vm e jc t0 TP_stopping ?p" "leaves c ?p"
    using record_or_fail_ok(1) [OF bp, of TP_stopping] record_leaves [OF bp, of TP_stopping]
      before_part_weaken [OF bp, of TP_stopping] c by (simp_all add: before_part_def leaves_def)
  show ?thesis by (rule and_next_final [OF p ok vm 2])
qed

lemma execute_leased_ok:
  assumes bp: "before_part events initial vm e jc t TP_planned t s" and ac: "acyclic (vm_depends vm)"
    and dd: "\<And>i d. FindDomain vm i = Some d \<Longrightarrow> dd_id d = i"
    and plan: "um_find (en_plans e) (ts_id t) = Some plan"
  shows "\<exists>q. execute_leased env plan deadline t s = Some q \<and>
    final_ok events initial vm e (plan_effect plan (en_configuration (run_engine s))) (plan_effect plan jc) q"
proof -
  let ?c = "en_configuration (run_engine s)"
  have vm: "en_model e = vm" using bp by (simp add: before_part_def)
  have tr: "tracked (run_engine s) t TP_planned" and fr: "frame e (run_engine s)"
    using bp by (auto simp: before_part_def part_ok_def)
  have "um_find (en_plans (run_engine s)) (ts_id t) = Some plan" using plan fr by (simp add: frame_def)
  moreover have "\<exists>plan. um_find (en_plans (run_engine s)) (ts_id t) = Some plan \<and> plan_ok (en_model (run_engine s)) t plan"
    using tr unfolding tracked_def by blast
  ultimately have "plan_ok (en_model (run_engine s)) t plan" by auto
  then have pd: "ts_domain t = tp_domain plan" "ts_target_mode t = tp_target_mode plan"
    unfolding plan_ok_def by auto
  obtain p where p: "check_replan env plan t s = Some p" "part_ok events initial vm e jc t TP_planned p"
    "leaves ?c p" "fst p = None \<longrightarrow> p = (None, t, s) \<and> (\<exists>re. BuildPlan vm ?c (tp_domain plan) (tp_target_mode plan) False
       = Some (Inr re) \<and> tp_start re = tp_start plan \<and> tp_stop re = tp_stop plan)"
    using check_replan_ok [OF bp ac, of plan] unfolding pd by (elim exE conjE) (rule that)
  show ?thesis
    unfolding execute_leased_def pd
  proof (rule and_next_final [OF p(1-3) vm], goal_cases)
    case (1 t1 s1)
    then obtain re where "BuildPlan vm ?c (tp_domain plan) (tp_target_mode plan) False = Some (Inr re)"
      "tp_start re = tp_start plan" "tp_stop re = tp_stop plan"
      using p(4) unfolding 1(1) fst_conv by blast
    then show ?case by (intro execute_planned_ok [OF 1(2) ac _ plan 1(3)] dd)
  qed
qed

end

section \<open>Whole requests\<close>

text \<open>The engine between requests.\<close>

definition engine_inv :: "('w \<Rightarrow> JournalEvent list) \<Rightarrow> SystemConfiguration \<Rightarrow> ValidatedModel \<Rightarrow> 'w Run \<Rightarrow> bool" where
  "engine_inv events initial vm s \<longleftrightarrow>
     en_model (run_engine s) = vm \<and> configuration_ok vm (en_configuration (run_engine s)) \<and>
     (\<exists>st. journal_inv initial (events (run_world s)) (run_engine s) st) \<and>
     (\<forall>i p. um_find (en_plans (run_engine s)) i = Some p \<longrightarrow> i < en_next_transition (run_engine s))"

definition journaled_configuration :: "SystemConfiguration \<Rightarrow> ValidatedModel \<Rightarrow> JournalEvent list \<Rightarrow> SystemConfiguration \<Rightarrow> bool" where
  "journaled_configuration initial vm evs c \<longleftrightarrow>
     (\<exists>st. replay_events vm evs (replay_start initial) = Inr st \<and> rs_configuration st = c)"

lemma journal_inv_scheduler:
  "journal_inv initial evs (e\<lparr>en_scheduler := sch\<rparr>) st = journal_inv initial evs e st"
  by (simp add: journal_inv_def)

lemma tracked_scheduler: "tracked (e\<lparr>en_scheduler := sch\<rparr>) t k = tracked e t k"
  by (simp add: tracked_def)

lemma Acquire_lease: "Acquire w i r s = (Inr l, s') \<Longrightarrow> l = \<lparr>lease_live = True, lease_owner = i\<rparr> \<and> i \<noteq> 0"
  by (auto simp: Acquire_def acquire_arguments_def id_valid_def Let_def split: option.splits if_splits)

lemma Acquire_error: "fst (Acquire w i r s) = Inl e \<Longrightarrow> snd (Acquire w i r s) \<in> {s, w s}"
  by (auto simp: Acquire_def Let_def split: option.splits if_splits)

lemma Release_lease: "um_find (ss_leases (Release i s)) i = None"
  by (simp add: Release_def)

context engine_journal
begin

lemma engine_acquire_cases:
  assumes "engine_acquire env i r s = (l, s')"
  obtains (refused) e where "l = Inl e" "s' = s"
  | (granted) sch where "l = Inr \<lparr>lease_live = True, lease_owner = i\<rparr>" "id_valid i"
      "s' = with_engine (\<lambda>e. e\<lparr>en_scheduler := sch\<rparr>) s"
proof -
  obtain l' sch where a: "Acquire (\<lambda>_. en_scheduler (run_engine s)) i r (en_scheduler (run_engine s)) = (l', sch)"
    by fastforce
  have "(if acquire_waits i r (en_scheduler (run_engine s)) then env_wait env (run_engine s) (run_world s)
      else (run_engine s, run_world s)) = (run_engine s, run_world s)"
    by (simp add: no_wait)
  then have eq: "l = l'" "s' = with_engine (\<lambda>e. e\<lparr>en_scheduler := sch\<rparr>) s"
    using assms a unfolding engine_acquire_def by (auto simp: with_engine_def)
  show ?thesis
  proof (cases l')
    case (Inl e)
    have "sch = en_scheduler (run_engine s)"
      using Acquire_error [of "\<lambda>_. en_scheduler (run_engine s)" i r "en_scheduler (run_engine s)" e] a Inl by simp
    then show ?thesis using eq Inl by (intro refused) (simp_all add: with_engine_def)
  next
    case (Inr l)
    then show ?thesis using eq a Acquire_lease by (intro granted [of sch]) (auto simp: id_valid_def)
  qed
qed

lemma Execute_ok:
  assumes inv: "engine_inv events initial vm s" and jc: "journaled_configuration initial vm (events (run_world s)) jc"
    and ac: "acyclic (vm_depends vm)" and dd: "\<And>i d. FindDomain vm i = Some d \<Longrightarrow> dd_id d = i"
    and t: "um_find (en_transitions (run_engine s)) (at_id acc) = Some t" "ts_id t = at_id acc"
      "tracked (run_engine s) t TP_planned" "ts_failure t = None"
    and plan: "um_find (en_plans (run_engine s)) (at_id acc) = Some (at_plan acc)"
    and free: "um_find (ss_leases (en_scheduler (run_engine s))) (at_id acc) = None"
  shows "\<exists>r s'. Execute env acc s = Some (r, s') \<and> engine_inv events initial vm s' \<and>
    um_find (ss_leases (en_scheduler (run_engine s'))) (at_id acc) = None \<and>
    en_next_transition (run_engine s') = en_next_transition (run_engine s) \<and>
    (\<forall>t'. r = Inr t' \<longrightarrow> is_terminal (ts_phase t')) \<and>
    (\<forall>t'. r = Inr t' \<and> ts_phase t' = TP_succeeded \<longrightarrow>
       en_configuration (run_engine s') = plan_effect (at_plan acc) (en_configuration (run_engine s)) \<and>
       journaled_configuration initial vm (events (run_world s')) (plan_effect (at_plan acc) jc))"
proof -
  obtain st where st: "journal_inv initial (events (run_world s)) (run_engine s) st"
    using inv by (auto simp: engine_inv_def)
  have vm: "en_model (run_engine s) = vm" and cfg: "configuration_ok vm (en_configuration (run_engine s))"
    using inv by (simp_all add: engine_inv_def)
  have jst: "rs_configuration st = jc"
    using st jc vm by (auto simp: journal_inv_def journaled_configuration_def)
  obtain l s1 where acq: "engine_acquire env (at_id acc) (plan_resources (at_plan acc)) s = (l, s1)" by fastforce
  have get: "GetTransition env (at_id acc) s = (Inr t, s)" using t(1) by (simp add: GetTransition_def)
  from acq show ?thesis
  proof (cases rule: engine_acquire_cases)
    case (refused e)
    obtain t2 s2 where f: "Fail env t e None no_evidence s = (t2, s2)" by fastforce
    obtain st' where "journal_inv initial (events (run_world s2)) (run_engine s2) st'"
      "only_transitions (run_engine s) (run_engine s2)" "is_terminal (ts_phase t2)" "ts_phase t2 \<noteq> TP_succeeded"
      using Fail_journal [OF f st t(3)] by metis
    moreover have "Execute env acc s = Some (Inr t2, s2)"
      using get acq refused f t(2) by (simp add: Execute_def)
    ultimately show ?thesis
      using inv free by (auto simp: engine_inv_def only_transitions_def)
  next
    case (granted sch)
    have bp: "before_part events initial vm (run_engine s1) jc t TP_planned t s1"
      unfolding before_part_def part_ok_def granted(3) using st cfg vm t(3,4) jst
      by (auto simp: frame_def journal_inv_scheduler tracked_scheduler)
    have plan1: "um_find (en_plans (run_engine s1)) (ts_id t) = Some (at_plan acc)"
      using plan granted(3) t(2) by simp
    obtain r t2 s2 where q: "execute_leased env (at_plan acc) (at_deadline acc) t s1 = Some (r, t2, s2)"
      and fin: "final_ok events initial vm (run_engine s1) (plan_effect (at_plan acc) (en_configuration (run_engine s1)))
        (plan_effect (at_plan acc) jc) (r, t2, s2)"
    proof -
      have "\<exists>q. execute_leased env (at_plan acc) (at_deadline acc) t s1 = Some q \<and>
        final_ok events initial vm (run_engine s1) (plan_effect (at_plan acc) (en_configuration (run_engine s1)))
        (plan_effect (at_plan acc) jc) q"
        by (rule execute_leased_ok [OF bp ac _ plan1]) (rule dd)
      then show ?thesis using that by (metis prod_cases3)
    qed
    let ?s = "with_engine (\<lambda>e. e\<lparr>en_scheduler := snd (Lease_Reset \<lparr>lease_live = True, lease_owner = at_id acc\<rparr> (en_scheduler e))\<rparr>) s2"
    have run: "Execute env acc s = Some (case r of Some r \<Rightarrow> r | None \<Rightarrow> Inr t2, ?s)"
      using get acq granted(1) t(2) q by (simp add: Execute_def)
    obtain st2 where st2: "journal_inv initial (events (run_world s2)) (run_engine s2) st2"
      "r = None \<longrightarrow> rs_configuration st2 = plan_effect (at_plan acc) jc"
      using fin by (auto simp: final_ok_def)
    have rest: "configuration_ok vm (en_configuration (run_engine s2))" "frame (run_engine s1) (run_engine s2)"
      "\<forall>x. r = Some (Inr x) \<longrightarrow> is_terminal (ts_phase x) \<and> ts_phase x \<noteq> TP_succeeded"
      "r = None \<longrightarrow> ts_phase t2 = TP_succeeded \<and>
         en_configuration (run_engine s2) = plan_effect (at_plan acc) (en_configuration (run_engine s1))"
      using fin by (simp_all add: final_ok_def)
    have s1: "en_plans (run_engine s1) = en_plans (run_engine s)" "en_model (run_engine s1) = vm"
      "en_next_transition (run_engine s1) = en_next_transition (run_engine s)"
      "en_configuration (run_engine s1) = en_configuration (run_engine s)"
      using granted(3) vm by simp_all
    have "engine_inv events initial vm ?s"
      using inv st2(1) rest(1,2) s1 by (auto simp: engine_inv_def frame_def journal_inv_scheduler)
    moreover have "um_find (ss_leases (en_scheduler (run_engine ?s))) (at_id acc) = None"
      using granted(2) by (simp add: Lease_Reset_def Release_lease)
    moreover have "en_next_transition (run_engine ?s) = en_next_transition (run_engine s)"
      using rest(2) s1 by (simp add: frame_def)
    moreover have "is_terminal (ts_phase t')" if "(case r of Some r \<Rightarrow> r | None \<Rightarrow> Inr t2) = Inr t'" for t'
      using that rest(3,4) by (cases r) (auto simp: is_terminal_def)
    moreover have "en_configuration (run_engine ?s) = plan_effect (at_plan acc) (en_configuration (run_engine s)) \<and>
        journaled_configuration initial vm (events (run_world ?s)) (plan_effect (at_plan acc) jc)"
      if "(case r of Some r \<Rightarrow> r | None \<Rightarrow> Inr t2) = Inr t'" "ts_phase t' = TP_succeeded" for t'
      using that rest(2-4) st2 s1 by (cases r) (auto simp: journaled_configuration_def journal_inv_def frame_def)
    ultimately show ?thesis using run by blast
  qed
qed

end

lemma word_less_inc: "i + 1 \<noteq> 0 \<Longrightarrow> (j :: u64) \<le> i \<Longrightarrow> j < i + 1"
  by (simp add: word_less_nat_alt word_le_nat_alt add.commute [of i] unatSuc)

lemma guarded_domains_known:
  assumes "ValidateModel model = Inr vm" and "FindDomain vm d \<noteq> None"
  shows "\<forall>i \<in> set (guarded_by d (em_domains (vm_model vm))). FindDomain vm i \<noteq> None"
proof -
  have wf: "wf_model model" and vm: "vm = BuildIndex model" "vm_model vm = model"
    using assms(1) by (auto simp: ValidateModel_Inr BuildIndex_def)
  have known: "FindDomain vm i \<noteq> None \<longleftrightarrow> (\<exists>dd \<in> set (em_domains model). dd_id dd = i)" for i
    unfolding vm(1) FindDomain_BuildIndex by (auto simp: find_None_iff)
  have "\<exists>dd \<in> set (em_domains model). dd_id dd = mr_domain (mc_other c)"
    if "cd \<in> set (em_domains model)" "m \<in> set (dd_modes cd)" "c \<in> set (md_constraints m)" for cd m c
    using wf that by (fastforce simp: wf_model_def wf_constraints_def mode_refs_def)
  then show ?thesis
    using guarded_by_props [of d "em_domains model"] assms(2) unfolding vm(2) known
    by (auto simp: guard_set_def split: if_splits)
qed

lemma validated_mode_ids:
  assumes "ValidateModel model = Inr vm" and "FindMode vm d m \<noteq> None"
  shows "id_valid d" "id_valid m"
proof -
  have wf: "wf_model model" and vm: "vm = BuildIndex model" using assms(1) by (auto simp: ValidateModel_Inr)
  obtain dd md where dd: "dd \<in> set (em_domains model)" "dd_id dd = d" "md \<in> set (dd_modes dd)" "md_id md = m"
    using assms(2) FindMode_BuildIndex [OF wf] vm by blast
  have "0 \<notin> set (map dd_id (em_domains model))" "0 \<notin> set (map md_id (dd_modes dd))"
    using wf dd(1) by (auto simp: wf_model_def wf_domain_def wf_identities_def)
  then show "id_valid d" "id_valid m" using dd by (auto simp: id_valid_def)
qed

lemma validated_domain_id:
  "ValidateModel model = Inr vm \<Longrightarrow> FindDomain vm i = Some d \<Longrightarrow> dd_id d = i"
  by (auto simp: ValidateModel_Inr FindDomain_BuildIndex find_Some_iff)

lemma committed_mode:
  assumes "ValidateModel model = Inr vm" and "FindDomain vm d \<noteq> None" and "configuration_ok vm c"
  obtains m where "um_find (sc_committed_modes c) d = Some m" "FindMode vm d m \<noteq> None"
proof -
  have vm: "vm = BuildIndex model" "vm_model vm = model" using assms(1) by (auto simp: ValidateModel_Inr BuildIndex_def)
  then obtain dd where "dd \<in> set (em_domains model)" "dd_id dd = d"
    using assms(2) by (auto simp: FindDomain_BuildIndex find_None_iff)
  then show ?thesis using assms(3) that vm(2) by (fastforce simp: configuration_ok_def modes_selected_def)
qed


definition can_number :: "Engine \<Rightarrow> bool" where
  "can_number e \<longleftrightarrow> en_next_transition e \<noteq> 0 \<and> en_next_transition e + 1 \<noteq> 0"

lemma fresh_transition:
  assumes "journal_inv initial evs e st" and "can_number e"
    and e': "e' = e\<lparr>en_next_transition := en_next_transition e + 1,
      en_transitions := um_emplace (en_next_transition e) t (en_transitions e), en_cancellation := c\<rparr>"
  shows "journal_inv initial evs e' st" and "um_find (en_transitions e') (en_next_transition e) = Some t"
proof -
  let ?i = "en_next_transition e"
  have less: "j < ?i" if "um_find (en_transitions e) j = Some u" for j u
    using assms(1) that by (simp add: journal_inv_def)
  then have none: "um_find (en_transitions e) ?i = None" by (metis less_irrefl not_None_eq)
  then show "um_find (en_transitions e') ?i = Some t" by (simp add: e')
  have "j < ?i + 1" if "um_find (en_transitions e') j = Some u" for j u
    using that none less [of j u] word_less_inc [of ?i j] assms(2)
    by (auto simp: e' can_number_def split: if_splits)
  moreover have "um_find (en_transitions e') j = Some u" if "um_find (rs_transitions st) j = Some u" for j u
    using assms(1) none that by (auto simp: e' journal_inv_def)
  ultimately show "journal_inv initial evs e' st"
    using assms(1) by (simp add: journal_inv_def e')
qed

context engine_journal
begin

lemma Record_tracked:
  assumes rec: "Record env t ph s = (r, t', s')"
    and inv: "journal_inv initial (events (run_world s)) (run_engine s) st"
    and tr: "tracked (run_engine s) t k" "ts_failure t = None" and k: "k < ph" "ph \<le> TP_committing"
  obtains (refused) e where "r = Inl e" "run_engine s' = run_engine s" "events (run_world s') = events (run_world s)"
      "tracked (run_engine s') t' k"
  | (accepted) st' where "r = Inr ()" "journal_inv initial (events (run_world s')) (run_engine s') st'"
      "rs_configuration st' = rs_configuration st" "only_transitions (run_engine s) (run_engine s')"
      "um_find (en_transitions (run_engine s')) (ts_id t) = Some t'" "ts_id t' = ts_id t"
      "tracked (run_engine s') t' ph" "ts_failure t' = None"
  using rec
proof (cases rule: Record_cases)
  case (refused now e)
  then show ?thesis using tr that(1) by simp
next
  case (accepted now)
  obtain st' where st': "journal_inv initial (events (run_world s')) (run_engine s') st'"
    "rs_configuration st' = (if has_value r
      then event_effect \<lparr>je_transition = t', je_generation = em_generation (vm_model (en_model (run_engine s))),
           je_plan = um_find (en_plans (run_engine s)) (ts_id t)\<rparr> (rs_configuration st)
      else rs_configuration st)"
    using Record_journal [OF rec inv recordable_phase [OF tr(1) k(1) tr(2)]] by blast
  have "ph \<noteq> TP_succeeded" using k(2) by (auto simp: less_eq_TransitionPhase_def phase_value_def transition_phases_def)
  then have "rs_configuration st' = rs_configuration st"
    using st'(2) accepted(1,2) tr(2) by (simp add: event_effect_def Let_def has_value_def split: option.split)
  moreover have "tracked (run_engine s') t' ph"
    using tr(1) k(2) accepted(2,3) by (auto simp: tracked_def identity_ok_def plan_ok_def same_identity_def)
  ultimately show ?thesis
    using st'(1) accepted tr(2) by (intro that(2) [of st']) (simp_all add: only_transitions_def)
qed

lemma fail_accept_ok:
  assumes inv: "journal_inv initial (events (run_world s)) (run_engine s) st"
    and rok: "recordable (run_engine s) (t\<lparr>ts_failure := Some (failure_of err None no_evidence)\<rparr>) (terminal_phase (err_code err))"
  shows "\<exists>x s' st'. fail_accept env t err s = (Inl x, s') \<and>
    journal_inv initial (events (run_world s')) (run_engine s') st' \<and> only_transitions (run_engine s) (run_engine s')"
proof -
  obtain t' s' where f: "Fail env t err None no_evidence s = (t', s')" by fastforce
  obtain st' where "journal_inv initial (events (run_world s')) (run_engine s') st'"
    "only_transitions (run_engine s) (run_engine s')"
    using Fail_recordable [OF f inv rok] by blast
  then show ?thesis using f by (auto simp: fail_accept_def)
qed

lemma tracked_failure:
  "tracked e t k \<Longrightarrow> recordable e (t\<lparr>ts_failure := Some (failure_of err a ev)\<rparr>) (terminal_phase c)"
  using committing_before_terminal [OF terminal_phase_terminal, of c]
  by (intro recordable_failure) (auto simp: tracked_def)

text \<open>The end of an acceptance that was planned.\<close>

lemma record_accept_ok:
  assumes inv: "journal_inv initial (events (run_world s)) (run_engine s) st"
    and tr: "tracked (run_engine s) t TP_received" "ts_failure t = None"
  shows "\<exists>r s' st'. record_accept env t plan deadline s = (r, s') \<and>
    journal_inv initial (events (run_world s')) (run_engine s') st' \<and>
    only_transitions (run_engine s) (run_engine s') \<and>
    (\<forall>acc. r = Inr acc \<longrightarrow> rs_configuration st' = rs_configuration st \<and>
       acc = \<lparr>at_id = ts_id t, at_plan = plan, at_deadline = deadline\<rparr> \<and>
       (\<exists>t'. um_find (en_transitions (run_engine s')) (ts_id t) = Some t' \<and> ts_id t' = ts_id t \<and>
          tracked (run_engine s') t' TP_planned \<and> ts_failure t' = None))"
proof -
  obtain r1 t1 s1 where r1: "Record env t TP_validated s = (r1, t1, s1)" by (metis prod_cases3)
  have ph: "TP_received < TP_validated" "TP_validated \<le> TP_committing" "TP_validated < TP_planned"
    by (simp_all add: less_TransitionPhase_def less_eq_TransitionPhase_def phase_value_def transition_phases_def)
  from r1 inv tr ph(1,2) show ?thesis
  proof (cases rule: Record_tracked)
    case (refused e)
    then have "record_accept env t plan deadline s = fail_accept env t1 e s1"
      using r1 by (simp add: record_accept_def)
    then show ?thesis
      using fail_accept_ok [where s = s1 and st = st and t = t1 and err = e and initial = initial] inv refused tracked_failure [OF refused(4)] by fastforce
  next
    case (accepted st1)
    obtain r2 t2 s2 where r2: "Record env t1 TP_planned s1 = (r2, t2, s2)" by (metis prod_cases3)
    from r2 accepted(2,7,8) ph(3) phase_steps(8) show ?thesis
    proof (cases rule: Record_tracked)
      case (refused e)
      then have "record_accept env t plan deadline s = fail_accept env t2 e s2"
        using r1 r2 accepted(1) by (simp add: record_accept_def)
      then show ?thesis
        using fail_accept_ok [where s = s2 and st = st1 and t = t2 and err = e and initial = initial] accepted(2,4) refused tracked_failure [OF refused(4)]
        by (fastforce simp: only_transitions_def)
    next
      case second: (accepted st2)
      have run: "record_accept env t plan deadline s = (Inr \<lparr>at_id = ts_id t, at_plan = plan, at_deadline = deadline\<rparr>, s2)"
        using r1 r2 accepted(1,6) second(1,6) by (simp add: record_accept_def)
      have "only_transitions (run_engine s) (run_engine s2)"
        using accepted(4) second(4) by (simp add: only_transitions_def)
      with run show ?thesis
        using accepted(3,6) second(2,3,5-8) by auto
    qed
  qed
qed

end

text \<open>The transition \<open>AcceptModeFrom\<close> creates, and the engine it is entered in.\<close>

definition new_transition :: "SystemConfiguration \<Rightarrow> TransitionId \<Rightarrow> DomainId \<Rightarrow> ModeId \<Rightarrow> int \<Rightarrow> TransitionSnapshot" where
  "new_transition c i d m now =
     \<lparr>ts_id = i, ts_domain = d,
      ts_source_mode = (case um_find (sc_committed_modes c) d of None \<Rightarrow> 0 | Some x \<Rightarrow> x),
      ts_target_mode = m, ts_phase = TP_received, ts_updated_at = now, ts_failure = None\<rparr>"

definition enter_transition :: "TransitionSnapshot \<Rightarrow> Engine \<Rightarrow> Engine" where
  "enter_transition t e = e\<lparr>en_next_transition := en_next_transition e + 1,
     en_transitions := um_emplace (en_next_transition e) t (en_transitions e),
     en_cancellation := um_emplace (en_next_transition e) False (en_cancellation e)\<rparr>"

lemma plan_ok_BuildPlan:
  assumes v: "ValidateModel model = Inr vm" and p: "BuildPlan vm c d m allow = Some (Inr plan)"
    and c: "configuration_ok vm c"
  shows "plan_ok vm (new_transition c i d m now) plan"
proof -
  have closed: "units_closed vm (set (sc_running_units c))" using c by (simp add: configuration_ok_def)
  note known = BuildPlan_known [OF p closed validated_acyclic [OF v]]
  have "FindDomain vm d \<noteq> None"
    using p validated_domain [OF v] by (auto elim!: BuildPlan_InrE)
  then have g: "\<forall>i \<in> set (guarded_by d (em_domains (vm_model vm))). FindDomain vm i \<noteq> None"
    by (rule guarded_domains_known [OF v])
  obtain source req where b: "um_find (sc_committed_modes c) d = Some source" "sc_generation c = em_generation (vm_model vm)"
    "build_plan_for vm c d source m req = Some plan"
    using p by (rule BuildPlan_InrE)
  show ?thesis
    unfolding plan_ok_def new_transition_def using build_plan_for_Some(4-8) [OF b(3)] b(1,2) known g by simp
qed

lemma identity_ok_new:
  assumes v: "ValidateModel model = Inr vm" and "FindMode vm d m \<noteq> None" and "configuration_ok vm c" and "i \<noteq> 0"
  shows "identity_ok vm (new_transition c i d m now)"
proof -
  obtain x where x: "um_find (sc_committed_modes c) d = Some x" "FindMode vm d x \<noteq> None"
    using committed_mode [OF v validated_domain [OF v assms(2)] assms(3)] by blast
  show ?thesis
    using assms(2,4) x validated_mode_ids [OF v] by (simp add: identity_ok_def new_transition_def id_valid_def)
qed

context engine_journal
begin

lemma AcceptMode_unfold:
  "AcceptMode env d m deadline s =
     (let (now, s1) = in_world (env_now env) s in
      if deadline \<le> now then Some (Inl (MakeError EC_deadline_exceeded ''transition deadline has expired'' 0), s1)
      else
        let e = run_engine s1; i = en_next_transition e; c = en_configuration (run_engine s);
            (now2, s2) = in_world (env_now env) (with_engine (\<lambda>e. e\<lparr>en_next_transition := i + 1\<rparr>) s1);
            t = new_transition c i d m now2;
            s3 = with_engine (\<lambda>_. enter_transition t e) s2 in
        case Plan (en_model e) c d m of
          None \<Rightarrow> None
        | Some (Inl er) \<Rightarrow> Some (fail_accept env t er s3)
        | Some (Inr plan) \<Rightarrow>
            Some (record_accept env t plan deadline (with_engine (\<lambda>e. e\<lparr>en_plans := um_set i plan (en_plans e)\<rparr>) s3)))"
proof -
  have eq: "with_engine (\<lambda>e. e\<lparr>en_transitions := um_emplace i t (en_transitions e), en_cancellation := um_emplace i False (en_cancellation e)\<rparr>) s2
      = with_engine (\<lambda>_. enter_transition t (run_engine s1)) s2"
    if "in_world (env_now env) (with_engine (\<lambda>e. e\<lparr>en_next_transition := i + 1\<rparr>) s1) = (n, s2)" "i = en_next_transition (run_engine s1)"
    for i t n s1 s2
    using in_world_now [OF that(1)] that(2) by (simp add: with_engine_def enter_transition_def)
  have model: "en_model (run_engine s2) = en_model (run_engine s1)"
    if "in_world (env_now env) (with_engine (\<lambda>e. e\<lparr>en_next_transition := i + 1\<rparr>) s1) = (n, s2)" for i n s1 s2
    using in_world_now [OF that(1)] by simp
  show ?thesis
    unfolding AcceptMode_def AcceptModeFrom_def new_transition_def [symmetric] Let_def lock_id
    by (auto simp: eq model split: prod.splits option.split sum.split)
qed

lemma AcceptMode_ok:
  assumes inv: "engine_inv events initial vm s" and jc: "journaled_configuration initial vm (events (run_world s)) jc"
    and v: "ValidateModel model = Inr vm" and mode: "FindMode vm d m \<noteq> None" and num: "can_number (run_engine s)"
  shows "\<exists>r s'. AcceptMode env d m deadline s = Some (r, s') \<and> engine_inv events initial vm s' \<and>
    en_configuration (run_engine s') = en_configuration (run_engine s) \<and>
    en_scheduler (run_engine s') = en_scheduler (run_engine s) \<and>
    (\<forall>acc. r = Inr acc \<longrightarrow> journaled_configuration initial vm (events (run_world s')) jc \<and>
       at_id acc = en_next_transition (run_engine s) \<and>
       Plan vm (en_configuration (run_engine s)) d m = Some (Inr (at_plan acc)) \<and>
       um_find (en_plans (run_engine s')) (at_id acc) = Some (at_plan acc) \<and>
       (\<exists>t. um_find (en_transitions (run_engine s')) (at_id acc) = Some t \<and> ts_id t = at_id acc \<and>
          tracked (run_engine s') t TP_planned \<and> ts_failure t = None))"
proof -
  obtain st where st: "journal_inv initial (events (run_world s)) (run_engine s) st" using inv by (auto simp: engine_inv_def)
  have vm: "en_model (run_engine s) = vm" and cfg: "configuration_ok vm (en_configuration (run_engine s))"
    using inv by (simp_all add: engine_inv_def)
  have jst: "rs_configuration st = jc" using st jc vm by (auto simp: journal_inv_def journaled_configuration_def)
  let ?c = "en_configuration (run_engine s)" let ?i = "en_next_transition (run_engine s)"
  obtain now s1 where s1: "in_world (env_now env) s = (now, s1)" by fastforce
  note e1 = in_world_now [OF s1]
  show ?thesis
  proof (cases "deadline \<le> now")
    case True
    then have "AcceptMode env d m deadline s = Some (Inl (MakeError EC_deadline_exceeded ''transition deadline has expired'' 0), s1)"
      unfolding AcceptMode_unfold using s1 by simp
    then show ?thesis using inv e1 by (auto simp: engine_inv_def)
  next
    case False
    obtain now2 s2 where s2: "in_world (env_now env) (with_engine (\<lambda>e. e\<lparr>en_next_transition := ?i + 1\<rparr>) s1) = (now2, s2)" by fastforce
    note e2 = in_world_now [OF s2]
    let ?t = "new_transition ?c ?i d m now2"
    let ?s3 = "with_engine (\<lambda>_. enter_transition ?t (run_engine s)) s2"
    have w3: "events (run_world ?s3) = events (run_world s)" using e1 e2 by simp
    note fr = fresh_transition [OF st num, where e' = "run_engine ?s3" and t = ?t and c = "um_emplace ?i False (en_cancellation (run_engine s))"]
    have inv3: "journal_inv initial (events (run_world ?s3)) (run_engine ?s3) st"
      and t3: "um_find (en_transitions (run_engine ?s3)) ?i = Some ?t"
      using fr unfolding w3 by (simp_all add: enter_transition_def)
    have id: "identity_ok vm ?t" using identity_ok_new [OF v mode cfg] num by (simp add: can_number_def)
    have none: "um_find (en_plans (run_engine s)) ?i = None"
      using inv by (metis engine_inv_def less_irrefl not_None_eq)
    have run: "AcceptMode env d m deadline s = (case Plan vm ?c d m of None \<Rightarrow> None
        | Some (Inl er) \<Rightarrow> Some (fail_accept env ?t er ?s3)
        | Some (Inr plan) \<Rightarrow> Some (record_accept env ?t plan deadline
              (with_engine (\<lambda>e. e\<lparr>en_plans := um_set ?i plan (en_plans e)\<rparr>) ?s3)))"
      unfolding AcceptMode_unfold using s1 s2 e1 vm False by (simp add: Let_def split: option.split sum.split)
    have e3: "en_model (run_engine ?s3) = vm" "en_configuration (run_engine ?s3) = ?c" "en_plans (run_engine ?s3) = en_plans (run_engine s)"
      "en_scheduler (run_engine ?s3) = en_scheduler (run_engine s)" "en_next_transition (run_engine ?s3) = ?i + 1"
      using vm by (simp_all add: enter_transition_def)
    have below: "j < ?i + 1" if "um_find (en_plans (run_engine s)) j = Some p" for j p
      using inv num that word_less_inc [of ?i j] by (force simp: engine_inv_def can_number_def)
    have "set (sc_running_units ?c) \<subseteq> known_units vm" using cfg by (simp add: configuration_ok_def units_closed_def)
    then obtain p where p: "Plan vm ?c d m = Some p"
      using BuildPlan_not_None [OF _ validated_acyclic [OF v]] unfolding Plan_def by blast
    show ?thesis
    proof (cases p)
      case (Inl er)
      have prog: "valid_progress TP_received (terminal_phase (err_code er))" "terminal_phase (err_code er) \<noteq> TP_succeeded"
        by (simp_all add: valid_progress_def is_terminal_def terminal_phase_def phase_value_def transition_phases_def)
      have "recordable (run_engine ?s3) (?t\<lparr>ts_failure := Some (failure_of er None no_evidence)\<rparr>) (terminal_phase (err_code er))"
        using id t3 prog e3 none unfolding recordable_def
        by (simp add: new_transition_def identity_ok_def same_identity_def)
      from fail_accept_ok [OF inv3 this] obtain x s' st' where "fail_accept env ?t er ?s3 = (Inl x, s')"
        "journal_inv initial (events (run_world s')) (run_engine s') st'" "only_transitions (run_engine ?s3) (run_engine s')"
        by blast
      then show ?thesis
        using run p Inl e3 below cfg by (auto simp: engine_inv_def only_transitions_def)
    next
      case (Inr plan)
      let ?s4 = "with_engine (\<lambda>e. e\<lparr>en_plans := um_set ?i plan (en_plans e)\<rparr>) ?s3"
      have inv4: "journal_inv initial (events (run_world ?s4)) (run_engine ?s4) st"
        using inv3 by (simp add: journal_inv_def)
      have pok: "plan_ok vm ?t plan"
        using plan_ok_BuildPlan [OF v _ cfg] p Inr by (simp add: Plan_def)
      have tr: "tracked (run_engine ?s4) ?t TP_received" "ts_failure ?t = None"
        using id t3 e3(1) pok by (simp_all add: tracked_def new_transition_def same_identity_def less_eq_TransitionPhase_def
            phase_value_def transition_phases_def)
      obtain r s' st' where ra: "record_accept env ?t plan deadline ?s4 = (r, s')"
        "journal_inv initial (events (run_world s')) (run_engine s') st'" "only_transitions (run_engine ?s4) (run_engine s')"
        "\<forall>acc. r = Inr acc \<longrightarrow> rs_configuration st' = rs_configuration st \<and>
           acc = \<lparr>at_id = ?i, at_plan = plan, at_deadline = deadline\<rparr> \<and>
           (\<exists>t'. um_find (en_transitions (run_engine s')) ?i = Some t' \<and> ts_id t' = ?i \<and>
              tracked (run_engine s') t' TP_planned \<and> ts_failure t' = None)"
        using record_accept_ok [OF inv4 tr, of plan deadline] by (auto simp: new_transition_def)
      have e': "en_model (run_engine s') = vm" "en_configuration (run_engine s') = ?c"
        "en_plans (run_engine s') = um_set ?i plan (en_plans (run_engine s))"
        "en_scheduler (run_engine s') = en_scheduler (run_engine s)" "en_next_transition (run_engine s') = ?i + 1"
        using ra(3) e3 by (simp_all add: only_transitions_def)
      have "j < ?i + 1" if "um_find (en_plans (run_engine s')) j = Some p" for j p
        using that below num word_less_inc [of ?i ?i] unfolding e' by (auto simp: can_number_def split: if_splits)
      then have inv': "engine_inv events initial vm s'"
        unfolding engine_inv_def e' using ra(2) cfg by blast
      have "AcceptMode env d m deadline s = Some (r, s')" using run p Inr ra(1) by simp
      moreover have "journaled_configuration initial vm (events (run_world s')) jc" if "r = Inr acc" for acc
        using ra(2,4) that jst e'(1) by (auto simp: journaled_configuration_def journal_inv_def)
      ultimately show ?thesis
        using inv' e' ra(4) p Inr by auto
    qed
  qed
qed

end

lemma plan_effect_required:
  assumes v: "ValidateModel model = Inr vm" and p: "Plan vm c d m = Some (Inr plan)" and c: "configuration_ok vm c"
  shows "set (sc_running_units (plan_effect plan c)) = required_set vm (um_set d m (sc_committed_modes c))"
    and "sc_committed_modes (plan_effect plan c) = um_set d m (sc_committed_modes c)"
proof -
  have b: "BuildPlan vm c d m False = Some (Inr plan)" using p by (simp add: Plan_def)
  have run: "set (sc_running_units c) \<subseteq> known_units vm" using c by (simp add: configuration_ok_def units_closed_def)
  note s = BuildPlan_split [OF b run validated_acyclic [OF v]]
  have "set (sc_running_units (plan_effect plan c)) = (set (sc_running_units c) - set (tp_stop plan)) \<union> set (tp_start plan)"
    by (simp add: plan_effect_def us.elems_fold_insert us.elems_fold_erase)
  then show "set (sc_running_units (plan_effect plan c)) = required_set vm (um_set d m (sc_committed_modes c))"
    using s(2,3) by auto
  have "tp_domain plan = d" "tp_target_mode plan = m"
    using b by (auto elim!: BuildPlan_InrE dest: build_plan_for_Some(5,7))
  then show "sc_committed_modes (plan_effect plan c) = um_set d m (sc_committed_modes c)"
    by (simp add: plan_effect_def)
qed

context engine_journal
begin

lemma RequestMode_ok:
  assumes inv: "engine_inv events initial vm s" and jc: "journaled_configuration initial vm (events (run_world s)) jc"
    and v: "ValidateModel model = Inr vm" and mode: "FindMode vm d m \<noteq> None" and num: "can_number (run_engine s)"
    and free: "um_find (ss_leases (en_scheduler (run_engine s))) (en_next_transition (run_engine s)) = None"
  shows "\<exists>r s'. RequestMode env d m deadline s = Some (r, s') \<and> engine_inv events initial vm s' \<and>
    (\<forall>t'. r = Inr t' \<longrightarrow> is_terminal (ts_phase t')) \<and>
    (\<forall>t'. r = Inr t' \<and> ts_phase t' = TP_succeeded \<longrightarrow> (\<exists>plan.
       Plan vm (en_configuration (run_engine s)) d m = Some (Inr plan) \<and>
       en_configuration (run_engine s') = plan_effect plan (en_configuration (run_engine s)) \<and>
       journaled_configuration initial vm (events (run_world s')) (plan_effect plan jc)))"
proof -
  obtain r1 s1 where a: "AcceptMode env d m deadline s = Some (r1, s1)" "engine_inv events initial vm s1"
    "en_configuration (run_engine s1) = en_configuration (run_engine s)"
    "en_scheduler (run_engine s1) = en_scheduler (run_engine s)"
    "\<forall>acc. r1 = Inr acc \<longrightarrow> journaled_configuration initial vm (events (run_world s1)) jc \<and>
       at_id acc = en_next_transition (run_engine s) \<and>
       Plan vm (en_configuration (run_engine s)) d m = Some (Inr (at_plan acc)) \<and>
       um_find (en_plans (run_engine s1)) (at_id acc) = Some (at_plan acc) \<and>
       (\<exists>t. um_find (en_transitions (run_engine s1)) (at_id acc) = Some t \<and> ts_id t = at_id acc \<and>
          tracked (run_engine s1) t TP_planned \<and> ts_failure t = None)"
    using AcceptMode_ok [OF inv jc v mode num, of deadline] by (elim exE conjE) (rule that)
  show ?thesis
  proof (cases r1)
    case (Inl e)
    then show ?thesis using a(1,2) by (simp add: RequestMode_def)
  next
    case (Inr acc)
    note f = a(5) [rule_format, OF Inr]
    then obtain t where t: "um_find (en_transitions (run_engine s1)) (at_id acc) = Some t" "ts_id t = at_id acc"
      "tracked (run_engine s1) t TP_planned" "ts_failure t = None" by blast
    have jc1: "journaled_configuration initial vm (events (run_world s1)) jc" using f by blast
    have free1: "um_find (ss_leases (en_scheduler (run_engine s1))) (at_id acc) = None" using free f a(4) by simp
    have plan1: "um_find (en_plans (run_engine s1)) (at_id acc) = Some (at_plan acc)" using f by blast
    obtain r s' where "Execute env acc s1 = Some (r, s')" "engine_inv events initial vm s'"
      "\<forall>t'. r = Inr t' \<longrightarrow> is_terminal (ts_phase t')"
      "\<forall>t'. r = Inr t' \<and> ts_phase t' = TP_succeeded \<longrightarrow>
         en_configuration (run_engine s') = plan_effect (at_plan acc) (en_configuration (run_engine s1)) \<and>
         journaled_configuration initial vm (events (run_world s')) (plan_effect (at_plan acc) jc)"
      using Execute_ok [OF a(2) jc1 validated_acyclic [OF v] validated_domain_id [OF v] t plan1 free1] by blast
    then show ?thesis
      using a(1,3) Inr f by (intro exI [of _ r] exI [of _ s']) (simp add: RequestMode_def)
  qed
qed

end

text \<open>Starting an engine on an empty journal also inspects the units and replays.\<close>

locale engine_startup = engine_journal env events
  for env :: "'w Environment" and events :: "'w \<Rightarrow> JournalEvent list" +
  assumes events_inspect: "events (snd (env_inspect env a w)) = events w"
    and replay_events: "env_replay env w = (Inr (events w), w)"
begin

lemma observe_units_frame: "observe_units env us obs w = (r, w') \<Longrightarrow> events w' = events w"
proof (induction us arbitrary: obs w)
  case (Cons u us)
  obtain x w1 where i: "env_inspect env (eu_id u) w = (x, w1)" by fastforce
  then have "events w1 = events w" using events_inspect [of "eu_id u" w] by simp
  then show ?case using Cons.prems Cons.IH i by (cases x) auto
qed simp

lemma Create_fresh:
  assumes v: "ValidateModel model = Inr vm" and fresh: "events w = []"
    and run: "Create env vm w = Some (Inr e, w')"
  obtains initial where "InitialConfiguration vm = Inr initial" "en_configuration e = initial"
    "engine_inv events initial vm \<lparr>run_engine = e, run_world = w'\<rparr>"
    "journaled_configuration initial vm (events w') initial" "can_number e" "ss_leases (en_scheduler e) = []"
proof -
  obtain initial where i: "InitialConfiguration vm = Inr initial"
    using run by (auto simp: Create_def split: sum.splits)
  obtain x w1 where o: "observe_units env (em_units (vm_model vm)) [] w = (x, w1)" by fastforce
  note w1 = observe_units_frame [OF o]
  have e: "e = engine_of vm (replay_start initial)" "w' = w1"
    using run i replay_events [of w] fresh o
    by (auto simp: Create_def align_units_def interrupted_def replay_start_def split: sum.splits option.splits)
  obtain req where req: "RequiredUnits vm (initial_modes vm) = Inr req"
    and init: "initial = \<lparr>sc_generation = em_generation (vm_model vm), sc_committed_modes = initial_modes vm, sc_running_units = req\<rparr>"
    using i by (auto simp: InitialConfiguration_eq split: sum.splits)
  have "configuration_ok vm initial"
    using RequiredUnits_Inr(3) [OF req] initial_modes_selected [OF v] init by (simp add: configuration_ok_def)
  then show ?thesis
    using i e fresh w1 by (intro that [of initial])
      (simp_all add: engine_of_def engine_inv_def journal_inv_def journaled_configuration_def replay_start_def can_number_def
        scheduler_start_def)
qed

end

interpretation fake_start: engine_startup fake_env fw_events
  by unfold_locales (simp_all add: fake_env_def MemoryJournal_Replay_def)

section \<open>Properties\<close>

lemma example_created:
  obtains e w where "Create fake_env example_vm fake_world = Some (Inr e, w)"
proof -
  have "(case Create fake_env example_vm fake_world of Some (Inr e, w) \<Rightarrow> True | _ \<Rightarrow> False)" by code_simp
  then show ?thesis using that by (auto split: option.splits sum.splits)
qed

lemma example_engine:
  obtains s :: "FakeWorld Run" where "\<And>f. fake_session example_model fake_world f = f s" "engine_inv fw_events example_configuration example_vm s"
    "journaled_configuration example_configuration example_vm (fw_events (run_world s)) example_configuration"
    "can_number (run_engine s)" "ss_leases (en_scheduler (run_engine s)) = []"
    "en_configuration (run_engine s) = example_configuration"
proof -
  obtain e w where c: "Create fake_env example_vm fake_world = Some (Inr e, w)" by (rule example_created)
  have i: "InitialConfiguration example_vm = Inr example_configuration" by code_simp
  have "fw_events fake_world = []" by (simp add: fake_world_def)
  then show ?thesis
    using fake_start.Create_fresh [OF example_vm_valid _ c] i c that [of "\<lparr>run_engine = e, run_world = w\<rparr>"]
    by (force simp: fake_session_def example_vm_def)
qed





text \<open>An engine created on an empty journal has the model's initial configuration, which its
  journal also replays to, and satisfies the invariant.\<close>

theorem create_fresh_engine:
  assumes "engine_startup env events" and "ValidateModel model = Inr vm" and "events w = []"
    and "Create env vm w = Some (Inr e, w')"
  shows "\<exists>initial. InitialConfiguration vm = Inr initial \<and> en_configuration e = initial \<and>
    engine_inv events initial vm \<lparr>run_engine = e, run_world = w'\<rparr> \<and>
    journaled_configuration initial vm (events w') initial \<and> can_number e"
  using engine_startup.Create_fresh [OF assms] by blast

theorem create_fresh_engine_witness:
  "\<exists>e w. Create fake_env example_vm fake_world = Some (Inr e, w) \<and> can_number e"
proof -
  obtain e w where c: "Create fake_env example_vm fake_world = Some (Inr e, w)" by (rule example_created)
  have "fw_events fake_world = []" by (simp add: fake_world_def)
  from create_fresh_engine [OF fake_start.engine_startup_axioms example_vm_valid this c] c show ?thesis by blast
qed

text \<open>A start attempt counts as successful under different conditions in a transition and in a
  recovery. They differ exactly for the readiness policies other than \<open>lifecycle_channel\<close> and
  \<open>process_started\<close>, where the recovery accepts a unit that is still starting and the transition waits for ready.\<close>

theorem recovery_readiness_differs:
  "recovery_state_reached d ev \<noteq> start_state_reached d ev \<longleftrightarrow>
     eu_readiness d \<notin> {RD_lifecycle_channel, RD_process_started} \<and> be_state ev = AS_starting"
  by (auto simp: recovery_state_reached_def start_state_reached_def)

text \<open>A request for a mode the domain does not define is refused, but it is journaled first, and the
  next start refuses the whole journal.\<close>

theorem undefined_mode_poisons_journal:
  "fake_session example_model fake_world (\<lambda>s.
     map_option (\<lambda>(r, s). (r, map_option fst (Create fake_env example_vm (run_world s))))
       (RequestMode fake_env 1 99 1000000000 s)) =
   Some (Inl (MakeError EC_not_found ''execution mode is not defined by the domain'' 0),
         Some (Inl (MakeError EC_persistence_error
           ''journal transition identity is not valid for the active model'' 1)))"
  by code_simp

text \<open>A domain whose startup and operational modes share no unit, with an empty fallback mode.\<close>

definition swap_model :: ExecutionModel where
  "swap_model = example_model\<lparr>
     em_units := [(em_units example_model ! 0), (em_units example_model ! 1)\<lparr>eu_dependencies := []\<rparr>],
     em_domains := [(em_domains example_model ! 0)\<lparr>dd_modes :=
       [\<lparr>md_id = 1, md_name = ''startup'', md_units = [1], md_constraints = []\<rparr>,
        \<lparr>md_id = 2, md_name = ''operational'', md_units = [2], md_constraints = []\<rparr>,
        \<lparr>md_id = 3, md_name = ''fallback'', md_units = [], md_constraints = []\<rparr>]\<rparr>]\<rparr>"

text \<open>The units a failed transition stopped before its recovery are not journaled. A transition
  that stops unit 1, fails to start unit 2 and recovers to the empty fallback mode leaves no unit
  running; the restart finds the fallback mode committed and starts unit 1 again.\<close>

theorem restart_undoes_fallback:
  "fake_session swap_model (fake_world\<lparr>fw_fail_start := [2]\<rparr>) (\<lambda>s.
     map_option (\<lambda>(r, s). (map_sum id ts_phase r, en_configuration (run_engine s),
         fake_session swap_model (run_world s) (\<lambda>s. Some (en_configuration (run_engine s), um_find (fw_states (run_world s)) 1))))
       (RequestMode fake_env 1 2 1000000000 s)) =
   Some (Inr TP_failed, \<lparr>sc_generation = 3, sc_committed_modes = [(1, 3)], sc_running_units = []\<rparr>,
         Some (\<lparr>sc_generation = 3, sc_committed_modes = [(1, 3)], sc_running_units = [1]\<rparr>, Some AS_ready))"
  by code_simp

text \<open>Finishing interrupted transitions at a start never reports an error: \<open>Fail\<close> returns a
  transition with a failure also when the journal refused it, so the engine is created although
  the interruption was not persisted.\<close>

theorem finalization_never_reports:
  assumes "finalize_interrupted env is s = Some (ended, s')"
  shows "ended = None"
proof -
  have failure: "ts_failure t' \<noteq> None" if "Fail env t er a ev s = (t', s')" for env :: "'a Environment" and t er a ev s t' s'
  proof -
    obtain r t1 s1 where rec: "Record env (t\<lparr>ts_failure := Some (failure_of er a ev)\<rparr>) (terminal_phase (err_code er)) s = (r, t1, s1)"
      by (metis prod_cases3)
    then have "ts_failure t1 = Some (failure_of er a ev)"
      unfolding Record_def Let_def by (auto split: prod.splits sum.splits)
    then show ?thesis using that rec by (cases r) (auto simp: Fail_def Let_def)
  qed
  show ?thesis
    using assms
  proof (induction "is" arbitrary: s)
    case (Cons i "is")
    then obtain t where t: "um_find (en_transitions (run_engine s)) i = Some t" by (auto split: option.splits)
    obtain t' s1 where f: "Fail (unshared env) t (MakeError EC_backend_unavailable
        ''transition was interrupted by execution coordinator restart'' 0) None no_evidence s = (t', s1)" by fastforce
    show ?case using Cons.IH [of s1] Cons.prems t f failure [OF f] by simp
  qed simp
qed

theorem finalization_never_reports_witness:
  "fake_session example_model fake_world (\<lambda>s.
     map_option (\<lambda>(r, s). map_option fst (finalize_interrupted fake_env [1] (s\<lparr>run_world := (run_world s)\<lparr>fw_capacity := 0\<rparr>\<rparr>)))
       (AcceptMode fake_env 1 2 1000000000 s)) = Some (Some None)"
proof -
  let ?s = "\<lambda>s :: FakeWorld Run. s\<lparr>run_world := (run_world s)\<lparr>fw_capacity := 0\<rparr>\<rparr>"
  have "fake_session example_model fake_world (\<lambda>s.
     map_option (\<lambda>(r, s). finalize_interrupted fake_env [1] (?s s) \<noteq> None) (AcceptMode fake_env 1 2 1000000000 s)) = Some True"
    by code_simp
  then show ?thesis
    by (auto simp: fake_session_def simp del: finalize_interrupted.simps split: option.splits sum.splits)
      (rule finalization_never_reports)
qed

text \<open>Two domains that need the same unit in different modes.\<close>

definition shared_model :: ExecutionModel where
  "shared_model =
     (let mode = (\<lambda>i n us. \<lparr>md_id = i, md_name = n, md_units = us, md_constraints = []\<rparr>);
          domain = (\<lambda>i n ms. \<lparr>dd_id = i, dd_name = n, dd_initial_mode = 1, dd_replacement = RP_queue,
             dd_recovery = \<lparr>rp_action = FA_stop_domain, rp_fallback_mode = 0, rp_deadline = 1000\<rparr>, dd_modes = ms\<rparr>) in
      example_model\<lparr>em_domains :=
        [domain 1 ''drive'' [mode 1 ''parked'' [], mode 2 ''driving'' [1, 2]],
         domain 2 ''sensing'' [mode 1 ''active'' [1], mode 2 ''standby'' []]]\<rparr>)"

text \<open>A transition locks the units it starts and stops, not those it retains. In the
  shared model the transition of one domain that starts unit 2, which depends on the running unit 1, and the
  transition of the other domain that stops unit 1 get their leases side by side, and
  carrying out both plans leaves unit 2 running without unit 1.\<close>

theorem retained_units_unprotected:
  "let vm = BuildIndex shared_model;
       c = \<lparr>sc_generation = 3, sc_committed_modes = [(1, 1), (2, 1)], sc_running_units = [1]\<rparr> in
   ValidateModel shared_model = Inr vm \<and>
   (\<exists>a b. Plan vm c 1 2 = Some (Inr a) \<and> Plan vm c 2 2 = Some (Inr b) \<and>
      available (plan_resources b) (grant 1 (plan_resources a) scheduler_start) \<and>
      sc_running_units (plan_effect b (plan_effect a c)) = [2] \<and>
      sc_committed_modes (plan_effect b (plan_effect a c)) = [(1, 2), (2, 2)] \<and>
      \<not> units_closed vm {2})"
proof -
  let ?vm = "BuildIndex shared_model"
  let ?c = "\<lparr>sc_generation = 3, sc_committed_modes = [(1, 1), (2, 1)], sc_running_units = [1]\<rparr> :: SystemConfiguration"
  let ?a = "\<lparr>tp_generation = 3, tp_domain = 1, tp_source_mode = 1, tp_target_mode = 2, tp_retain = [1], tp_stop = [],
      tp_start = [2], tp_guarded_domains = [1], tp_affected_resources = []\<rparr> :: TransitionPlan"
  let ?b = "\<lparr>tp_generation = 3, tp_domain = 2, tp_source_mode = 1, tp_target_mode = 2, tp_retain = [], tp_stop = [1],
      tp_start = [], tp_guarded_domains = [2], tp_affected_resources = []\<rparr> :: TransitionPlan"
  have v: "InspectModel shared_model = []" by code_simp
  have p: "Plan ?vm ?c 1 2 = Some (Inr ?a)" "Plan ?vm ?c 2 2 = Some (Inr ?b)" by code_simp+
  have q: "available (plan_resources ?b) (grant 1 (plan_resources ?a) scheduler_start)"
    "sc_running_units (plan_effect ?b (plan_effect ?a ?c)) = [2]"
    "sc_committed_modes (plan_effect ?b (plan_effect ?a ?c)) = [(1, 2), (2, 2)]" by code_simp+
  have "dependencies_of ?vm 2 = {1}"
    by (simp add: dependencies_of_def FindUnit_BuildIndex shared_model_def Let_def example_model_def)
  then have "\<not> units_closed ?vm {2}" by (simp add: units_closed_def)
  then show ?thesis using v p q by (auto simp: Let_def ValidateModel_def)
qed

end
