(* ===== verification/Exec_File_Journal.thy ===== *)
theory Exec_File_Journal
  imports Exec_Engine
begin

text \<open>
  The file journal, \<^verbatim>\<open>exec/src/file_journal.cpp\<close>: the record format (\<open>Encode\<close>, \<open>Decode\<close>), the frame around a
  record, \<open>Append\<close> and \<open>Replay\<close>. The file is a value: content, position, \<open>errno\<close> and the outcomes that the
  next system calls have; every short transfer, interruption and failure is such an outcome, so the
  theorems about an append hold for all of them. A call with no prescribed outcome succeeds. The
  retry loops of \<open>WriteAll\<close> and \<open>Read\<close> recurse over the outcomes; the loop of \<open>Replay\<close> ends because each
  frame advances the position. \<open>fits\<close> and \<open>alloc\<close> say whether allocations succeed; what a power failure does
  to data that was written and not synchronised is not modelled.
\<close>

section \<open>Encoder and decoder\<close>

definition kMagic :: u32 where "kMagic = 0x4A46564F"
definition kMinimumFormatVersion :: u16 where "kMinimumFormatVersion = 1"
definition kFormatVersion :: u16 where "kFormatVersion = 2"
definition kHeaderSize :: nat where "kHeaderSize = 16"
definition kMinimumMaximumRecordSize :: nat where "kMinimumMaximumRecordSize = 4096"

definition u32_max :: nat where "u32_max = 4294967295"

definition byte_of_char :: "char \<Rightarrow> u8" where
  "byte_of_char c = of_nat (of_char c)"

definition char_of_byte :: "u8 \<Rightarrow> char" where
  "char_of_byte b = char_of (unat b)"

definition Encoder_Integer :: "'a::len word \<Rightarrow> bytes \<Rightarrow> bytes" where
  "Encoder_Integer value out = out @ map (\<lambda>index. ucast (drop_bit (index * 8) value)) [0..<LENGTH('a) div 8]"

definition Encoder_String :: "string \<Rightarrow> bytes \<Rightarrow> bytes option" where
  "Encoder_String value out =
     (if length value > u32_max then None
      else Some (Encoder_Integer (of_nat (length value) :: u32) out @ map byte_of_char value))"

definition Encoder_Id :: "u64 \<Rightarrow> bytes \<Rightarrow> bytes" where
  "Encoder_Id i out = Encoder_Integer i out"

definition Encoder_Bool :: "bool \<Rightarrow> bytes \<Rightarrow> bytes" where
  "Encoder_Bool b out = Encoder_Integer (if b then 1 else 0 :: u8) out"

text \<open>A decoder is the part of the span behind \<open>offset_\<close>; \<open>remaining()\<close> is its length.\<close>

type_synonym Decoder = bytes

fun little_endian :: "bytes \<Rightarrow> 'a::len word" where
  "little_endian [] = 0"
| "little_endian (b # bs) = or (ucast b) (push_bit 8 (little_endian bs))"

definition Decoder_Integer :: "Decoder \<Rightarrow> ('a::len word \<times> Decoder) option" where
  "Decoder_Integer d =
     (if length d < LENGTH('a) div 8 then None
      else Some (little_endian (take (LENGTH('a) div 8) d), drop (LENGTH('a) div 8) d))"

definition Decoder_String :: "Decoder \<Rightarrow> (string \<times> Decoder) option" where
  "Decoder_String d =
     (case Decoder_Integer d of
        None \<Rightarrow> None
      | Some (n :: u32, d) \<Rightarrow>
          if unat n > length d then None
          else Some (map char_of_byte (take (unat n) d), drop (unat n) d))"

definition Decoder_Id :: "Decoder \<Rightarrow> (u64 \<times> Decoder) option" where
  "Decoder_Id d = Decoder_Integer d"

definition crc_bit :: "u32 \<Rightarrow> u32" where
  "crc_bit crc =
     (let mask = 0 - (and crc 1) in xor (drop_bit 1 crc) (and 0xEDB88320 mask))"

definition crc_byte :: "u8 \<Rightarrow> u32 \<Rightarrow> u32" where
  "crc_byte byte crc = (crc_bit ^^ 8) (xor crc (ucast byte))"

definition Crc32 :: "bytes \<Rightarrow> u32" where
  "Crc32 bs = not (fold crc_byte bs 0xFFFFFFFF)"

definition EncodeIds :: "u64 list \<Rightarrow> bytes \<Rightarrow> bytes option" where
  "EncodeIds values out =
     (if length values > u32_max then None
      else Some (fold Encoder_Id values (Encoder_Integer (of_nat (length values) :: u32) out)))"

fun decode_id_loop :: "nat \<Rightarrow> u64 list \<Rightarrow> Decoder \<Rightarrow> (u64 list \<times> Decoder) option" where
  "decode_id_loop 0 values d = Some (values, d)"
| "decode_id_loop (Suc n) values d =
     (case Decoder_Id d of None \<Rightarrow> None | Some (v, d) \<Rightarrow> decode_id_loop n (values @ [v]) d)"

definition DecodeIds :: "Decoder \<Rightarrow> (u64 list \<times> Decoder) option" where
  "DecodeIds d =
     (case Decoder_Integer d of
        None \<Rightarrow> None
      | Some (count :: u32, d) \<Rightarrow>
          if unat count > length d div 8 then None else decode_id_loop (unat count) [] d)"

section \<open>Records\<close>

text \<open>\<open>or_fail\<close> is an \<open>if (!...) return MakeError(...)\<close>.\<close>

definition or_fail :: "ErrorCode \<Rightarrow> string \<Rightarrow> 'a option \<Rightarrow> ('a \<Rightarrow> ('b, Error) result) \<Rightarrow> ('b, Error) result" where
  "or_fail code message r k = (case r of None \<Rightarrow> Inl (MakeError code message 0) | Some x \<Rightarrow> k x)"

definition encode_optional_id :: "u64 option \<Rightarrow> bytes \<Rightarrow> bytes" where
  "encode_optional_id i out =
     (let out = Encoder_Bool (i \<noteq> None) out in case i of None \<Rightarrow> out | Some v \<Rightarrow> Encoder_Id v out)"

definition encode_error :: "Error \<Rightarrow> bytes \<Rightarrow> bytes option" where
  "encode_error error out =
     (let out = Encoder_Integer (error_code_value (err_code error)) out;
          out = Encoder_Integer (err_support_data error) out in
      Encoder_String (err_message error) out)"

definition encode_failure :: "TransitionFailure \<Rightarrow> bytes \<Rightarrow> (bytes, Error) result" where
  "encode_failure failure out =
     or_fail EC_resource_exhausted ''journal error message is too large''
       (encode_error (tf_error failure) out) (\<lambda>out.
     (let out = encode_optional_id (tf_application failure) out;
          out = Encoder_Integer (be_exit_code (tf_evidence failure)) out;
          out = Encoder_Integer (be_signal (tf_evidence failure)) out;
          out = Encoder_Integer (be_native_code (tf_evidence failure)) out in
     or_fail EC_resource_exhausted ''journal evidence is too large''
       (Encoder_String (be_message (tf_evidence failure)) out) (\<lambda>out.
     (let out = Encoder_Integer (failure_action_value (tf_recovery_action failure)) out;
          out = Encoder_Bool (tf_recovery_attempted failure) out;
          out = Encoder_Bool (tf_recovery_succeeded failure) out;
          out = Encoder_Bool (tf_recovery_error failure \<noteq> None) out in
     or_fail EC_resource_exhausted ''journal recovery error is too large''
       (case tf_recovery_error failure of None \<Rightarrow> Some out | Some e \<Rightarrow> encode_error e out) (\<lambda>out.
     (let out = encode_optional_id (tf_recovered_mode failure) out in
     or_fail EC_resource_exhausted ''journal recovery application evidence is too large''
       (do { out \<leftarrow> EncodeIds (tf_recovery_stopped failure) out;
             EncodeIds (tf_recovery_started failure) out }) Inr))))))"

definition encode_plan :: "TransitionPlan \<Rightarrow> bytes \<Rightarrow> (bytes, Error) result" where
  "encode_plan plan out =
     (let out = Encoder_Integer (tp_generation plan) out;
          out = Encoder_Id (tp_domain plan) out;
          out = Encoder_Id (tp_source_mode plan) out;
          out = Encoder_Id (tp_target_mode plan) out in
      or_fail EC_resource_exhausted ''journal plan is too large''
        (do { out \<leftarrow> EncodeIds (tp_retain plan) out;
              out \<leftarrow> EncodeIds (tp_stop plan) out;
              out \<leftarrow> EncodeIds (tp_start plan) out;
              out \<leftarrow> EncodeIds (tp_guarded_domains plan) out;
              EncodeIds (tp_affected_resources plan) out }) Inr)"

definition encode_transition :: "JournalEvent \<Rightarrow> bytes" where
  "encode_transition event =
     (let t = je_transition event;
          out = Encoder_Integer (je_generation event) [];
          out = Encoder_Id (ts_id t) out;
          out = Encoder_Id (ts_domain t) out;
          out = Encoder_Id (ts_source_mode t) out;
          out = Encoder_Id (ts_target_mode t) out;
          out = Encoder_Integer (phase_value (ts_phase t)) out;
          out = Encoder_Integer (word_of_int (ts_updated_at t) :: u64) out in
      Encoder_Bool (ts_failure t \<noteq> None) out)"

text \<open>\<open>fits\<close> is whether the allocations of the call succeed; otherwise the handler at its end runs.\<close>

definition Encode :: "bool \<Rightarrow> JournalEvent \<Rightarrow> nat \<Rightarrow> (bytes, Error) result" where
  "Encode fits event maximum_size =
     (if \<not> fits then Inl (MakeError EC_resource_exhausted ''cannot encode journal record'' 0)
      else
        and_then (case ts_failure (je_transition event) of
                    None \<Rightarrow> Inr (encode_transition event)
                  | Some failure \<Rightarrow> encode_failure failure (encode_transition event)) (\<lambda>out.
        (let out = Encoder_Bool (je_plan event \<noteq> None) out in
        and_then (case je_plan event of None \<Rightarrow> Inr out | Some plan \<Rightarrow> encode_plan plan out) (\<lambda>out.
        if length out > maximum_size then
          Inl (MakeError EC_resource_exhausted ''journal record exceeds configured limit'' 0)
        else Inr out))))"

definition decode_transition ::
  "Decoder \<Rightarrow> ((u64 \<times> u64 \<times> u64 \<times> u64 \<times> u64 \<times> u8 \<times> u64 \<times> u8) \<times> Decoder) option" where
  "decode_transition d =
     do { (generation, d) \<leftarrow> Decoder_Integer d;
          (i, d) \<leftarrow> Decoder_Id d;
          (domain, d) \<leftarrow> Decoder_Id d;
          (source_mode, d) \<leftarrow> Decoder_Id d;
          (target_mode, d) \<leftarrow> Decoder_Id d;
          (phase, d) \<leftarrow> Decoder_Integer d;
          (updated, d) \<leftarrow> Decoder_Integer d;
          (has_failure, d) \<leftarrow> Decoder_Integer d;
          Some ((generation, i, domain, source_mode, target_mode, phase, updated, has_failure), d) }"

definition decode_error :: "Decoder \<Rightarrow> (Error \<times> u16 \<times> Decoder) option" where
  "decode_error d =
     do { (error_code, d) \<leftarrow> Decoder_Integer d;
          (support_data, d) \<leftarrow> Decoder_Integer d;
          (message, d) \<leftarrow> Decoder_String d;
          Some (MakeError (error_code_of_value error_code) message support_data, error_code, d) }"

definition decode_failure_head :: "Decoder \<Rightarrow> (Error \<times> bool \<times> Decoder) option" where
  "decode_failure_head d =
     do { (error, error_code, d) \<leftarrow> decode_error d;
          (has_application, d) \<leftarrow> (Decoder_Integer d :: (u8 \<times> Decoder) option);
          if error_code > error_code_value EC_internal_error \<or> has_application > 1 then None
          else Some (error, has_application \<noteq> 0, d) }"

definition decode_evidence :: "Decoder \<Rightarrow> (BackendEvidence \<times> Decoder) option" where
  "decode_evidence d =
     do { (exit_code, d) \<leftarrow> Decoder_Integer d;
          (signal, d) \<leftarrow> Decoder_Integer d;
          (native_code, d) \<leftarrow> Decoder_Integer d;
          (message, d) \<leftarrow> Decoder_String d;
          Some (no_evidence\<lparr>be_exit_code := exit_code, be_signal := signal,
                  be_native_code := native_code, be_message := message\<rparr>, d) }"

definition decode_recovery_head :: "Decoder \<Rightarrow> (FailureAction \<times> bool \<times> bool \<times> bool \<times> Decoder) option" where
  "decode_recovery_head d =
     do { (recovery_action, d) \<leftarrow> Decoder_Integer d;
          (recovery_attempted, d) \<leftarrow> (Decoder_Integer d :: (u8 \<times> Decoder) option);
          (recovery_succeeded, d) \<leftarrow> (Decoder_Integer d :: (u8 \<times> Decoder) option);
          (has_recovery_error, d) \<leftarrow> (Decoder_Integer d :: (u8 \<times> Decoder) option);
          if recovery_action > failure_action_value FA_request_system_recovery \<or>
             recovery_attempted > 1 \<or> recovery_succeeded > 1 \<or> has_recovery_error > 1 then None
          else Some (failure_action_of_value recovery_action, recovery_attempted \<noteq> 0,
                     recovery_succeeded \<noteq> 0, has_recovery_error \<noteq> 0, d) }"

definition decode_recovery_error :: "Decoder \<Rightarrow> (Error \<times> Decoder) option" where
  "decode_recovery_error d =
     do { (error, error_code, d) \<leftarrow> decode_error d;
          if error_code > error_code_value EC_internal_error then None else Some (error, d) }"

definition decode_flag :: "Decoder \<Rightarrow> (bool \<times> Decoder) option" where
  "decode_flag d =
     do { (flag, d) \<leftarrow> (Decoder_Integer d :: (u8 \<times> Decoder) option);
          if flag > 1 then None else Some (flag \<noteq> 0, d) }"

text \<open>A value that follows its presence flag.\<close>

definition decode_present :: "bool \<Rightarrow> (Decoder \<Rightarrow> ('a \<times> Decoder) option) \<Rightarrow> Decoder \<Rightarrow> ('a option \<times> Decoder) option" where
  "decode_present present f d =
     (if present then do { (v, d) \<leftarrow> f d; Some (Some v, d) } else Some (None, d))"

definition decode_recovery ::
  "TransitionFailure \<Rightarrow> Decoder \<Rightarrow> (TransitionFailure \<times> Decoder, Error) result" where
  "decode_recovery failure d =
     or_fail EC_persistence_error ''journal recovery evidence is invalid''
       (decode_recovery_head d) (\<lambda>(action, attempted, succeeded, has_recovery_error, d).
     or_fail EC_persistence_error ''journal recovery error is invalid''
       (decode_present has_recovery_error decode_recovery_error d) (\<lambda>(recovery_error, d).
     or_fail EC_persistence_error ''journal recovered mode is invalid''
       (decode_flag d) (\<lambda>(has_recovered_mode, d).
     or_fail EC_persistence_error ''journal recovered mode is truncated''
       (decode_present has_recovered_mode Decoder_Id d) (\<lambda>(mode, d).
     or_fail EC_persistence_error ''journal recovery application evidence is invalid''
       (do { (stopped, d) \<leftarrow> DecodeIds d; (started, d) \<leftarrow> DecodeIds d; Some (stopped, started, d) })
       (\<lambda>(stopped, started, d).
         Inr (failure\<lparr>tf_recovery_action := action, tf_recovery_attempted := attempted,
                tf_recovery_succeeded := succeeded, tf_recovery_error := recovery_error,
                tf_recovered_mode := mode, tf_recovery_stopped := stopped,
                tf_recovery_started := started\<rparr>, d))))))"

definition decode_failure :: "u16 \<Rightarrow> Decoder \<Rightarrow> (TransitionFailure \<times> Decoder, Error) result" where
  "decode_failure format_version d =
     or_fail EC_persistence_error ''journal failure record is invalid''
       (decode_failure_head d) (\<lambda>(error, has_application, d).
     or_fail EC_persistence_error ''journal failure application is truncated''
       (decode_present has_application Decoder_Id d) (\<lambda>(application, d).
     or_fail EC_persistence_error ''journal backend evidence is truncated''
       (decode_evidence d) (\<lambda>(evidence, d).
       (let failure = failure_of error application evidence in
        if format_version \<ge> 2 then decode_recovery failure d else Inr (failure, d)))))"

definition decode_plan :: "Decoder \<Rightarrow> (TransitionPlan \<times> Decoder) option" where
  "decode_plan d =
     do { (generation, d) \<leftarrow> Decoder_Integer d;
          (domain, d) \<leftarrow> Decoder_Id d;
          (source_mode, d) \<leftarrow> Decoder_Id d;
          (target_mode, d) \<leftarrow> Decoder_Id d;
          (retain, d) \<leftarrow> DecodeIds d;
          (stop, d) \<leftarrow> DecodeIds d;
          (start, d) \<leftarrow> DecodeIds d;
          (guarded_domains, d) \<leftarrow> DecodeIds d;
          (affected_resources, d) \<leftarrow> DecodeIds d;
          Some (\<lparr>tp_generation = generation, tp_domain = domain, tp_source_mode = source_mode,
                 tp_target_mode = target_mode, tp_retain = retain, tp_stop = stop, tp_start = start,
                 tp_guarded_domains = guarded_domains, tp_affected_resources = affected_resources\<rparr>, d) }"

definition Decode :: "bool \<Rightarrow> bytes \<Rightarrow> u16 \<Rightarrow> (JournalEvent, Error) result" where
  "Decode fits bs format_version =
     (if \<not> fits then Inl (MakeError EC_resource_exhausted ''cannot decode journal record'' 0)
      else
      or_fail EC_persistence_error ''journal transition record is truncated''
        (decode_transition bs)
        (\<lambda>((generation, i, domain, source_mode, target_mode, phase, updated, has_failure), d).
      if phase > phase_value TP_recovering \<or> has_failure > 1 then
        Inl (MakeError EC_persistence_error ''journal transition record is invalid'' 0)
      else
      and_then (if has_failure \<noteq> 0
                then result_map (\<lambda>(f, d). (Some f, d)) (decode_failure format_version d)
                else Inr (None, d)) (\<lambda>(failure, d).
      or_fail EC_persistence_error ''journal plan marker is invalid''
        (decode_flag d) (\<lambda>(has_plan, d).
      or_fail EC_persistence_error ''journal transition plan is invalid''
        (decode_present has_plan decode_plan d) (\<lambda>(plan, d).
      if d \<noteq> [] then Inl (MakeError EC_persistence_error ''journal record has trailing data'' 0)
      else Inr \<lparr>je_transition = \<lparr>ts_id = i, ts_domain = domain, ts_source_mode = source_mode,
                  ts_target_mode = target_mode, ts_phase = phase_of_value phase,
                  ts_updated_at = sint updated, ts_failure = failure\<rparr>,
                je_generation = generation, je_plan = plan\<rparr>)))))"

section \<open>Round trip of the record format\<close>

text \<open>What a record keeps of an event: the backend state of the evidence is not written.\<close>

definition journaled_failure :: "TransitionFailure \<Rightarrow> TransitionFailure" where
  "journaled_failure f = f\<lparr>tf_evidence := (tf_evidence f)\<lparr>be_state := AS_unknown\<rparr>\<rparr>"

definition journaled :: "JournalEvent \<Rightarrow> JournalEvent" where
  "journaled e = e\<lparr>je_transition := (je_transition e)
     \<lparr>ts_failure := map_option journaled_failure (ts_failure (je_transition e))\<rparr>\<rparr>"

definition clock_in_range :: "JournalEvent \<Rightarrow> bool" where
  "clock_in_range e = (- (2 ^ 63) \<le> ts_updated_at (je_transition e) \<and> ts_updated_at (je_transition e) < 2 ^ 63)"

lemma char_byte_inverse [simp]: "char_of_byte (byte_of_char c) = c"
proof -
  have "(of_char c :: nat) < 256" by simp
  then show ?thesis
    by (simp add: char_of_byte_def byte_of_char_def unat_of_nat take_bit_nat_eq_self)
qed

lemma map_char_byte_inverse [simp]: "map (char_of_byte \<circ> byte_of_char) s = s"
  by (induction s) simp_all

definition int_bytes :: "'a::len word \<Rightarrow> bytes" where
  "int_bytes value = Encoder_Integer value []"

lemma Encoder_Integer_append: "Encoder_Integer v out = out @ int_bytes v"
  by (simp add: int_bytes_def Encoder_Integer_def)

lemma length_int_bytes [simp]: "length (int_bytes (v :: 'a::len word)) = LENGTH('a) div 8"
  by (simp add: int_bytes_def Encoder_Integer_def)

lemma bit_little_endian:
  "bit (little_endian bs :: 'a::len word) n \<longleftrightarrow>
     n < LENGTH('a) \<and> n div 8 < length bs \<and> bit (bs ! (n div 8)) (n mod 8)"
proof (induction bs arbitrary: n)
  case (Cons b bs)
  show ?case
  proof (cases "n < 8")
    case True
    then show ?thesis by (auto simp: bit_simps)
  next
    case False
    then have "n = (n - 8) + 8" and d: "n div 8 = Suc ((n - 8) div 8)" "n mod 8 = (n - 8) mod 8"
      by (simp_all add: le_div_geq le_mod_geq)
    have "\<not> bit (ucast b :: 'a word) n"
      using False by (auto simp: bit_simps dest: bit_imp_le_length)
    moreover have "bit (little_endian bs :: 'a word) (n - 8) \<longleftrightarrow>
        n - 8 < LENGTH('a) \<and> (n - 8) div 8 < length bs \<and> bit (bs ! ((n - 8) div 8)) ((n - 8) mod 8)"
      by (rule Cons.IH)
    ultimately show ?thesis
      using False by (auto simp: bit_simps d)
  qed
qed simp

lemma little_endian_int_bytes:
  assumes "8 dvd LENGTH('a::len)"
  shows "little_endian (int_bytes (v :: 'a word)) = v"
proof (rule bit_word_eqI)
  fix n assume n: "n < LENGTH('a)"
  then have k: "n div 8 < LENGTH('a) div 8"
    using assms by (metis dvd_div_mult_self div_less_iff_less_mult zero_less_numeral)
  have "bit (int_bytes v ! (n div 8)) (n mod 8) = bit v (n div 8 * 8 + n mod 8)"
    using k by (simp add: int_bytes_def Encoder_Integer_def bit_simps)
  then show "bit (little_endian (int_bytes v) :: 'a word) n = bit v n"
    using n k by (simp add: bit_little_endian)
qed

lemma Decoder_Integer_int_bytes [simp]:
  assumes "8 dvd LENGTH('a::len)"
  shows "Decoder_Integer (int_bytes (v :: 'a word) @ rest) = Some (v, rest)"
  by (simp add: Decoder_Integer_def little_endian_int_bytes [OF assms])

named_theorems codec_simps \<open>decoding what was just encoded\<close>

lemma Decoder_u8 [codec_simps]: "Decoder_Integer (int_bytes (v :: u8) @ rest) = Some (v, rest)"
  by simp

lemma Decoder_u16 [codec_simps]: "Decoder_Integer (int_bytes (v :: u16) @ rest) = Some (v, rest)"
  by simp

lemma Decoder_u32 [codec_simps]: "Decoder_Integer (int_bytes (v :: u32) @ rest) = Some (v, rest)"
  by simp

lemma Decoder_u64 [codec_simps]: "Decoder_Integer (int_bytes (v :: u64) @ rest) = Some (v, rest)"
  by simp

lemma Decoder_Id_bytes [codec_simps]: "Decoder_Id (int_bytes v @ rest) = Some (v, rest)"
  by (simp add: Decoder_Id_def codec_simps)

lemma unat_of_count: "n \<le> u32_max \<Longrightarrow> unat (of_nat n :: u32) = n"
  by (simp add: u32_max_def unat_of_nat take_bit_nat_eq_self)

definition string_bytes :: "string \<Rightarrow> bytes" where
  "string_bytes s = int_bytes (of_nat (length s) :: u32) @ map byte_of_char s"

definition ids_bytes :: "u64 list \<Rightarrow> bytes" where
  "ids_bytes vs = int_bytes (of_nat (length vs) :: u32) @ concat (map int_bytes vs)"

lemma Encoder_String_Some:
  "Encoder_String s out = Some out' \<longleftrightarrow> length s \<le> u32_max \<and> out' = out @ string_bytes s"
  by (auto simp: Encoder_String_def string_bytes_def Encoder_Integer_append)

lemma Decoder_String_bytes [codec_simps]:
  "length s \<le> u32_max \<Longrightarrow> Decoder_String (string_bytes s @ rest) = Some (s, rest)"
  by (simp add: Decoder_String_def string_bytes_def codec_simps unat_of_count)

lemma fold_Encoder_Id: "fold Encoder_Id vs out = out @ concat (map int_bytes vs)"
  by (induction vs arbitrary: out) (simp_all add: Encoder_Id_def Encoder_Integer_append)

lemma EncodeIds_Some:
  "EncodeIds vs out = Some out' \<longleftrightarrow> length vs \<le> u32_max \<and> out' = out @ ids_bytes vs"
  by (auto simp: EncodeIds_def ids_bytes_def Encoder_Integer_append fold_Encoder_Id)

lemma decode_id_loop_bytes:
  "decode_id_loop (length vs) acc (concat (map int_bytes vs) @ rest) = Some (acc @ vs, rest)"
  by (induction vs arbitrary: acc) (simp_all add: codec_simps)

lemma length_concat_int_bytes [simp]: "length (concat (map int_bytes (vs :: u64 list))) = 8 * length vs"
  by (induction vs) simp_all

lemma DecodeIds_bytes [codec_simps]:
  assumes "length vs \<le> u32_max"
  shows "DecodeIds (ids_bytes vs @ rest) = Some (vs, rest)"
  using assms decode_id_loop_bytes [of vs "[]" rest]
  by (simp add: DecodeIds_def ids_bytes_def codec_simps unat_of_count)

definition flag_bytes :: "bool \<Rightarrow> bytes" where
  "flag_bytes b = int_bytes (if b then 1 else 0 :: u8)"

lemma decode_flag_bytes [codec_simps]: "decode_flag (flag_bytes b @ rest) = Some (b, rest)"
  by (simp add: decode_flag_def flag_bytes_def codec_simps)

lemma Decoder_flag_bytes [codec_simps]:
  "Decoder_Integer (flag_bytes b @ rest) = Some ((if b then 1 else 0 :: u8), rest)"
  by (simp add: flag_bytes_def codec_simps)

definition optional_bytes :: "u64 option \<Rightarrow> bytes" where
  "optional_bytes i = (case i of None \<Rightarrow> [] | Some v \<Rightarrow> int_bytes v)"

lemma decode_optional_id [codec_simps]:
  "decode_present (i \<noteq> None) Decoder_Id (optional_bytes i @ rest) = Some (i, rest)"
  by (cases i) (simp_all add: decode_present_def optional_bytes_def codec_simps)

definition error_bytes :: "Error \<Rightarrow> bytes" where
  "error_bytes e =
     int_bytes (error_code_value (err_code e)) @ int_bytes (err_support_data e) @ string_bytes (err_message e)"

lemma encode_error_Some:
  "encode_error e out = Some out' \<longleftrightarrow> length (err_message e) \<le> u32_max \<and> out' = out @ error_bytes e"
  by (auto simp: encode_error_def Encoder_String_Some Encoder_Integer_append error_bytes_def Let_def)

lemma MakeError_fields [simp]: "MakeError (err_code e) (err_message e) (err_support_data e) = e"
  by (simp add: MakeError_def)

lemma decode_error_bytes [codec_simps]:
  "length (err_message e) \<le> u32_max \<Longrightarrow>
   decode_error (error_bytes e @ rest) = Some (e, error_code_value (err_code e), rest)"
  by (simp add: decode_error_def error_bytes_def codec_simps)

lemma not_above [simp]:
  "\<not> error_code_value EC_internal_error < error_code_value c"
  "\<not> failure_action_value FA_request_system_recovery < failure_action_value a"
  "\<not> phase_value TP_recovering < phase_value p"
  by (simp_all add: not_less error_code_value_le failure_action_value_le phase_value_le)

lemma decode_failure_head_bytes [codec_simps]:
  "length (err_message e) \<le> u32_max \<Longrightarrow>
   decode_failure_head (error_bytes e @ flag_bytes b @ rest) = Some (e, b, rest)"
  by (simp add: decode_failure_head_def codec_simps)

definition evidence_bytes :: "BackendEvidence \<Rightarrow> bytes" where
  "evidence_bytes v = int_bytes (be_exit_code v) @ int_bytes (be_signal v) @
     int_bytes (be_native_code v) @ string_bytes (be_message v)"

lemma decode_evidence_bytes [codec_simps]:
  "length (be_message v) \<le> u32_max \<Longrightarrow>
   decode_evidence (evidence_bytes v @ rest) = Some (v\<lparr>be_state := AS_unknown\<rparr>, rest)"
  by (cases v) (simp add: decode_evidence_def evidence_bytes_def codec_simps no_evidence_def)

definition recovery_head_bytes :: "TransitionFailure \<Rightarrow> bytes" where
  "recovery_head_bytes f = int_bytes (failure_action_value (tf_recovery_action f)) @
     flag_bytes (tf_recovery_attempted f) @ flag_bytes (tf_recovery_succeeded f) @
     flag_bytes (tf_recovery_error f \<noteq> None)"

lemma decode_recovery_head_bytes [codec_simps]:
  "decode_recovery_head (recovery_head_bytes f @ rest) =
     Some (tf_recovery_action f, tf_recovery_attempted f, tf_recovery_succeeded f,
           tf_recovery_error f \<noteq> None, rest)"
  by (simp add: decode_recovery_head_def recovery_head_bytes_def codec_simps)

definition optional_error_bytes :: "Error option \<Rightarrow> bytes" where
  "optional_error_bytes e = (case e of None \<Rightarrow> [] | Some e \<Rightarrow> error_bytes e)"

definition optional_error_fits :: "Error option \<Rightarrow> bool" where
  "optional_error_fits e = (case e of None \<Rightarrow> True | Some e \<Rightarrow> length (err_message e) \<le> u32_max)"

lemma decode_optional_error [codec_simps]:
  "optional_error_fits e \<Longrightarrow>
   decode_present (e \<noteq> None) decode_recovery_error (optional_error_bytes e @ rest) = Some (e, rest)"
  by (cases e) (simp_all add: decode_present_def optional_error_bytes_def optional_error_fits_def
      decode_recovery_error_def codec_simps)

definition recovery_bytes :: "TransitionFailure \<Rightarrow> bytes" where
  "recovery_bytes f = recovery_head_bytes f @ optional_error_bytes (tf_recovery_error f) @
     flag_bytes (tf_recovered_mode f \<noteq> None) @ optional_bytes (tf_recovered_mode f) @
     ids_bytes (tf_recovery_stopped f) @ ids_bytes (tf_recovery_started f)"

definition failure_bytes :: "TransitionFailure \<Rightarrow> bytes" where
  "failure_bytes f = error_bytes (tf_error f) @ flag_bytes (tf_application f \<noteq> None) @
     optional_bytes (tf_application f) @ evidence_bytes (tf_evidence f) @ recovery_bytes f"

definition failure_fits :: "TransitionFailure \<Rightarrow> bool" where
  "failure_fits f \<longleftrightarrow> length (err_message (tf_error f)) \<le> u32_max \<and>
     length (be_message (tf_evidence f)) \<le> u32_max \<and> optional_error_fits (tf_recovery_error f) \<and>
     length (tf_recovery_stopped f) \<le> u32_max \<and> length (tf_recovery_started f) \<le> u32_max"

lemma or_fail_Inr: "or_fail c m r k = Inr v \<longleftrightarrow> (\<exists>x. r = Some x \<and> k x = Inr v)"
  by (cases r) (simp_all add: or_fail_def)

lemma or_fail_Some [simp]: "or_fail c m (Some x) k = k x"
  by (simp add: or_fail_def)

lemma encode_optional_id_append:
  "encode_optional_id i out = out @ flag_bytes (i \<noteq> None) @ optional_bytes i"
  by (cases i) (simp_all add: encode_optional_id_def Encoder_Bool_def Encoder_Id_def
      Encoder_Integer_append flag_bytes_def optional_bytes_def)

lemma Encoder_Bool_append: "Encoder_Bool b out = out @ flag_bytes b"
  by (simp add: Encoder_Bool_def Encoder_Integer_append flag_bytes_def)

lemma encode_optional_error:
  "(case e of None \<Rightarrow> Some out | Some e \<Rightarrow> encode_error e out) = Some out' \<longleftrightarrow>
     optional_error_fits e \<and> out' = out @ optional_error_bytes e"
  by (cases e) (auto simp: optional_error_fits_def optional_error_bytes_def encode_error_Some)

lemma encode_failure_Inr:
  "encode_failure f out = Inr out' \<longleftrightarrow> failure_fits f \<and> out' = out @ failure_bytes f"
  by (auto simp: encode_failure_def or_fail_Inr Let_def encode_error_Some Encoder_String_Some
      encode_optional_error encode_optional_id_append Encoder_Bool_append Encoder_Integer_append
      EncodeIds_Some bind_eq_Some_conv failure_fits_def failure_bytes_def recovery_bytes_def
      recovery_head_bytes_def evidence_bytes_def)

lemma decode_recovery_bytes:
  assumes "failure_fits f"
  shows "decode_recovery g (recovery_bytes f @ rest) =
    Inr (g\<lparr>tf_recovery_action := tf_recovery_action f, tf_recovery_attempted := tf_recovery_attempted f,
           tf_recovery_succeeded := tf_recovery_succeeded f, tf_recovery_error := tf_recovery_error f,
           tf_recovered_mode := tf_recovered_mode f, tf_recovery_stopped := tf_recovery_stopped f,
           tf_recovery_started := tf_recovery_started f\<rparr>, rest)"
  using assms unfolding failure_fits_def decode_recovery_def recovery_bytes_def
  by (simp add: codec_simps del: not_None_eq)

lemma decode_failure_bytes:
  assumes "failure_fits f"
  shows "decode_failure 2 (failure_bytes f @ rest) = Inr (journaled_failure f, rest)"
proof -
  have "decode_failure 2 (failure_bytes f @ rest) =
    decode_recovery (failure_of (tf_error f) (tf_application f) ((tf_evidence f)\<lparr>be_state := AS_unknown\<rparr>))
      (recovery_bytes f @ rest)"
    using assms unfolding failure_fits_def decode_failure_def failure_bytes_def
    by (simp add: codec_simps del: not_None_eq)
  then show ?thesis
    unfolding decode_recovery_bytes [OF assms]
    by (cases f) (simp add: failure_of_def journaled_failure_def)
qed


definition plan_bytes :: "TransitionPlan \<Rightarrow> bytes" where
  "plan_bytes p = int_bytes (tp_generation p) @ int_bytes (tp_domain p) @ int_bytes (tp_source_mode p) @
     int_bytes (tp_target_mode p) @ ids_bytes (tp_retain p) @ ids_bytes (tp_stop p) @
     ids_bytes (tp_start p) @ ids_bytes (tp_guarded_domains p) @ ids_bytes (tp_affected_resources p)"

definition plan_fits :: "TransitionPlan \<Rightarrow> bool" where
  "plan_fits p \<longleftrightarrow> length (tp_retain p) \<le> u32_max \<and> length (tp_stop p) \<le> u32_max \<and>
     length (tp_start p) \<le> u32_max \<and> length (tp_guarded_domains p) \<le> u32_max \<and>
     length (tp_affected_resources p) \<le> u32_max"

lemma encode_plan_Inr: "encode_plan p out = Inr out' \<longleftrightarrow> plan_fits p \<and> out' = out @ plan_bytes p"
  by (auto simp: encode_plan_def or_fail_Inr Let_def Encoder_Id_def Encoder_Integer_append
      EncodeIds_Some bind_eq_Some_conv plan_fits_def plan_bytes_def)

lemma decode_plan_bytes [codec_simps]:
  "plan_fits p \<Longrightarrow> decode_plan (plan_bytes p @ rest) = Some (p, rest)"
  unfolding plan_fits_def decode_plan_def plan_bytes_def by (simp add: codec_simps)

definition optional_failure_bytes :: "TransitionFailure option \<Rightarrow> bytes" where
  "optional_failure_bytes f = (case f of None \<Rightarrow> [] | Some f \<Rightarrow> failure_bytes f)"

definition optional_plan_bytes :: "TransitionPlan option \<Rightarrow> bytes" where
  "optional_plan_bytes p = (case p of None \<Rightarrow> [] | Some p \<Rightarrow> plan_bytes p)"

definition event_fits :: "JournalEvent \<Rightarrow> bool" where
  "event_fits e \<longleftrightarrow> pred_option failure_fits (ts_failure (je_transition e)) \<and> pred_option plan_fits (je_plan e)"

definition event_bytes :: "JournalEvent \<Rightarrow> bytes" where
  "event_bytes e = encode_transition e @ optional_failure_bytes (ts_failure (je_transition e)) @
     flag_bytes (je_plan e \<noteq> None) @ optional_plan_bytes (je_plan e)"

lemma and_then_Inr: "and_then r f = Inr v \<longleftrightarrow> (\<exists>x. r = Inr x \<and> f x = Inr v)"
  by (cases r) (simp_all add: and_then_def)

lemma and_then_value [simp]: "and_then (Inr x) f = f x"
  by (simp add: and_then_def)

lemma Encode_Inr:
  "Encode fits e n = Inr bs \<longleftrightarrow> fits \<and> event_fits e \<and> length (event_bytes e) \<le> n \<and> bs = event_bytes e"
  by (cases "ts_failure (je_transition e)"; cases "je_plan e")
    (auto simp: Encode_def and_then_Inr encode_failure_Inr encode_plan_Inr Let_def
      Encoder_Bool_append event_fits_def event_bytes_def optional_failure_bytes_def optional_plan_bytes_def)

lemma decode_transition_bytes:
  "decode_transition (encode_transition e @ rest) =
    (let t = je_transition e in
     Some ((je_generation e, ts_id t, ts_domain t, ts_source_mode t, ts_target_mode t,
            phase_value (ts_phase t), word_of_int (ts_updated_at t),
            if ts_failure t \<noteq> None then 1 else 0), rest))"
  by (simp add: decode_transition_def encode_transition_def Let_def Encoder_Id_def
      Encoder_Integer_append Encoder_Bool_append codec_simps del: not_None_eq)

lemma decode_optional_failure:
  assumes "pred_option failure_fits f"
  shows "(if (if f \<noteq> None then 1 else 0 :: u8) \<noteq> 0
      then result_map (\<lambda>(g, d). (Some g, d)) (decode_failure 2 (optional_failure_bytes f @ rest))
      else Inr (None, optional_failure_bytes f @ rest)) =
    Inr (map_option journaled_failure f, rest)"
  using assms by (cases f) (simp_all add: optional_failure_bytes_def decode_failure_bytes result_map_def)

lemma decode_optional_plan [codec_simps]:
  "pred_option plan_fits p \<Longrightarrow>
   decode_present (p \<noteq> None) decode_plan (optional_plan_bytes p @ rest) = Some (p, rest)"
  by (cases p) (simp_all add: decode_present_def optional_plan_bytes_def codec_simps)

lemma sint_clock: "clock_in_range e \<Longrightarrow> sint (word_of_int (ts_updated_at (je_transition e)) :: u64) = ts_updated_at (je_transition e)"
  by (simp add: clock_in_range_def sint_sbintrunc' signed_take_bit_int_eq_self)

lemma Decode_event_bytes:
  assumes "event_fits e" and "clock_in_range e"
  shows "Decode True (event_bytes e) 2 = Inr (journaled e)"
proof -
  let ?f = "ts_failure (je_transition e)"
  have p: "decode_present (je_plan e \<noteq> None) decode_plan (optional_plan_bytes (je_plan e)) = Some (je_plan e, [])"
    using decode_optional_plan [of "je_plan e" "[]"] assms(1) by (simp add: event_fits_def)
  have f: "(if (if ?f \<noteq> None then 1 else 0 :: u8) \<noteq> 0
      then result_map (\<lambda>(g, d). (Some g, d)) (decode_failure 2 (optional_failure_bytes ?f @ rest))
      else Inr (None, optional_failure_bytes ?f @ rest)) =
    Inr (map_option journaled_failure ?f, rest)" for rest
    using assms(1) by (intro decode_optional_failure) (simp add: event_fits_def)
  have "\<not> (if ?f \<noteq> None then 1 else 0 :: u8) > 1" by simp
  then show ?thesis
    unfolding Decode_def event_bytes_def
    by (simp add: decode_transition_bytes Let_def f p codec_simps sint_clock [OF assms(2)] journaled_def
        del: not_None_eq split del: if_split)
qed

text \<open>A record that \<open>Encode\<close> accepts is read back by \<open>Decode\<close> at the current format version as the
  event that was written, except that the backend state inside the failure evidence, which is not
  part of the record, comes back as unknown. The clock value is one of an \<open>int64\<close> nanosecond count.\<close>

theorem record_roundtrip:
  assumes "Encode True event maximum_size = Inr record" and "clock_in_range event"
  shows "Decode True record kFormatVersion = Inr (journaled event)"
  using Decode_event_bytes assms by (simp add: Encode_Inr kFormatVersion_def)

section \<open>The journal file\<close>

text \<open>An open file: content, position and \<open>errno\<close>, and what the next system calls do (a call with no
  prescribed outcome succeeds completely). A \<open>Short\<close> transfer moves at most the given number of bytes.\<close>

datatype Outcome = Done | Short nat | Interrupted | Fails u64

record JournalFile =
  jf_content :: bytes
  jf_offset :: nat
  jf_errno :: u64
  jf_calls :: "Outcome list"

record FileJournalOptions =
  jo_path :: string
  jo_maximum_record_size :: nat
  jo_synchronize :: bool

definition EINTR :: u64 where "EINTR = 4"

definition system_call :: "JournalFile \<Rightarrow> bool \<times> JournalFile" where
  "system_call f =
     (case jf_calls f of
        [] \<Rightarrow> (True, f)
      | Fails e # cs \<Rightarrow> (False, f\<lparr>jf_errno := e, jf_calls := cs\<rparr>)
      | Interrupted # cs \<Rightarrow> (False, f\<lparr>jf_errno := EINTR, jf_calls := cs\<rparr>)
      | _ # cs \<Rightarrow> (True, f\<lparr>jf_calls := cs\<rparr>))"

definition seek_to :: "nat \<Rightarrow> JournalFile \<Rightarrow> bool \<times> JournalFile" where
  "seek_to p f = (let (ok, f) = system_call f in (ok, if ok then f\<lparr>jf_offset := p\<rparr> else f))"

definition truncate_to :: "nat \<Rightarrow> JournalFile \<Rightarrow> bool \<times> JournalFile" where
  "truncate_to n f = (let (ok, f) = system_call f in (ok, if ok then f\<lparr>jf_content := take n (jf_content f)\<rparr> else f))"

definition file_write :: "bytes \<Rightarrow> JournalFile \<Rightarrow> JournalFile" where
  "file_write bs f =
     (let c = jf_content f; p = jf_offset f in
      f\<lparr>jf_content := take p c @ replicate (p - length c) 0 @ bs @ drop (p + length bs) c,
        jf_offset := p + length bs\<rparr>)"

fun write_loop :: "Outcome list \<Rightarrow> bytes \<Rightarrow> JournalFile \<Rightarrow> bool \<times> JournalFile" where
  "write_loop cs [] f = (True, f\<lparr>jf_calls := cs\<rparr>)"
| "write_loop [] (b # bs) f = (True, (file_write (b # bs) f)\<lparr>jf_calls := []\<rparr>)"
| "write_loop (c # cs) (b # bs) f =
     (case c of
        Interrupted \<Rightarrow> write_loop cs (b # bs) (f\<lparr>jf_errno := EINTR\<rparr>)
      | Fails e \<Rightarrow> (False, f\<lparr>jf_errno := e, jf_calls := cs\<rparr>)
      | Short n \<Rightarrow>
          if n = 0 then (False, f\<lparr>jf_calls := cs\<rparr>)
          else write_loop cs (drop n (b # bs)) (file_write (take n (b # bs)) f)
      | Done \<Rightarrow> write_loop cs [] (file_write (b # bs) f))"

definition WriteAll :: "bytes \<Rightarrow> JournalFile \<Rightarrow> bool \<times> JournalFile" where
  "WriteAll bs f = write_loop (jf_calls f) bs f"

text \<open>\<open>file_read n\<close> is a \<open>read\<close> of up to \<open>n\<close> bytes; the loop ends when a read returns nothing.\<close>

definition file_read :: "nat \<Rightarrow> JournalFile \<Rightarrow> bytes \<times> JournalFile" where
  "file_read n f =
     (let data = take n (drop (jf_offset f) (jf_content f)) in
      (data, f\<lparr>jf_offset := jf_offset f + length data\<rparr>))"

fun read_loop :: "Outcome list \<Rightarrow> nat \<Rightarrow> bytes \<Rightarrow> JournalFile \<Rightarrow> (bytes, Error) result \<times> JournalFile" where
  "read_loop cs 0 buffer f = (Inr buffer, f\<lparr>jf_calls := cs\<rparr>)"
| "read_loop [] (Suc n) buffer f =
     (let (data, f) = file_read (Suc n) f in (Inr (buffer @ data), f\<lparr>jf_calls := []\<rparr>))"
| "read_loop (c # cs) (Suc n) buffer f =
     (case c of
        Interrupted \<Rightarrow> read_loop cs (Suc n) buffer (f\<lparr>jf_errno := EINTR\<rparr>)
      | Fails e \<Rightarrow>
          (Inl (MakeError EC_persistence_error ''cannot read transition journal'' e),
           f\<lparr>jf_errno := e, jf_calls := cs\<rparr>)
      | _ \<Rightarrow>
          (let (data, f) = file_read (case c of Short k \<Rightarrow> min k (Suc n) | _ \<Rightarrow> Suc n) f in
           if data = [] then (Inr buffer, f\<lparr>jf_calls := cs\<rparr>)
           else read_loop cs (Suc n - length data) (buffer @ data) f))"

definition Read :: "nat \<Rightarrow> JournalFile \<Rightarrow> (bytes, Error) result \<times> JournalFile" where
  "Read n f = read_loop (jf_calls f) n [] f"

section \<open>Appending\<close>

definition Put16 :: "nat \<Rightarrow> u16 \<Rightarrow> bytes \<Rightarrow> bytes" where
  "Put16 p value out = out[p := ucast value, p + 1 := ucast (drop_bit 8 value)]"

definition Put32 :: "nat \<Rightarrow> u32 \<Rightarrow> bytes \<Rightarrow> bytes" where
  "Put32 p value out = fold (\<lambda>index out. out[p + index := ucast (drop_bit (index * 8) value)]) [0..<4] out"

definition Get16 :: "bytes \<Rightarrow> u16" where
  "Get16 input = or (ucast (input ! 0)) (push_bit 8 (ucast (input ! 1)))"

definition Get32 :: "bytes \<Rightarrow> u32" where
  "Get32 input = fold (\<lambda>index value. or value (push_bit (index * 8) (ucast (input ! index)))) [0..<4] 0"

definition frame_header :: "bytes \<Rightarrow> bytes" where
  "frame_header encoded =
     (let header = replicate kHeaderSize 0;
          header = Put32 0 kMagic header;
          header = Put16 4 kFormatVersion header;
          header = Put16 6 0 header;
          header = Put32 8 (of_nat (length encoded)) header in
      Put32 12 (Crc32 encoded) header)"

definition cannot_append :: "JournalFile \<Rightarrow> (unit, Error) result \<times> JournalFile" where
  "cannot_append f = (Inl (MakeError EC_persistence_error ''cannot append transition journal'' (jf_errno f)), f)"

definition synchronize :: "FileJournalOptions \<Rightarrow> JournalFile \<Rightarrow> bool \<times> JournalFile" where
  "synchronize options f = (if jo_synchronize options then system_call f else (True, f))"

definition FileJournal_Append ::
  "FileJournalOptions \<Rightarrow> bool \<Rightarrow> JournalEvent \<Rightarrow> JournalFile \<Rightarrow> (unit, Error) result \<times> JournalFile" where
  "FileJournal_Append options fits event f =
     (case Encode fits event (jo_maximum_record_size options) of
        Inl e \<Rightarrow> (Inl e, f)
      | Inr encoded \<Rightarrow>
          (let (ok, f) = seek_to (length (jf_content f)) f in
           if \<not> ok then cannot_append f
           else let (ok, f) = WriteAll (frame_header encoded) f in
           if \<not> ok then cannot_append f
           else let (ok, f) = WriteAll encoded f in
           if \<not> ok then cannot_append f
           else let (ok, f) = synchronize options f in
           if \<not> ok then
             (Inl (MakeError EC_persistence_error ''cannot synchronize transition journal'' (jf_errno f)), f)
           else (Inr (), f)))"

section \<open>Replay\<close>

datatype Frame = FR_end | FR_error Error | FR_event JournalEvent

definition repair :: "FileJournalOptions \<Rightarrow> string \<Rightarrow> nat \<Rightarrow> JournalFile \<Rightarrow> Frame \<times> JournalFile" where
  "repair options message frame_start f =
     (let (ok, f) = truncate_to frame_start f in
      if \<not> ok then (FR_error (MakeError EC_persistence_error message (jf_errno f)), f)
      else let (ok, f) = synchronize options f in
      if \<not> ok then (FR_error (MakeError EC_persistence_error message (jf_errno f)), f)
      else (FR_end, f))"

text \<open>One iteration of the loop in \<open>Replay\<close>: the end of the journal, an error, or one more event;
  \<open>alloc\<close> is whether a payload of a given size can be allocated.\<close>

definition replay_frame ::
  "FileJournalOptions \<Rightarrow> (nat \<Rightarrow> bool) \<Rightarrow> JournalFile \<Rightarrow> Frame \<times> JournalFile" where
  "replay_frame options alloc f =
     (let (ok, f) = system_call f; frame_start = jf_offset f in
      if \<not> ok then (FR_error (MakeError EC_persistence_error ''cannot locate journal frame'' (jf_errno f)), f)
      else case Read kHeaderSize f of
        (Inl e, f) \<Rightarrow> (FR_error e, f)
      | (Inr header, f) \<Rightarrow>
          if header = [] then (FR_end, f)
          else if length header \<noteq> kHeaderSize then
            repair options ''cannot repair incomplete journal header'' frame_start f
          else
            (let magic = Get32 header; version = Get16 (drop 4 header); reserved = Get16 (drop 6 header);
                 size = Get32 (drop 8 header); checksum = Get32 (drop 12 header) in
             if magic \<noteq> kMagic \<or> version < kMinimumFormatVersion \<or> version > kFormatVersion \<or>
                reserved \<noteq> 0 \<or> unat size > jo_maximum_record_size options then
               (FR_error (MakeError EC_persistence_error ''journal frame header is invalid'' 0), f)
             else if \<not> alloc (unat size) then
               (FR_error (MakeError EC_resource_exhausted ''cannot allocate journal replay'' 0), f)
             else case Read (unat size) f of
               (Inl e, f) \<Rightarrow> (FR_error e, f)
             | (Inr payload, f) \<Rightarrow>
                 if length payload \<noteq> unat size then
                   repair options ''cannot repair incomplete journal record'' frame_start f
                 else if Crc32 payload \<noteq> checksum then
                   (FR_error (MakeError EC_persistence_error ''journal frame checksum mismatch'' 0), f)
                 else (case Decode (alloc (unat size)) payload version of
                         Inl e \<Rightarrow> (FR_error e, f)
                       | Inr event \<Rightarrow> (FR_event event, f))))"

function (sequential) replay_loop ::
  "FileJournalOptions \<Rightarrow> (nat \<Rightarrow> bool) \<Rightarrow> JournalEvent list \<Rightarrow> JournalFile
     \<Rightarrow> (JournalEvent list, Error) result \<times> JournalFile" where
  "replay_loop options alloc events f =
     (case replay_frame options alloc f of
        (FR_end, f) \<Rightarrow> (Inr events, f)
      | (FR_error e, f) \<Rightarrow> (Inl e, f)
      | (FR_event event, f) \<Rightarrow> replay_loop options alloc (events @ [event]) f)"
  by pat_completeness auto

lemma system_call_keeps:
  assumes "system_call f = (ok, f')"
  shows "jf_content f' = jf_content f" and "jf_offset f' = jf_offset f"
  using assms by (auto simp: system_call_def split: list.splits Outcome.splits)

definition read_progress :: "bytes \<Rightarrow> JournalFile \<Rightarrow> bytes \<Rightarrow> JournalFile \<Rightarrow> bool" where
  "read_progress buffer f data f' \<longleftrightarrow>
     jf_content f' = jf_content f \<and> length buffer \<le> length data \<and>
     jf_offset f' = jf_offset f + (length data - length buffer) \<and>
     (length data \<noteq> length buffer \<longrightarrow> jf_offset f' \<le> length (jf_content f))"

lemma read_progress_step:
  assumes "file_read n f = (chunk, f1)" and "read_progress (buffer @ chunk) f1 data f2"
  shows "read_progress buffer f data f2"
  using assms by (auto simp: read_progress_def file_read_def Let_def)

lemma read_loop_progress:
  "read_loop cs n buffer f = (Inr data, f') \<Longrightarrow> read_progress buffer f data f'"
proof (induction cs n buffer f rule: read_loop.induct)
  case (3 c cs n buffer f)
  consider (i) "c = Interrupted" | (e) e where "c = Fails e" | (r) k where "c = Done \<or> c = Short k"
    by (cases c) auto
  then show ?case
  proof cases
    case i
    then show ?thesis using 3 by (auto simp: read_progress_def)
  next
    case e
    then show ?thesis using "3.prems" by simp
  next
    case r
    let ?n = "case c of Short k \<Rightarrow> min k (Suc n) | _ \<Rightarrow> Suc n"
    obtain chunk f1 where rd: "file_read ?n f = (chunk, f1)" by fastforce
    have eq: "read_loop (c # cs) (Suc n) buffer f =
      (if chunk = [] then (Inr buffer, f1\<lparr>jf_calls := cs\<rparr>)
       else read_loop cs (Suc n - length chunk) (buffer @ chunk) f1)"
      using r rd by auto
    show ?thesis
    proof (cases "chunk = []")
      case True
      then show ?thesis using "3.prems" eq rd by (auto simp: read_progress_def file_read_def Let_def)
    next
      case False
      then have "read_loop cs (Suc n - length chunk) (buffer @ chunk) f1 = (Inr data, f')"
        using "3.prems" eq by simp
      then have "read_progress (buffer @ chunk) f1 data f'"
        using r rd False "3.IH"(1,2) by fastforce
      then show ?thesis by (rule read_progress_step [OF rd])
    qed
  qed
qed (auto simp: read_progress_def file_read_def Let_def)

lemma Read_progress: "Read n f = (Inr data, f') \<Longrightarrow> read_progress [] f data f'"
  unfolding Read_def by (rule read_loop_progress)

lemma repair_not_event: "repair options message p f \<noteq> (FR_event e, f')"
  by (auto simp: repair_def Let_def split: prod.splits if_splits)

lemma replay_frame_event:
  assumes "replay_frame options alloc f = (FR_event e, f')"
  obtains f1 header f2 payload where "system_call f = (True, f1)"
    and "Read kHeaderSize f1 = (Inr header, f2)" and "length header = kHeaderSize"
    and "Read (unat (Get32 (drop 8 header))) f2 = (Inr payload, f')"
    and "length payload = unat (Get32 (drop 8 header))"
  using assms unfolding replay_frame_def
  by (auto simp: Let_def repair_not_event split: prod.splits if_splits sum.splits)

lemma replay_frame_progress:
  assumes "replay_frame options alloc f = (FR_event e, f')"
  shows "jf_content f' = jf_content f \<and> jf_offset f < jf_offset f' \<and> jf_offset f' \<le> length (jf_content f)"
  using assms
proof (rule replay_frame_event)
  fix f1 header f2 payload
  assume c: "system_call f = (True, f1)" and r1: "Read kHeaderSize f1 = (Inr header, f2)"
    and h: "length header = kHeaderSize"
    and r2: "Read (unat (Get32 (drop 8 header))) f2 = (Inr payload, f')"
  have p: "read_progress [] f1 header f2" "read_progress [] f2 payload f'"
    using Read_progress [OF r1] Read_progress [OF r2] by simp_all
  show ?thesis
    using p h system_call_keeps [OF c] by (cases payload) (auto simp: read_progress_def kHeaderSize_def)
qed

termination replay_loop
proof (relation "measure (\<lambda>(_, _, _, f). length (jf_content f) - jf_offset f)", goal_cases)
  case (2 options alloc events f r f' e)
  then have "replay_frame options alloc f = (FR_event e, f')" by simp
  from replay_frame_progress [OF this] show ?case by auto
qed simp

declare replay_loop.simps [simp del]

definition FileJournal_Replay ::
  "FileJournalOptions \<Rightarrow> (nat \<Rightarrow> bool) \<Rightarrow> JournalFile \<Rightarrow> (JournalEvent list, Error) result \<times> JournalFile" where
  "FileJournal_Replay options alloc f =
     (let (ok, f) = seek_to 0 f in
      if \<not> ok then (Inl (MakeError EC_persistence_error ''cannot seek transition journal'' (jf_errno f)), f)
      else replay_loop options alloc [] f)"

definition journal_options_valid :: "FileJournalOptions \<Rightarrow> bool" where
  "journal_options_valid options \<longleftrightarrow>
     \<not> (jo_path options = [] \<or> hd (jo_path options) \<noteq> CHR ''/'' \<or>
        jo_maximum_record_size options < kMinimumMaximumRecordSize \<or>
        jo_maximum_record_size options > u32_max)"

text \<open>\<open>opened\<close> is what \<open>open\<close> returns (an \<open>errno\<close> or the file), \<open>locked\<close> what \<open>flock\<close> does with it.\<close>

definition OpenFileTransitionJournal ::
  "FileJournalOptions \<Rightarrow> u64 + JournalFile \<Rightarrow> u64 option \<Rightarrow> (FileJournalOptions \<times> JournalFile, Error) result" where
  "OpenFileTransitionJournal options opened locked =
     (if \<not> journal_options_valid options then
        Inl (MakeError EC_invalid_argument ''invalid file journal options'' 0)
      else case opened of
        Inl errno \<Rightarrow> Inl (MakeError EC_persistence_error ''cannot open transition journal'' errno)
      | Inr f \<Rightarrow>
          (case locked of
             Some errno \<Rightarrow> Inl (MakeError EC_busy ''transition journal already has a writer'' errno)
           | None \<Rightarrow> Inr (options, f)))"

section \<open>The frame format\<close>

lemma upt_4: "[0..<4] = [0, 1, 2, 3 :: nat]"
  by (simp add: upt_rec)

lemma upt_2: "[0..<2] = [0, 1 :: nat]"
  by (simp add: upt_rec)

lemma int_bytes_u32: "int_bytes (v :: u32) = [ucast v, ucast (drop_bit 8 v), ucast (drop_bit 16 v), ucast (drop_bit 24 v)]"
  by (simp add: int_bytes_def Encoder_Integer_def upt_4)

lemma int_bytes_u16: "int_bytes (v :: u16) = [ucast v, ucast (drop_bit 8 v)]"
  by (simp add: int_bytes_def Encoder_Integer_def upt_2)

lemma frame_header_bytes:
  "frame_header bs = int_bytes kMagic @ int_bytes kFormatVersion @ int_bytes (0 :: u16) @
     int_bytes (of_nat (length bs) :: u32) @ int_bytes (Crc32 bs)"
  unfolding frame_header_def Let_def Put32_def Put16_def upt_4 int_bytes_u32 int_bytes_u16 kHeaderSize_def
  by (simp add: numeral_eq_Suc)

lemma Get32_little_endian: "4 \<le> length bs \<Longrightarrow> Get32 bs = little_endian (take 4 bs)"
  by (auto simp: Get32_def upt_4 numeral_eq_Suc Suc_le_length_iff push_bit_or or.assoc)

lemma Get16_little_endian: "2 \<le> length bs \<Longrightarrow> Get16 bs = little_endian (take 2 bs)"
  by (auto simp: Get16_def numeral_eq_Suc Suc_le_length_iff)

lemma Get32_int_bytes [simp]: "Get32 (int_bytes v @ rest) = v"
  by (simp add: Get32_little_endian little_endian_int_bytes)

lemma Get16_int_bytes [simp]: "Get16 (int_bytes v @ rest) = v"
  by (simp add: Get16_little_endian little_endian_int_bytes)

lemma length_frame_header [simp]: "length (frame_header bs) = kHeaderSize"
  by (simp add: frame_header_bytes kHeaderSize_def)

lemma frame_header_nonempty [simp]: "frame_header bs \<noteq> []"
  by (simp add: frame_header_bytes int_bytes_u32)

lemma drop_append_exact: "n = length xs \<Longrightarrow> drop n (xs @ ys) = ys"
  by simp

lemma frame_header_fields:
  "Get32 (frame_header bs) = kMagic"
  "Get16 (drop 4 (frame_header bs)) = kFormatVersion"
  "Get16 (drop 6 (frame_header bs)) = 0"
  "Get32 (drop 8 (frame_header bs)) = of_nat (length bs)"
  "Get32 (drop 12 (frame_header bs)) = Crc32 bs"
proof -
  let ?m = "int_bytes kMagic" and ?v = "int_bytes kFormatVersion" and ?z = "int_bytes (0 :: u16)"
    and ?n = "int_bytes (of_nat (length bs) :: u32)" and ?c = "int_bytes (Crc32 bs)"
  show "Get32 (frame_header bs) = kMagic" by (simp add: frame_header_bytes)
  have "drop 4 (frame_header bs) = ?v @ ?z @ ?n @ ?c"
    unfolding frame_header_bytes by (rule drop_append_exact) simp
  then show "Get16 (drop 4 (frame_header bs)) = kFormatVersion" by simp
  have "drop 6 (frame_header bs) = ?z @ ?n @ ?c"
    unfolding frame_header_bytes append_assoc [symmetric, of ?m] by (rule drop_append_exact) simp
  then show "Get16 (drop 6 (frame_header bs)) = 0" by simp
  have "drop 8 (frame_header bs) = ?n @ ?c"
    using drop_append_exact [of 8 "?m @ ?v @ ?z" "?n @ ?c"] by (simp add: frame_header_bytes)
  then show "Get32 (drop 8 (frame_header bs)) = of_nat (length bs)" by simp
  have "drop 12 (frame_header bs) = ?c @ []"
    using drop_append_exact [of 12 "?m @ ?v @ ?z @ ?n" "?c"] by (simp add: frame_header_bytes)
  then show "Get32 (drop 12 (frame_header bs)) = Crc32 bs" by (simp only: Get32_int_bytes)
qed

text \<open>A frame, the content of a journal that holds the given events, and the events a journal can
  hold under its options.\<close>

definition frame_of :: "JournalEvent \<Rightarrow> bytes" where
  "frame_of e = frame_header (event_bytes e) @ event_bytes e"

definition journal_content :: "JournalEvent list \<Rightarrow> bytes" where
  "journal_content es = concat (map frame_of es)"

definition storable :: "FileJournalOptions \<Rightarrow> JournalEvent \<Rightarrow> bool" where
  "storable options e \<longleftrightarrow> event_fits e \<and> clock_in_range e \<and> length (event_bytes e) \<le> jo_maximum_record_size options"

definition journal_file :: "FileJournalOptions \<Rightarrow> JournalEvent list \<Rightarrow> JournalFile \<Rightarrow> bool" where
  "journal_file options es f \<longleftrightarrow>
     journal_options_valid options \<and> list_all (storable options) es \<and> jf_content f = journal_content es"

lemma length_frame: "length (frame_of e) = kHeaderSize + length (event_bytes e)"
  by (simp add: frame_of_def)

lemma storable_size: "journal_options_valid options \<Longrightarrow> storable options e \<Longrightarrow>
  unat (of_nat (length (event_bytes e)) :: u32) = length (event_bytes e)"
  by (rule unat_of_count) (simp add: journal_options_valid_def storable_def)

section \<open>Replaying an undisturbed file\<close>

lemma Read_no_faults:
  assumes "jf_calls f = []"
  shows "Read n f = (Inr (take n (drop (jf_offset f) (jf_content f))),
    f\<lparr>jf_offset := jf_offset f + length (take n (drop (jf_offset f) (jf_content f)))\<rparr>)"
  using assms by (cases n) (simp_all add: Read_def file_read_def Let_def)

lemma Read_quiet:
  assumes "jf_calls f = []" and "drop (jf_offset f) (jf_content f) = bs @ rest" and "n = length bs"
  shows "Read n f = (Inr bs, f\<lparr>jf_offset := jf_offset f + n\<rparr>)"
  by (simp add: Read_no_faults [OF assms(1)] assms(2,3))

lemma Read_quiet_short:
  assumes "jf_calls f = []" and "drop (jf_offset f) (jf_content f) = bs" and "length bs < n"
  shows "Read n f = (Inr bs, f\<lparr>jf_offset := jf_offset f + length bs\<rparr>)"
  using assms by (simp add: Read_no_faults)

lemma system_call_quiet [simp]: "jf_calls f = [] \<Longrightarrow> system_call f = (True, f)"
  by (simp add: system_call_def)

lemma synchronize_quiet [simp]: "jf_calls f = [] \<Longrightarrow> synchronize options f = (True, f)"
  by (simp add: synchronize_def)

lemma repair_quiet [simp]:
  "jf_calls f = [] \<Longrightarrow> repair options m p f = (FR_end, f\<lparr>jf_content := take p (jf_content f)\<rparr>)"
  by (simp add: repair_def truncate_to_def)

lemma version_accepted [simp]: "\<not> kFormatVersion < kMinimumFormatVersion"
  by (simp add: kFormatVersion_def kMinimumFormatVersion_def)

lemma drop_header: "drop m xs = frame_header bs @ ys \<Longrightarrow> drop (m + kHeaderSize) xs = ys"
  by (metis add.commute drop_append_exact drop_drop length_frame_header)

lemma replay_frame_header:
  assumes "jf_calls f = []" and d: "drop (jf_offset f) (jf_content f) = frame_header bs @ rest"
    and "length bs \<le> jo_maximum_record_size options" and v: "journal_options_valid options"
  shows "replay_frame options (\<lambda>_. True) f =
    (case Read (length bs) (f\<lparr>jf_offset := jf_offset f + kHeaderSize\<rparr>) of
       (Inl e, g) \<Rightarrow> (FR_error e, g)
     | (Inr payload, g) \<Rightarrow>
         if length payload \<noteq> length bs then
           repair options ''cannot repair incomplete journal record'' (jf_offset f) g
         else if Crc32 payload \<noteq> Crc32 bs then
           (FR_error (MakeError EC_persistence_error ''journal frame checksum mismatch'' 0), g)
         else (case Decode True payload kFormatVersion of
                 Inl e \<Rightarrow> (FR_error e, g)
               | Inr event \<Rightarrow> (FR_event event, g)))"
proof -
  have h: "Read kHeaderSize f = (Inr (frame_header bs), f\<lparr>jf_offset := jf_offset f + kHeaderSize\<rparr>)"
    by (rule Read_quiet [OF assms(1) d]) simp
  have n: "unat (of_nat (length bs) :: u32) = length bs"
    using assms(3) v by (intro unat_of_count) (simp add: journal_options_valid_def)
  show ?thesis
    using assms(1,3) unfolding replay_frame_def
    by (simp add: h n frame_header_fields Let_def split: prod.split sum.split)
qed

lemma replay_frame_good:
  assumes q: "jf_calls f = []" and d: "drop (jf_offset f) (jf_content f) = frame_of e @ rest"
    and s: "storable options e" and v: "journal_options_valid options"
  shows "replay_frame options (\<lambda>_. True) f =
    (FR_event (journaled e), f\<lparr>jf_offset := jf_offset f + length (frame_of e)\<rparr>)"
proof -
  let ?bs = "event_bytes e" and ?f = "f\<lparr>jf_offset := jf_offset f + kHeaderSize\<rparr>"
  have d1: "drop (jf_offset f) (jf_content f) = frame_header ?bs @ ?bs @ rest"
    using d by (simp add: frame_of_def)
  have d2: "drop (jf_offset ?f) (jf_content ?f) = ?bs @ rest"
    using drop_header [OF d1] by simp
  have "Read (length ?bs) ?f = (Inr ?bs, ?f\<lparr>jf_offset := jf_offset ?f + length ?bs\<rparr>)"
    by (rule Read_quiet [OF _ d2]) (simp_all add: q)
  moreover have "Decode True ?bs kFormatVersion = Inr (journaled e)"
    using s Decode_event_bytes by (simp add: storable_def kFormatVersion_def)
  ultimately show ?thesis
    using replay_frame_header [OF q d1 _ v] s by (simp add: storable_def length_frame)
qed

lemma replay_frame_end:
  assumes "jf_calls f = []" and "drop (jf_offset f) (jf_content f) = []"
  shows "replay_frame options alloc f = (FR_end, f)"
  using assms Read_quiet_short [OF assms, of kHeaderSize]
  by (simp add: replay_frame_def Let_def kHeaderSize_def)

text \<open>A torn frame: less than a header, or a header and less than its payload.\<close>

lemma replay_frame_torn_header:
  assumes q: "jf_calls f = []" and d: "drop (jf_offset f) (jf_content f) = bs"
    and "bs \<noteq> []" and n: "length bs < kHeaderSize"
  shows "fst (replay_frame options alloc f) = FR_end \<and>
    jf_content (snd (replay_frame options alloc f)) = take (jf_offset f) (jf_content f)"
  using Read_quiet_short [OF q d n] assms by (simp add: replay_frame_def Let_def)

lemma replay_frame_torn_payload:
  assumes q: "jf_calls f = []" and d: "drop (jf_offset f) (jf_content f) = frame_header bs @ tail"
    and n: "length tail < length bs" and m: "length bs \<le> jo_maximum_record_size options"
    and v: "journal_options_valid options"
  shows "fst (replay_frame options (\<lambda>_. True) f) = FR_end \<and>
    jf_content (snd (replay_frame options (\<lambda>_. True) f)) = take (jf_offset f) (jf_content f)"
proof -
  let ?f = "f\<lparr>jf_offset := jf_offset f + kHeaderSize\<rparr>"
  have d2: "drop (jf_offset ?f) (jf_content ?f) = tail"
    using drop_header [OF d] by simp
  have "Read (length bs) ?f = (Inr tail, ?f\<lparr>jf_offset := jf_offset ?f + length tail\<rparr>)"
    by (rule Read_quiet_short [OF _ d2]) (simp_all add: q n)
  then show ?thesis
    using replay_frame_header [OF q d m v] q n by simp
qed

lemma replay_frame_torn:
  assumes q: "jf_calls f = []" and d: "drop (jf_offset f) (jf_content f) = take k (frame_of e)"
    and k: "0 < k" "k < length (frame_of e)" and s: "storable options e" and v: "journal_options_valid options"
  shows "fst (replay_frame options (\<lambda>_. True) f) = FR_end \<and>
    jf_content (snd (replay_frame options (\<lambda>_. True) f)) = take (jf_offset f) (jf_content f)"
proof (cases "k < kHeaderSize")
  case True
  then show ?thesis
    using k by (intro replay_frame_torn_header [OF q d]) (auto simp: frame_of_def kHeaderSize_def)
next
  case False
  then have "take k (frame_of e) = frame_header (event_bytes e) @ take (k - kHeaderSize) (event_bytes e)"
    by (simp add: frame_of_def)
  then show ?thesis
    using k s False d by (intro replay_frame_torn_payload [OF q _ _ _ v]) (auto simp: frame_of_def storable_def)
qed


lemma replay_frames:
  assumes "jf_calls f = []" and "drop (jf_offset f) (jf_content f) = journal_content es @ rest"
    and "list_all (storable options) es" and v: "journal_options_valid options"
  shows "replay_loop options (\<lambda>_. True) acc f =
    replay_loop options (\<lambda>_. True) (acc @ map journaled es)
      (f\<lparr>jf_offset := jf_offset f + length (journal_content es)\<rparr>)"
  using assms(1-3)
proof (induction es arbitrary: f acc)
  case Nil
  then show ?case by (simp add: journal_content_def)
next
  case (Cons e es)
  let ?f = "f\<lparr>jf_offset := jf_offset f + length (frame_of e)\<rparr>"
  have d: "drop (jf_offset f) (jf_content f) = frame_of e @ journal_content es @ rest"
    using Cons.prems(2) by (simp add: journal_content_def)
  have "drop (jf_offset ?f) (jf_content ?f) = drop (length (frame_of e)) (drop (jf_offset f) (jf_content f))"
    by (simp add: add.commute)
  then have d': "drop (jf_offset ?f) (jf_content ?f) = journal_content es @ rest"
    unfolding d by simp
  have "replay_loop options (\<lambda>_. True) acc f = replay_loop options (\<lambda>_. True) (acc @ [journaled e]) ?f"
    using replay_frame_good [OF Cons.prems(1) d _ v] Cons.prems(3) by (simp add: replay_loop.simps)
  also have "\<dots> = replay_loop options (\<lambda>_. True) ((acc @ [journaled e]) @ map journaled es)
      (?f\<lparr>jf_offset := jf_offset ?f + length (journal_content es)\<rparr>)"
    using Cons.prems(1,3) by (intro Cons.IH [OF _ d']) simp_all
  finally show ?case
    by (simp add: journal_content_def add.assoc)
qed

text \<open>The file as a new process opens it.\<close>

definition reopened :: "JournalFile \<Rightarrow> JournalFile" where
  "reopened f = f\<lparr>jf_calls := [], jf_offset := 0\<rparr>"

lemma Replay_prefix:
  assumes c: "jf_content f = journal_content es @ rest" and s: "list_all (storable options) es"
    and v: "journal_options_valid options"
  shows "FileJournal_Replay options (\<lambda>_. True) (reopened f) =
    replay_loop options (\<lambda>_. True) (map journaled es)
      ((reopened f)\<lparr>jf_offset := length (journal_content es)\<rparr>)"
proof -
  have "FileJournal_Replay options (\<lambda>_. True) (reopened f) = replay_loop options (\<lambda>_. True) [] (reopened f)"
    by (simp add: FileJournal_Replay_def seek_to_def reopened_def)
  also have "\<dots> = replay_loop options (\<lambda>_. True) ([] @ map journaled es)
      ((reopened f)\<lparr>jf_offset := jf_offset (reopened f) + length (journal_content es)\<rparr>)"
    by (rule replay_frames [OF _ _ s v, where rest = rest]) (simp_all add: reopened_def c)
  finally show ?thesis by (simp add: reopened_def)
qed

lemma Replay_stops:
  assumes c: "jf_content f = journal_content es @ rest" and s: "list_all (storable options) es"
    and v: "journal_options_valid options"
    and stop: "\<And>g. jf_calls g = [] \<Longrightarrow> jf_content g = jf_content f \<Longrightarrow>
        jf_offset g = length (journal_content es) \<Longrightarrow>
        fst (replay_frame options (\<lambda>_. True) g) = FR_end \<and>
        jf_content (snd (replay_frame options (\<lambda>_. True) g)) = journal_content es"
  shows "fst (FileJournal_Replay options (\<lambda>_. True) (reopened f)) = Inr (map journaled es) \<and>
    jf_content (snd (FileJournal_Replay options (\<lambda>_. True) (reopened f))) = journal_content es"
proof -
  let ?g = "(reopened f)\<lparr>jf_offset := length (journal_content es)\<rparr>"
  obtain r g' where g': "replay_frame options (\<lambda>_. True) ?g = (r, g')" by fastforce
  have "r = FR_end \<and> jf_content g' = journal_content es"
    using stop [of ?g] unfolding g' by (simp add: reopened_def)
  then show ?thesis
    unfolding Replay_prefix [OF c s v] by (simp add: replay_loop.simps g')
qed

lemma Replay_whole:
  assumes "journal_file options es f"
  shows "fst (FileJournal_Replay options (\<lambda>_. True) (reopened f)) = Inr (map journaled es) \<and>
    jf_content (snd (FileJournal_Replay options (\<lambda>_. True) (reopened f))) = journal_content es"
  using assms unfolding journal_file_def
  by (intro Replay_stops [where rest = "[]"]) (simp_all add: replay_frame_end)

lemma Replay_torn:
  assumes "jf_content f = journal_content es @ take k (frame_of e)" and "0 < k" "k < length (frame_of e)"
    and "list_all (storable options) es" and "storable options e" and "journal_options_valid options"
  shows "fst (FileJournal_Replay options (\<lambda>_. True) (reopened f)) = Inr (map journaled es) \<and>
    jf_content (snd (FileJournal_Replay options (\<lambda>_. True) (reopened f))) = journal_content es"
proof (rule Replay_stops [OF assms(1,4,6)])
  fix g :: JournalFile assume g: "jf_calls g = []" "jf_content g = jf_content f" "jf_offset g = length (journal_content es)"
  then have "drop (jf_offset g) (jf_content g) = take k (frame_of e)" by (simp add: assms(1))
  from replay_frame_torn [OF g(1) this assms(2,3,5,6)] g(2,3)
  show "fst (replay_frame options (\<lambda>_. True) g) = FR_end \<and>
      jf_content (snd (replay_frame options (\<lambda>_. True) g)) = journal_content es"
    by (simp add: assms(1))
qed


section \<open>Appending under any system call failures\<close>

lemma file_write_end:
  assumes "jf_offset f = length (jf_content f)"
  shows "jf_content (file_write bs f) = jf_content f @ bs"
    and "jf_offset (file_write bs f) = length (jf_content (file_write bs f))"
  using assms by (simp_all add: file_write_def Let_def)

definition wrote_prefix :: "bytes \<Rightarrow> JournalFile \<Rightarrow> bool \<Rightarrow> JournalFile \<Rightarrow> bool" where
  "wrote_prefix bs f ok f' \<longleftrightarrow>
     (\<exists>k \<le> length bs. jf_content f' = jf_content f @ take k bs \<and>
        jf_offset f' = length (jf_content f') \<and> (ok \<longrightarrow> k = length bs))"

lemma wrote_prefix_step:
  assumes "jf_offset f = length (jf_content f)" and "n \<le> length bs"
    and "wrote_prefix (drop n bs) (file_write (take n bs) f) ok f'"
  shows "wrote_prefix bs f ok f'"
proof -
  obtain k where k: "k \<le> length bs - n" "jf_content f' = jf_content f @ take n bs @ take k (drop n bs)"
    "jf_offset f' = length (jf_content f')" "ok \<longrightarrow> k = length bs - n"
    using assms(3) unfolding wrote_prefix_def file_write_end(1) [OF assms(1)] append_assoc length_drop by blast
  have "take n bs @ take k (drop n bs) = take (n + k) bs" by (simp add: take_add)
  then show ?thesis
    using k assms(2) unfolding wrote_prefix_def by (intro exI [of _ "n + k"]) auto
qed

lemma write_loop_prefix:
  "jf_offset f = length (jf_content f) \<Longrightarrow> write_loop cs bs f = (ok, f') \<Longrightarrow> wrote_prefix bs f ok f'"
proof (induction cs bs f rule: write_loop.induct)
  case (1 cs f)
  then show ?case by (auto simp: wrote_prefix_def)
next
  case (2 b bs f)
  then show ?case
    using file_write_end [OF "2.prems"(1), of "b # bs"] by (auto simp: wrote_prefix_def intro!: exI [of _ "Suc (length bs)"])
next
  case (3 c cs b bs f)
  show ?case
  proof (cases c)
    case Done
    then show ?thesis
      using 3 file_write_end [OF "3.prems"(1), of "b # bs"]
      by (auto simp: wrote_prefix_def intro!: exI [of _ "Suc (length bs)"])
  next
    case (Short n)
    show ?thesis
    proof (cases "n = 0")
      case True
      then show ?thesis using Short "3.prems" by (auto simp: wrote_prefix_def)
    next
      case False
      let ?n = "min n (length (b # bs))"
      have tk: "take n (b # bs) = take ?n (b # bs)" "drop n (b # bs) = drop ?n (b # bs)"
        by (auto simp: min_def)
      have "write_loop cs (drop n (b # bs)) (file_write (take n (b # bs)) f) = (ok, f')"
        using "3.prems"(2) Short False by simp
      then have "wrote_prefix (drop n (b # bs)) (file_write (take n (b # bs)) f) ok f'"
        using "3.IH" Short False file_write_end(2) [OF "3.prems"(1)] by blast
      then show ?thesis
        unfolding tk by (rule wrote_prefix_step [OF "3.prems"(1), rotated]) simp
    qed
  next
    case Interrupted
    then show ?thesis using 3 by (auto simp: wrote_prefix_def)
  next
    case (Fails e)
    then show ?thesis using "3.prems" by (auto simp: wrote_prefix_def)
  qed
qed

lemma WriteAll_prefix:
  assumes "jf_offset f = length (jf_content f)" and "WriteAll bs f = (ok, f')"
  shows "wrote_prefix bs f ok f'"
  using write_loop_prefix assms by (simp add: WriteAll_def)

lemma synchronize_keeps: "synchronize options f = (ok, f') \<Longrightarrow> jf_content f' = jf_content f"
  by (auto simp: synchronize_def system_call_keeps split: if_splits)

lemma seek_to_end:
  assumes "seek_to (length (jf_content f)) f = (ok, f')"
  shows "jf_content f' = jf_content f" and "ok \<Longrightarrow> jf_offset f' = length (jf_content f')"
  using assms by (auto simp: seek_to_def system_call_keeps split: prod.splits if_splits)

text \<open>Whatever the system calls do, an append extends the file by a prefix of the frame, and by all
  of it when it reports success.\<close>

lemma wrote_two:
  assumes "wrote_prefix h f True f1" and "wrote_prefix p f1 ok f2"
  shows "wrote_prefix (h @ p) f ok f2"
proof -
  obtain k where "k \<le> length p" "jf_content f2 = jf_content f1 @ take k p"
    "jf_offset f2 = length (jf_content f2)" "ok \<longrightarrow> k = length p"
    using assms(2) by (auto simp: wrote_prefix_def)
  moreover have "jf_content f1 = jf_content f @ h" using assms(1) by (auto simp: wrote_prefix_def)
  ultimately show ?thesis
    unfolding wrote_prefix_def by (intro exI [of _ "length h + k"]) auto
qed

lemma wrote_prefix_weaken:
  assumes "wrote_prefix h f ok f1"
  shows "wrote_prefix (h @ p) f False f1"
proof -
  obtain k where "k \<le> length h" "jf_content f1 = jf_content f @ take k h" "jf_offset f1 = length (jf_content f1)"
    using assms unfolding wrote_prefix_def by blast
  then show ?thesis unfolding wrote_prefix_def by (intro exI [of _ k]) auto
qed

lemma Append_prefix:
  assumes "FileJournal_Append options fits event f = (r, f')"
  shows "(Encode fits event (jo_maximum_record_size options) \<noteq> Inr (event_bytes event) \<and> f' = f \<and> r \<noteq> Inr ()) \<or>
    (\<exists>k \<le> length (frame_of event). jf_content f' = jf_content f @ take k (frame_of event) \<and>
       (r = Inr () \<longrightarrow> k = length (frame_of event)))"
proof (cases "Encode fits event (jo_maximum_record_size options)")
  case (Inl e)
  then show ?thesis using assms by (auto simp: FileJournal_Append_def)
next
  case (Inr bs)
  then have bs: "bs = event_bytes event" by (simp add: Encode_Inr)
  let ?h = "frame_header bs"
  obtain ok0 f0 ok1 f1 ok2 f2 ok3 f3 where
    s: "seek_to (length (jf_content f)) f = (ok0, f0)" "WriteAll ?h f0 = (ok1, f1)"
       "WriteAll bs f1 = (ok2, f2)" "synchronize options f2 = (ok3, f3)" by (metis surj_pair)
  have c0: "jf_content f0 = jf_content f" using seek_to_end(1) [OF s(1)] .
  show ?thesis
  proof (cases ok0)
    case False
    then show ?thesis
      using assms Inr s c0 by (auto simp: FileJournal_Append_def cannot_append_def intro!: exI [of _ 0])
  next
    case True
    have e0: "jf_offset f0 = length (jf_content f0)" using seek_to_end(2) [OF s(1) True] .
    have w1: "wrote_prefix ?h f0 ok1 f1" using WriteAll_prefix [OF e0 s(2)] .
    then have e1: "jf_offset f1 = length (jf_content f1)" by (auto simp: wrote_prefix_def)
    have w2: "wrote_prefix bs f1 ok2 f2" using WriteAll_prefix [OF e1 s(3)] .
    have "\<exists>ok. wrote_prefix (?h @ bs) f0 ok f' \<and> (r = Inr () \<longrightarrow> ok)"
    proof (cases "ok1 \<and> ok2")
      case both: True
      have "wrote_prefix (?h @ bs) f0 True f2" using wrote_two [of ?h f0 f1 bs True f2] w1 w2 both by simp
      moreover have "jf_content f3 = jf_content f2" using synchronize_keeps [OF s(4)] .
      moreover have "jf_offset f3 = jf_offset f2"
        using s(4) by (auto simp: synchronize_def system_call_keeps split: if_splits)
      moreover have "f' = f3"
        using assms Inr s True both by (auto simp: FileJournal_Append_def split: if_splits)
      ultimately have "wrote_prefix (?h @ bs) f0 True f'" by (simp only: wrote_prefix_def)
      then show ?thesis by blast
    next
      case nb: False
      show ?thesis
      proof (cases ok1)
        case False
        then show ?thesis
          using assms Inr s True wrote_prefix_weaken [OF w1, of bs]
          by (auto simp: FileJournal_Append_def cannot_append_def)
      next
        case o: True
        then show ?thesis
          using assms Inr s True nb wrote_two [of ?h f0 f1 bs False f2] w1 w2
          by (auto simp: FileJournal_Append_def cannot_append_def)
      qed
    qed
    then show ?thesis
      unfolding wrote_prefix_def c0 frame_of_def bs [symmetric] by blast
  qed
qed


section \<open>Crash safety and detection of damage\<close>

lemma journal_content_snoc: "journal_content (es @ [e]) = journal_content es @ frame_of e"
  by (simp add: journal_content_def)

lemma replay_after_prefix:
  assumes "journal_file options events f" and "storable options event" and "k \<le> length (frame_of event)"
    and c: "jf_content g = journal_content events @ take k (frame_of event)"
  shows "\<exists>kept \<in> {events, events @ [event]}. (k = length (frame_of event) \<longrightarrow> kept = events @ [event]) \<and>
    fst (FileJournal_Replay options (\<lambda>_. True) (reopened g)) = Inr (map journaled kept) \<and>
    journal_file options kept (snd (FileJournal_Replay options (\<lambda>_. True) (reopened g)))"
proof -
  note jf = assms(1) [unfolded journal_file_def]
  consider "k = 0" | "0 < k" "k < length (frame_of event)" | "k = length (frame_of event)"
    using assms(3) by linarith
  then show ?thesis
  proof cases
    case 1
    then have "journal_file options events g" using c jf by (simp add: journal_file_def)
    then show ?thesis
      using Replay_whole [of options events g] jf 1 by (intro bexI [of _ events]) (auto simp: journal_file_def length_frame kHeaderSize_def)
  next
    case 2
    then show ?thesis
      using Replay_torn [OF c 2 _ assms(2)] jf by (intro bexI [of _ events]) (auto simp: journal_file_def)
  next
    case 3
    then have "journal_file options (events @ [event]) g"
      using c jf assms(2) by (simp add: journal_file_def journal_content_snoc)
    then show ?thesis
      using Replay_whole [of options "events @ [event]" g] jf assms(2)
      by (intro bexI [of _ "events @ [event]"]) (auto simp: journal_file_def)
  qed
qed

text \<open>C6: appends are atomic across crashes. Starting from a file that holds the frames of \<open>events\<close>,
  whatever the system calls of one \<open>Append\<close> do (short writes, interruptions, failures at any point),
  a later undisturbed \<open>Replay\<close> of the file returns either the old events or the old events and the
  new one, and leaves the file holding exactly the frames it returned; when \<open>Append\<close> reported
  success it is the latter.\<close>

theorem append_atomic:
  assumes "journal_file options events f" and "clock_in_range event"
  shows "\<exists>kept \<in> {events, events @ [event]}.
    (fst (FileJournal_Append options fits event f) = Inr () \<longrightarrow> kept = events @ [event]) \<and>
    fst (FileJournal_Replay options (\<lambda>_. True) (reopened (snd (FileJournal_Append options fits event f)))) =
      Inr (map journaled kept) \<and>
    journal_file options kept
      (snd (FileJournal_Replay options (\<lambda>_. True) (reopened (snd (FileJournal_Append options fits event f)))))"
proof -
  obtain r g where a: "FileJournal_Append options fits event f = (r, g)" by fastforce
  note jf = assms(1) [unfolded journal_file_def]
  have unchanged: ?thesis if "g = f" "r \<noteq> Inr ()"
    using that Replay_whole [OF assms(1)] jf by (intro bexI [of _ events]) (auto simp: a journal_file_def)
  show ?thesis
  proof (cases "Encode fits event (jo_maximum_record_size options)")
    case (Inl e)
    then show ?thesis using a by (intro unchanged) (auto simp: FileJournal_Append_def)
  next
    case (Inr bs)
    then have s: "storable options event" using assms(2) by (auto simp: Encode_Inr storable_def)
    from Append_prefix [OF a] Inr obtain k where k: "k \<le> length (frame_of event)"
      "r = Inr () \<longrightarrow> k = length (frame_of event)" "jf_content g = journal_content events @ take k (frame_of event)"
      using jf by (auto simp: Encode_Inr)
    from replay_after_prefix [OF assms(1) s k(1,3)] k(2) show ?thesis unfolding a fst_conv snd_conv by blast
  qed
qed

lemma crc_mask: "(0 - and crc 1 :: u32) = (if bit crc 0 then - 1 else 0)"
  by (simp add: and_one_eq mod_2_eq_odd bit_0)

lemma bit_crc_bit:
  "bit (crc_bit crc) n \<longleftrightarrow> (bit crc (Suc n) \<noteq> (bit (0xEDB88320 :: u32) n \<and> bit crc 0))"
  unfolding crc_bit_def Let_def crc_mask by (auto simp: bit_simps)

lemma crc_polynomial_top: "bit (0xEDB88320 :: u32) 31"
  by (simp add: bit_numeral_rec)

lemma inj_crc_bit: "inj crc_bit"
proof (rule injI)
  fix x y assume eq: "crc_bit x = crc_bit y"
  have "bit (crc_bit z) 31 = bit z 0" for z
    using crc_polynomial_top bit_imp_le_length [of z 32] by (auto simp: bit_crc_bit)
  then have low: "bit x 0 = bit y 0" using eq by metis
  show "x = y"
  proof (rule bit_word_eqI)
    fix n
    show "bit x n = bit y n"
    proof (cases n)
      case (Suc k)
      have "bit (crc_bit x) k = bit (crc_bit y) k" using eq by simp
      then show ?thesis using low Suc by (auto simp: bit_crc_bit)
    qed (use low in simp)
  qed
qed

lemma crc_byte_state_inj: "crc_byte b x = crc_byte b y \<Longrightarrow> x = y"
proof -
  assume "crc_byte b x = crc_byte b y"
  then have "xor x (ucast b) = xor y (ucast b)"
    unfolding crc_byte_def by (rule injD [OF inj_fn [OF inj_crc_bit]])
  then have "xor (xor x (ucast b)) (ucast b) = xor (xor y (ucast b)) (ucast b)" by simp
  then show "x = y" by (simp add: xor.assoc)
qed

lemma crc_byte_data_inj: "crc_byte a x = crc_byte b x \<Longrightarrow> a = b"
proof -
  assume "crc_byte a x = crc_byte b x"
  then have "xor x (ucast a) = xor x (ucast b)"
    unfolding crc_byte_def by (rule injD [OF inj_fn [OF inj_crc_bit]])
  then have "xor x (xor x (ucast a)) = xor x (xor x (ucast b))" by simp
  then have "(ucast a :: u32) = ucast b" by (simp add: xor.assoc [symmetric])
  then have eq: "unat (ucast a :: u32) = unat (ucast b :: u32)" by (rule arg_cong)
  have "unat (ucast x :: u32) = unat x" for x :: u8
    using unsigned_less [of x, where ?'a = nat] by (simp add: unsigned_ucast_eq take_bit_nat_eq_self)
  then show "a = b" using eq by (simp add: word_unat_eq_iff)
qed

lemma fold_crc_inj: "fold crc_byte bs x = fold crc_byte bs y \<Longrightarrow> x = y"
  by (induction bs arbitrary: x y) (auto dest: crc_byte_state_inj)

lemma not_word_inj: "not x = not y \<Longrightarrow> x = (y :: u32)"
  by (metis bit.double_compl)

lemma Crc32_one_byte:
  assumes "i < length bs" and "b \<noteq> bs ! i"
  shows "Crc32 (bs[i := b]) \<noteq> Crc32 bs"
proof
  assume "Crc32 (bs[i := b]) = Crc32 bs"
  then have eq: "fold crc_byte (bs[i := b]) 0xFFFFFFFF = fold crc_byte bs 0xFFFFFFFF"
    unfolding Crc32_def by (rule not_word_inj)
  have u: "bs[i := b] = take i bs @ b # drop (Suc i) bs" using assms(1) by (rule upd_conv_take_nth_drop)
  have v: "bs = take i bs @ bs ! i # drop (Suc i) bs" using assms(1) by (rule id_take_nth_drop)
  let ?s = "fold crc_byte (take i bs) 0xFFFFFFFF"
  have "fold crc_byte (drop (Suc i) bs) (crc_byte b ?s) = fold crc_byte bs 0xFFFFFFFF"
    using eq unfolding u by simp
  also have "\<dots> = fold crc_byte (drop (Suc i) bs) (crc_byte (bs ! i) ?s)"
    by (subst v) (simp only: fold_append fold.simps comp_def id_def)
  finally show False
    using fold_crc_inj crc_byte_data_inj assms(2) by metis
qed

text \<open>A payload that differs from the written one in a single byte, anywhere in it and with any
  other frames behind it, is refused: \<open>Replay\<close> reports a checksum mismatch and leaves the file as it is.\<close>

theorem damaged_byte_detected:
  assumes "journal_options_valid options" and "list_all (storable options) events"
    and "storable options event" and "i < length (event_bytes event)" and "b \<noteq> event_bytes event ! i"
    and "jf_content f = journal_content events @ frame_header (event_bytes event) @ (event_bytes event)[i := b] @ rest"
  shows "fst (FileJournal_Replay options (\<lambda>_. True) (reopened f)) =
      Inl (MakeError EC_persistence_error ''journal frame checksum mismatch'' 0)
    \<and> jf_content (snd (FileJournal_Replay options (\<lambda>_. True) (reopened f))) = jf_content f"
proof -
  let ?bs = "event_bytes event" and ?g = "(reopened f)\<lparr>jf_offset := length (journal_content events)\<rparr>"
  have q: "jf_calls ?g = []" by (simp add: reopened_def)
  have d: "drop (jf_offset ?g) (jf_content ?g) = frame_header ?bs @ ?bs[i := b] @ rest"
    using assms(6) by (simp add: reopened_def)
  let ?h = "?g\<lparr>jf_offset := jf_offset ?g + kHeaderSize\<rparr>"
  have d2: "drop (jf_offset ?h) (jf_content ?h) = ?bs[i := b] @ rest"
    using drop_header [OF d] by simp
  have "Read (length ?bs) ?h = (Inr (?bs[i := b]), ?h\<lparr>jf_offset := jf_offset ?h + length ?bs\<rparr>)"
    by (rule Read_quiet [OF _ d2]) (simp_all add: reopened_def)
  moreover have "Crc32 (?bs[i := b]) \<noteq> Crc32 ?bs" by (rule Crc32_one_byte [OF assms(4,5)])
  ultimately have "replay_frame options (\<lambda>_. True) ?g =
      (FR_error (MakeError EC_persistence_error ''journal frame checksum mismatch'' 0),
       ?h\<lparr>jf_offset := jf_offset ?h + length ?bs\<rparr>)"
    using replay_frame_header [OF q d _ assms(1)] assms(3) by (simp add: storable_def)
  then show ?thesis
    unfolding Replay_prefix [OF assms(6,2,1)] by (simp add: replay_loop.simps reopened_def)
qed

lemma Append_quiet:
  assumes "jf_calls f = []" and "storable options event"
  shows "fst (FileJournal_Append options True event f) = Inr () \<and>
    jf_content (snd (FileJournal_Append options True event f)) = jf_content f @ frame_of event \<and>
    jf_calls (snd (FileJournal_Append options True event f)) = []"
proof -
  have e: "Encode True event (jo_maximum_record_size options) = Inr (event_bytes event)"
    using assms(2) by (simp add: Encode_Inr storable_def)
  have w: "WriteAll bs g = (True, file_write bs g)" if "jf_calls g = []" "bs \<noteq> []" for bs and g :: JournalFile
    using that by (cases bs) (simp_all add: WriteAll_def file_write_def Let_def)
  have ne: "event_bytes event \<noteq> []"
    by (simp add: event_bytes_def encode_transition_def Let_def Encoder_Bool_append flag_bytes_def
        int_bytes_def Encoder_Integer_def)
  show ?thesis
    using assms(1) by (simp add: FileJournal_Append_def e seek_to_def w ne file_write_def Let_def frame_of_def)
qed

text \<open>An append that fails part way leaves its partial frame in the file, and the next append
  writes behind it. When the partial frame has a complete header and the next frame is smaller
  than the missing part of the payload, that next append reports success, and a later \<open>Replay\<close>
  takes both for one torn record: it returns only the earlier events and truncates the
  acknowledged event away.\<close>

theorem acknowledged_event_lost:
  assumes "journal_options_valid options" and "list_all (storable options) events"
    and "storable options torn" and "storable options event"
    and "jf_content f = journal_content events @ take k (frame_of torn)" and "jf_calls f = []"
    and "kHeaderSize \<le> k" and "k + length (frame_of event) < length (frame_of torn)"
  shows "fst (FileJournal_Append options True event f) = Inr ()
    \<and> fst (FileJournal_Replay options (\<lambda>_. True) (reopened (snd (FileJournal_Append options True event f)))) =
        Inr (map journaled events)
    \<and> jf_content (snd (FileJournal_Replay options (\<lambda>_. True) (reopened (snd (FileJournal_Append options True event f))))) =
        journal_content events"
proof -
  let ?g = "snd (FileJournal_Append options True event f)" and ?bs = "event_bytes torn"
  let ?tail = "take (k - kHeaderSize) ?bs @ frame_of event"
  note A = Append_quiet [OF assms(6,4)]
  have c: "jf_content ?g = journal_content events @ frame_header ?bs @ ?tail"
    using A assms(5,7) by (simp add: frame_of_def)
  have t: "length ?tail < length ?bs" using assms(7,8) by (simp add: length_frame)
  have "fst (FileJournal_Replay options (\<lambda>_. True) (reopened ?g)) = Inr (map journaled events) \<and>
    jf_content (snd (FileJournal_Replay options (\<lambda>_. True) (reopened ?g))) = journal_content events"
  proof (rule Replay_stops [OF c assms(2,1)])
    fix h :: JournalFile
    assume h: "jf_calls h = []" "jf_content h = jf_content ?g" "jf_offset h = length (journal_content events)"
    then have "drop (jf_offset h) (jf_content h) = frame_header ?bs @ ?tail" by (simp add: c)
    from replay_frame_torn_payload [OF h(1) this t _ assms(1)] assms(3) h(2,3)
    show "fst (replay_frame options (\<lambda>_. True) h) = FR_end \<and>
        jf_content (snd (replay_frame options (\<lambda>_. True) h)) = journal_content events"
      by (simp add: storable_def c)
  qed
  then show ?thesis using A by simp
qed

section \<open>Examples\<close>

definition example_options :: FileJournalOptions where
  "example_options = \<lparr>jo_path = ''/var/lib/ovf/journal'', jo_maximum_record_size = 4096, jo_synchronize = True\<rparr>"

definition plain_event :: JournalEvent where
  "plain_event =
     \<lparr>je_transition = \<lparr>ts_id = 1, ts_domain = 2, ts_source_mode = 3, ts_target_mode = 4, ts_phase = TP_received,
                       ts_updated_at = 5, ts_failure = None\<rparr>,
      je_generation = 7, je_plan = None\<rparr>"

text \<open>The same transition when it failed with a long message.\<close>

definition failed_event :: JournalEvent where
  "failed_event = plain_event\<lparr>je_transition := (je_transition plain_event)
     \<lparr>ts_phase := TP_failed, ts_failure :=
        Some (failure_of (MakeError EC_backend_error (replicate 200 (CHR ''x'')) 0) (Some 11)
               (no_evidence\<lparr>be_state := AS_failed, be_exit_code := 1\<rparr>))\<rparr>\<rparr>"

definition empty_file :: JournalFile where
  "empty_file = \<lparr>jf_content = [], jf_offset = 0, jf_errno = 0, jf_calls = []\<rparr>"

lemma example_options_valid: "journal_options_valid example_options"
  by (simp add: journal_options_valid_def example_options_def kMinimumMaximumRecordSize_def u32_max_def)

lemma length_bytes_simps:
  "length (flag_bytes b) = 1" "length (string_bytes s) = 4 + length s" "length (ids_bytes vs) = 4 + 8 * length vs"
  "length (optional_bytes i) = (if i = None then 0 else 8)"
  by (cases i; simp add: flag_bytes_def string_bytes_def ids_bytes_def optional_bytes_def)+

lemma length_encode_transition: "length (encode_transition e) = 50"
  by (simp add: encode_transition_def Let_def Encoder_Id_def Encoder_Integer_append Encoder_Bool_append
      length_bytes_simps)

lemma length_plain_event: "length (event_bytes plain_event) = 51"
  by (simp add: event_bytes_def length_encode_transition length_bytes_simps plain_event_def
      optional_failure_bytes_def optional_plan_bytes_def)

lemma length_failed_event: "length (event_bytes failed_event) = 307"
  by (simp add: event_bytes_def length_encode_transition length_bytes_simps plain_event_def failed_event_def
      optional_failure_bytes_def optional_plan_bytes_def failure_bytes_def error_bytes_def evidence_bytes_def
      recovery_bytes_def recovery_head_bytes_def optional_error_bytes_def failure_of_def MakeError_def no_evidence_def)

lemma plain_event_storable: "storable example_options plain_event"
  by (simp add: storable_def length_plain_event example_options_def)
    (simp add: event_fits_def clock_in_range_def plain_event_def)

lemma failed_event_storable: "storable example_options failed_event"
  by (simp add: storable_def length_failed_event example_options_def)
    (simp add: event_fits_def clock_in_range_def failed_event_def plain_event_def failure_fits_def optional_error_fits_def failure_of_def MakeError_def no_evidence_def u32_max_def)

lemma empty_journal: "journal_file example_options [] empty_file"
  by (simp add: journal_file_def example_options_valid journal_content_def empty_file_def)

text \<open>The record round trip on the failed transition, whose evidence loses its state.\<close>

theorem record_roundtrip_witness:
  "Encode True failed_event 4096 = Inr (event_bytes failed_event)
   \<and> Decode True (event_bytes failed_event) kFormatVersion = Inr (journaled failed_event)
   \<and> journaled failed_event \<noteq> failed_event"
proof -
  have "Encode True failed_event 4096 = Inr (event_bytes failed_event)" "clock_in_range failed_event"
    using failed_event_storable by (simp_all add: Encode_Inr storable_def example_options_def)
  moreover have "journaled failed_event \<noteq> failed_event"
    by (simp add: journaled_def journaled_failure_def failed_event_def plain_event_def failure_of_def no_evidence_def)
  ultimately show ?thesis using record_roundtrip by blast
qed

text \<open>An append whose write stops after ten bytes, and an undisturbed one.\<close>

theorem append_atomic_witness:
  "\<exists>kept \<in> {[plain_event], [plain_event, failed_event]}.
     let f = \<lparr>jf_content = journal_content [plain_event], jf_offset = 0, jf_errno = 0,
              jf_calls = [Done, Short 10, Fails 28]\<rparr>;
         (r, g) = FileJournal_Append example_options True failed_event f in
     (r = Inr () \<longrightarrow> kept = [plain_event, failed_event]) \<and>
     fst (FileJournal_Replay example_options (\<lambda>_. True) (reopened g)) = Inr (map journaled kept)"
proof -
  let ?f = "\<lparr>jf_content = journal_content [plain_event], jf_offset = 0, jf_errno = 0,
              jf_calls = [Done, Short 10, Fails 28]\<rparr> :: JournalFile"
  have "journal_file example_options [plain_event] ?f"
    by (simp add: journal_file_def example_options_valid plain_event_storable)
  moreover have "clock_in_range failed_event" using failed_event_storable by (simp add: storable_def)
  ultimately show ?thesis
    using append_atomic [of example_options "[plain_event]" ?f failed_event True]
    by (auto simp: Let_def split_def)
qed

theorem damaged_byte_detected_witness:
  "event_bytes plain_event ! 0 = 7 \<and>
   fst (FileJournal_Replay example_options (\<lambda>_. True)
     (reopened (empty_file\<lparr>jf_content := frame_header (event_bytes plain_event) @ (event_bytes plain_event)[0 := 9]\<rparr>))) =
   Inl (MakeError EC_persistence_error ''journal frame checksum mismatch'' 0)"
proof -
  have "int_bytes (je_generation plain_event) ! 0 = 7"
    by (simp add: plain_event_def int_bytes_def Encoder_Integer_def)
  then have z: "event_bytes plain_event ! 0 = 7"
    by (simp add: event_bytes_def encode_transition_def Let_def Encoder_Id_def Encoder_Integer_append
        Encoder_Bool_append nth_append)
  then show ?thesis
    using damaged_byte_detected [of example_options "[]" plain_event 0 9 _ "[]"]
      example_options_valid plain_event_storable length_plain_event
    by (simp add: journal_content_def)
qed

theorem acknowledged_event_lost_witness:
  "let f = empty_file\<lparr>jf_content := take 16 (frame_of failed_event)\<rparr>;
       (r, g) = FileJournal_Append example_options True plain_event f in
   r = Inr () \<and> fst (FileJournal_Replay example_options (\<lambda>_. True) (reopened g)) = Inr []"
proof -
  have "fst (FileJournal_Append example_options True plain_event (empty_file\<lparr>jf_content := take 16 (frame_of failed_event)\<rparr>)) = Inr ()
    \<and> fst (FileJournal_Replay example_options (\<lambda>_. True) (reopened (snd (FileJournal_Append example_options True plain_event
        (empty_file\<lparr>jf_content := take 16 (frame_of failed_event)\<rparr>))))) = Inr (map journaled [])
    \<and> jf_content (snd (FileJournal_Replay example_options (\<lambda>_. True) (reopened (snd (FileJournal_Append example_options True plain_event
        (empty_file\<lparr>jf_content := take 16 (frame_of failed_event)\<rparr>)))))) = journal_content []"
    by (rule acknowledged_event_lost [where torn = failed_event and k = 16])
      (simp_all add: example_options_valid plain_event_storable failed_event_storable journal_content_def
        empty_file_def length_frame length_plain_event length_failed_event kHeaderSize_def)
  then show ?thesis by (simp add: Let_def split_def)
qed

section \<open>The journal interface\<close>

text \<open>What the engine expects of a \<open>TransitionJournal\<close>: a successful append adds the event at the end,
  a replay returns what was appended (up to what the format keeps of an event) and changes nothing.\<close>

fun append_all ::
  "(JournalEvent \<Rightarrow> 's \<Rightarrow> (unit, Error) result \<times> 's) \<Rightarrow> JournalEvent list \<Rightarrow> 's \<Rightarrow> (unit, Error) result \<times> 's" where
  "append_all append_event [] s = (Inr (), s)"
| "append_all append_event (e # es) s =
     (case append_event e s of (Inl err, s) \<Rightarrow> (Inl err, s) | (Inr _, s) \<Rightarrow> append_all append_event es s)"

locale transition_journal =
  fixes append_event :: "JournalEvent \<Rightarrow> 's \<Rightarrow> (unit, Error) result \<times> 's"
    and replay :: "'s \<Rightarrow> (JournalEvent list, Error) result \<times> 's"
    and holds :: "JournalEvent list \<Rightarrow> 's \<Rightarrow> bool"
    and accepts :: "JournalEvent \<Rightarrow> bool"
    and kept :: "JournalEvent \<Rightarrow> JournalEvent"
  assumes append_law: "holds es s \<Longrightarrow> accepts e \<Longrightarrow> fst (append_event e s) = Inr () \<and> holds (es @ [e]) (snd (append_event e s))"
    and replay_law: "holds es s \<Longrightarrow> fst (replay s) = Inr (map kept es) \<and> holds es (snd (replay s))"
begin

lemma append_all_holds:
  "holds es s \<Longrightarrow> list_all accepts new \<Longrightarrow>
   fst (append_all append_event new s) = Inr () \<and> holds (es @ new) (snd (append_all append_event new s))"
proof (induction new arbitrary: es s)
  case (Cons e new)
  obtain s' where s': "append_event e s = (Inr (), s')" "holds (es @ [e]) s'"
    using append_law [of es s e] Cons.prems by (cases "append_event e s") auto
  then show ?case using Cons.IH [OF s'(2)] Cons.prems by simp
qed simp

lemma replay_after_appends:
  assumes "holds es s" and "list_all accepts new"
  shows "fst (append_all append_event new s) = Inr () \<and>
    fst (replay (snd (append_all append_event new s))) = Inr (map kept (es @ new))"
  using append_all_holds [OF assms] replay_law by blast

end

interpretation mem: transition_journal "MemoryJournal_Append True" "\<lambda>events. (MemoryJournal_Replay events, events)"
    "\<lambda>es s. s = es" "\<lambda>_. True" "\<lambda>e. e"
  by unfold_locales (simp_all add: MemoryJournal_Append_def MemoryJournal_Replay_def)

definition quiet_journal :: "FileJournalOptions \<Rightarrow> JournalEvent list \<Rightarrow> JournalFile \<Rightarrow> bool" where
  "quiet_journal options es f \<longleftrightarrow> journal_file options es f \<and> jf_calls f = []"

lemma Replay_reopened:
  "jf_calls f = [] \<Longrightarrow> FileJournal_Replay options alloc f = FileJournal_Replay options alloc (reopened f)"
  by (cases f) (simp add: FileJournal_Replay_def seek_to_def reopened_def)

lemma Replay_quiet_calls:
  assumes "quiet_journal options es f"
  shows "jf_calls (snd (FileJournal_Replay options (\<lambda>_. True) (reopened f))) = []"
proof -
  have c: "jf_content f = journal_content es @ []" and s: "list_all (storable options) es"
    and v: "journal_options_valid options"
    using assms by (simp_all add: quiet_journal_def journal_file_def)
  have "replay_frame options (\<lambda>_. True) ((reopened f)\<lparr>jf_offset := length (journal_content es)\<rparr>) =
      (FR_end, (reopened f)\<lparr>jf_offset := length (journal_content es)\<rparr>)"
    using c by (intro replay_frame_end) (simp_all add: reopened_def)
  then show ?thesis
    unfolding Replay_prefix [OF c s v] by (simp add: replay_loop.simps reopened_def)
qed

interpretation fj: transition_journal "FileJournal_Append options True" "FileJournal_Replay options (\<lambda>_. True)"
    "quiet_journal options" "storable options" journaled
  for options
proof
  fix es s e assume q: "quiet_journal options es s" and e: "storable options e"
  then show "fst (FileJournal_Append options True e s) = Inr () \<and>
      quiet_journal options (es @ [e]) (snd (FileJournal_Append options True e s))"
    using Append_quiet [OF _ e, of s]
    by (simp add: quiet_journal_def journal_file_def journal_content_snoc)
next
  fix es s assume q: "quiet_journal options es s"
  then show "fst (FileJournal_Replay options (\<lambda>_. True) s) = Inr (map journaled es) \<and>
      quiet_journal options es (snd (FileJournal_Replay options (\<lambda>_. True) s))"
    using Replay_whole [of options es s] Replay_quiet_calls [OF q] Replay_reopened [of s]
    by (simp add: quiet_journal_def journal_file_def)
qed



end
