(* ===== verification/Exec_Coordinator.thy ===== *)
theory Exec_Coordinator
  imports Exec_Engine
begin

text \<open>
  The system coordinator, \<^verbatim>\<open>exec/src/coordinator.cpp\<close> with \<^verbatim>\<open>exec/include/ovf/exec/coordinator.hpp\<close>
  and \<^verbatim>\<open>internal/coordinator_service.hpp\<close>: the queue of accepted transitions, the projected configuration,
  the replacement policies, the worker threads, waiting, subscriptions and the handles clients hold.

  The state the mutex guards is the record \<open>Coordinator\<close>; the engine and its world are a part of it.
  An operation that takes the mutex once is one function. A worker's loop is split where it
  releases the mutex, a call of \<open>Wait\<close> where it can be interrupted, and \<open>service_step\<close> interleaves
  them. Calls of event handlers are the lists the operations return; exceptions handlers throw are
  swallowed by the code and change nothing. Time points are unbounded integers, so
  the addition of a timeout to the clock does not overflow.

  The second half shows that no engine operation changes the model or removes a committed mode, for
  every environment whose other threads do not (locale \<open>steady_engine\<close>), and what a request does
  on each path.
\<close>

section \<open>Public data\<close>

record TransitionFailureSnapshot =
  pf_error :: Error
  pf_application :: "ApplicationId option"
  pf_exit_code :: i32
  pf_signal :: i32
  pf_backend_code :: u64
  pf_backend_message :: string
  pf_recovery_action :: FailureAction
  pf_recovery_attempted :: bool
  pf_recovery_succeeded :: bool
  pf_recovery_error :: "Error option"
  pf_recovered_mode :: "ModeId option"
  pf_recovery_stopped :: "ApplicationId list"
  pf_recovery_started :: "ApplicationId list"

record PublicTransition =
  pt_id :: TransitionId
  pt_domain :: DomainId
  pt_source_mode :: ModeId
  pt_target_mode :: ModeId
  pt_phase :: TransitionPhase
  pt_updated_at :: int
  pt_failure :: "TransitionFailureSnapshot option"

record ExecutionDomain =
  ed_id :: DomainId
  ed_name :: string
  ed_committed_mode :: ModeId
  ed_target_mode :: "ModeId option"
  ed_status :: DomainStatus
  ed_active_transition :: "TransitionId option"

record ExecutionMode =
  xm_domain :: DomainId
  xm_id :: ModeId
  xm_name :: string

record ApplicationSnapshot =
  as_id :: ApplicationId
  as_name :: string
  as_state :: ApplicationState

record ExecutionUnitSnapshot =
  us_id :: ExecutionUnitId
  us_name :: string
  us_kind :: ExecutionUnitKind
  us_bootstrap :: bool
  us_state :: ApplicationState

record SystemSnapshot =
  sn_model_generation :: ModelGeneration
  sn_revision :: u64
  sn_recovering :: bool
  sn_domains :: "ExecutionDomain list"
  sn_units :: "ExecutionUnitSnapshot list"
  sn_applications :: "ApplicationSnapshot list"
  sn_transitions :: "PublicTransition list"

datatype CoordinatorEventKind = CE_transition_changed | CE_configuration_changed | CE_recovery_changed

record CoordinatorEvent =
  ce_kind :: CoordinatorEventKind
  ce_revision :: u64
  ce_transition :: "TransitionId option"
  ce_domain :: "DomainId option"

record EventFilter =
  ef_transitions :: bool
  ef_configuration :: bool
  ef_recovery :: bool
  ef_domain :: "DomainId option"

record CoordinatorPermissions =
  cp_observe :: bool
  cp_mutate :: bool

text \<open>A callback is named by a number; the empty function is \<open>None\<close>.\<close>

type_synonym EventHandler = nat

record Subscription =
  sb_filter :: EventFilter
  sb_handler :: EventHandler

text \<open>The calls an operation makes after it has released the mutex.\<close>

type_synonym Deliveries = "(EventHandler \<times> CoordinatorEvent) list"

definition IsTerminal :: "TransitionPhase \<Rightarrow> bool" where
  "IsTerminal phase =
     (phase = TP_succeeded \<or> phase = TP_rejected \<or> phase = TP_failed \<or> phase = TP_cancelled \<or>
      phase = TP_superseded \<or> phase = TP_deadline_exceeded \<or> phase = TP_recovery_failed)"

definition PublicFailure :: "TransitionFailure \<Rightarrow> TransitionFailureSnapshot" where
  "PublicFailure f =
     \<lparr>pf_error = tf_error f, pf_application = tf_application f,
      pf_exit_code = be_exit_code (tf_evidence f), pf_signal = be_signal (tf_evidence f),
      pf_backend_code = be_native_code (tf_evidence f), pf_backend_message = be_message (tf_evidence f),
      pf_recovery_action = tf_recovery_action f, pf_recovery_attempted = tf_recovery_attempted f,
      pf_recovery_succeeded = tf_recovery_succeeded f, pf_recovery_error = tf_recovery_error f,
      pf_recovered_mode = tf_recovered_mode f, pf_recovery_stopped = tf_recovery_stopped f,
      pf_recovery_started = tf_recovery_started f\<rparr>"

definition PublicSnapshot :: "TransitionSnapshot \<Rightarrow> PublicTransition" where
  "PublicSnapshot source =
     \<lparr>pt_id = ts_id source, pt_domain = ts_domain source, pt_source_mode = ts_source_mode source,
      pt_target_mode = ts_target_mode source, pt_phase = ts_phase source, pt_updated_at = ts_updated_at source,
      pt_failure = map_option PublicFailure (ts_failure source)\<rparr>"

definition Matches :: "EventFilter \<Rightarrow> CoordinatorEvent \<Rightarrow> bool" where
  "Matches flt event =
     (if ef_domain flt \<noteq> None \<and> ce_domain event \<noteq> ef_domain flt then False
      else case ce_kind event of
             CE_transition_changed \<Rightarrow> ef_transitions flt
           | CE_configuration_changed \<Rightarrow> ef_configuration flt
           | CE_recovery_changed \<Rightarrow> ef_recovery flt)"

section \<open>The coordinator's state\<close>

text \<open>The queue, the projected configuration, the active transition of each domain, the
  subscriptions and the counters are guarded by the mutex. The engine and its world are \<open>co_run\<close>.\<close>

record 'w Coordinator =
  co_run :: "'w Run"
  co_permissions :: CoordinatorPermissions
  co_queue_capacity :: nat
  co_queue :: "AcceptedTransition list"
  co_projected :: SystemConfiguration
  co_active :: "(DomainId \<times> TransitionId) list"
  co_subscriptions :: "(u64 \<times> Subscription) list"
  co_revision :: u64
  co_next_subscription :: u64
  co_recovering :: bool
  co_stopping :: bool

definition CoordinatorService ::
  "'w Environment \<Rightarrow> 'w Run \<Rightarrow> CoordinatorPermissions \<Rightarrow> nat \<Rightarrow> 'w Coordinator" where
  "CoordinatorService env run permissions capacity =
     (let (snapshot, run) = Snapshot env run in
      \<lparr>co_run = run, co_permissions = permissions, co_queue_capacity = capacity, co_queue = [],
       co_projected = es_configuration snapshot, co_active = [], co_subscriptions = [], co_revision = 1,
       co_next_subscription = 1, co_recovering = False, co_stopping = False\<rparr>)"

definition model_of :: "'w Coordinator \<Rightarrow> ValidatedModel" where
  "model_of c = en_model (run_engine (co_run c))"

definition observation_denied :: Error where
  "observation_denied = MakeError EC_permission_denied ''coordinator observation is not authorized'' 0"

definition mutation_denied :: Error where
  "mutation_denied = MakeError EC_permission_denied ''coordinator mutation is not authorized'' 0"

section \<open>Observation\<close>

definition note_latest ::
  "TransitionSnapshot \<Rightarrow> (DomainId \<times> TransitionSnapshot) list \<Rightarrow> (DomainId \<times> TransitionSnapshot) list" where
  "note_latest t m =
     (case um_find m (ts_domain t) of
        None \<Rightarrow> um_set (ts_domain t) t m
      | Some p \<Rightarrow> if ts_id p < ts_id t then um_set (ts_domain t) t m else m)"

fun scan_transitions ::
  "TransitionSnapshot list \<Rightarrow> (DomainId \<times> TransitionSnapshot) list \<Rightarrow> (DomainId \<times> TransitionSnapshot) list
     \<Rightarrow> (DomainId \<times> TransitionSnapshot) list \<times> (DomainId \<times> TransitionSnapshot) list" where
  "scan_transitions [] active failed = (active, failed)"
| "scan_transitions (t # ts) active failed =
     (if \<not> IsTerminal (ts_phase t) then scan_transitions ts (note_latest t active) failed
      else if ts_failure t \<noteq> None then scan_transitions ts active (note_latest t failed)
      else scan_transitions ts active failed)"

definition domain_snapshot ::
  "bool \<Rightarrow> (DomainId \<times> ModeId) list \<Rightarrow> (DomainId \<times> TransitionSnapshot) list \<Rightarrow> (DomainId \<times> TransitionSnapshot) list
     \<Rightarrow> DomainDefinition \<Rightarrow> ExecutionDomain" where
  "domain_snapshot recovering modes active failed domain =
     (let committed = (case um_find modes (dd_id domain) of None \<Rightarrow> 0 | Some m \<Rightarrow> m) in
      case um_find active (dd_id domain) of
        Some t \<Rightarrow>
          \<lparr>ed_id = dd_id domain, ed_name = dd_name domain, ed_committed_mode = committed,
           ed_target_mode = Some (ts_target_mode t), ed_status = DS_transitioning,
           ed_active_transition = Some (ts_id t)\<rparr>
      | None \<Rightarrow>
          \<lparr>ed_id = dd_id domain, ed_name = dd_name domain, ed_committed_mode = committed, ed_target_mode = None,
           ed_status = (if recovering then DS_recovering
                        else if um_find failed (dd_id domain) \<noteq> None then DS_degraded else DS_stable),
           ed_active_transition = None\<rparr>)"

definition unit_state :: "ExecutionUnitId list \<Rightarrow> ExecutionUnitDefinition \<Rightarrow> ApplicationState" where
  "unit_state running_units u = (if us_contains running_units (eu_id u) then AS_ready else AS_stopped)"

definition unit_snapshot :: "ExecutionUnitId list \<Rightarrow> ExecutionUnitDefinition \<Rightarrow> ExecutionUnitSnapshot" where
  "unit_snapshot running_units u =
     \<lparr>us_id = eu_id u, us_name = eu_name u, us_kind = eu_kind u, us_bootstrap = eu_bootstrap u,
      us_state = unit_state running_units u\<rparr>"

definition application_snapshot :: "ExecutionUnitId list \<Rightarrow> ExecutionUnitDefinition \<Rightarrow> ApplicationSnapshot" where
  "application_snapshot running_units u =
     \<lparr>as_id = eu_id u, as_name = eu_name u, as_state = unit_state running_units u\<rparr>"

definition CoordinatorSnapshot ::
  "'w Environment \<Rightarrow> 'w Coordinator \<Rightarrow> (SystemSnapshot, Error) result \<times> 'w Coordinator" where
  "CoordinatorSnapshot env c =
     (if \<not> cp_observe (co_permissions c) then (Inl observation_denied, c)
      else
        let (snapshot, run) = Snapshot env (co_run c);
            c = c\<lparr>co_run := run\<rparr>;
            model = vm_model (model_of c);
            (active, failed) = scan_transitions (es_transitions snapshot) [] [];
            modes = sc_committed_modes (es_configuration snapshot);
            running_units = sc_running_units (es_configuration snapshot) in
        (Inr \<lparr>sn_model_generation = em_generation model, sn_revision = co_revision c, sn_recovering = co_recovering c,
              sn_domains = map (domain_snapshot (co_recovering c) modes active failed) (em_domains model),
              sn_units = map (unit_snapshot running_units) (em_units model),
              sn_applications = map (application_snapshot running_units)
                 (filter (\<lambda>u. eu_kind u = UK_managed_application) (em_units model)),
              sn_transitions = map PublicSnapshot (es_transitions snapshot)\<rparr>, c))"

definition Domain ::
  "'w Environment \<Rightarrow> DomainId \<Rightarrow> 'w Coordinator \<Rightarrow> (ExecutionDomain, Error) result \<times> 'w Coordinator" where
  "Domain env i c =
     (case CoordinatorSnapshot env c of
        (Inl e, c) \<Rightarrow> (Inl e, c)
      | (Inr snapshot, c) \<Rightarrow>
          (case List.find (\<lambda>d. ed_id d = i) (sn_domains snapshot) of
             None \<Rightarrow> Inl (MakeError EC_not_found ''domain is not defined'' 0)
           | Some d \<Rightarrow> Inr d, c))"

definition Mode :: "DomainId \<Rightarrow> ModeId \<Rightarrow> 'w Coordinator \<Rightarrow> (ExecutionMode, Error) result" where
  "Mode domain mode c =
     (if \<not> cp_observe (co_permissions c) then Inl observation_denied
      else case FindMode (model_of c) domain mode of
             None \<Rightarrow> Inl (MakeError EC_not_found ''mode is not defined in the domain'' 0)
           | Some d \<Rightarrow> Inr \<lparr>xm_domain = domain, xm_id = md_id d, xm_name = md_name d\<rparr>)"

definition TransitionState ::
  "'w Environment \<Rightarrow> TransitionId \<Rightarrow> 'w Coordinator \<Rightarrow> (PublicTransition, Error) result \<times> 'w Coordinator" where
  "TransitionState env transition c =
     (if \<not> cp_observe (co_permissions c) then (Inl observation_denied, c)
      else let (r, run) = GetTransition env transition (co_run c) in
           (map_sum id PublicSnapshot r, c\<lparr>co_run := run\<rparr>))"

section \<open>Subscriptions\<close>

definition CollectHandlersLocked :: "CoordinatorEvent \<Rightarrow> 'w Coordinator \<Rightarrow> Deliveries" where
  "CollectHandlersLocked event c =
     map (\<lambda>s. (sb_handler (snd s), event)) (filter (\<lambda>s. Matches (sb_filter (snd s)) event) (co_subscriptions c))"

text \<open>The function \<open>Subscribe\<close> returns erases the subscription with the returned number, \<open>unsubscribe\<close>.\<close>

definition Subscribe ::
  "EventFilter \<Rightarrow> EventHandler option \<Rightarrow> 'w Coordinator \<Rightarrow> (u64, Error) result \<times> 'w Coordinator" where
  "Subscribe flt handler c =
     (if \<not> cp_observe (co_permissions c) then (Inl observation_denied, c)
      else case handler of
        None \<Rightarrow> (Inl (MakeError EC_invalid_argument ''event handler is required'' 0), c)
      | Some h \<Rightarrow>
          if length (co_subscriptions c) \<ge> co_queue_capacity c then
            (Inl (MakeError EC_resource_exhausted ''coordinator subscription limit reached'' 0), c)
          else
            let i = co_next_subscription c in
            (Inr i, c\<lparr>co_next_subscription := i + 1,
                      co_subscriptions := um_emplace i \<lparr>sb_filter = flt, sb_handler = h\<rparr> (co_subscriptions c)\<rparr>))"

definition unsubscribe :: "u64 \<Rightarrow> 'w Coordinator \<Rightarrow> 'w Coordinator" where
  "unsubscribe i c = c\<lparr>co_subscriptions := um_erase i (co_subscriptions c)\<rparr>"

section \<open>Requests\<close>

text \<open>The policy of the domain while it has an active transition: a refusal, or the state to go
  on with.\<close>

definition replace_active ::
  "'w Environment \<Rightarrow> ReplacementPolicy \<Rightarrow> TransitionId \<Rightarrow> 'w Coordinator \<Rightarrow> (Error option \<times> 'w Coordinator) option" where
  "replace_active env policy active c =
     (case policy of
        RP_reject_while_busy \<Rightarrow>
          Some (Some (MakeError EC_busy ''domain already has an active transition'' active), c)
      | RP_queue \<Rightarrow> Some (None, c)
      | RP_supersede_if_safe \<Rightarrow>
          do {
            (cancelled, run) \<leftarrow> Cancel env active (co_run c);
            (case cancelled of
               Inl _ \<Rightarrow> Some (Some (MakeError EC_busy ''active transition cannot be superseded safely'' active),
                            c\<lparr>co_run := run\<rparr>)
             | Inr _ \<Rightarrow> (let (snapshot, run) = Snapshot env run in
                 Some (None, c\<lparr>co_run := run, co_projected := es_configuration snapshot\<rparr>)))
          })"

definition project :: "DomainId \<Rightarrow> ModeId \<Rightarrow> TransitionPlan \<Rightarrow> SystemConfiguration \<Rightarrow> SystemConfiguration" where
  "project domain mode plan c =
     c\<lparr>sc_committed_modes := um_set domain mode (sc_committed_modes c),
       sc_running_units := fold us_insert (tp_start plan) (fold us_erase (tp_stop plan) (sc_running_units c))\<rparr>"

definition accept_request ::
  "'w Environment \<Rightarrow> bool \<Rightarrow> DomainId \<Rightarrow> ModeId \<Rightarrow> int \<Rightarrow> 'w Coordinator
     \<Rightarrow> ((TransitionId, Error) result \<times> Deliveries \<times> 'w Coordinator) option" where
  "accept_request env queued domain mode timeout c =
     (if length (co_queue c) \<ge> co_queue_capacity c then
        Some (Inl (MakeError EC_resource_exhausted ''coordinator transition queue is full'' 0), [], c)
      else
        let (now, run) = in_world (env_now env) (co_run c) in
        do {
          (accepted, run) \<leftarrow> (if queued then AcceptModeFrom env (co_projected c) domain mode (now + ms timeout) run
                             else AcceptMode env domain mode (now + ms timeout) run);
          let c = c\<lparr>co_run := run\<rparr>;
          (case accepted of
             Inl e \<Rightarrow> Some (Inl e, [], c)
           | Inr a \<Rightarrow>
               let c = c\<lparr>co_projected := project domain mode (at_plan a) (co_projected c),
                         co_queue := co_queue c @ [a],
                         co_active := um_set domain (at_id a) (co_active c),
                         co_revision := co_revision c + 1\<rparr>;
                   event = \<lparr>ce_kind = CE_transition_changed, ce_revision = co_revision c,
                            ce_transition = Some (at_id a), ce_domain = Some domain\<rparr> in
               Some (Inr (at_id a), CollectHandlersLocked event c, c))
        })"

definition Request ::
  "'w Environment \<Rightarrow> DomainId \<Rightarrow> ModeId \<Rightarrow> int \<Rightarrow> 'w Coordinator
     \<Rightarrow> ((TransitionId, Error) result \<times> Deliveries \<times> 'w Coordinator) option" where
  "Request env domain mode timeout c =
     (if \<not> cp_mutate (co_permissions c) then Some (Inl mutation_denied, [], c)
      else if timeout \<le> 0 then
        Some (Inl (MakeError EC_invalid_argument ''transition timeout must be positive'' 0), [], c)
      else case FindDomain (model_of c) domain of
        None \<Rightarrow> Some (Inl (MakeError EC_not_found ''domain is not defined'' 0), [], c)
      | Some definition_of \<Rightarrow>
          if co_stopping c then
            Some (Inl (MakeError EC_backend_unavailable ''coordinator is stopping'' 0), [], c)
          else case um_find (co_active c) domain of
            None \<Rightarrow> accept_request env False domain mode timeout c
          | Some active \<Rightarrow>
              do {
                (refused, c) \<leftarrow> replace_active env (dd_replacement definition_of) active c;
                (case refused of
                   Some e \<Rightarrow> Some (Inl e, [], c)
                 | None \<Rightarrow> accept_request env (dd_replacement definition_of = RP_queue) domain mode timeout c)
              })"

definition Coordinator_Cancel ::
  "'w Environment \<Rightarrow> TransitionId \<Rightarrow> 'w Coordinator \<Rightarrow> ((unit, Error) result \<times> 'w Coordinator) option" where
  "Coordinator_Cancel env transition c =
     (if \<not> cp_mutate (co_permissions c) then Some (Inl mutation_denied, c)
      else do { (r, run) \<leftarrow> Cancel env transition (co_run c); Some (r, c\<lparr>co_run := run\<rparr>) })"

section \<open>Workers\<close>

text \<open>A worker's pass through its loop in the three parts the mutex separates: taking the front of the
  queue, executing it, and accounting for it. \<open>committed_modes.at\<close> throws for a domain without a
  committed mode, which ends the program: \<open>None\<close>.\<close>

datatype Taken = T_wait | T_return | T_transition AcceptedTransition

definition Worker_take :: "'w Coordinator \<Rightarrow> Taken \<times> 'w Coordinator" where
  "Worker_take c =
     (case co_queue c of
        [] \<Rightarrow> (if co_stopping c then T_return else T_wait, c)
      | a # rest \<Rightarrow> (T_transition a, c\<lparr>co_queue := rest\<rparr>))"

record Completion =
  cm_accepted :: AcceptedTransition
  cm_before :: ModeId
  cm_completed :: "(TransitionSnapshot, Error) result"
  cm_after :: ModeId

definition committed_at :: "'w Environment \<Rightarrow> DomainId \<Rightarrow> 'w Run \<Rightarrow> (ModeId \<times> 'w Run) option" where
  "committed_at env domain run =
     (let (snapshot, run) = Snapshot env run in
      map_option (\<lambda>m. (m, run)) (um_find (sc_committed_modes (es_configuration snapshot)) domain))"

definition Worker_execute ::
  "'w Environment \<Rightarrow> AcceptedTransition \<Rightarrow> 'w Coordinator \<Rightarrow> (Completion \<times> 'w Coordinator) option" where
  "Worker_execute env accepted c =
     do {
       (before, run) \<leftarrow> committed_at env (tp_domain (at_plan accepted)) (co_run c);
       (completed, run) \<leftarrow> Execute env accepted run;
       (after, run) \<leftarrow> committed_at env (tp_domain (at_plan accepted)) run;
       Some (\<lparr>cm_accepted = accepted, cm_before = before, cm_completed = completed, cm_after = after\<rparr>,
             c\<lparr>co_run := run\<rparr>)
     }"

definition release_active :: "DomainId \<Rightarrow> TransitionId \<Rightarrow> 'w Coordinator \<Rightarrow> 'w Coordinator" where
  "release_active domain i c =
     (if um_find (co_active c) domain = Some i then c\<lparr>co_active := um_erase domain (co_active c)\<rparr> else c)"

definition refresh_projection :: "'w Environment \<Rightarrow> 'w Coordinator \<Rightarrow> 'w Coordinator" where
  "refresh_projection env c =
     (if co_queue c = [] \<and> co_active c = [] then
        let (snapshot, run) = Snapshot env (co_run c) in
        c\<lparr>co_run := run, co_projected := es_configuration snapshot\<rparr>
      else c)"

definition event_of :: "CoordinatorEventKind \<Rightarrow> Completion \<Rightarrow> 'w Coordinator \<Rightarrow> CoordinatorEvent" where
  "event_of kind fin c =
     \<lparr>ce_kind = kind, ce_revision = co_revision c, ce_transition = Some (at_id (cm_accepted fin)),
      ce_domain = Some (tp_domain (at_plan (cm_accepted fin)))\<rparr>"

definition configuration_changed :: "Completion \<Rightarrow> bool" where
  "configuration_changed fin =
     (case cm_completed fin of
        Inl _ \<Rightarrow> False
      | Inr t \<Rightarrow> ts_phase t = TP_succeeded \<or> cm_before fin \<noteq> cm_after fin)"

definition recovery_changed :: "ValidatedModel \<Rightarrow> Completion \<Rightarrow> bool" where
  "recovery_changed vm fin =
     (case cm_completed fin of
        Inl _ \<Rightarrow> False
      | Inr t \<Rightarrow> ts_failure t \<noteq> None \<and>
          (case FindDomain vm (tp_domain (at_plan (cm_accepted fin))) of
             None \<Rightarrow> False
           | Some d \<Rightarrow> rp_action (dd_recovery d) \<noteq> FA_hold_observed_configuration))"

definition Worker_finish :: "'w Environment \<Rightarrow> Completion \<Rightarrow> 'w Coordinator \<Rightarrow> Deliveries \<times> 'w Coordinator" where
  "Worker_finish env fin c =
     (let c = release_active (tp_domain (at_plan (cm_accepted fin))) (at_id (cm_accepted fin)) c;
          c = refresh_projection env c;
          c = c\<lparr>co_revision := co_revision c + 1\<rparr> in
      (CollectHandlersLocked (event_of CE_transition_changed fin c) c @
       (if configuration_changed fin then CollectHandlersLocked (event_of CE_configuration_changed fin c) c else []) @
       (if recovery_changed (model_of c) fin then CollectHandlersLocked (event_of CE_recovery_changed fin c) c else []),
       c))"

text \<open>The destructor's part under the mutex; the workers then drain the queue and return.\<close>

definition Shutdown :: "'w Coordinator \<Rightarrow> 'w Coordinator" where
  "Shutdown c = c\<lparr>co_stopping := True\<rparr>"

section \<open>Waiting\<close>

text \<open>A call of \<open>Wait\<close> between the points at which it can be interrupted: about to look at the
  transition without the mutex, about to take the mutex, blocked on the condition variable, notified
  but not yet running again, returned.\<close>

datatype Waiter =
    WT_check TransitionId
  | WT_checked TransitionId
  | WT_blocked TransitionId
  | WT_notified TransitionId
  | WT_returned "(PublicTransition, Error) result"

definition Wait_check :: "'w Environment \<Rightarrow> TransitionId \<Rightarrow> 'w Coordinator \<Rightarrow> Waiter \<times> 'w Coordinator" where
  "Wait_check env transition c =
     (let (snapshot, c) = TransitionState env transition c in
      (case snapshot of
         Inl e \<Rightarrow> WT_returned (Inl e)
       | Inr t \<Rightarrow> if IsTerminal (pt_phase t) then WT_returned (Inr t) else WT_checked transition, c))"

definition Wait_timeout :: Waiter where
  "Wait_timeout = WT_returned (Inl (MakeError EC_deadline_exceeded ''transition wait deadline expired'' 0))"

definition Wait_wake :: "TransitionId \<Rightarrow> 'w Coordinator \<Rightarrow> Waiter" where
  "Wait_wake transition c =
     (if co_stopping c then WT_returned (Inl (MakeError EC_backend_unavailable ''coordinator is stopping'' 0))
      else WT_check transition)"

fun notify :: "Waiter \<Rightarrow> Waiter" where
  "notify (WT_blocked transition) = WT_notified transition"
| "notify w = w"

section \<open>The handles\<close>

text \<open>\<open>SystemCoordinator\<close> and \<open>Transition\<close> refer to a shared client; a moved-from or default handle is
  empty. The client is the local one, which forwards to the service.\<close>

definition coordinator_empty :: Error where
  "coordinator_empty = MakeError EC_invalid_transition ''coordinator handle is empty'' 0"

definition transition_empty :: Error where
  "transition_empty = MakeError EC_invalid_transition ''transition handle is empty'' 0"

definition SystemCoordinator_GetSnapshot ::
  "'w Environment \<Rightarrow> bool \<Rightarrow> 'w Coordinator \<Rightarrow> (SystemSnapshot, Error) result \<times> 'w Coordinator" where
  "SystemCoordinator_GetSnapshot env bound c =
     (if bound then CoordinatorSnapshot env c else (Inl coordinator_empty, c))"

definition SystemCoordinator_ResolveDomain ::
  "'w Environment \<Rightarrow> bool \<Rightarrow> DomainId \<Rightarrow> 'w Coordinator \<Rightarrow> (ExecutionDomain, Error) result \<times> 'w Coordinator" where
  "SystemCoordinator_ResolveDomain env bound domain c =
     (if bound then Domain env domain c else (Inl coordinator_empty, c))"

definition SystemCoordinator_ResolveMode ::
  "bool \<Rightarrow> DomainId \<Rightarrow> ModeId \<Rightarrow> 'w Coordinator \<Rightarrow> (ExecutionMode, Error) result" where
  "SystemCoordinator_ResolveMode bound domain mode c =
     (if bound then Mode domain mode c else Inl coordinator_empty)"

text \<open>A \<open>Transition\<close> handle is the transition's number, or nothing.\<close>

definition SystemCoordinator_RequestMode ::
  "'w Environment \<Rightarrow> bool \<Rightarrow> DomainId \<Rightarrow> ModeId \<Rightarrow> int \<Rightarrow> 'w Coordinator
     \<Rightarrow> ((TransitionId option, Error) result \<times> Deliveries \<times> 'w Coordinator) option" where
  "SystemCoordinator_RequestMode env bound domain mode timeout c =
     (if \<not> bound then Some (Inl coordinator_empty, [], c)
      else do { (requested, calls, c) \<leftarrow> Request env domain mode timeout c; Some (map_sum id Some requested, calls, c) })"

definition SystemCoordinator_Cancel ::
  "'w Environment \<Rightarrow> bool \<Rightarrow> TransitionId \<Rightarrow> 'w Coordinator \<Rightarrow> ((unit, Error) result \<times> 'w Coordinator) option" where
  "SystemCoordinator_Cancel env bound transition c =
     (if bound then Coordinator_Cancel env transition c else Some (Inl coordinator_empty, c))"

text \<open>An \<open>EventSubscription\<close> holds the number its unsubscribe function erases, or nothing.\<close>

definition SystemCoordinator_Subscribe ::
  "bool \<Rightarrow> EventFilter \<Rightarrow> EventHandler option \<Rightarrow> 'w Coordinator \<Rightarrow> (u64 option, Error) result \<times> 'w Coordinator" where
  "SystemCoordinator_Subscribe bound flt handler c =
     (if \<not> bound then (Inl coordinator_empty, c)
      else let (subscribed, c) = Subscribe flt handler c in (map_sum id Some subscribed, c))"

definition EventSubscription_Reset :: "u64 option \<Rightarrow> 'w Coordinator \<Rightarrow> u64 option \<times> 'w Coordinator" where
  "EventSubscription_Reset sub c = (None, case sub of None \<Rightarrow> c | Some i \<Rightarrow> unsubscribe i c)"

text \<open>The move assignment of a subscription to another; the source becomes empty.\<close>

definition EventSubscription_move ::
  "u64 option \<Rightarrow> u64 option \<Rightarrow> 'w Coordinator \<Rightarrow> u64 option \<times> u64 option \<times> 'w Coordinator" where
  "EventSubscription_move target source c =
     (let (_, c) = EventSubscription_Reset target c in (source, None, c))"

definition Transition_Id :: "TransitionId option \<Rightarrow> TransitionId" where
  "Transition_Id handle = (case handle of None \<Rightarrow> 0 | Some i \<Rightarrow> i)"

definition Transition_Get ::
  "'w Environment \<Rightarrow> TransitionId option \<Rightarrow> 'w Coordinator \<Rightarrow> (PublicTransition, Error) result \<times> 'w Coordinator" where
  "Transition_Get env handle c =
     (case handle of None \<Rightarrow> (Inl transition_empty, c) | Some i \<Rightarrow> TransitionState env i c)"

definition Transition_Wait :: "TransitionId option \<Rightarrow> Waiter" where
  "Transition_Wait handle = (case handle of None \<Rightarrow> WT_returned (Inl transition_empty) | Some i \<Rightarrow> WT_check i)"

section \<open>The service as a whole\<close>

datatype Worker = WK_idle | WK_taken AcceptedTransition | WK_done Completion | WK_returned

record 'w Service =
  sv_coordinator :: "'w Coordinator"
  sv_workers :: "Worker list"
  sv_waiters :: "Waiter list"
  sv_calls :: Deliveries

text \<open>\<open>fits\<close> is whether the service and its threads can be allocated.\<close>

definition CoordinatorFactory_Create ::
  "'w Environment \<Rightarrow> 'w Run option \<Rightarrow> CoordinatorPermissions \<Rightarrow> nat \<Rightarrow> nat \<Rightarrow> bool \<Rightarrow> ('w Service, Error) result" where
  "CoordinatorFactory_Create env engine permissions capacity worker_count fits =
     (case engine of
        None \<Rightarrow> Inl (MakeError EC_invalid_argument ''execution engine is required'' 0)
      | Some run \<Rightarrow>
          if \<not> cp_observe permissions \<and> cp_mutate permissions then
            Inl (MakeError EC_invalid_argument ''mutation authority requires observation authority'' 0)
          else if capacity = 0 \<or> worker_count = 0 \<or> worker_count > capacity then
            Inl (MakeError EC_invalid_argument ''invalid coordinator resource limits'' 0)
          else if \<not> fits then Inl (MakeError EC_resource_exhausted ''cannot create coordinator resources'' 0)
          else Inr \<lparr>sv_coordinator = CoordinatorService env run permissions capacity,
                    sv_workers = replicate worker_count WK_idle, sv_waiters = [], sv_calls = []\<rparr>)"

definition with_coordinator :: "'w Coordinator \<Rightarrow> 'w Service \<Rightarrow> 'w Service" where
  "with_coordinator c s = s\<lparr>sv_coordinator := c\<rparr>"

definition notify_all :: "'w Service \<Rightarrow> 'w Service" where
  "notify_all s = s\<lparr>sv_waiters := map notify (sv_waiters s)\<rparr>"

definition add_calls :: "Deliveries \<Rightarrow> 'w Service \<Rightarrow> 'w Service" where
  "add_calls calls s = s\<lparr>sv_calls := sv_calls s @ calls\<rparr>"

text \<open>The steps of clients and workers. Each takes the mutex at most once, so that the interleavings of
  the threads are the sequences of steps. \<open>Execute\<close> is one step: what other threads do to the
  engine meanwhile is the environment's interference. A request that is refused notifies nobody.\<close>

inductive service_step :: "'w Environment \<Rightarrow> 'w Service \<Rightarrow> 'w Service \<Rightarrow> bool" for env where
  accepted: "Request env domain mode timeout (sv_coordinator s) = Some (Inr i, calls, c) \<Longrightarrow>
     service_step env s (add_calls calls (notify_all (with_coordinator c s)))"
| refused: "Request env domain mode timeout (sv_coordinator s) = Some (Inl e, calls, c) \<Longrightarrow>
     service_step env s (with_coordinator c s)"
| cancel: "Coordinator_Cancel env transition (sv_coordinator s) = Some (r, c) \<Longrightarrow>
     service_step env s (with_coordinator c s)"
| observe: "CoordinatorSnapshot env (sv_coordinator s) = (r, c) \<Longrightarrow> service_step env s (with_coordinator c s)"
| subscribe: "Subscribe flt handler (sv_coordinator s) = (r, c) \<Longrightarrow> service_step env s (with_coordinator c s)"
| unsubscribed: "service_step env s (with_coordinator (unsubscribe i (sv_coordinator s)) s)"
| worker_returns: "k < length (sv_workers s) \<Longrightarrow> sv_workers s ! k = WK_idle \<Longrightarrow>
     Worker_take (sv_coordinator s) = (T_return, c) \<Longrightarrow>
     service_step env s (s\<lparr>sv_workers := (sv_workers s)[k := WK_returned]\<rparr>)"
| worker_takes: "k < length (sv_workers s) \<Longrightarrow> sv_workers s ! k = WK_idle \<Longrightarrow>
     Worker_take (sv_coordinator s) = (T_transition a, c) \<Longrightarrow>
     service_step env s (with_coordinator c (s\<lparr>sv_workers := (sv_workers s)[k := WK_taken a]\<rparr>))"
| worker_executes: "k < length (sv_workers s) \<Longrightarrow> sv_workers s ! k = WK_taken a \<Longrightarrow>
     Worker_execute env a (sv_coordinator s) = Some (d, c) \<Longrightarrow>
     service_step env s (with_coordinator c (s\<lparr>sv_workers := (sv_workers s)[k := WK_done d]\<rparr>))"
| worker_finishes: "k < length (sv_workers s) \<Longrightarrow> sv_workers s ! k = WK_done d \<Longrightarrow>
     Worker_finish env d (sv_coordinator s) = (calls, c) \<Longrightarrow>
     service_step env s
       (add_calls calls (notify_all (with_coordinator c (s\<lparr>sv_workers := (sv_workers s)[k := WK_idle]\<rparr>))))"
| shutdown: "service_step env s (notify_all (with_coordinator (Shutdown (sv_coordinator s)) s))"
| wait_begins: "service_step env s (s\<lparr>sv_waiters := sv_waiters s @ [Transition_Wait handle]\<rparr>)"
| wait_checks: "k < length (sv_waiters s) \<Longrightarrow> sv_waiters s ! k = WT_check i \<Longrightarrow>
     Wait_check env i (sv_coordinator s) = (w, c) \<Longrightarrow>
     service_step env s (with_coordinator c (s\<lparr>sv_waiters := (sv_waiters s)[k := w]\<rparr>))"
| wait_blocks: "k < length (sv_waiters s) \<Longrightarrow> sv_waiters s ! k = WT_checked i \<Longrightarrow>
     service_step env s (s\<lparr>sv_waiters := (sv_waiters s)[k := WT_blocked i]\<rparr>)"
| wait_expires: "k < length (sv_waiters s) \<Longrightarrow> sv_waiters s ! k = WT_blocked i \<Longrightarrow>
     service_step env s (s\<lparr>sv_waiters := (sv_waiters s)[k := Wait_timeout]\<rparr>)"
| wait_spurious: "k < length (sv_waiters s) \<Longrightarrow> sv_waiters s ! k = WT_blocked i \<Longrightarrow>
     service_step env s (s\<lparr>sv_waiters := (sv_waiters s)[k := WT_notified i]\<rparr>)"
| wait_wakes: "k < length (sv_waiters s) \<Longrightarrow> sv_waiters s ! k = WT_notified i \<Longrightarrow>
     service_step env s (s\<lparr>sv_waiters := (sv_waiters s)[k := Wait_wake i (sv_coordinator s)]\<rparr>)"

inductive service_run :: "'w Environment \<Rightarrow> 'w Service \<Rightarrow> 'w Service \<Rightarrow> bool" for env where
  start: "service_run env s s"
| step: "service_run env s s' \<Longrightarrow> service_step env s' s'' \<Longrightarrow> service_run env s s''"

section \<open>What engine operations keep\<close>

text \<open>No engine operation changes the model or removes a domain's committed mode, as long as the other
  threads do not. This is all the coordinator relies on.\<close>

definition keeps :: "Engine \<Rightarrow> Engine \<Rightarrow> bool" where
  "keeps e e' \<longleftrightarrow> en_model e' = en_model e \<and>
     (\<forall>d. um_find (sc_committed_modes (en_configuration e)) d \<noteq> None \<longrightarrow>
          um_find (sc_committed_modes (en_configuration e')) d \<noteq> None)"

named_theorems keeps_intros

lemma keeps_refl [simp]: "keeps e e"
  by (simp add: keeps_def)

lemma keeps_trans: "keeps e e' \<Longrightarrow> keeps e' e'' \<Longrightarrow> keeps e e''"
  by (simp add: keeps_def)

lemma keeps_fields [simp]:
  "keeps e0 (e\<lparr>en_transitions := a\<rparr>) = keeps e0 e" "keeps e0 (e\<lparr>en_cancellation := b\<rparr>) = keeps e0 e"
  "keeps e0 (e\<lparr>en_plans := p\<rparr>) = keeps e0 e" "keeps e0 (e\<lparr>en_scheduler := c\<rparr>) = keeps e0 e"
  "keeps e0 (e\<lparr>en_next_transition := n\<rparr>) = keeps e0 e"
  by (simp_all add: keeps_def)

lemma keeps_set_running [simp]: "keeps e0 (set_running f e) = keeps e0 e"
  by (simp add: keeps_def set_running_def)

lemma keeps_set_mode [keeps_intros]: "keeps e0 e \<Longrightarrow> keeps e0 (set_mode d m e)"
  by (simp add: keeps_def set_mode_def)

lemma run_engine_with_engine [simp]: "run_engine (with_engine f s) = f (run_engine s)"
  by (simp add: with_engine_def)

lemma run_engine_sleep [simp]: "run_engine (sleep_until env t s) = run_engine s"
  by (simp add: sleep_until_def)

lemma in_world_engine: "in_world f s = (a, s') \<Longrightarrow> run_engine s' = run_engine s"
  by (auto simp: in_world_def split: prod.splits)

lemma in_world_keeps [keeps_intros]: "in_world f s = (a, s') \<Longrightarrow> keeps e0 (run_engine s) \<Longrightarrow> keeps e0 (run_engine s')"
  by (simp add: in_world_engine)

locale steady_engine =
  fixes env :: "'w Environment"
  assumes interfere_keeps: "keeps e (fst (env_interfere env e w))"
    and wait_keeps: "keeps e (fst (env_wait env e w))"
begin

lemma lock_keeps [keeps_intros]: "keeps e0 (run_engine s) \<Longrightarrow> keeps e0 (run_engine (lock env s))"
  using keeps_trans [OF _ interfere_keeps] by (auto simp: lock_def split: prod.splits dest: spec) (metis fst_conv)

lemma GetTransition_keeps [keeps_intros]:
  "GetTransition env i s = (r, s') \<Longrightarrow> keeps e0 (run_engine s) \<Longrightarrow> keeps e0 (run_engine s')"
  by (auto simp: GetTransition_def Let_def intro: lock_keeps)

lemma IsCancelled_keeps [keeps_intros]:
  "IsCancelled env i s = (r, s') \<Longrightarrow> keeps e0 (run_engine s) \<Longrightarrow> keeps e0 (run_engine s')"
  by (auto simp: IsCancelled_def Let_def intro: lock_keeps)

lemma Cancel_keeps [keeps_intros]:
  "Cancel env i s = Some (r, s') \<Longrightarrow> keeps e0 (run_engine s) \<Longrightarrow> keeps e0 (run_engine s')"
  by (auto simp: Cancel_def Let_def split: option.splits if_splits intro: lock_keeps)

lemma Snapshot_keeps [keeps_intros]:
  "Snapshot env s = (r, s') \<Longrightarrow> keeps e0 (run_engine s) \<Longrightarrow> keeps e0 (run_engine s')"
  by (auto simp: Snapshot_def Let_def intro: lock_keeps)

lemma Record_keeps [keeps_intros]:
  "Record env t p s = (r, t', s') \<Longrightarrow> keeps e0 (run_engine s) \<Longrightarrow> keeps e0 (run_engine s')"
  by (clarsimp simp: Record_def Let_def split: prod.splits sum.splits) (blast intro: keeps_intros)+

lemma Fail_keeps [keeps_intros]:
  "Fail env t er a ev s = (t', s') \<Longrightarrow> keeps e0 (run_engine s) \<Longrightarrow> keeps e0 (run_engine s')"
  by (clarsimp simp: Fail_def Let_def split: prod.splits sum.splits) (blast intro: keeps_intros)+

lemma fail_accept_keeps [keeps_intros]:
  "fail_accept env t er s = (r, s') \<Longrightarrow> keeps e0 (run_engine s) \<Longrightarrow> keeps e0 (run_engine s')"
  by (clarsimp simp: fail_accept_def Let_def split: prod.splits) (blast intro: keeps_intros)+

lemma record_accept_keeps [keeps_intros]:
  "record_accept env t plan deadline s = (r, s') \<Longrightarrow> keeps e0 (run_engine s) \<Longrightarrow> keeps e0 (run_engine s')"
  by (clarsimp simp: record_accept_def Let_def split: prod.splits sum.splits) (blast intro: keeps_intros)+

lemma AcceptModeFrom_keeps [keeps_intros]:
  assumes "AcceptModeFrom env c d m deadline s = Some (r, s')" "keeps e0 (run_engine s)"
  shows "keeps e0 (run_engine s')"
proof -
  obtain now s1 where 1: "in_world (env_now env) s = (now, s1)" by fastforce
  define s2 where "s2 = with_engine (\<lambda>e. e\<lparr>en_next_transition := en_next_transition (run_engine s1) + 1\<rparr>) s1"
  obtain now2 s3 where 3: "in_world (env_now env) s2 = (now2, s3)" by fastforce
  have k1: "keeps e0 (run_engine s1)" using 1 assms(2) by (rule in_world_keeps)
  then have "keeps e0 (run_engine s2)" by (simp add: s2_def)
  with 3 have "keeps e0 (run_engine s3)" by (rule in_world_keeps)
  then have k4: "keeps e0 (run_engine (lock env s3))" by (rule lock_keeps)
  show ?thesis
    using assms(1) k1 k4 unfolding AcceptModeFrom_def 1 Let_def prod.case s2_def [symmetric] 3
    by (auto split: if_splits option.splits sum.splits intro: fail_accept_keeps record_accept_keeps)
qed

lemma AcceptMode_keeps [keeps_intros]:
  "AcceptMode env d m deadline s = Some (r, s') \<Longrightarrow> keeps e0 (run_engine s) \<Longrightarrow> keeps e0 (run_engine s')"
  by (auto simp: AcceptMode_def Let_def intro: keeps_intros)

end

context steady_engine
begin

lemma recovery_stops_keeps [keeps_intros]:
  "recovery_stops env deadline as f s = Some (x, f', s') \<Longrightarrow> keeps e0 (run_engine s) \<Longrightarrow> keeps e0 (run_engine s')"
proof (induction as arbitrary: f s)
  case (Cons a as)
  obtain d where d: "FindUnit (en_model (run_engine s)) a = Some d"
    using Cons.prems(1) by (auto split: option.splits)
  obtain now s1 where 1: "in_world (env_now env) s = (now, s1)" by fastforce
  obtain r s2 where 2: "in_world (env_stop env a SR_recovery (min deadline (now + ms (eu_stop_timeout d)))) s1 = (r, s2)"
    by fastforce
  have "keeps e0 (run_engine s2)" using 1 2 Cons.prems(2) by (blast intro: in_world_keeps)
  then show ?case
    using Cons.prems(1) Cons.IH d 1 2 lock_keeps [of e0 s2] by (auto split: sum.splits if_splits)
qed simp

lemma recovery_attempts_engine:
  "recovery_attempts env d a deadline n f s = (r, f', s') \<Longrightarrow> run_engine s' = run_engine s"
proof (induction n arbitrary: f s)
  case (Suc n)
  obtain now s1 where 1: "in_world (env_now env) s = (now, s1)" by fastforce
  obtain st s2 where 2: "in_world (env_start env a (min deadline (now + ms (eu_start_timeout d)))) s1 = (st, s2)" by fastforce
  obtain now2 s3 where 3: "in_world (env_now env) s2 = (now2, s3)" by fastforce
  obtain cl s4 where 4: "in_world (env_stop env a SR_recovery (min deadline (now2 + ms (eu_stop_timeout d)))) s3 = (cl, s4)" by fastforce
  obtain now3 s5 where 5: "in_world (env_now env) s4 = (now3, s5)" by fastforce
  note e = 1 [THEN in_world_engine] 2 [THEN in_world_engine] 3 [THEN in_world_engine] 4 [THEN in_world_engine] 5 [THEN in_world_engine]
  show ?case
    using Suc.prems [unfolded recovery_attempts.simps(2) 1 Let_def prod.case 2 3 4 5] e
      Suc.IH [of _ "sleep_until env (min deadline (now3 + ms (retry_delay (eu_retry d)))) s5"]
    by (auto simp del: recovery_attempts.simps split: if_splits sum.splits nat.splits)
qed simp

lemma recovery_starts_keeps [keeps_intros]:
  "recovery_starts env deadline as f s = Some (x, f', s') \<Longrightarrow> keeps e0 (run_engine s) \<Longrightarrow> keeps e0 (run_engine s')"
proof (induction as arbitrary: f s)
  case (Cons a as)
  obtain d where d: "FindUnit (en_model (run_engine s)) a = Some d"
    using Cons.prems(1) by (auto split: option.splits)
  obtain r f1 s1 where 1: "recovery_attempts env d a deadline (unat (max_attempts (eu_retry d))) f s = (r, f1, s1)"
    by (metis prod_cases3)
  have "keeps e0 (run_engine s1)" using recovery_attempts_engine [OF 1] Cons.prems(2) by simp
  then show ?case
    using Cons.prems(1) Cons.IH d 1 lock_keeps [of e0 s1] by (auto split: sum.splits bool.splits)
qed simp

lemma ApplyRecoveryPlan_keeps [keeps_intros]:
  "ApplyRecoveryPlan env stop start deadline f s = Some (x, f', s') \<Longrightarrow> keeps e0 (run_engine s) \<Longrightarrow>
   keeps e0 (run_engine s')"
  by (auto simp: ApplyRecoveryPlan_def split: Option.bind_splits option.splits
      intro: recovery_stops_keeps recovery_starts_keeps) (blast intro: keeps_intros)+

lemma recovery_action_keeps [keeps_intros]:
  assumes run: "recovery_action env D deadline f s = Some (x, f', s')" and k: "keeps e0 (run_engine s)"
  shows "keeps e0 (run_engine s')"
proof (cases "rp_action (dd_recovery D)")
  case FA_enter_fallback_mode
  with run lock_keeps [OF k] show ?thesis
    by (auto simp: recovery_action_def Let_def split: option.splits sum.splits Option.bind_splits)
      (blast intro: keeps_intros)+
next
  case FA_stop_domain
  with run lock_keeps [OF k] show ?thesis
    by (auto simp: recovery_action_def Let_def split: option.splits sum.splits) (blast intro: keeps_intros)
next
  case FA_request_system_recovery
  with run k show ?thesis
    by (auto simp: recovery_action_def Let_def split: prod.splits) (blast intro: keeps_intros)
qed (use run k in \<open>simp_all add: recovery_action_def\<close>)

lemma finish_recovery_keeps [keeps_intros]:
  "finish_recovery env t f ended s = (r, s') \<Longrightarrow> keeps e0 (run_engine s) \<Longrightarrow> keeps e0 (run_engine s')"
  by (auto simp: finish_recovery_def Let_def split: prod.splits) (blast intro: keeps_intros)+

lemma Recover_keeps [keeps_intros]:
  assumes run: "Recover env t er a ev s = Some (r, s')" and k: "keeps e0 (run_engine s)"
  shows "keeps e0 (run_engine s')"
proof -
  have fail: "keeps e0 (run_engine s2)"
    if "(let (t, s) = Fail env t er a ev s1 in Some (Inr t, s)) = Some (r, s2)" "keeps e0 (run_engine s1)"
    for t er a ev s1 s2
    using that by (auto split: prod.splits intro: Fail_keeps)
  consider (failed) "Recover env t er a ev s = (let (t, s) = Fail env t er a ev s in Some (Inr t, s))"
    | (tried) D where "FindDomain (en_model (run_engine s)) (ts_domain t) = Some D"
      "rp_action (dd_recovery D) \<noteq> FA_hold_observed_configuration"
    by (cases "case FindDomain (en_model (run_engine s)) (ts_domain t) of None \<Rightarrow> True
        | Some D \<Rightarrow> rp_action (dd_recovery D) = FA_hold_observed_configuration")
      (auto simp: Recover_def split: option.splits)
  then show ?thesis
  proof cases
    case failed
    then have "(let (t, s) = Fail env t er a ev s in Some (Inr t, s)) = Some (r, s')" using run by simp
    then show ?thesis using k by (rule fail)
  next
    case tried
    define f where "f = (failure_of er a ev)\<lparr>tf_recovery_action := rp_action (dd_recovery D), tf_recovery_attempted := True\<rparr>"
    obtain r1 t1 s1 where 1: "Record env (t\<lparr>ts_failure := Some f\<rparr>) TP_recovering s = (r1, t1, s1)" by (metis prod_cases3)
    obtain now s2 where 2: "in_world (env_now env) s1 = (now, s2)" by fastforce
    have k1: "keeps e0 (run_engine s1)" using 1 k by (rule Record_keeps)
    with 2 have k2: "keeps e0 (run_engine s2)" by (rule in_world_keeps)
    show ?thesis
    proof (cases r1)
      case (Inl e)
      then have "(let (t, s) = Fail env t1 e None no_evidence s1 in Some (Inr t, s)) = Some (r, s')"
        using run tried 1 by (simp add: Recover_def Let_def f_def)
      then show ?thesis using k1 by (rule fail)
    next
      case (Inr u)
      then obtain ended g s3 where 3: "recovery_action env D (now + ms (rp_deadline (dd_recovery D))) f s2 = Some (ended, g, s3)"
        and 4: "finish_recovery env t1 g ended s3 = (r, s')"
        using run tried 1 2 by (auto simp: Recover_def Let_def f_def split: Option.bind_splits)
      show ?thesis by (rule finish_recovery_keeps [OF 4 recovery_action_keeps [OF 3 k2]])
    qed
  qed
qed

lemma return_failure_keeps [keeps_intros]:
  "return_failure env t er s = (r, t', s') \<Longrightarrow> keeps e0 (run_engine s) \<Longrightarrow> keeps e0 (run_engine s')"
  by (auto simp: return_failure_def split: prod.splits) (blast intro: keeps_intros)

lemma return_recovery_keeps [keeps_intros]:
  "return_recovery env t er a ev s = Some (r, t', s') \<Longrightarrow> keeps e0 (run_engine s) \<Longrightarrow> keeps e0 (run_engine s')"
  by (auto simp: return_recovery_def) (blast intro: keeps_intros)

lemma record_or_fail_keeps [keeps_intros]:
  "record_or_fail env t p s = (r, t', s') \<Longrightarrow> keeps e0 (run_engine s) \<Longrightarrow> keeps e0 (run_engine s')"
  by (auto simp: record_or_fail_def split: prod.splits sum.splits) (blast intro: keeps_intros)+

lemma execute_stops_keeps [keeps_intros]:
  "execute_stops env deadline as t s = Some (r, t', s') \<Longrightarrow> keeps e0 (run_engine s) \<Longrightarrow> keeps e0 (run_engine s')"
proof (induction as arbitrary: s)
  case (Cons a as)
  obtain cancelled s0 where 0: "IsCancelled env (ts_id t) s = (cancelled, s0)" by fastforce
  have k0: "keeps e0 (run_engine s0)" using 0 Cons.prems(2) by (rule IsCancelled_keeps)
  show ?case
  proof (cases cancelled)
    case True
    with Cons.prems(1) 0 k0 show ?thesis by (auto intro: return_failure_keeps)
  next
    case False
    obtain d where d: "FindUnit (en_model (run_engine s0)) a = Some d"
      using Cons.prems(1) 0 False by (auto split: option.splits)
    obtain now s1 where 1: "in_world (env_now env) s0 = (now, s1)" by fastforce
    obtain r2 s2 where 2: "in_world (env_stop env a SR_mode_change (min deadline (now + ms (eu_stop_timeout d)))) s1 = (r2, s2)"
      by fastforce
    have "keeps e0 (run_engine s2)" using 1 2 k0 by (blast intro: in_world_keeps)
    then show ?thesis
      using Cons.prems(1) Cons.IH 0 False d 1 2 lock_keeps [of e0 s2]
      by (auto split: sum.splits if_splits intro: return_recovery_keeps)
  qed
qed simp

lemma start_attempts_engine:
  "start_attempts env d a deadline n er ev s = (r, er', ev', s') \<Longrightarrow> run_engine s' = run_engine s"
proof (induction n arbitrary: er ev s)
  case (Suc n)
  obtain now s1 where 1: "in_world (env_now env) s = (now, s1)" by fastforce
  obtain st s2 where 2: "in_world (env_start env a (min deadline (now + ms (eu_start_timeout d)))) s1 = (st, s2)" by fastforce
  obtain now2 s3 where 3: "in_world (env_now env) s2 = (now2, s3)" by fastforce
  obtain cl s4 where 4: "in_world (env_stop env a SR_restart (min deadline (now2 + ms (eu_stop_timeout d)))) s3 = (cl, s4)" by fastforce
  obtain now3 s5 where 5: "in_world (env_now env) s4 = (now3, s5)" by fastforce
  note e = 1 [THEN in_world_engine] 2 [THEN in_world_engine] 3 [THEN in_world_engine] 4 [THEN in_world_engine] 5 [THEN in_world_engine]
  show ?case
    using Suc.prems 1 2 3 4 5 e Suc.IH
    by (auto simp: Let_def split: if_splits sum.splits prod.splits)
qed simp

lemma execute_starts_keeps [keeps_intros]:
  "execute_starts env deadline as t s = Some (r, t', s') \<Longrightarrow> keeps e0 (run_engine s) \<Longrightarrow> keeps e0 (run_engine s')"
proof (induction as arbitrary: s)
  case (Cons a as)
  obtain cancelled s0 where 0: "IsCancelled env (ts_id t) s = (cancelled, s0)" by fastforce
  have k0: "keeps e0 (run_engine s0)" using 0 Cons.prems(2) by (rule IsCancelled_keeps)
  show ?case
  proof (cases cancelled)
    case True
    with Cons.prems(1) 0 k0 show ?thesis by (auto intro: return_failure_keeps)
  next
    case False
    obtain d where d: "FindUnit (en_model (run_engine s0)) a = Some d"
      using Cons.prems(1) 0 False by (auto split: option.splits)
    obtain ok er ev s1 where 1: "start_attempts env d a deadline (unat (max_attempts (eu_retry d))) not_reached no_evidence s0
        = (ok, er, ev, s1)" by (metis prod_cases4)
    have "keeps e0 (run_engine s1)" using start_attempts_engine [OF 1] k0 by simp
    then show ?thesis
      using Cons.prems(1) Cons.IH 0 False d 1 lock_keeps [of e0 s1]
      by (auto split: bool.splits intro: return_recovery_keeps)
  qed
qed simp

lemma record_starting_keeps [keeps_intros]:
  "record_starting env start t s = Some (r, t', s') \<Longrightarrow> keeps e0 (run_engine s) \<Longrightarrow> keeps e0 (run_engine s')"
  by (auto simp: record_starting_def Let_def split: prod.splits option.splits if_splits) (blast intro: keeps_intros)+

lemma commit_mode_keeps [keeps_intros]:
  "commit_mode env d m t s = (r, t', s') \<Longrightarrow> keeps e0 (run_engine s) \<Longrightarrow> keeps e0 (run_engine s')"
  by (auto simp: commit_mode_def split: prod.splits option.splits)
    (metis keeps_set_mode lock_keeps record_or_fail_keeps run_engine_with_engine)+

lemma check_replan_keeps [keeps_intros]:
  "check_replan env plan t s = Some (r, t', s') \<Longrightarrow> keeps e0 (run_engine s) \<Longrightarrow> keeps e0 (run_engine s')"
  using lock_keeps [of e0 s]
  by (auto simp: check_replan_def Let_def split: option.splits sum.splits if_splits intro: return_failure_keeps)

lemma and_next_keeps:
  assumes "and_next p f = Some (r, t', s')"
    and "\<And>r t s. p = Some (r, t, s) \<Longrightarrow> keeps e0 (run_engine s)"
    and "\<And>t s r t' s'. f t s = Some (r, t', s') \<Longrightarrow> keeps e0 (run_engine s) \<Longrightarrow> keeps e0 (run_engine s')"
  shows "keeps e0 (run_engine s')"
  using assms by (auto simp: and_next_def split: option.splits)

lemma execute_leased_keeps [keeps_intros]:
  assumes run: "execute_leased env plan deadline t s = Some (r, t', s')" and k: "keeps e0 (run_engine s)"
  shows "keeps e0 (run_engine s')"
  using run unfolding execute_leased_def
  by (elim and_next_keeps)
    (auto split: if_splits intro: check_replan_keeps record_or_fail_keeps execute_stops_keeps record_starting_keeps
       execute_starts_keeps commit_mode_keeps k)

lemma engine_acquire_keeps [keeps_intros]:
  assumes run: "engine_acquire env i r s = (l, s')" and k: "keeps e0 (run_engine s)"
  shows "keeps e0 (run_engine s')"
proof -
  obtain e w where w: "env_wait env (run_engine s) (run_world s) = (e, w)" by fastforce
  have "keeps e0 e" using keeps_trans [OF k wait_keeps [of _ "run_world s"]] w by simp
  then show ?thesis
    using run k w by (auto simp: engine_acquire_def Let_def split: prod.splits if_splits)
qed

lemma Execute_keeps [keeps_intros]:
  assumes run: "Execute env a s = Some (r, s')" and k: "keeps e0 (run_engine s)"
  shows "keeps e0 (run_engine s')"
proof -
  obtain g s1 where 1: "GetTransition env (at_id a) s = (g, s1)" by fastforce
  have k1: "keeps e0 (run_engine s1)" using 1 k by (rule GetTransition_keeps)
  show ?thesis
  proof (cases g)
    case (Inl e)
    then show ?thesis using run 1 k1 by (simp add: Execute_def)
  next
    case (Inr t)
    obtain l s2 where 2: "engine_acquire env (ts_id t) (plan_resources (at_plan a)) s1 = (l, s2)" by fastforce
    have k2: "keeps e0 (run_engine s2)" using 2 k1 by (rule engine_acquire_keeps)
    show ?thesis
    proof (cases l)
      case (Inl e)
      then show ?thesis using run 1 2 \<open>g = Inr t\<close> k2 by (auto simp: Execute_def split: prod.splits intro: Fail_keeps)
    next
      case (Inr lease)
      then obtain q t3 s3 where 3: "execute_leased env (at_plan a) (at_deadline a) t s2 = Some (q, t3, s3)"
        and s': "s' = with_engine (\<lambda>e. e\<lparr>en_scheduler := snd (Lease_Reset lease (en_scheduler e))\<rparr>) s3"
        using run 1 2 \<open>g = Inr t\<close> by (auto simp: Execute_def split: Option.bind_splits)
      show ?thesis using execute_leased_keeps [OF 3 k2] s' by simp
    qed
  qed
qed

end

text \<open>The single-threaded use of the engine is a special case.\<close>

sublocale sole_user \<subseteq> steady_engine
  by unfold_locales (simp_all add: no_interference no_wait)

section \<open>What requests do\<close>

definition has_mode :: "DomainId \<Rightarrow> SystemConfiguration \<Rightarrow> bool" where
  "has_mode d c \<longleftrightarrow> um_find (sc_committed_modes c) d \<noteq> None"

definition engine_config :: "'w Coordinator \<Rightarrow> SystemConfiguration" where
  "engine_config c = en_configuration (run_engine (co_run c))"

text \<open>Only the engine and the projection changed.\<close>

definition same_tables :: "'w Coordinator \<Rightarrow> 'w Coordinator \<Rightarrow> bool" where
  "same_tables c c' \<longleftrightarrow> c' = c\<lparr>co_run := co_run c', co_projected := co_projected c'\<rparr>"

abbreviation run_kept :: "'w Coordinator \<Rightarrow> 'w Coordinator \<Rightarrow> bool" where
  "run_kept c c' \<equiv> keeps (run_engine (co_run c)) (run_engine (co_run c'))"

lemma same_tables_fields:
  assumes "same_tables c c'"
  shows "co_permissions c' = co_permissions c" "co_queue_capacity c' = co_queue_capacity c" "co_queue c' = co_queue c"
    "co_active c' = co_active c" "co_subscriptions c' = co_subscriptions c" "co_revision c' = co_revision c"
    "co_next_subscription c' = co_next_subscription c" "co_recovering c' = co_recovering c" "co_stopping c' = co_stopping c"
proof -
  note e = assms [unfolded same_tables_def]
  show "co_permissions c' = co_permissions c" "co_queue_capacity c' = co_queue_capacity c" "co_queue c' = co_queue c"
    "co_active c' = co_active c" "co_subscriptions c' = co_subscriptions c" "co_revision c' = co_revision c"
    "co_next_subscription c' = co_next_subscription c" "co_recovering c' = co_recovering c" "co_stopping c' = co_stopping c"
    by (subst e, simp)+
qed

lemma same_tables_refl [simp]: "same_tables c c"
  by (simp add: same_tables_def)

lemma same_tables_run [simp]: "same_tables c (c\<lparr>co_run := r\<rparr>)" "same_tables c (c\<lparr>co_run := r, co_projected := p\<rparr>)"
  by (simp_all add: same_tables_def)

lemma run_kept_model: "run_kept c c' \<Longrightarrow> model_of c' = model_of c"
  by (simp add: model_of_def keeps_def)

lemma run_kept_mode: "run_kept c c' \<Longrightarrow> has_mode d (engine_config c) \<Longrightarrow> has_mode d (engine_config c')"
  by (simp add: has_mode_def engine_config_def keeps_def)

lemma record_accept_plan:
  "record_accept env t plan deadline s = (Inr a, s') \<Longrightarrow> at_plan a = plan"
  by (auto simp: record_accept_def fail_accept_def Let_def split: prod.splits sum.splits)

lemma AcceptModeFrom_accepted:
  assumes "AcceptModeFrom env base d m deadline s = Some (Inr a, s')"
  shows "tp_domain (at_plan a) = d \<and> tp_target_mode (at_plan a) = m \<and> has_mode d base"
proof -
  obtain vm where p: "Plan vm base d m = Some (Inr (at_plan a))"
    using assms record_accept_plan
    by (fastforce simp: AcceptModeFrom_def fail_accept_def Let_def split: prod.splits if_splits option.splits sum.splits)
  then have "BuildPlan vm base d m False = Some (Inr (at_plan a))" by (simp add: Plan_def)
  then show ?thesis
    by (auto simp: has_mode_def elim!: BuildPlan_InrE dest: build_plan_for_Some(5,7))
qed

context steady_engine
begin

lemma AcceptMode_accepted:
  assumes "AcceptMode env d m deadline s = Some (Inr a, s')"
  shows "tp_domain (at_plan a) = d \<and> tp_target_mode (at_plan a) = m \<and> has_mode d (en_configuration (run_engine s'))"
proof -
  have a: "AcceptModeFrom env (en_configuration (run_engine (lock env s))) d m deadline (lock env s) = Some (Inr a, s')"
    using assms by (simp add: AcceptMode_def Let_def)
  then have "keeps (run_engine (lock env s)) (run_engine s')" by (rule AcceptModeFrom_keeps) simp
  with AcceptModeFrom_accepted [OF a] show ?thesis by (simp add: has_mode_def keeps_def)
qed

lemma accept_request_cases:
  assumes run: "accept_request env q d m timeout c = Some (r, calls, c')"
    and proj: "\<forall>d. has_mode d (co_projected c) \<longrightarrow> has_mode d (engine_config c)"
  obtains (refused) e where "r = Inl e" "calls = []" "c' = c\<lparr>co_run := co_run c'\<rparr>" "run_kept c c'"
  | (accepted) a where "r = Inr (at_id a)" "length (co_queue c) < co_queue_capacity c"
      "c' = c\<lparr>co_run := co_run c', co_projected := project d m (at_plan a) (co_projected c), co_queue := co_queue c @ [a],
              co_active := um_set d (at_id a) (co_active c), co_revision := co_revision c + 1\<rparr>"
      "calls = CollectHandlersLocked \<lparr>ce_kind = CE_transition_changed, ce_revision = co_revision c',
         ce_transition = Some (at_id a), ce_domain = Some d\<rparr> c'"
      "run_kept c c'" "tp_domain (at_plan a) = d" "tp_target_mode (at_plan a) = m" "has_mode d (engine_config c')"
proof (cases "length (co_queue c) \<ge> co_queue_capacity c")
  case True
  then show ?thesis using run refused [of "MakeError EC_resource_exhausted ''coordinator transition queue is full'' 0"]
    by (auto simp: accept_request_def)
next
  case False
  obtain now run1 where 1: "in_world (env_now env) (co_run c) = (now, run1)" by fastforce
  let ?acc = "if q then AcceptModeFrom env (co_projected c) d m (now + ms timeout) run1
              else AcceptMode env d m (now + ms timeout) run1"
  obtain acc run2 where 2: "?acc = Some (acc, run2)"
    using run False 1 by (auto simp: accept_request_def split: Option.bind_splits)
  have k1: "keeps (run_engine (co_run c)) (run_engine run1)" using 1 by (rule in_world_keeps) simp
  then have k: "keeps (run_engine (co_run c)) (run_engine run2)"
    using 2 by (auto split: if_splits intro: AcceptModeFrom_keeps AcceptMode_keeps)
  show ?thesis
  proof (cases acc)
    case (Inl e)
    then show ?thesis using run False 1 2 k refused [of e] by (auto simp: accept_request_def)
  next
    case (Inr a)
    have a: "tp_domain (at_plan a) = d" "tp_target_mode (at_plan a) = m" "has_mode d (en_configuration (run_engine run2))"
    proof -
      have "tp_domain (at_plan a) = d \<and> tp_target_mode (at_plan a) = m \<and> has_mode d (en_configuration (run_engine run2))"
      proof (cases q)
        case True
        then have "AcceptModeFrom env (co_projected c) d m (now + ms timeout) run1 = Some (Inr a, run2)"
          using 2 Inr by simp
        note b = AcceptModeFrom_accepted [OF this]
        then have "has_mode d (engine_config c)" using proj by blast
        then show ?thesis using b k by (simp add: has_mode_def engine_config_def keeps_def)
      next
        case False
        then show ?thesis using 2 Inr AcceptMode_accepted [of d m "now + ms timeout" run1 a run2] by simp
      qed
      then show "tp_domain (at_plan a) = d" "tp_target_mode (at_plan a) = m" "has_mode d (en_configuration (run_engine run2))"
        by blast+
    qed
    show ?thesis
      using run False 1 2 k a Inr accepted [of a] by (auto simp: accept_request_def Let_def engine_config_def)
  qed
qed

end

definition accepted_into :: "DomainId \<Rightarrow> AcceptedTransition \<Rightarrow> 'w Coordinator \<Rightarrow> 'w Coordinator \<Rightarrow> bool" where
  "accepted_into d a c c' \<longleftrightarrow>
     c' = c\<lparr>co_run := co_run c', co_projected := co_projected c', co_queue := co_queue c @ [a],
            co_active := um_set d (at_id a) (co_active c), co_revision := co_revision c + 1\<rparr>"

definition projection_ok :: "'w Coordinator \<Rightarrow> bool" where
  "projection_ok c \<longleftrightarrow> (\<forall>d. has_mode d (co_projected c) \<longrightarrow> has_mode d (engine_config c))"

lemma accepted_into_fields:
  assumes "accepted_into d a c c'"
  shows "co_permissions c' = co_permissions c" "co_queue_capacity c' = co_queue_capacity c" "co_queue c' = co_queue c @ [a]"
    "co_active c' = um_set d (at_id a) (co_active c)" "co_subscriptions c' = co_subscriptions c" "co_revision c' = co_revision c + 1"
    "co_next_subscription c' = co_next_subscription c" "co_recovering c' = co_recovering c" "co_stopping c' = co_stopping c"
proof -
  note e = assms [unfolded accepted_into_def]
  show "co_permissions c' = co_permissions c" "co_queue_capacity c' = co_queue_capacity c" "co_queue c' = co_queue c @ [a]"
    "co_active c' = um_set d (at_id a) (co_active c)" "co_subscriptions c' = co_subscriptions c" "co_revision c' = co_revision c + 1"
    "co_next_subscription c' = co_next_subscription c" "co_recovering c' = co_recovering c" "co_stopping c' = co_stopping c"
    by (subst e, simp)+
qed

lemma accepted_into_same: "same_tables c c1 \<Longrightarrow> accepted_into d a c1 c' \<Longrightarrow> accepted_into d a c c'"
  by (cases c; cases c1; cases c') (simp add: same_tables_def accepted_into_def)

lemma projection_ok_kept:
  "projection_ok c \<Longrightarrow> run_kept c c' \<Longrightarrow> co_projected c' = co_projected c \<Longrightarrow> projection_ok c'"
  unfolding projection_ok_def by (metis run_kept_mode)

context steady_engine
begin

lemma replace_active_kept:
  assumes run: "replace_active env policy i c = Some (refused, c')" and ok: "projection_ok c"
  shows "same_tables c c'" "run_kept c c'" "projection_ok c'" "policy = RP_reject_while_busy \<Longrightarrow> refused \<noteq> None"
proof -
  have all: "same_tables c c' \<and> run_kept c c' \<and> projection_ok c' \<and> (policy = RP_reject_while_busy \<longrightarrow> refused \<noteq> None)"
  proof (cases policy)
    case RP_supersede_if_safe
    then obtain x run1 where 1: "Cancel env i (co_run c) = Some (x, run1)"
      using run by (auto simp: replace_active_def split: Option.bind_splits)
    obtain sn run2 where 2: "Snapshot env run1 = (sn, run2)" by fastforce
    have k1: "keeps (run_engine (co_run c)) (run_engine run1)" using 1 by (rule Cancel_keeps) simp
    have k2: "keeps (run_engine (co_run c)) (run_engine run2)" using 2 k1 by (rule Snapshot_keeps)
    have sn: "es_configuration sn = en_configuration (run_engine run2)" using 2 by (auto simp: Snapshot_def Let_def)
    have "projection_ok (c\<lparr>co_run := run1\<rparr>)" using projection_ok_kept [OF ok, of "c\<lparr>co_run := run1\<rparr>"] k1 by simp
    then show ?thesis
      using run RP_supersede_if_safe 1 2 k1 k2 sn
      by (auto simp: replace_active_def projection_ok_def engine_config_def split: sum.splits)
  qed (use run ok in \<open>auto simp: replace_active_def\<close>)
  then show "same_tables c c'" "run_kept c c'" "projection_ok c'" "policy = RP_reject_while_busy \<Longrightarrow> refused \<noteq> None"
    by blast+
qed

lemma accept_request_outcome:
  assumes run: "accept_request env q d m timeout c = Some (r, calls, c')" and ok: "projection_ok c"
  obtains (refused) e where "r = Inl e" "calls = []" "same_tables c c'" "run_kept c c'" "projection_ok c'"
  | (accepted) a where "r = Inr (at_id a)" "length (co_queue c) < co_queue_capacity c" "accepted_into d a c c'"
      "calls = CollectHandlersLocked \<lparr>ce_kind = CE_transition_changed, ce_revision = co_revision c',
         ce_transition = Some (at_id a), ce_domain = Some d\<rparr> c'"
      "run_kept c c'" "projection_ok c'" "tp_domain (at_plan a) = d" "tp_target_mode (at_plan a) = m"
      "has_mode d (engine_config c')"
  using run ok [unfolded projection_ok_def]
proof (cases rule: accept_request_cases)
  case (refused e)
  have "co_projected c' = co_projected c" by (subst refused(3)) simp
  moreover have "same_tables c c'" by (subst refused(3)) simp
  ultimately show ?thesis using refused that(1) projection_ok_kept [OF ok refused(4)] by simp
next
  case (accepted a)
  have p: "co_projected c' = project d m (at_plan a) (co_projected c)" by (subst accepted(3)) simp
  have "has_mode x (engine_config c')" if "has_mode x (co_projected c')" for x
    using that accepted(8) ok run_kept_mode [OF accepted(5)]
    by (auto simp: p project_def has_mode_def projection_ok_def split: if_splits)
  then have "projection_ok c'" by (simp add: projection_ok_def)
  moreover have "accepted_into d a c c'" unfolding accepted_into_def p by (rule accepted(3))
  ultimately show ?thesis using accepted(1,2,4-8) by (intro that(2))
qed

lemma Request_outcome:
  assumes run: "Request env d m timeout c = Some (r, calls, c')" and ok: "projection_ok c"
  obtains (refused) e where "r = Inl e" "calls = []" "same_tables c c'" "run_kept c c'" "projection_ok c'"
  | (accepted) a D where "r = Inr (at_id a)" "length (co_queue c) < co_queue_capacity c" "accepted_into d a c c'"
      "calls = CollectHandlersLocked \<lparr>ce_kind = CE_transition_changed, ce_revision = co_revision c',
         ce_transition = Some (at_id a), ce_domain = Some d\<rparr> c'"
      "run_kept c c'" "projection_ok c'" "tp_domain (at_plan a) = d" "tp_target_mode (at_plan a) = m"
      "has_mode d (engine_config c')" "cp_mutate (co_permissions c)" "0 < timeout" "\<not> co_stopping c"
      "FindDomain (model_of c) d = Some D"
      "dd_replacement D = RP_reject_while_busy \<Longrightarrow> um_find (co_active c) d = None"
proof (cases "\<not> cp_mutate (co_permissions c) \<or> timeout \<le> 0 \<or> FindDomain (model_of c) d = None \<or> co_stopping c")
  case True
  then have "c' = c \<and> calls = [] \<and> (\<exists>e. r = Inl e)"
    using run by (auto simp: Request_def split: if_splits option.splits)
  then show ?thesis using ok that(1) by auto
next
  case False
  then obtain D where D: "FindDomain (model_of c) d = Some D" and go: "cp_mutate (co_permissions c)" "0 < timeout" "\<not> co_stopping c"
    by auto
  show ?thesis
  proof (cases "um_find (co_active c) d")
    case None
    then have "accept_request env False d m timeout c = Some (r, calls, c')"
      using run D go by (simp add: Request_def)
    then show ?thesis using ok by (cases rule: accept_request_outcome) (use that None D go in auto)
  next
    case (Some i)
    then obtain x c1 where 1: "replace_active env (dd_replacement D) i c = Some (x, c1)"
      using run D go by (auto simp: Request_def split: Option.bind_splits)
    note k = replace_active_kept [OF 1 ok]
    show ?thesis
    proof (cases x)
      case (Some e)
      then have "r = Inl e" "calls = []" "c' = c1"
        using run D go \<open>um_find (co_active c) d = Some i\<close> 1 by (auto simp: Request_def)
      then show ?thesis using k that(1) by simp
    next
      case None
      then have "accept_request env (dd_replacement D = RP_queue) d m timeout c1 = Some (r, calls, c')"
        using run D go Some 1 by (simp add: Request_def)
      then show ?thesis using k(3)
      proof (cases rule: accept_request_outcome)
        case (refused e)
        have "same_tables c c'" using k(1) refused(3) by (cases c; cases c1; cases c') (simp add: same_tables_def)
        then show ?thesis using refused keeps_trans [OF k(2) refused(4)] that(1) by simp
      next
        case (accepted a)
        have "dd_replacement D \<noteq> RP_reject_while_busy" using k(4) None by blast
        then show ?thesis
          using that(2) [of a D] accepted accepted_into_same [OF k(1)] keeps_trans [OF k(2) accepted(5)] D go
            same_tables_fields(2,3) [OF k(1)] by simp
      qed
    qed
  qed
qed

end

end
