(* ===== verification/Exec_Service.thy ===== *)
theory Exec_Service
  imports Exec_Coordinator "HOL-Library.Multiset"
begin

text \<open>
  The coordinator service under all interleavings of its threads: the invariant \<open>service_inv\<close> of the step
  relation, the properties that follow from it, the refinement of the engine's \<open>RequestMode\<close> by a request
  and a worker, the content of snapshots, and runs of the service on a concrete engine.
\<close>

section \<open>The invariant of the service\<close>

fun held :: "Worker \<Rightarrow> AcceptedTransition multiset" where
  "held (WK_taken a) = {#a#}"
| "held (WK_done d) = {#cm_accepted d#}"
| "held _ = {#}"

text \<open>The accepted transitions that are not yet accounted for.\<close>

definition outstanding :: "'w Service \<Rightarrow> AcceptedTransition multiset" where
  "outstanding s = mset (co_queue (sv_coordinator s)) + (\<Sum>w\<in>#mset (sv_workers s). held w)"

abbreviation domain_of :: "AcceptedTransition \<Rightarrow> DomainId" where
  "domain_of a \<equiv> tp_domain (at_plan a)"

definition rejects :: "ValidatedModel \<Rightarrow> DomainId \<Rightarrow> bool" where
  "rejects vm d \<longleftrightarrow> (\<exists>D. FindDomain vm d = Some D \<and> dd_replacement D = RP_reject_while_busy)"

text \<open>The queue and the subscriptions stay within the capacity; an active transition is outstanding; a
  domain that rejects requests while it is busy has at most one outstanding transition, which is its
  active one; the domain of an outstanding transition has a committed mode; a worker has only
  returned when nothing is left to do.\<close>

definition service_inv :: "'w Service \<Rightarrow> bool" where
  "service_inv s \<longleftrightarrow>
     length (co_queue (sv_coordinator s)) \<le> co_queue_capacity (sv_coordinator s) \<and>
     length (co_subscriptions (sv_coordinator s)) \<le> co_queue_capacity (sv_coordinator s) \<and>
     um_ok (co_active (sv_coordinator s)) \<and>
     (\<forall>d i. um_find (co_active (sv_coordinator s)) d = Some i \<longrightarrow>
        (\<exists>a \<in># outstanding s. at_id a = i \<and> domain_of a = d)) \<and>
     (\<forall>d. rejects (model_of (sv_coordinator s)) d \<longrightarrow> size {#a \<in># outstanding s. domain_of a = d#} \<le> 1) \<and>
     (\<forall>a \<in># outstanding s. rejects (model_of (sv_coordinator s)) (domain_of a) \<longrightarrow>
        um_find (co_active (sv_coordinator s)) (domain_of a) = Some (at_id a)) \<and>
     (\<forall>a \<in># outstanding s. has_mode (domain_of a) (engine_config (sv_coordinator s))) \<and>
     projection_ok (sv_coordinator s) \<and>
     (WK_returned \<in> set (sv_workers s) \<longrightarrow> co_stopping (sv_coordinator s) \<and> co_queue (sv_coordinator s) = []) \<and>
     \<not> co_recovering (sv_coordinator s) \<and>
     (\<forall>t. WT_returned (Inr t) \<in> set (sv_waiters s) \<longrightarrow> IsTerminal (pt_phase t))"

lemma held_update:
  "k < length ws \<Longrightarrow> (\<Sum>w\<in>#mset (ws[k := x]). held w) + held (ws ! k) = (\<Sum>w\<in>#mset ws. held w) + held x"
  by (induction ws arbitrary: k) (auto simp: nth_Cons less_Suc_eq_0_disj ac_simps split: nat.split)

lemma held_replicate_idle: "(\<Sum>w\<in>#mset (replicate n WK_idle). held w) = {#}"
  by (induction n) auto

lemma outstanding_cong:
  "co_queue (sv_coordinator s') = co_queue (sv_coordinator s) \<Longrightarrow> sv_workers s' = sv_workers s \<Longrightarrow>
   outstanding s' = outstanding s"
  by (simp add: outstanding_def)

lemma service_fields [simp]:
  "sv_coordinator (with_coordinator c s) = c" "sv_workers (with_coordinator c s) = sv_workers s"
  "sv_waiters (with_coordinator c s) = sv_waiters s" "sv_coordinator (notify_all s) = sv_coordinator s"
  "sv_workers (notify_all s) = sv_workers s" "sv_waiters (notify_all s) = map notify (sv_waiters s)"
  "sv_coordinator (add_calls l s) = sv_coordinator s" "sv_workers (add_calls l s) = sv_workers s"
  "sv_waiters (add_calls l s) = sv_waiters s" "sv_calls (add_calls l s) = sv_calls s @ l"
  "sv_calls (with_coordinator c s) = sv_calls s" "sv_calls (notify_all s) = sv_calls s"
  by (simp_all add: with_coordinator_def notify_all_def add_calls_def)

lemma notify_returned [simp]: "WT_returned r \<in> notify ` set ws \<longleftrightarrow> WT_returned r \<in> set ws"
proof
  assume "WT_returned r \<in> notify ` set ws"
  then obtain w where w: "w \<in> set ws" "notify w = WT_returned r" by auto
  from w(2) have "w = WT_returned r" by (cases w) simp_all
  with w(1) show "WT_returned r \<in> set ws" by simp
next
  assume "WT_returned r \<in> set ws"
  then show "WT_returned r \<in> notify ` set ws" by (metis imageI notify.simps(5))
qed

text \<open>The invariant only depends on these parts.\<close>

lemma service_inv_frame:
  assumes inv: "service_inv s"
    and queue: "co_queue (sv_coordinator s') = co_queue (sv_coordinator s)"
    and active: "co_active (sv_coordinator s') = co_active (sv_coordinator s)"
    and cap: "co_queue_capacity (sv_coordinator s') = co_queue_capacity (sv_coordinator s)"
    and subs: "length (co_subscriptions (sv_coordinator s')) \<le> co_queue_capacity (sv_coordinator s)"
    and rec: "co_recovering (sv_coordinator s') = co_recovering (sv_coordinator s)"
    and stop: "co_stopping (sv_coordinator s) \<Longrightarrow> co_stopping (sv_coordinator s')"
    and run: "run_kept (sv_coordinator s) (sv_coordinator s')" "projection_ok (sv_coordinator s')"
    and out: "outstanding s' = outstanding s"
    and ret: "WK_returned \<in> set (sv_workers s') \<Longrightarrow>
      WK_returned \<in> set (sv_workers s) \<or> co_stopping (sv_coordinator s) \<and> co_queue (sv_coordinator s) = []"
    and waits: "\<And>t. WT_returned (Inr t) \<in> set (sv_waiters s') \<Longrightarrow>
      WT_returned (Inr t) \<in> set (sv_waiters s) \<or> IsTerminal (pt_phase t)"
  shows "service_inv s'"
proof -
  have modes: "\<forall>a \<in># outstanding s. has_mode (domain_of a) (engine_config (sv_coordinator s'))"
    using inv run_kept_mode [OF run(1)] by (simp add: service_inv_def)
  have ret': "WK_returned \<in> set (sv_workers s') \<longrightarrow> co_stopping (sv_coordinator s') \<and> co_queue (sv_coordinator s) = []"
    using inv ret stop by (auto simp: service_inv_def)
  have "\<forall>t. WT_returned (Inr t) \<in> set (sv_waiters s') \<longrightarrow> IsTerminal (pt_phase t)"
    using inv waits unfolding service_inv_def by blast
  with inv modes ret' subs run(2) show ?thesis
    unfolding service_inv_def out queue active cap rec run_kept_model [OF run(1)] by simp
qed

lemma service_inv_accept:
  assumes inv: "service_inv s" and into: "accepted_into d a (sv_coordinator s) c'" and d: "domain_of a = d"
    and room: "length (co_queue (sv_coordinator s)) < co_queue_capacity (sv_coordinator s)"
    and run: "run_kept (sv_coordinator s) c'" "projection_ok c'" "has_mode d (engine_config c')"
    and stop: "\<not> co_stopping (sv_coordinator s)"
    and free: "rejects (model_of (sv_coordinator s)) d \<Longrightarrow> um_find (co_active (sv_coordinator s)) d = None"
    and s': "sv_coordinator s' = c'" "sv_workers s' = sv_workers s"
      "\<And>t. WT_returned (Inr t) \<in> set (sv_waiters s') \<Longrightarrow> WT_returned (Inr t) \<in> set (sv_waiters s)"
  shows "service_inv s'"
proof -
  note f = accepted_into_fields [OF into]
  have out: "outstanding s' = add_mset a (outstanding s)" by (simp add: outstanding_def s' f)
  have none: "domain_of b \<noteq> d" if "b \<in># outstanding s" "rejects (model_of (sv_coordinator s)) d" for b
    using inv free [OF that(2)] that by (auto simp: service_inv_def)
  have empty: "{#b \<in># outstanding s. domain_of b = d#} = {#}" if "rejects (model_of (sv_coordinator s)) d"
    using none [OF _ that] by (auto simp: filter_mset_eq_conv)
  have active: "\<exists>b \<in># outstanding s'. at_id b = i \<and> domain_of b = e" if "um_find (co_active c') e = Some i" for e i
    using that inv d by (auto simp: f out service_inv_def split: if_splits)
  have one: "size {#b \<in># outstanding s'. domain_of b = e#} \<le> 1" if "rejects (model_of (sv_coordinator s)) e" for e
    using that inv d empty by (auto simp: out service_inv_def)
  have mine: "um_find (co_active c') (domain_of b) = Some (at_id b)"
    if "b \<in># outstanding s'" "rejects (model_of (sv_coordinator s)) (domain_of b)" for b
    using that inv d none by (auto simp: f out service_inv_def)
  have modes: "has_mode (domain_of b) (engine_config c')" if "b \<in># outstanding s'" for b
    using that inv d run(3) run_kept_mode [OF run(1)] by (auto simp: out service_inv_def)
  have "\<forall>t. WT_returned (Inr t) \<in> set (sv_waiters s') \<longrightarrow> IsTerminal (pt_phase t)"
    using inv s'(3) unfolding service_inv_def by blast
  with inv active one mine modes run(2) room stop show ?thesis
    unfolding service_inv_def [of s'] s' run_kept_model [OF run(1)] by (simp add: f service_inv_def)
qed

lemma service_inv_finish:
  assumes inv: "service_inv s" and a: "a \<in># outstanding s" and out: "outstanding s' = outstanding s - {#a#}"
    and rel: "same_tables (release_active (domain_of a) (at_id a) (sv_coordinator s)\<lparr>co_revision := n\<rparr>) (sv_coordinator s')"
    and run: "run_kept (sv_coordinator s) (sv_coordinator s')" "projection_ok (sv_coordinator s')"
    and ret: "WK_returned \<in> set (sv_workers s') \<Longrightarrow> WK_returned \<in> set (sv_workers s)"
    and waits: "\<And>t. WT_returned (Inr t) \<in> set (sv_waiters s') \<Longrightarrow> WT_returned (Inr t) \<in> set (sv_waiters s)"
  shows "service_inv s'"
proof -
  note f = same_tables_fields [OF rel]
  let ?c = "sv_coordinator s" and ?c' = "sv_coordinator s'"
  have fields: "co_queue ?c' = co_queue ?c" "co_queue_capacity ?c' = co_queue_capacity ?c"
    "co_subscriptions ?c' = co_subscriptions ?c" "co_stopping ?c' = co_stopping ?c" "co_recovering ?c' = co_recovering ?c"
    by (simp_all add: f release_active_def)
  have act: "um_find (co_active ?c') e = (if e = domain_of a \<and> um_find (co_active ?c) e = Some (at_id a) then None
      else um_find (co_active ?c) e)" for e
    by (auto simp: f release_active_def)
  have ok: "um_ok (co_active ?c')" using inv by (auto simp: f release_active_def service_inv_def)
  have sub: "b \<in># outstanding s" if "b \<in># outstanding s'" for b using that by (simp add: out in_diffD)
  have active: "\<exists>b \<in># outstanding s'. at_id b = i \<and> domain_of b = e" if "um_find (co_active ?c') e = Some i" for e i
  proof -
    have "um_find (co_active ?c) e = Some i" and ne: "e \<noteq> domain_of a \<or> i \<noteq> at_id a"
      using that by (auto simp: act split: if_splits)
    then obtain b where b: "b \<in># outstanding s" "at_id b = i" "domain_of b = e" using inv by (auto simp: service_inv_def)
    moreover have "b \<noteq> a" using ne b by auto
    ultimately show ?thesis by (auto simp: out in_diff_count intro!: bexI [of _ b])
  qed
  have one: "size {#b \<in># outstanding s'. domain_of b = e#} \<le> 1" if "rejects (model_of ?c) e" for e
  proof -
    have "size {#b \<in># outstanding s'. domain_of b = e#} \<le> size {#b \<in># outstanding s. domain_of b = e#}"
      unfolding out by (intro size_mset_mono multiset_filter_mono) simp
    then show ?thesis using that inv by (auto simp: service_inv_def intro: order_trans)
  qed
  have mine: "um_find (co_active ?c') (domain_of b) = Some (at_id b)"
    if b: "b \<in># outstanding s'" "rejects (model_of ?c) (domain_of b)" for b
  proof -
    have "domain_of b \<noteq> domain_of a"
    proof
      assume eq: "domain_of b = domain_of a"
      have "{#a, b#} \<subseteq># outstanding s" using b(1) a by (simp add: out insert_subset_eq_iff)
      then have "size {#x \<in># {#a, b#}. domain_of x = domain_of a#} \<le> size {#x \<in># outstanding s. domain_of x = domain_of a#}"
        by (intro size_mset_mono multiset_filter_mono)
      moreover have "size {#x \<in># outstanding s. domain_of x = domain_of a#} \<le> 1"
        using inv b(2) eq by (auto simp: service_inv_def)
      ultimately show False by (simp add: eq)
    qed
    then show ?thesis using inv sub [OF b(1)] b(2) by (simp add: act service_inv_def)
  qed
  have modes: "has_mode (domain_of b) (engine_config ?c')" if "b \<in># outstanding s'" for b
    using sub [OF that] inv run_kept_mode [OF run(1)] by (simp add: service_inv_def)
  have "\<forall>t. WT_returned (Inr t) \<in> set (sv_waiters s') \<longrightarrow> IsTerminal (pt_phase t)"
    using inv waits unfolding service_inv_def by blast
  with inv ok active one mine modes run(2) ret show ?thesis
    unfolding service_inv_def [of s'] run_kept_model [OF run(1)] by (simp add: fields service_inv_def)
qed

lemma outstanding_worker:
  assumes "k < length (sv_workers s)" "sv_workers s' = (sv_workers s)[k := x]"
  shows "outstanding s' + held (sv_workers s ! k) + mset (co_queue (sv_coordinator s)) =
         outstanding s + held x + mset (co_queue (sv_coordinator s'))"
  using held_update [OF assms(1), of x] by (simp add: outstanding_def assms(2) ac_simps)

lemma returned_update:
  "WK_returned \<in> set (ws[k := x]) \<Longrightarrow> x \<noteq> WK_returned \<Longrightarrow> WK_returned \<in> set ws"
  using set_update_subset_insert [of ws k x] by auto

lemma waiter_update:
  "WT_returned r \<in> set (ws[k := x]) \<Longrightarrow> WT_returned r \<in> set ws \<or> x = WT_returned r"
  using set_update_subset_insert [of ws k x] by auto

lemma Wait_check_terminal: "Wait_check env i c = (WT_returned (Inr t), c') \<Longrightarrow> IsTerminal (pt_phase t)"
  by (auto simp: Wait_check_def split: prod.splits sum.splits if_splits)

context steady_engine
begin

lemma TransitionState_kept:
  assumes "TransitionState env i c = (r, c')"
  shows "c' = c\<lparr>co_run := co_run c'\<rparr> \<and> run_kept c c'"
  using assms GetTransition_keeps [of i "co_run c" _ _ "run_engine (co_run c)"]
  by (auto simp: TransitionState_def Let_def split: prod.splits if_splits)

lemma Wait_check_kept:
  assumes "Wait_check env i c = (w, c')"
  shows "c' = c\<lparr>co_run := co_run c'\<rparr> \<and> run_kept c c'"
  using assms TransitionState_kept [of i c] by (auto simp: Wait_check_def Let_def split: prod.splits)

lemma CoordinatorSnapshot_kept:
  assumes "CoordinatorSnapshot env c = (r, c')"
  shows "c' = c\<lparr>co_run := co_run c'\<rparr> \<and> run_kept c c'"
  using assms Snapshot_keeps [of "co_run c" _ _ "run_engine (co_run c)"]
  by (auto simp: CoordinatorSnapshot_def Let_def split: prod.splits if_splits)

lemma Coordinator_Cancel_kept:
  assumes "Coordinator_Cancel env i c = Some (r, c')"
  shows "c' = c\<lparr>co_run := co_run c'\<rparr> \<and> run_kept c c'"
  using assms Cancel_keeps [of i "co_run c" _ _ "run_engine (co_run c)"]
  by (auto simp: Coordinator_Cancel_def split: if_splits Option.bind_splits)

lemma committed_at_keeps:
  "committed_at env d s = Some (m, s') \<Longrightarrow> keeps e0 (run_engine s) \<Longrightarrow> keeps e0 (run_engine s')"
  by (auto simp: committed_at_def split: prod.splits) (blast intro: Snapshot_keeps)

lemma Worker_execute_kept:
  assumes "Worker_execute env a c = Some (d, c')"
  shows "c' = c\<lparr>co_run := co_run c'\<rparr>" "run_kept c c'" "cm_accepted d = a"
proof -
  obtain m s1 r s2 m2 s3 where "committed_at env (domain_of a) (co_run c) = Some (m, s1)"
    "Execute env a s1 = Some (r, s2)" "committed_at env (domain_of a) s2 = Some (m2, s3)" "c' = c\<lparr>co_run := s3\<rparr>"
    "cm_accepted d = a"
    using assms by (auto simp: Worker_execute_def split: Option.bind_splits)
  note r = this
  show "c' = c\<lparr>co_run := co_run c'\<rparr>" "cm_accepted d = a" using r by simp_all
  show "run_kept c c'"
    using committed_at_keeps [OF r(3) Execute_keeps [OF r(2) committed_at_keeps [OF r(1) keeps_refl]]] r(4) by simp
qed

lemma Worker_finish_kept:
  assumes run: "Worker_finish env d c = (calls, c')" and ok: "projection_ok c"
  shows "same_tables (release_active (domain_of (cm_accepted d)) (at_id (cm_accepted d)) c\<lparr>co_revision := co_revision c + 1\<rparr>) c'"
    "run_kept c c'" "projection_ok c'"
proof -
  define c1 where "c1 = release_active (domain_of (cm_accepted d)) (at_id (cm_accepted d)) c"
  have r1: "co_run c1 = co_run c" "co_projected c1 = co_projected c" "co_revision c1 = co_revision c"
    by (simp_all add: c1_def release_active_def)
  have p1: "projection_ok c1" using ok by (simp add: projection_ok_def engine_config_def r1)
  obtain sn run1 where 1: "Snapshot env (co_run c1) = (sn, run1)" by fastforce
  have k: "keeps (run_engine (co_run c)) (run_engine run1)" using 1 by (rule Snapshot_keeps) (simp add: r1)
  have sn: "es_configuration sn = en_configuration (run_engine run1)" using 1 by (auto simp: Snapshot_def Let_def)
  have c': "c' = (refresh_projection env c1)\<lparr>co_revision := co_revision c + 1\<rparr>"
  proof -
    have "co_revision (refresh_projection env c1) = co_revision c"
      using r1 by (simp add: refresh_projection_def Let_def split: prod.split)
    then show ?thesis using run unfolding Worker_finish_def Let_def c1_def [symmetric] by auto
  qed
  show "same_tables (c1\<lparr>co_revision := co_revision c + 1\<rparr>) c'"
    using 1 by (auto simp: c' same_tables_def refresh_projection_def)
  show "run_kept c c'" using 1 k by (auto simp: c' refresh_projection_def r1)
  show "projection_ok c'"
    using 1 p1 sn by (auto simp: c' refresh_projection_def projection_ok_def engine_config_def)
qed

end

text \<open>A step that changes at most the engine, and other parts the invariant does not depend on.\<close>

lemma service_inv_run:
  assumes inv: "service_inv s" and c': "c' = (sv_coordinator s)\<lparr>co_run := co_run c'\<rparr>" and run: "run_kept (sv_coordinator s) c'"
  shows "service_inv (with_coordinator c' s)"
proof -
  have t: "same_tables (sv_coordinator s) c'" by (subst c') simp
  have p: "co_projected c' = co_projected (sv_coordinator s)" by (subst c') simp
  have "projection_ok c'" using inv projection_ok_kept [OF _ run p] by (simp add: service_inv_def)
  then show ?thesis
    using inv same_tables_fields [OF t] run
    by (intro service_inv_frame [OF inv]) (simp_all add: outstanding_def service_inv_def)
qed

lemma service_inv_waiters:
  assumes inv: "service_inv s" and "\<And>t. WT_returned (Inr t) \<in> set ws \<Longrightarrow>
      WT_returned (Inr t) \<in> set (sv_waiters s) \<or> IsTerminal (pt_phase t)"
  shows "service_inv (s\<lparr>sv_waiters := ws\<rparr>)"
  using inv assms(2) by (intro service_inv_frame [OF inv]) (auto simp: outstanding_def service_inv_def)

context steady_engine
begin

lemma service_inv_request:
  assumes inv: "service_inv s" and run: "Request env d m timeout (sv_coordinator s) = Some (r, calls, c)"
  shows "service_inv (with_coordinator c s)" "service_inv (add_calls calls (notify_all (with_coordinator c s)))"
proof -
  have ok: "projection_ok (sv_coordinator s)" using inv by (simp add: service_inv_def)
  have inv': "service_inv s'" if s': "sv_coordinator s' = c" "sv_workers s' = sv_workers s"
    "\<And>t. WT_returned (Inr t) \<in> set (sv_waiters s') \<Longrightarrow> WT_returned (Inr t) \<in> set (sv_waiters s)" for s' :: "'w Service"
    using run ok
  proof (cases rule: Request_outcome)
    case (refused e)
    note f = same_tables_fields [OF refused(3)]
    show ?thesis
      using inv f refused(4,5) s'(3) by (intro service_inv_frame [OF inv]) (auto simp: s'(1,2) outstanding_def service_inv_def)
  next
    case (accepted a D)
    show ?thesis
      using accepted s'
      by (intro service_inv_accept [OF inv accepted(3,7,2,5,6,9,12)]) (auto simp: rejects_def)
  qed
  show "service_inv (with_coordinator c s)" by (rule inv') simp_all
  show "service_inv (add_calls calls (notify_all (with_coordinator c s)))" by (rule inv') simp_all
qed

lemma service_inv_worker:
  assumes inv: "service_inv s" and k: "k < length (sv_workers s)" and x: "x \<noteq> WK_returned"
    and c: "same_tables (sv_coordinator s\<lparr>co_queue := q\<rparr>) c" "run_kept (sv_coordinator s) c"
      "co_projected c = co_projected (sv_coordinator s)"
    and q: "mset (co_queue (sv_coordinator s)) + held (sv_workers s ! k) = mset q + held x"
      "length q \<le> length (co_queue (sv_coordinator s))"
  shows "service_inv (with_coordinator c (s\<lparr>sv_workers := (sv_workers s)[k := x]\<rparr>))"
proof -
  note f = same_tables_fields [OF c(1)]
  let ?s = "with_coordinator c (s\<lparr>sv_workers := (sv_workers s)[k := x]\<rparr>)"
  have "outstanding ?s = outstanding s"
    using outstanding_worker [OF k, of ?s x] q(1) f by (simp add: ac_simps) (metis add.assoc add_left_cancel union_commute)
  moreover have "projection_ok c" using inv projection_ok_kept [OF _ c(2,3)] by (simp add: service_inv_def)
  moreover have "\<forall>a \<in># outstanding s. has_mode (domain_of a) (engine_config c)"
    using inv run_kept_mode [OF c(2)] by (simp add: service_inv_def)
  moreover have "co_stopping (sv_coordinator s) \<and> q = []" if "WK_returned \<in> set ((sv_workers s)[k := x])"
    using returned_update [OF that x] inv q(2) by (simp add: service_inv_def)
  ultimately show ?thesis
    using inv q(2) unfolding service_inv_def [of ?s] run_kept_model [OF c(2)] by (simp add: f service_inv_def run_kept_model [OF c(2)])
qed

lemma service_inv_returns:
  assumes inv: "service_inv s" and k: "k < length (sv_workers s)" "sv_workers s ! k = WK_idle"
    and take: "Worker_take (sv_coordinator s) = (T_return, c)"
  shows "service_inv (s\<lparr>sv_workers := (sv_workers s)[k := WK_returned]\<rparr>)" (is "service_inv ?s")
proof -
  have "co_stopping (sv_coordinator s) \<and> co_queue (sv_coordinator s) = []"
    using take by (auto simp: Worker_take_def split: list.splits if_splits)
  moreover have "outstanding ?s = outstanding s" using outstanding_worker [OF k(1), of ?s WK_returned] k(2) by simp
  ultimately show ?thesis using inv by (intro service_inv_frame [OF inv]) (auto simp: service_inv_def)
qed

lemma service_inv_takes:
  assumes inv: "service_inv s" and k: "k < length (sv_workers s)" "sv_workers s ! k = WK_idle"
    and take: "Worker_take (sv_coordinator s) = (T_transition a, c)"
  shows "service_inv (with_coordinator c (s\<lparr>sv_workers := (sv_workers s)[k := WK_taken a]\<rparr>))"
proof -
  obtain q where q: "co_queue (sv_coordinator s) = a # q" "c = (sv_coordinator s)\<lparr>co_queue := q\<rparr>"
    using take by (auto simp: Worker_take_def split: list.splits if_splits)
  show ?thesis by (rule service_inv_worker [OF inv k(1), where q = q]) (simp_all add: q k(2))
qed

lemma service_inv_executes:
  assumes inv: "service_inv s" and k: "k < length (sv_workers s)" "sv_workers s ! k = WK_taken a"
    and run: "Worker_execute env a (sv_coordinator s) = Some (d, c)"
  shows "service_inv (with_coordinator c (s\<lparr>sv_workers := (sv_workers s)[k := WK_done d]\<rparr>))"
proof -
  note e = Worker_execute_kept [OF run]
  have p: "co_projected c = co_projected (sv_coordinator s)" by (subst e(1)) simp
  have t: "same_tables (sv_coordinator s\<lparr>co_queue := co_queue (sv_coordinator s)\<rparr>) c" by (subst e(1)) simp
  show ?thesis by (rule service_inv_worker [OF inv k(1) _ t e(2) p]) (simp_all add: k(2) e(3))
qed

lemma service_inv_finishes:
  assumes inv: "service_inv s" and k: "k < length (sv_workers s)" "sv_workers s ! k = WK_done d"
    and run: "Worker_finish env d (sv_coordinator s) = (calls, c)"
  shows "service_inv (add_calls calls (notify_all (with_coordinator c (s\<lparr>sv_workers := (sv_workers s)[k := WK_idle]\<rparr>))))"
    (is "service_inv ?s")
proof -
  have ok: "projection_ok (sv_coordinator s)" using inv by (simp add: service_inv_def)
  note f = Worker_finish_kept [OF run ok]
  have queue: "co_queue c = co_queue (sv_coordinator s)" by (simp add: same_tables_fields(3) [OF f(1)] release_active_def)
  have out: "outstanding s = add_mset (cm_accepted d) (outstanding ?s)"
    using outstanding_worker [OF k(1), of ?s WK_idle] k(2) queue by simp
  show ?thesis
  proof (rule service_inv_finish [OF inv, where a = "cm_accepted d"])
    show "same_tables (release_active (domain_of (cm_accepted d)) (at_id (cm_accepted d)) (sv_coordinator s)
        \<lparr>co_revision := co_revision (sv_coordinator s) + 1\<rparr>) (sv_coordinator ?s)"
      using f(1) by simp
  qed (use out f(2,3) returned_update in auto)
qed

lemma service_inv_subscription:
  assumes inv: "service_inv s" and len: "length m \<le> co_queue_capacity (sv_coordinator s)"
  shows "service_inv (with_coordinator (sv_coordinator s\<lparr>co_next_subscription := n, co_subscriptions := m\<rparr>) s)"
    "service_inv (with_coordinator (sv_coordinator s\<lparr>co_subscriptions := m\<rparr>) s)"
  using inv len
  by (intro service_inv_frame [OF inv]; simp add: outstanding_def service_inv_def projection_ok_def engine_config_def)+

lemma service_inv_subscribe:
  assumes inv: "service_inv s" and run: "Subscribe flt handler (sv_coordinator s) = (r, c)"
  shows "service_inv (with_coordinator c s)"
proof (cases r)
  case (Inl e)
  then have "c = sv_coordinator s" using run by (auto simp: Subscribe_def Let_def split: if_splits option.splits)
  then show ?thesis using inv by (simp add: with_coordinator_def)
next
  case (Inr i)
  then obtain h where c: "c = (sv_coordinator s)\<lparr>co_next_subscription := i + 1,
      co_subscriptions := um_emplace i \<lparr>sb_filter = flt, sb_handler = h\<rparr> (co_subscriptions (sv_coordinator s))\<rparr>"
    and len: "length (co_subscriptions (sv_coordinator s)) < co_queue_capacity (sv_coordinator s)"
    using run by (auto simp: Subscribe_def Let_def split: if_splits option.splits)
  show ?thesis unfolding c using len by (intro service_inv_subscription [OF inv]) (simp add: um_emplace_def)
qed

lemma service_inv_unsubscribe:
  assumes inv: "service_inv s"
  shows "service_inv (with_coordinator (unsubscribe i (sv_coordinator s)) s)"
  unfolding unsubscribe_def
  using inv le_trans [OF length_filter_le]
  by (intro service_inv_subscription(2) [OF inv]) (auto simp: um_erase_def service_inv_def)

lemma service_inv_shutdown:
  assumes inv: "service_inv s"
  shows "service_inv (notify_all (with_coordinator (Shutdown (sv_coordinator s)) s))"
  using inv
  by (intro service_inv_frame [OF inv]) (auto simp: Shutdown_def outstanding_def service_inv_def projection_ok_def engine_config_def)

lemma service_inv_checks:
  assumes inv: "service_inv s" and run: "Wait_check env i (sv_coordinator s) = (w, c)"
  shows "service_inv (with_coordinator c (s\<lparr>sv_waiters := (sv_waiters s)[k := w]\<rparr>))"
proof -
  have "service_inv (with_coordinator c s)" using Wait_check_kept [OF run] service_inv_run [OF inv] by blast
  then have "service_inv ((with_coordinator c s)\<lparr>sv_waiters := (sv_waiters s)[k := w]\<rparr>)"
    using Wait_check_terminal [of env i "sv_coordinator s"] run
    by (intro service_inv_waiters) (auto dest!: waiter_update)
  moreover have "(with_coordinator c s)\<lparr>sv_waiters := x\<rparr> = with_coordinator c (s\<lparr>sv_waiters := x\<rparr>)" for x
    by (cases s) (simp add: with_coordinator_def)
  ultimately show ?thesis by simp
qed

lemma service_inv_waiter_moves:
  assumes inv: "service_inv s" and "\<And>t. w \<noteq> WT_returned (Inr t)"
  shows "service_inv (s\<lparr>sv_waiters := (sv_waiters s)[k := w]\<rparr>)"
  using assms(2) by (intro service_inv_waiters [OF inv]) (auto dest!: waiter_update)

lemma service_step_inv:
  assumes "service_step env s s'" and inv: "service_inv s"
  shows "service_inv s'"
  using assms(1)
proof cases
  case (accepted d m timeout i calls c)
  show ?thesis unfolding accepted(1) by (rule service_inv_request(2) [OF inv accepted(2)])
next
  case (refused d m timeout e calls c)
  show ?thesis unfolding refused(1) by (rule service_inv_request(1) [OF inv refused(2)])
next
  case (cancel i r c)
  then show ?thesis using Coordinator_Cancel_kept [OF cancel(2)] service_inv_run [OF inv] by blast
next
  case (observe r c)
  then show ?thesis using CoordinatorSnapshot_kept [OF observe(2)] service_inv_run [OF inv] by blast
next
  case (wait_begins handle)
  show ?thesis unfolding wait_begins(1)
    by (rule service_inv_waiters [OF inv]) (auto simp: Transition_Wait_def split: option.splits)
qed (use service_inv_subscribe [OF inv] service_inv_unsubscribe [OF inv] service_inv_shutdown [OF inv]
    service_inv_returns [OF inv] service_inv_takes [OF inv] service_inv_executes [OF inv] service_inv_finishes [OF inv]
    service_inv_checks [OF inv] service_inv_waiter_moves [OF inv] in
    \<open>simp_all add: Wait_timeout_def Wait_wake_def\<close>)

lemma service_run_inv:
  "service_run env s s' \<Longrightarrow> service_inv s \<Longrightarrow> service_inv s'"
  by (induction rule: service_run.induct) (auto intro: service_step_inv)

end

section \<open>Properties of the service\<close>

lemma service_inv_created:
  assumes "CoordinatorFactory_Create env engine permissions capacity workers fits = Inr s"
  shows "service_inv s"
proof -
  obtain run where s: "s = \<lparr>sv_coordinator = CoordinatorService env run permissions capacity,
      sv_workers = replicate workers WK_idle, sv_waiters = [], sv_calls = []\<rparr>"
    using assms by (auto simp: CoordinatorFactory_Create_def split: option.splits if_splits)
  obtain sn run1 where 1: "Snapshot env run = (sn, run1)" by fastforce
  then have "es_configuration sn = en_configuration (run_engine run1)" by (auto simp: Snapshot_def Let_def)
  moreover have "outstanding s = {#}"
    unfolding outstanding_def using held_replicate_idle [of workers] 1 by (simp add: s CoordinatorService_def)
  ultimately show ?thesis
    using 1 by (simp add: service_inv_def) (simp add: s CoordinatorService_def projection_ok_def engine_config_def)
qed

lemma service_reachable:
  assumes "steady_engine env" and "CoordinatorFactory_Create env engine permissions capacity workers fits = Inr s0"
    and "service_run env s0 s"
  shows "service_inv s"
  using steady_engine.service_run_inv [OF assms(1,3)] service_inv_created [OF assms(2)] by blast

lemma service_run_fixed:
  "service_run env s s' \<Longrightarrow> length (sv_workers s') = length (sv_workers s)"
proof (induction rule: service_run.induct)
  case (step s s' s'')
  from step.hyps(2) have "length (sv_workers s'') = length (sv_workers s')"
    by cases simp_all
  then show ?case using step.IH by simp
qed simp

text \<open>C5: the service under every interleaving of clients, workers and waiting calls. The queue and the
  subscriptions stay within the configured capacity; every active transition is queued or in the hands
  of a worker; a domain that rejects requests while it is busy never has more than one
  unfinished transition, which is the one recorded as active; and a call of \<open>Wait\<close> only returns a
  transition in a final phase.\<close>

theorem coordinator_service_safe:
  assumes "steady_engine env" and "CoordinatorFactory_Create env engine permissions capacity workers fits = Inr s0"
    and "service_run env s0 s"
  shows "length (co_queue (sv_coordinator s)) \<le> co_queue_capacity (sv_coordinator s) \<and>
     length (co_subscriptions (sv_coordinator s)) \<le> co_queue_capacity (sv_coordinator s) \<and>
     (\<forall>d i. um_find (co_active (sv_coordinator s)) d = Some i \<longrightarrow>
        (\<exists>a \<in># outstanding s. at_id a = i \<and> domain_of a = d)) \<and>
     (\<forall>d. rejects (model_of (sv_coordinator s)) d \<longrightarrow> size {#a \<in># outstanding s. domain_of a = d#} \<le> 1 \<and>
        (\<forall>a \<in># outstanding s. domain_of a = d \<longrightarrow> um_find (co_active (sv_coordinator s)) d = Some (at_id a))) \<and>
     (\<forall>t. WT_returned (Inr t) \<in> set (sv_waiters s) \<longrightarrow> IsTerminal (pt_phase t))"
  using service_reachable [OF assms] unfolding service_inv_def by blast

text \<open>C38: shutting down loses no accepted transition: once every worker has returned, the queue is empty, no
  transition is in execution and no domain is left marked as busy.\<close>

theorem shutdown_drains:
  assumes "steady_engine env" and "CoordinatorFactory_Create env engine permissions capacity workers fits = Inr s0"
    and "service_run env s0 s" and "set (sv_workers s) \<subseteq> {WK_returned}"
  shows "outstanding s = {#} \<and> co_active (sv_coordinator s) = [] \<and> co_stopping (sv_coordinator s)"
proof -
  have inv: "service_inv s" by (rule service_reachable [OF assms(1-3)])
  have "workers \<noteq> 0 \<and> sv_workers s0 = replicate workers WK_idle"
    using assms(2) by (auto simp: CoordinatorFactory_Create_def split: option.splits if_splits)
  then have "sv_workers s \<noteq> []" using service_run_fixed [OF assms(3)] by auto
  then have "WK_returned \<in> set (sv_workers s)" using assms(4) by (cases "sv_workers s") auto
  then have q: "co_queue (sv_coordinator s) = []" "co_stopping (sv_coordinator s)" using inv by (auto simp: service_inv_def)
  have "held w = {#}" if "w \<in> set (sv_workers s)" for w using that assms(4) by auto
  then have out: "outstanding s = {#}" using q(1) by (simp add: outstanding_def)
  then have "um_find (co_active (sv_coordinator s)) d = None" for d
    using inv by (auto simp: service_inv_def intro: ccontr)
  then have "map_of (co_active (sv_coordinator s)) = Map.empty" by (auto simp: um_find_def fun_eq_iff)
  then have "co_active (sv_coordinator s) = []" by simp
  with out q(2) show ?thesis by simp
qed

text \<open>A worker reads the committed mode of its transition's domain with \<open>at\<close>, which throws, and with
  it ends the program, when there is none. It always finds one before the execution, and again after it.\<close>

theorem worker_never_throws:
  assumes env: "steady_engine env" and "CoordinatorFactory_Create env engine permissions capacity workers fits = Inr s0"
    and "service_run env s0 s" and "WK_taken a \<in> set (sv_workers s)"
  shows "committed_at env (domain_of a) (co_run (sv_coordinator s)) \<noteq> None \<and>
    (\<forall>m run r run'. committed_at env (domain_of a) (co_run (sv_coordinator s)) = Some (m, run) \<longrightarrow>
       Execute env a run = Some (r, run') \<longrightarrow> committed_at env (domain_of a) run' \<noteq> None)"
proof -
  have "service_inv s" by (rule service_reachable [OF assms(1-3)])
  moreover have "a \<in># outstanding s" using assms(4) by (force simp: outstanding_def)
  ultimately have m: "has_mode (domain_of a) (engine_config (sv_coordinator s))" by (simp add: service_inv_def)
  have found: "committed_at env (domain_of a) run \<noteq> None"
    if "has_mode (domain_of a) (en_configuration (run_engine run))" for run
    using that steady_engine.lock_keeps [OF env keeps_refl, of run]
    by (auto simp: committed_at_def Snapshot_def Let_def has_mode_def keeps_def)
  have "has_mode (domain_of a) (en_configuration (run_engine run'))"
    if "committed_at env (domain_of a) (co_run (sv_coordinator s)) = Some (x, run)" "Execute env a run = Some (r, run')" for x run r run'
    using steady_engine.Execute_keeps [OF env that(2) steady_engine.committed_at_keeps [OF env that(1) keeps_refl]] m
    by (simp add: has_mode_def keeps_def engine_config_def)
  then show ?thesis using found m by (simp add: engine_config_def)
qed

section \<open>Runs\<close>

text \<open>The steps as actions that can be carried out, to exhibit runs of the service.\<close>

datatype Action =
    A_request DomainId ModeId int | A_worker nat | A_waiter nat | A_begin_wait "TransitionId option" | A_shutdown

definition act_request :: "'w Environment \<Rightarrow> DomainId \<Rightarrow> ModeId \<Rightarrow> int \<Rightarrow> 'w Service \<Rightarrow> 'w Service option" where
  "act_request env d m timeout s =
     (case Request env d m timeout (sv_coordinator s) of
        None \<Rightarrow> None
      | Some (Inl e, calls, c) \<Rightarrow> Some (with_coordinator c s)
      | Some (Inr i, calls, c) \<Rightarrow> Some (add_calls calls (notify_all (with_coordinator c s))))"

definition act_worker :: "'w Environment \<Rightarrow> nat \<Rightarrow> 'w Service \<Rightarrow> 'w Service option" where
  "act_worker env k s =
     (if k \<ge> length (sv_workers s) then None
      else case sv_workers s ! k of
        WK_idle \<Rightarrow>
          (case Worker_take (sv_coordinator s) of
             (T_transition a, c) \<Rightarrow> Some (with_coordinator c (s\<lparr>sv_workers := (sv_workers s)[k := WK_taken a]\<rparr>))
           | (T_return, c) \<Rightarrow> Some (s\<lparr>sv_workers := (sv_workers s)[k := WK_returned]\<rparr>)
           | (T_wait, c) \<Rightarrow> None)
      | WK_taken a \<Rightarrow>
          (case Worker_execute env a (sv_coordinator s) of
             None \<Rightarrow> None
           | Some (d, c) \<Rightarrow> Some (with_coordinator c (s\<lparr>sv_workers := (sv_workers s)[k := WK_done d]\<rparr>)))
      | WK_done d \<Rightarrow>
          (case Worker_finish env d (sv_coordinator s) of
             (calls, c) \<Rightarrow>
               Some (add_calls calls (notify_all (with_coordinator c (s\<lparr>sv_workers := (sv_workers s)[k := WK_idle]\<rparr>)))))
      | WK_returned \<Rightarrow> None)"

definition act_waiter :: "'w Environment \<Rightarrow> nat \<Rightarrow> 'w Service \<Rightarrow> 'w Service option" where
  "act_waiter env k s =
     (if k \<ge> length (sv_waiters s) then None
      else case sv_waiters s ! k of
        WT_check i \<Rightarrow>
          (case Wait_check env i (sv_coordinator s) of
             (w, c) \<Rightarrow> Some (with_coordinator c (s\<lparr>sv_waiters := (sv_waiters s)[k := w]\<rparr>)))
      | WT_checked i \<Rightarrow> Some (s\<lparr>sv_waiters := (sv_waiters s)[k := WT_blocked i]\<rparr>)
      | WT_notified i \<Rightarrow> Some (s\<lparr>sv_waiters := (sv_waiters s)[k := Wait_wake i (sv_coordinator s)]\<rparr>)
      | _ \<Rightarrow> None)"

fun act :: "'w Environment \<Rightarrow> Action \<Rightarrow> 'w Service \<Rightarrow> 'w Service option" where
  "act env (A_request d m timeout) s = act_request env d m timeout s"
| "act env (A_worker k) s = act_worker env k s"
| "act env (A_waiter k) s = act_waiter env k s"
| "act env (A_begin_wait handle) s = Some (s\<lparr>sv_waiters := sv_waiters s @ [Transition_Wait handle]\<rparr>)"
| "act env A_shutdown s = Some (notify_all (with_coordinator (Shutdown (sv_coordinator s)) s))"

fun script :: "'w Environment \<Rightarrow> Action list \<Rightarrow> 'w Service \<Rightarrow> 'w Service option" where
  "script env [] s = Some s"
| "script env (a # as) s = (case act env a s of None \<Rightarrow> None | Some s \<Rightarrow> script env as s)"

lemma act_step: "act env a s = Some s' \<Longrightarrow> service_step env s s'"
proof (cases a)
  case (A_request d m timeout)
  then show "act env a s = Some s' \<Longrightarrow> service_step env s s'"
    by (auto simp: act_request_def split: option.splits prod.splits sum.splits intro: service_step.accepted service_step.refused)
next
  case (A_worker k)
  then show "act env a s = Some s' \<Longrightarrow> service_step env s s'"
    by (auto simp: act_worker_def not_le split: if_splits Worker.splits prod.splits Taken.splits option.splits
        intro: service_step.worker_takes service_step.worker_returns service_step.worker_executes service_step.worker_finishes)
next
  case (A_waiter k)
  then show "act env a s = Some s' \<Longrightarrow> service_step env s s'"
    by (auto simp: act_waiter_def not_le split: if_splits Waiter.splits prod.splits
        intro: service_step.wait_checks service_step.wait_blocks service_step.wait_wakes)
qed (auto intro: service_step.wait_begins service_step.shutdown)

lemma service_run_first: "service_step env s s1 \<Longrightarrow> service_run env s1 s' \<Longrightarrow> service_run env s s'"
  by (rotate_tac, induction rule: service_run.induct) (auto intro: service_run.intros)

lemma script_run: "script env as s = Some s' \<Longrightarrow> service_run env s s'"
  by (induction as arbitrary: s) (auto split: option.splits intro: service_run.start service_run_first act_step)

definition full_access :: CoordinatorPermissions where
  "full_access = \<lparr>cp_observe = True, cp_mutate = True\<rparr>"

text \<open>A service on an engine for the given model, and what a script makes of it.\<close>

definition demo_service :: "ExecutionModel \<Rightarrow> nat \<Rightarrow> nat \<Rightarrow> (FakeWorld Service, Error) result" where
  "demo_service model capacity workers =
     CoordinatorFactory_Create fake_env (fake_session model fake_world Some) full_access capacity workers True"

definition demo :: "ExecutionModel \<Rightarrow> nat \<Rightarrow> nat \<Rightarrow> Action list \<Rightarrow> FakeWorld Service option" where
  "demo model capacity workers as =
     (case demo_service model capacity workers of Inl _ \<Rightarrow> None | Inr s \<Rightarrow> script fake_env as s)"

lemma demo_run:
  assumes "demo model capacity workers as = Some s"
  obtains s0 where "demo_service model capacity workers = Inr s0" "service_run fake_env s0 s"
  using assms by (auto simp: demo_def split: sum.splits intro: script_run)

lemma demo_observed:
  assumes "map_option f (demo model capacity workers as) = Some x"
  obtains s0 s where "demo_service model capacity workers = Inr s0" "service_run fake_env s0 s" "f s = x"
  using assms by (auto elim: demo_run)

text \<open>\<open>coordinator_service_safe\<close> on a run with a transition in the queue and one in the hands of a worker.\<close>

definition rejecting_model :: ExecutionModel where
  "rejecting_model = example_model\<lparr>em_domains := map (\<lambda>d. d\<lparr>dd_replacement := RP_reject_while_busy\<rparr>) (em_domains example_model)\<rparr>"

definition queueing_model :: ExecutionModel where
  "queueing_model = example_model\<lparr>em_domains := map (\<lambda>d. d\<lparr>dd_replacement := RP_queue\<rparr>) (em_domains example_model)\<rparr>"

lemma rejecting_run:
  "map_option (\<lambda>s. (map at_id (co_queue (sv_coordinator s)), sv_workers s, co_active (sv_coordinator s),
       sv_waiters s, map_option dd_replacement (FindDomain (model_of (sv_coordinator s)) 1)))
     (demo rejecting_model 2 1 [A_request 1 2 1000, A_request 1 3 1000, A_begin_wait (Some 1)]) =
   Some ([1], [WK_idle], [(1, 1)], [WT_check 1], Some RP_reject_while_busy)"
  by code_simp

theorem coordinator_service_safe_witness:
  "\<exists>s0 s. CoordinatorFactory_Create fake_env (fake_session rejecting_model fake_world Some) full_access 2 1 True = Inr s0 \<and>
     service_run fake_env s0 s \<and> rejects (model_of (sv_coordinator s)) 1 \<and> map at_id (co_queue (sv_coordinator s)) = [1] \<and>
     size {#a \<in># outstanding s. domain_of a = 1#} \<le> 1"
proof -
  obtain s0 s where s: "demo_service rejecting_model 2 1 = Inr s0" "service_run fake_env s0 s"
    "(map at_id (co_queue (sv_coordinator s)), sv_workers s, co_active (sv_coordinator s), sv_waiters s,
      map_option dd_replacement (FindDomain (model_of (sv_coordinator s)) 1)) =
     ([1], [WK_idle], [(1, 1)], [WT_check 1], Some RP_reject_while_busy)"
    by (rule demo_observed [OF rejecting_run])
  have r: "rejects (model_of (sv_coordinator s)) 1" using s(3) by (auto simp: rejects_def)
  show ?thesis
    using coordinator_service_safe [OF fake.steady_engine_axioms s(1) [unfolded demo_service_def] s(2)] s r
    unfolding demo_service_def by (intro exI [of _ s0] exI [of _ s]) auto
qed

text \<open>\<open>shutdown_drains\<close>: a request, the shutdown, and the worker drains the queue before it returns.\<close>

lemma draining_run:
  "map_option (\<lambda>s. (sv_workers s, co_revision (sv_coordinator s)))
     (demo example_model 2 1 [A_request 1 2 1000, A_shutdown, A_worker 0, A_worker 0, A_worker 0, A_worker 0]) =
   Some ([WK_returned], 3)"
  by code_simp

theorem shutdown_drains_witness:
  "\<exists>s0 s. CoordinatorFactory_Create fake_env (fake_session example_model fake_world Some) full_access 2 1 True = Inr s0 \<and>
     service_run fake_env s0 s \<and> sv_workers s = [WK_returned] \<and> outstanding s = {#}"
proof -
  obtain s0 s where s: "demo_service example_model 2 1 = Inr s0" "service_run fake_env s0 s"
    "(sv_workers s, co_revision (sv_coordinator s)) = ([WK_returned], 3)"
    by (rule demo_observed [OF draining_run])
  then show ?thesis
    using shutdown_drains [OF fake.steady_engine_axioms s(1) [unfolded demo_service_def] s(2)]
    unfolding demo_service_def by (intro exI [of _ s0] exI [of _ s]) auto
qed

lemma taken_run:
  "map_option (\<lambda>s. map_option at_id (case sv_workers s of [WK_taken a] \<Rightarrow> Some a | _ \<Rightarrow> None))
     (demo example_model 2 1 [A_request 1 2 1000, A_worker 0]) = Some (Some 1)"
  by code_simp

theorem worker_never_throws_witness:
  "\<exists>s0 s a. CoordinatorFactory_Create fake_env (fake_session example_model fake_world Some) full_access 2 1 True = Inr s0 \<and>
     service_run fake_env s0 s \<and> WK_taken a \<in> set (sv_workers s) \<and>
     committed_at fake_env (domain_of a) (co_run (sv_coordinator s)) \<noteq> None"
proof -
  obtain s0 s where s: "demo_service example_model 2 1 = Inr s0" "service_run fake_env s0 s"
    "map_option at_id (case sv_workers s of [WK_taken a] \<Rightarrow> Some a | _ \<Rightarrow> None) = Some 1"
    by (rule demo_observed [OF taken_run])
  then obtain a where a: "WK_taken a \<in> set (sv_workers s)" by (auto split: list.splits Worker.splits)
  show ?thesis
    using worker_never_throws [OF fake.steady_engine_axioms s(1) [unfolded demo_service_def] s(2) a] s(1,2) a
    unfolding demo_service_def by blast
qed

section \<open>Waiting, queueing and superseding\<close>

text \<open>\<open>Wait\<close> looks at the transition without the mutex and takes the mutex afterwards. A completion
  between the two notifies nobody: a reachable state has the transition succeeded, no unfinished
  transition left that could notify again, and the call blocked on the condition variable
  until its deadline.\<close>

theorem wait_misses_completion:
  "\<exists>s0 s. demo_service example_model 2 1 = Inr s0 \<and> service_run fake_env s0 s \<and>
     sv_waiters s = [WT_blocked 1] \<and> outstanding s = {#} \<and>
     map_sum id pt_phase (fst (TransitionState fake_env 1 (sv_coordinator s))) = Inr TP_succeeded"
proof -
  have "map_option (\<lambda>s. (sv_waiters s, sv_workers s, co_queue (sv_coordinator s),
        map_sum id pt_phase (fst (TransitionState fake_env 1 (sv_coordinator s)))))
      (demo example_model 2 1 [A_request 1 2 1000, A_begin_wait (Some 1), A_waiter 0, A_worker 0, A_worker 0, A_worker 0,
         A_waiter 0]) = Some ([WT_blocked 1], [WK_idle], [], Inr TP_succeeded)"
    by code_simp
  then show ?thesis by (rule demo_observed) (auto simp: outstanding_def)
qed

text \<open>Two workers can take two queued transitions of one domain and execute the second one first. It was
  planned on the outcome of the first, so it ends superseded, and the first one is
  carried out: the domain ends in the mode that was asked for first.\<close>

lemma queued_order_lost:
  "map_option (\<lambda>s. (map (\<lambda>w. case w of WK_done d \<Rightarrow> Some (map_sum id ts_phase (cm_completed d)) | _ \<Rightarrow> None) (sv_workers s),
       sc_committed_modes (engine_config (sv_coordinator s))))
     (demo queueing_model 2 2 [A_request 1 2 1000, A_request 1 3 1000, A_worker 0, A_worker 1, A_worker 1, A_worker 0]) =
   Some ([Some (Inr TP_succeeded), Some (Inr TP_superseded)], [(1, 2)]) \<and>
   map_option (\<lambda>s. (map (\<lambda>w. case w of WK_done d \<Rightarrow> Some (map_sum id ts_phase (cm_completed d)) | _ \<Rightarrow> None) (sv_workers s),
       sc_committed_modes (engine_config (sv_coordinator s))))
     (demo queueing_model 2 2 [A_request 1 2 1000, A_request 1 3 1000, A_worker 0, A_worker 1, A_worker 0, A_worker 1]) =
   Some ([Some (Inr TP_succeeded), Some (Inr TP_succeeded)], [(1, 3)])"
  by code_simp

text \<open>A request on a domain that supersedes cancels the active transition before it looks at the queue: when
  the queue is full it is refused as exhausted, although the active transition has been
  cancelled.\<close>

theorem refused_request_cancels:
  assumes "sole_user env" and "cp_mutate (co_permissions c)" and "0 < timeout" and "\<not> co_stopping c"
    and "FindDomain (model_of c) d = Some D" and "dd_replacement D = RP_supersede_if_safe"
    and "um_find (co_active c) d = Some i" and "co_queue_capacity c \<le> length (co_queue c)"
    and "Cancel env i (co_run c) = Some (Inr (), run)"
  shows "\<exists>c'. Request env d m timeout c =
       Some (Inl (MakeError EC_resource_exhausted ''coordinator transition queue is full'' 0), [], c') \<and>
     um_find (en_cancellation (run_engine (co_run c'))) i = Some True"
proof -
  have lock: "lock env s = s" for s using sole_user.lock_id [OF assms(1)] .
  have flag: "um_find (en_cancellation (run_engine run)) i = Some True"
    using assms(9) by (auto simp: Cancel_def lock Let_def split: option.splits if_splits)
  then show ?thesis
    using assms(2-9) by (simp add: Request_def replace_active_def Snapshot_def lock accept_request_def)
qed

lemma superseding_run:
  "map_option (\<lambda>s. let c = sv_coordinator s in
       (cp_mutate (co_permissions c), co_stopping c, map_option dd_replacement (FindDomain (model_of c) 1),
        um_find (co_active c) 1, co_queue_capacity c \<le> length (co_queue c), map_option fst (Cancel fake_env 1 (co_run c))))
     (demo example_model 1 1 [A_request 1 2 1000]) =
   Some (True, False, Some RP_supersede_if_safe, Some 1, True, Some (Inr ()))"
  by code_simp

theorem refused_request_cancels_witness:
  "\<exists>s0 s c'. demo_service example_model 1 1 = Inr s0 \<and> service_run fake_env s0 s \<and>
     Request fake_env 1 3 1000 (sv_coordinator s) =
       Some (Inl (MakeError EC_resource_exhausted ''coordinator transition queue is full'' 0), [], c') \<and>
     um_find (en_cancellation (run_engine (co_run c'))) 1 = Some True"
proof -
  obtain s0 s where s: "demo_service example_model 1 1 = Inr s0" "service_run fake_env s0 s"
    "(let c = sv_coordinator s in
       (cp_mutate (co_permissions c), co_stopping c, map_option dd_replacement (FindDomain (model_of c) 1),
        um_find (co_active c) 1, co_queue_capacity c \<le> length (co_queue c), map_option fst (Cancel fake_env 1 (co_run c)))) =
     (True, False, Some RP_supersede_if_safe, Some 1, True, Some (Inr ()))"
    by (rule demo_observed [OF superseding_run])
  then obtain D run where "FindDomain (model_of (sv_coordinator s)) 1 = Some D" "dd_replacement D = RP_supersede_if_safe"
    "Cancel fake_env 1 (co_run (sv_coordinator s)) = Some (Inr (), run)"
    by (auto simp: Let_def)
  then show ?thesis
    using refused_request_cancels [OF fake.sole_user_axioms, of "sv_coordinator s" 1000 1 D 1 run 3] s by (auto simp: Let_def)
qed

section \<open>The coordinator carries out the engine's requests\<close>

text \<open>One request on an idle service, carried out by one worker.\<close>

definition serve ::
  "'w Environment \<Rightarrow> DomainId \<Rightarrow> ModeId \<Rightarrow> int \<Rightarrow> 'w Coordinator
     \<Rightarrow> ((TransitionSnapshot, Error) result \<times> 'w Coordinator) option" where
  "serve env d m timeout c =
     do {
       (r, calls, c) \<leftarrow> Request env d m timeout c;
       (case r of
          Inl e \<Rightarrow> Some (Inl e, c)
        | Inr i \<Rightarrow>
            (case Worker_take c of
               (T_transition a, c) \<Rightarrow>
                 do { (fin, c) \<leftarrow> Worker_execute env a c; Some (cm_completed fin, snd (Worker_finish env fin c)) }
             | _ \<Rightarrow> None))
     }"

definition idle :: "'w Coordinator \<Rightarrow> bool" where
  "idle c \<longleftrightarrow> co_queue c = [] \<and> co_active c = [] \<and> \<not> co_stopping c \<and> 0 < co_queue_capacity c"

context sole_user
begin

lemma Snapshot_same: "Snapshot env s = (sn, s') \<longleftrightarrow> s' = s \<and> sn = fst (Snapshot env s)"
  by (auto simp: Snapshot_def Let_def)

lemma committed_at_same:
  "has_mode d (en_configuration (run_engine s)) \<Longrightarrow> \<exists>m. committed_at env d s = Some (m, s)"
  by (auto simp: committed_at_def Snapshot_def Let_def has_mode_def)

lemma serve_accepted:
  assumes c: "idle c" "cp_mutate (co_permissions c)" "0 < timeout" "FindDomain (model_of c) d \<noteq> None"
    and now: "in_world (env_now env) (co_run c) = (now, run)"
    and acc: "AcceptMode env d m (now + ms timeout) run = Some (Inr a, run1)"
    and exe: "Execute env a run1 = Some (r, run2)"
  shows "\<exists>c'. serve env d m timeout c = Some (r, c') \<and> co_run c' = run2 \<and> idle c' \<and> co_projected c' = engine_config c' \<and>
    co_revision c' = co_revision c + 2"
proof -
  obtain D where D: "FindDomain (model_of c) d = Some D" using c(4) by blast
  define c1 where "c1 = c\<lparr>co_run := run1, co_projected := project d m (at_plan a) (co_projected c), co_queue := [a],
      co_active := [(d, at_id a)], co_revision := co_revision c + 1\<rparr>"
  have req: "Request env d m timeout c = Some (Inr (at_id a), CollectHandlersLocked
      \<lparr>ce_kind = CE_transition_changed, ce_revision = co_revision c1, ce_transition = Some (at_id a), ce_domain = Some d\<rparr> c1, c1)"
    using c(1-3) D now acc by (simp add: Request_def idle_def accept_request_def c1_def Let_def)
  have take: "Worker_take c1 = (T_transition a, c1\<lparr>co_queue := []\<rparr>)" by (simp add: Worker_take_def c1_def)
  note a = AcceptMode_accepted [OF acc]
  then have m1: "has_mode (domain_of a) (en_configuration (run_engine run1))" by simp
  then have m2: "has_mode (domain_of a) (en_configuration (run_engine run2))"
    using Execute_keeps [OF exe keeps_refl] by (simp add: has_mode_def keeps_def)
  obtain x y where xy: "committed_at env (domain_of a) run1 = Some (x, run1)" "committed_at env (domain_of a) run2 = Some (y, run2)"
    using committed_at_same [OF m1] committed_at_same [OF m2] by blast
  define fin where "fin = \<lparr>cm_accepted = a, cm_before = x, cm_completed = r, cm_after = y\<rparr>"
  define c2 where "c2 = c1\<lparr>co_queue := [], co_run := run2\<rparr>"
  have run: "Worker_execute env a (c1\<lparr>co_queue := []\<rparr>) = Some (fin, c2)"
    using xy exe by (simp add: Worker_execute_def c2_def fin_def) (simp add: c1_def)
  define c3 where "c3 = snd (Worker_finish env fin c2)"
  have c3: "c3 = c2\<lparr>co_active := [], co_projected := en_configuration (run_engine run2), co_revision := co_revision c2 + 1\<rparr>"
    using a
    by (simp add: c3_def Worker_finish_def fin_def release_active_def refresh_projection_def Snapshot_def Let_def)
      (simp add: c2_def c1_def um_find_def um_erase_def)
  have "serve env d m timeout c = Some (r, c3)"
    using req take run by (simp add: serve_def c3_def) (simp add: fin_def)
  moreover have "co_run c3 = run2 \<and> idle c3 \<and> co_projected c3 = engine_config c3 \<and> co_revision c3 = co_revision c + 2"
    using c(1) unfolding c3 by (simp add: c2_def c1_def idle_def engine_config_def)
  ultimately show ?thesis by blast
qed

lemma serve_refused:
  assumes c: "idle c" "cp_mutate (co_permissions c)" "0 < timeout" "FindDomain (model_of c) d \<noteq> None"
    and now: "in_world (env_now env) (co_run c) = (now, run)"
    and acc: "AcceptMode env d m (now + ms timeout) run = Some (Inl e, run1)"
  shows "serve env d m timeout c = Some (Inl e, c\<lparr>co_run := run1\<rparr>)"
  using assms by (auto simp: serve_def Request_def idle_def accept_request_def)

end

text \<open>C23: the coordinator implements the engine's interface: on an idle coordinator a request for a domain of the model,
  served by one worker, gives the result \<open>RequestMode\<close> gives with the deadline the timeout stands for, and
  leaves the engine as \<open>RequestMode\<close> leaves it and the coordinator idle again, its
  projection being the engine's configuration whenever the transition was executed.\<close>

theorem coordinator_refines_engine:
  assumes env: "sole_user env" and c: "idle c" "cp_mutate (co_permissions c)" "0 < timeout" "FindDomain (model_of c) d \<noteq> None"
    and now: "in_world (env_now env) (co_run c) = (now, run)"
    and run: "RequestMode env d m (now + ms timeout) run = Some (r, run2)"
  shows "\<exists>c'. serve env d m timeout c = Some (r, c') \<and> co_run c' = run2 \<and> idle c' \<and>
    (co_revision c' \<noteq> co_revision c \<longrightarrow> co_projected c' = engine_config c')"
proof -
  obtain acc run1 where acc: "AcceptMode env d m (now + ms timeout) run = Some (acc, run1)"
    and rest: "(case acc of Inl e \<Rightarrow> Some (Inl e, run1) | Inr a \<Rightarrow> Execute env a run1) = Some (r, run2)"
    using run by (auto simp: RequestMode_def split: Option.bind_splits)
  show ?thesis
  proof (cases acc)
    case (Inl e)
    then show ?thesis
      using sole_user.serve_refused [OF env c now acc [unfolded Inl]] rest c(1) by (auto simp: idle_def)
  next
    case (Inr a)
    then have "Execute env a run1 = Some (r, run2)" using rest by simp
    from sole_user.serve_accepted [OF env c now acc [unfolded Inr] this] show ?thesis by blast
  qed
qed

lemma serving_run:
  "map_option (\<lambda>s. let c = sv_coordinator s; (now, run) = in_world (env_now fake_env) (co_run c) in
       (idle c, cp_mutate (co_permissions c), FindDomain (model_of c) 1 \<noteq> None,
        map_option (\<lambda>(r, run). map_sum id ts_phase r) (RequestMode fake_env 1 2 (now + ms 1000) run)))
     (demo example_model 2 1 []) = Some (True, True, True, Some (Inr TP_succeeded))"
  by code_simp

theorem coordinator_refines_engine_witness:
  "\<exists>s0 s r c'. demo_service example_model 2 1 = Inr s0 \<and> service_run fake_env s0 s \<and>
     serve fake_env 1 2 1000 (sv_coordinator s) = Some (r, c') \<and> map_sum id ts_phase r = Inr TP_succeeded \<and> idle c'"
proof -
  obtain s0 s where s: "demo_service example_model 2 1 = Inr s0" "service_run fake_env s0 s"
    "(let c = sv_coordinator s; (now, run) = in_world (env_now fake_env) (co_run c) in
       (idle c, cp_mutate (co_permissions c), FindDomain (model_of c) 1 \<noteq> None,
        map_option (\<lambda>(r, run). map_sum id ts_phase r) (RequestMode fake_env 1 2 (now + ms 1000) run))) =
     (True, True, True, Some (Inr TP_succeeded))"
    by (rule demo_observed [OF serving_run])
  obtain now run where now: "in_world (env_now fake_env) (co_run (sv_coordinator s)) = (now, run)" by fastforce
  then obtain r run2 where r: "RequestMode fake_env 1 2 (now + ms 1000) run = Some (r, run2)" "map_sum id ts_phase r = Inr TP_succeeded"
    using s(3) by (auto simp: Let_def)
  have "idle (sv_coordinator s)" "cp_mutate (co_permissions (sv_coordinator s))" "FindDomain (model_of (sv_coordinator s)) 1 \<noteq> None"
    using s(3) now by (auto simp: Let_def)
  then show ?thesis
    using coordinator_refines_engine [OF fake.sole_user_axioms, of "sv_coordinator s" 1000 1 now run 2 r run2] now r s(1,2) by auto
qed

section \<open>Snapshots and subscriptions\<close>

text \<open>The transition of a domain with the greatest number among those of a set.\<close>

definition is_latest :: "TransitionSnapshot set \<Rightarrow> DomainId \<Rightarrow> TransitionSnapshot option \<Rightarrow> bool" where
  "is_latest S d found \<longleftrightarrow>
     (case found of
        None \<Rightarrow> (\<forall>t \<in> S. ts_domain t \<noteq> d)
      | Some t \<Rightarrow> t \<in> S \<and> ts_domain t = d \<and> (\<forall>t' \<in> S. ts_domain t' = d \<longrightarrow> ts_id t' \<le> ts_id t))"

lemma note_latest_is_latest:
  assumes "\<forall>d. is_latest S d (um_find m d)"
  shows "\<forall>d. is_latest (insert t S) d (um_find (note_latest t m) d)"
proof
  fix d
  have d: "is_latest S d (um_find m d)" using assms by blast
  show "is_latest (insert t S) d (um_find (note_latest t m) d)"
  proof (cases "d = ts_domain t")
    case True
    with d show ?thesis
      by (cases "um_find m (ts_domain t)") (auto simp: note_latest_def is_latest_def)
  next
    case False
    with d show ?thesis by (auto simp: note_latest_def is_latest_def split: option.splits)
  qed
qed

lemma scan_transitions_latest:
  assumes "scan_transitions ts active failed = (A, F)"
    and "\<forall>d. is_latest S d (um_find active d)" and "\<forall>d. is_latest R d (um_find failed d)"
  shows "(\<forall>d. is_latest (S \<union> {t \<in> set ts. \<not> IsTerminal (ts_phase t)}) d (um_find A d)) \<and>
    (\<forall>d. is_latest (R \<union> {t \<in> set ts. IsTerminal (ts_phase t) \<and> ts_failure t \<noteq> None}) d (um_find F d))"
  using assms
proof (induction ts arbitrary: active failed S R)
  case (Cons t ts)
  note add = note_latest_is_latest [OF Cons.prems(2), of t] note_latest_is_latest [OF Cons.prems(3), of t]
  consider "\<not> IsTerminal (ts_phase t)" | "IsTerminal (ts_phase t)" "ts_failure t \<noteq> None"
    | "IsTerminal (ts_phase t)" "ts_failure t = None" by blast
  then show ?case
  proof cases
    case 1
    then have "{u \<in> set (t # ts). \<not> IsTerminal (ts_phase u)} = insert t {u \<in> set ts. \<not> IsTerminal (ts_phase u)}"
      "{u \<in> set (t # ts). IsTerminal (ts_phase u) \<and> ts_failure u \<noteq> None} = {u \<in> set ts. IsTerminal (ts_phase u) \<and> ts_failure u \<noteq> None}"
      by auto
    then show ?thesis using Cons.IH [OF _ add(1) Cons.prems(3)] Cons.prems(1) 1 by simp
  next
    case 2
    then have "{u \<in> set (t # ts). \<not> IsTerminal (ts_phase u)} = {u \<in> set ts. \<not> IsTerminal (ts_phase u)}"
      "{u \<in> set (t # ts). IsTerminal (ts_phase u) \<and> ts_failure u \<noteq> None} = insert t {u \<in> set ts. IsTerminal (ts_phase u) \<and> ts_failure u \<noteq> None}"
      by auto
    then show ?thesis using Cons.IH [OF _ Cons.prems(2) add(2)] Cons.prems(1) 2 by simp
  next
    case 3
    then have "{u \<in> set (t # ts). \<not> IsTerminal (ts_phase u)} = {u \<in> set ts. \<not> IsTerminal (ts_phase u)}"
      "{u \<in> set (t # ts). IsTerminal (ts_phase u) \<and> ts_failure u \<noteq> None} = {u \<in> set ts. IsTerminal (ts_phase u) \<and> ts_failure u \<noteq> None}"
      by auto
    then show ?thesis using Cons.IH [OF _ Cons.prems(2,3)] Cons.prems(1) 3 by simp
  qed
qed simp

lemma scan_transitions_start:
  assumes "scan_transitions ts [] [] = (A, F)"
  shows "is_latest {t \<in> set ts. \<not> IsTerminal (ts_phase t)} d (um_find A d)"
    and "is_latest {t \<in> set ts. IsTerminal (ts_phase t) \<and> ts_failure t \<noteq> None} d (um_find F d)"
  using scan_transitions_latest [OF assms, of "{}" "{}"] by (simp_all add: is_latest_def)

lemma domain_snapshot_report:
  assumes scan: "scan_transitions ts [] [] = (A, F)" and x: "x = domain_snapshot False modes A F D"
    and T: "T = {t \<in> set ts. ts_domain t = ed_id x}"
  shows "(ed_status x = DS_transitioning \<longleftrightarrow> (\<exists>t \<in> T. \<not> IsTerminal (ts_phase t))) \<and>
    (ed_status x = DS_degraded \<longleftrightarrow> (\<forall>t \<in> T. IsTerminal (ts_phase t)) \<and> (\<exists>t \<in> T. ts_failure t \<noteq> None)) \<and>
    (ed_status x = DS_stable \<longleftrightarrow> (\<forall>t \<in> T. IsTerminal (ts_phase t) \<and> ts_failure t = None)) \<and>
    (\<forall>i. ed_active_transition x = Some i \<longrightarrow>
       (\<exists>t \<in> T. ts_id t = i \<and> \<not> IsTerminal (ts_phase t) \<and> ed_target_mode x = Some (ts_target_mode t) \<and>
          (\<forall>t' \<in> T. \<not> IsTerminal (ts_phase t') \<longrightarrow> ts_id t' \<le> i)))"
proof -
  have i: "ed_id x = dd_id D" by (simp add: x domain_snapshot_def Let_def split: option.splits)
  note l = scan_transitions_start [OF scan, of "dd_id D"]
  show ?thesis
  proof (cases "um_find A (dd_id D)")
    case (Some t)
    then show ?thesis using l(1) unfolding T i by (auto simp: x domain_snapshot_def is_latest_def)
  next
    case None
    then have all: "\<forall>t \<in> set ts. ts_domain t = dd_id D \<longrightarrow> IsTerminal (ts_phase t)"
      using l(1) by (auto simp: is_latest_def)
    have "um_find F (dd_id D) = None \<longleftrightarrow> (\<forall>t \<in> set ts. ts_domain t = dd_id D \<longrightarrow> ts_failure t = None)"
      using l(2) all by (cases "um_find F (dd_id D)") (auto simp: is_latest_def)
    then show ?thesis using None all unfolding T i by (auto simp: x domain_snapshot_def)
  qed
qed

text \<open>What a snapshot says of the domains. They are the model's, in its order. A domain is transitioning
  exactly when it has an unfinished transition, and then shows the latest such transition and its
  target mode; it is degraded exactly when all its transitions are finished and one of them has failed,
  whatever succeeded since; otherwise it is stable.\<close>

theorem snapshot_reports_domains:
  assumes run: "CoordinatorSnapshot env c = (Inr sn, c')" and rec: "\<not> co_recovering c"
  shows "map ed_id (sn_domains sn) = map dd_id (em_domains (vm_model (model_of c'))) \<and>
    (\<forall>x \<in> set (sn_domains sn).
       let T = {t \<in> snd ` set (en_transitions (run_engine (co_run c'))). ts_domain t = ed_id x} in
       (ed_status x = DS_transitioning \<longleftrightarrow> (\<exists>t \<in> T. \<not> IsTerminal (ts_phase t))) \<and>
       (ed_status x = DS_degraded \<longleftrightarrow> (\<forall>t \<in> T. IsTerminal (ts_phase t)) \<and> (\<exists>t \<in> T. ts_failure t \<noteq> None)) \<and>
       (ed_status x = DS_stable \<longleftrightarrow> (\<forall>t \<in> T. IsTerminal (ts_phase t) \<and> ts_failure t = None)) \<and>
       (\<forall>i. ed_active_transition x = Some i \<longrightarrow>
          (\<exists>t \<in> T. ts_id t = i \<and> \<not> IsTerminal (ts_phase t) \<and> ed_target_mode x = Some (ts_target_mode t) \<and>
             (\<forall>t' \<in> T. \<not> IsTerminal (ts_phase t') \<longrightarrow> ts_id t' \<le> i))))"
    (is "_ \<and> (\<forall>x \<in> _. ?report x)")
proof -
  obtain es run1 where es: "Snapshot env (co_run c) = (es, run1)" by fastforce
  obtain A F where scan: "scan_transitions (es_transitions es) [] [] = (A, F)" by fastforce
  have ts: "set (es_transitions es) = snd ` set (en_transitions (run_engine run1))"
    using es by (clarsimp simp: Snapshot_def Let_def)
  have res: "c' = c\<lparr>co_run := run1\<rparr>" "sn_domains sn =
      map (domain_snapshot False (sc_committed_modes (es_configuration es)) A F) (em_domains (vm_model (model_of c')))"
    using run rec es scan by (auto simp: CoordinatorSnapshot_def Let_def split: if_splits)
  have ids: "ed_id (domain_snapshot r modes A F D) = dd_id D" for r modes D
    by (simp add: domain_snapshot_def Let_def split: option.splits)
  show ?thesis
  proof (intro conjI ballI)
    show "map ed_id (sn_domains sn) = map dd_id (em_domains (vm_model (model_of c')))" by (simp add: res(2) ids)
  next
    fix x assume "x \<in> set (sn_domains sn)"
    then obtain D where x: "x = domain_snapshot False (sc_committed_modes (es_configuration es)) A F D"
      by (auto simp: res(2))
    have "{t \<in> snd ` set (en_transitions (run_engine (co_run c'))). ts_domain t = ed_id x} =
        {t \<in> set (es_transitions es). ts_domain t = ed_id x}"
      by (simp add: ts res(1))
    then show "?report x" unfolding Let_def by (rule domain_snapshot_report [OF scan x])
  qed
qed

lemma degraded_run:
  "map_option (\<lambda>s. let (r, c') = CoordinatorSnapshot fake_env (sv_coordinator s) in
       (map_sum id (\<lambda>sn. map ed_status (sn_domains sn)) r, co_recovering (sv_coordinator s)))
     (demo example_model 2 1 [A_request 1 9 1000, A_request 1 2 1000, A_worker 0, A_worker 0, A_worker 0]) =
   Some (Inr [DS_degraded], False)"
  by code_simp

theorem snapshot_reports_domains_witness:
  "\<exists>s0 s sn c'. demo_service example_model 2 1 = Inr s0 \<and> service_run fake_env s0 s \<and>
     CoordinatorSnapshot fake_env (sv_coordinator s) = (Inr sn, c') \<and> map ed_status (sn_domains sn) = [DS_degraded] \<and>
     map ed_id (sn_domains sn) = map dd_id (em_domains (vm_model (model_of c')))"
proof -
  obtain s0 s where s: "demo_service example_model 2 1 = Inr s0" "service_run fake_env s0 s"
    "(let (r, c') = CoordinatorSnapshot fake_env (sv_coordinator s) in
       (map_sum id (\<lambda>sn. map ed_status (sn_domains sn)) r, co_recovering (sv_coordinator s))) = (Inr [DS_degraded], False)"
    by (rule demo_observed [OF degraded_run])
  then obtain sn c' where sn: "CoordinatorSnapshot fake_env (sv_coordinator s) = (Inr sn, c')"
    "map ed_status (sn_domains sn) = [DS_degraded]" "\<not> co_recovering (sv_coordinator s)"
    by (cases "CoordinatorSnapshot fake_env (sv_coordinator s)"; cases "fst (CoordinatorSnapshot fake_env (sv_coordinator s))") auto
  show ?thesis using conjunct1 [OF snapshot_reports_domains [OF sn(1,3)]] s(1,2) sn
    by (intro exI [of _ s0] exI [of _ s] exI [of _ sn] exI [of _ c']) simp
qed

text \<open>Resetting a subscription takes back what \<open>Subscribe\<close> added, and resetting it again does nothing.\<close>

lemma subscribe_reset:
  assumes "Subscribe flt handler c = (Inr i, c')" and "um_find (co_subscriptions c) i = None"
  shows "snd (EventSubscription_Reset (Some i) c') = c\<lparr>co_next_subscription := i + 1\<rparr>"
    and "EventSubscription_Reset (fst (EventSubscription_Reset (Some i) c')) c' = (None, c')"
proof -
  obtain h where c': "c' = c\<lparr>co_next_subscription := i + 1,
      co_subscriptions := co_subscriptions c @ [(i, \<lparr>sb_filter = flt, sb_handler = h\<rparr>)]\<rparr>"
    using assms by (auto simp: Subscribe_def Let_def um_emplace_def split: if_splits option.splits)
  have "filter (\<lambda>e. fst e \<noteq> i) (co_subscriptions c) = co_subscriptions c"
    using assms(2) by (auto simp: um_find_def map_of_eq_None_iff filter_id_conv)
  then show "snd (EventSubscription_Reset (Some i) c') = c\<lparr>co_next_subscription := i + 1\<rparr>"
    by (simp add: c' EventSubscription_Reset_def unsubscribe_def um_erase_def)
qed (simp add: EventSubscription_Reset_def)

end
