(* ===== verification/Exec_Ipc.thy ===== *)
theory Exec_Ipc
  imports Exec_Service
begin

text \<open>
  The protocol between a coordinator and the processes that use it, \<^verbatim>\<open>exec/src/coordinator_ipc.cpp\<close>: the encoding of
  snapshots, events and errors as JSON and its decoding, messages of one line over a socket, the server's dispatch of
  requests with its authorisation, the client, and the server's threads.

  The JSON library is a parameter, the record \<open>JsonLibrary\<close> of the functions the code calls; an accessor that throws
  returns \<open>None\<close>. Where the code does not catch, the exception leaves the function: \<open>None\<close> in the client, \<open>DP_terminates\<close>
  in a worker of the server, whose thread has no handler. System calls are outcomes: what \<open>recv\<close> returns piece by piece
  (\<open>Received\<close>), how much each \<open>send\<close> takes, which step of connecting or listening fails. A wait of the server is
  \<open>DP_waits\<close> and one \<open>Wait_poll\<close> per round of its loop. Time points and timeouts are unbounded integers.
  The conversion of \<open>PeerUid\<close>, the descriptors' ownership and the interval of the polling are left out.
\<close>

section \<open>The JSON library\<close>

text \<open>What the protocol uses of the library: constructors and accessors of a value, the
  writer and the reader. A value is taken up to what the accessors tell, so that a number has no type.
  An accessor that throws returns \<open>None\<close>; the reader accepts, rejects or throws.\<close>

datatype 'j JsonRead = JR_value 'j | JR_rejected | JR_throws

record 'j JsonLibrary =
  js_null :: 'j
  js_bool :: "bool \<Rightarrow> 'j"
  js_uint :: "u64 \<Rightarrow> 'j"
  js_int :: "int \<Rightarrow> 'j"
  js_string :: "string \<Rightarrow> 'j"
  js_array :: "'j list \<Rightarrow> 'j"
  js_object :: "(string \<times> 'j) list \<Rightarrow> 'j"
  js_isBool :: "'j \<Rightarrow> bool"
  js_isIntegral :: "'j \<Rightarrow> bool"
  js_isInt64 :: "'j \<Rightarrow> bool"
  js_isString :: "'j \<Rightarrow> bool"
  js_isArray :: "'j \<Rightarrow> bool"
  js_isObject :: "'j \<Rightarrow> bool"
  js_asBool :: "'j \<Rightarrow> bool option"
  js_asUInt64 :: "'j \<Rightarrow> u64 option"
  js_asUInt :: "'j \<Rightarrow> u32 option"
  js_asInt64 :: "'j \<Rightarrow> int option"
  js_asInt :: "'j \<Rightarrow> i32 option"
  js_asString :: "'j \<Rightarrow> string option"
  js_elements :: "'j \<Rightarrow> 'j list"
  js_at :: "'j \<Rightarrow> string \<Rightarrow> 'j option"
  js_isMember :: "'j \<Rightarrow> string \<Rightarrow> bool"
  js_write :: "'j \<Rightarrow> string"
  js_read :: "string \<Rightarrow> 'j JsonRead"

definition kProtocolVersion :: u64 where
  "kProtocolVersion = 1"

definition kClientMaximumMessageSize :: nat where
  "kClientMaximumMessageSize = 16777216"

definition IsUnsignedInteger :: "'j JsonLibrary \<Rightarrow> 'j \<Rightarrow> bool" where
  "IsUnsignedInteger L v =
     (js_isIntegral L v \<and> (\<not> js_isInt64 L v \<or> (case js_asInt64 L v of None \<Rightarrow> False | Some n \<Rightarrow> 0 \<le> n)))"

definition IsSignedInteger :: "'j JsonLibrary \<Rightarrow> 'j \<Rightarrow> bool" where
  "IsSignedInteger L v = js_isIntegral L v"

definition Terminal :: "TransitionPhase \<Rightarrow> bool" where
  "Terminal phase =
     (phase = TP_succeeded \<or> phase = TP_rejected \<or> phase = TP_failed \<or> phase = TP_cancelled \<or>
      phase = TP_superseded \<or> phase = TP_deadline_exceeded \<or> phase = TP_recovery_failed)"

section \<open>Encoding\<close>

text \<open>The numeric values of the enumerations of the snapshots.\<close>

definition application_states :: "ApplicationState list" where
  "application_states = [AS_unknown, AS_starting, AS_ready, AS_stopping, AS_stopped, AS_failed, AS_killed, AS_unavailable]"

definition domain_statuses :: "DomainStatus list" where
  "domain_statuses = [DS_unknown, DS_stable, DS_transitioning, DS_degraded, DS_recovering]"

definition unit_kinds :: "ExecutionUnitKind list" where
  "unit_kinds = [UK_managed_application, UK_service, UK_one_shot, UK_mount, UK_external]"

definition event_kinds :: "CoordinatorEventKind list" where
  "event_kinds = [CE_transition_changed, CE_configuration_changed, CE_recovery_changed]"

definition enum_value :: "'j JsonLibrary \<Rightarrow> 'e list \<Rightarrow> 'e \<Rightarrow> 'j" where
  "enum_value L xs x = js_uint L (of_nat (index_of xs x))"

text \<open>A member that is only written when there is something to write.\<close>

definition optional_member :: "string \<Rightarrow> ('a \<Rightarrow> 'j) \<Rightarrow> 'a option \<Rightarrow> (string \<times> 'j) list" where
  "optional_member k f x = (case x of None \<Rightarrow> [] | Some v \<Rightarrow> [(k, f v)])"

definition ErrorValue :: "'j JsonLibrary \<Rightarrow> Error \<Rightarrow> 'j" where
  "ErrorValue L e =
     js_object L [(''code'', enum_value L error_codes (err_code e)), (''message'', js_string L (err_message e)),
                  (''supportData'', js_uint L (err_support_data e))]"

definition FailureValue :: "'j JsonLibrary \<Rightarrow> TransitionFailureSnapshot \<Rightarrow> 'j" where
  "FailureValue L f =
     js_object L
       ([(''error'', ErrorValue L (pf_error f))] @
        optional_member ''application'' (js_uint L) (pf_application f) @
        [(''exitCode'', js_int L (sint (pf_exit_code f))), (''signal'', js_int L (sint (pf_signal f))),
         (''backendCode'', js_uint L (pf_backend_code f)), (''backendMessage'', js_string L (pf_backend_message f)),
         (''recoveryAction'', enum_value L failure_actions (pf_recovery_action f)),
         (''recoveryAttempted'', js_bool L (pf_recovery_attempted f)),
         (''recoverySucceeded'', js_bool L (pf_recovery_succeeded f))] @
        optional_member ''recoveryError'' (ErrorValue L) (pf_recovery_error f) @
        optional_member ''recoveredMode'' (js_uint L) (pf_recovered_mode f) @
        [(''recoveryStoppedApplications'', js_array L (map (js_uint L) (pf_recovery_stopped f))),
         (''recoveryStartedApplications'', js_array L (map (js_uint L) (pf_recovery_started f)))])"

definition TransitionValue :: "'j JsonLibrary \<Rightarrow> PublicTransition \<Rightarrow> 'j" where
  "TransitionValue L t =
     js_object L
       ([(''id'', js_uint L (pt_id t)), (''domain'', js_uint L (pt_domain t)),
         (''sourceMode'', js_uint L (pt_source_mode t)), (''targetMode'', js_uint L (pt_target_mode t)),
         (''phase'', enum_value L transition_phases (pt_phase t)), (''updatedNs'', js_int L (pt_updated_at t))] @
        optional_member ''failure'' (FailureValue L) (pt_failure t))"

definition DomainValue :: "'j JsonLibrary \<Rightarrow> ExecutionDomain \<Rightarrow> 'j" where
  "DomainValue L d =
     js_object L
       ([(''id'', js_uint L (ed_id d)), (''name'', js_string L (ed_name d)),
         (''committedMode'', js_uint L (ed_committed_mode d)), (''status'', enum_value L domain_statuses (ed_status d))] @
        optional_member ''targetMode'' (js_uint L) (ed_target_mode d) @
        optional_member ''activeTransition'' (js_uint L) (ed_active_transition d))"

definition ApplicationValue :: "'j JsonLibrary \<Rightarrow> ApplicationSnapshot \<Rightarrow> 'j" where
  "ApplicationValue L a =
     js_object L [(''id'', js_uint L (as_id a)), (''name'', js_string L (as_name a)),
                  (''state'', enum_value L application_states (as_state a))]"

definition UnitValue :: "'j JsonLibrary \<Rightarrow> ExecutionUnitSnapshot \<Rightarrow> 'j" where
  "UnitValue L u =
     js_object L [(''id'', js_uint L (us_id u)), (''name'', js_string L (us_name u)),
                  (''kind'', enum_value L unit_kinds (us_kind u)), (''bootstrap'', js_bool L (us_bootstrap u)),
                  (''state'', enum_value L application_states (us_state u))]"

definition SnapshotValue :: "'j JsonLibrary \<Rightarrow> SystemSnapshot \<Rightarrow> 'j" where
  "SnapshotValue L s =
     js_object L
       [(''generation'', js_uint L (sn_model_generation s)), (''revision'', js_uint L (sn_revision s)),
        (''recovering'', js_bool L (sn_recovering s)), (''domains'', js_array L (map (DomainValue L) (sn_domains s))),
        (''units'', js_array L (map (UnitValue L) (sn_units s))),
        (''applications'', js_array L (map (ApplicationValue L) (sn_applications s))),
        (''transitions'', js_array L (map (TransitionValue L) (sn_transitions s)))]"

definition EventValue :: "'j JsonLibrary \<Rightarrow> CoordinatorEvent \<Rightarrow> 'j" where
  "EventValue L e =
     js_object L
       ([(''kind'', enum_value L event_kinds (ce_kind e)), (''revision'', js_uint L (ce_revision e))] @
        optional_member ''transition'' (js_uint L) (ce_transition e) @
        optional_member ''domain'' (js_uint L) (ce_domain e))"

definition ModeValue :: "'j JsonLibrary \<Rightarrow> ExecutionMode \<Rightarrow> 'j" where
  "ModeValue L m =
     js_object L [(''domain'', js_uint L (xm_domain m)), (''id'', js_uint L (xm_id m)), (''name'', js_string L (xm_name m))]"

section \<open>Decoding\<close>

text \<open>A decoder returns \<open>None\<close> when an accessor throws. The checked parts: an unsigned integer, an enumeration
  value, a string, a boolean; \<open>Some None\<close> is a check that fails.\<close>

definition unsigned_of :: "'j JsonLibrary \<Rightarrow> 'j \<Rightarrow> u64 option option" where
  "unsigned_of L v = (if IsUnsignedInteger L v then map_option Some (js_asUInt64 L v) else Some None)"

definition enum_of :: "'j JsonLibrary \<Rightarrow> 'e list \<Rightarrow> 'j \<Rightarrow> 'e option option" where
  "enum_of L xs v =
     do {
       n \<leftarrow> unsigned_of L v;
       (case n of
          None \<Rightarrow> Some None
        | Some n \<Rightarrow>
            if n > of_nat (length xs - 1) then Some None
            else map_option (\<lambda>k. Some (xs ! unat k)) (js_asUInt L v))
     }"

definition string_of :: "'j JsonLibrary \<Rightarrow> 'j \<Rightarrow> string option option" where
  "string_of L v = (if js_isString L v then map_option Some (js_asString L v) else Some None)"

definition bool_of :: "'j JsonLibrary \<Rightarrow> 'j \<Rightarrow> bool option option" where
  "bool_of L v = (if js_isBool L v then map_option Some (js_asBool L v) else Some None)"

definition at_as :: "'j JsonLibrary \<Rightarrow> ('j \<Rightarrow> 'a option) \<Rightarrow> 'j \<Rightarrow> string \<Rightarrow> 'a option" where
  "at_as L f v k = do { x \<leftarrow> js_at L v k; f x }"

definition communication_error :: "string \<Rightarrow> Error" where
  "communication_error message = MakeError EC_communication_error message 0"

text \<open>A member that may be missing, but must be well-formed when it is there.\<close>

definition optional_at ::
  "'j JsonLibrary \<Rightarrow> ('j \<Rightarrow> 'a option option) \<Rightarrow> string \<Rightarrow> 'j \<Rightarrow> string \<Rightarrow> ('a option, Error) result option" where
  "optional_at L f message v k =
     (if \<not> js_isMember L v k then Some (Inr None)
      else do { x \<leftarrow> at_as L f v k; Some (case x of None \<Rightarrow> Inl (communication_error message) | Some a \<Rightarrow> Inr (Some a)) })"

definition DecodeError :: "'j JsonLibrary \<Rightarrow> 'j \<Rightarrow> Error option" where
  "DecodeError L v =
     (if \<not> js_isObject L v then Some (communication_error ''coordinator returned an invalid error'')
      else do {
        c \<leftarrow> at_as L (enum_of L error_codes) v ''code'';
        m \<leftarrow> at_as L (string_of L) v ''message'';
        d \<leftarrow> at_as L (unsigned_of L) v ''supportData'';
        Some (case (c, m, d) of
                (Some c, Some m, Some d) \<Rightarrow> MakeError c m d
              | _ \<Rightarrow> communication_error ''coordinator returned an invalid error'')
      })"

fun decode_applications :: "'j JsonLibrary \<Rightarrow> string \<Rightarrow> 'j list \<Rightarrow> (ApplicationId list, Error) result option" where
  "decode_applications L message [] = Some (Inr [])"
| "decode_applications L message (v # vs) =
     do {
       n \<leftarrow> unsigned_of L v;
       (case n of
          None \<Rightarrow> Some (Inl (communication_error message))
        | Some n \<Rightarrow>
            if n = 0 then Some (Inl (communication_error message))
            else do { r \<leftarrow> decode_applications L message vs; Some (map_sum id (\<lambda>ns. n # ns) r) })
     }"

text \<open>\<open>try ... catch (...)\<close> around a decoder.\<close>

definition caught :: "string \<Rightarrow> ('a, Error) result option \<Rightarrow> ('a, Error) result" where
  "caught message r = (case r of None \<Rightarrow> Inl (MakeError EC_resource_exhausted message 0) | Some r \<Rightarrow> r)"

definition decode_recovery_evidence :: "'j JsonLibrary \<Rightarrow> 'j \<Rightarrow> (ApplicationId list \<times> ApplicationId list, Error) result option" where
  "decode_recovery_evidence L f =
     do {
       stopped \<leftarrow> js_at L f ''recoveryStoppedApplications'';
       started \<leftarrow> js_at L f ''recoveryStartedApplications'';
       r \<leftarrow> decode_applications L ''coordinator returned invalid recovery stop evidence'' (js_elements L stopped);
       (case r of
          Inl e \<Rightarrow> Some (Inl e)
        | Inr xs \<Rightarrow>
            do {
              r \<leftarrow> decode_applications L ''coordinator returned invalid recovery start evidence'' (js_elements L started);
              Some (map_sum id (\<lambda>ys. (xs, ys)) r)
            })
     }"

text \<open>The evidence of a failure. The exit code and the signal are only checked to be integral; reading one that does
  not fit 32 bits throws.\<close>

definition failure_fields ::
  "'j JsonLibrary \<Rightarrow> 'j \<Rightarrow> (u64 \<times> string \<times> FailureAction \<times> bool \<times> bool) option option" where
  "failure_fields L f =
     do {
       x \<leftarrow> js_at L f ''exitCode'';
       s \<leftarrow> js_at L f ''signal'';
       c \<leftarrow> at_as L (unsigned_of L) f ''backendCode'';
       m \<leftarrow> at_as L (string_of L) f ''backendMessage'';
       a \<leftarrow> at_as L (enum_of L failure_actions) f ''recoveryAction'';
       t \<leftarrow> at_as L (bool_of L) f ''recoveryAttempted'';
       u \<leftarrow> at_as L (bool_of L) f ''recoverySucceeded'';
       stopped \<leftarrow> js_at L f ''recoveryStoppedApplications'';
       started \<leftarrow> js_at L f ''recoveryStartedApplications'';
       Some (case (c, m, a, t, u) of
               (Some c, Some m, Some a, Some t, Some u) \<Rightarrow>
                 if IsSignedInteger L x \<and> IsSignedInteger L s \<and> js_isArray L stopped \<and> js_isArray L started
                 then Some (c, m, a, t, u) else None
             | _ \<Rightarrow> None)
     }"

definition recovery_error_of :: "'j JsonLibrary \<Rightarrow> 'j \<Rightarrow> Error option option" where
  "recovery_error_of L v =
     do { e \<leftarrow> DecodeError L v; Some (if err_code e = EC_none then None else Some e) }"

definition DecodeFailure :: "'j JsonLibrary \<Rightarrow> 'j \<Rightarrow> (TransitionFailureSnapshot, Error) result option" where
  "DecodeFailure L f =
     (if \<not> js_isObject L f then Some (Inl (communication_error ''coordinator returned invalid failure evidence''))
      else do {
        fields \<leftarrow> failure_fields L f;
        (case fields of
           None \<Rightarrow> Some (Inl (communication_error ''coordinator returned invalid failure evidence''))
         | Some (c, m, a, t, u) \<Rightarrow>
             do {
               e \<leftarrow> at_as L (DecodeError L) f ''error'';
               x \<leftarrow> at_as L (js_asInt L) f ''exitCode'';
               s \<leftarrow> at_as L (js_asInt L) f ''signal'';
               app \<leftarrow> optional_at L (unsigned_of L) ''coordinator returned invalid failure application'' f ''application'';
               err \<leftarrow> optional_at L (recovery_error_of L) ''coordinator returned invalid recovery error'' f ''recoveryError'';
               mode \<leftarrow> optional_at L (unsigned_of L) ''coordinator returned invalid recovered mode'' f ''recoveredMode'';
               (case (app, err, mode, caught ''cannot allocate recovery application evidence'' (decode_recovery_evidence L f)) of
                  (Inl e, _, _, _) \<Rightarrow> Some (Inl e)
                | (Inr _, Inl e, _, _) \<Rightarrow> Some (Inl e)
                | (Inr _, Inr _, Inl e, _) \<Rightarrow> Some (Inl e)
                | (Inr _, Inr _, Inr _, Inl e) \<Rightarrow> Some (Inl e)
                | (Inr app, Inr err, Inr mode, Inr (stopped, started)) \<Rightarrow>
                    Some (Inr \<lparr>pf_error = e, pf_application = app, pf_exit_code = x, pf_signal = s, pf_backend_code = c,
                               pf_backend_message = m, pf_recovery_action = a, pf_recovery_attempted = t,
                               pf_recovery_succeeded = u, pf_recovery_error = err, pf_recovered_mode = mode,
                               pf_recovery_stopped = stopped, pf_recovery_started = started\<rparr>))
             })
      })"

definition DecodeTransition :: "'j JsonLibrary \<Rightarrow> 'j \<Rightarrow> (PublicTransition, Error) result option" where
  "DecodeTransition L v =
     (if \<not> js_isObject L v then Some (Inl (communication_error ''coordinator returned an invalid transition''))
      else do {
        i \<leftarrow> at_as L (unsigned_of L) v ''id'';
        d \<leftarrow> at_as L (unsigned_of L) v ''domain'';
        s \<leftarrow> at_as L (unsigned_of L) v ''sourceMode'';
        t \<leftarrow> at_as L (unsigned_of L) v ''targetMode'';
        p \<leftarrow> at_as L (enum_of L transition_phases) v ''phase'';
        u \<leftarrow> js_at L v ''updatedNs'';
        (case (i, d, s, t, p, IsSignedInteger L u) of
           (Some i, Some d, Some s, Some t, Some p, True) \<Rightarrow>
             do {
               n \<leftarrow> js_asInt64 L u;
               let r = \<lparr>pt_id = i, pt_domain = d, pt_source_mode = s, pt_target_mode = t, pt_phase = p, pt_updated_at = n,
                        pt_failure = None\<rparr>;
               (if \<not> js_isMember L v ''failure'' then Some (Inr r)
                else do {
                  f \<leftarrow> at_as L (DecodeFailure L) v ''failure'';
                  Some (map_sum id (\<lambda>f. r\<lparr>pt_failure := Some f\<rparr>) f)
                })
             }
         | _ \<Rightarrow> Some (Inl (communication_error ''coordinator returned an invalid transition'')))
      })"

definition DecodeDomain :: "'j JsonLibrary \<Rightarrow> 'j \<Rightarrow> (ExecutionDomain, Error) result option" where
  "DecodeDomain L v =
     (if \<not> js_isObject L v then Some (Inl (communication_error ''coordinator returned an invalid domain''))
      else do {
        i \<leftarrow> at_as L (unsigned_of L) v ''id'';
        n \<leftarrow> at_as L (string_of L) v ''name'';
        c \<leftarrow> at_as L (unsigned_of L) v ''committedMode'';
        s \<leftarrow> at_as L (enum_of L domain_statuses) v ''status'';
        (case (i, n, c, s) of
           (Some i, Some n, Some c, Some s) \<Rightarrow>
             do {
               t \<leftarrow> optional_at L (unsigned_of L) ''coordinator returned an invalid target mode'' v ''targetMode'';
               a \<leftarrow> optional_at L (unsigned_of L) ''coordinator returned an invalid active transition'' v ''activeTransition'';
               Some (case (t, a) of
                       (Inl e, _) \<Rightarrow> Inl e
                     | (Inr _, Inl e) \<Rightarrow> Inl e
                     | (Inr t, Inr a) \<Rightarrow>
                         Inr \<lparr>ed_id = i, ed_name = n, ed_committed_mode = c, ed_target_mode = t, ed_status = s,
                              ed_active_transition = a\<rparr>)
             }
         | _ \<Rightarrow> Some (Inl (communication_error ''coordinator returned an invalid domain'')))
      })"

definition DecodeApplication :: "'j JsonLibrary \<Rightarrow> 'j \<Rightarrow> (ApplicationSnapshot, Error) result option" where
  "DecodeApplication L v =
     do {
       i \<leftarrow> at_as L (unsigned_of L) v ''id'';
       n \<leftarrow> at_as L (string_of L) v ''name'';
       s \<leftarrow> at_as L (enum_of L application_states) v ''state'';
       Some (case (i, n, s) of
               (Some i, Some n, Some s) \<Rightarrow> Inr \<lparr>as_id = i, as_name = n, as_state = s\<rparr>
             | _ \<Rightarrow> Inl (communication_error ''coordinator returned an invalid application''))
     }"

definition DecodeUnit :: "'j JsonLibrary \<Rightarrow> 'j \<Rightarrow> (ExecutionUnitSnapshot, Error) result option" where
  "DecodeUnit L v =
     do {
       i \<leftarrow> at_as L (unsigned_of L) v ''id'';
       n \<leftarrow> at_as L (string_of L) v ''name'';
       k \<leftarrow> at_as L (enum_of L unit_kinds) v ''kind'';
       b \<leftarrow> at_as L (bool_of L) v ''bootstrap'';
       s \<leftarrow> at_as L (enum_of L application_states) v ''state'';
       Some (case (i, n, k, b, s) of
               (Some i, Some n, Some k, Some b, Some s) \<Rightarrow>
                 Inr \<lparr>us_id = i, us_name = n, us_kind = k, us_bootstrap = b, us_state = s\<rparr>
             | _ \<Rightarrow> Inl (communication_error ''coordinator returned an invalid execution unit''))
     }"

text \<open>A loop that decodes the elements of an array until one fails.\<close>

fun decode_all :: "('j \<Rightarrow> ('a, Error) result option) \<Rightarrow> 'j list \<Rightarrow> ('a list, Error) result option" where
  "decode_all f [] = Some (Inr [])"
| "decode_all f (v # vs) =
     do {
       r \<leftarrow> f v;
       (case r of
          Inl e \<Rightarrow> Some (Inl e)
        | Inr a \<Rightarrow> do { r \<leftarrow> decode_all f vs; Some (map_sum id (\<lambda>as. a # as) r) })
     }"

definition decode_member :: "'j JsonLibrary \<Rightarrow> ('j \<Rightarrow> ('a, Error) result option) \<Rightarrow> 'j \<Rightarrow> string \<Rightarrow> ('a list, Error) result option" where
  "decode_member L f v k = do { x \<leftarrow> js_at L v k; decode_all f (js_elements L x) }"

text \<open>The loops of \<open>DecodeSnapshot\<close> in their order; the first error ends them.\<close>

definition decode_lists ::
  "'j JsonLibrary \<Rightarrow> 'j \<Rightarrow> (ExecutionDomain list \<times> ApplicationSnapshot list \<times> ExecutionUnitSnapshot list \<times> PublicTransition list,
     Error) result option" where
  "decode_lists L v =
     do {
       ds \<leftarrow> decode_member L (DecodeDomain L) v ''domains'';
       (case ds of Inl e \<Rightarrow> Some (Inl e) | Inr ds \<Rightarrow>
       do {
         as \<leftarrow> decode_member L (DecodeApplication L) v ''applications'';
         (case as of Inl e \<Rightarrow> Some (Inl e) | Inr as \<Rightarrow>
         do {
           us \<leftarrow> decode_member L (DecodeUnit L) v ''units'';
           (case us of Inl e \<Rightarrow> Some (Inl e) | Inr us \<Rightarrow>
           do {
             ts \<leftarrow> decode_member L (DecodeTransition L) v ''transitions'';
             Some (map_sum id (\<lambda>ts. (ds, as, us, ts)) ts)
           })
         })
       })
     }"

definition DecodeSnapshot :: "'j JsonLibrary \<Rightarrow> 'j \<Rightarrow> (SystemSnapshot, Error) result option" where
  "DecodeSnapshot L v =
     (if \<not> js_isObject L v then Some (Inl (communication_error ''coordinator returned an invalid snapshot''))
      else do {
        g \<leftarrow> at_as L (unsigned_of L) v ''generation'';
        r \<leftarrow> at_as L (unsigned_of L) v ''revision'';
        b \<leftarrow> at_as L (bool_of L) v ''recovering'';
        ds \<leftarrow> js_at L v ''domains'';
        us \<leftarrow> js_at L v ''units'';
        as \<leftarrow> js_at L v ''applications'';
        ts \<leftarrow> js_at L v ''transitions'';
        (case (g, r, b, js_isArray L ds \<and> js_isArray L us \<and> js_isArray L as \<and> js_isArray L ts) of
           (Some g, Some r, Some b, True) \<Rightarrow>
             Some (map_sum id (\<lambda>(ds, as, us, ts).
                 \<lparr>sn_model_generation = g, sn_revision = r, sn_recovering = b, sn_domains = ds, sn_units = us,
                  sn_applications = as, sn_transitions = ts\<rparr>)
               (caught ''cannot allocate coordinator snapshot'' (decode_lists L v)))
         | _ \<Rightarrow> Some (Inl (communication_error ''coordinator returned an invalid snapshot'')))
      })"

definition DecodeEvent :: "'j JsonLibrary \<Rightarrow> 'j \<Rightarrow> (CoordinatorEvent, Error) result option" where
  "DecodeEvent L v =
     (if \<not> js_isObject L v then Some (Inl (communication_error ''coordinator returned an invalid event''))
      else do {
        k \<leftarrow> at_as L (enum_of L event_kinds) v ''kind'';
        r \<leftarrow> at_as L (unsigned_of L) v ''revision'';
        (case (k, r) of
           (Some k, Some r) \<Rightarrow>
             do {
               t \<leftarrow> optional_at L (unsigned_of L) ''coordinator returned an invalid event transition'' v ''transition'';
               d \<leftarrow> optional_at L (unsigned_of L) ''coordinator returned an invalid event domain'' v ''domain'';
               Some (case (t, d) of
                       (Inl e, _) \<Rightarrow> Inl e
                     | (Inr _, Inl e) \<Rightarrow> Inl e
                     | (Inr t, Inr d) \<Rightarrow> Inr \<lparr>ce_kind = k, ce_revision = r, ce_transition = t, ce_domain = d\<rparr>)
             }
         | _ \<Rightarrow> Some (Inl (communication_error ''coordinator returned an invalid event'')))
      })"

text \<open>\<open>IpcCoordinatorClient::Mode\<close> reads the members without checking that there is an object.\<close>

definition DecodeMode :: "'j JsonLibrary \<Rightarrow> 'j \<Rightarrow> (ExecutionMode, Error) result option" where
  "DecodeMode L v =
     do {
       d \<leftarrow> at_as L (unsigned_of L) v ''domain'';
       i \<leftarrow> at_as L (unsigned_of L) v ''id'';
       n \<leftarrow> at_as L (string_of L) v ''name'';
       Some (case (d, i, n) of
               (Some d, Some i, Some n) \<Rightarrow> Inr \<lparr>xm_domain = d, xm_id = i, xm_name = n\<rparr>
             | _ \<Rightarrow> Inl (communication_error ''coordinator returned an invalid mode''))
     }"

section \<open>Messages\<close>

definition Ipc_Encode :: "'j JsonLibrary \<Rightarrow> 'j \<Rightarrow> string" where
  "Ipc_Encode L v = js_write L v @ [CHR 0x0A]"

definition Ipc_Decode :: "'j JsonLibrary \<Rightarrow> string \<Rightarrow> ('j, Error) result option" where
  "Ipc_Decode L content =
     (case js_read L content of
        JR_throws \<Rightarrow> None
      | JR_rejected \<Rightarrow> Some (Inl (communication_error ''coordinator message is invalid''))
      | JR_value v \<Rightarrow>
          Some (if js_isObject L v then Inr v else Inl (communication_error ''coordinator message is invalid'')))"

text \<open>What \<open>recv\<close> returns, call by call: some bytes, an interruption, or the end of the connection (also an
  error or a timeout). \<open>sent\<close> is what \<open>send\<close> accepts: \<open>None\<close> an interruption, 0 a failure.\<close>

datatype Received = RC_bytes string | RC_interrupted | RC_closed

fun read_line :: "nat \<Rightarrow> string \<Rightarrow> Received list \<Rightarrow> (string, Error) result" where
  "read_line maximum content [] =
     Inl (communication_error ''coordinator connection closed before a complete message'')"
| "read_line maximum content (RC_interrupted # rs) = read_line maximum content rs"
| "read_line maximum content (RC_closed # rs) =
     Inl (communication_error ''coordinator connection closed before a complete message'')"
| "read_line maximum content (RC_bytes buffer # rs) =
     (if buffer = [] then Inl (communication_error ''coordinator connection closed before a complete message'')
      else
        let appended = takeWhile (\<lambda>c. c \<noteq> CHR 0x0A) buffer in
        if length appended > maximum - length content then
          Inl (MakeError EC_resource_exhausted ''coordinator message exceeds limit'' 0)
        else if CHR 0x0A \<in> set buffer then Inr (content @ appended)
        else read_line maximum (content @ appended) rs)"

definition ReadLine :: "nat \<Rightarrow> Received list \<Rightarrow> (string, Error) result" where
  "ReadLine maximum rs = read_line maximum [] rs"

text \<open>\<open>WriteAll\<close>: whether everything was sent, and what was sent. The list gives the outcome of each call of \<open>send\<close>;
  no outcome left is a failure.\<close>

fun Ipc_WriteAll :: "nat option list \<Rightarrow> string \<Rightarrow> bool \<times> string" where
  "Ipc_WriteAll outcomes [] = (True, [])"
| "Ipc_WriteAll [] content = (False, [])"
| "Ipc_WriteAll (None # outcomes) content = Ipc_WriteAll outcomes content"
| "Ipc_WriteAll (Some n # outcomes) content =
     (if n = 0 then (False, [])
      else let (ok, sent) = Ipc_WriteAll outcomes (drop n content) in (ok, take n content @ sent))"

definition Success :: "'j JsonLibrary \<Rightarrow> 'j \<Rightarrow> 'j" where
  "Success L v = js_object L [(''ok'', js_bool L True), (''value'', v)]"

definition Failure :: "'j JsonLibrary \<Rightarrow> Error \<Rightarrow> 'j" where
  "Failure L e = js_object L [(''ok'', js_bool L False), (''error'', ErrorValue L e)]"

definition Response :: "'j JsonLibrary \<Rightarrow> ('a \<Rightarrow> 'j) \<Rightarrow> ('a, Error) result \<Rightarrow> 'j" where
  "Response L encode r = (case r of Inl e \<Rightarrow> Failure L e | Inr a \<Rightarrow> Success L (encode a))"

section \<open>The server\<close>

record CoordinatorServerOptions =
  so_endpoint :: string
  so_observation_uids :: "u32 list"
  so_mutation_uids :: "u32 list"
  so_connection_capacity :: nat
  so_worker_count :: nat
  so_maximum_message_size :: nat

text \<open>The longest path a socket address holds, with its terminator.\<close>

definition endpoint_ok :: "nat \<Rightarrow> string \<Rightarrow> bool" where
  "endpoint_ok path_size endpoint = (endpoint \<noteq> [] \<and> hd endpoint = CHR ''/'' \<and> length endpoint < path_size)"

definition check_server_options :: "nat \<Rightarrow> CoordinatorServerOptions \<Rightarrow> Error option" where
  "check_server_options path_size options =
     (if \<not> endpoint_ok path_size (so_endpoint options) \<or> so_observation_uids options = [] \<or>
         so_connection_capacity options = 0 \<or> so_worker_count options = 0 \<or>
         so_worker_count options > so_connection_capacity options \<or> so_maximum_message_size options < 4096 then
        Some (MakeError EC_invalid_argument ''invalid coordinator server options'' 0)
      else if list_ex (\<lambda>uid. uid \<notin> set (so_observation_uids options)) (so_mutation_uids options) then
        Some (MakeError EC_invalid_argument ''mutation UID must also have observation authority'' 0)
      else None)"

record Work =
  wk_descriptor :: nat
  wk_uid :: u32

text \<open>The part of the server its mutexes guard: the connections to serve and the history of events.\<close>

record IpcServer =
  is_options :: CoordinatorServerOptions
  is_queue :: "Work list"
  is_active :: "nat list"
  is_events :: "CoordinatorEvent list"

definition IpcServer_Create :: "CoordinatorServerOptions \<Rightarrow> IpcServer" where
  "IpcServer_Create options = \<lparr>is_options = options, is_queue = [], is_active = [], is_events = []\<rparr>"

text \<open>The handler \<open>Start\<close> subscribes.\<close>

definition push_event :: "CoordinatorEvent \<Rightarrow> IpcServer \<Rightarrow> IpcServer" where
  "push_event event s =
     (let events = is_events s @ [event]; limit = so_connection_capacity (is_options s) * 16 in
      s\<lparr>is_events := drop (length events - limit) events\<rparr>)"

definition Authorized :: "CoordinatorServerOptions \<Rightarrow> u32 \<Rightarrow> bool \<Rightarrow> bool" where
  "Authorized options uid mutation =
     (uid \<in> set (if mutation then so_mutation_uids options else so_observation_uids options))"

text \<open>\<open>Accept\<close> after a connection was accepted and its descriptor prepared; \<open>uid\<close> is what \<open>PeerUid\<close> returned. The
  result is whether the connection is kept.\<close>

definition Accept_connection :: "nat \<Rightarrow> (u32, Error) result \<Rightarrow> IpcServer \<Rightarrow> bool \<times> IpcServer" where
  "Accept_connection descriptor uid s =
     (case uid of
        Inl _ \<Rightarrow> (False, s)
      | Inr u \<Rightarrow>
          if length (is_queue s) \<ge> so_connection_capacity (is_options s) then (False, s)
          else (True, s\<lparr>is_queue := is_queue s @ [\<lparr>wk_descriptor = descriptor, wk_uid = u\<rparr>],
                        is_active := is_active s @ [descriptor]\<rparr>))"

definition server_take :: "IpcServer \<Rightarrow> Work option \<times> IpcServer" where
  "server_take s = (case is_queue s of [] \<Rightarrow> (None, s) | w # ws \<Rightarrow> (Some w, s\<lparr>is_queue := ws\<rparr>))"

definition server_release :: "nat \<Rightarrow> IpcServer \<Rightarrow> IpcServer" where
  "server_release descriptor s = s\<lparr>is_active := filter (\<lambda>d. d \<noteq> descriptor) (is_active s)\<rparr>"

text \<open>The answer to a request: a response, a wait that goes on polling until its deadline, or an exception that nothing
  catches, which ends the process.\<close>

datatype 'j Dispatched = DP_response 'j | DP_waits TransitionId int | DP_terminates

definition find_transition :: "TransitionId \<Rightarrow> SystemSnapshot \<Rightarrow> PublicTransition option" where
  "find_transition i snapshot = List.find (\<lambda>t. pt_id t = i) (sn_transitions snapshot)"

definition transition_unknown :: Error where
  "transition_unknown = MakeError EC_not_found ''transition is not known'' 0"

text \<open>One round of the loop of a wait.\<close>

definition Wait_poll ::
  "'w Environment \<Rightarrow> 'j JsonLibrary \<Rightarrow> TransitionId \<Rightarrow> int \<Rightarrow> 'w Coordinator \<Rightarrow> 'j Dispatched \<times> 'w Coordinator" where
  "Wait_poll env L i deadline c =
     (case CoordinatorSnapshot env c of
        (Inl e, c) \<Rightarrow> (DP_response (Failure L e), c)
      | (Inr snapshot, c) \<Rightarrow>
          (case find_transition i snapshot of
             None \<Rightarrow> (DP_response (Failure L transition_unknown), c)
           | Some t \<Rightarrow>
               if Terminal (pt_phase t) then (DP_response (Success L (TransitionValue L t)), c)
               else let (now, run) = in_world (env_now env) (co_run c) in
                    (if now \<ge> deadline then
                       DP_response (Failure L (MakeError EC_deadline_exceeded ''transition wait deadline expired'' 0))
                     else DP_waits i deadline, c\<lparr>co_run := run\<rparr>)))"

definition invalid_argument :: "'j JsonLibrary \<Rightarrow> string \<Rightarrow> 'j Dispatched" where
  "invalid_argument L message = DP_response (Failure L (MakeError EC_invalid_argument message 0))"

text \<open>The operations of \<open>Dispatch\<close>. Each returns the answer, the calls of event handlers its request makes, and the
  coordinator; \<open>None\<close> is an exception.\<close>

type_synonym ('j, 'w) answer = "'j Dispatched \<times> Deliveries \<times> 'w Coordinator"

definition quietly :: "'j Dispatched \<times> 'w Coordinator \<Rightarrow> ('j, 'w) answer" where
  "quietly r = (fst r, [], snd r)"

definition dispatch_hello :: "'j JsonLibrary \<Rightarrow> CoordinatorServerOptions \<Rightarrow> u32 \<Rightarrow> 'j" where
  "dispatch_hello L options uid =
     Success L (js_object L [(''protocol'', js_uint L kProtocolVersion), (''mutation'', js_bool L (Authorized options uid True))])"

definition dispatch_snapshot :: "'w Environment \<Rightarrow> 'j JsonLibrary \<Rightarrow> 'w Coordinator \<Rightarrow> ('j, 'w) answer" where
  "dispatch_snapshot env L c =
     (let (r, c) = SystemCoordinator_GetSnapshot env True c in (DP_response (Response L (SnapshotValue L) r), [], c))"

definition dispatch_domain :: "'w Environment \<Rightarrow> 'j JsonLibrary \<Rightarrow> 'j \<Rightarrow> 'w Coordinator \<Rightarrow> ('j, 'w) answer option" where
  "dispatch_domain env L request c =
     do {
       d \<leftarrow> at_as L (unsigned_of L) request ''domain'';
       Some (case d of
               None \<Rightarrow> (invalid_argument L ''domain id is required'', [], c)
             | Some d \<Rightarrow>
                 let (r, c) = SystemCoordinator_ResolveDomain env True d c in
                 (DP_response (Response L (DomainValue L) r), [], c))
     }"

definition ids_required :: "string" where
  "ids_required = ''domain and mode ids are required''"

definition dispatch_mode :: "'j JsonLibrary \<Rightarrow> 'j \<Rightarrow> 'w Coordinator \<Rightarrow> ('j, 'w) answer option" where
  "dispatch_mode L request c =
     do {
       d \<leftarrow> at_as L (unsigned_of L) request ''domain'';
       m \<leftarrow> at_as L (unsigned_of L) request ''mode'';
       Some (case (d, m) of
               (Some d, Some m) \<Rightarrow>
                 (DP_response (Response L (ModeValue L) (SystemCoordinator_ResolveMode True d m c)), [], c)
             | _ \<Rightarrow> (invalid_argument L ids_required, [], c))
     }"

text \<open>A timeout in milliseconds: \<open>Some None\<close> when it is not integral or not positive; reading an integral value outside
  the 64-bit range throws.\<close>

definition positive_timeout :: "'j JsonLibrary \<Rightarrow> 'j \<Rightarrow> int option option" where
  "positive_timeout L request =
     do {
       x \<leftarrow> js_at L request ''timeoutMs'';
       (if \<not> IsSignedInteger L x then Some None
        else do { n \<leftarrow> js_asInt64 L x; Some (if n \<le> 0 then None else Some n) })
     }"

definition dispatch_request :: "'w Environment \<Rightarrow> 'j JsonLibrary \<Rightarrow> 'j \<Rightarrow> 'w Coordinator \<Rightarrow> ('j, 'w) answer option" where
  "dispatch_request env L request c =
     do {
       d \<leftarrow> at_as L (unsigned_of L) request ''domain'';
       m \<leftarrow> at_as L (unsigned_of L) request ''mode'';
       (case (d, m) of
          (Some d, Some m) \<Rightarrow>
            do {
              t \<leftarrow> positive_timeout L request;
              (case t of
                 None \<Rightarrow> Some (invalid_argument L ''transition timeout must be positive'', [], c)
               | Some t \<Rightarrow>
                   do {
                     (r, calls, c) \<leftarrow> SystemCoordinator_RequestMode env True d m t c;
                     Some (DP_response (case r of Inl e \<Rightarrow> Failure L e | Inr h \<Rightarrow> Success L (js_uint L (Transition_Id h))), calls, c)
                   })
            }
        | _ \<Rightarrow> Some (invalid_argument L ids_required, [], c))
     }"

definition dispatch_cancel :: "'w Environment \<Rightarrow> 'j JsonLibrary \<Rightarrow> 'j \<Rightarrow> 'w Coordinator \<Rightarrow> ('j, 'w) answer option" where
  "dispatch_cancel env L request c =
     do {
       i \<leftarrow> at_as L (unsigned_of L) request ''transition'';
       (case i of
          None \<Rightarrow> Some (invalid_argument L ''transition id is required'', [], c)
        | Some i \<Rightarrow>
            do {
              (r, c) \<leftarrow> SystemCoordinator_Cancel env True i c;
              Some (DP_response (case r of Inl e \<Rightarrow> Failure L e | Inr _ \<Rightarrow> Success L (js_null L)), [], c)
            })
     }"

text \<open>\<open>transition\<close> and \<open>wait\<close>; \<open>wait\<close> is the timeout of a wait.\<close>

definition dispatch_transition ::
  "'w Environment \<Rightarrow> 'j JsonLibrary \<Rightarrow> TransitionId \<Rightarrow> int option \<Rightarrow> 'w Coordinator \<Rightarrow> 'j Dispatched \<times> 'w Coordinator" where
  "dispatch_transition env L i wait c =
     (case SystemCoordinator_GetSnapshot env True c of
        (Inl e, c) \<Rightarrow> (DP_response (Failure L e), c)
      | (Inr snapshot, c) \<Rightarrow>
          (case find_transition i snapshot of
             None \<Rightarrow> (DP_response (Failure L transition_unknown), c)
           | Some t \<Rightarrow>
               (case wait of
                  None \<Rightarrow> (DP_response (Success L (TransitionValue L t)), c)
                | Some timeout \<Rightarrow>
                    if Terminal (pt_phase t) then (DP_response (Success L (TransitionValue L t)), c)
                    else let (now, run) = in_world (env_now env) (co_run c) in
                         (DP_waits i (now + ms timeout), c\<lparr>co_run := run\<rparr>))))"

definition dispatch_wait :: "'w Environment \<Rightarrow> 'j JsonLibrary \<Rightarrow> bool \<Rightarrow> 'j \<Rightarrow> 'w Coordinator \<Rightarrow> ('j, 'w) answer option" where
  "dispatch_wait env L waiting request c =
     do {
       i \<leftarrow> at_as L (unsigned_of L) request ''transition'';
       (case i of
          None \<Rightarrow> Some (invalid_argument L ''valid transition id and timeout are required'', [], c)
        | Some i \<Rightarrow>
            if \<not> waiting then Some (quietly (dispatch_transition env L i None c))
            else do {
              t \<leftarrow> positive_timeout L request;
              Some (case t of
                      None \<Rightarrow> (invalid_argument L ''valid transition id and timeout are required'', [], c)
                    | Some t \<Rightarrow> quietly (dispatch_transition env L i (Some t) c))
            })
     }"

definition dispatch_events :: "'j JsonLibrary \<Rightarrow> CoordinatorEvent list \<Rightarrow> 'j \<Rightarrow> 'j Dispatched option" where
  "dispatch_events L events request =
     do {
       r \<leftarrow> at_as L (unsigned_of L) request ''afterRevision'';
       Some (case r of
               None \<Rightarrow> invalid_argument L ''event revision is required''
             | Some r \<Rightarrow>
                 if events \<noteq> [] \<and> r + 1 < ce_revision (hd events) then
                   DP_response (Failure L (MakeError EC_resource_exhausted ''coordinator event history was overrun'' 0))
                 else DP_response (Success L (js_array L (map (EventValue L) (filter (\<lambda>e. ce_revision e > r) events)))))
     }"

text \<open>The check of the protocol version. A version that is integral but negative makes \<open>asUInt64\<close> throw.\<close>

definition protocol_operation :: "'j JsonLibrary \<Rightarrow> 'j \<Rightarrow> string option option" where
  "protocol_operation L request =
     do {
       v \<leftarrow> js_at L request ''version'';
       (if \<not> js_isIntegral L v then Some None
        else do {
          n \<leftarrow> js_asUInt64 L v;
          (if n \<noteq> kProtocolVersion then Some None
           else at_as L (string_of L) request ''operation'')
        })
     }"

definition dispatch_operation ::
  "'w Environment \<Rightarrow> 'j JsonLibrary \<Rightarrow> IpcServer \<Rightarrow> u32 \<Rightarrow> string \<Rightarrow> 'j \<Rightarrow> 'w Coordinator \<Rightarrow> ('j, 'w) answer option" where
  "dispatch_operation env L s uid operation request c =
     (if operation = ''hello'' then Some (DP_response (dispatch_hello L (is_options s) uid), [], c)
      else if operation = ''snapshot'' then Some (dispatch_snapshot env L c)
      else if operation = ''domain'' then dispatch_domain env L request c
      else if operation = ''mode'' then dispatch_mode L request c
      else if operation = ''request'' then dispatch_request env L request c
      else if operation = ''cancel'' then dispatch_cancel env L request c
      else if operation = ''transition'' \<or> operation = ''wait'' then dispatch_wait env L (operation = ''wait'') request c
      else if operation = ''events'' then map_option (\<lambda>d. (d, [], c)) (dispatch_events L (is_events s) request)
      else Some (DP_response (Failure L (MakeError EC_unsupported ''unknown coordinator operation'' 0)), [], c))"

definition Dispatch ::
  "'w Environment \<Rightarrow> 'j JsonLibrary \<Rightarrow> IpcServer \<Rightarrow> u32 \<Rightarrow> 'j \<Rightarrow> 'w Coordinator \<Rightarrow> ('j, 'w) answer" where
  "Dispatch env L s uid request c =
     (case do {
        operation \<leftarrow> protocol_operation L request;
        (case operation of
           None \<Rightarrow>
             Some (DP_response (Failure L (communication_error ''coordinator protocol version is incompatible'')), [], c)
         | Some operation \<Rightarrow>
             let mutation = (operation = ''request'' \<or> operation = ''cancel'') in
             if \<not> Authorized (is_options s) uid mutation then
               Some (DP_response (Failure L (MakeError EC_permission_denied
                 (if mutation then ''coordinator mutation is not authorized''
                  else ''coordinator observation is not authorized'') 0)), [], c)
             else dispatch_operation env L s uid operation request c)
      } of
        None \<Rightarrow> (DP_terminates, [], c)
      | Some answer \<Rightarrow> answer)"

text \<open>A worker of the server on one connection, up to the response it writes.\<close>

definition server_answer ::
  "'w Environment \<Rightarrow> 'j JsonLibrary \<Rightarrow> IpcServer \<Rightarrow> u32 \<Rightarrow> Received list \<Rightarrow> 'w Coordinator \<Rightarrow> ('j, 'w) answer" where
  "server_answer env L s uid received c =
     (case ReadLine (so_maximum_message_size (is_options s)) received of
        Inl e \<Rightarrow> (DP_response (Failure L e), [], c)
      | Inr content \<Rightarrow>
          (case Ipc_Decode L content of
             None \<Rightarrow> (DP_terminates, [], c)
           | Some (Inl e) \<Rightarrow> (DP_response (Failure L e), [], c)
           | Some (Inr request) \<Rightarrow> Dispatch env L s uid request c))"

section \<open>The client\<close>

text \<open>The step of \<open>Connect\<close> that fails, with the system's error number, and the error it gives.\<close>

datatype ConnectStep =
    CS_socket u64 | CS_cloexec u64 | CS_sigpipe u64 | CS_nonblocking u64 | CS_connect u64 | CS_poll | CS_socket_error u64
  | CS_restore u64 | CS_socket_timeout u64

fun connect_error :: "ConnectStep \<Rightarrow> Error" where
  "connect_error (CS_socket n) = MakeError EC_communication_error ''cannot create coordinator socket'' n"
| "connect_error (CS_cloexec n) = MakeError EC_communication_error ''cannot protect coordinator socket across exec'' n"
| "connect_error (CS_sigpipe n) = MakeError EC_communication_error ''cannot configure coordinator socket signal handling'' n"
| "connect_error (CS_nonblocking n) = MakeError EC_communication_error ''cannot configure coordinator socket'' n"
| "connect_error (CS_connect n) = MakeError EC_backend_unavailable ''cannot connect to execution coordinator'' n"
| "connect_error CS_poll = MakeError EC_deadline_exceeded ''coordinator connection deadline expired'' 0"
| "connect_error (CS_socket_error n) = MakeError EC_backend_unavailable ''execution coordinator is unavailable'' n"
| "connect_error (CS_restore n) = MakeError EC_communication_error ''cannot restore coordinator socket'' n"
| "connect_error (CS_socket_timeout n) = MakeError EC_communication_error ''cannot set coordinator socket deadline'' n"

text \<open>A connection as the client meets it: the step that fails while connecting, what \<open>send\<close>
  accepts, and what \<open>recv\<close> returns once a text was sent.\<close>

record Connection =
  cn_failure :: "ConnectStep option"
  cn_sends :: "nat option list"
  cn_errno :: u64
  cn_reply :: "string \<Rightarrow> Received list"

record IpcClient =
  ic_endpoint :: string
  ic_timeout :: int
  ic_path_size :: nat

definition Ipc_Connect :: "IpcClient \<Rightarrow> int \<Rightarrow> Connection \<Rightarrow> Error option" where
  "Ipc_Connect client timeout cn =
     (if \<not> endpoint_ok (ic_path_size client) (ic_endpoint client) \<or> timeout \<le> 0 then
        Some (MakeError EC_invalid_argument ''invalid coordinator endpoint options'' 0)
      else map_option connect_error (cn_failure cn))"

definition read_response :: "'j JsonLibrary \<Rightarrow> 'j \<Rightarrow> ('j, Error) result option" where
  "read_response L response =
     do {
       b \<leftarrow> at_as L (bool_of L) response ''ok'';
       (case b of
          None \<Rightarrow> Some (Inl (communication_error ''coordinator returned an invalid response''))
        | Some False \<Rightarrow> do { e \<leftarrow> at_as L (DecodeError L) response ''error''; Some (Inl e) }
        | Some True \<Rightarrow> do { v \<leftarrow> js_at L response ''value''; Some (Inr v) })
     }"

definition Ipc_Call ::
  "'j JsonLibrary \<Rightarrow> IpcClient \<Rightarrow> Connection \<Rightarrow> (string \<times> 'j) list \<Rightarrow> int \<Rightarrow> ('j, Error) result option" where
  "Ipc_Call L client cn members timeout =
     (let request = js_object L (members @ [(''version'', js_uint L kProtocolVersion)]);
          effective = (if timeout > 0 then timeout else ic_timeout client) in
      case Ipc_Connect client effective cn of
        Some e \<Rightarrow> Some (Inl e)
      | None \<Rightarrow>
          (let (ok, sent) = Ipc_WriteAll (cn_sends cn) (Ipc_Encode L request) in
           if \<not> ok then Some (Inl (MakeError EC_communication_error ''cannot send coordinator request'' (cn_errno cn)))
           else case ReadLine kClientMaximumMessageSize (cn_reply cn sent) of
             Inl e \<Rightarrow> Some (Inl e)
           | Inr content \<Rightarrow>
               do {
                 response \<leftarrow> Ipc_Decode L content;
                 (case response of Inl e \<Rightarrow> Some (Inl e) | Inr response \<Rightarrow> read_response L response)
               }))"

definition then_decode :: "('j, Error) result option \<Rightarrow> ('j \<Rightarrow> ('a, Error) result option) \<Rightarrow> ('a, Error) result option" where
  "then_decode r f = do { r \<leftarrow> r; (case r of Inl e \<Rightarrow> Some (Inl e) | Inr v \<Rightarrow> f v) }"

abbreviation operation_member :: "'j JsonLibrary \<Rightarrow> string \<Rightarrow> string \<times> 'j" where
  "operation_member L operation \<equiv> (''operation'', js_string L operation)"

definition Client_Snapshot :: "'j JsonLibrary \<Rightarrow> IpcClient \<Rightarrow> Connection \<Rightarrow> (SystemSnapshot, Error) result option" where
  "Client_Snapshot L client cn =
     then_decode (Ipc_Call L client cn [operation_member L ''snapshot''] 0) (DecodeSnapshot L)"

definition Client_Domain ::
  "'j JsonLibrary \<Rightarrow> IpcClient \<Rightarrow> Connection \<Rightarrow> DomainId \<Rightarrow> (ExecutionDomain, Error) result option" where
  "Client_Domain L client cn domain =
     then_decode (Ipc_Call L client cn [operation_member L ''domain'', (''domain'', js_uint L domain)] 0) (DecodeDomain L)"

definition Client_Mode ::
  "'j JsonLibrary \<Rightarrow> IpcClient \<Rightarrow> Connection \<Rightarrow> DomainId \<Rightarrow> ModeId \<Rightarrow> (ExecutionMode, Error) result option" where
  "Client_Mode L client cn domain mode =
     then_decode (Ipc_Call L client cn
       [operation_member L ''mode'', (''domain'', js_uint L domain), (''mode'', js_uint L mode)] 0) (DecodeMode L)"

definition Client_Request ::
  "'j JsonLibrary \<Rightarrow> IpcClient \<Rightarrow> Connection \<Rightarrow> DomainId \<Rightarrow> ModeId \<Rightarrow> int \<Rightarrow> (TransitionId, Error) result option" where
  "Client_Request L client cn domain mode timeout =
     then_decode (Ipc_Call L client cn
       [operation_member L ''request'', (''domain'', js_uint L domain), (''mode'', js_uint L mode),
        (''timeoutMs'', js_int L timeout)] 0)
       (\<lambda>v. do { n \<leftarrow> unsigned_of L v;
                 Some (case n of
                         None \<Rightarrow> Inl (communication_error ''coordinator returned an invalid transition id'')
                       | Some n \<Rightarrow> Inr n) })"

definition Client_Cancel :: "'j JsonLibrary \<Rightarrow> IpcClient \<Rightarrow> Connection \<Rightarrow> TransitionId \<Rightarrow> (unit, Error) result option" where
  "Client_Cancel L client cn transition =
     then_decode (Ipc_Call L client cn [operation_member L ''cancel'', (''transition'', js_uint L transition)] 0) (\<lambda>_. Some (Inr ()))"

definition Client_TransitionState ::
  "'j JsonLibrary \<Rightarrow> IpcClient \<Rightarrow> Connection \<Rightarrow> TransitionId \<Rightarrow> (PublicTransition, Error) result option" where
  "Client_TransitionState L client cn transition =
     then_decode (Ipc_Call L client cn [operation_member L ''transition'', (''transition'', js_uint L transition)] 0)
       (DecodeTransition L)"

text \<open>\<open>Wait\<close> at the time \<open>now\<close>: whole milliseconds are sent as the timeout.\<close>

definition Client_Wait ::
  "'j JsonLibrary \<Rightarrow> IpcClient \<Rightarrow> Connection \<Rightarrow> TransitionId \<Rightarrow> Deadline \<Rightarrow> int \<Rightarrow> (PublicTransition, Error) result option" where
  "Client_Wait L client cn transition deadline now =
     (if deadline \<le> now then Some (Inl (MakeError EC_deadline_exceeded ''transition wait deadline expired'' 0))
      else
        let timeout = (deadline - now) div 1000000 in
        then_decode (Ipc_Call L client cn
          [operation_member L ''wait'', (''transition'', js_uint L transition), (''timeoutMs'', js_int L timeout)]
          (timeout + ic_timeout client)) (DecodeTransition L))"

text \<open>One round of the subscription thread: the revision to go on from, the events given to the handler, and whether the
  thread stops.\<close>

fun take_events :: "'j JsonLibrary \<Rightarrow> EventFilter \<Rightarrow> 'j list \<Rightarrow> u64 \<Rightarrow> (bool \<times> u64 \<times> CoordinatorEvent list) option" where
  "take_events L flt [] revision = Some (False, revision, [])"
| "take_events L flt (v # vs) revision =
     do {
       event \<leftarrow> DecodeEvent L v;
       (case event of
          Inl _ \<Rightarrow> Some (True, revision, [])
        | Inr event \<Rightarrow>
            do {
              (stop, revision, given) \<leftarrow> take_events L flt vs (max revision (ce_revision event));
              Some (stop, revision, (if Matches flt event then [event] else []) @ given)
            })
     }"

definition Client_poll ::
  "'j JsonLibrary \<Rightarrow> IpcClient \<Rightarrow> Connection \<Rightarrow> EventFilter \<Rightarrow> u64 \<Rightarrow> (bool \<times> u64 \<times> CoordinatorEvent list) option" where
  "Client_poll L client cn flt revision =
     do {
       r \<leftarrow> Ipc_Call L client cn [operation_member L ''events'', (''afterRevision'', js_uint L revision)] 0;
       (case r of
          Inl _ \<Rightarrow> Some (False, revision, [])
        | Inr v \<Rightarrow> if js_isArray L v then take_events L flt (js_elements L v) revision else Some (False, revision, []))
     }"

text \<open>\<open>ConnectCoordinatorIpc\<close>; an exception is reported as exhaustion. The text of the version error is left out of the message.\<close>

definition read_hello :: "'j JsonLibrary \<Rightarrow> 'j \<Rightarrow> (unit, Error) result option" where
  "read_hello L v =
     do {
       p \<leftarrow> js_at L v ''protocol'';
       n \<leftarrow> (if js_isIntegral L p then map_option Some (js_asUInt L p) else Some None);
       (if n = Some 1 then Some (Inr ())
        else do {
          support \<leftarrow> js_asUInt L p;
          Some (Inl (MakeError EC_incompatible_abi ''coordinator protocol version is incompatible: '' (ucast support)))
        })
     }"

definition ConnectCoordinatorIpc :: "'j JsonLibrary \<Rightarrow> IpcClient \<Rightarrow> Connection \<Rightarrow> (IpcClient, Error) result" where
  "ConnectCoordinatorIpc L client cn =
     (if ic_endpoint client = [] then Inl (MakeError EC_invalid_argument ''coordinator endpoint is required'' 0)
      else map_sum id (\<lambda>_. client) (caught ''cannot allocate coordinator IPC client''
             (then_decode (Ipc_Call L client cn [operation_member L ''hello''] 0) (read_hello L))))"

text \<open>\<open>Subscribe\<close> up to the start of the thread: the revision the polling starts from.\<close>

definition Client_Subscribe :: "'j JsonLibrary \<Rightarrow> IpcClient \<Rightarrow> Connection \<Rightarrow> bool \<Rightarrow> (u64, Error) result option" where
  "Client_Subscribe L client cn handler =
     (if \<not> handler then Some (Inl (MakeError EC_invalid_argument ''event handler is required'' 0))
      else map_option (map_sum id sn_revision) (Client_Snapshot L client cn))"

section \<open>The threads of the server\<close>

text \<open>What \<open>StartCoordinatorServer\<close> meets: the system call that fails, if any, and whether threads and memory can be had.\<close>

datatype ListenStep = LS_socket u64 | LS_cloexec u64 | LS_bind bool u64 | LS_activate u64

fun listen_error :: "ListenStep \<Rightarrow> Error" where
  "listen_error (LS_socket n) = MakeError EC_communication_error ''cannot create coordinator listener'' n"
| "listen_error (LS_cloexec n) = MakeError EC_communication_error ''cannot protect coordinator listener across exec'' n"
| "listen_error (LS_bind in_use n) =
     MakeError (if in_use then EC_busy else EC_communication_error) ''cannot bind coordinator endpoint'' n"
| "listen_error (LS_activate n) = MakeError EC_communication_error ''cannot activate coordinator endpoint'' n"

definition every_event :: EventFilter where
  "every_event = \<lparr>ef_transitions = True, ef_configuration = True, ef_recovery = True, ef_domain = None\<rparr>"

definition Server_Start ::
  "bool \<Rightarrow> EventHandler \<Rightarrow> IpcServer \<Rightarrow> 'w Coordinator \<Rightarrow> (IpcServer, Error) result \<times> 'w Coordinator" where
  "Server_Start threads handler s c =
     (case SystemCoordinator_Subscribe True every_event (Some handler) c of
        (Inl e, c) \<Rightarrow> (Inl e, c)
      | (Inr sub, c) \<Rightarrow>
          if threads then (Inr s, c)
          else (Inl (MakeError EC_resource_exhausted ''cannot create coordinator IPC workers'' 0), snd (EventSubscription_Reset sub c)))"

definition StartCoordinatorServer ::
  "nat \<Rightarrow> ListenStep option \<Rightarrow> bool \<Rightarrow> bool \<Rightarrow> EventHandler \<Rightarrow> CoordinatorServerOptions \<Rightarrow> 'w Coordinator
     \<Rightarrow> (IpcServer, Error) result \<times> 'w Coordinator" where
  "StartCoordinatorServer path_size failing memory threads handler options c =
     (case check_server_options path_size options of
        Some e \<Rightarrow> (Inl e, c)
      | None \<Rightarrow>
          (case failing of
             Some step \<Rightarrow> (Inl (listen_error step), c)
           | None \<Rightarrow>
               if memory then Server_Start threads handler (IpcServer_Create options) c
               else (Inl (MakeError EC_resource_exhausted ''cannot allocate coordinator server'' 0), c)))"

text \<open>A round of \<open>Accept\<close>: what \<open>poll\<close> and \<open>accept\<close> report; the result is whether the loop goes on.\<close>

datatype PollResult = PO_timeout | PO_interrupted | PO_failed | PO_other | PO_readable

datatype AcceptResult = AP_interrupted | AP_failed | AP_unprepared | AP_descriptor nat "(u32, Error) result"

definition Accept_round :: "PollResult \<Rightarrow> AcceptResult \<Rightarrow> IpcServer \<Rightarrow> bool \<times> IpcServer" where
  "Accept_round polled accepted s =
     (case polled of
        PO_timeout \<Rightarrow> (True, s)
      | PO_interrupted \<Rightarrow> (True, s)
      | PO_failed \<Rightarrow> (False, s)
      | PO_other \<Rightarrow> (False, s)
      | PO_readable \<Rightarrow>
          (case accepted of
             AP_interrupted \<Rightarrow> (True, s)
           | AP_failed \<Rightarrow> (False, s)
           | AP_unprepared \<Rightarrow> (True, s)
           | AP_descriptor descriptor uid \<Rightarrow> (True, snd (Accept_connection descriptor uid s))))"

text \<open>The threads: what each worker does, whether the acceptor still runs, and whether the destructor has begun. The
  acceptor has passed its check of \<open>stopping_\<close> when a round starts, so that a round may follow the destructor's first step;
  a descriptor that \<open>accept\<close> returns is not one that is still open.\<close>

datatype IpcWorker = IW_idle | IW_serving nat | IW_returned

record ServerThreads =
  th_server :: IpcServer
  th_workers :: "IpcWorker list"
  th_accepting :: bool
  th_stopping :: bool

inductive threads_step :: "ServerThreads \<Rightarrow> ServerThreads \<Rightarrow> bool" where
  ts_accept: "th_accepting t \<Longrightarrow> Accept_round polled accepted (th_server t) = (going, s) \<Longrightarrow>
    (\<forall>d uid. accepted = AP_descriptor d uid \<longrightarrow> d \<notin> set (is_active (th_server t))) \<Longrightarrow>
    threads_step t (t\<lparr>th_server := s, th_accepting := going\<rparr>)"
| ts_accept_ends: "th_accepting t \<Longrightarrow> th_stopping t \<Longrightarrow> threads_step t (t\<lparr>th_accepting := False\<rparr>)"
| ts_take: "i < length (th_workers t) \<Longrightarrow> th_workers t ! i = IW_idle \<Longrightarrow> server_take (th_server t) = (Some w, s) \<Longrightarrow>
    threads_step t (t\<lparr>th_server := s, th_workers := (th_workers t)[i := IW_serving (wk_descriptor w)]\<rparr>)"
| ts_served: "i < length (th_workers t) \<Longrightarrow> th_workers t ! i = IW_serving d \<Longrightarrow>
    threads_step t (t\<lparr>th_server := server_release d (th_server t), th_workers := (th_workers t)[i := IW_idle]\<rparr>)"
| ts_returns: "i < length (th_workers t) \<Longrightarrow> th_workers t ! i = IW_idle \<Longrightarrow> th_stopping t \<Longrightarrow> is_queue (th_server t) = [] \<Longrightarrow>
    threads_step t (t\<lparr>th_workers := (th_workers t)[i := IW_returned]\<rparr>)"
| ts_event: "threads_step t (t\<lparr>th_server := push_event event (th_server t)\<rparr>)"
| ts_stop: "threads_step t (t\<lparr>th_stopping := True\<rparr>)"

definition threads_start :: "IpcServer \<Rightarrow> ServerThreads" where
  "threads_start s = \<lparr>th_server = s, th_workers = replicate (so_worker_count (is_options s)) IW_idle, th_accepting = True,
     th_stopping = False\<rparr>"

inductive threads_run :: "ServerThreads \<Rightarrow> ServerThreads \<Rightarrow> bool" where
  run_none: "threads_run t t"
| run_more: "threads_run t t' \<Longrightarrow> threads_step t' t'' \<Longrightarrow> threads_run t t''"

end
