(* ===== verification/Exec_Ipc_Client.thy ===== *)
theory Exec_Ipc_Client
  imports Exec_Ipc
begin

text \<open>
  What the protocol guarantees. The locale \<open>json_library\<close> states the documented behaviour of the JSON library the code
  relies on; in it every decoder inverts its encoder, a message is read from any pieces it arrives in, and a call over a
  connection that carries the texts (\<open>faithful\<close>) returns what the server's dispatch answers. \<open>remote_client_refines_local\<close>
  puts this together for the operations of a client. The locale is interpreted on a small JSON library with a writer and a
  reader (\<open>json_lib\<close>), on which the witnesses run. The server's threads are a step relation with the bounds as its invariant.
\<close>

section \<open>What the protocol relies on of the library\<close>

text \<open>Documented behaviour of the JSON library: what is built is read back, integers with their ranges, and a value whose
  strings are textual and whose nesting is moderate is written on one line that the reader reads back. \<open>textual\<close> are the strings
  a JSON document can hold, \<open>ok n\<close> the values nested at most \<open>n\<close> deep; the reader's limit is far above 100.\<close>

named_theorems json_simps

locale json_library =
  fixes L :: "'j JsonLibrary" and textual :: "string \<Rightarrow> bool" and ok :: "nat \<Rightarrow> 'j \<Rightarrow> bool"
  assumes at_object: "distinct (map fst m) \<Longrightarrow>
      js_at L (js_object L m) k = Some (case map_of m k of None \<Rightarrow> js_null L | Some v \<Rightarrow> v)"
    and isMember_object: "distinct (map fst m) \<Longrightarrow> js_isMember L (js_object L m) k \<longleftrightarrow> k \<in> fst ` set m"
    and isObject_object [simp]: "js_isObject L (js_object L m)"
    and isArray_array [simp]: "js_isArray L (js_array L vs)"
    and elements_array [simp]: "js_elements L (js_array L vs) = vs"
    and isBool_bool [simp]: "js_isBool L (js_bool L b)"
    and asBool_bool [simp]: "js_asBool L (js_bool L b) = Some b"
    and isString_string [simp]: "js_isString L (js_string L s)"
    and asString_string [simp]: "js_asString L (js_string L s) = Some s"
    and isIntegral_uint [simp]: "js_isIntegral L (js_uint L n)"
    and isInt64_uint: "js_isInt64 L (js_uint L n) \<longleftrightarrow> uint n < 2 ^ 63"
    and asInt64_uint: "uint n < 2 ^ 63 \<Longrightarrow> js_asInt64 L (js_uint L n) = Some (uint n)"
    and asUInt64_uint [simp]: "js_asUInt64 L (js_uint L n) = Some n"
    and asUInt_uint: "uint n < 2 ^ 32 \<Longrightarrow> js_asUInt L (js_uint L n) = Some (ucast n)"
    and isIntegral_int: "- (2 ^ 63) \<le> i \<Longrightarrow> i < 2 ^ 63 \<Longrightarrow> js_isIntegral L (js_int L i)"
    and asInt64_int: "- (2 ^ 63) \<le> i \<Longrightarrow> i < 2 ^ 63 \<Longrightarrow> js_asInt64 L (js_int L i) = Some i"
    and asInt_int: "- (2 ^ 31) \<le> i \<Longrightarrow> i < 2 ^ 31 \<Longrightarrow> js_asInt L (js_int L i) = Some (word_of_int i)"
    and asInt_range: "i < - (2 ^ 31) \<or> 2 ^ 31 \<le> i \<Longrightarrow> js_asInt L (js_int L i) = None"
    and asUInt64_negative: "i < 0 \<Longrightarrow> js_asUInt64 L (js_int L i) = None"
    and read_write: "ok 100 v \<Longrightarrow> js_read L (js_write L v) = JR_value v"
    and write_line: "ok l v \<Longrightarrow> CHR 0x0A \<notin> set (js_write L v)"
    and ok_null: "ok l (js_null L)" and ok_bool: "ok l (js_bool L b)" and ok_uint: "ok l (js_uint L w)"
    and ok_int: "- (2 ^ 63) \<le> i \<Longrightarrow> i < 2 ^ 63 \<Longrightarrow> ok l (js_int L i)"
    and ok_string: "textual s \<Longrightarrow> ok l (js_string L s)"
    and ok_array: "(\<And>v. v \<in> set vs \<Longrightarrow> ok l v) \<Longrightarrow> ok (Suc l) (js_array L vs)"
    and ok_object: "distinct (map fst m) \<Longrightarrow> (\<And>k v. (k, v) \<in> set m \<Longrightarrow> textual k \<and> ok l v) \<Longrightarrow> ok (Suc l) (js_object L m)"
    and ok_mono: "ok l v \<Longrightarrow> l \<le> l' \<Longrightarrow> ok l' v"
    and textual_ascii: "(\<forall>c \<in> set s. 32 \<le> (of_char c :: nat) \<and> of_char c < (127 :: nat)) \<Longrightarrow> textual s"
begin

lemma IsUnsignedInteger_uint [simp]: "IsUnsignedInteger L (js_uint L n)"
  by (simp add: IsUnsignedInteger_def isInt64_uint asInt64_uint)

lemma unsigned_of_uint [simp]: "unsigned_of L (js_uint L n) = Some (Some n)"
  by (simp add: unsigned_of_def)

lemma string_of_string [simp]: "string_of L (js_string L s) = Some (Some s)"
  by (simp add: string_of_def)

lemma bool_of_bool [simp]: "bool_of L (js_bool L b) = Some (Some b)"
  by (simp add: bool_of_def)

lemma enum_of_value:
  assumes "x \<in> set xs" and "length xs \<le> 100"
  shows "enum_of L xs (enum_value L xs x) = Some (Some x)"
proof -
  let ?i = "index_of xs x"
  have i: "?i < length xs" by (rule index_of_less [OF assms(1)])
  have u: "uint (of_nat ?i :: u64) = int ?i"
    using i assms(2) by (simp add: uint_nat unat_of_nat take_bit_nat_eq_self)
  have last: "\<not> (of_nat ?i :: u64) > of_nat k" if "k = length xs - 1" for k
  proof -
    have "?i \<le> k" "k < 100" using i assms(2) that by simp_all
    then show ?thesis by (simp add: word_less_nat_alt unat_of_nat take_bit_nat_eq_self)
  qed
  have "\<not> (of_nat ?i :: u64) > of_nat (length xs - 1)" by (rule last) (rule refl)
  moreover have "unat (ucast (of_nat ?i :: u64) :: u32) = ?i"
    using i assms(2) by (simp add: unsigned_ucast_eq unat_of_nat take_bit_nat_eq_self take_bit_nat_eq_self)
  ultimately show ?thesis
    using u i assms(2) nth_index_of [OF assms(1)] by (simp add: enum_of_def enum_value_def asUInt_uint)
qed

lemma at_as_object:
  "distinct (map fst m) \<Longrightarrow> map_of m k = Some v \<Longrightarrow> at_as L f (js_object L m) k = f v"
  by (simp add: at_as_def at_object)

lemma optional_at_object:
  assumes "distinct (map fst m)"
    and "case x of None \<Rightarrow> k \<notin> fst ` set m | Some a \<Rightarrow> map_of m k = Some (g a) \<and> f (g a) = Some (Some a)"
  shows "optional_at L f message (js_object L m) k = Some (Inr x)"
proof (cases x)
  case None
  then show ?thesis using assms by (simp add: optional_at_def isMember_object)
next
  case (Some a)
  then have "map_of m k = Some (g a)" "f (g a) = Some (Some a)" using assms(2) by simp_all
  moreover have "k \<in> fst ` set m" using calculation(1) by (force dest: map_of_SomeD)
  ultimately show ?thesis using assms(1) Some by (simp add: optional_at_def isMember_object at_as_object)
qed

end

lemma in_application_states [simp]: "x \<in> set application_states"
  by (cases x) (simp_all add: application_states_def)

lemma in_domain_statuses [simp]: "x \<in> set domain_statuses"
  by (cases x) (simp_all add: domain_statuses_def)

lemma in_unit_kinds [simp]: "x \<in> set unit_kinds"
  by (cases x) (simp_all add: unit_kinds_def)

lemma in_event_kinds [simp]: "x \<in> set event_kinds"
  by (cases x) (simp_all add: event_kinds_def)

lemma enum_lengths [simp]:
  "length application_states \<le> 100" "length domain_statuses \<le> 100" "length unit_kinds \<le> 100" "length event_kinds \<le> 100"
  "length transition_phases \<le> 100" "length error_codes \<le> 100" "length failure_actions \<le> 100"
  by (simp_all add: application_states_def domain_statuses_def unit_kinds_def event_kinds_def transition_phases_def
      error_codes_def failure_actions_def)

section \<open>Decoding inverts encoding\<close>

text \<open>What an encoded message can hold: time points of 64 bits, and no reserved identifier or absent error where the decoder
  rejects it.\<close>

definition failure_codable :: "TransitionFailureSnapshot \<Rightarrow> bool" where
  "failure_codable f \<longleftrightarrow>
     0 \<notin> set (pf_recovery_stopped f) \<and> 0 \<notin> set (pf_recovery_started f) \<and>
     (case pf_recovery_error f of None \<Rightarrow> True | Some e \<Rightarrow> err_code e \<noteq> EC_none)"

definition transition_codable :: "PublicTransition \<Rightarrow> bool" where
  "transition_codable t \<longleftrightarrow>
     - (2 ^ 63) \<le> pt_updated_at t \<and> pt_updated_at t < 2 ^ 63 \<and>
     (case pt_failure t of None \<Rightarrow> True | Some f \<Rightarrow> failure_codable f)"

context json_library
begin

lemma DecodeError_value: "DecodeError L (ErrorValue L e) = Some e"
  by (cases e) (simp add: DecodeError_def ErrorValue_def at_as_object enum_of_value MakeError_def)

lemma decode_applications_value:
  "0 \<notin> set ns \<Longrightarrow> decode_applications L message (map (js_uint L) ns) = Some (Inr ns)"
  by (induction ns) auto

lemma decode_all_value:
  "(\<And>x. x \<in> set xs \<Longrightarrow> f (g x) = Some (Inr x)) \<Longrightarrow> decode_all f (map g xs) = Some (Inr xs)"
  by (induction xs) auto

lemma DecodeMode_value: "DecodeMode L (ModeValue L m) = Some (Inr m)"
  by (cases m) (simp add: DecodeMode_def ModeValue_def at_as_object)

lemma DecodeApplication_value: "DecodeApplication L (ApplicationValue L a) = Some (Inr a)"
  by (cases a) (simp add: DecodeApplication_def ApplicationValue_def at_as_object enum_of_value)

lemma DecodeUnit_value: "DecodeUnit L (UnitValue L u) = Some (Inr u)"
  by (cases u) (simp add: DecodeUnit_def UnitValue_def at_as_object enum_of_value)

lemma DecodeEvent_value: "DecodeEvent L (EventValue L e) = Some (Inr e)"
proof -
  let ?m = "[(''kind'', enum_value L event_kinds (ce_kind e)), (''revision'', js_uint L (ce_revision e))] @
        optional_member ''transition'' (js_uint L) (ce_transition e) @ optional_member ''domain'' (js_uint L) (ce_domain e)"
  have d: "distinct (map fst ?m)" by (simp add: optional_member_def split: option.split)
  have "optional_at L (unsigned_of L) a (js_object L ?m) ''transition'' = Some (Inr (ce_transition e))" for a
    by (rule optional_at_object [OF d, where g = "js_uint L"]) (auto simp: optional_member_def split: option.splits)
  moreover have "optional_at L (unsigned_of L) a (js_object L ?m) ''domain'' = Some (Inr (ce_domain e))" for a
    by (rule optional_at_object [OF d, where g = "js_uint L"]) (auto simp: optional_member_def split: option.splits)
  moreover have "at_as L (enum_of L event_kinds) (js_object L ?m) ''kind'' = Some (Some (ce_kind e))"
    "at_as L (unsigned_of L) (js_object L ?m) ''revision'' = Some (Some (ce_revision e))"
    by (subst at_as_object [OF d], simp, simp add: enum_of_value)+
  ultimately show ?thesis unfolding DecodeEvent_def EventValue_def by simp
qed

lemma DecodeDomain_value: "DecodeDomain L (DomainValue L x) = Some (Inr x)"
proof -
  let ?m = "[(''id'', js_uint L (ed_id x)), (''name'', js_string L (ed_name x)),
         (''committedMode'', js_uint L (ed_committed_mode x)), (''status'', enum_value L domain_statuses (ed_status x))] @
        optional_member ''targetMode'' (js_uint L) (ed_target_mode x) @
        optional_member ''activeTransition'' (js_uint L) (ed_active_transition x)"
  have d: "distinct (map fst ?m)" by (simp add: optional_member_def split: option.split)
  have "optional_at L (unsigned_of L) a (js_object L ?m) ''targetMode'' = Some (Inr (ed_target_mode x))" for a
    by (rule optional_at_object [OF d, where g = "js_uint L"]) (auto simp: optional_member_def split: option.splits)
  moreover have "optional_at L (unsigned_of L) a (js_object L ?m) ''activeTransition'' = Some (Inr (ed_active_transition x))" for a
    by (rule optional_at_object [OF d, where g = "js_uint L"]) (auto simp: optional_member_def split: option.splits)
  moreover have "at_as L (unsigned_of L) (js_object L ?m) ''id'' = Some (Some (ed_id x))"
    "at_as L (string_of L) (js_object L ?m) ''name'' = Some (Some (ed_name x))"
    "at_as L (unsigned_of L) (js_object L ?m) ''committedMode'' = Some (Some (ed_committed_mode x))"
    "at_as L (enum_of L domain_statuses) (js_object L ?m) ''status'' = Some (Some (ed_status x))"
    by (subst at_as_object [OF d], simp, simp add: enum_of_value)+
  ultimately show ?thesis unfolding DecodeDomain_def DomainValue_def by simp
qed

end

context json_library
begin

lemma asInt_sint: "js_asInt L (js_int L (sint (w :: i32))) = Some w"
  using sint_range_size [of w] by (simp add: asInt_int word_size)

lemma isIntegral_sint: "js_isIntegral L (js_int L (sint (w :: i32)))"
  using sint_range_size [of w] by (simp add: isIntegral_int word_size)

lemma recovery_error_value: "err_code e \<noteq> EC_none \<Longrightarrow> recovery_error_of L (ErrorValue L e) = Some (Some e)"
  by (simp add: recovery_error_of_def DecodeError_value)

lemma DecodeFailure_value:
  assumes ok: "failure_codable f"
  shows "DecodeFailure L (FailureValue L f) = Some (Inr f)"
proof -
  define m where "m = [(''error'', ErrorValue L (pf_error f))] @
        optional_member ''application'' (js_uint L) (pf_application f) @
        [(''exitCode'', js_int L (sint (pf_exit_code f))), (''signal'', js_int L (sint (pf_signal f))),
         (''backendCode'', js_uint L (pf_backend_code f)), (''backendMessage'', js_string L (pf_backend_message f)),
         (''recoveryAction'', enum_value L failure_actions (pf_recovery_action f)),
         (''recoveryAttempted'', js_bool L (pf_recovery_attempted f)),
         (''recoverySucceeded'', js_bool L (pf_recovery_succeeded f))] @
        optional_member ''recoveryError'' (ErrorValue L) (pf_recovery_error f) @
        optional_member ''recoveredMode'' (js_uint L) (pf_recovered_mode f) @
        [(''recoveryStoppedApplications'', js_array L (map (js_uint L) (pf_recovery_stopped f))),
         (''recoveryStartedApplications'', js_array L (map (js_uint L) (pf_recovery_started f)))]"
  have v: "FailureValue L f = js_object L m" by (simp add: FailureValue_def m_def)
  have d: "distinct (map fst m)" by (simp add: m_def optional_member_def split: option.split)
  have at: "map_of m ''error'' = Some (ErrorValue L (pf_error f))"
    "map_of m ''exitCode'' = Some (js_int L (sint (pf_exit_code f)))" "map_of m ''signal'' = Some (js_int L (sint (pf_signal f)))"
    "map_of m ''backendCode'' = Some (js_uint L (pf_backend_code f))"
    "map_of m ''backendMessage'' = Some (js_string L (pf_backend_message f))"
    "map_of m ''recoveryAction'' = Some (enum_value L failure_actions (pf_recovery_action f))"
    "map_of m ''recoveryAttempted'' = Some (js_bool L (pf_recovery_attempted f))"
    "map_of m ''recoverySucceeded'' = Some (js_bool L (pf_recovery_succeeded f))"
    "map_of m ''recoveryStoppedApplications'' = Some (js_array L (map (js_uint L) (pf_recovery_stopped f)))"
    "map_of m ''recoveryStartedApplications'' = Some (js_array L (map (js_uint L) (pf_recovery_started f)))"
    by (simp_all add: m_def optional_member_def split: option.split)
  have app: "optional_at L (unsigned_of L) a (js_object L m) ''application'' = Some (Inr (pf_application f))" for a
    by (rule optional_at_object [OF d, where g = "js_uint L"]) (auto simp: m_def optional_member_def split: option.splits)
  have mode: "optional_at L (unsigned_of L) a (js_object L m) ''recoveredMode'' = Some (Inr (pf_recovered_mode f))" for a
    by (rule optional_at_object [OF d, where g = "js_uint L"]) (auto simp: m_def optional_member_def split: option.splits)
  have err: "optional_at L (recovery_error_of L) a (js_object L m) ''recoveryError'' = Some (Inr (pf_recovery_error f))" for a
    by (rule optional_at_object [OF d, where g = "ErrorValue L"])
      (use ok in \<open>auto simp: m_def optional_member_def failure_codable_def recovery_error_value split: option.splits\<close>)
  have fields: "failure_fields L (js_object L m) = Some (Some (pf_backend_code f, pf_backend_message f, pf_recovery_action f,
      pf_recovery_attempted f, pf_recovery_succeeded f))"
    by (simp add: failure_fields_def at_object d at at_as_object enum_of_value IsSignedInteger_def isIntegral_sint)
  have evidence: "decode_recovery_evidence L (js_object L m) = Some (Inr (pf_recovery_stopped f, pf_recovery_started f))"
    using ok by (simp add: decode_recovery_evidence_def at_object d at failure_codable_def decode_applications_value)
  show ?thesis
    by (simp add: v DecodeFailure_def fields at_as_object d at DecodeError_value asInt_sint app mode err evidence caught_def)
qed

lemma DecodeTransition_value:
  assumes ok: "transition_codable t"
  shows "DecodeTransition L (TransitionValue L t) = Some (Inr t)"
proof -
  define m where "m = [(''id'', js_uint L (pt_id t)), (''domain'', js_uint L (pt_domain t)),
         (''sourceMode'', js_uint L (pt_source_mode t)), (''targetMode'', js_uint L (pt_target_mode t)),
         (''phase'', enum_value L transition_phases (pt_phase t)), (''updatedNs'', js_int L (pt_updated_at t))] @
        optional_member ''failure'' (FailureValue L) (pt_failure t)"
  have v: "TransitionValue L t = js_object L m" by (simp add: TransitionValue_def m_def)
  have d: "distinct (map fst m)" by (simp add: m_def optional_member_def split: option.split)
  have at: "map_of m ''id'' = Some (js_uint L (pt_id t))" "map_of m ''domain'' = Some (js_uint L (pt_domain t))"
    "map_of m ''sourceMode'' = Some (js_uint L (pt_source_mode t))" "map_of m ''targetMode'' = Some (js_uint L (pt_target_mode t))"
    "map_of m ''phase'' = Some (enum_value L transition_phases (pt_phase t))"
    "map_of m ''updatedNs'' = Some (js_int L (pt_updated_at t))"
    by (simp_all add: m_def optional_member_def split: option.split)
  have mem: "js_isMember L (js_object L m) ''failure'' \<longleftrightarrow> pt_failure t \<noteq> None"
    using d by (auto simp: isMember_object) (auto simp: m_def optional_member_def split: option.splits)
  have fail: "at_as L (DecodeFailure L) (js_object L m) ''failure'' = Some (Inr f)" if "pt_failure t = Some f" for f
    using that ok DecodeFailure_value [of f]
    by (subst at_as_object [OF d]) (simp_all add: m_def optional_member_def transition_codable_def)
  have n: "js_asInt64 L (js_int L (pt_updated_at t)) = Some (pt_updated_at t)" "js_isIntegral L (js_int L (pt_updated_at t))"
    using ok by (simp_all add: transition_codable_def asInt64_int isIntegral_int)
  have fs: "at_as L (unsigned_of L) (js_object L m) ''id'' = Some (Some (pt_id t))"
    "at_as L (unsigned_of L) (js_object L m) ''domain'' = Some (Some (pt_domain t))"
    "at_as L (unsigned_of L) (js_object L m) ''sourceMode'' = Some (Some (pt_source_mode t))"
    "at_as L (unsigned_of L) (js_object L m) ''targetMode'' = Some (Some (pt_target_mode t))"
    "at_as L (enum_of L transition_phases) (js_object L m) ''phase'' = Some (Some (pt_phase t))"
    "js_at L (js_object L m) ''updatedNs'' = Some (js_int L (pt_updated_at t))"
    by (simp_all add: at_as_object [OF d] at_object [OF d] at enum_of_value)
  have t: "\<lparr>pt_id = pt_id t, pt_domain = pt_domain t, pt_source_mode = pt_source_mode t, pt_target_mode = pt_target_mode t,
      pt_phase = pt_phase t, pt_updated_at = pt_updated_at t, pt_failure = pt_failure t\<rparr> = t" by (cases t) simp
  show ?thesis
  proof (cases "pt_failure t")
    case None
    then show ?thesis unfolding v DecodeTransition_def using t by (simp add: fs n mem IsSignedInteger_def)
  next
    case (Some f)
    then show ?thesis unfolding v DecodeTransition_def using t by (simp add: fs n mem fail IsSignedInteger_def)
  qed
qed

lemma DecodeSnapshot_value:
  assumes "\<forall>t \<in> set (sn_transitions s). transition_codable t"
  shows "DecodeSnapshot L (SnapshotValue L s) = Some (Inr s)"
proof -
  have "decode_lists L (SnapshotValue L s) = Some (Inr (sn_domains s, sn_applications s, sn_units s, sn_transitions s))"
    using assms
    by (simp add: decode_lists_def SnapshotValue_def decode_member_def at_object decode_all_value DecodeDomain_value
        DecodeApplication_value DecodeUnit_value DecodeTransition_value)
  then show ?thesis
    by (cases s) (simp add: DecodeSnapshot_def SnapshotValue_def at_as_object at_object caught_def)
qed

end

section \<open>Lines over a connection\<close>

text \<open>The outcomes of \<open>recv\<close> deliver a text: pieces of any size, with interruptions in between.\<close>

fun delivers :: "Received list \<Rightarrow> string \<Rightarrow> bool" where
  "delivers [] txt \<longleftrightarrow> txt = []"
| "delivers (RC_interrupted # rs) txt \<longleftrightarrow> delivers rs txt"
| "delivers (RC_bytes bs # rs) txt \<longleftrightarrow> bs \<noteq> [] \<and> take (length bs) txt = bs \<and> delivers rs (drop (length bs) txt)"
| "delivers (RC_closed # rs) txt \<longleftrightarrow> False"

lemma takeWhile_line: "CHR 0x0A \<notin> set line \<Longrightarrow> takeWhile (\<lambda>c. c \<noteq> CHR 0x0A) (line @ CHR 0x0A # rest) = line"
  by (induction line) auto

lemma read_line_delivers:
  assumes "delivers rs (line @ CHR 0x0A # rest)" and "CHR 0x0A \<notin> set line" and "length (content @ line) \<le> maximum"
  shows "read_line maximum content rs = Inr (content @ line)"
  using assms
proof (induction maximum content rs arbitrary: line rule: read_line.induct)
  case (4 maximum content buffer rs)
  let ?txt = "line @ CHR 0x0A # rest"
  have b: "buffer \<noteq> []" "buffer = take (length buffer) ?txt" "delivers rs (drop (length buffer) ?txt)" using "4.prems"(1) by auto
  show ?case
  proof (cases "length buffer \<le> length line")
    case True
    then have bl: "buffer = take (length buffer) line" using b(2) by simp
    then have n: "CHR 0x0A \<notin> set buffer" using "4.prems"(2) by (metis in_set_takeD)
    then have t: "takeWhile (\<lambda>c. c \<noteq> CHR 0x0A) buffer = buffer" by (auto simp: takeWhile_eq_all_conv)
    have "delivers rs (drop (length buffer) line @ CHR 0x0A # rest)" using b(3) True by simp
    moreover have "CHR 0x0A \<notin> set (drop (length buffer) line)" using "4.prems"(2) by (metis in_set_dropD)
    moreover have "(content @ buffer) @ drop (length buffer) line = content @ line" using bl by (metis append.assoc append_take_drop_id)
    moreover have len: "\<not> maximum - length content < length buffer" using "4.prems"(3) True by simp
    ultimately have "read_line maximum (content @ buffer) rs = Inr (content @ line)"
      using "4.IH" [of "takeWhile (\<lambda>c. c \<noteq> CHR 0x0A) buffer" "drop (length buffer) line"] b(1) n "4.prems"(3) True
      unfolding t by (simp add: len)
    then show ?thesis unfolding read_line.simps Let_def t using b(1) n len by simp
  next
    case False
    then obtain r where r: "buffer = line @ CHR 0x0A # r"
      using b(2) by (cases "length buffer - length line") auto
    then show ?thesis using "4.prems"(2,3) by (simp add: Let_def takeWhile_line)
  qed
qed auto

lemma ReadLine_delivers:
  "delivers rs (line @ [CHR 0x0A]) \<Longrightarrow> CHR 0x0A \<notin> set line \<Longrightarrow> length line \<le> maximum \<Longrightarrow> ReadLine maximum rs = Inr line"
  using read_line_delivers [of rs line "[]" "[]" maximum] by (simp add: ReadLine_def)

lemma Ipc_WriteAll_sent: "Ipc_WriteAll outcomes content = (True, sent) \<Longrightarrow> sent = content"
  by (induction outcomes content arbitrary: sent rule: Ipc_WriteAll.induct) (auto split: prod.splits if_splits)

section \<open>A remote client and a local one\<close>

text \<open>The operations of \<open>CoordinatorClient\<close> that answer at once, their results, and both implementations.\<close>

datatype ClientOperation =
    CO_snapshot | CO_domain DomainId | CO_mode DomainId ModeId | CO_request DomainId ModeId int | CO_cancel TransitionId
  | CO_transition TransitionId

datatype ClientResult =
    CR_snapshot "(SystemSnapshot, Error) result" | CR_domain "(ExecutionDomain, Error) result"
  | CR_mode "(ExecutionMode, Error) result" | CR_request "(TransitionId, Error) result" | CR_cancel "(unit, Error) result"
  | CR_transition "(PublicTransition, Error) result"

fun local_client ::
  "'w Environment \<Rightarrow> ClientOperation \<Rightarrow> 'w Coordinator \<Rightarrow> (ClientResult \<times> Deliveries \<times> 'w Coordinator) option" where
  "local_client env CO_snapshot c = (let (r, c) = CoordinatorSnapshot env c in Some (CR_snapshot r, [], c))"
| "local_client env (CO_domain d) c = (let (r, c) = Domain env d c in Some (CR_domain r, [], c))"
| "local_client env (CO_mode d m) c = Some (CR_mode (Mode d m c), [], c)"
| "local_client env (CO_request d m t) c =
     map_option (\<lambda>(r, calls, c). (CR_request r, calls, c)) (Request env d m t c)"
| "local_client env (CO_cancel i) c = map_option (\<lambda>(r, c). (CR_cancel r, [], c)) (Coordinator_Cancel env i c)"
| "local_client env (CO_transition i) c = (let (r, c) = TransitionState env i c in Some (CR_transition r, [], c))"

fun remote_client :: "'j JsonLibrary \<Rightarrow> IpcClient \<Rightarrow> Connection \<Rightarrow> ClientOperation \<Rightarrow> ClientResult option" where
  "remote_client L client cn CO_snapshot = map_option CR_snapshot (Client_Snapshot L client cn)"
| "remote_client L client cn (CO_domain d) = map_option CR_domain (Client_Domain L client cn d)"
| "remote_client L client cn (CO_mode d m) = map_option CR_mode (Client_Mode L client cn d m)"
| "remote_client L client cn (CO_request d m t) = map_option CR_request (Client_Request L client cn d m t)"
| "remote_client L client cn (CO_cancel i) = map_option CR_cancel (Client_Cancel L client cn i)"
| "remote_client L client cn (CO_transition i) = map_option CR_transition (Client_TransitionState L client cn i)"

fun operation_name :: "ClientOperation \<Rightarrow> string" where
  "operation_name CO_snapshot = ''snapshot''"
| "operation_name (CO_domain d) = ''domain''"
| "operation_name (CO_mode d m) = ''mode''"
| "operation_name (CO_request d m t) = ''request''"
| "operation_name (CO_cancel i) = ''cancel''"
| "operation_name (CO_transition i) = ''transition''"

fun operation_arguments :: "'j JsonLibrary \<Rightarrow> ClientOperation \<Rightarrow> (string \<times> 'j) list" where
  "operation_arguments L CO_snapshot = []"
| "operation_arguments L (CO_domain d) = [(''domain'', js_uint L d)]"
| "operation_arguments L (CO_mode d m) = [(''domain'', js_uint L d), (''mode'', js_uint L m)]"
| "operation_arguments L (CO_request d m t) =
     [(''domain'', js_uint L d), (''mode'', js_uint L m), (''timeoutMs'', js_int L t)]"
| "operation_arguments L (CO_cancel i) = [(''transition'', js_uint L i)]"
| "operation_arguments L (CO_transition i) = [(''transition'', js_uint L i)]"

definition request_members :: "'j JsonLibrary \<Rightarrow> ClientOperation \<Rightarrow> (string \<times> 'j) list" where
  "request_members L op = operation_member L (operation_name op) # operation_arguments L op"

definition request_value :: "'j JsonLibrary \<Rightarrow> ClientOperation \<Rightarrow> 'j" where
  "request_value L op = js_object L (request_members L op @ [(''version'', js_uint L kProtocolVersion)])"

definition is_mutation :: "ClientOperation \<Rightarrow> bool" where
  "is_mutation op \<longleftrightarrow> (case op of CO_request _ _ _ \<Rightarrow> True | CO_cancel _ \<Rightarrow> True | _ \<Rightarrow> False)"

text \<open>The response the server gives to a result.\<close>

fun result_value :: "'j JsonLibrary \<Rightarrow> ClientResult \<Rightarrow> 'j" where
  "result_value L (CR_snapshot r) = Response L (SnapshotValue L) r"
| "result_value L (CR_domain r) = Response L (DomainValue L) r"
| "result_value L (CR_mode r) = Response L (ModeValue L) r"
| "result_value L (CR_request r) = Response L (js_uint L) r"
| "result_value L (CR_cancel r) = Response L (\<lambda>_. js_null L) r"
| "result_value L (CR_transition r) = Response L (TransitionValue L) r"

text \<open>Results whose decoding succeeds, see \<open>transition_codable\<close>.\<close>

fun result_codable :: "ClientResult \<Rightarrow> bool" where
  "result_codable (CR_snapshot (Inr s)) \<longleftrightarrow> (\<forall>t \<in> set (sn_transitions s). transition_codable t)"
| "result_codable (CR_transition (Inr t)) \<longleftrightarrow> transition_codable t"
| "result_codable _ \<longleftrightarrow> True"

text \<open>What the operation itself must satisfy: a timeout that fits the message, and a coordinator that would not
  refuse the request for another reason than a timeout that is not positive; transitions are stored under their number.\<close>

definition transitions_keyed :: "Engine \<Rightarrow> bool" where
  "transitions_keyed e \<longleftrightarrow> um_ok (en_transitions e) \<and> (\<forall>(i, t) \<in> set (en_transitions e). ts_id t = i)"

fun operation_ok :: "'w Environment \<Rightarrow> ClientOperation \<Rightarrow> 'w Coordinator \<Rightarrow> bool" where
  "operation_ok env (CO_request d m t) c \<longleftrightarrow>
     - (2 ^ 63) \<le> t \<and> t < 2 ^ 63 \<and> (0 < t \<or> cp_mutate (co_permissions c))"
| "operation_ok env (CO_transition i) c \<longleftrightarrow> transitions_keyed (run_engine (lock env (co_run c)))"
| "operation_ok env _ c \<longleftrightarrow> True"

lemma find_SomeD: "List.find P xs = Some x \<Longrightarrow> x \<in> set xs" "List.find P xs = Some x \<Longrightarrow> P x"
  by (induction xs) (auto split: if_splits)

lemma find_keyed:
  assumes keyed: "transitions_keyed e"
  shows "List.find (\<lambda>t. pt_id t = i) (map PublicSnapshot (sort_key ts_id (map snd (en_transitions e)))) =
    map_option PublicSnapshot (um_find (en_transitions e) i)"
proof -
  let ?ts = "map PublicSnapshot (sort_key ts_id (map snd (en_transitions e)))"
  have id: "pt_id (PublicSnapshot t) = ts_id t" for t by (simp add: PublicSnapshot_def)
  have key: "ts_id t = j" if "(j, t) \<in> set (en_transitions e)" for j t using keyed that by (auto simp: transitions_keyed_def)
  show ?thesis
  proof (cases "um_find (en_transitions e) i")
    case None
    then have "\<forall>t \<in> snd ` set (en_transitions e). ts_id t \<noteq> i"
      using key by (auto simp: um_find_def map_of_eq_None_iff image_iff)
    then have "List.find (\<lambda>t. pt_id t = i) ?ts = None" by (auto simp: find_None_iff id)
    then show ?thesis using None by simp
  next
    case (Some t)
    then have t: "(i, t) \<in> set (en_transitions e)" by (simp add: um_find_def map_of_SomeD)
    then have "PublicSnapshot t \<in> set ?ts" "pt_id (PublicSnapshot t) = i" using key [OF t] by (force simp: id)+
    then have "List.find (\<lambda>t. pt_id t = i) ?ts \<noteq> None" unfolding find_None_iff by blast
    then obtain x where x: "List.find (\<lambda>t. pt_id t = i) ?ts = Some x" by blast
    have "x \<in> set ?ts" "pt_id x = i" using find_SomeD [OF x] by blast+
    then obtain u where u: "u \<in> snd ` set (en_transitions e)" "x = PublicSnapshot u" "pt_id x = i" by auto
    then obtain j where j: "(j, u) \<in> set (en_transitions e)" by auto
    have "j = i" using key [OF j] u(2,3) by (simp add: id)
    then have "u = t" using j t keyed by (metis eq_key_imp_eq_value transitions_keyed_def)
    then show ?thesis using x u(2) Some by simp
  qed
qed

lemma transition_by_snapshot:
  assumes "transitions_keyed (run_engine (lock env (co_run c)))"
  shows "dispatch_transition env L i None c =
    (let (r, c') = TransitionState env i c in (DP_response (Response L (TransitionValue L) r), c'))"
proof (cases "cp_observe (co_permissions c)")
  case True
  let ?e = "run_engine (lock env (co_run c))"
  have "find_transition i s = map_option PublicSnapshot (um_find (en_transitions ?e) i)"
    if "sn_transitions s = map PublicSnapshot (sort_key ts_id (map snd (en_transitions ?e)))" for s
    using that find_keyed [OF assms] by (simp add: find_transition_def)
  then show ?thesis
    using True
    by (auto simp: dispatch_transition_def SystemCoordinator_GetSnapshot_def CoordinatorSnapshot_def Snapshot_def
        TransitionState_def GetTransition_def Response_def transition_unknown_def Let_def split: prod.split option.split)
next
  case False
  then show ?thesis
    by (simp add: dispatch_transition_def SystemCoordinator_GetSnapshot_def CoordinatorSnapshot_def TransitionState_def Response_def)
qed

text \<open>A connection that carries the client's text to a worker of the server and the response back.\<close>

definition faithful ::
  "'w Environment \<Rightarrow> 'j JsonLibrary \<Rightarrow> IpcServer \<Rightarrow> u32 \<Rightarrow> 'w Coordinator \<Rightarrow> IpcClient \<Rightarrow> Connection \<Rightarrow> bool" where
  "faithful env L s uid c client cn \<longleftrightarrow>
     endpoint_ok (ic_path_size client) (ic_endpoint client) \<and> 0 < ic_timeout client \<and> cn_failure cn = None \<and>
     (\<forall>content. length content \<le> Suc (so_maximum_message_size (is_options s)) \<longrightarrow> fst (Ipc_WriteAll (cn_sends cn) content)) \<and>
     (\<forall>sent. \<exists>received. delivers received sent \<and>
        (\<forall>v calls c'. server_answer env L s uid received c = (DP_response v, calls, c') \<longrightarrow>
           delivers (cn_reply cn sent) (Ipc_Encode L v)))"

context json_library
begin

lemma read_response_success: "read_response L (Success L v) = Some (Inr v)"
  by (simp add: read_response_def Success_def at_as_object at_object)

lemma read_response_failure: "read_response L (Failure L e) = Some (Inl e)"
  by (simp add: read_response_def Failure_def at_as_object DecodeError_value)

lemma read_response_Response:
  "read_response L (Response L f r) = Some (case r of Inl e \<Rightarrow> Inl e | Inr a \<Rightarrow> Inr (f a))"
  by (simp add: Response_def read_response_success read_response_failure split: sum.split)

lemma isObject_result: "js_isObject L (result_value L r)"
  by (cases r) (simp_all add: Response_def Success_def Failure_def split: sum.split)

lemma textual_keys [simp]:
  "textual ''operation''" "textual ''version''" "textual ''domain''" "textual ''mode''" "textual ''timeoutMs''"
  "textual ''transition''" "textual ''snapshot''" "textual ''request''" "textual ''cancel''"
  by (rule textual_ascii, simp)+

lemma distinct_request: "distinct (map fst (request_members L op @ [(''version'', v)]))"
  by (cases op) (simp_all add: request_members_def)

lemma ok_request:
  assumes "operation_ok env op c"
  shows "ok 100 (request_value L op)"
proof -
  have "ok 1 (request_value L op)"
    unfolding request_value_def One_nat_def
  proof (rule ok_object [OF distinct_request])
    fix k v assume "(k, v) \<in> set (request_members L op @ [(''version'', js_uint L kProtocolVersion)])"
    with assms show "textual k \<and> ok 0 v"
      by (cases op) (auto simp: request_members_def intro: ok_string ok_uint ok_int)
  qed
  then show ?thesis by (rule ok_mono) simp
qed

lemma protocol_operation_request: "protocol_operation L (request_value L op) = Some (Some (operation_name op))"
proof -
  let ?m = "request_members L op @ [(''version'', js_uint L kProtocolVersion)]"
  have "map_of ?m ''version'' = Some (js_uint L kProtocolVersion)" "map_of ?m ''operation'' = Some (js_string L (operation_name op))"
    by (cases op; simp add: request_members_def)+
  then show ?thesis
    unfolding protocol_operation_def request_value_def
    by (simp add: at_object [OF distinct_request] at_as_object [OF distinct_request])
qed

lemma argument_of_request:
  assumes "map_of (operation_arguments L op) k = Some v" and "k \<noteq> ''operation''" and "k \<noteq> ''version''"
  shows "at_as L f (request_value L op) k = f v" and "js_at L (request_value L op) k = Some v"
proof -
  have "map_of (request_members L op @ [(''version'', js_uint L kProtocolVersion)]) k = Some v"
    using assms by (simp add: request_members_def map_add_def)
  then show "at_as L f (request_value L op) k = f v" "js_at L (request_value L op) k = Some v"
    unfolding request_value_def by (simp_all add: at_as_object [OF distinct_request] at_object [OF distinct_request])
qed

lemma unsigned_argument:
  assumes "map_of (operation_arguments L op) k = Some (js_uint L n)" and "k \<noteq> ''operation''" and "k \<noteq> ''version''"
  shows "at_as L (unsigned_of L) (request_value L op) k = Some (Some n)"
  by (simp add: argument_of_request(1) [OF assms])

lemma positive_timeout_request:
  assumes "- (2 ^ 63) \<le> t" "t < 2 ^ 63"
  shows "positive_timeout L (request_value L (CO_request d m t)) = Some (if t \<le> 0 then None else Some t)"
  using argument_of_request(2) [of "CO_request d m t" "''timeoutMs''" "js_int L t"] assms
  by (simp add: positive_timeout_def IsSignedInteger_def asInt64_int isIntegral_int)

lemma dispatch_local:
  assumes run: "local_client env op c = Some (r, calls, c')" and ok: "operation_ok env op c"
  shows "dispatch_operation env L s uid (operation_name op) (request_value L op) c = Some (DP_response (result_value L r), calls, c')"
proof (cases op)
  case CO_snapshot
  then show ?thesis
    using run by (auto simp: dispatch_operation_def dispatch_snapshot_def SystemCoordinator_GetSnapshot_def split: prod.splits)
next
  case (CO_domain d)
  then show ?thesis
    using run unsigned_argument [of op "''domain''" d]
    by (auto simp: dispatch_operation_def dispatch_domain_def SystemCoordinator_ResolveDomain_def split: prod.splits)
next
  case (CO_mode d m)
  then show ?thesis
    using run unsigned_argument [of op "''domain''" d] unsigned_argument [of op "''mode''" m]
    by (auto simp: dispatch_operation_def dispatch_mode_def SystemCoordinator_ResolveMode_def)
next
  case (CO_request d m t)
  then obtain q where q: "Request env d m t c = Some (q, calls, c')" "r = CR_request q" using run by auto
  have t: "positive_timeout L (request_value L op) = Some (if t \<le> 0 then None else Some t)"
    using positive_timeout_request ok CO_request by simp
  have a: "at_as L (unsigned_of L) (request_value L op) ''domain'' = Some (Some d)"
    "at_as L (unsigned_of L) (request_value L op) ''mode'' = Some (Some m)"
    by (rule unsigned_argument; simp add: CO_request)+
  show ?thesis
  proof (cases "0 < t")
    case True
    then show ?thesis
      using q t a CO_request
      by (auto simp: dispatch_operation_def dispatch_request_def SystemCoordinator_RequestMode_def Response_def Transition_Id_def
          split: sum.split)
  next
    case False
    then have "q = Inl (MakeError EC_invalid_argument ''transition timeout must be positive'' 0)" "calls = []" "c' = c"
      using q(1) ok CO_request by (auto simp: Request_def)
    then show ?thesis
      using False q t a CO_request by (simp add: dispatch_operation_def dispatch_request_def Response_def invalid_argument_def)
  qed
next
  case (CO_cancel i)
  then show ?thesis
    using run unsigned_argument [of op "''transition''" i]
    by (auto simp: dispatch_operation_def dispatch_cancel_def SystemCoordinator_Cancel_def Response_def split: sum.splits)
next
  case (CO_transition i)
  then show ?thesis
    using run ok unsigned_argument [of op "''transition''" i] transition_by_snapshot [of env c L i]
    by (auto simp: dispatch_operation_def dispatch_wait_def quietly_def split: prod.splits)
qed

end

lemma then_decode_Some:
  "then_decode (Some (Inl e)) f = Some (Inl e)" "then_decode (Some (Inr v)) f = f v"
  by (simp_all add: then_decode_def)

context json_library
begin

text \<open>The client decodes the server's response to what the server encoded.\<close>

lemma remote_of_response:
  assumes run: "local_client env op c = Some (r, calls, c')" and cod: "result_codable r"
    and call: "Ipc_Call L client cn (request_members L op) 0 = read_response L (result_value L r)"
  shows "remote_client L client cn op = Some r"
proof (cases op)
  case CO_snapshot
  then show ?thesis
    using run call cod DecodeSnapshot_value
    by (auto simp: Client_Snapshot_def request_members_def read_response_Response then_decode_Some split: prod.splits sum.splits)
next
  case (CO_domain d)
  then show ?thesis
    using run call by (auto simp: Client_Domain_def request_members_def read_response_Response then_decode_Some DecodeDomain_value
        split: prod.splits sum.splits)
next
  case (CO_mode d m)
  then show ?thesis
    using run call by (auto simp: Client_Mode_def request_members_def read_response_Response then_decode_Some DecodeMode_value
        split: sum.splits)
next
  case (CO_request d m t)
  then show ?thesis
    using run call by (auto simp: Client_Request_def request_members_def read_response_Response then_decode_Some split: sum.splits)
next
  case (CO_cancel i)
  then show ?thesis
    using run call by (auto simp: Client_Cancel_def request_members_def read_response_Response then_decode_Some split: sum.splits)
next
  case (CO_transition i)
  then show ?thesis
    using run call cod DecodeTransition_value
    by (auto simp: Client_TransitionState_def request_members_def read_response_Response then_decode_Some split: prod.splits sum.splits)
qed

text \<open>A request the connection delivers is answered with what \<open>Dispatch\<close> makes of it, and a call returns that answer.\<close>

lemma server_answer_dispatch:
  assumes del: "delivers received (Ipc_Encode L request)" and ok: "ok 100 request" "js_isObject L request"
    and len: "length (js_write L request) \<le> so_maximum_message_size (is_options s)"
  shows "server_answer env L s uid received c = Dispatch env L s uid request c"
proof -
  have "ReadLine (so_maximum_message_size (is_options s)) received = Inr (js_write L request)"
    using del write_line [OF ok(1)] len by (intro ReadLine_delivers) (simp_all add: Ipc_Encode_def)
  moreover have "Ipc_Decode L (js_write L request) = Some (Inr request)"
    using read_write [OF ok(1)] ok(2) by (simp add: Ipc_Decode_def)
  ultimately show ?thesis by (simp add: server_answer_def)
qed

lemma call_dispatch:
  fixes members :: "(string \<times> 'j) list"
  defines "request \<equiv> js_object L (members @ [(''version'', js_uint L kProtocolVersion)])"
  assumes con: "faithful env L s uid c client cn" and dis: "Dispatch env L s uid request c = (DP_response v, calls, c')"
    and ok: "ok 100 request" "ok 100 v" "js_isObject L v"
    and len: "length (js_write L request) \<le> so_maximum_message_size (is_options s)"
      "length (js_write L v) \<le> kClientMaximumMessageSize"
  shows "Ipc_Call L client cn members timeout = read_response L v"
proof -
  let ?txt = "Ipc_Encode L request"
  have "fst (Ipc_WriteAll (cn_sends cn) ?txt)" using con len(1) by (simp add: faithful_def Ipc_Encode_def)
  then obtain sent where w: "Ipc_WriteAll (cn_sends cn) ?txt = (True, sent)" by (cases "Ipc_WriteAll (cn_sends cn) ?txt") auto
  then have sent: "sent = ?txt" by (rule Ipc_WriteAll_sent)
  obtain received where rec: "delivers received ?txt"
    "\<forall>v calls c'. server_answer env L s uid received c = (DP_response v, calls, c') \<longrightarrow> delivers (cn_reply cn ?txt) (Ipc_Encode L v)"
    using con unfolding faithful_def by blast
  have "js_isObject L request" by (simp add: request_def)
  then have "delivers (cn_reply cn ?txt) (Ipc_Encode L v)"
    using rec(2) server_answer_dispatch [OF rec(1) ok(1) _ len(1)] dis by metis
  then have "ReadLine kClientMaximumMessageSize (cn_reply cn sent) = Inr (js_write L v)"
    using write_line [OF ok(2)] len(2) sent by (intro ReadLine_delivers) (simp_all add: Ipc_Encode_def)
  moreover have "Ipc_Decode L (js_write L v) = Some (Inr v)"
    using read_write [OF ok(2)] ok(3) by (simp add: Ipc_Decode_def)
  moreover have "Ipc_Connect client (if timeout > 0 then timeout else ic_timeout client) cn = None"
    using con by (simp add: faithful_def Ipc_Connect_def)
  ultimately show ?thesis using w by (simp add: Ipc_Call_def request_def [symmetric] Let_def)
qed

lemma dispatch_request_local:
  assumes run: "local_client env op c = Some (r, calls, c')" and op: "operation_ok env op c"
    and auth: "Authorized (is_options s) uid (is_mutation op)"
  shows "Dispatch env L s uid (request_value L op) c = (DP_response (result_value L r), calls, c')"
proof -
  have "(operation_name op = ''request'' \<or> operation_name op = ''cancel'') = is_mutation op"
    by (cases op) (simp_all add: is_mutation_def)
  then show ?thesis
    using auth dispatch_local [OF run op] by (simp add: Dispatch_def protocol_operation_request)
qed

end


section \<open>A JSON library\<close>

text \<open>Values as a datatype, written in a prefix notation: the laws of \<open>json_library\<close> hold for it.\<close>

datatype Json = JNull | JBool bool | JNumber int | JText string | JList "Json list" | JTree "(string \<times> Json) list"

fun write_nat :: "nat \<Rightarrow> string" where
  "write_nat n = (if n = 0 then ''.'' else (if odd n then CHR ''1'' else CHR ''0'') # write_nat (n div 2))"

declare write_nat.simps [simp del]

fun read_nat :: "string \<Rightarrow> (nat \<times> string) option" where
  "read_nat [] = None"
| "read_nat (c # s) =
     (if c = CHR ''.'' then Some (0, s)
      else map_option (\<lambda>(n, r). (2 * n + (if c = CHR ''1'' then 1 else 0), r)) (read_nat s))"

definition write_char :: "char \<Rightarrow> string" where
  "write_char c = [char_of (64 + (of_char c :: nat) div 16), char_of (64 + (of_char c :: nat) mod 16)]"

definition write_text :: "string \<Rightarrow> string" where
  "write_text s = concat (map write_char s) @ '';''"

fun read_text :: "string \<Rightarrow> (string \<times> string) option" where
  "read_text [] = None"
| "read_text (c # s) =
     (if c = CHR '';'' then Some ([], s)
      else case s of
        [] \<Rightarrow> None
      | d # r \<Rightarrow> map_option (\<lambda>(t, r). (char_of ((of_char c - 64) * 16 + (of_char d - 64) :: nat) # t, r)) (read_text r))"

fun write_json :: "Json \<Rightarrow> string" where
  "write_json JNull = ''n''"
| "write_json (JBool b) = (if b then ''t'' else ''f'')"
| "write_json (JNumber i) = (if i < 0 then CHR ''-'' else CHR ''+'') # write_nat (nat \<bar>i\<bar>)"
| "write_json (JText s) = CHR ''s'' # write_text s"
| "write_json (JList vs) = CHR ''['' # concat (map write_json vs) @ '']''"
| "write_json (JTree m) = CHR ''{'' # concat (map (\<lambda>(k, v). CHR '':'' # write_text k @ write_json v) m) @ ''}''"

fun read_json :: "nat \<Rightarrow> string \<Rightarrow> (Json \<times> string) option"
  and read_items :: "nat \<Rightarrow> string \<Rightarrow> (Json list \<times> string) option"
  and read_members :: "nat \<Rightarrow> string \<Rightarrow> ((string \<times> Json) list \<times> string) option" where
  "read_json (Suc fuel) (c # s) =
     (if c = CHR ''n'' then Some (JNull, s)
      else if c = CHR ''t'' then Some (JBool True, s)
      else if c = CHR ''f'' then Some (JBool False, s)
      else if c = CHR ''-'' then map_option (\<lambda>(n, r). (JNumber (- int n), r)) (read_nat s)
      else if c = CHR ''+'' then map_option (\<lambda>(n, r). (JNumber (int n), r)) (read_nat s)
      else if c = CHR ''s'' then map_option (\<lambda>(t, r). (JText t, r)) (read_text s)
      else if c = CHR ''['' then map_option (\<lambda>(vs, r). (JList vs, r)) (read_items fuel s)
      else if c = CHR ''{'' then map_option (\<lambda>(m, r). (JTree m, r)) (read_members fuel s)
      else None)"
| "read_json _ _ = None"
| "read_items (Suc fuel) (c # s) =
     (if c = CHR '']'' then Some ([], s)
      else do {
        (v, r) \<leftarrow> read_json fuel (c # s);
        (vs, r) \<leftarrow> read_items fuel r;
        Some (v # vs, r)
      })"
| "read_items _ _ = None"
| "read_members (Suc fuel) (c # s) =
     (if c = CHR ''}'' then Some ([], s)
      else do {
        (k, r) \<leftarrow> read_text s;
        (v, r) \<leftarrow> read_json fuel r;
        (m, r) \<leftarrow> read_members fuel r;
        Some ((k, v) # m, r)
      })"
| "read_members _ _ = None"

lemma read_nat_write: "read_nat (write_nat n @ r) = Some (n, r)"
  by (induction n rule: write_nat.induct) (subst write_nat.simps, auto)

lemma read_text_write: "read_text (write_text s @ r) = Some (s, r)"
proof (induction s)
  case (Cons c s)
  have c: "(of_char c :: nat) < 256" using of_char_mod_256 [of c, where ?'a = nat] by (metis mod_less_divisor zero_less_numeral)
  then have h: "(of_char c :: nat) div 16 < 16" "(of_char c :: nat) mod 16 < 16" by (auto simp: less_mult_imp_div_less)
  have v: "of_char (char_of (64 + n) :: char) = 64 + n" if "n < 16" for n :: nat using that by simp
  have ne: "char_of (64 + n) \<noteq> CHR '';''" if "n < 16" for n :: nat
  proof
    assume "char_of (64 + n) = CHR '';''"
    then have "(of_char (char_of (64 + n) :: char) :: nat) = of_char (CHR '';'')" by simp
    then show False using v [OF that] by simp
  qed
  show ?case
    using Cons.IH ne [OF h(1)] v [OF h(1)] v [OF h(2)] by (simp add: write_text_def write_char_def)
qed (simp add: write_text_def)

lemma write_json_nonempty [simp]: "write_json v \<noteq> []"
  by (cases v) (auto split: if_splits)

lemma write_json_first:
  obtains c s where "write_json v = c # s" "c \<noteq> CHR '']''"
proof -
  have "\<exists>c s. write_json v = c # s \<and> c \<noteq> CHR '']''" by (cases v) (auto split: if_splits)
  then show ?thesis using that by blast
qed

lemma read_items_write:
  assumes "\<And>v f r. v \<in> set vs \<Longrightarrow> length (write_json v) \<le> f \<Longrightarrow> read_json f (write_json v @ r) = Some (v, r)"
    and "length (concat (map write_json vs)) < f"
  shows "read_items f (concat (map write_json vs) @ CHR '']'' # r) = Some (vs, r)"
  using assms
proof (induction vs arbitrary: f)
  case Nil
  then show ?case by (cases f) auto
next
  case (Cons v vs)
  obtain c s where v: "write_json v = c # s" "c \<noteq> CHR '']''" by (rule write_json_first)
  obtain g where f: "f = Suc g" using Cons.prems(2) by (cases f) auto
  have "read_json g (write_json v @ (concat (map write_json vs) @ CHR '']'' # r)) = Some (v, concat (map write_json vs) @ CHR '']'' # r)"
    using Cons.prems f by simp
  moreover have "read_items g (concat (map write_json vs) @ CHR '']'' # r) = Some (vs, r)"
    using Cons.prems f v by (intro Cons.IH) auto
  ultimately show ?case using v f by simp
qed

lemma read_members_write:
  assumes "\<And>k v f r. (k, v) \<in> set m \<Longrightarrow> length (write_json v) \<le> f \<Longrightarrow> read_json f (write_json v @ r) = Some (v, r)"
    and "length (concat (map (\<lambda>(k, v). CHR '':'' # write_text k @ write_json v) m)) < f"
  shows "read_members f (concat (map (\<lambda>(k, v). CHR '':'' # write_text k @ write_json v) m) @ CHR ''}'' # r) = Some (m, r)"
  using assms
proof (induction m arbitrary: f)
  case Nil
  then show ?case by (cases f) auto
next
  case (Cons kv m)
  obtain k v where kv: "kv = (k, v)" by fastforce
  obtain g where f: "f = Suc g" using Cons.prems(2) by (cases f) auto
  let ?rest = "concat (map (\<lambda>(k, v). CHR '':'' # write_text k @ write_json v) m) @ CHR ''}'' # r"
  have "read_json g (write_json v @ ?rest) = Some (v, ?rest)" using Cons.prems f kv by (intro Cons.prems(1)) auto
  moreover have "read_members g ?rest = Some (m, r)" using Cons.prems f kv by (intro Cons.IH) auto
  ultimately show ?case using f kv read_text_write [of k "write_json v @ ?rest"] by simp
qed

lemma read_json_write: "length (write_json v) \<le> f \<Longrightarrow> read_json f (write_json v @ r) = Some (v, r)"
proof (induction v arbitrary: f r)
  case (JBool b)
  then show ?case by (cases f; cases b) auto
next
  case (JNumber i)
  then show ?case by (cases f) (auto simp: read_nat_write)
next
  case (JText s)
  then show ?case by (cases f) (auto simp: read_text_write)
next
  case (JList vs)
  then obtain g where f: "f = Suc g" by (cases f) auto
  have "read_items g (concat (map write_json vs) @ CHR '']'' # r) = Some (vs, r)"
    by (rule read_items_write) (use JList f in auto)
  then show ?case by (simp add: f)
next
  case (JTree m)
  then obtain g where f: "f = Suc g" by (cases f) auto
  have "read_members g (concat (map (\<lambda>(k, v). CHR '':'' # write_text k @ write_json v) m) @ CHR ''}'' # r) = Some (m, r)"
    by (rule read_members_write) (use JTree f in \<open>auto simp: snds.simps\<close>)
  then show ?case by (simp add: f)
qed (case_tac f; auto)+
definition json_at :: "Json \<Rightarrow> string \<Rightarrow> Json option" where
  "json_at v k = (case v of
     JTree m \<Rightarrow> Some (case map_of m k of None \<Rightarrow> JNull | Some w \<Rightarrow> w)
   | JNull \<Rightarrow> Some JNull
   | _ \<Rightarrow> None)"

definition json_number :: "int \<Rightarrow> int \<Rightarrow> Json \<Rightarrow> int option" where
  "json_number least bound v = (case v of JNumber i \<Rightarrow> if least \<le> i \<and> i < bound then Some i else None | _ \<Rightarrow> None)"

definition json_lib :: "Json JsonLibrary" where
  "json_lib = \<lparr>
     js_null = JNull, js_bool = JBool, js_uint = (\<lambda>n. JNumber (uint n)), js_int = JNumber, js_string = JText,
     js_array = JList, js_object = JTree,
     js_isBool = (\<lambda>v. case v of JBool _ \<Rightarrow> True | _ \<Rightarrow> False),
     js_isIntegral = (\<lambda>v. json_number (- (2 ^ 63)) (2 ^ 64) v \<noteq> None),
     js_isInt64 = (\<lambda>v. json_number (- (2 ^ 63)) (2 ^ 63) v \<noteq> None),
     js_isString = (\<lambda>v. case v of JText _ \<Rightarrow> True | _ \<Rightarrow> False),
     js_isArray = (\<lambda>v. case v of JList _ \<Rightarrow> True | _ \<Rightarrow> False),
     js_isObject = (\<lambda>v. case v of JTree _ \<Rightarrow> True | _ \<Rightarrow> False),
     js_asBool = (\<lambda>v. case v of JBool b \<Rightarrow> Some b | _ \<Rightarrow> None),
     js_asUInt64 = (\<lambda>v. map_option word_of_int (json_number 0 (2 ^ 64) v)),
     js_asUInt = (\<lambda>v. map_option word_of_int (json_number 0 (2 ^ 32) v)),
     js_asInt64 = json_number (- (2 ^ 63)) (2 ^ 63),
     js_asInt = (\<lambda>v. map_option word_of_int (json_number (- (2 ^ 31)) (2 ^ 31) v)),
     js_asString = (\<lambda>v. case v of JText s \<Rightarrow> Some s | _ \<Rightarrow> None),
     js_elements = (\<lambda>v. case v of JList vs \<Rightarrow> vs | _ \<Rightarrow> []),
     js_at = json_at,
     js_isMember = (\<lambda>v k. case v of JTree m \<Rightarrow> k \<in> fst ` set m | _ \<Rightarrow> False),
     js_write = write_json,
     js_read = (\<lambda>s. case read_json (length s) s of Some (v, []) \<Rightarrow> JR_value v | _ \<Rightarrow> JR_rejected) \<rparr>"

lemma write_char_line: "CHR 0x0A \<notin> set (write_char c)"
proof -
  have c: "(of_char c :: nat) < 256" using of_char_mod_256 [of c, where ?'a = nat] by (metis mod_less_divisor zero_less_numeral)
  have "char_of (64 + n) \<noteq> CHR 0x0A" if "n < 16" for n :: nat
  proof
    assume "char_of (64 + n) = CHR 0x0A"
    then have "(of_char (char_of (64 + n) :: char) :: nat) = of_char (CHR 0x0A)" by simp
    then show False using that by simp
  qed
  moreover have "(of_char c :: nat) div 16 < 16" "(of_char c :: nat) mod 16 < 16" using c by (auto simp: less_mult_imp_div_less)
  ultimately show ?thesis by (auto simp: write_char_def dest: sym)
qed

lemma write_text_line: "CHR 0x0A \<notin> set (write_text s)"
  using write_char_line by (auto simp: write_text_def)

lemma write_nat_line: "CHR 0x0A \<notin> set (write_nat n)"
  by (induction n rule: write_nat.induct) (subst write_nat.simps, auto)

lemma write_json_line: "CHR 0x0A \<notin> set (write_json v)"
proof (induction v)
  case (JTree m)
  then show ?case using write_text_line by (auto simp: snds.simps)
qed (auto simp: write_text_line write_nat_line)

lemma read_json_write_all: "read_json (length (write_json v)) (write_json v) = Some (v, [])"
  using read_json_write [of v "length (write_json v)" "[]"] by simp

lemma uint_u64_less: "uint (n :: u64) < 2 ^ 64"
  using uint_bounded [of n] by simp

interpretation jl: json_library json_lib "\<lambda>_. True" "\<lambda>_ _. True"
proof unfold_locales
  fix n :: u64
  show "js_isIntegral json_lib (js_uint json_lib n)" "js_asUInt64 json_lib (js_uint json_lib n) = Some n"
    using uint_u64_less [of n] by (simp_all add: json_lib_def json_number_def order.trans [OF _ uint_nonnegative])
qed (auto simp: json_lib_def json_number_def json_at_def read_json_write_all write_json_line order.trans [OF _ uint_nonnegative]
  split: option.splits)

text \<open>A connection that hands over every text in one piece.\<close>

definition one_piece :: "string \<Rightarrow> Received list" where
  "one_piece txt = (if txt = [] then [] else [RC_bytes txt])"

definition direct_connection ::
  "'w Environment \<Rightarrow> 'j JsonLibrary \<Rightarrow> IpcServer \<Rightarrow> u32 \<Rightarrow> 'w Coordinator \<Rightarrow> Connection" where
  "direct_connection env L s uid c =
     \<lparr>cn_failure = None, cn_sends = [Some (Suc (so_maximum_message_size (is_options s)))], cn_errno = 0,
      cn_reply = (\<lambda>sent. case fst (server_answer env L s uid (one_piece sent) c) of
                    DP_response v \<Rightarrow> one_piece (Ipc_Encode L v)
                  | _ \<Rightarrow> [])\<rparr>"

lemma delivers_one_piece [simp]: "delivers (one_piece txt) txt"
  by (simp add: one_piece_def)

lemma direct_faithful:
  assumes "endpoint_ok (ic_path_size client) (ic_endpoint client)" and "0 < ic_timeout client"
  shows "faithful env L s uid c client (direct_connection env L s uid c)"
proof -
  have "fst (Ipc_WriteAll [Some (Suc n)] content)" if "length content \<le> Suc n" for n content
    using that by (cases content) auto
  moreover have "\<exists>received. delivers received sent \<and>
        (\<forall>v calls c'. server_answer env L s uid received c = (DP_response v, calls, c') \<longrightarrow>
           delivers (cn_reply (direct_connection env L s uid c) sent) (Ipc_Encode L v))" for sent
    by (intro exI [of _ "one_piece sent"]) (auto simp: direct_connection_def)
  ultimately show ?thesis using assms by (simp add: faithful_def direct_connection_def)
qed

definition demo_options :: CoordinatorServerOptions where
  "demo_options = \<lparr>so_endpoint = ''/run/c'', so_observation_uids = [0, 7], so_mutation_uids = [7], so_connection_capacity = 1,
     so_worker_count = 1, so_maximum_message_size = 4096\<rparr>"

definition demo_client :: IpcClient where
  "demo_client = \<lparr>ic_endpoint = ''/run/c'', ic_timeout = 1000, ic_path_size = 108\<rparr>"

lemma demo_request:
  "map_option (\<lambda>s. map_option (\<lambda>(r, calls, c). r) (Request fake_env 1 2 1000 (sv_coordinator s)))
     (demo example_model 2 1 []) = Some (Some (Inr 1))"
  by code_simp

lemma length_write_text: "length (write_text s) = 2 * length s + 1"
  by (induction s) (simp_all add: write_text_def write_char_def)

lemma demo_lengths:
  "length (js_write json_lib (request_value json_lib (CO_request 1 2 1000))) \<le> 4096"
  "length (js_write json_lib (result_value json_lib (CR_request (Inr 1)))) \<le> kClientMaximumMessageSize"
  by (simp_all add: json_lib_def request_value_def request_members_def kProtocolVersion_def Response_def Success_def
      kClientMaximumMessageSize_def length_write_text write_nat.simps)


section \<open>The server's bounds\<close>

definition serving :: "IpcWorker list \<Rightarrow> nat list" where
  "serving ws = concat (map (\<lambda>w. case w of IW_serving d \<Rightarrow> [d] | _ \<Rightarrow> []) ws)"

lemma mset_serving_update:
  assumes "i < length ws"
  shows "mset (serving (ws[i := w])) + mset (serving [ws ! i]) = mset (serving ws) + mset (serving [w])"
  using assms
proof (induction ws arbitrary: i)
  case (Cons v ws)
  have c: "mset (serving (v # ws)) = mset (serving [v]) + mset (serving ws)" for v ws by (simp add: serving_def)
  show ?case
  proof (cases i)
    case 0
    then show ?thesis using c [of w ws] c [of v ws] by simp
  next
    case (Suc j)
    then show ?thesis using Cons.IH [of j] Cons.prems c [of v "ws[j := w]"] c [of v ws] by (simp add: add.assoc)
  qed
qed simp

lemma length_serving: "length (serving ws) \<le> length ws"
  by (induction ws) (auto simp: serving_def split: IpcWorker.split)

definition threads_ok :: "IpcServer \<Rightarrow> ServerThreads \<Rightarrow> bool" where
  "threads_ok s0 t \<longleftrightarrow>
     is_options (th_server t) = is_options s0 \<and>
     length (th_workers t) = so_worker_count (is_options s0) \<and>
     length (is_queue (th_server t)) \<le> so_connection_capacity (is_options s0) \<and>
     length (is_events (th_server t)) \<le> so_connection_capacity (is_options s0) * 16 \<and>
     distinct (is_active (th_server t)) \<and>
     mset (is_active (th_server t)) = mset (map wk_descriptor (is_queue (th_server t))) + mset (serving (th_workers t))"

lemma threads_ok_start: "threads_ok (IpcServer_Create options) (threads_start (IpcServer_Create options))"
  by (simp add: threads_ok_def threads_start_def IpcServer_Create_def serving_def)

lemma Accept_connection_cases:
  obtains "snd (Accept_connection d uid s) = s"
  | u where "uid = Inr u" "length (is_queue s) < so_connection_capacity (is_options s)"
    "snd (Accept_connection d uid s) =
       s\<lparr>is_queue := is_queue s @ [\<lparr>wk_descriptor = d, wk_uid = u\<rparr>], is_active := is_active s @ [d]\<rparr>"
  by (cases uid; cases "length (is_queue s) < so_connection_capacity (is_options s)") (auto simp: Accept_connection_def)

lemma threads_ok_connection:
  assumes "threads_ok s0 t" and "d \<notin> set (is_active (th_server t))"
  shows "threads_ok s0 (t\<lparr>th_server := snd (Accept_connection d uid (th_server t)), th_accepting := g\<rparr>)"
  using assms by (cases rule: Accept_connection_cases [of d uid "th_server t"]) (auto simp: threads_ok_def)

lemma threads_ok_release:
  assumes ok: "threads_ok s0 t" and i: "i < length (th_workers t)" "th_workers t ! i = IW_serving d"
  shows "threads_ok s0 (t\<lparr>th_server := server_release d (th_server t), th_workers := (th_workers t)[i := IW_idle]\<rparr>)"
proof -
  let ?a = "is_active (th_server t)" and ?q = "map wk_descriptor (is_queue (th_server t))" and ?ws = "th_workers t"
  have m: "mset (serving (?ws[i := IW_idle])) + {#d#} = mset (serving ?ws)"
    using mset_serving_update [OF i(1), of IW_idle] i(2) by (simp add: serving_def)
  have a: "mset ?a = mset ?q + mset (serving ?ws)" "distinct ?a" using ok by (simp_all add: threads_ok_def)
  have "mset (filter (\<lambda>x. x \<noteq> d) ?a) = mset ?a - {#d#}"
    using distinct_remove1_removeAll [OF a(2), of d] mset_remove1 [of d ?a] by (simp add: removeAll_filter_not_eq neq_commute [of d])
  also have "\<dots> = mset ?q + mset (serving (?ws[i := IW_idle]))"
    unfolding a(1) m [symmetric] by simp
  finally show ?thesis using ok by (simp add: threads_ok_def server_release_def)
qed

lemma threads_ok_step:
  assumes step: "threads_step t t'" and ok: "threads_ok s0 t"
  shows "threads_ok s0 t'"
  using step
proof cases
  case (ts_accept polled accepted going s)
  have "s = th_server t \<or> (\<exists>d uid. accepted = AP_descriptor d uid \<and> s = snd (Accept_connection d uid (th_server t)))"
    using ts_accept(3) by (auto simp: Accept_round_def split: PollResult.splits AcceptResult.splits)
  then show ?thesis
    using ts_accept(1,4) ok threads_ok_connection [OF ok] by (auto simp: threads_ok_def)
next
  case (ts_take i w s)
  obtain ws where q: "is_queue (th_server t) = w # ws" "s = (th_server t)\<lparr>is_queue := ws\<rparr>"
    using ts_take(4) by (auto simp: server_take_def split: list.splits)
  have "mset (serving ((th_workers t)[i := IW_serving (wk_descriptor w)])) = mset (serving (th_workers t)) + {#wk_descriptor w#}"
    using mset_serving_update [OF ts_take(2), of "IW_serving (wk_descriptor w)"] ts_take(3) by (simp add: serving_def)
  then show ?thesis using ok q ts_take(1) by (simp add: threads_ok_def)
next
  case (ts_served i d)
  then show ?thesis using threads_ok_release [OF ok] by simp
next
  case (ts_returns i)
  have "mset (serving ((th_workers t)[i := IW_returned])) = mset (serving (th_workers t))"
    using mset_serving_update [OF ts_returns(2), of IW_returned] ts_returns(3) by (simp add: serving_def)
  then show ?thesis using ok ts_returns(1) by (simp add: threads_ok_def)
next
  case (ts_event event)
  then show ?thesis using ok by (simp add: threads_ok_def push_event_def Let_def)
qed (use ok in \<open>simp_all add: threads_ok_def\<close>)

lemma threads_run_ok: "threads_run t t' \<Longrightarrow> threads_ok s0 t \<Longrightarrow> threads_ok s0 t'"
  by (induction rule: threads_run.induct) (auto intro: threads_ok_step)

text \<open>C25: the bounds of the server. However its threads interleave, at most \<open>connection_capacity\<close> connections are queued, at
  most \<open>connection_capacity\<close> and \<open>worker_count\<close> connections are open, none is served twice at a time, and the history
  holds at most sixteen events per connection it may queue.\<close>

theorem server_within_capacity:
  assumes "threads_run (threads_start (IpcServer_Create options)) t"
  shows "length (is_queue (th_server t)) \<le> so_connection_capacity options \<and>
    length (is_active (th_server t)) \<le> so_connection_capacity options + so_worker_count options \<and>
    length (is_events (th_server t)) \<le> so_connection_capacity options * 16 \<and>
    distinct (serving (th_workers t)) \<and> set (serving (th_workers t)) \<subseteq> set (is_active (th_server t))"
proof -
  have ok: "threads_ok (IpcServer_Create options) t" by (rule threads_run_ok [OF assms threads_ok_start])
  then have m: "mset (is_active (th_server t)) = mset (map wk_descriptor (is_queue (th_server t)) @ serving (th_workers t))"
    by (simp add: threads_ok_def)
  then have "length (is_active (th_server t)) = length (is_queue (th_server t)) + length (serving (th_workers t))"
    by (metis length_append length_map mset_eq_length)
  moreover have "distinct (map wk_descriptor (is_queue (th_server t)) @ serving (th_workers t))"
    using ok m by (metis mset_eq_imp_distinct_iff threads_ok_def)
  moreover have "set (serving (th_workers t)) \<subseteq> set (is_active (th_server t))"
    using m by (metis mset_eq_setD set_append Un_upper2)
  ultimately show ?thesis
    using ok length_serving [of "th_workers t"] by (auto simp: threads_ok_def IpcServer_Create_def)
qed

definition demo_work :: Work where
  "demo_work = \<lparr>wk_descriptor = 5, wk_uid = 7\<rparr>"

lemma demo_threads_run:
  "threads_run (threads_start (IpcServer_Create demo_options))
     \<lparr>th_server = (IpcServer_Create demo_options)\<lparr>is_active := [5]\<rparr>, th_workers = [IW_serving 5], th_accepting = True, th_stopping = False\<rparr>"
proof -
  let ?s = "IpcServer_Create demo_options"
  let ?t = "(threads_start ?s)\<lparr>th_server := ?s\<lparr>is_queue := [demo_work], is_active := [5]\<rparr>, th_accepting := True\<rparr>"
  have "threads_step (threads_start ?s) ?t"
    by (rule ts_accept [where polled = PO_readable and accepted = "AP_descriptor 5 (Inr 7)"])
      (simp_all add: threads_start_def Accept_round_def Accept_connection_def IpcServer_Create_def demo_options_def demo_work_def)
  moreover have "threads_step ?t (?t\<lparr>th_server := ?s\<lparr>is_active := [5]\<rparr>, th_workers := (th_workers ?t)[0 := IW_serving (wk_descriptor demo_work)]\<rparr>)"
    by (rule ts_take) (simp_all add: threads_start_def server_take_def IpcServer_Create_def demo_options_def)
  ultimately show ?thesis
    using run_more [OF run_more [OF run_none]] by (simp add: threads_start_def demo_work_def) (simp add: IpcServer_Create_def demo_options_def)
qed

theorem server_within_capacity_witness:
  "\<exists>t. threads_run (threads_start (IpcServer_Create demo_options)) t \<and> serving (th_workers t) = [5] \<and>
     length (is_active (th_server t)) \<le> 2"
  using server_within_capacity [OF demo_threads_run] demo_threads_run
  by (intro exI conjI) (assumption, simp_all add: serving_def demo_options_def)

text \<open>A connection accepted while the server stops: the worker has seen an empty queue and returned, the acceptor had
  passed its check. The connection is neither answered nor closed.\<close>

lemma accepted_while_stopping:
  "\<exists>t. threads_run (threads_start (IpcServer_Create demo_options)) t \<and> th_stopping t \<and> \<not> th_accepting t \<and>
     th_workers t = [IW_returned] \<and> is_queue (th_server t) = [demo_work] \<and> is_active (th_server t) = [5]"
proof -
  let ?s = "IpcServer_Create demo_options" and ?q = "(IpcServer_Create demo_options)\<lparr>is_queue := [demo_work], is_active := [5]\<rparr>"
  let ?t0 = "threads_start ?s"
  let ?t1 = "?t0\<lparr>th_stopping := True\<rparr>"
  let ?t2 = "?t1\<lparr>th_workers := (th_workers ?t1)[0 := IW_returned]\<rparr>"
  let ?t3 = "?t2\<lparr>th_server := ?q, th_accepting := True\<rparr>"
  have "threads_step ?t0 ?t1" by (rule ts_stop)
  moreover have "threads_step ?t1 ?t2"
    by (rule ts_returns) (simp_all add: threads_start_def IpcServer_Create_def demo_options_def)
  moreover have "threads_step ?t2 ?t3"
    by (rule ts_accept [where polled = PO_readable and accepted = "AP_descriptor 5 (Inr 7)"])
      (simp_all add: threads_start_def Accept_round_def Accept_connection_def IpcServer_Create_def demo_options_def demo_work_def)
  moreover have "threads_step ?t3 (?t3\<lparr>th_accepting := False\<rparr>)"
    by (rule ts_accept_ends) (simp_all add: threads_start_def)
  ultimately have "threads_run ?t0 (?t3\<lparr>th_accepting := False\<rparr>)"
    by (rule run_more [OF run_more [OF run_more [OF run_more [OF run_none]]]])
  then show ?thesis
    by (intro exI conjI) (assumption, simp_all add: threads_start_def IpcServer_Create_def demo_options_def)
qed

section \<open>Requests the server does not survive\<close>

text \<open>A request whose version is a negative integer. \<open>Dispatch\<close> reads it with \<open>asUInt64\<close> before it has looked at the
  peer's authority, the conversion throws, and nothing in the worker catches: whoever can connect ends the process.\<close>

theorem negative_version_terminates:
  assumes lib: "json_library L textual ok" and i: "- (2 ^ 63) \<le> i" "i < 0"
    and len: "length (js_write L (js_object L [(''version'', js_int L i)])) \<le> so_maximum_message_size (is_options s)"
    and del: "delivers received (Ipc_Encode L (js_object L [(''version'', js_int L i)]))"
  shows "server_answer env L s uid received c = (DP_terminates, [], c)"
proof -
  let ?m = "[(''version'', js_int L i)]"
  have "textual ''version''" by (rule json_library.textual_ascii [OF lib]) simp
  moreover have "ok 0 (js_int L i)" using i by (intro json_library.ok_int [OF lib]) simp_all
  ultimately have "ok (Suc 0) (js_object L ?m)" by (intro json_library.ok_object [OF lib]) simp_all
  then have ok: "ok 100 (js_object L ?m)" by (rule json_library.ok_mono [OF lib]) simp
  have "js_at L (js_object L ?m) ''version'' = Some (js_int L i)" by (simp add: json_library.at_object [OF lib])
  moreover have "js_isIntegral L (js_int L i)" using i by (intro json_library.isIntegral_int [OF lib]) simp_all
  ultimately have "protocol_operation L (js_object L ?m) = None"
    using json_library.asUInt64_negative [OF lib i(2)] by (simp add: protocol_operation_def)
  then show ?thesis
    using json_library.server_answer_dispatch [OF lib del ok json_library.isObject_object [OF lib] len] by (simp add: Dispatch_def)
qed

theorem negative_version_terminates_witness:
  "\<exists>received. \<forall>c. server_answer fake_env json_lib (IpcServer_Create demo_options) 99 received c = (DP_terminates, [], c)"
proof (intro exI allI)
  let ?v = "js_object json_lib [(''version'', js_int json_lib (- 1))]"
  have len: "length (js_write json_lib ?v) \<le> so_maximum_message_size (is_options (IpcServer_Create demo_options))"
    by (simp add: json_lib_def length_write_text IpcServer_Create_def demo_options_def write_nat.simps)
  show "server_answer fake_env json_lib (IpcServer_Create demo_options) 99 (one_piece (Ipc_Encode json_lib ?v)) c = (DP_terminates, [], c)" for c
    by (rule negative_version_terminates [OF jl.json_library_axioms _ _ len]) simp_all
qed

section \<open>Waiting\<close>

text \<open>A wait whose deadline is less than a millisecond away sends a timeout of zero, which the server refuses as an argument
  error; the local client waits and reports the deadline.\<close>

lemma short_wait_invalid:
  assumes lib: "json_library L textual ok" and con: "faithful env L s uid c client cn"
    and auth: "Authorized (is_options s) uid False" and now: "now < deadline" "deadline < now + 1000000"
    and len: "length (js_write L (js_object L [operation_member L ''wait'', (''transition'', js_uint L i), (''timeoutMs'', js_int L 0),
        (''version'', js_uint L kProtocolVersion)])) \<le> so_maximum_message_size (is_options s)"
      "length (js_write L (Failure L (MakeError EC_invalid_argument ''valid transition id and timeout are required'' 0))) \<le>
        kClientMaximumMessageSize"
      "ok 100 (Failure L (MakeError EC_invalid_argument ''valid transition id and timeout are required'' 0))"
  shows "Client_Wait L client cn i deadline now =
    Some (Inl (MakeError EC_invalid_argument ''valid transition id and timeout are required'' 0))"
proof -
  let ?e = "MakeError EC_invalid_argument ''valid transition id and timeout are required'' 0"
  let ?m = "[operation_member L ''wait'', (''transition'', js_uint L i), (''timeoutMs'', js_int L 0)]"
  let ?r = "js_object L (?m @ [(''version'', js_uint L kProtocolVersion)])"
  have zero: "(deadline - now) div 1000000 = 0" using now by simp
  have keys: "textual ''operation''" "textual ''wait''" "textual ''transition''" "textual ''timeoutMs''" "textual ''version''"
    by (rule json_library.textual_ascii [OF lib], simp)+
  have "ok (Suc 0) ?r"
    by (rule json_library.ok_object [OF lib])
      (auto simp: keys intro: json_library.ok_string [OF lib] json_library.ok_uint [OF lib] json_library.ok_int [OF lib])
  then have ok: "ok 100 ?r" by (rule json_library.ok_mono [OF lib]) simp
  note laws = json_library.at_object [OF lib] json_library.at_as_object [OF lib] json_library.unsigned_of_uint [OF lib]
    json_library.string_of_string [OF lib] json_library.isIntegral_uint [OF lib] json_library.asUInt64_uint [OF lib]
    json_library.isIntegral_int [OF lib] json_library.asInt64_int [OF lib]
  have op: "protocol_operation L ?r = Some (Some ''wait'')" by (simp add: protocol_operation_def laws kProtocolVersion_def)
  have "dispatch_wait env L True ?r c = Some (invalid_argument L ''valid transition id and timeout are required'', [], c)"
    by (simp add: dispatch_wait_def positive_timeout_def laws IsSignedInteger_def)
  then have "Dispatch env L s uid ?r c = (DP_response (Failure L ?e), [], c)"
    using auth op by (simp add: Dispatch_def dispatch_operation_def invalid_argument_def)
  then have "Ipc_Call L client cn ?m t = read_response L (Failure L ?e)" for t
    using len by (intro json_library.call_dispatch [OF lib con _ ok]) (simp_all add: Failure_def json_library.isObject_object [OF lib])
  then show ?thesis
    using now zero by (simp add: Client_Wait_def then_decode_Some json_library.read_response_failure [OF lib])
qed

text \<open>A round of the server's wait: it answers once the transition is over or unknown, or the time is up, and only then.\<close>

lemma Wait_poll_answers:
  assumes "CoordinatorSnapshot env c = (Inr snapshot, c1)"
  shows "fst (Wait_poll env L i deadline c) =
    (case find_transition i snapshot of
       None \<Rightarrow> DP_response (Failure L transition_unknown)
     | Some t \<Rightarrow>
         if Terminal (pt_phase t) then DP_response (Success L (TransitionValue L t))
         else if deadline \<le> fst (in_world (env_now env) (co_run c1)) then
           DP_response (Failure L (MakeError EC_deadline_exceeded ''transition wait deadline expired'' 0))
         else DP_waits i deadline)"
  using assms by (simp add: Wait_poll_def split: option.split prod.split)

lemma Terminal_IsTerminal: "Terminal phase = IsTerminal phase"
  by (cases phase) (simp_all add: Terminal_def IsTerminal_def)

section \<open>The history of events\<close>

definition event_history :: "CoordinatorServerOptions \<Rightarrow> CoordinatorEvent list \<Rightarrow> CoordinatorEvent list" where
  "event_history options evs = is_events (fold push_event evs (IpcServer_Create options))"

lemma push_events_kept:
  "is_events (fold push_event evs (IpcServer_Create options)) =
     drop (length evs - so_connection_capacity options * 16) evs \<and>
   is_options (fold push_event evs (IpcServer_Create options)) = options"
proof (induction evs rule: rev_induct)
  case (snoc e evs)
  let ?n = "so_connection_capacity options * 16"
  have "drop (Suc (length evs) - ?n) (evs @ [e]) =
      drop (Suc (length (drop (length evs - ?n) evs)) - ?n) (drop (length evs - ?n) evs @ [e])"
  proof (cases "length evs < ?n")
    case False
    then have "drop (length evs - ?n) evs @ [e] = drop (length evs - ?n) (evs @ [e])" by simp
    then show ?thesis using False by (simp only:) (simp add: Suc_diff_le not_less del: drop_append)
  qed simp
  then show ?case using snoc by (simp add: push_event_def Let_def)
qed (simp add: IpcServer_Create_def)

lemma event_history_drop: "event_history options evs = drop (length evs - so_connection_capacity options * 16) evs"
  by (simp add: event_history_def push_events_kept)

text \<open>Polling misses nothing while revisions are distinct and arrive in order. Whatever was pushed, the answer to
  \<open>events\<close> is a report of an overrun or holds every event pushed so far whose revision is above the client's, although
  the server keeps only the latest ones.\<close>

theorem events_poll_complete:
  assumes lib: "json_library L textual ok" and ordered: "sorted_wrt (\<lambda>a b. ce_revision a < ce_revision b) evs"
    and r: "r + 1 \<noteq> 0" and capacity: "0 < so_connection_capacity options"
  shows "dispatch_events L (event_history options evs) (js_object L [(''afterRevision'', js_uint L r)]) =
    Some (DP_response (if event_history options evs \<noteq> [] \<and> r + 1 < ce_revision (hd (event_history options evs))
      then Failure L (MakeError EC_resource_exhausted ''coordinator event history was overrun'' 0)
      else Success L (js_array L (map (EventValue L) (filter (\<lambda>e. ce_revision e > r) evs)))))"
proof -
  define kept where "kept = event_history options evs"
  let ?n = "length evs - so_connection_capacity options * 16"
  have kept: "kept = drop ?n evs" by (simp add: kept_def event_history_drop)
  have "filter (\<lambda>e. ce_revision e > r) evs = filter (\<lambda>e. ce_revision e > r) kept"
    if no: "\<not> (kept \<noteq> [] \<and> r + 1 < ce_revision (hd kept))"
  proof (cases "kept = []")
    case True
    then show ?thesis using capacity by (auto simp: kept)
  next
    case False
    have "ce_revision e \<le> r" if "e \<in> set (take ?n evs)" for e
    proof -
      have "sorted_wrt (\<lambda>a b. ce_revision a < ce_revision b) (take ?n evs @ kept)" using ordered by (simp add: kept)
      then have "ce_revision e < ce_revision (hd kept)" using that False by (auto simp: sorted_wrt_append)
      then have "ce_revision e < r + 1" using no False by (simp add: not_less)
      then show ?thesis using unatSuc [of r] r by (simp add: word_less_nat_alt word_le_nat_alt add.commute)
    qed
    then have "filter (\<lambda>e. ce_revision e > r) (take ?n evs) = []" by (auto simp: filter_empty_conv not_less)
    then show ?thesis by (metis append_take_drop_id filter_append kept self_append_conv2)
  qed
  then show ?thesis
    by (simp add: kept_def [symmetric] dispatch_events_def json_library.at_as_object [OF lib] json_library.unsigned_of_uint [OF lib])
qed

definition demo_event :: "CoordinatorEventKind \<Rightarrow> u64 \<Rightarrow> CoordinatorEvent" where
  "demo_event kind r = \<lparr>ce_kind = kind, ce_revision = r, ce_transition = Some r, ce_domain = Some 1\<rparr>"

definition demo_events :: "CoordinatorEvent list" where
  "demo_events = map (demo_event CE_transition_changed) [2, 3, 4, 5, 6, 7, 8, 9, 10, 11, 12, 13, 14, 15, 16]"

text \<open>Seventeen events with a room for sixteen: a client that has seen the first gets the others.\<close>

theorem events_poll_complete_witness:
  "dispatch_events json_lib
     (event_history demo_options ([demo_event CE_transition_changed 1] @ demo_events @ [demo_event CE_transition_changed 17]))
     (js_object json_lib [(''afterRevision'', js_uint json_lib 1)]) =
   Some (DP_response (Success json_lib (js_array json_lib (map (EventValue json_lib) (demo_events @ [demo_event CE_transition_changed 17])))))"
proof -
  let ?evs = "[demo_event CE_transition_changed 1] @ demo_events @ [demo_event CE_transition_changed 17]"
  have sorted: "sorted_wrt (\<lambda>a b. ce_revision a < ce_revision b) ?evs" by (simp add: demo_events_def demo_event_def)
  have "(1 :: u64) + 1 \<noteq> 0" "0 < so_connection_capacity demo_options" by (simp_all add: demo_options_def)
  note poll = events_poll_complete [OF jl.json_library_axioms sorted this]
  have "event_history demo_options ?evs = demo_events @ [demo_event CE_transition_changed 17]"
    by (simp add: event_history_drop demo_options_def demo_events_def)
  moreover have "filter (\<lambda>e. ce_revision e > 1) ?evs = demo_events @ [demo_event CE_transition_changed 17]"
    by (simp add: demo_events_def demo_event_def)
  ultimately show ?thesis using poll by (simp add: demo_events_def demo_event_def)
qed

text \<open>The end of a transition is one revision with up to three events. When the history drops one of them and keeps another,
  a client that has seen none of them gets the kept one and no report of an overrun.\<close>

lemma shared_revision_lost:
  fixes evs :: "CoordinatorEvent list"
  assumes "json_library L textual ok"
    and "evs = [demo_event CE_transition_changed 1, demo_event CE_configuration_changed 1] @ demo_events"
  shows "dispatch_events L (event_history demo_options evs) (js_object L [(''afterRevision'', js_uint L 0)]) =
    Some (DP_response (Success L (js_array L (map (EventValue L) (tl evs)))))"
proof -
  have "event_history demo_options evs = tl evs"
    by (simp add: assms(2) event_history_drop demo_options_def demo_events_def)
  then show ?thesis
    using assms(2) by (simp add: dispatch_events_def json_library.at_as_object [OF assms(1)] json_library.unsigned_of_uint [OF assms(1)]
        demo_event_def demo_events_def)
qed

text \<open>Handlers run after the mutex is released, so that the history may receive a later revision first. A client that
  polls in between goes on from the later revision and never gets the earlier one.\<close>

lemma late_event_lost:
  assumes lib: "json_library L textual ok" and rev: "ce_revision early < ce_revision late" "r + 1 = ce_revision late" "ce_revision late + 1 \<noteq> 0"
    and flt: "Matches flt late"
  shows "dispatch_events L [late] (js_object L [(''afterRevision'', js_uint L r)]) =
      Some (DP_response (Success L (js_array L (map (EventValue L) [late])))) \<and>
    take_events L flt (map (EventValue L) [late]) r = Some (False, ce_revision late, [late]) \<and>
    dispatch_events L [late, early] (js_object L [(''afterRevision'', js_uint L (ce_revision late))]) =
      Some (DP_response (Success L (js_array L [])))"
proof -
  have "ce_revision late \<noteq> 0" using rev(1) by (auto simp: word_less_nat_alt)
  then have r: "r < ce_revision late" "\<not> ce_revision late + 1 < ce_revision late"
    using rev unatSuc [of r] unatSuc [of "ce_revision late"]
    by (auto simp: word_less_nat_alt add.commute)
  have "take_events L flt (map (EventValue L) [late]) r = Some (False, ce_revision late, [late])"
    using r(1) flt by (simp add: json_library.DecodeEvent_value [OF lib] max_absorb2)
  then show ?thesis
    using rev(1,2) r less_not_sym [OF rev(1)] by (simp add: dispatch_events_def json_library.at_as_object [OF lib] json_library.unsigned_of_uint [OF lib])
qed

section \<open>Messages read back\<close>

text \<open>C26: the client reads back the snapshot the server sent. The text of a snapshot whose transitions are codable decodes
  to the value the encoder built, and that to the snapshot itself: revision, configuration, domains, applications, units
  and transitions with their failures.\<close>

theorem snapshot_message_roundtrip:
  assumes lib: "json_library L textual ok" and cod: "\<forall>t \<in> set (sn_transitions s). transition_codable t"
    and ok: "ok 100 (Success L (SnapshotValue L s))"
  shows "do {
      response \<leftarrow> Ipc_Decode L (js_write L (Success L (SnapshotValue L s)));
      then_decode (case response of Inl e \<Rightarrow> Some (Inl e) | Inr v \<Rightarrow> read_response L v) (DecodeSnapshot L)
    } = Some (Inr s)"
proof -
  have "Ipc_Decode L (js_write L (Success L (SnapshotValue L s))) = Some (Inr (Success L (SnapshotValue L s)))"
    using json_library.read_write [OF lib ok] by (simp add: Ipc_Decode_def Success_def json_library.isObject_object [OF lib])
  then show ?thesis
    using json_library.DecodeSnapshot_value [OF lib cod] by (simp add: json_library.read_response_success [OF lib] then_decode_Some)
qed

definition demo_failure :: TransitionFailureSnapshot where
  "demo_failure = \<lparr>pf_error = MakeError EC_backend_error ''lost'' 5, pf_application = Some 3, pf_exit_code = - 1, pf_signal = 9,
     pf_backend_code = 12, pf_backend_message = ''gone'', pf_recovery_action = FA_enter_fallback_mode, pf_recovery_attempted = True,
     pf_recovery_succeeded = True, pf_recovery_error = None, pf_recovered_mode = Some 1, pf_recovery_stopped = [4],
     pf_recovery_started = [3]\<rparr>"

definition demo_snapshot :: SystemSnapshot where
  "demo_snapshot = \<lparr>sn_model_generation = 1, sn_revision = 4, sn_recovering = False, sn_domains = [], sn_units = [],
     sn_applications = [],
     sn_transitions = [\<lparr>pt_id = 1, pt_domain = 1, pt_source_mode = 1, pt_target_mode = 2, pt_phase = TP_failed, pt_updated_at = 77,
       pt_failure = Some demo_failure\<rparr>]\<rparr>"

theorem snapshot_message_roundtrip_witness:
  "do {
      response \<leftarrow> Ipc_Decode json_lib (js_write json_lib (Success json_lib (SnapshotValue json_lib demo_snapshot)));
      then_decode (case response of Inl e \<Rightarrow> Some (Inl e) | Inr v \<Rightarrow> read_response json_lib v) (DecodeSnapshot json_lib)
    } = Some (Inr demo_snapshot)"
  by (rule snapshot_message_roundtrip [OF jl.json_library_axioms])
    (simp_all add: demo_snapshot_def transition_codable_def failure_codable_def demo_failure_def)

end
