(* ===== verification/Per_Codec.thy ===== *)
theory Per_Codec
  imports OVF_Prelude
begin

text \<open>
  The codec of persistent values, \<^verbatim>\<open>per/include/ovf/per/codec.hpp\<close>: big-endian scalars, bounded strings, optional values, tagged
  fields and the envelope with magic, schema and version. The templates over a type are functions over a word of its
  width or over a codec, the record of an encoder and a decoder; the locale \<open>value_codec\<close> states what a codec promises and
  is interpreted on the codecs of the file. \<open>append_fields\<close> and \<open>read_fields\<close> are the loops the generated structures run
  over \<open>AppendField\<close> and \<open>NextField\<close>.
\<close>

unbundle bit_operations_syntax

section \<open>Scalars\<close>

text \<open>The functions append to an output and report whether everything fitted below \<open>maximum\<close>; what was appended before a
  failure stays. A scalar is its bit pattern, signed and floating-point types included.\<close>

definition Codec_Append :: "bytes \<Rightarrow> bytes \<Rightarrow> nat \<Rightarrow> bool \<times> bytes" where
  "Codec_Append output bs maximum =
     (if length bs > maximum \<or> length output > maximum - length bs then (False, output) else (True, output @ bs))"

fun big_endian :: "nat \<Rightarrow> 'a::len word \<Rightarrow> bytes" where
  "big_endian 0 bits = []"
| "big_endian (Suc n) bits = big_endian n (drop_bit 8 bits) @ [ucast (bits AND 0xff)]"

definition scalar_size :: "'a::len word \<Rightarrow> nat" where
  "scalar_size value = LENGTH('a) div 8"

definition EncodeScalar :: "'a::len word \<Rightarrow> bytes \<Rightarrow> nat \<Rightarrow> bool \<times> bytes" where
  "EncodeScalar value output maximum = Codec_Append output (big_endian (scalar_size value) value) maximum"

definition read_scalar :: "bytes \<Rightarrow> 'a::len word" where
  "read_scalar input = fold (\<lambda>b bits. push_bit 8 bits OR ucast b) input 0"

definition DecodeScalar :: "bytes \<Rightarrow> 'a::len word option" where
  "DecodeScalar input = (if length input \<noteq> LENGTH('a) div 8 then None else Some (read_scalar input))"

section \<open>Bounded strings and optional values\<close>

text \<open>A bounded string is its text; \<open>assign\<close> refuses a longer one. A codec is a pair of functions, decoding \<open>None\<close> is a
  refusal.\<close>

definition BoundedString_assign :: "nat \<Rightarrow> string \<Rightarrow> string option" where
  "BoundedString_assign capacity value = (if length value > capacity then None else Some value)"

definition text_bytes :: "string \<Rightarrow> bytes" where
  "text_bytes s = map (\<lambda>c. of_nat (of_char c)) s"

definition bytes_string :: "bytes \<Rightarrow> string" where
  "bytes_string bs = map (\<lambda>b. char_of (unat b)) bs"

record 'v Codec =
  cd_encode :: "'v \<Rightarrow> bytes \<Rightarrow> nat \<Rightarrow> bool \<times> bytes"
  cd_decode :: "bytes \<Rightarrow> 'v option"

definition scalar_codec :: "('a::len word) Codec" where
  "scalar_codec = \<lparr>cd_encode = EncodeScalar, cd_decode = DecodeScalar\<rparr>"

definition string_codec :: "nat \<Rightarrow> string Codec" where
  "string_codec capacity =
     \<lparr>cd_encode = (\<lambda>value output maximum.
        if length value \<le> capacity then Codec_Append output (text_bytes value) maximum else (False, output)),
      cd_decode = (\<lambda>input. if length input \<le> capacity then BoundedString_assign capacity (bytes_string input) else None)\<rparr>"

definition optional_codec :: "'v Codec \<Rightarrow> 'v option Codec" where
  "optional_codec codec =
     \<lparr>cd_encode = (\<lambda>value output maximum.
        case value of None \<Rightarrow> (True, output) | Some v \<Rightarrow> cd_encode codec v output maximum),
      cd_decode = (\<lambda>input. map_option Some (cd_decode codec input))\<rparr>"

section \<open>Fields and envelopes\<close>

definition AppendField :: "u32 \<Rightarrow> bytes \<Rightarrow> bytes \<Rightarrow> nat \<Rightarrow> bool \<times> bytes" where
  "AppendField tag payload output maximum =
     (if length payload > 0xFFFFFFFF then (False, output)
      else let (ok, output) = EncodeScalar tag output maximum in
        if \<not> ok then (False, output)
        else let (ok, output) = EncodeScalar (of_nat (length payload) :: u32) output maximum in
          if \<not> ok then (False, output) else Codec_Append output payload maximum)"

definition subspan :: "nat \<Rightarrow> nat \<Rightarrow> bytes \<Rightarrow> bytes" where
  "subspan offset n input = take n (drop offset input)"

text \<open>The next field at an offset: its tag, its payload and the offset behind it.\<close>

definition NextField :: "bytes \<Rightarrow> nat \<Rightarrow> (u32 \<times> bytes \<times> nat) option" where
  "NextField input offset =
     (if offset > length input \<or> length input - offset < 8 then None
      else do {
        tag \<leftarrow> DecodeScalar (subspan offset 4 input);
        n \<leftarrow> (DecodeScalar (subspan (offset + 4) 4 input) :: u32 option);
        (if unat n > length input - offset - 8 then None
         else Some (tag, subspan (offset + 8) (unat n) input, offset + 8 + unat n))
      })"

definition envelope_magic :: bytes where
  "envelope_magic = [79, 86, 80, 82]"

definition AppendEnvelope :: "bytes \<Rightarrow> u64 \<Rightarrow> bytes \<Rightarrow> bytes \<Rightarrow> nat \<Rightarrow> bool \<times> bytes" where
  "AppendEnvelope schema version payload output maximum =
     (let (ok, output) = Codec_Append output envelope_magic maximum in
      if \<not> ok then (False, output)
      else let (ok, output) = Codec_Append output schema maximum in
        if \<not> ok then (False, output)
        else let (ok, output) = EncodeScalar version output maximum in
          if \<not> ok then (False, output) else Codec_Append output payload maximum)"

definition OpenEnvelope :: "bytes \<Rightarrow> bytes \<Rightarrow> u64 \<Rightarrow> bytes option" where
  "OpenEnvelope input schema version =
     (if length input < 28 \<or> take 4 input \<noteq> envelope_magic \<or> take (length schema) (drop 4 input) \<noteq> schema then None
      else case DecodeScalar (subspan 20 8 input) of
        None \<Rightarrow> None
      | Some encoded_version \<Rightarrow> if encoded_version \<noteq> version then None else Some (drop 28 input))"

section \<open>Reading back what was written\<close>

lemma Codec_Append_iff:
  "fst (Codec_Append output bs maximum) \<longleftrightarrow> length output + length bs \<le> maximum"
  "snd (Codec_Append output bs maximum) = (if length output + length bs \<le> maximum then output @ bs else output)"
  by (auto simp: Codec_Append_def)

lemma length_big_endian [simp]: "length (big_endian n w) = n"
  by (induction n arbitrary: w) auto

lemma mask_byte: "(x :: 'a::len word) AND 0xff = take_bit 8 x"
  by (simp add: take_bit_eq_mask mask_eq_exp_minus_1)

lemma fold_big_endian:
  fixes acc w :: "'a::len word"
  assumes "8 * n \<le> LENGTH('a)"
  shows "fold (\<lambda>b bits. push_bit 8 bits OR ucast b) (big_endian n w) acc = push_bit (8 * n) acc OR take_bit (8 * n) w"
  using assms
proof (induction n arbitrary: w)
  case (Suc n)
  have "fold (\<lambda>b bits. push_bit 8 bits OR ucast b) (big_endian (Suc n) w) acc =
      push_bit 8 (push_bit (8 * n) acc OR take_bit (8 * n) (drop_bit 8 w)) OR ucast (ucast (w AND 0xff) :: u8)"
    using Suc by simp
  also have "\<dots> = push_bit (8 * Suc n) acc OR take_bit (8 * Suc n) w"
  proof -
    show ?thesis
      unfolding mask_byte
      by (rule bit_word_eqI) (auto simp: bit_simps)
  qed
  finally show ?case .
qed simp

lemma read_scalar_big_endian:
  "8 dvd LENGTH('a) \<Longrightarrow> read_scalar (big_endian (scalar_size (w :: 'a::len word)) w) = w"
  by (simp add: read_scalar_def fold_big_endian scalar_size_def)

lemma DecodeScalar_big_endian:
  "8 dvd LENGTH('a) \<Longrightarrow> DecodeScalar (big_endian (scalar_size (w :: 'a::len word)) w) = Some w"
  using read_scalar_big_endian [of w] by (simp add: DecodeScalar_def scalar_size_def)

text \<open>The bytes of a scalar are determined by it.\<close>

lemma big_endian_cong:
  "(\<And>i. i < 8 * n \<Longrightarrow> bit x i = bit y i) \<Longrightarrow> big_endian n x = big_endian n (y :: 'a::len word)"
proof (induction n arbitrary: x y)
  case (Suc n)
  have "bit (ucast (take_bit 8 x) :: u8) i = bit (ucast (take_bit 8 y) :: u8) i" if "i < 8" for i
    using that Suc.prems [of i] by (simp add: bit_simps)
  then have "(ucast (x AND 0xff) :: u8) = ucast (y AND 0xff)"
    unfolding mask_byte by (intro bit_word_eqI) simp
  moreover have "big_endian n (drop_bit 8 x) = big_endian n (drop_bit 8 y)"
    using Suc.prems by (intro Suc.IH) (simp add: bit_simps)
  ultimately show ?case by simp
qed simp

lemma big_endian_read:
  "8 * length bs \<le> LENGTH('a) \<Longrightarrow> big_endian (length bs) (read_scalar bs :: 'a::len word) = bs"
proof (induction bs rule: rev_induct)
  case (snoc b bs)
  let ?w = "read_scalar bs :: 'a word"
  have r: "(read_scalar (bs @ [b]) :: 'a word) = push_bit 8 ?w OR ucast b" by (simp add: read_scalar_def)
  have "bit (drop_bit 8 (push_bit 8 ?w OR ucast b)) i = bit ?w i" if "i < 8 * length bs" for i
  proof -
    have "\<not> bit b (8 + i)" by (auto dest: bit_imp_le_length)
    moreover have "8 + i < LENGTH('a)" using that snoc.prems by simp
    ultimately show ?thesis by (simp add: bit_simps add.commute)
  qed
  then have "big_endian (length bs) (drop_bit 8 (push_bit 8 ?w OR ucast b)) = big_endian (length bs) ?w"
    by (rule big_endian_cong)
  moreover have "bit (ucast (take_bit 8 (push_bit 8 ?w OR ucast b)) :: u8) i = bit b i" if "i < 8" for i
    using that snoc.prems by (simp add: bit_simps)
  then have "(ucast ((push_bit 8 ?w OR ucast b) AND 0xff) :: u8) = b"
    unfolding mask_byte by (intro bit_word_eqI) simp
  ultimately show ?case using snoc by (simp add: r)
qed simp

text \<open>What a codec promises: a value it has encoded is an extension of the output from which the value is decoded.\<close>

locale value_codec =
  fixes codec :: "'v Codec"
  assumes encoded: "cd_encode codec v output maximum = (True, output') \<Longrightarrow>
    \<exists>bs. output' = output @ bs \<and> length output' \<le> maximum \<and> cd_decode codec bs = Some v"
begin

lemma decode_encoded: "cd_encode codec v [] maximum = (True, payload) \<Longrightarrow> cd_decode codec payload = Some v"
  using encoded [of v "[]" maximum payload] by auto

lemma encode_injective:
  "cd_encode codec v [] maximum = (True, payload) \<Longrightarrow> cd_encode codec v' [] maximum' = (True, payload) \<Longrightarrow> v = v'"
  using decode_encoded [of v maximum payload] decode_encoded [of v' maximum' payload] by simp

end

lemma Codec_Append_success:
  "Codec_Append output bs maximum = (True, output') \<longleftrightarrow> output' = output @ bs \<and> length output + length bs \<le> maximum"
  by (auto simp: Codec_Append_def)

lemma EncodeScalar_success:
  "EncodeScalar (w :: 'a::len word) output maximum = (True, output') \<longleftrightarrow>
     output' = output @ big_endian (scalar_size w) w \<and> length output + scalar_size w \<le> maximum"
  by (simp add: EncodeScalar_def Codec_Append_success)

lemma scalar_codec_law:
  assumes "8 dvd LENGTH('a)"
  shows "value_codec (scalar_codec :: ('a::len word) Codec)"
  by unfold_locales
    (use assms in \<open>auto simp: scalar_codec_def EncodeScalar_success DecodeScalar_big_endian\<close>)

interpretation u8c: value_codec "scalar_codec :: u8 Codec" by (rule scalar_codec_law) simp
interpretation u32c: value_codec "scalar_codec :: u32 Codec" by (rule scalar_codec_law) simp
interpretation u64c: value_codec "scalar_codec :: u64 Codec" by (rule scalar_codec_law) simp

lemma bytes_string_of: "bytes_string (text_bytes s) = s"
proof -
  have "char_of (unat (of_nat (of_char c) :: u8)) = c" for c
    using of_char_mod_256 [of c, where ?'a = nat] by (simp add: unat_of_nat take_bit_eq_mod)
  then show ?thesis by (induction s) (simp_all add: bytes_string_def text_bytes_def)
qed

lemma length_text_bytes [simp]: "length (text_bytes s) = length s"
  by (simp add: text_bytes_def)

lemma length_bytes_string [simp]: "length (bytes_string bs) = length bs"
  by (simp add: bytes_string_def)

interpretation string_codec: value_codec "string_codec capacity" for capacity
proof
  fix v and out output' :: bytes and maximum
  assume "cd_encode (string_codec capacity) v out maximum = (True, output')"
  then have "output' = out @ text_bytes v" "length output' \<le> maximum" "length v \<le> capacity"
    by (auto simp: string_codec_def Codec_Append_success split: if_splits)
  then show "\<exists>bs. output' = out @ bs \<and> length output' \<le> maximum \<and> cd_decode (string_codec capacity) bs = Some v"
    by (intro exI [of _ "text_bytes v"]) (simp add: string_codec_def BoundedString_assign_def bytes_string_of)
qed

text \<open>An optional value that is present is read back; the absent one is written as nothing, which the codec of a string
  reads as the empty string and that of a scalar refuses. The generated structures leave the whole field out instead.\<close>

lemma optional_present:
  assumes "value_codec codec" and "cd_encode (optional_codec codec) (Some v) [] maximum = (True, payload)"
  shows "cd_decode (optional_codec codec) payload = Some (Some v)"
  using assms(2) value_codec.decode_encoded [OF assms(1)] by (simp add: optional_codec_def)

lemma optional_absent:
  "cd_encode (optional_codec codec) None [] maximum = (True, [])"
  "cd_decode (optional_codec (string_codec capacity)) [] = Some (Some [])"
  "8 \<le> LENGTH('a) \<Longrightarrow> cd_decode (optional_codec (scalar_codec :: ('a::len word) Codec)) [] = None"
  by (simp_all add: optional_codec_def string_codec_def scalar_codec_def BoundedString_assign_def bytes_string_def DecodeScalar_def)

section \<open>Fields\<close>

definition field_bytes :: "u32 \<Rightarrow> bytes \<Rightarrow> bytes" where
  "field_bytes tag payload = big_endian 4 tag @ big_endian 4 (of_nat (length payload) :: u32) @ payload"

lemma scalar_size_words [simp]: "scalar_size (w :: u32) = 4" "scalar_size (v :: u64) = 8"
  by (simp_all add: scalar_size_def)

lemma length_field_bytes [simp]: "length (field_bytes tag payload) = 8 + length payload"
  by (simp add: field_bytes_def)

lemma AppendField_success:
  "AppendField tag payload output maximum = (True, output') \<longleftrightarrow>
     output' = output @ field_bytes tag payload \<and> length payload \<le> 0xFFFFFFFF \<and> length output' \<le> maximum"
  by (auto simp: AppendField_def field_bytes_def EncodeScalar_success Codec_Append_success split: prod.splits if_splits)
    (auto simp: EncodeScalar_def Codec_Append_def split: if_splits)

lemma NextField_at:
  assumes "length payload \<le> 0xFFFFFFFF"
  shows "NextField (before @ field_bytes tag payload @ rest) (length before) =
    Some (tag, payload, length before + (8 + length payload))"
proof -
  have "unat (of_nat (length payload) :: u32) = length payload"
    using assms by (simp add: unat_of_nat take_bit_nat_eq_self)
  moreover have "DecodeScalar (big_endian 4 (w :: u32)) = Some w" for w
    using DecodeScalar_big_endian [of w] by simp
  ultimately show ?thesis by (simp add: NextField_def subspan_def field_bytes_def)
qed

text \<open>The members of a structure, written one after the other, and a loop over \<open>NextField\<close> that collects tag and
  payload of every field.\<close>

fun append_fields :: "(u32 \<times> bytes) list \<Rightarrow> bytes \<Rightarrow> nat \<Rightarrow> bool \<times> bytes" where
  "append_fields [] output maximum = (True, output)"
| "append_fields ((tag, payload) # fs) output maximum =
     (let (ok, output) = AppendField tag payload output maximum in
      if \<not> ok then (False, output) else append_fields fs output maximum)"

lemma NextField_advances: "NextField input offset = Some (tag, payload, next) \<Longrightarrow> offset < next \<and> next \<le> length input"
  by (auto simp: NextField_def Let_def split: if_splits bind_splits)

function read_fields :: "bytes \<Rightarrow> nat \<Rightarrow> (u32 \<times> bytes) list option" where
  "read_fields input offset =
     (if offset \<ge> length input then Some []
      else case NextField input offset of
        None \<Rightarrow> None
      | Some (tag, payload, next) \<Rightarrow> map_option ((#) (tag, payload)) (read_fields input next))"
  by pat_completeness auto
termination
  by (relation "measure (\<lambda>(input, offset). length input - offset)") (auto dest: NextField_advances)

declare read_fields.simps [simp del]

lemma append_fields_Cons:
  "append_fields ((tag, payload) # fs) out maximum = (True, output') \<longleftrightarrow>
     length payload \<le> 0xFFFFFFFF \<and> length (out @ field_bytes tag payload) \<le> maximum \<and>
     append_fields fs (out @ field_bytes tag payload) maximum = (True, output')"
proof (cases "length payload \<le> 0xFFFFFFFF \<and> length (out @ field_bytes tag payload) \<le> maximum")
  case True
  then have "AppendField tag payload out maximum = (True, out @ field_bytes tag payload)" by (simp add: AppendField_success)
  then show ?thesis using True by simp
next
  case False
  then have "\<not> fst (AppendField tag payload out maximum)"
    using AppendField_success [of tag payload out maximum "snd (AppendField tag payload out maximum)"]
    by (cases "AppendField tag payload out maximum") auto
  then show ?thesis using False by (auto split: prod.split)
qed

lemma append_fields_success:
  "append_fields fs out maximum = (True, output') \<Longrightarrow>
     output' = out @ concat (map (\<lambda>(tag, payload). field_bytes tag payload) fs) \<and>
     (\<forall>(tag, payload) \<in> set fs. length payload \<le> 0xFFFFFFFF) \<and> (length out \<le> maximum \<longrightarrow> length output' \<le> maximum)"
proof (induction fs arbitrary: out)
  case (Cons f fs)
  obtain tag payload where f: "f = (tag, payload)" by fastforce
  show ?case using Cons.IH [of "out @ field_bytes tag payload"] Cons.prems by (auto simp: f append_fields_Cons simp del: append_fields.simps(2))
qed simp

lemma read_fields_bytes:
  "\<forall>(tag, payload) \<in> set fs. length payload \<le> 0xFFFFFFFF \<Longrightarrow>
   read_fields (before @ concat (map (\<lambda>(tag, payload). field_bytes tag payload) fs)) (length before) = Some fs"
proof (induction fs arbitrary: before)
  case Nil
  then show ?case by (simp add: read_fields.simps)
next
  case (Cons f fs)
  obtain tag payload where f: "f = (tag, payload)" by fastforce
  let ?rest = "concat (map (\<lambda>(tag, payload). field_bytes tag payload) fs)"
  have "NextField (before @ field_bytes tag payload @ ?rest) (length before) =
      Some (tag, payload, length (before @ field_bytes tag payload))"
    using NextField_at [of payload before tag ?rest] Cons.prems f by simp
  moreover have "read_fields ((before @ field_bytes tag payload) @ ?rest) (length (before @ field_bytes tag payload)) = Some fs"
    using Cons by (intro Cons.IH) auto
  ultimately show ?case
    using f by (subst read_fields.simps) simp
qed


lemma big_endian_4:
  "big_endian 4 (w :: u32) = [ucast (drop_bit 24 w AND 0xff), ucast (drop_bit 16 w AND 0xff), ucast (drop_bit 8 w AND 0xff), ucast (w AND 0xff)]"
  by (simp add: numeral_eq_Suc drop_bit_drop_bit)


section \<open>Envelopes\<close>

text \<open>C32: an envelope is opened exactly when it was written for the schema and the version. The input is then the magic, the
  schema identifier, the version and the payload that is returned, and every payload written so is returned.\<close>

theorem envelope_exact:
  assumes "length schema = 16"
  shows "OpenEnvelope input schema version = Some payload \<longleftrightarrow>
    AppendEnvelope schema version payload [] (28 + length payload) = (True, input)"
proof -
  have enc: "AppendEnvelope schema version payload [] (28 + length payload) =
      (True, envelope_magic @ schema @ big_endian 8 version @ payload)"
    using assms by (simp add: AppendEnvelope_def EncodeScalar_def Codec_Append_def envelope_magic_def)
  have dec: "DecodeScalar (big_endian 8 (w :: u64)) = Some w" for w using DecodeScalar_big_endian [of w] by simp
  have "OpenEnvelope (envelope_magic @ schema @ big_endian 8 version @ payload) schema version = Some payload"
    using assms dec by (simp add: OpenEnvelope_def envelope_magic_def subspan_def)
  moreover have "input = envelope_magic @ schema @ big_endian 8 version @ payload"
    if opened: "OpenEnvelope input schema version = Some payload"
  proof -
    have i: "28 \<le> length input" "take 4 input = envelope_magic" "take 16 (drop 4 input) = schema"
      "DecodeScalar (subspan 20 8 input) = Some version" "payload = drop 28 input"
      using opened assms by (auto simp: OpenEnvelope_def split: if_splits option.splits)
    have v: "big_endian 8 version = subspan 20 8 input"
      using big_endian_read [of "subspan 20 8 input", where ?'a = 64] i(1,4) by (simp add: DecodeScalar_def subspan_def)
    have "input = take 4 input @ take 16 (drop 4 input) @ take 8 (drop 20 input) @ drop 28 input"
      using append_take_drop_id [of 4 input] append_take_drop_id [of 16 "drop 4 input"] append_take_drop_id [of 8 "drop 20 input"]
      by simp
    then show ?thesis using i v by (simp add: subspan_def)
  qed
  ultimately show ?thesis using enc by auto
qed

theorem envelope_exact_witness:
  "OpenEnvelope (snd (AppendEnvelope (replicate 16 1) 3 [9] [] 29)) (replicate 16 1) 3 = Some [9]"
proof -
  have "fst (AppendEnvelope (replicate 16 1) 3 [9] [] 29)"
    by (simp add: AppendEnvelope_def EncodeScalar_def Codec_Append_def envelope_magic_def)
  then have "AppendEnvelope (replicate 16 1) 3 [9] [] (28 + length [9 :: u8]) =
      (True, snd (AppendEnvelope (replicate 16 1) 3 [9] [] 29))"
    by (cases "AppendEnvelope (replicate 16 1) 3 [9] [] 29") simp
  then show ?thesis using envelope_exact [of "replicate 16 1" _ 3 "[9]"] by (metis length_replicate)
qed

end
