(* ===== verification/Per_Memory.thy ===== *)
theory Per_Memory
  imports OVF_Prelude
begin

text \<open>
  The in-memory persistence backend, \<^verbatim>\<open>per/backends/memory.cpp\<close>, behind the binary interface of
  \<^verbatim>\<open>per/include/ovf/per/backend_abi.h\<close>: stores with quotas, snapshot transactions with a single writer,
  blobs, prefix cursors, resumable migrations and rollback. Every entry point is a function on the
  backend's state; it returns the status, what it writes through its output pointers, and the new state.
  A null output pointer, or one to a structure that is too small, is \<open>outputs = False\<close>; \<open>fits\<close> says whether the
  allocations inside a \<open>try\<close> block succeed. The theory \<open>Per_Store\<close> states and proves what the backend promises.
\<close>

section \<open>The binary interface\<close>

datatype Status =
    ST_OK | ST_INVALID_ARGUMENT | ST_INCOMPATIBLE_ABI | ST_INVALID_STATE | ST_NOT_FOUND
  | ST_PERMISSION_DENIED | ST_UNSUPPORTED | ST_RESOURCE_EXHAUSTED | ST_BUFFER_TOO_SMALL
  | ST_CONFLICT | ST_QUOTA_EXCEEDED | ST_CORRUPTED | ST_IO_ERROR | ST_BUSY | ST_SHUTTING_DOWN
  | ST_BACKEND_ERROR

datatype Durability = DU_BUFFERED | DU_PROCESS_CRASH | DU_MEDIA

datatype Access = AC_READ_ONLY | AC_READ_WRITE

datatype RecoveryState =
    RS_CLEAN | RS_JOURNAL_REPLAYED | RS_FAILED_CLOSED | RS_RESET | RS_MIGRATED | RS_ROLLED_BACK

type_synonym Handle = u64

text \<open>A byte view is a null pointer with a size, or the bytes it covers; a string view is \<open>None\<close> when its
  pointer is null. A mutable buffer is the memory behind it (\<open>None\<close> when null) and the size field.\<close>

datatype BytesView = NullView nat | View bytes

fun view_size :: "BytesView \<Rightarrow> nat" where
  "view_size (NullView n) = n"
| "view_size (View bs) = length bs"

record MutableBytes =
  mu_data :: "bytes option"
  mu_size :: nat

record StoreDescriptor =
  de_logical_name :: "string option"
  de_access :: Access
  de_minimum_durability :: Durability
  de_capacity_bytes :: u64
  de_max_entries :: u32
  de_max_key_size :: u32
  de_max_value_size :: u32
  de_max_blob_size :: u64
  de_schema_id :: "string option"
  de_schema_version :: u64

record Capabilities =
  ca_max_stores :: u32
  ca_max_transactions :: u32
  ca_max_store_bytes :: u64
  ca_max_key_size :: u32
  ca_max_value_size :: u32
  ca_max_blob_size :: u64
  ca_maximum_durability :: Durability
  ca_persistent :: u8
  ca_cross_process_leases :: u8

record CommitResult =
  cr_generation :: u64
  cr_achieved_durability :: Durability

record StoreStatus =
  ss_generation :: u64
  ss_schema_version :: u64
  ss_recovery_state :: RecoveryState
  ss_successful_commits :: u64
  ss_rejected_operations :: u64
  ss_recovery_count :: u64

record MigrationDescriptor =
  mg_migration_id :: "string option"
  mg_source_schema_id :: "string option"
  mg_source_schema_version :: u64
  mg_target_schema_id :: "string option"
  mg_target_schema_version :: u64
  mg_durability :: Durability

record MigrationStatus =
  mt_source_generation :: u64
  mt_processed_entries :: u64
  mt_resumed :: bool

section \<open>State\<close>

type_synonym Values = "(bytes \<times> bytes) list"

record StoreData =
  sd_values :: Values
  sd_blobs :: Values
  sd_generation :: u64
  sd_capacity :: u64
  sd_max_entries :: u32
  sd_max_key_size :: u32
  sd_max_value_size :: u32
  sd_max_blob_size :: u64
  sd_schema_id :: string
  sd_schema_version :: u64
  sd_writer_active :: bool
  sd_successful_commits :: u64
  sd_rejected_operations :: u64
  sd_recovery_count :: u64
  sd_recovery_state :: RecoveryState
  sd_rollback_values :: Values
  sd_rollback_blobs :: Values
  sd_rollback_schema_id :: string
  sd_rollback_schema_version :: u64
  sd_rollback_available :: bool
  sd_migration_id :: string
  sd_migration_source_schema_id :: string
  sd_migration_source_schema_version :: u64
  sd_migration_target_schema_id :: string
  sd_migration_target_schema_version :: u64
  sd_migration_source_generation :: u64
  sd_migration_values :: Values
  sd_migration_checkpoint :: bytes
  sd_migration_processed :: u64
  sd_migration_handle_active :: bool

text \<open>A reference to a store is the name under which the backend keeps it: a store is created once per
  name and never removed, so the shared pointers of one name all point to the same data.\<close>

type_synonym StoreRef = string

record Cursor =
  cu_entries :: Values
  cu_position :: nat

record MigrationOperation =
  mo_store :: StoreRef
  mo_durability :: Durability

record BlobOperation =
  bo_store :: StoreRef
  bo_key :: bytes
  bo_value :: bytes
  bo_generation :: u64
  bo_written :: u64
  bo_durability :: Durability
  bo_write :: bool
  bo_finished :: bool

record StoreHandle =
  sh_store :: StoreRef
  sh_access :: Access

record Transaction =
  tx_store :: StoreRef
  tx_values :: Values
  tx_base_generation :: u64
  tx_durability :: Durability
  tx_write :: bool
  tx_finished :: bool

record MemoryBackend =
  mb_stores :: "(string \<times> StoreData) list"
  mb_store_handles :: "(Handle \<times> StoreHandle) list"
  mb_transactions :: "(Handle \<times> Transaction) list"
  mb_blobs :: "(Handle \<times> BlobOperation) list"
  mb_cursors :: "(Handle \<times> Cursor) list"
  mb_migrations :: "(Handle \<times> MigrationOperation) list"
  mb_next_handle :: Handle
  mb_max_stores :: u32
  mb_max_transactions :: u32
  mb_running :: bool
  mb_error :: string

definition empty_store :: StoreData where
  "empty_store =
     \<lparr>sd_values = [], sd_blobs = [], sd_generation = 0, sd_capacity = 0, sd_max_entries = 0,
      sd_max_key_size = 0, sd_max_value_size = 0, sd_max_blob_size = 0, sd_schema_id = [],
      sd_schema_version = 0, sd_writer_active = False, sd_successful_commits = 0,
      sd_rejected_operations = 0, sd_recovery_count = 0, sd_recovery_state = RS_CLEAN,
      sd_rollback_values = [], sd_rollback_blobs = [], sd_rollback_schema_id = [],
      sd_rollback_schema_version = 0, sd_rollback_available = False, sd_migration_id = [],
      sd_migration_source_schema_id = [], sd_migration_source_schema_version = 0,
      sd_migration_target_schema_id = [], sd_migration_target_schema_version = 0,
      sd_migration_source_generation = 0, sd_migration_values = [], sd_migration_checkpoint = [],
      sd_migration_processed = 0, sd_migration_handle_active = False\<rparr>"

section \<open>Helpers\<close>

definition store_at :: "MemoryBackend \<Rightarrow> StoreRef \<Rightarrow> StoreData" where
  "store_at b r = (case um_find (mb_stores b) r of Some s \<Rightarrow> s | None \<Rightarrow> empty_store)"

definition with_store :: "StoreRef \<Rightarrow> (StoreData \<Rightarrow> StoreData) \<Rightarrow> MemoryBackend \<Rightarrow> MemoryBackend" where
  "with_store r f b = b\<lparr>mb_stores := um_set r (f (store_at b r)) (mb_stores b)\<rparr>"

definition SetError :: "string \<Rightarrow> MemoryBackend \<Rightarrow> MemoryBackend" where
  "SetError value b = b\<lparr>mb_error := value\<rparr>"

fun Valid :: "BytesView \<Rightarrow> bool" where
  "Valid (NullView n) = (n = 0)"
| "Valid (View bs) = True"

fun Copy :: "BytesView \<Rightarrow> bytes" where
  "Copy (NullView n) = []"
| "Copy (View bs) = bs"

definition Size :: "Values \<Rightarrow> u64" where
  "Size values = fold (\<lambda>(key, value) total. total + (of_nat (length key) + of_nat (length value))) values 0"

text \<open>\<open>memcpy\<close> of \<open>bs\<close> to \<open>data + offset\<close>.\<close>

definition memcpy_at :: "nat \<Rightarrow> bytes \<Rightarrow> bytes \<Rightarrow> bytes" where
  "memcpy_at offset bs data = take offset data @ bs @ drop (offset + length bs) data"

text \<open>The end of every call that returns bytes in a buffer of the caller: the size needed when the
  buffer is missing or too small, the bytes and their size otherwise.\<close>

definition fill_buffer :: "bytes \<Rightarrow> MutableBytes \<Rightarrow> Status \<times> MutableBytes" where
  "fill_buffer value output =
     (case mu_data output of
        None \<Rightarrow> (ST_BUFFER_TOO_SMALL, output\<lparr>mu_size := length value\<rparr>)
      | Some data \<Rightarrow>
          if mu_size output < length value then (ST_BUFFER_TOO_SMALL, output\<lparr>mu_size := length value\<rparr>)
          else (ST_OK, output\<lparr>mu_data := Some (memcpy_at 0 value data), mu_size := length value\<rparr>))"

section \<open>Lifecycle\<close>

definition MemoryBackend_Create :: "bool \<Rightarrow> u32 \<Rightarrow> u32 \<Rightarrow> bool \<Rightarrow> Status \<times> MemoryBackend option" where
  "MemoryBackend_Create outputs max_stores max_transactions fits =
     (if \<not> outputs \<or> max_stores = 0 \<or> max_transactions = 0 then (ST_INVALID_ARGUMENT, None)
      else if \<not> fits then (ST_RESOURCE_EXHAUSTED, None)
      else (ST_OK, Some \<lparr>mb_stores = [], mb_store_handles = [], mb_transactions = [], mb_blobs = [],
              mb_cursors = [], mb_migrations = [], mb_next_handle = 1, mb_max_stores = max_stores,
              mb_max_transactions = max_transactions, mb_running = False, mb_error = []\<rparr>))"

definition Start :: "MemoryBackend \<Rightarrow> Status \<times> MemoryBackend" where
  "Start b = (ST_OK, b\<lparr>mb_running := True\<rparr>)"

definition release_writer :: "StoreRef \<Rightarrow> MemoryBackend \<Rightarrow> MemoryBackend" where
  "release_writer r = with_store r (\<lambda>s. s\<lparr>sd_writer_active := False\<rparr>)"

definition release_migration :: "StoreRef \<Rightarrow> MemoryBackend \<Rightarrow> MemoryBackend" where
  "release_migration r = with_store r (\<lambda>s. s\<lparr>sd_migration_handle_active := False\<rparr>)"

definition Stop :: "MemoryBackend \<Rightarrow> MemoryBackend" where
  "Stop b =
     (let b = b\<lparr>mb_running := False\<rparr>;
          b = fold (\<lambda>(_, t) b. if tx_write t \<and> \<not> tx_finished t then release_writer (tx_store t) b else b)
                (mb_transactions b) b;
          b = b\<lparr>mb_transactions := []\<rparr>;
          b = fold (\<lambda>(_, o') b. if bo_write o' \<and> \<not> bo_finished o' then release_writer (bo_store o') b else b)
                (mb_blobs b) b;
          b = b\<lparr>mb_blobs := [], mb_cursors := []\<rparr>;
          b = fold (\<lambda>(_, m) b. release_migration (mo_store m) b) (mb_migrations b) b in
      b\<lparr>mb_migrations := [], mb_store_handles := []\<rparr>)"

definition GetCapabilities :: "bool \<Rightarrow> MemoryBackend \<Rightarrow> Status \<times> Capabilities option" where
  "GetCapabilities outputs b =
     (if \<not> outputs then (ST_INVALID_ARGUMENT, None)
      else (ST_OK, Some \<lparr>ca_max_stores = mb_max_stores b, ca_max_transactions = mb_max_transactions b,
              ca_max_store_bytes = 64 * 1024 * 1024, ca_max_key_size = 4096,
              ca_max_value_size = 16 * 1024 * 1024, ca_max_blob_size = 64 * 1024 * 1024,
              ca_maximum_durability = DU_BUFFERED, ca_persistent = 0, ca_cross_process_leases = 0\<rparr>))"

section \<open>Stores\<close>

definition descriptor_complete :: "StoreDescriptor \<Rightarrow> bool" where
  "descriptor_complete d \<longleftrightarrow>
     \<not> (de_logical_name d = None \<or> de_logical_name d = Some [] \<or> de_capacity_bytes d = 0 \<or>
        de_max_entries d = 0 \<or> de_max_key_size d = 0 \<or> de_max_value_size d = 0 \<or>
        de_max_blob_size d = 0 \<or> de_schema_id d = None \<or> de_schema_id d = Some [] \<or>
        de_schema_version d = 0)"

definition new_store :: "StoreDescriptor \<Rightarrow> StoreData" where
  "new_store d = empty_store\<lparr>sd_capacity := de_capacity_bytes d, sd_max_entries := de_max_entries d,
     sd_max_key_size := de_max_key_size d, sd_max_value_size := de_max_value_size d,
     sd_max_blob_size := de_max_blob_size d, sd_schema_id := the (de_schema_id d),
     sd_schema_version := de_schema_version d\<rparr>"

definition store_incompatible :: "StoreData \<Rightarrow> StoreDescriptor \<Rightarrow> bool" where
  "store_incompatible s d \<longleftrightarrow>
     sd_capacity s \<noteq> de_capacity_bytes d \<or> sd_max_entries s \<noteq> de_max_entries d \<or>
     sd_max_key_size s \<noteq> de_max_key_size d \<or> sd_max_value_size s \<noteq> de_max_value_size d \<or>
     sd_max_blob_size s \<noteq> de_max_blob_size d \<or> Some (sd_schema_id s) \<noteq> de_schema_id d \<or>
     sd_schema_version s \<noteq> de_schema_version d"

definition take_handle :: "MemoryBackend \<Rightarrow> Handle \<times> MemoryBackend" where
  "take_handle b = (mb_next_handle b, b\<lparr>mb_next_handle := mb_next_handle b + 1\<rparr>)"

definition issue_store_handle :: "StoreRef \<Rightarrow> Access \<Rightarrow> MemoryBackend \<Rightarrow> Status \<times> Handle option \<times> MemoryBackend" where
  "issue_store_handle name access b =
     (let (handle, b) = take_handle b in
      (ST_OK, Some handle,
       b\<lparr>mb_store_handles := um_emplace handle \<lparr>sh_store = name, sh_access = access\<rparr> (mb_store_handles b)\<rparr>))"

text \<open>\<open>descriptor\<close> is \<open>None\<close> when the pointer is null or the structure is too small.\<close>

definition OpenStore :: "StoreDescriptor option \<Rightarrow> bool \<Rightarrow> MemoryBackend \<Rightarrow> Status \<times> Handle option \<times> MemoryBackend" where
  "OpenStore descriptor outputs b =
     (case descriptor of
        None \<Rightarrow> (ST_INVALID_ARGUMENT, None, b)
      | Some d \<Rightarrow>
          if \<not> outputs \<or> \<not> descriptor_complete d then (ST_INVALID_ARGUMENT, None, b)
          else if \<not> mb_running b then (ST_SHUTTING_DOWN, None, b)
          else if de_minimum_durability d \<noteq> DU_BUFFERED then
            (ST_UNSUPPORTED, None, SetError ''memory provider cannot satisfy requested durability'' b)
          else let name = the (de_logical_name d) in
          (case um_find (mb_stores b) name of
             None \<Rightarrow>
               if length (mb_stores b) \<ge> unat (mb_max_stores b) then
                 (ST_RESOURCE_EXHAUSTED, None, SetError ''store limit reached'' b)
               else issue_store_handle name (de_access d)
                      (b\<lparr>mb_stores := um_emplace name (new_store d) (mb_stores b)\<rparr>)
           | Some s \<Rightarrow>
               if store_incompatible s d then
                 (ST_INVALID_ARGUMENT, None, SetError ''store was reopened with incompatible limits'' b)
               else issue_store_handle name (de_access d) b))"

definition erase_status :: "'v option \<Rightarrow> Status" where
  "erase_status v = (if v = None then ST_NOT_FOUND else ST_OK)"

definition CloseStore :: "Handle \<Rightarrow> MemoryBackend \<Rightarrow> Status \<times> MemoryBackend" where
  "CloseStore handle b =
     (erase_status (um_find (mb_store_handles b) handle),
      b\<lparr>mb_store_handles := um_erase handle (mb_store_handles b)\<rparr>)"

section \<open>Transactions\<close>

definition BeginTransaction ::
  "Handle \<Rightarrow> Durability \<Rightarrow> bool \<Rightarrow> u64 option \<Rightarrow> bool \<Rightarrow> MemoryBackend
     \<Rightarrow> Status \<times> (Handle \<times> u64) option \<times> MemoryBackend" where
  "BeginTransaction store_handle durability write expected_generation outputs b =
     (if \<not> outputs then (ST_INVALID_ARGUMENT, None, b)
      else case um_find (mb_store_handles b) store_handle of
        None \<Rightarrow> (ST_NOT_FOUND, None, b)
      | Some h \<Rightarrow>
          let s = store_at b (sh_store h) in
          if length (mb_transactions b) \<ge> unat (mb_max_transactions b) then
            (ST_RESOURCE_EXHAUSTED, None, SetError ''transaction limit reached'' b)
          else if write \<and> sh_access h \<noteq> AC_READ_WRITE then (ST_PERMISSION_DENIED, None, b)
          else if write \<and> durability \<noteq> DU_BUFFERED then
            (ST_UNSUPPORTED, None, SetError ''memory provider supports buffered durability only'' b)
          else if write \<and> sd_writer_active s then (ST_BUSY, None, b)
          else if write \<and> sd_migration_id s \<noteq> [] then (ST_BUSY, None, b)
          else if write \<and> expected_generation \<noteq> None \<and> expected_generation \<noteq> Some (sd_generation s) then
            (ST_CONFLICT, None,
             with_store (sh_store h) (\<lambda>s. s\<lparr>sd_rejected_operations := sd_rejected_operations s + 1\<rparr>) b)
          else
            (let b = (if write then with_store (sh_store h) (\<lambda>s. s\<lparr>sd_writer_active := True\<rparr>) b else b);
                 (handle, b) = take_handle b;
                 t = \<lparr>tx_store = sh_store h, tx_values = sd_values s, tx_base_generation = sd_generation s,
                      tx_durability = durability, tx_write = write, tx_finished = False\<rparr> in
             (ST_OK, Some (handle, sd_generation s),
              b\<lparr>mb_transactions := um_emplace handle t (mb_transactions b)\<rparr>)))"

definition BeginRead :: "Handle \<Rightarrow> bool \<Rightarrow> MemoryBackend \<Rightarrow> Status \<times> (Handle \<times> u64) option \<times> MemoryBackend" where
  "BeginRead store outputs b = BeginTransaction store DU_BUFFERED False None outputs b"

definition BeginWrite ::
  "Handle \<Rightarrow> Durability \<Rightarrow> bool \<Rightarrow> MemoryBackend \<Rightarrow> Status \<times> (Handle \<times> u64) option \<times> MemoryBackend" where
  "BeginWrite store durability outputs b = BeginTransaction store durability True None outputs b"

definition BeginWriteAt ::
  "Handle \<Rightarrow> Durability \<Rightarrow> u64 \<Rightarrow> bool \<Rightarrow> MemoryBackend \<Rightarrow> Status \<times> (Handle \<times> u64) option \<times> MemoryBackend" where
  "BeginWriteAt store durability expected_generation outputs b =
     BeginTransaction store durability True (Some expected_generation) outputs b"

definition Get :: "Handle \<Rightarrow> BytesView \<Rightarrow> MutableBytes option \<Rightarrow> MemoryBackend \<Rightarrow> Status \<times> MutableBytes option" where
  "Get handle key output b =
     (case output of
        None \<Rightarrow> (ST_INVALID_ARGUMENT, None)
      | Some out \<Rightarrow>
          if \<not> Valid key \<or> view_size key = 0 then (ST_INVALID_ARGUMENT, Some out)
          else case um_find (mb_transactions b) handle of
            None \<Rightarrow> (ST_NOT_FOUND, Some out)
          | Some t \<Rightarrow>
              if tx_finished t then (ST_NOT_FOUND, Some out)
              else (case um_find (tx_values t) (Copy key) of
                      None \<Rightarrow> (ST_NOT_FOUND, Some out)
                    | Some value \<Rightarrow> (let (st, out) = fill_buffer value out in (st, Some out))))"

definition set_transaction :: "Handle \<Rightarrow> Transaction \<Rightarrow> MemoryBackend \<Rightarrow> MemoryBackend" where
  "set_transaction handle t b = b\<lparr>mb_transactions := um_set handle t (mb_transactions b)\<rparr>"

text \<open>The unfinished write transaction behind a handle.\<close>

definition writing :: "Handle \<Rightarrow> MemoryBackend \<Rightarrow> Transaction option" where
  "writing handle b =
     (case um_find (mb_transactions b) handle of
        None \<Rightarrow> None
      | Some t \<Rightarrow> if \<not> tx_write t \<or> tx_finished t then None else Some t)"

definition quota_exceeded :: "Values \<Rightarrow> Values \<Rightarrow> StoreData \<Rightarrow> bool" where
  "quota_exceeded candidate others s \<longleftrightarrow>
     length candidate + length others > unat (sd_max_entries s) \<or>
     Size candidate + Size others > sd_capacity s"

definition Put :: "Handle \<Rightarrow> BytesView \<Rightarrow> BytesView \<Rightarrow> MemoryBackend \<Rightarrow> Status \<times> MemoryBackend" where
  "Put handle key value b =
     (if \<not> Valid key \<or> \<not> Valid value \<or> view_size key = 0 then (ST_INVALID_ARGUMENT, b)
      else case writing handle b of
        None \<Rightarrow> (ST_INVALID_STATE, b)
      | Some t \<Rightarrow>
          let s = store_at b (tx_store t) in
          if view_size key > unat (sd_max_key_size s) \<or> view_size value > unat (sd_max_value_size s) then
            (ST_QUOTA_EXCEEDED, SetError ''key or value exceeds its configured bound'' b)
          else let candidate = om_set (Copy key) (Copy value) (tx_values t) in
          if quota_exceeded candidate (sd_blobs s) s then
            (ST_QUOTA_EXCEEDED, SetError ''transaction exceeds store quota'' b)
          else (ST_OK, set_transaction handle (t\<lparr>tx_values := candidate\<rparr>) b))"

definition Erase :: "Handle \<Rightarrow> BytesView \<Rightarrow> bool \<Rightarrow> MemoryBackend \<Rightarrow> Status \<times> bool option \<times> MemoryBackend" where
  "Erase handle key outputs b =
     (if \<not> Valid key \<or> view_size key = 0 \<or> \<not> outputs then (ST_INVALID_ARGUMENT, None, b)
      else case writing handle b of
        None \<Rightarrow> (ST_INVALID_STATE, None, b)
      | Some t \<Rightarrow>
          (ST_OK, Some (um_find (tx_values t) (Copy key) \<noteq> None),
           set_transaction handle (t\<lparr>tx_values := um_erase (Copy key) (tx_values t)\<rparr>) b))"

definition Commit :: "Handle \<Rightarrow> bool \<Rightarrow> MemoryBackend \<Rightarrow> Status \<times> CommitResult option \<times> MemoryBackend" where
  "Commit handle outputs b =
     (if \<not> outputs then (ST_INVALID_ARGUMENT, None, b)
      else case writing handle b of
        None \<Rightarrow> (ST_INVALID_STATE, None, b)
      | Some t \<Rightarrow>
          let s = store_at b (tx_store t); finished = set_transaction handle (t\<lparr>tx_finished := True\<rparr>) in
          if sd_generation s \<noteq> tx_base_generation t then
            (ST_CONFLICT, None, finished (release_writer (tx_store t) b))
          else
            (ST_OK, Some \<lparr>cr_generation = sd_generation s + 1, cr_achieved_durability = DU_BUFFERED\<rparr>,
             finished (with_store (tx_store t) (\<lambda>s. s\<lparr>sd_values := tx_values t,
               sd_generation := sd_generation s + 1, sd_successful_commits := sd_successful_commits s + 1,
               sd_writer_active := False\<rparr>) b)))"

definition release_transaction :: "Transaction \<Rightarrow> MemoryBackend \<Rightarrow> MemoryBackend" where
  "release_transaction t b = (if tx_write t \<and> \<not> tx_finished t then release_writer (tx_store t) b else b)"

definition Abort :: "Handle \<Rightarrow> MemoryBackend \<Rightarrow> Status \<times> MemoryBackend" where
  "Abort handle b =
     (case um_find (mb_transactions b) handle of
        None \<Rightarrow> (ST_NOT_FOUND, b)
      | Some t \<Rightarrow> (ST_OK, set_transaction handle (t\<lparr>tx_finished := True\<rparr>) (release_transaction t b)))"

definition CloseTransaction :: "Handle \<Rightarrow> MemoryBackend \<Rightarrow> Status \<times> MemoryBackend" where
  "CloseTransaction handle b =
     (case um_find (mb_transactions b) handle of
        None \<Rightarrow> (ST_NOT_FOUND, b)
      | Some t \<Rightarrow>
          (ST_OK, let b = release_transaction t b in b\<lparr>mb_transactions := um_erase handle (mb_transactions b)\<rparr>))"

section \<open>Blobs\<close>

definition OpenBlobRead ::
  "Handle \<Rightarrow> BytesView \<Rightarrow> bool \<Rightarrow> MemoryBackend \<Rightarrow> Status \<times> (Handle \<times> nat \<times> u64) option \<times> MemoryBackend" where
  "OpenBlobRead store_handle key outputs b =
     (if \<not> Valid key \<or> view_size key = 0 \<or> \<not> outputs then (ST_INVALID_ARGUMENT, None, b)
      else case um_find (mb_store_handles b) store_handle of
        None \<Rightarrow> (ST_NOT_FOUND, None, b)
      | Some h \<Rightarrow>
          let s = store_at b (sh_store h) in
          (case um_find (sd_blobs s) (Copy key) of
             None \<Rightarrow> (ST_NOT_FOUND, None, b)
           | Some value \<Rightarrow>
               (let (blob_handle, b) = take_handle b;
                    op = \<lparr>bo_store = sh_store h, bo_key = Copy key, bo_value = value,
                          bo_generation = sd_generation s, bo_written = of_nat (length value),
                          bo_durability = DU_BUFFERED, bo_write = False, bo_finished = False\<rparr> in
                (ST_OK, Some (blob_handle, length value, sd_generation s),
                 b\<lparr>mb_blobs := um_emplace blob_handle op (mb_blobs b)\<rparr>))))"

text \<open>\<open>fits\<close> is whether \<open>blob_size\<close> bytes can be allocated.\<close>

definition BeginBlobReplace ::
  "Handle \<Rightarrow> BytesView \<Rightarrow> u64 \<Rightarrow> Durability \<Rightarrow> bool \<Rightarrow> bool \<Rightarrow> MemoryBackend
     \<Rightarrow> Status \<times> (Handle \<times> u64) option \<times> MemoryBackend" where
  "BeginBlobReplace store_handle key blob_size durability outputs fits b =
     (if \<not> Valid key \<or> view_size key = 0 \<or> \<not> outputs then (ST_INVALID_ARGUMENT, None, b)
      else case um_find (mb_store_handles b) store_handle of
        None \<Rightarrow> (ST_NOT_FOUND, None, b)
      | Some h \<Rightarrow>
          let s = store_at b (sh_store h) in
          if sh_access h \<noteq> AC_READ_WRITE then (ST_PERMISSION_DENIED, None, b)
          else if durability \<noteq> DU_BUFFERED then (ST_UNSUPPORTED, None, b)
          else if sd_writer_active s then (ST_BUSY, None, b)
          else if sd_migration_id s \<noteq> [] then (ST_BUSY, None, b)
          else if view_size key > unat (sd_max_key_size s) \<or> blob_size > sd_max_blob_size s then
            (ST_QUOTA_EXCEEDED, None, b)
          else if \<not> fits then (ST_RESOURCE_EXHAUSTED, None, release_writer (sh_store h) b)
          else if quota_exceeded (om_set (Copy key) (replicate (unat blob_size) 0) (sd_blobs s)) (sd_values s) s then
            (ST_QUOTA_EXCEEDED, None, b)
          else
            (let b = with_store (sh_store h) (\<lambda>s. s\<lparr>sd_writer_active := True\<rparr>) b;
                 (blob_handle, b) = take_handle b;
                 op = \<lparr>bo_store = sh_store h, bo_key = Copy key, bo_value = replicate (unat blob_size) 0,
                       bo_generation = sd_generation s, bo_written = 0, bo_durability = durability,
                       bo_write = True, bo_finished = False\<rparr> in
             (ST_OK, Some (blob_handle, sd_generation s),
              b\<lparr>mb_blobs := um_emplace blob_handle op (mb_blobs b)\<rparr>)))"

definition ReadBlob :: "Handle \<Rightarrow> u64 \<Rightarrow> MutableBytes option \<Rightarrow> MemoryBackend \<Rightarrow> Status \<times> MutableBytes option" where
  "ReadBlob handle offset output b =
     (case output of
        None \<Rightarrow> (ST_INVALID_ARGUMENT, None)
      | Some out \<Rightarrow>
          if mu_data out = None \<and> mu_size out \<noteq> 0 then (ST_INVALID_ARGUMENT, Some out)
          else case um_find (mb_blobs b) handle of
            None \<Rightarrow> (ST_INVALID_ARGUMENT, Some out)
          | Some op \<Rightarrow>
              if bo_write op \<or> bo_finished op \<or> unat offset > length (bo_value op) \<or>
                 mu_size out > length (bo_value op) - unat offset then (ST_INVALID_ARGUMENT, Some out)
              else (ST_OK, Some (out\<lparr>mu_data := map_option
                     (memcpy_at 0 (take (mu_size out) (drop (unat offset) (bo_value op)))) (mu_data out)\<rparr>)))"

definition set_blob :: "Handle \<Rightarrow> BlobOperation \<Rightarrow> MemoryBackend \<Rightarrow> MemoryBackend" where
  "set_blob handle op b = b\<lparr>mb_blobs := um_set handle op (mb_blobs b)\<rparr>"

definition replacing :: "Handle \<Rightarrow> MemoryBackend \<Rightarrow> BlobOperation option" where
  "replacing handle b =
     (case um_find (mb_blobs b) handle of
        None \<Rightarrow> None
      | Some op \<Rightarrow> if \<not> bo_write op \<or> bo_finished op then None else Some op)"

definition WriteBlob :: "Handle \<Rightarrow> u64 \<Rightarrow> BytesView \<Rightarrow> MemoryBackend \<Rightarrow> Status \<times> MemoryBackend" where
  "WriteBlob handle offset input b =
     (if \<not> Valid input then (ST_INVALID_ARGUMENT, b)
      else case replacing handle b of
        None \<Rightarrow> (ST_INVALID_STATE, b)
      | Some op \<Rightarrow>
          if offset \<noteq> bo_written op \<or>
             view_size input > unat (of_nat (length (bo_value op)) - offset) then (ST_INVALID_STATE, b)
          else (ST_OK, set_blob handle (op\<lparr>bo_value := memcpy_at (unat offset) (Copy input) (bo_value op),
                         bo_written := bo_written op + of_nat (view_size input)\<rparr>) b))"

definition CommitBlob :: "Handle \<Rightarrow> bool \<Rightarrow> MemoryBackend \<Rightarrow> Status \<times> CommitResult option \<times> MemoryBackend" where
  "CommitBlob handle outputs b =
     (if \<not> outputs then (ST_INVALID_ARGUMENT, None, b)
      else case replacing handle b of
        None \<Rightarrow> (ST_INVALID_STATE, None, b)
      | Some op \<Rightarrow>
          if unat (bo_written op) \<noteq> length (bo_value op) then (ST_INVALID_STATE, None, b)
          else let s = store_at b (bo_store op); finished = set_blob handle (op\<lparr>bo_finished := True\<rparr>) in
          if sd_generation s \<noteq> bo_generation op then
            (ST_CONFLICT, None, finished (release_writer (bo_store op) b))
          else
            (ST_OK, Some \<lparr>cr_generation = sd_generation s + 1, cr_achieved_durability = bo_durability op\<rparr>,
             finished (with_store (bo_store op) (\<lambda>s. s\<lparr>sd_blobs := om_set (bo_key op) (bo_value op) (sd_blobs s),
               sd_generation := sd_generation s + 1, sd_successful_commits := sd_successful_commits s + 1,
               sd_writer_active := False\<rparr>) b)))"

definition release_blob :: "BlobOperation \<Rightarrow> MemoryBackend \<Rightarrow> MemoryBackend" where
  "release_blob op b = (if bo_write op \<and> \<not> bo_finished op then release_writer (bo_store op) b else b)"

definition AbortBlob :: "Handle \<Rightarrow> MemoryBackend \<Rightarrow> Status \<times> MemoryBackend" where
  "AbortBlob handle b =
     (case um_find (mb_blobs b) handle of
        None \<Rightarrow> (ST_NOT_FOUND, b)
      | Some op \<Rightarrow> (ST_OK, set_blob handle (op\<lparr>bo_finished := True\<rparr>) (release_blob op b)))"

definition CloseBlob :: "Handle \<Rightarrow> MemoryBackend \<Rightarrow> Status \<times> MemoryBackend" where
  "CloseBlob handle b =
     (case um_find (mb_blobs b) handle of
        None \<Rightarrow> (ST_NOT_FOUND, b)
      | Some op \<Rightarrow> (ST_OK, let b = release_blob op b in b\<lparr>mb_blobs := um_erase handle (mb_blobs b)\<rparr>))"

section \<open>Cursors\<close>

definition has_prefix :: "bytes \<Rightarrow> bytes \<Rightarrow> bool" where
  "has_prefix prefix key \<longleftrightarrow> length key \<ge> length prefix \<and> take (length prefix) key = prefix"

text \<open>From \<open>lower_bound\<close> on, as long as the keys have the prefix.\<close>

definition cursor_entries :: "bytes \<Rightarrow> Values \<Rightarrow> Values" where
  "cursor_entries prefix values =
     takeWhile (\<lambda>e. has_prefix prefix (fst e)) (dropWhile (\<lambda>e. fst e < prefix) values)"

definition OpenCursor :: "Handle \<Rightarrow> BytesView \<Rightarrow> bool \<Rightarrow> bool \<Rightarrow> MemoryBackend \<Rightarrow> Status \<times> Handle option \<times> MemoryBackend" where
  "OpenCursor transaction_handle prefix outputs fits b =
     (if \<not> Valid prefix \<or> \<not> outputs then (ST_INVALID_ARGUMENT, None, b)
      else case um_find (mb_transactions b) transaction_handle of
        None \<Rightarrow> (ST_INVALID_STATE, None, b)
      | Some t \<Rightarrow>
          if tx_finished t \<or> tx_write t then (ST_INVALID_STATE, None, b)
          else if \<not> fits then (ST_RESOURCE_EXHAUSTED, None, b)
          else
            (let (handle, b) = take_handle b;
                 cursor = \<lparr>cu_entries = cursor_entries (Copy prefix) (tx_values t), cu_position = 0\<rparr> in
             (ST_OK, Some handle, b\<lparr>mb_cursors := um_emplace handle cursor (mb_cursors b)\<rparr>)))"

definition buffer_short :: "bytes \<Rightarrow> MutableBytes \<Rightarrow> bool" where
  "buffer_short bs out \<longleftrightarrow> length bs \<noteq> 0 \<and> (mu_data out = None \<or> mu_size out < length bs)"

definition copy_out :: "bytes \<Rightarrow> MutableBytes \<Rightarrow> MutableBytes" where
  "copy_out bs out = out\<lparr>mu_data := map_option (memcpy_at 0 bs) (mu_data out), mu_size := length bs\<rparr>"

definition NextCursor ::
  "Handle \<Rightarrow> (MutableBytes \<times> MutableBytes) option \<Rightarrow> MemoryBackend
     \<Rightarrow> Status \<times> (MutableBytes \<times> MutableBytes) option \<times> MemoryBackend" where
  "NextCursor handle outputs b =
     (case outputs of
        None \<Rightarrow> (ST_INVALID_ARGUMENT, None, b)
      | Some (key, value) \<Rightarrow>
          (case um_find (mb_cursors b) handle of
             None \<Rightarrow> (ST_NOT_FOUND, outputs, b)
           | Some cursor \<Rightarrow>
               if cu_position cursor = length (cu_entries cursor) then (ST_NOT_FOUND, outputs, b)
               else let (k, v) = cu_entries cursor ! cu_position cursor in
               if buffer_short k key \<or> buffer_short v value then
                 (ST_BUFFER_TOO_SMALL, Some (key\<lparr>mu_size := length k\<rparr>, value\<lparr>mu_size := length v\<rparr>), b)
               else
                 (ST_OK, Some (copy_out k key, copy_out v value),
                  b\<lparr>mb_cursors := um_set handle (cursor\<lparr>cu_position := cu_position cursor + 1\<rparr>) (mb_cursors b)\<rparr>)))"

definition CloseCursor :: "Handle \<Rightarrow> MemoryBackend \<Rightarrow> Status \<times> MemoryBackend" where
  "CloseCursor handle b =
     (erase_status (um_find (mb_cursors b) handle), b\<lparr>mb_cursors := um_erase handle (mb_cursors b)\<rparr>)"

section \<open>Reset and status\<close>

definition reject :: "StoreRef \<Rightarrow> MemoryBackend \<Rightarrow> MemoryBackend" where
  "reject r = with_store r (\<lambda>s. s\<lparr>sd_rejected_operations := sd_rejected_operations s + 1\<rparr>)"

text \<open>The entries are inserted one after the other; \<open>emplace\<close> refuses a key that is already there.\<close>

fun reset_values :: "StoreData \<Rightarrow> (BytesView \<times> BytesView) list \<Rightarrow> Values \<Rightarrow> Values option" where
  "reset_values s [] replacement = Some replacement"
| "reset_values s ((key, value) # entries) replacement =
     (if \<not> Valid key \<or> \<not> Valid value \<or> view_size key = 0 \<or> view_size key > unat (sd_max_key_size s) \<or>
         view_size value > unat (sd_max_value_size s) \<or> um_find replacement (Copy key) \<noteq> None then None
      else reset_values s entries (om_set (Copy key) (Copy value) replacement))"

definition ResetStore ::
  "Handle \<Rightarrow> (BytesView \<times> BytesView) list option \<Rightarrow> Durability \<Rightarrow> bool \<Rightarrow> bool \<Rightarrow> MemoryBackend
     \<Rightarrow> Status \<times> CommitResult option \<times> MemoryBackend" where
  "ResetStore store_handle entries durability outputs fits b =
     (case entries of
        None \<Rightarrow> (ST_INVALID_ARGUMENT, None, b)
      | Some es \<Rightarrow>
          if \<not> outputs then (ST_INVALID_ARGUMENT, None, b)
          else case um_find (mb_store_handles b) store_handle of
            None \<Rightarrow> (ST_NOT_FOUND, None, b)
          | Some h \<Rightarrow>
              let s = store_at b (sh_store h) in
              if sh_access h \<noteq> AC_READ_WRITE then (ST_PERMISSION_DENIED, None, b)
              else if durability \<noteq> DU_BUFFERED then (ST_UNSUPPORTED, None, b)
              else if sd_writer_active s then (ST_BUSY, None, b)
              else if sd_migration_id s \<noteq> [] then (ST_BUSY, None, b)
              else if \<not> fits then (ST_RESOURCE_EXHAUSTED, None, b)
              else (case reset_values s es [] of
                      None \<Rightarrow> (ST_INVALID_ARGUMENT, None, reject (sh_store h) b)
                    | Some replacement \<Rightarrow>
                        if length replacement > unat (sd_max_entries s) \<or> Size replacement > sd_capacity s then
                          (ST_QUOTA_EXCEEDED, None, reject (sh_store h) b)
                        else
                          (ST_OK, Some \<lparr>cr_generation = sd_generation s + 1, cr_achieved_durability = durability\<rparr>,
                           with_store (sh_store h) (\<lambda>s. s\<lparr>sd_values := replacement, sd_blobs := [],
                             sd_generation := sd_generation s + 1,
                             sd_successful_commits := sd_successful_commits s + 1,
                             sd_recovery_count := sd_recovery_count s + 1, sd_recovery_state := RS_RESET\<rparr>) b)))"

definition GetStoreStatus :: "Handle \<Rightarrow> bool \<Rightarrow> MemoryBackend \<Rightarrow> Status \<times> StoreStatus option" where
  "GetStoreStatus store_handle outputs b =
     (if \<not> outputs then (ST_INVALID_ARGUMENT, None)
      else case um_find (mb_store_handles b) store_handle of
        None \<Rightarrow> (ST_NOT_FOUND, None)
      | Some h \<Rightarrow>
          let s = store_at b (sh_store h) in
          (ST_OK, Some \<lparr>ss_generation = sd_generation s, ss_schema_version = sd_schema_version s,
             ss_recovery_state = sd_recovery_state s, ss_successful_commits = sd_successful_commits s,
             ss_rejected_operations = sd_rejected_operations s, ss_recovery_count = sd_recovery_count s\<rparr>))"

section \<open>Migration and rollback\<close>

definition Same :: "string option \<Rightarrow> string \<Rightarrow> bool" where
  "Same value expected \<longleftrightarrow> value = Some expected"

definition migration_matches :: "MigrationDescriptor \<Rightarrow> StoreData \<Rightarrow> bool" where
  "migration_matches d s \<longleftrightarrow>
     Some (sd_migration_id s) = mg_migration_id d \<and>
     Same (mg_source_schema_id d) (sd_migration_source_schema_id s) \<and>
     mg_source_schema_version d = sd_migration_source_schema_version s \<and>
     Same (mg_target_schema_id d) (sd_migration_target_schema_id s) \<and>
     mg_target_schema_version d = sd_migration_target_schema_version s"

definition start_migration :: "MigrationDescriptor \<Rightarrow> StoreData \<Rightarrow> StoreData" where
  "start_migration d s = s\<lparr>sd_migration_id := the (mg_migration_id d),
     sd_migration_source_schema_id := sd_schema_id s, sd_migration_source_schema_version := sd_schema_version s,
     sd_migration_target_schema_id := the (mg_target_schema_id d),
     sd_migration_target_schema_version := mg_target_schema_version d,
     sd_migration_source_generation := sd_generation s, sd_migration_values := [],
     sd_migration_checkpoint := [], sd_migration_processed := 0\<rparr>"

definition migration_incomplete :: "MigrationDescriptor \<Rightarrow> bool" where
  "migration_incomplete d \<longleftrightarrow>
     mg_migration_id d = None \<or> mg_migration_id d = Some [] \<or> mg_target_schema_id d = None \<or>
     mg_target_schema_id d = Some [] \<or> mg_target_schema_version d = 0"

text \<open>The last part of \<open>BeginMigration\<close>: the checkpoint is copied out and a handle issued.\<close>

definition issue_migration ::
  "StoreRef \<Rightarrow> MigrationDescriptor \<Rightarrow> bool \<Rightarrow> MutableBytes \<Rightarrow> MemoryBackend
     \<Rightarrow> Status \<times> (Handle \<times> MigrationStatus) option \<times> MutableBytes option \<times> MemoryBackend" where
  "issue_migration r d resumed checkpoint b =
     (let s = store_at b r in
      if mu_size checkpoint < length (sd_migration_checkpoint s) \<or>
         (mu_data checkpoint = None \<and> sd_migration_checkpoint s \<noteq> []) then
        (ST_BUFFER_TOO_SMALL, None, Some (checkpoint\<lparr>mu_size := length (sd_migration_checkpoint s)\<rparr>), b)
      else
        (let checkpoint = copy_out (sd_migration_checkpoint s) checkpoint;
             b = with_store r (\<lambda>s. s\<lparr>sd_migration_handle_active := True\<rparr>) b;
             (migration_handle, b) = take_handle b in
         (ST_OK, Some (migration_handle, \<lparr>mt_source_generation = sd_migration_source_generation s,
                    mt_processed_entries = sd_migration_processed s, mt_resumed = resumed\<rparr>),
          Some checkpoint,
          b\<lparr>mb_migrations := um_emplace migration_handle \<lparr>mo_store = r, mo_durability = mg_durability d\<rparr>
                               (mb_migrations b)\<rparr>)))"

definition BeginMigration ::
  "Handle \<Rightarrow> MigrationDescriptor option \<Rightarrow> bool \<Rightarrow> MutableBytes option \<Rightarrow> MemoryBackend
     \<Rightarrow> Status \<times> (Handle \<times> MigrationStatus) option \<times> MutableBytes option \<times> MemoryBackend" where
  "BeginMigration store_handle descriptor outputs checkpoint b =
     (case (descriptor, checkpoint) of
        (Some d, Some c) \<Rightarrow>
          if \<not> outputs \<or> migration_incomplete d then (ST_INVALID_ARGUMENT, None, checkpoint, b)
          else (case um_find (mb_store_handles b) store_handle of
            None \<Rightarrow> (ST_NOT_FOUND, None, checkpoint, b)
          | Some h \<Rightarrow>
              let s = store_at b (sh_store h) in
              if sh_access h \<noteq> AC_READ_WRITE then (ST_PERMISSION_DENIED, None, checkpoint, b)
              else if sd_writer_active s \<or> sd_migration_handle_active s then (ST_BUSY, None, checkpoint, b)
              else if sd_migration_id s \<noteq> [] then
                (if \<not> migration_matches d s then (ST_CONFLICT, None, checkpoint, b)
                 else issue_migration (sh_store h) d True c b)
              else if \<not> Same (mg_source_schema_id d) (sd_schema_id s) \<or>
                      mg_source_schema_version d \<noteq> sd_schema_version s then (ST_CONFLICT, None, checkpoint, b)
              else issue_migration (sh_store h) d False c (with_store (sh_store h) (start_migration d) b))
      | _ \<Rightarrow> (ST_INVALID_ARGUMENT, None, checkpoint, b))"

text \<open>\<open>target\<close> is \<open>None\<close> for a null pointer; \<open>write_target\<close> says whether it is used.\<close>

definition ApplyMigration ::
  "Handle \<Rightarrow> BytesView \<Rightarrow> (BytesView \<times> BytesView) option \<Rightarrow> u8 \<Rightarrow> bool \<Rightarrow> MemoryBackend \<Rightarrow> Status \<times> MemoryBackend" where
  "ApplyMigration handle source_key target write_target fits b =
     (if \<not> Valid source_key \<or> view_size source_key = 0 \<or> write_target > 1 \<or>
         (write_target \<noteq> 0 \<and> target = None) then (ST_INVALID_ARGUMENT, b)
      else case um_find (mb_migrations b) handle of
        None \<Rightarrow> (ST_NOT_FOUND, b)
      | Some m \<Rightarrow>
          let s = store_at b (mo_store m); source = Copy source_key in
          if sd_migration_checkpoint s \<noteq> [] \<and> source \<le> sd_migration_checkpoint s then (ST_CONFLICT, b)
          else if \<not> fits then (ST_RESOURCE_EXHAUSTED, b)
          else let (key, value) = (if write_target \<noteq> 0 then the target else (NullView 0, NullView 0)) in
          if write_target \<noteq> 0 \<and> (\<not> Valid key \<or> \<not> Valid value \<or> view_size key = 0 \<or>
               view_size key > unat (sd_max_key_size s) \<or> view_size value > unat (sd_max_value_size s)) then
            (ST_INVALID_ARGUMENT, b)
          else let candidate = (if write_target \<noteq> 0 then om_set (Copy key) (Copy value) (sd_migration_values s)
                                else sd_migration_values s) in
          if length candidate > unat (sd_max_entries s) \<or> Size candidate > sd_capacity s then
            (ST_QUOTA_EXCEEDED, b)
          else
            (ST_OK, with_store (mo_store m) (\<lambda>s. s\<lparr>sd_migration_values := candidate,
               sd_migration_checkpoint := source, sd_migration_processed := sd_migration_processed s + 1\<rparr>) b))"

text \<open>The moved-from members of the store are empty afterwards.\<close>

definition migrated_store :: "StoreData \<Rightarrow> StoreData" where
  "migrated_store s = s\<lparr>sd_rollback_values := sd_values s, sd_rollback_blobs := sd_blobs s,
     sd_rollback_schema_id := sd_schema_id s, sd_rollback_schema_version := sd_schema_version s,
     sd_rollback_available := True, sd_values := sd_migration_values s, sd_migration_values := [],
     sd_schema_id := sd_migration_target_schema_id s, sd_migration_target_schema_id := [],
     sd_schema_version := sd_migration_target_schema_version s, sd_migration_id := [],
     sd_migration_checkpoint := [], sd_migration_handle_active := False,
     sd_generation := sd_generation s + 1, sd_successful_commits := sd_successful_commits s + 1,
     sd_recovery_count := sd_recovery_count s + 1, sd_recovery_state := RS_MIGRATED\<rparr>"

definition CommitMigration :: "Handle \<Rightarrow> bool \<Rightarrow> MemoryBackend \<Rightarrow> Status \<times> CommitResult option \<times> MemoryBackend" where
  "CommitMigration handle outputs b =
     (if \<not> outputs then (ST_INVALID_ARGUMENT, None, b)
      else case um_find (mb_migrations b) handle of
        None \<Rightarrow> (ST_NOT_FOUND, None, b)
      | Some m \<Rightarrow>
          let s = store_at b (mo_store m) in
          if sd_generation s \<noteq> sd_migration_source_generation s then (ST_CONFLICT, None, b)
          else
            (ST_OK, Some \<lparr>cr_generation = sd_generation s + 1, cr_achieved_durability = mo_durability m\<rparr>,
             with_store (mo_store m) migrated_store b))"

definition AbortMigration :: "Handle \<Rightarrow> MemoryBackend \<Rightarrow> Status \<times> MemoryBackend" where
  "AbortMigration handle b =
     (case um_find (mb_migrations b) handle of
        None \<Rightarrow> (ST_NOT_FOUND, b)
      | Some m \<Rightarrow> (ST_OK, release_migration (mo_store m) b))"

definition CloseMigration :: "Handle \<Rightarrow> MemoryBackend \<Rightarrow> Status \<times> MemoryBackend" where
  "CloseMigration handle b =
     (case um_find (mb_migrations b) handle of
        None \<Rightarrow> (ST_NOT_FOUND, b)
      | Some m \<Rightarrow>
          (ST_OK, let b = release_migration (mo_store m) b in b\<lparr>mb_migrations := um_erase handle (mb_migrations b)\<rparr>))"

definition rolled_back_store :: "StoreData \<Rightarrow> StoreData" where
  "rolled_back_store s = s\<lparr>sd_values := sd_rollback_values s, sd_rollback_values := [],
     sd_blobs := sd_rollback_blobs s, sd_rollback_blobs := [],
     sd_schema_id := sd_rollback_schema_id s, sd_rollback_schema_id := [],
     sd_schema_version := sd_rollback_schema_version s, sd_rollback_available := False,
     sd_generation := sd_generation s + 1, sd_successful_commits := sd_successful_commits s + 1,
     sd_recovery_count := sd_recovery_count s + 1, sd_recovery_state := RS_ROLLED_BACK\<rparr>"

definition RollbackStore :: "Handle \<Rightarrow> Durability \<Rightarrow> bool \<Rightarrow> MemoryBackend \<Rightarrow> Status \<times> CommitResult option \<times> MemoryBackend" where
  "RollbackStore store_handle durability outputs b =
     (if \<not> outputs then (ST_INVALID_ARGUMENT, None, b)
      else case um_find (mb_store_handles b) store_handle of
        None \<Rightarrow> (ST_NOT_FOUND, None, b)
      | Some h \<Rightarrow>
          let s = store_at b (sh_store h) in
          if sh_access h \<noteq> AC_READ_WRITE then (ST_PERMISSION_DENIED, None, b)
          else if \<not> sd_rollback_available s then (ST_NOT_FOUND, None, b)
          else
            (ST_OK, Some \<lparr>cr_generation = sd_generation s + 1, cr_achieved_durability = durability\<rparr>,
             with_store (sh_store h) rolled_back_store b))"

definition LastError :: "MutableBytes option \<Rightarrow> MemoryBackend \<Rightarrow> Status \<times> MutableBytes option" where
  "LastError output b =
     (case output of
        None \<Rightarrow> (ST_INVALID_ARGUMENT, None)
      | Some out \<Rightarrow> (let (st, out) = fill_buffer (map (\<lambda>c. of_nat (of_char c)) (mb_error b)) out in (st, Some out)))"

section \<open>Runs\<close>

text \<open>One call of the backend's function table; the calls that only read are not listed. Every entry
  point holds the backend's mutex, so a run of any number of threads is a sequence of calls.\<close>

datatype Call =
    C_start | C_stop | C_open_store "StoreDescriptor option" bool | C_close_store Handle
  | C_begin Handle Durability bool "u64 option" bool
  | C_put Handle BytesView BytesView | C_erase Handle BytesView bool | C_commit Handle bool
  | C_abort Handle | C_close_transaction Handle
  | C_open_blob Handle BytesView bool | C_replace_blob Handle BytesView u64 Durability bool bool
  | C_write_blob Handle u64 BytesView | C_commit_blob Handle bool | C_abort_blob Handle | C_close_blob Handle
  | C_open_cursor Handle BytesView bool bool | C_next_cursor Handle "(MutableBytes \<times> MutableBytes) option"
  | C_close_cursor Handle
  | C_reset_store Handle "(BytesView \<times> BytesView) list option" Durability bool bool
  | C_begin_migration Handle "MigrationDescriptor option" bool "MutableBytes option"
  | C_apply_migration Handle BytesView "(BytesView \<times> BytesView) option" u8 bool
  | C_commit_migration Handle bool | C_abort_migration Handle | C_close_migration Handle
  | C_rollback Handle Durability bool

fun perform :: "Call \<Rightarrow> MemoryBackend \<Rightarrow> MemoryBackend" where
  "perform C_start b = snd (Start b)"
| "perform C_stop b = Stop b"
| "perform (C_open_store d o') b = snd (snd (OpenStore d o' b))"
| "perform (C_close_store h) b = snd (CloseStore h b)"
| "perform (C_begin h du w e o') b = snd (snd (BeginTransaction h du w e o' b))"
| "perform (C_put h k v) b = snd (Put h k v b)"
| "perform (C_erase h k o') b = snd (snd (Erase h k o' b))"
| "perform (C_commit h o') b = snd (snd (Commit h o' b))"
| "perform (C_abort h) b = snd (Abort h b)"
| "perform (C_close_transaction h) b = snd (CloseTransaction h b)"
| "perform (C_open_blob h k o') b = snd (snd (OpenBlobRead h k o' b))"
| "perform (C_replace_blob h k n du o' f) b = snd (snd (BeginBlobReplace h k n du o' f b))"
| "perform (C_write_blob h n i) b = snd (WriteBlob h n i b)"
| "perform (C_commit_blob h o') b = snd (snd (CommitBlob h o' b))"
| "perform (C_abort_blob h) b = snd (AbortBlob h b)"
| "perform (C_close_blob h) b = snd (CloseBlob h b)"
| "perform (C_open_cursor h p o' f) b = snd (snd (OpenCursor h p o' f b))"
| "perform (C_next_cursor h o') b = snd (snd (NextCursor h o' b))"
| "perform (C_close_cursor h) b = snd (CloseCursor h b)"
| "perform (C_reset_store h es du o' f) b = snd (snd (ResetStore h es du o' f b))"
| "perform (C_begin_migration h d o' c) b = snd (snd (snd (BeginMigration h d o' c b)))"
| "perform (C_apply_migration h k t w f) b = snd (ApplyMigration h k t w f b)"
| "perform (C_commit_migration h o') b = snd (snd (CommitMigration h o' b))"
| "perform (C_abort_migration h) b = snd (AbortMigration h b)"
| "perform (C_close_migration h) b = snd (CloseMigration h b)"
| "perform (C_rollback h du o') b = snd (snd (RollbackStore h du o' b))"

definition perform_all :: "Call list \<Rightarrow> MemoryBackend \<Rightarrow> MemoryBackend" where
  "perform_all calls b = fold perform calls b"

end
