(* ===== verification/Per_Store.thy ===== *)
theory Per_Store
  imports Per_Memory
begin

text \<open>
  What the in-memory persistence backend promises. The abstract store is a step relation on the stores,
  the open transactions and the open blob operations; every call of the backend is shown to be one of
  its steps, and the invariants (one writer, quotas, sorted tables, migrations exclude writers) are
  proved by rule induction over it. The properties of the backend are at the end, with the runs that
  serve as their examples.
\<close>

section \<open>The transactional store that the backend implements\<close>

text \<open>The abstract state: what the stores hold, and the open transactions and blob operations, as
  partial functions.\<close>

type_synonym Core =
  "(StoreRef \<Rightarrow> StoreData option) \<times> (Handle \<Rightarrow> Transaction option) \<times> (Handle \<Rightarrow> BlobOperation option)"

definition core :: "MemoryBackend \<Rightarrow> Core" where
  "core b = (um_find (mb_stores b), um_find (mb_transactions b), um_find (mb_blobs b))"

definition tx_writer :: "Transaction \<Rightarrow> StoreRef \<Rightarrow> bool" where
  "tx_writer t r \<longleftrightarrow> tx_write t \<and> \<not> tx_finished t \<and> tx_store t = r"

definition blob_writer :: "BlobOperation \<Rightarrow> StoreRef \<Rightarrow> bool" where
  "blob_writer op r \<longleftrightarrow> bo_write op \<and> \<not> bo_finished op \<and> bo_store op = r"

text \<open>The writers of a store: its unfinished write transactions and blob replacements.\<close>

definition writers ::
  "(Handle \<Rightarrow> Transaction option) \<Rightarrow> (Handle \<Rightarrow> BlobOperation option) \<Rightarrow> StoreRef \<Rightarrow> (Handle + Handle) set" where
  "writers T B r =
     {Inl h | h. \<exists>t. T h = Some t \<and> tx_writer t r} \<union> {Inr h | h. \<exists>op. B h = Some op \<and> blob_writer op r}"

text \<open>Two states of a store that differ in counters and migration progress only.\<close>

definition same_data :: "StoreData \<Rightarrow> StoreData \<Rightarrow> bool" where
  "same_data s s' \<longleftrightarrow>
     s' = s\<lparr>sd_rejected_operations := sd_rejected_operations s', sd_migration_values := sd_migration_values s',
            sd_migration_checkpoint := sd_migration_checkpoint s', sd_migration_processed := sd_migration_processed s',
            sd_migration_handle_active := sd_migration_handle_active s'\<rparr>"

definition committed :: "(StoreData \<Rightarrow> StoreData) \<Rightarrow> StoreData \<Rightarrow> StoreData" where
  "committed f s = (f s)\<lparr>sd_generation := sd_generation s + 1, sd_successful_commits := sd_successful_commits s + 1,
     sd_writer_active := False\<rparr>"

definition reset_store :: "Values \<Rightarrow> StoreData \<Rightarrow> StoreData" where
  "reset_store vs s = s\<lparr>sd_values := vs, sd_blobs := [], sd_generation := sd_generation s + 1,
     sd_successful_commits := sd_successful_commits s + 1, sd_recovery_count := sd_recovery_count s + 1,
     sd_recovery_state := RS_RESET\<rparr>"

definition entry_bounded :: "StoreData \<Rightarrow> bytes \<times> bytes \<Rightarrow> bool" where
  "entry_bounded s e \<longleftrightarrow> length (fst e) \<le> unat (sd_max_key_size s) \<and> length (snd e) \<le> unat (sd_max_value_size s)"

inductive core_step :: "Core \<Rightarrow> Core \<Rightarrow> bool" where
  skip: "core_step (S, T, B) (S, T, B)"
| create: "S r = None \<Longrightarrow> core_step (S, T, B) (S(r \<mapsto> new_store d), T, B)"
| bookkeep: "S r = Some s \<Longrightarrow> same_data s s' \<Longrightarrow>
    sorted_wrt (<) (map fst (sd_migration_values s')) \<or> sd_migration_values s' = sd_migration_values s \<Longrightarrow>
    core_step (S, T, B) (S(r \<mapsto> s'), T, B)"
| begin_read: "S r = Some s \<Longrightarrow> T h = None \<Longrightarrow>
    core_step (S, T, B) (S, T(h \<mapsto> \<lparr>tx_store = r, tx_values = sd_values s, tx_base_generation = sd_generation s,
      tx_durability = du, tx_write = False, tx_finished = False\<rparr>), B)"
| begin_write: "S r = Some s \<Longrightarrow> T h = None \<Longrightarrow> \<not> sd_writer_active s \<Longrightarrow> sd_migration_id s = [] \<Longrightarrow>
    core_step (S, T, B) (S(r \<mapsto> s\<lparr>sd_writer_active := True\<rparr>),
      T(h \<mapsto> \<lparr>tx_store = r, tx_values = sd_values s, tx_base_generation = sd_generation s,
      tx_durability = du, tx_write = True, tx_finished = False\<rparr>), B)"
| put: "T h = Some t \<Longrightarrow> tx_writer t r \<Longrightarrow> S r = Some s \<Longrightarrow>
    length k \<le> unat (sd_max_key_size s) \<Longrightarrow> length v \<le> unat (sd_max_value_size s) \<Longrightarrow>
    \<not> quota_exceeded (om_set k v (tx_values t)) (sd_blobs s) s \<Longrightarrow>
    core_step (S, T, B) (S, T(h \<mapsto> t\<lparr>tx_values := om_set k v (tx_values t)\<rparr>), B)"
| erase: "T h = Some t \<Longrightarrow> tx_writer t r \<Longrightarrow>
    core_step (S, T, B) (S, T(h \<mapsto> t\<lparr>tx_values := um_erase k (tx_values t)\<rparr>), B)"
| commit: "T h = Some t \<Longrightarrow> tx_writer t r \<Longrightarrow> S r = Some s \<Longrightarrow> sd_generation s = tx_base_generation t \<Longrightarrow>
    core_step (S, T, B) (S(r \<mapsto> committed (\<lambda>s. s\<lparr>sd_values := tx_values t\<rparr>) s),
      T(h \<mapsto> t\<lparr>tx_finished := True\<rparr>), B)"
| release: "T h = Some t \<Longrightarrow> tx_writer t r \<Longrightarrow> S r = Some s \<Longrightarrow> t' \<in> {None, Some (t\<lparr>tx_finished := True\<rparr>)} \<Longrightarrow>
    core_step (S, T, B) (S(r \<mapsto> s\<lparr>sd_writer_active := False\<rparr>), T(h := t'), B)"
| drop_tx: "T h = Some t \<Longrightarrow> \<not> (tx_write t \<and> \<not> tx_finished t) \<Longrightarrow> t' \<in> {None, Some (t\<lparr>tx_finished := True\<rparr>)} \<Longrightarrow>
    core_step (S, T, B) (S, T(h := t'), B)"
| open_blob: "S r = Some s \<Longrightarrow> B h = None \<Longrightarrow> bo_store op = r \<Longrightarrow> \<not> bo_write op \<Longrightarrow>
    core_step (S, T, B) (S, T, B(h \<mapsto> op))"
| begin_blob: "S r = Some s \<Longrightarrow> B h = None \<Longrightarrow> \<not> sd_writer_active s \<Longrightarrow> sd_migration_id s = [] \<Longrightarrow>
    bo_store op = r \<Longrightarrow> bo_write op \<Longrightarrow> \<not> bo_finished op \<Longrightarrow> bo_generation op = sd_generation s \<Longrightarrow>
    length (bo_key op) \<le> unat (sd_max_key_size s) \<Longrightarrow> length (bo_value op) \<le> unat (sd_max_blob_size s) \<Longrightarrow>
    \<not> quota_exceeded (om_set (bo_key op) (bo_value op) (sd_blobs s)) (sd_values s) s \<Longrightarrow>
    core_step (S, T, B) (S(r \<mapsto> s\<lparr>sd_writer_active := True\<rparr>), T, B(h \<mapsto> op))"
| write_blob: "B h = Some op \<Longrightarrow> blob_writer op r \<Longrightarrow> length v = length (bo_value op) \<Longrightarrow>
    core_step (S, T, B) (S, T, B(h \<mapsto> op\<lparr>bo_value := v, bo_written := n\<rparr>))"
| commit_blob: "B h = Some op \<Longrightarrow> blob_writer op r \<Longrightarrow> S r = Some s \<Longrightarrow> sd_generation s = bo_generation op \<Longrightarrow>
    core_step (S, T, B) (S(r \<mapsto> committed (\<lambda>s. s\<lparr>sd_blobs := om_set (bo_key op) (bo_value op) (sd_blobs s)\<rparr>) s),
      T, B(h \<mapsto> op\<lparr>bo_finished := True\<rparr>))"
| release_blob: "B h = Some op \<Longrightarrow> blob_writer op r \<Longrightarrow> S r = Some s \<Longrightarrow>
    op' \<in> {None, Some (op\<lparr>bo_finished := True\<rparr>)} \<Longrightarrow>
    core_step (S, T, B) (S(r \<mapsto> s\<lparr>sd_writer_active := False\<rparr>), T, B(h := op'))"
| drop_blob: "B h = Some op \<Longrightarrow> \<not> (bo_write op \<and> \<not> bo_finished op) \<Longrightarrow>
    op' \<in> {None, Some (op\<lparr>bo_finished := True\<rparr>)} \<Longrightarrow> core_step (S, T, B) (S, T, B(h := op'))"
| reset: "S r = Some s \<Longrightarrow> \<not> sd_writer_active s \<Longrightarrow> sd_migration_id s = [] \<Longrightarrow> om_ok vs \<Longrightarrow>
    list_all (entry_bounded s) vs \<Longrightarrow> \<not> quota_exceeded vs [] s \<Longrightarrow> core_step (S, T, B) (S(r \<mapsto> reset_store vs s), T, B)"
| begin_migration: "S r = Some s \<Longrightarrow> \<not> sd_writer_active s \<Longrightarrow> sd_migration_id s = [] \<Longrightarrow>
    core_step (S, T, B) (S(r \<mapsto> (start_migration d s)\<lparr>sd_migration_handle_active := a\<rparr>), T, B)"
| migrate: "S r = Some s \<Longrightarrow> sd_generation s = sd_migration_source_generation s \<Longrightarrow>
    core_step (S, T, B) (S(r \<mapsto> migrated_store s), T, B)"
| rollback: "S r = Some s \<Longrightarrow> sd_rollback_available s \<Longrightarrow> core_step (S, T, B) (S(r \<mapsto> rolled_back_store s), T, B)"
| stop: "core_step (S, T, B)
    (\<lambda>r. map_option (\<lambda>s. s\<lparr>sd_writer_active := sd_writer_active s \<and> writers T B r = {},
       sd_migration_handle_active := sd_migration_handle_active s \<and> r \<notin> M\<rparr>) (S r), \<lambda>_. None, \<lambda>_. None)"

section \<open>Well-formed backends\<close>

definition handle_fresh :: "Handle \<Rightarrow> (Handle \<times> 'v) list \<Rightarrow> bool" where
  "handle_fresh n m \<longleftrightarrow> (\<forall>h v. um_find m h = Some v \<longrightarrow> h < n)"

definition refers :: "MemoryBackend \<Rightarrow> ('v \<Rightarrow> StoreRef) \<Rightarrow> (Handle \<times> 'v) list \<Rightarrow> bool" where
  "refers b f m \<longleftrightarrow> (\<forall>h v. um_find m h = Some v \<longrightarrow> um_find (mb_stores b) (f v) \<noteq> None)"

definition blob_in_bounds :: "BlobOperation \<Rightarrow> bool" where
  "blob_in_bounds op \<longleftrightarrow> bo_write op \<longrightarrow> unat (bo_written op) \<le> length (bo_value op) \<and> length (bo_value op) < 2 ^ 64"

definition backend_wf :: "MemoryBackend \<Rightarrow> bool" where
  "backend_wf b \<longleftrightarrow>
     um_ok (mb_stores b) \<and> um_ok (mb_transactions b) \<and> um_ok (mb_blobs b) \<and> um_ok (mb_migrations b) \<and>
     handle_fresh (mb_next_handle b) (mb_transactions b) \<and> handle_fresh (mb_next_handle b) (mb_blobs b) \<and>
     refers b sh_store (mb_store_handles b) \<and> refers b tx_store (mb_transactions b) \<and>
     refers b bo_store (mb_blobs b) \<and> refers b mo_store (mb_migrations b) \<and>
     (\<forall>h op. um_find (mb_blobs b) h = Some op \<longrightarrow> blob_in_bounds op)"

lemma um_find_with_store [simp]:
  "um_find (mb_stores (with_store r f b)) = (um_find (mb_stores b))(r \<mapsto> f (store_at b r))"
  by (simp add: with_store_def)

lemma with_store_other [simp]:
  "mb_store_handles (with_store r f b) = mb_store_handles b"
  "mb_transactions (with_store r f b) = mb_transactions b"
  "mb_blobs (with_store r f b) = mb_blobs b"
  "mb_cursors (with_store r f b) = mb_cursors b"
  "mb_migrations (with_store r f b) = mb_migrations b"
  "mb_next_handle (with_store r f b) = mb_next_handle b"
  "mb_max_transactions (with_store r f b) = mb_max_transactions b"
  "mb_running (with_store r f b) = mb_running b"
  by (simp_all add: with_store_def)

lemma SetError_other [simp]:
  "mb_stores (SetError m b) = mb_stores b" "mb_store_handles (SetError m b) = mb_store_handles b"
  "mb_transactions (SetError m b) = mb_transactions b" "mb_blobs (SetError m b) = mb_blobs b"
  "mb_migrations (SetError m b) = mb_migrations b" "mb_next_handle (SetError m b) = mb_next_handle b"
  by (simp_all add: SetError_def)

lemma store_at_Some: "um_find (mb_stores b) r = Some s \<Longrightarrow> store_at b r = s"
  by (simp add: store_at_def)

lemma refers_Some: "refers b f m \<Longrightarrow> um_find m h = Some v \<Longrightarrow> um_find (mb_stores b) (f v) = Some (store_at b (f v))"
  unfolding refers_def store_at_def by (force split: option.splits)

lemma fresh_None: "handle_fresh n m \<Longrightarrow> um_find m n = None"
  unfolding handle_fresh_def by (cases "um_find m n") force+

text \<open>The references of a well-formed backend resolve.\<close>

lemma wf_store_handle: "backend_wf b \<Longrightarrow> um_find (mb_store_handles b) h = Some v \<Longrightarrow>
    um_find (mb_stores b) (sh_store v) = Some (store_at b (sh_store v))"
  using refers_Some [of b sh_store "mb_store_handles b" h v] by (simp add: backend_wf_def)

lemma wf_transaction: "backend_wf b \<Longrightarrow> um_find (mb_transactions b) h = Some v \<Longrightarrow>
    um_find (mb_stores b) (tx_store v) = Some (store_at b (tx_store v))"
  using refers_Some [of b tx_store "mb_transactions b" h v] by (simp add: backend_wf_def)

lemma wf_blob: "backend_wf b \<Longrightarrow> um_find (mb_blobs b) h = Some v \<Longrightarrow>
    um_find (mb_stores b) (bo_store v) = Some (store_at b (bo_store v))"
  using refers_Some [of b bo_store "mb_blobs b" h v] by (simp add: backend_wf_def)

lemma wf_migration: "backend_wf b \<Longrightarrow> um_find (mb_migrations b) h = Some v \<Longrightarrow>
    um_find (mb_stores b) (mo_store v) = Some (store_at b (mo_store v))"
  using refers_Some [of b mo_store "mb_migrations b" h v] by (simp add: backend_wf_def)

lemma wf_fresh: "backend_wf b \<Longrightarrow> um_find (mb_transactions b) (mb_next_handle b) = None"
    "backend_wf b \<Longrightarrow> um_find (mb_blobs b) (mb_next_handle b) = None"
  by (simp_all add: backend_wf_def fresh_None)

lemma writing_Some: "writing h b = Some t \<longleftrightarrow> um_find (mb_transactions b) h = Some t \<and> tx_writer t (tx_store t)"
  by (auto simp: writing_def tx_writer_def split: option.splits)

lemma replacing_Some: "replacing h b = Some op \<longleftrightarrow> um_find (mb_blobs b) h = Some op \<and> blob_writer op (bo_store op)"
  by (auto simp: replacing_def blob_writer_def split: option.splits)

lemma view_size_Copy: "Valid v \<Longrightarrow> length (Copy v) = view_size v"
  by (cases v) simp_all

lemma same_data_refl [simp]: "same_data s s"
  by (simp add: same_data_def)

lemma core_step_skip: "core b' = core b \<Longrightarrow> core_step (core b) (core b')"
  by (simp add: core_def core_step.skip)

lemma core_SetError [simp]: "core (SetError m b) = core b"
  by (simp add: core_def)

lemma core_stepI:
  assumes "core_step (um_find (mb_stores b), um_find (mb_transactions b), um_find (mb_blobs b)) (S, T, B)"
    and "um_find (mb_stores b') = S" and "um_find (mb_transactions b') = T" and "um_find (mb_blobs b') = B"
  shows "core_step (core b) (core b')"
  using assms by (simp add: core_def)

lemma core_step_bookkeep:
  assumes "um_find (mb_stores b) r = Some (store_at b r)" and "same_data (store_at b r) (f (store_at b r))"
    and "om_ok (sd_migration_values (f (store_at b r))) \<or>
      sd_migration_values (f (store_at b r)) = sd_migration_values (store_at b r)"
  shows "core_step (core b) (core (with_store r f b))"
  by (rule core_stepI, rule core_step.bookkeep [where r = r and s = "store_at b r"]) (use assms in simp_all)

section \<open>Every call is a step of the abstract store\<close>

lemma core_issue_store_handle: "core (snd (snd (issue_store_handle r a b))) = core b"
  by (simp add: issue_store_handle_def take_handle_def core_def)

lemma OpenStore_step: "core_step (core b) (core (snd (snd (OpenStore d o' b))))"
proof -
  have c: "core_step (core b) (core (b\<lparr>mb_stores := um_emplace r (new_store x) (mb_stores b)\<rparr>))"
    if "um_find (mb_stores b) r = None" for r x
    by (rule core_stepI, rule core_step.create [where r = r]) (use that in simp_all)
  show ?thesis
    unfolding OpenStore_def Let_def
    by (auto simp: core_issue_store_handle c core_step_skip split: option.split)
qed

lemma BeginTransaction_step:
  assumes "backend_wf b"
  shows "core_step (core b) (core (snd (snd (BeginTransaction h du w e o' b))))"
proof (cases "um_find (mb_store_handles b) h")
  case (Some sh)
  let ?r = "sh_store sh" and ?n = "mb_next_handle b"
  let ?t = "\<lparr>tx_store = ?r, tx_values = sd_values (store_at b ?r), tx_base_generation = sd_generation (store_at b ?r),
      tx_durability = du, tx_write = w, tx_finished = False\<rparr>"
  let ?b = "(if w then with_store ?r (\<lambda>s. s\<lparr>sd_writer_active := True\<rparr>) b else b)"
  note s = wf_store_handle [OF assms Some] and n = wf_fresh(1) [OF assms]
  have ok: "core_step (core b) (core (?b\<lparr>mb_next_handle := k, mb_transactions := um_emplace ?n ?t (mb_transactions ?b)\<rparr>))"
    if "w \<longrightarrow> \<not> sd_writer_active (store_at b ?r) \<and> sd_migration_id (store_at b ?r) = []" for k
  proof (cases w)
    case True
    show ?thesis
      by (rule core_stepI, rule core_step.begin_write [where r = ?r and h = ?n and du = du and s = "store_at b ?r"])
        (use True that n s in simp_all)
  next
    case False
    show ?thesis
      by (rule core_stepI, rule core_step.begin_read [where r = ?r and h = ?n and du = du and s = "store_at b ?r"])
        (use False that n s in simp_all)
  qed
  have k: "core_step (core b) (core (with_store ?r (\<lambda>s. s\<lparr>sd_rejected_operations := sd_rejected_operations s + 1\<rparr>) b))"
    by (rule core_step_bookkeep [OF s]) (simp_all add: same_data_def)
  show ?thesis
    using Some k ok by (cases w) (auto simp: BeginTransaction_def Let_def take_handle_def core_step_skip)
qed (simp add: BeginTransaction_def core_step_skip)

lemma set_transaction_other [simp]:
  "mb_stores (set_transaction h t b) = mb_stores b" "mb_blobs (set_transaction h t b) = mb_blobs b"
  "um_find (mb_transactions (set_transaction h t b)) = (um_find (mb_transactions b))(h \<mapsto> t)"
  "mb_store_handles (set_transaction h t b) = mb_store_handles b"
  "mb_migrations (set_transaction h t b) = mb_migrations b"
  "mb_next_handle (set_transaction h t b) = mb_next_handle b"
  by (simp_all add: set_transaction_def)

lemma set_blob_other [simp]:
  "mb_stores (set_blob h t b) = mb_stores b" "mb_transactions (set_blob h t b) = mb_transactions b"
  "um_find (mb_blobs (set_blob h t b)) = (um_find (mb_blobs b))(h \<mapsto> t)"
  "mb_store_handles (set_blob h t b) = mb_store_handles b"
  "mb_migrations (set_blob h t b) = mb_migrations b"
  "mb_next_handle (set_blob h t b) = mb_next_handle b"
  by (simp_all add: set_blob_def)

lemma Put_step:
  assumes "backend_wf b"
  shows "core_step (core b) (core (snd (Put h k v b)))"
proof (cases "writing h b")
  case (Some t)
  let ?r = "tx_store t" and ?c = "om_set (Copy k) (Copy v) (tx_values t)"
  have t: "um_find (mb_transactions b) h = Some t" "tx_writer t ?r" using Some by (simp_all add: writing_Some)
  note s = wf_transaction [OF assms t(1)]
  have ok: "core_step (core b) (core (set_transaction h (t\<lparr>tx_values := ?c\<rparr>) b))"
    if "Valid k" "Valid v" "\<not> view_size k > unat (sd_max_key_size (store_at b ?r))"
      "\<not> view_size v > unat (sd_max_value_size (store_at b ?r))"
      "\<not> quota_exceeded ?c (sd_blobs (store_at b ?r)) (store_at b ?r)"
    by (rule core_stepI, rule core_step.put [where h = h and t = t and r = ?r and s = "store_at b ?r"])
      (use t s that in \<open>simp_all add: view_size_Copy\<close>)
  show ?thesis
    using ok by (simp add: Put_def Some Let_def core_step_skip)
qed (simp add: Put_def core_step_skip)

lemma Erase_step: "core_step (core b) (core (snd (snd (Erase h k o' b))))"
proof (cases "writing h b")
  case (Some t)
  have ok: "core_step (core b) (core (set_transaction h (t\<lparr>tx_values := um_erase (Copy k) (tx_values t)\<rparr>) b))"
    by (rule core_stepI, rule core_step.erase [where h = h and t = t and r = "tx_store t"])
      (use Some in \<open>simp_all add: writing_Some\<close>)
  then show ?thesis by (simp add: Erase_def Some core_step_skip)
qed (simp add: Erase_def core_step_skip)

lemma Commit_step:
  assumes "backend_wf b"
  shows "core_step (core b) (core (snd (snd (Commit h o' b))))"
proof (cases "writing h b")
  case (Some t)
  let ?r = "tx_store t" and ?s = "store_at b (tx_store t)"
  have t: "um_find (mb_transactions b) h = Some t" "tx_writer t ?r" using Some by (simp_all add: writing_Some)
  note s = wf_transaction [OF assms t(1)]
  have c: "core_step (core b) (core (set_transaction h (t\<lparr>tx_finished := True\<rparr>) (release_writer ?r b)))"
    by (rule core_stepI, rule core_step.release [where h = h and t = t and r = ?r and s = ?s
          and t' = "Some (t\<lparr>tx_finished := True\<rparr>)"])
      (use t s in \<open>simp_all add: release_writer_def\<close>)
  have ok: "core_step (core b) (core (set_transaction h (t\<lparr>tx_finished := True\<rparr>)
      (with_store ?r (\<lambda>s. s\<lparr>sd_values := tx_values t, sd_generation := sd_generation s + 1,
        sd_successful_commits := sd_successful_commits s + 1, sd_writer_active := False\<rparr>) b)))"
    if "sd_generation ?s = tx_base_generation t"
    by (rule core_stepI, rule core_step.commit [where h = h and t = t and r = ?r and s = ?s])
      (use t s that in \<open>simp_all add: committed_def\<close>)
  show ?thesis
    using c ok by (simp add: Commit_def Some Let_def core_step_skip)
qed (simp add: Commit_def core_step_skip)

text \<open>Ending a transaction in either way: with the handle kept as finished, or removed.\<close>

lemma end_transaction_step:
  assumes "backend_wf b" and t: "um_find (mb_transactions b) h = Some t"
    and b': "um_find (mb_stores b') = um_find (mb_stores (release_transaction t b))"
      "mb_blobs b' = mb_blobs b" "um_find (mb_transactions b') = (um_find (mb_transactions b))(h := t')"
    and t': "t' \<in> {None, Some (t\<lparr>tx_finished := True\<rparr>)}"
  shows "core_step (core b) (core b')"
proof (cases "tx_write t \<and> \<not> tx_finished t")
  case True
  show ?thesis
    by (rule core_stepI, rule core_step.release [where h = h and t = t and r = "tx_store t"
          and s = "store_at b (tx_store t)" and t' = t'])
      (use True t t' b' wf_transaction [OF assms(1) t] in
        \<open>simp_all add: release_transaction_def release_writer_def tx_writer_def\<close>)
next
  case False
  show ?thesis
    by (rule core_stepI, rule core_step.drop_tx [where h = h and t = t and t' = t'])
      (use False t t' b' in \<open>auto simp: release_transaction_def\<close>)
qed

lemma release_transaction_other [simp]:
  "mb_transactions (release_transaction t b) = mb_transactions b" "mb_blobs (release_transaction t b) = mb_blobs b"
  "mb_store_handles (release_transaction t b) = mb_store_handles b"
  "mb_migrations (release_transaction t b) = mb_migrations b"
  "mb_next_handle (release_transaction t b) = mb_next_handle b"
  by (simp_all add: release_transaction_def release_writer_def)

lemma release_blob_other [simp]:
  "mb_transactions (release_blob t b) = mb_transactions b" "mb_blobs (release_blob t b) = mb_blobs b"
  "mb_store_handles (release_blob t b) = mb_store_handles b"
  "mb_migrations (release_blob t b) = mb_migrations b"
  "mb_next_handle (release_blob t b) = mb_next_handle b"
  by (simp_all add: release_blob_def release_writer_def)

lemma Abort_step: "backend_wf b \<Longrightarrow> core_step (core b) (core (snd (Abort h b)))"
  by (cases "um_find (mb_transactions b) h")
    (auto simp: Abort_def core_step_skip intro: end_transaction_step)

lemma CloseTransaction_step: "backend_wf b \<Longrightarrow> core_step (core b) (core (snd (CloseTransaction h b)))"
  by (cases "um_find (mb_transactions b) h")
    (auto simp: CloseTransaction_def Let_def core_step_skip intro: end_transaction_step)

lemma OpenBlobRead_step:
  assumes "backend_wf b"
  shows "core_step (core b) (core (snd (snd (OpenBlobRead h k o' b))))"
proof (cases "um_find (mb_store_handles b) h")
  case (Some sh)
  let ?r = "sh_store sh" and ?n = "mb_next_handle b"
  have ok: "core_step (core b) (core (b\<lparr>mb_next_handle := j, mb_blobs := um_emplace ?n op (mb_blobs b)\<rparr>))"
    if "bo_store op = ?r" "\<not> bo_write op" for op j
    by (rule core_stepI, rule core_step.open_blob [where h = ?n and op = op and r = ?r and s = "store_at b ?r"])
      (use that wf_store_handle [OF assms Some] wf_fresh(2) [OF assms] in simp_all)
  show ?thesis
    using Some ok by (auto simp: OpenBlobRead_def Let_def take_handle_def core_step_skip split: option.splits)
qed (simp add: OpenBlobRead_def core_step_skip)

lemma BeginBlobReplace_step:
  assumes "backend_wf b"
  shows "core_step (core b) (core (snd (snd (BeginBlobReplace h k n du o' f b))))"
proof (cases "um_find (mb_store_handles b) h")
  case (Some sh)
  let ?r = "sh_store sh" and ?n = "mb_next_handle b" and ?s = "store_at b (sh_store sh)"
  note s = wf_store_handle [OF assms Some]
  let ?op = "\<lparr>bo_store = ?r, bo_key = Copy k, bo_value = replicate (unat n) 0, bo_generation = sd_generation ?s,
     bo_written = 0, bo_durability = du, bo_write = True, bo_finished = False\<rparr>"
  have ok: "core_step (core b) (core ((with_store ?r (\<lambda>s. s\<lparr>sd_writer_active := True\<rparr>) b)
        \<lparr>mb_next_handle := j, mb_blobs := um_emplace ?n ?op (mb_blobs b)\<rparr>))"
    if "Valid k" "\<not> view_size k > unat (sd_max_key_size ?s)" "\<not> n > sd_max_blob_size ?s"
      "\<not> sd_writer_active ?s" "sd_migration_id ?s = []"
      "\<not> quota_exceeded (om_set (Copy k) (replicate (unat n) 0) (sd_blobs ?s)) (sd_values ?s) ?s" for j
    by (rule core_stepI, rule core_step.begin_blob [where h = ?n and op = ?op and r = ?r and s = ?s])
      (use that s wf_fresh(2) [OF assms] in \<open>simp_all add: view_size_Copy word_le_nat_alt not_less\<close>)
  have rel: "core (release_writer ?r b) = core b" if "\<not> sd_writer_active ?s"
    using that s by (auto simp: core_def release_writer_def)
  show ?thesis
    using Some ok by (auto simp: BeginBlobReplace_def Let_def take_handle_def core_step_skip rel)
qed (simp add: BeginBlobReplace_def core_step_skip)

lemma length_memcpy_at: "n + length bs \<le> length data \<Longrightarrow> length (memcpy_at n bs data) = length data"
  by (simp add: memcpy_at_def)

lemma write_in_bounds:
  assumes "\<not> n > unat (of_nat m - w :: u64)" and "unat w \<le> m" and "m < 2 ^ 64"
  shows "unat w + n \<le> m"
proof -
  have m: "unat (of_nat m :: u64) = m" using assms(3) by (simp add: unat_of_nat take_bit_nat_eq_self)
  have "w \<le> of_nat m" using assms(2) m by (simp add: word_le_nat_alt)
  then have "unat (of_nat m - w) = m - unat w" using m by (simp add: unat_sub)
  then show ?thesis using assms(1,2) by simp
qed

lemma WriteBlob_step:
  assumes "backend_wf b"
  shows "core_step (core b) (core (snd (WriteBlob h w i b)))"
proof (cases "replacing h b")
  case (Some op)
  then have op: "um_find (mb_blobs b) h = Some op" "blob_writer op (bo_store op)" by (simp_all add: replacing_Some)
  have bounds: "unat (bo_written op) \<le> length (bo_value op)" "length (bo_value op) < 2 ^ 64"
    using assms op by (auto simp: backend_wf_def blob_in_bounds_def blob_writer_def)
  have ok: "core_step (core b) (core (set_blob h (op\<lparr>bo_value := memcpy_at (unat w) (Copy i) (bo_value op), bo_written := n\<rparr>) b))"
    if "Valid i" "w = bo_written op" "\<not> view_size i > unat (of_nat (length (bo_value op)) - w)" for n
    by (rule core_stepI, rule core_step.write_blob [where h = h and op = op and r = "bo_store op"])
      (use op that write_in_bounds [OF that(3)] bounds in \<open>simp_all add: length_memcpy_at view_size_Copy\<close>)
  show ?thesis
    using ok by (simp add: WriteBlob_def Some Let_def core_step_skip)
qed (simp add: WriteBlob_def core_step_skip)

lemma CommitBlob_step:
  assumes "backend_wf b"
  shows "core_step (core b) (core (snd (snd (CommitBlob h o' b))))"
proof (cases "replacing h b")
  case (Some op)
  let ?r = "bo_store op" and ?s = "store_at b (bo_store op)"
  have op: "um_find (mb_blobs b) h = Some op" "blob_writer op ?r" using Some by (simp_all add: replacing_Some)
  note s = wf_blob [OF assms op(1)]
  have c: "core_step (core b) (core (set_blob h (op\<lparr>bo_finished := True\<rparr>) (release_writer ?r b)))"
    by (rule core_stepI, rule core_step.release_blob [where h = h and op = op and r = ?r and s = ?s
          and op' = "Some (op\<lparr>bo_finished := True\<rparr>)"])
      (use op s in \<open>simp_all add: release_writer_def\<close>)
  have ok: "core_step (core b) (core (set_blob h (op\<lparr>bo_finished := True\<rparr>)
      (with_store ?r (\<lambda>s. s\<lparr>sd_blobs := om_set (bo_key op) (bo_value op) (sd_blobs s),
        sd_generation := sd_generation s + 1, sd_successful_commits := sd_successful_commits s + 1,
        sd_writer_active := False\<rparr>) b)))"
    if "sd_generation ?s = bo_generation op"
    by (rule core_stepI, rule core_step.commit_blob [where h = h and op = op and r = ?r and s = ?s])
      (use op s that in \<open>simp_all add: committed_def\<close>)
  show ?thesis
    using c ok by (simp add: CommitBlob_def Some Let_def core_step_skip)
qed (simp add: CommitBlob_def core_step_skip)

lemma end_blob_step:
  assumes "backend_wf b" and op: "um_find (mb_blobs b) h = Some op"
    and b': "um_find (mb_stores b') = um_find (mb_stores (release_blob op b))"
      "mb_transactions b' = mb_transactions b" "um_find (mb_blobs b') = (um_find (mb_blobs b))(h := op')"
    and op': "op' \<in> {None, Some (op\<lparr>bo_finished := True\<rparr>)}"
  shows "core_step (core b) (core b')"
proof (cases "bo_write op \<and> \<not> bo_finished op")
  case True
  show ?thesis
    by (rule core_stepI, rule core_step.release_blob [where h = h and op = op and r = "bo_store op"
          and s = "store_at b (bo_store op)" and op' = op'])
      (use True op op' b' wf_blob [OF assms(1) op] in
        \<open>simp_all add: release_blob_def release_writer_def blob_writer_def\<close>)
next
  case False
  show ?thesis
    by (rule core_stepI, rule core_step.drop_blob [where h = h and op = op and op' = op'])
      (use False op op' b' in \<open>auto simp: release_blob_def\<close>)
qed

lemma AbortBlob_step: "backend_wf b \<Longrightarrow> core_step (core b) (core (snd (AbortBlob h b)))"
  by (cases "um_find (mb_blobs b) h")
    (auto simp: AbortBlob_def core_step_skip intro: end_blob_step)

lemma CloseBlob_step: "backend_wf b \<Longrightarrow> core_step (core b) (core (snd (CloseBlob h b)))"
  by (cases "um_find (mb_blobs b) h")
    (auto simp: CloseBlob_def Let_def core_step_skip intro: end_blob_step)

lemma cursor_steps:
  "core_step (core b) (core (snd (snd (OpenCursor h p o' f b))))"
  "core_step (core b) (core (snd (snd (NextCursor h c b))))"
  "core_step (core b) (core (snd (CloseCursor h b)))"
  by (intro core_step_skip; auto simp: core_def OpenCursor_def NextCursor_def CloseCursor_def Let_def take_handle_def
      split: option.splits prod.splits)+

lemma om_ok_Nil [simp]: "om_ok []"
  by simp

lemma list_all_om_set: "list_all P m \<Longrightarrow> P (k, v) \<Longrightarrow> list_all P (om_set k v m)"
  by (induction k v m rule: om_set.induct) auto

lemma reset_values_bounded:
  "reset_values s es vs = Some vs' \<Longrightarrow> list_all (entry_bounded s) vs \<Longrightarrow> list_all (entry_bounded s) vs'"
  by (induction s es vs rule: reset_values.induct)
    (auto split: if_splits simp: list_all_om_set entry_bounded_def view_size_Copy)

lemma reset_values_sorted: "reset_values s es vs = Some vs' \<Longrightarrow> om_ok vs \<Longrightarrow> om_ok vs'"
  by (induction s es vs rule: reset_values.induct) (auto split: if_splits simp del: sorted_wrt.simps)

lemma Size_Nil [simp]: "Size [] = 0"
  by (simp add: Size_def)

lemma reject_step:
  assumes "um_find (mb_stores b) r = Some (store_at b r)"
  shows "core_step (core b) (core (reject r b))"
  unfolding reject_def by (rule core_step_bookkeep [OF assms]) (simp_all add: same_data_def)

lemma ResetStore_step:
  assumes "backend_wf b"
  shows "core_step (core b) (core (snd (snd (ResetStore h es du o' f b))))"
proof (cases "um_find (mb_store_handles b) h")
  case (Some sh)
  let ?r = "sh_store sh" and ?s = "store_at b (sh_store sh)"
  note s = wf_store_handle [OF assms Some]
  have ok: "core_step (core b) (core (with_store ?r (\<lambda>s. s\<lparr>sd_values := vs, sd_blobs := [],
      sd_generation := sd_generation s + 1, sd_successful_commits := sd_successful_commits s + 1,
      sd_recovery_count := sd_recovery_count s + 1, sd_recovery_state := RS_RESET\<rparr>) b))"
    if "\<not> sd_writer_active ?s" "sd_migration_id ?s = []" "reset_values ?s e [] = Some vs"
      "length vs \<le> unat (sd_max_entries ?s)" "Size vs \<le> sd_capacity ?s" for vs e
    by (rule core_stepI, rule core_step.reset [where r = ?r and s = ?s and vs = vs])
      (use s that reset_values_sorted [OF that(3) om_ok_Nil] reset_values_bounded [OF that(3)] in \<open>simp_all add: reset_store_def quota_exceeded_def\<close>)
  show ?thesis
    using Some ok reject_step [OF s]
    by (auto simp: ResetStore_def Let_def core_step_skip not_less split: option.splits)
qed (auto simp: ResetStore_def core_step_skip split: option.splits)

lemma core_issue_migration:
  "core (snd (snd (snd (issue_migration r d x c b)))) \<in>
    {core b, core (with_store r (\<lambda>s. s\<lparr>sd_migration_handle_active := True\<rparr>) b)}"
  by (simp add: issue_migration_def Let_def take_handle_def core_def with_store_def store_at_def)

lemma core_with_store: "core (with_store r f b) = ((um_find (mb_stores b))(r \<mapsto> f (store_at b r)),
    um_find (mb_transactions b), um_find (mb_blobs b))"
  by (simp add: core_def)

lemma BeginMigration_step:
  assumes "backend_wf b"
  shows "core_step (core b) (core (snd (snd (snd (BeginMigration h d o' c b)))))"
proof (cases "um_find (mb_store_handles b) h")
  case (Some sh)
  let ?r = "sh_store sh" and ?s = "store_at b (sh_store sh)"
  note s = wf_store_handle [OF assms Some]
  have resume: "core_step (core b) (core (snd (snd (snd (issue_migration ?r d' x c' b)))))" for d' x c'
    using core_issue_migration [of ?r d' x c' b] core_step_bookkeep [OF s, of "\<lambda>s. s\<lparr>sd_migration_handle_active := True\<rparr>"]
    by (auto simp: core_step_skip same_data_def)
  have start: "core_step (core b) (core (snd (snd (snd
      (issue_migration ?r d' x c' (with_store ?r (start_migration d') b))))))"
    if "\<not> sd_writer_active ?s" "sd_migration_id ?s = []" for d' x c'
  proof -
    have c: "core_step (core b) ((um_find (mb_stores b))(?r \<mapsto> (start_migration d' ?s)\<lparr>sd_migration_handle_active := a\<rparr>),
        um_find (mb_transactions b), um_find (mb_blobs b))" for a
      unfolding core_def by (rule core_step.begin_migration [where r = ?r and s = ?s]) (use s that in simp_all)
    have e: "(start_migration d' ?s)\<lparr>sd_migration_handle_active := sd_migration_handle_active ?s\<rparr> = start_migration d' ?s"
      by (simp add: start_migration_def)
    have t: "store_at (with_store ?r (start_migration d') b) ?r = start_migration d' ?s"
      by (simp add: store_at_def)
    show ?thesis
      using core_issue_migration [of ?r d' x c' "with_store ?r (start_migration d') b"]
        c [of True] c [of "sd_migration_handle_active ?s"]
      unfolding core_with_store e t by auto
  qed
  show ?thesis
    using Some resume start
    by (auto simp: BeginMigration_def Let_def core_step_skip split: option.splits)
qed (auto simp: BeginMigration_def core_step_skip split: option.splits)

text \<open>The part of the well-formedness that the abstract steps rely on: the keys of the migration values
  are sorted.\<close>

lemma ApplyMigration_step:
  assumes "backend_wf b" and "\<And>r s. um_find (mb_stores b) r = Some s \<Longrightarrow> om_ok (sd_migration_values s)"
  shows "core_step (core b) (core (snd (ApplyMigration h k t w f b)))"
proof (cases "um_find (mb_migrations b) h")
  case (Some m)
  let ?r = "mo_store m" and ?s = "store_at b (mo_store m)"
  note s = wf_migration [OF assms(1) Some]
  have ok: "core_step (core b) (core (with_store ?r (\<lambda>s. s\<lparr>sd_migration_values := vs, sd_migration_checkpoint := j,
      sd_migration_processed := sd_migration_processed s + 1\<rparr>) b))"
    if "vs = om_set a v (sd_migration_values ?s) \<or> vs = sd_migration_values ?s" for vs a v j
    using that assms(2) [OF s] by (intro core_step_bookkeep [OF s]) (auto simp: same_data_def)
  show ?thesis
    using Some ok by (auto simp: ApplyMigration_def Let_def core_step_skip split: prod.splits)
qed (simp add: ApplyMigration_def core_step_skip)

lemma CommitMigration_step:
  assumes "backend_wf b"
  shows "core_step (core b) (core (snd (snd (CommitMigration h o' b))))"
proof (cases "um_find (mb_migrations b) h")
  case (Some m)
  let ?r = "mo_store m" and ?s = "store_at b (mo_store m)"
  have ok: "core_step (core b) (core (with_store ?r migrated_store b))"
    if "sd_generation ?s = sd_migration_source_generation ?s"
    by (rule core_stepI, rule core_step.migrate [where r = ?r and s = ?s])
      (use that wf_migration [OF assms Some] in simp_all)
  then show ?thesis using Some by (simp add: CommitMigration_def Let_def core_step_skip)
qed (simp add: CommitMigration_def core_step_skip)

lemma release_migration_step:
  assumes "um_find (mb_stores b) r = Some (store_at b r)"
  shows "core_step (core b) (core (release_migration r b))"
  unfolding release_migration_def by (rule core_step_bookkeep [OF assms]) (simp_all add: same_data_def)

lemma AbortMigration_step: "backend_wf b \<Longrightarrow> core_step (core b) (core (snd (AbortMigration h b)))"
  by (cases "um_find (mb_migrations b) h")
    (simp_all add: AbortMigration_def core_step_skip release_migration_step wf_migration)

lemma CloseMigration_step:
  assumes "backend_wf b"
  shows "core_step (core b) (core (snd (CloseMigration h b)))"
proof (cases "um_find (mb_migrations b) h")
  case (Some m)
  have "core (b'\<lparr>mb_migrations := x\<rparr>) = core b'" for b' :: MemoryBackend and x by (simp add: core_def)
  then show ?thesis
    using release_migration_step [OF wf_migration [OF assms Some]]
    by (simp add: CloseMigration_def Some Let_def)
qed (simp add: CloseMigration_def core_step_skip)

lemma RollbackStore_step:
  assumes "backend_wf b"
  shows "core_step (core b) (core (snd (snd (RollbackStore h du o' b))))"
proof (cases "um_find (mb_store_handles b) h")
  case (Some sh)
  let ?r = "sh_store sh" and ?s = "store_at b (sh_store sh)"
  have ok: "core_step (core b) (core (with_store ?r rolled_back_store b))" if "sd_rollback_available ?s"
    by (rule core_stepI, rule core_step.rollback [where r = ?r and s = ?s])
      (use that wf_store_handle [OF assms Some] in simp_all)
  then show ?thesis using Some by (simp add: RollbackStore_def Let_def core_step_skip)
qed (simp add: RollbackStore_def core_step_skip)

section \<open>Stopping\<close>

text \<open>A loop that updates the stores behind some of the entries of a table.\<close>

definition update_all :: "('v \<Rightarrow> StoreRef option) \<Rightarrow> (StoreData \<Rightarrow> StoreData) \<Rightarrow> (Handle \<times> 'v) list \<Rightarrow> MemoryBackend \<Rightarrow> MemoryBackend" where
  "update_all sel f es b = fold (\<lambda>(_, v) b. case sel v of None \<Rightarrow> b | Some r \<Rightarrow> with_store r f b) es b"

lemma update_all_other [simp]:
  "mb_store_handles (update_all sel f es b) = mb_store_handles b"
  "mb_transactions (update_all sel f es b) = mb_transactions b"
  "mb_blobs (update_all sel f es b) = mb_blobs b"
  "mb_cursors (update_all sel f es b) = mb_cursors b"
  "mb_migrations (update_all sel f es b) = mb_migrations b"
  "mb_next_handle (update_all sel f es b) = mb_next_handle b"
  unfolding update_all_def by (induction es arbitrary: b) (auto split: option.splits)

lemma update_all_stores:
  assumes "\<And>v r. v \<in> snd ` set es \<Longrightarrow> sel v = Some r \<Longrightarrow> um_find (mb_stores b) r \<noteq> None" and "\<And>s. f (f s) = f s"
  shows "um_find (mb_stores (update_all sel f es b)) r =
    (if r \<in> {r. \<exists>v \<in> snd ` set es. sel v = Some r} then map_option f (um_find (mb_stores b) r) else um_find (mb_stores b) r)"
  using assms(1)
proof (induction es arbitrary: b)
  case Nil
  then show ?case by (simp add: update_all_def)
next
  case (Cons e es)
  obtain h v where e: "e = (h, v)" by fastforce
  show ?case
  proof (cases "sel v")
    case None
    have "um_find (mb_stores (update_all sel f es b)) r =
      (if r \<in> {r. \<exists>v \<in> snd ` set es. sel v = Some r} then map_option f (um_find (mb_stores b) r)
       else um_find (mb_stores b) r)"
      using Cons.prems by (intro Cons.IH) auto
    then show ?thesis using None by (simp add: update_all_def e)
  next
    case (Some r')
    then obtain s where s: "um_find (mb_stores b) r' = Some s" using Cons.prems [of v r'] e by auto
    have IH: "um_find (mb_stores (update_all sel f es (with_store r' f b))) r =
      (if r \<in> {r. \<exists>v \<in> snd ` set es. sel v = Some r} then map_option f (um_find (mb_stores (with_store r' f b)) r)
       else um_find (mb_stores (with_store r' f b)) r)"
      using Cons.prems by (intro Cons.IH) auto
    show ?thesis
      using IH Some s assms(2) by (auto simp: update_all_def e store_at_def)
  qed
qed


definition writing_store :: "Transaction \<Rightarrow> StoreRef option" where
  "writing_store t = (if tx_write t \<and> \<not> tx_finished t then Some (tx_store t) else None)"

definition replacing_store :: "BlobOperation \<Rightarrow> StoreRef option" where
  "replacing_store op = (if bo_write op \<and> \<not> bo_finished op then Some (bo_store op) else None)"

lemma Stop_update_all:
  "Stop b =
     (let idle = \<lambda>s. s\<lparr>sd_writer_active := False\<rparr>;
          b = update_all writing_store idle (mb_transactions b) (b\<lparr>mb_running := False\<rparr>);
          b = update_all replacing_store idle (mb_blobs b) (b\<lparr>mb_transactions := []\<rparr>);
          b = update_all (\<lambda>m. Some (mo_store m)) (\<lambda>s. s\<lparr>sd_migration_handle_active := False\<rparr>) (mb_migrations b)
                (b\<lparr>mb_blobs := [], mb_cursors := []\<rparr>) in
      b\<lparr>mb_migrations := [], mb_store_handles := []\<rparr>)"
proof -
  have 1: "(\<lambda>(_ :: Handle, t) b. if tx_write t \<and> \<not> tx_finished t then release_writer (tx_store t) b else b) =
    (\<lambda>(_, t) b. case writing_store t of None \<Rightarrow> b | Some r \<Rightarrow> with_store r (\<lambda>s. s\<lparr>sd_writer_active := False\<rparr>) b)"
    by (auto simp: fun_eq_iff writing_store_def release_writer_def)
  have 2: "(\<lambda>(_ :: Handle, t) b. if bo_write t \<and> \<not> bo_finished t then release_writer (bo_store t) b else b) =
    (\<lambda>(_, t) b. case replacing_store t of None \<Rightarrow> b | Some r \<Rightarrow> with_store r (\<lambda>s. s\<lparr>sd_writer_active := False\<rparr>) b)"
    by (auto simp: fun_eq_iff replacing_store_def release_writer_def)
  show ?thesis
    unfolding Stop_def 1 2 release_migration_def update_all_def Let_def by simp
qed

lemma um_ok_entry: "um_ok m \<Longrightarrow> (\<exists>v \<in> snd ` set m. P v) \<longleftrightarrow> (\<exists>h v. um_find m h = Some v \<and> P v)"
  by (force simp: um_find_def)

lemma writers_empty:
  assumes "um_ok (mb_transactions b)" and "um_ok (mb_blobs b)"
  shows "writers (um_find (mb_transactions b)) (um_find (mb_blobs b)) r = {} \<longleftrightarrow>
    \<not> (\<exists>v \<in> snd ` set (mb_transactions b). writing_store v = Some r) \<and>
    \<not> (\<exists>v \<in> snd ` set (mb_blobs b). replacing_store v = Some r)"
  unfolding um_ok_entry [OF assms(1)] um_ok_entry [OF assms(2)]
  by (auto simp: writers_def tx_writer_def blob_writer_def writing_store_def replacing_store_def split: if_splits)

lemma refers_entry:
  assumes "refers b f m" and "um_ok m" and "v \<in> snd ` set m"
  shows "um_find (mb_stores b) (f v) \<noteq> None"
proof -
  obtain h where "um_find m h = Some v" using assms(2,3) by (force simp: um_find_def)
  then show ?thesis using assms(1) unfolding refers_def by blast
qed

lemma Stop_step:
  assumes "backend_wf b"
  shows "core_step (core b) (core (Stop b))"
proof -
  let ?idle = "\<lambda>s :: StoreData. s\<lparr>sd_writer_active := False\<rparr>" and ?off = "\<lambda>s :: StoreData. s\<lparr>sd_migration_handle_active := False\<rparr>"
  define b0 where "b0 = b\<lparr>mb_running := False\<rparr>"
  define b1 where "b1 = (update_all writing_store ?idle (mb_transactions b) b0)\<lparr>mb_transactions := []\<rparr>"
  define b2 where "b2 = (update_all replacing_store ?idle (mb_blobs b) b1)\<lparr>mb_blobs := [], mb_cursors := []\<rparr>"
  define b3 where "b3 = update_all (\<lambda>m. Some (mo_store m)) ?off (mb_migrations b) b2"
  let ?W1 = "{r. \<exists>v \<in> snd ` set (mb_transactions b). writing_store v = Some r}"
  let ?W2 = "{r. \<exists>v \<in> snd ` set (mb_blobs b). replacing_store v = Some r}"
  let ?M = "{r. \<exists>v \<in> snd ` set (mb_migrations b). Some (mo_store v) = Some r}"
  note wf = assms [unfolded backend_wf_def]
  have s1: "um_find (mb_stores b1) r = (if r \<in> ?W1 then map_option ?idle (um_find (mb_stores b) r) else um_find (mb_stores b) r)" for r
  proof -
    have "um_find (mb_stores b0) q \<noteq> None" if "v \<in> snd ` set (mb_transactions b)" "writing_store v = Some q" for v q
      using that refers_entry [of b tx_store "mb_transactions b" v] wf by (simp add: b0_def writing_store_def split: if_splits)
    from update_all_stores [of "mb_transactions b" writing_store b0 ?idle r, OF this] show ?thesis by (simp add: b1_def b0_def)
  qed
  then have d1: "um_find (mb_stores b1) r = None \<longleftrightarrow> um_find (mb_stores b) r = None" for r by simp
  have s2: "um_find (mb_stores b2) r = (if r \<in> ?W2 then map_option ?idle (um_find (mb_stores b1) r) else um_find (mb_stores b1) r)" for r
  proof -
    have "um_find (mb_stores b1) q \<noteq> None" if "v \<in> snd ` set (mb_blobs b)" "replacing_store v = Some q" for v q
      using that refers_entry [of b bo_store "mb_blobs b" v] wf by (simp add: d1 replacing_store_def split: if_splits)
    from update_all_stores [of "mb_blobs b" replacing_store b1 ?idle r, OF this] show ?thesis by (simp add: b2_def)
  qed
  then have d2: "um_find (mb_stores b2) r = None \<longleftrightarrow> um_find (mb_stores b) r = None" for r by (simp add: d1)
  have s3: "um_find (mb_stores b3) r = (if r \<in> ?M then map_option ?off (um_find (mb_stores b2) r) else um_find (mb_stores b2) r)" for r
  proof -
    have "um_find (mb_stores b2) q \<noteq> None" if "v \<in> snd ` set (mb_migrations b)" "Some (mo_store v) = Some q" for v q
      using that refers_entry [of b mo_store "mb_migrations b" v] wf by (simp add: d2)
    from update_all_stores [of "mb_migrations b" "\<lambda>m. Some (mo_store m)" b2 ?off r, OF this] show ?thesis by (simp add: b3_def)
  qed
  have st: "Stop b = b3\<lparr>mb_migrations := [], mb_store_handles := []\<rparr>"
    unfolding Stop_update_all Let_def b3_def b2_def b1_def b0_def by simp
  have "um_find (mb_stores b3) = (\<lambda>r. map_option (\<lambda>s. s\<lparr>sd_writer_active := sd_writer_active s \<and>
        writers (um_find (mb_transactions b)) (um_find (mb_blobs b)) r = {},
       sd_migration_handle_active := sd_migration_handle_active s \<and> r \<notin> ?M\<rparr>) (um_find (mb_stores b) r))"
  proof
    fix r
    have w: "writers (um_find (mb_transactions b)) (um_find (mb_blobs b)) r = {} \<longleftrightarrow> r \<notin> ?W1 \<and> r \<notin> ?W2"
      using writers_empty [of b r] wf by blast
    show "um_find (mb_stores b3) r = map_option (\<lambda>s. s\<lparr>sd_writer_active := sd_writer_active s \<and>
        writers (um_find (mb_transactions b)) (um_find (mb_blobs b)) r = {},
       sd_migration_handle_active := sd_migration_handle_active s \<and> r \<notin> ?M\<rparr>) (um_find (mb_stores b) r)"
      unfolding s3 s2 s1 w by (cases "um_find (mb_stores b) r"; cases "r \<in> ?W1"; cases "r \<in> ?W2"; cases "r \<in> ?M") simp_all
  qed
  moreover have "mb_transactions b3 = []" "mb_blobs b3 = []"
    by (simp_all add: b3_def b2_def b1_def b0_def)
  ultimately have "core (Stop b) = (\<lambda>r. map_option (\<lambda>s. s\<lparr>sd_writer_active := sd_writer_active s \<and>
        writers (um_find (mb_transactions b)) (um_find (mb_blobs b)) r = {},
       sd_migration_handle_active := sd_migration_handle_active s \<and> r \<notin> ?M\<rparr>) (um_find (mb_stores b) r),
       \<lambda>_. None, \<lambda>_. None)"
    by (simp add: core_def st fun_eq_iff)
  then show ?thesis
    using core_step.stop [of "um_find (mb_stores b)" "um_find (mb_transactions b)" "um_find (mb_blobs b)" ?M]
    by (simp add: core_def)
qed


section \<open>Preservation of well-formedness\<close>

named_theorems wf_intros \<open>updates that keep a backend well-formed\<close>

text \<open>No handle is issued twice as long as the 64-bit counter has not wrapped.\<close>

definition handles_left :: "MemoryBackend \<Rightarrow> bool" where
  "handles_left b \<longleftrightarrow> mb_next_handle b < mb_next_handle b + 1"

lemma wf_with_store [wf_intros]: "backend_wf b \<Longrightarrow> backend_wf (with_store r f b)"
  by (simp add: backend_wf_def refers_def) (auto simp: with_store_def)

lemma wf_SetError [wf_intros]: "backend_wf b \<Longrightarrow> backend_wf (SetError m b)"
  by (simp add: backend_wf_def refers_def)

lemma wf_simple [wf_intros]:
  "backend_wf b \<Longrightarrow> backend_wf (b\<lparr>mb_running := x\<rparr>)"
  "backend_wf b \<Longrightarrow> backend_wf (b\<lparr>mb_cursors := c\<rparr>)"
  "backend_wf b \<Longrightarrow> backend_wf (b\<lparr>mb_store_handles := um_erase h (mb_store_handles b)\<rparr>)"
  "backend_wf b \<Longrightarrow> backend_wf (b\<lparr>mb_migrations := um_erase h (mb_migrations b)\<rparr>)"
  "backend_wf b \<Longrightarrow> backend_wf (b\<lparr>mb_transactions := um_erase h (mb_transactions b)\<rparr>)"
  "backend_wf b \<Longrightarrow> backend_wf (b\<lparr>mb_blobs := um_erase h (mb_blobs b)\<rparr>)"
  by (simp_all add: backend_wf_def refers_def handle_fresh_def)

lemma wf_clear [wf_intros]:
  "backend_wf b \<Longrightarrow> backend_wf (b\<lparr>mb_transactions := []\<rparr>)"
  "backend_wf b \<Longrightarrow> backend_wf (b\<lparr>mb_blobs := []\<rparr>)"
  "backend_wf b \<Longrightarrow> backend_wf (b\<lparr>mb_migrations := []\<rparr>)"
  "backend_wf b \<Longrightarrow> backend_wf (b\<lparr>mb_store_handles := []\<rparr>)"
  by (simp_all add: backend_wf_def refers_def handle_fresh_def)

lemma fresh_next: "handle_fresh n m \<Longrightarrow> n < n + 1 \<Longrightarrow> handle_fresh (n + 1) m"
  unfolding handle_fresh_def by (meson order.strict_trans)

lemma fresh_emplace: "handle_fresh n m \<Longrightarrow> n < n + 1 \<Longrightarrow> handle_fresh (n + 1) (um_emplace n v m)"
  using fresh_next [of n m] by (auto simp: handle_fresh_def)

lemma refers_emplace: "refers b f m \<Longrightarrow> um_find (mb_stores b) (f v) \<noteq> None \<Longrightarrow> refers b f (um_emplace h v m)"
  by (auto simp: refers_def)

text \<open>A table entry under a new handle.\<close>

lemma wf_issue [wf_intros]:
  assumes "backend_wf b" and "handles_left b"
  shows "um_find (mb_stores b) (sh_store v) \<noteq> None \<Longrightarrow>
      backend_wf (b\<lparr>mb_next_handle := mb_next_handle b + 1,
        mb_store_handles := um_emplace (mb_next_handle b) v (mb_store_handles b)\<rparr>)"
    and "um_find (mb_stores b) (tx_store t) \<noteq> None \<Longrightarrow>
      backend_wf (b\<lparr>mb_next_handle := mb_next_handle b + 1,
        mb_transactions := um_emplace (mb_next_handle b) t (mb_transactions b)\<rparr>)"
    and "um_find (mb_stores b) (bo_store op) \<noteq> None \<Longrightarrow> blob_in_bounds op \<Longrightarrow>
      backend_wf (b\<lparr>mb_next_handle := mb_next_handle b + 1,
        mb_blobs := um_emplace (mb_next_handle b) op (mb_blobs b)\<rparr>)"
    and "um_find (mb_stores b) (mo_store m) \<noteq> None \<Longrightarrow>
      backend_wf (b\<lparr>mb_next_handle := mb_next_handle b + 1,
        mb_migrations := um_emplace (mb_next_handle b) m (mb_migrations b)\<rparr>)"
    and "backend_wf (b\<lparr>mb_next_handle := mb_next_handle b + 1, mb_cursors := c\<rparr>)"
  using assms by (auto simp: backend_wf_def handles_left_def refers_def fresh_next fresh_emplace split: if_splits)

lemma wf_set_transaction [wf_intros]:
  assumes "backend_wf b" and "um_find (mb_transactions b) h = Some t" and "tx_store t' = tx_store t"
  shows "backend_wf (set_transaction h t' b)"
  using assms wf_transaction [OF assms(1,2)]
  by (auto simp: backend_wf_def refers_def handle_fresh_def set_transaction_def)

lemma wf_set_blob [wf_intros]:
  assumes "backend_wf b" and "um_find (mb_blobs b) h = Some op" and "bo_store op' = bo_store op" and "blob_in_bounds op'"
  shows "backend_wf (set_blob h op' b)"
  using assms wf_blob [OF assms(1,2)]
  by (auto simp: backend_wf_def refers_def handle_fresh_def set_blob_def)

lemma wf_blob_in_bounds: "backend_wf b \<Longrightarrow> um_find (mb_blobs b) h = Some op \<Longrightarrow> blob_in_bounds op"
  by (simp add: backend_wf_def)

lemma wf_release [wf_intros]:
  "backend_wf b \<Longrightarrow> backend_wf (release_writer r b)" "backend_wf b \<Longrightarrow> backend_wf (release_migration r b)"
  "backend_wf b \<Longrightarrow> backend_wf (release_transaction t b)" "backend_wf b \<Longrightarrow> backend_wf (release_blob op b)"
  "backend_wf b \<Longrightarrow> backend_wf (reject r b)"
  by (simp_all add: release_writer_def release_migration_def release_transaction_def release_blob_def reject_def wf_with_store)

lemma wf_update_all [wf_intros]: "backend_wf b \<Longrightarrow> backend_wf (update_all sel f es b)"
  unfolding update_all_def by (induction es arbitrary: b) (auto split: option.splits simp: wf_with_store)

lemma handles_left_same [simp]:
  "handles_left (with_store r f b) = handles_left b" "handles_left (b\<lparr>mb_stores := x\<rparr>) = handles_left b"
  by (simp_all add: handles_left_def)

lemma wf_new_store: "backend_wf b \<Longrightarrow> backend_wf (b\<lparr>mb_stores := um_emplace r s (mb_stores b)\<rparr>)"
  by (auto simp: backend_wf_def refers_def)

lemma wf_issue_store_handle:
  assumes "backend_wf b" and "handles_left b" and "um_find (mb_stores b) r \<noteq> None"
  shows "backend_wf (snd (snd (issue_store_handle r a b)))"
  using wf_issue(1) [OF assms(1,2), of "\<lparr>sh_store = r, sh_access = a\<rparr>"] assms(3)
  by (simp add: issue_store_handle_def take_handle_def)

lemma OpenStore_wf:
  assumes "backend_wf b" and "handles_left b"
  shows "backend_wf (snd (snd (OpenStore d o' b)))"
proof -
  have n: "backend_wf (snd (snd (issue_store_handle r a (b\<lparr>mb_stores := um_emplace r s (mb_stores b)\<rparr>))))" for r a s
    using assms by (intro wf_issue_store_handle wf_new_store) auto
  have i: "backend_wf (snd (snd (issue_store_handle r a b)))" if "um_find (mb_stores b) r = Some s" for r a s
    using assms that by (intro wf_issue_store_handle) auto
  show ?thesis
    using assms n i unfolding OpenStore_def Let_def by (auto simp: wf_SetError split: option.splits)
qed

lemma BeginTransaction_wf:
  assumes "backend_wf b" and "handles_left b"
  shows "backend_wf (snd (snd (BeginTransaction h du w e o' b)))"
proof (cases "um_find (mb_store_handles b) h")
  case (Some sh)
  let ?b = "(if w then with_store (sh_store sh) (\<lambda>s. s\<lparr>sd_writer_active := True\<rparr>) b else b)"
  have ok: "backend_wf (?b\<lparr>mb_next_handle := mb_next_handle ?b + 1,
      mb_transactions := um_emplace (mb_next_handle ?b) t (mb_transactions ?b)\<rparr>)" if "tx_store t = sh_store sh" for t
    using assms that wf_store_handle [OF assms(1) Some] by (intro wf_issue(2)) (auto simp: wf_with_store)
  show ?thesis
    using assms Some ok by (cases w) (auto simp: BeginTransaction_def Let_def take_handle_def wf_SetError wf_with_store)
qed (simp add: BeginTransaction_def assms(1))

lemma Put_wf: "backend_wf b \<Longrightarrow> backend_wf (snd (Put h k v b))"
  by (auto simp: Put_def Let_def writing_Some wf_SetError split: option.splits intro!: wf_set_transaction)

lemma Erase_wf: "backend_wf b \<Longrightarrow> backend_wf (snd (snd (Erase h k o' b)))"
  by (auto simp: Erase_def Let_def writing_Some split: option.splits intro!: wf_set_transaction)

lemma Commit_wf: "backend_wf b \<Longrightarrow> backend_wf (snd (snd (Commit h o' b)))"
  by (auto simp: Commit_def Let_def writing_Some release_writer_def split: option.splits intro!: wf_set_transaction wf_with_store)

lemma Abort_wf: "backend_wf b \<Longrightarrow> backend_wf (snd (Abort h b))"
  by (auto simp: Abort_def split: option.splits intro!: wf_set_transaction wf_release)

lemma CloseTransaction_wf: "backend_wf b \<Longrightarrow> backend_wf (snd (CloseTransaction h b))"
  by (cases "um_find (mb_transactions b) h")
    (simp_all add: CloseTransaction_def Let_def wf_release
      wf_simple(5) [of "release_transaction t b" for t, simplified])

lemma OpenBlobRead_wf:
  assumes "backend_wf b" and "handles_left b"
  shows "backend_wf (snd (snd (OpenBlobRead h k o' b)))"
proof (cases "um_find (mb_store_handles b) h")
  case (Some sh)
  show ?thesis
    using assms Some wf_issue(3) [OF assms] wf_store_handle [OF assms(1) Some]
    by (auto simp: OpenBlobRead_def Let_def take_handle_def blob_in_bounds_def split: option.splits)
qed (simp add: OpenBlobRead_def assms(1))

lemma BeginBlobReplace_wf:
  assumes "backend_wf b" and "handles_left b"
  shows "backend_wf (snd (snd (BeginBlobReplace h k n du o' f b)))"
proof (cases "um_find (mb_store_handles b) h")
  case (Some sh)
  let ?b = "with_store (sh_store sh) (\<lambda>s. s\<lparr>sd_writer_active := True\<rparr>) b"
  have "unat n < 2 ^ 64" using unsigned_less [of n, where ?'a = nat] by simp
  then have ok: "backend_wf (?b\<lparr>mb_next_handle := mb_next_handle ?b + 1, mb_blobs := um_emplace (mb_next_handle ?b)
      \<lparr>bo_store = sh_store sh, bo_key = Copy k, bo_value = replicate (unat n) 0, bo_generation = g,
       bo_written = 0, bo_durability = du, bo_write = True, bo_finished = False\<rparr> (mb_blobs ?b)\<rparr>)" for g
    using assms wf_store_handle [OF assms(1) Some]
    by (intro wf_issue(3)) (auto simp: wf_with_store blob_in_bounds_def)
  show ?thesis
    using assms Some ok by (auto simp: BeginBlobReplace_def Let_def take_handle_def wf_release)
qed (simp add: BeginBlobReplace_def assms(1))

lemma WriteBlob_wf:
  assumes "backend_wf b"
  shows "backend_wf (snd (WriteBlob h w i b))"
proof (cases "replacing h b")
  case (Some op)
  then have op: "um_find (mb_blobs b) h = Some op" "blob_writer op (bo_store op)" by (simp_all add: replacing_Some)
  have bounds: "unat (bo_written op) \<le> length (bo_value op)" "length (bo_value op) < 2 ^ 64"
    using wf_blob_in_bounds [OF assms op(1)] op(2) by (simp_all add: blob_in_bounds_def blob_writer_def)
  have ok: "blob_in_bounds (op\<lparr>bo_value := memcpy_at (unat w) (Copy i) (bo_value op),
      bo_written := bo_written op + of_nat (view_size i)\<rparr>)"
    if "Valid i" "w = bo_written op" "\<not> view_size i > unat (of_nat (length (bo_value op)) - w)"
  proof -
    have le: "unat w + view_size i \<le> length (bo_value op)"
      using write_in_bounds [OF that(3)] bounds that(2) by simp
    then have "unat (bo_written op + of_nat (view_size i)) = unat w + view_size i"
      using bounds(2) that(2) by (simp add: unat_word_ariths unat_of_nat take_bit_nat_eq_self)
    then show ?thesis
      using le bounds(2) by (simp add: blob_in_bounds_def length_memcpy_at view_size_Copy [OF that(1)])
  qed
  show ?thesis
    using assms op ok by (auto simp: WriteBlob_def Some intro!: wf_set_blob)
qed (simp add: WriteBlob_def assms)

lemma blob_in_bounds_finished [simp]: "blob_in_bounds (op\<lparr>bo_finished := f\<rparr>) = blob_in_bounds op"
  by (simp add: blob_in_bounds_def)

lemma CommitBlob_wf: "backend_wf b \<Longrightarrow> backend_wf (snd (snd (CommitBlob h o' b)))"
  by (auto simp: CommitBlob_def Let_def replacing_Some release_writer_def wf_blob_in_bounds split: option.splits
      intro!: wf_set_blob wf_with_store)

lemma AbortBlob_wf: "backend_wf b \<Longrightarrow> backend_wf (snd (AbortBlob h b))"
  by (auto simp: AbortBlob_def wf_blob_in_bounds split: option.splits intro!: wf_set_blob wf_release)

lemma CloseBlob_wf: "backend_wf b \<Longrightarrow> backend_wf (snd (CloseBlob h b))"
  by (cases "um_find (mb_blobs b) h")
    (simp_all add: CloseBlob_def Let_def wf_release wf_simple(6) [of "release_blob t b" for t, simplified])

lemma cursors_wf:
  "backend_wf b \<Longrightarrow> handles_left b \<Longrightarrow> backend_wf (snd (snd (OpenCursor h p o' f b)))"
  "backend_wf b \<Longrightarrow> backend_wf (snd (snd (NextCursor h c b)))"
  "backend_wf b \<Longrightarrow> backend_wf (snd (CloseCursor h b))"
  by (auto simp: OpenCursor_def NextCursor_def CloseCursor_def Let_def take_handle_def wf_simple wf_issue(5)
      split: option.splits prod.splits)

lemma ResetStore_wf: "backend_wf b \<Longrightarrow> backend_wf (snd (snd (ResetStore h es du o' f b)))"
  by (auto simp: ResetStore_def Let_def wf_release wf_with_store split: option.splits)

lemma issue_migration_wf:
  assumes "backend_wf b" and "handles_left b" and "um_find (mb_stores b) r \<noteq> None"
  shows "backend_wf (snd (snd (snd (issue_migration r d x c b))))"
  using wf_issue(4) [of "with_store r (\<lambda>s. s\<lparr>sd_migration_handle_active := True\<rparr>) b" "\<lparr>mo_store = r, mo_durability = mg_durability d\<rparr>"] assms
  by (auto simp: issue_migration_def Let_def take_handle_def wf_with_store)

lemma BeginMigration_wf:
  assumes "backend_wf b" and "handles_left b"
  shows "backend_wf (snd (snd (snd (BeginMigration h d o' c b))))"
proof (cases "um_find (mb_store_handles b) h")
  case (Some sh)
  have "backend_wf (snd (snd (snd (issue_migration (sh_store sh) d' x c' b))))" for d' x c'
    using assms wf_store_handle [OF assms(1) Some] by (intro issue_migration_wf) auto
  moreover have "backend_wf (snd (snd (snd (issue_migration (sh_store sh) d' x c' (with_store (sh_store sh) g b)))))" for d' x c' g
    using assms by (intro issue_migration_wf) (auto simp: wf_with_store)
  ultimately show ?thesis
    using assms Some by (auto simp: BeginMigration_def Let_def split: option.splits)
qed (use assms in \<open>auto simp: BeginMigration_def split: option.splits\<close>)

lemma migration_wf:
  "backend_wf b \<Longrightarrow> backend_wf (snd (ApplyMigration h k t w f b))"
  "backend_wf b \<Longrightarrow> backend_wf (snd (snd (CommitMigration h o' b)))"
  "backend_wf b \<Longrightarrow> backend_wf (snd (AbortMigration h b))"
  "backend_wf b \<Longrightarrow> backend_wf (snd (snd (RollbackStore h du o' b)))"
  by (auto simp: ApplyMigration_def CommitMigration_def AbortMigration_def RollbackStore_def Let_def
      wf_with_store wf_release split: option.splits prod.splits)

lemma release_migration_other [simp]: "mb_migrations (release_migration r b) = mb_migrations b"
  by (simp add: release_migration_def)

lemma CloseMigration_wf: "backend_wf b \<Longrightarrow> backend_wf (snd (CloseMigration h b))"
  by (cases "um_find (mb_migrations b) h")
    (simp_all add: CloseMigration_def Let_def wf_release wf_simple(4) [of "release_migration r b" for r, simplified])

lemma Stop_wf: "backend_wf b \<Longrightarrow> backend_wf (Stop b)"
  unfolding Stop_update_all Let_def
  by (intro wf_clear(3,4) wf_update_all wf_clear(1) wf_simple)
    (simp add: wf_intros)

lemma perform_wf:
  assumes "backend_wf b" and "handles_left b"
  shows "backend_wf (perform c b)"
  using assms
  by (cases c) (simp_all add: Start_def CloseStore_def wf_simple Stop_wf OpenStore_wf BeginTransaction_wf Put_wf Erase_wf
      Commit_wf Abort_wf CloseTransaction_wf OpenBlobRead_wf BeginBlobReplace_wf WriteBlob_wf CommitBlob_wf AbortBlob_wf
      CloseBlob_wf cursors_wf ResetStore_wf BeginMigration_wf migration_wf CloseMigration_wf)

section \<open>Invariants of the abstract store\<close>

lemma writers_tx_upd [simp]:
  "writers (T(h \<mapsto> t)) B r = (if tx_writer t r then insert (Inl h) (writers T B r) else writers T B r - {Inl h})"
  "writers (T(h := None)) B r = writers T B r - {Inl h}"
  by (auto simp: writers_def split: if_splits)

lemma writers_blob_upd [simp]:
  "writers T (B(h \<mapsto> op)) r = (if blob_writer op r then insert (Inr h) (writers T B r) else writers T B r - {Inr h})"
  "writers T (B(h := None)) r = writers T B r - {Inr h}"
  by (auto simp: writers_def split: if_splits)

lemma writers_none [simp]: "writers (\<lambda>_. None) (\<lambda>_. None) r = {}"
  by (simp add: writers_def)

lemma Inl_writers [simp]: "Inl h \<in> writers T B r \<longleftrightarrow> (\<exists>t. T h = Some t \<and> tx_writer t r)"
  by (simp add: writers_def)

lemma Inr_writers [simp]: "Inr h \<in> writers T B r \<longleftrightarrow> (\<exists>op. B h = Some op \<and> blob_writer op r)"
  by (simp add: writers_def)

lemma tx_writer_simps [simp]:
  "tx_writer (t\<lparr>tx_values := vs\<rparr>) r = tx_writer t r" "\<not> tx_writer (t\<lparr>tx_finished := True\<rparr>) r"
  by (simp_all add: tx_writer_def)

lemma blob_writer_simps [simp]:
  "blob_writer (op\<lparr>bo_value := v, bo_written := n\<rparr>) r = blob_writer op r" "\<not> blob_writer (op\<lparr>bo_finished := True\<rparr>) r"
  by (simp_all add: blob_writer_def)

lemma tx_writer_store: "tx_writer t r \<Longrightarrow> tx_writer t q \<longleftrightarrow> q = r"
  by (auto simp: tx_writer_def)

lemma blob_writer_store: "blob_writer op r \<Longrightarrow> blob_writer op q \<longleftrightarrow> q = r"
  by (auto simp: blob_writer_def)

text \<open>References resolve, and a store is marked as having a writer exactly when it has one, and then
  only one.\<close>

fun core_refs :: "Core \<Rightarrow> bool" where
  "core_refs (S, T, B) \<longleftrightarrow>
     (\<forall>h t. T h = Some t \<longrightarrow> S (tx_store t) \<noteq> None) \<and> (\<forall>h op. B h = Some op \<longrightarrow> S (bo_store op) \<noteq> None)"

definition one_writer :: "StoreData \<Rightarrow> (Handle + Handle) set \<Rightarrow> bool" where
  "one_writer s W \<longleftrightarrow> (if sd_writer_active s then \<exists>w. W = {w} else W = {})"

fun single_writer :: "Core \<Rightarrow> bool" where
  "single_writer (S, T, B) \<longleftrightarrow> (\<forall>r s. S r = Some s \<longrightarrow> one_writer s (writers T B r))"

lemma one_writer_active: "one_writer s W \<Longrightarrow> w \<in> W \<Longrightarrow> W = {w}"
  by (auto simp: one_writer_def split: if_splits)

lemma same_data_fields: "same_data s s' \<Longrightarrow> sd_writer_active s' = sd_writer_active s \<and> sd_values s' = sd_values s \<and>
    sd_blobs s' = sd_blobs s \<and> sd_generation s' = sd_generation s \<and> sd_migration_id s' = sd_migration_id s \<and>
    sd_rollback_available s' = sd_rollback_available s \<and> sd_rollback_values s' = sd_rollback_values s \<and>
    sd_rollback_blobs s' = sd_rollback_blobs s \<and>
    sd_migration_source_generation s' = sd_migration_source_generation s \<and>
    sd_capacity s' = sd_capacity s \<and> sd_max_entries s' = sd_max_entries s"
  unfolding same_data_def by (cases s; cases s'; simp)

lemma active_simps [simp]:
  "sd_writer_active (committed f s) = False" "sd_writer_active (reset_store vs s) = sd_writer_active s"
  "sd_writer_active (start_migration d s) = sd_writer_active s" "sd_writer_active (migrated_store s) = sd_writer_active s"
  "sd_writer_active (rolled_back_store s) = sd_writer_active s" "sd_writer_active (new_store d') = False"
  by (simp_all add: committed_def reset_store_def start_migration_def migrated_store_def rolled_back_store_def
      new_store_def empty_store_def)

lemma one_writer_cong: "sd_writer_active s' = sd_writer_active s \<Longrightarrow> one_writer s' W = one_writer s W"
  by (simp add: one_writer_def)

lemma core_refs_step: "core_step c c' \<Longrightarrow> core_refs c \<Longrightarrow> core_refs c'"
  by (induction rule: core_step.induct) (auto simp: tx_writer_def blob_writer_def split: if_splits)

lemma no_writer_missing: "core_refs (S, T, B) \<Longrightarrow> S r = None \<Longrightarrow> writers T B r = {}"
  by (fastforce simp: writers_def tx_writer_def blob_writer_def)

text \<open>The writer set of a store after one of its writers has ended.\<close>

lemma one_writer_ends:
  assumes "one_writer s W" and "w \<in> W"
  shows "W - {w} = {}"
  using one_writer_active [OF assms] by simp

lemma single_writer_update:
  assumes "single_writer (S, T, B)" and "one_writer s' (writers T' B' r)"
    and "\<And>q. q \<noteq> r \<Longrightarrow> writers T' B' q = writers T B q"
  shows "single_writer (S(r \<mapsto> s'), T', B')"
  using assms by (auto split: if_splits)

lemma single_writer_keep:
  assumes "single_writer (S, T, B)" and "\<And>q. writers T' B' q = writers T B q"
  shows "single_writer (S, T', B')"
  using assms by auto

lemma single_writer_same:
  assumes "single_writer (S, T, B)" and "S r = Some s" and "sd_writer_active s' = sd_writer_active s"
  shows "single_writer (S(r \<mapsto> s'), T, B)"
  by (rule single_writer_update [OF assms(1)]) (use assms in \<open>auto simp: one_writer_cong [OF assms(3)]\<close>)

lemma writers_tx_same:
  assumes "T h = Some t" and "\<And>q. tx_writer t' q = tx_writer t q"
  shows "writers (T(h \<mapsto> t')) B q = writers T B q"
proof (rule set_eqI)
  fix w show "w \<in> writers (T(h \<mapsto> t')) B q \<longleftrightarrow> w \<in> writers T B q"
    using assms by (cases w) (simp_all del: writers_tx_upd)
qed

lemma writers_blob_same:
  assumes "B h = Some op" and "\<And>q. blob_writer op' q = blob_writer op q"
  shows "writers T (B(h \<mapsto> op')) q = writers T B q"
proof (rule set_eqI)
  fix w show "w \<in> writers T (B(h \<mapsto> op')) q \<longleftrightarrow> w \<in> writers T B q"
    using assms by (cases w) (simp_all del: writers_blob_upd)
qed

lemma single_writer_step:
  assumes "core_step c c'" and "core_refs c" and "single_writer c"
  shows "single_writer c'"
  using assms
proof (induction rule: core_step.induct)
  case (create S r T B d)
  then show ?case
    using no_writer_missing [OF create(2,1)] by (intro single_writer_update) (auto simp: one_writer_def)
next
  case (bookkeep S r s s' T B)
  then show ?case by (intro single_writer_same [of S T B r s]) (simp_all add: same_data_fields)
next
  case (begin_write S r s T h B du)
  then have "writers T B r = {}" by (auto simp: one_writer_def)
  then show ?case
    using begin_write by (intro single_writer_update [of S T B]) (auto simp: one_writer_def tx_writer_def)
next
  case (put T h t r S s k v B)
  show ?case by (rule single_writer_keep [OF put.prems(2)], rule writers_tx_same [of T h t]) (use put in simp_all)
next
  case (erase T h t r S B k)
  show ?case by (rule single_writer_keep [OF erase.prems(2)], rule writers_tx_same [of T h t]) (use erase in simp_all)
next
  case (commit T h t r S s B)
  then have "writers T B r - {Inl h} = {}" by (intro one_writer_ends [of s]) auto
  then show ?case
    using commit by (intro single_writer_update [of S T B]) (auto simp: one_writer_def tx_writer_store)
next
  case (release T h t r S s t' B)
  then have "writers T B r - {Inl h} = {}" by (intro one_writer_ends [of s]) auto
  then show ?case
    using release by (intro single_writer_update [of S T B]) (auto simp: one_writer_def tx_writer_store)
next
  case (begin_blob S r s B h op T)
  then have "writers T B r = {}" by (auto simp: one_writer_def)
  then show ?case
    using begin_blob by (intro single_writer_update [of S T B]) (auto simp: one_writer_def blob_writer_def)
next
  case (write_blob B h op r v S T n)
  show ?case by (rule single_writer_keep [OF write_blob.prems(2)], rule writers_blob_same [of B h op]) (use write_blob in simp_all)
next
  case (commit_blob B h op r S s T)
  then have "writers T B r - {Inr h} = {}" by (intro one_writer_ends [of s]) auto
  then show ?case
    using commit_blob by (intro single_writer_update [of S T B]) (auto simp: one_writer_def blob_writer_store)
next
  case (release_blob B h op r S s op' T)
  then have "writers T B r - {Inr h} = {}" by (intro one_writer_ends [of s]) auto
  then show ?case
    using release_blob by (intro single_writer_update [of S T B]) (auto simp: one_writer_def blob_writer_store)
next
  case (drop_tx T h t t' S B)
  have "Inl h \<notin> writers T B q" for q using drop_tx(1,2) by (auto simp: tx_writer_def)
  then have "writers (T(h := t')) B q = writers T B q" for q using drop_tx(3) by auto
  then show ?case by (rule single_writer_keep [OF drop_tx.prems(2)])
next
  case (drop_blob B h op op' S T)
  have "Inr h \<notin> writers T B q" for q using drop_blob(1,2) by (auto simp: blob_writer_def)
  then have "writers T (B(h := op')) q = writers T B q" for q using drop_blob(3) by auto
  then show ?case by (rule single_writer_keep [OF drop_blob.prems(2)])
next
  case (stop S T B M)
  have "one_writer s W \<Longrightarrow> sd_writer_active s \<Longrightarrow> W \<noteq> {}" for s W by (auto simp: one_writer_def)
  with stop show ?case by (auto simp: one_writer_def split: if_splits)
qed (auto simp: one_writer_def tx_writer_def blob_writer_def intro: single_writer_same split: if_splits)

section \<open>Sorted tables\<close>

definition store_sorted :: "StoreData \<Rightarrow> bool" where
  "store_sorted s \<longleftrightarrow> om_ok (sd_values s) \<and> om_ok (sd_blobs s) \<and> om_ok (sd_rollback_values s) \<and>
     om_ok (sd_rollback_blobs s) \<and> om_ok (sd_migration_values s)"

fun core_sorted :: "Core \<Rightarrow> bool" where
  "core_sorted (S, T, B) \<longleftrightarrow>
     (\<forall>r s. S r = Some s \<longrightarrow> store_sorted s) \<and> (\<forall>h t. T h = Some t \<longrightarrow> om_ok (tx_values t))"

lemma store_sorted_simps [simp]:
  "store_sorted (new_store d')" "store_sorted (s\<lparr>sd_writer_active := a\<rparr>) = store_sorted s"
  "store_sorted s \<Longrightarrow> om_ok vs \<Longrightarrow> store_sorted (reset_store vs s)"
  "store_sorted s \<Longrightarrow> store_sorted ((start_migration d s)\<lparr>sd_migration_handle_active := a\<rparr>)"
  "store_sorted s \<Longrightarrow> store_sorted (migrated_store s)" "store_sorted s \<Longrightarrow> store_sorted (rolled_back_store s)"
  "store_sorted s \<Longrightarrow> om_ok vs \<Longrightarrow> store_sorted (committed (\<lambda>s. s\<lparr>sd_values := vs\<rparr>) s)"
  "store_sorted s \<Longrightarrow> store_sorted (committed (\<lambda>s. s\<lparr>sd_blobs := om_set k v (sd_blobs s)\<rparr>) s)"
  "store_sorted (s\<lparr>sd_writer_active := a, sd_migration_handle_active := a'\<rparr>) = store_sorted s"
  by (simp_all add: store_sorted_def new_store_def empty_store_def reset_store_def start_migration_def migrated_store_def
      rolled_back_store_def committed_def)

lemma store_sorted_values: "store_sorted s \<Longrightarrow> om_ok (sd_values s)"
  by (simp add: store_sorted_def)

lemma core_sorted_step: "core_step c c' \<Longrightarrow> core_sorted c \<Longrightarrow> core_sorted c'"
proof (induction rule: core_step.induct)
  case (bookkeep S r s s' T B)
  then have "store_sorted s'" using same_data_fields [of s s'] by (auto simp: store_sorted_def)
  then show ?case using bookkeep by auto
qed (auto split: if_splits intro: store_sorted_values simp del: sorted_wrt_map)

section \<open>Quotas\<close>

definition bytes_of :: "Values \<Rightarrow> nat" where
  "bytes_of vs = sum_list (map (\<lambda>e. length (fst e) + length (snd e)) vs)"

lemma bytes_of_simps [simp]:
  "bytes_of [] = 0" "bytes_of (e # vs) = length (fst e) + length (snd e) + bytes_of vs"
  by (simp_all add: bytes_of_def)

lemma Size_fold: "fold (\<lambda>(key, value) total. total + (of_nat (length key) + of_nat (length value))) vs n = n + (of_nat (bytes_of vs) :: u64)"
  by (induction vs arbitrary: n) (auto simp: algebra_simps)

lemma Size_bytes_of: "Size vs = of_nat (bytes_of vs)"
  by (simp add: Size_def Size_fold)

lemma bytes_of_erase: "om_ok vs \<Longrightarrow> bytes_of (um_erase k vs) \<le> bytes_of vs"
  unfolding bytes_of_def by (rule om.sum_erase_le)

lemma length_erase: "om_ok vs \<Longrightarrow> length (um_erase k vs) \<le> length vs"
  by (rule om.length_erase_le)

lemma bytes_of_set: "bytes_of (om_set k v vs) \<le> length k + length v + bytes_of vs"
  by (induction k v vs rule: om_set.induct) auto

lemma same_length_set:
  assumes "length v = length v'"
  shows "bytes_of (om_set k v vs) = bytes_of (om_set k v' vs)" and "length (om_set k v vs) = length (om_set k v' vs)"
  using assms by (induction k v vs rule: om_set.induct) auto

lemma bytes_of_bounded:
  "list_all (entry_bounded s) vs \<Longrightarrow> bytes_of vs \<le> length vs * (unat (sd_max_key_size s) + unat (sd_max_value_size s))"
  by (induction vs) (auto simp: entry_bounded_def)

text \<open>The quota of a store, over the natural numbers.\<close>

definition within :: "StoreData \<Rightarrow> Values \<Rightarrow> Values \<Rightarrow> bool" where
  "within s vs others \<longleftrightarrow>
     length vs + length others \<le> unat (sd_max_entries s) \<and> bytes_of vs + bytes_of others \<le> unat (sd_capacity s)"

lemma within_commute: "within s vs others = within s others vs"
  by (simp add: within_def add.commute)

lemma not_exceeded_within:
  assumes "\<not> quota_exceeded vs others s" and "bytes_of vs + bytes_of others < 2 ^ 64"
  shows "within s vs others"
proof -
  have "Size vs + Size others = of_nat (bytes_of vs + bytes_of others)"
    by (simp add: Size_bytes_of)
  then have "unat (Size vs + Size others) = bytes_of vs + bytes_of others"
    using assms(2) by (simp only: unat_of_nat) (simp add: take_bit_nat_eq_self)
  then show ?thesis using assms(1) by (simp add: quota_exceeded_def within_def word_le_nat_alt not_less)
qed

text \<open>Limits for which the 64-bit sums of the quota check cannot wrap.\<close>

definition limits_sane :: "StoreData \<Rightarrow> bool" where
  "limits_sane s \<longleftrightarrow> unat (sd_capacity s) \<le> 2 ^ 62 \<and> unat (sd_max_blob_size s) \<le> 2 ^ 62 \<and>
     unat (sd_max_key_size s) + unat (sd_max_value_size s) \<le> 2 ^ 31"

definition quota_applies :: "StoreData \<Rightarrow> bool" where
  "quota_applies s \<longleftrightarrow> limits_sane s \<and> sd_recovery_state s \<in> {RS_CLEAN, RS_RESET}"

definition store_quota :: "StoreData \<Rightarrow> (Handle \<Rightarrow> Transaction option) \<Rightarrow> (Handle \<Rightarrow> BlobOperation option) \<Rightarrow> StoreRef \<Rightarrow> bool" where
  "store_quota s T B r \<longleftrightarrow>
     within s (sd_values s) (sd_blobs s) \<and>
     (\<forall>h t. T h = Some t \<longrightarrow> tx_writer t r \<longrightarrow> within s (tx_values t) (sd_blobs s)) \<and>
     (\<forall>h op. B h = Some op \<longrightarrow> blob_writer op r \<longrightarrow> within s (om_set (bo_key op) (bo_value op) (sd_blobs s)) (sd_values s))"

fun core_quota :: "Core \<Rightarrow> bool" where
  "core_quota (S, T, B) \<longleftrightarrow> (\<forall>r s. S r = Some s \<longrightarrow> quota_applies s \<longrightarrow> store_quota s T B r)"

lemma bounded_put:
  assumes "limits_sane s" and "within s vs others" and "length k \<le> unat (sd_max_key_size s)"
    and "length v \<le> unat (sd_max_value_size s)"
  shows "bytes_of (om_set k v vs) + bytes_of others < 2 ^ 64"
  using assms bytes_of_set [of k v vs] by (simp add: limits_sane_def within_def)

lemma bounded_blob:
  assumes "limits_sane s" and "within s vs others" and "length k \<le> unat (sd_max_key_size s)"
    and "length v \<le> unat (sd_max_blob_size s)"
  shows "bytes_of (om_set k v others) + bytes_of vs < 2 ^ 64"
  using assms bytes_of_set [of k v others] by (simp add: limits_sane_def within_def)

lemma bounded_reset:
  assumes "limits_sane s" and "list_all (entry_bounded s) vs" and "length vs \<le> unat (sd_max_entries s)"
  shows "bytes_of vs < 2 ^ 64"
proof -
  have "unat (sd_max_entries s) < 2 ^ 32" using unsigned_less [of "sd_max_entries s", where ?'a = nat] by simp
  then have "length vs * (unat (sd_max_key_size s) + unat (sd_max_value_size s)) \<le> (2 ^ 32 - 1) * 2 ^ 31"
    using assms(1,3) unfolding limits_sane_def by (intro mult_le_mono) auto
  then show ?thesis using bytes_of_bounded [OF assms(2)] by simp
qed

lemma quota_fields:
  "quota_applies (s\<lparr>sd_writer_active := a\<rparr>) = quota_applies s"
  "within (s\<lparr>sd_writer_active := a\<rparr>) = within s"
  "quota_applies (committed (\<lambda>s. s\<lparr>sd_values := vs\<rparr>) s) = quota_applies s"
  "quota_applies (committed (\<lambda>s. s\<lparr>sd_blobs := om_set k v (sd_blobs s)\<rparr>) s) = quota_applies s"
  "within (committed (\<lambda>s. s\<lparr>sd_values := vs\<rparr>) s) = within s"
  "within (committed (\<lambda>s. s\<lparr>sd_blobs := om_set k v (sd_blobs s)\<rparr>) s) = within s"
  "within (reset_store vs s) = within s"
  "quota_applies ((start_migration d s)\<lparr>sd_migration_handle_active := a\<rparr>) = quota_applies s"
  "within ((start_migration d s)\<lparr>sd_migration_handle_active := a\<rparr>) = within s"
  "\<not> quota_applies (migrated_store s)" "\<not> quota_applies (rolled_back_store s)"
  "limits_sane (reset_store vs s) = limits_sane s"
  "quota_applies (s\<lparr>sd_writer_active := a, sd_migration_handle_active := a'\<rparr>) = quota_applies s"
  "within (s\<lparr>sd_writer_active := a, sd_migration_handle_active := a'\<rparr>) = within s"
  by (simp_all add: quota_applies_def limits_sane_def within_def committed_def reset_store_def start_migration_def
      migrated_store_def rolled_back_store_def fun_eq_iff)

lemma quota_data:
  "sd_values (committed (\<lambda>s. s\<lparr>sd_values := vs\<rparr>) s) = vs" "sd_blobs (committed (\<lambda>s. s\<lparr>sd_values := vs\<rparr>) s) = sd_blobs s"
  "sd_values (committed (\<lambda>s. s\<lparr>sd_blobs := f (sd_blobs s)\<rparr>) s) = sd_values s"
  "sd_blobs (committed (\<lambda>s. s\<lparr>sd_blobs := f (sd_blobs s)\<rparr>) s) = f (sd_blobs s)"
  "sd_values (reset_store vs s) = vs" "sd_blobs (reset_store vs s) = []"
  "sd_values (start_migration d s) = sd_values s" "sd_blobs (start_migration d s) = sd_blobs s"
  by (simp_all add: committed_def reset_store_def start_migration_def)

lemma core_quota_update:
  assumes "core_quota (S, T, B)" and "quota_applies s' \<Longrightarrow> store_quota s' T' B' r"
    and "\<And>h t q. q \<noteq> r \<Longrightarrow> T' h = Some t \<Longrightarrow> tx_writer t q \<Longrightarrow> T h = Some t"
    and "\<And>h op q. q \<noteq> r \<Longrightarrow> B' h = Some op \<Longrightarrow> blob_writer op q \<Longrightarrow> B h = Some op"
  shows "core_quota (S(r \<mapsto> s'), T', B')"
proof -
  have "store_quota s T' B' q" if "q \<noteq> r" "S q = Some s" "quota_applies s" for q s
  proof -
    have "store_quota s T B q" using assms(1) that by simp
    then show ?thesis unfolding store_quota_def using assms(3,4) that(1) by blast
  qed
  then show ?thesis using assms(2) by simp
qed

lemma core_quota_tx:
  assumes "core_quota (S, T, B)" and "tx_writer t r"
    and "\<And>s. S r = Some s \<Longrightarrow> quota_applies s \<Longrightarrow> within s (tx_values t) (sd_blobs s)"
  shows "core_quota (S, T(h \<mapsto> t), B)"
proof -
  have "store_quota s (T(h \<mapsto> t)) B q" if q: "S q = Some s" "quota_applies s" for q s
  proof -
    have o: "store_quota s T B q" using assms(1) q by simp
    have "within s (tx_values t') (sd_blobs s)" if "(T(h \<mapsto> t)) h' = Some t'" "tx_writer t' q" for h' t'
    proof (cases "h' = h")
      case True
      then have "t' = t" "q = r" using that tx_writer_store [OF assms(2)] by simp_all
      then show ?thesis using assms(3) q by simp
    qed (use that o in \<open>auto simp: store_quota_def\<close>)
    then show ?thesis using o by (auto simp: store_quota_def)
  qed
  then show ?thesis by simp
qed

lemma core_quota_blob:
  assumes "core_quota (S, T, B)" and "blob_writer op r"
    and "\<And>s. S r = Some s \<Longrightarrow> quota_applies s \<Longrightarrow> within s (om_set (bo_key op) (bo_value op) (sd_blobs s)) (sd_values s)"
  shows "core_quota (S, T, B(h \<mapsto> op))"
proof -
  have "store_quota s T (B(h \<mapsto> op)) q" if q: "S q = Some s" "quota_applies s" for q s
  proof -
    have o: "store_quota s T B q" using assms(1) q by simp
    have "within s (om_set (bo_key op') (bo_value op') (sd_blobs s)) (sd_values s)"
      if "(B(h \<mapsto> op)) h' = Some op'" "blob_writer op' q" for h' op'
    proof (cases "h' = h")
      case True
      then have "op' = op" "q = r" using that blob_writer_store [OF assms(2)] by simp_all
      then show ?thesis using assms(3) q by simp
    qed (use that o in \<open>auto simp: store_quota_def\<close>)
    then show ?thesis using o by (auto simp: store_quota_def)
  qed
  then show ?thesis by simp
qed

lemma core_quotaD:
  assumes "core_quota (S, T, B)" and "S q = Some s" and "quota_applies s"
  shows "within s (sd_values s) (sd_blobs s)"
    and "T h = Some t \<Longrightarrow> tx_writer t q \<Longrightarrow> within s (tx_values t) (sd_blobs s)"
    and "B h = Some op \<Longrightarrow> blob_writer op q \<Longrightarrow> within s (om_set (bo_key op) (bo_value op) (sd_blobs s)) (sd_values s)"
  using assms by (auto simp: store_quota_def)

lemma no_writers:
  assumes "writers T B r = {}"
  shows "T h = Some t \<Longrightarrow> \<not> tx_writer t r" and "B h = Some op \<Longrightarrow> \<not> blob_writer op r"
  using assms by (auto simp: writers_def)

lemma idle_no_writers: "single_writer (S, T, B) \<Longrightarrow> S r = Some s \<Longrightarrow> \<not> sd_writer_active s \<Longrightarrow> writers T B r = {}"
  by (auto simp: one_writer_def)

text \<open>A store without writers has only its own content to keep within the quota.\<close>

lemma store_quota_idle:
  assumes "writers T B r = {}" and "within s (sd_values s) (sd_blobs s)"
  shows "store_quota s T B r"
  using assms no_writers [OF assms(1)] by (auto simp: store_quota_def)

lemma sole_writer:
  assumes "single_writer (S, T, B)" and "S r = Some s"
  shows "T h = Some t \<Longrightarrow> tx_writer t r \<Longrightarrow> writers T B r = {Inl h}"
    and "B h = Some op \<Longrightarrow> blob_writer op r \<Longrightarrow> writers T B r = {Inr h}"
proof -
  have o: "one_writer s (writers T B r)" using assms by simp
  show "writers T B r = {Inl h}" if "T h = Some t" "tx_writer t r"
    using one_writer_active [OF o, of "Inl h"] that by simp
  show "writers T B r = {Inr h}" if "B h = Some op" "blob_writer op r"
    using one_writer_active [OF o, of "Inr h"] that by simp
qed

lemma core_quota_end_tx:
  assumes "core_quota (S, T, B)" and "t' \<in> {None, Some (t\<lparr>tx_finished := True\<rparr>)}" and "writers (T(h := t')) B r = {}"
    and "quota_applies s' \<Longrightarrow> within s' (sd_values s') (sd_blobs s')"
  shows "core_quota (S(r \<mapsto> s'), T(h := t'), B)"
  by (rule core_quota_update [OF assms(1)]) (use assms(2-4) in \<open>auto intro: store_quota_idle split: if_splits\<close>)

lemma core_quota_end_blob:
  assumes "core_quota (S, T, B)" and "op' \<in> {None, Some (op\<lparr>bo_finished := True\<rparr>)}" and "writers T (B(h := op')) r = {}"
    and "quota_applies s' \<Longrightarrow> within s' (sd_values s') (sd_blobs s')"
  shows "core_quota (S(r \<mapsto> s'), T, B(h := op'))"
  by (rule core_quota_update [OF assms(1)]) (use assms(2-4) in \<open>auto intro: store_quota_idle split: if_splits\<close>)

lemma core_quota_step:
  assumes "core_step c c'" and "core_refs c" and "single_writer c" and "core_sorted c" and "core_quota c"
  shows "core_quota c'"
  using assms
proof (induction rule: core_step.induct)
  case (create S r T B d)
  have "within (new_store d) (sd_values (new_store d)) (sd_blobs (new_store d))"
    by (simp add: within_def new_store_def empty_store_def)
  then show ?case
    using create no_writer_missing [OF create(2,1)] by (intro core_quota_update [of S T B]) (auto intro: store_quota_idle)
next
  case (bookkeep S r s s' T B)
  have f: "sd_values s' = sd_values s" "sd_blobs s' = sd_blobs s" "within s' = within s" "quota_applies s' = quota_applies s"
    using bookkeep(2) unfolding same_data_def by (cases s; cases s'; simp add: within_def quota_applies_def limits_sane_def fun_eq_iff)+
  show ?case
    using bookkeep by (intro core_quota_update [of S T B]) (auto simp: store_quota_def f)
next
  case (begin_write S r s T h B du)
  have w: "writers T B r = {}" using idle_no_writers [OF begin_write.prems(2) begin_write(1,3)] .
  show ?case
    using begin_write no_writers [OF w]
    by (intro core_quota_update [of S T B]) (auto simp: store_quota_def quota_fields tx_writer_def split: if_splits)
next
  case (put T h t r S s k v B)
  have new: "within s (om_set k v (tx_values t)) (sd_blobs s)" if q: "quota_applies s"
  proof -
    have w: "within s (tx_values t) (sd_blobs s)" using core_quotaD(2) [OF put.prems(4) put(3) q put(1,2)] .
    have "limits_sane s" using q by (simp add: quota_applies_def)
    from not_exceeded_within [OF put(6) bounded_put [OF this w put(4,5)]] show ?thesis .
  qed
  show ?case
    by (rule core_quota_tx [OF put.prems(4), of _ r]) (use put(2,3) new in simp_all)
next
  case (erase T h t r S B k)
  have new: "within s (um_erase k (tx_values t)) (sd_blobs s)" if q: "quota_applies s" and s: "S r = Some s" for s
  proof -
    have "within s (tx_values t) (sd_blobs s)" using core_quotaD(2) [OF erase.prems(4) s q erase(1,2)] .
    moreover have "om_ok (tx_values t)" using erase by auto
    ultimately show ?thesis
      using bytes_of_erase [of "tx_values t" k] length_erase [of "tx_values t" k] by (simp add: within_def)
  qed
  show ?case
    by (rule core_quota_tx [OF erase.prems(4), of _ r]) (use erase(2) new in simp_all)
next
  case (commit T h t r S s B)
  have w: "writers T B r = {Inl h}" using sole_writer(1) [OF commit.prems(2) commit(3,1,2)] .
  show ?case
    by (rule core_quota_end_tx [OF commit.prems(4), of _ t])
      (use w core_quotaD(2) [OF commit.prems(4) commit(3) _ commit(1,2)] in \<open>simp_all add: quota_fields quota_data\<close>)
next
  case (release T h t r S s t' B)
  have w: "writers T B r = {Inl h}" using sole_writer(1) [OF release.prems(2) release(3,1,2)] .
  have "writers (T(h := t')) B r = writers T B r - {Inl h}" using release(4) by (elim insertE emptyE) simp_all
  then have w': "writers (T(h := t')) B r = {}" unfolding w by simp
  show ?case
    by (rule core_quota_end_tx [OF release.prems(4) release(4) w'])
      (use core_quotaD(1) [OF release.prems(4) release(3)] in \<open>simp_all add: quota_fields\<close>)
next
  case (begin_blob S r s B h op T)
  have w: "writers T B r = {}" using idle_no_writers [OF begin_blob.prems(2) begin_blob(1,3)] .
  have new: "within s (om_set (bo_key op) (bo_value op) (sd_blobs s)) (sd_values s)" if q: "quota_applies s"
  proof -
    have w: "within s (sd_values s) (sd_blobs s)" using core_quotaD(1) [OF begin_blob.prems(4) begin_blob(1) q] .
    have "limits_sane s" using q by (simp add: quota_applies_def)
    from not_exceeded_within [OF begin_blob(11) bounded_blob [OF this w begin_blob(9,10)]] show ?thesis .
  qed
  show ?case
    using begin_blob new no_writers [OF w]
    by (intro core_quota_update [of S T B]) (auto simp: store_quota_def quota_fields blob_writer_def split: if_splits)
next
  case (write_blob B h op r v S T n)
  have "within s (om_set (bo_key op) v (sd_blobs s)) (sd_values s)" if q: "quota_applies s" and s: "S r = Some s" for s
  proof -
    have "within s (om_set (bo_key op) (bo_value op) (sd_blobs s)) (sd_values s)"
      using core_quotaD(3) [OF write_blob.prems(4) s q write_blob(1,2)] .
    then show ?thesis using same_length_set [OF write_blob(3), of "bo_key op" "sd_blobs s"] by (simp add: within_def)
  qed
  then show ?case
    by (intro core_quota_blob [OF write_blob.prems(4), of _ r]) (use write_blob(2) in simp_all)
next
  case (commit_blob B h op r S s T)
  have w: "writers T B r = {Inr h}" using sole_writer(2) [OF commit_blob.prems(2) commit_blob(3,1,2)] .
  have q: "within s (sd_values s) (om_set (bo_key op) (bo_value op) (sd_blobs s))" if "quota_applies s"
    using core_quotaD(3) [OF commit_blob.prems(4) commit_blob(3) that commit_blob(1,2)] by (simp add: within_commute)
  show ?case
    by (rule core_quota_end_blob [OF commit_blob.prems(4), of _ op])
      (use w q in \<open>simp_all add: quota_fields quota_data\<close>)
next
  case (release_blob B h op r S s op' T)
  have w: "writers T B r = {Inr h}" using sole_writer(2) [OF release_blob.prems(2) release_blob(3,1,2)] .
  have "writers T (B(h := op')) r = writers T B r - {Inr h}" using release_blob(4) by (elim insertE emptyE) simp_all
  then have w': "writers T (B(h := op')) r = {}" unfolding w by simp
  show ?case
    by (rule core_quota_end_blob [OF release_blob.prems(4) release_blob(4) w'])
      (use core_quotaD(1) [OF release_blob.prems(4) release_blob(3)] in \<open>simp_all add: quota_fields\<close>)
next
  case (reset S r s vs T B)
  have w: "writers T B r = {}" using idle_no_writers [OF reset.prems(2) reset(1,2)] .
  have "within s vs []" if "limits_sane s"
    using bounded_reset [OF that reset(5)] reset(6)
    by (intro not_exceeded_within [OF reset(6)]) (simp add: quota_exceeded_def)
  then show ?case
    using reset by (intro core_quota_update [of S T B] store_quota_idle [OF w])
      (auto simp: quota_applies_def quota_fields quota_data)
next
  case (begin_migration S r s T B d a)
  show ?case
    using begin_migration by (intro core_quota_update [of S T B]) (auto simp: store_quota_def quota_fields quota_data)
next
  case (migrate S r s T B)
  then show ?case by (intro core_quota_update [of S T B]) (auto simp: quota_fields)
next
  case (rollback S r s T B)
  then show ?case by (intro core_quota_update [of S T B]) (auto simp: quota_fields)
next
  case (stop S T B M)
  then show ?case by (auto simp: store_quota_def quota_fields split: if_splits)
qed (auto simp: store_quota_def tx_writer_def blob_writer_def split: if_splits)

section \<open>Migrations exclude writers\<close>

fun migration_exclusive :: "Core \<Rightarrow> bool" where
  "migration_exclusive (S, T, B) \<longleftrightarrow>
     (\<forall>r s. S r = Some s \<longrightarrow> sd_migration_id s \<noteq> [] \<longrightarrow>
        \<not> sd_writer_active s \<and> (sd_rollback_available s \<longrightarrow> sd_generation s = sd_migration_source_generation s))"

lemma migration_fields [simp]:
  "sd_migration_id (new_store d') = []" "sd_migration_id (committed (\<lambda>s. s\<lparr>sd_values := vs\<rparr>) s) = sd_migration_id s"
  "sd_migration_id (committed (\<lambda>s. s\<lparr>sd_blobs := g s\<rparr>) s) = sd_migration_id s"
  "sd_migration_id (reset_store vs s) = sd_migration_id s" "sd_migration_id (migrated_store s) = []"
  "sd_migration_id (rolled_back_store s) = sd_migration_id s" "sd_rollback_available (rolled_back_store s) = False"
  "sd_generation (rolled_back_store s) = sd_generation s + 1"
  "sd_migration_source_generation (rolled_back_store s) = sd_migration_source_generation s"
  "sd_generation (start_migration d s) = sd_generation s"
  "sd_migration_source_generation (start_migration d s) = sd_generation s"
  by (simp_all add: new_store_def empty_store_def committed_def reset_store_def migrated_store_def rolled_back_store_def
      start_migration_def)

lemma migration_exclusive_step:
  assumes "core_step c c'" and "single_writer c" and "migration_exclusive c"
  shows "migration_exclusive c'"
  using assms
proof (induction rule: core_step.induct)
  case (bookkeep S r s s' T B)
  then show ?case using same_data_fields [OF bookkeep(2)] by auto
next
  case (commit T h t r S s B)
  have "sd_writer_active s" using sole_writer(1) [OF commit.prems(1) commit(3,1,2)] idle_no_writers [OF commit.prems(1) commit(3)]
    by (metis insert_not_empty)
  then have "sd_migration_id s = []" using commit by auto
  then show ?case using commit by simp
next
  case (commit_blob B h op r S s T)
  have "sd_writer_active s" using sole_writer(2) [OF commit_blob.prems(1) commit_blob(3,1,2)] idle_no_writers [OF commit_blob.prems(1) commit_blob(3)]
    by (metis insert_not_empty)
  then have "sd_migration_id s = []" using commit_blob by auto
  then show ?case using commit_blob by simp
qed auto

section \<open>Reachable backends\<close>

definition backend_inv :: "MemoryBackend \<Rightarrow> bool" where
  "backend_inv b \<longleftrightarrow> backend_wf b \<and> single_writer (core b) \<and> core_sorted (core b) \<and> core_quota (core b) \<and>
     migration_exclusive (core b)"

lemma inv_wf: "backend_inv b \<Longrightarrow> backend_wf b"
  by (simp add: backend_inv_def)

lemma wf_core_refs: "backend_wf b \<Longrightarrow> core_refs (core b)"
  using wf_transaction wf_blob by (fastforce simp: core_def)

lemma perform_step:
  assumes "backend_inv b"
  shows "core_step (core b) (core (perform c b))"
proof -
  have wf: "backend_wf b" using assms by (rule inv_wf)
  have m: "om_ok (sd_migration_values s)" if "um_find (mb_stores b) r = Some s" for r s
    using assms that by (auto simp: backend_inv_def core_def store_sorted_def)
  have skip: "core (b\<lparr>mb_running := x\<rparr>) = core b" "core (b\<lparr>mb_store_handles := y\<rparr>) = core b" for x y
    by (simp_all add: core_def)
  show ?thesis
    using wf m
    by (cases c) (simp_all add: Start_def CloseStore_def skip core_step_skip Stop_step OpenStore_step BeginTransaction_step
        Put_step Erase_step Commit_step Abort_step CloseTransaction_step OpenBlobRead_step BeginBlobReplace_step
        WriteBlob_step CommitBlob_step AbortBlob_step CloseBlob_step cursor_steps ResetStore_step BeginMigration_step
        ApplyMigration_step CommitMigration_step AbortMigration_step CloseMigration_step RollbackStore_step)
qed

lemma perform_inv:
  assumes "backend_inv b" and "handles_left b"
  shows "backend_inv (perform c b)"
  using assms perform_step [OF assms(1), of c] perform_wf [of b c] wf_core_refs [of b]
  unfolding backend_inv_def
  by (auto intro: single_writer_step core_sorted_step core_quota_step migration_exclusive_step)

text \<open>What the backend can be led to by calls, as long as its handle counter has not wrapped.\<close>

inductive backend_runs :: "MemoryBackend \<Rightarrow> MemoryBackend \<Rightarrow> bool" where
  finished: "backend_runs b b"
| called: "backend_runs b b' \<Longrightarrow> handles_left b' \<Longrightarrow> backend_runs b (perform c b')"

definition backend_reachable :: "MemoryBackend \<Rightarrow> bool" where
  "backend_reachable b \<longleftrightarrow> (\<exists>ms mt b0. MemoryBackend_Create True ms mt True = (ST_OK, Some b0) \<and> backend_runs b0 b)"

inductive_cases backend_runsE: "backend_runs b b'"

lemma runs_inv: "backend_runs b b' \<Longrightarrow> backend_inv b \<Longrightarrow> backend_inv b'"
  by (induction rule: backend_runs.induct) (simp_all add: perform_inv)

lemma create_inv: "MemoryBackend_Create True ms mt True = (ST_OK, Some b) \<Longrightarrow> backend_inv b"
  by (auto simp: MemoryBackend_Create_def backend_inv_def backend_wf_def refers_def handle_fresh_def core_def
      split: if_splits)

lemma backend_reachable_inv: "backend_reachable b \<Longrightarrow> backend_inv b"
  unfolding backend_reachable_def using create_inv runs_inv by blast

section \<open>Properties\<close>


text \<open>C8: a store has at most one writer. In every reachable state the number of unfinished write
  transactions and blob replacements on a store is one if its \<open>writer_active\<close> flag is set and zero otherwise.\<close>

theorem at_most_one_writer:
  assumes "backend_reachable b" and "um_find (mb_stores b) r = Some s"
  shows "card (writers (um_find (mb_transactions b)) (um_find (mb_blobs b)) r) = (if sd_writer_active s then 1 else 0)"
proof -
  have "one_writer s (writers (um_find (mb_transactions b)) (um_find (mb_blobs b)) r)"
    using backend_reachable_inv [OF assms(1)] assms(2) by (simp add: backend_inv_def core_def)
  then show ?thesis by (auto simp: one_writer_def split: if_splits)
qed


lemma core_step_snapshot:
  assumes "core_step c c'" and "fst (snd c) h = Some t" and "\<not> tx_write t"
  shows "fst (snd c') h \<in> {None, Some t, Some (t\<lparr>tx_finished := True\<rparr>)}"
  using assms by (induction rule: core_step.induct) (auto simp: tx_writer_def)

text \<open>C34: snapshot isolation. Whatever call is made, an open read transaction keeps the values it was
  begun with until it is finished or closed.\<close>

theorem snapshot_isolation:
  assumes "backend_reachable b" and "um_find (mb_transactions b) h = Some t" and "\<not> tx_write t"
  shows "um_find (mb_transactions (perform c b)) h \<in> {None, Some t, Some (t\<lparr>tx_finished := True\<rparr>)}"
  using core_step_snapshot [OF perform_step [OF backend_reachable_inv [OF assms(1)]], of h t c] assms(2,3)
  by (simp add: core_def)

text \<open>A sequence of calls that does not exhaust the handles.\<close>

fun handles_suffice :: "Call list \<Rightarrow> MemoryBackend \<Rightarrow> bool" where
  "handles_suffice [] b = True"
| "handles_suffice (c # cs) b = (handles_left b \<and> handles_suffice cs (perform c b))"

lemma runs_perform_all:
  assumes "backend_runs b0 b" and "handles_suffice cs b"
  shows "backend_runs b0 (perform_all cs b)"
  using assms
  by (induction cs arbitrary: b) (auto simp: perform_all_def intro: backend_runs.called)

section \<open>Examples\<close>

definition example_descriptor :: StoreDescriptor where
  "example_descriptor = \<lparr>de_logical_name = Some ''state'', de_access = AC_READ_WRITE,
     de_minimum_durability = DU_BUFFERED, de_capacity_bytes = 1000, de_max_entries = 2, de_max_key_size = 16,
     de_max_value_size = 64, de_max_blob_size = 64, de_schema_id = Some ''s'', de_schema_version = 1\<rparr>"

definition example_migration :: "u64 \<Rightarrow> MigrationDescriptor" where
  "example_migration v = \<lparr>mg_migration_id = Some ''m'', mg_source_schema_id = Some ''s'', mg_source_schema_version = v,
     mg_target_schema_id = Some ''s'', mg_target_schema_version = v + 1, mg_durability = DU_BUFFERED\<rparr>"

definition fresh_backend :: MemoryBackend where
  "fresh_backend = \<lparr>mb_stores = [], mb_store_handles = [], mb_transactions = [], mb_blobs = [],
     mb_cursors = [], mb_migrations = [], mb_next_handle = 1, mb_max_stores = 4,
     mb_max_transactions = 4, mb_running = False, mb_error = []\<rparr>"

text \<open>A store with one value, committed through handle 2, and a read transaction on it, handle 3.\<close>

definition reading_calls :: "Call list" where
  "reading_calls = [C_start, C_open_store (Some example_descriptor) True, C_begin 1 DU_BUFFERED True None True,
     C_put 2 (View [1]) (View [10, 11]), C_commit 2 True, C_begin 1 DU_BUFFERED False None True]"

definition reading_backend :: MemoryBackend where
  "reading_backend = perform_all reading_calls fresh_backend"

text \<open>A blob, then a migration that writes two values: three entries in a store for two.\<close>

definition no_checkpoint :: MutableBytes where
  "no_checkpoint = \<lparr>mu_data = None, mu_size = 0\<rparr>"

definition migrating_calls :: "Call list" where
  "migrating_calls = [C_start, C_open_store (Some example_descriptor) True,
     C_replace_blob 1 (View [7]) 1 DU_BUFFERED True True, C_write_blob 2 0 (View [9]), C_commit_blob 2 True,
     C_begin_migration 1 (Some (example_migration 1)) True (Some no_checkpoint),
     C_apply_migration 3 (View [1]) (Some (View [1], View [1])) 1 True,
     C_apply_migration 3 (View [2]) (Some (View [2], View [2])) 1 True, C_commit_migration 3 True]"

definition migrated_backend :: MemoryBackend where
  "migrated_backend = perform_all migrating_calls fresh_backend"

lemma fresh_created: "MemoryBackend_Create True 4 4 True = (ST_OK, Some fresh_backend)"
  by (simp add: MemoryBackend_Create_def fresh_backend_def)

lemma example_reachable: "handles_suffice cs fresh_backend \<Longrightarrow> backend_reachable (perform_all cs fresh_backend)"
  unfolding backend_reachable_def using fresh_created runs_perform_all [OF backend_runs.finished] by blast

lemma reading_reachable: "backend_reachable reading_backend"
  unfolding reading_backend_def by (rule example_reachable) code_simp

lemma migrated_reachable: "backend_reachable migrated_backend"
  unfolding migrated_backend_def by (rule example_reachable) code_simp


lemma reading_store:
  "um_find (mb_stores reading_backend) ''state'' \<noteq> None" "\<not> sd_writer_active (store_at reading_backend ''state'')"
  "sd_recovery_state (store_at reading_backend ''state'') = RS_CLEAN"
  "length (sd_values (store_at reading_backend ''state'')) = 1"
  "sd_capacity (store_at reading_backend ''state'') = 1000" "sd_max_blob_size (store_at reading_backend ''state'') = 64"
  "sd_max_key_size (store_at reading_backend ''state'') = 16" "sd_max_value_size (store_at reading_backend ''state'') = 64"
  by code_simp+

lemma reading_store_Some: "um_find (mb_stores reading_backend) ''state'' = Some (store_at reading_backend ''state'')"
  using reading_store by (auto simp: store_at_def)

theorem at_most_one_writer_witness:
  "card (writers (um_find (mb_transactions reading_backend)) (um_find (mb_blobs reading_backend)) ''state'') = 0"
  using at_most_one_writer [OF reading_reachable reading_store_Some] reading_store(2) by simp


definition reading_transaction :: Transaction where
  "reading_transaction = \<lparr>tx_store = ''state'', tx_values = [([1], [10, 11])], tx_base_generation = 1,
     tx_durability = DU_BUFFERED, tx_write = False, tx_finished = False\<rparr>"

lemma reading_open: "um_find (mb_transactions reading_backend) 3 = Some reading_transaction"
  unfolding reading_transaction_def by code_simp

theorem snapshot_isolation_witness:
  "um_find (mb_transactions (perform (C_reset_store 1 (Some []) DU_BUFFERED True True) reading_backend)) 3
     \<in> {None, Some reading_transaction, Some (reading_transaction\<lparr>tx_finished := True\<rparr>)}"
  by (rule snapshot_isolation [OF reading_reachable reading_open]) (simp add: reading_transaction_def)

text \<open>A migration is checked against the quota without the blobs that the store keeps, so a committed
  migration can leave a store with more entries than its limit: here three entries in a store for two.\<close>

theorem migration_exceeds_quota:
  "fst (CommitMigration 3 True (perform_all (butlast migrating_calls) fresh_backend)) = ST_OK
   \<and> length (sd_values (store_at migrated_backend ''state'')) + length (sd_blobs (store_at migrated_backend ''state''))
       > unat (sd_max_entries (store_at migrated_backend ''state''))"
  unfolding migrated_backend_def by code_simp

section \<open>Rollback during a migration\<close>

definition frozen :: "StoreData \<Rightarrow> bool" where
  "frozen s \<longleftrightarrow> sd_migration_id s \<noteq> [] \<and> sd_generation s \<noteq> sd_migration_source_generation s \<and>
     \<not> sd_rollback_available s \<and> \<not> sd_writer_active s"

definition same_content :: "StoreData \<Rightarrow> StoreData \<Rightarrow> bool" where
  "same_content s s' \<longleftrightarrow> sd_values s' = sd_values s \<and> sd_blobs s' = sd_blobs s \<and> sd_generation s' = sd_generation s"

lemma frozen_step:
  assumes "core_step c c'" and "single_writer c" and "fst c r = Some s" and "frozen s"
  shows "\<exists>s'. fst c' r = Some s' \<and> frozen s' \<and> same_content s s'"
  using assms
proof (induction rule: core_step.induct)
  case (bookkeep S q s1 s' T B)
  show ?case
  proof (cases "q = r")
    case True
    then have "s1 = s" using bookkeep by simp
    then have "frozen s' \<and> same_content s s'"
      using bookkeep same_data_fields [OF bookkeep(2)] by (simp add: frozen_def same_content_def)
    then show ?thesis using True by simp
  qed (use bookkeep in \<open>simp add: same_content_def\<close>)
next
  case (commit T h t q S s1 B)
  have "q \<noteq> r"
    using sole_writer(1) [OF commit.prems(1) commit(3,1,2)] idle_no_writers [OF commit.prems(1) commit(3)] commit
    by (auto simp: frozen_def)
  then show ?case using commit by (simp add: same_content_def)
next
  case (commit_blob B h op q S s1 T)
  have "q \<noteq> r"
    using sole_writer(2) [OF commit_blob.prems(1) commit_blob(3,1,2)] idle_no_writers [OF commit_blob.prems(1) commit_blob(3)]
      commit_blob by (auto simp: frozen_def)
  then show ?case using commit_blob by (simp add: same_content_def)
next
  case (release T h t q S s1 t' B)
  then show ?case by (auto simp: frozen_def same_content_def)
next
  case (release_blob B h op q S s1 op' T)
  then show ?case by (auto simp: frozen_def same_content_def)
next
  case (stop S T B M)
  then show ?case by (auto simp: frozen_def same_content_def)
qed (auto simp: frozen_def same_content_def)

lemma frozen_runs:
  assumes "backend_runs b b'" and "backend_inv b" and "um_find (mb_stores b) r = Some s" and "frozen s"
  shows "\<exists>s'. um_find (mb_stores b') r = Some s' \<and> frozen s' \<and> same_content s s'"
  using assms
proof (induction rule: backend_runs.induct)
  case (finished b)
  then show ?case by (simp add: same_content_def)
next
  case (called b b' c)
  then obtain s' where s': "um_find (mb_stores b') r = Some s'" "frozen s'" "same_content s s'" by blast
  have i: "backend_inv b'" using runs_inv called by blast
  obtain s'' where "um_find (mb_stores (perform c b')) r = Some s''" "frozen s''" "same_content s' s''"
    using frozen_step [OF perform_step [OF i], of r s' c] i s' by (auto simp: core_def backend_inv_def)
  then show ?case using s'(3) by (auto simp: same_content_def)
qed

text \<open>A rollback that is granted while a migration of the store is in progress freezes the store: the
  migration can no longer be committed or discarded, so no sequence of later calls changes the
  store's values, blobs or generation again.\<close>

theorem rollback_freezes_store:
  assumes "backend_reachable b" and "um_find (mb_store_handles b) h = Some sh" and "sh_store sh = r"
    and "sd_migration_id (store_at b r) \<noteq> []"
    and "RollbackStore h durability True b = (ST_OK, result, b1)" and "backend_runs b1 b2"
  shows "sd_values (store_at b2 r) = sd_values (store_at b1 r) \<and> sd_blobs (store_at b2 r) = sd_blobs (store_at b1 r)
    \<and> sd_generation (store_at b2 r) = sd_generation (store_at b1 r)"
proof -
  let ?s = "store_at b r"
  have i: "backend_inv b" using backend_reachable_inv [OF assms(1)] .
  have s: "um_find (mb_stores b) r = Some ?s" using wf_store_handle [OF inv_wf [OF i] assms(2)] assms(3) by simp
  have a: "sd_rollback_available ?s" and b1: "b1 = with_store r rolled_back_store b"
    using assms(2,3,5) by (auto simp: RollbackStore_def Let_def split: if_splits)
  have m: "\<not> sd_writer_active ?s" "sd_generation ?s = sd_migration_source_generation ?s"
    using i s a assms(4) by (auto simp: backend_inv_def core_def)
  have "frozen (rolled_back_store ?s)"
    using assms(4) m by (simp add: frozen_def)
  moreover have s1: "um_find (mb_stores b1) r = Some (rolled_back_store ?s)" using b1 s by simp
  moreover have "backend_inv b1"
  proof -
    have st: "core_step (core b) (core b1)"
      using perform_step [OF i, of "C_rollback h durability True"] assms(5) by simp
    have "backend_wf b1" using b1 inv_wf [OF i] by (simp add: wf_with_store)
    then show ?thesis
      using i st wf_core_refs [OF inv_wf [OF i]] unfolding backend_inv_def
      by (auto intro: single_writer_step core_sorted_step core_quota_step migration_exclusive_step)
  qed
  ultimately obtain s' where "um_find (mb_stores b2) r = Some s'" "same_content (rolled_back_store ?s) s'"
    using frozen_runs [OF assms(6)] by blast
  then show ?thesis using s1 by (simp add: store_at_def same_content_def)
qed

text \<open>After a first migration, a second one is begun and the first is rolled back.\<close>

definition remigrating_backend :: MemoryBackend where
  "remigrating_backend = perform_all (migrating_calls @
     [C_begin_migration 1 (Some (example_migration 2)) True (Some no_checkpoint)]) fresh_backend"

lemma remigrating_reachable: "backend_reachable remigrating_backend"
  unfolding remigrating_backend_def by (rule example_reachable) code_simp

theorem rollback_freezes_store_witness:
  "let b1 = snd (snd (RollbackStore 1 DU_BUFFERED True remigrating_backend));
       b2 = perform (C_reset_store 1 (Some []) DU_BUFFERED True True) b1 in
   fst (RollbackStore 1 DU_BUFFERED True remigrating_backend) = ST_OK \<and>
   sd_generation (store_at b2 ''state'') = sd_generation (store_at b1 ''state'')"
proof -
  let ?b1 = "snd (snd (RollbackStore 1 DU_BUFFERED True remigrating_backend))"
  have h: "um_find (mb_store_handles remigrating_backend) 1 = Some \<lparr>sh_store = ''state'', sh_access = AC_READ_WRITE\<rparr>"
    "sd_migration_id (store_at remigrating_backend ''state'') \<noteq> []"
    "fst (RollbackStore 1 DU_BUFFERED True remigrating_backend) = ST_OK" "handles_left ?b1"
    unfolding remigrating_backend_def by code_simp+
  obtain result where r: "RollbackStore 1 DU_BUFFERED True remigrating_backend = (ST_OK, result, ?b1)"
    using h(3) by (cases "RollbackStore 1 DU_BUFFERED True remigrating_backend") auto
  have "backend_runs ?b1 (perform (C_reset_store 1 (Some []) DU_BUFFERED True True) ?b1)"
    by (rule backend_runs.called [OF backend_runs.finished h(4)])
  from rollback_freezes_store [OF remigrating_reachable h(1) _ _ r this] h(2,3) show ?thesis
    by (simp add: Let_def)
qed

section \<open>Cursors\<close>

lemma has_prefix_append: "has_prefix p k \<longleftrightarrow> (\<exists>z. k = p @ z)"
proof
  assume "has_prefix p k"
  then have "k = p @ drop (length p) k" by (metis append_take_drop_id has_prefix_def)
  then show "\<exists>z. k = p @ z" ..
qed (auto simp: has_prefix_def)

lemma append_not_less: "\<not> p @ z < (p :: bytes)"
  by (induction p) auto

lemma prefix_convex:
  fixes p k z :: bytes
  assumes "\<not> k < p" and "k < p @ z"
  shows "\<exists>y. k = p @ y"
  using assms
proof (induction p arbitrary: k)
  case (Cons a p)
  show ?case
  proof (cases k)
    case Nil
    then show ?thesis using Cons.prems(1) by simp
  next
    case (Cons b ks)
    then have "a = b" "\<not> ks < p" "ks < p @ z" using Cons.prems by auto
    then show ?thesis using Cons.IH [of ks] Cons by auto
  qed
qed simp

lemma dropWhile_sorted:
  assumes "om_ok vs"
  shows "dropWhile (\<lambda>e. fst e < p) vs = filter (\<lambda>e. \<not> fst e < p) vs"
  using assms
proof (induction vs)
  case (Cons e vs)
  show ?case
  proof (cases "fst e < p")
    case False
    then have "\<forall>x \<in> set vs. \<not> fst x < p" using Cons.prems by (auto dest: order.strict_trans)
    then show ?thesis using False by simp
  qed (use Cons in simp)
qed simp

lemma takeWhile_prefix_sorted:
  assumes "om_ok vs" and "\<forall>e \<in> set vs. \<not> fst e < p"
  shows "takeWhile (\<lambda>e. has_prefix p (fst e)) vs = filter (\<lambda>e. has_prefix p (fst e)) vs"
  using assms
proof (induction vs)
  case (Cons e vs)
  show ?case
  proof (cases "has_prefix p (fst e)")
    case False
    have "\<not> has_prefix p (fst x)" if "x \<in> set vs" for x
    proof
      assume "has_prefix p (fst x)"
      then obtain z where z: "fst x = p @ z" by (auto simp: has_prefix_append)
      have "fst e < p @ z" using Cons.prems(1) that z by auto
      then show False using prefix_convex [of "fst e" p z] Cons.prems(2) False by (auto simp: has_prefix_append)
    qed
    then show ?thesis using False by simp
  qed (use Cons in simp)
qed simp

lemma cursor_entries_filter:
  assumes "om_ok vs"
  shows "cursor_entries p vs = filter (\<lambda>e. has_prefix p (fst e)) vs"
proof -
  let ?ws = "filter (\<lambda>e. \<not> fst e < p) vs"
  have "om_ok ?ws" using assms by (simp add: sorted_wrt_map sorted_wrt_filter)
  then have "takeWhile (\<lambda>e. has_prefix p (fst e)) ?ws = filter (\<lambda>e. has_prefix p (fst e)) ?ws"
    by (rule takeWhile_prefix_sorted) simp
  also have "\<dots> = filter (\<lambda>e. has_prefix p (fst e)) vs"
    using append_not_less by (auto simp: has_prefix_append intro!: filter_cong)
  finally show ?thesis by (simp add: cursor_entries_def dropWhile_sorted [OF assms])
qed

text \<open>The scan from \<open>lower_bound\<close> that a cursor is filled with finds exactly the entries of the
  transaction whose key begins with the prefix, in strictly ascending key order.\<close>

theorem cursor_entries_exact:
  assumes "backend_reachable b" and "um_find (mb_transactions b) h = Some t"
  shows "cursor_entries prefix (tx_values t) = filter (\<lambda>e. \<exists>rest. fst e = prefix @ rest) (tx_values t)
    \<and> sorted_wrt (<) (map fst (cursor_entries prefix (tx_values t)))"
proof -
  have s: "om_ok (tx_values t)"
    using backend_reachable_inv [OF assms(1)] assms(2) by (auto simp: backend_inv_def core_def)
  then have "om_ok (filter (\<lambda>e. has_prefix prefix (fst e)) (tx_values t))"
    by (simp add: sorted_wrt_map sorted_wrt_filter)
  then show ?thesis using cursor_entries_filter [OF s, of prefix] by (simp add: has_prefix_append)
qed

theorem cursor_entries_exact_witness:
  "cursor_entries [1] (tx_values reading_transaction) = filter (\<lambda>e. \<exists>rest. fst e = [1] @ rest) (tx_values reading_transaction)"
  using cursor_entries_exact [OF reading_reachable reading_open] by blast

section \<open>Transactions\<close>

lemma memcpy_all: "length bs = length data \<Longrightarrow> memcpy_at 0 bs data = bs"
  by (simp add: memcpy_at_def)

lemma Get_other:
  assumes "um_find (mb_transactions b') h = Some t'" and "um_find (mb_transactions b) h = Some t"
    and "tx_finished t' = tx_finished t" and "um_find (tx_values t') (Copy key) = um_find (tx_values t) (Copy key)"
  shows "Get h key out b' = Get h key out b"
  using assms by (simp add: Get_def split: option.split)

text \<open>A value that \<open>Put\<close> accepts is what \<open>Get\<close> returns for its key in the same transaction; the
  other keys read as before, and no store has changed yet.\<close>

theorem put_get_roundtrip:
  assumes "backend_reachable b" and "Put h key value b = (ST_OK, b')"
    and "mu_data out = Some data" and "view_size value \<le> mu_size out"
  shows "Get h key (Some out) b' =
      (ST_OK, Some \<lparr>mu_data = Some (memcpy_at 0 (Copy value) data), mu_size = view_size value\<rparr>)
    \<and> (\<forall>other o'. Copy other \<noteq> Copy key \<longrightarrow> Get h other o' b' = Get h other o' b)
    \<and> mb_stores b' = mb_stores b"
proof -
  obtain t where t: "writing h b = Some t" and ok: "Valid key" "Valid value" "view_size key \<noteq> 0"
    and b': "b' = set_transaction h (t\<lparr>tx_values := om_set (Copy key) (Copy value) (tx_values t)\<rparr>) b"
    using assms(2) by (auto simp: Put_def Let_def split: if_splits option.splits)
  have T: "um_find (mb_transactions b) h = Some t" "\<not> tx_finished t"
    using t by (simp_all add: writing_Some tx_writer_def)
  have s: "om_ok (tx_values t)"
    using backend_reachable_inv [OF assms(1)] T by (auto simp: backend_inv_def core_def)
  have "Get h key (Some out) b' =
      (ST_OK, Some \<lparr>mu_data = Some (memcpy_at 0 (Copy value) data), mu_size = view_size value\<rparr>)"
    using ok T s assms(3,4) by (cases out) (simp add: Get_def b' fill_buffer_def view_size_Copy)
  moreover have "Get h other o' b' = Get h other o' b" if "Copy other \<noteq> Copy key" for other o'
    by (rule Get_other [of b' h "t\<lparr>tx_values := om_set (Copy key) (Copy value) (tx_values t)\<rparr>" b t]) (use T s that in \<open>simp_all add: b'\<close>)
  ultimately show ?thesis by (simp add: b')
qed


definition writing_backend :: MemoryBackend where
  "writing_backend = perform_all (butlast (butlast (butlast reading_calls))) fresh_backend"

lemma writing_reachable: "backend_reachable writing_backend"
  unfolding writing_backend_def by (rule example_reachable) code_simp

theorem put_get_roundtrip_witness:
  "Get 2 (View [1]) (Some \<lparr>mu_data = Some [0, 0, 0], mu_size = 3\<rparr>) (snd (Put 2 (View [1]) (View [10, 11]) writing_backend)) =
     (ST_OK, Some \<lparr>mu_data = Some [10, 11, 0], mu_size = 2\<rparr>)"
proof -
  have "fst (Put 2 (View [1]) (View [10, 11]) writing_backend) = ST_OK" by code_simp
  then have "Put 2 (View [1]) (View [10, 11]) writing_backend = (ST_OK, snd (Put 2 (View [1]) (View [10, 11]) writing_backend))"
    by (metis prod.collapse)
  from put_get_roundtrip [OF writing_reachable this, of "\<lparr>mu_data = Some [0, 0, 0], mu_size = 3\<rparr>" "[0, 0, 0]"] show ?thesis
    by (simp add: memcpy_at_def)
qed


end
