(* ===== verification/Per_Runtime.thy ===== *)
theory Per_Runtime
  imports Per_Store
begin

text \<open>
  The persistence runtime, \<^verbatim>\<open>per/src/runtime.cpp\<close> and \<^verbatim>\<open>per/include/ovf/per/per.hpp\<close>: the objects a client holds (read and
  write transactions, cursors, stores, blob readers and writers, the runtime) over the function table of a provider.
  The table is a record of functions over the provider's state, \<open>BackendTable\<close>; each object is a record of whether it is
  bound and of its handle; each member function takes and returns the shared \<open>RuntimeState\<close>. The mutex of the state
  is held for each call of the table, so a run of several threads is an interleaving of these calls. The allocations that
  \<open>std::bad_alloc\<close> can end are asked of \<open>bt_fits\<close>. The loader of a provider takes the file system and \<open>dlopen\<close> as arguments.
  \<open>memory_table\<close> is the table of the in-memory provider.
\<close>

section \<open>The interface of the runtime\<close>

datatype PerErrorCode =
    PE_invalid_argument | PE_incompatible_abi | PE_invalid_state | PE_not_found | PE_permission_denied | PE_unsupported
  | PE_resource_exhausted | PE_conflict | PE_quota_exceeded | PE_corrupted | PE_io_error | PE_busy | PE_shutting_down
  | PE_backend_failure

record PerError =
  pe_code :: PerErrorCode
  pe_message :: string

definition per_error :: "PerErrorCode \<Rightarrow> string \<Rightarrow> PerError" where
  "per_error code message = \<lparr>pe_code = code, pe_message = message\<rparr>"

datatype PerDurability = PD_buffered | PD_process_crash | PD_media

datatype PerAccess = PA_read_only | PA_read_write

datatype PerRecoveryState = PR_clean | PR_journal_replayed | PR_failed_closed | PR_reset | PR_migrated | PR_rolled_back

record CommitInfo =
  ci_generation :: u64
  ci_achieved_durability :: PerDurability

record PerStoreStatus =
  ps_generation :: u64
  ps_schema_version :: u64
  ps_recovery_state :: PerRecoveryState
  ps_successful_commits :: u64
  ps_rejected_operations :: u64
  ps_recovery_count :: u64

record PerCapabilities =
  pc_max_stores :: u32
  pc_max_transactions :: u32
  pc_max_store_bytes :: u64
  pc_max_key_size :: u32
  pc_max_value_size :: u32
  pc_max_blob_size :: u64
  pc_maximum_durability :: PerDurability
  pc_persistent :: bool
  pc_cross_process_leases :: bool

record StoreOptions =
  so_logical_name :: string
  so_access :: PerAccess
  so_minimum_durability :: PerDurability
  so_capacity_bytes :: u64
  so_max_entries :: u32
  so_max_key_size :: u32
  so_max_value_size :: u32
  so_max_blob_size :: u64
  so_schema_id :: string
  so_schema_version :: u64

record MigrationPlan =
  mp_migration_id :: string
  mp_source_schema_id :: string
  mp_source_schema_version :: u64
  mp_target_schema_id :: string
  mp_target_schema_version :: u64
  mp_durability :: PerDurability
  mp_allow_downgrade :: bool

record MigrationInfo =
  mi_commit :: CommitInfo
  mi_processed_entries :: u64
  mi_resumed :: bool

text \<open>What a call of the migration's function does: an error, a target entry or none, or an exception.\<close>

datatype Transformed = TF_error PerError | TF_entry "(bytes \<times> bytes) option" | TF_throws

section \<open>The provider's function table\<close>

text \<open>\<open>ovf_per_backend_v1\<close>: a function may change the provider's state \<open>'b\<close>. An output the provider does not write is
  \<open>None\<close>, and the runtime then sees the zero it was initialised with. \<open>bt_fits\<close> is whether the runtime can allocate a
  buffer of a size.\<close>

record 'b BackendTable =
  bt_stop :: "'b \<Rightarrow> 'b"
  bt_get_capabilities :: "'b \<Rightarrow> Status \<times> Capabilities option \<times> 'b"
  bt_store_open :: "StoreDescriptor \<Rightarrow> 'b \<Rightarrow> Status \<times> Handle option \<times> 'b"
  bt_store_close :: "Handle \<Rightarrow> 'b \<Rightarrow> Status \<times> 'b"
  bt_read_begin :: "Handle \<Rightarrow> 'b \<Rightarrow> Status \<times> (Handle \<times> u64) option \<times> 'b"
  bt_write_begin :: "Handle \<Rightarrow> Durability \<Rightarrow> 'b \<Rightarrow> Status \<times> (Handle \<times> u64) option \<times> 'b"
  bt_write_begin_at :: "Handle \<Rightarrow> Durability \<Rightarrow> u64 \<Rightarrow> 'b \<Rightarrow> Status \<times> (Handle \<times> u64) option \<times> 'b"
  bt_transaction_get :: "Handle \<Rightarrow> BytesView \<Rightarrow> MutableBytes \<Rightarrow> 'b \<Rightarrow> Status \<times> MutableBytes \<times> 'b"
  bt_transaction_put :: "Handle \<Rightarrow> BytesView \<Rightarrow> BytesView \<Rightarrow> 'b \<Rightarrow> Status \<times> 'b"
  bt_transaction_erase :: "Handle \<Rightarrow> BytesView \<Rightarrow> 'b \<Rightarrow> Status \<times> bool option \<times> 'b"
  bt_transaction_commit :: "Handle \<Rightarrow> 'b \<Rightarrow> Status \<times> CommitResult option \<times> 'b"
  bt_transaction_abort :: "Handle \<Rightarrow> 'b \<Rightarrow> Status \<times> 'b"
  bt_transaction_close :: "Handle \<Rightarrow> 'b \<Rightarrow> Status \<times> 'b"
  bt_cursor_open :: "Handle \<Rightarrow> BytesView \<Rightarrow> 'b \<Rightarrow> Status \<times> Handle option \<times> 'b"
  bt_cursor_next :: "Handle \<Rightarrow> MutableBytes \<times> MutableBytes \<Rightarrow> 'b \<Rightarrow> Status \<times> (MutableBytes \<times> MutableBytes) \<times> 'b"
  bt_cursor_close :: "Handle \<Rightarrow> 'b \<Rightarrow> Status \<times> 'b"
  bt_blob_read_open :: "Handle \<Rightarrow> BytesView \<Rightarrow> 'b \<Rightarrow> Status \<times> (Handle \<times> u64 \<times> u64) option \<times> 'b"
  bt_blob_replace_begin :: "Handle \<Rightarrow> BytesView \<Rightarrow> u64 \<Rightarrow> Durability \<Rightarrow> 'b \<Rightarrow> Status \<times> (Handle \<times> u64) option \<times> 'b"
  bt_blob_read :: "Handle \<Rightarrow> u64 \<Rightarrow> MutableBytes \<Rightarrow> 'b \<Rightarrow> Status \<times> MutableBytes \<times> 'b"
  bt_blob_write :: "Handle \<Rightarrow> u64 \<Rightarrow> BytesView \<Rightarrow> 'b \<Rightarrow> Status \<times> 'b"
  bt_blob_commit :: "Handle \<Rightarrow> 'b \<Rightarrow> Status \<times> CommitResult option \<times> 'b"
  bt_blob_abort :: "Handle \<Rightarrow> 'b \<Rightarrow> Status \<times> 'b"
  bt_blob_close :: "Handle \<Rightarrow> 'b \<Rightarrow> Status \<times> 'b"
  bt_store_reset :: "Handle \<Rightarrow> (BytesView \<times> BytesView) list \<Rightarrow> Durability \<Rightarrow> 'b \<Rightarrow> Status \<times> CommitResult option \<times> 'b"
  bt_store_status :: "Handle \<Rightarrow> 'b \<Rightarrow> Status \<times> StoreStatus option \<times> 'b"
  bt_migration_begin :: "Handle \<Rightarrow> MigrationDescriptor \<Rightarrow> MutableBytes \<Rightarrow> 'b
     \<Rightarrow> Status \<times> (Handle \<times> MigrationStatus) option \<times> MutableBytes \<times> 'b"
  bt_migration_apply :: "Handle \<Rightarrow> BytesView \<Rightarrow> (BytesView \<times> BytesView) option \<Rightarrow> u8 \<Rightarrow> 'b \<Rightarrow> Status \<times> 'b"
  bt_migration_commit :: "Handle \<Rightarrow> 'b \<Rightarrow> Status \<times> CommitResult option \<times> 'b"
  bt_migration_abort :: "Handle \<Rightarrow> 'b \<Rightarrow> Status \<times> 'b"
  bt_migration_close :: "Handle \<Rightarrow> 'b \<Rightarrow> Status \<times> 'b"
  bt_store_rollback :: "Handle \<Rightarrow> Durability \<Rightarrow> 'b \<Rightarrow> Status \<times> CommitResult option \<times> 'b"
  bt_last_error :: "MutableBytes \<Rightarrow> 'b \<Rightarrow> Status \<times> MutableBytes \<times> 'b"
  bt_fits :: "nat \<Rightarrow> bool"

record 'b RuntimeState =
  rs_backend :: 'b
  rs_running :: bool

fun ToErrorCode :: "Status \<Rightarrow> PerErrorCode" where
  "ToErrorCode ST_INVALID_ARGUMENT = PE_invalid_argument"
| "ToErrorCode ST_BUFFER_TOO_SMALL = PE_invalid_argument"
| "ToErrorCode ST_INCOMPATIBLE_ABI = PE_incompatible_abi"
| "ToErrorCode ST_INVALID_STATE = PE_invalid_state"
| "ToErrorCode ST_NOT_FOUND = PE_not_found"
| "ToErrorCode ST_PERMISSION_DENIED = PE_permission_denied"
| "ToErrorCode ST_UNSUPPORTED = PE_unsupported"
| "ToErrorCode ST_RESOURCE_EXHAUSTED = PE_resource_exhausted"
| "ToErrorCode ST_CONFLICT = PE_conflict"
| "ToErrorCode ST_QUOTA_EXCEEDED = PE_quota_exceeded"
| "ToErrorCode ST_CORRUPTED = PE_corrupted"
| "ToErrorCode ST_IO_ERROR = PE_io_error"
| "ToErrorCode ST_BUSY = PE_busy"
| "ToErrorCode ST_SHUTTING_DOWN = PE_shutting_down"
| "ToErrorCode ST_BACKEND_ERROR = PE_backend_failure"
| "ToErrorCode ST_OK = PE_backend_failure"

fun ToAbi :: "PerDurability \<Rightarrow> Durability" where
  "ToAbi PD_buffered = DU_BUFFERED"
| "ToAbi PD_process_crash = DU_PROCESS_CRASH"
| "ToAbi PD_media = DU_MEDIA"

fun FromAbi :: "Durability \<Rightarrow> PerDurability" where
  "FromAbi DU_BUFFERED = PD_buffered"
| "FromAbi DU_PROCESS_CRASH = PD_process_crash"
| "FromAbi DU_MEDIA = PD_media"

fun FromAbi_recovery :: "RecoveryState \<Rightarrow> PerRecoveryState" where
  "FromAbi_recovery RS_CLEAN = PR_clean"
| "FromAbi_recovery RS_JOURNAL_REPLAYED = PR_journal_replayed"
| "FromAbi_recovery RS_FAILED_CLOSED = PR_failed_closed"
| "FromAbi_recovery RS_RESET = PR_reset"
| "FromAbi_recovery RS_MIGRATED = PR_migrated"
| "FromAbi_recovery RS_ROLLED_BACK = PR_rolled_back"

text \<open>The view of a span, whose pointer is null when it is empty; a writable buffer of a vector.\<close>

definition span_view :: "bytes \<Rightarrow> BytesView" where
  "span_view bs = (if bs = [] then NullView 0 else View bs)"

definition no_buffer :: MutableBytes where
  "no_buffer = \<lparr>mu_data = None, mu_size = 0\<rparr>"

definition vector_buffer :: "nat \<Rightarrow> MutableBytes" where
  "vector_buffer n = \<lparr>mu_data = (if n = 0 then None else Some (replicate n 0)), mu_size = n\<rparr>"

definition buffer_bytes :: "MutableBytes \<Rightarrow> bytes" where
  "buffer_bytes m = (case mu_data m of None \<Rightarrow> [] | Some bs \<Rightarrow> take (mu_size m) bs)"

text \<open>\<open>ValidProviderName\<close>.\<close>

definition provider_chars :: string where
  "provider_chars = ''abcdefghijklmnopqrstuvwxyzABCDEFGHIJKLMNOPQRSTUVWXYZ0123456789_-''"

definition ValidProviderName :: "string \<Rightarrow> bool" where
  "ValidProviderName provider = (provider \<noteq> [] \<and> list_all (\<lambda>c. c \<in> set provider_chars) provider)"

section \<open>The shared state\<close>

definition on_backend :: "('b \<Rightarrow> 'r \<times> 'b) \<Rightarrow> 'b RuntimeState \<Rightarrow> 'r \<times> 'b RuntimeState" where
  "on_backend f rs = (let (r, b) = f (rs_backend rs) in (r, rs\<lparr>rs_backend := b\<rparr>))"

definition paired :: "'a \<times> 'c \<times> 'b \<Rightarrow> ('a \<times> 'c) \<times> 'b" where
  "paired r = ((fst r, fst (snd r)), snd (snd r))"

definition ascii :: "bytes \<Rightarrow> string" where
  "ascii bs = map (\<lambda>b. char_of (unat b)) bs"

definition RuntimeState_MakeError :: "'b BackendTable \<Rightarrow> Status \<Rightarrow> 'b RuntimeState \<Rightarrow> PerError \<times> 'b RuntimeState" where
  "RuntimeState_MakeError T status rs =
     (let ((st, out), rs) = on_backend (\<lambda>b. paired (bt_last_error T (vector_buffer 256) b)) rs in
      (per_error (ToErrorCode status)
         (if st = ST_OK \<and> mu_size out \<le> 256 then ascii (buffer_bytes out) else ''persistency provider operation failed''), rs))"

definition RuntimeState_Stop :: "'b BackendTable \<Rightarrow> 'b RuntimeState \<Rightarrow> 'b RuntimeState" where
  "RuntimeState_Stop T rs = (if rs_running rs then rs\<lparr>rs_backend := bt_stop T (rs_backend rs), rs_running := False\<rparr> else rs)"

text \<open>The value of a call that succeeded, and the error of one that did not.\<close>

definition result_of ::
  "'b BackendTable \<Rightarrow> Status \<Rightarrow> 'a \<Rightarrow> 'b RuntimeState \<Rightarrow> ('a, PerError) result \<times> 'b RuntimeState" where
  "result_of T status value rs =
     (if status = ST_OK then (Inr value, rs)
      else let (e, rs) = RuntimeState_MakeError T status rs in (Inl e, rs))"

definition written :: "'a \<Rightarrow> 'a option \<Rightarrow> 'a" where
  "written initial output = (case output of None \<Rightarrow> initial | Some x \<Rightarrow> x)"

definition GetValue ::
  "'b BackendTable \<Rightarrow> bool \<Rightarrow> Handle \<Rightarrow> bytes \<Rightarrow> 'b RuntimeState
     \<Rightarrow> (bytes option, PerError) result \<times> 'b RuntimeState" where
  "GetValue T bound handle key rs =
     (if \<not> bound \<or> handle = 0 \<or> key = [] then (Inl (per_error PE_invalid_argument ''transaction or key is invalid''), rs)
      else if \<not> rs_running rs then (Inl (per_error PE_shutting_down ''persistency runtime is stopped''), rs)
      else
        let ((st, out), rs) = on_backend (\<lambda>b. paired (bt_transaction_get T handle (span_view key) no_buffer b)) rs in
        if st = ST_NOT_FOUND then (Inr None, rs)
        else if st \<noteq> ST_BUFFER_TOO_SMALL then (let (e, rs) = RuntimeState_MakeError T st rs in (Inl e, rs))
        else if mu_size out = 0 then (Inr (Some []), rs)
        else if \<not> bt_fits T (mu_size out) then (Inl (per_error PE_resource_exhausted ''cannot allocate persistency value''), rs)
        else
          let n = mu_size out;
              ((st, out), rs) = on_backend (\<lambda>b. paired (bt_transaction_get T handle (span_view key) (vector_buffer n) b)) rs in
          if st \<noteq> ST_OK then (let (e, rs) = RuntimeState_MakeError T st rs in (Inl e, rs))
          else if mu_size out > n then (Inl (per_error PE_incompatible_abi ''provider returned an invalid value size''), rs)
          else (Inr (Some (buffer_bytes out)), rs))"

definition close_transaction :: "'b BackendTable \<Rightarrow> bool \<Rightarrow> Handle \<Rightarrow> 'b RuntimeState \<Rightarrow> 'b RuntimeState" where
  "close_transaction T bound handle rs =
     (if bound \<and> handle \<noteq> 0 \<and> rs_running rs then snd (on_backend (bt_transaction_close T handle) rs) else rs)"

section \<open>Read transactions and cursors\<close>

record ReadTransaction =
  rt_bound :: bool
  rt_handle :: Handle
  rt_generation :: u64

definition ReadTransaction_valid :: "ReadTransaction \<Rightarrow> bool" where
  "ReadTransaction_valid r = (rt_bound r \<and> rt_handle r \<noteq> 0)"

definition ReadTransaction_Get ::
  "'b BackendTable \<Rightarrow> ReadTransaction \<Rightarrow> bytes \<Rightarrow> 'b RuntimeState \<Rightarrow> (bytes option, PerError) result \<times> 'b RuntimeState" where
  "ReadTransaction_Get T r key rs = GetValue T (rt_bound r) (rt_handle r) key rs"

definition ReadTransaction_Close ::
  "'b BackendTable \<Rightarrow> ReadTransaction \<Rightarrow> 'b RuntimeState \<Rightarrow> ReadTransaction \<times> 'b RuntimeState" where
  "ReadTransaction_Close T r rs =
     (r\<lparr>rt_bound := False, rt_handle := 0\<rparr>, close_transaction T (rt_bound r) (rt_handle r) rs)"

text \<open>The move constructor (the new object and the source), and the move assignment of one object to another.\<close>

definition ReadTransaction_move :: "ReadTransaction \<Rightarrow> ReadTransaction \<times> ReadTransaction" where
  "ReadTransaction_move other = (other, other\<lparr>rt_bound := False, rt_handle := 0\<rparr>)"

definition ReadTransaction_assign ::
  "'b BackendTable \<Rightarrow> ReadTransaction \<Rightarrow> ReadTransaction \<Rightarrow> 'b RuntimeState
     \<Rightarrow> ReadTransaction \<times> ReadTransaction \<times> 'b RuntimeState" where
  "ReadTransaction_assign T r other rs =
     (let (_, rs) = ReadTransaction_Close T r rs; (r, other) = ReadTransaction_move other in (r, other, rs))"

record RtCursor =
  rc_bound :: bool
  rc_handle :: Handle

definition Cursor_valid :: "RtCursor \<Rightarrow> bool" where
  "Cursor_valid c = (rc_bound c \<and> rc_handle c \<noteq> 0)"

definition Cursor_Next ::
  "'b BackendTable \<Rightarrow> RtCursor \<Rightarrow> 'b RuntimeState \<Rightarrow> ((bytes \<times> bytes) option, PerError) result \<times> 'b RuntimeState" where
  "Cursor_Next T c rs =
     (if \<not> Cursor_valid c then (Inl (per_error PE_invalid_state ''cursor is not open''), rs)
      else
        let ((st, k, v), rs) = on_backend (\<lambda>b. paired (bt_cursor_next T (rc_handle c) (no_buffer, no_buffer) b)) rs in
        if st = ST_NOT_FOUND then (Inr None, rs)
        else if st \<noteq> ST_BUFFER_TOO_SMALL then (let (e, rs) = RuntimeState_MakeError T st rs in (Inl e, rs))
        else if \<not> bt_fits T (mu_size k) \<or> \<not> bt_fits T (mu_size v) then
          (Inl (per_error PE_resource_exhausted ''cannot allocate cursor entry''), rs)
        else
          let kn = mu_size k; vn = mu_size v;
              ((st, k, v), rs) =
                on_backend (\<lambda>b. paired (bt_cursor_next T (rc_handle c) (vector_buffer kn, vector_buffer vn) b)) rs in
          if st \<noteq> ST_OK then (let (e, rs) = RuntimeState_MakeError T st rs in (Inl e, rs))
          else if mu_size k > kn \<or> mu_size v > vn then
            (Inl (per_error PE_incompatible_abi ''provider returned invalid cursor sizes''), rs)
          else (Inr (Some (buffer_bytes k, buffer_bytes v)), rs))"

definition Cursor_Close :: "'b BackendTable \<Rightarrow> RtCursor \<Rightarrow> 'b RuntimeState \<Rightarrow> RtCursor \<times> 'b RuntimeState" where
  "Cursor_Close T c rs =
     (\<lparr>rc_bound = False, rc_handle = 0\<rparr>,
      if Cursor_valid c \<and> rs_running rs then snd (on_backend (bt_cursor_close T (rc_handle c)) rs) else rs)"

definition Cursor_move :: "RtCursor \<Rightarrow> RtCursor \<times> RtCursor" where
  "Cursor_move other = (other, \<lparr>rc_bound = False, rc_handle = 0\<rparr>)"

definition Cursor_assign ::
  "'b BackendTable \<Rightarrow> RtCursor \<Rightarrow> RtCursor \<Rightarrow> 'b RuntimeState \<Rightarrow> RtCursor \<times> RtCursor \<times> 'b RuntimeState" where
  "Cursor_assign T c other rs = (let (_, rs) = Cursor_Close T c rs; (c, other) = Cursor_move other in (c, other, rs))"

definition Iterate ::
  "'b BackendTable \<Rightarrow> ReadTransaction \<Rightarrow> bytes \<Rightarrow> 'b RuntimeState \<Rightarrow> (RtCursor, PerError) result \<times> 'b RuntimeState" where
  "Iterate T r prefix rs =
     (if \<not> ReadTransaction_valid r then (Inl (per_error PE_invalid_state ''read transaction is not active''), rs)
      else
        let ((st, h), rs) = on_backend (\<lambda>b. paired (bt_cursor_open T (rt_handle r) (span_view prefix) b)) rs in
        result_of T st \<lparr>rc_bound = True, rc_handle = written 0 h\<rparr> rs)"

section \<open>Write transactions\<close>

record WriteTransaction =
  wt_bound :: bool
  wt_handle :: Handle
  wt_generation :: u64

definition WriteTransaction_valid :: "WriteTransaction \<Rightarrow> bool" where
  "WriteTransaction_valid w = (wt_bound w \<and> wt_handle w \<noteq> 0)"

definition WriteTransaction_Get ::
  "'b BackendTable \<Rightarrow> WriteTransaction \<Rightarrow> bytes \<Rightarrow> 'b RuntimeState \<Rightarrow> (bytes option, PerError) result \<times> 'b RuntimeState" where
  "WriteTransaction_Get T w key rs = GetValue T (wt_bound w) (wt_handle w) key rs"

definition WriteTransaction_Put ::
  "'b BackendTable \<Rightarrow> WriteTransaction \<Rightarrow> bytes \<Rightarrow> bytes \<Rightarrow> 'b RuntimeState \<Rightarrow> (bool, PerError) result \<times> 'b RuntimeState" where
  "WriteTransaction_Put T w key value rs =
     (if \<not> WriteTransaction_valid w \<or> key = [] then (Inl (per_error PE_invalid_argument ''transaction or key is invalid''), rs)
      else
        let (st, rs) = on_backend (bt_transaction_put T (wt_handle w) (span_view key) (span_view value)) rs in
        result_of T st True rs)"

definition WriteTransaction_Erase ::
  "'b BackendTable \<Rightarrow> WriteTransaction \<Rightarrow> bytes \<Rightarrow> 'b RuntimeState \<Rightarrow> (bool, PerError) result \<times> 'b RuntimeState" where
  "WriteTransaction_Erase T w key rs =
     (if \<not> WriteTransaction_valid w \<or> key = [] then (Inl (per_error PE_invalid_argument ''transaction or key is invalid''), rs)
      else
        let ((st, erased), rs) = on_backend (\<lambda>b. paired (bt_transaction_erase T (wt_handle w) (span_view key) b)) rs in
        result_of T st (written False erased) rs)"

definition commit_info :: "CommitResult option \<Rightarrow> CommitInfo" where
  "commit_info r =
     (case r of
        None \<Rightarrow> \<lparr>ci_generation = 0, ci_achieved_durability = PD_buffered\<rparr>
      | Some c \<Rightarrow> \<lparr>ci_generation = cr_generation c, ci_achieved_durability = FromAbi (cr_achieved_durability c)\<rparr>)"

definition closed_write :: "WriteTransaction \<Rightarrow> WriteTransaction" where
  "closed_write w = w\<lparr>wt_bound := False, wt_handle := 0\<rparr>"

definition WriteTransaction_Commit ::
  "'b BackendTable \<Rightarrow> WriteTransaction \<Rightarrow> 'b RuntimeState
     \<Rightarrow> (CommitInfo, PerError) result \<times> WriteTransaction \<times> 'b RuntimeState" where
  "WriteTransaction_Commit T w rs =
     (if \<not> WriteTransaction_valid w then (Inl (per_error PE_invalid_state ''write transaction is not active''), w, rs)
      else
        let ((st, r), rs) = on_backend (\<lambda>b. paired (bt_transaction_commit T (wt_handle w) b)) rs in
        if st \<noteq> ST_OK then (let (e, rs) = RuntimeState_MakeError T st rs in (Inl e, w, rs))
        else
          let (_, rs) = on_backend (bt_transaction_close T (wt_handle w)) rs in
          (Inr (commit_info r), closed_write w, rs))"

definition WriteTransaction_Abort ::
  "'b BackendTable \<Rightarrow> WriteTransaction \<Rightarrow> 'b RuntimeState \<Rightarrow> WriteTransaction \<times> 'b RuntimeState" where
  "WriteTransaction_Abort T w rs =
     (closed_write w,
      if WriteTransaction_valid w \<and> rs_running rs then
        let (_, rs) = on_backend (bt_transaction_abort T (wt_handle w)) rs in
        snd (on_backend (bt_transaction_close T (wt_handle w)) rs)
      else rs)"

definition WriteTransaction_move :: "WriteTransaction \<Rightarrow> WriteTransaction \<times> WriteTransaction" where
  "WriteTransaction_move other = (other, closed_write other)"

definition WriteTransaction_assign ::
  "'b BackendTable \<Rightarrow> WriteTransaction \<Rightarrow> WriteTransaction \<Rightarrow> 'b RuntimeState
     \<Rightarrow> WriteTransaction \<times> WriteTransaction \<times> 'b RuntimeState" where
  "WriteTransaction_assign T w other rs =
     (let (_, rs) = WriteTransaction_Abort T w rs; (w, other) = WriteTransaction_move other in (w, other, rs))"

section \<open>Stores\<close>

record StoreObject =
  st_bound :: bool
  st_handle :: Handle

definition Store_valid :: "StoreObject \<Rightarrow> bool" where
  "Store_valid s = (st_bound s \<and> st_handle s \<noteq> 0)"

definition store_closed :: PerError where
  "store_closed = per_error PE_invalid_state ''store is not open''"

definition Store_BeginRead ::
  "'b BackendTable \<Rightarrow> StoreObject \<Rightarrow> 'b RuntimeState \<Rightarrow> (ReadTransaction, PerError) result \<times> 'b RuntimeState" where
  "Store_BeginRead T s rs =
     (if \<not> Store_valid s then (Inl store_closed, rs)
      else
        let ((st, o'), rs) = on_backend (\<lambda>b. paired (bt_read_begin T (st_handle s) b)) rs; (h, g) = written (0, 0) o' in
        result_of T st \<lparr>rt_bound = True, rt_handle = h, rt_generation = g\<rparr> rs)"

definition Store_BeginWrite ::
  "'b BackendTable \<Rightarrow> StoreObject \<Rightarrow> PerDurability \<Rightarrow> 'b RuntimeState
     \<Rightarrow> (WriteTransaction, PerError) result \<times> 'b RuntimeState" where
  "Store_BeginWrite T s durability rs =
     (if \<not> Store_valid s then (Inl store_closed, rs)
      else
        let ((st, o'), rs) = on_backend (\<lambda>b. paired (bt_write_begin T (st_handle s) (ToAbi durability) b)) rs;
            (h, g) = written (0, 0) o' in
        result_of T st \<lparr>wt_bound = True, wt_handle = h, wt_generation = g\<rparr> rs)"

definition Store_BeginWriteAt ::
  "'b BackendTable \<Rightarrow> StoreObject \<Rightarrow> u64 \<Rightarrow> PerDurability \<Rightarrow> 'b RuntimeState
     \<Rightarrow> (WriteTransaction, PerError) result \<times> 'b RuntimeState" where
  "Store_BeginWriteAt T s expected_generation durability rs =
     (if \<not> Store_valid s then (Inl store_closed, rs)
      else
        let ((st, o'), rs) =
              on_backend (\<lambda>b. paired (bt_write_begin_at T (st_handle s) (ToAbi durability) expected_generation b)) rs;
            (h, g) = written (0, 0) o' in
        result_of T st \<lparr>wt_bound = True, wt_handle = h, wt_generation = g\<rparr> rs)"

text \<open>\<open>With\<close>; the body is a function of the transaction and the state. The transaction's destructor ends the call.\<close>

definition Store_With ::
  "'b BackendTable \<Rightarrow> StoreObject \<Rightarrow> PerDurability
     \<Rightarrow> (WriteTransaction \<Rightarrow> 'b RuntimeState \<Rightarrow> (unit, PerError) result \<times> WriteTransaction \<times> 'b RuntimeState)
     \<Rightarrow> 'b RuntimeState \<Rightarrow> (CommitInfo, PerError) result \<times> 'b RuntimeState" where
  "Store_With T s durability body rs =
     (case Store_BeginWrite T s durability rs of
        (Inl e, rs) \<Rightarrow> (Inl e, rs)
      | (Inr w, rs) \<Rightarrow>
          (case body w rs of
             (Inl e, w, rs) \<Rightarrow> (Inl e, snd (WriteTransaction_Abort T w rs))
           | (Inr _, w, rs) \<Rightarrow>
               let (r, w, rs) = WriteTransaction_Commit T w rs in (r, snd (WriteTransaction_Abort T w rs))))"

definition Store_Reset ::
  "'b BackendTable \<Rightarrow> StoreObject \<Rightarrow> (bytes \<times> bytes) list \<Rightarrow> PerDurability \<Rightarrow> 'b RuntimeState
     \<Rightarrow> (CommitInfo, PerError) result \<times> 'b RuntimeState" where
  "Store_Reset T s initial_data durability rs =
     (if \<not> Store_valid s then (Inl store_closed, rs)
      else if \<not> bt_fits T (length initial_data) then (Inl (per_error PE_resource_exhausted ''cannot allocate reset entries''), rs)
      else if list_ex (\<lambda>(key, _). key = []) initial_data then
        (Inl (per_error PE_invalid_argument ''initial-data key is empty''), rs)
      else
        let ((st, r), rs) = on_backend (\<lambda>b. paired (bt_store_reset T (st_handle s)
              (map (\<lambda>(key, value). (span_view key, span_view value)) initial_data) (ToAbi durability) b)) rs in
        result_of T st (commit_info r) rs)"

definition store_status_of :: "StoreStatus option \<Rightarrow> PerStoreStatus" where
  "store_status_of r =
     (case r of
        None \<Rightarrow> \<lparr>ps_generation = 0, ps_schema_version = 0, ps_recovery_state = PR_clean, ps_successful_commits = 0,
                 ps_rejected_operations = 0, ps_recovery_count = 0\<rparr>
      | Some v \<Rightarrow> \<lparr>ps_generation = ss_generation v, ps_schema_version = ss_schema_version v,
                 ps_recovery_state = FromAbi_recovery (ss_recovery_state v), ps_successful_commits = ss_successful_commits v,
                 ps_rejected_operations = ss_rejected_operations v, ps_recovery_count = ss_recovery_count v\<rparr>)"

definition Store_GetStatus ::
  "'b BackendTable \<Rightarrow> StoreObject \<Rightarrow> 'b RuntimeState \<Rightarrow> (PerStoreStatus, PerError) result \<times> 'b RuntimeState" where
  "Store_GetStatus T s rs =
     (if \<not> Store_valid s then (Inl store_closed, rs)
      else
        let ((st, r), rs) = on_backend (\<lambda>b. paired (bt_store_status T (st_handle s) b)) rs in
        result_of T st (store_status_of r) rs)"

definition Store_Rollback ::
  "'b BackendTable \<Rightarrow> StoreObject \<Rightarrow> PerDurability \<Rightarrow> 'b RuntimeState
     \<Rightarrow> (CommitInfo, PerError) result \<times> 'b RuntimeState" where
  "Store_Rollback T s durability rs =
     (if \<not> Store_valid s then (Inl store_closed, rs)
      else
        let ((st, r), rs) = on_backend (\<lambda>b. paired (bt_store_rollback T (st_handle s) (ToAbi durability) b)) rs in
        result_of T st (commit_info r) rs)"

definition Store_Close :: "'b BackendTable \<Rightarrow> StoreObject \<Rightarrow> 'b RuntimeState \<Rightarrow> StoreObject \<times> 'b RuntimeState" where
  "Store_Close T s rs =
     (\<lparr>st_bound = False, st_handle = 0\<rparr>,
      if Store_valid s \<and> rs_running rs then snd (on_backend (bt_store_close T (st_handle s)) rs) else rs)"

definition Store_move :: "StoreObject \<Rightarrow> StoreObject \<times> StoreObject" where
  "Store_move other = (other, \<lparr>st_bound = False, st_handle = 0\<rparr>)"

definition Store_assign ::
  "'b BackendTable \<Rightarrow> StoreObject \<Rightarrow> StoreObject \<Rightarrow> 'b RuntimeState \<Rightarrow> StoreObject \<times> StoreObject \<times> 'b RuntimeState" where
  "Store_assign T s other rs = (let (_, rs) = Store_Close T s rs; (s, other) = Store_move other in (s, other, rs))"

section \<open>Migration\<close>

definition migration_descriptor :: "MigrationPlan \<Rightarrow> MigrationDescriptor" where
  "migration_descriptor plan =
     \<lparr>mg_migration_id = Some (mp_migration_id plan), mg_source_schema_id = Some (mp_source_schema_id plan),
      mg_source_schema_version = mp_source_schema_version plan, mg_target_schema_id = Some (mp_target_schema_id plan),
      mg_target_schema_version = mp_target_schema_version plan, mg_durability = ToAbi (mp_durability plan)\<rparr>"

definition plan_invalid :: "MigrationPlan \<Rightarrow> bool" where
  "plan_invalid plan \<longleftrightarrow>
     mp_migration_id plan = [] \<or> mp_source_schema_id plan = [] \<or> mp_target_schema_id plan = [] \<or>
     mp_source_schema_version plan = 0 \<or> mp_target_schema_version plan = 0 \<or>
     (\<not> mp_allow_downgrade plan \<and> mp_target_schema_version plan \<le> mp_source_schema_version plan)"

definition close_migration :: "'b BackendTable \<Rightarrow> Handle \<Rightarrow> 'b RuntimeState \<Rightarrow> 'b RuntimeState" where
  "close_migration T migration rs =
     (let (_, rs) = on_backend (bt_migration_abort T migration) rs in
      snd (on_backend (bt_migration_close T migration) rs))"

text \<open>One pass of the loop: it fails with an error, the transform throws, the entries end, or the loop goes on with the
  number of entries processed so far.\<close>

datatype MigrationStep = MS_failed PerError | MS_threw | MS_end | MS_continue u64

definition apply_target :: "(bytes \<times> bytes) option \<Rightarrow> (BytesView \<times> BytesView) option" where
  "apply_target target = map_option (\<lambda>(key, value). (span_view key, span_view value)) target"

definition migrate_entry ::
  "'b BackendTable \<Rightarrow> (bytes \<times> bytes \<Rightarrow> Transformed) \<Rightarrow> Handle \<Rightarrow> bytes \<Rightarrow> u64 \<Rightarrow> bytes \<times> bytes \<Rightarrow> 'b RuntimeState
     \<Rightarrow> MigrationStep \<times> 'b RuntimeState" where
  "migrate_entry T transform migration checkpoint processed source rs =
     (if checkpoint \<noteq> [] \<and> \<not> checkpoint < fst source then (MS_continue processed, rs)
      else case transform source of
        TF_throws \<Rightarrow> (MS_threw, rs)
      | TF_error e \<Rightarrow> (MS_failed e, close_migration T migration rs)
      | TF_entry target \<Rightarrow>
          let (st, rs) = on_backend (bt_migration_apply T migration (span_view (fst source)) (apply_target target)
                (if target = None then 0 else 1)) rs in
          if st \<noteq> ST_OK then
            (let (e, rs) = RuntimeState_MakeError T st rs in (MS_failed e, close_migration T migration rs))
          else (MS_continue (processed + 1), rs))"

definition migrate_step ::
  "'b BackendTable \<Rightarrow> (bytes \<times> bytes \<Rightarrow> Transformed) \<Rightarrow> Handle \<Rightarrow> bytes \<Rightarrow> RtCursor \<Rightarrow> u64 \<Rightarrow> 'b RuntimeState
     \<Rightarrow> MigrationStep \<times> 'b RuntimeState" where
  "migrate_step T transform migration checkpoint cursor processed rs =
     (case Cursor_Next T cursor rs of
        (Inl e, rs) \<Rightarrow> (MS_failed e, close_migration T migration rs)
      | (Inr None, rs) \<Rightarrow> (MS_end, rs)
      | (Inr (Some source), rs) \<Rightarrow> migrate_entry T transform migration checkpoint processed source rs)"

text \<open>The loop; a provider whose cursor never ends keeps it running, \<open>None\<close>. \<open>Inl None\<close> is an exception of the transform.\<close>

partial_function (option) migrate_loop ::
  "'b BackendTable \<Rightarrow> (bytes \<times> bytes \<Rightarrow> Transformed) \<Rightarrow> Handle \<Rightarrow> bytes \<Rightarrow> RtCursor \<Rightarrow> u64 \<Rightarrow> 'b RuntimeState
     \<Rightarrow> ((u64, PerError option) result \<times> 'b RuntimeState) option" where
  "migrate_loop T transform migration checkpoint cursor processed rs =
     (case migrate_step T transform migration checkpoint cursor processed rs of
        (MS_failed e, rs) \<Rightarrow> Some (Inl (Some e), rs)
      | (MS_threw, rs) \<Rightarrow> Some (Inl None, rs)
      | (MS_end, rs) \<Rightarrow> Some (Inr processed, rs)
      | (MS_continue processed, rs) \<Rightarrow> migrate_loop T transform migration checkpoint cursor processed rs)"

definition migrate_finish ::
  "'b BackendTable \<Rightarrow> Handle \<Rightarrow> u64 \<Rightarrow> bool \<Rightarrow> 'b RuntimeState \<Rightarrow> (MigrationInfo, PerError) result \<times> 'b RuntimeState" where
  "migrate_finish T migration processed resumed rs =
     (let ((st, r), rs) = on_backend (\<lambda>b. paired (bt_migration_commit T migration b)) rs in
      if st \<noteq> ST_OK then
        (let (e, rs) = RuntimeState_MakeError T st rs in (Inl e, snd (on_backend (bt_migration_close T migration) rs)))
      else
        (Inr \<lparr>mi_commit = commit_info r, mi_processed_entries = processed, mi_resumed = resumed\<rparr>,
         snd (on_backend (bt_migration_close T migration) rs)))"

text \<open>The part between the begin and the end of a migration. The destructors of the cursor and of the transaction run when
  an error leaves the block, after the migration was closed; an exception runs them before.\<close>

definition migrate_entries ::
  "'b BackendTable \<Rightarrow> StoreObject \<Rightarrow> (bytes \<times> bytes \<Rightarrow> Transformed) \<Rightarrow> Handle \<Rightarrow> bytes \<Rightarrow> u64 \<Rightarrow> bool \<Rightarrow> 'b RuntimeState
     \<Rightarrow> ((MigrationInfo, PerError) result \<times> 'b RuntimeState) option" where
  "migrate_entries T s transform migration checkpoint processed resumed rs =
     (case Store_BeginRead T s rs of
        (Inl e, rs) \<Rightarrow> Some (Inl e, close_migration T migration rs)
      | (Inr read, rs) \<Rightarrow>
          (case Iterate T read [] rs of
             (Inl e, rs) \<Rightarrow> Some (Inl e, snd (ReadTransaction_Close T read (close_migration T migration rs)))
           | (Inr cursor, rs) \<Rightarrow>
               do {
                 (r, rs) \<leftarrow> migrate_loop T transform migration checkpoint cursor processed rs;
                 let rs = snd (ReadTransaction_Close T read (snd (Cursor_Close T cursor rs)));
                 Some (case r of
                         Inl (Some e) \<Rightarrow> (Inl e, rs)
                       | Inl None \<Rightarrow>
                           (Inl (per_error PE_backend_failure ''migration transform raised an exception''),
                            close_migration T migration rs)
                       | Inr processed \<Rightarrow> migrate_finish T migration processed resumed rs)
               }))"

definition Store_Migrate ::
  "'b BackendTable \<Rightarrow> StoreObject \<Rightarrow> MigrationPlan \<Rightarrow> (bytes \<times> bytes \<Rightarrow> Transformed) \<Rightarrow> 'b RuntimeState
     \<Rightarrow> ((MigrationInfo, PerError) result \<times> 'b RuntimeState) option" where
  "Store_Migrate T s plan transform rs =
     (if \<not> Store_valid s \<or> plan_invalid plan then Some (Inl (per_error PE_invalid_argument ''migration plan is invalid''), rs)
      else
        let ((st, o', checkpoint), rs) = on_backend (\<lambda>b.
              let (st, o', checkpoint, b) = bt_migration_begin T (st_handle s) (migration_descriptor plan) (vector_buffer 4096) b in
              ((st, o', checkpoint), b)) rs;
            (migration, status) = written (0, \<lparr>mt_source_generation = 0, mt_processed_entries = 0, mt_resumed = False\<rparr>) o' in
        if st \<noteq> ST_OK then (let (e, rs) = RuntimeState_MakeError T st rs in Some (Inl e, rs))
        else migrate_entries T s transform migration (buffer_bytes checkpoint) (mt_processed_entries status)
               (mt_resumed status) rs)"

section \<open>Blobs\<close>

record BlobReader =
  br_bound :: bool
  br_handle :: Handle
  br_size :: u64
  br_generation :: u64

definition BlobReader_valid :: "BlobReader \<Rightarrow> bool" where
  "BlobReader_valid r = (br_bound r \<and> br_handle r \<noteq> 0)"

text \<open>\<open>Read\<close> into a span of \<open>n\<close> bytes: how much was read, and the bytes of the span.\<close>

definition BlobReader_Read ::
  "'b BackendTable \<Rightarrow> BlobReader \<Rightarrow> u64 \<Rightarrow> nat \<Rightarrow> 'b RuntimeState
     \<Rightarrow> (nat, PerError) result \<times> bytes \<times> 'b RuntimeState" where
  "BlobReader_Read T r offset n rs =
     (if \<not> BlobReader_valid r \<or> offset > br_size r \<or> n > unat (br_size r - offset) then
        (Inl (per_error PE_invalid_argument ''blob read is outside its declared size''), replicate n 0, rs)
      else if n = 0 then (Inr 0, [], rs)
      else
        let ((st, out), rs) = on_backend (\<lambda>b. paired (bt_blob_read T (br_handle r) offset (vector_buffer n) b)) rs;
            (res, rs) = result_of T st (mu_size out) rs in
        (res, case mu_data out of None \<Rightarrow> replicate n 0 | Some bs \<Rightarrow> bs, rs))"

definition BlobReader_Close :: "'b BackendTable \<Rightarrow> BlobReader \<Rightarrow> 'b RuntimeState \<Rightarrow> BlobReader \<times> 'b RuntimeState" where
  "BlobReader_Close T r rs =
     (r\<lparr>br_bound := False, br_handle := 0\<rparr>,
      if BlobReader_valid r \<and> rs_running rs then snd (on_backend (bt_blob_close T (br_handle r)) rs) else rs)"

definition BlobReader_move :: "BlobReader \<Rightarrow> BlobReader \<times> BlobReader" where
  "BlobReader_move other = (other, other\<lparr>br_bound := False, br_handle := 0\<rparr>)"

definition BlobReader_assign ::
  "'b BackendTable \<Rightarrow> BlobReader \<Rightarrow> BlobReader \<Rightarrow> 'b RuntimeState \<Rightarrow> BlobReader \<times> BlobReader \<times> 'b RuntimeState" where
  "BlobReader_assign T r other rs =
     (let (_, rs) = BlobReader_Close T r rs; (r, other) = BlobReader_move other in (r, other, rs))"

record BlobWriter =
  bw_bound :: bool
  bw_handle :: Handle
  bw_size :: u64
  bw_position :: u64

definition BlobWriter_valid :: "BlobWriter \<Rightarrow> bool" where
  "BlobWriter_valid w = (bw_bound w \<and> bw_handle w \<noteq> 0)"

definition BlobWriter_Write ::
  "'b BackendTable \<Rightarrow> BlobWriter \<Rightarrow> bytes \<Rightarrow> 'b RuntimeState
     \<Rightarrow> (nat, PerError) result \<times> BlobWriter \<times> 'b RuntimeState" where
  "BlobWriter_Write T w input rs =
     (if \<not> BlobWriter_valid w \<or> bw_position w > bw_size w \<or> length input > unat (bw_size w - bw_position w) then
        (Inl (per_error PE_invalid_argument ''blob write exceeds its declared size''), w, rs)
      else if input = [] then (Inr 0, w, rs)
      else
        let (st, rs) = on_backend (bt_blob_write T (bw_handle w) (bw_position w) (span_view input)) rs in
        if st \<noteq> ST_OK then (let (e, rs) = RuntimeState_MakeError T st rs in (Inl e, w, rs))
        else (Inr (length input), w\<lparr>bw_position := bw_position w + of_nat (length input)\<rparr>, rs))"

definition closed_writer :: "BlobWriter \<Rightarrow> BlobWriter" where
  "closed_writer w = w\<lparr>bw_bound := False, bw_handle := 0\<rparr>"

definition BlobWriter_Commit ::
  "'b BackendTable \<Rightarrow> BlobWriter \<Rightarrow> 'b RuntimeState \<Rightarrow> (CommitInfo, PerError) result \<times> BlobWriter \<times> 'b RuntimeState" where
  "BlobWriter_Commit T w rs =
     (if \<not> BlobWriter_valid w \<or> bw_position w \<noteq> bw_size w then
        (Inl (per_error PE_invalid_state ''blob replacement is incomplete''), w, rs)
      else
        let ((st, r), rs) = on_backend (\<lambda>b. paired (bt_blob_commit T (bw_handle w) b)) rs in
        if st \<noteq> ST_OK then (let (e, rs) = RuntimeState_MakeError T st rs in (Inl e, w, rs))
        else (Inr (commit_info r), closed_writer w, snd (on_backend (bt_blob_close T (bw_handle w)) rs)))"

definition BlobWriter_Abort :: "'b BackendTable \<Rightarrow> BlobWriter \<Rightarrow> 'b RuntimeState \<Rightarrow> BlobWriter \<times> 'b RuntimeState" where
  "BlobWriter_Abort T w rs =
     (closed_writer w,
      if BlobWriter_valid w \<and> rs_running rs then
        let (_, rs) = on_backend (bt_blob_abort T (bw_handle w)) rs in snd (on_backend (bt_blob_close T (bw_handle w)) rs)
      else rs)"

definition BlobWriter_move :: "BlobWriter \<Rightarrow> BlobWriter \<times> BlobWriter" where
  "BlobWriter_move other = (other, closed_writer other)"

definition BlobWriter_assign ::
  "'b BackendTable \<Rightarrow> BlobWriter \<Rightarrow> BlobWriter \<Rightarrow> 'b RuntimeState \<Rightarrow> BlobWriter \<times> BlobWriter \<times> 'b RuntimeState" where
  "BlobWriter_assign T w other rs =
     (let (_, rs) = BlobWriter_Abort T w rs; (w, other) = BlobWriter_move other in (w, other, rs))"

definition blob_arguments_invalid :: PerError where
  "blob_arguments_invalid = per_error PE_invalid_argument ''store or blob key is invalid''"

definition Store_OpenBlob ::
  "'b BackendTable \<Rightarrow> StoreObject \<Rightarrow> bytes \<Rightarrow> 'b RuntimeState \<Rightarrow> (BlobReader, PerError) result \<times> 'b RuntimeState" where
  "Store_OpenBlob T s key rs =
     (if \<not> Store_valid s \<or> key = [] then (Inl blob_arguments_invalid, rs)
      else
        let ((st, o'), rs) = on_backend (\<lambda>b. paired (bt_blob_read_open T (st_handle s) (span_view key) b)) rs;
            (h, n, g) = written (0, 0, 0) o' in
        result_of T st \<lparr>br_bound = True, br_handle = h, br_size = n, br_generation = g\<rparr> rs)"

definition Store_BeginBlobReplace ::
  "'b BackendTable \<Rightarrow> StoreObject \<Rightarrow> bytes \<Rightarrow> u64 \<Rightarrow> PerDurability \<Rightarrow> 'b RuntimeState
     \<Rightarrow> (BlobWriter, PerError) result \<times> 'b RuntimeState" where
  "Store_BeginBlobReplace T s key n durability rs =
     (if \<not> Store_valid s \<or> key = [] then (Inl blob_arguments_invalid, rs)
      else
        let ((st, o'), rs) =
              on_backend (\<lambda>b. paired (bt_blob_replace_begin T (st_handle s) (span_view key) n (ToAbi durability) b)) rs;
            (h, g) = written (0, 0) o' in
        result_of T st \<lparr>bw_bound = True, bw_handle = h, bw_size = n, bw_position = 0\<rparr> rs)"

section \<open>The runtime object\<close>

definition capabilities_of :: "Capabilities option \<Rightarrow> PerCapabilities" where
  "capabilities_of r =
     (case r of
        None \<Rightarrow> \<lparr>pc_max_stores = 0, pc_max_transactions = 0, pc_max_store_bytes = 0, pc_max_key_size = 0, pc_max_value_size = 0,
                 pc_max_blob_size = 0, pc_maximum_durability = PD_buffered, pc_persistent = False, pc_cross_process_leases = False\<rparr>
      | Some c \<Rightarrow> \<lparr>pc_max_stores = ca_max_stores c, pc_max_transactions = ca_max_transactions c,
                 pc_max_store_bytes = ca_max_store_bytes c, pc_max_key_size = ca_max_key_size c,
                 pc_max_value_size = ca_max_value_size c, pc_max_blob_size = ca_max_blob_size c,
                 pc_maximum_durability = FromAbi (ca_maximum_durability c), pc_persistent = (ca_persistent c \<noteq> 0),
                 pc_cross_process_leases = (ca_cross_process_leases c \<noteq> 0)\<rparr>)"

definition Runtime_GetCapabilities ::
  "'b BackendTable \<Rightarrow> bool \<Rightarrow> 'b RuntimeState \<Rightarrow> (PerCapabilities, PerError) result \<times> 'b RuntimeState" where
  "Runtime_GetCapabilities T bound rs =
     (if \<not> bound then (Inl (per_error PE_invalid_state ''persistency runtime is stopped''), rs)
      else
        let ((st, r), rs) = on_backend (\<lambda>b. paired (bt_get_capabilities T b)) rs in
        result_of T st (capabilities_of r) rs)"

definition store_options_invalid :: "StoreOptions \<Rightarrow> bool" where
  "store_options_invalid o' \<longleftrightarrow>
     so_logical_name o' = [] \<or> so_capacity_bytes o' = 0 \<or> so_max_entries o' = 0 \<or> so_max_key_size o' = 0 \<or>
     so_max_value_size o' = 0 \<or> so_max_blob_size o' = 0 \<or> so_schema_id o' = [] \<or> so_schema_version o' = 0"

definition store_descriptor :: "StoreOptions \<Rightarrow> StoreDescriptor" where
  "store_descriptor o' =
     \<lparr>de_logical_name = Some (so_logical_name o'),
      de_access = (if so_access o' = PA_read_only then AC_READ_ONLY else AC_READ_WRITE),
      de_minimum_durability = ToAbi (so_minimum_durability o'), de_capacity_bytes = so_capacity_bytes o',
      de_max_entries = so_max_entries o', de_max_key_size = so_max_key_size o', de_max_value_size = so_max_value_size o',
      de_max_blob_size = so_max_blob_size o', de_schema_id = Some (so_schema_id o'), de_schema_version = so_schema_version o'\<rparr>"

definition Runtime_OpenStore ::
  "'b BackendTable \<Rightarrow> bool \<Rightarrow> StoreOptions \<Rightarrow> 'b RuntimeState \<Rightarrow> (StoreObject, PerError) result \<times> 'b RuntimeState" where
  "Runtime_OpenStore T bound o' rs =
     (if \<not> bound \<or> store_options_invalid o' then (Inl (per_error PE_invalid_argument ''store options are invalid''), rs)
      else
        let ((st, h), rs) = on_backend (\<lambda>b. paired (bt_store_open T (store_descriptor o') b)) rs in
        result_of T st \<lparr>st_bound = True, st_handle = written 0 h\<rparr> rs)"

definition Runtime_Stop :: "'b BackendTable \<Rightarrow> bool \<Rightarrow> 'b RuntimeState \<Rightarrow> bool \<times> 'b RuntimeState" where
  "Runtime_Stop T bound rs = (False, if bound then RuntimeState_Stop T rs else rs)"

text \<open>A provider's factory as \<open>Create\<close> meets it: what its record says, and the provider that creating returns with its
  table, of which every needed function may be missing; \<open>factory_size\<close> and \<open>table_size\<close> are the sizes that cover the last
  member used.\<close>

record RuntimeConfig =
  cf_configuration :: string
  cf_max_stores :: u32
  cf_max_transactions :: u32

record 'b Provider =
  pv_table_struct_size :: nat
  pv_table_abi_version :: u32
  pv_table_complete :: bool
  pv_start :: "'b \<Rightarrow> Status \<times> 'b"
  pv_backend :: 'b

record 'b Factory =
  fa_struct_size :: nat
  fa_abi_version :: u32
  fa_functions :: bool
  fa_name :: "string option"
  fa_create :: "RuntimeConfig \<Rightarrow> Status \<times> 'b Provider option"

definition abi_version_1 :: u32 where
  "abi_version_1 = 1"

text \<open>The allocations of \<open>Create\<close>: the shared state, then the runtime object. The second part of the result is how often
  \<open>destroy\<close> is called on the provider: the handler of an exception calls it, and so does the shared state when it is
  unwound.\<close>

datatype Allocation = AL_succeeds | AL_state_fails | AL_object_fails

definition Runtime_Create ::
  "nat \<Rightarrow> nat \<Rightarrow> Allocation \<Rightarrow> 'b Factory \<Rightarrow> RuntimeConfig \<Rightarrow> ('b RuntimeState, PerError) result \<times> nat" where
  "Runtime_Create factory_size table_size memory f config =
     (if fa_struct_size f < factory_size \<or> fa_abi_version f \<noteq> abi_version_1 \<or> \<not> fa_functions f \<or>
         fa_name f = None \<or> fa_name f = Some [] then
        (Inl (per_error PE_incompatible_abi ''invalid persistency provider factory''), 0)
      else case fa_create f config of
        (st, None) \<Rightarrow> (Inl (per_error (ToErrorCode st) ''cannot create persistency provider''), 0)
      | (st, Some p) \<Rightarrow>
          if st \<noteq> ST_OK then (Inl (per_error (ToErrorCode st) ''cannot create persistency provider''), 0)
          else if \<not> (pv_table_struct_size p \<ge> table_size \<and> pv_table_abi_version p = abi_version_1 \<and> pv_table_complete p) then
            (Inl (per_error PE_incompatible_abi ''persistency provider table is incomplete''), 1)
          else
            let (started, b) = pv_start p (pv_backend p) in
            if started \<noteq> ST_OK then (Inl (per_error PE_backend_failure ''cannot start persistency provider''), 1)
            else case memory of
              AL_state_fails \<Rightarrow> (Inl (per_error PE_resource_exhausted ''cannot allocate persistency runtime''), 1)
            | AL_object_fails \<Rightarrow> (Inl (per_error PE_resource_exhausted ''cannot allocate persistency runtime''), 2)
            | AL_succeeds \<Rightarrow> (Inr \<lparr>rs_backend = b, rs_running = True\<rparr>, 0))"

text \<open>\<open>LoadFrom\<close>: the candidates in the order they are tried, and what the loader finds.\<close>

fun split_paths :: "string \<Rightarrow> string \<Rightarrow> string list" where
  "split_paths acc [] = [acc]"
| "split_paths acc (c # cs) = (if c = CHR '':'' then acc # split_paths [] cs else split_paths (acc @ [c]) cs)"

definition provider_filename :: "string \<Rightarrow> string" where
  "provider_filename provider = ''libovf_per_provider_'' @ provider @ ''.so''"

definition provider_candidates :: "string option \<Rightarrow> string \<Rightarrow> string \<Rightarrow> string list" where
  "provider_candidates search directory filename =
     (case search of
        None \<Rightarrow> []
      | Some paths \<Rightarrow> map (\<lambda>d. if d = [] then filename else d @ ''/'' @ filename) (split_paths [] paths)) @
     (if directory = [] then [] else [directory @ ''/'' @ filename]) @ [filename]"

definition Runtime_LoadFrom ::
  "nat \<Rightarrow> nat \<Rightarrow> Allocation \<Rightarrow> string option \<Rightarrow> (string \<Rightarrow> 'l option) \<Rightarrow> ('l \<Rightarrow> 'b Factory option) \<Rightarrow> string \<Rightarrow> string \<Rightarrow> RuntimeConfig
     \<Rightarrow> ('b RuntimeState, PerError) result" where
  "Runtime_LoadFrom factory_size table_size memory search dlopen query provider directory config =
     (if \<not> ValidProviderName provider then Inl (per_error PE_invalid_argument ''invalid persistency provider name'')
      else if directory \<noteq> [] \<and> hd directory \<noteq> CHR ''/'' then
        Inl (per_error PE_invalid_argument ''provider directory must be absolute'')
      else case List.find (\<lambda>c. dlopen c \<noteq> None) (provider_candidates search directory (provider_filename provider)) of
        None \<Rightarrow> Inl (per_error PE_not_found ''cannot load persistency provider'')
      | Some candidate \<Rightarrow>
          (case query (the (dlopen candidate)) of
             None \<Rightarrow> Inl (per_error PE_incompatible_abi ''persistency provider query is missing'')
           | Some f \<Rightarrow> fst (Runtime_Create factory_size table_size memory f config)))"

definition Runtime_Open ::
  "nat \<Rightarrow> nat \<Rightarrow> Allocation \<Rightarrow> string option \<Rightarrow> (string \<Rightarrow> 'l option) \<Rightarrow> ('l \<Rightarrow> 'b Factory option)
     \<Rightarrow> 'b Factory option \<Rightarrow> string \<Rightarrow> string \<Rightarrow> RuntimeConfig \<Rightarrow> ('b RuntimeState, PerError) result" where
  "Runtime_Open factory_size table_size memory search dlopen query factory provider directory config =
     (case factory of
        Some f \<Rightarrow> fst (Runtime_Create factory_size table_size memory f config)
      | None \<Rightarrow>
          if provider \<noteq> [] then Runtime_LoadFrom factory_size table_size memory search dlopen query provider directory config
          else Inl (per_error PE_invalid_argument ''Runtime::Open requires either a factory or a provider name''))"

section \<open>The in-memory provider as a table\<close>

definition memory_table :: "(nat \<Rightarrow> bool) \<Rightarrow> MemoryBackend BackendTable" where
  "memory_table fits = \<lparr>
     bt_stop = Stop,
     bt_get_capabilities = (\<lambda>b. let (st, r) = GetCapabilities True b in (st, r, b)),
     bt_store_open = (\<lambda>d. OpenStore (Some d) True),
     bt_store_close = CloseStore,
     bt_read_begin = (\<lambda>h. BeginRead h True),
     bt_write_begin = (\<lambda>h d. BeginWrite h d True),
     bt_write_begin_at = (\<lambda>h d g. BeginWriteAt h d g True),
     bt_transaction_get = (\<lambda>h k out b. let (st, r) = Get h k (Some out) b in (st, written out r, b)),
     bt_transaction_put = Put,
     bt_transaction_erase = (\<lambda>h k. Erase h k True),
     bt_transaction_commit = (\<lambda>h. Commit h True),
     bt_transaction_abort = Abort,
     bt_transaction_close = CloseTransaction,
     bt_cursor_open = (\<lambda>h p. OpenCursor h p True True),
     bt_cursor_next = (\<lambda>h out b. let (st, r, b) = NextCursor h (Some out) b in (st, written out r, b)),
     bt_cursor_close = CloseCursor,
     bt_blob_read_open = (\<lambda>h k b. let (st, r, b) = OpenBlobRead h k True b in
        (st, map_option (\<lambda>(h, n, g). (h, of_nat n, g)) r, b)),
     bt_blob_replace_begin = (\<lambda>h k n d. BeginBlobReplace h k n d True (fits (unat n))),
     bt_blob_read = (\<lambda>h n out b. let (st, r) = ReadBlob h n (Some out) b in (st, written out r, b)),
     bt_blob_write = WriteBlob,
     bt_blob_commit = (\<lambda>h. CommitBlob h True),
     bt_blob_abort = AbortBlob,
     bt_blob_close = CloseBlob,
     bt_store_reset = (\<lambda>h es d. ResetStore h (Some es) d True True),
     bt_store_status = (\<lambda>h b. let (st, r) = GetStoreStatus h True b in (st, r, b)),
     bt_migration_begin = (\<lambda>h d c b. let (st, r, c', b) = BeginMigration h (Some d) True (Some c) b in (st, r, written c c', b)),
     bt_migration_apply = (\<lambda>h k t w. ApplyMigration h k t w True),
     bt_migration_commit = (\<lambda>h. CommitMigration h True),
     bt_migration_abort = AbortMigration,
     bt_migration_close = CloseMigration,
     bt_store_rollback = (\<lambda>h d. RollbackStore h d True),
     bt_last_error = (\<lambda>out b. let (st, r) = LastError (Some out) b in (st, written out r, b)),
     bt_fits = fits \<rparr>"

end
