(* ===== verification/Per_Runtime_Memory.thy ===== *)
theory Per_Runtime_Memory
  imports Per_Runtime
begin

text \<open>
  The persistence runtime over the in-memory provider. The locales \<open>reading_provider\<close> and \<open>iterating_provider\<close> state what
  the two-call protocol of \<open>Get\<close> and \<open>Next\<close> relies on; they are interpreted on \<open>memory_table\<close>. On top of them: a transaction
  reads its own writes, a cursor finds exactly the entries of its prefix, a migration is atomic and resumable, a blob
  written in chunks is read back, and three cases where an error does not reach the caller.
\<close>

section \<open>The provider's contract for reading\<close>

text \<open>What the two calls of a read rely on: without a buffer the provider tells the size, with a buffer of that size it
  fills it, and neither changes what the other sees.\<close>

locale reading_provider =
  fixes T :: "'b BackendTable" and lookup :: "'b \<Rightarrow> Handle \<Rightarrow> bytes \<Rightarrow> bytes option"
  assumes get_absent: "k \<noteq> [] \<Longrightarrow> lookup b h k = None \<Longrightarrow> bt_transaction_get T h (span_view k) out b = (ST_NOT_FOUND, out, b)"
    and get_size: "k \<noteq> [] \<Longrightarrow> lookup b h k = Some v \<Longrightarrow>
      bt_transaction_get T h (span_view k) no_buffer b = (ST_BUFFER_TOO_SMALL, no_buffer\<lparr>mu_size := length v\<rparr>, b)"
    and get_fills: "k \<noteq> [] \<Longrightarrow> lookup b h k = Some v \<Longrightarrow> v \<noteq> [] \<Longrightarrow>
      bt_transaction_get T h (span_view k) (vector_buffer (length v)) b = (ST_OK, \<lparr>mu_data = Some v, mu_size = length v\<rparr>, b)"
begin

lemma GetValue_lookup:
  assumes "h \<noteq> 0" and "k \<noteq> []" and "rs_running rs"
    and "\<forall>v. lookup (rs_backend rs) h k = Some v \<longrightarrow> bt_fits T (length v)"
  shows "GetValue T True h k rs = (Inr (lookup (rs_backend rs) h k), rs)"
proof (cases "lookup (rs_backend rs) h k")
  case None
  then show ?thesis using assms get_absent [OF assms(2) None] by (simp add: GetValue_def on_backend_def paired_def)
next
  case (Some v)
  show ?thesis
  proof (cases "v = []")
    case True
    then show ?thesis using assms Some get_size [OF assms(2) Some]
      by (simp add: GetValue_def on_backend_def paired_def Let_def no_buffer_def)
  next
    case False
    then show ?thesis using assms Some get_size [OF assms(2) Some] get_fills [OF assms(2) Some False]
      by (simp add: GetValue_def on_backend_def paired_def Let_def no_buffer_def buffer_bytes_def)
  qed
qed

end

text \<open>A loop over \<open>Next\<close>, with a bound on its rounds.\<close>

fun iterate_all :: "'b BackendTable \<Rightarrow> nat \<Rightarrow> RtCursor \<Rightarrow> 'b RuntimeState \<Rightarrow> (Values, PerError) result option" where
  "iterate_all T 0 c rs = None"
| "iterate_all T (Suc n) c rs =
     (case Cursor_Next T c rs of
        (Inl e, rs) \<Rightarrow> Some (Inl e)
      | (Inr None, rs) \<Rightarrow> Some (Inr [])
      | (Inr (Some e), rs) \<Rightarrow> map_option (map_sum id ((#) e)) (iterate_all T n c rs))"

locale iterating_provider =
  fixes T :: "'b BackendTable" and remaining :: "'b \<Rightarrow> Handle \<Rightarrow> Values option" and advance :: "Handle \<Rightarrow> 'b \<Rightarrow> 'b"
  assumes next_end: "remaining b h = Some [] \<Longrightarrow> bt_cursor_next T h outs b = (ST_NOT_FOUND, outs, b)"
    and next_size: "remaining b h = Some ((k, v) # es) \<Longrightarrow> k \<noteq> [] \<Longrightarrow>
      bt_cursor_next T h (no_buffer, no_buffer) b =
        (ST_BUFFER_TOO_SMALL, (no_buffer\<lparr>mu_size := length k\<rparr>, no_buffer\<lparr>mu_size := length v\<rparr>), b)"
    and next_fills: "remaining b h = Some ((k, v) # es) \<Longrightarrow> k \<noteq> [] \<Longrightarrow>
      bt_cursor_next T h (vector_buffer (length k), vector_buffer (length v)) b =
        (ST_OK, (\<lparr>mu_data = Some k, mu_size = length k\<rparr>,
                 \<lparr>mu_data = (if v = [] then None else Some v), mu_size = length v\<rparr>), advance h b)"
    and remaining_advance: "remaining b h = Some (e # es) \<Longrightarrow> remaining (advance h b) h = Some es"
begin

lemma Cursor_Next_end:
  "rc_bound c \<Longrightarrow> rc_handle c \<noteq> 0 \<Longrightarrow> remaining (rs_backend rs) (rc_handle c) = Some [] \<Longrightarrow>
   Cursor_Next T c rs = (Inr None, rs)"
  using next_end [of "rs_backend rs" "rc_handle c"] by (simp add: Cursor_Next_def Cursor_valid_def on_backend_def paired_def)

lemma Cursor_Next_entry:
  assumes "rc_bound c" and "rc_handle c \<noteq> 0" and "remaining (rs_backend rs) (rc_handle c) = Some ((k, v) # es)" and "k \<noteq> []"
    and "bt_fits T (length k)" and "bt_fits T (length v)"
  shows "Cursor_Next T c rs = (Inr (Some (k, v)), rs\<lparr>rs_backend := advance (rc_handle c) (rs_backend rs)\<rparr>)"
  using assms next_size [OF assms(3,4)] next_fills [OF assms(3,4)]
  by (simp add: Cursor_Next_def Cursor_valid_def on_backend_def paired_def Let_def no_buffer_def buffer_bytes_def)

lemma iterate_all_remaining:
  "rc_bound c \<Longrightarrow> rc_handle c \<noteq> 0 \<Longrightarrow> remaining (rs_backend rs) (rc_handle c) = Some es \<Longrightarrow>
   \<forall>(k, v) \<in> set es. k \<noteq> [] \<and> bt_fits T (length k) \<and> bt_fits T (length v) \<Longrightarrow> length es < n \<Longrightarrow>
   iterate_all T n c rs = Some (Inr es)"
proof (induction es arbitrary: n rs)
  case Nil
  then show ?case using Cursor_Next_end [of c rs] by (cases n) auto
next
  case (Cons e es)
  obtain k v where e: "e = (k, v)" by fastforce
  obtain m where n: "n = Suc m" using Cons.prems(5) by (cases n) auto
  have "Cursor_Next T c rs = (Inr (Some (k, v)), rs\<lparr>rs_backend := advance (rc_handle c) (rs_backend rs)\<rparr>)"
    using Cons.prems e by (intro Cursor_Next_entry) auto
  moreover have "iterate_all T m c (rs\<lparr>rs_backend := advance (rc_handle c) (rs_backend rs)\<rparr>) = Some (Inr es)"
    using Cons.prems n remaining_advance [OF Cons.prems(3)] by (intro Cons.IH) auto
  ultimately show ?case by (simp add: n e)
qed

end

section \<open>The in-memory provider keeps it\<close>

lemma memory_table_simps [simp]:
  "bt_stop (memory_table fits) = Stop"
  "bt_store_open (memory_table fits) d = OpenStore (Some d) True"
  "bt_read_begin (memory_table fits) h = BeginRead h True"
  "bt_transaction_get (memory_table fits) h key out b = (let (st, r) = Get h key (Some out) b in (st, written out r, b))"
  "bt_transaction_put (memory_table fits) = Put"
  "bt_transaction_commit (memory_table fits) h = Commit h True"
  "bt_transaction_close (memory_table fits) = CloseTransaction"
  "bt_cursor_open (memory_table fits) h p = OpenCursor h p True True"
  "bt_cursor_next (memory_table fits) h outs b = (let (st, r, b) = NextCursor h (Some outs) b in (st, written outs r, b))"
  "bt_cursor_close (memory_table fits) = CloseCursor"
  "bt_blob_write (memory_table fits) = WriteBlob"
  "bt_blob_commit (memory_table fits) h = CommitBlob h True"
  "bt_blob_close (memory_table fits) = CloseBlob"
  "bt_migration_begin (memory_table fits) h md c b =
     (let (st, r, c', b) = BeginMigration h (Some md) True (Some c) b in (st, r, written c c', b))"
  "bt_migration_apply (memory_table fits) h key t w = ApplyMigration h key t w True"
  "bt_migration_commit (memory_table fits) h = CommitMigration h True"
  "bt_migration_abort (memory_table fits) = AbortMigration"
  "bt_migration_close (memory_table fits) = CloseMigration"
  "bt_last_error (memory_table fits) out b = (let (st, r) = LastError (Some out) b in (st, written out r, b))"
  "bt_fits (memory_table fits) = fits"
  by (simp_all add: memory_table_def)

definition memory_lookup :: "MemoryBackend \<Rightarrow> Handle \<Rightarrow> bytes \<Rightarrow> bytes option" where
  "memory_lookup b h k =
     (case um_find (mb_transactions b) h of None \<Rightarrow> None | Some t \<Rightarrow> if tx_finished t then None else um_find (tx_values t) k)"

definition memory_remaining :: "MemoryBackend \<Rightarrow> Handle \<Rightarrow> Values option" where
  "memory_remaining b h =
     (case um_find (mb_cursors b) h of
        None \<Rightarrow> None
      | Some c \<Rightarrow> if cu_position c \<le> length (cu_entries c) then Some (drop (cu_position c) (cu_entries c)) else None)"

definition memory_advance :: "Handle \<Rightarrow> MemoryBackend \<Rightarrow> MemoryBackend" where
  "memory_advance h b =
     (case um_find (mb_cursors b) h of
        None \<Rightarrow> b
      | Some c \<Rightarrow> b\<lparr>mb_cursors := um_set h (c\<lparr>cu_position := cu_position c + 1\<rparr>) (mb_cursors b)\<rparr>)"

lemma span_view_simps [simp]: "Valid (span_view bs)" "Copy (span_view bs) = bs" "view_size (span_view bs) = length bs"
  by (simp_all add: span_view_def)

interpretation mem: reading_provider "memory_table fits" memory_lookup for fits
proof
  fix k :: bytes and b h v
  assume k: "k \<noteq> []" and v: "memory_lookup b h k = Some v"
  then obtain t where "um_find (mb_transactions b) h = Some t" "\<not> tx_finished t" "um_find (tx_values t) k = Some v"
    by (auto simp: memory_lookup_def split: option.splits if_splits)
  note t = this
  show "bt_transaction_get (memory_table fits) h (span_view k) no_buffer b = (ST_BUFFER_TOO_SMALL, no_buffer\<lparr>mu_size := length v\<rparr>, b)"
    using k t by (simp add: Get_def fill_buffer_def no_buffer_def written_def)
  assume "v \<noteq> []"
  then show "bt_transaction_get (memory_table fits) h (span_view k) (vector_buffer (length v)) b =
      (ST_OK, \<lparr>mu_data = Some v, mu_size = length v\<rparr>, b)"
    using k t by (simp add: Get_def fill_buffer_def vector_buffer_def written_def memcpy_all)
qed (auto simp: memory_lookup_def Get_def written_def split: option.splits if_splits)

lemma memory_remaining_Cons:
  assumes "memory_remaining b h = Some (e # es)"
  obtains c where "um_find (mb_cursors b) h = Some c" "cu_position c < length (cu_entries c)"
    "cu_entries c ! cu_position c = e" "drop (Suc (cu_position c)) (cu_entries c) = es"
proof -
  obtain c where c: "um_find (mb_cursors b) h = Some c" "drop (cu_position c) (cu_entries c) = e # es"
    using assms by (auto simp: memory_remaining_def split: option.splits if_splits)
  then have "cu_position c < length (cu_entries c)" by (cases "cu_position c < length (cu_entries c)") auto
  then show ?thesis using that c by (metis Cons_nth_drop_Suc list.inject)
qed

interpretation mem: iterating_provider "memory_table fits" memory_remaining memory_advance for fits
proof
  fix b h outs
  assume "memory_remaining b h = Some []"
  then show "bt_cursor_next (memory_table fits) h outs b = (ST_NOT_FOUND, outs, b)"
    by (auto simp: memory_remaining_def NextCursor_def written_def split: option.splits if_splits prod.split)
next
  fix b h k v es
  assume r: "memory_remaining b h = Some ((k, v) # es)" and k: "k \<noteq> []"
  obtain c where c: "um_find (mb_cursors b) h = Some c" "cu_position c < length (cu_entries c)"
    "cu_entries c ! cu_position c = (k, v)" by (rule memory_remaining_Cons [OF r])
  show "bt_cursor_next (memory_table fits) h (no_buffer, no_buffer) b =
      (ST_BUFFER_TOO_SMALL, (no_buffer\<lparr>mu_size := length k\<rparr>, no_buffer\<lparr>mu_size := length v\<rparr>), b)"
    using c k by (simp add: NextCursor_def buffer_short_def no_buffer_def written_def)
  show "bt_cursor_next (memory_table fits) h (vector_buffer (length k), vector_buffer (length v)) b =
      (ST_OK, (\<lparr>mu_data = Some k, mu_size = length k\<rparr>, \<lparr>mu_data = (if v = [] then None else Some v), mu_size = length v\<rparr>),
       memory_advance h b)"
    using c k by (simp add: NextCursor_def buffer_short_def vector_buffer_def copy_out_def memcpy_all memory_advance_def written_def)
next
  fix b h e es
  assume "memory_remaining b h = Some (e # es)"
  then show "memory_remaining (memory_advance h b) h = Some es"
    by (elim memory_remaining_Cons) (simp add: memory_remaining_def memory_advance_def)
qed

section \<open>Keys and handles of the in-memory provider\<close>

text \<open>No entry has an empty key, and the next handle is not in use.\<close>

named_theorems keyed_intros

definition nonempty_keys :: "Values \<Rightarrow> bool" where
  "nonempty_keys vs \<longleftrightarrow> [] \<notin> fst ` set vs"

definition store_keyed :: "StoreData \<Rightarrow> bool" where
  "store_keyed s \<longleftrightarrow> nonempty_keys (sd_values s) \<and> nonempty_keys (sd_rollback_values s) \<and> nonempty_keys (sd_migration_values s)"

definition contents_keyed :: "MemoryBackend \<Rightarrow> bool" where
  "contents_keyed b \<longleftrightarrow> (\<forall>r s. um_find (mb_stores b) r = Some s \<longrightarrow> store_keyed s) \<and>
     (\<forall>h t. um_find (mb_transactions b) h = Some t \<longrightarrow> nonempty_keys (tx_values t))"

lemma nonempty_keys_simps [simp]:
  "nonempty_keys []" "nonempty_keys vs \<Longrightarrow> nonempty_keys (um_erase k vs)"
  "k \<noteq> [] \<Longrightarrow> nonempty_keys vs \<Longrightarrow> nonempty_keys (om_set k v vs)"
  by (auto simp: nonempty_keys_def um_erase_def fst_om_set)

lemma store_keyed_at: "contents_keyed b \<Longrightarrow> store_keyed (store_at b r)"
  by (auto simp: contents_keyed_def store_at_def store_keyed_def empty_store_def split: option.split)

lemma keyed_with_store [keyed_intros]:
  "contents_keyed b \<Longrightarrow> store_keyed (f (store_at b r)) \<Longrightarrow> contents_keyed (with_store r f b)"
  by (auto simp: contents_keyed_def)

lemma keyed_set_transaction [keyed_intros]:
  "contents_keyed b \<Longrightarrow> nonempty_keys (tx_values t) \<Longrightarrow> contents_keyed (set_transaction h t b)"
  by (auto simp: contents_keyed_def set_transaction_def)

lemma keyed_cong: "mb_stores b' = mb_stores b \<Longrightarrow> mb_transactions b' = mb_transactions b \<Longrightarrow> contents_keyed b' = contents_keyed b"
  by (simp add: contents_keyed_def)

lemma keyed_fields [simp]:
  "contents_keyed (b\<lparr>mb_running := x\<rparr>) = contents_keyed b" "contents_keyed (b\<lparr>mb_store_handles := y\<rparr>) = contents_keyed b"
  "contents_keyed (b\<lparr>mb_blobs := z\<rparr>) = contents_keyed b" "contents_keyed (b\<lparr>mb_cursors := w\<rparr>) = contents_keyed b"
  "contents_keyed (b\<lparr>mb_migrations := m\<rparr>) = contents_keyed b" "contents_keyed (b\<lparr>mb_next_handle := n\<rparr>) = contents_keyed b"
  "contents_keyed (SetError e b) = contents_keyed b" "contents_keyed (set_blob h op b) = contents_keyed b"
  "contents_keyed (b\<lparr>mb_blobs := z, mb_cursors := w\<rparr>) = contents_keyed b"
  "contents_keyed (b\<lparr>mb_migrations := m, mb_store_handles := y\<rparr>) = contents_keyed b"
  "contents_keyed (b\<lparr>mb_next_handle := n, mb_blobs := z\<rparr>) = contents_keyed b"
  "contents_keyed (b\<lparr>mb_next_handle := n, mb_cursors := w\<rparr>) = contents_keyed b"
  "contents_keyed (b\<lparr>mb_next_handle := n, mb_migrations := m\<rparr>) = contents_keyed b"
  "contents_keyed (b\<lparr>mb_next_handle := n, mb_store_handles := y\<rparr>) = contents_keyed b"
  by (rule keyed_cong; simp add: set_blob_def)+

lemma store_keyed_fields [simp]:
  "store_keyed (s\<lparr>sd_writer_active := a\<rparr>) = store_keyed s" "store_keyed (s\<lparr>sd_migration_handle_active := a\<rparr>) = store_keyed s"
  "store_keyed (s\<lparr>sd_rejected_operations := n\<rparr>) = store_keyed s"
  "store_keyed s \<Longrightarrow> store_keyed (start_migration md s)"
  "store_keyed s \<Longrightarrow> store_keyed (migrated_store s)" "store_keyed s \<Longrightarrow> store_keyed (rolled_back_store s)"
  "store_keyed (new_store sd)"
  by (auto simp: store_keyed_def start_migration_def migrated_store_def rolled_back_store_def new_store_def empty_store_def)

lemma keyed_release [keyed_intros]:
  "contents_keyed b \<Longrightarrow> contents_keyed (release_writer r b)" "contents_keyed b \<Longrightarrow> contents_keyed (release_migration r b)"
  "contents_keyed b \<Longrightarrow> contents_keyed (release_transaction t b)" "contents_keyed b \<Longrightarrow> contents_keyed (release_blob op b)"
  "contents_keyed b \<Longrightarrow> contents_keyed (reject r b)"
  by (auto simp: release_writer_def release_migration_def release_transaction_def release_blob_def reject_def
      intro!: keyed_with_store dest: store_keyed_at)

lemma keyed_fold: "contents_keyed b \<Longrightarrow> (\<And>x b. contents_keyed b \<Longrightarrow> contents_keyed (f x b)) \<Longrightarrow> contents_keyed (fold f xs b)"
  by (induction xs arbitrary: b) auto

lemma keyed_new_store: "contents_keyed b \<Longrightarrow> store_keyed s \<Longrightarrow> contents_keyed (b\<lparr>mb_stores := um_emplace r s (mb_stores b)\<rparr>)"
  by (auto simp: contents_keyed_def split: if_splits)

lemma keyed_issue_transaction:
  "contents_keyed b \<Longrightarrow> m = mb_transactions b \<Longrightarrow> nonempty_keys (tx_values t) \<Longrightarrow>
   contents_keyed (b\<lparr>mb_next_handle := n, mb_transactions := um_emplace h t m\<rparr>)"
  by (auto simp: contents_keyed_def split: if_splits)

lemma keyed_drop_transactions [keyed_intros]:
  "contents_keyed b \<Longrightarrow> m = mb_transactions b \<Longrightarrow> contents_keyed (b\<lparr>mb_transactions := um_erase h m\<rparr>)"
  "contents_keyed b \<Longrightarrow> contents_keyed (b\<lparr>mb_transactions := []\<rparr>)"
  by (auto simp: contents_keyed_def split: if_splits)

lemma keyed_transaction: "contents_keyed b \<Longrightarrow> um_find (mb_transactions b) h = Some t \<Longrightarrow> nonempty_keys (tx_values t)"
  by (simp add: contents_keyed_def)

lemma keyed_writing: "contents_keyed b \<Longrightarrow> writing h b = Some t \<Longrightarrow> nonempty_keys (tx_values t)"
  by (auto simp: writing_def intro: keyed_transaction split: option.splits if_splits)

lemma view_size_nonempty: "Valid v \<Longrightarrow> view_size v \<noteq> 0 \<Longrightarrow> Copy v \<noteq> []"
  by (cases v) auto

lemma reset_values_keyed: "reset_values s es vs = Some vs' \<Longrightarrow> nonempty_keys vs \<Longrightarrow> nonempty_keys vs'"
  by (induction s es vs rule: reset_values.induct) (auto split: if_splits simp: view_size_nonempty)

lemma Stop_keyed: "contents_keyed b \<Longrightarrow> contents_keyed (Stop b)"
  unfolding Stop_def Let_def
  by (auto intro!: keyed_fold keyed_drop_transactions(2) keyed_release split: prod.split)

lemma OpenStore_keyed: "contents_keyed b \<Longrightarrow> contents_keyed (snd (snd (OpenStore d o' b)))"
  by (auto simp: OpenStore_def issue_store_handle_def take_handle_def Let_def keyed_new_store split: option.split)

lemma BeginTransaction_keyed: "contents_keyed b \<Longrightarrow> contents_keyed (snd (snd (BeginTransaction h du w e o' b)))"
  using store_keyed_at [of b]
  by (auto simp: BeginTransaction_def take_handle_def Let_def store_keyed_def split: option.split
      intro!: keyed_issue_transaction keyed_with_store)

lemma Put_keyed: "contents_keyed b \<Longrightarrow> contents_keyed (snd (Put h k v b))"
  using keyed_writing [of b h]
  by (auto simp: Put_def Let_def view_size_nonempty split: option.split intro!: keyed_set_transaction)

lemma Erase_keyed: "contents_keyed b \<Longrightarrow> contents_keyed (snd (snd (Erase h k o' b)))"
  using keyed_writing [of b h] by (auto simp: Erase_def split: option.split intro!: keyed_set_transaction)

lemma Commit_keyed: "contents_keyed b \<Longrightarrow> contents_keyed (snd (snd (Commit h o' b)))"
  using keyed_writing [of b h] store_keyed_at [of b]
  by (auto simp: Commit_def Let_def store_keyed_def split: option.split intro!: keyed_set_transaction keyed_with_store keyed_release)

lemma end_transaction_keyed:
  "contents_keyed b \<Longrightarrow> contents_keyed (snd (Abort h b))" "contents_keyed b \<Longrightarrow> contents_keyed (snd (CloseTransaction h b))"
  using keyed_transaction [of b h]
  by (auto simp: Abort_def CloseTransaction_def Let_def split: option.split intro!: keyed_intros)

lemma blob_keyed:
  "contents_keyed b \<Longrightarrow> contents_keyed (snd (snd (OpenBlobRead h k o' b)))"
  "contents_keyed b \<Longrightarrow> contents_keyed (snd (snd (BeginBlobReplace h k n du o' f b)))"
  "contents_keyed b \<Longrightarrow> contents_keyed (snd (WriteBlob h off i b))"
  "contents_keyed b \<Longrightarrow> contents_keyed (snd (snd (CommitBlob h o' b)))"
  "contents_keyed b \<Longrightarrow> contents_keyed (snd (AbortBlob h b))" "contents_keyed b \<Longrightarrow> contents_keyed (snd (CloseBlob h b))"
  using store_keyed_at [of b]
  by (auto simp: OpenBlobRead_def BeginBlobReplace_def WriteBlob_def CommitBlob_def AbortBlob_def CloseBlob_def take_handle_def Let_def
      store_keyed_def split: option.split intro!: keyed_with_store keyed_release)

lemma cursor_keyed:
  "contents_keyed b \<Longrightarrow> contents_keyed (snd (snd (OpenCursor h p o' f b)))"
  "contents_keyed b \<Longrightarrow> contents_keyed (snd (snd (NextCursor h outs b)))"
  "contents_keyed b \<Longrightarrow> contents_keyed (snd (CloseCursor h b))"
  by (auto simp: OpenCursor_def NextCursor_def CloseCursor_def take_handle_def Let_def split: option.split prod.split)

lemma ResetStore_keyed: "contents_keyed b \<Longrightarrow> contents_keyed (snd (snd (ResetStore h es du o' f b)))"
  using store_keyed_at [of b] reset_values_keyed
  by (auto simp: ResetStore_def Let_def store_keyed_def split: option.split intro!: keyed_with_store keyed_release)

lemma issue_migration_keyed: "contents_keyed b \<Longrightarrow> contents_keyed (snd (snd (snd (issue_migration r d x c b))))"
  using store_keyed_at [of b r] by (simp add: issue_migration_def take_handle_def Let_def keyed_with_store)

lemma BeginMigration_keyed: "contents_keyed b \<Longrightarrow> contents_keyed (snd (snd (snd (BeginMigration h d o' c b))))"
  using store_keyed_at [of b]
  by (auto simp: BeginMigration_def Let_def split: option.split intro!: issue_migration_keyed keyed_with_store)

lemma ApplyMigration_keyed: "contents_keyed b \<Longrightarrow> contents_keyed (snd (ApplyMigration h k t w f b))"
  using store_keyed_at [of b]
  by (auto simp: ApplyMigration_def Let_def store_keyed_def view_size_nonempty split: option.split prod.split intro!: keyed_with_store)

lemma end_migration_keyed:
  "contents_keyed b \<Longrightarrow> contents_keyed (snd (snd (CommitMigration h o' b)))"
  "contents_keyed b \<Longrightarrow> contents_keyed (snd (AbortMigration h b))" "contents_keyed b \<Longrightarrow> contents_keyed (snd (CloseMigration h b))"
  "contents_keyed b \<Longrightarrow> contents_keyed (snd (snd (RollbackStore sh du o' b)))"
  using store_keyed_at [of b]
  by (auto simp: CommitMigration_def AbortMigration_def CloseMigration_def RollbackStore_def Let_def split: option.split
      intro!: keyed_with_store keyed_release)

lemma perform_keyed: "contents_keyed b \<Longrightarrow> contents_keyed (perform c b)"
  by (cases c) (simp_all add: Start_def CloseStore_def Stop_keyed OpenStore_keyed BeginTransaction_keyed Put_keyed Erase_keyed
      Commit_keyed end_transaction_keyed blob_keyed cursor_keyed ResetStore_keyed BeginMigration_keyed ApplyMigration_keyed
      end_migration_keyed)

lemma runs_keyed: "backend_runs b b' \<Longrightarrow> contents_keyed b \<Longrightarrow> contents_keyed b'"
  by (induction rule: backend_runs.induct) (simp_all add: perform_keyed)

lemma reachable_keyed:
  assumes "backend_reachable b"
  shows "contents_keyed b"
proof -
  obtain ms mt b0 where "MemoryBackend_Create True ms mt True = (ST_OK, Some b0)" "backend_runs b0 b"
    using assms by (auto simp: backend_reachable_def)
  then show ?thesis
    by (intro runs_keyed [of b0 b]) (auto simp: MemoryBackend_Create_def contents_keyed_def split: if_splits)
qed

text \<open>A call issues at most one handle, the next one, for a cursor or a migration too.\<close>

definition issues :: "MemoryBackend \<Rightarrow> MemoryBackend \<Rightarrow> bool" where
  "issues b b' \<longleftrightarrow>
     (mb_next_handle b' = mb_next_handle b \<and>
        (\<forall>h. um_find (mb_cursors b') h \<noteq> None \<longrightarrow> um_find (mb_cursors b) h \<noteq> None) \<and>
        (\<forall>h. um_find (mb_migrations b') h \<noteq> None \<longrightarrow> um_find (mb_migrations b) h \<noteq> None)) \<or>
     (mb_next_handle b' = mb_next_handle b + 1 \<and>
        (\<forall>h. um_find (mb_cursors b') h \<noteq> None \<longrightarrow> um_find (mb_cursors b) h \<noteq> None \<or> h = mb_next_handle b) \<and>
        (\<forall>h. um_find (mb_migrations b') h \<noteq> None \<longrightarrow> um_find (mb_migrations b) h \<noteq> None \<or> h = mb_next_handle b))"

lemma issues_same:
  "mb_next_handle b' = mb_next_handle b \<or> mb_next_handle b' = mb_next_handle b + 1 \<Longrightarrow> mb_cursors b' = mb_cursors b \<Longrightarrow>
   mb_migrations b' = mb_migrations b \<Longrightarrow> issues b b'"
  by (auto simp: issues_def)

lemma handle_fields [simp]:
  "mb_cursors (SetError e b) = mb_cursors b"
  "mb_cursors (release_writer r b) = mb_cursors b" "mb_migrations (release_writer r b) = mb_migrations b"
  "mb_next_handle (release_writer r b) = mb_next_handle b"
  "mb_cursors (release_migration r b) = mb_cursors b" "mb_next_handle (release_migration r b) = mb_next_handle b"
  "mb_cursors (set_transaction h t b) = mb_cursors b" "mb_migrations (set_transaction h t b) = mb_migrations b"
  "mb_next_handle (set_transaction h t b) = mb_next_handle b"
  "mb_cursors (set_blob h op b) = mb_cursors b" "mb_migrations (set_blob h op b) = mb_migrations b"
  "mb_next_handle (set_blob h op b) = mb_next_handle b"
  "mb_cursors (release_transaction t b) = mb_cursors b" "mb_migrations (release_transaction t b) = mb_migrations b"
  "mb_next_handle (release_transaction t b) = mb_next_handle b"
  "mb_cursors (release_blob op b) = mb_cursors b" "mb_migrations (release_blob op b) = mb_migrations b"
  "mb_next_handle (release_blob op b) = mb_next_handle b"
  "mb_cursors (reject r b) = mb_cursors b" "mb_migrations (reject r b) = mb_migrations b" "mb_next_handle (reject r b) = mb_next_handle b"
  by (simp_all add: SetError_def release_writer_def release_migration_def set_transaction_def set_blob_def release_transaction_def
      release_blob_def reject_def)

lemma fold_next_handle: "(\<And>x b. mb_next_handle (f x b) = mb_next_handle b) \<Longrightarrow> mb_next_handle (fold f xs b) = mb_next_handle b"
  by (induction xs arbitrary: b) auto

lemma fold_cursors: "(\<And>x b. mb_cursors (f x b) = mb_cursors b) \<Longrightarrow> mb_cursors (fold f xs b) = mb_cursors b"
  by (induction xs arbitrary: b) auto

lemma Stop_issues: "issues b (Stop b)"
  by (auto simp: issues_def Stop_def Let_def fold_next_handle fold_cursors split: prod.split)

lemma issue_migration_issues:
  "mb_cursors b' = mb_cursors b \<Longrightarrow> mb_migrations b' = mb_migrations b \<Longrightarrow> mb_next_handle b' = mb_next_handle b \<Longrightarrow>
   issues b (snd (snd (snd (issue_migration r d x c b'))))"
  by (auto simp: issues_def issue_migration_def take_handle_def Let_def split: if_splits)

lemma perform_issues: "issues b (perform c b)"
proof (cases c)
  case (C_open_cursor h p o' f)
  then show ?thesis by (auto simp: issues_def OpenCursor_def take_handle_def Let_def split: option.split if_splits)
next
  case (C_next_cursor h outs)
  then show ?thesis by (auto simp: issues_def NextCursor_def Let_def split: option.split prod.split)
next
  case (C_close_cursor h)
  then show ?thesis by (auto simp: issues_def CloseCursor_def)
next
  case (C_close_migration h)
  then show ?thesis by (auto simp: issues_def CloseMigration_def Let_def split: option.split)
next
  case (C_begin_migration h d o' ck)
  then show ?thesis
    by (auto simp: BeginMigration_def Let_def issue_migration_issues issues_same split: option.split)
qed (auto simp: Stop_issues Start_def CloseStore_def OpenStore_def issue_store_handle_def BeginTransaction_def Put_def Erase_def Commit_def
    Abort_def CloseTransaction_def OpenBlobRead_def BeginBlobReplace_def WriteBlob_def CommitBlob_def AbortBlob_def CloseBlob_def
    ResetStore_def ApplyMigration_def CommitMigration_def AbortMigration_def RollbackStore_def take_handle_def Let_def
    intro!: issues_same split: option.split prod.split)

definition handles_ordered :: "MemoryBackend \<Rightarrow> bool" where
  "handles_ordered b \<longleftrightarrow> mb_next_handle b \<noteq> 0 \<and> handle_fresh (mb_next_handle b) (mb_cursors b) \<and>
     handle_fresh (mb_next_handle b) (mb_migrations b)"

lemma handles_ordered_step:
  assumes "issues b b'" and "handles_left b" and "handles_ordered b"
  shows "handles_ordered b'"
proof -
  have nxt: "mb_next_handle b < mb_next_handle b + 1" using assms(2) by (simp add: handles_left_def)
  have "h < mb_next_handle b + 1" if "h < mb_next_handle b \<or> h = mb_next_handle b" for h
    using that nxt by (auto intro: order.strict_trans)
  then show ?thesis
    using assms nxt unfolding handles_ordered_def issues_def handle_fresh_def
    by (metis not_less_zero option.exhaust option.distinct(1) word_not_simps(1))
qed

lemma reachable_ordered:
  assumes "backend_reachable b"
  shows "handles_ordered b"
proof -
  obtain ms mt b0 where b0: "MemoryBackend_Create True ms mt True = (ST_OK, Some b0)" and run: "backend_runs b0 b"
    using assms by (auto simp: backend_reachable_def)
  have "handles_ordered b0" using b0 by (auto simp: MemoryBackend_Create_def handles_ordered_def handle_fresh_def split: if_splits)
  with run show ?thesis
    by (induction rule: backend_runs.induct) (auto intro: handles_ordered_step perform_issues)
qed

text \<open>C33: every state of the in-memory provider that calls can reach is well formed. Each open handle refers to a store that
  exists, no handle that is still to be issued is in use, zero is never issued, no entry has an empty key, and every table
  holds a key once.\<close>

theorem reachable_well_formed:
  assumes "backend_reachable b"
  shows "backend_wf b \<and> contents_keyed b \<and> handles_ordered b"
  using inv_wf [OF backend_reachable_inv [OF assms]] reachable_keyed [OF assms] reachable_ordered [OF assms] by simp

section \<open>Reading through the runtime\<close>

lemma on_backend_simps [simp]: "on_backend f rs = (fst (f (rs_backend rs)), rs\<lparr>rs_backend := snd (f (rs_backend rs))\<rparr>)"
  by (simp add: on_backend_def split: prod.split)

lemma result_of_Inr: "result_of T st v rs = (Inr x, rs') \<longleftrightarrow> st = ST_OK \<and> v = x \<and> rs' = rs"
  by (auto simp: result_of_def split: prod.split)

text \<open>C30: a write transaction of the runtime reads its own writes. After a \<open>Put\<close> that succeeds over the in-memory
  provider, \<open>Get\<close> returns the value, an empty one too, and every other key reads as before.\<close>

theorem runtime_reads_own_writes:
  assumes "backend_reachable (rs_backend rs)" and "rs_running rs" and "\<forall>n. fits n"
    and put: "WriteTransaction_Put (memory_table fits) w key value rs = (Inr True, rs')"
  shows "WriteTransaction_Get (memory_table fits) w key rs' = (Inr (Some value), rs') \<and>
    (\<forall>other. other \<noteq> key \<longrightarrow>
       fst (WriteTransaction_Get (memory_table fits) w other rs') = fst (WriteTransaction_Get (memory_table fits) w other rs))"
proof -
  let ?b = "rs_backend rs" and ?h = "wt_handle w"
  obtain b' where w: "WriteTransaction_valid w" "key \<noteq> []" and st: "Put ?h (span_view key) (span_view value) ?b = (ST_OK, b')"
    and rs': "rs' = rs\<lparr>rs_backend := b'\<rparr>"
    using put by (auto simp: WriteTransaction_Put_def Let_def result_of_Inr split: if_splits)
       (metis prod.collapse)
  obtain t where t: "writing ?h ?b = Some t" and b': "b' = set_transaction ?h (t\<lparr>tx_values := om_set key value (tx_values t)\<rparr>) ?b"
    using st by (auto simp: Put_def Let_def split: if_splits option.splits)
  have T: "um_find (mb_transactions ?b) ?h = Some t" "\<not> tx_finished t"
    using t by (simp_all add: writing_Some tx_writer_def)
  have s: "om_ok (tx_values t)"
    using backend_reachable_inv [OF assms(1)] T by (auto simp: backend_inv_def core_def)
  have "memory_lookup b' ?h k = (if k = key then Some value else memory_lookup ?b ?h k)" for k
    using T s by (simp add: memory_lookup_def b')
  then have get: "GetValue (memory_table fits) True ?h k rs' = (Inr (if k = key then Some value else memory_lookup ?b ?h k), rs')"
    if "k \<noteq> []" for k
    using mem.GetValue_lookup [of ?h k rs' fits] that w(1) assms(2,3) by (simp add: WriteTransaction_valid_def rs')
  have "GetValue (memory_table fits) True ?h k rs = (Inr (memory_lookup ?b ?h k), rs)" if "k \<noteq> []" for k
    using mem.GetValue_lookup [of ?h k rs fits] that w(1) assms(2,3) by (simp add: WriteTransaction_valid_def)
  then have "fst (GetValue (memory_table fits) True ?h k rs') = fst (GetValue (memory_table fits) True ?h k rs)" if "k \<noteq> key" for k
    using get [of k] that by (cases "k = []") (simp_all add: GetValue_def)
  then show ?thesis using get [OF w(2)] w(1) by (simp add: WriteTransaction_Get_def WriteTransaction_valid_def)
qed

text \<open>C29: iterating over a read transaction finds exactly its entries. A cursor over the in-memory provider, read to its end,
  gives the entries whose key starts with the prefix, in the order of their keys, and the reading ends.\<close>

theorem iterate_exact:
  assumes reach: "backend_reachable (rs_backend rs)" and fits: "\<forall>n. fits n"
    and t: "um_find (mb_transactions (rs_backend rs)) (rt_handle r) = Some t"
    and iter: "Iterate (memory_table fits) r prefix rs = (Inr cursor, rs')"
    and n: "length (tx_values t) < n"
  shows "iterate_all (memory_table fits) n cursor rs' = Some (Inr (filter (\<lambda>e. \<exists>rest. fst e = prefix @ rest) (tx_values t)))"
proof -
  let ?b = "rs_backend rs" and ?c = "mb_next_handle (rs_backend rs)" and ?es = "cursor_entries prefix (tx_values t)"
  have es: "?es = filter (\<lambda>e. \<exists>rest. fst e = prefix @ rest) (tx_values t)"
  proof -
    have "om_ok (tx_values t)" using backend_reachable_inv [OF reach] t by (auto simp: backend_inv_def core_def)
    then show ?thesis by (simp add: cursor_entries_filter has_prefix_append)
  qed
  have fresh: "um_find (mb_cursors ?b) ?c = None" "?c \<noteq> 0"
    using reachable_ordered [OF reach] by (simp_all add: handles_ordered_def fresh_None)
  have c: "cursor = \<lparr>rc_bound = True, rc_handle = ?c\<rparr>" and rs': "memory_remaining (rs_backend rs') ?c = Some ?es"
    using iter t fresh
    by (auto simp: Iterate_def OpenCursor_def take_handle_def paired_def result_of_Inr written_def memory_remaining_def Let_def
        split: if_splits)
  have "\<forall>(k, v) \<in> set ?es. k \<noteq> [] \<and> bt_fits (memory_table fits) (length k) \<and> bt_fits (memory_table fits) (length v)"
    using keyed_transaction [OF reachable_keyed [OF reach] t] fits
    by (auto simp: es nonempty_keys_def) force
  moreover have "length ?es < n" using n by (simp add: es) (meson le_less_trans length_filter_le)
  ultimately have "iterate_all (memory_table fits) n cursor rs' = Some (Inr ?es)"
    using c rs' fresh(2) by (intro mem.iterate_all_remaining) simp_all
  then show ?thesis by (simp only: es)
qed

section \<open>Migration over the in-memory provider\<close>

text \<open>What a migration is to do: the transform applied to every entry, in key order.\<close>

definition migrate_one :: "(bytes \<times> bytes \<Rightarrow> Transformed) \<Rightarrow> Values \<Rightarrow> bytes \<times> bytes \<Rightarrow> Values" where
  "migrate_one tr acc e = (case tr e of TF_entry (Some (k, v)) \<Rightarrow> om_set k v acc | _ \<Rightarrow> acc)"

definition migrated_values :: "(bytes \<times> bytes \<Rightarrow> Transformed) \<Rightarrow> Values \<Rightarrow> Values" where
  "migrated_values tr es = foldl (migrate_one tr) [] es"

text \<open>How far an unfinished migration has come: the entries up to its checkpoint are done.\<close>

definition done_entries :: "bytes \<Rightarrow> Values \<Rightarrow> Values" where
  "done_entries checkpoint vs = (if checkpoint = [] then [] else filter (\<lambda>e. fst e \<le> checkpoint) vs)"

definition migration_progress :: "(bytes \<times> bytes \<Rightarrow> Transformed) \<Rightarrow> StoreData \<Rightarrow> bool" where
  "migration_progress tr s \<longleftrightarrow> sd_migration_values s = migrated_values tr (done_entries (sd_migration_checkpoint s) (sd_values s))"

lemma filter_sorted_prefix:
  assumes "om_ok vs" and "i < length vs"
  shows "filter (\<lambda>e. fst e \<le> fst (vs ! i)) vs = take (Suc i) vs"
proof -
  have s: "fst (vs ! j) < fst (vs ! k)" if "j < k" "k < length vs" for j k
    using assms(1) that by (simp add: sorted_wrt_iff_nth_less)
  have "filter (\<lambda>e. fst e \<le> fst (vs ! i)) (take (Suc i) vs) = take (Suc i) vs"
  proof (rule filter_True, rule ballI)
    fix e assume "e \<in> set (take (Suc i) vs)"
    then obtain j where "j < Suc i" "e = vs ! j" using assms(2) by (auto simp: in_set_conv_nth)
    then show "fst e \<le> fst (vs ! i)" using s [of j i] assms(2) by (cases "j = i") (auto simp: less_imp_le)
  qed
  moreover have "filter (\<lambda>e. fst e \<le> fst (vs ! i)) (drop (Suc i) vs) = []"
  proof (rule filter_False, rule ballI)
    fix e assume "e \<in> set (drop (Suc i) vs)"
    then obtain j where "j < length vs - Suc i" "e = vs ! (Suc i + j)" by (auto simp: in_set_conv_nth)
    then show "\<not> fst e \<le> fst (vs ! i)" using s [of i "Suc i + j"] by (simp add: not_le)
  qed
  ultimately show ?thesis by (metis append_Nil2 append_take_drop_id filter_append)
qed

text \<open>The loop's invariant at the \<open>i\<close>-th entry: the entries before it are done, and the checkpoint is not below the one
  the loop started with.\<close>

definition loop_at :: "(bytes \<times> bytes \<Rightarrow> Transformed) \<Rightarrow> bytes \<Rightarrow> Values \<Rightarrow> nat \<Rightarrow> StoreData \<Rightarrow> bool" where
  "loop_at tr cp vs i s \<longleftrightarrow>
     sd_values s = vs \<and> migration_progress tr s \<and> i \<le> length vs \<and>
     (\<forall>j < i. fst (vs ! j) \<le> sd_migration_checkpoint s) \<and>
     cp \<le> sd_migration_checkpoint s"

lemma nth_key: "nonempty_keys vs \<Longrightarrow> i < length vs \<Longrightarrow> fst (vs ! i) \<noteq> []"
  by (auto simp: nonempty_keys_def in_set_conv_nth) (metis imageI nth_mem)

lemma done_before:
  assumes vs: "om_ok vs" "nonempty_keys vs" and at: "loop_at tr cp vs i s" and i: "i < length vs"
    and new: "sd_migration_checkpoint s < fst (vs ! i)"
  shows "done_entries (sd_migration_checkpoint s) vs = take i vs"
proof (cases i)
  case 0
  have "filter (\<lambda>e. fst e \<le> sd_migration_checkpoint s) vs = []"
  proof (rule filter_False, rule ballI)
    fix e assume "e \<in> set vs"
    then obtain j where j: "j < length vs" "e = vs ! j" by (auto simp: in_set_conv_nth)
    have "fst (vs ! 0) \<le> fst (vs ! j)" using vs(1) j i 0 by (cases j) (auto simp: sorted_wrt_iff_nth_less intro: less_imp_le)
    then show "\<not> fst e \<le> sd_migration_checkpoint s" using new 0 j by (meson leD le_less_trans order.trans not_le)
  qed
  then show ?thesis using 0 by (simp add: done_entries_def)
next
  case (Suc k)
  let ?cp = "sd_migration_checkpoint s"
  have k: "fst (vs ! k) \<le> ?cp" using at Suc by (simp add: loop_at_def)
  then have ne: "?cp \<noteq> []" using nth_key [OF vs(2), of k] i Suc by auto
  have "fst e \<le> ?cp \<longleftrightarrow> fst e \<le> fst (vs ! k)" if mem: "e \<in> set vs" for e
  proof
    assume "fst e \<le> ?cp"
    obtain j where j: "j < length vs" "e = vs ! j" using mem unfolding in_set_conv_nth by blast
    have "j < i"
    proof (rule ccontr)
      assume "\<not> j < i"
      then have "fst (vs ! i) \<le> fst (vs ! j)"
        using vs(1) j(1) by (cases "j = i") (auto simp: sorted_wrt_iff_nth_less intro: less_imp_le)
      then show False using \<open>fst e \<le> ?cp\<close> new j(2) by (meson leD le_less_trans order.trans)
    qed
    then show "fst e \<le> fst (vs ! k)"
      using vs(1) j Suc i by (cases "j = k") (auto simp: sorted_wrt_iff_nth_less intro!: less_imp_le)
  qed (use k in \<open>auto intro: order.trans\<close>)
  then have "filter (\<lambda>e. fst e \<le> ?cp) vs = filter (\<lambda>e. fst e \<le> fst (vs ! k)) vs" by (simp cong: filter_cong)
  then show ?thesis using filter_sorted_prefix [OF vs(1), of k] i Suc ne by (simp add: done_entries_def)
qed

lemma done_all:
  assumes "nonempty_keys vs" and "loop_at tr cp vs (length vs) s"
  shows "sd_migration_values s = migrated_values tr vs"
proof -
  have all: "\<forall>e \<in> set vs. fst e \<le> sd_migration_checkpoint s"
    using assms(2) by (simp add: loop_at_def all_set_conv_all_nth)
  have "done_entries (sd_migration_checkpoint s) vs = vs"
  proof (cases vs)
    case (Cons e es)
    then have "fst e \<noteq> []" using assms(1) by (auto simp: nonempty_keys_def)
    then have "sd_migration_checkpoint s \<noteq> []" using all Cons by auto
    then show ?thesis using all by (simp add: done_entries_def filter_id_conv)
  qed (simp add: done_entries_def)
  then show ?thesis using assms(2) by (simp add: loop_at_def migration_progress_def)
qed

lemma um_set_set [simp]: "um_set k v (um_set k w m) = um_set k v m"
  by (induction k v m rule: um_set.induct) auto

lemma um_set_same: "um_find m k = Some v \<Longrightarrow> um_set k v m = m"
  by (induction k v m rule: um_set.induct) (auto simp: um_find_def split: if_splits)

text \<open>The provider during the loop: only the migrating store and the position of the cursor change.\<close>

definition loop_state :: "StoreRef \<Rightarrow> Handle \<Rightarrow> Values \<Rightarrow> MemoryBackend \<Rightarrow> StoreData \<Rightarrow> nat \<Rightarrow> MemoryBackend" where
  "loop_state r c vs b s i =
     b\<lparr>mb_stores := um_set r s (mb_stores b), mb_cursors := um_set c \<lparr>cu_entries = vs, cu_position = i\<rparr> (mb_cursors b)\<rparr>"

lemma loop_state_simps [simp]:
  "store_at (loop_state r c vs b s i) r = s" "with_store r f (loop_state r c vs b s i) = loop_state r c vs b (f s) i"
  "mb_migrations (loop_state r c vs b s i) = mb_migrations b" "mb_transactions (loop_state r c vs b s i) = mb_transactions b"
  "mb_store_handles (loop_state r c vs b s i) = mb_store_handles b"
  "memory_advance c (loop_state r c vs b s i) = loop_state r c vs b s (Suc i)"
  "i \<le> length vs \<Longrightarrow> memory_remaining (loop_state r c vs b s i) c = Some (drop i vs)"
  "(loop_state r c vs b s i)\<lparr>mb_migrations := m\<rparr> = loop_state r c vs (b\<lparr>mb_migrations := m\<rparr>) s i"
  by (simp_all add: loop_state_def store_at_def with_store_def memory_advance_def memory_remaining_def)

lemma MakeError_memory [simp]: "snd (RuntimeState_MakeError (memory_table fits) st rs) = rs"
  by (simp add: RuntimeState_MakeError_def paired_def Let_def split: prod.split)

lemma MakeError_memory_eq: "RuntimeState_MakeError (memory_table fits) st rs = (fst (RuntimeState_MakeError (memory_table fits) st rs), rs)"
  by (metis MakeError_memory prod.collapse)

lemma close_migration_loop:
  assumes "um_find (mb_migrations b) m = Some mo" and "mo_store mo = r" and "rs_backend rs = loop_state r c vs b s i"
  shows "close_migration (memory_table fits) m rs =
    rs\<lparr>rs_backend := loop_state r c vs (b\<lparr>mb_migrations := um_erase m (mb_migrations b)\<rparr>) (s\<lparr>sd_migration_handle_active := False\<rparr>) i\<rparr>"
  using assms by (simp add: close_migration_def AbortMigration_def CloseMigration_def release_migration_def Let_def)

lemma loop_at_skip:
  assumes "loop_at tr cp vs i s" and "i < length vs" and "\<not> cp < fst (vs ! i)"
  shows "loop_at tr cp vs (Suc i) s"
  using assms by (auto simp: loop_at_def less_Suc_eq not_less intro: order.trans)

lemma migrated_snoc: "migrated_values tr (es @ [e]) = migrate_one tr (migrated_values tr es) e"
  by (simp add: migrated_values_def)

lemma same_data_migration:
  "same_data s (s\<lparr>sd_migration_values := vs, sd_migration_checkpoint := k, sd_migration_processed := n\<rparr>)"
  "same_data s (s\<lparr>sd_migration_handle_active := a\<rparr>)"
  by (simp_all add: same_data_def)

lemma same_data_trans: "same_data s s' \<Longrightarrow> same_data s' s'' \<Longrightarrow> same_data s s''"
  unfolding same_data_def by (cases s; cases s'; cases s'') simp

lemma loop_at_applied:
  assumes vs: "om_ok vs" "nonempty_keys vs" and at: "loop_at tr cp vs i s" and i: "i < length vs"
    and new: "sd_migration_checkpoint s < fst (vs ! i)"
  shows "loop_at tr cp vs (Suc i) (s\<lparr>sd_migration_values := migrate_one tr (sd_migration_values s) (vs ! i),
    sd_migration_checkpoint := fst (vs ! i), sd_migration_processed := n\<rparr>)"
proof -
  have "migrated_values tr (done_entries (fst (vs ! i)) vs) = migrate_one tr (sd_migration_values s) (vs ! i)"
  proof -
    have "sd_migration_values s = migrated_values tr (take i vs)"
      using at done_before [OF assms] by (simp add: loop_at_def migration_progress_def)
    then show ?thesis
      using filter_sorted_prefix [OF vs(1) i] nth_key [OF vs(2) i] i
      by (simp add: done_entries_def take_Suc_conv_app_nth migrated_snoc)
  qed
  moreover have "cp \<le> fst (vs ! i)" using at new by (auto simp: loop_at_def intro: order.trans less_imp_le)
  moreover have "fst (vs ! j) \<le> fst (vs ! i)" if "j < Suc i" for j
    using at new that by (auto simp: loop_at_def less_Suc_eq intro: order.trans less_imp_le)
  ultimately show ?thesis using at i by (auto simp: loop_at_def migration_progress_def)
qed

lemma apply_loop:
  assumes m: "um_find (mb_migrations b) m = Some mo" "mo_store mo = r"
    and vs: "om_ok vs" "nonempty_keys vs" and at: "loop_at tr cp vs i s" and i: "i < length vs"
    and t: "tr (vs ! i) = TF_entry t"
  obtains (applied) s' where
      "ApplyMigration m (span_view (fst (vs ! i))) (apply_target t) (if t = None then 0 else 1) True (loop_state r c vs b s k) =
         (ST_OK, loop_state r c vs b s' k)"
      "loop_at tr cp vs (Suc i) s'" "same_data s s'"
  | (refused) st where "st \<noteq> ST_OK"
      "ApplyMigration m (span_view (fst (vs ! i))) (apply_target t) (if t = None then 0 else 1) True (loop_state r c vs b s k) =
         (st, loop_state r c vs b s k)"
proof -
  let ?A = "ApplyMigration m (span_view (fst (vs ! i))) (apply_target t) (if t = None then 0 else 1) True (loop_state r c vs b s k)"
  let ?s' = "s\<lparr>sd_migration_values := migrate_one tr (sd_migration_values s) (vs ! i),
    sd_migration_checkpoint := fst (vs ! i), sd_migration_processed := sd_migration_processed s + 1\<rparr>"
  have key: "fst (vs ! i) \<noteq> []" by (rule nth_key [OF vs(2) i])
  have "(\<exists>st. st \<noteq> ST_OK \<and> ?A = (st, loop_state r c vs b s k)) \<or>
      (\<not> (sd_migration_checkpoint s \<noteq> [] \<and> fst (vs ! i) \<le> sd_migration_checkpoint s) \<and> ?A = (ST_OK, loop_state r c vs b ?s' k))"
    using m t key
    by (cases t) (auto simp: ApplyMigration_def apply_target_def migrate_one_def Let_def split: prod.split)
  then show thesis
  proof (elim disjE exE conjE)
    fix st assume "st \<noteq> ST_OK" "?A = (st, loop_state r c vs b s k)"
    then show thesis by (rule refused)
  next
    assume ok: "\<not> (sd_migration_checkpoint s \<noteq> [] \<and> fst (vs ! i) \<le> sd_migration_checkpoint s)" and A: "?A = (ST_OK, loop_state r c vs b ?s' k)"
    have "sd_migration_checkpoint s < fst (vs ! i)"
      using ok key by (cases "sd_migration_checkpoint s = []") (auto simp: not_le neq_Nil_conv)
    then show thesis by (intro applied [OF A] loop_at_applied [OF vs at i] same_data_migration(1))
  qed
qed

text \<open>The loop ends, with every entry migrated, or with an error and the progress kept.\<close>

lemma migrate_loop_memory:
  assumes m: "um_find (mb_migrations b) m = Some mo" "mo_store mo = r" and c: "rc_bound cur" "rc_handle cur = c" "c \<noteq> 0"
    and vs: "om_ok vs" "nonempty_keys vs" and fits: "\<forall>n. fits n"
    and at: "loop_at tr cp vs i s" and rs: "rs_backend rs = loop_state r c vs b s i"
  shows "\<exists>out s' k. migrate_loop (memory_table fits) tr m cp cur p rs = Some (out, rs\<lparr>rs_backend :=
        loop_state r c vs (if \<exists>e. out = Inl (Some e) then b\<lparr>mb_migrations := um_erase m (mb_migrations b)\<rparr> else b) s' k\<rparr>) \<and>
      same_data s s' \<and> migration_progress tr s' \<and>
      ((\<exists>e. out = Inl (Some e)) \<longrightarrow> \<not> sd_migration_handle_active s') \<and>
      ((\<exists>p'. out = Inr p') \<longrightarrow> sd_migration_values s' = migrated_values tr vs)"
  using at rs
proof (induction "length vs - i" arbitrary: i s rs p)
  case 0
  then have i: "i = length vs" by (simp add: loop_at_def)
  have "Cursor_Next (memory_table fits) cur rs = (Inr None, rs)"
    using c 0 i by (intro mem.Cursor_Next_end) simp_all
  then have "migrate_loop (memory_table fits) tr m cp cur p rs = Some (Inr p, rs)"
    by (subst migrate_loop.simps) (simp add: migrate_step_def)
  moreover have "rs = rs\<lparr>rs_backend := loop_state r c vs b s i\<rparr>" using 0 by simp
  ultimately show ?case
    using done_all [OF vs(2), of tr cp s] 0 i by (intro exI [of _ "Inr p"] exI [of _ s] exI [of _ i]) (simp add: loop_at_def)
next
  case (Suc n)
  have i: "i < length vs" using Suc.hyps(2) by simp
  let ?rs = "rs\<lparr>rs_backend := loop_state r c vs b s (Suc i)\<rparr>"
  obtain k v where e: "vs ! i = (k, v)" by fastforce
  have "Cursor_Next (memory_table fits) cur rs = (Inr (Some (vs ! i)), ?rs)"
    using c i e Suc.prems nth_key [OF vs(2) i] fits
    by (subst mem.Cursor_Next_entry [of cur rs k v "drop (Suc i) vs"]) (simp_all add: Cons_nth_drop_Suc [symmetric])
  then have loop: "migrate_loop (memory_table fits) tr m cp cur p rs =
      (case migrate_entry (memory_table fits) tr m cp p (vs ! i) ?rs of
         (MS_failed e, rs) \<Rightarrow> Some (Inl (Some e), rs)
       | (MS_threw, rs) \<Rightarrow> Some (Inl None, rs)
       | (MS_end, rs) \<Rightarrow> Some (Inr p, rs)
       | (MS_continue p, rs) \<Rightarrow> migrate_loop (memory_table fits) tr m cp cur p rs)"
    by (subst migrate_loop.simps) (simp add: migrate_step_def)
  have progress: "migration_progress tr s" using Suc.prems by (simp add: loop_at_def)
  have failed: ?case if "migrate_entry (memory_table fits) tr m cp p (vs ! i) ?rs = (MS_failed e, close_migration (memory_table fits) m ?rs)" for e
    using that loop progress close_migration_loop [OF m, of ?rs c vs s "Suc i" fits]
    by (intro exI [of _ "Inl (Some e)"] exI [of _ "s\<lparr>sd_migration_handle_active := False\<rparr>"] exI [of _ "Suc i"])
      (simp add: same_data_migration migration_progress_def)
  show ?case
  proof (cases "cp \<noteq> [] \<and> \<not> cp < fst (vs ! i)")
    case True
    then have "migrate_entry (memory_table fits) tr m cp p (vs ! i) ?rs = (MS_continue p, ?rs)" by (simp add: migrate_entry_def)
    moreover have "loop_at tr cp vs (Suc i) s" using True by (intro loop_at_skip [OF Suc.prems(1) i]) simp
    ultimately show ?thesis using Suc.hyps(1) [of "Suc i" s ?rs p] Suc.hyps(2) loop by simp
  next
    case False
    show ?thesis
    proof (cases "tr (vs ! i)")
      case (TF_error e)
      then show ?thesis using False by (intro failed [of e]) (simp add: migrate_entry_def)
    next
      case TF_throws
      then have "migrate_entry (memory_table fits) tr m cp p (vs ! i) ?rs = (MS_threw, ?rs)" using False by (simp add: migrate_entry_def)
      then show ?thesis
        using loop progress by (intro exI [of _ "Inl None"] exI [of _ s] exI [of _ "Suc i"]) simp
    next
      case (TF_entry t)
      from m vs Suc.prems(1) i TF_entry show ?thesis
      proof (cases rule: apply_loop [where c = c and k = "Suc i"])
        case (applied s')
        let ?rs' = "rs\<lparr>rs_backend := loop_state r c vs b s' (Suc i)\<rparr>"
        have "migrate_entry (memory_table fits) tr m cp p (vs ! i) ?rs = (MS_continue (p + 1), ?rs')"
          using False TF_entry applied(1) by (simp add: migrate_entry_def)
        then have loop': "migrate_loop (memory_table fits) tr m cp cur p rs = migrate_loop (memory_table fits) tr m cp cur (p + 1) ?rs'"
          using loop by simp
        have "n = length vs - Suc i" "rs_backend ?rs' = loop_state r c vs b s' (Suc i)" using Suc.hyps(2) by simp_all
        from Suc.hyps(1) [OF this(1) applied(2) this(2), of "p + 1"] obtain out s2 k2 where
          "migrate_loop (memory_table fits) tr m cp cur (p + 1) ?rs' = Some (out, ?rs'\<lparr>rs_backend :=
             loop_state r c vs (if \<exists>e. out = Inl (Some e) then b\<lparr>mb_migrations := um_erase m (mb_migrations b)\<rparr> else b) s2 k2\<rparr>)"
          "same_data s' s2" "migration_progress tr s2" "(\<exists>e. out = Inl (Some e)) \<longrightarrow> \<not> sd_migration_handle_active s2"
          "(\<exists>p'. out = Inr p') \<longrightarrow> sd_migration_values s2 = migrated_values tr vs"
          by (elim exE conjE)
        then show ?thesis
          unfolding loop' by (intro exI [of _ out] exI [of _ s2] exI [of _ k2] conjI)
            (simp_all add: same_data_trans [OF applied(3)])
      next
        case (refused st)
        obtain e where "RuntimeState_MakeError (memory_table fits) st ?rs = (e, ?rs)"
          using MakeError_memory_eq [of fits st ?rs] by blast
        then show ?thesis
          using False TF_entry refused by (intro failed [of e]) (simp add: migrate_entry_def)
      qed
    qed
  qed
qed

text \<open>Everything but the data of one store is as before: no handle is left behind.\<close>

definition store_frame :: "StoreRef \<Rightarrow> MemoryBackend \<Rightarrow> MemoryBackend \<Rightarrow> bool" where
  "store_frame r b b' \<longleftrightarrow>
     (\<forall>r'. r' \<noteq> r \<longrightarrow> um_find (mb_stores b') r' = um_find (mb_stores b) r') \<and>
     um_find (mb_store_handles b') = um_find (mb_store_handles b) \<and>
     um_find (mb_transactions b') = um_find (mb_transactions b) \<and> um_find (mb_blobs b') = um_find (mb_blobs b) \<and>
     um_find (mb_cursors b') = um_find (mb_cursors b) \<and> um_find (mb_migrations b') = um_find (mb_migrations b)"

lemma store_frame_trans: "store_frame r b b' \<Longrightarrow> store_frame r b' b'' \<Longrightarrow> store_frame r b b''"
  by (simp add: store_frame_def)

text \<open>The provider once \<open>BeginMigration\<close> has issued the handle \<open>m\<close>.\<close>

definition migrating :: "Handle \<Rightarrow> StoreRef \<Rightarrow> StoreData \<Rightarrow> MemoryBackend \<Rightarrow> bool" where
  "migrating m r s b \<longleftrightarrow>
     (\<exists>mo. um_find (mb_migrations b) m = Some mo \<and> mo_store mo = r) \<and> um_find (mb_stores b) r = Some s \<and>
     om_ok (sd_values s) \<and> nonempty_keys (sd_values s) \<and>
     um_find (mb_transactions b) (mb_next_handle b) = None \<and> mb_next_handle b \<noteq> 0 \<and>
     um_find (mb_cursors b) (mb_next_handle b + 1) = None \<and> mb_next_handle b + 1 \<noteq> 0"

text \<open>A migration's end: the error keeps the content of the store and the progress, the success installs the migrated entries.\<close>

definition migration_outcome ::
  "(bytes \<times> bytes \<Rightarrow> Transformed) \<Rightarrow> StoreData \<Rightarrow> (MigrationInfo, PerError) result \<Rightarrow> StoreData \<Rightarrow> bool" where
  "migration_outcome tr s r s' \<longleftrightarrow>
     (case r of
        Inl e \<Rightarrow> same_data s s' \<and> migration_progress tr s' \<and> \<not> sd_migration_handle_active s'
      | Inr info \<Rightarrow>
          sd_values s' = migrated_values tr (sd_values s) \<and> sd_blobs s' = sd_blobs s \<and>
          sd_schema_id s' = sd_migration_target_schema_id s \<and> sd_schema_version s' = sd_migration_target_schema_version s \<and>
          sd_generation s' = sd_generation s + 1 \<and> ci_generation (mi_commit info) = sd_generation s' \<and>
          sd_rollback_values s' = sd_values s \<and> sd_rollback_available s' \<and>
          sd_migration_id s' = [] \<and> \<not> sd_migration_handle_active s')"

lemma find_release [simp]:
  "um_find (mb_stores (release_migration r b)) = (um_find (mb_stores b))(r \<mapsto> (store_at b r)\<lparr>sd_migration_handle_active := False\<rparr>)"
  "mb_store_handles (release_migration r b) = mb_store_handles b" "mb_transactions (release_migration r b) = mb_transactions b"
  "mb_blobs (release_migration r b) = mb_blobs b" "mb_migrations (release_migration r b) = mb_migrations b"
  "store_at (release_migration r b) r = (store_at b r)\<lparr>sd_migration_handle_active := False\<rparr>"
  by (simp_all add: release_migration_def store_at_def with_store_def)

lemma close_migration_frame:
  assumes "um_find (mb_migrations (rs_backend rs)) m = Some mo" and "mo_store mo = r" and "store_at (rs_backend rs) r = s"
  shows "\<exists>b'. close_migration (memory_table fits) m rs = rs\<lparr>rs_backend := b'\<rparr> \<and>
    store_frame r ((rs_backend rs)\<lparr>mb_migrations := um_erase m (mb_migrations (rs_backend rs))\<rparr>) b' \<and>
    um_find (mb_stores b') r = Some (s\<lparr>sd_migration_handle_active := False\<rparr>)"
  using assms
  by (intro exI [of _ "(release_migration r (release_migration r (rs_backend rs)))\<lparr>mb_migrations :=
        um_erase m (mb_migrations (rs_backend rs))\<rparr>"])
    (simp add: close_migration_def AbortMigration_def CloseMigration_def store_frame_def Let_def)

lemma migrate_finish_frame:
  assumes m: "um_find (mb_migrations (rs_backend rs)) m = Some mo" "mo_store mo = r" and s: "store_at (rs_backend rs) r = s1"
    and same: "same_data s s1" and progress: "migration_progress tr s1" and all: "sd_migration_values s1 = migrated_values tr (sd_values s)"
  shows "\<exists>res b' s'. migrate_finish (memory_table fits) m p resumed rs = (res, rs\<lparr>rs_backend := b'\<rparr>) \<and>
    store_frame r ((rs_backend rs)\<lparr>mb_migrations := um_erase m (mb_migrations (rs_backend rs))\<rparr>) b' \<and>
    um_find (mb_stores b') r = Some s' \<and> migration_outcome tr s res s'"
proof (cases "sd_generation s1 = sd_migration_source_generation s1")
  case True
  let ?s' = "(migrated_store s1)\<lparr>sd_migration_handle_active := False\<rparr>"
  let ?b = "release_migration r (with_store r migrated_store (rs_backend rs))"
  let ?info = "\<lparr>mi_commit = \<lparr>ci_generation = sd_generation s1 + 1, ci_achieved_durability = FromAbi (mo_durability mo)\<rparr>,
     mi_processed_entries = p, mi_resumed = resumed\<rparr>"
  have f: "sd_blobs s1 = sd_blobs s" "sd_generation s1 = sd_generation s" "sd_values s1 = sd_values s"
    "sd_migration_target_schema_id s1 = sd_migration_target_schema_id s"
    "sd_migration_target_schema_version s1 = sd_migration_target_schema_version s"
    by (subst same [unfolded same_data_def], simp)+
  have "migrate_finish (memory_table fits) m p resumed rs =
      (Inr ?info, rs\<lparr>rs_backend := ?b\<lparr>mb_migrations := um_erase m (mb_migrations (rs_backend rs))\<rparr>\<rparr>)"
    using m s True by (simp add: migrate_finish_def CommitMigration_def CloseMigration_def paired_def commit_info_def Let_def)
  moreover have "migration_outcome tr s (Inr ?info) ?s'"
    using all f by (simp add: migration_outcome_def migrated_store_def)
  moreover have "store_at (with_store r migrated_store (rs_backend rs)) r = migrated_store s1"
    using s by (simp add: store_at_def [of "with_store r migrated_store (rs_backend rs)"])
  ultimately show ?thesis
    by (intro exI [of _ "Inr ?info"] exI [of _ "?b\<lparr>mb_migrations := um_erase m (mb_migrations (rs_backend rs))\<rparr>"] exI [of _ ?s'])
      (simp add: store_frame_def)
next
  case False
  let ?b = "(release_migration r (rs_backend rs))\<lparr>mb_migrations := um_erase m (mb_migrations (rs_backend rs))\<rparr>"
  obtain e where "RuntimeState_MakeError (memory_table fits) ST_CONFLICT rs = (e, rs)" using MakeError_memory_eq by blast
  then have "migrate_finish (memory_table fits) m p resumed rs = (Inl e, rs\<lparr>rs_backend := ?b\<rparr>)"
    using m s False by (simp add: migrate_finish_def CommitMigration_def CloseMigration_def paired_def Let_def)
  moreover have "migration_outcome tr s (Inl e) (s1\<lparr>sd_migration_handle_active := False\<rparr>)"
    using progress same_data_trans [OF same same_data_migration(2)] by (simp add: migration_outcome_def migration_progress_def)
  ultimately show ?thesis
    using s by (intro exI [of _ "Inl e"] exI [of _ ?b] exI [of _ "s1\<lparr>sd_migration_handle_active := False\<rparr>"]) (simp add: store_frame_def)
qed

text \<open>The part between the begin and the end of a migration, over the in-memory provider.\<close>

lemma begin_read_memory:
  assumes sh: "um_find (mb_store_handles (rs_backend rs)) (st_handle so) = Some h" "sh_store h = r" and so: "Store_valid so"
    and st: "um_find (mb_stores (rs_backend rs)) r = Some s"
  obtains (refused) e b' where "Store_BeginRead (memory_table fits) so rs = (Inl e, rs\<lparr>rs_backend := b'\<rparr>)" "store_frame r (rs_backend rs) b'"
      "um_find (mb_stores b') r = Some s"
  | (begun) g t where "Store_BeginRead (memory_table fits) so rs =
        (Inr \<lparr>rt_bound = True, rt_handle = mb_next_handle (rs_backend rs), rt_generation = g\<rparr>,
         rs\<lparr>rs_backend := (rs_backend rs)\<lparr>mb_next_handle := mb_next_handle (rs_backend rs) + 1,
              mb_transactions := um_emplace (mb_next_handle (rs_backend rs)) t (mb_transactions (rs_backend rs))\<rparr>\<rparr>)"
      "tx_values t = sd_values s" "\<not> tx_write t" "\<not> tx_finished t"
proof (cases "length (mb_transactions (rs_backend rs)) \<ge> unat (mb_max_transactions (rs_backend rs))")
  case True
  let ?b = "SetError ''transaction limit reached'' (rs_backend rs)"
  obtain e where "RuntimeState_MakeError (memory_table fits) ST_RESOURCE_EXHAUSTED (rs\<lparr>rs_backend := ?b\<rparr>) = (e, rs\<lparr>rs_backend := ?b\<rparr>)"
    using MakeError_memory_eq by blast
  then have "Store_BeginRead (memory_table fits) so rs = (Inl e, rs\<lparr>rs_backend := ?b\<rparr>)"
    using True sh so
    by (simp add: Store_BeginRead_def BeginRead_def BeginTransaction_def paired_def written_def result_of_def Let_def)
  then show thesis by (rule refused) (simp_all add: store_frame_def st)
next
  case False
  then show thesis
    using sh so st
    by (intro begun [of "sd_generation s" "\<lparr>tx_store = r, tx_values = sd_values s, tx_base_generation = sd_generation s,
        tx_durability = DU_BUFFERED, tx_write = False, tx_finished = False\<rparr>"])
      (simp_all add: Store_BeginRead_def BeginRead_def BeginTransaction_def take_handle_def paired_def written_def result_of_def
        store_at_Some Let_def)
qed

lemma cursor_entries_all: "om_ok vs \<Longrightarrow> cursor_entries [] vs = vs"
  by (simp add: cursor_entries_filter has_prefix_def)

text \<open>The cursor and the transaction are closed after the loop.\<close>

lemma loop_close:
  assumes run: "rs_running rs" and h: "h \<noteq> 0" "c \<noteq> 0"
    and t: "um_find (mb_transactions b) h = Some t" "\<not> tx_write t"
    and rs: "rs_backend rs = loop_state r c vs b s i"
  shows "\<exists>b'. snd (ReadTransaction_Close (memory_table fits) \<lparr>rt_bound = True, rt_handle = h, rt_generation = g\<rparr>
      (snd (Cursor_Close (memory_table fits) \<lparr>rc_bound = True, rc_handle = c\<rparr> rs))) = rs\<lparr>rs_backend := b'\<rparr> \<and>
    um_find (mb_stores b') = (um_find (mb_stores b))(r \<mapsto> s) \<and> mb_store_handles b' = mb_store_handles b \<and>
    um_find (mb_transactions b') = (um_find (mb_transactions b))(h := None) \<and> mb_blobs b' = mb_blobs b \<and>
    um_find (mb_cursors b') = (um_find (mb_cursors b))(c := None) \<and> mb_migrations b' = mb_migrations b"
  using assms
  by (intro exI [of _ "(loop_state r c vs b s i)\<lparr>mb_cursors := um_erase c (mb_cursors (loop_state r c vs b s i)),
      mb_transactions := um_erase h (mb_transactions b)\<rparr>"])
    (simp add: ReadTransaction_Close_def close_transaction_def Cursor_Close_def Cursor_valid_def CloseCursor_def CloseTransaction_def
      release_transaction_def Let_def, simp add: loop_state_def)

text \<open>What follows the loop.\<close>

definition migrate_tail ::
  "'b BackendTable \<Rightarrow> Handle \<Rightarrow> bool \<Rightarrow> ReadTransaction \<Rightarrow> RtCursor \<Rightarrow> (u64, PerError option) result \<Rightarrow> 'b RuntimeState
     \<Rightarrow> (MigrationInfo, PerError) result \<times> 'b RuntimeState" where
  "migrate_tail T m resumed read cur out rs =
     (let rs = snd (ReadTransaction_Close T read (snd (Cursor_Close T cur rs))) in
      case out of
        Inl (Some e) \<Rightarrow> (Inl e, rs)
      | Inl None \<Rightarrow> (Inl (per_error PE_backend_failure ''migration transform raised an exception''), close_migration T m rs)
      | Inr processed \<Rightarrow> migrate_finish T m processed resumed rs)"

lemma migrate_entries_tail:
  assumes "Store_BeginRead T so rs = (Inr read, rs1)" and "Iterate T read [] rs1 = (Inr cur, rs2)"
    and "migrate_loop T tr m cp cur p rs2 = Some (out, rs3)"
  shows "migrate_entries T so tr m cp p resumed rs = Some (migrate_tail T m resumed read cur out rs3)"
  using assms by (simp add: migrate_entries_def migrate_tail_def Let_def)

text \<open>Each way the loop ends, once the cursor and the transaction are closed.\<close>

lemma tail_memory:
  assumes closed: "snd (ReadTransaction_Close (memory_table fits) read (snd (Cursor_Close (memory_table fits) cur rs4))) = rs\<lparr>rs_backend := b5\<rparr>"
    and m: "um_find (mb_migrations b) m = Some mo" "mo_store mo = r"
    and b5: "store_frame r (b\<lparr>mb_migrations := mb_migrations b5\<rparr>) b5" "um_find (mb_stores b5) r = Some s'"
      "mb_migrations b5 = (if \<exists>e. out = Inl (Some e) then um_erase m (mb_migrations b) else mb_migrations b)"
    and s': "same_data s s'" "migration_progress tr s'" "(\<exists>e. out = Inl (Some e)) \<longrightarrow> \<not> sd_migration_handle_active s'"
      "(\<exists>p'. out = Inr p') \<longrightarrow> sd_migration_values s' = migrated_values tr (sd_values s)"
  shows "\<exists>res b' s''. migrate_tail (memory_table fits) m resumed read cur out rs4 = (res, rs\<lparr>rs_backend := b'\<rparr>) \<and>
    store_frame r (b\<lparr>mb_migrations := um_erase m (mb_migrations b)\<rparr>) b' \<and> um_find (mb_stores b') r = Some s'' \<and> migration_outcome tr s res s''"
proof (cases out)
  case (Inr p')
  from migrate_finish_frame [of "rs\<lparr>rs_backend := b5\<rparr>" m mo r s' s tr fits p' resumed] Inr m b5(3) s' store_at_Some [OF b5(2)]
  obtain res b6 s6 where "migrate_finish (memory_table fits) m p' resumed (rs\<lparr>rs_backend := b5\<rparr>) = (res, rs\<lparr>rs_backend := b6\<rparr>)"
    "store_frame r (b5\<lparr>mb_migrations := um_erase m (mb_migrations b5)\<rparr>) b6" "um_find (mb_stores b6) r = Some s6"
    "migration_outcome tr s res s6" by auto
  then show ?thesis
    using closed Inr b5
    by (intro exI [of _ res] exI [of _ b6] exI [of _ s6]) (simp add: migrate_tail_def store_frame_def)
next
  case (Inl eo)
  show ?thesis
  proof (cases eo)
    case None
    from close_migration_frame [of "rs\<lparr>rs_backend := b5\<rparr>" m mo r s' fits] None Inl m b5(3) store_at_Some [OF b5(2)]
    obtain b6 where "close_migration (memory_table fits) m (rs\<lparr>rs_backend := b5\<rparr>) = rs\<lparr>rs_backend := b6\<rparr>"
      "store_frame r (b5\<lparr>mb_migrations := um_erase m (mb_migrations b5)\<rparr>) b6"
      "um_find (mb_stores b6) r = Some (s'\<lparr>sd_migration_handle_active := False\<rparr>)" by auto
    then show ?thesis
      using closed Inl None b5 s' same_data_trans [OF s'(1) same_data_migration(2)]
      by (intro exI [of _ "Inl (per_error PE_backend_failure ''migration transform raised an exception'')"] exI [of _ b6]
          exI [of _ "s'\<lparr>sd_migration_handle_active := False\<rparr>"])
        (simp add: migrate_tail_def store_frame_def migration_outcome_def migration_progress_def)
  next
    case (Some e)
    then show ?thesis
      using closed Inl b5 s'
      by (intro exI [of _ "Inl e"] exI [of _ b5] exI [of _ s']) (simp add: migrate_tail_def store_frame_def migration_outcome_def)
  qed
qed

lemma migrate_entries_refused:
  assumes "Store_BeginRead (memory_table fits) so rs = (Inl e, rs\<lparr>rs_backend := b'\<rparr>)" and frame: "store_frame r (rs_backend rs) b'"
    and s: "um_find (mb_stores b') r = Some s" and m: "um_find (mb_migrations (rs_backend rs)) m = Some mo" "mo_store mo = r"
    and progress: "migration_progress tr s"
  shows "\<exists>res b' s'. migrate_entries (memory_table fits) so tr m cp p resumed rs = Some (res, rs\<lparr>rs_backend := b'\<rparr>) \<and>
    store_frame r ((rs_backend rs)\<lparr>mb_migrations := um_erase m (mb_migrations (rs_backend rs))\<rparr>) b' \<and>
    um_find (mb_stores b') r = Some s' \<and> migration_outcome tr s res s'"
proof -
  have "um_find (mb_migrations b') m = Some mo" using frame m by (simp add: store_frame_def)
  with close_migration_frame [of "rs\<lparr>rs_backend := b'\<rparr>" m mo r s fits] m(2) store_at_Some [OF s] obtain b2 where
    b2: "close_migration (memory_table fits) m (rs\<lparr>rs_backend := b'\<rparr>) = rs\<lparr>rs_backend := b2\<rparr>"
    "store_frame r (b'\<lparr>mb_migrations := um_erase m (mb_migrations b')\<rparr>) b2"
    "um_find (mb_stores b2) r = Some (s\<lparr>sd_migration_handle_active := False\<rparr>)" by auto
  then show ?thesis
    using assms(1) frame progress same_data_migration(2) [of s False]
    by (intro exI [of _ "Inl e"] exI [of _ b2] exI [of _ "s\<lparr>sd_migration_handle_active := False\<rparr>"])
      (simp add: migrate_entries_def migration_outcome_def migration_progress_def store_frame_def)
qed

lemma migrate_entries_begun:
  fixes rs :: "MemoryBackend RuntimeState" and t :: Transaction
  defines "b3 \<equiv> (rs_backend rs)\<lparr>mb_transactions := um_emplace (mb_next_handle (rs_backend rs)) t (mb_transactions (rs_backend rs)),
      mb_next_handle := mb_next_handle (rs_backend rs) + 1 + 1,
      mb_cursors := um_emplace (mb_next_handle (rs_backend rs) + 1) \<lparr>cu_entries = tx_values t, cu_position = 0\<rparr> (mb_cursors (rs_backend rs))\<rparr>"
  assumes begun: "Store_BeginRead (memory_table fits) so rs =
      (Inr \<lparr>rt_bound = True, rt_handle = mb_next_handle (rs_backend rs), rt_generation = g\<rparr>,
       rs\<lparr>rs_backend := (rs_backend rs)\<lparr>mb_next_handle := mb_next_handle (rs_backend rs) + 1,
          mb_transactions := um_emplace (mb_next_handle (rs_backend rs)) t (mb_transactions (rs_backend rs))\<rparr>\<rparr>)"
    and t: "\<not> tx_write t" "\<not> tx_finished t" "om_ok (tx_values t)"
    and fresh: "um_find (mb_transactions (rs_backend rs)) (mb_next_handle (rs_backend rs)) = None" "mb_next_handle (rs_backend rs) \<noteq> 0"
    and loop: "migrate_loop (memory_table fits) tr m cp \<lparr>rc_bound = True, rc_handle = mb_next_handle (rs_backend rs) + 1\<rparr> p
      (rs\<lparr>rs_backend := b3\<rparr>) = Some (out, rs4)"
  shows "migrate_entries (memory_table fits) so tr m cp p resumed rs =
    Some (migrate_tail (memory_table fits) m resumed \<lparr>rt_bound = True, rt_handle = mb_next_handle (rs_backend rs), rt_generation = g\<rparr>
      \<lparr>rc_bound = True, rc_handle = mb_next_handle (rs_backend rs) + 1\<rparr> out rs4)"
proof (rule migrate_entries_tail [OF begun _ loop])
  let ?b = "rs_backend rs"
  have "b3 = ?b\<lparr>mb_next_handle := mb_next_handle ?b + 1, mb_transactions := um_emplace (mb_next_handle ?b) t (mb_transactions ?b),
      mb_next_handle := mb_next_handle ?b + 1 + 1,
      mb_cursors := um_emplace (mb_next_handle ?b + 1) \<lparr>cu_entries = tx_values t, cu_position = 0\<rparr> (mb_cursors ?b)\<rparr>"
    by (simp add: b3_def)
  then show "Iterate (memory_table fits) \<lparr>rt_bound = True, rt_handle = mb_next_handle ?b, rt_generation = g\<rparr> []
      (rs\<lparr>rs_backend := ?b\<lparr>mb_next_handle := mb_next_handle ?b + 1,
          mb_transactions := um_emplace (mb_next_handle ?b) t (mb_transactions ?b)\<rparr>\<rparr>) =
    (Inr \<lparr>rc_bound = True, rc_handle = mb_next_handle ?b + 1\<rparr>, rs\<lparr>rs_backend := b3\<rparr>)"
    using t fresh
    by (simp add: Iterate_def ReadTransaction_valid_def OpenCursor_def take_handle_def paired_def result_of_def written_def
        cursor_entries_all Let_def)
qed

lemma migrate_entries_memory:
  assumes mig: "migrating m r s (rs_backend rs)" and run: "rs_running rs" and fits: "\<forall>n. fits n"
    and sh: "um_find (mb_store_handles (rs_backend rs)) (st_handle so) = Some h" "sh_store h = r" and so: "Store_valid so"
    and progress: "migration_progress tr s"
  shows "\<exists>res b' s'. migrate_entries (memory_table fits) so tr m (sd_migration_checkpoint s) p resumed rs = Some (res, rs\<lparr>rs_backend := b'\<rparr>) \<and>
    store_frame r ((rs_backend rs)\<lparr>mb_migrations := um_erase m (mb_migrations (rs_backend rs))\<rparr>) b' \<and>
    um_find (mb_stores b') r = Some s' \<and> migration_outcome tr s res s'"
proof -
  let ?b = "rs_backend rs" and ?vs = "sd_values s" and ?cp = "sd_migration_checkpoint s"
  let ?n = "mb_next_handle ?b" and ?c = "mb_next_handle ?b + 1"
  obtain mo where m: "um_find (mb_migrations ?b) m = Some mo" "mo_store mo = r" using mig by (auto simp: migrating_def)
  have st: "um_find (mb_stores ?b) r = Some s" and vs: "om_ok ?vs" "nonempty_keys ?vs"
    and fresh: "um_find (mb_transactions ?b) ?n = None" "um_find (mb_cursors ?b) ?c = None" "?n \<noteq> 0" "?c \<noteq> 0"
    using mig by (simp_all add: migrating_def)
  from sh so st show ?thesis
  proof (cases rule: begin_read_memory [where fits = fits])
    case (refused e b')
    then show ?thesis by (rule migrate_entries_refused [OF _ _ _ m progress])
  next
    case (begun g t)
    let ?read = "\<lparr>rt_bound = True, rt_handle = ?n, rt_generation = g\<rparr>" and ?cur = "\<lparr>rc_bound = True, rc_handle = ?c\<rparr>"
    define b3 where "b3 = ?b\<lparr>mb_transactions := um_emplace ?n t (mb_transactions ?b), mb_next_handle := ?c + 1,
      mb_cursors := um_emplace ?c \<lparr>cu_entries = tx_values t, cu_position = 0\<rparr> (mb_cursors ?b)\<rparr>"
    have b3: "um_find (mb_stores b3) r = Some s" "mb_stores b3 = mb_stores ?b" "mb_store_handles b3 = mb_store_handles ?b" "mb_blobs b3 = mb_blobs ?b"
      "mb_migrations b3 = mb_migrations ?b" "um_find (mb_transactions b3) = (um_find (mb_transactions ?b))(?n \<mapsto> t)"
      "um_find (mb_cursors b3) = (um_find (mb_cursors ?b))(?c \<mapsto> \<lparr>cu_entries = ?vs, cu_position = 0\<rparr>)"
      using st fresh begun(2) by (simp_all add: b3_def)
    have start: "b3 = loop_state r ?c ?vs b3 s 0" using b3(7) by (simp add: loop_state_def um_set_same [OF b3(1)] um_set_same)
    have at: "loop_at tr ?cp ?vs 0 s" using progress by (simp add: loop_at_def)
    obtain out s' k where
      loop: "migrate_loop (memory_table fits) tr m ?cp ?cur p (rs\<lparr>rs_backend := b3\<rparr>) = Some (out, rs\<lparr>rs_backend :=
        loop_state r ?c ?vs (if \<exists>e. out = Inl (Some e) then b3\<lparr>mb_migrations := um_erase m (mb_migrations b3)\<rparr> else b3) s' k\<rparr>)"
      and s': "same_data s s'" "migration_progress tr s'" "(\<exists>e. out = Inl (Some e)) \<longrightarrow> \<not> sd_migration_handle_active s'"
        "(\<exists>p'. out = Inr p') \<longrightarrow> sd_migration_values s' = migrated_values tr ?vs"
      using migrate_loop_memory [of b3 m mo r ?cur ?c ?vs fits tr ?cp 0 s "rs\<lparr>rs_backend := b3\<rparr>" p] m b3 vs fits at start fresh(4)
      by auto
    let ?b4 = "if \<exists>e. out = Inl (Some e) then b3\<lparr>mb_migrations := um_erase m (mb_migrations b3)\<rparr> else b3"
    let ?rs4 = "rs\<lparr>rs_backend := loop_state r ?c ?vs ?b4 s' k\<rparr>"
    have "um_find (mb_transactions ?b4) ?n = Some t" by (simp add: b3)
    with loop_close [of ?rs4 ?n ?c ?b4 t r ?vs s' k fits g] run fresh begun(3) obtain b5 where
      close: "snd (ReadTransaction_Close (memory_table fits) ?read (snd (Cursor_Close (memory_table fits) ?cur ?rs4))) = rs\<lparr>rs_backend := b5\<rparr>"
      and b5: "um_find (mb_stores b5) = (um_find (mb_stores ?b4))(r \<mapsto> s')" "mb_store_handles b5 = mb_store_handles ?b4"
        "um_find (mb_transactions b5) = (um_find (mb_transactions ?b4))(?n := None)" "mb_blobs b5 = mb_blobs ?b4"
        "um_find (mb_cursors b5) = (um_find (mb_cursors ?b4))(?c := None)" "mb_migrations b5 = mb_migrations ?b4"
      by auto
    have "store_frame r (?b\<lparr>mb_migrations := mb_migrations b5\<rparr>) b5" "um_find (mb_stores b5) r = Some s'"
      "mb_migrations b5 = (if \<exists>e. out = Inl (Some e) then um_erase m (mb_migrations ?b) else mb_migrations ?b)"
      using b5 b3 fresh(1,2) by (auto simp: store_frame_def fun_eq_iff)
    from tail_memory [OF close m this s', of resumed]
      migrate_entries_begun [OF begun(1,3,4) _ fresh(1,3), of tr m ?cp p out ?rs4 resumed]
    show ?thesis using loop vs(1) begun(2) by (simp add: b3_def)
  qed
qed

lemma checkpoint_bytes: "\<not> mu_size (vector_buffer n) < length cp \<Longrightarrow> buffer_bytes (copy_out cp (vector_buffer n)) = cp"
  by (cases "n = 0") (simp_all add: vector_buffer_def copy_out_def buffer_bytes_def memcpy_at_def)

lemma issue_migration_memory:
  assumes ordered: "handles_ordered b" "handle_fresh (mb_next_handle b) (mb_transactions b)" and vs: "om_ok (sd_values s)" "nonempty_keys (sd_values s)"
    and left: "unat (mb_next_handle b) + 3 < 2 ^ 64"
    and st: "um_find (mb_stores b) r = Some s"
  obtains (short) c where "issue_migration r d resumed (vector_buffer 4096) b = (ST_BUFFER_TOO_SMALL, None, c, b)" "sd_migration_checkpoint s \<noteq> []"
  | (issued) ms b' where "issue_migration r d resumed (vector_buffer 4096) b =
       (ST_OK, Some (mb_next_handle b, ms), Some (copy_out (sd_migration_checkpoint s) (vector_buffer 4096)), b')"
     "buffer_bytes (copy_out (sd_migration_checkpoint s) (vector_buffer 4096)) = sd_migration_checkpoint s"
     "migrating (mb_next_handle b) r (s\<lparr>sd_migration_handle_active := True\<rparr>) b'"
     "mb_store_handles b' = mb_store_handles b"
     "store_frame r b (b'\<lparr>mb_migrations := um_erase (mb_next_handle b) (mb_migrations b')\<rparr>)"
proof (cases "mu_size (vector_buffer 4096) < length (sd_migration_checkpoint s)")
  case True
  then show thesis using short st by (force simp: issue_migration_def store_at_Some)
next
  case False
  let ?n = "mb_next_handle b"
  let ?b = "(with_store r (\<lambda>s. s\<lparr>sd_migration_handle_active := True\<rparr>) b)\<lparr>mb_next_handle := ?n + 1,
    mb_migrations := um_emplace ?n \<lparr>mo_store = r, mo_durability = mg_durability d\<rparr> (mb_migrations b)\<rparr>"
  have n: "unat (?n + 1) = unat ?n + 1" "unat (?n + 2) = unat ?n + 2"
    using left by (simp_all add: unat_word_ariths)
  have lt: "?n < ?n + 1" "?n < ?n + 2" by (simp_all add: word_less_nat_alt n)
  have fresh: "um_find (mb_migrations b) ?n = None" "um_find (mb_transactions b) (?n + 1) = None" "um_find (mb_cursors b) (?n + 2) = None"
    using ordered lt unfolding handles_ordered_def by (meson fresh_None handle_fresh_def order.strict_trans)+
  have "?n + 1 \<noteq> 0" "?n + 2 \<noteq> 0" using n by (metis add_is_0 one_neq_zero unat_0, metis add_is_0 unat_0 zero_neq_numeral)
  then show thesis
    using False st fresh vs
    by (intro issued [of "\<lparr>mt_source_generation = sd_migration_source_generation s,
        mt_processed_entries = sd_migration_processed s, mt_resumed = resumed\<rparr>" ?b])
      (simp_all add: issue_migration_def store_at_Some take_handle_def checkpoint_bytes migrating_def store_frame_def fun_eq_iff
        add.commute [of 2], simp_all add: vector_buffer_def)
qed

text \<open>\<open>BeginMigration\<close> as the runtime calls it.\<close>

lemma begin_migration_memory:
  assumes reach: "backend_reachable b" and left: "unat (mb_next_handle b) + 3 < 2 ^ 64"
    and sh: "um_find (mb_store_handles b) sth = Some h" "sh_store h = r" and st: "um_find (mb_stores b) r = Some s"
    and pending: "sd_migration_id s \<noteq> [] \<longrightarrow> migration_progress tr s" and plan: "\<not> plan_invalid plan"
  obtains (refused) status c where "status \<noteq> ST_OK"
      "BeginMigration sth (Some (migration_descriptor plan)) True (Some (vector_buffer 4096)) b = (status, None, c, b)"
  | (begun) ms b1 s1 where "BeginMigration sth (Some (migration_descriptor plan)) True (Some (vector_buffer 4096)) b =
        (ST_OK, Some (mb_next_handle b, ms), Some (copy_out (sd_migration_checkpoint s1) (vector_buffer 4096)), b1)"
      "buffer_bytes (copy_out (sd_migration_checkpoint s1) (vector_buffer 4096)) = sd_migration_checkpoint s1"
      "migrating (mb_next_handle b) r s1 b1" "mb_store_handles b1 = mb_store_handles b" "migration_progress tr s1"
      "store_frame r b (b1\<lparr>mb_migrations := um_erase (mb_next_handle b) (mb_migrations b1)\<rparr>)"
      "sd_values s1 = sd_values s" "sd_blobs s1 = sd_blobs s" "sd_generation s1 = sd_generation s"
      "sd_schema_id s1 = sd_schema_id s" "sd_schema_version s1 = sd_schema_version s"
      "sd_migration_target_schema_id s1 = mp_target_schema_id plan" "sd_migration_target_schema_version s1 = mp_target_schema_version plan"
proof -
  let ?d = "migration_descriptor plan"
  have inv: "handles_ordered b" "handle_fresh (mb_next_handle b) (mb_transactions b)"
    using reachable_ordered [OF reach] backend_reachable_inv [OF reach] by (simp_all add: backend_inv_def backend_wf_def)
  have vs: "om_ok (sd_values s)" "nonempty_keys (sd_values s)"
    using backend_reachable_inv [OF reach] reachable_keyed [OF reach] st
    by (auto simp: backend_inv_def core_def store_sorted_def contents_keyed_def store_keyed_def)
  have complete: "\<not> migration_incomplete ?d" using plan by (simp add: plan_invalid_def migration_incomplete_def migration_descriptor_def)
  note B = BeginMigration_def [of sth "Some ?d" True "Some (vector_buffer 4096)" b]
  have "(\<exists>status. status \<noteq> ST_OK \<and> BeginMigration sth (Some ?d) True (Some (vector_buffer 4096)) b = (status, None, Some (vector_buffer 4096), b)) \<or>
      (sd_migration_id s \<noteq> [] \<and> migration_matches ?d s \<and>
        BeginMigration sth (Some ?d) True (Some (vector_buffer 4096)) b = issue_migration r ?d True (vector_buffer 4096) b) \<or>
      (sd_migration_id s = [] \<and>
        BeginMigration sth (Some ?d) True (Some (vector_buffer 4096)) b =
           issue_migration r ?d False (vector_buffer 4096) (with_store r (start_migration ?d) b))"
    using sh st complete by (auto simp: B store_at_Some Let_def)
  then consider (no) status where "status \<noteq> ST_OK" "BeginMigration sth (Some ?d) True (Some (vector_buffer 4096)) b = (status, None, Some (vector_buffer 4096), b)"
    | (resume) "sd_migration_id s \<noteq> []" "migration_matches ?d s"
        "BeginMigration sth (Some ?d) True (Some (vector_buffer 4096)) b = issue_migration r ?d True (vector_buffer 4096) b"
    | (start) "sd_migration_id s = []"
        "BeginMigration sth (Some ?d) True (Some (vector_buffer 4096)) b =
           issue_migration r ?d False (vector_buffer 4096) (with_store r (start_migration ?d) b)"
    by blast
  then show thesis
  proof cases
    case no
    then show thesis by (rule refused)
  next
    case resume
    from inv vs left st show thesis
    proof (cases rule: issue_migration_memory [where d = ?d and resumed = True])
      case (short c)
      then show thesis using refused [of ST_BUFFER_TOO_SMALL] resume by simp
    next
      case (issued ms b')
      then show thesis
        using resume pending
        by (intro begun [of ms "s\<lparr>sd_migration_handle_active := True\<rparr>" b'])
          (simp_all add: migration_progress_def migration_matches_def Same_def migration_descriptor_def)
    qed
  next
    case start
    let ?b = "with_store r (start_migration ?d) b" and ?s = "start_migration ?d s"
    have "handles_ordered ?b" "handle_fresh (mb_next_handle ?b) (mb_transactions ?b)" "om_ok (sd_values ?s)" "nonempty_keys (sd_values ?s)"
      "unat (mb_next_handle ?b) + 3 < 2 ^ 64" "um_find (mb_stores ?b) r = Some ?s"
      using inv vs left st by (simp_all add: handles_ordered_def start_migration_def store_at_Some)
    then show thesis
    proof (cases rule: issue_migration_memory [where d = ?d and resumed = False])
      case (short c)
      then show thesis by (simp add: start_migration_def)
    next
      case (issued ms b')
      then show thesis
        using start st
        by (intro begun [of ms "?s\<lparr>sd_migration_handle_active := True\<rparr>" b'])
          (simp_all add: migration_progress_def start_migration_def migration_descriptor_def done_entries_def migrated_values_def
            store_frame_def)
    qed
  qed
qed

text \<open>C27: a migration through the runtime is atomic, resumable and leaks nothing. Over the in-memory provider
  \<open>Store::Migrate\<close> always returns. When it succeeds, the store holds exactly the transform of its entries, in key order, under the
  target schema, one generation on, with its blobs kept, even when an earlier attempt had stopped half way. When it fails, at
  any entry, the store's values, blobs, schema and generation are as before, and what was already transformed is the
  transform of the entries up to the checkpoint, so the same plan can be run again. Other stores, and the tables of handles,
  are as they were.\<close>

theorem migrate_exact:
  assumes reach: "backend_reachable (rs_backend rs)" and run: "rs_running rs" and fits: "\<forall>n. fits n"
    and left: "unat (mb_next_handle (rs_backend rs)) + 3 < 2 ^ 64"
    and sh: "um_find (mb_store_handles (rs_backend rs)) (st_handle so) = Some h"
    and st: "um_find (mb_stores (rs_backend rs)) (sh_store h) = Some s"
    and pending: "sd_migration_id s \<noteq> [] \<longrightarrow> migration_progress tr s"
  shows "\<exists>res rs' s'. Store_Migrate (memory_table fits) so plan tr rs = Some (res, rs') \<and>
    um_find (mb_stores (rs_backend rs')) (sh_store h) = Some s' \<and> sd_blobs s' = sd_blobs s \<and>
    (case res of
       Inr info \<Rightarrow> sd_values s' = migrated_values tr (sd_values s) \<and> sd_schema_id s' = mp_target_schema_id plan \<and>
         sd_schema_version s' = mp_target_schema_version plan \<and> sd_generation s' = sd_generation s + 1 \<and> sd_migration_id s' = []
     | Inl e \<Rightarrow> sd_values s' = sd_values s \<and> sd_schema_id s' = sd_schema_id s \<and> sd_schema_version s' = sd_schema_version s \<and>
         sd_generation s' = sd_generation s \<and> (sd_migration_id s' \<noteq> [] \<longrightarrow> migration_progress tr s')) \<and>
    store_frame (sh_store h) (rs_backend rs) (rs_backend rs')"
proof -
  let ?b = "rs_backend rs" and ?n = "mb_next_handle (rs_backend rs)"
  show ?thesis
  proof (cases "\<not> Store_valid so \<or> plan_invalid plan")
    case True
    then show ?thesis
      using st pending
      by (intro exI [of _ "Inl (per_error PE_invalid_argument ''migration plan is invalid'')"] exI [of _ rs] exI [of _ s])
        (auto simp: Store_Migrate_def store_frame_def)
  next
    case valid: False
    then have plan: "\<not> plan_invalid plan" by simp
    from reach left sh refl st pending plan show ?thesis
    proof (cases rule: begin_migration_memory)
      case (refused status c)
      obtain e where "RuntimeState_MakeError (memory_table fits) status rs = (e, rs)" using MakeError_memory_eq by blast
      then have "Store_Migrate (memory_table fits) so plan tr rs = Some (Inl e, rs)"
        using valid refused by (simp add: Store_Migrate_def written_def Let_def)
      then show ?thesis
        using st pending by (intro exI [of _ "Inl e"] exI [of _ rs] exI [of _ s]) (simp add: store_frame_def)
    next
      case (begun ms b1 s1)
      let ?rs = "rs\<lparr>rs_backend := b1\<rparr>"
      have "migrating ?n (sh_store h) s1 (rs_backend ?rs)" "rs_running ?rs"
        "um_find (mb_store_handles (rs_backend ?rs)) (st_handle so) = Some h" "Store_valid so"
        using begun run sh valid by simp_all
      from migrate_entries_memory [OF this(1,2) fits this(3) refl this(4) begun(5), of "mt_processed_entries ms" "mt_resumed ms"] obtain res b' s' where
        end_: "migrate_entries (memory_table fits) so tr ?n (sd_migration_checkpoint s1) (mt_processed_entries ms) (mt_resumed ms) ?rs =
            Some (res, rs\<lparr>rs_backend := b'\<rparr>)"
          "store_frame (sh_store h) (b1\<lparr>mb_migrations := um_erase ?n (mb_migrations b1)\<rparr>) b'"
          "um_find (mb_stores b') (sh_store h) = Some s'" "migration_outcome tr s1 res s'"
        by auto
      have call: "Store_Migrate (memory_table fits) so plan tr rs = Some (res, rs\<lparr>rs_backend := b'\<rparr>)"
        using valid begun(1,2) end_(1) by (simp add: Store_Migrate_def written_def Let_def)
      have data: "sd_values s' = sd_values s1" "sd_blobs s' = sd_blobs s1" "sd_generation s' = sd_generation s1"
        "sd_schema_id s' = sd_schema_id s1" "sd_schema_version s' = sd_schema_version s1" if "same_data s1 s'"
        by (subst that [unfolded same_data_def], simp)+
      show ?thesis
        using begun(7-13) end_(3,4) data store_frame_trans [OF begun(6) end_(2)]
        by (intro exI [of _ res] exI [of _ "rs\<lparr>rs_backend := b'\<rparr>"] exI [of _ s'])
          (auto simp: call migration_outcome_def split: sum.splits)
    qed
  qed
qed

section \<open>Errors the caller does not see\<close>

text \<open>\<open>Stop\<close> drops the cursors of the provider, and \<open>Cursor::Next\<close> does not look at the runtime's state: a loop over
  the entries that is interrupted by \<open>Stop\<close> ends as if the entries had ended.\<close>

lemma stopped_cursor_reports_end:
  assumes "rs_running rs" and "Cursor_valid c"
  shows "Cursor_Next (memory_table fits) c (RuntimeState_Stop (memory_table fits) rs) =
    (Inr None, RuntimeState_Stop (memory_table fits) rs)"
proof -
  have "um_find (mb_cursors (Stop b)) h = None" for b h
    by (simp add: Stop_def Let_def fold_cursors um_find_def split: prod.split)
  then show ?thesis
    using assms by (simp add: Cursor_Next_def RuntimeState_Stop_def NextCursor_def paired_def written_def Let_def)
qed

text \<open>A commit that is refused ends the transaction at the provider but not in the runtime's object, whose \<open>Get\<close> then reports
  every key as absent.\<close>

lemma refused_commit_reads_absent:
  assumes "rs_running rs" and commit: "WriteTransaction_Commit (memory_table fits) w rs = (Inl e, w', rs')"
    and "pe_code e = PE_conflict" and "key \<noteq> []" and "WriteTransaction_valid w"
  shows "WriteTransaction_Get (memory_table fits) w' key rs' = (Inr None, rs')"
proof -
  let ?b = "rs_backend rs"
  obtain st r b' where c: "Commit (wt_handle w) True ?b = (st, r, b')" by (metis prod_cases3)
  have "st \<noteq> ST_OK" using commit assms(5) c by (auto simp: WriteTransaction_Commit_def paired_def Let_def)
  moreover have "RuntimeState_MakeError (memory_table fits) st (rs\<lparr>rs_backend := b'\<rparr>) = (e, rs')" "w' = w"
    using commit assms(5) c \<open>st \<noteq> ST_OK\<close> by (auto simp: WriteTransaction_Commit_def paired_def Let_def split: prod.splits)
  moreover from this have rs': "rs' = rs\<lparr>rs_backend := b'\<rparr>" by (metis MakeError_memory snd_conv)
  moreover have "pe_code e = ToErrorCode st"
    using calculation(2) by (auto simp: RuntimeState_MakeError_def paired_def per_error_def Let_def split: prod.splits)
  ultimately have "st = ST_CONFLICT" using assms(3) by (cases st) simp_all
  then have "memory_lookup b' (wt_handle w) key = None"
    using c by (auto simp: Commit_def memory_lookup_def writing_Some Let_def split: if_splits option.splits)
  then show ?thesis
    using mem.GetValue_lookup [of "wt_handle w" key rs' fits] assms rs' \<open>w' = w\<close>
    by (simp add: WriteTransaction_Get_def WriteTransaction_valid_def)
qed

text \<open>When the runtime object cannot be allocated, the provider is destroyed twice: once by the state that was already built
  over it, once by the handler of the exception.\<close>

lemma create_destroys_twice:
  assumes "fst (Runtime_Create n m AL_succeeds f config) = Inr rs"
  shows "snd (Runtime_Create n m AL_object_fails f config) = 2"
  using assms by (auto simp: Runtime_Create_def Let_def split: if_splits option.splits prod.splits)

section \<open>Examples\<close>

definition example_state :: "MemoryBackend \<Rightarrow> MemoryBackend RuntimeState" where
  "example_state b = \<lparr>rs_backend = b, rs_running = True\<rparr>"

definition example_migration_plan :: MigrationPlan where
  "example_migration_plan = \<lparr>mp_migration_id = ''m'', mp_source_schema_id = ''s'', mp_source_schema_version = 1,
     mp_target_schema_id = ''s'', mp_target_schema_version = 2, mp_durability = PD_buffered, mp_allow_downgrade = False\<rparr>"

definition doubling :: "bytes \<times> bytes \<Rightarrow> Transformed" where
  "doubling e = TF_entry (Some (fst e, snd e @ snd e))"

lemma reading_handles:
  "um_find (mb_store_handles reading_backend) 1 = Some \<lparr>sh_store = ''state'', sh_access = AC_READ_WRITE\<rparr>"
  "mb_next_handle reading_backend = 4" "sd_migration_id (store_at reading_backend ''state'') = []"
  "sd_values (store_at reading_backend ''state'') = [([1], [10, 11])]" "sd_generation (store_at reading_backend ''state'') = 1"
  "sd_blobs (store_at reading_backend ''state'') = []"
  by code_simp+

theorem migrate_exact_witness:
  "\<exists>res rs' s'. Store_Migrate (memory_table (\<lambda>_. True)) \<lparr>st_bound = True, st_handle = 1\<rparr> example_migration_plan doubling
       (example_state reading_backend) = Some (res, rs') \<and>
     um_find (mb_stores (rs_backend rs')) ''state'' = Some s' \<and>
     sd_values s' = (case res of Inr _ \<Rightarrow> [([1], [10, 11, 10, 11])] | Inl _ \<Rightarrow> [([1], [10, 11])]) \<and>
     store_frame ''state'' reading_backend (rs_backend rs')"
proof -
  have "migrated_values doubling [([1], [10, 11])] = [([1], [10, 11, 10, 11])]" by code_simp
  then show ?thesis
    using migrate_exact [of "example_state reading_backend" "\<lambda>_. True" "\<lparr>st_bound = True, st_handle = 1\<rparr>"
        "\<lparr>sh_store = ''state'', sh_access = AC_READ_WRITE\<rparr>" "store_at reading_backend ''state''" doubling example_migration_plan]
      reading_reachable reading_handles reading_store_Some
    by (simp add: example_state_def) (force split: sum.splits)
qed

theorem reachable_well_formed_witness:
  "backend_wf reading_backend \<and> contents_keyed reading_backend \<and> handles_ordered reading_backend \<and> mb_next_handle reading_backend = 4"
  using reachable_well_formed [OF reading_reachable] reading_handles(2) by simp

theorem iterate_exact_witness:
  "\<exists>cursor rs'. Iterate (memory_table (\<lambda>_. True)) \<lparr>rt_bound = True, rt_handle = 3, rt_generation = 1\<rparr> [1]
       (example_state reading_backend) = (Inr cursor, rs') \<and>
     iterate_all (memory_table (\<lambda>_. True)) 2 cursor rs' = Some (Inr [([1], [10, 11])])"
proof -
  let ?r = "\<lparr>rt_bound = True, rt_handle = 3, rt_generation = 1\<rparr>"
  obtain cursor rs' where "Iterate (memory_table (\<lambda>_. True)) ?r [1] (example_state reading_backend) = (Inr cursor, rs')"
    using reading_open
    by (auto simp: Iterate_def ReadTransaction_valid_def OpenCursor_def example_state_def reading_transaction_def take_handle_def
        paired_def result_of_def)
  then show ?thesis
    using iterate_exact [of "example_state reading_backend" "\<lambda>_. True" ?r reading_transaction "[1]" cursor rs' 2] reading_reachable reading_open
    by (simp add: example_state_def reading_transaction_def)
qed

section \<open>Blob streams\<close>

fun write_chunks ::
  "'b BackendTable \<Rightarrow> BlobWriter \<Rightarrow> bytes list \<Rightarrow> 'b RuntimeState \<Rightarrow> bool \<times> BlobWriter \<times> 'b RuntimeState" where
  "write_chunks T w [] rs = (True, w, rs)"
| "write_chunks T w (c # cs) rs =
     (case BlobWriter_Write T w c rs of
        (Inl _, w, rs) \<Rightarrow> (False, w, rs)
      | (Inr _, w, rs) \<Rightarrow> write_chunks T w cs rs)"

text \<open>A replacement of which the first bytes are written.\<close>

definition stream_at :: "Handle \<Rightarrow> BlobOperation \<Rightarrow> bytes \<Rightarrow> u64 \<Rightarrow> BlobWriter \<Rightarrow> MemoryBackend \<Rightarrow> bool" where
  "stream_at h op ws n w b \<longleftrightarrow>
     w = \<lparr>bw_bound = True, bw_handle = h, bw_size = n, bw_position = of_nat (length ws)\<rparr> \<and> h \<noteq> 0 \<and> length ws \<le> unat n \<and>
     bo_write op \<and> \<not> bo_finished op \<and>
     um_find (mb_blobs b) h = Some (op\<lparr>bo_value := ws @ replicate (unat n - length ws) 0, bo_written := of_nat (length ws)\<rparr>)"

lemma memcpy_stream: "memcpy_at (length ws) c (ws @ replicate k 0) = (ws @ c) @ replicate (k - length c) 0"
  by (simp add: memcpy_at_def)

lemma length_word: "length ws \<le> unat (n :: u64) \<Longrightarrow> unat (of_nat (length ws) :: u64) = length ws"
  using unsigned_less [of n, where ?'a = nat] by (simp add: unat_of_nat take_bit_nat_eq_self)

lemma unat_rest: "length ws \<le> unat (n :: u64) \<Longrightarrow> unat (n - of_nat (length ws)) = unat n - length ws"
  using length_word [of ws n] by (simp add: unat_sub word_le_nat_alt)

lemma um_erase_set: "um_erase k (um_set k v m) = um_erase k m"
  by (induction k v m rule: um_set.induct) (auto simp: um_erase_def)

lemma write_stream:
  assumes at: "stream_at h op ws n w (rs_backend rs)" and wr: "BlobWriter_Write (memory_table fits) w c rs = (Inr k, w', rs')"
  shows "stream_at h op (ws @ c) n w' (rs_backend rs') \<and>
    (\<exists>op'. rs' = rs\<lparr>rs_backend := (rs_backend rs)\<lparr>mb_blobs := um_set h op' (mb_blobs (rs_backend rs))\<rparr>\<rparr>)"
proof -
  have w: "w = \<lparr>bw_bound = True, bw_handle = h, bw_size = n, bw_position = of_nat (length ws)\<rparr>" and h: "h \<noteq> 0" and le: "length ws \<le> unat n"
    and op: "bo_write op" "\<not> bo_finished op"
      "um_find (mb_blobs (rs_backend rs)) h = Some (op\<lparr>bo_value := ws @ replicate (unat n - length ws) 0, bo_written := of_nat (length ws)\<rparr>)"
    using at by (auto simp: stream_at_def)
  have u: "unat (of_nat (length ws) :: u64) = length ws" "unat (n - of_nat (length ws)) = unat n - length ws"
    using le length_word unat_rest by auto
  show ?thesis
  proof (cases "c = []")
    case True
    then have "w' = w" "rs' = rs" using wr by (auto simp: BlobWriter_Write_def split: if_splits)
    then show ?thesis using at True op(3) by (auto intro!: exI [of _ "op\<lparr>bo_value := ws @ replicate (unat n - length ws) 0, bo_written := of_nat (length ws)\<rparr>"] simp: um_set_same)
  next
    case False
    let ?op = "op\<lparr>bo_value := (ws @ c) @ replicate (unat n - length (ws @ c)) 0, bo_written := of_nat (length (ws @ c))\<rparr>"
    have fit: "length c \<le> unat n - length ws" using wr u by (auto simp: BlobWriter_Write_def w split: if_splits)
    have "WriteBlob h (of_nat (length ws)) (span_view c) (rs_backend rs) = (ST_OK, set_blob h ?op (rs_backend rs))"
      using op le fit u by (simp add: WriteBlob_def replacing_def memcpy_stream [simplified])
    then have "w' = w\<lparr>bw_position := of_nat (length (ws @ c))\<rparr>" "rs' = rs\<lparr>rs_backend := set_blob h ?op (rs_backend rs)\<rparr>"
      using wr False by (auto simp: BlobWriter_Write_def w Let_def split: if_splits)
    then show ?thesis using w h op(1,2) le fit by (auto simp: stream_at_def set_blob_def)
  qed
qed

lemma write_chunks_stream:
  "stream_at h op ws n w (rs_backend rs) \<Longrightarrow> write_chunks (memory_table fits) w cs rs = (True, w', rs') \<Longrightarrow>
   stream_at h op (ws @ concat cs) n w' (rs_backend rs') \<and>
   (\<exists>m. rs' = rs\<lparr>rs_backend := (rs_backend rs)\<lparr>mb_blobs := m\<rparr>\<rparr> \<and> (\<forall>k. k \<noteq> h \<longrightarrow> um_find m k = um_find (mb_blobs (rs_backend rs)) k))"
proof (induction cs arbitrary: ws w rs)
  case Nil
  then show ?case by (auto intro!: exI [of _ "mb_blobs (rs_backend rs')"])
next
  case (Cons c cs)
  obtain k w1 rs1 where w: "BlobWriter_Write (memory_table fits) w c rs = (Inr k, w1, rs1)" "write_chunks (memory_table fits) w1 cs rs1 = (True, w', rs')"
    using Cons.prems(2) by (auto split: prod.splits sum.splits)
  from write_stream [OF Cons.prems(1) w(1)] obtain op' where
    1: "stream_at h op (ws @ c) n w1 (rs_backend rs1)" "rs1 = rs\<lparr>rs_backend := (rs_backend rs)\<lparr>mb_blobs := um_set h op' (mb_blobs (rs_backend rs))\<rparr>\<rparr>"
    by blast
  from Cons.IH [OF 1(1) w(2)] 1(2) show ?case by auto
qed

lemma blob_table_simps [simp]:
  "bt_blob_replace_begin (memory_table fits) h key n d = BeginBlobReplace h key n d True (fits (unat n))"
  "bt_blob_read_open (memory_table fits) h key b =
     (let (st, r, b) = OpenBlobRead h key True b in (st, map_option (\<lambda>(h, n, g). (h, of_nat n, g)) r, b))"
  "bt_blob_read (memory_table fits) h off out b = (let (st, r) = ReadBlob h off (Some out) b in (st, written out r, b))"
  by (simp_all add: memory_table_def)

lemma begin_stream:
  assumes begin_: "Store_BeginBlobReplace (memory_table fits) so key n du rs = (Inr w, rs1)"
    and fresh: "um_find (mb_blobs (rs_backend rs)) (mb_next_handle (rs_backend rs)) = None" "mb_next_handle (rs_backend rs) \<noteq> 0"
    and wf: "backend_wf (rs_backend rs)"
  shows "\<exists>sh s op. um_find (mb_store_handles (rs_backend rs)) (st_handle so) = Some sh \<and> um_find (mb_stores (rs_backend rs)) (sh_store sh) = Some s \<and>
    stream_at (mb_next_handle (rs_backend rs)) op [] n w (rs_backend rs1) \<and> bo_store op = sh_store sh \<and> bo_key op = key \<and>
    store_at (rs_backend rs1) (sh_store sh) = s\<lparr>sd_writer_active := True\<rparr> \<and> Store_valid so \<and> key \<noteq> [] \<and>
    mb_store_handles (rs_backend rs1) = mb_store_handles (rs_backend rs) \<and>
    mb_next_handle (rs_backend rs1) = mb_next_handle (rs_backend rs) + 1 \<and>
    (\<forall>k. k \<noteq> mb_next_handle (rs_backend rs) \<longrightarrow> um_find (mb_blobs (rs_backend rs1)) k = um_find (mb_blobs (rs_backend rs)) k)"
proof -
  let ?b = "rs_backend rs" and ?h = "mb_next_handle (rs_backend rs)"
  have ok: "Store_valid so" "key \<noteq> []" "fst (BeginBlobReplace (st_handle so) (span_view key) n (ToAbi du) True (fits (unat n)) ?b) = ST_OK"
    using begin_ by (auto simp: Store_BeginBlobReplace_def paired_def result_of_Inr Let_def split: if_splits prod.splits)
  then obtain sh where sh: "um_find (mb_store_handles ?b) (st_handle so) = Some sh"
    by (cases "um_find (mb_store_handles ?b) (st_handle so)") (auto simp: BeginBlobReplace_def)
  have st: "um_find (mb_stores ?b) (sh_store sh) = Some (store_at ?b (sh_store sh))" using wf_store_handle [OF wf sh] by simp
  let ?op = "\<lparr>bo_store = sh_store sh, bo_key = key, bo_value = replicate (unat n) 0, bo_generation = sd_generation (store_at ?b (sh_store sh)),
    bo_written = 0, bo_durability = ToAbi du, bo_write = True, bo_finished = False\<rparr>"
  have "BeginBlobReplace (st_handle so) (span_view key) n (ToAbi du) True (fits (unat n)) ?b =
      (ST_OK, Some (?h, sd_generation (store_at ?b (sh_store sh))),
       (with_store (sh_store sh) (\<lambda>s. s\<lparr>sd_writer_active := True\<rparr>) ?b)\<lparr>mb_next_handle := ?h + 1, mb_blobs := um_emplace ?h ?op (mb_blobs ?b)\<rparr>)"
    using ok sh by (auto simp: BeginBlobReplace_def take_handle_def Let_def split: if_splits)
  then have w: "w = \<lparr>bw_bound = True, bw_handle = ?h, bw_size = n, bw_position = 0\<rparr>" and rs1: "rs1 = rs\<lparr>rs_backend :=
      (with_store (sh_store sh) (\<lambda>s. s\<lparr>sd_writer_active := True\<rparr>) ?b)\<lparr>mb_next_handle := ?h + 1, mb_blobs := um_emplace ?h ?op (mb_blobs ?b)\<rparr>\<rparr>"
    using begin_ ok by (auto simp: Store_BeginBlobReplace_def paired_def result_of_def written_def)
  have "stream_at ?h ?op [] n w (rs_backend rs1)" using fresh by (simp add: stream_at_def w rs1)
  moreover have "store_at (rs_backend rs1) (sh_store sh) = (store_at ?b (sh_store sh))\<lparr>sd_writer_active := True\<rparr>"
    by (simp add: rs1 store_at_def [of "_ \<lparr>mb_next_handle := _, mb_blobs := _\<rparr>"])
  ultimately show ?thesis
    using sh st ok fresh
    by (intro exI [of _ sh] exI [of _ "store_at ?b (sh_store sh)"] exI [of _ ?op] conjI) (simp_all add: rs1)
qed

lemma commit_stream:
  assumes at: "stream_at h op ws n w (rs_backend rs)" and commit: "BlobWriter_Commit (memory_table fits) w rs = (Inr info, w', rs')"
  shows "length ws = unat n \<and>
    rs_backend rs' = (with_store (bo_store op) (\<lambda>s. s\<lparr>sd_blobs := om_set (bo_key op) ws (sd_blobs s),
       sd_generation := sd_generation s + 1, sd_successful_commits := sd_successful_commits s + 1, sd_writer_active := False\<rparr>) (rs_backend rs))
      \<lparr>mb_blobs := um_erase h (mb_blobs (rs_backend rs))\<rparr>"
proof -
  have w: "BlobWriter_valid w" "bw_handle w = h" "of_nat (length ws) = n" "length ws \<le> unat n"
    using at commit by (auto simp: stream_at_def BlobWriter_valid_def BlobWriter_Commit_def split: if_splits)
  then have n: "length ws = unat n" using length_word [OF w(4)] by simp
  let ?op = "op\<lparr>bo_value := ws, bo_written := n\<rparr>"
  have op: "um_find (mb_blobs (rs_backend rs)) h = Some ?op" "bo_write op" "\<not> bo_finished op"
    using at n w(3) by (simp_all add: stream_at_def)
  have "fst (CommitBlob h True (rs_backend rs)) = ST_OK"
    using commit w by (auto simp: BlobWriter_Commit_def paired_def Let_def split: if_splits prod.splits)
  then have c: "snd (snd (CommitBlob h True (rs_backend rs))) = set_blob h (?op\<lparr>bo_finished := True\<rparr>)
      (with_store (bo_store op) (\<lambda>s. s\<lparr>sd_blobs := om_set (bo_key op) ws (sd_blobs s),
       sd_generation := sd_generation s + 1, sd_successful_commits := sd_successful_commits s + 1, sd_writer_active := False\<rparr>) (rs_backend rs))"
    using op n by (auto simp: CommitBlob_def replacing_def Let_def split: if_splits)
  have "rs_backend rs' = snd (CloseBlob h (snd (snd (CommitBlob h True (rs_backend rs)))))"
    using commit w by (auto simp: BlobWriter_Commit_def paired_def Let_def split: if_splits prod.splits)
  then show ?thesis using n by (simp add: c CloseBlob_def release_blob_def set_blob_def um_erase_set)
qed

lemma open_blob_reads:
  assumes "um_find (mb_store_handles (rs_backend rs)) (st_handle so) = Some sh" and "Store_valid so" and "key \<noteq> []"
    and "um_find (sd_blobs (store_at (rs_backend rs) (sh_store sh))) key = Some v" and "length v = unat n"
    and "um_find (mb_blobs (rs_backend rs)) (mb_next_handle (rs_backend rs)) = None" and "mb_next_handle (rs_backend rs) \<noteq> 0"
  shows "\<exists>reader rs'. Store_OpenBlob (memory_table fits) so key rs = (Inr reader, rs') \<and> br_size reader = n \<and>
       (\<forall>offset k. unat offset + k \<le> unat n \<longrightarrow>
          BlobReader_Read (memory_table fits) reader offset k rs' = (Inr k, take k (drop (unat offset) v), rs'))"
proof -
  let ?b = "rs_backend rs" and ?h = "mb_next_handle (rs_backend rs)"
  let ?s = "store_at ?b (sh_store sh)"
  let ?reader = "\<lparr>br_bound = True, br_handle = ?h, br_size = n, br_generation = sd_generation ?s\<rparr>"
  let ?rs = "rs\<lparr>rs_backend := ?b\<lparr>mb_next_handle := ?h + 1, mb_blobs := um_emplace ?h \<lparr>bo_store = sh_store sh, bo_key = key, bo_value = v,
       bo_generation = sd_generation ?s, bo_written = n, bo_durability = DU_BUFFERED, bo_write = False, bo_finished = False\<rparr> (mb_blobs ?b)\<rparr>\<rparr>"
  have "Store_OpenBlob (memory_table fits) so key rs = (Inr ?reader, ?rs)"
    using assms by (simp add: Store_OpenBlob_def OpenBlobRead_def take_handle_def paired_def result_of_def written_def Let_def)
  moreover have "BlobReader_Read (memory_table fits) ?reader offset k ?rs = (Inr k, take k (drop (unat offset) v), ?rs)"
    if "unat offset + k \<le> unat n" for offset k
  proof -
    have o: "offset \<le> n" "unat (n - offset) = unat n - unat offset" using that by (auto simp: word_le_nat_alt unat_sub)
    have "length (take k (drop (unat offset) v)) = k" using that assms(5) by simp
    then show ?thesis
      using that assms o
      by (auto simp: BlobReader_Read_def BlobReader_valid_def ReadBlob_def vector_buffer_def paired_def result_of_def written_def memcpy_at_def Let_def not_less)
  qed
  ultimately show ?thesis by auto
qed

text \<open>C28: a blob written in any chunks is read back as their concatenation. When a replacement of the declared size was
  begun, every chunk was accepted and the commit succeeded, over the in-memory provider, the store holds the
  concatenation of the chunks under the key and is one generation on, and a reader opened afterwards has the declared size and
  returns every range of those bytes.\<close>

theorem blob_stream_roundtrip:
  assumes reach: "backend_reachable (rs_backend rs)" and left: "unat (mb_next_handle (rs_backend rs)) + 2 < 2 ^ 64"
    and begin_: "Store_BeginBlobReplace (memory_table fits) so key n du rs = (Inr w, rs1)"
    and chunks: "write_chunks (memory_table fits) w cs rs1 = (True, w', rs2)"
    and commit: "BlobWriter_Commit (memory_table fits) w' rs2 = (Inr info, w'', rs3)"
  shows "length (concat cs) = unat n \<and>
    (\<exists>h s. um_find (mb_store_handles (rs_backend rs)) (st_handle so) = Some h \<and> um_find (mb_stores (rs_backend rs)) (sh_store h) = Some s \<and>
       store_at (rs_backend rs3) (sh_store h) = committed (\<lambda>s. s\<lparr>sd_blobs := om_set key (concat cs) (sd_blobs s)\<rparr>) s) \<and>
    (\<exists>reader rs4. Store_OpenBlob (memory_table fits) so key rs3 = (Inr reader, rs4) \<and> br_size reader = n \<and>
       (\<forall>offset k. unat offset + k \<le> unat n \<longrightarrow>
          BlobReader_Read (memory_table fits) reader offset k rs4 = (Inr k, take k (drop (unat offset) (concat cs)), rs4)))"
proof -
  let ?b = "rs_backend rs" and ?h = "mb_next_handle (rs_backend rs)"
  have inv: "backend_wf ?b" "handles_ordered ?b" using backend_reachable_inv [OF reach] reachable_ordered [OF reach] by (simp_all add: backend_inv_def)
  have fresh: "um_find (mb_blobs ?b) ?h = None" "?h \<noteq> 0"
    using inv by (auto simp: handles_ordered_def backend_wf_def intro: fresh_None)
  have "?h < ?h + 1" using left by (simp add: word_less_nat_alt unat_word_ariths)
  then have nxt: "um_find (mb_blobs ?b) (?h + 1) = None" "?h + 1 \<noteq> 0" "?h + 1 \<noteq> ?h"
    using inv(1) by (auto simp: backend_wf_def handle_fresh_def)
  obtain sh s op where b: "um_find (mb_store_handles ?b) (st_handle so) = Some sh" "um_find (mb_stores ?b) (sh_store sh) = Some s"
      "stream_at ?h op [] n w (rs_backend rs1)" "bo_store op = sh_store sh" "bo_key op = key"
      "store_at (rs_backend rs1) (sh_store sh) = s\<lparr>sd_writer_active := True\<rparr>" "Store_valid so" "key \<noteq> []"
      "mb_store_handles (rs_backend rs1) = mb_store_handles ?b" "mb_next_handle (rs_backend rs1) = ?h + 1"
      "\<forall>k. k \<noteq> ?h \<longrightarrow> um_find (mb_blobs (rs_backend rs1)) k = um_find (mb_blobs ?b) k"
    using begin_stream [OF begin_ fresh inv(1)] by auto
  obtain m where c: "stream_at ?h op (concat cs) n w' (rs_backend rs2)" "rs2 = rs1\<lparr>rs_backend := (rs_backend rs1)\<lparr>mb_blobs := m\<rparr>\<rparr>"
      "\<forall>k. k \<noteq> ?h \<longrightarrow> um_find m k = um_find (mb_blobs (rs_backend rs1)) k"
    using write_chunks_stream [OF b(3) chunks] by auto
  note d = commit_stream [OF c(1) commit]
  have s': "store_at (rs_backend rs3) (sh_store sh) = committed (\<lambda>s. s\<lparr>sd_blobs := om_set key (concat cs) (sd_blobs s)\<rparr>) s"
    using d b(4-6) by (simp add: c(2) store_at_def committed_def)
  have "om_ok (sd_blobs s)" using backend_reachable_inv [OF reach] b(2) by (auto simp: backend_inv_def core_def store_sorted_def)
  then have "um_find (sd_blobs (store_at (rs_backend rs3) (sh_store sh))) key = Some (concat cs)" by (simp add: s' committed_def)
  moreover have "mb_store_handles (rs_backend rs3) = mb_store_handles ?b" "mb_next_handle (rs_backend rs3) = ?h + 1"
    "um_find (mb_blobs (rs_backend rs3)) (?h + 1) = None"
    using d b(9-11) c(3) nxt by (simp_all add: c(2))
  ultimately show ?thesis
    using d b s' nxt open_blob_reads [of rs3 so sh key "concat cs" n fits] by auto
qed

definition example_writer :: WriteTransaction where
  "example_writer = \<lparr>wt_bound = True, wt_handle = 2, wt_generation = 0\<rparr>"

theorem runtime_reads_own_writes_witness:
  "\<exists>rs'. WriteTransaction_Put (memory_table (\<lambda>_. True)) example_writer [1] [10, 11] (example_state writing_backend) = (Inr True, rs') \<and>
     WriteTransaction_Get (memory_table (\<lambda>_. True)) example_writer [1] rs' = (Inr (Some [10, 11]), rs')"
proof -
  have "fst (Put 2 (span_view [1]) (span_view [10, 11]) writing_backend) = ST_OK" by code_simp
  then obtain rs' where
    "WriteTransaction_Put (memory_table (\<lambda>_. True)) example_writer [1] [10, 11] (example_state writing_backend) = (Inr True, rs')"
    by (auto simp: WriteTransaction_Put_def WriteTransaction_valid_def example_writer_def example_state_def result_of_def Let_def)
  then show ?thesis
    using runtime_reads_own_writes [of "example_state writing_backend" "\<lambda>_. True" example_writer "[1]" "[10, 11]" rs'] writing_reachable
    by (auto simp: example_state_def)
qed

definition blob_backend :: MemoryBackend where
  "blob_backend = perform_all [C_start, C_open_store (Some example_descriptor) True] fresh_backend"

lemma blob_reachable: "backend_reachable blob_backend"
  unfolding blob_backend_def by (rule example_reachable) code_simp

definition blob_begun :: "(BlobWriter, PerError) result \<times> MemoryBackend RuntimeState" where
  "blob_begun = Store_BeginBlobReplace (memory_table (\<lambda>_. True)) \<lparr>st_bound = True, st_handle = 1\<rparr> [7] 3 PD_buffered (example_state blob_backend)"

definition blob_chunked :: "bool \<times> BlobWriter \<times> MemoryBackend RuntimeState" where
  "blob_chunked = write_chunks (memory_table (\<lambda>_. True)) \<lparr>bw_bound = True, bw_handle = 2, bw_size = 3, bw_position = 0\<rparr> [[1, 2], [3]] (snd blob_begun)"

lemma blob_steps:
  "fst blob_begun = Inr \<lparr>bw_bound = True, bw_handle = 2, bw_size = 3, bw_position = 0\<rparr>" "fst blob_chunked" "mb_next_handle blob_backend = 2"
  "fst (BlobWriter_Commit (memory_table (\<lambda>_. True)) (fst (snd blob_chunked)) (snd (snd blob_chunked))) =
     Inr \<lparr>ci_generation = 1, ci_achieved_durability = PD_buffered\<rparr>"
  by code_simp+

lemma triple_eta: "fst x = a \<Longrightarrow> x = (a, fst (snd x), snd (snd x))"
  by (cases x) auto

theorem blob_stream_roundtrip_witness:
  "\<exists>reader rs'. Store_OpenBlob (memory_table (\<lambda>_. True)) \<lparr>st_bound = True, st_handle = 1\<rparr> [7]
       (snd (snd (BlobWriter_Commit (memory_table (\<lambda>_. True)) (fst (snd blob_chunked)) (snd (snd blob_chunked))))) = (Inr reader, rs') \<and>
     BlobReader_Read (memory_table (\<lambda>_. True)) reader 1 2 rs' = (Inr 2, [2, 3], rs')"
proof -
  let ?T = "memory_table (\<lambda>_. True)"
  have 1: "Store_BeginBlobReplace ?T \<lparr>st_bound = True, st_handle = 1\<rparr> [7] 3 PD_buffered (example_state blob_backend) =
      (Inr \<lparr>bw_bound = True, bw_handle = 2, bw_size = 3, bw_position = 0\<rparr>, snd blob_begun)"
    unfolding blob_begun_def [symmetric] by (simp add: prod_eq_iff blob_steps(1))
  have 2: "write_chunks ?T \<lparr>bw_bound = True, bw_handle = 2, bw_size = 3, bw_position = 0\<rparr> [[1, 2], [3]] (snd blob_begun) =
      (True, fst (snd blob_chunked), snd (snd blob_chunked))"
    unfolding blob_chunked_def [symmetric] by (rule triple_eta) (simp add: blob_steps(2))
  have 3: "BlobWriter_Commit ?T (fst (snd blob_chunked)) (snd (snd blob_chunked)) = (Inr \<lparr>ci_generation = 1, ci_achieved_durability = PD_buffered\<rparr>,
      fst (snd (BlobWriter_Commit ?T (fst (snd blob_chunked)) (snd (snd blob_chunked)))),
      snd (snd (BlobWriter_Commit ?T (fst (snd blob_chunked)) (snd (snd blob_chunked)))))"
    by (rule triple_eta [OF blob_steps(4)])
  have b: "backend_reachable (rs_backend (example_state blob_backend))" "unat (mb_next_handle (rs_backend (example_state blob_backend))) + 2 < 2 ^ 64"
    using blob_reachable blob_steps(3) by (simp_all add: example_state_def)
  from blob_stream_roundtrip [OF b 1 2 3] obtain reader rs' where
    "Store_OpenBlob ?T \<lparr>st_bound = True, st_handle = 1\<rparr> [7]
       (snd (snd (BlobWriter_Commit ?T (fst (snd blob_chunked)) (snd (snd blob_chunked))))) = (Inr reader, rs')"
    and r: "\<forall>offset k. unat offset + k \<le> unat (3 :: u64) \<longrightarrow>
      BlobReader_Read ?T reader offset k rs' = (Inr k, take k (drop (unat offset) (concat [[1, 2], [3]])), rs')" by blast
  moreover have "BlobReader_Read ?T reader 1 2 rs' = (Inr 2, [2, 3], rs')" using r [rule_format, of 1 2] by simp
  ultimately show ?thesis by blast
qed

end
