(* ===== verification/Spec2Isabelle.thy ===== *)
theory Spec2Isabelle
  imports Com_Binding_Calls Com_Runtime_Lifecycle Exec_File_Journal Exec_Ipc_Client Per_Codec Per_Runtime_Memory
begin

text \<open>
  A verification development of the Open Vehicle Framework, a C++ framework for vehicle
  applications. It covers the execution cluster (\<^verbatim>\<open>src/exec\<close>) from the model to the coordinator, the
  persistence cluster (\<^verbatim>\<open>src/per\<close>) from the client interface to the in-memory provider, and of the communication
  cluster (\<^verbatim>\<open>src/com\<close>) the runtime, the in-process transport and the bindings between them and generated code.

  \<^bold>\<open>The program.\<close> An execution model declares units (applications, services, mounts) with dependencies and
  exclusive resources, and domains with modes; a mode names the units it needs. The planner turns the
  wish to bring a domain into a mode into a plan of stops and starts. The scheduler hands out
  leases on domains, units and resources. The engine executes plans over a process backend, records every
  phase in a journal, recovers from failures and rebuilds its state from the journal at a start. The
  coordinator accepts requests of clients, queues them and lets worker threads run the engine; other processes reach it
  over a socket. The
  persistence backend keeps named stores of values and blobs behind a binary interface with
  transactions, cursors, snapshots, migrations and rollback; the persistence runtime gives clients objects over it, and the
  codec turns structures into the bytes that are stored. The communication runtime reads a deployment, loads transport
  providers, starts and stops them together and resolves routes; a provider offers discovery, events, methods and loans behind a
  binary interface and hands its callbacks to an executor of the host. Generated code reaches a provider through client and server
  bindings: method calls, subscriptions, offered methods and events, and discovery of routes.

  \<^bold>\<open>Theories.\<close>
  \<^item> \<open>OVF_Prelude\<close>: result values (\<^verbatim>\<open>core/result.hpp\<close>), machine words, the C++ containers as lists
    (\<open>us_\<close> an unordered set, \<open>um_\<close> an unordered map, \<open>om_\<close> an ordered map), their laws as the locales
    \<open>set_container\<close> and \<open>map_container\<close>. The order of a list stands for the iteration order of
    the container.
  \<^item> \<open>Exec_Types\<close>: \<^verbatim>\<open>types.hpp\<close>, \<^verbatim>\<open>error.hpp\<close> and the data of \<^verbatim>\<open>model.hpp\<close>.
  \<^item> \<open>Exec_Model\<close>: \<^verbatim>\<open>exec/src/model.cpp\<close>. \<open>InspectModel\<close> with all its checks, the depth-first cycle search
    and the index. Validation accepts exactly the declaratively well-formed models; the search ends and is exact;
    lookups return the declared objects.
  \<^item> \<open>Exec_Planner\<close>: \<^verbatim>\<open>exec/src/planner.cpp\<close>. A plan exists exactly when the declared conditions hold, splits
    the units exactly, keeps every dependency after every prefix of its actions and does not
    depend on iteration orders; the same for the units a domain stop removes and for the initial configuration.
  \<^item> \<open>Exec_Scheduler\<close>: \<^verbatim>\<open>exec/src/scheduler.cpp\<close> as operations and as a step relation of waiting and running
    callers. Leases are exclusive under every interleaving, the owner tables and the leases agree
    (locale \<open>ownership\<close>), releasing undoes granting and unblocks a waiting caller.
  \<^item> \<open>Exec_Engine\<close>: \<^verbatim>\<open>exec/src/engine.cpp\<close>. Backend, journal, clock and the other threads are a record of functions;
    the locales \<open>sole_user\<close>, \<open>engine_journal\<close> and \<open>engine_startup\<close> state what the engine relies on.
    A request returns with a final transition, keeps the journal replayable and the running units
    dependency-closed; after a success the journal replays to the new configuration.
  \<^item> \<open>Exec_File_Journal\<close>: \<^verbatim>\<open>exec/src/file_journal.cpp\<close>. Record codec, checksum, frames, \<open>Append\<close> over a file with
    arbitrary outcomes of the system calls, \<open>Replay\<close>. Decoding inverts encoding, an append is atomic
    for every crash, single damaged bytes are detected, and the file journal refines the
    memory journal (locale \<open>transition_journal\<close>, interpreted on both).
  \<^item> \<open>Exec_Coordinator\<close>, \<open>Exec_Service\<close>: \<^verbatim>\<open>exec/src/coordinator.cpp\<close>. Requests with the replacement
    policies, workers, waiting calls, subscriptions, snapshots and handles; the interleavings of the threads
    as \<open>service_step\<close>. Bounds of queue and subscriptions, at most one unfinished transition of a
    rejecting domain, nothing lost at a shutdown, the refinement of the engine's \<open>RequestMode\<close>; the locale
    \<open>steady_engine\<close> states what the coordinator relies on of the engine's environment.
  \<^item> \<open>Exec_Ipc\<close>, \<open>Exec_Ipc_Client\<close>: \<^verbatim>\<open>exec/src/coordinator_ipc.cpp\<close>. The JSON messages, the client, the server's
    dispatch and its threads. Every decoder inverts its encoder, a remote client gets what a local one gets, the server keeps
    its bounds, and polling for events is complete while revisions are distinct and in order. The locale
    \<open>json_library\<close> states what is used of the JSON library and is interpreted on a writer and reader of JSON values.
  \<^item> \<open>Per_Memory\<close>, \<open>Per_Store\<close>: \<^verbatim>\<open>per/backends/memory.cpp\<close> and \<^verbatim>\<open>backend_abi.h\<close>. Every entry of the function table,
    and the abstract transactional store it refines: one writer per store, isolated readers, atomic commits,
    quotas, exact cursors.
  \<^item> \<open>Per_Runtime\<close>, \<open>Per_Runtime_Memory\<close>: \<^verbatim>\<open>per/src/runtime.cpp\<close> and \<^verbatim>\<open>per.hpp\<close> over a table of provider functions, and over the
    in-memory provider. The locales \<open>reading_provider\<close> and \<open>iterating_provider\<close> state what reading relies on of a provider. A transaction
    reads its own writes, a cursor ends with exactly the entries of its prefix, a migration is atomic, resumable and leaves no
    handle behind, a blob written in chunks is read back.
  \<^item> \<open>Per_Codec\<close>: \<^verbatim>\<open>per/include/ovf/per/codec.hpp\<close>. Decoding inverts encoding (locale \<open>value_codec\<close>), fields are read back, an
    envelope opens exactly under its schema and version.
  \<^item> \<open>Com_Inproc\<close>, \<open>Com_Inproc_Runs\<close>, \<open>Com_Inproc_Delivery\<close>: \<^verbatim>\<open>com/transports/inproc/src/inproc_transport.cpp\<close> and the data of
    \<^verbatim>\<open>transport_abi.h\<close>. Every entry of the function table as the part under the mutex and the actions after it; the
    interleavings of threads and of the executor's tasks as \<open>com_step\<close>. After \<open>unsubscribe\<close> has returned no sample arrives, an operation
    completes at most once, the limits hold; a sample reaches every subscriber once, a request reaches its server and the response
    its client, discovery follows the providers, and a stop completes every pending operation. Objects shared between tables and tasks
    follow the locale \<open>callback_gate\<close>, interpreted on subscriptions, watches and servers.
  \<^item> \<open>Core_Uuid\<close>: \<^verbatim>\<open>core/uuid.hpp\<close>. Parsing accepts exactly the canonical text of a UUID and inverts printing.
  \<^item> \<open>Com_Runtime\<close>, \<open>Com_Runtime_Lifecycle\<close>: \<^verbatim>\<open>com/src/runtime.cpp\<close>. Deployment documents, the checks of
    a provider, start, stop, health, diagnostics and routes over providers that are functions on a state. A start brings up
    all transports or none, the states of the runtime and of its providers agree in every run, and the runtime runs the in-process
    transport.
  \<^item> \<open>Com_Binding\<close>, \<open>Com_Binding_Calls\<close>: \<^verbatim>\<open>com/src/provider_binding.cpp\<close> over the function table of a provider, and over the in-process
    transport. A remote call returns what its handler gave, a closed subscription is quiet under every interleaving, a server binding
    leaks no endpoint over any provider, and discovery selects the best available route.

  \<^bold>\<open>Conventions.\<close> Identifiers and counters are words of their width and wrap; time points and durations are
  integers. An error return is \<open>Inl\<close>, or the status code of the binary interface; \<open>None\<close> is a null
  dereference or an exception the code does not catch. Loops over containers recurse on the list. The cycle search and the
  planner's ordering recurse with a bound, the number of units, which is shown to suffice; retry loops recurse on
  the attempts left, which validation bounds by 100. Behaviour of code outside the sources is a
  parameter: the process backend and the journal of the engine, the outcomes of system calls on the journal
  file and on sockets, the JSON library, the dynamic loader and the providers it finds, the host's executor, the clock, the
  memory an allocation needs.
  Hypotheses bound what the code does not guard: fewer than \<open>2 ^ 64\<close> transitions and handles, store
  limits below the address space, a clock within its 64-bit representation. Each is discharged
  on a concrete instance next to the property.

  \<^bold>\<open>What the proofs showed to be wrong.\<close> Properties of concrete runs and of the code's branches document
  behaviour that is not meant: units a plan retains are not leased; a restart after a
  recovery starts units again; a refused request can make the journal unreadable; a failed partial append can lose a
  later acknowledged event; a waiting call misses a completion; a refused request cancels the active
  transition; queued transitions can be executed out of order; a rollback during a migration freezes the store; a
  migration can exceed the quota; a request with a negative version ends the server; remote events can be lost without
  a report; an iteration over a stopped persistence runtime ends as if the entries had ended, a transaction whose
  commit was refused reads every key as absent, and a failed allocation destroys a provider twice; a request the host's executor
  refuses stays pending and its client object is gone, a completion it refuses is lost, a withdrawn server leaves its requests
  unanswered, samples can arrive out of order, a discovery that fails leaves watches behind, a response that cannot be encoded into a
  loan is never sent, and a subscription closed from its own callback waits for ever.

  \<^bold>\<open>Not modelled.\<close> The execution cluster's deployment loading and application client, the communication cluster's generated code
  support, logging, and the crypto cluster. The SQLite, Botan, iceoryx2, vsomeip and dinit adapters are calls into libraries that are not
  part of the sources; the daemon, examples, generators and build files are glue.
\<close>

end
